(* ===== verification/Prelude.thy ===== *)
theory Prelude
  imports Main "HOL-Library.Product_Lexorder" "HOL-Library.Option_ord"
begin

text \<open>
  What every other theory uses: results of operations that may raise, the loop combinator over
  them, the calendar dates of the models, and the named collections the component theories fill
  (\<open>wms_ok\<close> for facts that turn a successful run into its steps, \<open>wms_inv\<close> for preservation
  facts).
\<close>

named_theorems wms_ok
named_theorems wms_inv

section \<open>Results of operations that may raise\<close>

text \<open>
  An operation of the program either raises (\<open>Inl\<close> of the exception) or returns (\<open>Inr\<close>).
  The database state is part of what is returned, so an exception that leaves a
  \<open>transaction.atomic\<close> block drops the writes of the block, as the rollback does.
\<close>

definition res_bind :: "'e + 'a \<Rightarrow> ('a \<Rightarrow> 'e + 'b) \<Rightarrow> 'e + 'b" where
  "res_bind r f = (case r of Inl e \<Rightarrow> Inl e | Inr x \<Rightarrow> f x)"

lemma res_bind_simps [simp]:
  "res_bind (Inl e) f = Inl e"
  "res_bind (Inr x) f = f x"
  by (simp_all add: res_bind_def)

lemma res_bind_Inr [wms_ok]: "res_bind r f = Inr y \<longleftrightarrow> (\<exists>x. r = Inr x \<and> f x = Inr y)"
  by (cases r) auto

lemma res_bind_Inl: "res_bind r f = Inl e \<longleftrightarrow> r = Inl e \<or> (\<exists>x. r = Inr x \<and> f x = Inl e)"
  by (cases r) auto

lemma res_bind_cong [fundef_cong]:
  "r = r' \<Longrightarrow> (\<And>x. r' = Inr x \<Longrightarrow> f x = g x) \<Longrightarrow> res_bind r f = res_bind r' g"
  by (cases r') auto

text \<open>\<open>raise_if c e\<close> is the statement \<open>if c: raise e\<close> of the source.\<close>

definition raise_if :: "bool \<Rightarrow> 'e \<Rightarrow> 'e + unit" where
  "raise_if c e = (if c then Inl e else Inr ())"

lemma raise_if_Inr [wms_ok]: "raise_if c e = Inr u \<longleftrightarrow> \<not> c"
  by (simp add: raise_if_def)

lemma raise_if_simps [simp]:
  "raise_if True e = Inl e"
  "raise_if False e = Inr ()"
  by (simp_all add: raise_if_def)

text \<open>\<open>require x e\<close> is the fetch of an object that raises when there is none.\<close>

definition require :: "'a option \<Rightarrow> 'e \<Rightarrow> 'e + 'a" where
  "require x e = (case x of None \<Rightarrow> Inl e | Some y \<Rightarrow> Inr y)"

lemma require_Inr [wms_ok]: "require x e = Inr y \<longleftrightarrow> x = Some y"
  by (auto simp: require_def split: option.splits)

lemma require_simps [simp]:
  "require None e = Inl e"
  "require (Some y) e = Inr y"
  by (simp_all add: require_def)

definition is_ok :: "'e + 'a \<Rightarrow> bool" where
  "is_ok r = (case r of Inl _ \<Rightarrow> False | Inr _ \<Rightarrow> True)"

lemma is_ok_iff: "is_ok r \<longleftrightarrow> (\<exists>x. r = Inr x)"
  by (cases r) (auto simp: is_ok_def)

definition ok_or :: "'a \<Rightarrow> 'e + 'a \<Rightarrow> 'a" where
  "ok_or d r = (case r of Inl _ \<Rightarrow> d | Inr x \<Rightarrow> x)"

lemma ok_or_Inr [simp]: "ok_or d (Inr x) = x"
  by (simp add: ok_or_def)

lemma is_ok_ok_or: "is_ok r \<Longrightarrow> r = Inr (ok_or d r)"
  by (cases r) (auto simp: is_ok_def)

section \<open>Loops whose body may raise\<close>

fun for_each :: "('a \<Rightarrow> 's \<Rightarrow> 'e + 's) \<Rightarrow> 'a list \<Rightarrow> 's \<Rightarrow> 'e + 's" where
  "for_each f [] s = Inr s"
| "for_each f (x # xs) s = res_bind (f x s) (for_each f xs)"

text \<open>The loop invariant rule: what every round keeps, the loop keeps.\<close>

lemma for_each_inv:
  assumes "for_each f xs s = Inr s'"
    and "P s"
    and "\<And>x t t'. x \<in> set xs \<Longrightarrow> f x t = Inr t' \<Longrightarrow> P t \<Longrightarrow> P t'"
  shows "P s'"
  using assms
proof (induction xs arbitrary: s)
  case Nil
  then show ?case by simp
next
  case (Cons x xs)
  from Cons.prems(1) obtain t where t: "f x s = Inr t" "for_each f xs t = Inr s'"
    by (auto simp: wms_ok)
  from t(1) Cons.prems(2,3) have "P t" by auto
  with t(2) Cons.prems(3) show ?case by (intro Cons.IH) auto
qed

text \<open>The same for a relation between the states before and after.\<close>

lemma for_each_rel:
  assumes "for_each f xs s = Inr s'"
    and "\<And>t. R t t"
    and "\<And>t u v. R t u \<Longrightarrow> R u v \<Longrightarrow> R t v"
    and "\<And>x t t'. x \<in> set xs \<Longrightarrow> f x t = Inr t' \<Longrightarrow> R t t'"
  shows "R s s'"
  by (rule for_each_inv [OF assms(1), where P = "R s"]) (use assms in blast)+

text \<open>What every round of a plain loop keeps, the loop keeps.\<close>

lemma fold_keeps: "(\<And>x a. P a \<Longrightarrow> P (f x a)) \<Longrightarrow> P a \<Longrightarrow> P (fold f xs a)"
  by (induction xs arbitrary: a) auto

lemma for_each_append:
  "for_each f (xs @ ys) s = res_bind (for_each f xs s) (for_each f ys)"
  by (induction xs arbitrary: s) (auto simp: res_bind_def split: sum.splits)

lemma for_each_cong [fundef_cong]:
  "xs = ys \<Longrightarrow> s = t \<Longrightarrow> (\<And>x u. x \<in> set ys \<Longrightarrow> f x u = g x u) \<Longrightarrow> for_each f xs s = for_each g ys t"
proof (induction ys arbitrary: xs s t)
  case Nil
  then show ?case by simp
next
  case (Cons y ys)
  then have "for_each f ys = for_each g ys" by auto
  with Cons.prems show ?case by simp
qed

section \<open>Operations that keep an invariant\<close>

text \<open>
  The contract of a set of requests that may raise: each that succeeds keeps the invariant. A request
  that raises leaves the state as it was, so any sequence of attempts keeps it.
\<close>

locale kept =
  fixes run :: "'a \<Rightarrow> 's \<Rightarrow> 'e + 's"
    and inv :: "'s \<Rightarrow> bool"
  assumes run_inv: "run a s = Inr s' \<Longrightarrow> inv s \<Longrightarrow> inv s'"
begin

definition attempt :: "'a \<Rightarrow> 's \<Rightarrow> 's" where
  "attempt a s = ok_or s (run a s)"

lemma attempt_keeps: "inv s \<Longrightarrow> inv (attempt a s)"
  by (cases "run a s") (auto simp: attempt_def ok_or_def intro: run_inv)

lemma attempts_keep: "inv s \<Longrightarrow> inv (fold attempt as s)"
  by (induction as arbitrary: s) (auto dest: attempt_keeps)

end

section \<open>Dictionaries\<close>

text \<open>A dictionary comprehension: a later entry replaces the value of an earlier one in place.\<close>

definition dict_put :: "'k \<Rightarrow> 'v \<Rightarrow> ('k \<times> 'v) list \<Rightarrow> ('k \<times> 'v) list" where
  "dict_put k v d =
     (if k \<in> fst ` set d then map (\<lambda>(i, x). (i, if i = k then v else x)) d else d @ [(k, v)])"

lemma dict_put_map:
  "map (\<lambda>(i, x). (i, g x)) (dict_put k v d) = dict_put k (g v) (map (\<lambda>(i, x). (i, g x)) d)"
  by (force simp: dict_put_def)

lemma keys_dict_put: "fst ` set (dict_put k v d) = insert k (fst ` set d)"
  by (force simp: dict_put_def)

lemma distinct_dict_put: "distinct (map fst d) \<Longrightarrow> distinct (map fst (dict_put k v d))"
  by (auto simp: dict_put_def comp_def case_prod_beta)

section \<open>Calendar dates\<close>

text \<open>
  A Python \<open>date\<close>, ordered as Python orders it: by year, month and day. The models keep
  optional dates (\<open>null=True\<close>); \<open>None\<close> sorts before every date, as NULL does in an ascending
  \<open>ORDER BY\<close> of MySQL and SQLite, the databases the settings allow.
\<close>

datatype date = Date (d_year: nat) (d_month: nat) (d_day: nat)

instantiation date :: linorder
begin

definition less_eq_date :: "date \<Rightarrow> date \<Rightarrow> bool" where
  "less_eq_date a b = ((d_year a, d_month a, d_day a) \<le> (d_year b, d_month b, d_day b))"

definition less_date :: "date \<Rightarrow> date \<Rightarrow> bool" where
  "less_date a b = ((d_year a, d_month a, d_day a) < (d_year b, d_month b, d_day b))"

instance
proof
  fix x y z :: date
  show "(x < y) = (x \<le> y \<and> \<not> y \<le> x)"
    by (cases x; cases y) (auto simp: less_date_def less_eq_date_def)
  show "x \<le> x"
    by (simp add: less_eq_date_def)
  show "x \<le> y \<Longrightarrow> y \<le> z \<Longrightarrow> x \<le> z"
    unfolding less_eq_date_def by (rule order_trans)
  show "x \<le> y \<Longrightarrow> y \<le> x \<Longrightarrow> x = y"
    by (cases x; cases y) (auto simp: less_eq_date_def)
  show "x \<le> y \<or> y \<le> x"
    unfolding less_eq_date_def by (rule linear)
qed

end

section \<open>Lists and sums\<close>

lemma sum_list_map_filter_split:
  "sum_list (map f (filter P xs)) + sum_list (map f (filter (\<lambda>x. \<not> P x) xs))
     = (sum_list (map f xs) :: int)"
  by (induction xs) auto

lemma sum_list_map_nonneg: "(\<And>x. x \<in> set xs \<Longrightarrow> 0 \<le> f x) \<Longrightarrow> 0 \<le> (sum_list (map f xs) :: int)"
  by (induction xs) auto

lemma sum_list_map_ge_member:
  "x \<in> set xs \<Longrightarrow> (\<And>y. y \<in> set xs \<Longrightarrow> 0 \<le> f y) \<Longrightarrow> f x \<le> (sum_list (map f xs) :: int)"
proof (induction xs)
  case Nil
  then show ?case by simp
next
  case (Cons y ys)
  have "0 \<le> sum_list (map f ys)" and "0 \<le> f y"
    using Cons.prems(2) by (auto intro: sum_list_map_nonneg)
  then show ?case
    using Cons by (cases "x = y") (auto intro: add_increasing)
qed

lemma length_filter_less_iff: "length (filter P xs) < length xs \<longleftrightarrow> (\<exists>x \<in> set xs. \<not> P x)"
proof
  assume less: "length (filter P xs) < length xs"
  show "\<exists>x \<in> set xs. \<not> P x"
  proof (rule ccontr)
    assume "\<not> (\<exists>x \<in> set xs. \<not> P x)"
    then have "filter P xs = xs" by (intro filter_True) blast
    with less show False by simp
  qed
next
  assume "\<exists>x \<in> set xs. \<not> P x"
  then show "length (filter P xs) < length xs" by (auto intro: length_filter_less)
qed

end
