(* ===== verification/Tables.thy ===== *)
theory Tables
  imports Prelude
begin

text \<open>
  A database table: the rows with their primary keys, in insertion order. The operations are
  those the Django ORM calls of the source come down to (\<open>get\<close>, \<open>save(update_fields=...)\<close>,
  \<open>create\<close>, \<open>delete\<close>, \<open>filter\<close>), and the laws they obey are stated once as the locale
  \<open>row_store\<close>, which the tables of the model interpret.
\<close>

type_synonym 'r table = "(nat \<times> 'r) list"

definition row_get :: "'r table \<Rightarrow> nat \<Rightarrow> 'r option" where
  "row_get t k = map_of t k"

definition row_upd :: "nat \<Rightarrow> ('r \<Rightarrow> 'r) \<Rightarrow> 'r table \<Rightarrow> 'r table" where
  "row_upd k f t = map (\<lambda>(i, r). (i, if i = k then f r else r)) t"

definition row_del :: "nat \<Rightarrow> 'r table \<Rightarrow> 'r table" where
  "row_del k t = filter (\<lambda>(i, r). i \<noteq> k) t"

definition next_pk :: "'r table \<Rightarrow> nat" where
  "next_pk t = Suc (fold max (map fst t) 0)"

definition row_ins :: "'r \<Rightarrow> 'r table \<Rightarrow> 'r table" where
  "row_ins r t = t @ [(next_pk t, r)]"

definition rows_where :: "(nat \<Rightarrow> 'r \<Rightarrow> bool) \<Rightarrow> 'r table \<Rightarrow> (nat \<times> 'r) list" where
  "rows_where P t = filter (\<lambda>(i, r). P i r) t"

definition keys_ok :: "'r table \<Rightarrow> bool" where
  "keys_ok t \<longleftrightarrow> distinct (map fst t)"

section \<open>The interface and what follows from it\<close>

locale row_store =
  fixes get :: "'t \<Rightarrow> nat \<Rightarrow> 'r option"
    and upd :: "nat \<Rightarrow> ('r \<Rightarrow> 'r) \<Rightarrow> 't \<Rightarrow> 't"
    and del :: "nat \<Rightarrow> 't \<Rightarrow> 't"
    and ins :: "'r \<Rightarrow> 't \<Rightarrow> 't"
    and fresh :: "'t \<Rightarrow> nat"
    and inv :: "'t \<Rightarrow> bool"
  assumes get_upd: "get (upd k f t) j = (if j = k then map_option f (get t j) else get t j)"
    and get_del: "get (del k t) j = (if j = k then None else get t j)"
    and get_ins: "get (ins r t) j = (if j = fresh t then Some r else get t j)"
    and get_fresh: "get t (fresh t) = None"
    and inv_upd: "inv t \<Longrightarrow> inv (upd k f t)"
    and inv_del: "inv t \<Longrightarrow> inv (del k t)"
    and inv_ins: "inv t \<Longrightarrow> inv (ins r t)"
begin

lemma get_upd_same: "get t k = Some r \<Longrightarrow> get (upd k f t) k = Some (f r)"
  by (simp add: get_upd)

lemma get_upd_other: "j \<noteq> k \<Longrightarrow> get (upd k f t) j = get t j"
  by (simp add: get_upd)

lemma get_ins_same: "get (ins r t) (fresh t) = Some r"
  by (simp add: get_ins)

lemma get_ins_old: "get t j = Some r' \<Longrightarrow> get (ins r t) j = Some r'"
  by (auto simp: get_ins get_fresh)

text \<open>A property of all rows is kept by a write that keeps it for the row written.\<close>

lemma all_rows_upd:
  assumes "\<And>j r. get t j = Some r \<Longrightarrow> P r" and "\<And>r. get t k = Some r \<Longrightarrow> P r \<Longrightarrow> P (f r)"
    and "get (upd k f t) j = Some r"
  shows "P r"
  using assms by (auto simp: get_upd split: if_splits)

lemma all_rows_ins:
  assumes "\<And>j r. get t j = Some r \<Longrightarrow> P r" and "P r0" and "get (ins r0 t) j = Some r"
  shows "P r"
  using assms by (auto simp: get_ins split: if_splits)

end

section \<open>The list tables of the model\<close>

lemma fold_max_ge: "(m::nat) \<le> fold max xs m"
  by (induction xs arbitrary: m) (auto intro: order_trans [OF max.cobounded2])

lemma member_le_fold_max: "x \<in> set xs \<Longrightarrow> (x::nat) \<le> fold max xs m"
proof (induction xs arbitrary: m)
  case Nil
  then show ?case by simp
next
  case (Cons y ys)
  then show ?case using fold_max_ge [of "max y m" ys] by auto
qed

lemma next_pk_fresh: "next_pk t \<notin> fst ` set t"
proof
  assume "next_pk t \<in> fst ` set t"
  then have "next_pk t \<in> set (map fst t)" by simp
  from member_le_fold_max [OF this, of 0] show False
    by (simp add: next_pk_def)
qed

lemma row_get_upd:
  "row_get (row_upd k f t) j = (if j = k then map_option f (row_get t j) else row_get t j)"
  by (induction t) (auto simp: row_get_def row_upd_def)

lemma row_get_del: "row_get (row_del k t) j = (if j = k then None else row_get t j)"
  by (induction t) (auto simp: row_get_def row_del_def)

lemma row_get_fresh: "row_get t (next_pk t) = None"
  using next_pk_fresh [of t] by (simp add: row_get_def map_of_eq_None_iff)

lemma row_get_ins: "row_get (row_ins r t) j = (if j = next_pk t then Some r else row_get t j)"
  using row_get_fresh [of t]
  by (auto simp: row_get_def row_ins_def map_add_def split: option.splits)

lemma keys_ok_upd [wms_inv]: "keys_ok t \<Longrightarrow> keys_ok (row_upd k f t)"
  by (simp add: keys_ok_def row_upd_def comp_def case_prod_beta)

lemma keys_ok_del [wms_inv]: "keys_ok t \<Longrightarrow> keys_ok (row_del k t)"
  by (induction t) (auto simp: keys_ok_def row_del_def)

lemma keys_ok_ins [wms_inv]: "keys_ok t \<Longrightarrow> keys_ok (row_ins r t)"
  using next_pk_fresh [of t] by (simp add: keys_ok_def row_ins_def)

interpretation rows: row_store row_get row_upd row_del row_ins next_pk keys_ok
  by unfold_locales
    (simp_all add: row_get_upd row_get_del row_get_ins row_get_fresh keys_ok_upd keys_ok_del
      keys_ok_ins)

lemma row_get_mem: "row_get t k = Some r \<Longrightarrow> (k, r) \<in> set t"
  by (simp add: row_get_def map_of_SomeD)

lemma row_get_iff: "keys_ok t \<Longrightarrow> row_get t k = Some r \<longleftrightarrow> (k, r) \<in> set t"
  by (simp add: keys_ok_def row_get_def)

lemma keys_ok_unique: "keys_ok t \<Longrightarrow> (k, r) \<in> set t \<Longrightarrow> (k, r') \<in> set t \<Longrightarrow> r = r'"
  by (metis option.inject row_get_iff)

lemma map_fst_row_upd [simp]: "map fst (row_upd k f t) = map fst t"
  by (simp add: row_upd_def case_prod_beta comp_def)

lemma rows_where_mem: "(k, r) \<in> set (rows_where P t) \<longleftrightarrow> (k, r) \<in> set t \<and> P k r"
  by (auto simp: rows_where_def)

lemma distinct_rows_where: "keys_ok t \<Longrightarrow> distinct (map fst (rows_where P t))"
  by (induction t) (auto simp: keys_ok_def rows_where_def)

lemma row_get_map:
  "row_get (map (\<lambda>(i, r). (i, f i r)) t) j = map_option (f j) (row_get t j)"
  by (induction t) (auto simp: row_get_def)

lemma next_pk_ins: "next_pk (row_ins r t) = Suc (next_pk t)"
  by (simp add: next_pk_def row_ins_def)

lemma fold_row_ins: "fold row_ins cs t = t @ zip [next_pk t..<next_pk t + length cs] cs"
proof (induction cs arbitrary: t)
  case Nil
  then show ?case by simp
next
  case (Cons c cs)
  have "[next_pk t..<next_pk t + length (c # cs)] = next_pk t # [Suc (next_pk t)..<Suc (next_pk t) + length cs]"
    by (simp add: upt_rec)
  with Cons [of "row_ins c t"] show ?case
    by (simp add: next_pk_ins) (simp add: row_ins_def)
qed

section \<open>Sums over a table\<close>

definition row_sum :: "('r \<Rightarrow> int) \<Rightarrow> 'r table \<Rightarrow> int" where
  "row_sum f t = sum_list (map (\<lambda>(k, r). f r) t)"

lemma row_sum_simps [simp]:
  "row_sum f [] = 0"
  "row_sum f ((k, r) # t) = f r + row_sum f t"
  "row_sum f (t @ u) = row_sum f t + row_sum f u"
  by (simp_all add: row_sum_def)

lemma row_sum_ins [simp]: "row_sum f (row_ins r t) = row_sum f t + f r"
  by (simp add: row_ins_def)

text \<open>Writing one row changes the sum by the difference of its contribution.\<close>

lemma row_upd_absent: "k \<notin> fst ` set t \<Longrightarrow> row_upd k g t = t"
  by (induction t) (auto simp: row_upd_def)

lemma row_sum_upd:
  assumes "keys_ok t" and "row_get t k = Some r"
  shows "row_sum f (row_upd k g t) = row_sum f t + (f (g r) - f r)"
  using assms
proof (induction t)
  case Nil
  then show ?case by (simp add: row_get_def)
next
  case (Cons a t)
  obtain i s where a: "a = (i, s)" by (cases a)
  show ?case
  proof (cases "i = k")
    case True
    with Cons.prems a have "k \<notin> fst ` set t" and "s = r"
      by (auto simp: keys_ok_def row_get_def)
    then have "row_upd k g t = t" by (simp add: row_upd_absent)
    with True a \<open>s = r\<close> show ?thesis by (simp add: row_upd_def)
  next
    case False
    with Cons a show ?thesis by (auto simp: keys_ok_def row_get_def row_upd_def)
  qed
qed

lemma row_sum_upd_same:
  "(\<And>r. f (g r) = f r) \<Longrightarrow> row_sum f (row_upd k g t) = row_sum f t"
  by (induction t) (auto simp: row_upd_def)

lemma row_del_absent: "k \<notin> fst ` set t \<Longrightarrow> row_del k t = t"
  by (induction t) (auto simp: row_del_def)

lemma row_sum_del:
  assumes "keys_ok t" and "row_get t k = Some r"
  shows "row_sum f (row_del k t) = row_sum f t - f r"
  using assms
proof (induction t)
  case Nil
  then show ?case by (simp add: row_get_def)
next
  case (Cons a t)
  obtain i s where a: "a = (i, s)" by (cases a)
  show ?case
  proof (cases "i = k")
    case True
    with Cons.prems a have "k \<notin> fst ` set t" and "s = r"
      by (auto simp: keys_ok_def row_get_def)
    then have "row_del k t = t" by (simp add: row_del_absent)
    with True a \<open>s = r\<close> show ?thesis by (simp add: row_del_def)
  next
    case False
    with Cons a show ?thesis by (auto simp: keys_ok_def row_get_def row_del_def)
  qed
qed

lemma row_sum_nonneg: "(\<And>k r. (k, r) \<in> set t \<Longrightarrow> 0 \<le> f r) \<Longrightarrow> 0 \<le> row_sum f t"
  unfolding row_sum_def by (rule sum_list_map_nonneg) auto

end
