(* ===== verification/Data_Model.thy ===== *)
theory Data_Model
  imports Complex_Main Tables
begin

text \<open>
  The tables of the warehouse (\<open>wms/models_domain/catalog.py\<close>, \<open>inventory.py\<close>,
  \<open>shipment.py\<close>, \<open>portal.py\<close>): one enumeration per \<open>TextChoices\<close> class, one record per model,
  and the record \<open>db\<close> of all tables, which the operations of the other theories read and return
  updated. Foreign keys are primary keys (\<open>nat\<close>), nullable ones optional; decimals are
  rationals; instants are integers. Image and file columns, which hold media paths the logic never
  reads, have no field.
\<close>

section \<open>Catalog\<close>

record category =
  cat_name :: string
  cat_parent :: "nat option"

record product =
  p_sku :: string
  p_name :: string
  p_brand :: string
  p_color :: string
  p_category :: "nat option"
  p_barcode :: string
  p_ean :: string
  p_pu_ht :: "rat option"
  p_tva :: "rat option"
  p_pu_ttc :: "rat option"
  p_default_location :: "nat option"
  p_length_cm :: "rat option"
  p_width_cm :: "rat option"
  p_height_cm :: "rat option"
  p_weight_g :: "int option"
  p_volume_cm3 :: "int option"
  p_storage_conditions :: string
  p_perishable :: bool
  p_quarantine_default :: bool
  p_is_active :: bool
  p_notes :: string

record kit_item =
  ki_kit :: nat
  ki_component :: nat
  ki_quantity :: int

section \<open>Inventory\<close>

record location =
  loc_warehouse :: nat
  loc_zone :: string
  loc_aisle :: string
  loc_shelf :: string
  loc_notes :: string

datatype lot_status = Lot_Quarantined | Lot_Available | Lot_Hold | Lot_Expired

record lot =
  l_product :: nat
  l_lot_code :: string
  l_expires_on :: "date option"
  l_received_on :: "date option"
  l_status :: lot_status
  quantity_on_hand :: int
  quantity_reserved :: int
  l_location :: nat
  l_source_receipt :: "nat option"
  l_storage_conditions :: string
  l_quarantine_reason :: string
  l_released_by :: "nat option"
  l_released_at :: "int option"

datatype receipt_type = Rt_Donation | Rt_Pallet | Rt_Association | Rt_Other

datatype receipt_status = Rc_Draft | Rc_Received | Rc_Cancelled

record receipt =
  rc_reference :: string
  rc_type :: receipt_type
  rc_status :: receipt_status
  rc_source_contact :: "nat option"
  rc_carrier_contact :: "nat option"
  rc_origin_reference :: string
  rc_carrier_reference :: string
  rc_pallet_count :: "nat option"
  rc_carton_count :: "nat option"
  rc_hors_format_count :: "nat option"
  rc_transport_request_date :: "date option"
  rc_pickup_charge_amount :: "rat option"
  rc_pickup_charge_currency :: string
  rc_pickup_charge_comment :: string
  rc_received_on :: date
  rc_warehouse :: nat
  rc_created_at :: int
  rc_created_by :: "nat option"
  rc_notes :: string

record receipt_line =
  rl_receipt :: nat
  rl_product :: nat
  rl_quantity :: int
  rl_lot_code :: string
  rl_expires_on :: "date option"
  rl_lot_status :: "lot_status option"
  rl_location :: "nat option"
  rl_storage_conditions :: string
  rl_received_lot :: "nat option"
  rl_received_by :: "nat option"
  rl_received_at :: "int option"

text \<open>The counters that number receipts, shipments and cartons.\<close>

record year_sequence =
  ys_year :: nat
  ys_last_number :: nat

record donor_sequence =
  ds_year :: nat
  ds_donor :: nat
  ds_last_number :: nat

record carton_sequence =
  cs_family :: string
  cs_last_number :: nat

record destination =
  d_city :: string
  d_iata_code :: string
  d_country :: string
  d_correspondent_contact :: nat
  d_is_active :: bool

section \<open>Shipments and cartons\<close>

datatype shipment_status =
    Ship_Draft | Ship_Picking | Ship_Packed | Ship_Planned | Ship_Shipped
  | Ship_Received_Correspondent | Ship_Delivered

record shipment =
  s_reference :: string
  s_tracking_token :: nat
  s_status :: shipment_status
  s_shipper_name :: string
  s_shipper_contact_ref :: "nat option"
  s_shipper_contact :: string
  s_recipient_name :: string
  s_recipient_contact_ref :: "nat option"
  s_recipient_contact :: string
  s_correspondent_name :: string
  s_correspondent_contact_ref :: "nat option"
  s_destination :: "nat option"
  s_destination_address :: string
  s_destination_country :: string
  s_requested_delivery_date :: "date option"
  s_is_disputed :: bool
  s_disputed_at :: "int option"
  s_created_at :: int
  s_ready_at :: "int option"
  s_archived_at :: "int option"
  s_closed_at :: "int option"
  s_closed_by :: "nat option"
  s_created_by :: "nat option"
  s_notes :: string

datatype tracking_status =
    Tr_Planning_Ok | Tr_Planned | Tr_Moved_Export | Tr_Boarding_Ok
  | Tr_Received_Correspondent | Tr_Received_Recipient

record tracking_event =
  te_shipment :: nat
  te_status :: tracking_status
  te_actor_name :: string
  te_actor_structure :: string
  te_comments :: string
  te_created_by :: "nat option"
  te_created_at :: int

record carton_format =
  cf_name :: string
  cf_length_cm :: rat
  cf_width_cm :: rat
  cf_height_cm :: rat
  cf_max_weight_g :: int
  cf_is_default :: bool

datatype carton_status =
    Ct_Draft | Ct_Picking | Ct_Packed | Ct_Assigned | Ct_Labeled | Ct_Shipped

record carton =
  c_code :: string
  c_status :: carton_status
  c_length_cm :: "rat option"
  c_width_cm :: "rat option"
  c_height_cm :: "rat option"
  c_current_location :: "nat option"
  c_shipment :: "nat option"
  c_preassigned_destination :: "nat option"
  c_prepared_by :: "nat option"
  c_created_at :: int
  c_notes :: string

record carton_event =
  ce_carton :: nat
  ce_previous_status :: carton_status
  ce_new_status :: carton_status
  ce_reason :: string
  ce_created_by :: "nat option"
  ce_created_at :: int

record carton_item =
  it_carton :: nat
  it_lot :: nat
  it_quantity :: int
  it_display_expires_on :: "date option"

datatype movement_type = Mv_In | Mv_Out | Mv_Transfer | Mv_Adjust | Mv_Precondition | Mv_Unpack

record movement =
  mv_type :: movement_type
  mv_product :: nat
  mv_lot :: nat
  mv_quantity :: int
  mv_from_location :: "nat option"
  mv_to_location :: "nat option"
  mv_reason_code :: string
  mv_reason_notes :: string
  mv_related_carton :: "nat option"
  mv_related_shipment :: "nat option"
  mv_created_by :: "nat option"
  mv_created_at :: int

section \<open>Orders\<close>

datatype order_status = Ord_Draft | Ord_Reserved | Ord_Preparing | Ord_Ready | Ord_Cancelled

datatype order_review_status = Rev_Pending | Rev_Approved | Rev_Rejected | Rev_Changes_Requested

record order =
  o_reference :: string
  o_status :: order_status
  o_review_status :: order_review_status
  o_public_link :: "nat option"
  o_association_contact :: "nat option"
  o_shipper_name :: string
  o_recipient_name :: string
  o_correspondent_name :: string
  o_shipper_contact :: "nat option"
  o_recipient_contact :: "nat option"
  o_correspondent_contact :: "nat option"
  o_destination_address :: string
  o_destination_city :: string
  o_destination_country :: string
  o_requested_delivery_date :: "date option"
  o_shipment :: "nat option"
  o_reviewed_at :: "int option"
  o_created_at :: int
  o_created_by :: "nat option"
  o_notes :: string

record order_line =
  ol_order :: nat
  ol_product :: nat
  ol_quantity :: int
  ol_reserved_quantity :: int
  ol_prepared_quantity :: int

definition remaining_quantity :: "order_line \<Rightarrow> int" where
  "remaining_quantity l = max 0 (ol_quantity l - ol_prepared_quantity l)"

record reservation =
  rs_order_line :: nat
  rs_lot :: nat
  rs_quantity :: int
  rs_created_at :: int

section \<open>Contacts\<close>

datatype contact_type = Con_Organization | Con_Person

record contact =
  con_type :: contact_type
  con_name :: string
  con_title :: string
  con_first_name :: string
  con_last_name :: string
  con_organization :: "nat option"
  con_role :: string
  con_email :: string
  con_email2 :: string
  con_phone :: string
  con_phone2 :: string
  con_siret :: string
  con_vat_number :: string
  con_legal_registration_number :: string
  con_asf_id :: "string option"
  con_use_organization_address :: bool
  con_notes :: string
  con_is_active :: bool

section \<open>The database\<close>

record db =
  db_categories :: "category table"
  db_products :: "product table"
  db_kit_items :: "kit_item table"
  db_locations :: "location table"
  db_lots :: "lot table"
  db_receipts :: "receipt table"
  db_receipt_lines :: "receipt_line table"
  db_movements :: "movement table"
  db_carton_formats :: "carton_format table"
  db_carton_sequences :: "carton_sequence table"
  db_receipt_sequences :: "year_sequence table"
  db_donor_sequences :: "donor_sequence table"
  db_shipment_sequences :: "year_sequence table"
  db_contacts :: "contact table"
  db_destinations :: "destination table"
  db_cartons :: "carton table"
  db_carton_items :: "carton_item table"
  db_carton_events :: "carton_event table"
  db_shipments :: "shipment table"
  db_tracking :: "tracking_event table"
  db_orders :: "order table"
  db_order_lines :: "order_line table"
  db_reservations :: "reservation table"

text \<open>
  What an operation takes from its surroundings: the clock, the time zone's calendar, and the
  Unicode tables behind \<open>unicodedata.normalize("NFKD", s).encode("ascii", "ignore")\<close>.
\<close>

record env =
  e_now :: int
  e_localdate :: "int \<Rightarrow> date"
  e_ascii_fold :: "string \<Rightarrow> string"

definition e_today :: "env \<Rightarrow> date" where
  "e_today e = e_localdate e (e_now e)"

text \<open>
  The exceptions. A \<open>StockError\<close> carries the message of the source as a constructor;
  \<open>Does_Not_Exist\<close> is a failed fetch of a row that a foreign key names.
\<close>

datatype stock_msg =
    Quantite_Invalide | Requis string | Introuvable string | Carton_Expedie | Expedition_En_Litige
  | Expedition_Expediee | Carton_Deja_Lie | Reception_Deja_Traitee | Reception_Annulee
  | Emplacement_Requis | Quantite_Nulle | Stock_Insuffisant_Ajustement | Stock_Reserve
  | Meme_Emplacement | Stock_Insuffisant int | Kit_Cycle | Kit_Vide | Composant_Introuvable
  | Carton_Vide | Commande_Non_Modifiable | Commande_Stock_Insuffisant nat int
  | Reservation_Insuffisante_Liberer | Reservation_Insuffisante_Consommer
  | Commande_Non_Reservee | Expedition_Verrouillee | Format_Manquant | Erreur_Colisage string
  | Produit_Manquant | Partie_Invalide string

datatype err =
    Stock_Error stock_msg
  | Value_Error string
  | Integrity_Error
  | Broken_Transaction
  | Does_Not_Exist
  | Kit_Cycle_Error "nat list"
  | Attribute_Error
  | Type_Error
  | Validation_Error string
  | Runtime_Error string
  | Diverges

end
