(* ===== verification/Text_Codes.thy ===== *)
theory Text_Codes
  imports Main
begin

text \<open>
  The string operations the numbering code uses, on ASCII strings: \<open>str.strip\<close>, \<open>str.upper\<close>,
  \<open>str.ljust\<close>, \<open>str.isalnum\<close>, decimal formatting with zero padding (\<open>f"{n:05d}"\<close>) and parsing,
  and the anchored regular expressions of the codes. In a Python pattern \<open>$\<close> also matches before
  a final newline, which \<open>at_end\<close> writes out.
\<close>

section \<open>Characters\<close>

definition is_digit :: "char \<Rightarrow> bool" where
  "is_digit c \<longleftrightarrow> 48 \<le> (of_char c :: nat) \<and> (of_char c :: nat) \<le> 57"

definition is_upper :: "char \<Rightarrow> bool" where
  "is_upper c \<longleftrightarrow> 65 \<le> (of_char c :: nat) \<and> (of_char c :: nat) \<le> 90"

definition is_lower :: "char \<Rightarrow> bool" where
  "is_lower c \<longleftrightarrow> 97 \<le> (of_char c :: nat) \<and> (of_char c :: nat) \<le> 122"

definition is_alnum :: "char \<Rightarrow> bool" where
  "is_alnum c \<longleftrightarrow> is_digit c \<or> is_upper c \<or> is_lower c"

definition is_space :: "char \<Rightarrow> bool" where
  "is_space c \<longleftrightarrow> (of_char c :: nat) = 32 \<or> (9 \<le> (of_char c :: nat) \<and> (of_char c :: nat) \<le> 13)
     \<or> (28 \<le> (of_char c :: nat) \<and> (of_char c :: nat) \<le> 31)"

definition upper_char :: "char \<Rightarrow> char" where
  "upper_char c = (if is_lower c then char_of ((of_char c :: nat) - 32) else c)"

definition lower_char :: "char \<Rightarrow> char" where
  "lower_char c = (if is_upper c then char_of ((of_char c :: nat) + 32) else c)"

definition digit_char :: "nat \<Rightarrow> char" where
  "digit_char d = char_of (48 + d)"

definition digit_value :: "char \<Rightarrow> nat" where
  "digit_value c = of_char c - 48"

lemma of_char_digit: "d < 10 \<Longrightarrow> (of_char (digit_char d) :: nat) = 48 + d"
  by (simp add: digit_char_def)

lemma is_digit_digit_char [simp]: "d < 10 \<Longrightarrow> is_digit (digit_char d)"
  by (simp add: is_digit_def of_char_digit)

lemma digit_value_digit_char [simp]: "d < 10 \<Longrightarrow> digit_value (digit_char d) = d"
  by (simp add: digit_value_def of_char_digit)

section \<open>Strings\<close>

definition strip :: "string \<Rightarrow> string" where
  "strip s = rev (dropWhile is_space (rev (dropWhile is_space s)))"

definition str_upper :: "string \<Rightarrow> string" where
  "str_upper s = map upper_char s"

definition str_lower :: "string \<Rightarrow> string" where
  "str_lower s = map lower_char s"

definition ljust :: "string \<Rightarrow> nat \<Rightarrow> char \<Rightarrow> string" where
  "ljust s w c = s @ replicate (w - length s) c"

definition startswith :: "string \<Rightarrow> string \<Rightarrow> bool" where
  "startswith s p \<longleftrightarrow> take (length p) s = p"

text \<open>\<open>a or b or ... or ""\<close> of texts: the first that is not empty.\<close>

definition first_text :: "string list \<Rightarrow> string" where
  "first_text xs = (case dropWhile (\<lambda>x. x = []) xs of [] \<Rightarrow> [] | x # _ \<Rightarrow> x)"

text \<open>The non-empty words of \<open>re.split(r"[^A-Za-z0-9]+", s)\<close>.\<close>

function alnum_words :: "string \<Rightarrow> string list" where
  "alnum_words [] = []"
| "alnum_words (c # s) =
     (if is_alnum c
      then (c # takeWhile is_alnum s) # alnum_words (dropWhile is_alnum s)
      else alnum_words s)"
  by pat_completeness auto
termination
  by (relation "measure length") (auto simp: le_imp_less_Suc length_dropWhile_le)

lemma strip_no_space: "(\<And>c. c \<in> set s \<Longrightarrow> \<not> is_space c) \<Longrightarrow> strip s = s"
proof -
  assume ns: "\<And>c. c \<in> set s \<Longrightarrow> \<not> is_space c"
  have drop: "dropWhile is_space xs = xs" if "\<And>c. c \<in> set xs \<Longrightarrow> \<not> is_space c" for xs
    using that by (cases xs) auto
  have "dropWhile is_space s = s" and "dropWhile is_space (rev s) = rev s"
    using ns by (auto intro!: drop)
  then show ?thesis by (simp add: strip_def)
qed

lemma length_take_ljust: "n \<le> length (ljust s n c)"
  by (simp add: ljust_def)

lemma length_ljust_take [simp]: "length (take n (ljust s n c)) = n"
  using length_take_ljust [of n s c] by simp

lemma min_length_ljust [simp]: "min (length (ljust s n c)) n = n" "min n (length (ljust s n c)) = n"
  using length_take_ljust [of n s c] by simp_all

section \<open>Decimal numbers\<close>

fun nat_str :: "nat \<Rightarrow> string" where
  "nat_str n = (if n < 10 then [digit_char n] else nat_str (n div 10) @ [digit_char (n mod 10)])"

declare nat_str.simps [simp del]

text \<open>The digits computed on integers, which evaluation keeps in binary.\<close>

function int_str :: "int \<Rightarrow> string" where
  "int_str n = (if n < 10 then [digit_char (nat n)] else int_str (n div 10) @ [digit_char (nat (n mod 10))])"
  by pat_completeness auto
termination
  by (relation "measure nat") (auto simp: nat_less_iff)

declare int_str.simps [simp del]

lemma nat_str_code [code]: "nat_str n = int_str (int n)"
proof (induction n rule: nat_str.induct)
  case (1 n)
  then show ?case
    by (subst nat_str.simps, subst int_str.simps) (auto simp: zdiv_int nat_mod_distrib)
qed

text \<open>\<open>f"{n:0wd}"\<close> for a non-negative number.\<close>

definition zero_pad :: "nat \<Rightarrow> nat \<Rightarrow> string" where
  "zero_pad w n = replicate (w - length (nat_str n)) (CHR ''0'') @ nat_str n"

definition parse_nat :: "string \<Rightarrow> nat" where
  "parse_nat s = fold (\<lambda>c n. 10 * n + digit_value c) s 0"

definition all_digits :: "string \<Rightarrow> bool" where
  "all_digits s \<longleftrightarrow> list_all is_digit s"

lemma nat_str_nonempty [simp]: "nat_str n \<noteq> []"
  by (subst nat_str.simps) simp

lemma all_digits_nat_str [simp]: "all_digits (nat_str n)"
proof (induction n rule: nat_str.induct)
  case (1 n)
  then show ?case by (subst nat_str.simps) (auto simp: all_digits_def)
qed

lemma parse_nat_append: "parse_nat (s @ [c]) = 10 * parse_nat s + digit_value c"
  by (simp add: parse_nat_def)

lemma parse_nat_str [simp]: "parse_nat (nat_str n) = n"
proof (induction n rule: nat_str.induct)
  case (1 n)
  show ?case
  proof (cases "n < 10")
    case True
    then show ?thesis by (subst nat_str.simps) (simp add: parse_nat_def)
  next
    case False
    with 1 show ?thesis by (subst nat_str.simps) (simp add: parse_nat_append)
  qed
qed

lemma digit_value_zero [simp]: "digit_value (CHR ''0'') = 0"
  by (simp add: digit_value_def)

lemma is_digit_zero [simp]: "is_digit (CHR ''0'')"
  by (simp add: is_digit_def)

lemma parse_nat_zeros: "parse_nat (replicate k (CHR ''0'') @ s) = parse_nat s"
  by (induction k) (simp_all add: parse_nat_def)

lemma parse_zero_pad [simp]: "parse_nat (zero_pad w n) = n"
  by (simp add: zero_pad_def parse_nat_zeros)

lemma all_digits_zero_pad [simp]: "all_digits (zero_pad w n)"
  using all_digits_nat_str [of n] by (auto simp: zero_pad_def all_digits_def list_all_iff)

lemma zero_pad_nonempty [simp]: "zero_pad w n \<noteq> []"
  by (simp add: zero_pad_def)

lemma zero_pad_inj: "zero_pad w m = zero_pad w n \<Longrightarrow> m = n"
  by (metis parse_zero_pad)

lemma length_nat_str: "n < 10 ^ k \<Longrightarrow> 0 < k \<Longrightarrow> length (nat_str n) \<le> k"
proof (induction k arbitrary: n)
  case 0
  then show ?case by simp
next
  case (Suc k)
  show ?case
  proof (cases "n < 10")
    case True
    then show ?thesis by (subst nat_str.simps) simp
  next
    case False
    have "n div 10 < 10 ^ k" using Suc.prems(1) by (simp add: less_mult_imp_div_less mult.commute)
    moreover have "0 < k" using False Suc.prems(1) by (cases k) auto
    ultimately have "length (nat_str (n div 10)) \<le> k" by (rule Suc.IH)
    with False show ?thesis by (subst nat_str.simps) simp
  qed
qed

lemma length_zero_pad: "n < 10 ^ w \<Longrightarrow> 0 < w \<Longrightarrow> length (zero_pad w n) = w"
  using length_nat_str [of n w] by (simp add: zero_pad_def)

lemma length_zero_pad_ge: "w \<le> length (zero_pad w n)"
  by (simp add: zero_pad_def)

section \<open>Anchored patterns\<close>

definition at_end :: "string \<Rightarrow> bool" where
  "at_end s \<longleftrightarrow> s = [] \<or> s = [CHR 0x0A]"

text \<open>\<open>\d+$\<close>: the digits up to the end, if there is at least one.\<close>

definition match_digits_end :: "string \<Rightarrow> string option" where
  "match_digits_end s =
     (let ds = takeWhile is_digit s
      in if ds \<noteq> [] \<and> at_end (dropWhile is_digit s) then Some ds else None)"

lemma match_digits_end_all: "all_digits s \<Longrightarrow> s \<noteq> [] \<Longrightarrow> match_digits_end s = Some s"
proof -
  assume digits: "all_digits s" and ne: "s \<noteq> []"
  from digits have tw: "takeWhile is_digit s = s" and dw: "dropWhile is_digit s = []"
    by (auto simp: all_digits_def list_all_iff)
  show ?thesis unfolding match_digits_end_def Let_def tw dw using ne by (simp add: at_end_def)
qed

end
