(* ===== verification/References.thy ===== *)
theory References
  imports Data_Model Text_Codes "HOL-Library.Char_ord" "HOL-Library.List_Lexorder"
begin

text \<open>
  Reference numbers (\<open>wms/reference_sequences.py\<close>, and \<open>Shipment.save\<close> of
  \<open>wms/models_domain/shipment.py\<close>, which draws one): the yearly counters of receipts and
  shipments, the counter per donor, their start from the references already stored, and the format
  of the references. The \<open>except integrity_error\<close> arms answer a concurrent insert of the counter
  row between the fetch and the create; with one transaction at a time they are not taken.

  That numbers drawn one after the other never repeat is proved once, for any counter, in the
  locale \<open>counter\<close>; receipts, shipments and (in the theory of carton codes) cartons interpret it.
\<close>

section \<open>Counters\<close>

locale counter =
  fixes draw :: "'s \<Rightarrow> nat \<times> 's"
    and current :: "'s \<Rightarrow> nat"
    and started :: "'s \<Rightarrow> bool"
    and quiet :: "'s \<Rightarrow> 's \<Rightarrow> bool"
  assumes draw_number: "fst (draw s) = Suc (current s)"
    and draw_current: "current (snd (draw s)) = Suc (current s)"
    and draw_started: "started (snd (draw s))"
    and quiet_current: "started s \<Longrightarrow> quiet s t \<Longrightarrow> current t = current s"
    and quiet_started: "started s \<Longrightarrow> quiet s t \<Longrightarrow> started t"
begin

text \<open>Draws with quiet operations after each; the numbers drawn, in order.\<close>

fun draws :: "('s \<Rightarrow> 's) list \<Rightarrow> 's \<Rightarrow> nat list" where
  "draws [] s = []"
| "draws (f # fs) s = fst (draw s) # draws fs (f (snd (draw s)))"

lemma draws_increasing:
  assumes "\<And>f s. f \<in> set fs \<Longrightarrow> started s \<Longrightarrow> quiet s (f s)"
  shows "sorted_wrt (<) (draws fs s) \<and> (\<forall>n \<in> set (draws fs s). current s < n)"
  using assms
proof (induction fs arbitrary: s)
  case Nil
  then show ?case by simp
next
  case (Cons f fs)
  let ?t = "f (snd (draw s))"
  have q: "quiet (snd (draw s)) ?t" using Cons.prems draw_started by simp
  have "current ?t = Suc (current s)"
    using quiet_current [OF draw_started q] draw_current by simp
  moreover have "sorted_wrt (<) (draws fs ?t) \<and> (\<forall>n \<in> set (draws fs ?t). current ?t < n)"
    using Cons.prems by (intro Cons.IH) simp
  ultimately show ?case by (auto simp: draw_number)
qed

lemma draws_distinct:
  assumes "\<And>f s. f \<in> set fs \<Longrightarrow> started s \<Longrightarrow> quiet s (f s)"
  shows "distinct (draws fs s)"
  using draws_increasing [of fs s] assms by (auto simp: strict_sorted_iff)

end

section \<open>Fragments and formats\<close>

definition normalize_reference_fragment :: "env \<Rightarrow> string \<Rightarrow> nat \<Rightarrow> string" where
  "normalize_reference_fragment e value n =
     (let cleaned = str_upper (filter is_alnum (e_ascii_fold e value));
          cleaned = (if cleaned = [] then replicate n (CHR ''X'') else cleaned);
          cleaned = (if length cleaned < n then ljust cleaned n (CHR ''X'') else cleaned)
      in take n cleaned)"

definition year_prefix :: "nat \<Rightarrow> string" where
  "year_prefix year = zero_pad 2 (year mod 100)"

text \<open>\<open>RECEIPT_REFERENCE_RE\<close>: year, number, donor code and donor count.\<close>

definition match_receipt_reference ::
    "string \<Rightarrow> (string \<times> string \<times> string \<times> string) option" where
  "match_receipt_reference s =
     (let year = take 2 s; s1 = drop 2 s; s2 = drop 1 s1;
          seq = takeWhile is_digit s2; s3 = dropWhile is_digit s2; s4 = drop 1 s3;
          donor = take 3 s4; s5 = drop 3 s4; s6 = drop 1 s5;
          count = takeWhile is_digit s6
      in if length year = 2 \<and> all_digits year \<and> take 1 s1 = ''-'' \<and> 2 \<le> length seq
            \<and> take 1 s3 = ''-'' \<and> length donor = 3 \<and> list_all (\<lambda>c. is_upper c \<or> is_digit c) donor
            \<and> take 1 s5 = ''-'' \<and> 2 \<le> length count \<and> at_end (dropWhile is_digit s6)
         then Some (year, seq, donor, count) else None)"

definition format_receipt_reference :: "nat \<Rightarrow> nat \<Rightarrow> string \<Rightarrow> nat \<Rightarrow> string" where
  "format_receipt_reference year number donor count =
     year_prefix year @ ''-'' @ zero_pad 2 number @ ''-'' @ donor @ ''-'' @ zero_pad 2 count"

definition format_shipment_reference :: "nat \<Rightarrow> nat \<Rightarrow> string" where
  "format_shipment_reference year number = year_prefix year @ zero_pad 4 number"

section \<open>The counter rows\<close>

text \<open>The highest number a list of references carries, by the loop of the source.\<close>

definition highest_number ::
    "(string \<times> string \<times> string \<times> string \<Rightarrow> string) \<Rightarrow> string list \<Rightarrow> nat" where
  "highest_number part references =
     fold (\<lambda>r best. case match_receipt_reference r of
                       None \<Rightarrow> best
                     | Some m \<Rightarrow> let number = parse_nat (part m)
                                in if best < number then number else best) references 0"

text \<open>
  \<open>sequence_row\<close> is \<open>filter(year=year).get()\<close>; the draw fetches the row or creates it at the
  initial number, then increments and saves it.
\<close>

definition find_row :: "('r \<Rightarrow> bool) \<Rightarrow> 'r table \<Rightarrow> (nat \<times> 'r) option" where
  "find_row P t = List.find (\<lambda>(_, r). P r) t"

definition draw_year :: "nat \<Rightarrow> nat \<Rightarrow> year_sequence table \<Rightarrow> nat \<times> year_sequence table" where
  "draw_year year initial t =
     (let t' = (case find_row (\<lambda>r. ys_year r = year) t of
                  Some _ \<Rightarrow> t
                | None \<Rightarrow> row_ins \<lparr>ys_year = year, ys_last_number = initial\<rparr> t)
      in case find_row (\<lambda>r. ys_year r = year) t' of
           None \<Rightarrow> (0, t')
         | Some (k, r) \<Rightarrow>
             (Suc (ys_last_number r), row_upd k (\<lambda>r. r\<lparr>ys_last_number := Suc (ys_last_number r)\<rparr>) t'))"

definition draw_donor ::
    "nat \<Rightarrow> nat \<Rightarrow> nat \<Rightarrow> donor_sequence table \<Rightarrow> nat \<times> donor_sequence table" where
  "draw_donor year donor initial t =
     (let t' = (case find_row (\<lambda>r. ds_year r = year \<and> ds_donor r = donor) t of
                  Some _ \<Rightarrow> t
                | None \<Rightarrow> row_ins \<lparr>ds_year = year, ds_donor = donor, ds_last_number = initial\<rparr> t)
      in case find_row (\<lambda>r. ds_year r = year \<and> ds_donor r = donor) t' of
           None \<Rightarrow> (0, t')
         | Some (k, r) \<Rightarrow>
             (Suc (ds_last_number r), row_upd k (\<lambda>r. r\<lparr>ds_last_number := Suc (ds_last_number r)\<rparr>) t'))"

section \<open>Receipts\<close>

definition initial_receipt_number :: "nat \<Rightarrow> db \<Rightarrow> nat" where
  "initial_receipt_number year s =
     (let last_number = highest_number (\<lambda>(_, seq, _, _). seq)
            [rc_reference r. (_, r) \<leftarrow> db_receipts s,
               startswith (rc_reference r) (year_prefix year @ ''-'')]
      in if last_number = 0
         then length (rows_where (\<lambda>_ r. d_year (rc_received_on r) = year) (db_receipts s))
         else last_number)"

definition initial_donor_number :: "nat \<Rightarrow> nat \<Rightarrow> db \<Rightarrow> nat" where
  "initial_donor_number year donor s =
     (let rows = rows_where (\<lambda>_ r. rc_source_contact r = Some donor
                               \<and> d_year (rc_received_on r) = year) (db_receipts s);
          last_number = highest_number (\<lambda>(_, _, _, count). count) (map (rc_reference \<circ> snd) rows)
      in if last_number = 0 then length rows else last_number)"

definition contact_name :: "nat option \<Rightarrow> db \<Rightarrow> string" where
  "contact_name c s =
     (case c of None \<Rightarrow> '''' | Some k \<Rightarrow> (case row_get (db_contacts s) k of
        None \<Rightarrow> '''' | Some r \<Rightarrow> con_name r))"

definition draw_receipt_number :: "nat \<Rightarrow> db \<Rightarrow> nat \<times> db" where
  "draw_receipt_number year s =
     (let (n, t) = draw_year year (initial_receipt_number year s) (db_receipt_sequences s)
      in (n, s\<lparr>db_receipt_sequences := t\<rparr>))"

definition draw_donor_number :: "nat \<Rightarrow> nat option \<Rightarrow> db \<Rightarrow> nat \<times> db" where
  "draw_donor_number year source_contact s =
     (case source_contact of
        None \<Rightarrow> (0, s)
      | Some donor \<Rightarrow>
          let (n, t) = draw_donor year donor (initial_donor_number year donor s) (db_donor_sequences s)
          in (n, s\<lparr>db_donor_sequences := t\<rparr>))"

definition generate_receipt_reference ::
    "env \<Rightarrow> date option \<Rightarrow> nat option \<Rightarrow> db \<Rightarrow> string \<times> db" where
  "generate_receipt_reference e received_on source_contact s =
     (let year = d_year (case received_on of Some d \<Rightarrow> d | None \<Rightarrow> e_today e);
          donor_code = normalize_reference_fragment e (contact_name source_contact s) 3;
          (number, s1) = draw_receipt_number year s;
          (donor_number, s2) = draw_donor_number year source_contact s1
      in (format_receipt_reference year number donor_code donor_number, s2))"

section \<open>Shipments\<close>

text \<open>
  The first number of a year: the greatest six-character reference of the year in the order of
  strings, when it is all digits.
\<close>

definition initial_shipment_number :: "nat \<Rightarrow> db \<Rightarrow> nat" where
  "initial_shipment_number year s =
     (let refs = [s_reference r. (_, r) \<leftarrow> db_shipments s,
                    startswith (s_reference r) (year_prefix year), length (s_reference r) = 6]
      in case refs of
           [] \<Rightarrow> 0
         | r # rs \<Rightarrow> let last_ref = fold max rs r
                    in if all_digits last_ref then parse_nat (drop 2 last_ref) else 0)"

definition draw_shipment_number :: "nat \<Rightarrow> db \<Rightarrow> nat \<times> db" where
  "draw_shipment_number year s =
     (let (n, t) = draw_year year (initial_shipment_number year s) (db_shipment_sequences s)
      in (n, s\<lparr>db_shipment_sequences := t\<rparr>))"

definition generate_shipment_reference :: "env \<Rightarrow> db \<Rightarrow> string \<times> db" where
  "generate_shipment_reference e s =
     (let year = d_year (e_today e); (number, s') = draw_shipment_number year s
      in (format_shipment_reference year number, s'))"

definition temp_reference_prefix :: string where
  "temp_reference_prefix = ''EXP-TEMP-''"

definition should_promote_temp_reference :: "shipment \<Rightarrow> bool" where
  "should_promote_temp_reference r =
     (let reference = strip (s_reference r)
      in reference \<noteq> [] \<and> startswith reference temp_reference_prefix \<and> s_status r \<noteq> Ship_Draft)"

text \<open>
  \<open>Shipment.save\<close>: the object \<open>r\<close> in memory draws its reference when it has none or when it
  leaves the draft state with a temporary one. The caller writes the reference with its own
  fields; \<open>reference\<close> is unique.
\<close>

definition shipment_save_reference :: "env \<Rightarrow> shipment \<Rightarrow> db \<Rightarrow> shipment \<times> db" where
  "shipment_save_reference e r s =
     (if s_reference r = [] \<or> should_promote_temp_reference r
      then let (ref, s') = generate_shipment_reference e s in (r\<lparr>s_reference := ref\<rparr>, s')
      else (r, s))"

definition shipment_reference_taken :: "nat option \<Rightarrow> string \<Rightarrow> db \<Rightarrow> bool" where
  "shipment_reference_taken self ref s =
     list_ex (\<lambda>(k, r). s_reference r = ref \<and> self \<noteq> Some k) (db_shipments s)"

definition shipment_save :: "env \<Rightarrow> nat \<Rightarrow> (shipment \<Rightarrow> shipment) \<Rightarrow> db \<Rightarrow> err + db" where
  "shipment_save e k assign s =
     res_bind (require (row_get (db_shipments s) k) Does_Not_Exist) (\<lambda>row.
       let (r, s1) = shipment_save_reference e (assign row) s
       in res_bind (raise_if (shipment_reference_taken (Some k) (s_reference r) s1) Integrity_Error)
            (\<lambda>_. Inr (s1\<lparr>db_shipments := row_upd k (\<lambda>_. r) (db_shipments s1)\<rparr>)))"

definition shipment_create :: "env \<Rightarrow> shipment \<Rightarrow> db \<Rightarrow> err + nat \<times> db" where
  "shipment_create e row s =
     (let (r, s1) = shipment_save_reference e row s
      in res_bind (raise_if (shipment_reference_taken None (s_reference r) s1) Integrity_Error)
           (\<lambda>_. Inr (next_pk (db_shipments s1), s1\<lparr>db_shipments := row_ins r (db_shipments s1)\<rparr>)))"

section \<open>The counters number without repetition\<close>

lemma find_row_Some: "find_row P t = Some (k, r) \<Longrightarrow> (k, r) \<in> set t \<and> P r"
  by (auto simp: find_row_def find_Some_iff in_set_conv_nth)

lemma find_row_None: "find_row P t = None \<longleftrightarrow> (\<forall>(k, r) \<in> set t. \<not> P r)"
  by (auto simp: find_row_def find_None_iff)

lemma find_row_append: "find_row P (t @ u) = (case find_row P t of None \<Rightarrow> find_row P u | Some x \<Rightarrow> Some x)"
  by (induction t) (auto simp: find_row_def)

lemma find_row_upd:
  assumes "find_row P t = Some (k, r)" and "\<And>r. P (g r) = P r"
  shows "find_row P (row_upd k g t) = Some (k, g r)"
  using assms(1)
proof (induction t)
  case Nil
  then show ?case by (simp add: find_row_def)
next
  case (Cons a t)
  obtain i x where a: "a = (i, x)" by (cases a)
  have upd: "row_upd k g (a # t) = (i, if i = k then g x else x) # row_upd k g t"
    by (simp add: row_upd_def a)
  show ?case
  proof (cases "P x")
    case True
    with Cons.prems a have "i = k" "x = r" by (auto simp: find_row_def)
    with True upd show ?thesis by (simp add: find_row_def assms(2))
  next
    case False
    with Cons a have "find_row P (row_upd k g t) = Some (k, g r)" by (simp add: find_row_def)
    with False upd show ?thesis by (simp add: find_row_def assms(2))
  qed
qed

text \<open>The number the counter row of a year holds, before the row exists the initial one.\<close>

definition year_current :: "nat \<Rightarrow> nat \<Rightarrow> year_sequence table \<Rightarrow> nat" where
  "year_current year initial t =
     (case find_row (\<lambda>r. ys_year r = year) t of None \<Rightarrow> initial | Some (_, r) \<Rightarrow> ys_last_number r)"

definition year_started :: "nat \<Rightarrow> year_sequence table \<Rightarrow> bool" where
  "year_started year t \<longleftrightarrow> find_row (\<lambda>r. ys_year r = year) t \<noteq> None"

lemma year_current_started: "year_started year t \<Longrightarrow> year_current year i t = year_current year j t"
  by (auto simp: year_current_def year_started_def split: option.splits)

lemma draw_year_spec:
  "fst (draw_year year i t) = Suc (year_current year i t)"
  "year_started year (snd (draw_year year i t))"
  "year_current year j (snd (draw_year year i t)) = Suc (year_current year i t)"
proof -
  let ?P = "\<lambda>r. ys_year r = year"
  let ?g = "\<lambda>r. r\<lparr>ys_last_number := Suc (ys_last_number r)\<rparr>"
  define t' where "t' = (case find_row ?P t of
      Some _ \<Rightarrow> t | None \<Rightarrow> row_ins \<lparr>ys_year = year, ys_last_number = i\<rparr> t)"
  obtain k r where kr: "find_row ?P t' = Some (k, r)" and cur: "ys_last_number r = year_current year i t"
  proof (cases "find_row ?P t")
    case None
    then have "find_row ?P t' = Some (next_pk t, \<lparr>ys_year = year, ys_last_number = i\<rparr>)"
      by (simp add: t'_def row_ins_def find_row_append) (simp add: find_row_def)
    with None show ?thesis by (auto simp: year_current_def intro: that)
  next
    case (Some kr)
    then show ?thesis by (cases kr) (auto simp: t'_def year_current_def intro: that)
  qed
  have draw: "draw_year year i t = (Suc (ys_last_number r), row_upd k ?g t')"
    unfolding draw_year_def t'_def [symmetric] Let_def kr by simp
  have "find_row ?P (row_upd k ?g t') = Some (k, ?g r)" by (rule find_row_upd [OF kr]) simp
  with draw cur show "fst (draw_year year i t) = Suc (year_current year i t)"
    and "year_started year (snd (draw_year year i t))"
    and "year_current year j (snd (draw_year year i t)) = Suc (year_current year i t)"
    by (simp_all add: year_current_def year_started_def)
qed

definition shipment_current :: "nat \<Rightarrow> db \<Rightarrow> nat" where
  "shipment_current year s =
     year_current year (initial_shipment_number year s) (db_shipment_sequences s)"

definition receipt_current :: "nat \<Rightarrow> db \<Rightarrow> nat" where
  "receipt_current year s =
     year_current year (initial_receipt_number year s) (db_receipt_sequences s)"

interpretation shipment_numbers: counter
  "draw_shipment_number year" "shipment_current year"
  "\<lambda>s. year_started year (db_shipment_sequences s)"
  "\<lambda>s t. db_shipment_sequences t = db_shipment_sequences s" for year
  by unfold_locales
    (auto simp: draw_shipment_number_def shipment_current_def case_prod_beta draw_year_spec
      intro: year_current_started)

interpretation receipt_numbers: counter
  "draw_receipt_number year" "receipt_current year"
  "\<lambda>s. year_started year (db_receipt_sequences s)"
  "\<lambda>s t. db_receipt_sequences t = db_receipt_sequences s" for year
  by unfold_locales
    (auto simp: draw_receipt_number_def receipt_current_def case_prod_beta draw_year_spec
      intro: year_current_started)

section \<open>Formats and their parsing\<close>

lemma length_year_prefix [simp]: "length (year_prefix year) = 2"
  by (simp add: year_prefix_def length_zero_pad)

lemma all_digits_year_prefix [simp]: "all_digits (year_prefix year)"
  by (simp add: year_prefix_def)

lemma upper_alnum: "is_alnum c \<Longrightarrow> is_upper (upper_char c) \<or> is_digit (upper_char c)"
  by (auto simp: is_alnum_def upper_char_def is_lower_def is_upper_def is_digit_def)

lemma reference_fragment_shape:
  "length (normalize_reference_fragment e v n) = n \<and>
   list_all (\<lambda>c. is_upper c \<or> is_digit c) (normalize_reference_fragment e v n)"
proof -
  define cleaned where "cleaned = str_upper (filter is_alnum (e_ascii_fold e v))"
  have "list_all (\<lambda>c. is_upper c \<or> is_digit c) cleaned"
    by (auto simp: cleaned_def str_upper_def list_all_iff upper_alnum)
  moreover have "is_upper (CHR ''X'')" by (simp add: is_upper_def)
  ultimately show ?thesis
    unfolding normalize_reference_fragment_def cleaned_def [symmetric] Let_def
    by (auto simp: ljust_def list_all_iff dest!: in_set_takeD split: if_splits)
qed

lemma not_is_digit_dash [simp]: "\<not> is_digit (CHR ''-'')"
  by (simp add: is_digit_def)

lemma takeWhile_digits_dash: "all_digits s \<Longrightarrow> takeWhile is_digit (s @ CHR ''-'' # r) = s"
  "all_digits s \<Longrightarrow> dropWhile is_digit (s @ CHR ''-'' # r) = CHR ''-'' # r"
  by (auto simp: all_digits_def list_all_iff is_digit_def takeWhile_tail dropWhile_append3
      takeWhile_append2 dropWhile_append2)

lemma match_format_receipt:
  assumes "length donor = 3" and "list_all (\<lambda>c. is_upper c \<or> is_digit c) donor"
  shows "match_receipt_reference (format_receipt_reference year number donor count)
    = Some (year_prefix year, zero_pad 2 number, donor, zero_pad 2 count)"
proof -
  have digits: "Ball (set (zero_pad 2 n)) is_digit" "takeWhile is_digit (zero_pad 2 n) = zero_pad 2 n"
    "dropWhile is_digit (zero_pad 2 n) = []" for n
    using all_digits_zero_pad [of 2 n] by (auto simp: all_digits_def list_all_iff)
  show ?thesis
    using assms length_zero_pad_ge [of 2]
    by (simp add: match_receipt_reference_def format_receipt_reference_def Let_def digits
        takeWhile_digits_dash at_end_def)
qed
lemma format_shipment_inj:
  "format_shipment_reference year m = format_shipment_reference year n \<Longrightarrow> m = n"
  by (auto simp: format_shipment_reference_def dest: zero_pad_inj)

lemma format_receipt_inj:
  assumes "length d = 3" "list_all (\<lambda>c. is_upper c \<or> is_digit c) d"
    and "length d' = 3" "list_all (\<lambda>c. is_upper c \<or> is_digit c) d'"
    and "format_receipt_reference year m d c = format_receipt_reference year n d' c'"
  shows "m = n"
  using match_format_receipt [OF assms(1,2), of year m c]
    match_format_receipt [OF assms(3,4), of year n c'] assms(5)
  by (auto dest: zero_pad_inj)

section \<open>Sequences of references\<close>

text \<open>
  References drawn one after the other, with another operation after each draw (saving the row,
  serving other requests).
\<close>

fun shipment_references :: "(env \<times> (db \<Rightarrow> db)) list \<Rightarrow> db \<Rightarrow> string list" where
  "shipment_references [] s = []"
| "shipment_references ((e, f) # ds) s =
     (let (r, s') = generate_shipment_reference e s in r # shipment_references ds (f s'))"

fun receipt_references ::
    "(env \<times> date option \<times> nat option \<times> (db \<Rightarrow> db)) list \<Rightarrow> db \<Rightarrow> string list" where
  "receipt_references [] s = []"
| "receipt_references ((e, d, c, f) # ds) s =
     (let (r, s') = generate_receipt_reference e d c s in r # receipt_references ds (f s'))"

lemma shipment_references_numbers:
  "(\<And>e f. (e, f) \<in> set ds \<Longrightarrow> d_year (e_today e) = year) \<Longrightarrow>
   shipment_references ds s
     = map (format_shipment_reference year) (shipment_numbers.draws year (map snd ds) s)"
proof (induction ds arbitrary: s)
  case (Cons a ds)
  obtain e f where "a = (e, f)" by (cases a)
  with Cons show ?case by (auto simp: generate_shipment_reference_def case_prod_beta Let_def)
qed simp

lemma shipment_references_distinct:
  assumes "\<And>e f. (e, f) \<in> set ds \<Longrightarrow> d_year (e_today e) = year"
    and "\<And>e f s. (e, f) \<in> set ds \<Longrightarrow> db_shipment_sequences (f s) = db_shipment_sequences s"
  shows "distinct (shipment_references ds s)"
proof -
  have "distinct (shipment_numbers.draws year (map snd ds) s)"
    by (rule shipment_numbers.draws_distinct) (use assms(2) in auto)
  then have "distinct (map (format_shipment_reference year)
      (shipment_numbers.draws year (map snd ds) s))"
    by (simp add: distinct_map inj_on_def format_shipment_inj)
  with shipment_references_numbers [of ds year s] assms(1) show ?thesis by simp
qed

definition receipt_code :: "string \<Rightarrow> string option" where
  "receipt_code r = map_option (\<lambda>(_, number, _, _). number) (match_receipt_reference r)"

lemma draw_donor_sequences [simp]:
  "db_receipt_sequences (snd (draw_donor_number year c s)) = db_receipt_sequences s"
  by (simp add: draw_donor_number_def case_prod_beta split: option.splits)

text \<open>The numbers in the receipt references are the draws of the counter of the year.\<close>

lemma receipt_references_numbers:
  "(\<And>e d c f. (e, d, c, f) \<in> set ds \<Longrightarrow>
      d_year (case d of Some x \<Rightarrow> x | None \<Rightarrow> e_today e) = year) \<Longrightarrow>
   map receipt_code (receipt_references ds s)
     = map (\<lambda>n. Some (zero_pad 2 n))
         (receipt_numbers.draws year (map (\<lambda>(e, d, c, f) t. f (snd (draw_donor_number year c t))) ds) s)"
proof (induction ds arbitrary: s)
  case (Cons a ds)
  obtain e d c f where a: "a = (e, d, c, f)" by (cases a)
  have y: "d_year (case d of Some x \<Rightarrow> x | None \<Rightarrow> e_today e) = year"
    using Cons.prems [of e d c f] a by simp
  show ?case
    using Cons.IH [of "f (snd (draw_donor_number year c (snd (draw_receipt_number year s))))"]
      Cons.prems a y reference_fragment_shape [of e "contact_name c s" 3]
    by (auto simp: generate_receipt_reference_def case_prod_beta Let_def receipt_code_def
        match_format_receipt)
qed simp

lemma receipt_references_distinct:
  assumes "\<And>e d c f. (e, d, c, f) \<in> set ds \<Longrightarrow>
      d_year (case d of Some x \<Rightarrow> x | None \<Rightarrow> e_today e) = year"
    and "\<And>e d c f s. (e, d, c, f) \<in> set ds \<Longrightarrow> db_receipt_sequences (f s) = db_receipt_sequences s"
  shows "distinct (receipt_references ds s)"
proof -
  let ?fs = "map (\<lambda>(e, d, c, f) t. f (snd (draw_donor_number year c t))) ds"
  have "distinct (receipt_numbers.draws year ?fs s)"
    by (rule receipt_numbers.draws_distinct) (use assms(2) in auto)
  then have "distinct (map (\<lambda>n. Some (zero_pad 2 n)) (receipt_numbers.draws year ?fs s))"
    by (auto simp: distinct_map inj_on_def dest: zero_pad_inj)
  then have "distinct (map receipt_code (receipt_references ds s))"
    using receipt_references_numbers [of ds year s] assms(1) by simp
  then show ?thesis by (simp add: distinct_map)
qed

end
