(* ===== verification/Carton_Status.thy ===== *)
theory Carton_Status
  imports References
begin

text \<open>
  Status changes of cartons and the readiness of shipments: \<open>wms/carton_status_events.py\<close> (a
  status write and its audit event) and \<open>wms/shipment_status.py\<close> (the progress of a shipment's
  cartons and the status it gives the shipment). The structured log lines of
  \<open>workflow_observability.py\<close> have no effect on the database and are left out.
\<close>

section \<open>Carton status\<close>

text \<open>\<open>_resolve_actor\<close>: the user to store, none for a missing or unsaved one.\<close>

definition resolve_actor :: "nat option \<Rightarrow> nat option" where
  "resolve_actor user = (case user of None \<Rightarrow> None | Some pk \<Rightarrow> if pk = 0 then None else Some pk)"

definition record_carton_status_event ::
    "env \<Rightarrow> nat \<Rightarrow> carton_status \<Rightarrow> carton_status \<Rightarrow> string \<Rightarrow> nat option \<Rightarrow> db \<Rightarrow> bool \<times> db" where
  "record_carton_status_event e k previous new reason user s =
     (if previous = new then (False, s)
      else (True, s\<lparr>db_carton_events := row_ins
              \<lparr>ce_carton = k, ce_previous_status = previous, ce_new_status = new, ce_reason = reason,
               ce_created_by = resolve_actor user, ce_created_at = e_now e\<rparr> (db_carton_events s)\<rparr>))"

text \<open>
  \<open>set_carton_status\<close>: \<open>assign\<close> holds the fields of \<open>update_fields\<close> that the caller has set on the
  object in memory; they reach the row together with the status, and only then.
\<close>

definition set_carton_status ::
    "env \<Rightarrow> nat \<Rightarrow> carton_status \<Rightarrow> nat option \<Rightarrow> string \<Rightarrow> (carton \<Rightarrow> carton) \<Rightarrow> db \<Rightarrow> bool \<times> db" where
  "set_carton_status e k new user reason assign s =
     (case row_get (db_cartons s) k of
        None \<Rightarrow> (False, s)
      | Some c \<Rightarrow>
          if c_status c = new then (False, s)
          else (True, snd (record_carton_status_event e k (c_status c) new reason user
                 (s\<lparr>db_cartons := row_upd k (\<lambda>r. (assign r)\<lparr>c_status := new\<rparr>) (db_cartons s)\<rparr>))))"

section \<open>Shipment progress\<close>

definition locked_shipment_status :: "shipment_status \<Rightarrow> bool" where
  "locked_shipment_status st \<longleftrightarrow>
     st \<in> {Ship_Planned, Ship_Shipped, Ship_Received_Correspondent, Ship_Delivered}"

definition labeled_carton_status :: "carton_status \<Rightarrow> bool" where
  "labeled_carton_status st \<longleftrightarrow> st \<in> {Ct_Labeled, Ct_Shipped}"

datatype progress_label = Creation | En_Cours nat nat | Pret

definition carton_set :: "nat \<Rightarrow> db \<Rightarrow> (nat \<times> carton) list" where
  "carton_set k s = rows_where (\<lambda>_ c. c_shipment c = Some k) (db_cartons s)"

definition compute_shipment_progress ::
    "nat \<Rightarrow> db \<Rightarrow> nat \<times> nat \<times> shipment_status \<times> progress_label" where
  "compute_shipment_progress k s =
     (let cartons = carton_set k s; total = length cartons;
          labeled = length (filter (\<lambda>(_, c). labeled_carton_status (c_status c)) cartons)
      in if total = 0 then (total, labeled, Ship_Draft, Creation)
         else if labeled < total then (total, labeled, Ship_Picking, En_Cours labeled total)
         else (total, labeled, Ship_Packed, Pret))"

text \<open>
  \<open>sync_shipment_ready_state\<close> on the shipment \<open>k\<close>, whose object in memory is the stored row. The
  update of \<open>ready_at\<close> is \<open>None\<close> when the field is not in \<open>updates\<close>.
\<close>

definition sync_shipment_ready_state :: "env \<Rightarrow> nat \<Rightarrow> db \<Rightarrow> err + db" where
  "sync_shipment_ready_state e k s =
     res_bind (require (row_get (db_shipments s) k) Does_Not_Exist) (\<lambda>sh.
       if locked_shipment_status (s_status sh) then Inr s
       else let (_, _, new_status, _) = compute_shipment_progress k s;
                was_packed = (s_status sh = Ship_Packed);
                ready = (if new_status = Ship_Packed
                         then (if \<not> was_packed \<or> s_ready_at sh = None then Some (Some (e_now e)) else None)
                         else if s_ready_at sh \<noteq> None then Some None else None)
            in if s_status sh \<noteq> new_status \<or> ready \<noteq> None
               then shipment_save e k (\<lambda>r. r\<lparr>s_status := new_status,
                      s_ready_at := (case ready of None \<Rightarrow> s_ready_at r | Some v \<Rightarrow> v)\<rparr>) s
               else Inr s)"

text \<open>The status that the cartons of a shipment give it.\<close>

definition progress_status :: "nat \<Rightarrow> db \<Rightarrow> shipment_status" where
  "progress_status k s =
     (if carton_set k s = [] then Ship_Draft
      else if \<forall>(j, c) \<in> set (carton_set k s). c_status c = Ct_Labeled \<or> c_status c = Ct_Shipped then Ship_Packed
      else Ship_Picking)"

lemma compute_progress_status: "fst (snd (snd (compute_shipment_progress k s))) = progress_status k s"
  by (auto simp: progress_status_def compute_shipment_progress_def labeled_carton_status_def Let_def
      length_filter_less_iff)

lemma sync_by_status:
  "sync_shipment_ready_state e k s =
     res_bind (require (row_get (db_shipments s) k) Does_Not_Exist) (\<lambda>sh.
       if locked_shipment_status (s_status sh) then Inr s
       else let new_status = progress_status k s;
                was_packed = (s_status sh = Ship_Packed);
                ready = (if new_status = Ship_Packed
                         then (if \<not> was_packed \<or> s_ready_at sh = None then Some (Some (e_now e)) else None)
                         else if s_ready_at sh \<noteq> None then Some None else None)
            in if s_status sh \<noteq> new_status \<or> ready \<noteq> None
               then shipment_save e k (\<lambda>r. r\<lparr>s_status := new_status,
                      s_ready_at := (case ready of None \<Rightarrow> s_ready_at r | Some v \<Rightarrow> v)\<rparr>) s
               else Inr s)"
  unfolding sync_shipment_ready_state_def compute_progress_status [symmetric] case_prod_beta Let_def by (rule refl)

section \<open>What the writes leave alone\<close>

lemma shipment_save_reference_frame:
  "\<exists>q. snd (shipment_save_reference e r s) = s\<lparr>db_shipment_sequences := q\<rparr>"
proof (cases "s_reference r = [] \<or> should_promote_temp_reference r")
  case True
  then show ?thesis
    by (auto simp: shipment_save_reference_def generate_shipment_reference_def
        draw_shipment_number_def case_prod_beta Let_def)
next
  case False
  then show ?thesis
    by (auto simp: shipment_save_reference_def intro!: exI [where x = "db_shipment_sequences s"])
qed

text \<open>The row is written as the object in memory, with the reference the save may draw.\<close>

lemma shipment_save_Inr:
  assumes "shipment_save e k f s = Inr s'"
  obtains row q where "row_get (db_shipments s) k = Some row"
    and "s' = s\<lparr>db_shipments := row_upd k (\<lambda>_. fst (shipment_save_reference e (f row) s)) (db_shipments s),
                 db_shipment_sequences := q\<rparr>"
proof -
  from assms obtain row where row: "row_get (db_shipments s) k = Some row"
    and s': "s' = (snd (shipment_save_reference e (f row) s))\<lparr>db_shipments :=
      row_upd k (\<lambda>_. fst (shipment_save_reference e (f row) s))
        (db_shipments (snd (shipment_save_reference e (f row) s)))\<rparr>"
    by (auto simp: shipment_save_def wms_ok case_prod_beta Let_def)
  from shipment_save_reference_frame obtain q
    where "snd (shipment_save_reference e (f row) s) = s\<lparr>db_shipment_sequences := q\<rparr>" by blast
  with s' row show ?thesis by (intro that [of row q]) simp_all
qed

lemma shipment_save_frame:
  "shipment_save e k f s = Inr s' \<Longrightarrow> \<exists>t q. s' = s\<lparr>db_shipments := t, db_shipment_sequences := q\<rparr>"
  by (erule shipment_save_Inr) blast

lemma sync_frame:
  "sync_shipment_ready_state e k s = Inr s' \<Longrightarrow>
     \<exists>t q. s' = s\<lparr>db_shipments := t, db_shipment_sequences := q\<rparr>"
proof -
  assume "sync_shipment_ready_state e k s = Inr s'"
  then have "s' = s \<or> (\<exists>f. shipment_save e k f s = Inr s')"
    by (auto simp: sync_by_status wms_ok Let_def split: if_splits)
  moreover have "s = s\<lparr>db_shipments := db_shipments s, db_shipment_sequences := db_shipment_sequences s\<rparr>"
    by simp
  ultimately show ?thesis using shipment_save_frame by metis
qed

lemma set_carton_status_frame:
  "\<exists>t v. snd (set_carton_status e k new user reason assign s)
     = s\<lparr>db_cartons := t, db_carton_events := v\<rparr>"
proof (cases "\<exists>c. row_get (db_cartons s) k = Some c \<and> c_status c \<noteq> new")
  case True
  then obtain c where "row_get (db_cartons s) k = Some c" "c_status c \<noteq> new" by blast
  then show ?thesis
    by (simp add: set_carton_status_def record_carton_status_event_def) blast
next
  case False
  then have "snd (set_carton_status e k new user reason assign s)
      = s\<lparr>db_cartons := db_cartons s, db_carton_events := db_carton_events s\<rparr>"
    by (auto simp: set_carton_status_def split: option.splits)
  then show ?thesis by blast
qed

lemma set_carton_status_row:
  assumes "row_get (db_cartons s) k = Some c" and "c_status c \<noteq> new"
  shows "row_get (db_cartons (snd (set_carton_status e k new user reason assign s))) j
    = (if j = k then Some ((assign c)\<lparr>c_status := new\<rparr>) else row_get (db_cartons s) j)"
  using assms by (simp add: set_carton_status_def record_carton_status_event_def row_get_upd)

lemma set_carton_status_same:
  assumes "row_get (db_cartons s) k = Some c" and "c_status c = new"
  shows "set_carton_status e k new user reason assign s = (False, s)"
  using assms by (simp add: set_carton_status_def)

section \<open>The shipment after a synchronisation\<close>

lemma shipment_save_reference_fst:
  "fst (shipment_save_reference e x s) = x\<lparr>s_reference :=
     (if s_reference x = [] \<or> should_promote_temp_reference x
      then fst (generate_shipment_reference e s) else s_reference x)\<rparr>"
proof (cases "s_reference x = [] \<or> should_promote_temp_reference x")
  case True
  then show ?thesis unfolding shipment_save_reference_def by (simp add: case_prod_beta Let_def)
next
  case False
  then show ?thesis unfolding shipment_save_reference_def by simp
qed

lemma shipment_save_row:
  assumes "shipment_save e k f s = Inr s'" and "row_get (db_shipments s) k = Some r"
  shows "\<exists>ref. row_get (db_shipments s') k = Some ((f r)\<lparr>s_reference := ref\<rparr>)
    \<and> (\<forall>j. j \<noteq> k \<longrightarrow> row_get (db_shipments s') j = row_get (db_shipments s) j)
    \<and> (if s_reference (f r) = [] \<or> should_promote_temp_reference (f r)
       then ref = fst (generate_shipment_reference e s) else ref = s_reference (f r))"
proof -
  let ?ref = "if s_reference (f r) = [] \<or> should_promote_temp_reference (f r)
    then fst (generate_shipment_reference e s) else s_reference (f r)"
  from assms(1) obtain row q where "row_get (db_shipments s) k = Some row"
    and save: "s' = s\<lparr>db_shipments :=
      row_upd k (\<lambda>_. fst (shipment_save_reference e (f row) s)) (db_shipments s),
      db_shipment_sequences := q\<rparr>"
    by (rule shipment_save_Inr)
  with assms(2) have "row = r" by simp
  with save have s': "s' = s\<lparr>db_shipments :=
      row_upd k (\<lambda>_. (f r)\<lparr>s_reference := ?ref\<rparr>) (db_shipments s), db_shipment_sequences := q\<rparr>"
    unfolding shipment_save_reference_fst by blast
  have "row_get (db_shipments s') k = Some ((f r)\<lparr>s_reference := ?ref\<rparr>)"
    and "\<forall>j. j \<noteq> k \<longrightarrow> row_get (db_shipments s') j = row_get (db_shipments s) j"
    using assms(2) unfolding s' by (simp_all add: row_get_upd)
  then show ?thesis by (intro exI [where x = ?ref]) simp
qed

lemma sync_row:
  assumes "sync_shipment_ready_state e k s = Inr s'" and "row_get (db_shipments s) k = Some r"
  shows "\<exists>r'. row_get (db_shipments s') k = Some r' \<and>
    (if locked_shipment_status (s_status r) then r' = r
     else s_status r' = progress_status k s \<and>
          (s_ready_at r' \<noteq> None \<longleftrightarrow> s_status r' = Ship_Packed))"
proof (cases "locked_shipment_status (s_status r)")
  case True
  with assms show ?thesis by (auto simp: sync_by_status)
next
  case False
  define new where "new = progress_status k s"
  define ready where "ready = (if new = Ship_Packed
      then (if s_status r \<noteq> Ship_Packed \<or> s_ready_at r = None then Some (Some (e_now e)) else None)
      else if s_ready_at r \<noteq> None then Some None else None)"
  let ?f = "\<lambda>r. r\<lparr>s_status := new, s_ready_at := (case ready of None \<Rightarrow> s_ready_at r | Some v \<Rightarrow> v)\<rparr>"
  have ready_ok: "(case ready of None \<Rightarrow> s_ready_at r | Some v \<Rightarrow> v) \<noteq> None \<longleftrightarrow> new = Ship_Packed"
    by (auto simp: ready_def)
  show ?thesis
  proof (cases "s_status r \<noteq> new \<or> ready \<noteq> None")
    case True
    have "shipment_save e k ?f s = Inr s'"
      using assms False True
      unfolding sync_by_status new_def ready_def Let_def by simp
    from shipment_save_row [OF this assms(2)] False ready_ok show ?thesis
      by (auto simp: new_def)
  next
    case no: False
    have "s' = s"
      using assms False no
      unfolding sync_by_status new_def ready_def Let_def by simp
    with assms(2) no ready_ok False show ?thesis by (auto simp: new_def)
  qed
qed

lemma progress_status_cartons: "db_cartons s' = db_cartons s \<Longrightarrow> progress_status k s' = progress_status k s"
  by (simp add: progress_status_def carton_set_def)

lemma sync_idempotent:
  assumes "sync_shipment_ready_state e k s = Inr s'" and "row_get (db_shipments s) k = Some r"
  shows "sync_shipment_ready_state e' k s' = Inr s'"
proof -
  from sync_row [OF assms] obtain r' where r': "row_get (db_shipments s') k = Some r'"
    and st: "if locked_shipment_status (s_status r) then r' = r
      else s_status r' = progress_status k s \<and> (s_ready_at r' \<noteq> None \<longleftrightarrow> s_status r' = Ship_Packed)"
    by auto
  have "db_cartons s' = db_cartons s" using sync_frame [OF assms(1)] by auto
  then have "progress_status k s' = progress_status k s" by (rule progress_status_cartons)
  with r' st show ?thesis
    by (cases "locked_shipment_status (s_status r)")
      (auto simp: sync_by_status Let_def)
qed

end
