(* ===== verification/Kits.thy ===== *)
theory Kits
  imports Data_Model
begin

text \<open>
  Kits (\<open>wms/kit_components.py\<close> and \<open>ProductKitItem\<close> in \<open>wms/models_domain/catalog.py\<close>):
  the expansion of a product into the quantities of its base components, with the memo table and
  the stack that detects cycles, and the guard that keeps cycles out of the kit table. A kit item
  is an edge from a kit to a component with a multiplicity; a product without items is a base
  product. Dictionaries are association lists in insertion order.
\<close>

type_synonym quantities = "(nat \<times> int) list"

section \<open>The expansion\<close>

text \<open>
  \<open>_get_kit_items\<close>: the items of a kit, in the order the query returns them (the table order
  of the model stands for the \<open>ORDER BY\<close> on product names).
\<close>

definition kit_items_of :: "kit_item table \<Rightarrow> nat \<Rightarrow> (nat \<times> int) list" where
  "kit_items_of T p =
     map (\<lambda>(_, k). (ki_component k, ki_quantity k)) (rows_where (\<lambda>_ k. ki_kit k = p) T)"

text \<open>\<open>totals[c] += n\<close> on a \<open>defaultdict(int)\<close>.\<close>

fun add_quantity :: "'k \<Rightarrow> int \<Rightarrow> ('k \<times> int) list \<Rightarrow> ('k \<times> int) list" where
  "add_quantity c n [] = [(c, n)]"
| "add_quantity c n ((d, m) # q) =
     (if d = c then (d, m + n) # q else (d, m) # add_quantity c n q)"

fun add_scaled :: "quantities \<Rightarrow> int \<Rightarrow> quantities \<Rightarrow> quantities" where
  "add_scaled [] k totals = totals"
| "add_scaled ((c, m) # q) k totals = add_scaled q k (add_quantity c (m * k) totals)"

definition kit_ids :: "kit_item table \<Rightarrow> nat set" where
  "kit_ids T = (\<lambda>(_, k). ki_kit k) ` set T"

lemma finite_kit_ids [simp]: "finite (kit_ids T)"
  by (simp add: kit_ids_def)

lemma kit_items_of_kit: "kit_items_of T p \<noteq> [] \<Longrightarrow> p \<in> kit_ids T"
  by (force simp: kit_items_of_def rows_where_def kit_ids_def filter_empty_conv)

text \<open>
  \<open>unit_quantities T memo stack p\<close> is \<open>get_unit_component_quantities\<close> on the product \<open>p\<close>,
  \<open>item_totals\<close> its loop over the kit items. The stack holds the kits being expanded; each
  expansion pushes a kit that is not on it, so the recursion ends.
\<close>

function unit_quantities ::
    "kit_item table \<Rightarrow> (nat \<rightharpoonup> quantities) \<Rightarrow> nat list \<Rightarrow> nat \<Rightarrow> err + quantities \<times> (nat \<rightharpoonup> quantities)"
  and item_totals ::
    "kit_item table \<Rightarrow> (nat \<rightharpoonup> quantities) \<Rightarrow> nat list \<Rightarrow> (nat \<times> int) list \<Rightarrow> quantities
       \<Rightarrow> err + quantities \<times> (nat \<rightharpoonup> quantities)" where
  "unit_quantities T memo stack p =
     (case memo p of
        Some cached \<Rightarrow> Inr (cached, memo)
      | None \<Rightarrow>
          if p \<in> set stack
          then Inl (Kit_Cycle_Error (filter (\<lambda>i. i \<noteq> 0) (dropWhile (\<lambda>i. i \<noteq> p) stack @ [p])))
          else if kit_items_of T p = [] then Inr ([(p, 1)], memo(p \<mapsto> [(p, 1)]))
          else res_bind (item_totals T memo (stack @ [p]) (kit_items_of T p) [])
                 (\<lambda>(result, memo'). Inr (result, memo'(p \<mapsto> result))))"
| "item_totals T memo stack [] totals = Inr (totals, memo)"
| "item_totals T memo stack ((c, k) # items) totals =
     (if k \<le> 0 then item_totals T memo stack items totals
      else res_bind (unit_quantities T memo stack c)
             (\<lambda>(q, memo'). item_totals T memo' stack items (add_scaled q k totals)))"
  by pat_completeness auto

termination
proof (relation "inv_image (less_than <*lex*> less_than)
    (\<lambda>x. case x of
       Inl (T, memo, stack, p) \<Rightarrow> (card (kit_ids T - set stack), 0)
     | Inr (T, memo, stack, items, totals) \<Rightarrow> (card (kit_ids T - set stack), Suc (length items)))",
    goal_cases)
  case 1
  show ?case by (simp add: wf_lex_prod)
next
  case (2 T memo stack p)
  then have "p \<in> kit_ids T - set stack" by (simp add: kit_items_of_kit)
  then have "card (kit_ids T - insert p (set stack)) < card (kit_ids T - set stack)"
    by (metis Diff_insert card_Diff1_less finite_Diff finite_kit_ids)
  then show ?case by simp
qed simp_all

declare unit_quantities.simps [simp del]

text \<open>
  \<open>get_unit_component_quantities(product)\<close> and \<open>get_component_quantities(product, quantity)\<close>
  as the callers use them; a missing product has no components.
\<close>

definition get_unit_component_quantities :: "kit_item table \<Rightarrow> nat option \<Rightarrow> err + quantities" where
  "get_unit_component_quantities T product =
     (case product of
        None \<Rightarrow> Inr []
      | Some p \<Rightarrow> res_bind (unit_quantities T Map.empty [] p) (\<lambda>(q, _). Inr q))"

definition get_component_quantities ::
    "kit_item table \<Rightarrow> nat option \<Rightarrow> int \<Rightarrow> err + quantities" where
  "get_component_quantities T product requested =
     (if requested \<le> 0 then Inr []
      else res_bind (get_unit_component_quantities T product)
             (\<lambda>units. if requested = 1 then Inr units
                      else Inr (map (\<lambda>(c, n). (c, n * requested)) units)))"

section \<open>Dictionaries of quantities\<close>

definition qty_of :: "quantities \<Rightarrow> nat \<Rightarrow> int" where
  "qty_of q c = (case map_of q c of None \<Rightarrow> 0 | Some n \<Rightarrow> n)"

abbreviation qty_keys :: "quantities \<Rightarrow> nat list" where
  "qty_keys q \<equiv> map fst q"

lemma qty_of_Nil [simp]: "qty_of [] c = 0"
  by (simp add: qty_of_def)

lemma qty_of_Cons [simp]: "qty_of ((d, n) # q) c = (if c = d then n else qty_of q c)"
  by (simp add: qty_of_def)

lemma qty_of_absent: "c \<notin> set (qty_keys q) \<Longrightarrow> qty_of q c = 0"
  by (induction q) auto

lemma qty_of_add_quantity [simp]:
  "qty_of (add_quantity c n q) d = qty_of q d + (if d = c then n else 0)"
  by (induction c n q rule: add_quantity.induct) auto

lemma keys_add_quantity: "set (qty_keys (add_quantity c n q)) = insert c (set (qty_keys q))"
  by (induction c n q rule: add_quantity.induct) auto

lemma distinct_add_quantity:
  "distinct (qty_keys q) \<Longrightarrow> distinct (qty_keys (add_quantity c n q))"
proof (induction c n q rule: add_quantity.induct)
  case (2 c n d m q)
  then show ?case using keys_add_quantity [of c n q] by auto
qed simp

lemma keys_add_scaled:
  "set (qty_keys (add_scaled q k t)) = set (qty_keys q) \<union> set (qty_keys t)"
proof (induction q k t rule: add_scaled.induct)
  case (2 c m q k totals)
  then show ?case using keys_add_quantity [of c "m * k" totals] by auto
qed simp

lemma distinct_add_scaled:
  "distinct (qty_keys t) \<Longrightarrow> distinct (qty_keys (add_scaled q k t))"
  by (induction q k t rule: add_scaled.induct) (auto intro: distinct_add_quantity)

lemma qty_of_add_scaled:
  "distinct (qty_keys q) \<Longrightarrow> qty_of (add_scaled q k t) c = qty_of t c + k * qty_of q c"
  by (induction q k t rule: add_scaled.induct) (auto simp: qty_of_absent algebra_simps)

lemma positive_add_quantity:
  "\<forall>(d, m) \<in> set q. 0 < m \<Longrightarrow> 0 < n \<Longrightarrow> \<forall>(d, m) \<in> set (add_quantity c n q). 0 < m"
  by (induction c n q rule: add_quantity.induct) auto

lemma positive_add_scaled:
  "\<forall>(d, m) \<in> set q. 0 < m \<Longrightarrow> \<forall>(d, m) \<in> set t. 0 < m \<Longrightarrow> 0 < k
     \<Longrightarrow> \<forall>(d, m) \<in> set (add_scaled q k t). 0 < m"
proof (induction q k t rule: add_scaled.induct)
  case (2 c m q k totals)
  have "\<forall>(d, n) \<in> set (add_quantity c (m * k) totals). 0 < n"
    by (rule positive_add_quantity) (use 2 in auto)
  with 2 show ?case by simp
qed simp

section \<open>What an expansion means\<close>

text \<open>
  The reference: the multiplicity of a base product in a kit is the sum over the kit's items of
  the item's multiplicity times that of the base product in the component, to a given depth, with
  neither memo nor stack.
\<close>

fun kit_units :: "kit_item table \<Rightarrow> nat \<Rightarrow> nat \<Rightarrow> nat \<Rightarrow> int" where
  "kit_units T 0 p c = 0"
| "kit_units T (Suc n) p c =
     (if kit_items_of T p = [] then (if c = p then 1 else 0)
      else sum_list (map (\<lambda>(d, k). if k \<le> 0 then 0 else k * kit_units T n d c) (kit_items_of T p)))"

definition item_units :: "kit_item table \<Rightarrow> nat \<Rightarrow> (nat \<times> int) list \<Rightarrow> nat \<Rightarrow> int" where
  "item_units T n items c =
     sum_list (map (\<lambda>(d, k). if k \<le> 0 then 0 else k * kit_units T n d c) items)"

lemma item_units_simps [simp]:
  "item_units T n [] c = 0"
  "item_units T n ((d, k) # items) c =
     (if k \<le> 0 then 0 else k * kit_units T n d c) + item_units T n items c"
  by (simp_all add: item_units_def)

text \<open>\<open>d\<close> is a component of \<open>p\<close> that counts: the source skips multiplicities below one.\<close>

definition kit_edge :: "kit_item table \<Rightarrow> nat \<Rightarrow> nat \<Rightarrow> bool" where
  "kit_edge T p d \<longleftrightarrow> (\<exists>k. 0 < k \<and> (d, k) \<in> set (kit_items_of T p))"

text \<open>Every chain of components from \<open>p\<close> ends.\<close>

abbreviation kit_grounded :: "kit_item table \<Rightarrow> nat \<Rightarrow> bool" where
  "kit_grounded T \<equiv> Wellfounded.accp (\<lambda>d p. kit_edge T p d)"

definition expands_to :: "kit_item table \<Rightarrow> nat \<Rightarrow> quantities \<Rightarrow> bool" where
  "expands_to T p q \<longleftrightarrow>
     distinct (qty_keys q) \<and> (\<forall>(c, n) \<in> set q. 0 < n \<and> kit_items_of T c = []) \<and>
     (\<exists>n0. \<forall>n \<ge> n0. \<forall>c. kit_units T n p c = qty_of q c) \<and> kit_grounded T p"

definition memo_ok :: "kit_item table \<Rightarrow> (nat \<rightharpoonup> quantities) \<Rightarrow> bool" where
  "memo_ok T memo \<longleftrightarrow> (\<forall>p q. memo p = Some q \<longrightarrow> expands_to T p q)"

lemma memo_ok_empty [simp]: "memo_ok T Map.empty"
  by (simp add: memo_ok_def)

lemma memo_ok_update: "memo_ok T memo \<Longrightarrow> expands_to T p q \<Longrightarrow> memo_ok T (memo(p \<mapsto> q))"
  by (simp add: memo_ok_def)

text \<open>What the loop has added to the totals it started from.\<close>

definition totals_add :: "kit_item table \<Rightarrow> (nat \<times> int) list \<Rightarrow> quantities \<Rightarrow> quantities \<Rightarrow> bool" where
  "totals_add T items t q \<longleftrightarrow>
     distinct (qty_keys q) \<and> (\<forall>(c, n) \<in> set q. 0 < n \<and> kit_items_of T c = []) \<and>
     (\<exists>n0. \<forall>n \<ge> n0. \<forall>c. qty_of q c = qty_of t c + item_units T n items c) \<and>
     (\<forall>(d, k) \<in> set items. 0 < k \<longrightarrow> kit_grounded T d)"

definition totals_ok :: "kit_item table \<Rightarrow> quantities \<Rightarrow> bool" where
  "totals_ok T t \<longleftrightarrow> distinct (qty_keys t) \<and> (\<forall>(c, n) \<in> set t. 0 < n \<and> kit_items_of T c = [])"

lemma expands_to_base: "kit_items_of T p = [] \<Longrightarrow> expands_to T p [(p, 1)]"
proof -
  assume base: "kit_items_of T p = []"
  have "kit_units T n p c = qty_of [(p, 1)] c" if "Suc 0 \<le> n" for n c
    using that base by (cases n) auto
  moreover have "kit_grounded T p"
    by (rule accp.accI) (simp add: kit_edge_def base)
  ultimately show ?thesis
    using base unfolding expands_to_def
    by (intro conjI exI [where x = "Suc 0"] allI impI) (simp_all del: qty_of_Cons)
qed

lemma expands_to_kit:
  assumes "kit_items_of T p \<noteq> []" and "totals_add T (kit_items_of T p) [] q"
  shows "expands_to T p q"
proof -
  from assms(2) obtain n0 where
    "\<forall>n \<ge> n0. \<forall>c. qty_of q c = qty_of [] c + item_units T n (kit_items_of T p) c"
    unfolding totals_add_def by blast
  then have n0: "\<And>n c. n0 \<le> n \<Longrightarrow> qty_of q c = item_units T n (kit_items_of T p) c"
    by simp
  have step: "kit_units T (Suc n) p c = item_units T n (kit_items_of T p) c" for n c
    using assms(1) by (simp add: item_units_def)
  have settled: "kit_units T n p c = qty_of q c" if "Suc n0 \<le> n" for n c
  proof -
    from that obtain m where m: "n = Suc m" "n0 \<le> m" by (cases n) auto
    show ?thesis unfolding m(1) step by (rule n0 [OF m(2), symmetric])
  qed
  have "\<exists>n0. \<forall>n \<ge> n0. \<forall>c. kit_units T n p c = qty_of q c"
    by (intro exI [where x = "Suc n0"] allI impI settled)
  moreover have "kit_grounded T p"
    by (rule accp.accI) (use assms(2) in \<open>auto simp: totals_add_def kit_edge_def\<close>)
  ultimately show ?thesis
    using assms(2) by (simp add: expands_to_def totals_add_def)
qed

lemma totals_ok_add_scaled:
  assumes "expands_to T d q" and "totals_ok T t" and "0 < k"
  shows "totals_ok T (add_scaled q k t)"
proof -
  have "kit_items_of T c = []" if "(c, n) \<in> set (add_scaled q k t)" for c n
  proof -
    from that have "c \<in> set (qty_keys (add_scaled q k t))" by force
    then show ?thesis
      using assms(1,2) unfolding keys_add_scaled expands_to_def totals_ok_def by fastforce
  qed
  moreover have "\<forall>(c, n) \<in> set (add_scaled q k t). 0 < n"
    by (rule positive_add_scaled) (use assms in \<open>auto simp: expands_to_def totals_ok_def\<close>)
  ultimately show ?thesis
    using assms(2) by (auto simp: totals_ok_def intro: distinct_add_scaled)
qed

lemma totals_add_step:
  assumes "expands_to T d q" and "0 < k" and "totals_add T items (add_scaled q k t) r"
  shows "totals_add T ((d, k) # items) t r"
proof -
  from assms(1) obtain n1 where n1: "\<And>n c. n1 \<le> n \<Longrightarrow> kit_units T n d c = qty_of q c"
    and dist: "distinct (qty_keys q)" and grounded: "kit_grounded T d"
    unfolding expands_to_def by blast
  from assms(3) obtain n2 where n2:
    "\<And>n c. n2 \<le> n \<Longrightarrow> qty_of r c = qty_of (add_scaled q k t) c + item_units T n items c"
    unfolding totals_add_def by blast
  have "qty_of r c = qty_of t c + item_units T n ((d, k) # items) c" if "max n1 n2 \<le> n" for n c
    using that assms(2) n1 [of n c] n2 [of n c] dist by (simp add: qty_of_add_scaled)
  then have "\<exists>n0. \<forall>n\<ge>n0. \<forall>c. qty_of r c = qty_of t c + item_units T n ((d, k) # items) c"
    by blast
  moreover have "\<forall>(e, j) \<in> set ((d, k) # items). 0 < j \<longrightarrow> kit_grounded T e"
    using assms(3) grounded by (auto simp: totals_add_def)
  ultimately show ?thesis using assms(3) by (simp add: totals_add_def)
qed

lemma totals_add_skip:
  "k \<le> 0 \<Longrightarrow> totals_add T items t r \<Longrightarrow> totals_add T ((d, k) # items) t r"
  by (auto simp: totals_add_def)

text \<open>Both functions, by their joint induction: results and memo entries are expansions.\<close>

lemma unit_quantities_expands:
  "unit_quantities T memo stack p = Inr (q, memo') \<Longrightarrow> memo_ok T memo
     \<Longrightarrow> expands_to T p q \<and> memo_ok T memo'"
  and item_totals_adds:
  "item_totals T memo stack items totals = Inr (q, memo') \<Longrightarrow> memo_ok T memo
     \<Longrightarrow> totals_ok T totals \<Longrightarrow> totals_add T items totals q \<and> memo_ok T memo'"
proof (induction T memo stack p and T memo stack items totals arbitrary: q memo' and q memo'
    rule: unit_quantities_item_totals.induct)
  case (1 T memo stack p)
  show ?case
  proof (cases "memo p")
    case (Some cached)
    with "1.prems" show ?thesis by (auto simp: unit_quantities.simps [of T memo] memo_ok_def)
  next
    case None
    with "1.prems"(1) have fresh: "p \<notin> set stack"
      by (auto simp: unit_quantities.simps [of T memo] split: if_splits)
    show ?thesis
    proof (cases "kit_items_of T p = []")
      case True
      with None fresh "1.prems" show ?thesis
        by (auto simp: unit_quantities.simps [of T memo] intro: expands_to_base memo_ok_update)
    next
      case False
      with None fresh "1.prems"(1) obtain m where
        run: "item_totals T memo (stack @ [p]) (kit_items_of T p) [] = Inr (q, m)"
        and m: "memo' = m(p \<mapsto> q)"
        by (auto simp: unit_quantities.simps [of T memo] wms_ok)
      have "totals_add T (kit_items_of T p) [] q \<and> memo_ok T m"
        using "1.IH" [OF None fresh False run] "1.prems"(2) by (simp add: totals_ok_def)
      with False m show ?thesis by (metis expands_to_kit memo_ok_update)
    qed
  qed
next
  case (2 T memo stack totals)
  then show ?case by (auto simp: totals_add_def totals_ok_def)
next
  case (3 T memo stack c k items totals)
  show ?case
  proof (cases "k \<le> 0")
    case True
    with 3 show ?thesis by (auto intro: totals_add_skip)
  next
    case False
    with "3.prems"(1) obtain q1 m1 where
      unit: "unit_quantities T memo stack c = Inr (q1, m1)"
      and rest: "item_totals T m1 stack items (add_scaled q1 k totals) = Inr (q, memo')"
      by (auto simp: wms_ok)
    have one: "expands_to T c q1" "memo_ok T m1"
      using "3.IH"(2) [OF False unit "3.prems"(2)] by auto
    have "totals_ok T (add_scaled q1 k totals)"
      by (rule totals_ok_add_scaled [OF one(1) "3.prems"(3)]) (use False in simp)
    then have "totals_add T items (add_scaled q1 k totals) q \<and> memo_ok T memo'"
      using "3.IH"(3) [OF False unit refl rest one(2)] by simp
    with one(1) False show ?thesis by (auto intro: totals_add_step)
  qed
qed

section \<open>Cycles\<close>

text \<open>A cycle error names a chain of counting components that returns to its first kit.\<close>

definition kit_cycle :: "kit_item table \<Rightarrow> nat list \<Rightarrow> bool" where
  "kit_cycle T cyc \<longleftrightarrow> 2 \<le> length cyc \<and> hd cyc = last cyc \<and> successively (kit_edge T) cyc"

lemma successively_suffix: "successively R (xs @ ys) \<Longrightarrow> successively R ys"
  by (simp add: successively_append_iff)

lemma stack_cycle:
  assumes "successively (kit_edge T) (stack @ [p])" and "p \<in> set stack"
  shows "kit_cycle T (dropWhile (\<lambda>i. i \<noteq> p) stack @ [p])"
    and "hd (dropWhile (\<lambda>i. i \<noteq> p) stack @ [p]) = p"
proof -
  let ?d = "dropWhile (\<lambda>i. i \<noteq> p) stack"
  from assms(2) have ne: "?d \<noteq> []" by (auto simp: dropWhile_eq_Nil_conv)
  have "hd ?d = p" using hd_dropWhile [OF ne] by simp
  with ne show hd: "hd (?d @ [p]) = p" by simp
  have "stack @ [p] = takeWhile (\<lambda>i. i \<noteq> p) stack @ (?d @ [p])"
    by (simp flip: append_assoc)
  with assms(1) have "successively (kit_edge T) (?d @ [p])"
    by (metis successively_suffix)
  moreover have "2 \<le> length (?d @ [p])" using ne by (cases ?d) auto
  ultimately show "kit_cycle T (?d @ [p])" using hd by (simp add: kit_cycle_def)
qed

lemma kit_edge_kit_ids: "kit_edge T p d \<Longrightarrow> p \<in> kit_ids T"
  by (metis empty_iff kit_edge_def kit_items_of_kit list.set(1))

abbreviation kit_reach :: "kit_item table \<Rightarrow> nat \<Rightarrow> nat \<Rightarrow> bool" where
  "kit_reach T \<equiv> (kit_edge T)\<^sup>*\<^sup>*"

lemma unit_quantities_cycle:
  "unit_quantities T memo stack p = Inl e \<Longrightarrow> successively (kit_edge T) (stack @ [p])
     \<Longrightarrow> set stack \<subseteq> kit_ids T \<Longrightarrow> 0 \<notin> kit_ids T
     \<Longrightarrow> \<exists>cyc. e = Kit_Cycle_Error cyc \<and> kit_cycle T cyc \<and>
           (hd cyc \<in> set stack \<or> kit_reach T p (hd cyc))"
  and item_totals_cycle:
  "item_totals T memo stack items totals = Inl e \<Longrightarrow> successively (kit_edge T) stack
     \<Longrightarrow> stack \<noteq> [] \<Longrightarrow> (\<forall>(c, k) \<in> set items. 0 < k \<longrightarrow> kit_edge T (last stack) c)
     \<Longrightarrow> set stack \<subseteq> kit_ids T \<Longrightarrow> 0 \<notin> kit_ids T
     \<Longrightarrow> \<exists>cyc. e = Kit_Cycle_Error cyc \<and> kit_cycle T cyc \<and>
           (hd cyc \<in> set stack \<or> (\<exists>(c, k) \<in> set items. 0 < k \<and> kit_reach T c (hd cyc)))"
proof (induction T memo stack p and T memo stack items totals
    rule: unit_quantities_item_totals.induct)
  case (1 T memo stack p)
  from "1.prems"(1) have none: "memo p = None"
    by (auto simp: unit_quantities.simps [of T memo] split: option.splits)
  show ?case
  proof (cases "p \<in> set stack")
    case True
    let ?cyc = "dropWhile (\<lambda>i. i \<noteq> p) stack @ [p]"
    have "set ?cyc \<subseteq> kit_ids T"
      using "1.prems"(3) True set_dropWhileD [of _ _ stack] by auto
    with "1.prems"(4) have "filter (\<lambda>i. i \<noteq> 0) ?cyc = ?cyc"
      by (intro filter_True) (metis subset_iff)
    with none True "1.prems"(1) have "e = Kit_Cycle_Error ?cyc"
      by (simp add: unit_quantities.simps [of T memo])
    with stack_cycle [OF "1.prems"(2) True] show ?thesis by auto
  next
    case False
    with none "1.prems"(1) have ne: "kit_items_of T p \<noteq> []"
      and run: "item_totals T memo (stack @ [p]) (kit_items_of T p) [] = Inl e"
      by (auto simp: unit_quantities.simps [of T memo] res_bind_Inl split: if_splits)
    have edges: "\<forall>(c, k) \<in> set (kit_items_of T p). 0 < k \<longrightarrow> kit_edge T (last (stack @ [p])) c"
      by (auto simp: kit_edge_def)
    have "set (stack @ [p]) \<subseteq> kit_ids T" using "1.prems"(3) ne by (simp add: kit_items_of_kit)
    from "1.IH" [OF none False ne run "1.prems"(2) _ edges this "1.prems"(4)]
    obtain cyc where cyc: "e = Kit_Cycle_Error cyc" "kit_cycle T cyc"
      and at: "hd cyc \<in> set (stack @ [p]) \<or>
        (\<exists>(c, k) \<in> set (kit_items_of T p). 0 < k \<and> kit_reach T c (hd cyc))"
      by auto
    have "kit_reach T p (hd cyc)"
      if "(c, k) \<in> set (kit_items_of T p)" "0 < k" "kit_reach T c (hd cyc)" for c k
      using that by (metis converse_rtranclp_into_rtranclp kit_edge_def)
    with at have "hd cyc \<in> set stack \<or> kit_reach T p (hd cyc)" by auto
    with cyc show ?thesis by blast
  qed
next
  case (2 T memo stack totals)
  then show ?case by simp
next
  case (3 T memo stack c k items totals)
  show ?case
  proof (cases "k \<le> 0")
    case True
    from True "3.prems" "3.IH"(1) show ?thesis by fastforce
  next
    case False
    then have edge: "kit_edge T (last stack) c" using "3.prems"(4) by auto
    consider (unit) "unit_quantities T memo stack c = Inl e"
      | (rest) q m where "unit_quantities T memo stack c = Inr (q, m)"
          "item_totals T m stack items (add_scaled q k totals) = Inl e"
      using False "3.prems"(1) by (auto simp: res_bind_Inl)
    then show ?thesis
    proof cases
      case unit
      have "successively (kit_edge T) (stack @ [c])"
        using "3.prems"(2,3) edge by (simp add: successively_append_iff)
      from "3.IH"(2) [OF False unit this "3.prems"(5,6)] False show ?thesis by fastforce
    next
      case rest
      from "3.IH"(3) [OF False rest(1) refl rest(2) "3.prems"(2,3) _ "3.prems"(5,6)] "3.prems"(4)
      show ?thesis by fastforce
    qed
  qed
qed

lemma grounded_reach: "kit_reach T p d \<Longrightarrow> kit_grounded T p \<Longrightarrow> kit_grounded T d"
  by (induction rule: rtranclp_induct) (auto intro: accp_downward)

lemma grounded_irreflexive: "kit_grounded T p \<Longrightarrow> \<not> (kit_edge T)\<^sup>+\<^sup>+ p p"
proof (induction rule: accp.induct)
  case (accI p)
  show ?case
  proof
    assume "(kit_edge T)\<^sup>+\<^sup>+ p p"
    then obtain d where d: "kit_edge T p d" "kit_reach T d p"
      by (auto dest: tranclpD)
    then have "(kit_edge T)\<^sup>+\<^sup>+ d d" by (auto intro: rtranclp_into_tranclp1)
    with accI.IH [OF d(1)] show False by simp
  qed
qed

lemma successively_reach: "successively R (x # xs) \<Longrightarrow> xs \<noteq> [] \<Longrightarrow> R\<^sup>+\<^sup>+ x (last xs)"
proof (induction xs arbitrary: x)
  case (Cons y ys)
  then show ?case by (cases ys) (auto intro: tranclp_into_tranclp2)
qed simp

lemma kit_cycle_tranclp: "kit_cycle T cyc \<Longrightarrow> (kit_edge T)\<^sup>+\<^sup>+ (hd cyc) (hd cyc)"
  using successively_reach [of "kit_edge T" "hd cyc" "tl cyc"]
  by (cases cyc) (auto simp: kit_cycle_def neq_Nil_conv split: if_splits)

text \<open>The expansion returns exactly on the products from which no chain of components is endless.\<close>

lemma unit_quantities_total:
  assumes "kit_grounded T p" and "0 \<notin> kit_ids T"
  shows "\<exists>q memo. unit_quantities T Map.empty [] p = Inr (q, memo)"
proof (cases "unit_quantities T Map.empty [] p")
  case (Inl e)
  from unit_quantities_cycle [OF this] assms(2) obtain cyc
    where "kit_cycle T cyc" and "kit_reach T p (hd cyc)" by auto
  then show ?thesis
    using assms(1) grounded_reach grounded_irreflexive kit_cycle_tranclp by blast
next
  case (Inr r)
  then show ?thesis by (cases r) auto
qed

section \<open>Keeping cycles out of the table\<close>

text \<open>
  \<open>ProductKitItem._component_reaches_kit\<close>: a depth-first search from the component of the item
  being saved over the other rows, here \<open>descendants\<close>, popping from the end of the work list. The
  search follows every row, whatever its multiplicity.
\<close>

definition component_ids :: "kit_item table \<Rightarrow> nat \<Rightarrow> nat list" where
  "component_ids T p = map (\<lambda>(_, k). ki_component k) (rows_where (\<lambda>_ k. ki_kit k = p) T)"

definition all_components :: "kit_item table \<Rightarrow> nat set" where
  "all_components T = (\<lambda>(_, k). ki_component k) ` set T"

lemma component_ids_subset: "set (component_ids T p) \<subseteq> all_components T"
  by (force simp: component_ids_def all_components_def rows_where_def)

lemma finite_all_components [simp]: "finite (all_components T)"
  by (simp add: all_components_def)

function reaches_loop :: "kit_item table \<Rightarrow> nat \<Rightarrow> nat set \<Rightarrow> nat list \<Rightarrow> bool" where
  "reaches_loop descendants kit visited to_visit =
     (if to_visit = [] then False
      else let current = last to_visit; rest = butlast to_visit in
        if current = kit then True
        else if current \<in> visited then reaches_loop descendants kit visited rest
        else reaches_loop descendants kit (insert current visited)
               (rest @ component_ids descendants current))"
  by pat_completeness auto

termination
proof (relation "inv_image (less_than <*lex*> less_than)
    (\<lambda>(T, kit, visited, to_visit).
       (card (set to_visit \<union> all_components T - visited), length to_visit))", goal_cases)
  case 1
  show ?case by (simp add: wf_lex_prod)
next
  case (2 T kit visited to_visit current rest)
  have "set rest \<union> all_components T - visited \<subseteq> set to_visit \<union> all_components T - visited"
    using 2 by (auto dest: in_set_butlastD)
  then have "card (set rest \<union> all_components T - visited)
      \<le> card (set to_visit \<union> all_components T - visited)"
    by (rule card_mono [rotated]) simp
  moreover have "length rest < length to_visit" using 2 by simp
  ultimately show ?case by auto
next
  case (3 T kit visited to_visit current rest)
  have "set (rest @ component_ids T current) \<union> all_components T - insert current visited
      \<subset> set to_visit \<union> all_components T - visited"
    using 3 component_ids_subset [of T current] last_in_set [of to_visit]
    by (auto dest: in_set_butlastD)
  then have "card (set (rest @ component_ids T current) \<union> all_components T - insert current visited)
      < card (set to_visit \<union> all_components T - visited)"
    by (rule psubset_card_mono [rotated]) simp
  then show ?case by simp
qed

declare reaches_loop.simps [simp del]

definition component_reaches_kit :: "kit_item table \<Rightarrow> nat option \<Rightarrow> kit_item \<Rightarrow> bool" where
  "component_reaches_kit T pk item =
     (if ki_kit item = 0 \<or> ki_component item = 0 then False
      else reaches_loop (case pk of None \<Rightarrow> T | Some i \<Rightarrow> row_del i T)
             (ki_kit item) {} [ki_component item])"

text \<open>\<open>ProductKitItem.clean\<close>: the item with the key \<open>pk\<close> (none before it is saved).\<close>

definition kit_item_clean :: "kit_item table \<Rightarrow> nat option \<Rightarrow> kit_item \<Rightarrow> err + unit" where
  "kit_item_clean T pk item =
     res_bind (raise_if (ki_kit item \<noteq> 0 \<and> ki_component item \<noteq> 0 \<and> ki_kit item = ki_component item)
                (Value_Error ''kit_contains_itself''))
       (\<lambda>_. raise_if (component_reaches_kit T pk item) (Value_Error ''kit_contains_itself_indirectly''))"

definition kit_row :: "kit_item table \<Rightarrow> nat \<Rightarrow> nat \<Rightarrow> bool" where
  "kit_row T p d \<longleftrightarrow> (\<exists>i k. (i, k) \<in> set T \<and> ki_kit k = p \<and> ki_component k = d)"

lemma component_ids_row: "d \<in> set (component_ids T p) \<longleftrightarrow> kit_row T p d"
  by (force simp: component_ids_def kit_row_def rows_where_def)

lemma kit_edge_row: "kit_edge T p d \<Longrightarrow> kit_row T p d"
  by (force simp: kit_edge_def kit_row_def kit_items_of_def rows_where_def)

text \<open>
  The search answers whether the kit can be reached from the work list: visited products have all
  their components visited or waiting, so what is left unexplored is reachable from the list.
\<close>

lemma reaches_loop_iff:
  assumes "kit \<notin> visited"
    and "\<And>p d. p \<in> visited \<Longrightarrow> kit_row T p d \<Longrightarrow> d \<in> visited \<union> set to_visit"
  shows "reaches_loop T kit visited to_visit \<longleftrightarrow> (\<exists>p \<in> set to_visit. (kit_row T)\<^sup>*\<^sup>* p kit)"
  using assms
proof (induction T kit visited to_visit rule: reaches_loop.induct)
  case (1 T kit visited to_visit)
  show ?case
  proof (cases "to_visit = []")
    case True
    then show ?thesis by (simp add: reaches_loop.simps [of T kit visited])
  next
    case False
    define current where "current = last to_visit"
    define rest where "rest = butlast to_visit"
    have split: "to_visit = rest @ [current]" using False by (simp add: current_def rest_def)
    have unfold: "reaches_loop T kit visited to_visit =
        (if current = kit then True
         else if current \<in> visited then reaches_loop T kit visited rest
         else reaches_loop T kit (insert current visited) (rest @ component_ids T current))"
      using False by (simp add: reaches_loop.simps [of T kit visited] current_def rest_def Let_def)
    consider "current = kit" | (seen) "current \<noteq> kit" "current \<in> visited"
      | (new) "current \<noteq> kit" "current \<notin> visited" by blast
    then show ?thesis
    proof cases
      case 1
      then show ?thesis using unfold split by auto
    next
      case seen
      have closed: "d \<in> visited \<union> set rest" if "p \<in> visited" "kit_row T p d" for p d
        using "1.prems"(2) [OF that] seen split by auto
      have "reaches_loop T kit visited rest \<longleftrightarrow> (\<exists>p \<in> set rest. (kit_row T)\<^sup>*\<^sup>* p kit)"
        using "1.IH"(1) [OF False current_def rest_def seen] "1.prems"(1) closed by blast
      moreover have "\<exists>p \<in> set rest. (kit_row T)\<^sup>*\<^sup>* p kit" if "(kit_row T)\<^sup>*\<^sup>* p kit" "p \<in> visited" for p
        using that
      proof (induction rule: converse_rtranclp_induct)
        case base
        then show ?case using "1.prems"(1) by simp
      next
        case (step p d)
        then show ?case using closed by blast
      qed
      ultimately show ?thesis using unfold seen split by auto
    next
      case new
      have closed: "d \<in> insert current visited \<union> set (rest @ component_ids T current)"
        if "p \<in> insert current visited" "kit_row T p d" for p d
        using that "1.prems"(2) split by (auto simp: component_ids_row)
      have "reaches_loop T kit (insert current visited) (rest @ component_ids T current)
          \<longleftrightarrow> (\<exists>p \<in> set (rest @ component_ids T current). (kit_row T)\<^sup>*\<^sup>* p kit)"
        using "1.IH"(2) [OF False current_def rest_def new] "1.prems"(1) new closed by blast
      moreover have "(kit_row T)\<^sup>*\<^sup>* current kit
          \<longleftrightarrow> (\<exists>p \<in> set (component_ids T current). (kit_row T)\<^sup>*\<^sup>* p kit)"
        using new(1) by (metis component_ids_row converse_rtranclpE converse_rtranclp_into_rtranclp)
      ultimately show ?thesis using unfold new split by auto
    qed
  qed
qed

lemma component_reaches_kit_iff:
  assumes "ki_kit item \<noteq> 0" and "ki_component item \<noteq> 0"
  shows "component_reaches_kit T None item \<longleftrightarrow> (kit_row T)\<^sup>*\<^sup>* (ki_component item) (ki_kit item)"
  using reaches_loop_iff [of "ki_kit item" "{}" T "[ki_component item]"] assms
  by (simp add: component_reaches_kit_def)

lemma kit_item_clean_ok:
  assumes "kit_item_clean T None item = Inr u" and "ki_kit item \<noteq> 0" and "ki_component item \<noteq> 0"
  shows "\<not> (kit_row T)\<^sup>*\<^sup>* (ki_component item) (ki_kit item)"
  using assms by (simp add: kit_item_clean_def wms_ok component_reaches_kit_iff)

lemma kit_row_ins:
  "kit_row (row_ins item T) p d \<longleftrightarrow> kit_row T p d \<or> (p = ki_kit item \<and> d = ki_component item)"
  by (auto simp: kit_row_def row_ins_def)

text \<open>A new edge closes a cycle only where its target already reached its source.\<close>

lemma tranclp_insert_edge:
  assumes "(\<lambda>p d. R p d \<or> (p = a \<and> d = b))\<^sup>+\<^sup>+ x y"
  shows "R\<^sup>+\<^sup>+ x y \<or> (R\<^sup>*\<^sup>* x a \<and> R\<^sup>*\<^sup>* b y)"
  using assms
proof (induction rule: tranclp_induct)
  case (base y)
  then show ?case by auto
next
  case (step y z)
  then show ?case
    by (auto intro: tranclp.trancl_into_trancl rtranclp.rtrancl_into_rtrancl tranclp_into_rtranclp)
qed

definition kit_acyclic :: "kit_item table \<Rightarrow> bool" where
  "kit_acyclic T \<longleftrightarrow> (\<forall>p. \<not> (kit_row T)\<^sup>+\<^sup>+ p p)"

lemma kit_acyclic_ins:
  assumes "kit_acyclic T" and "\<not> (kit_row T)\<^sup>*\<^sup>* (ki_component item) (ki_kit item)"
  shows "kit_acyclic (row_ins item T)"
  unfolding kit_acyclic_def
proof (intro allI notI)
  fix p
  assume cycle: "(kit_row (row_ins item T))\<^sup>+\<^sup>+ p p"
  have "kit_row (row_ins item T)
      = (\<lambda>p d. kit_row T p d \<or> (p = ki_kit item \<and> d = ki_component item))"
    by (intro ext) (rule kit_row_ins)
  from tranclp_insert_edge [OF cycle [unfolded this]] assms(1)
  have "(kit_row T)\<^sup>*\<^sup>* p (ki_kit item) \<and> (kit_row T)\<^sup>*\<^sup>* (ki_component item) p"
    by (auto simp: kit_acyclic_def)
  with assms(2) show False by (meson rtranclp_trans)
qed

lemma tranclp_flip: "(\<lambda>d p. R p d)\<^sup>+\<^sup>+ x y \<Longrightarrow> R\<^sup>+\<^sup>+ y x"
  by (induction rule: tranclp_induct) (auto intro: tranclp_into_tranclp2)

lemma tranclp_weaken: "R\<^sup>+\<^sup>+ x y \<Longrightarrow> (\<And>a b. R a b \<Longrightarrow> S a b) \<Longrightarrow> S\<^sup>+\<^sup>+ x y"
  by (induction rule: tranclp_induct) (auto intro: tranclp.trancl_into_trancl)

text \<open>A finite table without cycles grounds every product, so every expansion returns.\<close>

lemma kit_acyclic_grounded:
  assumes "kit_acyclic T"
  shows "kit_grounded T p"
proof -
  let ?r = "{(d, p). kit_edge T p d}"
  have "?r \<subseteq> (\<lambda>(_, k). (ki_component k, ki_kit k)) ` set T"
    by (force simp: kit_edge_def kit_items_of_def rows_where_def)
  then have "finite ?r" by (rule finite_subset) simp
  moreover have "acyclic ?r"
  proof (rule acyclicI, rule allI, rule notI)
    fix x
    assume "(x, x) \<in> ?r\<^sup>+"
    then have "(\<lambda>d p. kit_edge T p d)\<^sup>+\<^sup>+ x x" by (simp add: tranclp_unfold)
    then have "(kit_edge T)\<^sup>+\<^sup>+ x x" by (rule tranclp_flip)
    then have "(kit_row T)\<^sup>+\<^sup>+ x x"
      by (rule tranclp_weaken) (rule kit_edge_row)
    with assms show False by (simp add: kit_acyclic_def)
  qed
  ultimately have "wf ?r" by (rule finite_acyclic_wf)
  then have "wfp (\<lambda>d p. kit_edge T p d)" by (simp add: wfp_def)
  then show ?thesis by (simp add: wfp_iff_accp)
qed

end
