(* ===== verification/Carton_Codes.thy ===== *)
theory Carton_Codes
  imports Carton_Status Kits
begin

text \<open>
  Carton codes (the first part of \<open>wms/domain/stock.py\<close>): the family code of a carton from the
  root categories of what it holds, the linear codes \<open>FA-00042\<close> numbered per family, the older
  dated codes, and the recoding of a carton when its contents change.
\<close>

section \<open>Family codes\<close>

definition normalize_type_code :: "env \<Rightarrow> string \<Rightarrow> string" where
  "normalize_type_code e label =
     (case alnum_words (e_ascii_fold e label) of
        [] \<Rightarrow> ''XX''
      | [w] \<Rightarrow> take 2 (ljust (str_upper (take 2 w)) 2 (CHR ''X''))
      | v # w # _ \<Rightarrow> take 2 (ljust (str_upper [hd v, hd w]) 2 (CHR ''X'')))"

text \<open>
  The walk to the root category follows the parents as long as there are any. On a category
  whose chain of parents never ends it does not return (\<open>Diverges\<close>); a chain without repetition
  has at most as many steps as the table has rows, which is the fuel.
\<close>

fun root_category :: "nat \<Rightarrow> category table \<Rightarrow> nat \<Rightarrow> err + category" where
  "root_category fuel T k =
     res_bind (require (row_get T k) Does_Not_Exist) (\<lambda>c.
       case cat_parent c of
         None \<Rightarrow> Inr c
       | Some p \<Rightarrow> (case fuel of 0 \<Rightarrow> Inl Diverges | Suc n \<Rightarrow> root_category n T p))"

declare root_category.simps [simp del]

definition root_category_name :: "product \<Rightarrow> db \<Rightarrow> err + string" where
  "root_category_name p s =
     (case p_category p of
        None \<Rightarrow> Inr ''''
      | Some k \<Rightarrow> res_bind (root_category (length (db_categories s)) (db_categories s) k)
                    (\<lambda>c. Inr (cat_name c)))"

definition carton_items_of :: "nat \<Rightarrow> db \<Rightarrow> (nat \<times> carton_item) list" where
  "carton_items_of k s = rows_where (\<lambda>_ i. it_carton i = k) (db_carton_items s)"

text \<open>
  The loop of \<open>_dominant_type_code\<close>: weights and quantities per family, in the order the
  families first appear.
\<close>

definition add_item_type ::
    "env \<Rightarrow> db \<Rightarrow> nat \<times> carton_item \<Rightarrow> (string \<times> int) list \<times> (string \<times> int) list
       \<Rightarrow> err + (string \<times> int) list \<times> (string \<times> int) list" where
  "add_item_type e s row acc =
     (let item = snd row in
      res_bind (require (row_get (db_lots s) (it_lot item)) Does_Not_Exist) (\<lambda>lot.
      res_bind (require (row_get (db_products s) (l_product lot)) Does_Not_Exist) (\<lambda>product.
      res_bind (root_category_name product s) (\<lambda>type_label.
        let type_code = normalize_type_code e type_label;
            weight = (case p_weight_g product of None \<Rightarrow> 0 | Some w \<Rightarrow> w) * it_quantity item
        in Inr (add_quantity type_code weight (fst acc),
                add_quantity type_code (it_quantity item) (snd acc))))))"

text \<open>\<open>max(d, key=d.get)\<close> on a non-empty dictionary: the first key with the largest value.\<close>

fun first_max :: "('k \<times> int) list \<Rightarrow> 'k \<Rightarrow> int \<Rightarrow> 'k" where
  "first_max [] best n = best"
| "first_max ((k, m) # d) best n = (if n < m then first_max d k m else first_max d best n)"

definition dominant_type_code :: "env \<Rightarrow> nat \<Rightarrow> db \<Rightarrow> err + string" where
  "dominant_type_code e k s =
     res_bind (for_each (add_item_type e s) (carton_items_of k s) ([], [])) (\<lambda>(weights, qtys).
       case (weights, qtys) of
         ([], _) \<Rightarrow> Inr ''XX''
       | (_, []) \<Rightarrow> Inr ''XX''
       | ((k, w) # ws, (j, q) # qs) \<Rightarrow>
           if 0 < fold max (map snd ws) w then Inr (first_max ws k w) else Inr (first_max qs j q))"

definition normalize_carton_family :: "string \<Rightarrow> string" where
  "normalize_carton_family type_code =
     (let normalized = str_upper (strip type_code)
      in if normalized = [] then ''XX'' else take 2 (ljust normalized 2 (CHR ''X'')))"

section \<open>Patterns and formats\<close>

definition is_type_char :: "char \<Rightarrow> bool" where
  "is_type_char c \<longleftrightarrow> is_upper c \<or> is_digit c"

text \<open>\<open>CARTON_CODE_RE\<close>, the dated codes: type, date, number.\<close>

definition match_carton_code :: "string \<Rightarrow> (string \<times> string \<times> string) option" where
  "match_carton_code s =
     (let typ = take 2 s; s1 = drop 2 s; date = take 8 (drop 1 s1); s2 = drop 9 s1
      in if length typ = 2 \<and> list_all is_type_char typ \<and> take 1 s1 = ''-'' \<and> length date = 8
            \<and> all_digits date \<and> take 1 s2 = ''-''
         then (case match_digits_end (drop 1 s2) of None \<Rightarrow> None | Some seq \<Rightarrow> Some (typ, date, seq))
         else None)"

text \<open>\<open>LINEAR_CARTON_CODE_RE\<close>: type and a number of five digits.\<close>

definition match_linear_code :: "string \<Rightarrow> (string \<times> string) option" where
  "match_linear_code s =
     (let typ = take 2 s; s1 = drop 2 s; seq = take 5 (drop 1 s1); s2 = drop 6 s1
      in if length typ = 2 \<and> list_all is_type_char typ \<and> take 1 s1 = ''-'' \<and> length seq = 5
            \<and> all_digits seq \<and> at_end s2
         then Some (typ, seq) else None)"

definition format_carton_code :: "string \<Rightarrow> string \<Rightarrow> nat \<Rightarrow> string" where
  "format_carton_code type_code date_str sequence =
     type_code @ ''-'' @ date_str @ ''-'' @ nat_str sequence"

definition format_linear_carton_code :: "string \<Rightarrow> nat \<Rightarrow> string" where
  "format_linear_carton_code type_code sequence =
     normalize_carton_family type_code @ ''-'' @ zero_pad 5 sequence"

definition date_str :: "date \<Rightarrow> string" where
  "date_str d = zero_pad 4 (d_year d) @ zero_pad 2 (d_month d) @ zero_pad 2 (d_day d)"

definition carton_date_str :: "env \<Rightarrow> carton \<Rightarrow> string" where
  "carton_date_str e c = date_str (e_localdate e (c_created_at c))"

section \<open>Numbering\<close>

text \<open>\<open>code__contains\<close>: the infix test of the query.\<close>

fun is_infix :: "string \<Rightarrow> string \<Rightarrow> bool" where
  "is_infix p [] = (p = [])"
| "is_infix p (c # s) = (startswith (c # s) p \<or> is_infix p s)"

definition next_carton_sequence :: "string \<Rightarrow> db \<Rightarrow> nat" where
  "next_carton_sequence date s =
     (let codes = [c_code c. (_, c) \<leftarrow> db_cartons s, is_infix (''-'' @ date @ ''-'') (c_code c)]
      in Suc (fold (\<lambda>code best. case match_carton_code code of
                None \<Rightarrow> best
              | Some (_, d, seq) \<Rightarrow> if d = date then max best (parse_nat seq) else best) codes 0))"

text \<open>\<open>_next_linear_carton_sequence\<close>: the counter of a family, created at zero.\<close>

definition next_linear_carton_sequence :: "string \<Rightarrow> db \<Rightarrow> nat \<times> db" where
  "next_linear_carton_sequence type_code s =
     (let family = normalize_carton_family type_code;
          t = (case find_row (\<lambda>r. cs_family r = family) (db_carton_sequences s) of
                 Some _ \<Rightarrow> db_carton_sequences s
               | None \<Rightarrow> row_ins \<lparr>cs_family = family, cs_last_number = 0\<rparr> (db_carton_sequences s))
      in case find_row (\<lambda>r. cs_family r = family) t of
           None \<Rightarrow> (0, s\<lparr>db_carton_sequences := t\<rparr>)
         | Some (k, r) \<Rightarrow> (Suc (cs_last_number r), s\<lparr>db_carton_sequences :=
             row_upd k (\<lambda>r. r\<lparr>cs_last_number := Suc (cs_last_number r)\<rparr>) t\<rparr>))"

definition generate_carton_code :: "string \<Rightarrow> db \<Rightarrow> string \<times> db" where
  "generate_carton_code type_code s =
     (let (sequence, s') = next_linear_carton_sequence type_code s
      in (format_linear_carton_code type_code sequence, s'))"

definition code_taken :: "nat option \<Rightarrow> string \<Rightarrow> db \<Rightarrow> bool" where
  "code_taken self code s = list_ex (\<lambda>(k, c). c_code c = code \<and> self \<noteq> Some k) (db_cartons s)"

definition write_code :: "nat \<Rightarrow> string \<Rightarrow> db \<Rightarrow> db" where
  "write_code k code s = s\<lparr>db_cartons := row_upd k (\<lambda>c. c\<lparr>c_code := code\<rparr>) (db_cartons s)\<rparr>"

text \<open>
  \<open>ensure_carton_code\<close>. A linear code of the wrong family is replaced by the next number of the
  right one, in at most two attempts that skip a taken code; a dated code, or an automatic one
  starting with \<open>C-\<close>, is replaced by a dated code of the right type. \<open>code\<close> is unique, so saving a
  taken one raises. The dated branch catches that and draws the number again with a query; but its
  callers run in one transaction, which the failed write has broken, so the query raises and the
  second attempt is never made.
\<close>

fun linear_attempts :: "nat \<Rightarrow> nat \<Rightarrow> string \<Rightarrow> db \<Rightarrow> db" where
  "linear_attempts 0 k family s = s"
| "linear_attempts (Suc n) k family s =
     (let (sequence, s1) = next_linear_carton_sequence family s;
          new_code = format_linear_carton_code family sequence
      in if code_taken (Some k) new_code s1 then linear_attempts n k family s1
         else write_code k new_code s1)"

definition dated_attempt :: "nat \<Rightarrow> string \<Rightarrow> db \<Rightarrow> err + db" where
  "dated_attempt k code s =
     (if code_taken (Some k) code s then Inl Broken_Transaction else Inr (write_code k code s))"

definition resolve_type_code :: "env \<Rightarrow> nat \<Rightarrow> string option \<Rightarrow> db \<Rightarrow> err + string" where
  "resolve_type_code e k type_code s =
     (case type_code of
        Some code \<Rightarrow> if code = [] then dominant_type_code e k s else Inr code
      | None \<Rightarrow> dominant_type_code e k s)"

definition ensure_carton_code :: "env \<Rightarrow> nat \<Rightarrow> bool \<Rightarrow> string option \<Rightarrow> db \<Rightarrow> err + db" where
  "ensure_carton_code e k manual type_code s =
     (if manual then Inr s
      else res_bind (require (row_get (db_cartons s) k) Does_Not_Exist) (\<lambda>carton.
        let current = c_code carton in
        case match_linear_code current of
          Some (typ, _) \<Rightarrow>
            res_bind (resolve_type_code e k type_code s) (\<lambda>type_code.
              let family = normalize_carton_family type_code
              in if typ = family then Inr s else Inr (linear_attempts 2 k family s))
        | None \<Rightarrow>
            let match = match_carton_code current;
                date = carton_date_str e carton;
                is_legacy_auto = startswith current ''C-'' \<and> match = None
            in if match = None \<and> \<not> is_legacy_auto then Inr s
               else res_bind (resolve_type_code e k type_code s) (\<lambda>type_code.
                 let sequence = (case match of
                       Some (_, d, seq) \<Rightarrow> if d = date then parse_nat seq else next_carton_sequence date s
                     | None \<Rightarrow> next_carton_sequence date s);
                     new_code = format_carton_code type_code date sequence
                 in if new_code = current then Inr s
                    else let new_code = (if code_taken (Some k) new_code s
                           then format_carton_code type_code date (next_carton_sequence date s)
                           else new_code)
                         in dated_attempt k new_code s)))"

section \<open>Codes and numbers\<close>

definition family_current :: "string \<Rightarrow> db \<Rightarrow> nat" where
  "family_current type_code s =
     (case find_row (\<lambda>r. cs_family r = normalize_carton_family type_code) (db_carton_sequences s) of
        None \<Rightarrow> 0 | Some (_, r) \<Rightarrow> cs_last_number r)"

definition family_started :: "string \<Rightarrow> db \<Rightarrow> bool" where
  "family_started type_code s \<longleftrightarrow>
     find_row (\<lambda>r. cs_family r = normalize_carton_family type_code) (db_carton_sequences s) \<noteq> None"

lemma next_linear_spec:
  "fst (next_linear_carton_sequence f s) = Suc (family_current f s)"
  "family_started f (snd (next_linear_carton_sequence f s))"
  "family_current f (snd (next_linear_carton_sequence f s)) = Suc (family_current f s)"
proof -
  let ?P = "\<lambda>r. cs_family r = normalize_carton_family f"
  let ?g = "\<lambda>r. r\<lparr>cs_last_number := Suc (cs_last_number r)\<rparr>"
  define t where "t = (case find_row ?P (db_carton_sequences s) of
      Some _ \<Rightarrow> db_carton_sequences s
    | None \<Rightarrow> row_ins \<lparr>cs_family = normalize_carton_family f, cs_last_number = 0\<rparr> (db_carton_sequences s))"
  obtain k r where kr: "find_row ?P t = Some (k, r)" and cur: "cs_last_number r = family_current f s"
  proof (cases "find_row ?P (db_carton_sequences s)")
    case None
    then have "find_row ?P t = Some (next_pk (db_carton_sequences s),
        \<lparr>cs_family = normalize_carton_family f, cs_last_number = 0\<rparr>)"
      by (simp add: t_def row_ins_def find_row_append) (simp add: find_row_def)
    with None show ?thesis by (auto simp: family_current_def intro: that)
  next
    case (Some kr)
    then show ?thesis by (cases kr) (auto simp: t_def family_current_def intro: that)
  qed
  have draw: "next_linear_carton_sequence f s
      = (Suc (cs_last_number r), s\<lparr>db_carton_sequences := row_upd k ?g t\<rparr>)"
    unfolding next_linear_carton_sequence_def Let_def t_def [symmetric] kr by simp
  have "find_row ?P (row_upd k ?g t) = Some (k, ?g r)" by (rule find_row_upd [OF kr]) simp
  with draw cur show "fst (next_linear_carton_sequence f s) = Suc (family_current f s)"
    and "family_started f (snd (next_linear_carton_sequence f s))"
    and "family_current f (snd (next_linear_carton_sequence f s)) = Suc (family_current f s)"
    by (simp_all add: family_current_def family_started_def)
qed

lemma family_quiet:
  assumes "db_carton_sequences t = db_carton_sequences s"
  shows "family_current f t = family_current f s" and "family_started f t = family_started f s"
  using assms by (simp_all add: family_current_def family_started_def)

interpretation carton_numbers: counter
  "next_linear_carton_sequence f" "family_current f" "family_started f"
  "\<lambda>s t. db_carton_sequences t = db_carton_sequences s" for f
  by unfold_locales (simp_all only: next_linear_spec, simp_all add: family_current_def family_started_def)

lemma next_linear_frame:
  "snd (next_linear_carton_sequence f s)
     = s\<lparr>db_carton_sequences := db_carton_sequences (snd (next_linear_carton_sequence f s))\<rparr>"
  by (simp add: next_linear_carton_sequence_def Let_def split: option.splits prod.splits)

lemma next_linear_same [simp]:
  "db_cartons (snd (next_linear_carton_sequence f s)) = db_cartons s"
  "code_taken k c (snd (next_linear_carton_sequence f s)) = code_taken k c s"
proof -
  obtain q where "snd (next_linear_carton_sequence f s) = s\<lparr>db_carton_sequences := q\<rparr>"
    using next_linear_frame [of f s] by metis
  then show "db_cartons (snd (next_linear_carton_sequence f s)) = db_cartons s"
    and "code_taken k c (snd (next_linear_carton_sequence f s)) = code_taken k c s"
    by (simp_all add: code_taken_def)
qed

lemma length_normalize_family [simp]: "length (normalize_carton_family f) = 2"
  by (simp add: normalize_carton_family_def Let_def)

lemma format_linear_inj:
  "format_linear_carton_code f m = format_linear_carton_code f n \<Longrightarrow> m = n"
  by (auto simp: format_linear_carton_code_def dest: zero_pad_inj)

lemma match_format_linear:
  assumes "list_all is_type_char (normalize_carton_family f)" and "n < 100000"
  shows "match_linear_code (format_linear_carton_code f n)
    = Some (normalize_carton_family f, zero_pad 5 n)"
  using assms length_zero_pad [of n 5]
  by (simp add: match_linear_code_def format_linear_carton_code_def Let_def at_end_def)

text \<open>A family derived from the contents consists of two capitals or digits.\<close>

lemma type_char_X [simp]: "is_type_char (CHR ''X'')"
  by (simp add: is_type_char_def is_upper_def)

lemma alnum_words_alnum: "w \<in> set (alnum_words s) \<Longrightarrow> w \<noteq> [] \<and> list_all is_alnum w"
proof (induction s rule: alnum_words.induct)
  case (2 c s)
  show ?case
  proof (cases "is_alnum c")
    case True
    have "list_all is_alnum (takeWhile is_alnum s)" by (auto simp: list_all_iff dest: set_takeWhileD)
    with True 2 show ?thesis by auto
  next
    case False
    with 2 show ?thesis by simp
  qed
qed simp

lemma type_char_upper: "is_alnum c \<Longrightarrow> is_type_char (upper_char c)"
  by (simp add: is_type_char_def upper_alnum)

lemma normalize_type_code_shape:
  "length (normalize_type_code e label) = 2 \<and> list_all is_type_char (normalize_type_code e label)"
proof -
  have pad: "list_all is_type_char (take 2 (ljust w 2 (CHR ''X'')))" if "list_all is_type_char w" for w
    using that by (auto simp: ljust_def list_all_iff dest!: in_set_takeD)
  have up: "list_all is_type_char (str_upper w)" if "list_all is_alnum w" for w
    using that by (auto simp: str_upper_def list_all_iff type_char_upper)
  have words: "\<And>w. w \<in> set (alnum_words (e_ascii_fold e label)) \<Longrightarrow> w \<noteq> [] \<and> list_all is_alnum w"
    by (rule alnum_words_alnum)
  have hd_ok: "w \<noteq> [] \<Longrightarrow> list_all is_alnum w \<Longrightarrow> is_alnum (hd w)" for w
    by (cases w) auto
  show ?thesis
  proof (cases "alnum_words (e_ascii_fold e label)" rule: remdups_adj.cases)
    case 1
    then show ?thesis by (simp add: normalize_type_code_def)
  next
    case (2 w)
    then have "list_all is_alnum (take 2 w)"
      using words [of w] by (auto simp: list_all_iff dest: in_set_takeD)
    with 2 show ?thesis by (simp add: normalize_type_code_def pad up)
  next
    case (3 v w ws)
    have "list_all is_alnum [hd v, hd w]" using 3 words [of v] words [of w] hd_ok by simp
    with 3 show ?thesis by (simp add: normalize_type_code_def pad [OF up])
  qed
qed

lemma type_char_not_space: "is_type_char c \<Longrightarrow> \<not> is_space c"
  by (auto simp: is_type_char_def is_upper_def is_digit_def is_space_def)

lemma type_char_upper_same: "is_type_char c \<Longrightarrow> upper_char c = c"
  by (auto simp: is_type_char_def is_upper_def is_digit_def upper_char_def is_lower_def)

lemma normalize_family_type_code:
  assumes "length t = 2" and "list_all is_type_char t"
  shows "normalize_carton_family t = t"
proof -
  have "strip t = t" using assms(2) by (intro strip_no_space) (auto simp: list_all_iff type_char_not_space)
  moreover have "str_upper t = t"
    using assms(2) by (auto simp: str_upper_def list_all_iff type_char_upper_same intro: map_idI)
  ultimately show ?thesis using assms(1) by (auto simp: normalize_carton_family_def ljust_def)
qed

section \<open>What recoding changes\<close>

definition codes_unique :: "db \<Rightarrow> bool" where
  "codes_unique s \<longleftrightarrow> distinct (map (\<lambda>r. c_code (snd r)) (db_cartons s))"

text \<open>Only the code of the carton and the counters change.\<close>

definition recoded :: "nat \<Rightarrow> db \<Rightarrow> db \<Rightarrow> bool" where
  "recoded k s s' \<longleftrightarrow> (\<exists>t q. s' = s\<lparr>db_cartons := t, db_carton_sequences := q\<rparr>
     \<and> (t = db_cartons s \<or> (\<exists>code. \<not> code_taken (Some k) code s
          \<and> t = row_upd k (\<lambda>c. c\<lparr>c_code := code\<rparr>) (db_cartons s))))"

lemma recoded_refl [simp]: "recoded k s s"
  unfolding recoded_def by (intro exI [where x = "db_cartons s"] exI [where x = "db_carton_sequences s"]) simp

lemma recoded_write: "\<not> code_taken (Some k) code s \<Longrightarrow> recoded k s (write_code k code s)"
  unfolding recoded_def write_code_def
  by (intro exI [where x = "row_upd k (\<lambda>c. c\<lparr>c_code := code\<rparr>) (db_cartons s)"]
      exI [where x = "db_carton_sequences s"]) auto

lemma recoded_draw: "recoded k (snd (next_linear_carton_sequence f s)) s' \<Longrightarrow> recoded k s s'"
proof -
  assume rec: "recoded k (snd (next_linear_carton_sequence f s)) s'"
  obtain q0 where q0: "snd (next_linear_carton_sequence f s) = s\<lparr>db_carton_sequences := q0\<rparr>"
    using next_linear_frame [of f s] by metis
  from rec show ?thesis
    unfolding recoded_def q0 by (auto simp: code_taken_def)
qed

lemma linear_attempts_recoded: "recoded k s (linear_attempts n k family s)"
proof (induction n arbitrary: s)
  case (Suc n)
  show ?case
  proof (cases "code_taken (Some k) (format_linear_carton_code family
      (fst (next_linear_carton_sequence family s))) s")
    case True
    with Suc [of "snd (next_linear_carton_sequence family s)"] show ?thesis
      by (auto simp: case_prod_beta Let_def intro: recoded_draw)
  next
    case False
    have "recoded k (snd (next_linear_carton_sequence family s))
        (linear_attempts (Suc n) k family s)"
      using False by (simp add: case_prod_beta Let_def recoded_write)
    then show ?thesis by (rule recoded_draw)
  qed
qed simp

lemma dated_attempt_recoded: "dated_attempt k code s = Inr s' \<Longrightarrow> recoded k s s'"
  by (auto simp: dated_attempt_def intro: recoded_write split: if_splits)

lemma ensure_carton_code_recoded:
  assumes "ensure_carton_code e k manual tc s = Inr s'"
  shows "recoded k s s'"
  using assms
  by (auto simp: ensure_carton_code_def wms_ok Let_def linear_attempts_recoded
      intro: dated_attempt_recoded split: if_splits option.splits)

lemma recoded_frame:
  "recoded k s s' \<Longrightarrow> \<exists>t q. s' = s\<lparr>db_cartons := t, db_carton_sequences := q\<rparr>"
  unfolding recoded_def by blast

lemma recoded_row:
  assumes "recoded k s s'" and "row_get (db_cartons s) j = Some c"
  shows "\<exists>code. row_get (db_cartons s') j = Some (c\<lparr>c_code := code\<rparr>)"
proof -
  from assms(1) consider "db_cartons s' = db_cartons s"
    | code where "db_cartons s' = row_upd k (\<lambda>c. c\<lparr>c_code := code\<rparr>) (db_cartons s)"
    unfolding recoded_def by auto
  then show ?thesis
  proof cases
    case 1
    with assms(2) show ?thesis by (intro exI [where x = "c_code c"]) simp
  next
    case 2
    have "c\<lparr>c_code := c_code c\<rparr> = c" by simp
    with 2 assms(2) show ?thesis
      by (cases "j = k") (simp_all add: row_get_upd, auto intro: exI [where x = "c_code c"])
  qed
qed

lemma not_code_taken_upd:
  assumes "distinct (map (\<lambda>r. c_code (snd r)) t)" and "keys_ok t"
    and "\<forall>(j, c) \<in> set t. c_code c = code \<longrightarrow> j = k"
  shows "distinct (map (\<lambda>r. c_code (snd r)) (row_upd k (\<lambda>c. c\<lparr>c_code := code\<rparr>) t))"
  using assms
proof (induction t)
  case (Cons a t)
  obtain j c where a: "a = (j, c)" by (cases a)
  have tail: "distinct (map (\<lambda>r. c_code (snd r)) (row_upd k (\<lambda>c. c\<lparr>c_code := code\<rparr>) t))"
    using Cons by (auto simp: keys_ok_def)
  show ?case
  proof (cases "j = k")
    case True
    then have "k \<notin> fst ` set t" using Cons.prems(2) a by (auto simp: keys_ok_def)
    then have "row_upd k (\<lambda>c. c\<lparr>c_code := code\<rparr>) t = t" and "code \<notin> c_code ` snd ` set t"
      using Cons.prems(3) by (auto simp: row_upd_absent image_iff)
    with True a Cons.prems(1) show ?thesis
      by (simp add: row_upd_def image_image comp_def)
  next
    case False
    then have "c_code c \<noteq> code" using Cons.prems(3) a by auto
    moreover have "c_code c \<notin> (\<lambda>r. c_code (snd r)) ` set t" using Cons.prems(1) a by simp
    ultimately have "c_code c \<notin> (\<lambda>r. c_code (snd r)) ` set (row_upd k (\<lambda>c. c\<lparr>c_code := code\<rparr>) t)"
      by (auto simp: row_upd_def image_iff split: if_splits)
    with False a tail show ?thesis by (simp add: row_upd_def image_image)
  qed
qed (simp add: row_upd_def)

lemma recoded_unique:
  assumes "recoded k s s'" and "codes_unique s" and "keys_ok (db_cartons s)"
  shows "codes_unique s' \<and> keys_ok (db_cartons s')"
proof -
  from assms(1) obtain t q where s': "s' = s\<lparr>db_cartons := t, db_carton_sequences := q\<rparr>"
    and t: "t = db_cartons s \<or> (\<exists>code. \<not> code_taken (Some k) code s
          \<and> t = row_upd k (\<lambda>c. c\<lparr>c_code := code\<rparr>) (db_cartons s))"
    unfolding recoded_def by blast
  from t show ?thesis
  proof
    assume "t = db_cartons s"
    with assms(2,3) show ?thesis by (simp add: s' codes_unique_def)
  next
    assume "\<exists>code. \<not> code_taken (Some k) code s
          \<and> t = row_upd k (\<lambda>c. c\<lparr>c_code := code\<rparr>) (db_cartons s)"
    then obtain code where free: "\<not> code_taken (Some k) code s"
      and t': "t = row_upd k (\<lambda>c. c\<lparr>c_code := code\<rparr>) (db_cartons s)" by blast
    from free have "\<forall>(j, c) \<in> set (db_cartons s). c_code c = code \<longrightarrow> j = k"
      by (auto simp: code_taken_def list_ex_iff)
    with assms(2,3) show ?thesis
      by (simp add: s' t' codes_unique_def not_code_taken_upd keys_ok_upd)
  qed
qed

end
