(* ===== verification/Ledger.thy ===== *)
theory Ledger
  imports Data_Model
begin

text \<open>
  What the stock operations keep account of: the quantity of a lot on hand and reserved, the sum of
  the movement journal (\<open>StockMovement\<close>, every row with the sign its type gives it), and the units
  of a lot in cartons. The two writes all operations are made of, of a lot and of a movement, with
  their effect on the accounts; and the contract of an operation that keeps the books, as the
  locale \<open>keeps_books\<close>.
\<close>

section \<open>The movement journal\<close>

definition new_movement ::
    "env \<Rightarrow> nat option \<Rightarrow> movement_type \<Rightarrow> nat \<Rightarrow> nat \<Rightarrow> int \<Rightarrow> movement" where
  "new_movement e user mt product lot quantity =
     \<lparr>mv_type = mt, mv_product = product, mv_lot = lot, mv_quantity = quantity,
      mv_from_location = None, mv_to_location = None, mv_reason_code = '''', mv_reason_notes = '''',
      mv_related_carton = None, mv_related_shipment = None, mv_created_by = user,
      mv_created_at = e_now e\<rparr>"

definition create_movement :: "movement \<Rightarrow> db \<Rightarrow> db" where
  "create_movement m s = s\<lparr>db_movements := row_ins m (db_movements s)\<rparr>"

definition write_lot :: "nat \<Rightarrow> (lot \<Rightarrow> lot) \<Rightarrow> db \<Rightarrow> db" where
  "write_lot k f s = s\<lparr>db_lots := row_upd k f (db_lots s)\<rparr>"

section \<open>The accounts\<close>

definition on_hand :: "nat \<Rightarrow> db \<Rightarrow> int" where
  "on_hand k s = (case row_get (db_lots s) k of None \<Rightarrow> 0 | Some l \<Rightarrow> quantity_on_hand l)"

definition reserved :: "nat \<Rightarrow> db \<Rightarrow> int" where
  "reserved k s = (case row_get (db_lots s) k of None \<Rightarrow> 0 | Some l \<Rightarrow> quantity_reserved l)"

text \<open>An adjustment goes to a location when it adds and from one when it removes.\<close>

definition signed_quantity :: "movement \<Rightarrow> int" where
  "signed_quantity m = (case mv_type m of
       Mv_In \<Rightarrow> mv_quantity m | Mv_Unpack \<Rightarrow> mv_quantity m
     | Mv_Out \<Rightarrow> - mv_quantity m | Mv_Precondition \<Rightarrow> - mv_quantity m
     | Mv_Transfer \<Rightarrow> 0
     | Mv_Adjust \<Rightarrow> if mv_to_location m = None then - mv_quantity m else mv_quantity m)"

definition journal :: "nat \<Rightarrow> db \<Rightarrow> int" where
  "journal k s = row_sum (\<lambda>m. if mv_lot m = k then signed_quantity m else 0) (db_movements s)"

definition in_cartons :: "nat \<Rightarrow> db \<Rightarrow> int" where
  "in_cartons k s = row_sum (\<lambda>i. if it_lot i = k then it_quantity i else 0) (db_carton_items s)"

definition lot_ok :: "lot \<Rightarrow> bool" where
  "lot_ok l \<longleftrightarrow> 0 \<le> quantity_reserved l \<and> quantity_reserved l \<le> quantity_on_hand l"

definition lots_ok :: "db \<Rightarrow> bool" where
  "lots_ok s \<longleftrightarrow> keys_ok (db_lots s) \<and> (\<forall>k l. row_get (db_lots s) k = Some l \<longrightarrow> lot_ok l)"

text \<open>The books balance when every lot holds what the journal says.\<close>

definition books_ok :: "db \<Rightarrow> bool" where
  "books_ok s \<longleftrightarrow> lots_ok s \<and> (\<forall>k. on_hand k s = journal k s)"

lemma on_hand_cong: "db_lots t = db_lots s \<Longrightarrow> on_hand k t = on_hand k s"
  by (simp add: on_hand_def)

lemma reserved_cong: "db_lots t = db_lots s \<Longrightarrow> reserved k t = reserved k s"
  by (simp add: reserved_def)

lemma journal_cong: "db_movements t = db_movements s \<Longrightarrow> journal k t = journal k s"
  by (simp add: journal_def)

lemma in_cartons_cong: "db_carton_items t = db_carton_items s \<Longrightarrow> in_cartons k t = in_cartons k s"
  by (simp add: in_cartons_def)

lemma books_ok_cong:
  assumes "db_lots t = db_lots s" and "db_movements t = db_movements s"
  shows "books_ok t = books_ok s"
  using assms by (simp add: books_ok_def lots_ok_def on_hand_cong [OF assms(1)] journal_cong [OF assms(2)])

lemma create_movement_fields [simp]:
  "db_lots (create_movement m s) = db_lots s"
  "db_carton_items (create_movement m s) = db_carton_items s"
  "db_products (create_movement m s) = db_products s"
  "db_movements (create_movement m s) = row_ins m (db_movements s)"
  "db_cartons (create_movement m s) = db_cartons s"
  "db_shipments (create_movement m s) = db_shipments s"
  by (simp_all add: create_movement_def)

lemma write_lot_fields [simp]:
  "db_lots (write_lot k f s) = row_upd k f (db_lots s)"
  "db_carton_items (write_lot k f s) = db_carton_items s"
  "db_products (write_lot k f s) = db_products s"
  "db_movements (write_lot k f s) = db_movements s"
  "db_cartons (write_lot k f s) = db_cartons s"
  "db_shipments (write_lot k f s) = db_shipments s"
  by (simp_all add: write_lot_def)

lemma new_movement_fields [simp]:
  "mv_type (new_movement e user mt p k q) = mt"
  "mv_product (new_movement e user mt p k q) = p"
  "mv_lot (new_movement e user mt p k q) = k"
  "mv_quantity (new_movement e user mt p k q) = q"
  "mv_to_location (new_movement e user mt p k q) = None"
  by (simp_all add: new_movement_def)

lemma journal_create:
  "journal k (create_movement m s) = journal k s + (if mv_lot m = k then signed_quantity m else 0)"
  by (simp add: journal_def)

lemma on_hand_write:
  "on_hand j (write_lot k f s) = (if j = k then (case row_get (db_lots s) k of
       None \<Rightarrow> 0 | Some l \<Rightarrow> quantity_on_hand (f l)) else on_hand j s)"
  by (auto simp: on_hand_def row_get_upd split: option.splits)

lemma lots_ok_write:
  "lots_ok s \<Longrightarrow> (\<And>l. row_get (db_lots s) k = Some l \<Longrightarrow> lot_ok (f l)) \<Longrightarrow> lots_ok (write_lot k f s)"
  by (auto simp: lots_ok_def row_get_upd keys_ok_upd)

lemma lots_okD: "lots_ok s \<Longrightarrow> row_get (db_lots s) k = Some l \<Longrightarrow> lot_ok l"
  by (simp add: lots_ok_def)

text \<open>A write of a lot and a movement of the same amount keep the books.\<close>

lemma books_ok_move:
  assumes "books_ok s" and "row_get (db_lots s) k = Some l" and "lot_ok (f l)" and "mv_lot m = k"
    and "quantity_on_hand (f l) = quantity_on_hand l + signed_quantity m"
  shows "books_ok (create_movement m (write_lot k f s))"
proof -
  have "lots_ok (write_lot k f s)"
    using assms by (intro lots_ok_write) (auto simp: books_ok_def)
  moreover have "on_hand j (write_lot k f s) = journal j s + (if mv_lot m = j then signed_quantity m else 0)"
    for j
  proof -
    have "on_hand k s = quantity_on_hand l" using assms(2) by (simp add: on_hand_def)
    moreover have "on_hand i s = journal i s" for i using assms(1) by (simp add: books_ok_def)
    ultimately show ?thesis using assms(2,4,5) by (simp add: on_hand_write)
  qed
  moreover have "journal j (write_lot k f s) = journal j s" for j by (rule journal_cong) simp
  moreover have "on_hand j (create_movement m (write_lot k f s)) = on_hand j (write_lot k f s)" for j
    by (rule on_hand_cong) simp
  ultimately show ?thesis
    by (simp add: books_ok_def lots_ok_def journal_create)
qed

lemma books_ok_no_overdraft:
  assumes "books_ok s"
  shows "0 \<le> on_hand k s" and "reserved k s \<le> on_hand k s" and "0 \<le> reserved k s"
  using lots_okD [of s k] assms
  by (fastforce simp: books_ok_def lot_ok_def on_hand_def reserved_def split: option.splits)+

section \<open>Operations that keep the books\<close>

text \<open>
  The contract of a set of operations that keep the books, with whatever else (\<open>extra\<close>) they
  need and keep. An operation that raises leaves the state as it was.
\<close>

locale keeps_books =
  fixes run :: "'a \<Rightarrow> db \<Rightarrow> err + db"
    and extra :: "db \<Rightarrow> bool"
  assumes run_books: "run a s = Inr s' \<Longrightarrow> books_ok s \<Longrightarrow> extra s \<Longrightarrow> books_ok s'"
    and run_extra: "run a s = Inr s' \<Longrightarrow> books_ok s \<Longrightarrow> extra s \<Longrightarrow> extra s'"

sublocale keeps_books \<subseteq> kept run "\<lambda>s. books_ok s \<and> extra s"
  by unfold_locales (blast intro: run_books run_extra)

context keeps_books
begin

text \<open>A lot can be emptied but not overdrawn, and holds what the journal says, at any time.\<close>

lemma history_no_overdraft:
  assumes "books_ok s" and "extra s"
  shows "0 \<le> reserved k (fold attempt as s)"
    and "reserved k (fold attempt as s) \<le> on_hand k (fold attempt as s)"
    and "on_hand k (fold attempt as s) = journal k (fold attempt as s)"
proof -
  have books: "books_ok (fold attempt as s)" using attempts_keep [of s as] assms by simp
  show "0 \<le> reserved k (fold attempt as s)"
    and "reserved k (fold attempt as s) \<le> on_hand k (fold attempt as s)"
    using books_ok_no_overdraft [OF books] by blast+
  show "on_hand k (fold attempt as s) = journal k (fold attempt as s)"
    using books by (simp add: books_ok_def)
qed

end

end
