(* ===== verification/Stock.thy ===== *)
theory Stock
  imports Carton_Codes Ledger
begin

text \<open>
  Receiving, adjusting, moving and consuming stock (\<open>wms/domain/stock.py\<close> and the validation of
  \<open>wms/domain/dto.py\<close>): every change of a lot's quantity comes with a row of the movement journal,
  and stock leaves first-expired-first-out. The lots of \<open>adjust_stock\<close> and \<open>transfer_stock\<close> are
  passed as the object in memory, which may be older than the row.
\<close>

section \<open>Receiving\<close>

definition receive_stock ::
    "env \<Rightarrow> nat option \<Rightarrow> nat \<Rightarrow> int \<Rightarrow> nat \<Rightarrow> string \<Rightarrow> date option \<Rightarrow> date option
       \<Rightarrow> lot_status option \<Rightarrow> string \<Rightarrow> nat option \<Rightarrow> db \<Rightarrow> err + nat \<times> db" where
  "receive_stock e user product quantity location lot_code received_on expires_on status
       storage_conditions source_receipt s =
     res_bind (raise_if (quantity \<le> 0) (Stock_Error Quantite_Invalide)) (\<lambda>_.
     res_bind (require (row_get (db_products s) product) Does_Not_Exist) (\<lambda>p.
       let st = (case status of
                   None \<Rightarrow> if p_quarantine_default p then Lot_Quarantined else Lot_Available
                 | Some st \<Rightarrow> st);
           lot = \<lparr>l_product = product, l_lot_code = lot_code, l_expires_on = expires_on,
             l_received_on = received_on, l_status = st, quantity_on_hand = quantity,
             quantity_reserved = 0, l_location = location, l_source_receipt = source_receipt,
             l_storage_conditions =
               (if storage_conditions = '''' then p_storage_conditions p else storage_conditions),
             l_quarantine_reason = '''', l_released_by = None, l_released_at = None\<rparr>;
           k = next_pk (db_lots s);
           s1 = s\<lparr>db_lots := row_ins lot (db_lots s)\<rparr>;
           s2 = create_movement ((new_movement e user Mv_In product k quantity)
                  \<lparr>mv_to_location := Some location, mv_reason_code := ''receive''\<rparr>) s1
       in Inr (k, s2)))"

definition lines_of_receipt :: "nat \<Rightarrow> db \<Rightarrow> (nat \<times> receipt_line) list" where
  "lines_of_receipt k s = rows_where (\<lambda>_ l. rl_receipt l = k) (db_receipt_lines s)"

text \<open>The end of \<open>receive_receipt_line\<close>: the line gets its lot, and the draft receipt of which no
  line is left becomes received.\<close>

definition mark_line_received :: "env \<Rightarrow> nat option \<Rightarrow> nat \<Rightarrow> nat \<Rightarrow> receipt \<Rightarrow> nat \<Rightarrow> db \<Rightarrow> db" where
  "mark_line_received e user k receipt_id receipt lot s =
     (let s2 = s\<lparr>db_receipt_lines := row_upd k (\<lambda>l. l\<lparr>rl_received_lot := Some lot,
                  rl_received_by := user, rl_received_at := Some (e_now e)\<rparr>) (db_receipt_lines s)\<rparr>;
          remaining = list_ex (\<lambda>(_, l). rl_received_lot l = None) (lines_of_receipt receipt_id s2)
      in if rc_status receipt = Rc_Draft \<and> \<not> remaining
         then s2\<lparr>db_receipts := row_upd receipt_id (\<lambda>r. r\<lparr>rc_status := Rc_Received\<rparr>) (db_receipts s2)\<rparr>
         else s2)"

definition receive_receipt_line :: "env \<Rightarrow> nat option \<Rightarrow> nat \<Rightarrow> db \<Rightarrow> err + nat \<times> db" where
  "receive_receipt_line e user k s =
     res_bind (require (row_get (db_receipt_lines s) k) Does_Not_Exist) (\<lambda>line.
     res_bind (raise_if (rl_received_lot line \<noteq> None) (Stock_Error Reception_Deja_Traitee)) (\<lambda>_.
     res_bind (require (row_get (db_receipts s) (rl_receipt line)) Does_Not_Exist) (\<lambda>receipt.
     res_bind (raise_if (rc_status receipt = Rc_Cancelled) (Stock_Error Reception_Annulee)) (\<lambda>_.
     res_bind (require (row_get (db_products s) (rl_product line)) Does_Not_Exist) (\<lambda>product.
     res_bind (require (case rl_location line of
                  None \<Rightarrow> p_default_location product | Some loc \<Rightarrow> Some loc)
                (Stock_Error Emplacement_Requis)) (\<lambda>location.
     res_bind (receive_stock e user (rl_product line) (rl_quantity line) location
                (rl_lot_code line) (Some (rc_received_on receipt)) (rl_expires_on line)
                (rl_lot_status line)
                (if rl_storage_conditions line = [] then p_storage_conditions product
                 else rl_storage_conditions line)
                (Some (rl_receipt line)) s) (\<lambda>(lot, s1).
       Inr (lot, mark_line_received e user k (rl_receipt line) receipt lot s1))))))))"

section \<open>Adjusting and moving\<close>

definition adjust_stock ::
    "env \<Rightarrow> nat option \<Rightarrow> nat \<times> lot \<Rightarrow> int \<Rightarrow> string \<Rightarrow> string \<Rightarrow> db \<Rightarrow> err + db" where
  "adjust_stock e user obj delta reason_code reason_notes s =
     (let (k, lot) = obj in
      res_bind (raise_if (delta = 0) (Stock_Error Quantite_Nulle)) (\<lambda>_.
      res_bind (raise_if (quantity_on_hand lot + delta < 0)
                 (Stock_Error Stock_Insuffisant_Ajustement)) (\<lambda>_.
      res_bind (raise_if (delta < 0 \<and> quantity_on_hand lot + delta < quantity_reserved lot)
                 (Stock_Error Stock_Reserve)) (\<lambda>_.
        Inr (create_movement ((new_movement e user Mv_Adjust (l_product lot) k \<bar>delta\<bar>)
               \<lparr>mv_from_location := (if delta < 0 then Some (l_location lot) else None),
                mv_to_location := (if 0 < delta then Some (l_location lot) else None),
                mv_reason_code := reason_code, mv_reason_notes := reason_notes\<rparr>)
             (write_lot k (\<lambda>r. r\<lparr>quantity_on_hand := quantity_on_hand lot + delta\<rparr>) s))))))"

definition transfer_stock ::
    "env \<Rightarrow> nat option \<Rightarrow> nat \<times> lot \<Rightarrow> nat \<Rightarrow> db \<Rightarrow> err + db" where
  "transfer_stock e user obj to_location s =
     (let (k, lot) = obj in
      res_bind (raise_if (l_location lot = to_location) (Stock_Error Meme_Emplacement)) (\<lambda>_.
        Inr (create_movement ((new_movement e user Mv_Transfer (l_product lot) k (quantity_on_hand lot))
               \<lparr>mv_from_location := Some (l_location lot), mv_to_location := Some to_location\<rparr>)
             (write_lot k (\<lambda>r. r\<lparr>l_location := to_location\<rparr>) s))))"

section \<open>First expired, first out\<close>

definition lot_available :: "lot \<Rightarrow> int" where
  "lot_available l = quantity_on_hand l - quantity_reserved l"

definition fefo_key :: "nat \<times> lot \<Rightarrow> nat \<times> date option \<times> date option \<times> nat" where
  "fefo_key row = ((if l_expires_on (snd row) = None then 1 else 0), l_expires_on (snd row),
     l_received_on (snd row), fst row)"

definition fefo_lots :: "nat \<Rightarrow> db \<Rightarrow> (nat \<times> lot) list" where
  "fefo_lots product s = sort_key fefo_key
     (rows_where (\<lambda>_ l. l_product l = product \<and> l_status l = Lot_Available \<and> 0 < lot_available l)
       (db_lots s))"

section \<open>Consuming\<close>

definition consume_lot ::
    "env \<Rightarrow> nat option \<Rightarrow> nat \<Rightarrow> movement_type \<Rightarrow> nat option \<Rightarrow> nat option \<Rightarrow> string \<Rightarrow> string
       \<Rightarrow> nat \<times> lot \<Rightarrow> int \<times> (nat \<times> int) list \<times> db \<Rightarrow> int \<times> (nat \<times> int) list \<times> db" where
  "consume_lot e user product mt shipment carton reason_code reason_notes row acc =
     (let (k, lot) = row; (remaining, consumed, s) = acc in
      if remaining \<le> 0 then acc
      else let available = quantity_on_hand lot - quantity_reserved lot;
               took = min remaining (max 0 available)
           in if took \<le> 0 then acc
              else (remaining - took, consumed @ [(k, took)],
                create_movement ((new_movement e user mt product k took)
                  \<lparr>mv_from_location := Some (l_location lot), mv_related_carton := carton,
                   mv_related_shipment := shipment, mv_reason_code := reason_code,
                   mv_reason_notes := reason_notes\<rparr>)
                (write_lot k (\<lambda>r. r\<lparr>quantity_on_hand := quantity_on_hand lot - took\<rparr>) s)))"

definition available_total :: "(nat \<times> lot) list \<Rightarrow> int" where
  "available_total lots = sum_list (map (\<lambda>(_, l). max 0 (quantity_on_hand l - quantity_reserved l)) lots)"

definition consume_stock ::
    "env \<Rightarrow> nat option \<Rightarrow> nat \<Rightarrow> int \<Rightarrow> movement_type \<Rightarrow> nat option \<Rightarrow> nat option \<Rightarrow> string \<Rightarrow> string
       \<Rightarrow> db \<Rightarrow> err + (nat \<times> int) list \<times> db" where
  "consume_stock e user product quantity mt shipment carton reason_code reason_notes s =
     res_bind (raise_if (quantity \<le> 0) (Stock_Error Quantite_Invalide)) (\<lambda>_.
       let lots = fefo_lots product s; total = available_total lots in
       if total < quantity then Inl (Stock_Error (Stock_Insuffisant total))
       else Inr (snd (fold (consume_lot e user product mt shipment carton reason_code reason_notes)
              lots (quantity, [], s))))"

section \<open>Single-lot operations and the books\<close>

lemma receive_stock_Inr:
  assumes "receive_stock e user product quantity location code received expires st cond src s = Inr (k, s')"
  obtains lot m where "0 < quantity" and "k = next_pk (db_lots s)"
    and "s' = create_movement m (s\<lparr>db_lots := row_ins lot (db_lots s)\<rparr>)"
    and "l_product lot = product" and "quantity_on_hand lot = quantity" and "quantity_reserved lot = 0"
    and "l_location lot = location" and "l_expires_on lot = expires" and "l_received_on lot = received"
    and "mv_lot m = k" and "signed_quantity m = quantity"
  using assms
  by (auto simp: receive_stock_def wms_ok Let_def signed_quantity_def intro!: that)

lemma receive_stock_books [wms_inv]:
  assumes "receive_stock e user product quantity location code received expires st cond src s = Inr (k, s')"
    and "books_ok s"
  shows "books_ok s'"
  using assms(1)
proof (rule receive_stock_Inr)
  fix lot m
  assume pos: "0 < quantity" and k: "k = next_pk (db_lots s)"
    and s': "s' = create_movement m (s\<lparr>db_lots := row_ins lot (db_lots s)\<rparr>)"
    and lot: "quantity_on_hand lot = quantity" "quantity_reserved lot = 0"
    and m: "mv_lot m = k" "signed_quantity m = quantity"
  let ?t = "s\<lparr>db_lots := row_ins lot (db_lots s)\<rparr>"
  have old: "journal j s = on_hand j s" for j using assms(2) by (simp add: books_ok_def)
  have "on_hand k s = 0" by (simp add: on_hand_def k row_get_fresh)
  then have "on_hand j s' = on_hand j s + (if j = k then quantity else 0)" for j
    using lot k by (simp add: s' on_hand_def row_get_ins)
  moreover have "journal j s' = journal j s + (if j = k then quantity else 0)" for j
    using m by (simp add: s' journal_create journal_cong [of ?t s])
  moreover have "lots_ok s'"
    using assms(2) pos lot
    by (auto simp: s' books_ok_def lots_ok_def keys_ok_ins row_get_ins lot_ok_def)
  ultimately show ?thesis using old by (simp add: books_ok_def)
qed

lemma adjust_stock_Inr:
  assumes "adjust_stock e user (k, l) delta code notes s = Inr s'"
  obtains m where "s' = create_movement m
      (write_lot k (\<lambda>r. r\<lparr>quantity_on_hand := quantity_on_hand l + delta\<rparr>) s)"
    and "mv_lot m = k" and "signed_quantity m = delta"
    and "delta \<noteq> 0" and "0 \<le> quantity_on_hand l + delta"
    and "delta < 0 \<longrightarrow> quantity_reserved l \<le> quantity_on_hand l + delta"
  using assms
  by (auto simp: adjust_stock_def wms_ok Let_def signed_quantity_def intro!: that)

lemma adjust_stock_books [wms_inv]:
  assumes "adjust_stock e user (k, l) delta code notes s = Inr s'"
    and "row_get (db_lots s) k = Some l" and "books_ok s"
  shows "books_ok s'"
  using assms(1)
proof (rule adjust_stock_Inr)
  fix m
  assume s': "s' = create_movement m (write_lot k (\<lambda>r. r\<lparr>quantity_on_hand := quantity_on_hand l + delta\<rparr>) s)"
    and m: "mv_lot m = k" "signed_quantity m = delta"
    and "0 \<le> quantity_on_hand l + delta"
    and "delta < 0 \<longrightarrow> quantity_reserved l \<le> quantity_on_hand l + delta"
  moreover have "lot_ok l" using assms(2,3) by (auto simp: books_ok_def intro: lots_okD)
  ultimately show ?thesis
    unfolding s' by (intro books_ok_move [OF assms(3,2)]) (auto simp: lot_ok_def)
qed

lemma transfer_stock_books [wms_inv]:
  assumes "transfer_stock e user (k, l) to s = Inr s'"
    and "row_get (db_lots s) k = Some l" and "books_ok s"
  shows "books_ok s'"
proof -
  have "lot_ok l" using assms(2,3) by (auto simp: books_ok_def intro: lots_okD)
  then show ?thesis
    using assms by (auto simp: transfer_stock_def wms_ok signed_quantity_def lot_ok_def intro!: books_ok_move)
qed

section \<open>The order of the lots\<close>

lemma fefo_lots_member:
  assumes "(k, l) \<in> set (fefo_lots product s)"
  shows "(k, l) \<in> set (db_lots s)" and "l_product l = product" and "l_status l = Lot_Available"
    and "0 < lot_available l"
  using assms by (auto simp: fefo_lots_def rows_where_mem)

lemma fefo_lots_sorted: "sorted (map fefo_key (fefo_lots product s))"
  by (simp add: fefo_lots_def)

lemma fefo_lots_distinct: "keys_ok (db_lots s) \<Longrightarrow> distinct (map fst (fefo_lots product s))"
proof -
  assume "keys_ok (db_lots s)"
  then have "distinct (map fst (rows_where P (db_lots s)))" for P by (rule distinct_rows_where)
  then have "distinct (map fst (sort_key fefo_key (rows_where P (db_lots s))))" for P
    by (simp add: distinct_map)
  then show ?thesis by (simp add: fefo_lots_def)
qed

lemma fefo_key_None_last:
  "l_expires_on l = None \<Longrightarrow> l_expires_on l' \<noteq> None \<Longrightarrow> fefo_key (j, l') < fefo_key (k, l)"
  by (auto simp: fefo_key_def less_prod_def)

lemma fefo_key_expiry:
  "l_expires_on l = Some d \<Longrightarrow> l_expires_on l' = Some d' \<Longrightarrow> d < d' \<Longrightarrow> fefo_key (k, l) < fefo_key (j, l')"
  by (simp add: fefo_key_def less_prod_def)

section \<open>The allocation a consumption makes\<close>

text \<open>
  The abstract form of the loop: \<open>allocate q\<close> fills \<open>q\<close> greedily from the amounts offered, and
  \<open>issue\<close> books one part of it.
\<close>

fun allocate :: "int \<Rightarrow> (nat \<times> int) list \<Rightarrow> (nat \<times> int) list" where
  "allocate q [] = []"
| "allocate q ((k, a) # xs) =
     (if q \<le> 0 then []
      else if a \<le> 0 then allocate q xs
      else (k, min q a) # allocate (q - min q a) xs)"

definition issue :: "(nat \<Rightarrow> lot \<Rightarrow> int \<Rightarrow> movement) \<Rightarrow> nat \<times> int \<Rightarrow> db \<Rightarrow> db" where
  "issue mk part s =
     (case row_get (db_lots s) (fst part) of
        None \<Rightarrow> s
      | Some l \<Rightarrow> create_movement (mk (fst part) l (snd part))
          (write_lot (fst part) (\<lambda>r. r\<lparr>quantity_on_hand := quantity_on_hand r - snd part\<rparr>) s))"

definition allocated :: "nat \<Rightarrow> (nat \<times> int) list \<Rightarrow> int" where
  "allocated k xs = sum_list (map (\<lambda>(j, t). if j = k then t else 0) xs)"

lemma allocated_simps [simp]:
  "allocated k [] = 0"
  "allocated k ((j, t) # xs) = (if j = k then t else 0) + allocated k xs"
  "allocated k (xs @ ys) = allocated k xs + allocated k ys"
  by (simp_all add: allocated_def)

lemma allocated_absent: "k \<notin> fst ` set xs \<Longrightarrow> allocated k xs = 0"
  by (induction xs) auto

lemma allocated_member: "(k, t) \<in> set xs \<Longrightarrow> distinct (map fst xs) \<Longrightarrow> allocated k xs = t"
  by (induction xs) (auto simp: allocated_absent image_iff split: if_splits)

lemma allocate_nonpos [simp]: "q \<le> 0 \<Longrightarrow> allocate q xs = []"
  by (cases xs) auto

lemma allocate_bounds: "(k, t) \<in> set (allocate q xs) \<Longrightarrow> 0 < t \<and> (\<exists>a. (k, a) \<in> set xs \<and> t \<le> a)"
  by (induction q xs rule: allocate.induct) (auto split: if_splits)

lemma allocate_keys: "fst ` set (allocate q xs) \<subseteq> fst ` set xs"
proof
  fix k assume "k \<in> fst ` set (allocate q xs)"
  then obtain t where "(k, t) \<in> set (allocate q xs)" by auto
  then obtain a where "(k, a) \<in> set xs" using allocate_bounds by blast
  then show "k \<in> fst ` set xs" by force
qed

lemma allocate_distinct: "distinct (map fst xs) \<Longrightarrow> distinct (map fst (allocate q xs))"
proof (induction q xs rule: allocate.induct)
  case (2 q k a xs)
  then show ?case using allocate_keys [of "q - min q a" xs] by auto
qed simp

lemma allocate_total:
  "0 \<le> q \<Longrightarrow> q \<le> sum_list (map (\<lambda>(_, a). max 0 a) xs) \<Longrightarrow> sum_list (map snd (allocate q xs)) = q"
  by (induction q xs rule: allocate.induct) (auto simp: min_def max_def split: if_splits)

text \<open>First in, first out: a later offer is touched only when the earlier ones are used up.\<close>

lemma allocate_greedy:
  assumes "0 < allocated k (allocate q (ys @ (k, a) # zs))" and "distinct (map fst (ys @ (k, a) # zs))"
    and "(j, b) \<in> set ys" and "0 < b"
  shows "allocated j (allocate q (ys @ (k, a) # zs)) = b"
  using assms
proof (induction ys arbitrary: q)
  case (Cons y ys)
  obtain i c where y: "y = (i, c)" by (cases y)
  show ?case
  proof (cases "q \<le> 0 \<or> c \<le> 0")
    case True
    with Cons y show ?thesis by (auto split: if_splits)
  next
    case False
    then have step: "allocate q ((i, c) # ys @ (k, a) # zs)
        = (i, min q c) # allocate (q - min q c) (ys @ (k, a) # zs)" by simp
    have ik: "i \<noteq> k" using Cons.prems(2) y by auto
    with Cons.prems(1) y step have pos: "0 < allocated k (allocate (q - min q c) (ys @ (k, a) # zs))"
      by simp
    then have "min q c = c" by (cases "q \<le> c") auto
    show ?thesis
    proof (cases "(j, b) = (i, c)")
      case True
      have "i \<notin> fst ` set (allocate (q - min q c) (ys @ (k, a) # zs))"
        using allocate_keys [of "q - min q c" "ys @ (k, a) # zs"] Cons.prems(2) y by auto
      with True y step \<open>min q c = c\<close> show ?thesis by (simp add: allocated_absent)
    next
      case other: False
      with Cons.prems(3) y have jb: "(j, b) \<in> set ys" by auto
      then have "j \<noteq> i" using Cons.prems(2) y by (auto simp: image_iff)
      moreover have "allocated j (allocate (q - min q c) (ys @ (k, a) # zs)) = b"
        using Cons.IH [OF pos _ jb Cons.prems(4)] Cons.prems(2) by simp
      ultimately show ?thesis using y step by simp
    qed
  qed
qed simp


lemma issue_fields [simp]:
  "db_carton_items (issue mk part s) = db_carton_items s"
  "db_products (issue mk part s) = db_products s"
  by (simp_all add: issue_def split: option.splits)

lemma row_get_issue:
  "row_get (db_lots (issue mk part s)) j =
     (if j = fst part
      then map_option (\<lambda>r. r\<lparr>quantity_on_hand := quantity_on_hand r - snd part\<rparr>) (row_get (db_lots s) j)
      else row_get (db_lots s) j)"
  by (auto simp: issue_def row_get_upd split: option.splits)

lemma row_get_issues:
  "row_get (db_lots (fold (issue mk) parts s)) k =
     map_option (\<lambda>r. r\<lparr>quantity_on_hand := quantity_on_hand r - allocated k parts\<rparr>) (row_get (db_lots s) k)"
proof (induction parts arbitrary: s)
  case Nil
  then show ?case by (cases "row_get (db_lots s) k") auto
next
  case (Cons part parts)
  then show ?case
    by (cases part) (auto simp: row_get_issue option.map_comp comp_def algebra_simps
        intro!: option.map_cong)
qed

lemma issues_fields [simp]:
  "db_carton_items (fold (issue mk) parts s) = db_carton_items s"
  "db_products (fold (issue mk) parts s) = db_products s"
  by (induction parts arbitrary: s) simp_all

definition consume_mk ::
    "env \<Rightarrow> nat option \<Rightarrow> nat \<Rightarrow> movement_type \<Rightarrow> nat option \<Rightarrow> nat option \<Rightarrow> string \<Rightarrow> string
       \<Rightarrow> nat \<Rightarrow> lot \<Rightarrow> int \<Rightarrow> movement" where
  "consume_mk e user product mt shipment carton code notes k l t =
     (new_movement e user mt product k t)
        \<lparr>mv_from_location := Some (l_location l), mv_related_carton := carton,
         mv_related_shipment := shipment, mv_reason_code := code, mv_reason_notes := notes\<rparr>"

lemma row_upd_cong:
  assumes "keys_ok t" and "row_get t k = Some r" and "f r = g r"
  shows "row_upd k f t = row_upd k g t"
proof -
  have "(if i = k then f x else x) = (if i = k then g x else x)" if "(i, x) \<in> set t" for i x
    using that assms row_get_iff [OF assms(1), of k x] by auto
  then show ?thesis by (auto simp: row_upd_def)
qed

lemma consume_loop_allocates:
  assumes "keys_ok (db_lots s)" and "distinct (map fst lots)"
    and "\<forall>(k, l) \<in> set lots. row_get (db_lots s) k = Some l"
  shows "fold (consume_lot e user product mt shipment carton code notes) lots (q, acc, s)
    = (let parts = allocate q (map (\<lambda>(k, l). (k, lot_available l)) lots)
       in (q - sum_list (map snd parts), acc @ parts,
           fold (issue (consume_mk e user product mt shipment carton code notes)) parts s))"
  using assms
proof (induction lots arbitrary: q acc s)
  case (Cons row lots)
  obtain k l where row: "row = (k, l)" by (cases row)
  let ?step = "consume_lot e user product mt shipment carton code notes"
  let ?mk = "consume_mk e user product mt shipment carton code notes"
  have stop: "fold ?step rows (r, a, t) = (r, a, t)" if "r \<le> 0" for rows r a t
    using that by (induction rows) (auto simp: consume_lot_def)
  show ?case
  proof (cases "q \<le> 0")
    case True
    then show ?thesis using stop [of q "row # lots" acc s] by (simp add: Let_def)
  next
    case q: False
    show ?thesis
    proof (cases "lot_available l \<le> 0")
      case True
      with q have "?step row (q, acc, s) = (q, acc, s)"
        by (simp add: consume_lot_def row Let_def lot_available_def)
      with Cons True q show ?thesis by (simp add: row Let_def)
    next
      case a: False
      define t where "t = min q (lot_available l)"
      have t: "0 < t" and t': "min q (max 0 (quantity_on_hand l - quantity_reserved l)) = t"
        "min q (quantity_on_hand l - quantity_reserved l) = t"
        using q a by (auto simp: t_def lot_available_def)
      have get: "row_get (db_lots s) k = Some l" using Cons.prems(3) row by simp
      have lots_upd: "row_upd k (\<lambda>r. r\<lparr>quantity_on_hand := quantity_on_hand l - t\<rparr>) (db_lots s)
          = row_upd k (\<lambda>r. r\<lparr>quantity_on_hand := quantity_on_hand r - t\<rparr>) (db_lots s)"
        using Cons.prems(1) get by (rule row_upd_cong) simp
      then have step: "?step (k, l) (q, acc, s) = (q - t, acc @ [(k, t)], issue ?mk (k, t) s)"
        using q t t' get
        by (simp add: consume_lot_def row Let_def issue_def consume_mk_def write_lot_def)
      have "\<forall>(j, l') \<in> set lots. row_get (db_lots (issue ?mk (k, t) s)) j = Some l'"
      proof safe
        fix j l' assume "(j, l') \<in> set lots"
        moreover from this have "j \<noteq> k" using Cons.prems(2) row by force
        ultimately show "row_get (db_lots (issue ?mk (k, t) s)) j = Some l'"
          using Cons.prems(3) row by (auto simp: row_get_issue)
      qed
      moreover have "keys_ok (db_lots (issue ?mk (k, t) s))"
        using Cons.prems(1) by (simp add: issue_def get keys_ok_upd)
      ultimately show ?thesis
        using Cons.IH [of "issue ?mk (k, t) s" "q - t" "acc @ [(k, t)]"] Cons.prems(2) a q
        by (simp add: step row Let_def t_def [symmetric] algebra_simps)
    qed
  qed
qed simp


lemma available_total_eq:
  "available_total lots = sum_list (map (\<lambda>(_, a). max 0 a) (map (\<lambda>(k, l). (k, lot_available l)) lots))"
  by (induction lots) (auto simp: available_total_def lot_available_def)

lemma fefo_lots_current:
  "keys_ok (db_lots s) \<Longrightarrow> \<forall>(k, l) \<in> set (fefo_lots product s). row_get (db_lots s) k = Some l"
  using fefo_lots_member(1) by (auto simp: row_get_iff)

abbreviation fefo_offers :: "nat \<Rightarrow> db \<Rightarrow> (nat \<times> int) list" where
  "fefo_offers product s \<equiv> map (\<lambda>(k, l). (k, lot_available l)) (fefo_lots product s)"

lemma consume_stock_allocates:
  assumes "keys_ok (db_lots s)"
  shows "consume_stock e user product q mt shipment carton code notes s =
    (if q \<le> 0 then Inl (Stock_Error Quantite_Invalide)
     else if available_total (fefo_lots product s) < q
     then Inl (Stock_Error (Stock_Insuffisant (available_total (fefo_lots product s))))
     else Inr (allocate q (fefo_offers product s),
       fold (issue (consume_mk e user product mt shipment carton code notes))
         (allocate q (fefo_offers product s)) s))"
  using consume_loop_allocates [OF assms fefo_lots_distinct [OF assms] fefo_lots_current [OF assms]]
  by (simp add: consume_stock_def Let_def raise_if_def)

lemma consume_stock_Inr:
  assumes "keys_ok (db_lots s)"
    and "consume_stock e user product q mt shipment carton code notes s = Inr (parts, s')"
  shows "0 < q" and "q \<le> available_total (fefo_lots product s)"
    and "parts = allocate q (fefo_offers product s)"
    and "s' = fold (issue (consume_mk e user product mt shipment carton code notes)) parts s"
  using assms(2) unfolding consume_stock_allocates [OF assms(1)] by (auto split: if_splits)

lemma fefo_offers_distinct:
  "keys_ok (db_lots s) \<Longrightarrow> distinct (map fst (fefo_offers product s))"
  using fefo_lots_distinct [of s product] by (simp add: comp_def case_prod_beta)

lemma consume_part:
  assumes "keys_ok (db_lots s)" and "(k, t) \<in> set (allocate q (fefo_offers product s))"
  obtains l where "row_get (db_lots s) k = Some l" and "l_product l = product"
    and "0 < t" and "t \<le> lot_available l"
proof -
  from allocate_bounds [OF assms(2)] obtain l
    where "(k, l) \<in> set (fefo_lots product s)" and "0 < t" and "t \<le> lot_available l" by auto
  moreover from this have "row_get (db_lots s) k = Some l"
    using assms(1) fefo_lots_member(1) by (simp add: row_get_iff)
  ultimately show ?thesis using fefo_lots_member(2) by (intro that) auto
qed

lemma issue_books:
  assumes "books_ok s" and "row_get (db_lots s) k = Some l" and "0 \<le> t" and "t \<le> lot_available l"
    and "mv_lot (mk k l t) = k" and "signed_quantity (mk k l t) = - t"
  shows "books_ok (issue mk (k, t) s)"
proof -
  have "lot_ok l" using assms(1,2) by (auto simp: books_ok_def intro: lots_okD)
  then show ?thesis
    using assms unfolding issue_def
    by (auto simp: lot_ok_def lot_available_def intro!: books_ok_move)
qed

lemma issues_books:
  assumes "books_ok s" and "distinct (map fst parts)"
    and "\<forall>(k, t) \<in> set parts. \<exists>l. row_get (db_lots s) k = Some l \<and> 0 \<le> t \<and> t \<le> lot_available l"
    and "\<And>k l t. mv_lot (mk k l t) = k" and "\<And>k l t. signed_quantity (mk k l t) = - t"
  shows "books_ok (fold (issue mk) parts s)"
  using assms(1-3)
proof (induction parts arbitrary: s)
  case (Cons part parts)
  obtain k t where part: "part = (k, t)" by (cases part)
  have "books_ok (issue mk part s)"
    using Cons.prems part assms(4,5) by (auto intro: issue_books)
  moreover have "\<forall>(j, u) \<in> set parts.
      \<exists>l. row_get (db_lots (issue mk part s)) j = Some l \<and> 0 \<le> u \<and> u \<le> lot_available l"
  proof safe
    fix j u assume "(j, u) \<in> set parts"
    moreover from this have "j \<noteq> k" using Cons.prems(2) part by force
    ultimately show "\<exists>l. row_get (db_lots (issue mk part s)) j = Some l \<and> 0 \<le> u \<and> u \<le> lot_available l"
      using Cons.prems(3) part by (auto simp: row_get_issue)
  qed
  ultimately show ?case using Cons.IH Cons.prems(2) by simp
qed simp

definition outgoing :: "movement_type \<Rightarrow> bool" where
  "outgoing mt \<longleftrightarrow> mt \<in> {Mv_Out, Mv_Precondition}"

lemma consume_stock_books [wms_inv]:
  assumes "consume_stock e user product q mt shipment carton code notes s = Inr (parts, s')"
    and "outgoing mt" and "books_ok s"
  shows "books_ok s'"
proof -
  have keys: "keys_ok (db_lots s)" using assms(3) by (simp add: books_ok_def lots_ok_def)
  note run = consume_stock_Inr [OF keys assms(1)]
  have "distinct (map fst parts)"
    unfolding run(3) by (rule allocate_distinct [OF fefo_offers_distinct [OF keys]])
  moreover have "\<exists>l. row_get (db_lots s) k = Some l \<and> 0 \<le> t \<and> t \<le> lot_available l"
    if "(k, t) \<in> set parts" for k t
  proof -
    from that have "(k, t) \<in> set (allocate q (fefo_offers product s))" by (simp only: run(3))
    from consume_part [OF keys this] show ?thesis by (metis less_imp_le)
  qed
  ultimately show ?thesis
    unfolding run(4) using assms(2,3)
    by (intro issues_books) (auto simp: consume_mk_def signed_quantity_def outgoing_def)
qed

lemma consume_stock_total:
  assumes "keys_ok (db_lots s)"
    and "consume_stock e user product q mt shipment carton code notes s = Inr (parts, s')"
  shows "sum_list (map snd parts) = q"
proof -
  note run = consume_stock_Inr [OF assms]
  from run(1,2) show ?thesis
    unfolding run(3) by (intro allocate_total) (simp_all add: available_total_eq)
qed

lemma consume_stock_lots:
  assumes "keys_ok (db_lots s)"
    and "consume_stock e user product q mt shipment carton code notes s = Inr (parts, s')"
  shows "row_get (db_lots s') k =
     map_option (\<lambda>r. r\<lparr>quantity_on_hand := quantity_on_hand r - allocated k parts\<rparr>) (row_get (db_lots s) k)"
  unfolding consume_stock_Inr(4) [OF assms] by (rule row_get_issues)

end
