(* ===== verification/Packing.thy ===== *)
theory Packing
  imports Stock "HOL-Library.List_Lexorder" "HOL-Library.Char_ord"
begin

text \<open>
  Filling and emptying cartons (\<open>_prepare_carton\<close>, \<open>pack_carton\<close>, \<open>unpack_carton\<close> and the input
  objects of \<open>wms/domain/stock.py\<close> and \<open>dto.py\<close>). A carton is passed around as its key and the
  flag \<open>_manual_code\<close> of the object in memory. Rows are ordered by text bytewise.
\<close>

section \<open>Carton formats\<close>

definition set_default_format :: "nat \<Rightarrow> db \<Rightarrow> db" where
  "set_default_format k s = s\<lparr>db_carton_formats :=
     map (\<lambda>(i, f). (i, if i = k then f\<lparr>cf_is_default := True\<rparr> else f\<lparr>cf_is_default := False\<rparr>))
       (db_carton_formats s)\<rparr>"

definition formats_by_name :: "db \<Rightarrow> carton_format list" where
  "formats_by_name s = map snd (sort_key (\<lambda>(k, f). cf_name f) (db_carton_formats s))"

definition first_format :: "db \<Rightarrow> carton_format option" where
  "first_format s =
     (case List.find cf_is_default (formats_by_name s) of
        Some f \<Rightarrow> Some f
      | None \<Rightarrow> (case formats_by_name s of [] \<Rightarrow> None | f # _ \<Rightarrow> Some f))"

record size =
  sz_length :: "rat option"
  sz_width :: "rat option"
  sz_height :: "rat option"

definition resolve_carton_dimensions :: "size option \<Rightarrow> db \<Rightarrow> size" where
  "resolve_carton_dimensions carton_size s =
     (case carton_size of
        Some sz \<Rightarrow> sz
      | None \<Rightarrow> (case first_format s of
          Some f \<Rightarrow> \<lparr>sz_length = Some (cf_length_cm f), sz_width = Some (cf_width_cm f),
                      sz_height = Some (cf_height_cm f)\<rparr>
        | None \<Rightarrow> \<lparr>sz_length = None, sz_width = None, sz_height = None\<rparr>))"

section \<open>Preparing a carton\<close>

definition shipped_or_later :: "shipment_status \<Rightarrow> bool" where
  "shipped_or_later st \<longleftrightarrow> st \<in> {Ship_Shipped, Ship_Received_Correspondent, Ship_Delivered}"

definition check_shipment_open :: "nat option \<Rightarrow> db \<Rightarrow> err + unit" where
  "check_shipment_open shipment s =
     (case shipment of
        None \<Rightarrow> Inr ()
      | Some k \<Rightarrow> res_bind (require (row_get (db_shipments s) k) Does_Not_Exist) (\<lambda>sh.
          res_bind (raise_if (s_is_disputed sh) (Stock_Error Expedition_En_Litige)) (\<lambda>_.
            raise_if (shipped_or_later (s_status sh)) (Stock_Error Expedition_Expediee))))"

text \<open>
  The loop of \<open>_prepare_carton\<close> that draws codes until the insert succeeds. Its callers run in one
  transaction: an insert that violates the uniqueness of the code breaks it, and the next drawing,
  a query, raises. So the loop ends in its first round or raises in its second.
\<close>

definition next_free_code :: "db \<Rightarrow> err + string \<times> db" where
  "next_free_code s =
     (let (code, s') = generate_carton_code ''XX'' s
      in if code_taken None code s' then Inl Broken_Transaction else Inr (code, s'))"

definition carton_with_code :: "string \<Rightarrow> db \<Rightarrow> nat option" where
  "carton_with_code code s = map_option fst (find_row (\<lambda>c. c_code c = code) (db_cartons s))"

definition create_carton ::
    "env \<Rightarrow> nat option \<Rightarrow> string \<Rightarrow> nat option \<Rightarrow> nat option \<Rightarrow> nat option \<Rightarrow> db \<Rightarrow> nat \<times> db" where
  "create_carton e user code shipment preassigned location s =
     (next_pk (db_cartons s), s\<lparr>db_cartons := row_ins
        \<lparr>c_code = code, c_status = Ct_Draft, c_length_cm = None, c_width_cm = None,
         c_height_cm = None, c_current_location = location, c_shipment = shipment,
         c_preassigned_destination = (if shipment = None then preassigned else None),
         c_prepared_by = user, c_created_at = e_now e, c_notes = ''''\<rparr> (db_cartons s)\<rparr>)"

definition fill_dimensions :: "size \<Rightarrow> carton \<Rightarrow> carton" where
  "fill_dimensions sz c = c\<lparr>
     c_length_cm := (if c_length_cm c = None then sz_length sz else c_length_cm c),
     c_width_cm := (if c_width_cm c = None then sz_width sz else c_width_cm c),
     c_height_cm := (if c_height_cm c = None then sz_height sz else c_height_cm c)\<rparr>"

definition assign_fields :: "nat option \<Rightarrow> nat option \<Rightarrow> nat option \<Rightarrow> carton \<Rightarrow> carton" where
  "assign_fields shipment preassigned location c =
     (let c1 = (if shipment \<noteq> None \<and> c_shipment c = None
                then c\<lparr>c_shipment := shipment, c_preassigned_destination := None\<rparr>
                else if shipment = None \<and> preassigned \<noteq> None
                then c\<lparr>c_preassigned_destination := preassigned\<rparr> else c)
      in if location \<noteq> None then c1\<lparr>c_current_location := location\<rparr> else c1)"

type_synonym carton_object = "nat \<times> bool"

definition prepare_carton ::
    "env \<Rightarrow> nat option \<Rightarrow> carton_object option \<Rightarrow> nat option \<Rightarrow> nat option \<Rightarrow> nat option \<Rightarrow> string
       \<Rightarrow> size option \<Rightarrow> db \<Rightarrow> err + carton_object \<times> db" where
  "prepare_carton e user carton shipment preassigned location carton_code carton_size s =
     (let carton = (case carton of
            Some obj \<Rightarrow> Some obj
          | None \<Rightarrow> if carton_code = '''' then None
                    else map_option (\<lambda>k. (k, False)) (carton_with_code carton_code s))
      in
      res_bind (case carton of
          None \<Rightarrow> Inr ()
        | Some (k, _) \<Rightarrow> res_bind (require (row_get (db_cartons s) k) Does_Not_Exist) (\<lambda>c.
            raise_if (c_status c = Ct_Shipped) (Stock_Error Carton_Expedie))) (\<lambda>_.
      res_bind (check_shipment_open shipment s) (\<lambda>_.
      res_bind (case carton of
          None \<Rightarrow>
            if carton_code = '''' then
              res_bind (next_free_code s) (\<lambda>(code, s1).
                let (k, s2) = create_carton e user code shipment preassigned location s1
                in Inr ((k, False), s2))
            else if code_taken None carton_code s then Inl Integrity_Error
            else (let (k, s2) = create_carton e user carton_code shipment preassigned location s
                  in Inr ((k, True), s2))
        | Some (k, manual) \<Rightarrow>
            res_bind (require (row_get (db_cartons s) k) Does_Not_Exist) (\<lambda>c.
            res_bind (raise_if (shipment \<noteq> None \<and> c_shipment c \<noteq> None \<and> c_shipment c \<noteq> shipment)
                       (Stock_Error Carton_Deja_Lie)) (\<lambda>_.
              Inr ((k, manual \<or> carton_code \<noteq> ''''),
                s\<lparr>db_cartons := row_upd k (assign_fields shipment preassigned location) (db_cartons s)\<rparr>))))
        (\<lambda>((k, manual), s3).
           Inr ((k, manual), s3\<lparr>db_cartons := row_upd k
             (fill_dimensions (resolve_carton_dimensions carton_size s3)) (db_cartons s3)\<rparr>)))))"

section \<open>Packing\<close>

definition resolve_display :: "date option \<Rightarrow> date option \<Rightarrow> date option" where
  "resolve_display current new =
     (case new of
        None \<Rightarrow> current
      | Some d \<Rightarrow> (case current of None \<Rightarrow> Some d | Some d' \<Rightarrow> Some (min d' d)))"

definition item_key :: "nat \<Rightarrow> nat \<Rightarrow> carton_item \<Rightarrow> bool" where
  "item_key carton lot i \<longleftrightarrow> it_carton i = carton \<and> it_lot i = lot"

text \<open>\<open>get_or_create\<close> of the carton's item of a lot, then the increase of its quantity.\<close>

definition add_to_carton :: "date option \<Rightarrow> nat \<Rightarrow> nat \<times> int \<Rightarrow> db \<Rightarrow> db" where
  "add_to_carton display k entry s =
     (let (lot, quantity) = entry;
          t = (case find_row (item_key k lot) (db_carton_items s) of
                 Some _ \<Rightarrow> db_carton_items s
               | None \<Rightarrow> row_ins \<lparr>it_carton = k, it_lot = lot, it_quantity = 0,
                           it_display_expires_on = display\<rparr> (db_carton_items s))
      in case find_row (item_key k lot) t of
           None \<Rightarrow> s\<lparr>db_carton_items := t\<rparr>
         | Some (i, _) \<Rightarrow> s\<lparr>db_carton_items := row_upd i
             (\<lambda>r. r\<lparr>it_quantity := it_quantity r + quantity,
                     it_display_expires_on := resolve_display (it_display_expires_on r) display\<rparr>) t\<rparr>)"

definition pack_component ::
    "env \<Rightarrow> nat option \<Rightarrow> movement_type \<Rightarrow> nat option \<Rightarrow> nat \<Rightarrow> date option \<Rightarrow> nat \<times> int \<Rightarrow> db
       \<Rightarrow> err + db" where
  "pack_component e user mt shipment k display requirement s =
     (let (component, quantity) = requirement in
      res_bind (require (row_get (db_products s) component) (Stock_Error Composant_Introuvable)) (\<lambda>_.
      res_bind (consume_stock e user component quantity mt shipment (Some k) '''' '''' s) (\<lambda>(consumed, s1).
        Inr (fold (add_to_carton display k) consumed s1))))"

definition product_name :: "db \<Rightarrow> nat \<Rightarrow> string" where
  "product_name s p = (case row_get (db_products s) p of None \<Rightarrow> [] | Some x \<Rightarrow> p_name x)"

text \<open>The composition of the kits, in the order of \<open>ProductKitItem.Meta\<close>: by the component's name.\<close>

definition kit_rows :: "db \<Rightarrow> kit_item table" where
  "kit_rows s = sort_key (\<lambda>(_, i). product_name s (ki_component i)) (db_kit_items s)"

definition kit_requirements :: "nat \<Rightarrow> int \<Rightarrow> db \<Rightarrow> err + (nat \<times> int) list" where
  "kit_requirements product quantity s =
     (case get_component_quantities (kit_rows s) (Some product) quantity of
        Inl (Kit_Cycle_Error _) \<Rightarrow> Inl (Stock_Error Kit_Cycle)
      | Inl x \<Rightarrow> Inl x
      | Inr q \<Rightarrow> if q = [] then Inl (Stock_Error Kit_Vide) else Inr q)"

text \<open>
  The end of both packing operations: the status the packing gives the carton, the state of the
  shipment, and the code. \<open>draft_status\<close> is the status of a carton packed without a shipment.
\<close>

definition finish_packing ::
    "env \<Rightarrow> nat option \<Rightarrow> carton_object \<Rightarrow> nat option \<Rightarrow> bool \<Rightarrow> string \<Rightarrow> string \<Rightarrow> db
       \<Rightarrow> err + carton_object \<times> db" where
  "finish_packing e user obj shipment skip_picking assign_reason picking_reason s =
     (let (k, manual) = obj in
      res_bind (require (row_get (db_cartons s) k) Does_Not_Exist) (\<lambda>c.
        let s1 = (if shipment \<noteq> None
                  then snd (set_carton_status e k Ct_Assigned user assign_reason id s)
                  else if c_status c = Ct_Draft \<and> \<not> skip_picking
                  then snd (set_carton_status e k Ct_Picking user picking_reason id s)
                  else s)
        in
        res_bind (case shipment of None \<Rightarrow> Inr s1 | Some sh \<Rightarrow> sync_shipment_ready_state e sh s1) (\<lambda>s2.
        res_bind (ensure_carton_code e k manual None s2) (\<lambda>s3. Inr (obj, s3)))))"

definition pack_carton ::
    "env \<Rightarrow> nat option \<Rightarrow> nat \<Rightarrow> int \<Rightarrow> carton_object option \<Rightarrow> string \<Rightarrow> nat option \<Rightarrow> nat option
       \<Rightarrow> date option \<Rightarrow> nat option \<Rightarrow> size option \<Rightarrow> bool \<Rightarrow> db \<Rightarrow> err + carton_object \<times> db" where
  "pack_carton e user product quantity carton carton_code shipment preassigned display location
       carton_size skip_picking s =
     res_bind (prepare_carton e user carton shipment preassigned location carton_code carton_size s)
       (\<lambda>((k, manual), s1).
     res_bind (kit_requirements product quantity s1) (\<lambda>requirements.
     res_bind (for_each (pack_component e user
                  (if shipment \<noteq> None then Mv_Out else Mv_Precondition) shipment k display)
                requirements s1) (\<lambda>s2.
       finish_packing e user (k, manual) shipment skip_picking ''stock_pack_assign''
         ''stock_pack_start_picking'' s2)))"

section \<open>Unpacking\<close>

definition return_item :: "env \<Rightarrow> nat option \<Rightarrow> nat \<Rightarrow> nat option \<Rightarrow> nat \<times> carton_item \<Rightarrow> db \<Rightarrow> err + db" where
  "return_item e user k shipment row s =
     (let item = snd row in
      res_bind (require (row_get (db_lots s) (it_lot item)) Does_Not_Exist) (\<lambda>lot.
        Inr (create_movement ((new_movement e user Mv_Unpack (l_product lot) (it_lot item) (it_quantity item))
               \<lparr>mv_to_location := Some (l_location lot), mv_related_carton := Some k,
                mv_related_shipment := shipment\<rparr>)
             (write_lot (it_lot item)
               (\<lambda>r. r\<lparr>quantity_on_hand := quantity_on_hand r + it_quantity item\<rparr>) s))))"

definition unpack_carton :: "env \<Rightarrow> nat option \<Rightarrow> nat \<Rightarrow> db \<Rightarrow> err + db" where
  "unpack_carton e user k s =
     res_bind (require (row_get (db_cartons s) k) Does_Not_Exist) (\<lambda>carton.
     let shipment = c_shipment carton in
     res_bind (check_shipment_open shipment s) (\<lambda>_.
     res_bind (raise_if (c_status carton = Ct_Shipped) (Stock_Error Carton_Expedie)) (\<lambda>_.
     let items = carton_items_of k s in
     res_bind (raise_if (items = []) (Stock_Error Carton_Vide)) (\<lambda>_.
     res_bind (for_each (return_item e user k shipment) items s) (\<lambda>s1.
       let s2 = s1\<lparr>db_carton_items := rows_where (\<lambda>_ i. it_carton i \<noteq> k) (db_carton_items s1)\<rparr>;
           s3 = snd (set_carton_status e k Ct_Draft user ''stock_unpack''
                  (\<lambda>c. c\<lparr>c_shipment := None\<rparr>) s2)
       in case shipment of None \<Rightarrow> Inr s3 | Some sh \<Rightarrow> sync_shipment_ready_state e sh s3)))))"

section \<open>Validated inputs\<close>

record receive_stock_input =
  ri_product_id :: "nat option"
  ri_quantity :: int
  ri_location_id :: "nat option"
  ri_lot_code :: string
  ri_received_on :: "date option"
  ri_expires_on :: "date option"
  ri_status :: "lot_status option"
  ri_storage_conditions :: string
  ri_source_receipt_id :: "nat option"

record pack_carton_input =
  pi_product_id :: "nat option"
  pi_quantity :: int
  pi_carton_id :: "nat option"
  pi_carton_code :: string
  pi_shipment_id :: "nat option"
  pi_current_location_id :: "nat option"

definition validate_receive :: "receive_stock_input \<Rightarrow> err + unit" where
  "validate_receive p = raise_if (ri_quantity p \<le> 0) (Value_Error ''Quantite invalide.'')"

definition validate_pack :: "pack_carton_input \<Rightarrow> err + unit" where
  "validate_pack p =
     res_bind (raise_if (pi_quantity p \<le> 0) (Value_Error ''Quantite invalide.'')) (\<lambda>_.
       raise_if (pi_carton_id p \<notin> {None, Some 0} \<and> pi_carton_code p \<noteq> '''')
         (Value_Error ''Choisissez carton_id ou carton_code.''))"

definition get_required :: "'r table \<Rightarrow> nat option \<Rightarrow> string \<Rightarrow> err + nat" where
  "get_required t object_id label =
     (case object_id of
        None \<Rightarrow> Inl (Stock_Error (Requis label))
      | Some k \<Rightarrow> if row_get t k = None then Inl (Stock_Error (Introuvable label)) else Inr k)"

definition get_optional :: "'r table \<Rightarrow> nat option \<Rightarrow> string \<Rightarrow> err + nat option" where
  "get_optional t object_id label =
     (case object_id of
        None \<Rightarrow> Inr None
      | Some k \<Rightarrow> if row_get t k = None then Inl (Stock_Error (Introuvable label)) else Inr (Some k))"

definition receive_stock_from_input ::
    "env \<Rightarrow> nat option \<Rightarrow> receive_stock_input \<Rightarrow> db \<Rightarrow> err + nat \<times> db" where
  "receive_stock_from_input e user p s =
     res_bind (validate_receive p) (\<lambda>_.
     res_bind (get_required (db_products s) (ri_product_id p) ''Produit'') (\<lambda>product.
     res_bind (get_required (db_locations s) (ri_location_id p) ''Emplacement'') (\<lambda>location.
     res_bind (get_optional (db_receipts s) (ri_source_receipt_id p) ''Reception'') (\<lambda>source.
       receive_stock e user product (ri_quantity p) location (ri_lot_code p) (ri_received_on p)
         (ri_expires_on p) (ri_status p) (ri_storage_conditions p) source s))))"

definition pack_carton_from_input ::
    "env \<Rightarrow> nat option \<Rightarrow> pack_carton_input \<Rightarrow> db \<Rightarrow> err + carton_object \<times> db" where
  "pack_carton_from_input e user p s =
     res_bind (validate_pack p) (\<lambda>_.
     res_bind (get_required (db_products s) (pi_product_id p) ''Produit'') (\<lambda>product.
     res_bind (get_optional (db_cartons s) (pi_carton_id p) ''Carton'') (\<lambda>carton.
     res_bind (get_optional (db_shipments s) (pi_shipment_id p) ''Expedition'') (\<lambda>shipment.
     res_bind (get_optional (db_locations s) (pi_current_location_id p) ''Emplacement'') (\<lambda>location.
       pack_carton e user product (pi_quantity p) (map_option (\<lambda>k. (k, False)) carton)
         (pi_carton_code p) shipment None None location None False s)))))"

section \<open>What does not touch the stock\<close>

definition same_stock :: "db \<Rightarrow> db \<Rightarrow> bool" where
  "same_stock s t \<longleftrightarrow> db_lots t = db_lots s \<and> db_movements t = db_movements s
     \<and> db_carton_items t = db_carton_items s \<and> db_products t = db_products s
     \<and> db_kit_items t = db_kit_items s \<and> db_order_lines t = db_order_lines s
     \<and> db_reservations t = db_reservations s"

lemma same_stock_refl [simp]: "same_stock s s"
  by (simp add: same_stock_def)

lemma same_stock_trans: "same_stock s t \<Longrightarrow> same_stock t u \<Longrightarrow> same_stock s u"
  by (simp add: same_stock_def)

lemma same_stock_update [simp]:
  "same_stock s (t\<lparr>db_cartons := x\<rparr>) = same_stock s t"
  "same_stock s (t\<lparr>db_carton_sequences := x2\<rparr>) = same_stock s t"
  "same_stock s (t\<lparr>db_carton_events := x3\<rparr>) = same_stock s t"
  "same_stock s (t\<lparr>db_shipments := x4\<rparr>) = same_stock s t"
  "same_stock s (t\<lparr>db_shipment_sequences := x5\<rparr>) = same_stock s t"
  "same_stock s (t\<lparr>db_orders := x6\<rparr>) = same_stock s t"
  by (simp_all add: same_stock_def)

lemma next_free_code_Inr:
  assumes "next_free_code s = Inr (code, s')"
  shows "\<exists>q. s' = s\<lparr>db_carton_sequences := q\<rparr>" and "\<not> code_taken None code s"
proof -
  obtain q where q: "snd (next_linear_carton_sequence ''XX'' s) = s\<lparr>db_carton_sequences := q\<rparr>"
    using next_linear_frame [of "''XX''" s] by metis
  show "\<exists>q. s' = s\<lparr>db_carton_sequences := q\<rparr>"
    using assms q [symmetric] by (auto simp: next_free_code_def generate_carton_code_def case_prod_beta split: if_splits)
  show "\<not> code_taken None code s"
    using assms by (auto simp: next_free_code_def generate_carton_code_def case_prod_beta split: if_splits)
qed

text \<open>A prepared carton is either a new draft or an existing one that is not shipped.\<close>

definition new_carton ::
    "env \<Rightarrow> nat option \<Rightarrow> string \<Rightarrow> nat option \<Rightarrow> nat option \<Rightarrow> nat option \<Rightarrow> carton" where
  "new_carton e user code shipment preassigned location =
     \<lparr>c_code = code, c_status = Ct_Draft, c_length_cm = None, c_width_cm = None,
      c_height_cm = None, c_current_location = location, c_shipment = shipment,
      c_preassigned_destination = (if shipment = None then preassigned else None),
      c_prepared_by = user, c_created_at = e_now e, c_notes = ''''\<rparr>"

lemma create_carton_new:
  "create_carton e user code shipment preassigned location s = (next_pk (db_cartons s),
     s\<lparr>db_cartons := row_ins (new_carton e user code shipment preassigned location) (db_cartons s)\<rparr>)"
  by (simp add: create_carton_def new_carton_def)

definition prepared_new ::
    "env \<Rightarrow> nat option \<Rightarrow> nat option \<Rightarrow> nat option \<Rightarrow> nat option \<Rightarrow> nat \<Rightarrow> db \<Rightarrow> db \<Rightarrow> bool" where
  "prepared_new e user shipment preassigned location k s s' \<longleftrightarrow> k = next_pk (db_cartons s)
     \<and> (\<exists>code sz q. \<not> code_taken None code s \<and> s' = s\<lparr>db_cartons := row_upd k (fill_dimensions sz)
          (row_ins (new_carton e user code shipment preassigned location) (db_cartons s)),
        db_carton_sequences := q\<rparr>)"

definition prepared_old ::
    "nat option \<Rightarrow> nat option \<Rightarrow> nat option \<Rightarrow> nat \<Rightarrow> db \<Rightarrow> db \<Rightarrow> bool" where
  "prepared_old shipment preassigned location k s s' \<longleftrightarrow>
     (\<exists>c. row_get (db_cartons s) k = Some c \<and> c_status c \<noteq> Ct_Shipped
        \<and> (shipment \<noteq> None \<longrightarrow> c_shipment c \<in> {None, shipment}))
     \<and> (\<exists>sz. s' = s\<lparr>db_cartons := row_upd k (fill_dimensions sz)
           (row_upd k (assign_fields shipment preassigned location) (db_cartons s))\<rparr>)"

lemma prepared_newI:
  assumes "\<not> code_taken None code s" and "t = s\<lparr>db_carton_sequences := q\<rparr>"
    and "create_carton e user code shipment preassigned location t = (k, u)"
    and "s' = u\<lparr>db_cartons := row_upd k (fill_dimensions sz) (db_cartons u)\<rparr>"
  shows "prepared_new e user shipment preassigned location k s s'"
  unfolding prepared_new_def
proof (intro conjI exI)
  show "k = next_pk (db_cartons s)" using assms(2,3) by (simp add: create_carton_new)
  show "\<not> code_taken None code s" by (rule assms(1))
  show "s' = s\<lparr>db_cartons := row_upd k (fill_dimensions sz)
          (row_ins (new_carton e user code shipment preassigned location) (db_cartons s)),
        db_carton_sequences := q\<rparr>"
    using assms(2-4) by (auto simp: create_carton_new)
qed

lemma prepare_carton_cases:
  assumes "prepare_carton e user carton shipment preassigned location code sz s = Inr ((k, m), s')"
  shows "check_shipment_open shipment s = Inr () \<and>
     (prepared_new e user shipment preassigned location k s s' \<and> carton = None
      \<or> prepared_old shipment preassigned location k s s'
        \<and> (carton \<noteq> None \<longrightarrow> fst (the carton) = k))"
proof -
  define found where "found = (case carton of Some obj \<Rightarrow> Some obj
      | None \<Rightarrow> if code = '''' then None else map_option (\<lambda>k. (k, False)) (carton_with_code code s))"
  note run = assms [unfolded prepare_carton_def Let_def [of "case carton of Some obj \<Rightarrow> Some obj
      | None \<Rightarrow> if code = '''' then None else map_option (\<lambda>k. (k, False)) (carton_with_code code s)"],
      folded found_def]
  have openS: "check_shipment_open shipment s = Inr ()"
    using run by (auto simp: wms_ok)
  show ?thesis
  proof (cases found)
    case None
    then have "carton = None" by (simp add: found_def split: option.splits)
    moreover have "prepared_new e user shipment preassigned location k s s'"
    proof (cases "code = ''''")
      case True
      with run None openS obtain code' s1 where n: "next_free_code s = Inr (code', s1)"
        by (auto simp: wms_ok)
      obtain q where q: "s1 = s\<lparr>db_carton_sequences := q\<rparr>" using next_free_code_Inr(1) [OF n] by blast
      obtain k' u where c: "create_carton e user code' shipment preassigned location s1 = (k', u)" by fastforce
      with run None True openS n have "k' = k"
        "s' = u\<lparr>db_cartons := row_upd k (fill_dimensions (resolve_carton_dimensions sz u)) (db_cartons u)\<rparr>"
        by (auto simp: case_prod_beta)
      with c show ?thesis by (intro prepared_newI [OF next_free_code_Inr(2) [OF n] q]) simp_all
    next
      case False
      obtain k' u where c: "create_carton e user code shipment preassigned location s = (k', u)"
        by fastforce
      with run None False openS have "k' = k" "\<not> code_taken None code s"
        "s' = u\<lparr>db_cartons := row_upd k (fill_dimensions (resolve_carton_dimensions sz u)) (db_cartons u)\<rparr>"
        by (auto simp: case_prod_beta split: if_splits)
      moreover have "s = s\<lparr>db_carton_sequences := db_carton_sequences s\<rparr>" by simp
      ultimately show ?thesis using c
        by (intro prepared_newI [where t = s and q = "db_carton_sequences s"]) simp_all
    qed
    ultimately show ?thesis using openS by simp
  next
    case (Some obj)
    then obtain j m0 where obj: "found = Some (j, m0)" by (cases obj) auto
    with run openS obtain c where c: "row_get (db_cartons s) j = Some c" "c_status c \<noteq> Ct_Shipped"
      "\<not> (shipment \<noteq> None \<and> c_shipment c \<noteq> None \<and> c_shipment c \<noteq> shipment)" and "j = k"
      by (auto simp: wms_ok)
    moreover have "\<exists>sz. s' = s\<lparr>db_cartons := row_upd k (fill_dimensions sz)
           (row_upd k (assign_fields shipment preassigned location) (db_cartons s))\<rparr>"
      using run openS obj c(1,2) \<open>j = k\<close> by (auto simp: wms_ok)
    ultimately have "prepared_old shipment preassigned location k s s'"
      unfolding prepared_old_def by auto
    with obj openS \<open>j = k\<close> show ?thesis by (auto simp: found_def split: option.splits)
  qed
qed

lemma prepare_carton_frame:
  assumes "prepare_carton e user carton shipment preassigned location code sz s = Inr ((k, m), s')"
  shows "\<exists>t q. s' = s\<lparr>db_cartons := t, db_carton_sequences := q\<rparr>"
proof -
  from prepare_carton_cases [OF assms] consider
      t q where "s' = s\<lparr>db_cartons := t, db_carton_sequences := q\<rparr>"
    | t where "s' = s\<lparr>db_cartons := t\<rparr>"
    unfolding prepared_new_def prepared_old_def by blast
  then show ?thesis
  proof cases
    case (2 t)
    then have "s' = s\<lparr>db_cartons := t, db_carton_sequences := db_carton_sequences s\<rparr>" by simp
    then show ?thesis by blast
  qed blast
qed

section \<open>Units in cartons\<close>

text \<open>The units in the cartons and lots a predicate selects; \<open>in_cartons\<close> is one case.\<close>

definition packed_units :: "(nat \<Rightarrow> nat \<Rightarrow> bool) \<Rightarrow> db \<Rightarrow> int" where
  "packed_units P s = row_sum (\<lambda>i. if P (it_carton i) (it_lot i) then it_quantity i else 0) (db_carton_items s)"

lemma in_cartons_packed: "in_cartons j s = packed_units (\<lambda>_ l. l = j) s"
  by (simp add: in_cartons_def packed_units_def)

lemma packed_units_cong: "db_carton_items t = db_carton_items s \<Longrightarrow> packed_units P t = packed_units P s"
  by (simp add: packed_units_def)

definition items_ok :: "db \<Rightarrow> bool" where
  "items_ok s \<longleftrightarrow> keys_ok (db_carton_items s) \<and> (\<forall>(i, r) \<in> set (db_carton_items s). 0 \<le> it_quantity r)"

definition parts_sum :: "(nat \<Rightarrow> bool) \<Rightarrow> (nat \<times> int) list \<Rightarrow> int" where
  "parts_sum Q parts = sum_list (map (\<lambda>(j, t). if Q j then t else 0) parts)"

lemma parts_sum_simps [simp]:
  "parts_sum Q [] = 0"
  "parts_sum Q ((j, t) # parts) = (if Q j then t else 0) + parts_sum Q parts"
  by (simp_all add: parts_sum_def)

lemma parts_sum_allocated: "parts_sum (\<lambda>j. j = k) parts = allocated k parts"
  by (simp add: parts_sum_def allocated_def)

lemma add_to_carton_spec:
  assumes "keys_ok (db_carton_items s)"
  shows "keys_ok (db_carton_items (add_to_carton d k (lot, q) s))"
    and "packed_units P (add_to_carton d k (lot, q) s) = packed_units P s + (if P k lot then q else 0)"
    and "items_ok s \<Longrightarrow> 0 \<le> q \<Longrightarrow> items_ok (add_to_carton d k (lot, q) s)"
    and "\<exists>t. add_to_carton d k (lot, q) s = s\<lparr>db_carton_items := t\<rparr>"
proof -
  let ?f = "\<lambda>i. if P (it_carton i) (it_lot i) then it_quantity i else 0"
  let ?g = "\<lambda>r. r\<lparr>it_quantity := it_quantity r + q,
       it_display_expires_on := resolve_display (it_display_expires_on r) d\<rparr>"
  define t where "t = (case find_row (item_key k lot) (db_carton_items s) of
      Some _ \<Rightarrow> db_carton_items s
    | None \<Rightarrow> row_ins \<lparr>it_carton = k, it_lot = lot, it_quantity = 0, it_display_expires_on = d\<rparr>
        (db_carton_items s))"
  have keys: "keys_ok t" using assms by (auto simp: t_def keys_ok_ins split: option.splits)
  have sum: "row_sum ?f t = row_sum ?f (db_carton_items s)" by (auto simp: t_def split: option.splits)
  obtain i r where ir: "find_row (item_key k lot) t = Some (i, r)"
  proof (cases "find_row (item_key k lot) (db_carton_items s)")
    case None
    have "item_key k lot \<lparr>it_carton = k, it_lot = lot, it_quantity = 0, it_display_expires_on = d\<rparr>"
      by (simp add: item_key_def)
    with None have "find_row (item_key k lot) t = Some (next_pk (db_carton_items s),
        \<lparr>it_carton = k, it_lot = lot, it_quantity = 0, it_display_expires_on = d\<rparr>)"
      by (simp add: t_def row_ins_def find_row_append) (simp add: find_row_def)
    then show ?thesis by (rule that)
  next
    case (Some x)
    then show ?thesis by (cases x) (simp add: t_def that)
  qed
  have add: "add_to_carton d k (lot, q) s = s\<lparr>db_carton_items := row_upd i ?g t\<rparr>"
    unfolding add_to_carton_def Let_def prod.case t_def [symmetric] ir by simp
  from find_row_Some [OF ir] keys have get: "row_get t i = Some r" and key: "item_key k lot r"
    by (auto simp: row_get_iff)
  show "keys_ok (db_carton_items (add_to_carton d k (lot, q) s))"
    using keys by (simp add: add keys_ok_upd)
  show "packed_units P (add_to_carton d k (lot, q) s) = packed_units P s + (if P k lot then q else 0)"
    using row_sum_upd [OF keys get, of ?f ?g] key sum
    by (simp add: packed_units_def add item_key_def)
  show "\<exists>t. add_to_carton d k (lot, q) s = s\<lparr>db_carton_items := t\<rparr>" using add by blast
  show "items_ok (add_to_carton d k (lot, q) s)" if "items_ok s" and "0 \<le> q"
  proof -
    have "\<forall>(i, r) \<in> set t. 0 \<le> it_quantity r"
      using that(1) by (auto simp: t_def items_ok_def row_ins_def split: option.splits)
    then have "\<forall>(j, r) \<in> set (row_upd i ?g t). 0 \<le> it_quantity r"
      using that(2) by (auto simp: row_upd_def)
    with keys show ?thesis by (simp add: add items_ok_def keys_ok_upd)
  qed
qed

lemma add_all_to_carton:
  assumes "keys_ok (db_carton_items s)"
  shows "keys_ok (db_carton_items (fold (add_to_carton d k) parts s))"
    and "packed_units P (fold (add_to_carton d k) parts s) = packed_units P s + parts_sum (P k) parts"
    and "items_ok s \<Longrightarrow> \<forall>(j, q) \<in> set parts. 0 \<le> q \<Longrightarrow> items_ok (fold (add_to_carton d k) parts s)"
    and "\<exists>t. fold (add_to_carton d k) parts s = s\<lparr>db_carton_items := t\<rparr>"
  using assms
proof (induction parts arbitrary: s)
  case Nil
  { case 1 then show ?case by simp
  next case 2 then show ?case by simp
  next case 3 then show ?case by simp
  next case 4
    have "s = s\<lparr>db_carton_items := db_carton_items s\<rparr>" by simp
    then show ?case by (simp only: fold_simps) blast }
next
  case (Cons part parts)
  obtain j q where part: "part = (j, q)" by (cases part)
  { case 1 then show ?case using Cons.IH(1) add_to_carton_spec(1) part by simp
  next case 2 then show ?case
      using Cons.IH(2) [of "add_to_carton d k part s"] add_to_carton_spec(1,2) part by simp
  next case 3 then show ?case
      using Cons.IH(3) [of "add_to_carton d k part s"] add_to_carton_spec(1,3) part by simp
  next case 4
    obtain t where t: "add_to_carton d k part s = s\<lparr>db_carton_items := t\<rparr>"
      using add_to_carton_spec(4) [OF 4, of d k j q] part by blast
    obtain t' where "fold (add_to_carton d k) parts (add_to_carton d k part s)
        = (add_to_carton d k part s)\<lparr>db_carton_items := t'\<rparr>"
      using Cons.IH(4) add_to_carton_spec(1) [OF 4, of d k j q] part by blast
    then show ?case by (simp add: t) blast }
qed

section \<open>Packing one component\<close>

definition stock_ok :: "db \<Rightarrow> bool" where
  "stock_ok s \<longleftrightarrow> books_ok s \<and> items_ok s"

lemma stock_okD:
  assumes "stock_ok s"
  shows "books_ok s" and "items_ok s" and "keys_ok (db_lots s)" and "keys_ok (db_carton_items s)"
  using assms by (auto simp: stock_ok_def books_ok_def lots_ok_def items_ok_def)

lemma stock_ok_cong: "same_stock s t \<Longrightarrow> stock_ok t = stock_ok s"
  by (simp add: stock_ok_def same_stock_def items_ok_def books_ok_cong [of t s])

lemma consume_mk_carton_items:
  "consume_stock e user c q mt sh ct code notes s = Inr (parts, s') \<Longrightarrow> keys_ok (db_lots s)
     \<Longrightarrow> db_carton_items s' = db_carton_items s \<and> db_products s' = db_products s"
  using consume_stock_Inr(4) by (metis issues_fields)

lemma issue_frame: "\<exists>x y. issue mk part s = s\<lparr>db_lots := x, db_movements := y\<rparr>"
proof (cases "row_get (db_lots s) (fst part)")
  case None
  then have "issue mk part s = s\<lparr>db_lots := db_lots s, db_movements := db_movements s\<rparr>"
    by (simp add: issue_def)
  then show ?thesis by blast
next
  case (Some l)
  then have "issue mk part s = s\<lparr>db_lots := row_upd (fst part)
      (\<lambda>r. r\<lparr>quantity_on_hand := quantity_on_hand r - snd part\<rparr>) (db_lots s),
      db_movements := row_ins (mk (fst part) l (snd part)) (db_movements s)\<rparr>"
    by (simp add: issue_def create_movement_def write_lot_def)
  then show ?thesis by blast
qed

lemma issues_frame: "\<exists>x y. fold (issue mk) parts s = s\<lparr>db_lots := x, db_movements := y\<rparr>"
proof (induction parts arbitrary: s)
  case Nil
  have "s = s\<lparr>db_lots := db_lots s, db_movements := db_movements s\<rparr>" by simp
  then show ?case by (simp only: fold_simps) blast
next
  case (Cons part parts)
  obtain x y where xy: "issue mk part s = s\<lparr>db_lots := x, db_movements := y\<rparr>"
    using issue_frame by blast
  from Cons [of "issue mk part s"] show ?case by (simp add: xy)
qed

lemma consume_stock_frame:
  "consume_stock e user c q mt sh ct code notes s = Inr (parts, s') \<Longrightarrow> keys_ok (db_lots s)
     \<Longrightarrow> \<exists>x y. s' = s\<lparr>db_lots := x, db_movements := y\<rparr>"
  using consume_stock_Inr(4) issues_frame by metis

lemma consume_stock_parts:
  assumes "keys_ok (db_lots s)"
    and "consume_stock e user c q mt sh ct code notes s = Inr (parts, s')" and "(j, t) \<in> set parts"
  shows "0 < t \<and> (\<exists>l. row_get (db_lots s) j = Some l \<and> l_product l = c \<and> t \<le> lot_available l)"
  using assms(3) consume_part [OF assms(1), of j t q c] consume_stock_Inr(3) [OF assms(1,2)] by metis

definition lot_product :: "db \<Rightarrow> nat \<Rightarrow> nat option" where
  "lot_product s j = map_option l_product (row_get (db_lots s) j)"

definition units_of :: "nat \<Rightarrow> nat \<Rightarrow> db \<Rightarrow> int" where
  "units_of k c s = packed_units (\<lambda>carton l. carton = k \<and> lot_product s l = Some c) s"

lemma parts_sum_all: "(\<forall>(j, t) \<in> set parts. Q j) \<Longrightarrow> parts_sum Q parts = sum_list (map snd parts)"
  by (induction parts) auto

lemma parts_sum_none: "(\<forall>(j, t) \<in> set parts. \<not> Q j) \<Longrightarrow> parts_sum Q parts = 0"
  by (induction parts) auto

text \<open>One requirement: its quantity leaves lots of the component and reaches the carton.\<close>

lemma pack_component_Inr:
  assumes "pack_component e user mt shipment k d (c, q) s = Inr s'"
  obtains parts s1 where "consume_stock e user c q mt shipment (Some k) [] [] s = Inr (parts, s1)"
    and "s' = fold (add_to_carton d k) parts s1"
  using assms by (auto simp: pack_component_def wms_ok)

lemma pack_component_spec:
  assumes "pack_component e user mt shipment k d (c, q) s = Inr s'" and "stock_ok s" and "outgoing mt"
  shows "stock_ok s'"
    and "on_hand j s' + in_cartons j s' = on_hand j s + in_cartons j s"
    and "lot_product s' = lot_product s"
    and "units_of k x s' = units_of k x s + (if x = c then q else 0)"
    and "\<exists>u v w. s' = s\<lparr>db_lots := u, db_movements := v, db_carton_items := w\<rparr>"
proof -
  note ok = stock_okD [OF assms(2)]
  obtain parts s1 where run: "consume_stock e user c q mt shipment (Some k) [] [] s = Inr (parts, s1)"
    and s': "s' = fold (add_to_carton d k) parts s1"
    using assms(1) by (rule pack_component_Inr)
  obtain u v where s1: "s1 = s\<lparr>db_lots := u, db_movements := v\<rparr>"
    using consume_stock_frame [OF run ok(3)] by blast
  have items: "keys_ok (db_carton_items s1)" using ok(4) by (simp add: s1)
  obtain w where w: "s' = s1\<lparr>db_carton_items := w\<rparr>"
    using add_all_to_carton(4) [OF items, of d k parts] by (auto simp: s')
  show frame: "\<exists>u v w. s' = s\<lparr>db_lots := u, db_movements := v, db_carton_items := w\<rparr>"
    using w s1 by (intro exI [of _ u] exI [of _ v] exI [of _ w]) simp
  have pos: "\<forall>(j, t) \<in> set parts. 0 \<le> t"
    using consume_stock_parts [OF ok(3) run] by fastforce
  have "books_ok s1" using consume_stock_books [OF run assms(3) ok(1)] .
  moreover have "items_ok s1" using ok(2) by (simp add: s1 items_ok_def)
  ultimately show "stock_ok s'"
    using add_all_to_carton(3) [OF items _ pos, of d k] books_ok_cong [of s' s1]
    by (simp add: stock_ok_def s' [symmetric] w)
  have lots: "row_get (db_lots s') i = map_option
      (\<lambda>r. r\<lparr>quantity_on_hand := quantity_on_hand r - allocated i parts\<rparr>) (row_get (db_lots s) i)" for i
    using consume_stock_lots [OF ok(3) run, of i] by (simp add: w)
  show prod: "lot_product s' = lot_product s"
    by (rule ext) (simp add: lot_product_def lots option.map_comp comp_def)
  have packed: "packed_units P s' = packed_units P s + parts_sum (P k) parts" for P
    using add_all_to_carton(2) [OF items, of P d k parts]
    by (simp add: s' packed_units_def s1)
  have absent: "row_get (db_lots s) i = None \<Longrightarrow> allocated i parts = 0" for i
    using consume_stock_parts [OF ok(3) run, of i] by (intro allocated_absent) force
  have "on_hand j s' = on_hand j s - allocated j parts"
    using absent [of j] by (auto simp: on_hand_def lots split: option.splits)
  moreover have "in_cartons j s' = in_cartons j s + allocated j parts"
    by (simp add: in_cartons_packed packed parts_sum_allocated)
  ultimately show "on_hand j s' + in_cartons j s' = on_hand j s + in_cartons j s" by simp
  have of_c: "lot_product s i = Some c" if "(i, t) \<in> set parts" for i t
    using consume_stock_parts [OF ok(3) run that] by (auto simp: lot_product_def)
  have "parts_sum (\<lambda>l. lot_product s l = Some x) parts = (if x = c then q else 0)"
  proof (cases "x = c")
    case True
    with of_c show ?thesis
      using consume_stock_total [OF ok(3) run] by (subst parts_sum_all) auto
  next
    case False
    with of_c show ?thesis by (subst parts_sum_none) fastforce+
  qed
  then show "units_of k x s' = units_of k x s + (if x = c then q else 0)"
    by (simp add: units_of_def prod packed)
qed

section \<open>The end of a packing\<close>

lemma recoded_other:
  assumes "recoded k s s'" and "j \<noteq> k"
  shows "row_get (db_cartons s') j = row_get (db_cartons s) j"
proof -
  from assms(1) consider "db_cartons s' = db_cartons s"
    | code where "db_cartons s' = row_upd k (\<lambda>c. c\<lparr>c_code := code\<rparr>) (db_cartons s)"
    unfolding recoded_def by auto
  then show ?thesis using assms(2) by cases (simp_all add: row_get_upd)
qed

lemma recoded_stock: "recoded k s s' \<Longrightarrow> same_stock s s'"
  using recoded_frame by (force simp: same_stock_def)

lemma set_carton_status_stock: "same_stock s (snd (set_carton_status e k new user reason f s))"
proof -
  obtain t v where "snd (set_carton_status e k new user reason f s)
      = s\<lparr>db_cartons := t, db_carton_events := v\<rparr>"
    using set_carton_status_frame by blast
  then show ?thesis by (simp add: same_stock_def)
qed

lemma sync_stock: "sync_shipment_ready_state e k s = Inr s' \<Longrightarrow> same_stock s s'"
  using sync_frame by (force simp: same_stock_def)

lemma sync_cartons: "sync_shipment_ready_state e k s = Inr s' \<Longrightarrow> db_cartons s' = db_cartons s"
  using sync_frame by force

definition packed_status :: "nat option \<Rightarrow> bool \<Rightarrow> carton_status \<Rightarrow> carton_status" where
  "packed_status shipment skip st =
     (if shipment \<noteq> None then Ct_Assigned else if st = Ct_Draft \<and> \<not> skip then Ct_Picking else st)"

lemma finish_packing_spec:
  assumes "finish_packing e user (k, m) shipment skip r1 r2 s = Inr (obj, s')"
    and "row_get (db_cartons s) k = Some c"
  shows "obj = (k, m)" and "same_stock s s'"
    and "\<exists>code. row_get (db_cartons s') k
           = Some (c\<lparr>c_status := packed_status shipment skip (c_status c), c_code := code\<rparr>)"
    and "j \<noteq> k \<Longrightarrow> row_get (db_cartons s') j = row_get (db_cartons s) j"
proof -
  define s1 where "s1 = (if shipment \<noteq> None
        then snd (set_carton_status e k Ct_Assigned user r1 id s)
        else if c_status c = Ct_Draft \<and> \<not> skip then snd (set_carton_status e k Ct_Picking user r2 id s)
        else s)"
  from assms obtain s2
    where s2: "(case shipment of None \<Rightarrow> Inr s1 | Some sh \<Rightarrow> sync_shipment_ready_state e sh s1) = Inr s2"
      and s3: "ensure_carton_code e k m None s2 = Inr s'" and obj: "obj = (k, m)"
    unfolding finish_packing_def s1_def Let_def by (auto simp: wms_ok)
  have "row_get (db_cartons s1) k = Some (c\<lparr>c_status := packed_status shipment skip (c_status c)\<rparr>)
      \<and> (\<forall>j. j \<noteq> k \<longrightarrow> row_get (db_cartons s1) j = row_get (db_cartons s) j)"
    using assms(2) set_carton_status_row [OF assms(2)] set_carton_status_same [OF assms(2)]
    by (cases "shipment = None"; cases "c_status c = Ct_Assigned"; cases "c_status c = Ct_Draft")
      (auto simp: s1_def packed_status_def)
  moreover have "db_cartons s2 = db_cartons s1"
    using s2 by (auto intro: sync_cartons split: option.splits)
  ultimately have row: "row_get (db_cartons s2) k
      = Some (c\<lparr>c_status := packed_status shipment skip (c_status c)\<rparr>)"
    and other: "j \<noteq> k \<Longrightarrow> row_get (db_cartons s2) j = row_get (db_cartons s) j" by auto
  note rec = ensure_carton_code_recoded [OF s3]
  show "obj = (k, m)" by (rule obj)
  show "\<exists>code. row_get (db_cartons s') k
           = Some (c\<lparr>c_status := packed_status shipment skip (c_status c), c_code := code\<rparr>)"
    using recoded_row [OF rec row] by auto
  show "j \<noteq> k \<Longrightarrow> row_get (db_cartons s') j = row_get (db_cartons s) j"
    using recoded_other [OF rec] other by simp
  have "same_stock s s1" by (auto simp: s1_def set_carton_status_stock)
  moreover have "same_stock s1 s2" using s2 by (auto intro: sync_stock split: option.splits)
  moreover have "same_stock s2 s'" using rec by (rule recoded_stock)
  ultimately show "same_stock s s'" by (blast intro: same_stock_trans)
qed

section \<open>Packing a product\<close>

definition requirements_of :: "nat \<Rightarrow> int \<Rightarrow> db \<Rightarrow> (nat \<times> int) list \<Rightarrow> bool" where
  "requirements_of product q s reqs \<longleftrightarrow>
     get_component_quantities (kit_rows s) (Some product) q = Inr reqs \<and> reqs \<noteq> []"

lemma kit_requirements_Inr: "kit_requirements product q s = Inr reqs \<longleftrightarrow> requirements_of product q s reqs"
  by (auto simp: kit_requirements_def requirements_of_def split: sum.splits err.splits if_splits)

text \<open>What each requirement of the list does, all of them do.\<close>

lemma pack_components_spec:
  assumes "for_each (pack_component e user mt shipment k d) reqs s = Inr s'"
    and "stock_ok s" and "outgoing mt"
  shows "stock_ok s' \<and> (\<forall>j. on_hand j s' + in_cartons j s' = on_hand j s + in_cartons j s)
    \<and> lot_product s' = lot_product s
    \<and> (\<forall>x. units_of k x s' = units_of k x s + parts_sum (\<lambda>c. c = x) reqs)
    \<and> (\<exists>u v w. s' = s\<lparr>db_lots := u, db_movements := v, db_carton_items := w\<rparr>)"
  using assms(1,2)
proof (induction reqs arbitrary: s)
  case Nil
  then have "s' = s\<lparr>db_lots := db_lots s, db_movements := db_movements s,
      db_carton_items := db_carton_items s\<rparr>" and "stock_ok s'" and "s' = s" by simp_all
  then show ?case
    by (auto simp: parts_sum_def intro!: exI [of _ "db_lots s"] exI [of _ "db_movements s"]
        exI [of _ "db_carton_items s"])
next
  case (Cons r reqs)
  obtain c q where r: "r = (c, q)" by (cases r)
  from Cons.prems(1) obtain t where t: "pack_component e user mt shipment k d (c, q) s = Inr t"
    and rest: "for_each (pack_component e user mt shipment k d) reqs t = Inr s'"
    by (auto simp: wms_ok r)
  note one = pack_component_spec [OF t Cons.prems(2) assms(3)]
  note more = Cons.IH [OF rest one(1)]
  obtain u v w where f1: "t = s\<lparr>db_lots := u, db_movements := v, db_carton_items := w\<rparr>"
    using one(5) by blast
  obtain u' v' w' where "s' = t\<lparr>db_lots := u', db_movements := v', db_carton_items := w'\<rparr>"
    using more by blast
  then have "s' = s\<lparr>db_lots := u', db_movements := v', db_carton_items := w'\<rparr>" by (simp add: f1)
  with more one(2-4) show ?case by (auto simp: r)
qed

lemma prepare_carton_stock:
  "prepare_carton e user carton shipment preassigned location code sz s = Inr ((k, m), s')
     \<Longrightarrow> same_stock s s'"
  using prepare_carton_frame by (force simp: same_stock_def)

text \<open>The row a prepared carton has.\<close>

lemma prepare_carton_row:
  assumes "prepare_carton e user carton shipment preassigned location code sz s = Inr ((k, m), s')"
  shows "\<exists>c. row_get (db_cartons s') k = Some c \<and> c_status c \<noteq> Ct_Shipped
    \<and> (shipment \<noteq> None \<longrightarrow> c_shipment c = shipment)
    \<and> (row_get (db_cartons s) k = None \<longrightarrow> c_status c = Ct_Draft \<and> c_shipment c = shipment)
    \<and> (\<forall>c0. row_get (db_cartons s) k = Some c0 \<longrightarrow> c_status c = c_status c0)"
    and "j \<noteq> k \<Longrightarrow> row_get (db_cartons s') j = row_get (db_cartons s) j"
proof -
  from prepare_carton_cases [OF assms]
  have "prepared_new e user shipment preassigned location k s s'
      \<or> prepared_old shipment preassigned location k s s'" by blast
  then have "(\<exists>c. row_get (db_cartons s') k = Some c \<and> c_status c \<noteq> Ct_Shipped
    \<and> (shipment \<noteq> None \<longrightarrow> c_shipment c = shipment)
    \<and> (row_get (db_cartons s) k = None \<longrightarrow> c_status c = Ct_Draft \<and> c_shipment c = shipment)
    \<and> (\<forall>c0. row_get (db_cartons s) k = Some c0 \<longrightarrow> c_status c = c_status c0))
    \<and> (j \<noteq> k \<longrightarrow> row_get (db_cartons s') j = row_get (db_cartons s) j)"
  proof
    assume "prepared_new e user shipment preassigned location k s s'"
    then show ?thesis
      by (auto simp: prepared_new_def row_get_upd row_get_ins row_get_fresh fill_dimensions_def
          new_carton_def)
  next
    assume "prepared_old shipment preassigned location k s s'"
    then show ?thesis
      by (auto simp: prepared_old_def row_get_upd fill_dimensions_def assign_fields_def Let_def)
  qed
  then show "\<exists>c. row_get (db_cartons s') k = Some c \<and> c_status c \<noteq> Ct_Shipped
    \<and> (shipment \<noteq> None \<longrightarrow> c_shipment c = shipment)
    \<and> (row_get (db_cartons s) k = None \<longrightarrow> c_status c = Ct_Draft \<and> c_shipment c = shipment)
    \<and> (\<forall>c0. row_get (db_cartons s) k = Some c0 \<longrightarrow> c_status c = c_status c0)"
    and "j \<noteq> k \<Longrightarrow> row_get (db_cartons s') j = row_get (db_cartons s) j"
    by blast+
qed

lemma pack_carton_Inr:
  assumes "pack_carton e user product q carton code shipment pre d location sz skip s = Inr (obj, s')"
  obtains k m s1 reqs s2
  where "prepare_carton e user carton shipment pre location code sz s = Inr ((k, m), s1)"
    and "requirements_of product q s1 reqs"
    and "for_each (pack_component e user (if shipment \<noteq> None then Mv_Out else Mv_Precondition)
           shipment k d) reqs s1 = Inr s2"
    and "finish_packing e user (k, m) shipment skip ''stock_pack_assign''
           ''stock_pack_start_picking'' s2 = Inr (obj, s')"
  using assms by (auto simp: pack_carton_def wms_ok kit_requirements_Inr)

lemma units_of_cong:
  "same_stock s t \<Longrightarrow> units_of k c t = units_of k c s \<and> on_hand j t = on_hand j s
     \<and> in_cartons j t = in_cartons j s \<and> reserved j t = reserved j s \<and> journal j t = journal j s
     \<and> lot_product t = lot_product s"
  by (auto simp: same_stock_def units_of_def packed_units_def lot_product_def on_hand_def
      in_cartons_def reserved_def journal_def)

lemma pack_carton_spec:
  assumes run: "pack_carton e user product q carton code shipment pre d location sz skip s = Inr (obj, s')"
    and ok: "stock_ok s"
  shows "stock_ok s'"
    and "on_hand j s' + in_cartons j s' = on_hand j s + in_cartons j s"
    and "\<exists>reqs. requirements_of product q s reqs
           \<and> (\<forall>x. units_of (fst obj) x s' = units_of (fst obj) x s + parts_sum (\<lambda>c. c = x) reqs)"
    and "\<exists>c. row_get (db_cartons s') (fst obj) = Some c \<and> c_status c \<noteq> Ct_Shipped
           \<and> (shipment \<noteq> None \<longrightarrow> c_status c = Ct_Assigned \<and> c_shipment c = shipment)
           \<and> (shipment = None \<and> row_get (db_cartons s) (fst obj) = None \<and> \<not> skip
              \<longrightarrow> c_status c = Ct_Picking \<and> c_shipment c = None)"
    and "i \<noteq> fst obj \<Longrightarrow> row_get (db_cartons s') i = row_get (db_cartons s) i"
proof -
  from run obtain k m s1 reqs s2
    where p1: "prepare_carton e user carton shipment pre location code sz s = Inr ((k, m), s1)"
      and p2: "requirements_of product q s1 reqs"
      and p3: "for_each (pack_component e user (if shipment \<noteq> None then Mv_Out else Mv_Precondition)
           shipment k d) reqs s1 = Inr s2"
      and p4: "finish_packing e user (k, m) shipment skip ''stock_pack_assign''
           ''stock_pack_start_picking'' s2 = Inr (obj, s')"
    by (rule pack_carton_Inr)
  note same1 = prepare_carton_stock [OF p1]
  obtain c1 where c1: "row_get (db_cartons s1) k = Some c1" "c_status c1 \<noteq> Ct_Shipped"
    "shipment \<noteq> None \<longrightarrow> c_shipment c1 = shipment"
    "row_get (db_cartons s) k = None \<longrightarrow> c_status c1 = Ct_Draft \<and> c_shipment c1 = shipment"
    using prepare_carton_row(1) [OF p1] by (elim exE conjE) (rule that; assumption)
  have out: "outgoing (if shipment \<noteq> None then Mv_Out else Mv_Precondition)"
    by (simp add: outgoing_def)
  have "stock_ok s1" using ok same1 by (simp add: stock_ok_cong)
  note mid = pack_components_spec [OF p3 this out]
  then have cartons: "db_cartons s2 = db_cartons s1" by auto
  with c1 have "row_get (db_cartons s2) k = Some c1" by simp
  note last = finish_packing_spec [OF p4 this]
  note eq1 = units_of_cong [OF same1] and eq2 = units_of_cong [OF last(2)]
  have obj: "fst obj = k" using last(1) by simp
  show "stock_ok s'" using mid last(2) by (simp add: stock_ok_cong)
  show "on_hand j s' + in_cartons j s' = on_hand j s + in_cartons j s" using mid eq1 eq2 by simp
  have "requirements_of product q s reqs" using p2 same1 by (simp add: requirements_of_def same_stock_def kit_rows_def product_name_def)
  moreover have "units_of k x s' = units_of k x s + parts_sum (\<lambda>c. c = x) reqs" for x
    using mid eq1 eq2 by simp
  ultimately show "\<exists>reqs. requirements_of product q s reqs
       \<and> (\<forall>x. units_of (fst obj) x s' = units_of (fst obj) x s + parts_sum (\<lambda>c. c = x) reqs)"
    unfolding obj by blast
  show "\<exists>c. row_get (db_cartons s') (fst obj) = Some c \<and> c_status c \<noteq> Ct_Shipped
       \<and> (shipment \<noteq> None \<longrightarrow> c_status c = Ct_Assigned \<and> c_shipment c = shipment)
       \<and> (shipment = None \<and> row_get (db_cartons s) (fst obj) = None \<and> \<not> skip
          \<longrightarrow> c_status c = Ct_Picking \<and> c_shipment c = None)"
    using last(3) c1 unfolding obj packed_status_def by auto
  show "i \<noteq> fst obj \<Longrightarrow> row_get (db_cartons s') i = row_get (db_cartons s) i"
    using last(4) prepare_carton_row(2) [OF p1] cartons unfolding obj by simp
qed

section \<open>Unpacking\<close>

lemma return_item_Inr:
  assumes "return_item e user k shipment (i, item) s = Inr s'"
  obtains l m where "row_get (db_lots s) (it_lot item) = Some l"
    and "s' = create_movement m (write_lot (it_lot item)
        (\<lambda>r. r\<lparr>quantity_on_hand := quantity_on_hand r + it_quantity item\<rparr>) s)"
    and "mv_lot m = it_lot item" and "signed_quantity m = it_quantity item"
  using assms by (auto simp: return_item_def wms_ok signed_quantity_def intro!: that)

definition returned_units :: "nat \<Rightarrow> (nat \<times> carton_item) list \<Rightarrow> int" where
  "returned_units j items = sum_list (map (\<lambda>(i, it). if it_lot it = j then it_quantity it else 0) items)"

lemma return_items_spec:
  assumes "for_each (return_item e user k shipment) items s = Inr s'" and "books_ok s"
    and "\<forall>(i, it) \<in> set items. 0 \<le> it_quantity it"
  shows "books_ok s' \<and> (\<forall>j. on_hand j s' = on_hand j s + returned_units j items)
    \<and> lot_product s' = lot_product s
    \<and> (\<exists>u v. s' = s\<lparr>db_lots := u, db_movements := v\<rparr>)"
  using assms
proof (induction items arbitrary: s)
  case Nil
  then show ?case
    by (auto simp: returned_units_def intro!: exI [of _ "db_lots s"] exI [of _ "db_movements s"])
next
  case (Cons row items)
  obtain i it where row: "row = (i, it)" by (cases row)
  from Cons.prems(1) obtain t where t: "return_item e user k shipment (i, it) s = Inr t"
    and rest: "for_each (return_item e user k shipment) items t = Inr s'"
    by (auto simp: wms_ok row)
  let ?f = "\<lambda>r. r\<lparr>quantity_on_hand := quantity_on_hand r + it_quantity it\<rparr>"
  from t obtain l m where l: "row_get (db_lots s) (it_lot it) = Some l"
    and t': "t = create_movement m (write_lot (it_lot it) ?f s)"
    and m: "mv_lot m = it_lot it" "signed_quantity m = it_quantity it"
    by (rule return_item_Inr)
  have pos: "0 \<le> it_quantity it" using Cons.prems(3) row by auto
  have "lot_ok l" using Cons.prems(2) l by (auto simp: books_ok_def intro: lots_okD)
  then have books: "books_ok t"
    using Cons.prems(2) l m pos unfolding t' by (intro books_ok_move) (auto simp: lot_ok_def)
  have hand: "on_hand j t = on_hand j s + (if it_lot it = j then it_quantity it else 0)" for j
    using l by (auto simp: t' on_hand_def row_get_upd)
  have prod: "lot_product t = lot_product s"
    by (rule ext) (simp add: lot_product_def t' row_get_upd option.map_comp comp_def)
  obtain x y where frame: "t = s\<lparr>db_lots := x, db_movements := y\<rparr>"
    by (rule that) (simp add: t' create_movement_def write_lot_def)
  note more = Cons.IH [OF rest books]
  from more Cons.prems(3) obtain u v where "s' = t\<lparr>db_lots := u, db_movements := v\<rparr>" by auto
  with frame have "s' = s\<lparr>db_lots := u, db_movements := v\<rparr>"
    by simp
  with more hand prod Cons.prems(3) row show ?case by (auto simp: returned_units_def)
qed

lemma packed_units_delete:
  "row_sum (\<lambda>i. if it_lot i = j then it_quantity i else 0) (rows_where (\<lambda>_ i. it_carton i \<noteq> k) t)
    + returned_units j (rows_where (\<lambda>_ i. it_carton i = k) t)
   = row_sum (\<lambda>i. if it_lot i = j then it_quantity i else 0) t"
  by (induction t) (auto simp: rows_where_def returned_units_def)

lemma unpack_carton_Inr:
  assumes "unpack_carton e user k s = Inr s'"
  obtains c s1 where "row_get (db_cartons s) k = Some c" and "check_shipment_open (c_shipment c) s = Inr ()"
    and "c_status c \<noteq> Ct_Shipped" and "carton_items_of k s \<noteq> []"
    and "for_each (return_item e user k (c_shipment c)) (carton_items_of k s) s = Inr s1"
    and "(case c_shipment c of
            None \<Rightarrow> Inr (snd (set_carton_status e k Ct_Draft user ''stock_unpack''
                   (\<lambda>c. c\<lparr>c_shipment := None\<rparr>)
                   (s1\<lparr>db_carton_items := rows_where (\<lambda>_ i. it_carton i \<noteq> k) (db_carton_items s1)\<rparr>)))
          | Some sh \<Rightarrow> sync_shipment_ready_state e sh
              (snd (set_carton_status e k Ct_Draft user ''stock_unpack''
                   (\<lambda>c. c\<lparr>c_shipment := None\<rparr>)
                   (s1\<lparr>db_carton_items := rows_where (\<lambda>_ i. it_carton i \<noteq> k) (db_carton_items s1)\<rparr>)))) = Inr s'"
  using assms by (auto simp: unpack_carton_def wms_ok Let_def)

lemma unpack_carton_spec:
  assumes run: "unpack_carton e user k s = Inr s'" and ok: "stock_ok s"
  shows "stock_ok s'" and "on_hand j s' = on_hand j s + returned_units j (carton_items_of k s)"
    and "on_hand j s' + in_cartons j s' = on_hand j s + in_cartons j s"
    and "carton_items_of k s' = []"
    and "row_get (db_cartons s) k = Some c \<Longrightarrow> c_status c \<noteq> Ct_Draft \<Longrightarrow>
      row_get (db_cartons s') k = Some (c\<lparr>c_shipment := None, c_status := Ct_Draft\<rparr>)"
    and "i \<noteq> k \<Longrightarrow> carton_items_of i s' = carton_items_of i s"
proof -
  from run obtain c0 s1 where c0: "row_get (db_cartons s) k = Some c0"
    and loop: "for_each (return_item e user k (c_shipment c0)) (carton_items_of k s) s = Inr s1"
    and last: "(case c_shipment c0 of
            None \<Rightarrow> Inr (snd (set_carton_status e k Ct_Draft user ''stock_unpack''
                   (\<lambda>c. c\<lparr>c_shipment := None\<rparr>)
                   (s1\<lparr>db_carton_items := rows_where (\<lambda>_ i. it_carton i \<noteq> k) (db_carton_items s1)\<rparr>)))
          | Some sh \<Rightarrow> sync_shipment_ready_state e sh
              (snd (set_carton_status e k Ct_Draft user ''stock_unpack''
                   (\<lambda>c. c\<lparr>c_shipment := None\<rparr>)
                   (s1\<lparr>db_carton_items := rows_where (\<lambda>_ i. it_carton i \<noteq> k) (db_carton_items s1)\<rparr>)))) = Inr s'"
    by (rule unpack_carton_Inr)
  define s2 where "s2 = s1\<lparr>db_carton_items := rows_where (\<lambda>_ i. it_carton i \<noteq> k) (db_carton_items s1)\<rparr>"
  define s3 where "s3 = snd (set_carton_status e k Ct_Draft user ''stock_unpack''
                   (\<lambda>c. c\<lparr>c_shipment := None\<rparr>) s2)"
  note last' = last [folded s2_def, folded s3_def]
  have pos: "\<forall>(i, it) \<in> set (carton_items_of k s). 0 \<le> it_quantity it"
    using stock_okD(2) [OF ok] by (auto simp: carton_items_of_def rows_where_def items_ok_def)
  note ret = return_items_spec [OF loop stock_okD(1) [OF ok] pos]
  then have items1: "db_carton_items s1 = db_carton_items s" and cart1: "db_cartons s1 = db_cartons s"
    by auto
  have "same_stock s2 s3" by (simp add: s3_def set_carton_status_stock)
  moreover have "same_stock s3 s'" using last' by (auto intro: sync_stock split: option.splits)
  ultimately have same: "same_stock s2 s'" by (rule same_stock_trans)
  have "items_ok s2"
    using stock_okD(2) [OF ok]
    by (auto simp: items_ok_def s2_def items1 rows_where_def keys_ok_def distinct_map_filter)
  moreover have "books_ok s2 = books_ok s1" by (rule books_ok_cong) (simp_all add: s2_def)
  ultimately show "stock_ok s'" using same ret stock_ok_cong [OF same] by (simp add: stock_ok_def)
  have "on_hand j s2 = on_hand j s1" by (rule on_hand_cong) (simp add: s2_def)
  then show hand: "on_hand j s' = on_hand j s + returned_units j (carton_items_of k s)"
    using ret units_of_cong [OF same] by simp
  have "in_cartons j s' + returned_units j (carton_items_of k s) = in_cartons j s"
    using units_of_cong [OF same] packed_units_delete [of j k "db_carton_items s"]
    by (simp add: in_cartons_def s2_def items1 carton_items_of_def)
  with hand show "on_hand j s' + in_cartons j s' = on_hand j s + in_cartons j s" by simp
  have items': "db_carton_items s' = rows_where (\<lambda>_ i. it_carton i \<noteq> k) (db_carton_items s)"
    using same by (simp add: same_stock_def s2_def items1)
  show "carton_items_of k s' = []"
    by (auto simp: carton_items_of_def items' rows_where_def filter_empty_conv)
  show "i \<noteq> k \<Longrightarrow> carton_items_of i s' = carton_items_of i s"
    by (auto simp: carton_items_of_def items' rows_where_def intro!: filter_cong)
  have "db_cartons s' = db_cartons s3" using last' by (auto intro: sync_cartons split: option.splits)
  then show "row_get (db_cartons s) k = Some c \<Longrightarrow> c_status c \<noteq> Ct_Draft \<Longrightarrow>
      row_get (db_cartons s') k = Some (c\<lparr>c_shipment := None, c_status := Ct_Draft\<rparr>)"
    using set_carton_status_row [of s2 k c Ct_Draft e user "''stock_unpack''" "\<lambda>c. c\<lparr>c_shipment := None\<rparr>" k]
    by (simp add: s3_def s2_def cart1)
qed

section \<open>Checking the books of a concrete state\<close>

definition books_check :: "db \<Rightarrow> bool" where
  "books_check s \<longleftrightarrow> distinct (map fst (db_lots s))
     \<and> list_all (\<lambda>(k, l). lot_ok l \<and> quantity_on_hand l = journal k s) (db_lots s)
     \<and> list_all (\<lambda>(_, m). mv_lot m \<in> fst ` set (db_lots s)) (db_movements s)"

lemma books_check: "books_check s \<Longrightarrow> books_ok s"
proof -
  assume check: "books_check s"
  have lots: "row_get (db_lots s) k = Some l \<Longrightarrow> lot_ok l \<and> quantity_on_hand l = journal k s" for k l
    using check row_get_mem [of "db_lots s" k l] by (auto simp: books_check_def list_all_iff)
  have "journal k s = 0" if "row_get (db_lots s) k = None" for k
  proof -
    have "k \<notin> fst ` set (db_lots s)" using that by (simp add: row_get_def map_of_eq_None_iff)
    then have "\<forall>(i, m) \<in> set (db_movements s). mv_lot m \<noteq> k"
      using check by (fastforce simp: books_check_def list_all_iff)
    then have "row_sum (\<lambda>m. if mv_lot m = k then signed_quantity m else 0) t = 0"
      if "set t \<subseteq> set (db_movements s)" for t
      using that by (induction t) auto
    then show ?thesis by (simp add: journal_def)
  qed
  then have "on_hand k s = journal k s" for k
    using lots by (auto simp: on_hand_def split: option.splits)
  moreover have "lots_ok s" using check lots by (auto simp: lots_ok_def keys_ok_def books_check_def)
  ultimately show ?thesis by (simp add: books_ok_def)
qed

definition items_check :: "db \<Rightarrow> bool" where
  "items_check s \<longleftrightarrow> distinct (map fst (db_carton_items s))
     \<and> list_all (\<lambda>(_, i). 0 \<le> it_quantity i) (db_carton_items s)"

lemma items_check: "items_check s \<Longrightarrow> items_ok s"
  by (auto simp: items_check_def items_ok_def keys_ok_def list_all_iff)

end
