(* ===== verification/Samples.thy ===== *)
theory Samples
  imports Data_Model
begin

text \<open>
  A small warehouse on which the theorems are exercised: two base products and a kit, lots with and
  without an expiry date, a shipment in preparation, a carton format, and an environment with a
  fixed clock and calendar.
\<close>

definition sample_env :: env where
  "sample_env = \<lparr>e_now = 1000, e_localdate = (\<lambda>_. Date 2026 3 1), e_ascii_fold = (\<lambda>s. s)\<rparr>"

definition sample_product :: "string \<Rightarrow> product" where
  "sample_product name = \<lparr>p_sku = name, p_name = name, p_brand = [], p_color = [],
     p_category = Some 1, p_barcode = [], p_ean = [], p_pu_ht = None, p_tva = None, p_pu_ttc = None,
     p_default_location = Some 1, p_length_cm = None, p_width_cm = None, p_height_cm = None,
     p_weight_g = Some 100, p_volume_cm3 = None, p_storage_conditions = [], p_perishable = False,
     p_quarantine_default = False, p_is_active = True, p_notes = []\<rparr>"

definition sample_lot :: "nat \<Rightarrow> date option \<Rightarrow> int \<Rightarrow> int \<Rightarrow> lot" where
  "sample_lot product expires quantity reserved = \<lparr>l_product = product, l_lot_code = [],
     l_expires_on = expires, l_received_on = Some (Date 2026 1 1), l_status = Lot_Available,
     quantity_on_hand = quantity, quantity_reserved = reserved, l_location = 1,
     l_source_receipt = None, l_storage_conditions = [], l_quarantine_reason = [],
     l_released_by = None, l_released_at = None\<rparr>"

definition sample_receipt :: "nat \<Rightarrow> nat \<Rightarrow> int \<Rightarrow> movement" where
  "sample_receipt product lot quantity = \<lparr>mv_type = Mv_In, mv_product = product, mv_lot = lot,
     mv_quantity = quantity, mv_from_location = None, mv_to_location = Some 1,
     mv_reason_code = ''receive'', mv_reason_notes = [], mv_related_carton = None,
     mv_related_shipment = None, mv_created_by = None, mv_created_at = 0\<rparr>"

definition sample_shipment :: "string \<Rightarrow> shipment_status \<Rightarrow> shipment" where
  "sample_shipment reference st = \<lparr>s_reference = reference, s_tracking_token = 7, s_status = st,
     s_shipper_name = ''A'', s_shipper_contact_ref = None, s_shipper_contact = [],
     s_recipient_name = ''B'', s_recipient_contact_ref = None, s_recipient_contact = [],
     s_correspondent_name = ''C'', s_correspondent_contact_ref = None, s_destination = Some 1,
     s_destination_address = [], s_destination_country = ''France'',
     s_requested_delivery_date = None, s_is_disputed = False, s_disputed_at = None,
     s_created_at = 0, s_ready_at = None, s_archived_at = None, s_closed_at = None,
     s_closed_by = None, s_created_by = None, s_notes = []\<rparr>"

definition sample_carton :: "string \<Rightarrow> carton_status \<Rightarrow> nat option \<Rightarrow> carton" where
  "sample_carton code st shipment = \<lparr>c_code = code, c_status = st, c_length_cm = None,
     c_width_cm = None, c_height_cm = None, c_current_location = None, c_shipment = shipment,
     c_preassigned_destination = None, c_prepared_by = None, c_created_at = 0, c_notes = []\<rparr>"

definition sample_db :: db where
  "sample_db = \<lparr>db_categories = [(1, \<lparr>cat_name = ''MM'', cat_parent = None\<rparr>)],
     db_products = [(1, sample_product ''P1''), (2, sample_product ''P2''), (3, sample_product ''KIT'')],
     db_kit_items = [(1, \<lparr>ki_kit = 3, ki_component = 1, ki_quantity = 2\<rparr>),
                     (2, \<lparr>ki_kit = 3, ki_component = 2, ki_quantity = 1\<rparr>)],
     db_locations = [(1, \<lparr>loc_warehouse = 1, loc_zone = ''A'', loc_aisle = ''1'', loc_shelf = ''1'',
                          loc_notes = []\<rparr>)],
     db_lots = [(1, sample_lot 1 None 5 0), (2, sample_lot 1 (Some (Date 2027 1 1)) 4 0),
                (3, sample_lot 2 None 6 1)],
     db_receipts = [], db_receipt_lines = [],
     db_movements = [(1, sample_receipt 1 1 5), (2, sample_receipt 1 2 4), (3, sample_receipt 2 3 6)],
     db_carton_formats = [(1, \<lparr>cf_name = ''S'', cf_length_cm = 40, cf_width_cm = 30,
       cf_height_cm = 30, cf_max_weight_g = 8000, cf_is_default = True\<rparr>)],
     db_carton_sequences = [], db_receipt_sequences = [], db_donor_sequences = [],
     db_shipment_sequences = [], db_contacts = [], db_destinations = [], db_cartons = [],
     db_carton_items = [], db_carton_events = [],
     db_shipments = [(1, sample_shipment ''260001'' Ship_Draft)],
     db_tracking = [], db_orders = [], db_order_lines = [], db_reservations = []\<rparr>"

end
