(* ===== verification/Warehouse.thy ===== *)
theory Warehouse
  imports Packing Samples
begin

text \<open>
  The stock operations together: one command per operation, the interpretation of the contract
  \<open>keeps_books\<close> on all of them, and the properties of the stock.
\<close>

datatype stock_command =
    Receive nat int nat string "date option" "date option" "lot_status option" string "nat option"
  | Receive_Line nat
  | Adjust nat int string string
  | Transfer nat nat
  | Pack nat int "carton_object option" string "nat option" "nat option" "date option" "nat option"
      "size option" bool
  | Unpack nat
  | Stock_Out nat int "nat option" string string

text \<open>
  The stock-out page and the stock-out endpoint of the API: units that leave for no order, oldest
  first, with the page's reason when none is given.
\<close>

definition stock_out :: "env \<Rightarrow> nat option \<Rightarrow> nat \<Rightarrow> int \<Rightarrow> nat option \<Rightarrow> string \<Rightarrow> string \<Rightarrow> db \<Rightarrow> err + db" where
  "stock_out e u p q shipment code notes s =
     res_bind (consume_stock e u p q Mv_Out shipment None (if code = [] then ''scan_out'' else code) notes s)
       (\<lambda>(_, t). Inr t)"

text \<open>The views load the lot and hand the fresh object to the operation.\<close>

fun run_command :: "env \<Rightarrow> nat option \<Rightarrow> stock_command \<Rightarrow> db \<Rightarrow> err + db" where
  "run_command e u (Receive p q loc code received expires st cond src) s =
     res_bind (receive_stock e u p q loc code received expires st cond src s) (\<lambda>(_, t). Inr t)"
| "run_command e u (Receive_Line k) s = res_bind (receive_receipt_line e u k s) (\<lambda>(_, t). Inr t)"
| "run_command e u (Adjust k delta code notes) s =
     res_bind (require (row_get (db_lots s) k) Does_Not_Exist) (\<lambda>l. adjust_stock e u (k, l) delta code notes s)"
| "run_command e u (Transfer k loc) s =
     res_bind (require (row_get (db_lots s) k) Does_Not_Exist) (\<lambda>l. transfer_stock e u (k, l) loc s)"
| "run_command e u (Pack p q c code sh pre d loc sz skip) s =
     res_bind (pack_carton e u p q c code sh pre d loc sz skip s) (\<lambda>(_, t). Inr t)"
| "run_command e u (Unpack k) s = unpack_carton e u k s"
| "run_command e u (Stock_Out p q sh code notes) s = stock_out e u p q sh code notes s"

section \<open>Every command keeps the books\<close>

lemma receive_stock_items:
  "receive_stock e u p q loc code received expires st cond src s = Inr (k, s') \<Longrightarrow>
     db_carton_items s' = db_carton_items s"
  by (erule receive_stock_Inr) simp

lemma receive_stock_keeps:
  "receive_stock e u p q loc code received expires st cond src s = Inr (k, s') \<Longrightarrow> stock_ok s \<Longrightarrow> stock_ok s'"
  using receive_stock_books receive_stock_items by (simp add: stock_ok_def items_ok_def)

lemma receive_receipt_line_Inr:
  assumes "receive_receipt_line e user k s = Inr (lot, s')"
  obtains line receipt product loc s1
  where "row_get (db_receipt_lines s) k = Some line" and "rl_received_lot line = None"
    and "row_get (db_receipts s) (rl_receipt line) = Some receipt" and "rc_status receipt \<noteq> Rc_Cancelled"
    and "row_get (db_products s) (rl_product line) = Some product"
    and "(case rl_location line of None \<Rightarrow> p_default_location product | Some loc \<Rightarrow> Some loc) = Some loc"
    and "receive_stock e user (rl_product line) (rl_quantity line) loc (rl_lot_code line)
           (Some (rc_received_on receipt)) (rl_expires_on line) (rl_lot_status line)
           (if rl_storage_conditions line = [] then p_storage_conditions product
            else rl_storage_conditions line) (Some (rl_receipt line)) s = Inr (lot, s1)"
    and "s' = mark_line_received e user k (rl_receipt line) receipt lot s1"
  using assms unfolding receive_receipt_line_def
  by (simp only: res_bind_Inr require_Inr raise_if_Inr split_paired_Ex prod.case Inr_inject prod.inject)
    blast

lemma mark_line_received_stock: "same_stock s (mark_line_received e u k r rc lot s)"
  by (simp add: mark_line_received_def Let_def same_stock_def)

lemma receive_receipt_line_keeps:
  assumes "receive_receipt_line e u k s = Inr (lot, s')" and "stock_ok s"
  shows "stock_ok s'"
  using assms(1)
proof (rule receive_receipt_line_Inr)
  fix line :: receipt_line and receipt :: receipt and product :: product and loc s1
  assume "receive_stock e u (rl_product line) (rl_quantity line) loc (rl_lot_code line)
           (Some (rc_received_on receipt)) (rl_expires_on line) (rl_lot_status line)
           (if rl_storage_conditions line = [] then p_storage_conditions product
            else rl_storage_conditions line) (Some (rl_receipt line)) s = Inr (lot, s1)"
  then have "stock_ok s1" using assms(2) by (rule receive_stock_keeps)
  moreover assume "s' = mark_line_received e u k (rl_receipt line) receipt lot s1"
  then have "same_stock s1 s'" by (simp add: mark_line_received_stock)
  ultimately show ?thesis by (simp add: stock_ok_cong)
qed

lemma adjust_stock_keeps:
  assumes "adjust_stock e u (k, l) delta code notes s = Inr s'"
    and "row_get (db_lots s) k = Some l" and "stock_ok s"
  shows "stock_ok s'"
proof -
  have "db_carton_items s' = db_carton_items s" using assms(1) by (rule adjust_stock_Inr) simp
  then show ?thesis
    using adjust_stock_books [OF assms(1,2)] assms(3) by (simp add: stock_ok_def items_ok_def)
qed

lemma transfer_stock_keeps:
  assumes "transfer_stock e u (k, l) loc s = Inr s'"
    and "row_get (db_lots s) k = Some l" and "stock_ok s"
  shows "stock_ok s'"
proof -
  have "db_carton_items s' = db_carton_items s" using assms(1) by (auto simp: transfer_stock_def wms_ok)
  then show ?thesis
    using transfer_stock_books [OF assms(1,2)] assms(3) by (simp add: stock_ok_def items_ok_def)
qed

lemma stock_out_keeps:
  assumes "stock_out e u p q sh code notes s = Inr s'" and "stock_ok s"
  shows "stock_ok s'"
proof -
  obtain parts where run: "consume_stock e u p q Mv_Out sh None (if code = [] then ''scan_out'' else code)
      notes s = Inr (parts, s')"
    using assms(1) by (auto simp: stock_out_def res_bind_Inr)
  have "outgoing Mv_Out" by (simp add: outgoing_def)
  from consume_stock_books [OF run this] have "books_ok s'" using assms(2) by (simp add: stock_ok_def)
  moreover have "db_carton_items s' = db_carton_items s"
    using consume_mk_carton_items [OF run] stock_okD(3) [OF assms(2)] by simp
  ultimately show ?thesis using assms(2) by (simp add: stock_ok_def items_ok_def)
qed

lemma run_command_keeps: "run_command e u cmd s = Inr s' \<Longrightarrow> stock_ok s \<Longrightarrow> stock_ok s'"
  by (cases cmd) (auto simp: wms_ok intro: receive_stock_keeps receive_receipt_line_keeps
      adjust_stock_keeps transfer_stock_keeps stock_out_keeps pack_carton_spec(1) unpack_carton_spec(1))

interpretation stock: keeps_books "run_command e u" items_ok for e u
  by unfold_locales (use run_command_keeps stock_ok_def in blast)+

lemma stock_ok_sample: "stock_ok sample_db"
proof -
  have "books_check sample_db" and "items_check sample_db" by code_simp+
  then show ?thesis by (simp add: stock_ok_def books_check items_check)
qed

section \<open>First expired, first out\<close>

lemma fefo_lots_iff:
  "keys_ok (db_lots s) \<Longrightarrow> (k, l) \<in> set (fefo_lots product s) \<longleftrightarrow>
     row_get (db_lots s) k = Some l \<and> l_product l = product \<and> l_status l = Lot_Available \<and> 0 < lot_available l"
  by (auto simp: fefo_lots_def rows_where_mem row_get_iff)

lemma sorted_before:
  assumes "sorted (map f xs)" and "a \<in> set xs" and "b \<in> set xs" and "f a < f b"
  obtains ys zs where "xs = ys @ b # zs" and "a \<in> set ys"
proof -
  from assms(3) obtain ys zs where xs: "xs = ys @ b # zs" by (meson split_list)
  have "a \<notin> set (b # zs)"
    using assms(1,4) by (auto simp: xs sorted_append)
  with assms(2) xs that show ?thesis by auto
qed

lemma consume_stock_fefo:
  assumes keys: "keys_ok (db_lots s)"
    and run: "consume_stock e user product q mt sh ct code notes s = Inr (parts, s')"
    and a: "row_get (db_lots s) a = Some la" "l_product la = product" "l_status la = Lot_Available"
      "0 < lot_available la"
    and b: "row_get (db_lots s) b = Some lb"
    and order: "fefo_key (a, la) < fefo_key (b, lb)"
    and used: "0 < allocated b parts"
  shows "allocated a parts = lot_available la"
proof -
  note parts = consume_stock_Inr(3) [OF keys run]
  have "b \<in> fst ` set parts" using used allocated_absent by fastforce
  then obtain t where "(b, t) \<in> set (allocate q (fefo_offers product s))" using parts by auto
  then obtain x where "(b, x) \<in> set (fefo_offers product s)" using allocate_bounds by blast
  then obtain l where l: "(b, l) \<in> set (fefo_lots product s)" by auto
  with b have "l = lb" by (simp add: fefo_lots_iff [OF keys])
  with l have bl: "(b, lb) \<in> set (fefo_lots product s)" by simp
  have al: "(a, la) \<in> set (fefo_lots product s)" using a by (simp add: fefo_lots_iff [OF keys])
  obtain ys zs where split: "fefo_lots product s = ys @ (b, lb) # zs" and ys: "(a, la) \<in> set ys"
    using sorted_before [OF fefo_lots_sorted al bl order] by blast
  let ?f = "\<lambda>(k, l). (k, lot_available l)"
  have offers: "fefo_offers product s = map ?f ys @ (b, lot_available lb) # map ?f zs"
    by (simp add: split)
  have "allocated a (allocate q (map ?f ys @ (b, lot_available lb) # map ?f zs)) = lot_available la"
  proof (rule allocate_greedy)
    show "0 < allocated b (allocate q (map ?f ys @ (b, lot_available lb) # map ?f zs))"
      using used parts by (simp add: offers)
    show "distinct (map fst (map ?f ys @ (b, lot_available lb) # map ?f zs))"
      using fefo_offers_distinct [OF keys, of product] unfolding offers .
    show "(a, lot_available la) \<in> set (map ?f ys)" using ys by force
  qed (rule a(4))
  then show ?thesis by (simp add: parts offers)
qed

section \<open>Packing leaves the other cartons alone\<close>

lemma pack_component_elsewhere:
  assumes "pack_component e user mt shipment k d r s = Inr s'" and "stock_ok s"
    and "\<And>j. \<not> P k j"
  shows "packed_units P s' = packed_units P s"
proof -
  obtain c q where r: "r = (c, q)" by (cases r)
  note ok = stock_okD [OF assms(2)]
  obtain parts s1 where run: "consume_stock e user c q mt shipment (Some k) [] [] s = Inr (parts, s1)"
    and s': "s' = fold (add_to_carton d k) parts s1"
    using assms(1) unfolding r by (rule pack_component_Inr)
  have items: "db_carton_items s1 = db_carton_items s"
    using consume_mk_carton_items [OF run ok(3)] by simp
  with ok(4) have "keys_ok (db_carton_items s1)" by simp
  from add_all_to_carton(2) [OF this, of P d k parts] assms(3) show ?thesis
    by (simp add: s' parts_sum_none packed_units_cong [OF items])
qed

lemma pack_carton_elsewhere:
  assumes run: "pack_carton e user product q carton code shipment pre d location sz skip s = Inr (obj, s')"
    and ok: "stock_ok s" and P: "\<And>j. \<not> P (fst obj) j"
  shows "packed_units P s' = packed_units P s"
proof -
  from run obtain k m s1 reqs s2
    where p1: "prepare_carton e user carton shipment pre location code sz s = Inr ((k, m), s1)"
      and p3: "for_each (pack_component e user (if shipment \<noteq> None then Mv_Out else Mv_Precondition)
           shipment k d) reqs s1 = Inr s2"
      and p4: "finish_packing e user (k, m) shipment skip ''stock_pack_assign''
           ''stock_pack_start_picking'' s2 = Inr (obj, s')"
    by (rule pack_carton_Inr)
  have obj: "fst obj = k" using p4 by (auto simp: finish_packing_def wms_ok Let_def)
  have out: "outgoing (if shipment \<noteq> None then Mv_Out else Mv_Precondition)" by (simp add: outgoing_def)
  have ok1: "stock_ok s1" using ok prepare_carton_stock [OF p1] by (simp add: stock_ok_cong)
  have "stock_ok s2 \<and> packed_units P s2 = packed_units P s1"
  proof (rule for_each_inv [OF p3])
    show "stock_ok s1 \<and> packed_units P s1 = packed_units P s1" using ok1 by simp
    fix r t t'
    assume step: "pack_component e user (if shipment \<noteq> None then Mv_Out else Mv_Precondition) shipment k d r t = Inr t'"
      and t: "stock_ok t \<and> packed_units P t = packed_units P s1"
    obtain c n where r: "r = (c, n)" by (cases r)
    have "stock_ok t'" using pack_component_spec(1) [OF step [unfolded r] _ out] t by simp
    moreover have "packed_units P t' = packed_units P t"
      using pack_component_elsewhere [OF step] t P unfolding obj by simp
    ultimately show "stock_ok t' \<and> packed_units P t' = packed_units P s1" using t by simp
  qed
  moreover obtain c where "row_get (db_cartons s1) k = Some c" using prepare_carton_row(1) [OF p1] by blast
  moreover have "db_cartons s2 = db_cartons s1" using pack_components_spec [OF p3 ok1 out] by auto
  ultimately have "same_stock s2 s'" using finish_packing_spec(2) [OF p4] by simp
  moreover have "same_stock s s1" by (rule prepare_carton_stock [OF p1])
  ultimately show ?thesis
    using \<open>stock_ok s2 \<and> packed_units P s2 = packed_units P s1\<close>
    by (simp add: packed_units_def same_stock_def)
qed

lemma unpack_carton_elsewhere:
  assumes run: "unpack_carton e user k s = Inr s'" and ok: "stock_ok s"
  shows "in_cartons j s' = packed_units (\<lambda>c l. c \<noteq> k \<and> l = j) s"
proof -
  have "in_cartons j s' + on_hand j s' = in_cartons j s + on_hand j s"
    using unpack_carton_spec(3) [OF run ok, of j] by simp
  then have "in_cartons j s' = in_cartons j s - returned_units j (carton_items_of k s)"
    using unpack_carton_spec(2) [OF run ok, of j] by simp
  moreover have "packed_units (\<lambda>c l. c \<noteq> k \<and> l = j) s + returned_units j (carton_items_of k s) = in_cartons j s"
  proof -
    have "row_sum (\<lambda>i. if it_carton i \<noteq> k \<and> it_lot i = j then it_quantity i else 0) t
        + returned_units j (rows_where (\<lambda>_ i. it_carton i = k) t)
      = row_sum (\<lambda>i. if it_lot i = j then it_quantity i else 0) t" for t
      by (induction t) (auto simp: returned_units_def rows_where_def)
    then show ?thesis by (simp add: packed_units_def in_cartons_def carton_items_of_def)
  qed
  ultimately show ?thesis by simp
qed

text \<open>Packing a new carton and unpacking it gives every unit back.\<close>

lemma pack_unpack_restores:
  assumes pack: "pack_carton e u product q carton code sh pre d loc sz skip s = Inr (obj, s1)"
    and unpack: "unpack_carton e u' (fst obj) s1 = Inr s2"
    and ok: "stock_ok s" and fresh: "carton_items_of (fst obj) s = []"
  shows "on_hand j s2 = on_hand j s" and "in_cartons j s2 = in_cartons j s"
    and "carton_items_of (fst obj) s2 = []"
proof -
  note p = pack_carton_spec [OF pack ok]
  note up = unpack_carton_spec [OF unpack p(1)]
  have "in_cartons j s2 = packed_units (\<lambda>c l. c \<noteq> fst obj \<and> l = j) s"
    using unpack_carton_elsewhere [OF unpack p(1)]
      pack_carton_elsewhere [OF pack ok, of "\<lambda>c l. c \<noteq> fst obj \<and> l = j"] by simp
  also have "\<dots> = in_cartons j s"
  proof -
    have none: "\<forall>(i, it) \<in> set (db_carton_items s). it_carton it \<noteq> fst obj"
      using fresh by (auto simp: carton_items_of_def rows_where_def filter_empty_conv)
    have "row_sum (\<lambda>i. if it_carton i \<noteq> fst obj \<and> it_lot i = j then it_quantity i else 0) t
        = row_sum (\<lambda>i. if it_lot i = j then it_quantity i else 0) t"
      if "set t \<subseteq> set (db_carton_items s)" for t
      using that none by (induction t) auto
    then show ?thesis by (simp add: packed_units_def in_cartons_def)
  qed
  finally show cartons: "in_cartons j s2 = in_cartons j s" .
  then show "on_hand j s2 = on_hand j s" using up(3) [of j] p(2) [of j] by simp
  show "carton_items_of (fst obj) s2 = []" by (rule up(4))
qed

section \<open>Properties of the stock\<close>

definition run_history :: "env \<Rightarrow> nat option \<Rightarrow> stock_command list \<Rightarrow> db \<Rightarrow> db" where
  "run_history e u cmds s = fold (\<lambda>c t. ok_or t (run_command e u c t)) cmds s"

lemma run_history_attempts: "run_history e u cmds s = fold (stock.attempt e u) cmds s"
proof -
  have "(\<lambda>c t. ok_or t (run_command e u c t)) = stock.attempt e u"
    by (intro ext) (simp add: stock.attempt_def)
  then show ?thesis by (simp add: run_history_def)
qed

text \<open>
  C1: After any history of stock operations (receipts, receipt lines, adjustments, transfers,
  packings, unpackings and stock-outs, those that raise being rolled back), from books that balance:
  no lot is overdrawn, what it has reserved is between nothing and what it holds, and it holds
  exactly what the movement journal adds up to.
\<close>
theorem stock_books_balanced:
  assumes "stock_ok s"
  shows "0 \<le> reserved k (run_history e u cmds s)
    \<and> reserved k (run_history e u cmds s) \<le> on_hand k (run_history e u cmds s)
    \<and> on_hand k (run_history e u cmds s) = journal k (run_history e u cmds s)"
  using stock.history_no_overdraft [of s] assms by (simp add: run_history_attempts stock_ok_def)

definition sample_history :: "stock_command list" where
  "sample_history = [Pack 3 2 None [] (Some 1) None None None None False, Adjust 3 (-4) [] [],
     Unpack 1, Adjust 2 (-1) [] [], Transfer 2 5, Stock_Out 1 2 None [] [],
     Pack 1 100 None [] None None None None None False]"

theorem stock_books_balanced_witness:
  "on_hand 2 (run_history sample_env None sample_history sample_db) = 1
   \<and> journal 2 (run_history sample_env None sample_history sample_db) = 1"
proof -
  have "on_hand 2 (run_history sample_env None sample_history sample_db) = 1" by code_simp
  with stock_books_balanced [OF stock_ok_sample, of 2 sample_env None sample_history]
  show ?thesis by simp
qed

text \<open>
  C5: \<open>consume_stock\<close> computes the greedy allocation over the lots in FEFO order: it raises on a
  non-positive quantity and, with the amount available, when the lots hold too little; otherwise it
  takes \<open>allocate quantity\<close> of what the lots offer and issues exactly those parts.
\<close>
theorem consume_stock_refines_allocation:
  assumes "keys_ok (db_lots s)"
  shows "consume_stock e user product q mt shipment carton code notes s =
    (if q \<le> 0 then Inl (Stock_Error Quantite_Invalide)
     else if available_total (fefo_lots product s) < q
     then Inl (Stock_Error (Stock_Insuffisant (available_total (fefo_lots product s))))
     else let parts = allocate q (map (\<lambda>(k, l). (k, lot_available l)) (fefo_lots product s))
       in Inr (parts, fold (issue (consume_mk e user product mt shipment carton code notes)) parts s))"
  using consume_stock_allocates [OF assms] by (simp add: Let_def)

theorem consume_stock_refines_allocation_witness:
  "map_sum id fst (consume_stock sample_env None 1 6 Mv_Out None None [] [] sample_db) = Inr [(2, 4), (1, 2)]"
proof -
  have "keys_ok (db_lots sample_db)" by code_simp
  note refine = consume_stock_refines_allocation [OF this, of sample_env None 1 6 Mv_Out None None "[]" "[]"]
  have "\<not> available_total (fefo_lots 1 sample_db) < 6" by code_simp
  moreover have "allocate 6 (map (\<lambda>(k, l). (k, lot_available l)) (fefo_lots 1 sample_db)) = [(2, 4), (1, 2)]"
    by code_simp
  ultimately show ?thesis unfolding refine Let_def by simp
qed

text \<open>
  C6: Stock leaves first-expired-first-out: when a consumption takes from a lot, every lot of the
  product that stands before it in the FEFO order (earlier expiry date, lots without a date last,
  then by date of reception and key) and had stock available has none left.
\<close>
theorem consume_stock_first_expired_first:
  assumes "keys_ok (db_lots s)"
    and "consume_stock e user product q mt shipment carton code notes s = Inr (parts, s')"
    and "row_get (db_lots s) a = Some la" and "l_product la = product" and "l_status la = Lot_Available"
    and "reserved a s \<le> on_hand a s"
    and "row_get (db_lots s) b = Some lb" and "fefo_key (a, la) < fefo_key (b, lb)"
    and "on_hand b s' < on_hand b s"
  shows "on_hand a s' = reserved a s"
proof (cases "0 < lot_available la")
  case True
  note lots = consume_stock_lots [OF assms(1,2)]
  have "0 < allocated b parts" using lots [of b] assms(7,9) by (simp add: on_hand_def)
  from consume_stock_fefo [OF assms(1-5) True assms(7,8) this] lots [of a] assms(3)
  show ?thesis by (simp add: on_hand_def reserved_def lot_available_def)
next
  case False
  have "a \<notin> fst ` set parts"
    using consume_stock_parts [OF assms(1,2)] False assms(3) by force
  then show ?thesis
    using False consume_stock_lots [OF assms(1,2), of a] assms(3,6)
    by (simp add: allocated_absent on_hand_def reserved_def lot_available_def)
qed

theorem consume_stock_first_expired_first_witness:
  "\<exists>parts s'. consume_stock sample_env None 1 6 Mv_Out None None [] [] sample_db = Inr (parts, s')
     \<and> on_hand 2 s' = 0 \<and> on_hand 1 s' = 3"
proof -
  let ?run = "consume_stock sample_env None 1 6 Mv_Out None None [] [] sample_db"
  have ok: "is_ok ?run" by code_simp
  obtain parts s' where run: "?run = Inr (parts, s')" using ok by (auto simp: is_ok_iff)
  have keys: "keys_ok (db_lots sample_db)" by code_simp
  have "on_hand 1 (snd (ok_or ([], sample_db) ?run)) = 3" by code_simp
  then have one: "on_hand 1 s' = 3" by (simp only: run ok_or_Inr snd_conv)
  have a: "row_get (db_lots sample_db) 2 = Some (sample_lot 1 (Some (Date 2027 1 1)) 4 0)"
    and b: "row_get (db_lots sample_db) 1 = Some (sample_lot 1 None 5 0)"
    by (simp_all add: sample_db_def row_get_def)
  have "fefo_key (2, sample_lot 1 (Some (Date 2027 1 1)) 4 0) < fefo_key (1, sample_lot 1 None 5 0)"
    by code_simp
  moreover have "on_hand 1 s' < on_hand 1 sample_db" using one b by (simp add: on_hand_def sample_lot_def)
  moreover have "reserved 2 sample_db \<le> on_hand 2 sample_db" by code_simp
  ultimately have "on_hand 2 s' = reserved 2 sample_db"
    using consume_stock_first_expired_first [OF keys run a _ _ _ b] by (simp add: sample_lot_def)
  moreover have "reserved 2 sample_db = 0" by code_simp
  ultimately show ?thesis using run one by auto
qed

text \<open>
  A successful \<open>consume_stock\<close> takes exactly the quantity asked for, from each lot at most
  what is not reserved; every lot keeps its other fields and loses what was taken from it.
\<close>
theorem consume_stock_exact:
  assumes "books_ok s"
    and "consume_stock e user product q mt shipment carton code notes s = Inr (parts, s')"
  shows "sum_list (map snd parts) = q
    \<and> (\<forall>k. row_get (db_lots s') k = map_option
         (\<lambda>r. r\<lparr>quantity_on_hand := quantity_on_hand r - allocated k parts\<rparr>) (row_get (db_lots s) k))
    \<and> (\<forall>k. reserved k s' \<le> on_hand k s')"
proof -
  have keys: "keys_ok (db_lots s)" using assms(1) by (simp add: books_ok_def lots_ok_def)
  have lots: "row_get (db_lots s') k = map_option
         (\<lambda>r. r\<lparr>quantity_on_hand := quantity_on_hand r - allocated k parts\<rparr>) (row_get (db_lots s) k)" for k
    by (rule consume_stock_lots [OF keys assms(2)])
  have "reserved k s' \<le> on_hand k s'" for k
  proof (cases "k \<in> fst ` set parts")
    case True
    then obtain t where t: "(k, t) \<in> set parts" by auto
    have "distinct (map fst parts)"
      unfolding consume_stock_Inr(3) [OF keys assms(2)]
      by (rule allocate_distinct [OF fefo_offers_distinct [OF keys]])
    with t have "allocated k parts = t" by (rule allocated_member)
    with lots [of k] consume_stock_parts [OF keys assms(2) t] show ?thesis
      by (auto simp: on_hand_def reserved_def lot_available_def)
  next
    case False
    then have "allocated k parts = 0" by (rule allocated_absent)
    then show ?thesis
      using lots [of k] books_ok_no_overdraft(2) [OF assms(1), of k]
      by (simp add: on_hand_def reserved_def split: option.splits)
  qed
  then show ?thesis using consume_stock_total [OF keys assms(2)] lots by blast
qed

theorem consume_stock_exact_witness:
  "\<exists>parts s'. consume_stock sample_env None 2 5 Mv_Out None None [] [] sample_db = Inr (parts, s')
     \<and> sum_list (map snd parts) = 5 \<and> on_hand 3 s' = 1"
proof -
  let ?run = "consume_stock sample_env None 2 5 Mv_Out None None [] [] sample_db"
  have ok: "is_ok ?run" by code_simp
  obtain parts s' where run: "?run = Inr (parts, s')" using ok by (auto simp: is_ok_iff)
  have "on_hand 3 (snd (ok_or ([], sample_db) ?run)) = 1" by code_simp
  then show ?thesis
    using run consume_stock_exact [OF stock_okD(1) [OF stock_ok_sample] run] by auto
qed

section \<open>Properties of packing\<close>

text \<open>
  \<open>pack_carton\<close> moves units and loses none: what a lot holds and what is in cartons from it
  stays the same in sum; the carton gains of every base product exactly what the kit composition
  asks for; and a carton packed for a shipment is assigned to that shipment.
\<close>
theorem pack_carton_moves_units:
  assumes "pack_carton e u product q carton code shipment pre d loc sz skip s = Inr (obj, s')"
    and "stock_ok s"
  shows "(\<forall>j. on_hand j s' + in_cartons j s' = on_hand j s + in_cartons j s)
    \<and> (\<exists>reqs. get_component_quantities (kit_rows s) (Some product) q = Inr reqs \<and> reqs \<noteq> []
        \<and> (\<forall>c. units_of (fst obj) c s' = units_of (fst obj) c s + parts_sum (\<lambda>x. x = c) reqs))
    \<and> (\<exists>c. row_get (db_cartons s') (fst obj) = Some c
        \<and> (shipment \<noteq> None \<longrightarrow> c_status c = Ct_Assigned \<and> c_shipment c = shipment))"
  using pack_carton_spec [OF assms] by (auto simp: requirements_of_def)

theorem pack_carton_moves_units_witness:
  "\<exists>obj s'. pack_carton sample_env None 3 2 None [] (Some 1) None None None None False sample_db = Inr (obj, s')
     \<and> on_hand 2 s' = 0 \<and> in_cartons 2 s' = 4 \<and> units_of (fst obj) 1 s' = 4"
proof -
  let ?run = "pack_carton sample_env None 3 2 None [] (Some 1) None None None None False sample_db"
  have ok: "is_ok ?run" by code_simp
  obtain obj s' where run: "?run = Inr (obj, s')" using ok by (auto simp: is_ok_iff)
  have "on_hand 2 (snd (ok_or ((0, False), sample_db) ?run)) = 0"
    and "fst (fst (ok_or ((0, False), sample_db) ?run)) = 1" by code_simp+
  then have 2: "on_hand 2 s' = 0" and obj: "fst obj = 1" by (simp_all only: run ok_or_Inr fst_conv snd_conv)
  note spec = pack_carton_moves_units [OF run stock_ok_sample]
  have "on_hand 2 sample_db + in_cartons 2 sample_db = 4" by code_simp
  with spec 2 have "in_cartons 2 s' = 4" by (metis add_0)
  moreover have "units_of (fst obj) 1 s' = 4"
  proof -
    have "get_component_quantities (kit_rows sample_db) (Some 3) 2 = Inr [(1, 4), (2, 2)]" by code_simp
    with spec have "units_of (fst obj) 1 s' = units_of (fst obj) 1 sample_db + parts_sum (\<lambda>x. x = 1) [(1, 4), (2, 2)]"
      by (metis sum.inject(2))
    moreover have "units_of (fst obj) 1 sample_db = 0" unfolding obj by code_simp
    ultimately show ?thesis by (simp add: parts_sum_def)
  qed
  ultimately show ?thesis using run 2 by blast
qed

text \<open>
  C7: Packing then unpacking is the identity on the stock: a carton that held nothing, packed with
  any product or kit and unpacked again, leaves every lot with what it had, every other carton's
  units unchanged and the carton empty; and the movement journal still adds up to the lots.
\<close>
theorem pack_unpack_roundtrip:
  assumes "pack_carton e u product q carton code sh pre d loc sz skip s = Inr (obj, s1)"
    and "unpack_carton e u' (fst obj) s1 = Inr s2"
    and "stock_ok s" and "carton_items_of (fst obj) s = []"
  shows "on_hand j s2 = on_hand j s \<and> in_cartons j s2 = in_cartons j s
    \<and> carton_items_of (fst obj) s2 = [] \<and> journal j s2 = on_hand j s"
proof -
  note restored = pack_unpack_restores [OF assms]
  have "stock_ok s2"
    by (rule unpack_carton_spec(1) [OF assms(2) pack_carton_spec(1) [OF assms(1,3)]])
  then have "on_hand j s2 = journal j s2" by (simp add: stock_ok_def books_ok_def)
  with restored show ?thesis by auto
qed

theorem pack_unpack_roundtrip_witness:
  "\<exists>obj s1 s2. pack_carton sample_env None 3 2 None [] (Some 1) None None None None False sample_db = Inr (obj, s1)
     \<and> unpack_carton sample_env None (fst obj) s1 = Inr s2
     \<and> on_hand 2 s1 = 0 \<and> on_hand 2 s2 = on_hand 2 sample_db"
proof -
  let ?run = "pack_carton sample_env None 3 2 None [] (Some 1) None None None None False sample_db"
  have ok: "is_ok ?run" by code_simp
  obtain obj s1 where run: "?run = Inr (obj, s1)" using ok by (auto simp: is_ok_iff)
  have "fst (fst (ok_or ((0, False), sample_db) ?run)) = 1"
    and "on_hand 2 (snd (ok_or ((0, False), sample_db) ?run)) = 0"
    and un: "is_ok (unpack_carton sample_env None 1 (snd (ok_or ((0, False), sample_db) ?run)))"
    by code_simp+
  then have obj: "fst obj = 1" and "on_hand 2 s1 = 0" by (simp_all only: run ok_or_Inr fst_conv snd_conv)
  moreover from un have "is_ok (unpack_carton sample_env None (fst obj) s1)"
    by (simp only: run ok_or_Inr snd_conv obj)
  then obtain s2 where s2: "unpack_carton sample_env None (fst obj) s1 = Inr s2" by (auto simp: is_ok_iff)
  moreover have "carton_items_of (fst obj) sample_db = []" unfolding obj by code_simp
  from pack_unpack_roundtrip [OF run s2 stock_ok_sample this, of 2]
  have "on_hand 2 s2 = on_hand 2 sample_db" by simp
  ultimately show ?thesis using run by blast
qed

text \<open>
  A receipt in draft becomes received exactly when its last line is received: after a line of
  it has been received, with a lot of its quantity and the receipt's date in stock, the receipt is
  received if no line of it is left, and a draft as before otherwise.
\<close>
theorem receipt_received_with_last_line:
  assumes "receive_receipt_line e u k s = Inr (lot, s')" and "keys_ok (db_receipts s)"
    and "row_get (db_receipt_lines s) k = Some line"
    and "row_get (db_receipts s) (rl_receipt line) = Some r" and "rc_status r = Rc_Draft"
  shows "(\<exists>l. row_get (db_lots s') lot = Some l \<and> quantity_on_hand l = rl_quantity line
            \<and> l_product l = rl_product line \<and> l_received_on l = Some (rc_received_on r))
    \<and> (\<exists>r'. row_get (db_receipts s') (rl_receipt line) = Some r'
        \<and> (rc_status r' = Rc_Received \<longleftrightarrow>
             (\<forall>(i, l) \<in> set (lines_of_receipt (rl_receipt line) s'). rl_received_lot l \<noteq> None))
        \<and> (rc_status r' = Rc_Received \<or> r' = r))"
  using assms(1)
proof (rule receive_receipt_line_Inr)
  fix line' :: receipt_line and receipt :: receipt and product :: product and loc s1
  assume l: "row_get (db_receipt_lines s) k = Some line'"
    and r: "row_get (db_receipts s) (rl_receipt line') = Some receipt"
    and rec: "receive_stock e u (rl_product line') (rl_quantity line') loc (rl_lot_code line')
           (Some (rc_received_on receipt)) (rl_expires_on line') (rl_lot_status line')
           (if rl_storage_conditions line' = [] then p_storage_conditions product
            else rl_storage_conditions line') (Some (rl_receipt line')) s = Inr (lot, s1)"
    and s': "s' = mark_line_received e u k (rl_receipt line') receipt lot s1"
  have [simp]: "line' = line" "receipt = r" using l r assms(3,4) by auto
  from rec obtain l0 m where "lot = next_pk (db_lots s)"
    and s1: "s1 = create_movement m (s\<lparr>db_lots := row_ins l0 (db_lots s)\<rparr>)"
    and l0: "l_product l0 = rl_product line" "quantity_on_hand l0 = rl_quantity line"
      "l_received_on l0 = Some (rc_received_on r)"
    by (rule receive_stock_Inr) simp
  then have "row_get (db_lots s1) lot = Some l0" and "db_receipts s1 = db_receipts s"
    by (simp_all add: row_get_ins create_movement_def)
  moreover have "db_lots s' = db_lots s1"
    by (simp add: s' mark_line_received_def Let_def)
  moreover have "\<exists>r'. row_get (db_receipts s') (rl_receipt line) = Some r'
        \<and> (rc_status r' = Rc_Received \<longleftrightarrow>
             (\<forall>(i, l) \<in> set (lines_of_receipt (rl_receipt line) s'). rl_received_lot l \<noteq> None))
        \<and> (rc_status r' = Rc_Received \<or> r' = r)"
  proof -
    have lines: "lines_of_receipt x (t\<lparr>db_receipts := y\<rparr>) = lines_of_receipt x t" for x t y
      by (simp add: lines_of_receipt_def)
    show ?thesis
      using assms(4,5) \<open>db_receipts s1 = db_receipts s\<close>
      by (auto simp: s' mark_line_received_def Let_def row_get_upd lines list_ex_iff Bex_def Ball_def)
  qed
  ultimately show ?thesis using l0 by auto
qed

definition sample_receipt_db :: db where
  "sample_receipt_db = sample_db\<lparr>
     db_receipts := [(1, \<lparr>rc_reference = [], rc_type = Rt_Donation, rc_status = Rc_Draft,
       rc_source_contact = None, rc_carrier_contact = None, rc_origin_reference = [],
       rc_carrier_reference = [], rc_pallet_count = None, rc_carton_count = None,
       rc_hors_format_count = None, rc_transport_request_date = None,
       rc_pickup_charge_amount = None, rc_pickup_charge_currency = [],
       rc_pickup_charge_comment = [], rc_received_on = Date 2026 2 2, rc_warehouse = 1,
       rc_created_at = 0, rc_created_by = None, rc_notes = []\<rparr>)],
     db_receipt_lines := [(4, \<lparr>rl_receipt = 1, rl_product = 2, rl_quantity = 9, rl_lot_code = [],
       rl_expires_on = None, rl_lot_status = None, rl_location = None, rl_storage_conditions = [],
       rl_received_lot = None, rl_received_by = None, rl_received_at = None\<rparr>)]\<rparr>"

theorem receipt_received_with_last_line_witness:
  "\<exists>lot s' r'. receive_receipt_line sample_env None 4 sample_receipt_db = Inr (lot, s')
     \<and> row_get (db_receipts s') 1 = Some r' \<and> rc_status r' = Rc_Received"
proof -
  let ?run = "receive_receipt_line sample_env None 4 sample_receipt_db"
  have ok: "is_ok ?run" by code_simp
  obtain lot s' where run: "?run = Inr (lot, s')" using ok by (auto simp: is_ok_iff)
  have "list_all (\<lambda>(i, l). rl_received_lot l \<noteq> None)
      (lines_of_receipt 1 (snd (ok_or (0, sample_db) ?run)))" by code_simp
  then have all: "\<forall>(i, l) \<in> set (lines_of_receipt 1 s'). rl_received_lot l \<noteq> None"
    by (simp only: run ok_or_Inr snd_conv list_all_iff)
  have keys: "keys_ok (db_receipts sample_receipt_db)" by code_simp
  obtain line r where "row_get (db_receipt_lines sample_receipt_db) 4 = Some line"
    and "rl_receipt line = 1"
    and "row_get (db_receipts sample_receipt_db) 1 = Some r" and "rc_status r = Rc_Draft"
    by (simp add: sample_receipt_db_def row_get_def)
  with receipt_received_with_last_line [OF run keys] all show ?thesis using run by metis
qed

end
