(* ===== verification/Reservations.thy ===== *)
theory Reservations
  imports Packing Samples "HOL-Library.Multiset"
begin

text \<open>
  Reserving stock for the lines of an order, releasing and consuming what is reserved, and packing
  from it (\<open>wms/domain/orders.py\<close>). A reservation is loaded together with its lot; two reservations
  of the same lot come with two objects of the lot, each as the row was when the query ran, and each
  is saved with the quantities it had then plus the loop's own change.
\<close>

section \<open>Reserving\<close>

text \<open>\<open>order.lines\<close> in the order of \<open>OrderLine.Meta\<close>, by the name of the product.\<close>

definition lines_of_order :: "nat \<Rightarrow> db \<Rightarrow> (nat \<times> order_line) list" where
  "lines_of_order k s = sort_key (\<lambda>(_, l). product_name s (ol_product l))
     (rows_where (\<lambda>_ l. ol_order l = k) (db_order_lines s))"

definition reserve_lot :: "env \<Rightarrow> nat \<Rightarrow> nat \<times> lot \<Rightarrow> int \<times> db \<Rightarrow> int \<times> db" where
  "reserve_lot e line row acc =
     (let (k, lot) = row; (remaining, s) = acc in
      if remaining \<le> 0 then acc
      else let available = quantity_on_hand lot - quantity_reserved lot in
        if available \<le> 0 then acc
        else let took = min remaining available;
                 s1 = write_lot k (\<lambda>r. r\<lparr>quantity_reserved := quantity_reserved lot + took\<rparr>) s
             in (remaining - took, s1\<lparr>db_reservations := row_ins
                  \<lparr>rs_order_line = line, rs_lot = k, rs_quantity = took, rs_created_at = e_now e\<rparr>
                  (db_reservations s1)\<rparr>))"

definition write_line :: "nat \<Rightarrow> (order_line \<Rightarrow> order_line) \<Rightarrow> db \<Rightarrow> db" where
  "write_line k f s = s\<lparr>db_order_lines := row_upd k f (db_order_lines s)\<rparr>"

definition reserve_line :: "env \<Rightarrow> nat \<times> order_line \<Rightarrow> db \<Rightarrow> err + db" where
  "reserve_line e row s =
     (let (k, line) = row; needed = ol_quantity line - ol_reserved_quantity line in
      if needed \<le> 0 then Inr s
      else let lots = fefo_lots (ol_product line) s; total = available_total lots in
        if total < needed then Inl (Stock_Error (Commande_Stock_Insuffisant (ol_product line) total))
        else Inr (write_line k (\<lambda>l. l\<lparr>ol_reserved_quantity := ol_reserved_quantity l + needed\<rparr>)
               (snd (fold (reserve_lot e k) lots (needed, s)))))"

definition write_order :: "nat \<Rightarrow> (order \<Rightarrow> order) \<Rightarrow> db \<Rightarrow> db" where
  "write_order k f s = s\<lparr>db_orders := row_upd k f (db_orders s)\<rparr>"

definition reserve_stock_for_order :: "env \<Rightarrow> nat \<Rightarrow> db \<Rightarrow> err + db" where
  "reserve_stock_for_order e k s =
     res_bind (require (row_get (db_orders s) k) Does_Not_Exist) (\<lambda>order.
     res_bind (raise_if (o_status order \<in> {Ord_Cancelled, Ord_Ready})
                (Stock_Error Commande_Non_Modifiable)) (\<lambda>_.
     res_bind (for_each (reserve_line e) (lines_of_order k s) s) (\<lambda>s1.
       Inr (write_order k (\<lambda>o'. o'\<lparr>o_status := Ord_Reserved\<rparr>) s1))))"

section \<open>Releasing and consuming\<close>

text \<open>The reservations of a line with the lots loaded with them, in the order of the query.\<close>

definition line_reservations :: "nat \<Rightarrow> db \<Rightarrow> ((nat \<times> reservation) \<times> lot) list" where
  "line_reservations k s =
     sort_key (\<lambda>((_, r), l). (l_expires_on l, l_received_on l, rs_lot r))
       (concat (map (\<lambda>(i, r). case row_get (db_lots s) (rs_lot r) of
                  None \<Rightarrow> [] | Some l \<Rightarrow> [((i, r), l)])
          (rows_where (\<lambda>_ r. rs_order_line r = k) (db_reservations s))))"

text \<open>A reservation after \<open>took\<close> units of it: deleted when nothing is left.\<close>

definition settle :: "nat \<Rightarrow> reservation \<Rightarrow> int \<Rightarrow> db \<Rightarrow> db" where
  "settle i r took s = s\<lparr>db_reservations :=
     (if rs_quantity r - took \<le> 0 then row_del i (db_reservations s)
      else row_upd i (\<lambda>x. x\<lparr>rs_quantity := rs_quantity r - took\<rparr>) (db_reservations s))\<rparr>"

definition release_one :: "(nat \<times> reservation) \<times> lot \<Rightarrow> int \<times> db \<Rightarrow> int \<times> db" where
  "release_one row acc =
     (let ((i, r), lot) = row; (remaining, s) = acc in
      if remaining \<le> 0 then acc
      else let took = min remaining (rs_quantity r);
               reserved = quantity_reserved lot - took
           in (remaining - took, write_lot (rs_lot r)
                (\<lambda>l. l\<lparr>quantity_reserved := (if reserved < 0 then 0 else reserved)\<rparr>) (settle i r took s)))"

definition release_reserved_stock :: "nat \<Rightarrow> int \<Rightarrow> db \<Rightarrow> err + db" where
  "release_reserved_stock k quantity s =
     (if quantity \<le> 0 then Inr s
      else let (remaining, s1) = fold release_one (line_reservations k s) (quantity, s);
               s2 = write_line k (\<lambda>l. l\<lparr>ol_reserved_quantity :=
                      max 0 (ol_reserved_quantity l - (quantity - remaining))\<rparr>) s1
           in if 0 < remaining then Inl (Stock_Error Reservation_Insuffisante_Liberer) else Inr s2)"

definition consume_one ::
    "env \<Rightarrow> nat option \<Rightarrow> nat \<Rightarrow> movement_type \<Rightarrow> nat option \<Rightarrow> nat option
       \<Rightarrow> (nat \<times> reservation) \<times> lot \<Rightarrow> int \<times> (nat \<times> int) list \<times> db \<Rightarrow> int \<times> (nat \<times> int) list \<times> db" where
  "consume_one e user product mt shipment carton row acc =
     (let ((i, r), lot) = row; (remaining, consumed, s) = acc in
      if remaining \<le> 0 then acc
      else let took = min remaining (rs_quantity r) in
        if took \<le> 0 then acc
        else (remaining - took, consumed @ [(rs_lot r, took)],
          create_movement ((new_movement e user mt product (rs_lot r) took)
             \<lparr>mv_from_location := Some (l_location lot), mv_related_carton := carton,
              mv_related_shipment := shipment\<rparr>)
          (write_lot (rs_lot r) (\<lambda>l. l\<lparr>quantity_reserved := quantity_reserved lot - took,
              quantity_on_hand := quantity_on_hand lot - took\<rparr>) (settle i r took s))))"

definition consume_reserved_stock ::
    "env \<Rightarrow> nat option \<Rightarrow> nat \<Rightarrow> int \<Rightarrow> movement_type \<Rightarrow> nat option \<Rightarrow> nat option \<Rightarrow> db
       \<Rightarrow> err + (nat \<times> int) list \<times> db" where
  "consume_reserved_stock e user k quantity mt shipment carton s =
     res_bind (raise_if (quantity \<le> 0) (Stock_Error Quantite_Invalide)) (\<lambda>_.
     res_bind (require (row_get (db_order_lines s) k) Does_Not_Exist) (\<lambda>line.
       let (remaining, consumed, s1) = fold (consume_one e user (ol_product line) mt shipment carton)
             (line_reservations k s) (quantity, [], s)
       in if 0 < remaining then Inl (Stock_Error Reservation_Insuffisante_Consommer)
          else Inr (consumed, write_line k (\<lambda>l. l\<lparr>
                 ol_reserved_quantity := max 0 (ol_reserved_quantity l - quantity),
                 ol_prepared_quantity := ol_prepared_quantity l + quantity\<rparr>) s1)))"

section \<open>Packing from the reservations\<close>

definition pack_carton_from_reserved ::
    "env \<Rightarrow> nat option \<Rightarrow> nat \<Rightarrow> int \<Rightarrow> carton_object option \<Rightarrow> nat option \<Rightarrow> nat option
       \<Rightarrow> size option \<Rightarrow> date option \<Rightarrow> db \<Rightarrow> err + carton_object \<times> db" where
  "pack_carton_from_reserved e user line quantity carton shipment location carton_size display s =
     res_bind (prepare_carton e user carton shipment None location [] carton_size s) (\<lambda>((k, manual), s1).
     res_bind (consume_reserved_stock e user line quantity
                (if shipment \<noteq> None then Mv_Out else Mv_Precondition) shipment (Some k) s1) (\<lambda>(consumed, s2).
       finish_packing e user (k, manual) shipment False ''order_pack_assign''
         ''order_pack_start_picking'' (fold (add_to_carton display k) consumed s2)))"

section \<open>The reservation ledger\<close>

definition claims_on_lot :: "nat \<Rightarrow> db \<Rightarrow> int" where
  "claims_on_lot j s = row_sum (\<lambda>r. if rs_lot r = j then rs_quantity r else 0) (db_reservations s)"

definition claims_of_line :: "nat \<Rightarrow> db \<Rightarrow> int" where
  "claims_of_line i s = row_sum (\<lambda>r. if rs_order_line r = i then rs_quantity r else 0) (db_reservations s)"

lemma write_line_fields [simp]:
  "db_lots (write_line k f s) = db_lots s" "db_movements (write_line k f s) = db_movements s"
  "db_reservations (write_line k f s) = db_reservations s"
  "db_order_lines (write_line k f s) = row_upd k f (db_order_lines s)"
  "db_carton_items (write_line k f s) = db_carton_items s"
  "db_cartons (write_line k f s) = db_cartons s" "db_products (write_line k f s) = db_products s"
  by (simp_all add: write_line_def)

lemma settle_fields [simp]:
  "db_lots (settle i r t s) = db_lots s" "db_movements (settle i r t s) = db_movements s"
  "db_order_lines (settle i r t s) = db_order_lines s"
  "db_carton_items (settle i r t s) = db_carton_items s"
  "db_cartons (settle i r t s) = db_cartons s" "db_products (settle i r t s) = db_products s"
  by (simp_all add: settle_def)

lemma reservations_kept [simp]:
  "db_reservations (create_movement m s) = db_reservations s"
  "db_reservations (write_lot k f s) = db_reservations s"
  "db_order_lines (create_movement m s) = db_order_lines s"
  "db_order_lines (write_lot k f s) = db_order_lines s"
  by (simp_all add: create_movement_def write_lot_def)

text \<open>A part taken from a reservation leaves the claims of the others.\<close>

lemma settle_sum:
  assumes "keys_ok (db_reservations s)" and "row_get (db_reservations s) i = Some r"
    and "t \<le> rs_quantity r"
  shows "row_sum (\<lambda>x. if P (rs_order_line x) (rs_lot x) then rs_quantity x else 0) (db_reservations (settle i r t s))
    = row_sum (\<lambda>x. if P (rs_order_line x) (rs_lot x) then rs_quantity x else 0) (db_reservations s)
      - (if P (rs_order_line r) (rs_lot r) then t else 0)"
proof -
  let ?f = "\<lambda>x. if P (rs_order_line x) (rs_lot x) then rs_quantity x else 0"
  let ?g = "\<lambda>x. x\<lparr>rs_quantity := rs_quantity r - t\<rparr>"
  show ?thesis
  proof (cases "rs_quantity r - t \<le> 0")
    case True
    then have "t = rs_quantity r" using assms(3) by simp
    with True row_sum_del [OF assms(1,2), of ?f] show ?thesis by (simp add: settle_def)
  next
    case False
    with row_sum_upd [OF assms(1,2), of ?f ?g] show ?thesis by (simp add: settle_def)
  qed
qed

lemma settle_claims:
  assumes "keys_ok (db_reservations s)" and "row_get (db_reservations s) i = Some r"
    and "t \<le> rs_quantity r"
  shows "claims_on_lot j (settle i r t s) = claims_on_lot j s - (if rs_lot r = j then t else 0)"
    and "claims_of_line l (settle i r t s) = claims_of_line l s - (if rs_order_line r = l then t else 0)"
  using settle_sum [OF assms, of "\<lambda>_ x. x = j"] settle_sum [OF assms, of "\<lambda>x _. x = l"]
  by (simp_all add: claims_on_lot_def claims_of_line_def)

lemma settle_rows:
  assumes "keys_ok (db_reservations s)"
  shows "keys_ok (db_reservations (settle i r t s))"
    and "i' \<noteq> i \<Longrightarrow> row_get (db_reservations (settle i r t s)) i' = row_get (db_reservations s) i'"
    and "\<forall>(i, x) \<in> set (db_reservations s). 0 < rs_quantity x \<Longrightarrow>
      \<forall>(i, x) \<in> set (db_reservations (settle i r t s)). 0 < rs_quantity x"
  using assms
  by (simp_all add: settle_def keys_ok_upd keys_ok_del row_get_upd row_get_del)
    (auto simp: row_upd_def row_del_def)

section \<open>The reservations of a line\<close>

lemma line_reservations_mem:
  "((i, r), l) \<in> set (line_reservations k s) \<longleftrightarrow>
     (i, r) \<in> set (db_reservations s) \<and> rs_order_line r = k \<and> row_get (db_lots s) (rs_lot r) = Some l"
  by (auto simp: line_reservations_def rows_where_mem split: option.splits)

definition loaded_ok :: "((nat \<times> reservation) \<times> lot) list \<Rightarrow> nat \<Rightarrow> db \<Rightarrow> bool" where
  "loaded_ok rows k s \<longleftrightarrow> distinct (map (fst \<circ> fst) rows) \<and> distinct (map (\<lambda>((i, r), l). rs_lot r) rows)
     \<and> (\<forall>((i, r), l) \<in> set rows. row_get (db_reservations s) i = Some r \<and> rs_order_line r = k
          \<and> row_get (db_lots s) (rs_lot r) = Some l)"

text \<open>No line holds two reservations of one lot.\<close>

definition lots_apart :: "nat \<Rightarrow> db \<Rightarrow> bool" where
  "lots_apart k s \<longleftrightarrow> distinct (map (\<lambda>(i, r). rs_lot r)
     (rows_where (\<lambda>_ r. rs_order_line r = k) (db_reservations s)))"

lemma distinct_concat_options:
  "distinct (map f xs) \<Longrightarrow> (\<And>x y. y \<in> set (h x) \<Longrightarrow> g y = f x) \<Longrightarrow> (\<And>x. length (h x) \<le> 1)
     \<Longrightarrow> distinct (map g (concat (map h xs)))"
proof (induction xs)
  case step: (Cons x xs)
  have rest: "distinct (map g (concat (map h xs)))" using step by simp
  have sub: "g ` set (concat (map h xs)) \<subseteq> f ` set xs" using step.prems(2) by fastforce
  show ?case
  proof (cases "h x")
    case Nil
    with rest show ?thesis by simp
  next
    case (Cons y ys)
    with step.prems(3) [of x] have hx: "h x = [y]" by simp
    then have "g y = f x" using step.prems(2) [of y x] by simp
    moreover have "f x \<notin> f ` set xs" using step.prems(1) by simp
    ultimately have "g y \<notin> f ` set xs" by simp
    with sub have "g y \<notin> g ` set (concat (map h xs))" by (rule contra_subsetD)
    with rest have "distinct (g y # map g (concat (map h xs)))" by (simp only: distinct.simps set_map simp_thms)
    moreover have "concat (map h (x # xs)) = y # concat (map h xs)"
      by (simp only: list.map concat.simps hx append.simps)
    ultimately show ?thesis by (simp only: list.map)
  qed
qed simp

lemma line_reservations_loaded:
  assumes "keys_ok (db_reservations s)" and "lots_apart k s"
  shows "loaded_ok (line_reservations k s) k s"
proof -
  let ?rows = "rows_where (\<lambda>_ r. rs_order_line r = k) (db_reservations s)"
  let ?h = "\<lambda>(i, r). case row_get (db_lots s) (rs_lot r) of None \<Rightarrow> [] | Some l \<Rightarrow> [((i, r), l)]"
  have perm: "mset (line_reservations k s) = mset (concat (map ?h ?rows))"
    by (simp add: line_reservations_def)
  have "distinct (map fst ?rows)" by (rule distinct_rows_where [OF assms(1)])
  then have "distinct (map (fst \<circ> fst) (concat (map ?h ?rows)))"
    by (rule distinct_concat_options) (auto split: option.splits)
  moreover have "mset (map (fst \<circ> fst) (line_reservations k s)) = mset (map (fst \<circ> fst) (concat (map ?h ?rows)))"
    by (simp only: mset_map perm)
  ultimately have 1: "distinct (map (fst \<circ> fst) (line_reservations k s))"
    using mset_eq_imp_distinct_iff by blast
  have "distinct (map (\<lambda>((i, r), l). rs_lot r) (concat (map ?h ?rows)))"
    using assms(2) unfolding lots_apart_def
    by (rule distinct_concat_options) (auto split: option.splits)
  moreover have "mset (map (\<lambda>((i, r), l). rs_lot r) (line_reservations k s))
      = mset (map (\<lambda>((i, r), l). rs_lot r) (concat (map ?h ?rows)))"
    by (simp only: mset_map perm)
  ultimately have 2: "distinct (map (\<lambda>((i, r), l). rs_lot r) (line_reservations k s))"
    using mset_eq_imp_distinct_iff by blast
  show ?thesis
    unfolding loaded_ok_def using 1 2
    by (auto simp: line_reservations_mem row_get_iff [OF assms(1)])
qed

section \<open>Reserving keeps the ledger\<close>

definition lot_claims_ok :: "db \<Rightarrow> bool" where
  "lot_claims_ok s \<longleftrightarrow> books_ok s \<and> keys_ok (db_reservations s)
     \<and> (\<forall>(i, r) \<in> set (db_reservations s). 0 < rs_quantity r)
     \<and> (\<forall>j. reserved j s = claims_on_lot j s)"

lemma lot_claims_okD:
  assumes "lot_claims_ok s"
  shows "books_ok s" and "lots_ok s" and "keys_ok (db_lots s)" and "keys_ok (db_reservations s)"
    and "\<And>j. reserved j s = claims_on_lot j s" and "\<And>j. on_hand j s = journal j s"
    and "\<And>i r. (i, r) \<in> set (db_reservations s) \<Longrightarrow> 0 < rs_quantity r"
  using assms by (auto simp: lot_claims_ok_def books_ok_def lots_ok_def)

lemma reserved_write:
  "reserved j (write_lot k f s) = (if j = k then (case row_get (db_lots s) k of
       None \<Rightarrow> 0 | Some l \<Rightarrow> quantity_reserved (f l)) else reserved j s)"
  by (auto simp: reserved_def row_get_upd split: option.splits)

lemma claims_ins:
  "claims_on_lot j (s\<lparr>db_reservations := row_ins r (db_reservations t)\<rparr>)
     = claims_on_lot j t + (if rs_lot r = j then rs_quantity r else 0)"
  "claims_of_line i (s\<lparr>db_reservations := row_ins r (db_reservations t)\<rparr>)
     = claims_of_line i t + (if rs_order_line r = i then rs_quantity r else 0)"
  by (simp_all add: claims_on_lot_def claims_of_line_def)

definition reserve_step :: "env \<Rightarrow> nat \<Rightarrow> nat \<Rightarrow> int \<Rightarrow> db \<Rightarrow> db" where
  "reserve_step e line k took s =
     (let s1 = write_lot k (\<lambda>r. r\<lparr>quantity_reserved := quantity_reserved r + took\<rparr>) s
      in s1\<lparr>db_reservations := row_ins
           \<lparr>rs_order_line = line, rs_lot = k, rs_quantity = took, rs_created_at = e_now e\<rparr>
           (db_reservations s1)\<rparr>)"

lemma reserve_step_spec:
  assumes "lot_claims_ok s" and "row_get (db_lots s) k = Some l" and "0 < took" and "took \<le> lot_available l"
  shows "lot_claims_ok (reserve_step e line k took s)"
    and "claims_of_line i (reserve_step e line k took s) = claims_of_line i s + (if i = line then took else 0)"
    and "on_hand j (reserve_step e line k took s) = on_hand j s"
    and "\<exists>x y. reserve_step e line k took s = s\<lparr>db_lots := x, db_reservations := y\<rparr>"
    and "j \<noteq> k \<Longrightarrow> row_get (db_lots (reserve_step e line k took s)) j = row_get (db_lots s) j"
proof -
  let ?f = "\<lambda>r. r\<lparr>quantity_reserved := quantity_reserved r + took\<rparr>"
  let ?r = "\<lparr>rs_order_line = line, rs_lot = k, rs_quantity = took, rs_created_at = e_now e\<rparr>"
  let ?s1 = "write_lot k ?f s"
  have step: "reserve_step e line k took s = ?s1\<lparr>db_reservations := row_ins ?r (db_reservations s)\<rparr>"
    by (simp add: reserve_step_def Let_def)
  note ok = lot_claims_okD [OF assms(1)]
  have "lot_ok l" using ok(2) assms(2) by (rule lots_okD)
  have hand: "on_hand j ?s1 = on_hand j s" for j
    using assms(2) by (simp add: on_hand_write) (simp add: on_hand_def)
  have "lots_ok ?s1"
    using ok(2) assms(2-4) \<open>lot_ok l\<close> by (intro lots_ok_write) (auto simp: lot_ok_def lot_available_def)
  moreover have "journal j ?s1 = journal j s" for j by (rule journal_cong) simp
  ultimately have "books_ok ?s1" using ok(6) hand by (simp add: books_ok_def)
  then have books: "books_ok (reserve_step e line k took s)"
    unfolding step by (rule iffD2 [OF books_ok_cong, rotated 2]) simp_all
  have "reserved j (reserve_step e line k took s) = claims_on_lot j (reserve_step e line k took s)" for j
  proof -
    have "reserved j (reserve_step e line k took s) = reserved j ?s1"
      by (rule reserved_cong) (simp add: step)
    also have "\<dots> = reserved j s + (if k = j then took else 0)"
      using assms(2) by (auto simp: reserved_write) (simp add: reserved_def)
    finally show ?thesis using ok(5) [of j] by (simp add: step claims_ins)
  qed
  moreover have "\<forall>(i, r) \<in> set (row_ins ?r (db_reservations s)). 0 < rs_quantity r"
    using ok(7) assms(3) by (auto simp: row_ins_def)
  ultimately show "lot_claims_ok (reserve_step e line k took s)"
    using books ok(4) by (simp add: lot_claims_ok_def step keys_ok_ins)
  show "claims_of_line i (reserve_step e line k took s) = claims_of_line i s + (if i = line then took else 0)"
    by (simp add: step claims_ins)
  show "on_hand j (reserve_step e line k took s) = on_hand j s"
    using hand [of j] by (simp add: step on_hand_def)
  show "\<exists>x y. reserve_step e line k took s = s\<lparr>db_lots := x, db_reservations := y\<rparr>"
    by (intro exI [of _ "row_upd k ?f (db_lots s)"] exI [of _ "row_ins ?r (db_reservations s)"])
      (simp add: step write_lot_def)
  show "j \<noteq> k \<Longrightarrow> row_get (db_lots (reserve_step e line k took s)) j = row_get (db_lots s) j"
    by (simp add: step row_get_upd)
qed

lemma reserve_lot_step:
  assumes "row_get (db_lots s) k = Some l" and "keys_ok (db_lots s)"
  shows "reserve_lot e line (k, l) (q, s) =
     (if q \<le> 0 \<or> lot_available l \<le> 0 then (q, s)
      else (q - min q (lot_available l), reserve_step e line k (min q (lot_available l)) s))"
proof -
  have "row_upd k (\<lambda>r. r\<lparr>quantity_reserved := quantity_reserved l + t\<rparr>) (db_lots s)
      = row_upd k (\<lambda>r. r\<lparr>quantity_reserved := quantity_reserved r + t\<rparr>) (db_lots s)" for t
    using assms(2,1) by (rule row_upd_cong) simp
  then show ?thesis
    by (simp add: reserve_lot_def Let_def lot_available_def reserve_step_def write_lot_def)
qed

lemma reserve_loop:
  assumes "lot_claims_ok s" and "distinct (map fst lots)" and "0 \<le> q"
    and "\<forall>(k, l) \<in> set lots. row_get (db_lots s) k = Some l"
  shows "lot_claims_ok (snd (fold (reserve_lot e line) lots (q, s)))
    \<and> fst (fold (reserve_lot e line) lots (q, s)) = max 0 (q - available_total lots)
    \<and> claims_of_line i (snd (fold (reserve_lot e line) lots (q, s)))
        = claims_of_line i s + (if i = line then min q (available_total lots) else 0)
    \<and> on_hand j (snd (fold (reserve_lot e line) lots (q, s))) = on_hand j s
    \<and> (\<exists>x y. snd (fold (reserve_lot e line) lots (q, s)) = s\<lparr>db_lots := x, db_reservations := y\<rparr>)"
  using assms
proof (induction lots arbitrary: q s)
  case Nil
  then show ?case
    by (auto simp: available_total_def intro!: exI [of _ "db_lots s"] exI [of _ "db_reservations s"])
next
  case (Cons row lots)
  obtain k l where row: "row = (k, l)" by (cases row)
  have get: "row_get (db_lots s) k = Some l" using Cons.prems(4) row by simp
  note ok = lot_claims_okD [OF Cons.prems(1)]
  have nn: "0 \<le> available_total lots" unfolding available_total_def by (rule sum_list_map_nonneg) auto
  have total: "available_total (row # lots) = max 0 (lot_available l) + available_total lots"
    by (simp add: available_total_def row lot_available_def)
  note step = reserve_lot_step [OF get ok(3), where e = e and line = line and q = q, folded row]
  show ?case
  proof (cases "q \<le> 0 \<or> lot_available l \<le> 0")
    case True
    then have "reserve_lot e line row (q, s) = (q, s)" by (simp add: step)
    moreover have "max 0 (q - available_total (row # lots)) = max 0 (q - available_total lots)"
      and "min q (available_total (row # lots)) = min q (available_total lots)"
      using True nn Cons.prems(3) by (auto simp: total)
    ultimately show ?thesis using Cons.IH [OF Cons.prems(1) _ Cons.prems(3)] Cons.prems(2,4) by simp
  next
    case False
    define t where "t = min q (lot_available l)"
    have t: "0 < t" "t \<le> lot_available l" "t \<le> q" using False by (auto simp: t_def)
    note one = reserve_step_spec [OF Cons.prems(1) get t(1,2), where e = e and line = line]
    have run: "reserve_lot e line row (q, s) = (q - t, reserve_step e line k t s)"
      using False by (simp add: step t_def)
    have "\<forall>(j, l') \<in> set lots. row_get (db_lots (reserve_step e line k t s)) j = Some l'"
    proof safe
      fix j l' assume "(j, l') \<in> set lots"
      moreover from this have "j \<noteq> k" using Cons.prems(2) row by force
      ultimately show "row_get (db_lots (reserve_step e line k t s)) j = Some l'"
        using Cons.prems(4) one(5) by auto
    qed
    then have IH: "lot_claims_ok (snd (fold (reserve_lot e line) lots (q - t, reserve_step e line k t s)))
      \<and> fst (fold (reserve_lot e line) lots (q - t, reserve_step e line k t s)) = max 0 (q - t - available_total lots)
      \<and> claims_of_line i (snd (fold (reserve_lot e line) lots (q - t, reserve_step e line k t s)))
          = claims_of_line i (reserve_step e line k t s) + (if i = line then min (q - t) (available_total lots) else 0)
      \<and> on_hand j (snd (fold (reserve_lot e line) lots (q - t, reserve_step e line k t s)))
          = on_hand j (reserve_step e line k t s)
      \<and> (\<exists>x y. snd (fold (reserve_lot e line) lots (q - t, reserve_step e line k t s))
          = (reserve_step e line k t s)\<lparr>db_lots := x, db_reservations := y\<rparr>)"
      using Cons.IH [OF one(1), of "q - t"] Cons.prems(2) t(3) by simp
    obtain x y where "reserve_step e line k t s = s\<lparr>db_lots := x, db_reservations := y\<rparr>"
      using one(4) by blast
    with IH have frame: "\<exists>x y. snd (fold (reserve_lot e line) (row # lots) (q, s))
        = s\<lparr>db_lots := x, db_reservations := y\<rparr>"
      by (auto simp: run)
    have "max 0 (q - t - available_total lots) = max 0 (q - available_total (row # lots))"
      and "t + min (q - t) (available_total lots) = min q (available_total (row # lots))"
      using False nn by (auto simp: total t_def)
    with IH one(2) [of i] one(3) [of j] frame show ?thesis by (simp add: run)
  qed
qed

lemma reserve_line_spec:
  assumes "reserve_line e (k, line) s = Inr s'" and "lot_claims_ok s"
  shows "lot_claims_ok s'"
    and "claims_of_line i s' = claims_of_line i s
           + (if i = k then max 0 (ol_quantity line - ol_reserved_quantity line) else 0)"
    and "on_hand j s' = on_hand j s"
    and "\<exists>x y. s' = s\<lparr>db_lots := x, db_reservations := y, db_order_lines :=
           row_upd k (\<lambda>l. l\<lparr>ol_reserved_quantity := ol_reserved_quantity l
             + max 0 (ol_quantity line - ol_reserved_quantity line)\<rparr>) (db_order_lines s)\<rparr>"
proof -
  let ?n = "ol_quantity line - ol_reserved_quantity line"
  let ?lots = "fefo_lots (ol_product line) s"
  note ok = lot_claims_okD [OF assms(2)]
  have "lot_claims_ok s' \<and> claims_of_line i s' = claims_of_line i s + (if i = k then max 0 ?n else 0)
    \<and> on_hand j s' = on_hand j s
    \<and> (\<exists>x y. s' = s\<lparr>db_lots := x, db_reservations := y, db_order_lines :=
           row_upd k (\<lambda>l. l\<lparr>ol_reserved_quantity := ol_reserved_quantity l + max 0 ?n\<rparr>) (db_order_lines s)\<rparr>)"
  proof (cases "?n \<le> 0")
    case True
    have "row_upd k (\<lambda>l. l) (db_order_lines s) = db_order_lines s"
      by (simp add: row_upd_def)
    with True assms show ?thesis
      by (auto simp: reserve_line_def intro!: exI [of _ "db_lots s"] exI [of _ "db_reservations s"])
  next
    case False
    define s1 where "s1 = snd (fold (reserve_lot e k) ?lots (?n, s))"
    have s': "s' = write_line k (\<lambda>l. l\<lparr>ol_reserved_quantity := ol_reserved_quantity l + ?n\<rparr>) s1"
      and enough: "\<not> available_total ?lots < ?n"
      using assms(1) False by (auto simp: reserve_line_def Let_def s1_def split: if_splits)
    from reserve_loop [where lots = ?lots and q = ?n and e = e and line = k and i = i and j = j,
        OF assms(2) fefo_lots_distinct [OF ok(3)] _ fefo_lots_current [OF ok(3)]] False enough
    have loop: "lot_claims_ok s1" "claims_of_line i s1 = claims_of_line i s + (if i = k then ?n else 0)"
      "on_hand j s1 = on_hand j s" "\<exists>x y. s1 = s\<lparr>db_lots := x, db_reservations := y\<rparr>"
      by (auto simp: s1_def min_def)
    obtain x y where xy: "s1 = s\<lparr>db_lots := x, db_reservations := y\<rparr>" using loop(4) by blast
    have "lot_claims_ok s' = lot_claims_ok s1"
      by (simp add: s' lot_claims_ok_def books_ok_cong [of "write_line k f s1" s1 for f]
          claims_on_lot_def reserved_def)
    with loop(1-3) False show ?thesis
      by (auto simp: s' write_line_def claims_of_line_def on_hand_def xy intro!: exI [of _ x] exI [of _ y])
  qed
  then show "lot_claims_ok s'"
    and "claims_of_line i s' = claims_of_line i s
           + (if i = k then max 0 (ol_quantity line - ol_reserved_quantity line) else 0)"
    and "on_hand j s' = on_hand j s"
    and "\<exists>x y. s' = s\<lparr>db_lots := x, db_reservations := y, db_order_lines :=
           row_upd k (\<lambda>l. l\<lparr>ol_reserved_quantity := ol_reserved_quantity l
             + max 0 (ol_quantity line - ol_reserved_quantity line)\<rparr>) (db_order_lines s)\<rparr>"
    by blast+
qed

section \<open>The order's reservations\<close>

text \<open>
  The ledger of the reservations balances: what a lot has reserved is what the reservations claim
  on it, and what a line has reserved is what its reservations hold.
\<close>

definition reservations_ok :: "db \<Rightarrow> bool" where
  "reservations_ok s \<longleftrightarrow> lot_claims_ok s \<and> keys_ok (db_order_lines s)
     \<and> (\<forall>i l. row_get (db_order_lines s) i = Some l \<longrightarrow> ol_reserved_quantity l = claims_of_line i s)"

lemma reservations_okD:
  assumes "reservations_ok s"
  shows "lot_claims_ok s" and "keys_ok (db_order_lines s)"
    and "row_get (db_order_lines s) i = Some l \<Longrightarrow> ol_reserved_quantity l = claims_of_line i s"
  using assms by (auto simp: reservations_ok_def)

lemma reserve_line_keeps:
  assumes "reserve_line e (k, line) s = Inr s'" and "reservations_ok s"
    and "row_get (db_order_lines s) k = Some line"
  shows "reservations_ok s'"
    and "row_get (db_order_lines s') k = Some (line\<lparr>ol_reserved_quantity :=
           max (ol_quantity line) (ol_reserved_quantity line)\<rparr>)"
    and "j \<noteq> k \<Longrightarrow> row_get (db_order_lines s') j = row_get (db_order_lines s) j"
    and "on_hand j s' = on_hand j s" and "db_orders s' = db_orders s"
proof -
  note ok = reservations_okD [OF assms(2)]
  note spec = reserve_line_spec [OF assms(1) ok(1)]
  let ?more = "max 0 (ol_quantity line - ol_reserved_quantity line)"
  obtain x y where s': "s' = s\<lparr>db_lots := x, db_reservations := y, db_order_lines :=
      row_upd k (\<lambda>l. l\<lparr>ol_reserved_quantity := ol_reserved_quantity l + ?more\<rparr>) (db_order_lines s)\<rparr>"
    using spec(4) by blast
  have row: "row_get (db_order_lines s') k = Some (line\<lparr>ol_reserved_quantity := ol_reserved_quantity line + ?more\<rparr>)"
    using assms(3) by (simp add: s' row_get_upd)
  also have "ol_reserved_quantity line + ?more = max (ol_quantity line) (ol_reserved_quantity line)" by simp
  finally show "row_get (db_order_lines s') k = Some (line\<lparr>ol_reserved_quantity :=
           max (ol_quantity line) (ol_reserved_quantity line)\<rparr>)" .
  show other: "row_get (db_order_lines s') j = row_get (db_order_lines s) j" if "j \<noteq> k" for j
    using that by (simp add: s' row_get_upd)
  show "on_hand j s' = on_hand j s" by (rule spec(3))
  show "db_orders s' = db_orders s" by (simp add: s')
  show "reservations_ok s'"
    unfolding reservations_ok_def
  proof (intro conjI allI impI)
    show "lot_claims_ok s'" by (rule spec(1))
    show "keys_ok (db_order_lines s')" using ok(2) by (simp add: s' keys_ok_upd)
    fix i l assume l: "row_get (db_order_lines s') i = Some l"
    show "ol_reserved_quantity l = claims_of_line i s'"
    proof (cases "i = k")
      case True
      with l row have "ol_reserved_quantity l = ol_reserved_quantity line + ?more" by auto
      with True spec(2) [of i] ok(3) [OF assms(3)] show ?thesis by simp
    next
      case False
      with l other have "row_get (db_order_lines s) i = Some l" by simp
      with False spec(2) [of i] ok(3) show ?thesis by simp
    qed
  qed
qed

lemma lines_of_order_mem:
  "keys_ok (db_order_lines s) \<Longrightarrow> (k, l) \<in> set (lines_of_order o' s) \<longleftrightarrow>
     row_get (db_order_lines s) k = Some l \<and> ol_order l = o'"
  by (auto simp: lines_of_order_def rows_where_mem row_get_iff)

lemma distinct_lines_of_order: "keys_ok (db_order_lines s) \<Longrightarrow> distinct (map fst (lines_of_order o' s))"
proof -
  assume "keys_ok (db_order_lines s)"
  then have "distinct (map fst (rows_where P (db_order_lines s)))" for P by (rule distinct_rows_where)
  then have "distinct (map fst (sort_key f (rows_where P (db_order_lines s))))" for P and f :: "_ \<Rightarrow> string"
    by (simp add: distinct_map)
  then show ?thesis by (simp add: lines_of_order_def)
qed

lemma reserve_lines:
  assumes "for_each (reserve_line e) rows s = Inr s'" and "reservations_ok s" and "distinct (map fst rows)"
    and "\<forall>(k, l) \<in> set rows. row_get (db_order_lines s) k = Some l"
  shows "reservations_ok s' \<and> db_orders s' = db_orders s \<and> on_hand j s' = on_hand j s
    \<and> (\<forall>(k, l) \<in> set rows. row_get (db_order_lines s') k
          = Some (l\<lparr>ol_reserved_quantity := max (ol_quantity l) (ol_reserved_quantity l)\<rparr>))
    \<and> (\<forall>k. k \<notin> fst ` set rows \<longrightarrow> row_get (db_order_lines s') k = row_get (db_order_lines s) k)"
  using assms
proof (induction rows arbitrary: s)
  case (Cons row rows)
  obtain k line where row: "row = (k, line)" by (cases row)
  from Cons.prems(1) obtain t where t: "reserve_line e (k, line) s = Inr t"
    and rest: "for_each (reserve_line e) rows t = Inr s'" by (auto simp: wms_ok row)
  have get: "row_get (db_order_lines s) k = Some line" using Cons.prems(4) row by simp
  note one = reserve_line_keeps [OF t Cons.prems(2) get]
  have fresh: "k \<notin> fst ` set rows" using Cons.prems(3) row by simp
  have "row_get (db_order_lines t) i = Some l" if "(i, l) \<in> set rows" for i l
  proof -
    have "i \<noteq> k" using that fresh by force
    then show ?thesis using that Cons.prems(4) one(3) by auto
  qed
  then have "\<forall>(i, l) \<in> set rows. row_get (db_order_lines t) i = Some l" by blast
  note more = Cons.IH [OF rest one(1) _ this]
  have "row_get (db_order_lines s') k = row_get (db_order_lines t) k" using more fresh Cons.prems(3) by simp
  with more one Cons.prems(3) show ?case by (auto simp: row)
qed simp

text \<open>Every line of the order is reserved in full, from stock that was available.\<close>

lemma reserve_stock_for_order_spec:
  assumes "reserve_stock_for_order e k s = Inr s'" and "reservations_ok s"
  shows "reservations_ok s'" and "on_hand j s' = on_hand j s"
    and "row_get (db_order_lines s) i = Some l \<Longrightarrow> ol_order l = k \<Longrightarrow>
       row_get (db_order_lines s') i
         = Some (l\<lparr>ol_reserved_quantity := max (ol_quantity l) (ol_reserved_quantity l)\<rparr>)"
    and "row_get (db_order_lines s) i = Some l \<Longrightarrow> ol_order l \<noteq> k \<Longrightarrow>
       row_get (db_order_lines s') i = Some l"
    and "\<exists>o'. row_get (db_orders s) k = Some o' \<and> o_status o' \<notin> {Ord_Cancelled, Ord_Ready}
       \<and> row_get (db_orders s') k = Some (o'\<lparr>o_status := Ord_Reserved\<rparr>)"
proof -
  note keys = reservations_okD(2) [OF assms(2)]
  from assms(1) obtain o' s1 where o': "row_get (db_orders s) k = Some o'"
    "o_status o' \<notin> {Ord_Cancelled, Ord_Ready}"
    and loop: "for_each (reserve_line e) (lines_of_order k s) s = Inr s1"
    and s': "s' = write_order k (\<lambda>o'. o'\<lparr>o_status := Ord_Reserved\<rparr>) s1"
    by (auto simp: reserve_stock_for_order_def wms_ok)
  have fresh: "\<forall>(i, l) \<in> set (lines_of_order k s). row_get (db_order_lines s) i = Some l"
    using lines_of_order_mem [OF keys] by auto
  note all = reserve_lines [OF loop assms(2) distinct_lines_of_order [OF keys] fresh]
  have same: "db_lots s' = db_lots s1" "db_reservations s' = db_reservations s1"
    "db_movements s' = db_movements s1" "db_order_lines s' = db_order_lines s1"
    by (simp_all add: s' write_order_def)
  then have "reservations_ok s' = reservations_ok s1"
    by (simp add: reservations_ok_def lot_claims_ok_def books_ok_cong [of s' s1] claims_on_lot_def
        claims_of_line_def reserved_def)
  with all show "reservations_ok s'" by simp
  show "on_hand j s' = on_hand j s" using all same by (simp add: on_hand_def)
  show "row_get (db_order_lines s) i = Some l \<Longrightarrow> ol_order l = k \<Longrightarrow>
       row_get (db_order_lines s') i
         = Some (l\<lparr>ol_reserved_quantity := max (ol_quantity l) (ol_reserved_quantity l)\<rparr>)"
    using all same lines_of_order_mem [OF keys, of i l k] by auto
  show "row_get (db_order_lines s) i = Some l \<Longrightarrow> ol_order l \<noteq> k \<Longrightarrow>
       row_get (db_order_lines s') i = Some l"
    using all same lines_of_order_mem [OF keys, of i _ k] by fastforce
  show "\<exists>o'. row_get (db_orders s) k = Some o' \<and> o_status o' \<notin> {Ord_Cancelled, Ord_Ready}
       \<and> row_get (db_orders s') k = Some (o'\<lparr>o_status := Ord_Reserved\<rparr>)"
    using o' all by (intro exI [of _ o']) (simp add: s' write_order_def row_get_upd)
qed

section \<open>Giving reservations back\<close>

lemma claim_le_reserved:
  assumes "lot_claims_ok s" and "row_get (db_reservations s) i = Some r"
  shows "rs_quantity r \<le> reserved (rs_lot r) s" and "0 < rs_quantity r"
    and "\<exists>l. row_get (db_lots s) (rs_lot r) = Some l"
proof -
  note ok = lot_claims_okD [OF assms(1)]
  have mem: "(i, r) \<in> set (db_reservations s)" using assms(2) by (rule row_get_mem)
  with ok(7) show pos: "0 < rs_quantity r" by blast
  let ?f = "\<lambda>x. if rs_lot x = rs_lot r then rs_quantity x else 0"
  have nn: "0 \<le> rs_quantity x" if "(a, x) \<in> set (db_reservations s)" for a x
    using ok(7) [OF that] by simp
  have "?f r \<le> row_sum ?f (db_reservations s)"
    unfolding row_sum_def using nn
    by (intro order_trans [OF _ sum_list_map_ge_member [OF mem]]) auto
  then show le: "rs_quantity r \<le> reserved (rs_lot r) s" using ok(5) by (simp add: claims_on_lot_def)
  show "\<exists>l. row_get (db_lots s) (rs_lot r) = Some l"
    using le pos by (cases "row_get (db_lots s) (rs_lot r)") (simp_all add: reserved_def)
qed

definition release_step :: "nat \<Rightarrow> reservation \<Rightarrow> int \<Rightarrow> db \<Rightarrow> db" where
  "release_step i r t s = write_lot (rs_lot r)
     (\<lambda>l. l\<lparr>quantity_reserved := quantity_reserved l - t\<rparr>) (settle i r t s)"

definition consume_step :: "nat \<Rightarrow> reservation \<Rightarrow> int \<Rightarrow> movement \<Rightarrow> db \<Rightarrow> db" where
  "consume_step i r t m s = create_movement m (write_lot (rs_lot r)
     (\<lambda>l. l\<lparr>quantity_reserved := quantity_reserved l - t, quantity_on_hand := quantity_on_hand l - t\<rparr>)
     (settle i r t s))"

lemma settle_books: "books_ok (settle i r t s) = books_ok s"
  by (rule books_ok_cong) simp_all

lemma steps_claims:
  assumes "lot_claims_ok s" and "row_get (db_reservations s) i = Some r"
    and "0 < t" and "t \<le> rs_quantity r"
    and "db_reservations s' = db_reservations (settle i r t s)" and "books_ok s'"
    and "\<And>j. reserved j s' = reserved j s - (if j = rs_lot r then t else 0)"
  shows "lot_claims_ok s'"
    and "claims_of_line k s' = claims_of_line k s - (if k = rs_order_line r then t else 0)"
    and "i' \<noteq> i \<Longrightarrow> row_get (db_reservations s') i' = row_get (db_reservations s) i'"
proof -
  note ok = lot_claims_okD [OF assms(1)]
  note claims = settle_claims [OF ok(4) assms(2,4)] and rows = settle_rows [OF ok(4), where i = i and r = r and t = t]
  have "claims_on_lot j s' = claims_on_lot j (settle i r t s)" for j
    by (simp add: claims_on_lot_def assms(5))
  then have "reserved j s' = claims_on_lot j s'" for j
    using assms(7) [of j] ok(5) [of j] claims(1) [of j] by auto
  moreover have "\<forall>(i, x) \<in> set (db_reservations s). 0 < rs_quantity x" using ok(7) by blast
  ultimately show "lot_claims_ok s'"
    using assms(5,6) rows(1,3) by (simp add: lot_claims_ok_def)
  show "claims_of_line k s' = claims_of_line k s - (if k = rs_order_line r then t else 0)"
    using claims(2) [of k] by (auto simp: claims_of_line_def assms(5))
  show "i' \<noteq> i \<Longrightarrow> row_get (db_reservations s') i' = row_get (db_reservations s) i'"
    using rows(2) by (simp add: assms(5))
qed

lemma release_step_spec:
  assumes "lot_claims_ok s" and "row_get (db_reservations s) i = Some r"
    and "0 < t" and "t \<le> rs_quantity r"
  shows "lot_claims_ok (release_step i r t s)"
    and "claims_of_line k (release_step i r t s) = claims_of_line k s - (if k = rs_order_line r then t else 0)"
    and "i' \<noteq> i \<Longrightarrow> row_get (db_reservations (release_step i r t s)) i' = row_get (db_reservations s) i'"
    and "on_hand j (release_step i r t s) = on_hand j s"
    and "j \<noteq> rs_lot r \<Longrightarrow> row_get (db_lots (release_step i r t s)) j = row_get (db_lots s) j"
proof -
  let ?f = "\<lambda>l. l\<lparr>quantity_reserved := quantity_reserved l - t\<rparr>"
  note ok = lot_claims_okD [OF assms(1)]
  obtain l where l: "row_get (db_lots s) (rs_lot r) = Some l" using claim_le_reserved(3) [OF assms(1,2)] by blast
  have "lot_ok l" using ok(2) l by (rule lots_okD)
  have le: "rs_quantity r \<le> quantity_reserved l"
    using claim_le_reserved(1) [OF assms(1,2)] l by (simp add: reserved_def)
  have hand: "on_hand j (release_step i r t s) = on_hand j s" for j
    using l by (auto simp: release_step_def on_hand_write) (auto simp: on_hand_def)
  have "lots_ok (settle i r t s)" using ok(2) by (simp add: lots_ok_def)
  then have "lots_ok (release_step i r t s)"
    unfolding release_step_def using l \<open>lot_ok l\<close> le assms(3,4)
    by (intro lots_ok_write) (auto simp: lot_ok_def)
  moreover have "journal j (release_step i r t s) = journal j s" for j
    by (rule journal_cong) (simp add: release_step_def)
  ultimately have books: "books_ok (release_step i r t s)" using ok(6) hand by (simp add: books_ok_def)
  have res: "reserved j (release_step i r t s) = reserved j s - (if j = rs_lot r then t else 0)" for j
    using l by (auto simp: release_step_def reserved_write) (auto simp: reserved_def)
  have "db_reservations (release_step i r t s) = db_reservations (settle i r t s)"
    by (simp add: release_step_def)
  note more = steps_claims [OF assms this books res]
  show "lot_claims_ok (release_step i r t s)"
    and "claims_of_line k (release_step i r t s) = claims_of_line k s - (if k = rs_order_line r then t else 0)"
    and "i' \<noteq> i \<Longrightarrow> row_get (db_reservations (release_step i r t s)) i' = row_get (db_reservations s) i'"
    using more by blast+
  show "on_hand j (release_step i r t s) = on_hand j s" by (rule hand)
  show "j \<noteq> rs_lot r \<Longrightarrow> row_get (db_lots (release_step i r t s)) j = row_get (db_lots s) j"
    by (simp add: release_step_def row_get_upd)
qed

lemma consume_step_spec:
  assumes "lot_claims_ok s" and "row_get (db_reservations s) i = Some r"
    and "0 < t" and "t \<le> rs_quantity r"
    and m: "mv_lot m = rs_lot r" "signed_quantity m = - t"
  shows "lot_claims_ok (consume_step i r t m s)"
    and "claims_of_line k (consume_step i r t m s) = claims_of_line k s - (if k = rs_order_line r then t else 0)"
    and "i' \<noteq> i \<Longrightarrow> row_get (db_reservations (consume_step i r t m s)) i' = row_get (db_reservations s) i'"
    and "on_hand j (consume_step i r t m s) = on_hand j s - (if j = rs_lot r then t else 0)"
    and "j \<noteq> rs_lot r \<Longrightarrow> row_get (db_lots (consume_step i r t m s)) j = row_get (db_lots s) j"
    and "lot_product (consume_step i r t m s) = lot_product s"
proof -
  let ?f = "\<lambda>l. l\<lparr>quantity_reserved := quantity_reserved l - t, quantity_on_hand := quantity_on_hand l - t\<rparr>"
  note ok = lot_claims_okD [OF assms(1)]
  obtain l where l: "row_get (db_lots s) (rs_lot r) = Some l" using claim_le_reserved(3) [OF assms(1,2)] by blast
  have "lot_ok l" using ok(2) l by (rule lots_okD)
  have le: "rs_quantity r \<le> quantity_reserved l"
    using claim_le_reserved(1) [OF assms(1,2)] l by (simp add: reserved_def)
  have books: "books_ok (consume_step i r t m s)"
    unfolding consume_step_def
  proof (rule books_ok_move)
    show "books_ok (settle i r t s)" using ok(1) by (simp add: settle_books)
    show "row_get (db_lots (settle i r t s)) (rs_lot r) = Some l" using l by simp
  qed (use le assms(3,4) m \<open>lot_ok l\<close> in \<open>auto simp: lot_ok_def\<close>)
  have hand: "on_hand j (consume_step i r t m s) = on_hand j s - (if j = rs_lot r then t else 0)" for j
    using l by (auto simp: consume_step_def on_hand_def row_get_upd)
  have res: "reserved j (consume_step i r t m s) = reserved j s - (if j = rs_lot r then t else 0)" for j
    using l by (auto simp: consume_step_def reserved_def row_get_upd)
  have "db_reservations (consume_step i r t m s) = db_reservations (settle i r t s)"
    by (simp add: consume_step_def)
  note more = steps_claims [OF assms(1-4) this books res]
  show "lot_claims_ok (consume_step i r t m s)"
    and "claims_of_line k (consume_step i r t m s) = claims_of_line k s - (if k = rs_order_line r then t else 0)"
    and "i' \<noteq> i \<Longrightarrow> row_get (db_reservations (consume_step i r t m s)) i' = row_get (db_reservations s) i'"
    using more by blast+
  show "on_hand j (consume_step i r t m s) = on_hand j s - (if j = rs_lot r then t else 0)" by (rule hand)
  show "j \<noteq> rs_lot r \<Longrightarrow> row_get (db_lots (consume_step i r t m s)) j = row_get (db_lots s) j"
    by (simp add: consume_step_def row_get_upd)
  show "lot_product (consume_step i r t m s) = lot_product s"
    by (rule ext) (auto simp: lot_product_def consume_step_def row_get_upd option.map_comp comp_def)
qed

lemma loaded_ok_Cons:
  "loaded_ok (((i, r), l) # rows) k s \<longleftrightarrow>
     row_get (db_reservations s) i = Some r \<and> rs_order_line r = k \<and> row_get (db_lots s) (rs_lot r) = Some l
     \<and> (\<forall>((j, x), l') \<in> set rows. j \<noteq> i \<and> rs_lot x \<noteq> rs_lot r) \<and> loaded_ok rows k s"
  by (fastforce simp: loaded_ok_def image_iff)

lemma loaded_ok_row:
  "loaded_ok rows k s \<Longrightarrow> ((i, r), l) \<in> set rows \<Longrightarrow>
     row_get (db_reservations s) i = Some r \<and> rs_order_line r = k \<and> row_get (db_lots s) (rs_lot r) = Some l"
  unfolding loaded_ok_def by blast

text \<open>The rows loaded before the loop stay current for the rest of it.\<close>

lemma loaded_ok_step:
  assumes "loaded_ok (((i, r), l) # rows) k s"
    and "\<And>i'. i' \<noteq> i \<Longrightarrow> row_get (db_reservations s') i' = row_get (db_reservations s) i'"
    and "\<And>j. j \<noteq> rs_lot r \<Longrightarrow> row_get (db_lots s') j = row_get (db_lots s) j"
  shows "loaded_ok rows k s'"
proof -
  from assms(1) have rows: "loaded_ok rows k s" and apart: "\<forall>((j, x), l') \<in> set rows. j \<noteq> i \<and> rs_lot x \<noteq> rs_lot r"
    by (simp_all add: loaded_ok_Cons)
  have "row_get (db_reservations s') j = Some x \<and> rs_order_line x = k \<and> row_get (db_lots s') (rs_lot x) = Some l'"
    if "((j, x), l') \<in> set rows" for j x l'
  proof -
    from apart that have "j \<noteq> i \<and> rs_lot x \<noteq> rs_lot r" by blast
    with loaded_ok_row [OF rows that] assms(2) [of j] assms(3) [of "rs_lot x"] show ?thesis by simp
  qed
  with rows show ?thesis unfolding loaded_ok_def by blast
qed

definition loaded_total :: "((nat \<times> reservation) \<times> lot) list \<Rightarrow> int" where
  "loaded_total rows = sum_list (map (\<lambda>((i, r), l). rs_quantity r) rows)"

lemma loaded_total_nonneg:
  assumes "lot_claims_ok s" and "loaded_ok rows k s"
  shows "0 \<le> loaded_total rows"
  unfolding loaded_total_def
  by (rule sum_list_map_nonneg)
    (use claim_le_reserved(2) [OF assms(1)] loaded_ok_row [OF assms(2)] in \<open>fastforce\<close>)

lemma release_one_step:
  assumes "lot_claims_ok s" and "row_get (db_reservations s) i = Some r"
    and "row_get (db_lots s) (rs_lot r) = Some l"
  shows "release_one ((i, r), l) (q, s) =
     (if q \<le> 0 then (q, s) else (q - min q (rs_quantity r), release_step i r (min q (rs_quantity r)) s))"
proof -
  define t where "t = min q (rs_quantity r)"
  have "rs_quantity r \<le> quantity_reserved l"
    using claim_le_reserved(1) [OF assms(1,2)] assms(3) by (simp add: reserved_def)
  then have "\<not> quantity_reserved l - t < 0" by (simp add: t_def)
  moreover have "row_upd (rs_lot r) (\<lambda>x. x\<lparr>quantity_reserved := quantity_reserved l - t\<rparr>) (db_lots s)
      = row_upd (rs_lot r) (\<lambda>x. x\<lparr>quantity_reserved := quantity_reserved x - t\<rparr>) (db_lots s)"
    using lot_claims_okD(3) [OF assms(1)] assms(3) by (rule row_upd_cong) simp
  ultimately show ?thesis
    unfolding release_one_def Let_def prod.case t_def [symmetric]
    by (simp add: release_step_def write_lot_def)
qed

lemma release_loop:
  assumes "lot_claims_ok s" and "loaded_ok rows k s" and "0 \<le> q"
  shows "lot_claims_ok (snd (fold release_one rows (q, s)))
    \<and> fst (fold release_one rows (q, s)) = max 0 (q - loaded_total rows)
    \<and> claims_of_line i (snd (fold release_one rows (q, s)))
        = claims_of_line i s - (if i = k then min q (loaded_total rows) else 0)
    \<and> on_hand j (snd (fold release_one rows (q, s))) = on_hand j s
    \<and> (\<exists>x y. snd (fold release_one rows (q, s)) = s\<lparr>db_lots := x, db_reservations := y\<rparr>)"
  using assms
proof (induction rows arbitrary: q s)
  case Nil
  then show ?case
    by (auto simp: loaded_total_def intro!: exI [of _ "db_lots s"] exI [of _ "db_reservations s"])
next
  case (Cons row rows)
  obtain i0 r l where row: "row = ((i0, r), l)" by (metis surj_pair)
  have cur: "row_get (db_reservations s) i0 = Some r" "rs_order_line r = k"
    "row_get (db_lots s) (rs_lot r) = Some l" "loaded_ok rows k s"
    using Cons.prems(2) by (simp_all add: row loaded_ok_Cons)
  note step = release_one_step [OF Cons.prems(1) cur(1,3), of q, folded row]
  have total: "loaded_total (row # rows) = rs_quantity r + loaded_total rows"
    by (simp add: loaded_total_def row)
  have nn: "0 \<le> loaded_total rows" by (rule loaded_total_nonneg [OF Cons.prems(1) cur(4)])
  note pos = claim_le_reserved(2) [OF Cons.prems(1) cur(1)]
  show ?case
  proof (cases "q \<le> 0")
    case True
    then have "release_one row (q, s) = (q, s)" and "q = 0" using step Cons.prems(3) by simp_all
    then show ?thesis using Cons.IH [OF Cons.prems(1) cur(4) Cons.prems(3)] nn pos
      by (simp add: total)
  next
    case False
    define t where "t = min q (rs_quantity r)"
    have t: "0 < t" "t \<le> rs_quantity r" "t \<le> q" using False pos by (auto simp: t_def)
    let ?s1 = "release_step i0 r t s"
    note one = release_step_spec [OF Cons.prems(1) cur(1) t(1,2)]
    have run: "release_one row (q, s) = (q - t, ?s1)" using False by (simp add: step t_def)
    have "loaded_ok rows k ?s1"
      by (rule loaded_ok_step [OF Cons.prems(2) [unfolded row] one(3) one(5)])
    from Cons.IH [OF one(1) this, of "q - t"] t(3)
    have IH: "lot_claims_ok (snd (fold release_one rows (q - t, ?s1)))"
      "fst (fold release_one rows (q - t, ?s1)) = max 0 (q - t - loaded_total rows)"
      "claims_of_line i (snd (fold release_one rows (q - t, ?s1)))
         = claims_of_line i ?s1 - (if i = k then min (q - t) (loaded_total rows) else 0)"
      "on_hand j (snd (fold release_one rows (q - t, ?s1))) = on_hand j ?s1"
      "\<exists>x y. snd (fold release_one rows (q - t, ?s1)) = ?s1\<lparr>db_lots := x, db_reservations := y\<rparr>"
      by auto
    have "?s1\<lparr>db_lots := x, db_reservations := y\<rparr> = s\<lparr>db_lots := x, db_reservations := y\<rparr>" for x y
      by (simp add: release_step_def write_lot_def settle_def)
    with IH(5) have frame: "\<exists>x y. snd (fold release_one rows (q - t, ?s1)) = s\<lparr>db_lots := x, db_reservations := y\<rparr>"
      by simp
    have "max 0 (q - t - loaded_total rows) = max 0 (q - loaded_total (row # rows))"
      and "t + min (q - t) (loaded_total rows) = min q (loaded_total (row # rows))"
      using False nn by (auto simp: total t_def)
    with IH one(2) [of i] one(4) [of j] frame cur(2) show ?thesis by (simp add: run)
  qed
qed

text \<open>Everything a line holds is what its loaded reservations hold.\<close>

lemma loaded_total_claims:
  assumes "lot_claims_ok s"
  shows "loaded_total (line_reservations k s) = claims_of_line k s"
proof -
  let ?h = "\<lambda>(i, r). case row_get (db_lots s) (rs_lot r) of None \<Rightarrow> [] | Some l \<Rightarrow> [((i, r), l)]"
  have "sum_list (map (\<lambda>((i, r), l). rs_quantity r) (line_reservations k s))
      = sum_list (map (\<lambda>((i, r), l). rs_quantity r)
          (concat (map ?h (rows_where (\<lambda>_ r. rs_order_line r = k) (db_reservations s)))))"
    unfolding line_reservations_def
    by (metis (no_types, lifting) mset_map mset_sort sum_mset_sum_list)
  also have "\<dots> = row_sum (\<lambda>r. if rs_order_line r = k then rs_quantity r else 0) t"
    if "t = db_reservations s" for t
  proof -
    have lots: "\<exists>l. row_get (db_lots s) (rs_lot r) = Some l" if "(i, r) \<in> set (db_reservations s)" for i r
      using claim_le_reserved(3) [OF assms] that lot_claims_okD(4) [OF assms] by (simp add: row_get_iff)
    have "sum_list (map (\<lambda>((i, r), l). rs_quantity r) (concat (map ?h (rows_where (\<lambda>_ r. rs_order_line r = k) u))))
        = row_sum (\<lambda>r. if rs_order_line r = k then rs_quantity r else 0) u"
      if "set u \<subseteq> set (db_reservations s)" for u
      using that
    proof (induction u)
      case (Cons a u)
      obtain i r where a: "a = (i, r)" by (cases a)
      then obtain l where "row_get (db_lots s) (rs_lot r) = Some l" using lots [of i r] Cons.prems by auto
      with Cons a show ?case by (simp add: rows_where_def)
    qed (simp add: rows_where_def)
    then show ?thesis using that by simp
  qed
  finally show ?thesis by (simp add: loaded_total_def claims_of_line_def)
qed

lemma reservations_ok_line:
  assumes "lot_claims_ok s1" and "keys_ok (db_order_lines s)" and "db_order_lines s1 = db_order_lines s"
    and "\<And>i l. i \<noteq> k \<Longrightarrow> row_get (db_order_lines s) i = Some l \<Longrightarrow> ol_reserved_quantity l = claims_of_line i s1"
    and "\<And>l. row_get (db_order_lines s) k = Some l \<Longrightarrow> ol_reserved_quantity (f l) = claims_of_line k s1"
  shows "reservations_ok (write_line k f s1)"
proof -
  have "lot_claims_ok (write_line k f s1) = lot_claims_ok s1"
    by (simp add: lot_claims_ok_def books_ok_cong [of "write_line k f s1" s1] claims_on_lot_def reserved_def)
  moreover have "claims_of_line i (write_line k f s1) = claims_of_line i s1" for i
    by (simp add: claims_of_line_def)
  ultimately show ?thesis
    using assms by (auto simp: reservations_ok_def keys_ok_upd row_get_upd split: if_splits)
qed

text \<open>
  Releasing a quantity a line has reserved succeeds, takes it off the line and off its lots, and
  keeps the ledger; more than the line has reserved is refused.
\<close>

lemma release_reserved_stock_spec:
  assumes "reservations_ok s" and "lots_apart k s" and "row_get (db_order_lines s) k = Some l" and "0 < q"
  shows "is_ok (release_reserved_stock k q s) \<longleftrightarrow> q \<le> ol_reserved_quantity l"
    and "release_reserved_stock k q s = Inr s' \<Longrightarrow> reservations_ok s'
      \<and> row_get (db_order_lines s') k = Some (l\<lparr>ol_reserved_quantity := ol_reserved_quantity l - q\<rparr>)
      \<and> on_hand j s' = on_hand j s \<and> db_orders s' = db_orders s"
proof -
  note ok = reservations_okD [OF assms(1)]
  let ?rows = "line_reservations k s"
  have loaded: "loaded_ok ?rows k s"
    by (rule line_reservations_loaded [OF lot_claims_okD(4) [OF ok(1)] assms(2)])
  have total: "loaded_total ?rows = ol_reserved_quantity l"
    using loaded_total_claims [OF ok(1)] ok(3) [OF assms(3)] by simp
  have nn: "0 \<le> ol_reserved_quantity l" using loaded_total_nonneg [OF ok(1) loaded] total by simp
  define q' where "q' = fst (fold release_one ?rows (q, s))"
  define s1 where "s1 = snd (fold release_one ?rows (q, s))"
  have run: "fold release_one ?rows (q, s) = (q', s1)" by (simp add: q'_def s1_def)
  have loop: "lot_claims_ok s1" "q' = max 0 (q - ol_reserved_quantity l)"
    "claims_of_line i s1 = claims_of_line i s - (if i = k then min q (ol_reserved_quantity l) else 0)"
    "on_hand j s1 = on_hand j s" "\<exists>x y. s1 = s\<lparr>db_lots := x, db_reservations := y\<rparr>" for i j
    using release_loop [OF ok(1) loaded, of q i j] assms(4) unfolding run total by auto
  let ?f = "\<lambda>l. l\<lparr>ol_reserved_quantity := max 0 (ol_reserved_quantity l - (q - q'))\<rparr>"
  have rel: "release_reserved_stock k q s =
      (if 0 < q' then Inl (Stock_Error Reservation_Insuffisante_Liberer) else Inr (write_line k ?f s1))"
    using assms(4) by (simp add: release_reserved_stock_def run)
  show "is_ok (release_reserved_stock k q s) \<longleftrightarrow> q \<le> ol_reserved_quantity l"
    using loop(2) by (auto simp: rel is_ok_def)
  assume res: "release_reserved_stock k q s = Inr s'"
  then have s': "s' = write_line k ?f s1" and q0: "\<not> 0 < q'" by (auto simp: rel split: if_splits)
  from q0 loop(2) have q: "q' = 0" "q \<le> ol_reserved_quantity l" by auto
  obtain x y where s1: "s1 = s\<lparr>db_lots := x, db_reservations := y\<rparr>" using loop(5) by blast
  have "reservations_ok s'"
    unfolding s'
  proof (rule reservations_ok_line [OF loop(1) ok(2)])
    show "db_order_lines s1 = db_order_lines s" by (simp add: s1)
    show "ol_reserved_quantity l' = claims_of_line i s1"
      if "i \<noteq> k" "row_get (db_order_lines s) i = Some l'" for i l'
      using that loop(3) [of i] ok(3) by simp
    show "ol_reserved_quantity (?f l') = claims_of_line k s1"
      if "row_get (db_order_lines s) k = Some l'" for l'
      using that loop(3) [of k] ok(3) [OF assms(3)] assms(3) q by simp
  qed
  moreover have "row_get (db_order_lines s') k = Some (l\<lparr>ol_reserved_quantity := ol_reserved_quantity l - q\<rparr>)"
    using assms(3) q by (simp add: s' s1 row_get_upd)
  moreover have "on_hand j s' = on_hand j s" using loop(4) by (simp add: s' on_hand_def)
  ultimately show "reservations_ok s'
      \<and> row_get (db_order_lines s') k = Some (l\<lparr>ol_reserved_quantity := ol_reserved_quantity l - q\<rparr>)
      \<and> on_hand j s' = on_hand j s \<and> db_orders s' = db_orders s"
    by (simp add: s' s1 write_line_def)
qed

section \<open>Consuming reservations\<close>

lemma consume_one_step:
  assumes "lot_claims_ok s" and "row_get (db_reservations s) i = Some r"
    and "row_get (db_lots s) (rs_lot r) = Some l"
  shows "\<exists>m. mv_lot m = rs_lot r \<and> mv_type m = mt \<and> mv_quantity m = min q (rs_quantity r) \<and>
     consume_one e u p mt sh ct ((i, r), l) (q, acc, s) =
     (if q \<le> 0 then (q, acc, s)
      else (q - min q (rs_quantity r), acc @ [(rs_lot r, min q (rs_quantity r))],
        consume_step i r (min q (rs_quantity r)) m s))"
proof -
  define t where "t = min q (rs_quantity r)"
  let ?m = "(new_movement e u mt p (rs_lot r) t)\<lparr>mv_from_location := Some (l_location l),
      mv_related_carton := ct, mv_related_shipment := sh\<rparr>"
  have "row_upd (rs_lot r) (\<lambda>x. x\<lparr>quantity_reserved := quantity_reserved l - t, quantity_on_hand := quantity_on_hand l - t\<rparr>) (db_lots s)
      = row_upd (rs_lot r) (\<lambda>x. x\<lparr>quantity_reserved := quantity_reserved x - t, quantity_on_hand := quantity_on_hand x - t\<rparr>) (db_lots s)"
    using lot_claims_okD(3) [OF assms(1)] assms(3) by (rule row_upd_cong) simp
  moreover have "\<not> q \<le> 0 \<Longrightarrow> \<not> t \<le> 0" using claim_le_reserved(2) [OF assms(1,2)] by (simp add: t_def)
  ultimately have "consume_one e u p mt sh ct ((i, r), l) (q, acc, s) =
     (if q \<le> 0 then (q, acc, s) else (q - t, acc @ [(rs_lot r, t)], consume_step i r t ?m s))"
    unfolding consume_one_def Let_def prod.case t_def [symmetric]
    by (simp add: consume_step_def write_lot_def)
  then show ?thesis unfolding t_def by (intro exI [of _ ?m]) (simp add: t_def)
qed

lemma consume_loop:
  assumes "lot_claims_ok s" and "loaded_ok rows k s" and "0 \<le> q" and "outgoing mt"
  shows "\<exists>parts s'. fold (consume_one e u p mt sh ct) rows (q, acc, s) = (max 0 (q - loaded_total rows), acc @ parts, s')
    \<and> lot_claims_ok s' \<and> sum_list (map snd parts) = min q (loaded_total rows)
    \<and> (\<forall>(j, t) \<in> set parts. 0 \<le> t)
    \<and> (\<forall>i. claims_of_line i s' = claims_of_line i s - (if i = k then min q (loaded_total rows) else 0))
    \<and> (\<forall>j. on_hand j s' = on_hand j s - allocated j parts) \<and> lot_product s' = lot_product s
    \<and> (\<exists>x y z. s' = s\<lparr>db_lots := x, db_reservations := y, db_movements := z\<rparr>)"
  using assms(1-3)
proof (induction rows arbitrary: q s acc)
  case Nil
  then show ?case
    by (auto simp: loaded_total_def intro!: exI [of _ "db_lots s"] exI [of _ "db_reservations s"]
        exI [of _ "db_movements s"])
next
  case (Cons row rows)
  obtain i0 r l where row: "row = ((i0, r), l)" by (metis surj_pair)
  have cur: "row_get (db_reservations s) i0 = Some r" "rs_order_line r = k"
    "row_get (db_lots s) (rs_lot r) = Some l" "loaded_ok rows k s"
    using Cons.prems(2) by (simp_all add: row loaded_ok_Cons)
  obtain m where m: "mv_lot m = rs_lot r" "mv_type m = mt" "mv_quantity m = min q (rs_quantity r)"
    and step: "consume_one e u p mt sh ct row (q, acc, s) =
     (if q \<le> 0 then (q, acc, s)
      else (q - min q (rs_quantity r), acc @ [(rs_lot r, min q (rs_quantity r))],
        consume_step i0 r (min q (rs_quantity r)) m s))"
    using consume_one_step [OF Cons.prems(1) cur(1,3)] unfolding row by metis
  have total: "loaded_total (row # rows) = rs_quantity r + loaded_total rows"
    by (simp add: loaded_total_def row)
  have nn: "0 \<le> loaded_total rows" by (rule loaded_total_nonneg [OF Cons.prems(1) cur(4)])
  note pos = claim_le_reserved(2) [OF Cons.prems(1) cur(1)]
  show ?case
  proof (cases "q \<le> 0")
    case True
    then have "consume_one e u p mt sh ct row (q, acc, s) = (q, acc, s)" and "q = 0"
      using step Cons.prems(3) by simp_all
    moreover have "min q (loaded_total (row # rows)) = min q (loaded_total rows)"
      and "max 0 (q - loaded_total (row # rows)) = max 0 (q - loaded_total rows)"
      using nn pos \<open>q = 0\<close> by (simp_all add: total)
    ultimately show ?thesis using Cons.IH [OF Cons.prems(1) cur(4) Cons.prems(3), of acc]
      by (simp only: fold_simps)
  next
    case False
    define t where "t = min q (rs_quantity r)"
    have t: "0 < t" "t \<le> rs_quantity r" "t \<le> q" using False pos by (auto simp: t_def)
    let ?s1 = "consume_step i0 r t m s"
    have signed: "signed_quantity m = - t"
      using m(2,3) assms(4) by (auto simp: signed_quantity_def outgoing_def t_def)
    note one = consume_step_spec [OF Cons.prems(1) cur(1) t(1,2) m(1) signed]
    have run: "consume_one e u p mt sh ct row (q, acc, s) = (q - t, acc @ [(rs_lot r, t)], ?s1)"
      using False by (simp add: step t_def)
    have "loaded_ok rows k ?s1"
      by (rule loaded_ok_step [OF Cons.prems(2) [unfolded row] one(3) one(5)])
    from Cons.IH [OF one(1) this, of "q - t" "acc @ [(rs_lot r, t)]"] t(3)
    obtain parts s' x y z where IH: "fold (consume_one e u p mt sh ct) rows (q - t, acc @ [(rs_lot r, t)], ?s1)
        = (max 0 (q - t - loaded_total rows), (acc @ [(rs_lot r, t)]) @ parts, s')"
      "lot_claims_ok s'" "sum_list (map snd parts) = min (q - t) (loaded_total rows)"
      "\<forall>(j, t) \<in> set parts. 0 \<le> t"
      "\<And>i. claims_of_line i s' = claims_of_line i ?s1 - (if i = k then min (q - t) (loaded_total rows) else 0)"
      "\<And>j. on_hand j s' = on_hand j ?s1 - allocated j parts" "lot_product s' = lot_product ?s1"
      and s'1: "s' = ?s1\<lparr>db_lots := x, db_reservations := y, db_movements := z\<rparr>"
      by auto
    have arith: "max 0 (q - t - loaded_total rows) = max 0 (q - loaded_total (row # rows))"
      "t + min (q - t) (loaded_total rows) = min q (loaded_total (row # rows))"
      using False nn by (auto simp: total t_def)
    have "s' = s\<lparr>db_lots := x, db_reservations := y, db_movements := z\<rparr>"
      unfolding s'1 by (simp add: consume_step_def create_movement_def write_lot_def settle_def)
    then have frame: "\<exists>x y z. s' = s\<lparr>db_lots := x, db_reservations := y, db_movements := z\<rparr>" by blast
    show ?thesis
    proof (rule exI, rule exI, intro conjI)
      show "fold (consume_one e u p mt sh ct) (row # rows) (q, acc, s)
          = (max 0 (q - loaded_total (row # rows)), acc @ ((rs_lot r, t) # parts), s')"
        using IH(1) arith(1) by (simp add: run)
      show "sum_list (map snd ((rs_lot r, t) # parts)) = min q (loaded_total (row # rows))"
        using IH(3) arith(2) by simp
      show "\<forall>(j, t) \<in> set ((rs_lot r, t) # parts). 0 \<le> t" using IH(4) t(1) by simp
      show "\<forall>i. claims_of_line i s' = claims_of_line i s - (if i = k then min q (loaded_total (row # rows)) else 0)"
        using IH(5) one(2) arith(2) cur(2) by auto
      show "\<forall>j. on_hand j s' = on_hand j s - allocated j ((rs_lot r, t) # parts)"
        using IH(6) one(4) by auto
      show "lot_product s' = lot_product s" using IH(7) one(6) by simp
      show "\<exists>x y z. s' = s\<lparr>db_lots := x, db_reservations := y, db_movements := z\<rparr>" by (rule frame)
    qed (rule IH(2))
  qed
qed

lemma consume_reserved_stock_spec:
  assumes "reservations_ok s" and "lots_apart k s" and "row_get (db_order_lines s) k = Some l"
    and "outgoing mt"
  shows "is_ok (consume_reserved_stock e u k q mt sh ct s) \<longleftrightarrow> 0 < q \<and> q \<le> ol_reserved_quantity l"
    and "consume_reserved_stock e u k q mt sh ct s = Inr (parts, s') \<Longrightarrow> reservations_ok s'
      \<and> row_get (db_order_lines s') k = Some (l\<lparr>ol_reserved_quantity := ol_reserved_quantity l - q,
          ol_prepared_quantity := ol_prepared_quantity l + q\<rparr>)
      \<and> sum_list (map snd parts) = q \<and> (\<forall>(j, t) \<in> set parts. 0 \<le> t)
      \<and> (\<forall>j. on_hand j s' = on_hand j s - allocated j parts) \<and> lot_product s' = lot_product s
      \<and> (\<exists>x y z w. s' = s\<lparr>db_lots := x, db_reservations := y, db_movements := z, db_order_lines := w\<rparr>)"
proof -
  note ok = reservations_okD [OF assms(1)]
  let ?rows = "line_reservations k s"
  let ?f = "\<lambda>l. l\<lparr>ol_reserved_quantity := max 0 (ol_reserved_quantity l - q),
      ol_prepared_quantity := ol_prepared_quantity l + q\<rparr>"
  have loaded: "loaded_ok ?rows k s"
    by (rule line_reservations_loaded [OF lot_claims_okD(4) [OF ok(1)] assms(2)])
  have total: "loaded_total ?rows = ol_reserved_quantity l"
    using loaded_total_claims [OF ok(1)] ok(3) [OF assms(3)] by simp
  have "(is_ok (consume_reserved_stock e u k q mt sh ct s) \<longleftrightarrow> 0 < q \<and> q \<le> ol_reserved_quantity l)
    \<and> (consume_reserved_stock e u k q mt sh ct s = Inr (parts, s') \<longrightarrow> reservations_ok s'
      \<and> row_get (db_order_lines s') k = Some (l\<lparr>ol_reserved_quantity := ol_reserved_quantity l - q,
          ol_prepared_quantity := ol_prepared_quantity l + q\<rparr>)
      \<and> sum_list (map snd parts) = q \<and> (\<forall>(j, t) \<in> set parts. 0 \<le> t)
      \<and> (\<forall>j. on_hand j s' = on_hand j s - allocated j parts) \<and> lot_product s' = lot_product s
      \<and> (\<exists>x y z w. s' = s\<lparr>db_lots := x, db_reservations := y, db_movements := z, db_order_lines := w\<rparr>))"
  proof (cases "0 < q")
    case True
    from consume_loop [where e = e and u = u and p = "ol_product l" and sh = sh and ct = ct and acc = "[]",
        OF ok(1) loaded _ assms(4), of q] True
    obtain parts1 s1 x y z where loop: "fold (consume_one e u (ol_product l) mt sh ct) ?rows (q, [], s)
        = (max 0 (q - ol_reserved_quantity l), parts1, s1)"
      "lot_claims_ok s1" "sum_list (map snd parts1) = min q (ol_reserved_quantity l)"
      "\<forall>(j, t) \<in> set parts1. 0 \<le> t"
      "\<And>i. claims_of_line i s1 = claims_of_line i s - (if i = k then min q (ol_reserved_quantity l) else 0)"
      "\<And>j. on_hand j s1 = on_hand j s - allocated j parts1" "lot_product s1 = lot_product s"
      and s1: "s1 = s\<lparr>db_lots := x, db_reservations := y, db_movements := z\<rparr>"
      unfolding total by auto
    have res: "consume_reserved_stock e u k q mt sh ct s =
        (if q \<le> ol_reserved_quantity l then Inr (parts1, write_line k ?f s1)
         else Inl (Stock_Error Reservation_Insuffisante_Consommer))"
      using True assms(3) by (auto simp: consume_reserved_stock_def loop(1) raise_if_def)
    show ?thesis
    proof (intro conjI impI)
      show "is_ok (consume_reserved_stock e u k q mt sh ct s) \<longleftrightarrow> 0 < q \<and> q \<le> ol_reserved_quantity l"
        using True by (simp add: res is_ok_def)
      assume "consume_reserved_stock e u k q mt sh ct s = Inr (parts, s')"
      then have q: "q \<le> ol_reserved_quantity l" and parts: "parts = parts1" and s': "s' = write_line k ?f s1"
        by (auto simp: res split: if_splits)
      show "reservations_ok s'"
        unfolding s'
      proof (rule reservations_ok_line [OF loop(2) ok(2)])
        show "db_order_lines s1 = db_order_lines s" by (simp add: s1)
        show "ol_reserved_quantity l' = claims_of_line i s1"
          if "i \<noteq> k" "row_get (db_order_lines s) i = Some l'" for i l'
          using that loop(5) [of i] ok(3) by simp
        show "ol_reserved_quantity (?f l') = claims_of_line k s1"
          if "row_get (db_order_lines s) k = Some l'" for l'
          using that loop(5) [of k] ok(3) [OF assms(3)] assms(3) q by simp
      qed
      show "row_get (db_order_lines s') k = Some (l\<lparr>ol_reserved_quantity := ol_reserved_quantity l - q,
          ol_prepared_quantity := ol_prepared_quantity l + q\<rparr>)"
        using assms(3) q by (simp add: s' s1 row_get_upd)
      show "sum_list (map snd parts) = q" using loop(3) q parts by simp
      show "\<forall>(j, t) \<in> set parts. 0 \<le> t" using loop(4) parts by simp
      show "\<forall>j. on_hand j s' = on_hand j s - allocated j parts"
        using loop(6) parts by (simp add: s' on_hand_def)
      show "lot_product s' = lot_product s"
        using loop(7) by (simp add: s' lot_product_def [abs_def])
      show "\<exists>x y z w. s' = s\<lparr>db_lots := x, db_reservations := y, db_movements := z, db_order_lines := w\<rparr>"
        by (intro exI [of _ x] exI [of _ y] exI [of _ z] exI [of _ "row_upd k ?f (db_order_lines s)"])
          (simp add: s' s1 write_line_def)
    qed
  next
    case False
    then show ?thesis by (simp add: consume_reserved_stock_def is_ok_def)
  qed
  then show "is_ok (consume_reserved_stock e u k q mt sh ct s) \<longleftrightarrow> 0 < q \<and> q \<le> ol_reserved_quantity l"
    and "consume_reserved_stock e u k q mt sh ct s = Inr (parts, s') \<Longrightarrow> reservations_ok s'
      \<and> row_get (db_order_lines s') k = Some (l\<lparr>ol_reserved_quantity := ol_reserved_quantity l - q,
          ol_prepared_quantity := ol_prepared_quantity l + q\<rparr>)
      \<and> sum_list (map snd parts) = q \<and> (\<forall>(j, t) \<in> set parts. 0 \<le> t)
      \<and> (\<forall>j. on_hand j s' = on_hand j s - allocated j parts) \<and> lot_product s' = lot_product s
      \<and> (\<exists>x y z w. s' = s\<lparr>db_lots := x, db_reservations := y, db_movements := z, db_order_lines := w\<rparr>)"
    by blast+
qed

section \<open>Packing what is reserved\<close>

lemma reservations_ok_cong: "same_stock s t \<Longrightarrow> reservations_ok t = reservations_ok s"
  by (simp add: reservations_ok_def lot_claims_ok_def same_stock_def books_ok_cong [of t s]
      claims_on_lot_def claims_of_line_def reserved_def)

lemma lots_apart_cong: "db_reservations t = db_reservations s \<Longrightarrow> lots_apart k t = lots_apart k s"
  by (simp add: lots_apart_def)

lemma pack_carton_from_reserved_spec:
  assumes run: "pack_carton_from_reserved e u line q carton shipment loc sz d s = Inr (obj, s')"
    and ok: "reservations_ok s" and items: "items_ok s" and apart: "lots_apart line s"
    and line: "row_get (db_order_lines s) line = Some l"
  shows "reservations_ok s'" and "items_ok s'" and "0 < q" and "q \<le> ol_reserved_quantity l"
    and "on_hand j s' + in_cartons j s' = on_hand j s + in_cartons j s"
    and "row_get (db_order_lines s') line = Some (l\<lparr>ol_reserved_quantity := ol_reserved_quantity l - q,
           ol_prepared_quantity := ol_prepared_quantity l + q\<rparr>)"
    and "packed_units (\<lambda>c _. c = fst obj) s' = packed_units (\<lambda>c _. c = fst obj) s + q"
    and "\<exists>c. row_get (db_cartons s') (fst obj) = Some c \<and> c_status c \<noteq> Ct_Shipped
           \<and> (shipment \<noteq> None \<longrightarrow> c_status c = Ct_Assigned \<and> c_shipment c = shipment)"
proof -
  let ?mt = "if shipment \<noteq> None then Mv_Out else Mv_Precondition"
  from run obtain k m s1 parts s2
    where p1: "prepare_carton e u carton shipment None loc [] sz s = Inr ((k, m), s1)"
      and p2: "consume_reserved_stock e u line q ?mt shipment (Some k) s1 = Inr (parts, s2)"
      and p3: "finish_packing e u (k, m) shipment False ''order_pack_assign''
           ''order_pack_start_picking'' (fold (add_to_carton d k) parts s2) = Inr (obj, s')"
    by (auto simp: pack_carton_from_reserved_def wms_ok)
  note same1 = prepare_carton_stock [OF p1]
  have out: "outgoing ?mt" by (simp add: outgoing_def)
  have ok1: "reservations_ok s1" using ok same1 by (simp add: reservations_ok_cong)
  have apart1: "lots_apart line s1" using apart same1 by (simp add: same_stock_def lots_apart_def)
  have line1: "row_get (db_order_lines s1) line = Some l" using line same1 by (simp add: same_stock_def)
  note con = consume_reserved_stock_spec [OF ok1 apart1 line1 out]
  have can: "0 < q \<and> q \<le> ol_reserved_quantity l" using con(1) p2 by (metis is_ok_iff)
  then show "0 < q" and "q \<le> ol_reserved_quantity l" by blast+
  note eff = con(2) [OF p2]
  obtain x y z w where s2: "s2 = s1\<lparr>db_lots := x, db_reservations := y, db_movements := z, db_order_lines := w\<rparr>"
    using eff by blast
  have items2: "items_ok s2" using items same1 by (simp add: s2 items_ok_def same_stock_def)
  then have keys2: "keys_ok (db_carton_items s2)" by (simp add: items_ok_def)
  define s3 where "s3 = fold (add_to_carton d k) parts s2"
  obtain v where s3: "s3 = s2\<lparr>db_carton_items := v\<rparr>"
    using add_all_to_carton(4) [OF keys2, of d k parts] unfolding s3_def by blast
  obtain c1 where c1: "row_get (db_cartons s1) k = Some c1" "c_status c1 \<noteq> Ct_Shipped"
    "shipment \<noteq> None \<longrightarrow> c_shipment c1 = shipment"
    using prepare_carton_row(1) [OF p1] by auto
  then have "row_get (db_cartons s3) k = Some c1" by (simp add: s3 s2)
  note last = finish_packing_spec [OF p3 [folded s3_def] this]
  note eq1 = units_of_cong [OF same1] and eq3 = units_of_cong [OF last(2)]
  have obj: "fst obj = k" using last(1) by simp
  have "reservations_ok s3 = reservations_ok s2"
    by (simp add: s3 reservations_ok_def lot_claims_ok_def books_ok_cong [of "s2\<lparr>db_carton_items := v\<rparr>" s2]
        claims_on_lot_def claims_of_line_def reserved_def)
  then show "reservations_ok s'" using eff last(2) by (simp add: reservations_ok_cong)
  have "items_ok s3" unfolding s3_def using add_all_to_carton(3) [OF keys2 items2] eff by blast
  then show "items_ok s'" using last(2) by (simp add: items_ok_def same_stock_def)
  have packed: "packed_units P s' = packed_units P s + parts_sum (P k) parts" for P
  proof -
    have "packed_units P s' = packed_units P s3" using last(2) by (simp add: packed_units_def same_stock_def)
    also have "\<dots> = packed_units P s2 + parts_sum (P k) parts"
      unfolding s3_def by (rule add_all_to_carton(2) [OF keys2])
    also have "packed_units P s2 = packed_units P s"
      using same1 by (simp add: packed_units_def s2 same_stock_def)
    finally show ?thesis .
  qed
  have "on_hand j s' = on_hand j s - allocated j parts"
    using eff eq1 eq3 by (simp add: s3 on_hand_def)
  then show "on_hand j s' + in_cartons j s' = on_hand j s + in_cartons j s"
    by (simp add: in_cartons_packed packed parts_sum_allocated)
  show "row_get (db_order_lines s') line = Some (l\<lparr>ol_reserved_quantity := ol_reserved_quantity l - q,
           ol_prepared_quantity := ol_prepared_quantity l + q\<rparr>)"
    using eff last(2) by (simp add: s3 same_stock_def)
  show "packed_units (\<lambda>c _. c = fst obj) s' = packed_units (\<lambda>c _. c = fst obj) s + q"
    using eff by (simp add: packed obj parts_sum_all)
  show "\<exists>c. row_get (db_cartons s') (fst obj) = Some c \<and> c_status c \<noteq> Ct_Shipped
           \<and> (shipment \<noteq> None \<longrightarrow> c_status c = Ct_Assigned \<and> c_shipment c = shipment)"
    using last(3) c1 unfolding obj packed_status_def by auto
qed

section \<open>Properties of the reservations\<close>

definition sample_order :: order where
  "sample_order = \<lparr>o_reference = [], o_status = Ord_Draft, o_review_status = Rev_Approved,
     o_public_link = None, o_association_contact = None, o_shipper_name = [], o_recipient_name = [],
     o_correspondent_name = [], o_shipper_contact = None, o_recipient_contact = None,
     o_correspondent_contact = None, o_destination_address = [], o_destination_city = [],
     o_destination_country = [], o_requested_delivery_date = None, o_shipment = None,
     o_reviewed_at = None, o_created_at = 0, o_created_by = None, o_notes = []\<rparr>"

definition order_db :: db where
  "order_db = sample_db\<lparr>
     db_lots := [(1, sample_lot 1 None 5 0), (2, sample_lot 1 (Some (Date 2027 1 1)) 4 0),
                 (3, sample_lot 2 None 6 0)],
     db_orders := [(1, sample_order)],
     db_order_lines := [(1, \<lparr>ol_order = 1, ol_product = 1, ol_quantity = 6,
                             ol_reserved_quantity = 0, ol_prepared_quantity = 0\<rparr>),
                        (2, \<lparr>ol_order = 1, ol_product = 2, ol_quantity = 2,
                             ol_reserved_quantity = 0, ol_prepared_quantity = 0\<rparr>)]\<rparr>"

definition reserved_db :: db where
  "reserved_db = ok_or order_db (reserve_stock_for_order sample_env 1 order_db)"

definition claims_check :: "db \<Rightarrow> bool" where
  "claims_check s \<longleftrightarrow> distinct (map fst (db_reservations s)) \<and> distinct (map fst (db_order_lines s))
     \<and> list_all (\<lambda>(_, r). 0 < rs_quantity r \<and> rs_lot r \<in> fst ` set (db_lots s)) (db_reservations s)
     \<and> list_all (\<lambda>(k, l). quantity_reserved l = claims_on_lot k s) (db_lots s)
     \<and> list_all (\<lambda>(k, l). ol_reserved_quantity l = claims_of_line k s) (db_order_lines s)"

lemma claims_check: "claims_check s \<Longrightarrow> books_ok s \<Longrightarrow> reservations_ok s"
proof -
  assume check: "claims_check s" and books: "books_ok s"
  have "reserved j s = claims_on_lot j s" for j
  proof (cases "row_get (db_lots s) j")
    case None
    then have "j \<notin> fst ` set (db_lots s)" by (simp add: row_get_def map_of_eq_None_iff)
    then have none: "\<forall>(i, r) \<in> set (db_reservations s). rs_lot r \<noteq> j"
      using check by (fastforce simp: claims_check_def list_all_iff)
    have "row_sum (\<lambda>r. if rs_lot r = j then rs_quantity r else 0) t = 0"
      if "set t \<subseteq> set (db_reservations s)" for t
      using that none by (induction t) auto
    with None show ?thesis by (simp add: reserved_def claims_on_lot_def)
  next
    case (Some l)
    then show ?thesis
      using check row_get_mem [OF Some] by (auto simp: claims_check_def list_all_iff reserved_def)
  qed
  then have "lot_claims_ok s"
    using check books by (auto simp: claims_check_def lot_claims_ok_def keys_ok_def list_all_iff)
  moreover have "ol_reserved_quantity l = claims_of_line i s" if "row_get (db_order_lines s) i = Some l" for i l
    using check row_get_mem [OF that] by (auto simp: claims_check_def list_all_iff)
  ultimately show ?thesis using check by (auto simp: reservations_ok_def claims_check_def keys_ok_def)
qed

end
