(* ===== verification/Reservation_Properties.thy ===== *)
theory Reservation_Properties
  imports Reservations
begin

text \<open>
  The properties of the reservations of orders, each with an evaluated instance on a small order;
  among them the two defects of the operations that the model shows.
\<close>

section \<open>What the reservation operations guarantee\<close>

text \<open>
  C2: Reserving an order reserves every line of it in full from stock that was free, or changes
  nothing: it moves no stock, leaves the lines of other orders alone, gives the order the status
  reserved, and keeps the reservation ledger (what a lot has reserved is what the reservations
  claim on it, what a line has reserved is what its reservations hold).
\<close>
theorem reserve_order_in_full:
  assumes "reserve_stock_for_order e k s = Inr s'" and "reservations_ok s"
  shows "reservations_ok s' \<and> on_hand j s' = on_hand j s \<and> reserved j s' \<le> on_hand j s'
    \<and> (\<forall>i l. row_get (db_order_lines s) i = Some l \<longrightarrow> row_get (db_order_lines s') i
         = Some (if ol_order l = k
                 then l\<lparr>ol_reserved_quantity := max (ol_quantity l) (ol_reserved_quantity l)\<rparr> else l))
    \<and> map_option o_status (row_get (db_orders s') k) = Some Ord_Reserved"
proof -
  note spec = reserve_stock_for_order_spec [OF assms]
  have "books_ok s'" using spec(1) by (simp add: reservations_ok_def lot_claims_ok_def)
  then have "reserved j s' \<le> on_hand j s'" by (rule books_ok_no_overdraft)
  moreover have "map_option o_status (row_get (db_orders s') k) = Some Ord_Reserved" using spec(5) by auto
  ultimately show ?thesis using spec(1-4) by auto
qed

lemma books_ok_order_db: "books_ok order_db"
proof -
  have "books_check order_db" by code_simp
  then show ?thesis by (rule books_check)
qed

lemma reservations_ok_order_db: "reservations_ok order_db"
proof -
  have "claims_check order_db" by code_simp
  then show ?thesis using books_ok_order_db by (rule claims_check)
qed

lemma reserve_order_db: "reserve_stock_for_order sample_env 1 order_db = Inr reserved_db"
proof -
  have "is_ok (reserve_stock_for_order sample_env 1 order_db)" by code_simp
  then show ?thesis by (simp add: reserved_db_def is_ok_ok_or)
qed

theorem reserve_order_in_full_witness:
  "reserve_stock_for_order sample_env 1 order_db = Inr reserved_db
   \<and> reservations_ok reserved_db \<and> reserved 2 reserved_db = 4 \<and> reserved 1 reserved_db = 2"
proof -
  have "reserved 2 reserved_db = 4" and "reserved 1 reserved_db = 2" by code_simp+
  with reserve_order_in_full [OF reserve_order_db reservations_ok_order_db, of 1] reserve_order_db
  show ?thesis by simp
qed

lemma reservations_ok_reserved_db: "reservations_ok reserved_db"
  by (rule reserve_stock_for_order_spec(1) [OF reserve_order_db reservations_ok_order_db])

lemma lots_apart_reserved_db: "lots_apart 1 reserved_db" "lots_apart 2 reserved_db"
  by code_simp+

text \<open>
  Releasing succeeds exactly for what the line has reserved, takes the quantity off the line,
  moves no stock and keeps the ledger (on a line without two reservations of one lot).
\<close>
theorem release_exactly_reserved:
  assumes "reservations_ok s" and "lots_apart k s" and "row_get (db_order_lines s) k = Some l" and "0 < q"
  shows "(is_ok (release_reserved_stock k q s) \<longleftrightarrow> q \<le> ol_reserved_quantity l)
    \<and> (\<forall>s'. release_reserved_stock k q s = Inr s' \<longrightarrow> reservations_ok s'
        \<and> row_get (db_order_lines s') k = Some (l\<lparr>ol_reserved_quantity := ol_reserved_quantity l - q\<rparr>)
        \<and> (\<forall>j. on_hand j s' = on_hand j s))"
  using release_reserved_stock_spec [OF assms] by blast

theorem release_exactly_reserved_witness:
  "is_ok (release_reserved_stock 1 5 reserved_db) \<and> \<not> is_ok (release_reserved_stock 1 7 reserved_db)"
proof -
  have "row_get (db_order_lines reserved_db) 1 = Some \<lparr>ol_order = 1, ol_product = 1, ol_quantity = 6,
      ol_reserved_quantity = 6, ol_prepared_quantity = 0\<rparr>" by code_simp
  from release_exactly_reserved [OF reservations_ok_reserved_db lots_apart_reserved_db(1) this]
  show ?thesis by simp
qed

text \<open>
  C4: Consuming from a line's reservations succeeds exactly for a positive quantity the line has
  reserved; it takes that quantity out of the lots and off what they have reserved, moves it from
  reserved to prepared on the line, and keeps the ledger and the movement journal (on a line
  without two reservations of one lot).
\<close>
theorem consume_reserved_exactly:
  assumes "reservations_ok s" and "lots_apart k s" and "row_get (db_order_lines s) k = Some l"
    and "outgoing mt"
  shows "(is_ok (consume_reserved_stock e u k q mt sh ct s) \<longleftrightarrow> 0 < q \<and> q \<le> ol_reserved_quantity l)
    \<and> (\<forall>parts s'. consume_reserved_stock e u k q mt sh ct s = Inr (parts, s') \<longrightarrow> reservations_ok s'
        \<and> row_get (db_order_lines s') k = Some (l\<lparr>ol_reserved_quantity := ol_reserved_quantity l - q,
            ol_prepared_quantity := ol_prepared_quantity l + q\<rparr>)
        \<and> sum_list (map snd parts) = q \<and> (\<forall>j. on_hand j s' = on_hand j s - allocated j parts)
        \<and> (\<forall>j. on_hand j s' = journal j s'))"
proof -
  have "on_hand j s' = journal j s'" if "reservations_ok s'" for j s'
    using that by (simp add: reservations_ok_def lot_claims_ok_def books_ok_def)
  then show ?thesis using consume_reserved_stock_spec [OF assms, where e = e and u = u and q = q and sh = sh and ct = ct] by blast
qed

theorem consume_reserved_exactly_witness:
  "is_ok (consume_reserved_stock sample_env None 1 5 Mv_Out (Some 1) None reserved_db)
   \<and> \<not> is_ok (consume_reserved_stock sample_env None 1 7 Mv_Out (Some 1) None reserved_db)"
proof -
  have line: "row_get (db_order_lines reserved_db) 1 = Some \<lparr>ol_order = 1, ol_product = 1, ol_quantity = 6,
      ol_reserved_quantity = 6, ol_prepared_quantity = 0\<rparr>" by code_simp
  have "outgoing Mv_Out" by (simp add: outgoing_def)
  note exact = consume_reserved_exactly [OF reservations_ok_reserved_db lots_apart_reserved_db(1) line this,
      where e = sample_env and u = None and sh = "Some 1" and ct = None]
  from exact [of 5] exact [of 7] show ?thesis by simp
qed

text \<open>
  Packing a carton from the reservations of a line puts exactly the packed quantity into the
  carton, turns it from reserved into prepared on the line, loses no unit (lots and cartons
  together), and keeps the reservation ledger; a carton packed for a shipment is assigned to it.
\<close>
theorem pack_from_reserved_moves_units:
  assumes "pack_carton_from_reserved e u line q carton shipment loc sz d s = Inr (obj, s')"
    and "reservations_ok s" and "items_ok s" and "lots_apart line s"
    and "row_get (db_order_lines s) line = Some l"
  shows "reservations_ok s' \<and> 0 < q \<and> q \<le> ol_reserved_quantity l
    \<and> (\<forall>j. on_hand j s' + in_cartons j s' = on_hand j s + in_cartons j s)
    \<and> packed_units (\<lambda>c _. c = fst obj) s' = packed_units (\<lambda>c _. c = fst obj) s + q
    \<and> row_get (db_order_lines s') line = Some (l\<lparr>ol_reserved_quantity := ol_reserved_quantity l - q,
         ol_prepared_quantity := ol_prepared_quantity l + q\<rparr>)
    \<and> (\<exists>c. row_get (db_cartons s') (fst obj) = Some c
         \<and> (shipment \<noteq> None \<longrightarrow> c_status c = Ct_Assigned \<and> c_shipment c = shipment))"
  using pack_carton_from_reserved_spec [OF assms] by auto

theorem pack_from_reserved_moves_units_witness:
  "\<exists>obj s'. pack_carton_from_reserved sample_env None 1 5 None (Some 1) None None None reserved_db = Inr (obj, s')
     \<and> packed_units (\<lambda>c _. c = fst obj) s' = 5"
proof -
  let ?run = "pack_carton_from_reserved sample_env None 1 5 None (Some 1) None None None reserved_db"
  have ok: "is_ok ?run" by code_simp
  obtain obj s' where run: "?run = Inr (obj, s')" using ok by (auto simp: is_ok_iff)
  have line: "row_get (db_order_lines reserved_db) 1 = Some \<lparr>ol_order = 1, ol_product = 1, ol_quantity = 6,
      ol_reserved_quantity = 6, ol_prepared_quantity = 0\<rparr>" and none: "db_carton_items reserved_db = []"
    by code_simp+
  have "items_ok reserved_db" by (simp add: items_ok_def none keys_ok_def)
  from pack_from_reserved_moves_units [OF run reservations_ok_reserved_db this lots_apart_reserved_db(1) line]
  show ?thesis using run by (auto simp: packed_units_def none)
qed

lemma consume_one_take:
  assumes "0 < t" and "t = min q (rs_quantity r)" and "outgoing mt"
  obtains m where "mv_lot m = rs_lot r" and "signed_quantity m = - t"
    and "\<And>acc s. consume_one e u p mt sh ct ((i, r), l) (q, acc, s) = (q - t, acc @ [(rs_lot r, t)],
      create_movement m (write_lot (rs_lot r) (\<lambda>x. x\<lparr>quantity_reserved := quantity_reserved l - t,
          quantity_on_hand := quantity_on_hand l - t\<rparr>) (settle i r t s)))"
proof
  let ?m = "(new_movement e u mt p (rs_lot r) t)\<lparr>mv_from_location := Some (l_location l),
      mv_related_carton := ct, mv_related_shipment := sh\<rparr>"
  show "mv_lot ?m = rs_lot r" by simp
  show "signed_quantity ?m = - t" using assms(3) by (auto simp: signed_quantity_def outgoing_def)
  have "\<not> q \<le> 0" "\<not> t \<le> 0" using assms(1,2) by auto
  then show "consume_one e u p mt sh ct ((i, r), l) (q, acc, s) = (q - t, acc @ [(rs_lot r, t)],
      create_movement ?m (write_lot (rs_lot r) (\<lambda>x. x\<lparr>quantity_reserved := quantity_reserved l - t,
          quantity_on_hand := quantity_on_hand l - t\<rparr>) (settle i r t s)))" for acc s
    by (simp add: consume_one_def Let_def assms(2) [symmetric])
qed

lemma journal_settle [simp]: "journal j (settle i r t s) = journal j s"
  by (rule journal_cong) simp

lemma journal_write_lot [simp]: "journal j (write_lot k f s) = journal j s"
  by (rule journal_cong) simp

lemma journal_write_line [simp]: "journal j (write_line k f s) = journal j s"
  by (rule journal_cong) simp

text \<open>
  C14: Without that proviso the stock goes wrong. When a line holds two reservations of one lot (what
  reserving, enlarging the line and reserving again leaves) and a quantity is consumed that reaches
  into the second, the consumption succeeds and the journal counts the whole quantity, but the second
  write of the lot undoes the first: the lot's row loses only what was taken from the second
  reservation, so the books no longer balance.
\<close>
theorem double_reservation_loses_update:
  assumes "reservations_ok s" and "row_get (db_order_lines s) k = Some line"
    and "line_reservations k s = [((i1, r1), l1), ((i2, r2), l2)]" and "rs_lot r1 = j" and "rs_lot r2 = j"
    and "rs_quantity r1 < q" and "q \<le> rs_quantity r1 + rs_quantity r2" and "outgoing mt"
  shows "\<exists>parts s'. consume_reserved_stock e u k q mt sh ct s = Inr (parts, s')
    \<and> sum_list (map snd parts) = q \<and> journal j s' = journal j s - q
    \<and> on_hand j s' = on_hand j s - (q - rs_quantity r1) \<and> \<not> books_ok s'"
proof -
  have claims: "lot_claims_ok s" using assms(1) by (simp add: reservations_ok_def)
  note ok = lot_claims_okD [OF claims]
  have mem: "((i1, r1), l1) \<in> set (line_reservations k s)" "((i2, r2), l2) \<in> set (line_reservations k s)"
    by (simp_all add: assms(3))
  then have pos: "0 < rs_quantity r1" "0 < rs_quantity r2" and rows: "row_get (db_lots s) j = Some l1"
    "row_get (db_lots s) j = Some l2"
    using ok(7) assms(4,5) by (auto simp: line_reservations_mem)
  let ?q2 = "q - rs_quantity r1"
  let ?p = "ol_product line"
  have sizes: "0 < ?q2" "?q2 = min ?q2 (rs_quantity r2)" "rs_quantity r1 = min q (rs_quantity r1)"
    using assms(6,7) by auto
  obtain m1 where m1: "mv_lot m1 = j" "signed_quantity m1 = - rs_quantity r1"
    and take1: "\<And>acc s. consume_one e u ?p mt sh ct ((i1, r1), l1) (q, acc, s) =
      (?q2, acc @ [(j, rs_quantity r1)], create_movement m1 (write_lot j (\<lambda>x. x\<lparr>quantity_reserved :=
          quantity_reserved l1 - rs_quantity r1, quantity_on_hand := quantity_on_hand l1 - rs_quantity r1\<rparr>)
        (settle i1 r1 (rs_quantity r1) s)))"
    using consume_one_take [OF pos(1) sizes(3) assms(8)] unfolding assms(4) by metis
  obtain m2 where m2: "mv_lot m2 = j" "signed_quantity m2 = - ?q2"
    and take2: "\<And>acc s. consume_one e u ?p mt sh ct ((i2, r2), l2) (?q2, acc, s) =
      (?q2 - ?q2, acc @ [(j, ?q2)], create_movement m2 (write_lot j (\<lambda>x. x\<lparr>quantity_reserved :=
          quantity_reserved l2 - ?q2, quantity_on_hand := quantity_on_hand l2 - ?q2\<rparr>) (settle i2 r2 ?q2 s)))"
    using consume_one_take [OF sizes(1,2) assms(8)] unfolding assms(5) by metis
  let ?f = "\<lambda>l. l\<lparr>ol_reserved_quantity := max 0 (ol_reserved_quantity l - q),
      ol_prepared_quantity := ol_prepared_quantity l + q\<rparr>"
  obtain parts s1 where pair: "fold (consume_one e u ?p mt sh ct) (line_reservations k s) (q, [], s)
      = (0, parts, s1)" and parts: "sum_list (map snd parts) = q"
    and j1: "journal j s1 = journal j s - q" and h1: "on_hand j s1 = on_hand j s - ?q2"
    using m1 m2 rows by (simp add: assms(3) take1 take2 journal_create on_hand_def row_get_upd)
  have run: "consume_reserved_stock e u k q mt sh ct s = Inr (parts, write_line k ?f s1)"
    using pair assms(2,6) pos(1) by (simp add: consume_reserved_stock_def raise_if_def)
  have "on_hand j (write_line k ?f s1) = on_hand j s - ?q2" using h1 by (simp add: on_hand_def)
  moreover have "journal j (write_line k ?f s1) = journal j s - q" by (simp add: j1)
  ultimately show ?thesis
    using run parts ok(6) [of j] pos(1) by (auto simp: books_ok_def intro!: exI [of _ j])
qed

definition doubled_db :: db where
  "doubled_db = ok_or order_db (reserve_stock_for_order sample_env 1
     (write_line 2 (\<lambda>l. l\<lparr>ol_quantity := 4\<rparr>) reserved_db))"

theorem double_reservation_loses_update_witness:
  "\<exists>parts s'. consume_reserved_stock sample_env None 2 4 Mv_Out None None doubled_db = Inr (parts, s')
     \<and> on_hand 3 doubled_db = 6 \<and> on_hand 3 s' = 4 \<and> journal 3 s' = 2 \<and> \<not> books_ok s'"
proof -
  let ?rows = "line_reservations 2 doubled_db"
  have hand: "on_hand 3 doubled_db = 6" by code_simp
  have jour: "journal 3 doubled_db = 6" by code_simp
  have some: "\<not> Option.is_none (row_get (db_order_lines doubled_db) 2)" by code_simp
  have two_rows: "length ?rows = 2" by code_simp
  have rows: "list_all (\<lambda>((_, r), _). rs_lot r = 3 \<and> rs_quantity r = 2) ?rows" by code_simp
  from some obtain line where line: "row_get (db_order_lines doubled_db) 2 = Some line"
    by (auto simp: Option.is_none_def)
  from two_rows rows obtain i1 r1 l1 i2 r2 l2 where two: "?rows = [((i1, r1), l1), ((i2, r2), l2)]"
    "rs_lot r1 = 3" "rs_lot r2 = 3" and q: "rs_quantity r1 = 2" "rs_quantity r2 = 2"
    by (auto simp: numeral_2_eq_2 length_Suc_conv)
  have "books_check doubled_db" by code_simp
  moreover have "claims_check doubled_db" by code_simp
  ultimately have "reservations_ok doubled_db" using claims_check books_check by blast
  moreover have "outgoing Mv_Out" by (simp add: outgoing_def)
  ultimately show ?thesis
    using double_reservation_loses_update [OF _ line two, of 4 Mv_Out sample_env None None None] q hand jour by auto
qed

text \<open>
  What is already prepared does not count: reserving an order again reserves, for a line all of
  whose quantity is prepared, the whole quantity a second time, although nothing of it remains to
  prepare.
\<close>
theorem reserve_ignores_prepared:
  assumes "reserve_stock_for_order e k s = Inr s'" and "reservations_ok s"
    and "row_get (db_order_lines s) i = Some l" and "ol_order l = k" and "0 < ol_quantity l"
    and "ol_prepared_quantity l = ol_quantity l" and "ol_reserved_quantity l = 0"
  shows "\<exists>l'. row_get (db_order_lines s') i = Some l' \<and> remaining_quantity l' = 0
    \<and> ol_reserved_quantity l' = ol_quantity l"
  using reserve_stock_for_order_spec(3) [OF assms(1,2,3,4)] assms(5-7)
  by (intro exI [of _ "l\<lparr>ol_reserved_quantity := max (ol_quantity l) (ol_reserved_quantity l)\<rparr>"])
    (simp add: remaining_quantity_def)

definition prepared_db :: db where
  "prepared_db = order_db\<lparr>
     db_orders := [(1, sample_order\<lparr>o_status := Ord_Preparing\<rparr>)],
     db_order_lines := [(1, \<lparr>ol_order = 1, ol_product = 1, ol_quantity = 6,
                             ol_reserved_quantity = 0, ol_prepared_quantity = 6\<rparr>)]\<rparr>"

theorem reserve_ignores_prepared_witness:
  "\<exists>s' l'. reserve_stock_for_order sample_env 1 prepared_db = Inr s'
     \<and> row_get (db_order_lines s') 1 = Some l' \<and> remaining_quantity l' = 0 \<and> ol_reserved_quantity l' = 6"
proof -
  have ok: "is_ok (reserve_stock_for_order sample_env 1 prepared_db)" and "books_check prepared_db"
    and "claims_check prepared_db" by code_simp+
  then obtain s' where run: "reserve_stock_for_order sample_env 1 prepared_db = Inr s'"
    and "reservations_ok prepared_db" using claims_check books_check by (auto simp: is_ok_iff)
  moreover have "row_get (db_order_lines prepared_db) 1 = Some \<lparr>ol_order = 1, ol_product = 1,
      ol_quantity = 6, ol_reserved_quantity = 0, ol_prepared_quantity = 6\<rparr>" by code_simp
  ultimately show ?thesis using reserve_ignores_prepared [of sample_env 1 prepared_db s' 1] by force
qed

end
