(* ===== verification/Code_Properties.thy ===== *)
theory Code_Properties
  imports Kits Carton_Codes Samples
begin

text \<open>
  The properties of the parts that operations on stock rest on: the expansion of kits and the guard
  of the kit table, the numbering of receipts, shipments and cartons, the readiness of a shipment.
  Each is followed by a use of it on concrete tables.
\<close>

section \<open>Kits\<close>

definition sample_kits :: "kit_item table" where
  "sample_kits =
     [(1, \<lparr>ki_kit = 5, ki_component = 4, ki_quantity = 3\<rparr>),
      (2, \<lparr>ki_kit = 5, ki_component = 1, ki_quantity = 1\<rparr>),
      (3, \<lparr>ki_kit = 4, ki_component = 1, ki_quantity = 2\<rparr>),
      (4, \<lparr>ki_kit = 4, ki_component = 2, ki_quantity = 1\<rparr>)]"

definition cyclic_kits :: "kit_item table" where
  "cyclic_kits =
     [(1, \<lparr>ki_kit = 5, ki_component = 4, ki_quantity = 3\<rparr>),
      (2, \<lparr>ki_kit = 4, ki_component = 5, ki_quantity = 2\<rparr>)]"

text \<open>
  C10: an expansion that returns lists each base product once, with the positive number of units
  that the reference count \<open>kit_units\<close> (a plain recursion to a fixed depth, without memo and
  stack) gives at every sufficient depth; a kit reaches no cycle then.
\<close>

theorem kit_expansion_counts:
  assumes "get_unit_component_quantities T (Some p) = Inr q"
  shows "distinct (map fst q) \<and> (\<forall>(c, n) \<in> set q. 0 < n \<and> kit_items_of T c = []) \<and>
    (\<exists>depth. \<forall>n \<ge> depth. \<forall>c. kit_units T n p c = qty_of q c) \<and> kit_grounded T p"
proof -
  from assms obtain memo where "unit_quantities T Map.empty [] p = Inr (q, memo)"
    by (auto simp: get_unit_component_quantities_def wms_ok)
  from unit_quantities_expands [OF this] show ?thesis
    by (simp add: expands_to_def)
qed

lemma kit_expansion_counts_witness:
  "\<exists>depth. \<forall>n \<ge> depth. kit_units sample_kits n 5 1 = 7 \<and> kit_units sample_kits n 5 2 = 3"
proof -
  have "get_unit_component_quantities sample_kits (Some 5) = Inr [(1, 7), (2, 3)]"
    by code_simp
  from kit_expansion_counts [OF this] show ?thesis by force
qed

text \<open>
  The only error of an expansion is \<open>KitCycleError\<close>, and the ids it carries are a real cycle
  of the kit table: at least two ids, the first equal to the last, each a counting component of
  the one before, and reachable from the product that was expanded.
\<close>

theorem kit_cycle_reported:
  assumes "get_unit_component_quantities T (Some p) = Inl err" and "0 \<notin> kit_ids T"
  shows "\<exists>cyc. err = Kit_Cycle_Error cyc \<and> 2 \<le> length cyc \<and> hd cyc = last cyc \<and>
    successively (kit_edge T) cyc \<and> kit_reach T p (hd cyc)"
proof -
  from assms(1) have "unit_quantities T Map.empty [] p = Inl err"
    by (auto simp: get_unit_component_quantities_def res_bind_def split: sum.splits)
  from unit_quantities_cycle [OF this] assms(2) show ?thesis
    by (auto simp: kit_cycle_def)
qed

lemma kit_cycle_reported_witness:
  "\<exists>err. get_unit_component_quantities cyclic_kits (Some 5) = Inl err \<and>
    (\<exists>cyc. err = Kit_Cycle_Error cyc \<and> hd cyc = last cyc)"
proof -
  have run: "get_unit_component_quantities cyclic_kits (Some 5) = Inl (Kit_Cycle_Error [5, 4, 5])"
    by code_simp
  have "0 \<notin> kit_ids cyclic_kits" by (simp add: kit_ids_def cyclic_kits_def)
  from kit_cycle_reported [OF run this] run show ?thesis by metis
qed

text \<open>
  C11: the guard of the kit table is enough. When a table without cycles takes a new item that
  \<open>ProductKitItem.clean\<close> has accepted, it has no cycle afterwards and every product expands.
\<close>

theorem kit_guard_keeps_expansion_total:
  assumes "kit_acyclic T" and "kit_item_clean T None item = Inr u"
    and "ki_kit item \<noteq> 0" and "ki_component item \<noteq> 0" and "0 \<notin> kit_ids T"
  shows "kit_acyclic (row_ins item T) \<and>
    (\<exists>q. get_unit_component_quantities (row_ins item T) (Some p) = Inr q)"
proof -
  have acyclic: "kit_acyclic (row_ins item T)"
    by (rule kit_acyclic_ins [OF assms(1) kit_item_clean_ok [OF assms(2-4)]])
  have "0 \<notin> kit_ids (row_ins item T)"
    using assms(3,5) by (auto simp: kit_ids_def row_ins_def)
  with unit_quantities_total [OF kit_acyclic_grounded [OF acyclic], of p]
  show ?thesis
    using acyclic by (auto simp: get_unit_component_quantities_def)
qed

lemma kit_guard_keeps_expansion_total_witness:
  "kit_acyclic (row_ins \<lparr>ki_kit = 7, ki_component = 6, ki_quantity = 2\<rparr> [])"
proof -
  have "kit_acyclic []"
    by (simp add: kit_acyclic_def kit_row_def tranclp_unfold)
  moreover have "kit_item_clean [] None \<lparr>ki_kit = 7, ki_component = 6, ki_quantity = 2\<rparr> = Inr ()"
    by code_simp
  ultimately show ?thesis
    using kit_guard_keeps_expansion_total [of "[]" "\<lparr>ki_kit = 7, ki_component = 6, ki_quantity = 2\<rparr>" "()"]
    by (simp add: kit_ids_def)
qed

section \<open>Numbering\<close>

text \<open>
  Shipment references drawn in one year are all different, whatever happens between two draws
  as long as the counters of the years are left to the generator.
\<close>

theorem shipment_references_never_repeat:
  assumes "\<And>e f. (e, f) \<in> set ds \<Longrightarrow> d_year (e_today e) = year"
    and "\<And>e f s. (e, f) \<in> set ds \<Longrightarrow> db_shipment_sequences (f s) = db_shipment_sequences s"
  shows "distinct (shipment_references ds s)"
  by (rule shipment_references_distinct [where year = year]) (fact assms)+

lemma shipment_references_never_repeat_witness:
  "distinct (shipment_references [(sample_env, \<lambda>s. s\<lparr>db_lots := []\<rparr>), (sample_env, \<lambda>s. s)] sample_db)
   \<and> shipment_references [(sample_env, \<lambda>s. s\<lparr>db_lots := []\<rparr>), (sample_env, \<lambda>s. s)] sample_db
       = [''260002'', ''260003'']"
proof
  show "distinct (shipment_references
      [(sample_env, \<lambda>s. s\<lparr>db_lots := []\<rparr>), (sample_env, \<lambda>s. s)] sample_db)"
    by (rule shipment_references_never_repeat [where year = 2026])
      (auto simp: sample_env_def e_today_def)
qed code_simp

text \<open>
  Receipt references of one year are all different, across donors: the number of the year
  alone tells them apart.
\<close>

theorem receipt_references_never_repeat:
  assumes "\<And>e d c f. (e, d, c, f) \<in> set ds \<Longrightarrow>
      d_year (case d of Some x \<Rightarrow> x | None \<Rightarrow> e_today e) = year"
    and "\<And>e d c f s. (e, d, c, f) \<in> set ds \<Longrightarrow> db_receipt_sequences (f s) = db_receipt_sequences s"
  shows "distinct (receipt_references ds s)"
  by (rule receipt_references_distinct [where year = year]) (fact assms)+

lemma receipt_references_never_repeat_witness:
  "distinct (receipt_references
     [(sample_env, None, None, \<lambda>s. s), (sample_env, Some (Date 2026 5 1), Some 4, \<lambda>s. s)] sample_db)"
  by (rule receipt_references_never_repeat [where year = 2026])
    (auto simp: sample_env_def e_today_def)

text \<open>
  The parser of receipt references inverts their formatter, for numbers of any length and
  every donor fragment the generator can produce.
\<close>

theorem receipt_reference_parses_back:
  assumes "donor = normalize_reference_fragment e name 3"
  shows "match_receipt_reference (format_receipt_reference year number donor count)
    = Some (year_prefix year, zero_pad 2 number, donor, zero_pad 2 count)"
  by (rule match_format_receipt) (use reference_fragment_shape [of e name 3] assms in simp_all)

lemma receipt_reference_parses_back_witness:
  "match_receipt_reference (format_receipt_reference 2026 117 (normalize_reference_fragment sample_env ''Croix'' 3) 4)
     = Some (''26'', ''117'', ''CRO'', ''04'')"
proof -
  have "normalize_reference_fragment sample_env ''Croix'' 3 = ''CRO''" and "year_prefix 2026 = ''26''"
    and "zero_pad 2 117 = ''117''" and "zero_pad 2 4 = ''04''"
    by code_simp+
  with receipt_reference_parses_back [of "normalize_reference_fragment sample_env ''Croix'' 3"
      sample_env "''Croix''" 2026 117 4]
  show ?thesis by simp
qed

text \<open>
  C13: reassigning the code of a carton keeps the codes of the table unique, changes the code of no
  other carton, and touches nothing but the code and the family counters.
\<close>

theorem carton_codes_stay_unique:
  assumes "ensure_carton_code e k manual tc s = Inr s'" and "codes_unique s"
    and "keys_ok (db_cartons s)"
  shows "codes_unique s' \<and>
    (\<forall>j. j \<noteq> k \<longrightarrow> row_get (db_cartons s') j = row_get (db_cartons s) j) \<and>
    (\<exists>t q. s' = s\<lparr>db_cartons := t, db_carton_sequences := q\<rparr>)"
proof -
  note rec = ensure_carton_code_recoded [OF assms(1)]
  then have "\<forall>j. j \<noteq> k \<longrightarrow> row_get (db_cartons s') j = row_get (db_cartons s) j"
    by (auto simp: recoded_def row_get_upd)
  with recoded_unique [OF rec assms(2,3)] recoded_frame [OF rec] show ?thesis by blast
qed

definition recode_db :: db where
  "recode_db = sample_db\<lparr>db_cartons := [(1, sample_carton ''AA-00001'' Ct_Draft None),
     (2, sample_carton ''MM-00001'' Ct_Draft None)]\<rparr>"

lemma carton_codes_stay_unique_witness:
  "\<exists>s'. ensure_carton_code sample_env 1 False (Some ''MM'') recode_db = Inr s' \<and> codes_unique s' \<and>
     map_option c_code (row_get (db_cartons s') 1) = Some ''MM-00002''"
proof -
  have run: "case ensure_carton_code sample_env 1 False (Some ''MM'') recode_db of
      Inl x \<Rightarrow> False
    | Inr t \<Rightarrow> map_option c_code (row_get (db_cartons t) 1) = Some ''MM-00002''"
    by code_simp
  then obtain s' where s': "ensure_carton_code sample_env 1 False (Some ''MM'') recode_db = Inr s'"
    and code: "map_option c_code (row_get (db_cartons s') 1) = Some ''MM-00002''"
    by (auto split: sum.splits)
  have "codes_unique recode_db" and "keys_ok (db_cartons recode_db)" by code_simp+
  from carton_codes_stay_unique [OF s' this] s' code show ?thesis by blast
qed

section \<open>Readiness\<close>

text \<open>
  C12: After \<open>sync_shipment_ready_state\<close> a shipment that is neither planned nor shipped, received or
  delivered is a draft exactly when it has no carton, packed exactly when it has cartons and all of
  them are labelled or shipped, and in picking otherwise; \<open>ready_at\<close> is set exactly when it is packed.
  The other shipments keep their row; no carton changes; a second synchronisation, at any later time,
  changes nothing.
\<close>
theorem readiness_follows_cartons:
  assumes "sync_shipment_ready_state e k s = Inr s'" and "row_get (db_shipments s) k = Some r"
  shows "(\<exists>r'. row_get (db_shipments s') k = Some r' \<and>
      (if s_status r \<in> {Ship_Planned, Ship_Shipped, Ship_Received_Correspondent, Ship_Delivered} then r' = r
       else (s_status r' = Ship_Draft \<longleftrightarrow> (\<forall>(j, c) \<in> set (db_cartons s). c_shipment c \<noteq> Some k))
          \<and> (s_status r' = Ship_Packed \<longleftrightarrow> (\<exists>(j, c) \<in> set (db_cartons s). c_shipment c = Some k)
               \<and> (\<forall>(j, c) \<in> set (db_cartons s). c_shipment c = Some k \<longrightarrow> c_status c \<in> {Ct_Labeled, Ct_Shipped}))
          \<and> s_status r' \<in> {Ship_Draft, Ship_Picking, Ship_Packed}
          \<and> (s_ready_at r' \<noteq> None \<longleftrightarrow> s_status r' = Ship_Packed)))
    \<and> db_cartons s' = db_cartons s \<and> sync_shipment_ready_state e' k s' = Inr s'"
proof -
  obtain r' where r': "row_get (db_shipments s') k = Some r'" and st: "if locked_shipment_status (s_status r)
      then r' = r else s_status r' = progress_status k s \<and> (s_ready_at r' \<noteq> None \<longleftrightarrow> s_status r' = Ship_Packed)"
    using sync_row [OF assms] by blast
  have mem: "set (carton_set k s) = {(j, c) \<in> set (db_cartons s). c_shipment c = Some k}"
    by (auto simp: carton_set_def rows_where_def)
  have "carton_set k s = [] \<longleftrightarrow> (\<forall>(j, c) \<in> set (db_cartons s). c_shipment c \<noteq> Some k)"
    by (auto simp: carton_set_def rows_where_def filter_empty_conv)
  moreover have "db_cartons s' = db_cartons s" using sync_frame [OF assms(1)] by auto
  ultimately show ?thesis
    using r' st sync_idempotent [OF assms] mem
    by (auto simp: locked_shipment_status_def progress_status_def split: if_splits)
qed

definition ready_db :: db where
  "ready_db = sample_db\<lparr>db_cartons := [(1, sample_carton ''MM-00001'' Ct_Labeled (Some 1)),
     (2, sample_carton ''MM-00002'' Ct_Shipped (Some 1))]\<rparr>"

theorem readiness_follows_cartons_witness:
  "\<exists>s'. sync_shipment_ready_state sample_env 1 ready_db = Inr s' \<and>
     sync_shipment_ready_state sample_env 1 s' = Inr s' \<and>
     map_option s_status (row_get (db_shipments s') 1) = Some Ship_Packed"
proof -
  have run: "case sync_shipment_ready_state sample_env 1 ready_db of
      Inl x \<Rightarrow> False
    | Inr t \<Rightarrow> map_option s_status (row_get (db_shipments t) 1) = Some Ship_Packed"
    by code_simp
  then obtain s' where s': "sync_shipment_ready_state sample_env 1 ready_db = Inr s'"
    and st: "map_option s_status (row_get (db_shipments s') 1) = Some Ship_Packed"
    by (auto split: sum.splits)
  obtain r where "row_get (db_shipments ready_db) 1 = Some r"
    by (simp add: ready_db_def sample_db_def row_get_def)
  from readiness_follows_cartons [OF s' this] s' st show ?thesis by blast
qed

end
