(* ===== verification/Tracking.thy ===== *)
theory Tracking
  imports Carton_Status
begin

text \<open>
  The tracking of shipments: \<open>wms/shipment_tracking_handlers.py\<close> (the state machine of a
  shipment's statuses, the tracking form, disputes), the tracking and closing end points of
  \<open>api/v1/ui_views.py\<close>, and the closing of a case on the tracking page
  (\<open>wms/views_scan_shipments.py\<close>, \<open>wms/views_scan_shipments_support.py\<close>,
  \<open>wms/shipment_view_helpers.py\<close>). A request is what a handler reads of it: the method, the
  action field, the user; redirects and flash messages are the constructors of a response.
\<close>

section \<open>The state machine\<close>

definition tracking_target :: "tracking_status \<Rightarrow> shipment_status" where
  "tracking_target t =
     (case t of
        Tr_Planning_Ok \<Rightarrow> Ship_Packed
      | Tr_Planned \<Rightarrow> Ship_Planned
      | Tr_Moved_Export \<Rightarrow> Ship_Planned
      | Tr_Boarding_Ok \<Rightarrow> Ship_Shipped
      | Tr_Received_Correspondent \<Rightarrow> Ship_Received_Correspondent
      | Tr_Received_Recipient \<Rightarrow> Ship_Delivered)"

definition dispute_resettable :: "shipment_status \<Rightarrow> bool" where
  "dispute_resettable st \<longleftrightarrow>
     st \<in> {Ship_Planned, Ship_Shipped, Ship_Received_Correspondent, Ship_Delivered}"

definition assigned_or_ready :: "carton_status \<Rightarrow> bool" where
  "assigned_or_ready st \<longleftrightarrow> st \<in> {Ct_Assigned, Ct_Labeled, Ct_Shipped}"

definition ready_carton :: "carton_status \<Rightarrow> bool" where
  "ready_carton st \<longleftrightarrow> st \<in> {Ct_Labeled, Ct_Shipped}"

text \<open>The events of a shipment, latest first (\<open>ShipmentTrackingEvent.Meta.ordering\<close>).\<close>

definition tracking_events_of :: "nat \<Rightarrow> db \<Rightarrow> (nat \<times> tracking_event) list" where
  "tracking_events_of k s =
     sort_key (\<lambda>(_, t). - te_created_at t) (rows_where (\<lambda>_ t. te_shipment t = k) (db_tracking s))"

definition latest_tracking_status :: "nat \<Rightarrow> db \<Rightarrow> tracking_status option" where
  "latest_tracking_status k s =
     (case tracking_events_of k s of [] \<Rightarrow> None | (_, t) # _ \<Rightarrow> Some (te_status t))"

definition allowed_statuses :: "shipment_status \<Rightarrow> tracking_status option \<Rightarrow> tracking_status list" where
  "allowed_statuses current last_status =
     (if current = Ship_Delivered then []
      else if current = Ship_Received_Correspondent then [Tr_Received_Recipient]
      else if current = Ship_Shipped then [Tr_Received_Correspondent]
      else if current = Ship_Planned then
        (if last_status = Some Tr_Moved_Export then [Tr_Boarding_Ok] else [Tr_Moved_Export, Tr_Boarding_Ok])
      else if current = Ship_Packed then
        (if last_status = Some Tr_Planning_Ok then [Tr_Planned] else [Tr_Planning_Ok])
      else if current \<in> {Ship_Draft, Ship_Picking} then [Tr_Planning_Ok]
      else [])"

definition allowed_tracking_statuses_for_shipment :: "nat \<Rightarrow> shipment \<Rightarrow> db \<Rightarrow> tracking_status list" where
  "allowed_tracking_statuses_for_shipment k shipment s =
     allowed_statuses (s_status shipment) (latest_tracking_status k s)"

datatype tracking_error =
  Transition_Non_Autorisee | Aucun_Colis | Colis_Non_Affectes | Colis_Non_Etiquetes

definition count_status :: "(carton_status \<Rightarrow> bool) \<Rightarrow> nat \<Rightarrow> db \<Rightarrow> nat" where
  "count_status P k s = length (filter (\<lambda>(_, c). P (c_status c)) (carton_set k s))"

definition validate_ready_for_planning :: "nat \<Rightarrow> db \<Rightarrow> tracking_error option" where
  "validate_ready_for_planning k s =
     (let total = length (carton_set k s);
          assigned = count_status assigned_or_ready k s;
          ready = count_status ready_carton k s
      in if total = 0 then Some Aucun_Colis
         else if assigned < total then Some Colis_Non_Affectes
         else if ready < total then Some Colis_Non_Etiquetes
         else None)"

definition planning_status :: "tracking_status \<Rightarrow> bool" where
  "planning_status t \<longleftrightarrow> t \<in> {Tr_Planning_Ok, Tr_Planned, Tr_Moved_Export, Tr_Boarding_Ok}"

definition validate_tracking_transition ::
    "nat \<Rightarrow> shipment \<Rightarrow> tracking_status \<Rightarrow> db \<Rightarrow> tracking_error option" where
  "validate_tracking_transition k shipment status_value s =
     (if status_value \<notin> set (allowed_tracking_statuses_for_shipment k shipment s)
      then Some Transition_Non_Autorisee
      else if planning_status status_value then validate_ready_for_planning k s
      else None)"

section \<open>Requests\<close>

record request =
  rq_is_post :: bool
  rq_action :: string
  rq_user :: "nat option"
  rq_is_staff :: bool

record tracking_form =
  tf_status :: tracking_status
  tf_actor_name :: string
  tf_actor_structure :: string
  tf_comments :: string

datatype tracking_response =
    Not_Handled | Litige_Staff | Litige_Marque | Litige_Resolu | Litige_A_Resoudre
  | Form_Refused "tracking_error option" | Suivi_Mis_A_Jour

definition can_manage_dispute :: "request \<Rightarrow> bool" where
  "can_manage_dispute rq \<longleftrightarrow> rq_user rq \<noteq> None \<and> rq_is_staff rq"

text \<open>The cartons of a shipment in the order of \<open>Carton.Meta\<close>; the statuses set in a loop.\<close>

definition cartons_of_shipment :: "nat \<Rightarrow> db \<Rightarrow> (nat \<times> carton) list" where
  "cartons_of_shipment k s = sort_key (\<lambda>(_, c). - c_created_at c) (carton_set k s)"

definition set_carton_statuses ::
    "env \<Rightarrow> nat option \<Rightarrow> carton_status \<Rightarrow> string \<Rightarrow> (nat \<times> carton) list \<Rightarrow> db \<Rightarrow> db" where
  "set_carton_statuses e user new reason cartons s =
     fold (\<lambda>(i, _) t. snd (set_carton_status e i new user reason id t)) cartons s"

section \<open>Disputes\<close>

definition set_disputed :: "env \<Rightarrow> nat \<Rightarrow> shipment \<Rightarrow> db \<Rightarrow> err + db" where
  "set_disputed e k shipment s =
     (if s_is_disputed shipment then Inr s
      else shipment_save e k (\<lambda>r. r\<lparr>s_is_disputed := True, s_disputed_at := Some (e_now e)\<rparr>) s)"

text \<open>The three parts of \<open>updates\<close>, as one assignment to the object.\<close>

definition dispute_updates :: "env \<Rightarrow> shipment \<Rightarrow> shipment \<Rightarrow> shipment" where
  "dispute_updates e shipment r =
     (let r1 = (if s_is_disputed shipment then r\<lparr>s_is_disputed := False, s_disputed_at := None\<rparr> else r)
      in if dispute_resettable (s_status shipment)
         then (if s_ready_at shipment = None then r1\<lparr>s_status := Ship_Packed, s_ready_at := Some (e_now e)\<rparr>
               else r1\<lparr>s_status := Ship_Packed\<rparr>)
         else r1)"

definition resolve_dispute :: "env \<Rightarrow> nat option \<Rightarrow> nat \<Rightarrow> shipment \<Rightarrow> db \<Rightarrow> err + db" where
  "resolve_dispute e user k shipment s =
     (if s_is_disputed shipment \<or> dispute_resettable (s_status shipment)
      then res_bind (shipment_save e k (dispute_updates e shipment) s) (\<lambda>s1.
        sync_shipment_ready_state e k
          (if s_status shipment \<in> {Ship_Shipped, Ship_Received_Correspondent, Ship_Delivered}
           then set_carton_statuses e user Ct_Labeled ''dispute_resolve_reset''
                  (filter (\<lambda>(_, c). c_status c = Ct_Shipped) (cartons_of_shipment k s1)) s1
           else s1))
      else Inr s)"

definition handle_dispute_action ::
    "env \<Rightarrow> request \<Rightarrow> nat \<Rightarrow> shipment \<Rightarrow> db \<Rightarrow> err + tracking_response option \<times> db" where
  "handle_dispute_action e rq k shipment s =
     (let action = strip (rq_action rq) in
      if action \<in> {''set_disputed'', ''resolve_dispute''} \<and> \<not> can_manage_dispute rq
      then Inr (Some Litige_Staff, s)
      else if action = ''set_disputed''
      then res_bind (set_disputed e k shipment s) (\<lambda>s1. Inr (Some Litige_Marque, s1))
      else if action \<noteq> ''resolve_dispute'' then Inr (None, s)
      else res_bind (resolve_dispute e (rq_user rq) k shipment s) (\<lambda>s1. Inr (Some Litige_Resolu, s1)))"

section \<open>The tracking form\<close>

text \<open>
  \<open>ShipmentTrackingForm\<close>: the posted fields, cleaned. The status must be one of the choices the form was
  built with, the name and the structure are required and short; the texts are stripped.
\<close>

definition clean_actor :: "string \<Rightarrow> string option" where
  "clean_actor x =
     (let y = strip x in if y = [] \<or> 120 < length y \<or> CHR 0x00 \<in> set y then None else Some y)"

definition clean_tracking_form :: "tracking_status list \<Rightarrow> tracking_form \<Rightarrow> tracking_form option" where
  "clean_tracking_form choices f =
     (case (clean_actor (tf_actor_name f), clean_actor (tf_actor_structure f)) of
        (Some name, Some structure) \<Rightarrow>
          if tf_status f \<notin> set choices \<or> CHR 0x00 \<in> set (tf_comments f) then None
          else Some (f\<lparr>tf_actor_name := name, tf_actor_structure := structure, tf_comments := strip (tf_comments f)\<rparr>)
      | _ \<Rightarrow> None)"

definition create_tracking_event :: "env \<Rightarrow> nat option \<Rightarrow> nat \<Rightarrow> tracking_form \<Rightarrow> db \<Rightarrow> db" where
  "create_tracking_event e user k form s = s\<lparr>db_tracking := row_ins
     \<lparr>te_shipment = k, te_status = tf_status form, te_actor_name = tf_actor_name form,
      te_actor_structure = tf_actor_structure form, te_comments = tf_comments form,
      te_created_by = user, te_created_at = e_now e\<rparr> (db_tracking s)\<rparr>"

text \<open>What follows the event: the status of the shipment and, on boarding, of its cartons.\<close>

definition advance_shipment :: "env \<Rightarrow> nat option \<Rightarrow> nat \<Rightarrow> shipment \<Rightarrow> tracking_status \<Rightarrow> db \<Rightarrow> err + db" where
  "advance_shipment e user k shipment status_value s =
     (let target = tracking_target status_value in
      if s_status shipment = target then Inr s
      else res_bind (shipment_save e k (\<lambda>r. if target = Ship_Packed \<and> s_ready_at shipment = None
                then r\<lparr>s_status := target, s_ready_at := Some (e_now e)\<rparr>
                else r\<lparr>s_status := target\<rparr>) s) (\<lambda>s1.
        if target = Ship_Shipped
        then Inr (set_carton_statuses e user Ct_Shipped ''tracking_boarding_ok''
               (filter (\<lambda>(_, c). c_status c \<noteq> Ct_Shipped) (cartons_of_shipment k s1)) s1)
        else Inr s1))"

text \<open>
  \<open>handle_shipment_tracking_post\<close>: \<open>form\<close> is what was posted (\<open>None\<close> when nothing was, or a status that
  does not exist). The view loads the shipment and builds the form, with the statuses allowed at that
  moment as its choices, right before. The handler runs outside a transaction; the one statement that can raise,
  the save of the shipment, raises only when the reference a draft is promoted to is taken.
\<close>

definition handle_shipment_tracking_post ::
    "env \<Rightarrow> request \<Rightarrow> nat \<Rightarrow> tracking_form option \<Rightarrow> db \<Rightarrow> err + tracking_response \<times> db" where
  "handle_shipment_tracking_post e rq k form s =
     (if \<not> rq_is_post rq then Inr (Not_Handled, s)
      else res_bind (require (row_get (db_shipments s) k) Does_Not_Exist) (\<lambda>shipment.
        res_bind (handle_dispute_action e rq k shipment s) (\<lambda>(response, s1).
          case response of
            Some r \<Rightarrow> Inr (r, s1)
          | None \<Rightarrow>
              if s_is_disputed shipment then Inr (Litige_A_Resoudre, s1)
              else case Option.bind form (clean_tracking_form (allowed_tracking_statuses_for_shipment k shipment s)) of
                None \<Rightarrow> Inr (Form_Refused None, s1)
              | Some f \<Rightarrow>
                  (case validate_tracking_transition k shipment (tf_status f) s1 of
                     Some error \<Rightarrow> Inr (Form_Refused (Some error), s1)
                   | None \<Rightarrow>
                       res_bind (advance_shipment e (rq_user rq) k shipment (tf_status f)
                           (create_tracking_event e (rq_user rq) k f s1)) (\<lambda>s2.
                         Inr (Suivi_Mis_A_Jour, s2))))))"

section \<open>The end point of the API\<close>

datatype 'a api_response = Api_Ok 'a | Api_Not_Found | Api_Conflict | Api_Invalid "tracking_error option"

text \<open>
  \<open>UiShipmentTrackingEventCreateView.post\<close>: the serializer asks of the fields what the form asks of
  them, and the form adds that the status is one of those allowed.
\<close>

definition api_tracking_event ::
    "env \<Rightarrow> nat option \<Rightarrow> nat \<Rightarrow> tracking_form option \<Rightarrow> db \<Rightarrow> err + nat api_response \<times> db" where
  "api_tracking_event e user k form s =
     (case row_get (db_shipments s) k of
        None \<Rightarrow> Inr (Api_Not_Found, s)
      | Some shipment \<Rightarrow>
          if s_archived_at shipment \<noteq> None then Inr (Api_Not_Found, s)
          else if s_is_disputed shipment then Inr (Api_Conflict, s)
          else case Option.bind form (clean_tracking_form (allowed_tracking_statuses_for_shipment k shipment s)) of
            None \<Rightarrow> Inr (Api_Invalid None, s)
          | Some f \<Rightarrow>
              (case validate_tracking_transition k shipment (tf_status f) s of
                Some error \<Rightarrow> Inr (Api_Invalid (Some error), s)
              | None \<Rightarrow>
                  res_bind (advance_shipment e user k shipment (tf_status f)
                      (create_tracking_event e user k f s)) (\<lambda>s1.
                    Inr (Api_Ok (next_pk (db_tracking s)), s1))))"

section \<open>Closing a case\<close>

definition on_tracking_page :: "shipment \<Rightarrow> bool" where
  "on_tracking_page r \<longleftrightarrow> s_archived_at r = None \<and>
     s_status r \<in> {Ship_Planned, Ship_Shipped, Ship_Received_Correspondent, Ship_Delivered}"

text \<open>\<open>Max(created_at)\<close> over the events with a status, as the annotations of the query.\<close>

definition tracked_at :: "tracking_status \<Rightarrow> nat \<Rightarrow> db \<Rightarrow> int option" where
  "tracked_at st k s =
     (case [te_created_at t. (_, t) \<leftarrow> tracking_events_of k s, te_status t = st] of
        [] \<Rightarrow> None
      | t # ts \<Rightarrow> Some (fold max ts t))"

definition shipment_can_be_closed :: "nat \<Rightarrow> shipment \<Rightarrow> db \<Rightarrow> bool" where
  "shipment_can_be_closed k r s =
     (let planned_at = tracked_at Tr_Planned k s;
          boarding_ok_at = tracked_at Tr_Boarding_Ok k s;
          shipped_at = (case tracked_at Tr_Boarding_Ok k s of None \<Rightarrow> boarding_ok_at | Some t \<Rightarrow> Some t);
          received_correspondent_at = tracked_at Tr_Received_Correspondent k s;
          delivered_at = tracked_at Tr_Received_Recipient k s;
          steps_complete = list_all (\<lambda>t. t \<noteq> None)
            [planned_at, boarding_ok_at, shipped_at, received_correspondent_at, delivered_at];
          is_fully_completed = (steps_complete \<and> s_status r = Ship_Delivered)
      in is_fully_completed \<and> \<not> s_is_disputed r \<and> s_closed_at r = None)"

datatype close_response = Expedition_Introuvable | Deja_Cloture | Etapes_Restantes | Cloture

definition close_shipment_case :: "env \<Rightarrow> nat option \<Rightarrow> nat \<Rightarrow> db \<Rightarrow> err + close_response \<times> db" where
  "close_shipment_case e user k s =
     (case row_get (db_shipments s) k of
        None \<Rightarrow> Inr (Expedition_Introuvable, s)
      | Some r \<Rightarrow>
          if \<not> on_tracking_page r then Inr (Expedition_Introuvable, s)
          else if s_closed_at r \<noteq> None then Inr (Deja_Cloture, s)
          else if \<not> shipment_can_be_closed k r s then Inr (Etapes_Restantes, s)
          else res_bind (shipment_save e k (\<lambda>x. x\<lparr>s_closed_at := Some (e_now e), s_closed_by := user\<rparr>) s)
                 (\<lambda>s1. Inr (Cloture, s1)))"

text \<open>\<open>UiShipmentCloseView.post\<close>, the same through the API.\<close>

definition api_close_shipment :: "env \<Rightarrow> nat option \<Rightarrow> nat \<Rightarrow> db \<Rightarrow> err + close_response api_response \<times> db" where
  "api_close_shipment e user k s =
     (case row_get (db_shipments s) k of
        None \<Rightarrow> Inr (Api_Not_Found, s)
      | Some r \<Rightarrow>
          if s_archived_at r \<noteq> None then Inr (Api_Not_Found, s)
          else if s_closed_at r \<noteq> None then Inr (Api_Ok Deja_Cloture, s)
          else if \<not> on_tracking_page r \<or> \<not> shipment_can_be_closed k r s then Inr (Api_Conflict, s)
          else res_bind (shipment_save e k (\<lambda>x. x\<lparr>s_closed_at := Some (e_now e), s_closed_by := user\<rparr>) s)
                 (\<lambda>s1. Inr (Api_Ok Cloture, s1)))"

section \<open>What the parts change\<close>

lemma clean_tracking_form_Some:
  assumes "clean_tracking_form choices f = Some g"
  shows "tf_status g = tf_status f" and "tf_status f \<in> set choices"
  using assms by (auto simp: clean_tracking_form_def split: option.splits if_splits)

lemma set_carton_status_id_row:
  "row_get (db_cartons (snd (set_carton_status e k new user reason id s))) j
     = map_option (\<lambda>c. if j = k then c\<lparr>c_status := new\<rparr> else c) (row_get (db_cartons s) j)"
proof (cases "row_get (db_cartons s) k")
  case None
  then show ?thesis by (cases "row_get (db_cartons s) j") (auto simp: set_carton_status_def)
next
  case (Some c)
  show ?thesis
  proof (cases "c_status c = new")
    case True
    then have "c\<lparr>c_status := new\<rparr> = c" by (cases c) simp
    with True Some show ?thesis
      by (cases "row_get (db_cartons s) j") (auto simp: set_carton_status_same)
  next
    case False
    with Some show ?thesis
      by (cases "row_get (db_cartons s) j") (auto simp: set_carton_status_row)
  qed
qed

lemma set_carton_statuses_row:
  "row_get (db_cartons (set_carton_statuses e user new reason cartons s)) j
     = map_option (\<lambda>c. if j \<in> fst ` set cartons then c\<lparr>c_status := new\<rparr> else c) (row_get (db_cartons s) j)"
proof (induction cartons arbitrary: s)
  case Nil
  then show ?case by (simp add: set_carton_statuses_def option.map_ident)
next
  case (Cons a cartons)
  obtain i c where a: "a = (i, c)" by (cases a)
  have step: "set_carton_statuses e user new reason (a # cartons) s
      = set_carton_statuses e user new reason cartons (snd (set_carton_status e i new user reason id s))"
    by (simp add: set_carton_statuses_def a)
  show ?case
    unfolding step Cons.IH set_carton_status_id_row
    by (cases "row_get (db_cartons s) j") (auto simp: a)
qed

lemma set_carton_status_keys:
  "keys_ok (db_cartons s) \<Longrightarrow> keys_ok (db_cartons (snd (set_carton_status e k new user reason assign s)))"
  by (auto simp: set_carton_status_def record_carton_status_event_def keys_ok_upd split: option.splits)

lemma set_carton_statuses_keys:
  "keys_ok (db_cartons s) \<Longrightarrow> keys_ok (db_cartons (set_carton_statuses e user new reason cartons s))"
  unfolding set_carton_statuses_def
  by (induction cartons arbitrary: s) (auto intro: set_carton_status_keys)

lemma set_carton_statuses_frame:
  "\<exists>t v. set_carton_statuses e user new reason cartons s = s\<lparr>db_cartons := t, db_carton_events := v\<rparr>"
proof (induction cartons arbitrary: s)
  case Nil
  have "s = s\<lparr>db_cartons := db_cartons s, db_carton_events := db_carton_events s\<rparr>" by simp
  then show ?case by (simp only: set_carton_statuses_def fold_simps) blast
next
  case (Cons a cartons)
  obtain i c where a: "a = (i, c)" by (cases a)
  obtain t v where "snd (set_carton_status e i new user reason id s)
      = s\<lparr>db_cartons := t, db_carton_events := v\<rparr>"
    using set_carton_status_frame by blast
  with Cons [of "s\<lparr>db_cartons := t, db_carton_events := v\<rparr>"] show ?case
    by (simp add: set_carton_statuses_def a)
qed

lemma cartons_of_shipment_mem:
  "keys_ok (db_cartons s) \<Longrightarrow> (i, c) \<in> set (cartons_of_shipment k s)
     \<longleftrightarrow> row_get (db_cartons s) i = Some c \<and> c_shipment c = Some k"
  by (simp add: cartons_of_shipment_def carton_set_def rows_where_mem row_get_iff)

end
