(* ===== verification/Carton_Handlers.thy ===== *)
theory Carton_Handlers
  imports Packing Tracking
begin

text \<open>
  The actions on a carton of the list of cartons (\<open>wms/carton_handlers.py\<close>), the movements the
  administration writes when a carton changes its shipment (\<open>wms/admin_carton_handlers.py\<close>), and
  the data of the packing page (\<open>wms/scan_carton_helpers.py\<close>).
\<close>

section \<open>Guards\<close>

definition handler_locked_status :: "shipment_status \<Rightarrow> bool" where
  "handler_locked_status st \<longleftrightarrow>
     st \<in> {Ship_Planned, Ship_Shipped, Ship_Received_Correspondent, Ship_Delivered}"

definition mutation_blocked_status :: "shipment_status \<Rightarrow> bool" where
  "mutation_blocked_status st \<longleftrightarrow> st \<in> {Ship_Shipped, Ship_Received_Correspondent, Ship_Delivered}"

definition shipment_of_carton :: "carton \<Rightarrow> db \<Rightarrow> shipment option" where
  "shipment_of_carton c s = (case c_shipment c of None \<Rightarrow> None | Some k \<Rightarrow> row_get (db_shipments s) k)"

definition shipment_is_locked :: "carton \<Rightarrow> db \<Rightarrow> bool" where
  "shipment_is_locked c s =
     (case shipment_of_carton c s of
        None \<Rightarrow> False
      | Some sh \<Rightarrow> if handler_locked_status (s_status sh) then True else s_is_disputed sh)"

definition carton_can_be_mutated :: "carton option \<Rightarrow> db \<Rightarrow> bool" where
  "carton_can_be_mutated carton s =
     (case carton of
        None \<Rightarrow> False
      | Some c \<Rightarrow>
          if c_status c = Ct_Shipped then False
          else case shipment_of_carton c s of
            None \<Rightarrow> True
          | Some sh \<Rightarrow> if s_is_disputed sh then False else \<not> mutation_blocked_status (s_status sh))"

section \<open>The actions\<close>

text \<open>The values of \<open>CartonStatus\<close> as the form posts them.\<close>

definition carton_status_value :: "string \<Rightarrow> carton_status option" where
  "carton_status_value v =
     map_of [(''draft'', Ct_Draft), (''picking'', Ct_Picking), (''packed'', Ct_Packed),
             (''assigned'', Ct_Assigned), (''labeled'', Ct_Labeled), (''shipped'', Ct_Shipped)] v"

text \<open>
  \<open>carton.delete()\<close> with what the foreign keys to \<open>Carton\<close> say: items and status events go with
  it, movements lose their link.
\<close>

definition delete_carton_row :: "nat \<Rightarrow> db \<Rightarrow> db" where
  "delete_carton_row k s = s\<lparr>
     db_cartons := row_del k (db_cartons s),
     db_carton_items := rows_where (\<lambda>_ i. it_carton i \<noteq> k) (db_carton_items s),
     db_carton_events := rows_where (\<lambda>_ v. ce_carton v \<noteq> k) (db_carton_events s),
     db_movements := map (\<lambda>(i, m). (i, if mv_related_carton m = Some k
        then m\<lparr>mv_related_carton := None\<rparr> else m)) (db_movements s)\<rparr>"

definition delete_carton :: "env \<Rightarrow> nat option \<Rightarrow> nat \<Rightarrow> carton \<Rightarrow> db \<Rightarrow> err + db" where
  "delete_carton e user k c s =
     (if \<not> carton_can_be_mutated (Some c) s then Inr s
      else case (if carton_items_of k s \<noteq> [] then unpack_carton e user k s else Inr s) of
        Inl (Stock_Error _) \<Rightarrow> Inr s
      | Inl x \<Rightarrow> Inl x
      | Inr s1 \<Rightarrow>
          (case c_shipment c of
             None \<Rightarrow> Inr (delete_carton_row k s1)
           | Some sh \<Rightarrow> sync_shipment_ready_state e sh (delete_carton_row k s1)))"

definition mark_carton ::
    "env \<Rightarrow> nat option \<Rightarrow> carton_status set \<Rightarrow> carton_status \<Rightarrow> string \<Rightarrow> nat \<Rightarrow> carton \<Rightarrow> nat \<Rightarrow> db \<Rightarrow> err + db" where
  "mark_carton e user from new reason k c sh s =
     (if c_status c \<in> from
      then sync_shipment_ready_state e sh (snd (set_carton_status e k new user reason id s))
      else Inr s)"

text \<open>
  \<open>handle_carton_status_update\<close>: whether the request was one of its actions (it redirects then),
  and the state. \<open>carton_id\<close> is the posted key.
\<close>

definition handle_carton_status_update ::
    "env \<Rightarrow> request \<Rightarrow> nat \<Rightarrow> string \<Rightarrow> db \<Rightarrow> err + bool \<times> db" where
  "handle_carton_status_update e rq carton_id status s =
     (let action = strip (rq_action rq); user = rq_user rq in
      if \<not> rq_is_post rq then Inr (False, s)
      else if action \<notin> {''update_carton_status'', ''mark_carton_labeled'', ''mark_carton_assigned'',
              ''delete_carton''} then Inr (False, s)
      else let carton = row_get (db_cartons s) carton_id;
               status_value = carton_status_value (strip status) in
        if action = ''update_carton_status''
        then (case (carton, status_value) of
                (Some c, Some new) \<Rightarrow>
                  if c_status c \<noteq> Ct_Shipped \<and> new \<in> {Ct_Draft, Ct_Picking, Ct_Packed} \<and> c_shipment c = None
                  then Inr (True, snd (set_carton_status e carton_id new user ''manual_update'' id s))
                  else Inr (True, s)
              | _ \<Rightarrow> Inr (True, s))
        else if action = ''delete_carton''
        then (case carton of
                None \<Rightarrow> Inr (True, s)
              | Some c \<Rightarrow> res_bind (delete_carton e user carton_id c s) (\<lambda>s1. Inr (True, s1)))
        else (case carton of
                None \<Rightarrow> Inr (True, s)
              | Some c \<Rightarrow>
                  (case c_shipment c of
                     None \<Rightarrow> Inr (True, s)
                   | Some sh \<Rightarrow>
                       if shipment_is_locked c s then Inr (True, s)
                       else if action = ''mark_carton_labeled''
                       then res_bind (mark_carton e user {Ct_Assigned, Ct_Packed} Ct_Labeled
                              ''mark_labeled'' carton_id c sh s) (\<lambda>s1. Inr (True, s1))
                       else res_bind (mark_carton e user {Ct_Labeled} Ct_Assigned
                              ''mark_assigned'' carton_id c sh s) (\<lambda>s1. Inr (True, s1)))))"

section \<open>Movements of a carton edited in the administration\<close>

text \<open>
  \<open>sync_carton_shipment_stock_movements\<close>: \<open>original\<close> is the carton before the edit, \<open>k\<close> the
  carton that was saved.
\<close>

definition out_movement_of :: "nat \<Rightarrow> movement \<Rightarrow> bool" where
  "out_movement_of k m \<longleftrightarrow> mv_related_carton m = Some k \<and> mv_type m = Mv_Out"

definition out_movement :: "env \<Rightarrow> nat option \<Rightarrow> nat \<Rightarrow> nat option \<Rightarrow> nat \<times> carton_item \<Rightarrow> db \<Rightarrow> err + db" where
  "out_movement e user k shipment row s =
     (let item = snd row in
      res_bind (require (row_get (db_lots s) (it_lot item)) Does_Not_Exist) (\<lambda>lot.
        Inr (create_movement ((new_movement e user Mv_Out (l_product lot) (it_lot item) (it_quantity item))
               \<lparr>mv_from_location := Some (l_location lot), mv_related_carton := Some k,
                mv_related_shipment := shipment\<rparr>) s)))"

definition sync_carton_shipment_stock_movements ::
    "env \<Rightarrow> nat option \<Rightarrow> nat \<Rightarrow> carton option \<Rightarrow> db \<Rightarrow> err + db" where
  "sync_carton_shipment_stock_movements e user k original s =
     res_bind (require (row_get (db_cartons s) k) Does_Not_Exist) (\<lambda>c.
       let s1 = (case original of
                   None \<Rightarrow> s
                 | Some o0 \<Rightarrow>
                     if c_shipment o0 = c_shipment c then s
                     else s\<lparr>db_movements := map (\<lambda>(i, m). (i, if out_movement_of k m
                            then m\<lparr>mv_related_shipment := c_shipment c\<rparr> else m)) (db_movements s)\<rparr>)
       in if c_shipment c = None then Inr s1
          else if list_ex (\<lambda>(_, m). out_movement_of k m) (db_movements s1) then Inr s1
          else for_each (out_movement e user k (c_shipment c)) (carton_items_of k s1) s1)"

section \<open>The packing page\<close>

definition code_sorted :: "(nat \<times> carton) list \<Rightarrow> (nat \<times> carton) list" where
  "code_sorted = sort_key (\<lambda>(_, c). c_code c)"

definition item_weight :: "db \<Rightarrow> carton_item \<Rightarrow> int" where
  "item_weight s i =
     (case row_get (db_lots s) (it_lot i) of
        None \<Rightarrow> 0
      | Some l \<Rightarrow>
          (case row_get (db_products s) (l_product l) of
             None \<Rightarrow> 0
           | Some p \<Rightarrow> (case p_weight_g p of None \<Rightarrow> 0 | Some w \<Rightarrow> w) * it_quantity i))"

record carton_option =
  co_id :: nat
  co_code :: string
  co_label :: string
  co_weight_g :: int
  co_preassigned_destination :: "nat option"
  co_preassigned_iata :: string

definition build_carton_option :: "db \<Rightarrow> nat \<times> carton \<Rightarrow> int \<Rightarrow> carton_option" where
  "build_carton_option s row weight_total =
     (let (k, c) = row;
          iata = (case c_preassigned_destination c of
                    None \<Rightarrow> []
                  | Some d \<Rightarrow> (case row_get (db_destinations s) d of
                      None \<Rightarrow> [] | Some x \<Rightarrow> d_iata_code x))
      in \<lparr>co_id = k, co_code = c_code c,
          co_label = (if iata \<noteq> [] then c_code c @ '' ('' @ iata @ '')'' else c_code c),
          co_weight_g = weight_total, co_preassigned_destination = c_preassigned_destination c,
          co_preassigned_iata = iata\<rparr>)"

definition build_available_cartons :: "db \<Rightarrow> carton_option list" where
  "build_available_cartons s =
     map (\<lambda>(k, c). build_carton_option s (k, c)
            (fold (\<lambda>(_, i) total. total + item_weight s i) (carton_items_of k s) 0))
       (code_sorted (rows_where (\<lambda>_ c. c_status c = Ct_Packed \<and> c_shipment c = None) (db_cartons s)))"

definition build_carton_formats :: "db \<Rightarrow> (nat \<times> carton_format) list \<times> (nat \<times> carton_format) option" where
  "build_carton_formats s =
     (let formats = sort_key (\<lambda>(_, f). cf_name f) (db_carton_formats s);
          default = find (\<lambda>(_, f). cf_is_default f) formats
      in (formats, if default = None \<and> formats \<noteq> [] then Some (hd formats) else default))"

text \<open>The size of a carton in the forms: three lengths and a maximum weight.\<close>

record carton_size =
  cz_length_cm :: rat
  cz_width_cm :: rat
  cz_height_cm :: rat
  cz_max_weight_g :: int

definition get_carton_volume_cm3 :: "carton_size \<Rightarrow> rat" where
  "get_carton_volume_cm3 z = cz_length_cm z * cz_width_cm z * cz_height_cm z"

datatype size_error =
  Format_Invalide | Longueur_Invalide | Largeur_Invalide | Hauteur_Invalide | Poids_Max_Invalide

text \<open>
  \<open>resolve_carton_size\<close>: the posted format is absent, the word \<open>custom\<close>, or a key (none when it
  does not parse); the four fields of a custom size as \<open>parse_decimal\<close> and \<open>parse_int\<close> read them.
\<close>

datatype format_choice = No_Format | Custom_Format | Format_Id "nat option"

definition resolve_carton_size ::
    "format_choice \<Rightarrow> (nat \<times> carton_format) option \<Rightarrow> rat option \<Rightarrow> rat option \<Rightarrow> rat option \<Rightarrow> int option
       \<Rightarrow> db \<Rightarrow> carton_size option \<times> size_error list" where
  "resolve_carton_size choice default_format len width height max_weight s =
     (let choice' = (case (choice, default_format) of
                       (No_Format, Some (k, _)) \<Rightarrow> Format_Id (Some k)
                     | _ \<Rightarrow> choice)
      in case choice' of
        Format_Id k \<Rightarrow>
          (case (case k of None \<Rightarrow> None | Some i \<Rightarrow> if i = 0 then None else row_get (db_carton_formats s) i) of
             None \<Rightarrow> (None, [Format_Invalide])
           | Some f \<Rightarrow> (Some \<lparr>cz_length_cm = cf_length_cm f, cz_width_cm = cf_width_cm f,
               cz_height_cm = cf_height_cm f, cz_max_weight_g = cf_max_weight_g f\<rparr>, []))
      | _ \<Rightarrow>
          let invalid = (\<lambda>v. case v of None \<Rightarrow> True | Some x \<Rightarrow> x \<le> 0);
              errors = (if invalid len then [Longueur_Invalide] else [])
                     @ (if invalid width then [Largeur_Invalide] else [])
                     @ (if invalid height then [Hauteur_Invalide] else [])
                     @ (if (case max_weight of None \<Rightarrow> True | Some x \<Rightarrow> x \<le> 0)
                        then [Poids_Max_Invalide] else [])
          in if errors \<noteq> [] then (None, errors)
             else (Some \<lparr>cz_length_cm = the len, cz_width_cm = the width, cz_height_cm = the height,
                         cz_max_weight_g = the max_weight\<rparr>, []))"

end
