(* ===== verification/Planning_Data.thy ===== *)
theory Planning_Data
  imports Carton_Status
begin

text \<open>
  The tables of the weekly planning (\<open>wms/models_domain/planning.py\<close>) that its logic reads and
  writes: runs, destination rules, the snapshots of shipments, volunteers and flights, versions and
  assignments. They form a database of their own, \<open>plan_db\<close>, beside the warehouse's. Of the JSON
  payloads the fields keep the keys that are read. The texts of dates and times in them are those
  the program writes (\<open>isoformat\<close>, \<open>_serialize_time\<close>): a date is kept as the calendar date, a time as
  the minutes since midnight, and the empty text as \<open>None\<close>.
\<close>

datatype version_status = Pv_Draft | Pv_Published | Pv_Superseded | Pv_Cancelled

datatype assignment_source = As_Solver | As_Manual | As_Copied

datatype run_status =
  Run_Draft | Run_Validating | Run_Validation_Failed | Run_Ready | Run_Solving | Run_Solved | Run_Failed

record destination_rule =
  dr_parameter_set :: nat
  dr_destination :: "nat option"
  dr_label :: string
  dr_weekly_frequency :: "nat option"
  dr_max_cartons_per_flight :: "int option"
  dr_allowed_weekdays :: "string list"
  dr_priority :: nat
  dr_notes :: string
  dr_is_active :: bool

record planning_run =
  run_week_start :: date
  run_week_end :: date
  run_parameter_set :: "nat option"
  run_status :: run_status
  run_created_by :: nat
  run_updated_at :: int

record shipment_snapshot =
  ss_run :: nat
  ss_shipment :: "nat option"
  ss_reference :: string
  ss_shipper_name :: string
  ss_destination_iata :: string
  ss_priority :: int
  ss_carton_count :: int
  ss_equivalent_units :: int
  ss_legacy_type_priority :: "int option"
  ss_legacy_date_depart_mag :: "date option"
  ss_legacy_date_impression :: "date option"
  ss_legacy_date_conditionnement :: "date option"

text \<open>A slot of a volunteer's availability.\<close>

record slot =
  sl_date :: date
  sl_start_time :: "nat option"
  sl_end_time :: "nat option"

record volunteer_snapshot =
  vs_run :: nat
  vs_volunteer :: "nat option"
  vs_label :: string
  vs_max_colis_vol :: "int option"
  vs_unavailable_dates :: "date list"
  vs_slots :: "slot list"
  vs_legacy_id :: "int option"

record flight_snapshot =
  fs_run :: nat
  fs_flight :: "nat option"
  fs_flight_number :: string
  fs_departure_date :: date
  fs_destination_iata :: string
  fs_capacity_units :: "int option"
  fs_departure_time :: "nat option"
  fs_routing :: string
  fs_origin_iata :: string
  fs_route_pos :: "int option"

record planning_version =
  pv_run :: nat
  pv_number :: "nat option"
  pv_status :: version_status
  pv_based_on :: "nat option"
  pv_change_reason :: string
  pv_created_by :: "nat option"
  pv_published_at :: "int option"
  pv_created_at :: int
  pv_updated_at :: int

record assignment =
  as_version :: nat
  as_shipment :: "nat option"
  as_volunteer :: "nat option"
  as_flight :: "nat option"
  as_carton_count :: int
  as_weight_kg :: "rat option"
  as_status :: string
  as_source :: assignment_source
  as_notes :: string
  as_sequence :: nat
  as_created_at :: int
  as_updated_at :: int

record plan_db =
  pd_runs :: "planning_run table"
  pd_rules :: "destination_rule table"
  pd_shipments :: "shipment_snapshot table"
  pd_volunteers :: "volunteer_snapshot table"
  pd_flights :: "flight_snapshot table"
  pd_versions :: "planning_version table"
  pd_assignments :: "assignment table"

text \<open>The assignments of a version in the order of the queries: by sequence, then key.\<close>

definition assignments_of :: "nat \<Rightarrow> plan_db \<Rightarrow> (nat \<times> assignment) list" where
  "assignments_of v p = sort_key (\<lambda>(i, a). (as_sequence a, i))
     (rows_where (\<lambda>_ a. as_version a = v) (pd_assignments p))"

section \<open>Saving a version\<close>

text \<open>
  \<open>PlanningVersion.save\<close>: a version without a number takes the one after the highest of its run,
  and a published one is dated once.
\<close>

definition max_version_number :: "nat \<Rightarrow> plan_db \<Rightarrow> nat" where
  "max_version_number run p =
     fold max [case pv_number v of None \<Rightarrow> 0 | Some n \<Rightarrow> n. (_, v) \<leftarrow> pd_versions p, pv_run v = run] 0"

definition version_save_fields :: "env \<Rightarrow> planning_version \<Rightarrow> plan_db \<Rightarrow> planning_version" where
  "version_save_fields e v p =
     (let v1 = (if (pv_number v = None \<or> pv_number v = Some 0) \<and> pv_run v \<noteq> 0
                then v\<lparr>pv_number := Some (Suc (max_version_number (pv_run v) p))\<rparr> else v);
          v2 = (if pv_status v1 = Pv_Published \<and> pv_published_at v1 = None
                then v1\<lparr>pv_published_at := Some (e_now e)\<rparr> else v1)
      in v2\<lparr>pv_updated_at := e_now e\<rparr>)"

definition create_version :: "env \<Rightarrow> planning_version \<Rightarrow> plan_db \<Rightarrow> nat \<times> plan_db" where
  "create_version e v p =
     (next_pk (pd_versions p),
      p\<lparr>pd_versions := row_ins (version_save_fields e v p) (pd_versions p)\<rparr>)"

end
