(* ===== verification/Plan_Versions.thy ===== *)
theory Plan_Versions
  imports Planning_Data Tracking
begin

text \<open>
  Versions of a planning (\<open>wms/planning/versioning.py\<close>): cloning, publishing, the difference of two
  versions; and the statuses a published version gives its shipments
  (\<open>wms/planning/shipment_updates.py\<close>), the one place where the planning writes to the warehouse.
\<close>

section \<open>Cloning and publishing\<close>

definition clone_version :: "env \<Rightarrow> nat \<Rightarrow> nat option \<Rightarrow> string \<Rightarrow> plan_db \<Rightarrow> err + nat \<times> plan_db" where
  "clone_version e original created_by change_reason p =
     res_bind (require (row_get (pd_versions p) original) Does_Not_Exist) (\<lambda>o0.
       let (k, p1) = create_version e \<lparr>pv_run = pv_run o0, pv_number = None, pv_status = Pv_Draft,
             pv_based_on = Some original, pv_change_reason = change_reason, pv_created_by = created_by,
             pv_published_at = None, pv_created_at = e_now e, pv_updated_at = e_now e\<rparr> p;
           cloned = map (\<lambda>(_, a). a\<lparr>as_version := k, as_source := As_Copied,
             as_created_at := e_now e, as_updated_at := e_now e\<rparr>) (assignments_of original p1)
       in Inr (k, p1\<lparr>pd_assignments := fold row_ins cloned (pd_assignments p1)\<rparr>))"

definition publish_version :: "env \<Rightarrow> nat \<Rightarrow> plan_db \<Rightarrow> err + plan_db" where
  "publish_version e k p =
     res_bind (require (row_get (pd_versions p) k) Does_Not_Exist) (\<lambda>current.
     res_bind (raise_if (pv_status current \<noteq> Pv_Draft) (Value_Error ''only_draft'')) (\<lambda>_.
       let t = map (\<lambda>(i, v). (i, if pv_run v = pv_run current \<and> pv_status v = Pv_Published \<and> i \<noteq> k
                 then v\<lparr>pv_status := Pv_Superseded\<rparr> else v)) (pd_versions p);
           p1 = p\<lparr>pd_versions := t\<rparr>
       in Inr (p1\<lparr>pd_versions := row_upd k
            (\<lambda>_. version_save_fields e (current\<lparr>pv_status := Pv_Published\<rparr>) p1) t\<rparr>)))"

section \<open>Differences\<close>

record assignment_summary =
  am_shipment_reference :: string
  am_volunteer :: string
  am_flight :: string
  am_cartons :: int
  am_notes :: string
  am_source :: assignment_source

definition assignment_key :: "assignment \<Rightarrow> nat option \<times> nat" where
  "assignment_key a = (as_shipment a, as_sequence a)"

text \<open>A snapshot of the assignment, the empty text when there is none.\<close>

definition label_of :: "('r \<Rightarrow> string) \<Rightarrow> 'r table \<Rightarrow> nat option \<Rightarrow> string" where
  "label_of f t k = (case k of None \<Rightarrow> [] | Some i \<Rightarrow> (case row_get t i of None \<Rightarrow> [] | Some r \<Rightarrow> f r))"

definition assignment_summary_of :: "plan_db \<Rightarrow> assignment \<Rightarrow> assignment_summary" where
  "assignment_summary_of p a =
     \<lparr>am_shipment_reference = label_of ss_reference (pd_shipments p) (as_shipment a),
      am_volunteer = label_of vs_label (pd_volunteers p) (as_volunteer a),
      am_flight = label_of fs_flight_number (pd_flights p) (as_flight a),
      am_cartons = as_carton_count a, am_notes = as_notes a, am_source = as_source a\<rparr>"

definition keyed_assignments :: "nat \<Rightarrow> plan_db \<Rightarrow> ((nat option \<times> nat) \<times> assignment) list" where
  "keyed_assignments v p =
     fold (\<lambda>(_, a). dict_put (assignment_key a) a) (assignments_of v p) []"

text \<open>The fields that are compared: all but the reference of the shipment.\<close>

definition comparable :: "assignment_summary \<Rightarrow> string \<times> string \<times> int \<times> string \<times> assignment_source" where
  "comparable m = (am_volunteer m, am_flight m, am_cartons m, am_notes m, am_source m)"

record version_diff =
  vd_changed :: "(string \<times> assignment_summary \<times> assignment_summary) list"
  vd_added :: "assignment_summary list"
  vd_removed :: "assignment_summary list"

definition diff_versions :: "nat \<Rightarrow> nat \<Rightarrow> plan_db \<Rightarrow> version_diff" where
  "diff_versions previous current p =
     (let old = keyed_assignments previous p; new = keyed_assignments current p; sum = assignment_summary_of p
      in \<lparr>vd_changed =
           List.map_filter (\<lambda>(key, a). case map_of old key of
               None \<Rightarrow> None
             | Some b \<Rightarrow> if comparable (sum b) \<noteq> comparable (sum a)
                 then Some (am_shipment_reference (sum a), sum b, sum a) else None) new,
          vd_added = map (\<lambda>(_, a). sum a) (filter (\<lambda>(key, _). map_of old key = None) new),
          vd_removed = map (\<lambda>(_, a). sum a) (filter (\<lambda>(key, _). map_of new key = None) old)\<rparr>)"

section \<open>Updating the shipments\<close>

record update_summary =
  us_considered :: nat
  us_updated :: nat
  us_tracking_events_created :: nat
  us_skipped_missing :: nat
  us_skipped_locked :: nat

definition allowed_shipment_update :: "shipment_status \<Rightarrow> bool" where
  "allowed_shipment_update st \<longleftrightarrow> st \<in> {Ship_Packed, Ship_Planned}"

definition planned_event_exists :: "nat \<Rightarrow> db \<Rightarrow> bool" where
  "planned_event_exists k s =
     list_ex (\<lambda>(_, t). te_shipment t = k \<and> te_status t = Tr_Planned) (db_tracking s)"

text \<open>
  One round of the loop: the shipments already seen, the counts and the warehouse. Every shipment
  is written in one round only, so the object the query loaded is still its row.
\<close>

definition assigned_shipment :: "plan_db \<Rightarrow> assignment \<Rightarrow> nat option" where
  "assigned_shipment p a =
     (case as_shipment a of
        None \<Rightarrow> None
      | Some i \<Rightarrow> (case row_get (pd_shipments p) i of None \<Rightarrow> None | Some x \<Rightarrow> ss_shipment x))"

definition set_planned :: "env \<Rightarrow> nat \<Rightarrow> shipment \<Rightarrow> db \<Rightarrow> err + db" where
  "set_planned e k sh s =
     (if s_status sh \<noteq> Ship_Planned then shipment_save e k (\<lambda>r. r\<lparr>s_status := Ship_Planned\<rparr>) s else Inr s)"

definition ensure_planned_event :: "env \<Rightarrow> nat option \<Rightarrow> nat \<Rightarrow> tracking_form \<Rightarrow> db \<Rightarrow> db" where
  "ensure_planned_event e user k form s =
     (if planned_event_exists k s then s else create_tracking_event e user k form s)"

definition update_assigned_shipment ::
    "env \<Rightarrow> plan_db \<Rightarrow> string \<Rightarrow> string \<Rightarrow> string \<Rightarrow> nat option \<Rightarrow> nat \<times> assignment
       \<Rightarrow> nat list \<times> update_summary \<times> db \<Rightarrow> err + nat list \<times> update_summary \<times> db" where
  "update_assigned_shipment e p actor_name actor_structure comment user row acc =
     (let (seen, m, s) = acc in
      case assigned_shipment p (snd row) of
        None \<Rightarrow> Inr (seen, m\<lparr>us_skipped_missing := Suc (us_skipped_missing m)\<rparr>, s)
      | Some k \<Rightarrow>
          if k \<in> set seen then Inr acc
          else res_bind (require (row_get (db_shipments s) k) Does_Not_Exist) (\<lambda>sh.
            let m1 = m\<lparr>us_considered := Suc (us_considered m)\<rparr> in
            if \<not> allowed_shipment_update (s_status sh)
            then Inr (k # seen, m1\<lparr>us_skipped_locked := Suc (us_skipped_locked m1)\<rparr>, s)
            else
              res_bind (set_planned e k sh s) (\<lambda>s1.
              let m2 = (if s_status sh \<noteq> Ship_Planned then m1\<lparr>us_updated := Suc (us_updated m1)\<rparr> else m1);
                  m3 = (if planned_event_exists k s1 then m2 else m2\<lparr>us_tracking_events_created :=
                          Suc (us_tracking_events_created m2)\<rparr>)
              in Inr (k # seen, m3, ensure_planned_event e user k
                   \<lparr>tf_status = Tr_Planned, tf_actor_name = actor_name,
                    tf_actor_structure = actor_structure, tf_comments = comment\<rparr> s1))))"

definition apply_version_updates ::
    "env \<Rightarrow> nat \<Rightarrow> string \<Rightarrow> string \<Rightarrow> nat option \<Rightarrow> plan_db \<Rightarrow> db \<Rightarrow> err + update_summary \<times> db" where
  "apply_version_updates e v actor_name actor_structure user p s =
     res_bind (require (row_get (pd_versions p) v) Does_Not_Exist) (\<lambda>version.
     res_bind (raise_if (pv_status version \<noteq> Pv_Published) (Value_Error ''not_published'')) (\<lambda>_.
       let comment = ''Planning version v'' @ (case pv_number version of None \<Rightarrow> ''None'' | Some n \<Rightarrow> nat_str n);
           author = (case user of None \<Rightarrow> pv_created_by version | Some u \<Rightarrow> Some u)
       in res_bind (for_each (update_assigned_shipment e p actor_name actor_structure comment author)
              (assignments_of v p) ([], \<lparr>us_considered = 0, us_updated = 0,
                us_tracking_events_created = 0, us_skipped_missing = 0, us_skipped_locked = 0\<rparr>, s))
            (\<lambda>(_, m, s1). Inr (m, s1))))"

end
