(* ===== verification/Shipping.thy ===== *)
theory Shipping
  imports Carton_Handlers Plan_Versions Reservations
begin

text \<open>
  The life of shipments and their cartons, over all the operations that move them: packing,
  tracking, disputes, the planning, the list of cartons. \<open>transit_ok\<close> ties the status of a carton to
  the way of its shipment; \<open>life_step\<close> is the relation of one request, and rule induction carries
  the invariant to every reachable state.
\<close>

section \<open>What leaves cartons and shipments alone\<close>

definition same_freight :: "db \<Rightarrow> db \<Rightarrow> bool" where
  "same_freight s t \<longleftrightarrow> db_cartons t = db_cartons s \<and> db_shipments t = db_shipments s"

lemma same_freight_refl [simp]: "same_freight s s"
  by (simp add: same_freight_def)

lemma same_freight_trans: "same_freight s t \<Longrightarrow> same_freight t u \<Longrightarrow> same_freight s u"
  by (simp add: same_freight_def)

lemma same_freight_update [simp]:
  "same_freight s (t\<lparr>db_lots := x1\<rparr>) = same_freight s t"
  "same_freight s (t\<lparr>db_movements := x2\<rparr>) = same_freight s t"
  "same_freight s (t\<lparr>db_carton_items := x3\<rparr>) = same_freight s t"
  "same_freight s (t\<lparr>db_reservations := x4\<rparr>) = same_freight s t"
  "same_freight s (t\<lparr>db_order_lines := x5\<rparr>) = same_freight s t"
  "same_freight s (t\<lparr>db_tracking := x6\<rparr>) = same_freight s t"
  "same_freight s (t\<lparr>db_carton_events := x7\<rparr>) = same_freight s t"
  "same_freight s (t\<lparr>db_shipment_sequences := x8\<rparr>) = same_freight s t"
  "same_freight s (t\<lparr>db_carton_sequences := x9\<rparr>) = same_freight s t"
  by (simp_all add: same_freight_def)

lemma same_freight_writes [simp]:
  "same_freight s (create_movement m t) = same_freight s t"
  "same_freight s (write_lot k f t) = same_freight s t"
  "same_freight s (write_line k g t) = same_freight s t"
  "same_freight s (settle i r q t) = same_freight s t"
  "same_freight s (add_to_carton d k p t) = same_freight s t"
  by (simp_all add: create_movement_def write_lot_def write_line_def settle_def add_to_carton_def
      Let_def split: option.splits prod.splits)

lemma consume_lot_freight:
  "same_freight s (snd (snd acc)) \<Longrightarrow>
     same_freight s (snd (snd (consume_lot e u p mt sh ct code notes row acc)))"
  by (cases row; cases acc) (simp add: consume_lot_def Let_def)

lemma consume_stock_freight:
  assumes "consume_stock e u p q mt sh ct code notes s = Inr (parts, s')"
  shows "same_freight s s'"
proof -
  let ?acc = "fold (consume_lot e u p mt sh ct code notes) (fefo_lots p s) (q, [], s)"
  have "same_freight s (snd (snd ?acc))"
    by (rule fold_keeps [where P = "\<lambda>acc. same_freight s (snd (snd acc))"])
      (simp_all add: consume_lot_freight)
  moreover have "s' = snd (snd ?acc)"
    using assms by (auto simp: consume_stock_def wms_ok Let_def split: if_splits)
  ultimately show ?thesis by simp
qed

lemma consume_one_freight:
  "same_freight s (snd (snd acc)) \<Longrightarrow> same_freight s (snd (snd (consume_one e u p mt sh ct row acc)))"
  by (cases row; cases "fst row"; cases acc) (simp add: consume_one_def Let_def)

lemma consume_reserved_freight:
  assumes "consume_reserved_stock e u k q mt sh ct s = Inr (parts, s')"
  shows "same_freight s s'"
proof -
  have all: "same_freight s (snd (snd (fold (consume_one e u p mt sh ct) rows (q, [], s))))" for p rows
    by (rule fold_keeps [where P = "\<lambda>acc. same_freight s (snd (snd acc))"])
      (simp_all add: consume_one_freight)
  from assms obtain l :: order_line where "(let (remaining, consumed, s1)
      = fold (consume_one e u (ol_product l) mt sh ct) (line_reservations k s) (q, [], s)
     in if 0 < remaining then Inl (Stock_Error Reservation_Insuffisante_Consommer)
        else Inr (consumed, write_line k (\<lambda>l. l\<lparr>ol_reserved_quantity := max 0 (ol_reserved_quantity l - q),
             ol_prepared_quantity := ol_prepared_quantity l + q\<rparr>) s1)) = Inr (parts, s')"
    unfolding consume_reserved_stock_def res_bind_Inr require_Inr raise_if_Inr
    by blast
  then show ?thesis
    using all [of "ol_product l" "line_reservations k s"]
    by (cases "fold (consume_one e u (ol_product l) mt sh ct) (line_reservations k s) (q, [], s)")
      (auto split: if_splits)
qed

lemma pack_component_freight:
  "pack_component e u mt sh k d r s = Inr s' \<Longrightarrow> same_freight s s'"
proof -
  assume "pack_component e u mt sh k d r s = Inr s'"
  then obtain c q parts t where "consume_stock e u c q mt sh (Some k) [] [] s = Inr (parts, t)"
    and s': "s' = fold (add_to_carton d k) parts t"
    by (auto simp: pack_component_def wms_ok split: prod.splits)
  then have "same_freight s t" by (blast intro: consume_stock_freight)
  then show ?thesis unfolding s' by (intro fold_keeps [where P = "same_freight s"]) simp_all
qed

lemma return_item_freight: "return_item e u k sh row s = Inr s' \<Longrightarrow> same_freight s s'"
  by (auto simp: return_item_def wms_ok Let_def)

lemma for_each_freight:
  assumes "for_each f xs s = Inr s'" and "\<And>x t t'. f x t = Inr t' \<Longrightarrow> same_freight t t'"
  shows "same_freight s s'"
  using assms(1) by (rule for_each_rel) (auto intro: same_freight_trans assms(2))


section \<open>Cartons and the way of their shipment\<close>

definition under_way :: "nat option \<Rightarrow> db \<Rightarrow> bool" where
  "under_way sh s =
     (case sh of
        None \<Rightarrow> False
      | Some k \<Rightarrow> (case row_get (db_shipments s) k of None \<Rightarrow> False | Some r \<Rightarrow> shipped_or_later (s_status r)))"

definition transit_ok :: "db \<Rightarrow> bool" where
  "transit_ok s \<longleftrightarrow> keys_ok (db_cartons s) \<and>
     (\<forall>i c. row_get (db_cartons s) i = Some c \<longrightarrow> (c_status c = Ct_Shipped \<longleftrightarrow> under_way (c_shipment c) s))"

text \<open>The statuses of the cartons may change, as long as each stays on the right side.\<close>

lemma transit_okI:
  assumes "transit_ok s" and "keys_ok (db_cartons t)"
    and "\<And>sh. under_way sh t = under_way sh s"
    and "\<And>i c'. row_get (db_cartons t) i = Some c' \<Longrightarrow>
      (\<exists>c. row_get (db_cartons s) i = Some c \<and> c_shipment c' = c_shipment c
          \<and> (c_status c' = Ct_Shipped \<longleftrightarrow> c_status c = Ct_Shipped))
      \<or> (c_status c' \<noteq> Ct_Shipped \<and> \<not> under_way (c_shipment c') s)"
  shows "transit_ok t"
  unfolding transit_ok_def
proof (intro conjI allI impI)
  fix i c'
  assume "row_get (db_cartons t) i = Some c'"
  with assms(4) assms(1) show "c_status c' = Ct_Shipped \<longleftrightarrow> under_way (c_shipment c') t"
    unfolding transit_ok_def assms(3) by metis
qed (rule assms(2))

lemma under_way_cong: "db_shipments t = db_shipments s \<Longrightarrow> under_way sh t = under_way sh s"
  by (cases sh) (simp_all add: under_way_def)

lemma transit_ok_freight: "same_freight s t \<Longrightarrow> transit_ok t = transit_ok s"
proof -
  assume same: "same_freight s t"
  then have "under_way sh t = under_way sh s" for sh by (intro under_way_cong) (simp add: same_freight_def)
  with same show ?thesis by (simp add: transit_ok_def same_freight_def)
qed

lemma shipment_save_way:
  assumes "shipment_save e k f s = Inr s'"
    and "\<And>r. row_get (db_shipments s) k = Some r \<Longrightarrow> shipped_or_later (s_status (f r)) = shipped_or_later (s_status r)"
  shows "under_way sh s' = under_way sh s" and "db_cartons s' = db_cartons s"
proof -
  obtain r where r: "row_get (db_shipments s) k = Some r"
    using assms(1) by (rule shipment_save_Inr)
  from shipment_save_row [OF assms(1) r] assms(2) [OF r] r
  show "under_way sh s' = under_way sh s"
    by (cases sh; cases "sh = Some k") (auto simp: under_way_def)
  show "db_cartons s' = db_cartons s" using shipment_save_frame [OF assms(1)] by auto
qed

lemma shipment_save_transit:
  assumes "shipment_save e k f s = Inr s'" and "transit_ok s"
    and "\<And>r. row_get (db_shipments s) k = Some r \<Longrightarrow> shipped_or_later (s_status (f r)) = shipped_or_later (s_status r)"
  shows "transit_ok s'"
  using shipment_save_way [OF assms(1,3)] assms(2) by (simp add: transit_ok_def)

lemma sync_way:
  assumes "sync_shipment_ready_state e k s = Inr s'"
  shows "under_way sh s' = under_way sh s" and "db_cartons s' = db_cartons s"
proof -
  from assms have "s' = s \<or> (\<exists>f. shipment_save e k f s = Inr s' \<and>
      (\<forall>r. row_get (db_shipments s) k = Some r \<longrightarrow> shipped_or_later (s_status (f r)) = shipped_or_later (s_status r)))"
    unfolding sync_by_status res_bind_Inr require_Inr
    by (elim exE conjE)
      (auto simp: Let_def progress_status_def locked_shipment_status_def shipped_or_later_def
        split: if_splits)
  then show "under_way sh s' = under_way sh s" and "db_cartons s' = db_cartons s"
    using shipment_save_way by blast+
qed

lemma sync_transit: "sync_shipment_ready_state e k s = Inr s' \<Longrightarrow> transit_ok s' = transit_ok s"
  by (simp add: transit_ok_def sync_way)

text \<open>A status write to a carton that is not under way.\<close>

lemma set_carton_status_transit:
  assumes "transit_ok s" and "new \<noteq> Ct_Shipped"
    and "\<And>c. row_get (db_cartons s) k = Some c \<Longrightarrow> c_status c \<noteq> Ct_Shipped
      \<and> (c_shipment (assign c) = c_shipment c \<or> \<not> under_way (c_shipment (assign c)) s)"
  shows "transit_ok (snd (set_carton_status e k new user reason assign s))" (is "transit_ok ?t")
proof (cases "\<exists>c. row_get (db_cartons s) k = Some c \<and> c_status c \<noteq> new")
  case True
  then obtain c where c: "row_get (db_cartons s) k = Some c" "c_status c \<noteq> new" by blast
  note row = set_carton_status_row [OF c, of e user reason assign]
  have keys: "keys_ok (db_cartons ?t)"
    using assms(1) by (auto simp: transit_ok_def intro: set_carton_status_keys)
  have ships: "db_shipments ?t = db_shipments s"
    using set_carton_status_frame [of e k new user reason assign s] by auto
  have free: "\<not> under_way (c_shipment (assign c)) s"
    using assms(3) [OF c(1)] assms(1) c(1) unfolding transit_ok_def by metis
  show ?thesis
  proof (rule transit_okI [OF assms(1) keys under_way_cong [OF ships]])
    fix i c'
    assume "row_get (db_cartons ?t) i = Some c'"
    then have "(i = k \<and> c' = (assign c)\<lparr>c_status := new\<rparr>) \<or> (i \<noteq> k \<and> row_get (db_cartons s) i = Some c')"
      by (auto simp: row split: if_splits)
    with free assms(2) show "(\<exists>c. row_get (db_cartons s) i = Some c \<and> c_shipment c' = c_shipment c
          \<and> (c_status c' = Ct_Shipped \<longleftrightarrow> c_status c = Ct_Shipped))
      \<or> (c_status c' \<noteq> Ct_Shipped \<and> \<not> under_way (c_shipment c') s)"
      by auto
  qed
next
  case False
  then have "?t = s" by (auto simp: set_carton_status_def split: option.splits)
  with assms(1) show ?thesis by simp
qed


section \<open>Packing and unpacking\<close>

lemma check_open_way: "check_shipment_open sh s = Inr u \<Longrightarrow> \<not> under_way sh s"
  by (auto simp: check_shipment_open_def under_way_def wms_ok split: option.splits)

lemma prepare_carton_way:
  assumes "prepare_carton e u carton sh pre loc code sz s = Inr ((k, m), t)"
  shows "under_way x t = under_way x s"
  using prepare_carton_frame [OF assms] by (auto intro!: under_way_cong)

lemma prepared_fields [simp]:
  "c_status (fill_dimensions sz c) = c_status c" "c_shipment (fill_dimensions sz c) = c_shipment c"
  "c_status (assign_fields sh pre loc c) = c_status c"
  "c_shipment (assign_fields sh pre loc c)
     = (if sh \<noteq> None \<and> c_shipment c = None then sh else c_shipment c)"
  by (simp_all add: fill_dimensions_def assign_fields_def Let_def)

lemma prepare_carton_transit:
  assumes "prepare_carton e u carton sh pre loc code sz s = Inr ((k, m), t)" and "transit_ok s"
  shows "transit_ok t"
proof -
  have out: "\<not> under_way sh s" using prepare_carton_cases [OF assms(1)] check_open_way by blast
  have keys: "keys_ok (db_cartons s)" using assms(2) by (simp add: transit_ok_def)
  from prepare_carton_cases [OF assms(1)]
  consider "prepared_new e u sh pre loc k s t" | "prepared_old sh pre loc k s t" by blast
  then show ?thesis
  proof cases
    case 1
    then obtain code sz q where t: "t = s\<lparr>db_cartons := row_upd k (fill_dimensions sz)
          (row_ins (new_carton e u code sh pre loc) (db_cartons s)), db_carton_sequences := q\<rparr>"
      and k: "k = next_pk (db_cartons s)"
      unfolding prepared_new_def by blast
    show ?thesis
    proof (rule transit_okI [OF assms(2)])
      show "keys_ok (db_cartons t)" using keys by (simp add: t keys_ok_upd keys_ok_ins)
      show "under_way x t = under_way x s" for x by (rule prepare_carton_way [OF assms(1)])
    next
      fix i c'
      assume "row_get (db_cartons t) i = Some c'"
      then show "(\<exists>c. row_get (db_cartons s) i = Some c \<and> c_shipment c' = c_shipment c
          \<and> (c_status c' = Ct_Shipped \<longleftrightarrow> c_status c = Ct_Shipped))
        \<or> (c_status c' \<noteq> Ct_Shipped \<and> \<not> under_way (c_shipment c') s)"
        using out k by (auto simp: t row_get_upd row_get_ins new_carton_def split: if_splits)
    qed
  next
    case 2
    then obtain sz c where t: "t = s\<lparr>db_cartons := row_upd k (fill_dimensions sz)
          (row_upd k (assign_fields sh pre loc) (db_cartons s))\<rparr>"
      and c: "row_get (db_cartons s) k = Some c" and open': "c_status c \<noteq> Ct_Shipped"
      unfolding prepared_old_def by blast
    have c': "\<not> under_way (c_shipment c) s" using open' c assms(2) by (auto simp: transit_ok_def)
    show ?thesis
    proof (rule transit_okI [OF assms(2)])
      show "keys_ok (db_cartons t)" using keys by (simp add: t keys_ok_upd)
      show "under_way x t = under_way x s" for x by (rule prepare_carton_way [OF assms(1)])
    next
      fix i c1
      assume "row_get (db_cartons t) i = Some c1"
      then have "(i = k \<and> c1 = fill_dimensions sz (assign_fields sh pre loc c))
          \<or> (i \<noteq> k \<and> row_get (db_cartons s) i = Some c1)"
        using c by (auto simp: t row_get_upd split: if_splits)
      then show "(\<exists>c. row_get (db_cartons s) i = Some c \<and> c_shipment c1 = c_shipment c
          \<and> (c_status c1 = Ct_Shipped \<longleftrightarrow> c_status c = Ct_Shipped))
        \<or> (c_status c1 \<noteq> Ct_Shipped \<and> \<not> under_way (c_shipment c1) s)"
        using out c' open' by (auto split: if_splits)
    qed
  qed
qed

lemma recoded_transit: "recoded k s t \<Longrightarrow> transit_ok s \<Longrightarrow> transit_ok t"
proof -
  assume rec: "recoded k s t" and ok: "transit_ok s"
  have ships: "db_shipments t = db_shipments s" using recoded_frame [OF rec] by auto
  obtain x where x: "db_cartons t = x" "x = db_cartons s
      \<or> (\<exists>code. x = row_upd k (\<lambda>c. c\<lparr>c_code := code\<rparr>) (db_cartons s))"
    using rec unfolding recoded_def by (elim exE conjE disjE) (rule that [of "db_cartons t"], force+)
  show "transit_ok t"
  proof (rule transit_okI [OF ok _ under_way_cong [OF ships]])
    show "keys_ok (db_cartons t)" using x ok by (auto simp: transit_ok_def keys_ok_upd)
  next
    fix i c'
    assume "row_get (db_cartons t) i = Some c'"
    with x have "\<exists>c. row_get (db_cartons s) i = Some c \<and> c_shipment c' = c_shipment c
        \<and> c_status c' = c_status c"
      by (auto simp: row_get_upd split: if_splits)
    then show "(\<exists>c. row_get (db_cartons s) i = Some c \<and> c_shipment c' = c_shipment c
          \<and> (c_status c' = Ct_Shipped \<longleftrightarrow> c_status c = Ct_Shipped))
      \<or> (c_status c' \<noteq> Ct_Shipped \<and> \<not> under_way (c_shipment c') s)" by auto
  qed
qed

lemma finish_packing_transit:
  assumes "finish_packing e u (k, m) sh skip r1 r2 s = Inr (obj, t)" and "transit_ok s"
    and "\<And>c. row_get (db_cartons s) k = Some c \<Longrightarrow> c_status c \<noteq> Ct_Shipped"
  shows "transit_ok t"
proof -
  from assms(1) obtain c s2 where "row_get (db_cartons s) k = Some c"
    and s2: "(case sh of None \<Rightarrow> Inr (if sh \<noteq> None then snd (set_carton_status e k Ct_Assigned u r1 id s)
        else if c_status c = Ct_Draft \<and> \<not> skip then snd (set_carton_status e k Ct_Picking u r2 id s) else s)
      | Some x \<Rightarrow> sync_shipment_ready_state e x
          (if sh \<noteq> None then snd (set_carton_status e k Ct_Assigned u r1 id s)
        else if c_status c = Ct_Draft \<and> \<not> skip then snd (set_carton_status e k Ct_Picking u r2 id s) else s))
      = Inr s2"
    and s3: "ensure_carton_code e k m None s2 = Inr t"
    unfolding finish_packing_def Let_def by (auto simp: wms_ok)
  moreover have "transit_ok (snd (set_carton_status e k new u r id s))" if "new \<noteq> Ct_Shipped" for new r
    using assms(2) that by (rule set_carton_status_transit) (simp add: assms(3))
  ultimately have "transit_ok s2" using assms(2) by (cases sh) (auto simp: sync_transit)
  with ensure_carton_code_recoded [OF s3] show ?thesis by (rule recoded_transit)
qed

lemma pack_carton_transit:
  assumes "pack_carton e u p q carton code sh pre d loc sz skip s = Inr (obj, t)" and "transit_ok s"
  shows "transit_ok t"
  using assms(1)
proof (rule pack_carton_Inr)
  fix k m s1 reqs s2
  assume p1: "prepare_carton e u carton sh pre loc code sz s = Inr ((k, m), s1)"
    and p3: "for_each (pack_component e u (if sh \<noteq> None then Mv_Out else Mv_Precondition) sh k d) reqs s1 = Inr s2"
    and p4: "finish_packing e u (k, m) sh skip ''stock_pack_assign'' ''stock_pack_start_picking'' s2 = Inr (obj, t)"
  have same: "same_freight s1 s2" using p3 by (rule for_each_freight) (rule pack_component_freight)
  have "transit_ok s1" by (rule prepare_carton_transit [OF p1 assms(2)])
  then have "transit_ok s2" using transit_ok_freight [OF same] by simp
  with p4 show "transit_ok t"
    by (rule finish_packing_transit)
      (use prepare_carton_row(1) [OF p1] same in \<open>auto simp: same_freight_def\<close>)
qed

lemma pack_from_reserved_transit:
  assumes "pack_carton_from_reserved e u line q carton sh loc sz d s = Inr (obj, t)" and "transit_ok s"
  shows "transit_ok t"
proof -
  from assms(1) obtain k m s1 parts s2
    where p1: "prepare_carton e u carton sh None loc [] sz s = Inr ((k, m), s1)"
      and p2: "consume_reserved_stock e u line q (if sh \<noteq> None then Mv_Out else Mv_Precondition) sh (Some k) s1
        = Inr (parts, s2)"
      and p3: "finish_packing e u (k, m) sh False ''order_pack_assign''
           ''order_pack_start_picking'' (fold (add_to_carton d k) parts s2) = Inr (obj, t)"
    by (auto simp: pack_carton_from_reserved_def wms_ok)
  have "same_freight s1 (fold (add_to_carton d k) parts s2)"
    by (rule fold_keeps [where P = "same_freight s1"]) (simp_all add: consume_reserved_freight [OF p2])
  then have same: "same_freight s1 (fold (add_to_carton d k) parts s2)" .
  have "transit_ok s1" by (rule prepare_carton_transit [OF p1 assms(2)])
  then have "transit_ok (fold (add_to_carton d k) parts s2)" using transit_ok_freight [OF same] by simp
  with p3 show ?thesis
    by (rule finish_packing_transit)
      (use prepare_carton_row(1) [OF p1] same in \<open>auto simp: same_freight_def\<close>)
qed

lemma unpack_carton_transit:
  assumes "unpack_carton e u k s = Inr t" and "transit_ok s"
  shows "transit_ok t"
  using assms(1)
proof (rule unpack_carton_Inr)
  fix c s1
  assume c: "row_get (db_cartons s) k = Some c" and open': "c_status c \<noteq> Ct_Shipped"
    and ret: "for_each (return_item e u k (c_shipment c)) (carton_items_of k s) s = Inr s1"
    and last: "(case c_shipment c of
            None \<Rightarrow> Inr (snd (set_carton_status e k Ct_Draft u ''stock_unpack''
                   (\<lambda>c. c\<lparr>c_shipment := None\<rparr>)
                   (s1\<lparr>db_carton_items := rows_where (\<lambda>_ i. it_carton i \<noteq> k) (db_carton_items s1)\<rparr>)))
          | Some sh \<Rightarrow> sync_shipment_ready_state e sh
              (snd (set_carton_status e k Ct_Draft u ''stock_unpack''
                   (\<lambda>c. c\<lparr>c_shipment := None\<rparr>)
                   (s1\<lparr>db_carton_items := rows_where (\<lambda>_ i. it_carton i \<noteq> k) (db_carton_items s1)\<rparr>)))) = Inr t"
  let ?s2 = "s1\<lparr>db_carton_items := rows_where (\<lambda>_ i. it_carton i \<noteq> k) (db_carton_items s1)\<rparr>"
  have "same_freight s s1" using ret by (rule for_each_freight) (rule return_item_freight)
  then have same: "same_freight s ?s2" by simp
  then have ok2: "transit_ok ?s2" using transit_ok_freight [OF same] assms(2) by blast
  have "transit_ok (snd (set_carton_status e k Ct_Draft u ''stock_unpack'' (\<lambda>c. c\<lparr>c_shipment := None\<rparr>) ?s2))"
    using ok2 by (rule set_carton_status_transit) (use same c open' in \<open>auto simp: same_freight_def under_way_def\<close>)
  with last show "transit_ok t" by (cases "c_shipment c") (auto simp: sync_transit)
qed


section \<open>Tracking\<close>

text \<open>A shipment that leaves or comes back takes its cartons with it.\<close>

lemma switch_transit:
  assumes save: "shipment_save e k f s = Inr s1" and ok: "transit_ok s"
    and r: "row_get (db_shipments s) k = Some r"
    and way: "shipped_or_later (s_status (f r)) \<longleftrightarrow> new = Ct_Shipped"
    and P: "\<And>c. c_shipment c = Some k \<Longrightarrow> (c_status c = Ct_Shipped \<longleftrightarrow> shipped_or_later (s_status r))
      \<Longrightarrow> P c \<or> (c_status c = Ct_Shipped \<longleftrightarrow> new = Ct_Shipped)"
  shows "transit_ok (set_carton_statuses e u new reason (filter (\<lambda>(_, c). P c) (cartons_of_shipment k s1)) s1)"
    (is "transit_ok ?t")
proof -
  let ?L = "filter (\<lambda>(_, c). P c) (cartons_of_shipment k s1)"
  have cart: "db_cartons s1 = db_cartons s" using shipment_save_frame [OF save] by auto
  have ships: "db_shipments ?t = db_shipments s1"
    using set_carton_statuses_frame [of e u new reason ?L s1] by auto
  have keys: "keys_ok (db_cartons s)" using ok by (simp add: transit_ok_def)
  have row: "(\<exists>ref. row_get (db_shipments s1) k = Some ((f r)\<lparr>s_reference := ref\<rparr>))
      \<and> (\<forall>j. j \<noteq> k \<longrightarrow> row_get (db_shipments s1) j = row_get (db_shipments s) j)"
    using shipment_save_row [OF save r] by blast
  have at_k: "under_way (Some k) ?t \<longleftrightarrow> new = Ct_Shipped"
    using row way by (auto simp: under_way_def ships)
  have away: "sh \<noteq> Some k \<Longrightarrow> under_way sh ?t = under_way sh s" for sh
    using row by (cases sh) (auto simp: under_way_def ships)
  have mem: "i \<in> fst ` set ?L \<longleftrightarrow> (\<exists>c. row_get (db_cartons s) i = Some c \<and> c_shipment c = Some k \<and> P c)" for i
    using cartons_of_shipment_mem [of s1 _ _ k] keys cart by (force simp: image_iff)
  show ?thesis
    unfolding transit_ok_def
  proof (intro conjI allI impI)
    show "keys_ok (db_cartons ?t)" using keys by (simp add: set_carton_statuses_keys cart)
  next
    fix i c'
    assume "row_get (db_cartons ?t) i = Some c'"
    then obtain c where c: "row_get (db_cartons s) i = Some c"
      and c': "c' = (if i \<in> fst ` set ?L then c\<lparr>c_status := new\<rparr> else c)"
      unfolding set_carton_statuses_row cart by auto
    from c ok have before: "c_status c = Ct_Shipped \<longleftrightarrow> under_way (c_shipment c) s"
      by (auto simp: transit_ok_def)
    show "c_status c' = Ct_Shipped \<longleftrightarrow> under_way (c_shipment c') ?t"
    proof (cases "c_shipment c = Some k")
      case True
      then have "under_way (c_shipment c) s \<longleftrightarrow> shipped_or_later (s_status r)"
        by (simp add: under_way_def r)
      with before P [OF True] have "P c \<or> (c_status c = Ct_Shipped \<longleftrightarrow> new = Ct_Shipped)" by simp
      moreover have "i \<in> fst ` set ?L \<longleftrightarrow> P c" using mem [of i] True c by auto
      ultimately show ?thesis using True c' at_k by (cases "P c") simp_all
    next
      case False
      then have "i \<notin> fst ` set ?L" using c unfolding mem by auto
      then show ?thesis using c' before away [OF False] by simp
    qed
  qed
qed

lemma set_disputed_transit:
  "set_disputed e k r s = Inr t \<Longrightarrow> transit_ok s \<Longrightarrow> transit_ok t"
  by (auto simp: set_disputed_def split: if_splits elim: shipment_save_transit)

lemma dispute_updates_status:
  "s_status (dispute_updates e r x) = (if dispute_resettable (s_status r) then Ship_Packed else s_status x)"
  by (simp add: dispute_updates_def Let_def)

lemma resolve_dispute_transit:
  assumes "resolve_dispute e u k r s = Inr t" and "transit_ok s" and "row_get (db_shipments s) k = Some r"
  shows "transit_ok t"
proof (cases "s_is_disputed r \<or> dispute_resettable (s_status r)")
  case True
  with assms(1) obtain s1 where save: "shipment_save e k (dispute_updates e r) s = Inr s1"
    and sync: "sync_shipment_ready_state e k
          (if s_status r \<in> {Ship_Shipped, Ship_Received_Correspondent, Ship_Delivered}
           then set_carton_statuses e u Ct_Labeled ''dispute_resolve_reset''
                  (filter (\<lambda>(_, c). c_status c = Ct_Shipped) (cartons_of_shipment k s1)) s1
           else s1) = Inr t"
    by (auto simp: resolve_dispute_def wms_ok simp del: insert_iff)
  show ?thesis
  proof (cases "s_status r \<in> {Ship_Shipped, Ship_Received_Correspondent, Ship_Delivered}")
    case shipped: True
    have "transit_ok (set_carton_statuses e u Ct_Labeled ''dispute_resolve_reset''
        (filter (\<lambda>(_, c). c_status c = Ct_Shipped) (cartons_of_shipment k s1)) s1)"
      by (rule switch_transit [OF save assms(2,3)])
        (use shipped in \<open>auto simp: dispute_updates_status dispute_resettable_def shipped_or_later_def\<close>)
    with sync shipped show ?thesis by (simp add: sync_transit del: insert_iff)
  next
    case False
    have "transit_ok s1"
      by (rule shipment_save_transit [OF save assms(2)])
        (use False assms(3) in \<open>auto simp: dispute_updates_status shipped_or_later_def\<close>)
    with sync False show ?thesis by (simp add: sync_transit del: insert_iff)
  qed
next
  case False
  with assms show ?thesis by (simp add: resolve_dispute_def)
qed

lemma allowed_statuses_way:
  assumes "st \<in> set (allowed_statuses current last_status)"
  shows "tracking_target st = Ship_Shipped \<and> current = Ship_Planned
    \<or> tracking_target st \<noteq> Ship_Shipped
      \<and> shipped_or_later (tracking_target st) = shipped_or_later current"
  using assms by (auto simp: allowed_statuses_def tracking_target_def shipped_or_later_def split: if_splits)

lemma advance_shipment_transit:
  assumes "advance_shipment e u k r st s = Inr t" and "transit_ok s"
    and "row_get (db_shipments s) k = Some r" and "st \<in> set (allowed_statuses (s_status r) last_status)"
  shows "transit_ok t"
proof (cases "s_status r = tracking_target st")
  case True
  with assms(1,2) show ?thesis by (simp add: advance_shipment_def)
next
  case False
  let ?f = "\<lambda>x. if tracking_target st = Ship_Packed \<and> s_ready_at r = None
                then x\<lparr>s_status := tracking_target st, s_ready_at := Some (e_now e)\<rparr>
                else x\<lparr>s_status := tracking_target st\<rparr>"
  have "\<exists>s1. shipment_save e k ?f s = Inr s1 \<and> (if tracking_target st = Ship_Shipped
        then Inr (set_carton_statuses e u Ct_Shipped ''tracking_boarding_ok''
               (filter (\<lambda>(_, c). c_status c \<noteq> Ct_Shipped) (cartons_of_shipment k s1)) s1)
        else Inr s1) = (Inr t :: err + db)"
    using assms(1) unfolding advance_shipment_def Let_def if_not_P [OF False] res_bind_Inr .
  then obtain s1 where save: "shipment_save e k ?f s = Inr s1"
    and tail: "(if tracking_target st = Ship_Shipped
        then Inr (set_carton_statuses e u Ct_Shipped ''tracking_boarding_ok''
               (filter (\<lambda>(_, c). c_status c \<noteq> Ct_Shipped) (cartons_of_shipment k s1)) s1)
        else Inr s1) = (Inr t :: err + db)"
    by (elim exE conjE)
  from tail have t: "t = (if tracking_target st = Ship_Shipped
        then set_carton_statuses e u Ct_Shipped ''tracking_boarding_ok''
               (filter (\<lambda>(_, c). c_status c \<noteq> Ct_Shipped) (cartons_of_shipment k s1)) s1 else s1)"
    by (cases "tracking_target st = Ship_Shipped") simp_all
  from allowed_statuses_way [OF assms(4)] show ?thesis
  proof
    assume "tracking_target st = Ship_Shipped \<and> s_status r = Ship_Planned"
    then show ?thesis
      unfolding t using switch_transit [OF save assms(2,3), of Ct_Shipped "\<lambda>c. c_status c \<noteq> Ct_Shipped"]
      by (simp add: shipped_or_later_def)
  next
    assume "tracking_target st \<noteq> Ship_Shipped
      \<and> shipped_or_later (tracking_target st) = shipped_or_later (s_status r)"
    moreover from this have "transit_ok s1"
      using assms(3) by (intro shipment_save_transit [OF save assms(2)]) auto
    ultimately show ?thesis by (simp add: t)
  qed
qed

lemma create_tracking_event_freight: "same_freight s (create_tracking_event e u k f s)"
  by (simp add: create_tracking_event_def)

lemma validate_allowed:
  "validate_tracking_transition k r st s = None \<Longrightarrow>
     st \<in> set (allowed_statuses (s_status r) (latest_tracking_status k s))"
  by (simp add: validate_tracking_transition_def allowed_tracking_statuses_for_shipment_def split: if_splits)

lemma record_tracking_transit:
  assumes "advance_shipment e u k r (tf_status f) (create_tracking_event e u k f s) = Inr t"
    and "validate_tracking_transition k r (tf_status f) s = None"
    and "row_get (db_shipments s) k = Some r" and "transit_ok s"
  shows "transit_ok t"
proof -
  note same = create_tracking_event_freight [of s e u k f]
  have "transit_ok (create_tracking_event e u k f s)" using transit_ok_freight [OF same] assms(4) by simp
  moreover have "row_get (db_shipments (create_tracking_event e u k f s)) k = Some r"
    using same assms(3) by (simp add: same_freight_def)
  ultimately show ?thesis
    using validate_allowed [OF assms(2)] by (rule advance_shipment_transit [OF assms(1)])
qed

lemma handle_dispute_transit:
  assumes "handle_dispute_action e rq k r s = Inr (x, t)" and "transit_ok s"
    and "row_get (db_shipments s) k = Some r"
  shows "transit_ok t" and "x = None \<Longrightarrow> t = s"
  using assms set_disputed_transit resolve_dispute_transit
  by (auto simp: handle_dispute_action_def Let_def wms_ok split: if_splits)

lemma handle_tracking_transit:
  assumes "handle_shipment_tracking_post e rq k form s = Inr (x, t)" and "transit_ok s"
  shows "transit_ok t"
proof (cases "rq_is_post rq")
  case True
  with assms(1) obtain r resp s1 where r: "row_get (db_shipments s) k = Some r"
    and d: "handle_dispute_action e rq k r s = Inr (resp, s1)"
    and rest: "(case resp of Some x \<Rightarrow> Inr (x, s1)
          | None \<Rightarrow> if s_is_disputed r then Inr (Litige_A_Resoudre, s1)
              else case Option.bind form (clean_tracking_form (allowed_tracking_statuses_for_shipment k r s)) of
                None \<Rightarrow> Inr (Form_Refused None, s1)
              | Some f \<Rightarrow>
                  (case validate_tracking_transition k r (tf_status f) s1 of
                     Some error \<Rightarrow> Inr (Form_Refused (Some error), s1)
                   | None \<Rightarrow>
                       res_bind (advance_shipment e (rq_user rq) k r (tf_status f)
                           (create_tracking_event e (rq_user rq) k f s1)) (\<lambda>s2.
                         Inr (Suivi_Mis_A_Jour, s2)))) = Inr (x, t)"
    unfolding handle_shipment_tracking_post_def by (auto simp: wms_ok)
  note d1 = handle_dispute_transit [OF d assms(2) r]
  show ?thesis
  proof (cases resp)
    case None
    then have s1: "s1 = s" by (rule d1(2))
    from rest None assms(2) r show ?thesis
      by (auto simp: s1 wms_ok split: if_splits option.splits intro: record_tracking_transit)
  next
    case (Some y)
    with rest d1(1) show ?thesis by simp
  qed
next
  case False
  with assms show ?thesis by (simp add: handle_shipment_tracking_post_def)
qed

lemma api_tracking_transit:
  assumes "api_tracking_event e u k form s = Inr (x, t)" and "transit_ok s"
  shows "transit_ok t"
  using assms
  by (auto simp: api_tracking_event_def wms_ok split: option.splits if_splits intro: record_tracking_transit)

lemma close_transit:
  "close_shipment_case e u k s = Inr (x, t) \<Longrightarrow> transit_ok s \<Longrightarrow> transit_ok t"
  "api_close_shipment e u k s = Inr (y, t) \<Longrightarrow> transit_ok s \<Longrightarrow> transit_ok t"
  by (auto simp: close_shipment_case_def api_close_shipment_def wms_ok split: option.splits if_splits
      elim: shipment_save_transit)


section \<open>The planning and the list of cartons\<close>

lemma update_assigned_transit:
  assumes "update_assigned_shipment e p an st com u row (seen, m, s) = Inr (seen', m', t)" and "transit_ok s"
  shows "transit_ok t"
proof (cases "assigned_shipment p (snd row)")
  case None
  with assms show ?thesis by (simp add: update_assigned_shipment_def)
next
  case (Some k)
  show ?thesis
  proof (cases "k \<in> set seen")
    case True
    with Some assms show ?thesis by (simp add: update_assigned_shipment_def)
  next
    case False
    with Some assms(1) obtain sh where sh: "row_get (db_shipments s) k = Some sh"
      and rest: "\<not> allowed_shipment_update (s_status sh) \<and> t = s
         \<or> allowed_shipment_update (s_status sh)
           \<and> (\<exists>s1. set_planned e k sh s = Inr s1 \<and> t = ensure_planned_event e u k
                \<lparr>tf_status = Tr_Planned, tf_actor_name = an, tf_actor_structure = st, tf_comments = com\<rparr> s1)"
      unfolding update_assigned_shipment_def
      by (auto simp: res_bind_Inr require_Inr Let_def split: if_splits)
    from rest show ?thesis
    proof (elim disjE conjE exE)
      fix s1
      assume allowed: "allowed_shipment_update (s_status sh)" and s1: "set_planned e k sh s = Inr s1"
        and t: "t = ensure_planned_event e u k
                \<lparr>tf_status = Tr_Planned, tf_actor_name = an, tf_actor_structure = st, tf_comments = com\<rparr> s1"
      have "transit_ok s1"
        using s1 assms(2) allowed sh
        by (auto simp: set_planned_def allowed_shipment_update_def shipped_or_later_def
            split: if_splits elim!: shipment_save_transit)
      then show ?thesis
        using transit_ok_freight [OF create_tracking_event_freight]
        by (simp add: t ensure_planned_event_def)
    qed (use assms(2) in simp)
  qed
qed

lemma apply_version_transit:
  assumes "apply_version_updates e v an st u p s = Inr (m, t)" and "transit_ok s"
  shows "transit_ok t"
proof -
  from assms(1) obtain com u' acc seen
    where loop: "for_each (update_assigned_shipment e p an st com u') (assignments_of v p) acc = Inr (seen, m, t)"
      and acc: "snd (snd acc) = s"
    by (auto simp: apply_version_updates_def wms_ok Let_def)
  have "transit_ok (snd (snd (seen, m, t)))"
    using loop
    by (rule for_each_inv [where P = "\<lambda>acc. transit_ok (snd (snd acc))"])
      (use acc assms(2) update_assigned_transit in auto)
  then show ?thesis by simp
qed

lemma delete_carton_row_transit: "transit_ok s \<Longrightarrow> transit_ok (delete_carton_row k s)"
  using under_way_cong [of "delete_carton_row k s" s]
  by (auto simp: transit_ok_def delete_carton_row_def keys_ok_del row_get_del split: if_splits)

lemma delete_carton_transit:
  assumes "delete_carton e u k c s = Inr t" and "transit_ok s"
  shows "transit_ok t"
proof (cases "carton_can_be_mutated (Some c) s")
  case True
  show ?thesis
  proof (cases "if carton_items_of k s \<noteq> [] then unpack_carton e u k s else Inr s")
    case (Inl x)
    with assms True show ?thesis by (cases x) (auto simp: delete_carton_def)
  next
    case (Inr s1)
    then have "transit_ok s1" using assms(2) by (auto split: if_splits intro: unpack_carton_transit)
    then have "transit_ok (delete_carton_row k s1)" by (rule delete_carton_row_transit)
    with assms(1) True Inr show ?thesis
      by (auto simp: delete_carton_def sync_transit split: option.splits)
  qed
next
  case False
  with assms show ?thesis by (simp add: delete_carton_def)
qed

lemma mark_carton_transit:
  assumes "mark_carton e u from new reason k c sh s = Inr t" and "transit_ok s"
    and "row_get (db_cartons s) k = Some c" and "Ct_Shipped \<notin> from" and "new \<noteq> Ct_Shipped"
  shows "transit_ok t"
proof (cases "c_status c \<in> from")
  case True
  have "transit_ok (snd (set_carton_status e k new u reason id s))"
    using assms(2,5) by (rule set_carton_status_transit) (use assms(3,4) True in auto)
  with assms(1) True show ?thesis by (auto simp: mark_carton_def sync_transit)
next
  case False
  with assms(1,2) show ?thesis by (simp add: mark_carton_def)
qed

lemma handle_carton_transit:
  assumes "handle_carton_status_update e rq k status s = Inr (b, t)" and "transit_ok s"
  shows "transit_ok t"
proof -
  have upd: "transit_ok (snd (set_carton_status e k new u ''manual_update'' id s))"
    if "row_get (db_cartons s) k = Some c" "c_status c \<noteq> Ct_Shipped" "new \<in> {Ct_Draft, Ct_Picking, Ct_Packed}"
    for c new u
    using assms(2) by (rule set_carton_status_transit) (use that in auto)
  show ?thesis
    using assms
    by (auto simp: handle_carton_status_update_def Let_def wms_ok split: if_splits option.splits
        intro: upd delete_carton_transit mark_carton_transit)
qed

section \<open>The life of cartons and shipments\<close>

text \<open>
  One request that concerns cartons or shipments, by any user at any time: the labels of the
  steps are the requests, which the operations may refuse.
\<close>

inductive life_step :: "db \<Rightarrow> db \<Rightarrow> bool" where
  track: "handle_shipment_tracking_post e rq k form s = Inr (x, t) \<Longrightarrow> life_step s t"
| track_api: "api_tracking_event e u k form s = Inr (x, t) \<Longrightarrow> life_step s t"
| close: "close_shipment_case e u k s = Inr (x, t) \<Longrightarrow> life_step s t"
| close_api: "api_close_shipment e u k s = Inr (x, t) \<Longrightarrow> life_step s t"
| plan: "apply_version_updates e v an st u p s = Inr (m, t) \<Longrightarrow> life_step s t"
| carton: "handle_carton_status_update e rq k status s = Inr (b, t) \<Longrightarrow> life_step s t"
| pack: "pack_carton e u p q c code sh pre d loc sz skip s = Inr (obj, t) \<Longrightarrow> life_step s t"
| pack_reserved: "pack_carton_from_reserved e u line q c sh loc sz d s = Inr (obj, t) \<Longrightarrow> life_step s t"
| unpack: "unpack_carton e u k s = Inr t \<Longrightarrow> life_step s t"
| sync: "sync_shipment_ready_state e k s = Inr t \<Longrightarrow> life_step s t"

inductive_cases life_stepE: "life_step s t"

lemma life_step_transit: "life_step s t \<Longrightarrow> transit_ok s \<Longrightarrow> transit_ok t"
  by (induction rule: life_step.induct)
    (blast intro: handle_tracking_transit api_tracking_transit close_transit apply_version_transit
      handle_carton_transit pack_carton_transit pack_from_reserved_transit unpack_carton_transit
      sync_transit [THEN iffD2])+

lemma life_transit: "life_step\<^sup>*\<^sup>* s t \<Longrightarrow> transit_ok s \<Longrightarrow> transit_ok t"
  by (induction rule: rtranclp_induct) (auto intro: life_step_transit)

end
