(* ===== verification/Tracking_Properties.thy ===== *)
theory Tracking_Properties
  imports Shipping Samples
begin

text \<open>
  What the stages of tracking promise: a carton is shipped exactly when its shipment is under way, in
  every state that requests reach (rule induction over \<open>life_step\<close>); one accepted request moves a
  shipment by one stage at most; and from every stage an undisputed shipment can be delivered.
\<close>

section \<open>The stages of a shipment\<close>

fun stage :: "shipment_status \<Rightarrow> nat" where
  "stage Ship_Planned = 1"
| "stage Ship_Shipped = 2"
| "stage Ship_Received_Correspondent = 3"
| "stage Ship_Delivered = 4"
| "stage _ = 0"

lemma allowed_statuses_stage:
  "st \<in> set (allowed_statuses current last_status) \<Longrightarrow>
     stage current \<le> stage (tracking_target st) \<and> stage (tracking_target st) \<le> Suc (stage current)"
  by (cases current) (auto simp: allowed_statuses_def tracking_target_def split: if_splits)

lemma length_filter_mono: "(\<And>x. P x \<Longrightarrow> Q x) \<Longrightarrow> length (filter P xs) \<le> length (filter Q xs)"
  by (induction xs) (auto intro: le_SucI)

lemma validate_ready:
  "validate_ready_for_planning k s = None \<longleftrightarrow>
     carton_set k s \<noteq> [] \<and> (\<forall>(i, c) \<in> set (carton_set k s). ready_carton (c_status c))"
proof -
  have le: "count_status ready_carton k s = length (carton_set k s)
      \<longleftrightarrow> (\<forall>(i, c) \<in> set (carton_set k s). ready_carton (c_status c))"
    unfolding count_status_def using length_filter_less_iff [of "\<lambda>(_, c). ready_carton (c_status c)" "carton_set k s"]
    by (auto simp: order.strict_iff_order)
  have sub: "count_status ready_carton k s \<le> count_status assigned_or_ready k s"
    unfolding count_status_def by (rule length_filter_mono) (auto simp: ready_carton_def assigned_or_ready_def)
  have top: "count_status P k s \<le> length (carton_set k s)" for P
    by (simp add: count_status_def)
  show ?thesis
    using le sub top [of ready_carton] top [of assigned_or_ready]
    by (auto simp: validate_ready_for_planning_def Let_def)
qed

lemma advance_shipment_Inr:
  assumes "advance_shipment e u k r st s = Inr t" and "row_get (db_shipments s) k = Some r"
  shows "\<exists>r'. row_get (db_shipments t) k = Some r' \<and> s_status r' = tracking_target st
      \<and> s_is_disputed r' = s_is_disputed r \<and> s_destination r' = s_destination r"
    and "j \<noteq> k \<Longrightarrow> row_get (db_shipments t) j = row_get (db_shipments s) j"
    and "db_tracking t = db_tracking s"
proof -
  let ?f = "\<lambda>x. if tracking_target st = Ship_Packed \<and> s_ready_at r = None
                then x\<lparr>s_status := tracking_target st, s_ready_at := Some (e_now e)\<rparr>
                else x\<lparr>s_status := tracking_target st\<rparr>"
  have "(\<exists>r'. row_get (db_shipments t) k = Some r' \<and> s_status r' = tracking_target st
      \<and> s_is_disputed r' = s_is_disputed r \<and> s_destination r' = s_destination r)
    \<and> (j \<noteq> k \<longrightarrow> row_get (db_shipments t) j = row_get (db_shipments s) j)
    \<and> db_tracking t = db_tracking s"
  proof (cases "s_status r = tracking_target st")
    case True
    with assms show ?thesis by (simp add: advance_shipment_def)
  next
    case False
    have "\<exists>s1. shipment_save e k ?f s = Inr s1 \<and> (if tracking_target st = Ship_Shipped
        then Inr (set_carton_statuses e u Ct_Shipped ''tracking_boarding_ok''
               (filter (\<lambda>(_, c). c_status c \<noteq> Ct_Shipped) (cartons_of_shipment k s1)) s1)
        else Inr s1) = (Inr t :: err + db)"
      using assms(1) unfolding advance_shipment_def Let_def if_not_P [OF False] res_bind_Inr .
    then obtain s1 where save: "shipment_save e k ?f s = Inr s1"
      and tail: "(if tracking_target st = Ship_Shipped
        then Inr (set_carton_statuses e u Ct_Shipped ''tracking_boarding_ok''
               (filter (\<lambda>(_, c). c_status c \<noteq> Ct_Shipped) (cartons_of_shipment k s1)) s1)
        else Inr s1) = (Inr t :: err + db)"
      by (elim exE conjE)
    have "\<exists>x y. t = s1\<lparr>db_cartons := x, db_carton_events := y\<rparr>"
    proof (cases "tracking_target st = Ship_Shipped")
      case True
      with tail show ?thesis using set_carton_statuses_frame by simp metis
    next
      case False
      with tail have "t = s1\<lparr>db_cartons := db_cartons s1, db_carton_events := db_carton_events s1\<rparr>" by simp
      then show ?thesis by blast
    qed
    then have t: "db_shipments t = db_shipments s1 \<and> db_tracking t = db_tracking s1" by auto
    have "db_tracking s1 = db_tracking s" using shipment_save_frame [OF save] by auto
    with t shipment_save_row [OF save assms(2)] show ?thesis by auto
  qed
  then show "\<exists>r'. row_get (db_shipments t) k = Some r' \<and> s_status r' = tracking_target st
      \<and> s_is_disputed r' = s_is_disputed r \<and> s_destination r' = s_destination r"
    and "j \<noteq> k \<Longrightarrow> row_get (db_shipments t) j = row_get (db_shipments s) j"
    and "db_tracking t = db_tracking s"
    by blast+
qed

lemma handle_tracking_updated:
  assumes "handle_shipment_tracking_post e rq k form s = Inr (Suivi_Mis_A_Jour, t)"
    and "row_get (db_shipments s) k = Some r"
  obtains f g where "form = Some f" and "tf_status g = tf_status f" and "\<not> s_is_disputed r"
    and "validate_tracking_transition k r (tf_status f) s = None"
    and "advance_shipment e (rq_user rq) k r (tf_status f) (create_tracking_event e (rq_user rq) k g s) = Inr t"
proof -
  have post: "rq_is_post rq" using assms(1) by (auto simp: handle_shipment_tracking_post_def split: if_splits)
  with assms obtain resp s1 where
    d: "handle_dispute_action e rq k r s = Inr (resp, s1)"
    and rest: "(case resp of Some x \<Rightarrow> Inr (x, s1)
          | None \<Rightarrow> if s_is_disputed r then Inr (Litige_A_Resoudre, s1)
              else case Option.bind form (clean_tracking_form (allowed_tracking_statuses_for_shipment k r s)) of
                None \<Rightarrow> Inr (Form_Refused None, s1)
              | Some f \<Rightarrow>
                  (case validate_tracking_transition k r (tf_status f) s1 of
                     Some error \<Rightarrow> Inr (Form_Refused (Some error), s1)
                   | None \<Rightarrow>
                       res_bind (advance_shipment e (rq_user rq) k r (tf_status f)
                           (create_tracking_event e (rq_user rq) k f s1)) (\<lambda>s2.
                         Inr (Suivi_Mis_A_Jour, s2)))) = Inr (Suivi_Mis_A_Jour, t)"
    unfolding handle_shipment_tracking_post_def by (auto simp: wms_ok)
  have "resp \<noteq> Some Suivi_Mis_A_Jour"
    using d by (auto simp: handle_dispute_action_def Let_def wms_ok split: if_splits)
  with rest have none: "resp = None" by (cases resp) auto
  with d have "s1 = s" by (auto simp: handle_dispute_action_def Let_def wms_ok split: if_splits)
  with rest none show ?thesis
    by (cases form) (auto simp: wms_ok dest!: clean_tracking_form_Some(1) split: if_splits option.splits intro: that)
qed

section \<open>Properties\<close>



definition tracked_db :: db where
  "tracked_db = sample_db\<lparr>db_shipments := [(1, sample_shipment ''260001'' Ship_Planned)],
     db_cartons := [(1, sample_carton ''MM-00001'' Ct_Labeled (Some 1)),
       (2, sample_carton ''MM-00002'' Ct_Labeled (Some 1)), (3, sample_carton ''MM-00003'' Ct_Packed None)]\<rparr>"

definition sample_form :: "tracking_status \<Rightarrow> tracking_form" where
  "sample_form st = \<lparr>tf_status = st, tf_actor_name = ''N'', tf_actor_structure = ''S'', tf_comments = []\<rparr>"

definition sample_request :: "string \<Rightarrow> request" where
  "sample_request action = \<lparr>rq_is_post = True, rq_action = action, rq_user = Some 1, rq_is_staff = True\<rparr>"



text \<open>
  C16: a tracking update that is accepted sets the status its step stands for, moves the shipment
  forward by at most one stage and never back, happens on an undisputed shipment only, records
  exactly one event, touches no other shipment, and, up to boarding, requires that the shipment has
  cartons and that all of them are labelled.
\<close>

theorem tracking_update_one_stage:
  assumes "handle_shipment_tracking_post e rq k (Some f) s = Inr (Suivi_Mis_A_Jour, t)"
    and "row_get (db_shipments s) k = Some r"
  shows "(\<exists>r'. row_get (db_shipments t) k = Some r' \<and> s_status r' = tracking_target (tf_status f)
      \<and> stage (s_status r) \<le> stage (s_status r') \<and> stage (s_status r') \<le> Suc (stage (s_status r)))
    \<and> \<not> s_is_disputed r
    \<and> (\<exists>ev. te_shipment ev = k \<and> te_status ev = tf_status f \<and> db_tracking t = row_ins ev (db_tracking s))
    \<and> (\<forall>j. j \<noteq> k \<longrightarrow> row_get (db_shipments t) j = row_get (db_shipments s) j)
    \<and> (planning_status (tf_status f) \<longrightarrow> carton_set k s \<noteq> []
         \<and> (\<forall>(i, c) \<in> set (carton_set k s). ready_carton (c_status c)))"
proof -
  from assms obtain g where calm: "\<not> s_is_disputed r" and g: "tf_status g = tf_status f"
    and valid: "validate_tracking_transition k r (tf_status f) s = None"
    and run: "advance_shipment e (rq_user rq) k r (tf_status f) (create_tracking_event e (rq_user rq) k g s) = Inr t"
    by (auto elim: handle_tracking_updated)
  have row: "row_get (db_shipments (create_tracking_event e (rq_user rq) k g s)) j = row_get (db_shipments s) j" for j
    by (simp add: create_tracking_event_def)
  note adv = advance_shipment_Inr [OF run, unfolded row, OF assms(2)]
  have "\<exists>ev. te_shipment ev = k \<and> te_status ev = tf_status f \<and> db_tracking t = row_ins ev (db_tracking s)"
    by (rule exI [of _ "\<lparr>te_shipment = k, te_status = tf_status f, te_actor_name = tf_actor_name g,
          te_actor_structure = tf_actor_structure g, te_comments = tf_comments g,
          te_created_by = rq_user rq, te_created_at = e_now e\<rparr>"])
      (simp add: adv(3) create_tracking_event_def g)
  moreover have "planning_status (tf_status f) \<longrightarrow> validate_ready_for_planning k s = None"
    using valid by (auto simp: validate_tracking_transition_def split: if_splits)
  ultimately show ?thesis
    using adv(1,2) allowed_statuses_stage [OF validate_allowed [OF valid]] calm
    by (auto simp: validate_ready)
qed

lemma tracking_update_one_stage_witness:
  "\<exists>t r'. handle_shipment_tracking_post sample_env (sample_request []) 1 (Some (sample_form Tr_Boarding_Ok)) tracked_db
       = Inr (Suivi_Mis_A_Jour, t)
     \<and> row_get (db_shipments t) 1 = Some r' \<and> s_status r' = Ship_Shipped"
proof -
  let ?run = "handle_shipment_tracking_post sample_env (sample_request []) 1 (Some (sample_form Tr_Boarding_Ok)) tracked_db"
  have "case ?run of Inl x \<Rightarrow> False | Inr (m, t) \<Rightarrow> m = Suivi_Mis_A_Jour" by code_simp
  then obtain t where run: "?run = Inr (Suivi_Mis_A_Jour, t)" by (auto split: sum.splits)
  moreover have "row_get (db_shipments tracked_db) 1 = Some (sample_shipment ''260001'' Ship_Planned)"
    by (simp add: tracked_db_def row_get_def)
  moreover have "tracking_target (tf_status (sample_form Tr_Boarding_Ok)) = Ship_Shipped"
    by (simp add: sample_form_def tracking_target_def)
  ultimately show ?thesis using tracking_update_one_stage [OF run] by auto
qed

section \<open>A ready shipment can be delivered\<close>

text \<open>
  A shipment that tracking can advance: undisputed, with a reference of its own that no save
  replaces, and with cartons that are all labelled or shipped.
\<close>

definition trackable :: "nat \<Rightarrow> shipment \<Rightarrow> db \<Rightarrow> bool" where
  "trackable k r s \<longleftrightarrow> row_get (db_shipments s) k = Some r \<and> \<not> s_is_disputed r
     \<and> s_reference r \<noteq> [] \<and> \<not> startswith (strip (s_reference r)) temp_reference_prefix
     \<and> \<not> shipment_reference_taken (Some k) (s_reference r) s
     \<and> keys_ok (db_cartons s) \<and> (\<exists>i c. row_get (db_cartons s) i = Some c \<and> c_shipment c = Some k)
     \<and> (\<forall>i c. row_get (db_cartons s) i = Some c \<and> c_shipment c = Some k \<longrightarrow> ready_carton (c_status c))"

lemma shipment_save_plain:
  assumes "row_get (db_shipments s) k = Some r" and "s_reference (f r) = s_reference r"
    and "s_reference r \<noteq> []" and "\<not> startswith (strip (s_reference r)) temp_reference_prefix"
    and "\<not> shipment_reference_taken (Some k) (s_reference r) s"
  shows "shipment_save e k f s = Inr (s\<lparr>db_shipments := row_upd k (\<lambda>_. f r) (db_shipments s)\<rparr>)"
  using assms
  by (simp add: shipment_save_def shipment_save_reference_def should_promote_temp_reference_def Let_def)

lemma list_ex_map: "list_ex P (map g xs) = list_ex (P \<circ> g) xs"
  by (induction xs) auto

lemma reference_taken_upd:
  "shipment_reference_taken (Some k) ref (s\<lparr>db_shipments := row_upd k f (db_shipments s)\<rparr>)
     = shipment_reference_taken (Some k) ref s"
proof -
  have "(\<lambda>(j, r). s_reference r = ref \<and> Some k \<noteq> Some j) \<circ> (\<lambda>(i, r). (i, if i = k then f r else r))
      = (\<lambda>(j, r). s_reference r = ref \<and> Some k \<noteq> Some j)"
    by (auto simp: fun_eq_iff)
  then show ?thesis
    unfolding shipment_reference_taken_def row_upd_def by (simp add: list_ex_map del: option.inject)
qed

lemma trackable_ready: "trackable k r s \<Longrightarrow> validate_ready_for_planning k s = None"
proof -
  assume tr: "trackable k r s"
  then have mem: "(i, c) \<in> set (carton_set k s) \<longleftrightarrow> row_get (db_cartons s) i = Some c \<and> c_shipment c = Some k" for i c
    by (simp add: trackable_def carton_set_def rows_where_mem row_get_iff)
  have "carton_set k s \<noteq> []" using tr mem by (force simp: trackable_def)
  moreover have "\<forall>(i, c) \<in> set (carton_set k s). ready_carton (c_status c)"
    using tr mem by (auto simp: trackable_def)
  ultimately show ?thesis by (simp add: validate_ready)
qed

text \<open>A later event is the latest one.\<close>

lemma foldr_insort_last:
  "(\<And>y. y \<in> set xs \<Longrightarrow> f x < f y) \<Longrightarrow> foldr (insort_key f) xs [x] = x # foldr (insort_key f) xs []"
proof (induction xs)
  case (Cons y ys)
  then have "\<not> f y \<le> f x" by (simp add: not_le)
  with Cons show ?case by simp
qed simp

lemma latest_after_event:
  assumes "\<And>i ev. (i, ev) \<in> set (db_tracking s) \<Longrightarrow> te_created_at ev < e_now e"
  shows "latest_tracking_status k (create_tracking_event e u k f s) = Some (tf_status f)"
proof -
  let ?ev = "\<lparr>te_shipment = k, te_status = tf_status f, te_actor_name = tf_actor_name f,
      te_actor_structure = tf_actor_structure f, te_comments = tf_comments f,
      te_created_by = u, te_created_at = e_now e\<rparr>"
  let ?old = "rows_where (\<lambda>_ t. te_shipment t = k) (db_tracking s)"
  let ?new = "(next_pk (db_tracking s), ?ev)"
  have rows: "rows_where (\<lambda>_ t. te_shipment t = k) (db_tracking (create_tracking_event e u k f s)) = ?old @ [?new]"
    by (simp add: create_tracking_event_def rows_where_def row_ins_def)
  have "foldr (insort_key (\<lambda>(_, t). - te_created_at t)) ?old [?new]
      = ?new # foldr (insort_key (\<lambda>(_, t). - te_created_at t)) ?old []"
    by (rule foldr_insort_last) (use assms in \<open>auto simp: rows_where_def\<close>)
  then have "tracking_events_of k (create_tracking_event e u k f s)
      = ?new # sort_key (\<lambda>(_, t). - te_created_at t) ?old"
    unfolding tracking_events_of_def rows sort_key_def foldr_append by simp
  then show ?thesis by (simp add: latest_tracking_status_def)
qed

text \<open>One accepted step, and what it keeps for the next one.\<close>

definition events_before :: "int \<Rightarrow> db \<Rightarrow> bool" where
  "events_before now s \<longleftrightarrow> (\<forall>(i, ev) \<in> set (db_tracking s). te_created_at ev < now)"

lemma tracking_step_possible:
  assumes tr: "trackable k r s" and post: "rq_is_post rq" "rq_action rq = []"
    and allowed: "tf_status f \<in> set (allowed_statuses (s_status r) (latest_tracking_status k s))"
    and posted: "clean_tracking_form [tf_status f] f = Some f"
    and before: "events_before (e_now e) s"
  shows "\<exists>t r'. handle_shipment_tracking_post e rq k (Some f) s = Inr (Suivi_Mis_A_Jour, t)
    \<and> trackable k r' t \<and> s_status r' = tracking_target (tf_status f)
    \<and> latest_tracking_status k t = Some (tf_status f)
    \<and> (\<forall>(i, ev) \<in> set (db_tracking t). te_created_at ev \<le> e_now e)"
proof -
  have clock: "te_created_at ev < e_now e" if "(i, ev) \<in> set (db_tracking s)" for i ev
    using before that by (auto simp: events_before_def)
  let ?s1 = "create_tracking_event e (rq_user rq) k f s"
  let ?st = "tracking_target (tf_status f)"
  let ?f = "\<lambda>x. if ?st = Ship_Packed \<and> s_ready_at r = None
                then x\<lparr>s_status := ?st, s_ready_at := Some (e_now e)\<rparr> else x\<lparr>s_status := ?st\<rparr>"
  have r: "row_get (db_shipments s) k = Some r" using tr by (simp add: trackable_def)
  have valid: "validate_tracking_transition k r (tf_status f) s = None"
    using allowed trackable_ready [OF tr]
    by (simp add: validate_tracking_transition_def allowed_tracking_statuses_for_shipment_def)
  have tr1: "trackable k r ?s1"
    using tr unfolding trackable_def create_tracking_event_def shipment_reference_taken_def by simp blast
  define s2 where "s2 = ?s1\<lparr>db_shipments := row_upd k (\<lambda>_. ?f r) (db_shipments ?s1)\<rparr>"
  have tr2: "trackable k (?f r) s2"
    using tr1 reference_taken_upd [where s = ?s1 and k = k]
    by (auto simp: trackable_def s2_def row_get_upd)
  have save: "shipment_save e k ?f ?s1 = Inr s2"
    unfolding s2_def by (rule shipment_save_plain) (use tr1 in \<open>auto simp: trackable_def\<close>)
  define t where "t = (if s_status r = ?st then ?s1
    else if ?st = Ship_Shipped
      then set_carton_statuses e (rq_user rq) Ct_Shipped ''tracking_boarding_ok''
             (filter (\<lambda>(_, c). c_status c \<noteq> Ct_Shipped) (cartons_of_shipment k s2)) s2
      else s2)"
  have adv: "advance_shipment e (rq_user rq) k r (tf_status f) ?s1 = Inr t"
    unfolding advance_shipment_def Let_def t_def save res_bind_simps by simp
  have "clean_tracking_form (allowed_tracking_statuses_for_shipment k r s) f = Some f"
    using posted allowed
    by (auto simp: clean_tracking_form_def allowed_tracking_statuses_for_shipment_def split: option.splits if_splits)
  then have run: "handle_shipment_tracking_post e rq k (Some f) s = Inr (Suivi_Mis_A_Jour, t)"
    using post r tr valid adv
    by (simp add: handle_shipment_tracking_post_def handle_dispute_action_def trackable_def strip_def)
  have "\<exists>r'. trackable k r' t \<and> s_status r' = ?st \<and> db_tracking t = db_tracking ?s1"
  proof (cases "s_status r = ?st")
    case True
    with tr1 show ?thesis by (auto simp: t_def)
  next
    case False
    show ?thesis
    proof (cases "?st = Ship_Shipped")
      case True
      let ?L = "filter (\<lambda>(_, c). c_status c \<noteq> Ct_Shipped) (cartons_of_shipment k s2)"
      obtain x y where t: "t = s2\<lparr>db_cartons := x, db_carton_events := y\<rparr>"
        using False True set_carton_statuses_frame
          [of e "rq_user rq" Ct_Shipped "''tracking_boarding_ok''" ?L s2] by (auto simp: t_def)
      have keys: "keys_ok (db_cartons t)"
        using tr2 False True by (simp add: t_def trackable_def set_carton_statuses_keys)
      have row: "row_get (db_cartons t) i
          = map_option (\<lambda>c. if i \<in> fst ` set ?L then c\<lparr>c_status := Ct_Shipped\<rparr> else c) (row_get (db_cartons s2) i)" for i
        using False True by (simp add: t_def set_carton_statuses_row)
      have "trackable k (?f r) t"
        unfolding trackable_def
      proof (intro conjI allI impI)
        show "\<exists>i c. row_get (db_cartons t) i = Some c \<and> c_shipment c = Some k"
        proof -
          obtain i c where "row_get (db_cartons s2) i = Some c" "c_shipment c = Some k"
            using tr2 by (auto simp: trackable_def)
          then show ?thesis
            by (intro exI [of _ i] exI [of _ "if i \<in> fst ` set ?L then c\<lparr>c_status := Ct_Shipped\<rparr> else c"])
              (simp add: row)
        qed
      next
        fix i c
        assume "row_get (db_cartons t) i = Some c \<and> c_shipment c = Some k"
        with tr2 show "ready_carton (c_status c)"
          by (auto simp: trackable_def row ready_carton_def split: if_splits)
      qed (use tr2 keys in \<open>simp_all add: trackable_def t shipment_reference_taken_def\<close>)
      then show ?thesis using t by (auto simp: s2_def)
    next
      case no: False
      with False tr2 show ?thesis by (auto simp: t_def s2_def)
    qed
  qed
  then obtain r' where r': "trackable k r' t" "s_status r' = ?st" "db_tracking t = db_tracking ?s1" by blast
  have "latest_tracking_status k t = Some (tf_status f)"
    using latest_after_event [of s e, OF clock] r'(3)
    by (simp add: latest_tracking_status_def tracking_events_of_def)
  moreover have "\<forall>(i, ev) \<in> set (db_tracking t). te_created_at ev \<le> e_now e"
    using clock unfolding r'(3) by (auto simp: create_tracking_event_def row_ins_def intro: less_imp_le)
  ultimately show ?thesis using run r' by blast
qed

text \<open>Accepted requests one after the other, at the instants of a clock.\<close>

fun tracked_through :: "request \<Rightarrow> nat \<Rightarrow> (nat \<Rightarrow> env) \<Rightarrow> nat \<Rightarrow> tracking_form list \<Rightarrow> db \<Rightarrow> db \<Rightarrow> bool" where
  "tracked_through rq k clock n [] s t = (t = s)"
| "tracked_through rq k clock n (f # fs) s t =
     (\<exists>u. handle_shipment_tracking_post (clock n) rq k (Some f) s = Inr (Suivi_Mis_A_Jour, u)
        \<and> tracked_through rq k clock (Suc n) fs u t)"

definition deliverable :: "(nat \<Rightarrow> env) \<Rightarrow> nat \<Rightarrow> request \<Rightarrow> nat \<Rightarrow> nat \<Rightarrow> db \<Rightarrow> bool" where
  "deliverable clock n rq k m s \<longleftrightarrow>
     (\<exists>fs t r'. length fs \<le> m \<and> tracked_through rq k clock n fs s t
        \<and> row_get (db_shipments t) k = Some r' \<and> s_status r' = Ship_Delivered)"

lemma deliverable_now:
  "trackable k r s \<Longrightarrow> s_status r = Ship_Delivered \<Longrightarrow> deliverable clock n rq k m s"
  unfolding deliverable_def trackable_def by (intro exI [of _ "[]"]) auto

lemma deliverable_step:
  assumes "trackable k r s" and "rq_is_post rq" and "rq_action rq = []"
    and "st \<in> set (allowed_statuses (s_status r) (latest_tracking_status k s))"
    and "events_before (e_now (clock n)) s" and "strict_mono (\<lambda>n. e_now (clock n))"
    and next': "\<And>t r'. trackable k r' t \<Longrightarrow> s_status r' = tracking_target st
      \<Longrightarrow> latest_tracking_status k t = Some st \<Longrightarrow> events_before (e_now (clock (Suc n))) t
      \<Longrightarrow> deliverable clock (Suc n) rq k m t"
  shows "deliverable clock n rq k (Suc m) s"
proof -
  let ?f = "\<lparr>tf_status = st, tf_actor_name = ''N'', tf_actor_structure = ''S'', tf_comments = []\<rparr>"
  have allowed: "tf_status ?f \<in> set (allowed_statuses (s_status r) (latest_tracking_status k s))"
    using assms(4) by simp
  have posted: "clean_tracking_form [tf_status ?f] ?f = Some ?f"
    by (simp add: clean_tracking_form_def clean_actor_def strip_def is_space_def)
  obtain t r' where run: "handle_shipment_tracking_post (clock n) rq k (Some ?f) s = Inr (Suivi_Mis_A_Jour, t)"
    and t: "trackable k r' t" "s_status r' = tracking_target st" "latest_tracking_status k t = Some st"
    and upto: "\<forall>(i, ev) \<in> set (db_tracking t). te_created_at ev \<le> e_now (clock n)"
    using tracking_step_possible [OF assms(1-3) allowed posted assms(5)] by auto
  have "e_now (clock n) < e_now (clock (Suc n))" using assms(6) by (simp add: strict_mono_Suc_iff)
  with upto have "events_before (e_now (clock (Suc n))) t" by (fastforce simp: events_before_def)
  from next' [OF t this] run show ?thesis
    unfolding deliverable_def by (elim exE) (rule exI [of _ "?f # _"], auto)
qed

lemma deliverable_from:
  assumes "trackable k r s" and "rq_is_post rq" and "rq_action rq = []"
    and "events_before (e_now (clock n)) s" and "strict_mono (\<lambda>n. e_now (clock n))"
  shows "s_status r = Ship_Received_Correspondent \<Longrightarrow> deliverable clock n rq k 1 s"
    and "s_status r = Ship_Shipped \<Longrightarrow> deliverable clock n rq k 2 s"
    and "s_status r = Ship_Planned \<Longrightarrow> deliverable clock n rq k 3 s"
    and "s_status r = Ship_Packed \<Longrightarrow> latest_tracking_status k s = Some Tr_Planning_Ok
      \<Longrightarrow> deliverable clock n rq k 4 s"
    and "s_status r \<in> {Ship_Draft, Ship_Picking, Ship_Packed} \<Longrightarrow> latest_tracking_status k s \<noteq> Some Tr_Planning_Ok
      \<or> s_status r \<noteq> Ship_Packed \<Longrightarrow> deliverable clock n rq k 5 s"
proof -
  note defs = allowed_statuses_def tracking_target_def
  have d1: "deliverable clock n rq k (Suc 0) s"
    if "trackable k r s" "events_before (e_now (clock n)) s" "s_status r = Ship_Received_Correspondent" for r s n
    by (rule deliverable_step [OF that(1) assms(2,3) _ that(2) assms(5), of Tr_Received_Recipient])
      (use that(3) in \<open>auto simp: defs intro: deliverable_now\<close>)
  have d2: "deliverable clock n rq k (Suc (Suc 0)) s"
    if "trackable k r s" "events_before (e_now (clock n)) s" "s_status r = Ship_Shipped" for r s n
    by (rule deliverable_step [OF that(1) assms(2,3) _ that(2) assms(5), of Tr_Received_Correspondent])
      (use that(3) in \<open>auto simp: defs intro: d1\<close>)
  have d3: "deliverable clock n rq k (Suc (Suc (Suc 0))) s"
    if "trackable k r s" "events_before (e_now (clock n)) s" "s_status r = Ship_Planned" for r s n
    by (rule deliverable_step [OF that(1) assms(2,3) _ that(2) assms(5), of Tr_Boarding_Ok])
      (use that(3) in \<open>auto simp: defs intro: d2\<close>)
  have d4: "deliverable clock n rq k (Suc (Suc (Suc (Suc 0)))) s"
    if "trackable k r s" "events_before (e_now (clock n)) s" "s_status r = Ship_Packed"
      "latest_tracking_status k s = Some Tr_Planning_Ok" for r s n
    by (rule deliverable_step [OF that(1) assms(2,3) _ that(2) assms(5), of Tr_Planned])
      (use that(3,4) in \<open>auto simp: defs intro: d3\<close>)
  have d5: "deliverable clock n rq k (Suc (Suc (Suc (Suc (Suc 0))))) s"
    if "s_status r \<in> {Ship_Draft, Ship_Picking, Ship_Packed}"
      "latest_tracking_status k s \<noteq> Some Tr_Planning_Ok \<or> s_status r \<noteq> Ship_Packed"
    by (rule deliverable_step [OF assms(1-3) _ assms(4,5), of Tr_Planning_Ok])
      (use that in \<open>auto simp: defs intro: d4\<close>)
  show "s_status r = Ship_Received_Correspondent \<Longrightarrow> deliverable clock n rq k 1 s"
    using d1 [OF assms(1,4)] by simp
  show "s_status r = Ship_Shipped \<Longrightarrow> deliverable clock n rq k 2 s"
    using d2 [OF assms(1,4)] by (simp add: numeral_eq_Suc)
  show "s_status r = Ship_Planned \<Longrightarrow> deliverable clock n rq k 3 s"
    using d3 [OF assms(1,4)] by (simp add: numeral_eq_Suc)
  show "s_status r = Ship_Packed \<Longrightarrow> latest_tracking_status k s = Some Tr_Planning_Ok
      \<Longrightarrow> deliverable clock n rq k 4 s"
    using d4 [OF assms(1,4)] by (simp add: numeral_eq_Suc)
  show "s_status r \<in> {Ship_Draft, Ship_Picking, Ship_Packed} \<Longrightarrow> latest_tracking_status k s \<noteq> Some Tr_Planning_Ok
      \<or> s_status r \<noteq> Ship_Packed \<Longrightarrow> deliverable clock n rq k 5 s"
    using d5 by (simp add: numeral_eq_Suc)
qed

lemma deliverable_mono: "deliverable clock n rq k m s \<Longrightarrow> m \<le> m' \<Longrightarrow> deliverable clock n rq k m' s"
  unfolding deliverable_def by (meson le_trans)

text \<open>
  C17: tracking never gets stuck. A shipment that is not disputed, has a reference of its own that is not
  a temporary one, and has cartons, all of them labelled or shipped, can be taken to delivered from any
  stage by at most five forms posted on the tracking page without a dispute action, each of them
  accepted (so each has its required fields and a status that is allowed), at whatever instants they
  come, one after the other and after the events recorded so far.
\<close>

theorem ready_shipment_can_be_delivered:
  assumes "trackable k r s" and "rq_is_post rq" and "rq_action rq = []"
    and "events_before (e_now (clock 0)) s" and "strict_mono (\<lambda>n. e_now (clock n))"
  shows "\<exists>fs t r'. length fs \<le> 5 \<and> tracked_through rq k clock 0 fs s t
      \<and> row_get (db_shipments t) k = Some r' \<and> s_status r' = Ship_Delivered"
proof -
  have "deliverable clock 0 rq k 5 s"
  proof (cases "s_status r")
    case Ship_Delivered
    then show ?thesis by (rule deliverable_now [OF assms(1)])
  next
    case Ship_Packed
    then show ?thesis
      using deliverable_from(4,5) [OF assms]
      by (cases "latest_tracking_status k s = Some Tr_Planning_Ok") (auto elim: deliverable_mono)
  qed (use deliverable_from [OF assms] in \<open>auto elim!: deliverable_mono\<close>)
  then show ?thesis by (simp only: deliverable_def)
qed

definition sample_clock :: "nat \<Rightarrow> env" where
  "sample_clock n = sample_env\<lparr>e_now := 1000 + int n\<rparr>"

lemma ready_shipment_can_be_delivered_witness:
  "\<exists>fs t. length fs \<le> 5 \<and> tracked_through (sample_request []) 1 sample_clock 0 fs tracked_db t
     \<and> map_option s_status (row_get (db_shipments t) 1) = Some Ship_Delivered"
proof -
  have "trackable 1 (sample_shipment ''260001'' Ship_Planned) tracked_db"
    by (auto simp: trackable_def tracked_db_def row_get_def sample_shipment_def sample_carton_def
        temp_reference_prefix_def strip_def startswith_def is_space_def shipment_reference_taken_def
        keys_ok_def ready_carton_def split: if_splits intro: exI [of _ 1])
  moreover have "events_before (e_now (sample_clock 0)) tracked_db"
    by (simp add: events_before_def tracked_db_def sample_db_def)
  moreover have "strict_mono (\<lambda>n. e_now (sample_clock n))"
    by (simp add: sample_clock_def strict_mono_def)
  ultimately show ?thesis
    using ready_shipment_can_be_delivered [of 1 _ tracked_db "sample_request []" sample_clock]
    by (fastforce simp: sample_request_def)
qed

end
