(* ===== verification/Version_Properties.thy ===== *)
theory Version_Properties
  imports Plan_Versions Samples
begin

text \<open>
  What versions of a planning promise: numbers and the one published version of a run over any
  sequence of clones and publications, the difference of a version and its clone, the update of the
  shipments done once and for all, and how the planning and the two tracking end points relate.
\<close>

section \<open>Versions of a run\<close>

datatype version_op = Op_Clone nat "nat option" string | Op_Publish nat

fun run_version_op :: "env \<times> version_op \<Rightarrow> plan_db \<Rightarrow> err + plan_db" where
  "run_version_op (e, Op_Clone original user reason) p =
     res_bind (clone_version e original user reason p) (\<lambda>(_, p1). Inr p1)"
| "run_version_op (e, Op_Publish k) p = publish_version e k p"

definition attempt_version_op :: "env \<times> version_op \<Rightarrow> plan_db \<Rightarrow> plan_db" where
  "attempt_version_op x p = ok_or p (run_version_op x p)"

definition published_in :: "nat \<Rightarrow> plan_db \<Rightarrow> nat set" where
  "published_in run p =
     {k. \<exists>v. row_get (pd_versions p) k = Some v \<and> pv_run v = run \<and> pv_status v = Pv_Published}"

definition versions_ok :: "plan_db \<Rightarrow> bool" where
  "versions_ok p \<longleftrightarrow> keys_ok (pd_versions p)
     \<and> (\<forall>i v. row_get (pd_versions p) i = Some v \<longrightarrow> pv_run v \<noteq> 0 \<and> (\<exists>n. pv_number v = Some (Suc n)))
     \<and> (\<forall>i j v w. row_get (pd_versions p) i = Some v \<longrightarrow> row_get (pd_versions p) j = Some w
          \<longrightarrow> pv_run v = pv_run w \<longrightarrow> pv_number v = pv_number w \<longrightarrow> i = j)
     \<and> (\<forall>i j v w. row_get (pd_versions p) i = Some v \<longrightarrow> row_get (pd_versions p) j = Some w
          \<longrightarrow> pv_run v = pv_run w \<longrightarrow> pv_status v = Pv_Published \<longrightarrow> pv_status w = Pv_Published \<longrightarrow> i = j)"

lemma versions_ok_cong: "pd_versions q = pd_versions p \<Longrightarrow> versions_ok q = versions_ok p"
  by (simp add: versions_ok_def)

lemma fold_max_mem: "x \<in> set xs \<Longrightarrow> (x::nat) \<le> fold max xs 0"
  by (rule member_le_fold_max)

lemma number_le_max:
  assumes "keys_ok (pd_versions p)" and "row_get (pd_versions p) i = Some v" and "pv_number v = Some n"
  shows "n \<le> max_version_number (pv_run v) p"
proof -
  have "(i, v) \<in> set (pd_versions p)" using assms(2) by (rule row_get_mem)
  then show ?thesis
    unfolding max_version_number_def using assms(3) by (intro fold_max_mem) force
qed

lemma create_version_ok:
  assumes "versions_ok p" and "create_version e v p = (k, q)"
    and "pv_run v \<noteq> 0" and "pv_number v = None" and "pv_status v = Pv_Draft"
  shows "versions_ok q"
proof -
  let ?v = "version_save_fields e v p"
  have q: "pd_versions q = row_ins ?v (pd_versions p)"
    using assms(2) by (auto simp: create_version_def)
  have v: "pv_run ?v = pv_run v" "pv_status ?v = Pv_Draft"
      "pv_number ?v = Some (Suc (max_version_number (pv_run v) p))"
    using assms(3-5) by (simp_all add: version_save_fields_def Let_def)
  have keys: "keys_ok (pd_versions p)" using assms(1) by (simp add: versions_ok_def)
  have above: "pv_number w \<noteq> pv_number ?v" "pv_number ?v \<noteq> pv_number w" if "row_get (pd_versions p) i = Some w" "pv_run w = pv_run v" for i w
    using number_le_max [OF keys that(1)] that(2) v(3) by fastforce+
  show ?thesis
    using assms(1) keys assms(3)
    unfolding versions_ok_def q
    by (auto simp: row_get_ins keys_ok_ins v(1,2) dest: above split: if_splits) (simp_all add: v(3))
qed

lemma fold_ins_versions: "pd_versions (p\<lparr>pd_assignments := t\<rparr>) = pd_versions p"
  by simp

lemma clone_version_Inr:
  assumes "clone_version e original user reason p = Inr (k, p')"
  obtains o0 v p1 where "row_get (pd_versions p) original = Some o0" and "create_version e v p = (k, p1)"
    and "pv_run v = pv_run o0" and "pv_number v = None" and "pv_status v = Pv_Draft"
    and "pv_based_on v = Some original" and "pv_published_at v = None"
    and "p' = p1\<lparr>pd_assignments := fold row_ins (map (\<lambda>(_, a). a\<lparr>as_version := k, as_source := As_Copied,
             as_created_at := e_now e, as_updated_at := e_now e\<rparr>) (assignments_of original p)) (pd_assignments p)\<rparr>"
proof -
  from assms obtain o0 where o0: "row_get (pd_versions p) original = Some o0"
    by (auto simp: clone_version_def wms_ok)
  let ?v = "\<lparr>pv_run = pv_run o0, pv_number = None, pv_status = Pv_Draft, pv_based_on = Some original,
     pv_change_reason = reason, pv_created_by = user, pv_published_at = None, pv_created_at = e_now e,
     pv_updated_at = e_now e\<rparr>"
  obtain i p1 where new: "create_version e ?v p = (i, p1)" by (cases "create_version e ?v p")
  have same: "pd_assignments p1 = pd_assignments p" "assignments_of original p1 = assignments_of original p"
    using new by (auto simp: create_version_def assignments_of_def)
  from assms new o0 same have "i = k" and "p' = p1\<lparr>pd_assignments := fold row_ins (map (\<lambda>(_, a).
      a\<lparr>as_version := k, as_source := As_Copied, as_created_at := e_now e, as_updated_at := e_now e\<rparr>)
        (assignments_of original p)) (pd_assignments p)\<rparr>"
    by (auto simp: clone_version_def)
  with new o0 show thesis by (intro that [of o0 ?v p1]) simp_all
qed

lemma clone_version_ok:
  assumes "versions_ok p" and "clone_version e original user reason p = Inr (k, p')"
  shows "versions_ok p'"
proof -
  from assms(2) obtain o0 v p1 where o0: "row_get (pd_versions p) original = Some o0"
    and v: "create_version e v p = (k, p1)" "pv_run v = pv_run o0" "pv_number v = None" "pv_status v = Pv_Draft"
    and p': "pd_versions p' = pd_versions p1"
    by (rule clone_version_Inr) simp
  from assms(1) o0 v(2) have "pv_run v \<noteq> 0" by (auto simp: versions_ok_def)
  then have "versions_ok p1" using create_version_ok [OF assms(1) v(1)] v by blast
  then show ?thesis using versions_ok_cong [OF p'] by simp
qed

text \<open>What becomes of the row \<open>i\<close> of the versions when the draft \<open>v\<close> at \<open>k\<close> is published.\<close>

definition after_publish ::
    "env \<Rightarrow> nat \<Rightarrow> planning_version \<Rightarrow> nat \<Rightarrow> planning_version \<Rightarrow> planning_version" where
  "after_publish e k v i w =
     (if i = k then w\<lparr>pv_status := Pv_Published,
            pv_published_at := (case pv_published_at w of None \<Rightarrow> Some (e_now e) | Some t \<Rightarrow> Some t),
            pv_updated_at := e_now e\<rparr>
      else if pv_run w = pv_run v \<and> pv_status w = Pv_Published then w\<lparr>pv_status := Pv_Superseded\<rparr>
      else w)"

lemma versions_ok_number:
  assumes "versions_ok p" and "row_get (pd_versions p) i = Some w"
  shows "pv_run w \<noteq> 0" and "\<exists>n. pv_number w = Some (Suc n)"
  using assms by (auto simp: versions_ok_def)

lemma versions_ok_unique:
  assumes "versions_ok p" and "row_get (pd_versions p) i = Some w" and "row_get (pd_versions p) j = Some x"
    and "pv_run w = pv_run x" and "pv_number w = pv_number x \<or> pv_status w = Pv_Published \<and> pv_status x = Pv_Published"
  shows "i = j"
  using assms unfolding versions_ok_def by blast

lemma publish_version_row:
  assumes "publish_version e k p = Inr p'" and "versions_ok p"
  obtains v where "row_get (pd_versions p) k = Some v" and "pv_status v = Pv_Draft"
    and "\<And>i. row_get (pd_versions p') i = map_option (after_publish e k v i) (row_get (pd_versions p) i)"
    and "keys_ok (pd_versions p')" and "pd_assignments p' = pd_assignments p"
proof -
  from assms(1) obtain v where v: "row_get (pd_versions p) k = Some v" "pv_status v = Pv_Draft"
    by (auto simp: publish_version_def wms_ok)
  let ?t = "map (\<lambda>(i, w). (i, if pv_run w = pv_run v \<and> pv_status w = Pv_Published \<and> i \<noteq> k
      then w\<lparr>pv_status := Pv_Superseded\<rparr> else w)) (pd_versions p)"
  have t: "row_get ?t i = map_option (\<lambda>w. if pv_run w = pv_run v \<and> pv_status w = Pv_Published \<and> i \<noteq> k
      then w\<lparr>pv_status := Pv_Superseded\<rparr> else w) (row_get (pd_versions p) i)" for i
    by (rule row_get_map)
  obtain n where n: "pv_number v = Some (Suc n)" using versions_ok_number(2) [OF assms(2) v(1)] by blast
  let ?new = "version_save_fields e (v\<lparr>pv_status := Pv_Published\<rparr>) (p\<lparr>pd_versions := ?t\<rparr>)"
  have new: "?new = v\<lparr>pv_status := Pv_Published,
      pv_published_at := (case pv_published_at v of None \<Rightarrow> Some (e_now e) | Some t \<Rightarrow> Some t),
      pv_updated_at := e_now e\<rparr>"
    using n by (cases v) (auto simp: version_save_fields_def Let_def split: option.splits)
  have p': "p' = p\<lparr>pd_versions := row_upd k (\<lambda>_. ?new) ?t\<rparr>"
    using assms(1) v by (simp add: publish_version_def Let_def)
  have pv: "pd_versions p' = row_upd k (\<lambda>_. ?new) ?t" by (simp add: p')
  have keys: "map fst ?t = map fst (pd_versions p)" by (simp add: case_prod_beta comp_def)
  show thesis
  proof (rule that [OF v])
    show "row_get (pd_versions p') i = map_option (after_publish e k v i) (row_get (pd_versions p) i)" for i
      using v(1) unfolding p' new by (cases "row_get (pd_versions p) i") (auto simp: row_get_upd t after_publish_def)
    show "keys_ok (pd_versions p')"
      unfolding pv keys_ok_def map_fst_row_upd keys
      using assms(2) by (simp add: versions_ok_def keys_ok_def)
    show "pd_assignments p' = pd_assignments p" by (simp add: p')
  qed
qed

lemma publish_version_ok:
  assumes "versions_ok p" and "publish_version e k p = Inr p'"
  shows "versions_ok p'"
proof -
  obtain v where v: "row_get (pd_versions p) k = Some v"
    and row: "\<And>i. row_get (pd_versions p') i = map_option (after_publish e k v i) (row_get (pd_versions p) i)"
    and keys: "keys_ok (pd_versions p')"
    using publish_version_row [OF assms(2,1)] by blast
  have before: "\<exists>w'. row_get (pd_versions p) i = Some w' \<and> pv_run w' = pv_run w \<and> pv_number w' = pv_number w
      \<and> (pv_status w = Pv_Published \<longrightarrow> i = k \<or> pv_status w' = Pv_Published \<and> pv_run w \<noteq> pv_run v)"
    if "row_get (pd_versions p') i = Some w" for i w
    using that unfolding row by (auto simp: after_publish_def split: if_splits)
  note numbers = versions_ok_number [OF assms(1)] and unique = versions_ok_unique [OF assms(1)]
  show ?thesis
    unfolding versions_ok_def
  proof (intro conjI allI impI)
    show "keys_ok (pd_versions p')" by (rule keys)
  next
    fix i w assume "row_get (pd_versions p') i = Some w"
    then obtain w' where w': "row_get (pd_versions p) i = Some w'" "pv_run w' = pv_run w" "pv_number w' = pv_number w"
      using before by blast
    from numbers [OF w'(1)] w'(2,3) show "pv_run w \<noteq> 0" "\<exists>n. pv_number w = Some (Suc n)" by simp_all
  next
    fix i j w x assume w: "row_get (pd_versions p') i = Some w" and x: "row_get (pd_versions p') j = Some x"
      and run: "pv_run w = pv_run x"
    from before [OF w] obtain w' where w': "row_get (pd_versions p) i = Some w'" "pv_run w' = pv_run w"
      "pv_number w' = pv_number w"
      "pv_status w = Pv_Published \<Longrightarrow> i = k \<or> pv_status w' = Pv_Published \<and> pv_run w \<noteq> pv_run v" by blast
    from before [OF x] obtain x' where x': "row_get (pd_versions p) j = Some x'" "pv_run x' = pv_run x"
      "pv_number x' = pv_number x"
      "pv_status x = Pv_Published \<Longrightarrow> j = k \<or> pv_status x' = Pv_Published \<and> pv_run x \<noteq> pv_run v" by blast
    show "i = j" if "pv_number w = pv_number x"
      using unique [OF w'(1) x'(1)] that run w'(2,3) x'(2,3) by simp
    show "i = j" if "pv_status w = Pv_Published" "pv_status x = Pv_Published"
    proof (cases "i = k \<or> j = k")
      case True
      then show ?thesis using that w' x' v run by auto
    next
      case False
      then show ?thesis using that unique [OF w'(1) x'(1)] w'(2,4) x'(2,4) run by simp
    qed
  qed
qed

lemma run_version_op_ok: "run_version_op x p = Inr q \<Longrightarrow> versions_ok p \<Longrightarrow> versions_ok q"
  by (cases x rule: prod.exhaust, rename_tac e op, case_tac op)
    (auto simp: wms_ok intro: clone_version_ok publish_version_ok)

interpretation versions: kept run_version_op versions_ok
  by unfold_locales (rule run_version_op_ok)

lemma attempt_version_op_ok: "versions_ok p \<Longrightarrow> versions_ok (fold attempt_version_op ops p)"
proof -
  have "versions.attempt x q = attempt_version_op x q" for x q
    by (simp add: attempt_version_op_def versions.attempt_def)
  then have "fold attempt_version_op ops p = fold versions.attempt ops p"
    by (intro fold_cong) auto
  then show "versions_ok p \<Longrightarrow> versions_ok (fold attempt_version_op ops p)"
    by (metis versions.attempts_keep)
qed

definition sample_plan_db :: plan_db where
  "sample_plan_db = \<lparr>
     pd_runs = [(1, \<lparr>run_week_start = Date 2026 3 2, run_week_end = Date 2026 3 8,
       run_parameter_set = None, run_status = Run_Solved, run_created_by = 1, run_updated_at = 0\<rparr>)],
     pd_rules = [],
     pd_shipments = [(1, \<lparr>ss_run = 1, ss_shipment = Some 1, ss_reference = ''260001'', ss_shipper_name = ''A'',
       ss_destination_iata = ''ABJ'', ss_priority = 1, ss_carton_count = 2, ss_equivalent_units = 2,
       ss_legacy_type_priority = None, ss_legacy_date_depart_mag = None,
       ss_legacy_date_impression = None, ss_legacy_date_conditionnement = None\<rparr>),
       (2, \<lparr>ss_run = 1, ss_shipment = None, ss_reference = ''260002'', ss_shipper_name = ''A'',
       ss_destination_iata = ''ABJ'', ss_priority = 1, ss_carton_count = 2, ss_equivalent_units = 2,
       ss_legacy_type_priority = None, ss_legacy_date_depart_mag = None,
       ss_legacy_date_impression = None, ss_legacy_date_conditionnement = None\<rparr>)],
     pd_volunteers = [], pd_flights = [],
     pd_versions = [(1, \<lparr>pv_run = 1, pv_number = Some 1, pv_status = Pv_Published, pv_based_on = None,
       pv_change_reason = [], pv_created_by = Some 1, pv_published_at = Some 5, pv_created_at = 5,
       pv_updated_at = 5\<rparr>)],
     pd_assignments = [
       (1, \<lparr>as_version = 1, as_shipment = Some 1, as_volunteer = None, as_flight = None, as_carton_count = 2,
         as_weight_kg = None, as_status = ''proposed'', as_source = As_Solver, as_notes = [], as_sequence = 2,
         as_created_at = 0, as_updated_at = 0\<rparr>),
       (2, \<lparr>as_version = 1, as_shipment = Some 2, as_volunteer = None, as_flight = None, as_carton_count = 1,
         as_weight_kg = None, as_status = ''proposed'', as_source = As_Copied, as_notes = [], as_sequence = 1,
         as_created_at = 0, as_updated_at = 0\<rparr>)]\<rparr>"

lemma versions_ok_sample: "versions_ok sample_plan_db"
  by (auto simp: versions_ok_def sample_plan_db_def keys_ok_def row_get_def split: if_splits)

text \<open>
  C20: whatever sequence of clones and publications is attempted, failed ones included, the versions
  of a run keep numbers of their own, starting at one, and at most one of them is published.
\<close>

theorem one_published_version_per_run:
  assumes "versions_ok p"
  shows "(\<forall>i j v w. row_get (pd_versions (fold attempt_version_op ops p)) i = Some v
      \<longrightarrow> row_get (pd_versions (fold attempt_version_op ops p)) j = Some w \<longrightarrow> pv_run v = pv_run w
      \<longrightarrow> pv_number v = pv_number w \<or> pv_status v = Pv_Published \<and> pv_status w = Pv_Published \<longrightarrow> i = j)
    \<and> (\<forall>i v. row_get (pd_versions (fold attempt_version_op ops p)) i = Some v
      \<longrightarrow> (\<exists>n. pv_number v = Some (Suc n)))"
proof -
  have ok: "versions_ok (fold attempt_version_op ops p)"
    using assms by (rule attempt_version_op_ok)
  show ?thesis
    using versions_ok_unique [OF ok] versions_ok_number(2) [OF ok] by blast
qed

definition sample_version_ops :: "(env \<times> version_op) list" where
  "sample_version_ops = [(sample_env, Op_Clone 1 (Some 1) ''late flight''), (sample_env, Op_Publish 2),
     (sample_env, Op_Publish 1), (sample_env, Op_Clone 9 None [])]"

lemma one_published_version_per_run_witness:
  "map (\<lambda>(k, v). (k, pv_number v, pv_status v))
       (pd_versions (fold attempt_version_op sample_version_ops sample_plan_db))
     = [(1, Some 1, Pv_Superseded), (2, Some 2, Pv_Published)]
   \<and> (\<exists>v n. row_get (pd_versions (fold attempt_version_op sample_version_ops sample_plan_db)) 2 = Some v
       \<and> pv_number v = Some (Suc n))"
proof
  show "map (\<lambda>(k, v). (k, pv_number v, pv_status v))
      (pd_versions (fold attempt_version_op sample_version_ops sample_plan_db))
    = [(1, Some 1, Pv_Superseded), (2, Some 2, Pv_Published)]" by code_simp
  have "row_get (pd_versions (fold attempt_version_op sample_version_ops sample_plan_db)) 2 \<noteq> None"
    by code_simp
  with one_published_version_per_run [OF versions_ok_sample, of sample_version_ops]
  show "\<exists>v n. row_get (pd_versions (fold attempt_version_op sample_version_ops sample_plan_db)) 2 = Some v
       \<and> pv_number v = Some (Suc n)" by blast
qed

section \<open>The difference of a version and its clone\<close>

lemma distinct_keyed: "distinct (map fst (keyed_assignments v p))"
  unfolding keyed_assignments_def
  by (rule fold_keeps [where P = "\<lambda>d. distinct (map fst d)"]) (auto intro: distinct_dict_put)

lemma keyed_map:
  assumes "map snd xs = map (\<lambda>(_, a). g a) ys" and "\<And>a. assignment_key (g a) = assignment_key a"
  shows "fold (\<lambda>(_, a). dict_put (assignment_key a) a) xs (map (\<lambda>(i, x). (i, g x)) d)
    = map (\<lambda>(i, x). (i, g x)) (fold (\<lambda>(_, a). dict_put (assignment_key a) a) ys d)"
  using assms(1)
proof (induction ys arbitrary: xs d)
  case Nil
  then show ?case by simp
next
  case (Cons y ys)
  then obtain x xs' where xs: "xs = x # xs'" by (cases xs) auto
  obtain i a where y: "y = (i, a)" by (cases y)
  obtain j b where x: "x = (j, b)" by (cases x)
  from Cons.prems xs x y have "b = g a" and rest: "map snd xs' = map (\<lambda>(_, a). g a) ys" by auto
  then show ?case
    using Cons.IH [OF rest, of "dict_put (assignment_key a) a d"] xs x y
    by (simp add: assms(2) dict_put_map)
qed

lemma sorted_sequences:
  "sorted (map (\<lambda>(_, a). as_sequence a) (assignments_of v p))"
proof -
  have "sorted (map (\<lambda>(i, a). (as_sequence a, i)) (assignments_of v p))"
    unfolding assignments_of_def by (rule sorted_sort_key)
  then have "sorted (map fst (map (\<lambda>(i, a). (as_sequence a, i)) (assignments_of v p)))"
    by (auto simp: sorted_iff_nth_mono less_eq_prod_def) (meson less_imp_le)
  then show ?thesis by (simp add: comp_def case_prod_unfold)
qed

lemma sorted_zip_upt:
  assumes "sorted (map s cs)"
  shows "sorted (map (\<lambda>(i, a). (s a, i)) (zip [n..<n + length cs] cs))"
  using assms by (auto simp: sorted_iff_nth_mono less_eq_prod_def less_le)

definition clone_of :: "env \<Rightarrow> nat \<Rightarrow> assignment \<Rightarrow> assignment" where
  "clone_of e k a = a\<lparr>as_version := k, as_source := As_Copied, as_created_at := e_now e, as_updated_at := e_now e\<rparr>"

lemma clone_of_fields [simp]:
  "as_version (clone_of e k a) = k" "as_source (clone_of e k a) = As_Copied"
  "as_sequence (clone_of e k a) = as_sequence a" "assignment_key (clone_of e k a) = assignment_key a"
  by (simp_all add: clone_of_def assignment_key_def)

text \<open>The foreign key of the assignments: each belongs to a version.\<close>

definition assignments_linked :: "plan_db \<Rightarrow> bool" where
  "assignments_linked p \<longleftrightarrow> (\<forall>(i, a) \<in> set (pd_assignments p). row_get (pd_versions p) (as_version a) \<noteq> None)"

lemma clone_assignments:
  assumes "clone_version e original user reason p = Inr (k, p')"
    and "assignments_linked p"
  shows "assignments_of original p' = assignments_of original p"
    and "map snd (assignments_of k p') = map (\<lambda>(_, a). clone_of e k a) (assignments_of original p)"
    and "pd_shipments p' = pd_shipments p" and "pd_volunteers p' = pd_volunteers p"
    and "pd_flights p' = pd_flights p"
proof -
  obtain o0 v p1 where o0: "row_get (pd_versions p) original = Some o0" and p1: "create_version e v p = (k, p1)"
    and p': "p' = p1\<lparr>pd_assignments := fold row_ins (map (\<lambda>(_, a). a\<lparr>as_version := k, as_source := As_Copied,
             as_created_at := e_now e, as_updated_at := e_now e\<rparr>) (assignments_of original p)) (pd_assignments p)\<rparr>"
    using assms(1) by (rule clone_version_Inr)
  from p1 have k: "k = next_pk (pd_versions p)" and same: "pd_shipments p1 = pd_shipments p"
      "pd_volunteers p1 = pd_volunteers p" "pd_flights p1 = pd_flights p"
    by (auto simp: create_version_def)
  show "pd_shipments p' = pd_shipments p" "pd_volunteers p' = pd_volunteers p" "pd_flights p' = pd_flights p"
    using same by (simp_all add: p')
  let ?cs = "map (\<lambda>(_, a). clone_of e k a) (assignments_of original p)"
  let ?new = "zip [next_pk (pd_assignments p)..<next_pk (pd_assignments p) + length ?cs] ?cs"
  have t: "pd_assignments p' = pd_assignments p @ ?new"
    unfolding p' by (simp add: fold_row_ins clone_of_def)
  have "original \<noteq> k" using o0 k row_get_fresh [of "pd_versions p"] by auto
  moreover have "a \<in> set ?cs" if "(i, a) \<in> set ?new" for i a using that by (rule set_zip_rightD)
  ultimately have "rows_where (\<lambda>_ a. as_version a = original) ?new = []"
    by (fastforce simp: rows_where_def filter_empty_conv)
  then show "assignments_of original p' = assignments_of original p"
    by (simp add: assignments_of_def t rows_where_def)
  have "rows_where (\<lambda>_ a. as_version a = k) (pd_assignments p) = []"
    using assms(2) row_get_fresh [of "pd_versions p"] k
    by (fastforce simp: assignments_linked_def rows_where_def filter_empty_conv)
  moreover have "rows_where (\<lambda>_ a. as_version a = k) ?new = ?new"
    using set_zip_rightD unfolding rows_where_def by (fastforce intro!: filter_True)
  ultimately have "assignments_of k p' = sort_key (\<lambda>(i, a). (as_sequence a, i)) ?new"
    by (simp add: assignments_of_def t rows_where_def)
  moreover have "sorted (map (\<lambda>(i, a). (as_sequence a, i)) ?new)"
    using sorted_sequences [of original p] by (intro sorted_zip_upt) (simp add: comp_def case_prod_unfold)
  ultimately have "assignments_of k p' = ?new" by (simp add: sort_key_id_if_sorted)
  then show "map snd (assignments_of k p') = ?cs" by simp
qed


lemma keyed_clone:
  assumes "clone_version e original user reason p = Inr (k, p')"
    and "assignments_linked p"
  shows "keyed_assignments original p' = keyed_assignments original p"
    and "keyed_assignments k p' = map (\<lambda>(i, a). (i, clone_of e k a)) (keyed_assignments original p)"
  using clone_assignments(1) [OF assms] 
    keyed_map [where d = "[]", OF clone_assignments(2) [OF assms] clone_of_fields(4)]
  by (simp_all add: keyed_assignments_def)

lemma summary_of_clone:
  assumes "pd_shipments q = pd_shipments p" and "pd_volunteers q = pd_volunteers p" and "pd_flights q = pd_flights p"
  shows "assignment_summary_of q (clone_of e k a) = (assignment_summary_of p a)\<lparr>am_source := As_Copied\<rparr>"
    and "assignment_summary_of q a = assignment_summary_of p a"
  using assms by (simp_all add: assignment_summary_of_def clone_of_def)

lemma am_source_summary: "am_source (assignment_summary_of p a) = as_source a"
  by (simp add: assignment_summary_of_def)

lemma map_filter_cong': "(\<And>x. x \<in> set xs \<Longrightarrow> f x = g x) \<Longrightarrow> List.map_filter f xs = List.map_filter g xs"
  by (induction xs) (auto split: option.splits)

lemma map_filter_map': "List.map_filter f (map h xs) = List.map_filter (\<lambda>x. f (h x)) xs"
  by (induction xs) (auto split: option.splits)

text \<open>
  Comparing a version with a clone just made of it finds nothing added and nothing removed, but
  every assignment that was not itself a copy is reported as changed, from its source to copied.
\<close>

theorem diff_of_fresh_clone:
  assumes "clone_version e v user reason p = Inr (k, p')"
    and "assignments_linked p"
  shows "diff_versions v k p' =
    \<lparr>vd_changed = map (\<lambda>(_, a). (am_shipment_reference (assignment_summary_of p a), assignment_summary_of p a,
         (assignment_summary_of p a)\<lparr>am_source := As_Copied\<rparr>))
       (filter (\<lambda>(_, a). as_source a \<noteq> As_Copied) (keyed_assignments v p)),
     vd_added = [], vd_removed = []\<rparr>"
proof -
  note keyed = keyed_clone [OF assms] and same = clone_assignments(3-5) [OF assms]
  note sums = summary_of_clone [OF same]
  let ?old = "keyed_assignments v p"
  have found: "map_of ?old i = Some a" if "(i, a) \<in> set ?old" for i a
    using that distinct_keyed [of v p] by simp
  have new: "map_of (map (\<lambda>(i, a). (i, clone_of e k a)) ?old) i = map_option (clone_of e k) (map_of ?old i)" for i
    by (simp add: map_of_map)
  have sum: "assignment_summary_of p' = assignment_summary_of p" by (rule ext) (rule sums(2))
  have differ: "comparable m = comparable (m\<lparr>am_source := As_Copied\<rparr>) \<longleftrightarrow> am_source m = As_Copied" for m
    by (simp add: comparable_def)
  have "vd_changed (diff_versions v k p') = List.map_filter (\<lambda>(i, a).
      if as_source a \<noteq> As_Copied then Some (am_shipment_reference (assignment_summary_of p a),
        assignment_summary_of p a, (assignment_summary_of p a)\<lparr>am_source := As_Copied\<rparr>) else None) ?old"
    unfolding diff_versions_def Let_def keyed version_diff.simps map_filter_map'
    by (rule map_filter_cong') (auto simp: found sum differ summary_of_clone(1) [OF refl refl refl] am_source_summary)
  moreover have "vd_added (diff_versions v k p') = []" "vd_removed (diff_versions v k p') = []"
    unfolding diff_versions_def Let_def keyed version_diff.simps
    by (force simp: filter_empty_conv new map_of_eq_None_iff dest: found)+
  ultimately show ?thesis
    by (simp add: case_prod_unfold List.map_filter_map_filter)
qed


lemma diff_of_fresh_clone_witness:
  "\<exists>p'. clone_version sample_env 1 None [] sample_plan_db = Inr (2, p')
     \<and> map fst (vd_changed (diff_versions 1 2 p')) = [''260001''] \<and> vd_added (diff_versions 1 2 p') = []"
proof -
  obtain p' where run: "clone_version sample_env 1 None [] sample_plan_db = Inr (2, p')"
    by (simp add: clone_version_def sample_plan_db_def row_get_def create_version_def next_pk_def)
  have "assignments_linked sample_plan_db"
    by (simp add: assignments_linked_def sample_plan_db_def row_get_def)
  note diff = diff_of_fresh_clone [OF run this]
  have "map fst (map (\<lambda>(_, a). (am_shipment_reference (assignment_summary_of sample_plan_db a),
         assignment_summary_of sample_plan_db a,
         (assignment_summary_of sample_plan_db a)\<lparr>am_source := As_Copied\<rparr>))
       (filter (\<lambda>(_, a). as_source a \<noteq> As_Copied) (keyed_assignments 1 sample_plan_db))) = [''260001'']"
    by code_simp
  then show ?thesis
    by (intro exI [of _ p'] conjI run) (simp_all only: diff version_diff.simps)
qed

text \<open>
  Publishing succeeds on drafts only; it leaves exactly the draft published in its run, dated and
  with every other version as it was but for the one it replaces, and no assignment is touched.
\<close>

theorem publish_replaces_published:
  assumes "versions_ok p"
  shows "case publish_version e k p of
      Inl _ \<Rightarrow> \<not> (\<exists>v. row_get (pd_versions p) k = Some v \<and> pv_status v = Pv_Draft)
    | Inr p' \<Rightarrow> (\<exists>v w. row_get (pd_versions p) k = Some v \<and> pv_status v = Pv_Draft
        \<and> row_get (pd_versions p') k = Some w \<and> pv_number w = pv_number v \<and> pv_published_at w \<noteq> None
        \<and> published_in (pv_run v) p' = {k}
        \<and> (\<forall>run. run \<noteq> pv_run v \<longrightarrow> published_in run p' = published_in run p)
        \<and> pd_assignments p' = pd_assignments p)"
proof (cases "publish_version e k p")
  case (Inl x)
  then show ?thesis by (auto simp: publish_version_def Let_def)
next
  case (Inr p')
  obtain v where v: "row_get (pd_versions p) k = Some v" "pv_status v = Pv_Draft"
    and row: "\<And>i. row_get (pd_versions p') i = map_option (after_publish e k v i) (row_get (pd_versions p) i)"
    and same: "pd_assignments p' = pd_assignments p"
    using publish_version_row [OF Inr assms] by blast
  have "row_get (pd_versions p') k = Some (after_publish e k v k v)"
    and "pv_number (after_publish e k v k v) = pv_number v"
    and "pv_published_at (after_publish e k v k v) \<noteq> None"
    using v(1) by (simp_all add: row after_publish_def split: option.splits)
  moreover have status: "pv_status (after_publish e k v i w) = Pv_Published \<longleftrightarrow>
      i = k \<or> pv_status w = Pv_Published \<and> pv_run w \<noteq> pv_run v"
    and same_run: "pv_run (after_publish e k v i w) = pv_run w" for i w
    by (auto simp: after_publish_def)
  moreover have "published_in (pv_run v) p' = {k}"
    using v by (auto simp: published_in_def row status same_run)
  moreover have "published_in run p' = published_in run p" if "run \<noteq> pv_run v" for run
    using that v by (auto simp: published_in_def row status same_run)
  ultimately show ?thesis using v same Inr by simp
qed

lemma publish_replaces_published_witness:
  "case publish_version sample_env 2 (fold attempt_version_op [(sample_env, Op_Clone 1 None [])] sample_plan_db) of
     Inl _ \<Rightarrow> False | Inr p' \<Rightarrow> published_in 1 p' = {2}"
proof -
  let ?p = "fold attempt_version_op [(sample_env, Op_Clone 1 None [])] sample_plan_db"
  have "versions_ok ?p"
    using versions_ok_sample by (rule attempt_version_op_ok)
  note spec = publish_replaces_published [OF this, of 2 sample_env]
  have "case publish_version sample_env 2 ?p of Inl _ \<Rightarrow> False | Inr _ \<Rightarrow> True"
    and "map_option pv_run (row_get (pd_versions ?p) 2) = Some 1" by code_simp+
  with spec show ?thesis by (auto split: sum.splits)
qed

section \<open>The update of the shipments of a version\<close>

text \<open>What a round leaves: a shipment that the next update finds nothing to do on.\<close>

definition settled :: "nat \<Rightarrow> db \<Rightarrow> bool" where
  "settled k s \<longleftrightarrow> (\<exists>r. row_get (db_shipments s) k = Some r
     \<and> (allowed_shipment_update (s_status r) \<longrightarrow> s_status r = Ship_Planned \<and> planned_event_exists k s))"

lemma planned_event_create:
  "planned_event_exists k (create_tracking_event e user j form s) \<longleftrightarrow>
     planned_event_exists k s \<or> k = j \<and> tf_status form = Tr_Planned"
  by (auto simp: planned_event_exists_def create_tracking_event_def row_ins_def)

lemma planned_event_ensure:
  "tf_status form = Tr_Planned \<Longrightarrow> planned_event_exists k (ensure_planned_event e user j form s)
     \<longleftrightarrow> planned_event_exists k s \<or> k = j"
  by (auto simp: ensure_planned_event_def planned_event_create)

lemma ensure_planned_shipments [simp]:
  "db_shipments (ensure_planned_event e user j form s) = db_shipments s"
  by (simp add: ensure_planned_event_def create_tracking_event_def)

lemma set_planned_Inr:
  assumes "set_planned e k sh s = Inr t" and "row_get (db_shipments s) k = Some sh"
  shows "\<exists>ref. row_get (db_shipments t) k = Some (sh\<lparr>s_status := Ship_Planned, s_reference := ref\<rparr>)"
    and "j \<noteq> k \<Longrightarrow> row_get (db_shipments t) j = row_get (db_shipments s) j"
    and "planned_event_exists j t = planned_event_exists j s"
proof -
  have "(\<exists>ref. row_get (db_shipments t) k = Some (sh\<lparr>s_status := Ship_Planned, s_reference := ref\<rparr>))
      \<and> (\<forall>j. j \<noteq> k \<longrightarrow> row_get (db_shipments t) j = row_get (db_shipments s) j)
      \<and> db_tracking t = db_tracking s"
  proof (cases "s_status sh = Ship_Planned")
    case True
    with assms have "t = s" and "sh = sh\<lparr>s_status := Ship_Planned, s_reference := s_reference sh\<rparr>"
      by (simp_all add: set_planned_def)
    with assms(2) show ?thesis by (intro conjI exI [of _ "s_reference sh"]) simp_all
  next
    case False
    with assms(1) have save: "shipment_save e k (\<lambda>r. r\<lparr>s_status := Ship_Planned\<rparr>) s = Inr t"
      by (simp add: set_planned_def)
    from shipment_save_row [OF this assms(2)] shipment_save_frame [OF save] show ?thesis by auto
  qed
  then show "\<exists>ref. row_get (db_shipments t) k = Some (sh\<lparr>s_status := Ship_Planned, s_reference := ref\<rparr>)"
    and "j \<noteq> k \<Longrightarrow> row_get (db_shipments t) j = row_get (db_shipments s) j"
    and "planned_event_exists j t = planned_event_exists j s"
    by (auto simp: planned_event_exists_def)
qed

lemma update_assigned_cases:
  assumes "update_assigned_shipment e p name org comment user row (seen, m, s) = Inr (seen', m', t)"
  obtains (missing) "assigned_shipment p (snd row) = None" and "seen' = seen" and "t = s"
  | (again) k where "assigned_shipment p (snd row) = Some k" and "k \<in> set seen" and "seen' = seen" and "t = s"
  | (locked) k r where "assigned_shipment p (snd row) = Some k" and "k \<notin> set seen" and "seen' = k # seen"
      and "row_get (db_shipments s) k = Some r" and "\<not> allowed_shipment_update (s_status r)" and "t = s"
  | (planned) k r s1 form where "assigned_shipment p (snd row) = Some k" and "k \<notin> set seen" and "seen' = k # seen"
      and "row_get (db_shipments s) k = Some r" and "allowed_shipment_update (s_status r)"
      and "set_planned e k r s = Inr s1" and "t = ensure_planned_event e user k form s1"
      and "tf_status form = Tr_Planned"
proof (cases "assigned_shipment p (snd row)")
  case None
  show thesis by (rule missing) (use None assms in \<open>simp_all add: update_assigned_shipment_def\<close>)
next
  case (Some k)
  show thesis
  proof (cases "k \<in> set seen")
    case True
    show thesis by (rule again) (use Some True assms in \<open>simp_all add: update_assigned_shipment_def\<close>)
  next
    case False
    from Some False assms obtain r where r: "row_get (db_shipments s) k = Some r"
      by (auto simp: update_assigned_shipment_def wms_ok)
    show thesis
    proof (cases "allowed_shipment_update (s_status r)")
      case True
      from assms Some False r True obtain s1 where s1: "set_planned e k r s = Inr s1"
        by (auto simp: update_assigned_shipment_def Let_def wms_ok)
      show thesis
        by (rule planned [where form = "\<lparr>tf_status = Tr_Planned, tf_actor_name = name, tf_actor_structure = org,
              tf_comments = comment\<rparr>", OF Some False _ r True s1])
          (use assms Some False r True s1 in \<open>simp_all add: update_assigned_shipment_def Let_def\<close>)
    next
      case no: False
      show thesis
        by (rule locked [OF Some False _ r no])
          (use assms Some False r no in \<open>simp_all add: update_assigned_shipment_def Let_def\<close>)
    qed
  qed
qed

lemma settled_keeps:
  assumes "update_assigned_shipment e p name org comment user row (seen, m, s) = Inr (seen', m', t)"
    and "settled j s"
  shows "settled j t"
  using assms(1)
proof (cases rule: update_assigned_cases)
  case (planned k r s1 form)
  note sp = set_planned_Inr [OF planned(6,4)]
  show ?thesis
  proof (cases "j = k")
    case True
    with sp(1) planned(7,8) show ?thesis by (auto simp: settled_def planned_event_ensure)
  next
    case False
    with assms(2) sp(2) [OF False] sp(3) planned(7,8) show ?thesis
      by (auto simp: settled_def planned_event_ensure)
  qed
qed (use assms(2) in simp_all)

lemma settled_after:
  assumes "update_assigned_shipment e p name org comment user row (seen, m, s) = Inr (seen', m', t)"
    and "\<forall>k \<in> set seen. settled k s"
  shows "\<forall>k \<in> set seen'. settled k t" and "set seen \<subseteq> set seen'"
    and "\<forall>k. assigned_shipment p (snd row) = Some k \<longrightarrow> k \<in> set seen'"
proof -
  have old: "\<forall>k \<in> set seen. settled k t" using assms settled_keeps by blast
  from assms(1) have "(\<forall>k \<in> set seen'. settled k t) \<and> set seen \<subseteq> set seen'
      \<and> (\<forall>k. assigned_shipment p (snd row) = Some k \<longrightarrow> k \<in> set seen')"
  proof (cases rule: update_assigned_cases)
    case (locked k r)
    then have "settled k t" by (simp add: settled_def)
    with old locked show ?thesis by auto
  next
    case (planned k r s1 form)
    note sp = set_planned_Inr [OF planned(6,4)]
    from sp(1) planned(7,8) have "settled k t" by (auto simp: settled_def planned_event_ensure)
    with old planned show ?thesis by auto
  qed (use old in auto)
  then show "\<forall>k \<in> set seen'. settled k t" and "set seen \<subseteq> set seen'"
    and "\<forall>k. assigned_shipment p (snd row) = Some k \<longrightarrow> k \<in> set seen'" by blast+
qed

lemma update_loop_settles:
  assumes "for_each (update_assigned_shipment e p name org comment user) rows (seen, m, s) = Inr (seen', m', t)"
    and "\<forall>k \<in> set seen. settled k s"
  shows "\<forall>k \<in> set seen'. settled k t" and "set seen \<subseteq> set seen'"
    and "\<forall>row \<in> set rows. \<forall>k. assigned_shipment p (snd row) = Some k \<longrightarrow> k \<in> set seen'"
proof -
  have "(\<forall>k \<in> set seen'. settled k t) \<and> set seen \<subseteq> set seen'
      \<and> (\<forall>row \<in> set rows. \<forall>k. assigned_shipment p (snd row) = Some k \<longrightarrow> k \<in> set seen')"
    using assms
  proof (induction rows arbitrary: seen m s)
    case Nil
    then show ?case by simp
  next
    case (Cons row rows)
    from Cons.prems(1) obtain seen1 m1 s1
      where step: "update_assigned_shipment e p name org comment user row (seen, m, s) = Inr (seen1, m1, s1)"
        and rest: "for_each (update_assigned_shipment e p name org comment user) rows (seen1, m1, s1)
          = Inr (seen', m', t)"
      by (auto simp: wms_ok)
    note first = settled_after [OF step Cons.prems(2)]
    from Cons.IH [OF rest first(1)] first(2,3) show ?case by auto
  qed
  then show "\<forall>k \<in> set seen'. settled k t" and "set seen \<subseteq> set seen'"
    and "\<forall>row \<in> set rows. \<forall>k. assigned_shipment p (snd row) = Some k \<longrightarrow> k \<in> set seen'" by blast+
qed

lemma update_settled:
  assumes "\<And>k. assigned_shipment p (snd row) = Some k \<Longrightarrow> settled k s"
  shows "\<exists>seen' m'. update_assigned_shipment e p name org comment user row (seen, m, s) = Inr (seen', m', s)
     \<and> us_updated m' = us_updated m \<and> us_tracking_events_created m' = us_tracking_events_created m"
proof (cases "assigned_shipment p (snd row)")
  case None
  then show ?thesis by (simp add: update_assigned_shipment_def)
next
  case (Some k)
  with assms obtain r where r: "row_get (db_shipments s) k = Some r"
    "allowed_shipment_update (s_status r) \<longrightarrow> s_status r = Ship_Planned \<and> planned_event_exists k s"
    by (auto simp: settled_def)
  then show ?thesis
    using Some by (cases "allowed_shipment_update (s_status r)")
      (auto simp: update_assigned_shipment_def set_planned_def ensure_planned_event_def Let_def)
qed

lemma update_loop_settled:
  assumes "\<forall>row \<in> set rows. \<forall>k. assigned_shipment p (snd row) = Some k \<longrightarrow> settled k s"
  shows "\<exists>seen' m'. for_each (update_assigned_shipment e p name org comment user) rows (seen, m, s)
      = Inr (seen', m', s) \<and> us_updated m' = us_updated m
      \<and> us_tracking_events_created m' = us_tracking_events_created m"
  using assms
proof (induction rows arbitrary: seen m)
  case Nil
  then show ?case by simp
next
  case (Cons row rows)
  from update_settled [of p row s e name org comment user seen m] Cons.prems
  obtain seen1 m1 where step: "update_assigned_shipment e p name org comment user row (seen, m, s)
      = Inr (seen1, m1, s)" and m1: "us_updated m1 = us_updated m"
      "us_tracking_events_created m1 = us_tracking_events_created m" by auto
  from Cons.IH [of seen1 m1] Cons.prems m1 step show ?case by auto
qed

text \<open>What the loop has done to the shipments it has seen, and not to the others.\<close>

definition planned_since :: "db \<Rightarrow> nat set \<Rightarrow> db \<Rightarrow> bool" where
  "planned_since s ks t \<longleftrightarrow> (\<forall>k r. row_get (db_shipments s) k = Some r \<longrightarrow>
     (if k \<in> ks \<and> s_status r \<in> {Ship_Packed, Ship_Planned}
      then (\<exists>ref. row_get (db_shipments t) k = Some (r\<lparr>s_status := Ship_Planned, s_reference := ref\<rparr>))
         \<and> planned_event_exists k t
      else row_get (db_shipments t) k = Some r \<and> planned_event_exists k t = planned_event_exists k s))"

lemma planned_since_step:
  assumes "update_assigned_shipment e p name org comment user row (seen, m, t) = Inr (seen', m', u)"
    and "planned_since s (set seen) t"
  shows "planned_since s (set seen') u"
  using assms(1)
proof (cases rule: update_assigned_cases)
  case (locked k r)
  have "r0 = r" if "row_get (db_shipments s) k = Some r0" for r0
    using assms(2) [unfolded planned_since_def, rule_format, OF that] locked(2,4) by simp
  then have "\<not> (k \<in> set seen' \<and> s_status r0 \<in> {Ship_Packed, Ship_Planned})" if "row_get (db_shipments s) k = Some r0" for r0
    using that locked(5) by (auto simp: allowed_shipment_update_def)
  then have same: "(j \<in> set seen' \<and> s_status r0 \<in> {Ship_Packed, Ship_Planned})
      \<longleftrightarrow> (j \<in> set seen \<and> s_status r0 \<in> {Ship_Packed, Ship_Planned})"
    if "row_get (db_shipments s) j = Some r0" for j r0
    using that locked(2,3) by (cases "j = k") auto
  show ?thesis
    unfolding planned_since_def locked(6)
  proof (intro allI impI)
    fix j r0 assume row: "row_get (db_shipments s) j = Some r0"
    show "if j \<in> set seen' \<and> s_status r0 \<in> {Ship_Packed, Ship_Planned}
      then (\<exists>ref. row_get (db_shipments t) j = Some (r0\<lparr>s_status := Ship_Planned, s_reference := ref\<rparr>))
         \<and> planned_event_exists j t
      else row_get (db_shipments t) j = Some r0 \<and> planned_event_exists j t = planned_event_exists j s"
      unfolding same [OF row] using assms(2) row unfolding planned_since_def by blast
  qed
next
  case (planned k r s1 form)
  note sp = set_planned_Inr [OF planned(6,4)]
  show ?thesis
    unfolding planned_since_def
  proof (intro allI impI)
    fix j r0 assume row: "row_get (db_shipments s) j = Some r0"
    show "if j \<in> set seen' \<and> s_status r0 \<in> {Ship_Packed, Ship_Planned}
      then (\<exists>ref. row_get (db_shipments u) j = Some (r0\<lparr>s_status := Ship_Planned, s_reference := ref\<rparr>))
         \<and> planned_event_exists j u
      else row_get (db_shipments u) j = Some r0 \<and> planned_event_exists j u = planned_event_exists j s"
    proof (cases "j = k")
      case True
      then have "r0 = r" using assms(2) row planned(2,4) by (auto simp: planned_since_def)
      with True sp(1) planned(3,5,7,8) show ?thesis by (auto simp: allowed_shipment_update_def planned_event_ensure)
    next
      case False
      then show ?thesis
        using assms(2) [unfolded planned_since_def, rule_format, OF row] sp(2) [OF False] sp(3) [of j] planned(3,7,8)
        by (auto simp: planned_event_ensure split: if_splits)
    qed
  qed
qed (use assms(2) in simp_all)

lemma planned_since_loop:
  assumes "for_each (update_assigned_shipment e p name org comment user) rows (seen, m, t) = Inr (seen', m', u)"
    and "planned_since s (set seen) t"
  shows "planned_since s (set seen') u"
    and "set seen' \<subseteq> set seen \<union> {k. \<exists>row \<in> set rows. assigned_shipment p (snd row) = Some k}"
  using assms
proof (induction rows arbitrary: seen m t)
  case Nil
  { case 1 then show ?case by simp next case 2 then show ?case by simp }
next
  case (Cons row rows)
  { fix seen m t assume "for_each (update_assigned_shipment e p name org comment user) (row # rows) (seen, m, t)
      = Inr (seen', m', u)" and "planned_since s (set seen) t"
    then obtain seen1 m1 t1
      where step: "update_assigned_shipment e p name org comment user row (seen, m, t) = Inr (seen1, m1, t1)"
        and rest: "for_each (update_assigned_shipment e p name org comment user) rows (seen1, m1, t1)
          = Inr (seen', m', u)" and "planned_since s (set seen1) t1"
      using planned_since_step by (auto simp: wms_ok)
    moreover from step have "set seen1 \<subseteq> set seen \<union> {k. assigned_shipment p (snd row) = Some k}"
      by (cases rule: update_assigned_cases) auto
    ultimately have "planned_since s (set seen') u
      \<and> set seen' \<subseteq> set seen \<union> {k. \<exists>r \<in> set (row # rows). assigned_shipment p (snd r) = Some k}"
      using Cons.IH [OF rest] by auto }
  note both = this
  { case 1 then show ?case using both by blast next case 2 then show ?case using both by blast }
qed

text \<open>
  C21: Applying a published version plans its shipments, and is idempotent. Every shipment that an
  assignment of the version leads to and that is packed or planned gets the status planned, changing
  nothing but its status and a temporary reference, and has a planned event; every other shipment keeps
  its row, whatever its status, and gets no planned event. Applying the version again, whenever and by
  whomever, succeeds, changes no table and reports no shipment updated and no event created.
\<close>
theorem apply_version_idempotent:
  assumes "apply_version_updates e v name org user p s = Inr (m, t)"
  shows "(\<forall>k r. row_get (db_shipments s) k = Some r \<longrightarrow>
       (if (\<exists>row \<in> set (assignments_of v p). assigned_shipment p (snd row) = Some k)
           \<and> s_status r \<in> {Ship_Packed, Ship_Planned}
        then (\<exists>ref. row_get (db_shipments t) k = Some (r\<lparr>s_status := Ship_Planned, s_reference := ref\<rparr>))
           \<and> planned_event_exists k t
        else row_get (db_shipments t) k = Some r \<and> planned_event_exists k t = planned_event_exists k s))
    \<and> (\<exists>m'. apply_version_updates e' v name' org' user' p t = Inr (m', t)
        \<and> us_updated m' = 0 \<and> us_tracking_events_created m' = 0)"
proof -
  from assms obtain ver m0 comment author seen where ver: "row_get (pd_versions p) v = Some ver" "pv_status ver = Pv_Published"
    and loop: "for_each (update_assigned_shipment e p name org comment author) (assignments_of v p)
      ([], m0, s) = Inr (seen, m, t)"
    by (auto simp: apply_version_updates_def Let_def wms_ok)
  have "planned_since s (set []) s" by (simp add: planned_since_def)
  note since = planned_since_loop [OF loop this]
  note seen = update_loop_settles [OF loop]
  have keys: "set seen = {k. \<exists>row \<in> set (assignments_of v p). assigned_shipment p (snd row) = Some k}"
    using since(2) seen(3) by auto
  have ready: "\<forall>row \<in> set (assignments_of v p). \<forall>k. assigned_shipment p (snd row) = Some k \<longrightarrow> settled k t"
    using seen by auto
  let ?comment = "''Planning version v'' @ (case pv_number ver of None \<Rightarrow> ''None'' | Some n \<Rightarrow> nat_str n)"
  let ?author = "case user' of None \<Rightarrow> pv_created_by ver | Some u \<Rightarrow> Some u"
  let ?zero = "\<lparr>us_considered = 0, us_updated = 0, us_tracking_events_created = 0,
    us_skipped_missing = 0, us_skipped_locked = 0\<rparr>"
  obtain seen' m' where "for_each (update_assigned_shipment e' p name' org' ?comment ?author)
      (assignments_of v p) ([], ?zero, t) = Inr (seen', m', t)"
    and "us_updated m' = 0" "us_tracking_events_created m' = 0"
    using update_loop_settled [OF ready, of e' name' org' ?comment ?author "[]" ?zero] by auto
  with ver have "\<exists>m'. apply_version_updates e' v name' org' user' p t = Inr (m', t)
        \<and> us_updated m' = 0 \<and> us_tracking_events_created m' = 0"
    by (intro exI [of _ m']) (simp add: apply_version_updates_def Let_def)
  with since(1) show ?thesis unfolding planned_since_def keys by simp
qed

definition disputed_db :: db where
  "disputed_db = sample_db\<lparr>db_shipments := [(1, (sample_shipment ''260001'' Ship_Packed)\<lparr>s_is_disputed := True\<rparr>)]\<rparr>"

theorem apply_version_idempotent_witness:
  "case apply_version_updates sample_env 1 ''N'' ''S'' None sample_plan_db disputed_db of
     Inl _ \<Rightarrow> False
   | Inr (m, t) \<Rightarrow> us_updated m = 1 \<and> planned_event_exists 1 t
       \<and> (\<exists>ref. row_get (db_shipments t) 1
            = Some ((sample_shipment ''260001'' Ship_Planned)\<lparr>s_is_disputed := True, s_reference := ref\<rparr>))
       \<and> (\<exists>m'. apply_version_updates sample_env 1 ''M'' ''T'' (Some 2) sample_plan_db t = Inr (m', t) \<and> us_updated m' = 0)"
proof -
  have "case apply_version_updates sample_env 1 ''N'' ''S'' None sample_plan_db disputed_db of
     Inl _ \<Rightarrow> False | Inr (m, t) \<Rightarrow> us_updated m = 1"
    and led: "list_ex (\<lambda>row. assigned_shipment sample_plan_db (snd row) = Some 1) (assignments_of 1 sample_plan_db)"
    by code_simp+
  then obtain m t where run: "apply_version_updates sample_env 1 ''N'' ''S'' None sample_plan_db disputed_db
      = Inr (m, t)" and "us_updated m = 1" by (auto split: sum.splits)
  have "row_get (db_shipments disputed_db) 1 = Some ((sample_shipment ''260001'' Ship_Packed)\<lparr>s_is_disputed := True\<rparr>)"
    by (simp add: disputed_db_def row_get_def)
  with apply_version_idempotent [OF run, of sample_env "''M''" "''T''" "Some 2"] led \<open>us_updated m = 1\<close> show ?thesis
    unfolding run by (fastforce simp: list_ex_iff sample_shipment_def)
qed

text \<open>
  The two ways to planned disagree on disputes. Applying a published version moves a disputed
  shipment to planned and logs the event, where the tracking form refuses every step of a disputed
  shipment and leaves the tables as they are.
\<close>

theorem planning_ignores_disputes:
  "(case apply_version_updates sample_env 1 ''N'' ''S'' None sample_plan_db disputed_db of
      Inl _ \<Rightarrow> False
    | Inr (_, t) \<Rightarrow> map (\<lambda>(k, r). (k, s_status r, s_is_disputed r)) (db_shipments t) = [(1, Ship_Planned, True)]
        \<and> map (\<lambda>(k, ev). te_status ev) (db_tracking t) = [Tr_Planned])
   \<and> handle_shipment_tracking_post sample_env \<lparr>rq_is_post = True, rq_action = [], rq_user = Some 1, rq_is_staff = True\<rparr>
       1 (Some \<lparr>tf_status = Tr_Planned, tf_actor_name = ''N'', tf_actor_structure = ''S'', tf_comments = []\<rparr>)
       disputed_db = Inr (Litige_A_Resoudre, disputed_db)"
proof
  show "handle_shipment_tracking_post sample_env \<lparr>rq_is_post = True, rq_action = [], rq_user = Some 1, rq_is_staff = True\<rparr>
       1 (Some \<lparr>tf_status = Tr_Planned, tf_actor_name = ''N'', tf_actor_structure = ''S'', tf_comments = []\<rparr>)
       disputed_db = Inr (Litige_A_Resoudre, disputed_db)"
    by (simp add: handle_shipment_tracking_post_def handle_dispute_action_def disputed_db_def row_get_def strip_def)
qed code_simp

section \<open>Tracking through the page and through the API\<close>

text \<open>
  The page and the API agree. On a shipment that is not archived, a form that carries no dispute
  action is accepted by the one exactly when it is accepted by the other, with the same state after it.
\<close>

theorem api_tracking_agrees_with_page:
  assumes "row_get (db_shipments s) k = Some r" and "s_archived_at r = None"
    and "rq_is_post rq" and "strip (rq_action rq) = []"
  shows "(\<exists>i. api_tracking_event e (rq_user rq) k (Some f) s = Inr (Api_Ok i, t))
    \<longleftrightarrow> handle_shipment_tracking_post e rq k (Some f) s = Inr (Suivi_Mis_A_Jour, t)"
proof (cases "s_is_disputed r")
  case True
  with assms show ?thesis
    by (auto simp: api_tracking_event_def handle_shipment_tracking_post_def handle_dispute_action_def)
next
  case False
  with assms show ?thesis
    by (auto simp: api_tracking_event_def handle_shipment_tracking_post_def handle_dispute_action_def
        res_bind_Inr split: option.splits)
qed

definition received_db :: db where
  "received_db = sample_db\<lparr>db_shipments := [(1, sample_shipment ''260001'' Ship_Received_Correspondent)]\<rparr>"

definition page_request :: request where
  "page_request = \<lparr>rq_is_post = True, rq_action = [], rq_user = Some 1, rq_is_staff = True\<rparr>"

definition delivered_form :: tracking_form where
  "delivered_form = \<lparr>tf_status = Tr_Received_Recipient, tf_actor_name = ''N'', tf_actor_structure = ''S'', tf_comments = []\<rparr>"

lemma api_tracking_agrees_with_page_witness:
  "\<exists>t. (\<exists>i. api_tracking_event sample_env (rq_user page_request) 1 (Some delivered_form) received_db = Inr (Api_Ok i, t))
     \<and> handle_shipment_tracking_post sample_env page_request 1 (Some delivered_form) received_db
         = Inr (Suivi_Mis_A_Jour, t)"
proof -
  have "case handle_shipment_tracking_post sample_env page_request 1 (Some delivered_form) received_db of
      Inl _ \<Rightarrow> False | Inr (r, _) \<Rightarrow> r = Suivi_Mis_A_Jour" by code_simp
  then obtain t where run: "handle_shipment_tracking_post sample_env page_request 1 (Some delivered_form) received_db
      = Inr (Suivi_Mis_A_Jour, t)" by (auto split: sum.splits)
  have "row_get (db_shipments received_db) 1 = Some (sample_shipment ''260001'' Ship_Received_Correspondent)"
    and "s_archived_at (sample_shipment ''260001'' Ship_Received_Correspondent) = None"
    and "rq_is_post page_request" and "strip (rq_action page_request) = []"
    by (simp_all add: received_db_def row_get_def sample_shipment_def page_request_def strip_def)
  from api_tracking_agrees_with_page [OF this, of sample_env delivered_form t] run show ?thesis by blast
qed

end
