(* ===== verification/Plan_Rules.thy ===== *)
theory Plan_Rules
  imports Planning_Data Text_Codes
begin

text \<open>
  The rules of the planning (\<open>wms/planning/rules.py\<close>, \<open>wms/planning/config.py\<close> and
  \<open>get_destination_rule_map\<close> of \<open>wms/planning/validation.py\<close>): the payload compiled from the
  snapshots of a run, which volunteers and shipments go with which flights, and the diagnostics. The
  dictionaries of the payload are records; those keyed by distinct primary keys are association
  lists in the order of their insertion.
\<close>

section \<open>Constants\<close>

definition LEGACY_EQUIV_CAPACITY_PER_VOLUNTEER :: int where
  "LEGACY_EQUIV_CAPACITY_PER_VOLUNTEER = 22"

definition LEGACY_MISSION_LEAD_HOURS :: nat where
  "LEGACY_MISSION_LEAD_HOURS = 3"

section \<open>Dates and times of day\<close>

text \<open>
  \<open>date.toordinal\<close>: the days since the first of January of the year 1, that day being 1. The day of
  the week follows from it, the day 1 being a Monday.
\<close>

definition is_leap :: "int \<Rightarrow> bool" where
  "is_leap y \<longleftrightarrow> y mod 4 = 0 \<and> (y mod 100 \<noteq> 0 \<or> y mod 400 = 0)"

definition days_before_year :: "int \<Rightarrow> int" where
  "days_before_year y = (y - 1) * 365 + (y - 1) div 4 - (y - 1) div 100 + (y - 1) div 400"

definition days_before_month :: "int \<Rightarrow> nat \<Rightarrow> int" where
  "days_before_month y m = [0, 0, 31, 59, 90, 120, 151, 181, 212, 243, 273, 304, 334] ! m
     + (if 2 < m \<and> is_leap y then 1 else 0)"

definition toordinal :: "date \<Rightarrow> int" where
  "toordinal d = (let y = int (d_year d) in days_before_year y + days_before_month y (d_month d) + int (d_day d))"

definition weekday :: "date \<Rightarrow> nat" where
  "weekday d = nat ((toordinal d + 6) mod 7)"

definition weekday_code :: "date \<Rightarrow> string" where
  "weekday_code d = [''mon'', ''tue'', ''wed'', ''thu'', ''fri'', ''sat'', ''sun''] ! weekday d"

definition iso_date :: "date \<Rightarrow> string" where
  "iso_date d = zero_pad 4 (d_year d) @ ''-'' @ zero_pad 2 (d_month d) @ ''-'' @ zero_pad 2 (d_day d)"

text \<open>\<open>_serialize_time\<close>: \<open>isoformat(timespec="minutes")\<close>, the empty text for no time.\<close>

definition serialize_time :: "nat option \<Rightarrow> string" where
  "serialize_time t = (case t of None \<Rightarrow> [] | Some m \<Rightarrow> zero_pad 2 (m div 60) @ '':'' @ zero_pad 2 (m mod 60))"

fun split_on :: "char \<Rightarrow> string \<Rightarrow> string list" where
  "split_on c [] = [[]]"
| "split_on c (x # xs) =
     (if x = c then [] # split_on c xs
      else (case split_on c xs of [] \<Rightarrow> [[x]] | w # ws \<Rightarrow> (x # w) # ws))"

text \<open>\<open>int(text)\<close>: an optional sign and digits, single underscores between them, blanks around.\<close>

definition int_digits :: "string \<Rightarrow> nat option" where
  "int_digits s =
     (if s \<noteq> [] \<and> is_digit (hd s) \<and> is_digit (last s) \<and> list_all (\<lambda>c. is_digit c \<or> c = CHR ''_'') s
         \<and> successively (\<lambda>a b. \<not> (a = CHR ''_'' \<and> b = CHR ''_'')) s
      then Some (parse_nat (filter is_digit s)) else None)"

definition py_int :: "string \<Rightarrow> int option" where
  "py_int s =
     (case strip s of
        [] \<Rightarrow> None
      | c # t \<Rightarrow>
          if c = CHR ''-'' then map_option (\<lambda>n. - int n) (int_digits t)
          else if c = CHR ''+'' then map_option int (int_digits t)
          else map_option int (int_digits (c # t)))"

text \<open>
  \<open>_parse_time_value\<close>: the minutes since midnight, none for a text that is no time; an hour or a
  minute out of range raises, in \<open>time(...)\<close>.
\<close>

definition parse_time_value :: "string \<Rightarrow> err + nat option" where
  "parse_time_value value =
     (if value = [] then Inr None
      else case split_on (CHR '':'') (strip value) of
        h # m # _ \<Rightarrow>
          (case (py_int h, py_int m) of
             (Some hour, Some minute) \<Rightarrow>
               if 0 \<le> hour \<and> hour < 24 \<and> 0 \<le> minute \<and> minute < 60
               then Inr (Some (nat hour * 60 + nat minute))
               else Inl (Value_Error ''out of range'')
           | _ \<Rightarrow> Inr None)
      | _ \<Rightarrow> Inr None)"

section \<open>Flights\<close>

definition normalize_flight_number :: "string \<Rightarrow> string" where
  "normalize_flight_number value = filter is_alnum (str_upper (strip value))"

definition infer_route_pos :: "string \<Rightarrow> string \<Rightarrow> int" where
  "infer_route_pos routing destination_iata =
     (let parts = map (\<lambda>part. str_upper (strip part))
            (filter (\<lambda>part. part \<noteq> [])
              (split_on (CHR ''-'') (map (\<lambda>c. if c = CHR '','' then CHR ''-'' else c) routing)));
          destination = str_upper (strip destination_iata)
      in case find (\<lambda>(index, code). code = destination) (zip [1..<length parts] (drop 1 parts)) of
           None \<Rightarrow> 1
         | Some (index, _) \<Rightarrow> int index)"

definition build_physical_flight_key :: "nat \<Rightarrow> string \<Rightarrow> date \<Rightarrow> nat option \<Rightarrow> string" where
  "build_physical_flight_key snapshot_id flight_number departure_date departure_time =
     (let normalized_number = normalize_flight_number flight_number
      in iso_date departure_date @ ''|'' @ serialize_time departure_time @ ''|''
           @ (if normalized_number = [] then nat_str snapshot_id else normalized_number))"

section \<open>The payload\<close>

record payload_rule =
  pr_priority :: nat
  pr_weekly_frequency :: "nat option"
  pr_max_cartons_per_flight :: "int option"
  pr_allowed_weekdays :: "string list"

record payload_shipment =
  ps_id :: nat
  ps_reference :: string
  ps_shipper_name :: string
  ps_destination_iata :: string
  ps_priority :: int
  ps_priority_rank :: int
  ps_carton_count :: int
  ps_equivalent_units :: int
  ps_date_depart_mag :: "date option"
  ps_date_impression :: "date option"
  ps_date_conditionnement :: "date option"

record payload_volunteer =
  pl_id :: nat
  pl_label :: string
  pl_max_colis_vol :: "int option"
  pl_unavailable_dates :: "date list"
  pl_slots :: "slot list"
  pl_legacy_id :: "int option"

record payload_flight =
  pf_id :: nat
  pf_flight_number :: string
  pf_departure_date :: date
  pf_departure_time :: "nat option"
  pf_origin_iata :: string
  pf_destination_iata :: string
  pf_routing :: string
  pf_route_pos :: int
  pf_physical_flight_key :: string
  pf_capacity_units :: "int option"
  pf_max_cartons_per_flight :: "int option"
  pf_weekly_frequency :: "nat option"
  pf_allowed_weekdays :: "string list"

record solver_payload =
  sp_run :: nat
  sp_shipments :: "payload_shipment list"
  sp_volunteers :: "payload_volunteer list"
  sp_flights :: "payload_flight list"
  sp_rules :: "(string \<times> payload_rule) list"

text \<open>\<open>get_destination_rule_map\<close>: the active rules of the parameter set by destination, in the order
of \<open>PlanningDestinationRule.Meta\<close>.\<close>

definition get_destination_rule_map :: "nat \<Rightarrow> plan_db \<Rightarrow> (nat option \<times> destination_rule) list" where
  "get_destination_rule_map run p =
     (case row_get (pd_runs p) run of
        None \<Rightarrow> []
      | Some r \<Rightarrow>
          (case run_parameter_set r of
             None \<Rightarrow> []
           | Some set_id \<Rightarrow>
               fold (\<lambda>(_, rule). dict_put (dr_destination rule) rule)
                 (sort_key (\<lambda>(i, rule). (dr_priority rule, i))
                   (rows_where (\<lambda>_ rule. dr_parameter_set rule = set_id \<and> dr_is_active rule) (pd_rules p))) []))"

definition payload_rule_of :: "destination_rule \<Rightarrow> payload_rule" where
  "payload_rule_of rule =
     \<lparr>pr_priority = dr_priority rule, pr_weekly_frequency = dr_weekly_frequency rule,
      pr_max_cartons_per_flight = dr_max_cartons_per_flight rule,
      pr_allowed_weekdays = dr_allowed_weekdays rule\<rparr>"

definition destination_rules_by_iata :: "nat \<Rightarrow> plan_db \<Rightarrow> db \<Rightarrow> (string \<times> payload_rule) list" where
  "destination_rules_by_iata run p s =
     fold (\<lambda>(destination, rule) rules.
         case destination of
           None \<Rightarrow> rules
         | Some d \<Rightarrow>
             (case row_get (db_destinations s) d of
                None \<Rightarrow> rules
              | Some x \<Rightarrow> if d_iata_code x = [] then rules
                          else dict_put (str_upper (d_iata_code x)) (payload_rule_of rule) rules))
       (get_destination_rule_map run p) []"

definition ordered_shipments :: "nat \<Rightarrow> plan_db \<Rightarrow> (nat \<times> shipment_snapshot) list" where
  "ordered_shipments run p = sort_key (\<lambda>(i, x). (- ss_priority x, ss_reference x, i))
     (rows_where (\<lambda>_ x. ss_run x = run) (pd_shipments p))"

definition ordered_volunteers :: "nat \<Rightarrow> plan_db \<Rightarrow> (nat \<times> volunteer_snapshot) list" where
  "ordered_volunteers run p = sort_key (\<lambda>(i, x). (vs_label x, i))
     (rows_where (\<lambda>_ x. vs_run x = run) (pd_volunteers p))"

definition ordered_flights :: "nat \<Rightarrow> plan_db \<Rightarrow> (nat \<times> flight_snapshot) list" where
  "ordered_flights run p = sort_key (\<lambda>(i, x). (fs_departure_date x, fs_flight_number x, i))
     (rows_where (\<lambda>_ x. fs_run x = run) (pd_flights p))"

definition payload_shipment_of :: "nat \<times> shipment_snapshot \<Rightarrow> payload_shipment" where
  "payload_shipment_of row =
     (let (i, x) = row in
      \<lparr>ps_id = i, ps_reference = ss_reference x, ps_shipper_name = ss_shipper_name x,
       ps_destination_iata = ss_destination_iata x, ps_priority = ss_priority x,
       ps_priority_rank = (case ss_legacy_type_priority x of
           None \<Rightarrow> ss_priority x | Some n \<Rightarrow> if n = 0 then ss_priority x else n),
       ps_carton_count = ss_carton_count x, ps_equivalent_units = ss_equivalent_units x,
       ps_date_depart_mag = ss_legacy_date_depart_mag x, ps_date_impression = ss_legacy_date_impression x,
       ps_date_conditionnement = ss_legacy_date_conditionnement x\<rparr>)"

definition payload_volunteer_of :: "nat \<times> volunteer_snapshot \<Rightarrow> payload_volunteer" where
  "payload_volunteer_of row =
     (let (i, x) = row in
      \<lparr>pl_id = i, pl_label = vs_label x, pl_max_colis_vol = vs_max_colis_vol x,
       pl_unavailable_dates = vs_unavailable_dates x, pl_slots = vs_slots x, pl_legacy_id = vs_legacy_id x\<rparr>)"

definition payload_flight_of ::
    "(string \<times> payload_rule) list \<Rightarrow> nat \<times> flight_snapshot \<Rightarrow> payload_flight" where
  "payload_flight_of rules row =
     (let (i, x) = row;
          rule = map_of rules (str_upper (fs_destination_iata x));
          route_pos = (case fs_route_pos x of
              None \<Rightarrow> infer_route_pos (fs_routing x) (fs_destination_iata x) | Some n \<Rightarrow> n)
      in \<lparr>pf_id = i, pf_flight_number = fs_flight_number x, pf_departure_date = fs_departure_date x,
          pf_departure_time = fs_departure_time x, pf_origin_iata = fs_origin_iata x,
          pf_destination_iata = fs_destination_iata x, pf_routing = fs_routing x,
          pf_route_pos = (if route_pos = 0 then 1 else route_pos),
          pf_physical_flight_key = build_physical_flight_key i (fs_flight_number x) (fs_departure_date x)
            (fs_departure_time x),
          pf_capacity_units = fs_capacity_units x,
          pf_max_cartons_per_flight = Option.bind rule pr_max_cartons_per_flight,
          pf_weekly_frequency = Option.bind rule pr_weekly_frequency,
          pf_allowed_weekdays = (case rule of None \<Rightarrow> [] | Some r \<Rightarrow> pr_allowed_weekdays r)\<rparr>)"

definition compile_run_solver_payload :: "nat \<Rightarrow> plan_db \<Rightarrow> db \<Rightarrow> solver_payload" where
  "compile_run_solver_payload run p s =
     (let rules = destination_rules_by_iata run p s
      in \<lparr>sp_run = run,
          sp_shipments = map payload_shipment_of (ordered_shipments run p),
          sp_volunteers = map payload_volunteer_of (ordered_volunteers run p),
          sp_flights = map (payload_flight_of rules) (ordered_flights run p),
          sp_rules = rules\<rparr>)"

section \<open>Compatibility\<close>

text \<open>
  The clock time the mission must start at: three hours before the departure, as a time of day. The
  date is dropped, so that a departure before three in the morning wraps to the evening.
\<close>

definition required_start :: "nat \<Rightarrow> nat" where
  "required_start departure = (departure + 24 * 60 - LEGACY_MISSION_LEAD_HOURS * 60) mod (24 * 60)"

definition volunteer_is_compatible_with_flight :: "payload_volunteer \<Rightarrow> payload_flight \<Rightarrow> bool" where
  "volunteer_is_compatible_with_flight volunteer flight =
     (if pf_departure_date flight \<in> set (pl_unavailable_dates volunteer) then False
      else if pl_slots volunteer = [] then True
      else list_ex (\<lambda>slot.
        sl_date slot = pf_departure_date flight \<and>
        (case (sl_start_time slot, sl_end_time slot) of
           (Some start_time, Some end_time) \<Rightarrow>
             (case pf_departure_time flight of
                None \<Rightarrow> True
              | Some departure \<Rightarrow> start_time \<le> required_start departure \<and> departure \<le> end_time)
         | _ \<Rightarrow> False)) (pl_slots volunteer))"

definition shipment_is_compatible_with_flight :: "payload_shipment \<Rightarrow> payload_flight \<Rightarrow> bool" where
  "shipment_is_compatible_with_flight shipment flight =
     (let shipment_dest = str_upper (ps_destination_iata shipment);
          flight_dest = str_upper (pf_destination_iata flight);
          allowed_weekdays = map (\<lambda>v. str_lower (strip v)) (pf_allowed_weekdays flight)
      in if shipment_dest \<noteq> [] \<and> flight_dest \<noteq> [] \<and> shipment_dest \<noteq> flight_dest then False
         else if allowed_weekdays \<noteq> [] \<and> weekday_code (pf_departure_date flight) \<notin> set allowed_weekdays then False
         else if (case pf_max_cartons_per_flight flight of
                    None \<Rightarrow> False | Some m \<Rightarrow> ps_carton_count shipment > m) then False
         else if (case pf_capacity_units flight of
                    None \<Rightarrow> False | Some m \<Rightarrow> ps_equivalent_units shipment > m) then False
         else True)"

definition volunteer_capacity :: "payload_volunteer \<Rightarrow> int" where
  "volunteer_capacity volunteer =
     (case pl_max_colis_vol volunteer of None \<Rightarrow> LEGACY_EQUIV_CAPACITY_PER_VOLUNTEER | Some n \<Rightarrow> n)"

type_synonym compatibility = "(nat \<times> (nat \<times> nat) list) list"

definition route_pos_or_one :: "int \<Rightarrow> int" where
  "route_pos_or_one n = (if n = 0 then 1 else n)"

definition compatible_pairs :: "solver_payload \<Rightarrow> payload_shipment \<Rightarrow> (nat \<times> nat) list" where
  "compatible_pairs payload shipment =
     concat (map (\<lambda>flight.
       if \<not> shipment_is_compatible_with_flight shipment flight then []
       else [(pf_id flight, pl_id volunteer). volunteer \<leftarrow> sp_volunteers payload,
              \<not> ps_equivalent_units shipment > volunteer_capacity volunteer,
              volunteer_is_compatible_with_flight volunteer flight]) (sp_flights payload))"

text \<open>The rank of a pair by the metadata of its flight: position on the route, then number.\<close>

definition pair_rank :: "solver_payload \<Rightarrow> nat \<times> nat \<Rightarrow> int \<times> string" where
  "pair_rank payload pair =
     (case map_of (map (\<lambda>f. (pf_id f, (route_pos_or_one (pf_route_pos f), pf_flight_number f)))
          (sp_flights payload)) (fst pair) of
        None \<Rightarrow> (999, [])
      | Some metadata \<Rightarrow> metadata)"

definition compute_compatibility :: "solver_payload \<Rightarrow> compatibility" where
  "compute_compatibility payload =
     map (\<lambda>shipment. (ps_id shipment, sort_key (pair_rank payload) (compatible_pairs payload shipment)))
       (sp_shipments payload)"

section \<open>Diagnostics\<close>

record flight_diagnostic =
  fd_flight :: nat
  fd_flight_number :: string
  fd_departure_date :: date
  fd_departure_time :: "nat option"
  fd_destination_iata :: string
  fd_physical_flight_key :: string
  fd_route_pos :: int
  fd_shipment_compat_count :: nat
  fd_benevole_compat_count :: nat
  fd_candidate_assignment_count :: nat
  fd_used :: bool

definition build_solver_diagnostics :: "solver_payload \<Rightarrow> flight_diagnostic list" where
  "build_solver_diagnostics payload =
     map (\<lambda>flight.
       \<lparr>fd_flight = pf_id flight, fd_flight_number = pf_flight_number flight,
        fd_departure_date = pf_departure_date flight, fd_departure_time = pf_departure_time flight,
        fd_destination_iata = pf_destination_iata flight,
        fd_physical_flight_key = pf_physical_flight_key flight,
        fd_route_pos = route_pos_or_one (pf_route_pos flight),
        fd_shipment_compat_count =
          length (filter (\<lambda>x. shipment_is_compatible_with_flight x flight) (sp_shipments payload)),
        fd_benevole_compat_count =
          length (filter (\<lambda>x. volunteer_is_compatible_with_flight x flight) (sp_volunteers payload)),
        fd_candidate_assignment_count = 0, fd_used = False\<rparr>) (sp_flights payload)"

end
