(* ===== verification/Plan_Options.thy ===== *)
theory Plan_Options
  imports Plan_Rules "HOL-Library.List_Lexorder" "HOL-Library.Char_ord"
begin

text \<open>
  What the operator of a planning may choose (\<open>wms/planning/operator_options.py\<close>, with the labels of
  \<open>wms/planning/version_dashboard.py\<close>) and does (\<open>wms/planning/operator_mutations.py\<close>): why a flight
  or a volunteer is refused, the options of the editors with their tones, and the edits of a draft.
  Styles and the French labels of reasons are display only; a reason is a constructor.
\<close>

section \<open>Context\<close>

record op_context =
  oc_payload :: solver_payload
  oc_assignments :: "(nat \<times> assignment) list"
  oc_shipments :: "shipment_snapshot table"

definition find_flight :: "op_context \<Rightarrow> nat \<Rightarrow> payload_flight option" where
  "find_flight ctx i = find (\<lambda>f. pf_id f = i) (sp_flights (oc_payload ctx))"

definition find_shipment :: "op_context \<Rightarrow> nat \<Rightarrow> payload_shipment option" where
  "find_shipment ctx i = find (\<lambda>x. ps_id x = i) (sp_shipments (oc_payload ctx))"

definition find_volunteer :: "op_context \<Rightarrow> nat \<Rightarrow> payload_volunteer option" where
  "find_volunteer ctx i = find (\<lambda>x. pl_id x = i) (sp_volunteers (oc_payload ctx))"

definition build_operator_option_context :: "nat \<Rightarrow> planning_version \<Rightarrow> plan_db \<Rightarrow> db \<Rightarrow> op_context" where
  "build_operator_option_context v version p s =
     \<lparr>oc_payload = compile_run_solver_payload (pv_run version) p s,
      oc_assignments = assignments_of v p, oc_shipments = pd_shipments p\<rparr>"

definition normalize_iata :: "string \<Rightarrow> string" where
  "normalize_iata value = str_upper (strip value)"

definition op_normalize_flight_number :: "string \<Rightarrow> string" where
  "op_normalize_flight_number value = filter (\<lambda>c. is_upper c \<or> is_digit c) (str_upper (strip value))"

definition flight_sort_key :: "payload_flight \<Rightarrow> string \<times> string \<times> string" where
  "flight_sort_key f = (iso_date (pf_departure_date f), serialize_time (pf_departure_time f), pf_flight_number f)"

text \<open>A departure in minutes, none when the time is not known.\<close>

definition flight_departure_dt :: "payload_flight \<Rightarrow> int option" where
  "flight_departure_dt f =
     map_option (\<lambda>t. toordinal (pf_departure_date f) * 1440 + int t) (pf_departure_time f)"

definition flight_physical_key :: "payload_flight \<Rightarrow> string" where
  "flight_physical_key f = iso_date (pf_departure_date f) @ ''|'' @ serialize_time (pf_departure_time f) @ ''|''
     @ op_normalize_flight_number (pf_flight_number f)"

definition CONFLICT_MARGIN_MINUTES :: int where
  "CONFLICT_MARGIN_MINUTES = 150"

definition assignments_for_flight :: "op_context \<Rightarrow> nat \<Rightarrow> (nat \<times> assignment) list" where
  "assignments_for_flight ctx flight = filter (\<lambda>(_, a). as_flight a = Some flight) (oc_assignments ctx)"

section \<open>Reasons\<close>

text \<open>The equivalent units of the shipment of an assignment, as its snapshot has them.\<close>

definition assignment_units :: "op_context \<Rightarrow> assignment \<Rightarrow> int" where
  "assignment_units ctx a =
     (case as_shipment a of
        None \<Rightarrow> 0
      | Some i \<Rightarrow> (case row_get (oc_shipments ctx) i of None \<Rightarrow> 0 | Some x \<Rightarrow> ss_equivalent_units x))"

definition remaining_capacity :: "op_context \<Rightarrow> payload_flight \<Rightarrow> nat option \<Rightarrow> int option" where
  "remaining_capacity ctx flight ignore =
     (case pf_capacity_units flight of
        None \<Rightarrow> None
      | Some capacity \<Rightarrow>
          Some (capacity - fold (\<lambda>(i, a) used. if ignore = Some i then used else used + assignment_units ctx a)
            (assignments_for_flight ctx (pf_id flight)) 0))"

datatype flight_reason =
  Destination_Mismatch | Weekday_Not_Allowed | Max_Cartons_Per_Flight | Flight_Capacity_Insufficient
| Remaining_Capacity_Insufficient

definition explain_flight_rejection ::
    "op_context \<Rightarrow> payload_shipment \<Rightarrow> payload_flight \<Rightarrow> nat option \<Rightarrow> flight_reason option" where
  "explain_flight_rejection ctx shipment flight ignore =
     (let allowed_weekdays = map (\<lambda>v. str_lower (strip v)) (pf_allowed_weekdays flight);
          units = ps_equivalent_units shipment
      in if normalize_iata (pf_destination_iata flight) \<noteq> normalize_iata (ps_destination_iata shipment)
         then Some Destination_Mismatch
         else if allowed_weekdays \<noteq> [] \<and> weekday_code (pf_departure_date flight) \<notin> set allowed_weekdays
         then Some Weekday_Not_Allowed
         else if (case pf_max_cartons_per_flight flight of None \<Rightarrow> False | Some m \<Rightarrow> ps_carton_count shipment > m)
         then Some Max_Cartons_Per_Flight
         else if (case pf_capacity_units flight of None \<Rightarrow> False | Some m \<Rightarrow> units > m)
         then Some Flight_Capacity_Insufficient
         else if (case remaining_capacity ctx flight ignore of None \<Rightarrow> False | Some r \<Rightarrow> r < units)
         then Some Remaining_Capacity_Insufficient
         else None)"

definition has_availability_info :: "payload_volunteer \<Rightarrow> bool" where
  "has_availability_info volunteer \<longleftrightarrow> pl_slots volunteer \<noteq> [] \<or> pl_unavailable_dates volunteer \<noteq> []"

definition close_departures :: "payload_flight \<Rightarrow> payload_flight \<Rightarrow> bool" where
  "close_departures f g =
     (case (flight_departure_dt f, flight_departure_dt g) of
        (Some a, Some b) \<Rightarrow> flight_physical_key g \<noteq> flight_physical_key f \<and> \<bar>a - b\<bar> < CONFLICT_MARGIN_MINUTES
      | _ \<Rightarrow> False)"

definition volunteer_has_conflict :: "op_context \<Rightarrow> nat \<Rightarrow> payload_flight \<Rightarrow> nat option \<Rightarrow> bool" where
  "volunteer_has_conflict ctx volunteer flight ignore =
     list_ex (\<lambda>(i, a). as_volunteer a = Some volunteer \<and> ignore \<noteq> Some i \<and>
       (case find_flight ctx (case as_flight a of None \<Rightarrow> 0 | Some j \<Rightarrow> j) of
          None \<Rightarrow> False
        | Some other \<Rightarrow> close_departures flight other)) (oc_assignments ctx)"

datatype volunteer_reason = Volunteer_Unavailable | Volunteer_Conflict

definition explain_volunteer_rejection ::
    "op_context \<Rightarrow> payload_volunteer \<Rightarrow> payload_flight \<Rightarrow> nat option \<Rightarrow> volunteer_reason option" where
  "explain_volunteer_rejection ctx volunteer flight ignore =
     (if \<not> has_availability_info volunteer then None
      else if \<not> volunteer_is_compatible_with_flight volunteer flight then Some Volunteer_Unavailable
      else if volunteer_has_conflict ctx (pl_id volunteer) flight ignore then Some Volunteer_Conflict
      else None)"

section \<open>Tones and options\<close>

datatype tone = Green | Orange | Red | No_Tone

definition flight_tone_for_shipment ::
    "op_context \<Rightarrow> payload_shipment \<Rightarrow> payload_flight \<Rightarrow> nat option \<Rightarrow> tone option" where
  "flight_tone_for_shipment ctx shipment flight ignore =
     (if normalize_iata (pf_destination_iata flight) \<noteq> normalize_iata (ps_destination_iata shipment) then None
      else if explain_flight_rejection ctx shipment flight ignore \<noteq> None then Some Red
      else if assignments_for_flight ctx (pf_id flight) \<noteq> [] then Some Orange
      else Some Green)"

definition volunteer_tone_for_flight ::
    "op_context \<Rightarrow> payload_volunteer \<Rightarrow> payload_flight \<Rightarrow> nat option \<Rightarrow> tone" where
  "volunteer_tone_for_flight ctx volunteer flight ignore =
     (if \<not> has_availability_info volunteer then No_Tone
      else if \<not> volunteer_is_compatible_with_flight volunteer flight then Red
      else if volunteer_has_conflict ctx (pl_id volunteer) flight ignore then Orange
      else Green)"

text \<open>\<open>_format_flight_date\<close>, \<open>_format_flight_time\<close> and \<open>_format_flight_number\<close>.\<close>

definition DAY_NAMES :: "string list" where
  "DAY_NAMES = [''Lundi'', ''Mardi'', ''Mercredi'', ''Jeudi'', ''Vendredi'', ''Samedi'', ''Dimanche'']"

definition format_flight_date :: "date \<Rightarrow> string" where
  "format_flight_date d = DAY_NAMES ! weekday d @ '' '' @ zero_pad 2 (d_day d) @ ''/''
     @ zero_pad 2 (d_month d) @ ''/'' @ zero_pad 4 (d_year d)"

definition format_flight_time :: "string \<Rightarrow> string" where
  "format_flight_time value = map (\<lambda>c. if c = CHR '':'' then CHR ''h'' else c) (strip value)"

definition format_flight_number :: "string \<Rightarrow> string" where
  "format_flight_number value =
     (let normalized = str_upper (strip value);
          letters = takeWhile is_upper normalized;
          rest = dropWhile is_space (dropWhile is_upper normalized);
          digits = takeWhile is_digit rest;
          suffix = dropWhile is_digit rest
      in if letters \<noteq> [] \<and> digits \<noteq> [] \<and> (suffix = [] \<or> length suffix = 1 \<and> is_upper (hd suffix))
         then letters @ '' '' @ digits @ suffix
         else normalized)"

record date_option =
  dt_value :: date
  dt_label :: string
  dt_tone :: tone
  dt_selected :: bool

record flight_option =
  fo_value :: nat
  fo_label :: string
  fo_date_value :: date
  fo_date_label :: string
  fo_tone :: tone
  fo_reason :: "flight_reason option"
  fo_selected :: bool

record volunteer_option =
  vo_value :: nat
  vo_label :: string
  vo_tone :: tone
  vo_tones_by_flight :: "(nat \<times> tone) list"
  vo_reasons_by_flight :: "(nat \<times> volunteer_reason option) list"
  vo_selected :: bool

definition tone_priority :: "tone \<Rightarrow> nat" where
  "tone_priority t = (case t of Green \<Rightarrow> 3 | Orange \<Rightarrow> 2 | Red \<Rightarrow> 1 | No_Tone \<Rightarrow> 0)"

text \<open>The first flight of the highest priority (\<open>max\<close> with a key).\<close>

fun best_tone :: "flight_option list \<Rightarrow> tone" where
  "best_tone [] = No_Tone"
| "best_tone [x] = fo_tone x"
| "best_tone (x # y # xs) =
     (if tone_priority (fo_tone x) < tone_priority (fo_tone y) then best_tone (y # xs) else best_tone (x # xs))"

definition build_date_options :: "flight_option list \<Rightarrow> date option \<Rightarrow> date_option list" where
  "build_date_options flights selected_date =
     map (\<lambda>d. let on_date = filter (\<lambda>f. fo_date_value f = d) flights in
            \<lparr>dt_value = d, dt_label = fo_date_label (hd on_date), dt_tone = best_tone on_date,
             dt_selected = (Some d = selected_date)\<rparr>)
       (sort (remdups (map fo_date_value flights)))"

definition sorted_flights :: "op_context \<Rightarrow> payload_flight list" where
  "sorted_flights ctx = sort_key flight_sort_key (sp_flights (oc_payload ctx))"

definition middle_dot :: string where
  "middle_dot = [CHR 0x20, CHR 0xC2, CHR 0xB7, CHR 0x20]"

definition build_flight_options ::
    "op_context \<Rightarrow> payload_shipment \<Rightarrow> nat option \<Rightarrow> nat option \<Rightarrow> flight_option list" where
  "build_flight_options ctx shipment selected ignore =
     List.map_filter (\<lambda>flight.
       case flight_tone_for_shipment ctx shipment flight ignore of
         None \<Rightarrow> None
       | Some t \<Rightarrow> Some \<lparr>fo_value = pf_id flight,
           fo_label = format_flight_time (serialize_time (pf_departure_time flight)) @ middle_dot
             @ format_flight_number (pf_flight_number flight) @ middle_dot
             @ (if pf_routing flight = [] then ''-'' else pf_routing flight),
           fo_date_value = pf_departure_date flight,
           fo_date_label = format_flight_date (pf_departure_date flight), fo_tone = t,
           fo_reason = explain_flight_rejection ctx shipment flight ignore,
           fo_selected = (pf_id flight = (case selected of None \<Rightarrow> 0 | Some i \<Rightarrow> i))\<rparr>)
       (sorted_flights ctx)"

definition build_volunteer_options ::
    "op_context \<Rightarrow> payload_flight option \<Rightarrow> nat option \<Rightarrow> nat option \<Rightarrow> volunteer_option list" where
  "build_volunteer_options ctx selected_flight selected_volunteer ignore =
     sort_key (\<lambda>v. str_lower (vo_label v)) (map (\<lambda>volunteer.
       let tones = map (\<lambda>f. (pf_id f, volunteer_tone_for_flight ctx volunteer f ignore)) (sorted_flights ctx)
       in \<lparr>vo_value = pl_id volunteer, vo_label = pl_label volunteer,
           vo_tone = (case selected_flight of
               None \<Rightarrow> No_Tone
             | Some f \<Rightarrow> (case map_of tones (pf_id f) of None \<Rightarrow> No_Tone | Some t \<Rightarrow> t)),
           vo_tones_by_flight = tones,
           vo_reasons_by_flight =
             map (\<lambda>f. (pf_id f, explain_volunteer_rejection ctx volunteer f ignore)) (sorted_flights ctx),
           vo_selected = (pl_id volunteer = (case selected_volunteer of None \<Rightarrow> 0 | Some i \<Rightarrow> i))\<rparr>)
       (sp_volunteers (oc_payload ctx)))"

definition volunteer_selection_rank :: "tone \<Rightarrow> int" where
  "volunteer_selection_rank t = (case t of Green \<Rightarrow> 2 | No_Tone \<Rightarrow> 1 | _ \<Rightarrow> 0)"

definition pick_preferred_volunteer_id :: "op_context \<Rightarrow> payload_flight option \<Rightarrow> nat option \<Rightarrow> nat option" where
  "pick_preferred_volunteer_id ctx flight ignore =
     (case flight of
        None \<Rightarrow> None
      | Some f \<Rightarrow>
          (case sort_key (\<lambda>(rank, label, i). (- rank, label, i))
              (filter (\<lambda>(rank, _). 0 < rank)
                (map (\<lambda>v. (volunteer_selection_rank (volunteer_tone_for_flight ctx v f ignore),
                           str_lower (pl_label v), pl_id v)) (sp_volunteers (oc_payload ctx)))) of
             [] \<Rightarrow> None
           | (_, _, i) # _ \<Rightarrow> Some i))"

text \<open>The first option of a tone that has a volunteer.\<close>

fun first_with_volunteer ::
    "op_context \<Rightarrow> tone \<Rightarrow> flight_option list \<Rightarrow> (flight_option \<times> nat) option" where
  "first_with_volunteer ctx preferred [] = None"
| "first_with_volunteer ctx preferred (x # xs) =
     (if fo_tone x \<noteq> preferred then first_with_volunteer ctx preferred xs
      else case pick_preferred_volunteer_id ctx (find_flight ctx (fo_value x)) None of
        None \<Rightarrow> first_with_volunteer ctx preferred xs
      | Some v \<Rightarrow> Some (x, v))"

definition pick_preferred_unassigned_flight_option ::
    "op_context \<Rightarrow> flight_option list \<Rightarrow> flight_option option \<times> nat option" where
  "pick_preferred_unassigned_flight_option ctx flight_options =
     (let selectable = filter (\<lambda>x. fo_tone x \<in> {Green, Orange}) flight_options in
      case first_with_volunteer ctx Green selectable of
        Some (x, v) \<Rightarrow> (Some x, Some v)
      | None \<Rightarrow>
          (case first_with_volunteer ctx Orange selectable of
             Some (x, v) \<Rightarrow> (Some x, Some v)
           | None \<Rightarrow>
               if selectable \<noteq> [] then (Some (hd selectable), None)
               else if flight_options \<noteq> [] then (Some (hd flight_options), None)
               else (None, None)))"

record assignment_editor =
  ae_selected_date :: date
  ae_date_options :: "date_option list"
  ae_flight_options :: "flight_option list"
  ae_volunteer_options :: "volunteer_option list"

definition build_assignment_editor_options ::
    "op_context \<Rightarrow> nat \<times> assignment \<Rightarrow> err + assignment_editor" where
  "build_assignment_editor_options ctx row =
     (let (k, a) = row in
      res_bind (require (Option.bind (as_shipment a) (find_shipment ctx)) Does_Not_Exist) (\<lambda>shipment.
      res_bind (require (Option.bind (as_flight a) (find_flight ctx)) Does_Not_Exist) (\<lambda>selected_flight.
        let flight_options = build_flight_options ctx shipment (as_flight a) (Some k)
        in Inr \<lparr>ae_selected_date = pf_departure_date selected_flight,
                ae_date_options = build_date_options flight_options (Some (pf_departure_date selected_flight)),
                ae_flight_options = flight_options,
                ae_volunteer_options =
                  build_volunteer_options ctx (Some selected_flight) (as_volunteer a) (Some k)\<rparr>)))"

datatype blocking_reason =
  No_Blocking | Aucun_Vol | Seule_Contrainte flight_reason | Plusieurs_Contraintes | Aucun_Couple

definition summarize_unassigned_blocking_reason :: "flight_option list \<Rightarrow> bool \<Rightarrow> blocking_reason" where
  "summarize_unassigned_blocking_reason flight_options has_assignable_pair =
     (if has_assignable_pair then No_Blocking
      else if flight_options = [] then Aucun_Vol
      else let reasons = remdups (List.map_filter fo_reason (filter (\<lambda>x. fo_tone x = Red) flight_options))
        in case reasons of [] \<Rightarrow> Aucun_Couple | [r] \<Rightarrow> Seule_Contrainte r | _ \<Rightarrow> Plusieurs_Contraintes)"

record unassigned_editor =
  ue_flight_options :: "flight_option list"
  ue_selected_flight_id :: "nat option"
  ue_has_assignable_flight :: bool
  ue_has_assignable_pair :: bool
  ue_blocking_reason :: blocking_reason
  ue_volunteer_options :: "volunteer_option list"

definition build_unassigned_editor_options :: "op_context \<Rightarrow> nat \<Rightarrow> err + unassigned_editor" where
  "build_unassigned_editor_options ctx shipment_snapshot =
     res_bind (require (find_shipment ctx shipment_snapshot) Does_Not_Exist) (\<lambda>shipment.
       let flight_options = build_flight_options ctx shipment None None;
           (selected_option, selected_volunteer) = pick_preferred_unassigned_flight_option ctx flight_options;
           selected_flight = Option.bind selected_option (\<lambda>x. find_flight ctx (fo_value x));
           has_pair = (selected_volunteer \<noteq> None \<and> selected_flight \<noteq> None)
       in Inr \<lparr>ue_flight_options = flight_options,
               ue_selected_flight_id = map_option fo_value selected_option,
               ue_has_assignable_flight = list_ex (\<lambda>x. fo_tone x \<in> {Green, Orange}) flight_options,
               ue_has_assignable_pair = has_pair,
               ue_blocking_reason = summarize_unassigned_blocking_reason flight_options has_pair,
               ue_volunteer_options = build_volunteer_options ctx selected_flight selected_volunteer None\<rparr>)"

section \<open>Edits\<close>

definition ensure_draft :: "planning_version \<Rightarrow> err + unit" where
  "ensure_draft version = raise_if (pv_status version \<noteq> Pv_Draft) (Value_Error ''brouillon'')"

definition validate_manual_assignment ::
    "op_context \<Rightarrow> nat \<Rightarrow> nat \<Rightarrow> nat \<Rightarrow> nat option \<Rightarrow> err + unit" where
  "validate_manual_assignment ctx shipment volunteer flight ignore =
     (case (find_shipment ctx shipment, find_volunteer ctx volunteer, find_flight ctx flight) of
        (Some x, Some v, Some f) \<Rightarrow>
          res_bind (case explain_flight_rejection ctx x f ignore of
              None \<Rightarrow> Inr ()
            | Some Remaining_Capacity_Insufficient \<Rightarrow> Inl (Value_Error ''capacite restante'')
            | Some Flight_Capacity_Insufficient \<Rightarrow> Inl (Value_Error ''capacite requise'')
            | Some Weekday_Not_Allowed \<Rightarrow> Inl (Value_Error ''jour'')
            | Some Max_Cartons_Per_Flight \<Rightarrow> Inl (Value_Error ''limite de colis'')
            | Some Destination_Mismatch \<Rightarrow> Inl (Value_Error ''incompatible'')) (\<lambda>_.
            case explain_volunteer_rejection ctx v f ignore of
              Some Volunteer_Conflict \<Rightarrow> Inl (Value_Error ''marge 2h30'')
            | Some Volunteer_Unavailable \<Rightarrow> Inl (Value_Error ''indisponible'')
            | None \<Rightarrow> Inr ())
      | _ \<Rightarrow> Inl (Value_Error ''selection''))"

text \<open>
  The edits are given the keys of the version, the assignment and the snapshots the form selects. An
  assignment whose shipment snapshot was deleted has none, and reading its key raises.
\<close>

definition delete_assignment :: "nat \<Rightarrow> nat \<Rightarrow> plan_db \<Rightarrow> err + plan_db" where
  "delete_assignment v k p =
     res_bind (require (row_get (pd_versions p) v) Does_Not_Exist) (\<lambda>version.
     res_bind (ensure_draft version) (\<lambda>_.
     res_bind (require (row_get (pd_assignments p) k) Does_Not_Exist) (\<lambda>a.
     res_bind (raise_if (as_version a \<noteq> v) (Value_Error ''introuvable'')) (\<lambda>_.
       Inr (p\<lparr>pd_assignments := row_del k (pd_assignments p)\<rparr>)))))"

definition update_assignment :: "env \<Rightarrow> nat \<Rightarrow> nat \<Rightarrow> nat \<Rightarrow> nat \<Rightarrow> db \<Rightarrow> plan_db \<Rightarrow> err + plan_db" where
  "update_assignment e v k volunteer flight s p =
     res_bind (require (row_get (pd_versions p) v) Does_Not_Exist) (\<lambda>version.
     res_bind (ensure_draft version) (\<lambda>_.
     res_bind (require (row_get (pd_assignments p) k) Does_Not_Exist) (\<lambda>a.
     res_bind (raise_if (as_version a \<noteq> v) (Value_Error ''introuvable'')) (\<lambda>_.
     res_bind (require (as_shipment a) Attribute_Error) (\<lambda>shipment.
     res_bind (validate_manual_assignment (build_operator_option_context v version p s) shipment volunteer
         flight (Some k)) (\<lambda>_.
       Inr (p\<lparr>pd_assignments := row_upd k (\<lambda>r. r\<lparr>as_volunteer := Some volunteer, as_flight := Some flight,
              as_source := As_Manual, as_updated_at := e_now e\<rparr>) (pd_assignments p)\<rparr>)))))))"

text \<open>The sequence after the highest of the version.\<close>

definition next_sequence :: "nat \<Rightarrow> plan_db \<Rightarrow> nat" where
  "next_sequence v p = Suc (case rev (assignments_of v p) of [] \<Rightarrow> 0 | (_, a) # _ \<Rightarrow> as_sequence a)"

definition assign_unassigned_shipment ::
    "env \<Rightarrow> nat \<Rightarrow> nat \<Rightarrow> nat \<Rightarrow> nat \<Rightarrow> db \<Rightarrow> plan_db \<Rightarrow> err + plan_db" where
  "assign_unassigned_shipment e v shipment volunteer flight s p =
     res_bind (require (row_get (pd_versions p) v) Does_Not_Exist) (\<lambda>version.
     res_bind (ensure_draft version) (\<lambda>_.
     res_bind (require (row_get (pd_shipments p) shipment) Does_Not_Exist) (\<lambda>snapshot.
     res_bind (validate_manual_assignment (build_operator_option_context v version p s) shipment volunteer
         flight None) (\<lambda>_.
       Inr (p\<lparr>pd_assignments := row_ins
          \<lparr>as_version = v, as_shipment = Some shipment, as_volunteer = Some volunteer,
           as_flight = Some flight, as_carton_count = ss_carton_count snapshot, as_weight_kg = None,
           as_status = ''proposed'', as_source = As_Manual, as_notes = [],
           as_sequence = next_sequence v p, as_created_at = e_now e, as_updated_at = e_now e\<rparr>
          (pd_assignments p)\<rparr>)))))"

end
