(* ===== verification/Rule_Properties.thy ===== *)
theory Rule_Properties
  imports Plan_Rules "HOL-Library.List_Lexorder" "HOL-Library.Char_ord"
begin

text \<open>
  What the rules of the planning promise: the texts of times parse back, the compatible pairs are the
  ones the rules allow, the window of a mission and where it wraps around midnight.
\<close>

section \<open>Times of the payloads\<close>

lemma split_on_no_sep: "c \<notin> set xs \<Longrightarrow> split_on c xs = [xs]"
  by (induction xs) auto

lemma split_on_app: "c \<notin> set xs \<Longrightarrow> split_on c (xs @ c # ys) = xs # split_on c ys"
  by (induction xs) auto

lemma int_digits_zero_pad: "int_digits (zero_pad w n) = Some n"
proof -
  have d: "list_all is_digit (zero_pad w n)" using all_digits_zero_pad [of w n] by (simp add: all_digits_def)
  have ne: "zero_pad w n \<noteq> []" by (rule zero_pad_nonempty)
  have "is_digit (hd (zero_pad w n))" "is_digit (last (zero_pad w n))"
    using d ne by (simp_all add: list_all_iff)
  moreover have "successively (\<lambda>a b. \<not> (a = CHR ''_'' \<and> b = CHR ''_'')) xs" if "list_all is_digit xs" for xs
    using that
  proof (induction xs rule: induct_list012)
    case (3 x y zs)
    then show ?case by (auto simp: is_digit_def)
  qed simp_all
  moreover have "filter is_digit (zero_pad w n) = zero_pad w n"
    using d by (simp add: list_all_iff)
  ultimately show ?thesis
    using d ne by (auto simp: int_digits_def list_all_iff parse_zero_pad)
qed

lemma strip_digits: "list_all is_digit s \<Longrightarrow> strip s = s"
  by (rule strip_no_space) (auto simp: list_all_iff is_digit_def is_space_def)

lemma py_int_zero_pad: "py_int (zero_pad w n) = Some (int n)"
proof -
  have d: "list_all is_digit (zero_pad w n)" using all_digits_zero_pad [of w n] by (simp add: all_digits_def)
  obtain c t where ct: "zero_pad w n = c # t" using zero_pad_nonempty [of w n] by (cases "zero_pad w n") auto
  with d have "c \<noteq> CHR ''-''" "c \<noteq> CHR ''+''" by (auto simp: is_digit_def)
  with ct d int_digits_zero_pad [of w n] show ?thesis
    by (simp add: py_int_def strip_digits)
qed


text \<open>
  The texts of times that the snapshots store parse back to the times: the parser of the solver
  inverts \<open>_serialize_time\<close> on every time of day, and reads the empty text as no time.
\<close>

theorem serialized_time_parses_back:
  assumes "case t of None \<Rightarrow> True | Some m \<Rightarrow> m < 24 * 60"
  shows "parse_time_value (serialize_time t) = Inr t"
proof (cases t)
  case None
  then show ?thesis by (simp add: parse_time_value_def serialize_time_def)
next
  case (Some m)
  have digits: "list_all is_digit (zero_pad 2 n)" for n
    using all_digits_zero_pad [of 2 n] by (simp add: all_digits_def)
  have no_colon: "CHR '':'' \<notin> set (zero_pad 2 n)" for n
    using digits [of n] by (auto simp: list_all_iff is_digit_def)
  have shape: "serialize_time t = zero_pad 2 (m div 60) @ CHR '':'' # zero_pad 2 (m mod 60)"
    using Some by (simp add: serialize_time_def)
  have "strip (serialize_time t) = serialize_time t"
    unfolding shape using digits [of "m div 60"] digits [of "m mod 60"]
    by (intro strip_no_space) (auto simp: list_all_iff is_digit_def is_space_def)
  then have "split_on (CHR '':'') (strip (serialize_time t)) = [zero_pad 2 (m div 60), zero_pad 2 (m mod 60)]"
    by (simp add: shape split_on_app split_on_no_sep no_colon)
  moreover have "m div 60 < 24" "nat (int (m div 60)) * 60 + nat (int (m mod 60)) = m"
    using assms Some by auto
  ultimately show ?thesis
    using Some shape by (simp add: parse_time_value_def py_int_zero_pad)
qed

lemma serialized_time_parses_back_witness: "parse_time_value (serialize_time (Some 545)) = Inr (Some 545)"
  by (rule serialized_time_parses_back) simp

section \<open>Compatibility\<close>

lemma concat_option_mem: "x \<in> set (concat (map f xs)) \<longleftrightarrow> (\<exists>y \<in> set xs. x \<in> set (f y))"
  by auto

text \<open>
  The pairs computed for a shipment are exactly the flights and volunteers of the payload that
  suit it: the flight takes the shipment, the volunteer can carry its units and is available for the
  flight. They come with the earliest leg of the routes first.
\<close>

theorem compatibility_complete:
  assumes "x \<in> set (sp_shipments payload)" and "distinct (map ps_id (sp_shipments payload))"
  shows "\<exists>pairs. map_of (compute_compatibility payload) (ps_id x) = Some pairs
     \<and> set pairs = {(pf_id f, pl_id v) | f v. f \<in> set (sp_flights payload) \<and> v \<in> set (sp_volunteers payload)
          \<and> shipment_is_compatible_with_flight x f \<and> volunteer_is_compatible_with_flight v f
          \<and> ps_equivalent_units x \<le> volunteer_capacity v}
     \<and> sorted (map (pair_rank payload) pairs)"
proof -
  have "map_of (compute_compatibility payload) (ps_id x) = Some (sort_key (pair_rank payload) (compatible_pairs payload x))"
  proof (rule map_of_is_SomeI)
    show "distinct (map fst (compute_compatibility payload))"
      using assms(2) by (simp add: compute_compatibility_def comp_def)
    show "(ps_id x, sort_key (pair_rank payload) (compatible_pairs payload x)) \<in> set (compute_compatibility payload)"
      using assms(1) by (auto simp: compute_compatibility_def Let_def)
  qed
  moreover have "set (sort_key (pair_rank payload) (compatible_pairs payload x)) =
      {(pf_id f, pl_id v) | f v. f \<in> set (sp_flights payload) \<and> v \<in> set (sp_volunteers payload)
          \<and> shipment_is_compatible_with_flight x f \<and> volunteer_is_compatible_with_flight v f
          \<and> ps_equivalent_units x \<le> volunteer_capacity v}"
    by (auto simp: compatible_pairs_def not_less split: if_splits)
  ultimately show ?thesis by simp
qed


text \<open>A week with two flights to the same place, two volunteers and two shipments.\<close>

definition sample_flight :: "nat \<Rightarrow> string \<Rightarrow> nat \<Rightarrow> int \<Rightarrow> payload_flight" where
  "sample_flight i number departure capacity =
     \<lparr>pf_id = i, pf_flight_number = number, pf_departure_date = Date 26 3 4, pf_departure_time = Some departure,
      pf_origin_iata = ''CDG'', pf_destination_iata = ''ABJ'', pf_routing = ''CDG-ABJ'', pf_route_pos = 1,
      pf_physical_flight_key = build_physical_flight_key i number (Date 26 3 4) (Some departure),
      pf_capacity_units = Some capacity, pf_max_cartons_per_flight = None, pf_weekly_frequency = None,
      pf_allowed_weekdays = []\<rparr>"

definition sample_volunteer :: "nat \<Rightarrow> nat \<Rightarrow> nat \<Rightarrow> payload_volunteer" where
  "sample_volunteer i from until =
     \<lparr>pl_id = i, pl_label = ''V'', pl_max_colis_vol = None, pl_unavailable_dates = [],
      pl_slots = [\<lparr>sl_date = Date 26 3 4, sl_start_time = Some from, sl_end_time = Some until\<rparr>],
      pl_legacy_id = None\<rparr>"

definition sample_order :: "nat \<Rightarrow> int \<Rightarrow> payload_shipment" where
  "sample_order i units =
     \<lparr>ps_id = i, ps_reference = ''26000'' @ nat_str i, ps_shipper_name = ''A'', ps_destination_iata = ''ABJ'',
      ps_priority = 1, ps_priority_rank = 1, ps_carton_count = 2, ps_equivalent_units = units,
      ps_date_depart_mag = None, ps_date_impression = None, ps_date_conditionnement = None\<rparr>"

definition sample_payload :: solver_payload where
  "sample_payload = \<lparr>sp_run = 1, sp_shipments = [sample_order 1 10, sample_order 2 12],
     sp_volunteers = [sample_volunteer 1 360 720, sample_volunteer 2 600 1200],
     sp_flights = [sample_flight 1 ''AF 702'' 600 20, sample_flight 2 ''AF 704'' 1000 30], sp_rules = []\<rparr>"

lemma compatibility_complete_witness:
  "\<exists>pairs. map_of (compute_compatibility sample_payload) 1 = Some pairs \<and> set pairs = {(1, 1), (2, 2)}"
proof -
  have "sample_order 1 10 \<in> set (sp_shipments sample_payload)"
    and "distinct (map ps_id (sp_shipments sample_payload))"
    by (simp_all add: sample_payload_def sample_order_def)
  from compatibility_complete [OF this] have "map_of (compute_compatibility sample_payload) 1 \<noteq> None"
    by (auto simp: sample_order_def)
  moreover have "map_option set (map_of (compute_compatibility sample_payload) 1) = Some {(1, 1), (2, 2)}"
    by code_simp
  ultimately show ?thesis by auto
qed

text \<open>
  A volunteer who declared slots goes with a flight that leaves at three in the morning or later
  exactly when the day is not one of those they excluded and one slot of that day starts three hours
  before the departure at the latest and lasts until it.
\<close>

theorem volunteer_mission_window:
  assumes "pf_departure_time f = Some t" and "180 \<le> t" and "t < 1440" and "pl_slots v \<noteq> []"
  shows "volunteer_is_compatible_with_flight v f \<longleftrightarrow> pf_departure_date f \<notin> set (pl_unavailable_dates v)
     \<and> (\<exists>slot \<in> set (pl_slots v). sl_date slot = pf_departure_date f \<and>
          (\<exists>a b. sl_start_time slot = Some a \<and> sl_end_time slot = Some b \<and> a + 180 \<le> t \<and> t \<le> b))"
proof -
  have start: "required_start t = t - 180"
    using assms(2,3) by (simp add: required_start_def LEGACY_MISSION_LEAD_HOURS_def mod_if)
  have window: "(case (sl_start_time slot, sl_end_time slot) of
         (Some start_time, Some end_time) \<Rightarrow>
           (case pf_departure_time f of None \<Rightarrow> True | Some d \<Rightarrow> start_time \<le> required_start d \<and> d \<le> end_time)
       | _ \<Rightarrow> False)
     \<longleftrightarrow> (\<exists>a b. sl_start_time slot = Some a \<and> sl_end_time slot = Some b \<and> a + 180 \<le> t \<and> t \<le> b)" for slot
    using assms(1,2) by (auto simp: start split: option.splits)
  show ?thesis
    using assms(4) by (simp only: volunteer_is_compatible_with_flight_def list_ex_iff window) simp
qed

lemma volunteer_mission_window_witness:
  "volunteer_is_compatible_with_flight (sample_volunteer 1 360 720) (sample_flight 1 ''AF 702'' 600 20)"
proof -
  have "pf_departure_time (sample_flight 1 ''AF 702'' 600 20) = Some 600" and "pl_slots (sample_volunteer 1 360 720) \<noteq> []"
    by (simp_all add: sample_flight_def sample_volunteer_def)
  from volunteer_mission_window [OF this(1) _ _ this(2)] show ?thesis
    by (simp add: sample_flight_def sample_volunteer_def)
qed

text \<open>
  Before three in the morning the window wraps around midnight. A volunteer whose only slot is
  from nine to eleven in the evening is taken for a flight that left at one that morning.
\<close>

theorem mission_window_wraps:
  "volunteer_is_compatible_with_flight (sample_volunteer 1 (21 * 60) (23 * 60)) (sample_flight 1 ''AF 702'' 60 20)"
  by code_simp

end
