(* ===== verification/Edit_Properties.thy ===== *)
theory Edit_Properties
  imports Plan_Options Rule_Properties Samples
begin

text \<open>
  What the edits of a draft keep: no flight above its capacity, no volunteer with declared
  availabilities on two close departures. \<open>plan_feasible\<close> is the invariant, the locale \<open>kept\<close> carries it
  over sequences of edits; and the checks that the edits do not make.
\<close>

section \<open>Loads of flights\<close>

text \<open>The units an assignment puts on a flight of a version.\<close>

definition units_on :: "nat \<Rightarrow> nat \<Rightarrow> plan_db \<Rightarrow> assignment \<Rightarrow> int" where
  "units_on v flight p a =
     (if as_version a = v \<and> as_flight a = Some flight
      then (case as_shipment a of
              None \<Rightarrow> 0
            | Some i \<Rightarrow> (case row_get (pd_shipments p) i of None \<Rightarrow> 0 | Some x \<Rightarrow> ss_equivalent_units x))
      else 0)"

definition flight_load :: "nat \<Rightarrow> nat \<Rightarrow> plan_db \<Rightarrow> int" where
  "flight_load v flight p = row_sum (units_on v flight p) (pd_assignments p)"

lemma sum_list_insort: "sum_list (map f (insort_key k x xs)) = f x + (sum_list (map f xs) :: int)"
  by (induction xs) auto

lemma sum_list_sort_key: "sum_list (map f (sort_key k xs)) = (sum_list (map f xs) :: int)"
  by (induction xs) (simp_all add: sum_list_insort)

lemma fold_sum: "fold (\<lambda>x used. used + f x) xs n = n + (sum_list (map f xs) :: int)"
  by (induction xs arbitrary: n) auto

lemma sum_list_filter_if: "sum_list (map f (filter P xs)) = (sum_list (map (\<lambda>x. if P x then f x else 0) xs) :: int)"
  by (induction xs) auto

abbreviation op_ctx :: "nat \<Rightarrow> planning_version \<Rightarrow> plan_db \<Rightarrow> db \<Rightarrow> op_context" where
  "op_ctx \<equiv> build_operator_option_context"

lemma ctx_assignments: "oc_assignments (op_ctx v version p s) = assignments_of v p"
  by (simp add: build_operator_option_context_def)

lemma ctx_units: "as_version a = v \<Longrightarrow> as_flight a = Some i \<Longrightarrow>
    assignment_units (op_ctx v version p s) a = units_on v i p a"
  by (auto simp: assignment_units_def units_on_def build_operator_option_context_def split: option.splits)

lemma remaining_capacity_load:
  "remaining_capacity (op_ctx v version p s) f ignore = map_option (\<lambda>c. c - row_sum (units_on v (pf_id f) p)
     (case ignore of None \<Rightarrow> pd_assignments p | Some k \<Rightarrow> row_del k (pd_assignments p))) (pf_capacity_units f)"
proof -
  let ?u = "\<lambda>(i, a). if ignore = Some i then 0 else assignment_units (op_ctx v version p s) a"
  have "fold (\<lambda>(i, a) used. if ignore = Some i then used else used + assignment_units (op_ctx v version p s) a) xs 0
      = sum_list (map ?u xs)" for xs
    using fold_sum [of ?u xs 0] by (simp add: case_prod_unfold if_distrib cong: if_cong)
  moreover have "sum_list (map ?u (assignments_for_flight (op_ctx v version p s) (pf_id f)))
      = row_sum (units_on v (pf_id f) p)
          (case ignore of None \<Rightarrow> pd_assignments p | Some k \<Rightarrow> row_del k (pd_assignments p))"
  proof -
    have "sum_list (map ?u (assignments_for_flight (op_ctx v version p s) (pf_id f)))
        = sum_list (map (\<lambda>(i, a). if ignore = Some i then 0 else units_on v (pf_id f) p a) (pd_assignments p))"
      unfolding assignments_for_flight_def ctx_assignments assignments_of_def rows_where_def
        sum_list_filter_if sum_list_sort_key
      by (intro arg_cong [where f = sum_list] map_cong refl) (auto simp: ctx_units units_on_def [of _ "pf_id f"])
    also have "\<dots> = row_sum (units_on v (pf_id f) p)
          (case ignore of None \<Rightarrow> pd_assignments p | Some k \<Rightarrow> row_del k (pd_assignments p))"
      by (cases ignore) (auto simp: row_sum_def row_del_def sum_list_filter_if intro!: arg_cong [where f = sum_list])
    finally show ?thesis .
  qed
  ultimately show ?thesis
    by (cases "pf_capacity_units f") (simp_all add: remaining_capacity_def)
qed

section \<open>What the edits keep\<close>

definition flight_of :: "op_context \<Rightarrow> assignment \<Rightarrow> payload_flight option" where
  "flight_of ctx a = find_flight ctx (case as_flight a of None \<Rightarrow> 0 | Some j \<Rightarrow> j)"

definition clash :: "op_context \<Rightarrow> assignment \<Rightarrow> assignment \<Rightarrow> bool" where
  "clash ctx a b \<longleftrightarrow> (\<exists>w x f g. as_volunteer a = Some w \<and> as_volunteer b = Some w
     \<and> find_volunteer ctx w = Some x \<and> has_availability_info x
     \<and> flight_of ctx a = Some f \<and> flight_of ctx b = Some g \<and> close_departures f g)"

definition plan_feasible :: "nat \<Rightarrow> db \<Rightarrow> plan_db \<Rightarrow> bool" where
  "plan_feasible v s p \<longleftrightarrow> keys_ok (pd_assignments p) \<and> keys_ok (pd_shipments p)
     \<and> (\<forall>i x. row_get (pd_shipments p) i = Some x \<longrightarrow> 0 \<le> ss_equivalent_units x)
     \<and> (\<forall>version. row_get (pd_versions p) v = Some version \<longrightarrow>
          (\<forall>i f c. find_flight (op_ctx v version p s) i = Some f \<longrightarrow> pf_capacity_units f = Some c
             \<longrightarrow> flight_load v i p \<le> c)
        \<and> (\<forall>i j a b. row_get (pd_assignments p) i = Some a \<longrightarrow> row_get (pd_assignments p) j = Some b \<longrightarrow> i \<noteq> j
             \<longrightarrow> as_version a = v \<longrightarrow> as_version b = v \<longrightarrow> \<not> clash (op_ctx v version p s) a b))"

lemma close_departures_sym: "close_departures f g = close_departures g f"
  by (auto simp: close_departures_def split: option.splits)

lemma clash_sym: "clash ctx a b = clash ctx b a"
  unfolding clash_def using close_departures_sym by blast

lemma rule_map_same: "get_destination_rule_map run (p\<lparr>pd_assignments := t\<rparr>) = get_destination_rule_map run p"
  by (auto simp: get_destination_rule_map_def split: option.splits)

lemma payload_same: "compile_run_solver_payload run (p\<lparr>pd_assignments := t\<rparr>) s = compile_run_solver_payload run p s"
proof -
  have "pd_shipments (p\<lparr>pd_assignments := t\<rparr>) = pd_shipments p" "pd_volunteers (p\<lparr>pd_assignments := t\<rparr>) = pd_volunteers p"
    "pd_flights (p\<lparr>pd_assignments := t\<rparr>) = pd_flights p" by simp_all
  then show ?thesis
    unfolding compile_run_solver_payload_def destination_rules_by_iata_def rule_map_same
      ordered_shipments_def ordered_volunteers_def ordered_flights_def by (simp only:)
qed

lemma ctx_same:
  "find_flight (op_ctx v version (p\<lparr>pd_assignments := t\<rparr>) s) = find_flight (op_ctx v version p s)"
  "find_volunteer (op_ctx v version (p\<lparr>pd_assignments := t\<rparr>) s) = find_volunteer (op_ctx v version p s)"
  "clash (op_ctx v version (p\<lparr>pd_assignments := t\<rparr>) s) = clash (op_ctx v version p s)"
  by (auto simp: fun_eq_iff clash_def flight_of_def find_flight_def find_volunteer_def
      build_operator_option_context_def payload_same)

lemma units_on_same: "units_on v flight (p\<lparr>pd_assignments := t\<rparr>) = units_on v flight p"
  by (auto simp: units_on_def fun_eq_iff split: option.splits)

lemma units_on_nonneg:
  "plan_feasible v s p \<Longrightarrow> 0 \<le> units_on w flight p a"
  by (auto simp: plan_feasible_def units_on_def split: option.splits)

text \<open>
  A write of the assignments keeps the plan when no flight gets more than it can take and what is
  new clashes with nothing.
\<close>

lemma plan_feasible_write:
  assumes "plan_feasible v s p" and "keys_ok t"
    and "\<And>version i f c. row_get (pd_versions p) v = Some version \<Longrightarrow> find_flight (op_ctx v version p s) i = Some f
       \<Longrightarrow> pf_capacity_units f = Some c \<Longrightarrow> row_sum (units_on v i p) t \<le> c"
    and "\<And>version i j a b. row_get (pd_versions p) v = Some version \<Longrightarrow> row_get t i = Some a \<Longrightarrow> row_get t j = Some b
       \<Longrightarrow> i \<noteq> j \<Longrightarrow> as_version a = v \<Longrightarrow> as_version b = v \<Longrightarrow> \<not> clash (op_ctx v version p s) a b"
  shows "plan_feasible v s (p\<lparr>pd_assignments := t\<rparr>)"
  using assms unfolding plan_feasible_def flight_load_def
  by (simp add: ctx_same units_on_same)

lemma plan_feasibleD:
  assumes "plan_feasible v s p" and "row_get (pd_versions p) v = Some version"
  shows "find_flight (op_ctx v version p s) i = Some f \<Longrightarrow> pf_capacity_units f = Some c \<Longrightarrow> flight_load v i p \<le> c"
    and "row_get (pd_assignments p) i = Some a \<Longrightarrow> row_get (pd_assignments p) j = Some b \<Longrightarrow> i \<noteq> j
      \<Longrightarrow> as_version a = v \<Longrightarrow> as_version b = v \<Longrightarrow> \<not> clash (op_ctx v version p s) a b"
  using assms by (auto simp: plan_feasible_def)

lemma find_flight_id: "find_flight ctx i = Some f \<Longrightarrow> pf_id f = i"
  by (auto simp: find_flight_def find_Some_iff)

lemma find_volunteer_id: "find_volunteer ctx i = Some x \<Longrightarrow> pl_id x = i"
  by (auto simp: find_volunteer_def find_Some_iff)

lemma find_shipment_units:
  assumes "find_shipment (op_ctx v version p s) i = Some x" and "keys_ok (pd_shipments p)"
  shows "\<exists>y. row_get (pd_shipments p) i = Some y \<and> ps_equivalent_units x = ss_equivalent_units y"
proof -
  from assms(1) have "ps_id x = i" and "x \<in> set (sp_shipments (compile_run_solver_payload (pv_run version) p s))"
    by (auto simp: find_shipment_def find_Some_iff build_operator_option_context_def)
  then obtain y where "(i, y) \<in> set (pd_shipments p)" and "ps_equivalent_units x = ss_equivalent_units y"
    by (auto simp: compile_run_solver_payload_def Let_def payload_shipment_of_def ordered_shipments_def rows_where_mem)
  with assms(2) show ?thesis by (auto simp: row_get_iff)
qed


section \<open>The edits\<close>

lemma validate_manual_assignment_Inr:
  assumes "validate_manual_assignment ctx shipment volunteer flight ignore = Inr u"
  obtains x w f where "find_shipment ctx shipment = Some x" and "find_volunteer ctx volunteer = Some w"
    and "find_flight ctx flight = Some f" and "explain_flight_rejection ctx x f ignore = None"
    and "explain_volunteer_rejection ctx w f ignore = None"
proof -
  from assms obtain x w f where found: "find_shipment ctx shipment = Some x" "find_volunteer ctx volunteer = Some w"
    "find_flight ctx flight = Some f"
    by (auto simp: validate_manual_assignment_def split: option.splits)
  from assms found have "explain_flight_rejection ctx x f ignore = None"
    by (auto simp: validate_manual_assignment_def split: option.splits flight_reason.splits)
  moreover from this assms found have "explain_volunteer_rejection ctx w f ignore = None"
    by (auto simp: validate_manual_assignment_def split: option.splits volunteer_reason.splits)
  ultimately show thesis using found that by blast
qed

lemma accepted_capacity:
  assumes "explain_flight_rejection ctx x f ignore = None" and "remaining_capacity ctx f ignore = Some r"
  shows "ps_equivalent_units x \<le> r"
  using assms by (auto simp: explain_flight_rejection_def Let_def split: if_splits)

lemma accepted_no_conflict:
  assumes "explain_volunteer_rejection ctx w f ignore = None" and "has_availability_info w"
    and "(i, b) \<in> set (oc_assignments ctx)" and "ignore \<noteq> Some i" and "as_volunteer b = Some (pl_id w)"
    and "flight_of ctx b = Some g"
  shows "\<not> close_departures f g"
  using assms unfolding explain_volunteer_rejection_def volunteer_has_conflict_def flight_of_def
  by (fastforce simp: list_ex_iff split: if_splits option.splits)

text \<open>What the new content of an assignment brings when it has been validated.\<close>

lemma validated_new:
  assumes ok: "plan_feasible v s p" and ver: "row_get (pd_versions p) v = Some version"
    and valid: "validate_manual_assignment (op_ctx v version p s) shipment volunteer flight ignore = Inr u"
    and new: "as_version n = v" "as_shipment n = Some shipment" "as_volunteer n = Some volunteer" "as_flight n = Some flight"
  shows "find_flight (op_ctx v version p s) i = Some f \<Longrightarrow> pf_capacity_units f = Some c \<Longrightarrow>
      row_sum (units_on v i p) (case ignore of None \<Rightarrow> pd_assignments p | Some k \<Rightarrow> row_del k (pd_assignments p))
        + units_on v i p n \<le> c \<or> units_on v i p n = 0"
    and "row_get (pd_assignments p) j = Some b \<Longrightarrow> as_version b = v \<Longrightarrow> ignore \<noteq> Some j \<Longrightarrow>
      \<not> clash (op_ctx v version p s) n b"
proof -
  let ?ctx = "op_ctx v version p s"
  obtain x w g where x: "find_shipment ?ctx shipment = Some x" and w: "find_volunteer ?ctx volunteer = Some w"
    and g: "find_flight ?ctx flight = Some g" and fr: "explain_flight_rejection ?ctx x g ignore = None"
    and vr: "explain_volunteer_rejection ?ctx w g ignore = None"
    using valid by (rule validate_manual_assignment_Inr)
  have keys: "keys_ok (pd_shipments p)" "keys_ok (pd_assignments p)" using ok by (auto simp: plan_feasible_def)
  obtain y where y: "row_get (pd_shipments p) shipment = Some y" "ps_equivalent_units x = ss_equivalent_units y"
    using find_shipment_units [OF x keys(1)] by blast
  show "row_sum (units_on v i p) (case ignore of None \<Rightarrow> pd_assignments p | Some k \<Rightarrow> row_del k (pd_assignments p))
        + units_on v i p n \<le> c \<or> units_on v i p n = 0"
    if "find_flight ?ctx i = Some f" "pf_capacity_units f = Some c"
  proof (cases "i = flight")
    case True
    with that g have f: "f = g" "pf_id g = i" by (auto dest: find_flight_id)
    have "units_on v i p n = ss_equivalent_units y" using new True y(1) by (simp add: units_on_def)
    with accepted_capacity [OF fr, unfolded remaining_capacity_load] that(2) y(2) f show ?thesis
      by auto
  next
    case False
    with new show ?thesis by (simp add: units_on_def)
  qed
  show "\<not> clash ?ctx n b" if "row_get (pd_assignments p) j = Some b" "as_version b = v" "ignore \<noteq> Some j"
  proof
    assume "clash ?ctx n b"
    then obtain h where info: "has_availability_info w" and b: "as_volunteer b = Some volunteer"
      and h: "flight_of ?ctx b = Some h" and close: "close_departures g h"
      using new w g by (auto simp: clash_def flight_of_def)
    have "(j, b) \<in> set (oc_assignments ?ctx)"
      using that(1,2) keys(2) by (auto simp: build_operator_option_context_def assignments_of_def rows_where_mem row_get_iff)
    with accepted_no_conflict [OF vr info _ that(3) _ h] b find_volunteer_id [OF w] close show False by auto
  qed
qed

lemma row_sum_del_le:
  assumes "\<And>a. 0 \<le> u a" shows "row_sum u (row_del k t) \<le> row_sum u t"
  using assms by (induction t) (auto simp: row_del_def add_increasing)

lemma row_sum_upd_del:
  assumes "keys_ok t" and "row_get t k = Some r"
  shows "row_sum u (row_upd k g t) = row_sum u (row_del k t) + u (g r)"
  using row_sum_upd [OF assms, of u g] row_sum_del [OF assms, of u] by simp

lemma delete_assignment_feasible:
  assumes "delete_assignment v k p = Inr q" and ok: "plan_feasible v s p"
  shows "plan_feasible v s q"
proof -
  have q: "q = p\<lparr>pd_assignments := row_del k (pd_assignments p)\<rparr>"
    using assms(1) by (auto simp: delete_assignment_def wms_ok)
  show ?thesis unfolding q
  proof (rule plan_feasible_write [OF ok])
    show "keys_ok (row_del k (pd_assignments p))" using ok by (simp add: plan_feasible_def keys_ok_del)
  next
    fix version i f c
    assume "row_get (pd_versions p) v = Some version" "find_flight (op_ctx v version p s) i = Some f" "pf_capacity_units f = Some c"
    with plan_feasibleD(1) [OF ok this] row_sum_del_le [of "units_on v i p" k "pd_assignments p"] units_on_nonneg [OF ok]
    show "row_sum (units_on v i p) (row_del k (pd_assignments p)) \<le> c" by (simp add: flight_load_def)
  next
    fix version i j a b
    assume "row_get (pd_versions p) v = Some version" "row_get (row_del k (pd_assignments p)) i = Some a"
      "row_get (row_del k (pd_assignments p)) j = Some b" "i \<noteq> j" "as_version a = v" "as_version b = v"
    then show "\<not> clash (op_ctx v version p s) a b"
      using plan_feasibleD(2) [OF ok] by (auto simp: row_get_del split: if_splits)
  qed
qed

lemma update_assignment_Inr:
  assumes "update_assignment e v k volunteer flight s p = Inr q"
  obtains version a shipment u where "row_get (pd_versions p) v = Some version" and "pv_status version = Pv_Draft"
    and "row_get (pd_assignments p) k = Some a" and "as_version a = v" and "as_shipment a = Some shipment"
    and "validate_manual_assignment (op_ctx v version p s) shipment volunteer flight (Some k) = Inr u"
    and "q = p\<lparr>pd_assignments := row_upd k (\<lambda>r. r\<lparr>as_volunteer := Some volunteer, as_flight := Some flight,
              as_source := As_Manual, as_updated_at := e_now e\<rparr>) (pd_assignments p)\<rparr>"
  using assms by (auto simp: update_assignment_def ensure_draft_def wms_ok)

lemma update_assignment_feasible:
  assumes "update_assignment e v k volunteer flight s p = Inr q" and ok: "plan_feasible v s p"
  shows "plan_feasible v s q"
proof -
  let ?g = "\<lambda>r. r\<lparr>as_volunteer := Some volunteer, as_flight := Some flight, as_source := As_Manual,
     as_updated_at := e_now e\<rparr>"
  obtain version a shipment u where ver: "row_get (pd_versions p) v = Some version"
    and a: "row_get (pd_assignments p) k = Some a" "as_version a = v" "as_shipment a = Some shipment"
    and valid: "validate_manual_assignment (op_ctx v version p s) shipment volunteer flight (Some k) = Inr u"
    and q: "q = p\<lparr>pd_assignments := row_upd k ?g (pd_assignments p)\<rparr>"
    using assms(1) by (rule update_assignment_Inr)
  have keys: "keys_ok (pd_assignments p)" using ok by (simp add: plan_feasible_def)
  have n: "as_version (?g a) = v" "as_shipment (?g a) = Some shipment" "as_volunteer (?g a) = Some volunteer"
    "as_flight (?g a) = Some flight" using a by simp_all
  note new = validated_new [OF ok ver valid n]
  show ?thesis unfolding q
  proof (rule plan_feasible_write [OF ok])
    show "keys_ok (row_upd k ?g (pd_assignments p))" using keys by (rule keys_ok_upd)
  next
    fix version' i f c
    assume *: "row_get (pd_versions p) v = Some version'" "find_flight (op_ctx v version' p s) i = Some f" "pf_capacity_units f = Some c"
    with ver have "find_flight (op_ctx v version p s) i = Some f" by simp
    from new(1) [OF this *(3)] plan_feasibleD(1) [OF ok *] row_sum_del_le [of "units_on v i p" k "pd_assignments p"]
      units_on_nonneg [OF ok] row_sum_upd_del [OF keys a(1), of "units_on v i p" ?g]
    show "row_sum (units_on v i p) (row_upd k ?g (pd_assignments p)) \<le> c" by (auto simp: flight_load_def)
  next
    fix version' i j x y
    assume *: "row_get (pd_versions p) v = Some version'" "row_get (row_upd k ?g (pd_assignments p)) i = Some x"
      "row_get (row_upd k ?g (pd_assignments p)) j = Some y" "i \<noteq> j" "as_version x = v" "as_version y = v"
    consider "i = k" | "j = k" | "i \<noteq> k" "j \<noteq> k" by blast
    then show "\<not> clash (op_ctx v version' p s) x y"
    proof cases
      case 1
      with * a ver new(2) [of j y] show ?thesis by (auto simp: row_get_upd)
    next
      case 2
      with * a ver new(2) [of i x] show ?thesis by (auto simp: row_get_upd clash_sym)
    next
      case 3
      with * plan_feasibleD(2) [OF ok] show ?thesis by (simp add: row_get_upd)
    qed
  qed
qed

lemma assign_unassigned_Inr:
  assumes "assign_unassigned_shipment e v shipment volunteer flight s p = Inr q"
  obtains version n u where "row_get (pd_versions p) v = Some version"
    and "validate_manual_assignment (op_ctx v version p s) shipment volunteer flight None = Inr u"
    and "q = p\<lparr>pd_assignments := row_ins n (pd_assignments p)\<rparr>" and "as_version n = v"
    and "as_shipment n = Some shipment" and "as_volunteer n = Some volunteer" and "as_flight n = Some flight"
proof -
  from assms obtain version where ver: "row_get (pd_versions p) v = Some version"
    by (auto simp: assign_unassigned_shipment_def wms_ok)
  moreover from assms ver obtain snapshot where sn: "row_get (pd_shipments p) shipment = Some snapshot"
    by (auto simp: assign_unassigned_shipment_def wms_ok)
  moreover from assms ver sn obtain u where
    "validate_manual_assignment (op_ctx v version p s) shipment volunteer flight None = Inr u"
    by (auto simp: assign_unassigned_shipment_def wms_ok)
  moreover from assms ver sn obtain n where "q = p\<lparr>pd_assignments := row_ins n (pd_assignments p)\<rparr>"
    and "as_version n = v" "as_shipment n = Some shipment" "as_volunteer n = Some volunteer" "as_flight n = Some flight"
    by (auto simp: assign_unassigned_shipment_def wms_ok)
  ultimately show thesis using that by blast
qed

lemma assign_unassigned_feasible:
  assumes "assign_unassigned_shipment e v shipment volunteer flight s p = Inr q" and ok: "plan_feasible v s p"
  shows "plan_feasible v s q"
proof -
  obtain version n u where ver: "row_get (pd_versions p) v = Some version"
    and valid: "validate_manual_assignment (op_ctx v version p s) shipment volunteer flight None = Inr u"
    and q: "q = p\<lparr>pd_assignments := row_ins n (pd_assignments p)\<rparr>"
    and n: "as_version n = v" "as_shipment n = Some shipment" "as_volunteer n = Some volunteer" "as_flight n = Some flight"
    using assms(1) by (rule assign_unassigned_Inr)
  note new = validated_new [OF ok ver valid n]
  show ?thesis unfolding q
  proof (rule plan_feasible_write [OF ok])
    show "keys_ok (row_ins n (pd_assignments p))" using ok by (simp add: plan_feasible_def keys_ok_ins)
  next
    fix version' i f c
    assume *: "row_get (pd_versions p) v = Some version'" "find_flight (op_ctx v version' p s) i = Some f" "pf_capacity_units f = Some c"
    with ver have "find_flight (op_ctx v version p s) i = Some f" by simp
    from new(1) [OF this *(3)] plan_feasibleD(1) [OF ok *]
    show "row_sum (units_on v i p) (row_ins n (pd_assignments p)) \<le> c" by (auto simp: flight_load_def)
  next
    fix version' i j x y
    assume *: "row_get (pd_versions p) v = Some version'" "row_get (row_ins n (pd_assignments p)) i = Some x"
      "row_get (row_ins n (pd_assignments p)) j = Some y" "i \<noteq> j" "as_version x = v" "as_version y = v"
    consider "i = next_pk (pd_assignments p)" | "j = next_pk (pd_assignments p)"
      | "i \<noteq> next_pk (pd_assignments p)" "j \<noteq> next_pk (pd_assignments p)" by blast
    then show "\<not> clash (op_ctx v version' p s) x y"
    proof cases
      case 1
      with * ver new(2) [of j y] show ?thesis by (auto simp: row_get_ins)
    next
      case 2
      with * ver new(2) [of i x] show ?thesis by (auto simp: row_get_ins clash_sym)
    next
      case 3
      with * plan_feasibleD(2) [OF ok] show ?thesis by (simp add: row_get_ins)
    qed
  qed
qed

datatype plan_edit = Ed_Delete nat | Ed_Update nat nat nat | Ed_Assign nat nat nat

fun run_plan_edit :: "nat \<Rightarrow> db \<Rightarrow> env \<times> plan_edit \<Rightarrow> plan_db \<Rightarrow> err + plan_db" where
  "run_plan_edit v s (e, Ed_Delete k) p = delete_assignment v k p"
| "run_plan_edit v s (e, Ed_Update k volunteer flight) p = update_assignment e v k volunteer flight s p"
| "run_plan_edit v s (e, Ed_Assign shipment volunteer flight) p =
     assign_unassigned_shipment e v shipment volunteer flight s p"

definition attempt_plan_edit :: "nat \<Rightarrow> db \<Rightarrow> env \<times> plan_edit \<Rightarrow> plan_db \<Rightarrow> plan_db" where
  "attempt_plan_edit v s x p = ok_or p (run_plan_edit v s x p)"

interpretation edits: kept "run_plan_edit v s" "plan_feasible v s" for v s
proof
  fix x p q assume run: "run_plan_edit v s x p = Inr q" and ok: "plan_feasible v s p"
  obtain e c where x: "x = (e, c)" by (cases x)
  show "plan_feasible v s q"
    using run ok unfolding x
    by (cases c) (auto intro: delete_assignment_feasible update_assignment_feasible assign_unassigned_feasible)
qed

lemma attempt_plan_edit_feasible: "plan_feasible v s p \<Longrightarrow> plan_feasible v s (fold (attempt_plan_edit v s) edits p)"
proof -
  have "edits.attempt v s x q = attempt_plan_edit v s x q" for x q
    by (simp add: attempt_plan_edit_def edits.attempt_def)
  then have "fold (attempt_plan_edit v s) edits p = fold (edits.attempt v s) edits p"
    by (intro fold_cong) auto
  then show "plan_feasible v s p \<Longrightarrow> plan_feasible v s (fold (attempt_plan_edit v s) edits p)"
    by (metis edits.attempts_keep)
qed

text \<open>
  C22: operators cannot overload a flight or send an available volunteer to two departures at once.
  From a draft where every flight with a capacity carries at most that many units, and no volunteer
  who declared availabilities has two flights less than two and a half hours apart, any sequence of
  deletions, changes and additions of assignments, refused ones included, leads to such a draft.
\<close>

theorem operator_edits_keep_plan_feasible:
  assumes "plan_feasible v s p" and "q = fold (attempt_plan_edit v s) edits p"
    and "row_get (pd_versions q) v = Some version"
  shows "(find_flight (op_ctx v version q s) i = Some f \<longrightarrow> pf_capacity_units f = Some c \<longrightarrow> flight_load v i q \<le> c)
    \<and> (row_get (pd_assignments q) j = Some a \<longrightarrow> row_get (pd_assignments q) k = Some b \<longrightarrow> j \<noteq> k
        \<longrightarrow> as_version a = v \<longrightarrow> as_version b = v \<longrightarrow> \<not> clash (op_ctx v version q s) a b)"
  using plan_feasibleD [OF attempt_plan_edit_feasible [OF assms(1)], of edits version] assms(2,3) by blast

definition plan_sample_db :: db where
  "plan_sample_db = sample_db\<lparr>db_destinations := [(1, \<lparr>d_city = ''Abidjan'', d_iata_code = ''A'',
     d_country = ''CI'', d_correspondent_contact = 1, d_is_active = True\<rparr>)]\<rparr>"

definition plan_shipment :: "string \<Rightarrow> int \<Rightarrow> shipment_snapshot" where
  "plan_shipment reference units = \<lparr>ss_run = 1, ss_shipment = None, ss_reference = reference,
     ss_shipper_name = ''A'', ss_destination_iata = ''A'', ss_priority = 1, ss_carton_count = 2,
     ss_equivalent_units = units, ss_legacy_type_priority = None, ss_legacy_date_depart_mag = None,
     ss_legacy_date_impression = None, ss_legacy_date_conditionnement = None\<rparr>"

definition plan_flight :: "string \<Rightarrow> nat \<Rightarrow> flight_snapshot" where
  "plan_flight number departure = \<lparr>fs_run = 1, fs_flight = None, fs_flight_number = number,
     fs_departure_date = Date 26 3 4, fs_destination_iata = ''A'', fs_capacity_units = Some 20,
     fs_departure_time = Some departure, fs_routing = ''P-A'', fs_origin_iata = ''P'', fs_route_pos = None\<rparr>"

definition plan_volunteer :: "slot list \<Rightarrow> volunteer_snapshot" where
  "plan_volunteer slots = \<lparr>vs_run = 1, vs_volunteer = None, vs_label = ''V'', vs_max_colis_vol = None,
     vs_unavailable_dates = [], vs_slots = slots, vs_legacy_id = None\<rparr>"

definition draft_plan :: plan_db where
  "draft_plan = \<lparr>
     pd_runs = [(1, \<lparr>run_week_start = Date 26 3 2, run_week_end = Date 26 3 8,
       run_parameter_set = Some 1, run_status = Run_Solved, run_created_by = 1, run_updated_at = 0\<rparr>)],
     pd_rules = [(1, \<lparr>dr_parameter_set = 1, dr_destination = Some 1, dr_label = [], dr_weekly_frequency = None,
       dr_max_cartons_per_flight = Some 3, dr_allowed_weekdays = [''wed''], dr_priority = 0, dr_notes = [],
       dr_is_active = True\<rparr>)],
     pd_shipments = [(1, plan_shipment ''R1'' 8), (2, plan_shipment ''R2'' 10), (3, plan_shipment ''R3'' 15)],
     pd_volunteers = [(1, plan_volunteer [\<lparr>sl_date = Date 26 3 4, sl_start_time = Some 360, sl_end_time = Some 1200\<rparr>]),
       (2, plan_volunteer [])],
     pd_flights = [(1, plan_flight ''F1'' 600), (2, plan_flight ''F2'' 660)],
     pd_versions = [(1, \<lparr>pv_run = 1, pv_number = Some 1, pv_status = Pv_Draft, pv_based_on = None,
       pv_change_reason = [], pv_created_by = Some 1, pv_published_at = None, pv_created_at = 5,
       pv_updated_at = 5\<rparr>)],
     pd_assignments = []\<rparr>"

lemma plan_feasible_draft: "plan_feasible 1 s draft_plan"
proof -
  have "0 \<le> c" if found: "find_flight (op_ctx 1 version draft_plan s) i = Some f" and c: "pf_capacity_units f = Some c"
    for version i f c
  proof -
    from found have "f \<in> set (sp_flights (compile_run_solver_payload (pv_run version) draft_plan s))"
      by (auto simp: find_flight_def find_Some_iff build_operator_option_context_def)
    then obtain rules j x where "(j, x) \<in> set (pd_flights draft_plan)" and "f = payload_flight_of rules (j, x)"
      by (auto simp: compile_run_solver_payload_def Let_def ordered_flights_def rows_where_mem)
    with c show ?thesis by (auto simp: payload_flight_of_def Let_def draft_plan_def plan_flight_def)
  qed
  then show ?thesis
    by (auto simp: plan_feasible_def flight_load_def draft_plan_def plan_shipment_def keys_ok_def row_get_def
        split: if_splits)
qed

text \<open>The edits write nothing but the assignments.\<close>

lemma attempt_plan_edit_frame: "\<exists>t. attempt_plan_edit v s x p = p\<lparr>pd_assignments := t\<rparr>"
proof -
  have keep: "\<exists>t. p = p\<lparr>pd_assignments := t\<rparr>" by (rule exI [of _ "pd_assignments p"]) simp
  obtain e c where x: "x = (e, c)" by (cases x)
  have "\<exists>t. q = p\<lparr>pd_assignments := t\<rparr>" if "run_plan_edit v s x p = Inr q" for q
    using that unfolding x
  proof (cases c)
    case (Ed_Delete k)
    with that x show ?thesis by (auto simp: delete_assignment_def wms_ok)
  next
    case (Ed_Update k w f)
    with that x have "update_assignment e v k w f s p = Inr q" by simp
    then show ?thesis by (rule update_assignment_Inr) blast
  next
    case (Ed_Assign sh w f)
    with that x have "assign_unassigned_shipment e v sh w f s p = Inr q" by simp
    then show ?thesis by (rule assign_unassigned_Inr) blast
  qed
  with keep show ?thesis
    by (cases "run_plan_edit v s x p") (auto simp: attempt_plan_edit_def ok_or_def)
qed

lemma plan_edits_frame: "\<exists>t. fold (attempt_plan_edit v s) edits p = p\<lparr>pd_assignments := t\<rparr>"
proof (induction edits arbitrary: p)
  case Nil
  have "p = p\<lparr>pd_assignments := pd_assignments p\<rparr>" by simp
  then show ?case unfolding fold_Nil id_apply by blast
next
  case (Cons x edits)
  obtain t where "attempt_plan_edit v s x p = p\<lparr>pd_assignments := t\<rparr>" using attempt_plan_edit_frame by blast
  with Cons [of "p\<lparr>pd_assignments := t\<rparr>"] show ?case by simp
qed

text \<open>
  Volunteer 1 takes the first shipment on the flight at ten; a flight one hour later is refused for
  them, and so is a third shipment that the flight has no room for.
\<close>

definition draft_edits :: "(env \<times> plan_edit) list" where
  "draft_edits = [(sample_env, Ed_Assign 1 1 1), (sample_env, Ed_Assign 2 1 2), (sample_env, Ed_Assign 3 1 1)]"

definition edited_plan :: plan_db where
  "edited_plan = fold (attempt_plan_edit 1 plan_sample_db) draft_edits draft_plan"

lemma edited_plan_assignments:
  "map (\<lambda>(i, a). (i, as_version a, as_shipment a, as_volunteer a, as_flight a)) (pd_assignments edited_plan)
     = [(1, 1, Some 1, Some 1, Some 1)]"
  by code_simp

lemma operator_edits_keep_plan_feasible_witness:
  "\<exists>version f. row_get (pd_versions edited_plan) 1 = Some version
     \<and> find_flight (op_ctx 1 version edited_plan plan_sample_db) 1 = Some f
     \<and> pf_capacity_units f = Some 20 \<and> flight_load 1 1 edited_plan = 8 \<and> flight_load 1 1 edited_plan \<le> 20"
proof -
  obtain t where t: "edited_plan = draft_plan\<lparr>pd_assignments := t\<rparr>"
    unfolding edited_plan_def using plan_edits_frame by blast
  let ?version = "snd (hd (pd_versions draft_plan))"
  have ver: "row_get (pd_versions edited_plan) 1 = Some ?version"
    by (simp add: t draft_plan_def row_get_def)
  have "map_option pf_capacity_units (find_flight (op_ctx 1 ?version draft_plan plan_sample_db) 1) = Some (Some 20)"
    by code_simp
  then obtain f where f: "find_flight (op_ctx 1 ?version edited_plan plan_sample_db) 1 = Some f" "pf_capacity_units f = Some 20"
    unfolding t ctx_same by auto
  have "flight_load 1 1 edited_plan = 8"
    using edited_plan_assignments unfolding flight_load_def
    by (auto simp: map_eq_Cons_conv units_on_def t draft_plan_def plan_shipment_def row_get_def)
  with operator_edits_keep_plan_feasible [OF plan_feasible_draft edited_plan_def ver, of 1 f 20] f ver
  show ?thesis by auto
qed

text \<open>
  What the edits do not check. A volunteer without declared availabilities is sent to two flights
  an hour apart, the first shipment is put on both, and the flight at ten gets four cartons where the
  rule of the destination allows three; every one of these additions is accepted.
\<close>

theorem operator_edits_unchecked:
  "map (\<lambda>(_, a). (as_shipment a, as_volunteer a, as_flight a, as_carton_count a))
     (pd_assignments (fold (attempt_plan_edit 1 plan_sample_db)
       [(sample_env, Ed_Assign 1 2 1), (sample_env, Ed_Assign 1 2 2), (sample_env, Ed_Assign 2 2 1)] draft_plan))
   = [(Some 1, Some 2, Some 1, 2), (Some 1, Some 2, Some 2, 2), (Some 2, Some 2, Some 1, 2)]
   \<and> (case sp_flights (compile_run_solver_payload 1 draft_plan plan_sample_db) of
        [f, g] \<Rightarrow> pf_max_cartons_per_flight f = Some 3 \<and> close_departures f g
      | _ \<Rightarrow> False)"
  by (rule conjI) code_simp+

end
