(* ===== verification/Plan_Solver.thy ===== *)
theory Plan_Solver
  imports Plan_Rules "HOL-Library.List_Lexorder" "HOL-Library.Char_ord"
begin

text \<open>
  The solver of the planning (\<open>wms/planning/solver.py\<close>). The constraint model that is handed to the
  CP-SAT solver of OR-Tools is the predicate \<open>cp_constraints\<close> over the values of its variables; the
  solver itself is a parameter \<open>cp_solve\<close>, given the constraints and the objective to maximise. What
  the program does before and after it is translated: the ordering of pairs, the choice among equal
  shipments, the distribution of the shipments of a flight over its volunteers, the volunteer of a
  single shipment, the summary, and \<open>solve_run\<close>.
\<close>

section \<open>Dictionaries of lists and counters\<close>

text \<open>\<open>dict.fromkeys\<close> keeps the first occurrence; a sort with \<open>reverse=True\<close> keeps equal elements in order.\<close>

definition first_unique :: "'a list \<Rightarrow> 'a list" where
  "first_unique xs = rev (remdups (rev xs))"

definition sort_desc :: "('a \<Rightarrow> 'b::linorder) \<Rightarrow> 'a list \<Rightarrow> 'a list" where
  "sort_desc key xs = rev (sort_key key (rev xs))"

definition group_by :: "('a \<Rightarrow> 'k) \<Rightarrow> 'a list \<Rightarrow> ('k \<times> 'a list) list" where
  "group_by key xs =
     fold (\<lambda>x d. dict_put (key x) ((case map_of d (key x) of None \<Rightarrow> [] | Some ys \<Rightarrow> ys) @ [x]) d) xs []"

definition bump :: "'k \<Rightarrow> ('k \<times> nat) list \<Rightarrow> ('k \<times> nat) list" where
  "bump k d = dict_put k (Suc (case map_of d k of None \<Rightarrow> 0 | Some n \<Rightarrow> n)) d"

definition pairs_of :: "compatibility \<Rightarrow> nat \<Rightarrow> (nat \<times> nat) list" where
  "pairs_of c i = (case map_of c i of None \<Rightarrow> [] | Some ps \<Rightarrow> ps)"

definition shipment_by_id :: "solver_payload \<Rightarrow> nat \<Rightarrow> payload_shipment option" where
  "shipment_by_id payload i = find (\<lambda>x. ps_id x = i) (sp_shipments payload)"

definition flight_by_id :: "solver_payload \<Rightarrow> nat \<Rightarrow> payload_flight option" where
  "flight_by_id payload i = find (\<lambda>x. pf_id x = i) (sp_flights payload)"

definition volunteer_by_id :: "solver_payload \<Rightarrow> nat \<Rightarrow> payload_volunteer option" where
  "volunteer_by_id payload i = find (\<lambda>x. pl_id x = i) (sp_volunteers payload)"

text \<open>A selected assignment, or a candidate for one.\<close>

record plan_item =
  pi_shipment :: nat
  pi_flight :: nat
  pi_volunteer :: nat
  pi_carton_count :: int
  pi_equivalent_units :: int
  pi_priority :: int
  pi_priority_rank :: int
  pi_route_pos :: int
  pi_physical_flight_key :: string
  pi_reference :: string
  pi_departure_date :: date

section \<open>The summary of a result\<close>

datatype unassigned_reason = No_Selected_Candidate | No_Compatible_Candidate

record solver_summary =
  sm_solver :: string
  sm_candidate_count :: nat
  sm_assignment_count :: nat
  sm_unassigned :: "nat list"
  sm_unassigned_reasons :: "(nat \<times> unassigned_reason) list"
  sm_compatibility :: compatibility
  sm_assignment_count_by_flight :: "(nat \<times> nat) list"
  sm_flight_usage :: "(nat \<times> nat) list"
  sm_volunteer_usage :: "(nat \<times> nat) list"

definition summarize_solver_result ::
    "solver_payload \<Rightarrow> plan_item list \<Rightarrow> nat list \<Rightarrow> compatibility \<Rightarrow> string \<Rightarrow> solver_summary" where
  "summarize_solver_result payload assignments unassigned compatibility solver_name =
     \<lparr>sm_solver = solver_name,
      sm_candidate_count = sum_list (map (\<lambda>(_, pairs). length pairs) compatibility),
      sm_assignment_count = length assignments, sm_unassigned = unassigned,
      sm_unassigned_reasons =
        fold (\<lambda>i d. if i \<in> pi_shipment ` set assignments then d
               else dict_put i (if pairs_of compatibility i \<noteq> [] then No_Selected_Candidate
                                else No_Compatible_Candidate) d) unassigned [],
      sm_compatibility = compatibility,
      sm_assignment_count_by_flight = fold (\<lambda>item. bump (pi_flight item)) assignments [],
      sm_flight_usage = fold (\<lambda>item. bump (pi_flight item)) assignments
        (map (\<lambda>f. (pf_id f, 0)) (sp_flights payload)),
      sm_volunteer_usage = fold (\<lambda>item. bump (pi_volunteer item)) assignments
        (map (\<lambda>v. (pl_id v, 0)) (sp_volunteers payload))\<rparr>"

section \<open>Weights and keys\<close>

definition rank_or_priority :: "int \<Rightarrow> int \<Rightarrow> int" where
  "rank_or_priority rank priority = (if rank \<noteq> 0 then rank else priority)"

definition candidate_score :: "plan_item \<Rightarrow> int" where
  "candidate_score candidate =
     (let legacy_priority_bonus = max 0 (10 - rank_or_priority (pi_priority_rank candidate) (pi_priority candidate));
          weighted_priority = pi_equivalent_units candidate * legacy_priority_bonus
      in weighted_priority * 1000000000 + pi_equivalent_units candidate * 1000 + pi_carton_count candidate)"

definition iso_date_ordinal :: "date option \<Rightarrow> int" where
  "iso_date_ordinal d = (case d of None \<Rightarrow> -1 | Some x \<Rightarrow> toordinal x)"

text \<open>The departure in minutes, midnight when the time is not known.\<close>

definition flight_datetime_key :: "payload_flight \<Rightarrow> int" where
  "flight_datetime_key f = toordinal (pf_departure_date f) * 1440
     + (case pf_departure_time f of None \<Rightarrow> 0 | Some t \<Rightarrow> int t)"

definition shipment_weight :: "payload_shipment \<Rightarrow> int" where
  "shipment_weight x =
     ps_equivalent_units x * max 0 (10 - rank_or_priority (ps_priority_rank x) (ps_priority x))"

definition volunteer_availability_minutes :: "payload_volunteer \<Rightarrow> int" where
  "volunteer_availability_minutes v =
     fold (\<lambda>slot total.
       case (sl_start_time slot, sl_end_time slot) of
         (Some a, Some b) \<Rightarrow> if 0 < int b - int a then total + (int b - int a) else total
       | _ \<Rightarrow> total) (pl_slots v) 0"

definition shipment_reference_sort_key :: "payload_shipment \<Rightarrow> nat \<times> int \<times> string" where
  "shipment_reference_sort_key x =
     (let reference = strip (ps_reference x)
      in case py_int reference of Some n \<Rightarrow> (0, n, reference) | None \<Rightarrow> (1, 0, reference))"

definition shipment_has_legacy_tie_break_metadata :: "payload_shipment \<Rightarrow> bool" where
  "shipment_has_legacy_tie_break_metadata x \<longleftrightarrow>
     ps_date_depart_mag x \<noteq> None \<or> ps_date_impression x \<noteq> None \<or> ps_date_conditionnement x \<noteq> None"

definition shipment_legacy_tie_break_key :: "payload_shipment \<Rightarrow> nat \<times> int \<times> int \<times> int \<times> string" where
  "shipment_legacy_tie_break_key x =
     (if ps_date_depart_mag x \<noteq> None then 1 else 0, iso_date_ordinal (ps_date_impression x),
      iso_date_ordinal (ps_date_conditionnement x),
      - (case py_int (ps_reference x) of None \<Rightarrow> 10 ^ 9 | Some n \<Rightarrow> if n = 0 then 10 ^ 9 else n),
      ps_reference x)"

definition shipment_legacy_assignment_key ::
    "payload_shipment \<Rightarrow> int \<times> nat \<times> int \<times> int \<times> nat \<times> int \<times> string" where
  "shipment_legacy_assignment_key x =
     (ps_priority x, if ps_date_depart_mag x \<noteq> None then 0 else 1, iso_date_ordinal (ps_date_conditionnement x),
      iso_date_ordinal (ps_date_impression x), shipment_reference_sort_key x)"

definition volunteer_assignment_order_key :: "nat \<Rightarrow> payload_volunteer option \<Rightarrow> nat \<times> int \<times> string \<times> nat" where
  "volunteer_assignment_order_key i volunteer =
     (case volunteer of
        None \<Rightarrow> (1, 0, [], i)
      | Some v \<Rightarrow> (case pl_legacy_id v of
            Some n \<Rightarrow> (0, n, pl_label v, pl_id v) | None \<Rightarrow> (1, 0, pl_label v, pl_id v)))"

section \<open>The choice among equal shipments\<close>

fun complete_selection :: "nat \<Rightarrow> nat list \<Rightarrow> nat list \<Rightarrow> nat list" where
  "complete_selection count [] selected = selected"
| "complete_selection count (i # ranked) selected =
     (if i \<in> set selected then complete_selection count ranked selected
      else if count \<le> length (selected @ [i]) then selected @ [i]
      else complete_selection count ranked (selected @ [i]))"

definition select_legacy_preferred_shipment_ids ::
    "(nat \<Rightarrow> payload_shipment) \<Rightarrow> nat \<Rightarrow> nat list \<Rightarrow> nat list" where
  "select_legacy_preferred_shipment_ids shipment selected_count shipment_ids =
     (if selected_count = 0 then []
      else let key = (\<lambda>i. shipment_legacy_tie_break_key (shipment i));
               ranked = sort_desc key shipment_ids
        in if selected_count \<ge> length ranked then ranked
           else let groups = group_by (\<lambda>i. strip (ps_shipper_name (shipment i))) ranked
             in if length groups \<le> 1 then take selected_count ranked
                else let representatives = sort_desc key (map (\<lambda>(_, ids). hd ids) groups);
                         selected = take selected_count representatives
                  in if length selected \<ge> selected_count then selected
                     else complete_selection selected_count ranked selected)"

definition index_in :: "nat list \<Rightarrow> nat \<Rightarrow> nat" where
  "index_in ids i = (case find (\<lambda>(_, x). x = i) (zip [0..<length ids] ids) of
     None \<Rightarrow> 999999 | Some (n, _) \<Rightarrow> n)"

definition order_compatibility_pairs :: "solver_payload \<Rightarrow> compatibility \<Rightarrow> compatibility" where
  "order_compatibility_pairs payload compatibility =
     map (\<lambda>x. (ps_id x,
       sort_key (\<lambda>(f, v). (index_in (map pf_id (sp_flights payload)) f, index_in (map pl_id (sp_volunteers payload)) v))
         (first_unique (pairs_of compatibility (ps_id x))))) (sp_shipments payload)"

text \<open>What makes two shipments interchangeable.\<close>

definition equal_weight_key ::
    "compatibility \<Rightarrow> payload_shipment \<Rightarrow> string \<times> int \<times> int \<times> int \<times> (nat \<times> nat) list" where
  "equal_weight_key ordered x =
     (ps_destination_iata x, ps_equivalent_units x, ps_carton_count x,
      rank_or_priority (ps_priority_rank x) (ps_priority x), pairs_of ordered (ps_id x))"

definition give_slot :: "payload_shipment \<Rightarrow> plan_item \<Rightarrow> plan_item" where
  "give_slot x slot = slot\<lparr>pi_shipment := ps_id x, pi_carton_count := ps_carton_count x,
     pi_equivalent_units := ps_equivalent_units x, pi_priority := ps_priority x,
     pi_priority_rank := ps_priority_rank x, pi_reference := ps_reference x\<rparr>"

definition slot_order_key :: "(nat \<Rightarrow> payload_flight) \<Rightarrow> plan_item \<Rightarrow> int \<times> string \<times> nat" where
  "slot_order_key flight item = (flight_datetime_key (flight (pi_flight item)), pi_reference item, pi_shipment item)"

text \<open>
  One group of interchangeable shipments: \<open>items\<close> are the assignments by the shipment they were
  selected for, and those of the group are given, in order of departure, to the preferred shipments.
\<close>

definition canonicalize_group ::
    "(nat \<Rightarrow> payload_shipment) \<Rightarrow> (nat \<Rightarrow> payload_flight) \<Rightarrow> nat list \<Rightarrow> (nat \<times> plan_item) list
       \<Rightarrow> (nat \<times> plan_item) list" where
  "canonicalize_group shipment flight ids items =
     (let selected = List.map_filter (\<lambda>i. map_option (Pair i) (map_of items i)) ids in
      if selected = [] \<or> length selected = length ids then items
      else if \<not> list_ex (\<lambda>i. shipment_has_legacy_tie_break_metadata (shipment i)) ids then items
      else let preferred = sort_key shipment_legacy_assignment_key
                 (map shipment (select_legacy_preferred_shipment_ids shipment (length selected) ids));
               slots = sort_key (\<lambda>(_, item). slot_order_key flight item) selected;
               given = map (\<lambda>((i, item), x). (i, give_slot x item)) (zip slots preferred)
        in map (\<lambda>(i, item). (i, case map_of given i of None \<Rightarrow> item | Some item' \<Rightarrow> item')) items)"

definition canonicalize_legacy_equal_weight_assignments ::
    "solver_payload \<Rightarrow> compatibility \<Rightarrow> plan_item list \<Rightarrow> plan_item list" where
  "canonicalize_legacy_equal_weight_assignments payload compatibility assignments =
     (if assignments = [] then assignments
      else let ordered = order_compatibility_pairs payload compatibility;
               items = fold (\<lambda>a. dict_put (pi_shipment a) a) assignments [];
               groups = group_by (equal_weight_key ordered) (sp_shipments payload)
        in map snd (fold (\<lambda>(_, xs). canonicalize_group (\<lambda>i. the (shipment_by_id payload i))
                 (\<lambda>i. the (flight_by_id payload i)) (map ps_id xs)) groups items))"

section \<open>The distribution over the volunteers of a flight\<close>

fun first_some :: "('a \<Rightarrow> 'b option) \<Rightarrow> 'a list \<Rightarrow> 'b option" where
  "first_some f [] = None"
| "first_some f (x # xs) = (case f x of None \<Rightarrow> first_some f xs | Some y \<Rightarrow> Some y)"

fun solve_lexicographic_flight_distribution :: "int list \<Rightarrow> int list \<Rightarrow> nat list option" where
  "solve_lexicographic_flight_distribution [] capacities = Some []"
| "solve_lexicographic_flight_distribution (w # ws) capacities =
     first_some (\<lambda>i. if capacities ! i < w then None
        else map_option (Cons i)
               (solve_lexicographic_flight_distribution ws (capacities[i := capacities ! i - w])))
       [0..<length capacities]"

text \<open>The slot of the day of the flight that ends last, as its two times.\<close>

definition volunteer_slot_bounds_for_flight :: "payload_volunteer \<Rightarrow> payload_flight \<Rightarrow> (nat \<times> nat) option" where
  "volunteer_slot_bounds_for_flight v f =
     fold (\<lambda>slot best.
       if sl_date slot \<noteq> pf_departure_date f then best
       else case (sl_start_time slot, sl_end_time slot) of
         (Some a, Some b) \<Rightarrow>
           if b \<le> a then best
           else (case best of None \<Rightarrow> Some (a, b) | Some (_, b0) \<Rightarrow> if b0 < b then Some (a, b) else best)
       | _ \<Rightarrow> best) (pl_slots v) None"

definition LEGACY_MIN_HOURS_BETWEEN_FLIGHTS :: int where
  "LEGACY_MIN_HOURS_BETWEEN_FLIGHTS = 3"

definition physical_key_or_id :: "payload_flight \<Rightarrow> string" where
  "physical_key_or_id f = (if pf_physical_flight_key f = [] then nat_str (pf_id f) else pf_physical_flight_key f)"

definition close_in_time :: "payload_flight \<Rightarrow> payload_flight \<Rightarrow> bool" where
  "close_in_time f g \<longleftrightarrow>
     \<bar>flight_datetime_key g - flight_datetime_key f\<bar> < LEGACY_MIN_HOURS_BETWEEN_FLIGHTS * 60"

definition flights_conflict :: "(nat \<Rightarrow> payload_flight) \<Rightarrow> nat \<Rightarrow> nat \<Rightarrow> bool" where
  "flights_conflict flight f g \<longleftrightarrow>
     physical_key_or_id (flight f) = physical_key_or_id (flight g) \<and> f \<noteq> g \<or> close_in_time (flight f) (flight g)"

text \<open>The assignment left out is the one at position \<open>n\<close> of the list.\<close>

definition assignment_conflicts_for_volunteer ::
    "(nat \<Rightarrow> payload_flight) \<Rightarrow> nat \<Rightarrow> nat \<Rightarrow> plan_item list \<Rightarrow> nat \<Rightarrow> bool" where
  "assignment_conflicts_for_volunteer flight volunteer f assignments n =
     list_ex (\<lambda>(i, a). i \<noteq> n \<and> pi_volunteer a = volunteer \<and> flights_conflict flight f (pi_flight a))
       (zip [0..<length assignments] assignments)"

definition volunteer_choice_key ::
    "payload_volunteer \<Rightarrow> nat \<times> nat \<Rightarrow> nat \<times> nat \<times> (int \<times> int \<times> int) \<times> nat" where
  "volunteer_choice_key v bounds =
     (snd bounds, snd bounds - fst bounds,
      case pl_legacy_id v of
        Some n \<Rightarrow> (0, - n, - int (pl_id v)) | None \<Rightarrow> (-1, - int (pl_id v), 0),
      pl_id v)"

definition select_single_shipment_volunteer ::
    "solver_payload \<Rightarrow> compatibility \<Rightarrow> plan_item list \<Rightarrow> nat \<Rightarrow> nat" where
  "select_single_shipment_volunteer payload compatibility assignments n =
     (let a = assignments ! n;
          flight = (\<lambda>i. the (flight_by_id payload i));
          compatible = first_unique [v. (f, v) \<leftarrow> pairs_of compatibility (pi_shipment a), f = pi_flight a];
          choices = List.map_filter (\<lambda>i.
            case volunteer_by_id payload i of
              None \<Rightarrow> None
            | Some v \<Rightarrow>
                if pi_equivalent_units a > volunteer_capacity v then None
                else if assignment_conflicts_for_volunteer flight i (pi_flight a) assignments n then None
                else map_option (volunteer_choice_key v) (volunteer_slot_bounds_for_flight v (flight (pi_flight a))))
            compatible;
          best = fold (\<lambda>choice best. case best of None \<Rightarrow> Some choice
             | Some b \<Rightarrow> if b < choice then Some choice else best) choices None
      in case best of None \<Rightarrow> pi_volunteer a | Some (_, _, _, i) \<Rightarrow> i)"

definition capacity_of :: "solver_payload \<Rightarrow> nat \<Rightarrow> int" where
  "capacity_of payload i = (case volunteer_by_id payload i of
     None \<Rightarrow> LEGACY_EQUIV_CAPACITY_PER_VOLUNTEER | Some v \<Rightarrow> volunteer_capacity v)"

text \<open>The assignments of a flight that has several.\<close>

definition rebalance_flight :: "solver_payload \<Rightarrow> plan_item list \<Rightarrow> plan_item list" where
  "rebalance_flight payload items =
     (let ordered = sort_key (\<lambda>a. (pi_reference a, pi_shipment a)) items;
          volunteer_ids = sort_key (\<lambda>i. volunteer_assignment_order_key i (volunteer_by_id payload i))
            (remdups (map pi_volunteer ordered))
      in if length volunteer_ids \<le> 1 then ordered
         else case solve_lexicographic_flight_distribution (map pi_equivalent_units ordered)
             (map (capacity_of payload) volunteer_ids) of
           None \<Rightarrow> ordered
         | Some distribution \<Rightarrow>
             map (\<lambda>(a, i). a\<lparr>pi_volunteer := volunteer_ids ! i\<rparr>) (zip ordered distribution))"

definition reassign_single :: "solver_payload \<Rightarrow> compatibility \<Rightarrow> nat \<Rightarrow> plan_item list \<Rightarrow> plan_item list" where
  "reassign_single payload compatibility n items =
     items[n := (items ! n)\<lparr>pi_volunteer := select_single_shipment_volunteer payload compatibility items n\<rparr>]"

definition rebalance_assignments_by_flight ::
    "solver_payload \<Rightarrow> compatibility \<Rightarrow> plan_item list \<Rightarrow> plan_item list" where
  "rebalance_assignments_by_flight payload compatibility assignments =
     (if assignments = [] then assignments
      else let groups = map snd (group_by pi_flight assignments);
               rebalanced = concat (map (rebalance_flight payload) (filter (\<lambda>g. length g \<noteq> 1) groups));
               singles = sort_key (\<lambda>a. (flight_datetime_key (the (flight_by_id payload (pi_flight a))), pi_reference a))
                 (concat (filter (\<lambda>g. length g = 1) groups))
        in fold (reassign_single payload compatibility) [length rebalanced..<length rebalanced + length singles]
             (rebalanced @ singles))"

section \<open>Candidates\<close>

definition plan_item_of :: "payload_shipment \<Rightarrow> payload_flight \<Rightarrow> nat \<Rightarrow> plan_item" where
  "plan_item_of x f volunteer =
     \<lparr>pi_shipment = ps_id x, pi_flight = pf_id f, pi_volunteer = volunteer, pi_carton_count = ps_carton_count x,
      pi_equivalent_units = ps_equivalent_units x, pi_priority = ps_priority x,
      pi_priority_rank = ps_priority_rank x, pi_route_pos = route_pos_or_one (pf_route_pos f),
      pi_physical_flight_key = physical_key_or_id f, pi_reference = ps_reference x,
      pi_departure_date = pf_departure_date f\<rparr>"

definition build_candidates :: "solver_payload \<Rightarrow> compatibility \<Rightarrow> plan_item list" where
  "build_candidates payload compatibility =
     (let candidates = [plan_item_of (the (shipment_by_id payload i)) (the (flight_by_id payload f)) v.
            (i, pairs) \<leftarrow> compatibility, (f, v) \<leftarrow> pairs]
      in concat (map (\<lambda>(key, items).
           if key = [] then items
           else filter (\<lambda>a. route_pos_or_one (pi_route_pos a)
                  = Min (set (map (\<lambda>a. route_pos_or_one (pi_route_pos a)) items))) items)
         (group_by pi_physical_flight_key candidates)))"

end
