(* ===== verification/Plan_Cp_Model.thy ===== *)
theory Plan_Cp_Model
  imports Plan_Solver Plan_Versions
begin

text \<open>
  The constraint model of \<open>_solve_candidates\<close> and the run of the solver over it. A \<open>cp_solution\<close> gives
  the values of the variables that \<open>_solve_candidates\<close> declares; \<open>cp_constraints\<close> states the
  constraints it adds, in their order, over the same keys. \<open>cp_solve constraints objective\<close> stands for
  \<open>Maximize\<close> and \<open>Solve\<close> of OR-Tools: the values found, or none when the status is neither optimal
  nor feasible.
\<close>

section \<open>Variables\<close>

record cp_solution =
  cs_x :: "nat \<times> nat \<Rightarrow> bool"
  cs_y :: "nat \<times> nat \<Rightarrow> bool"
  cs_z :: "nat \<times> nat \<times> nat \<Rightarrow> bool"
  cs_used :: "nat \<Rightarrow> bool"
  cs_nb_be :: "nat \<Rightarrow> int"
  cs_charge :: "nat \<Rightarrow> int"
  cs_missions :: "nat \<Rightarrow> int"
  cs_excess :: "nat \<Rightarrow> int"

definition b2i :: "bool \<Rightarrow> int" where
  "b2i b = (if b then 1 else 0)"

definition sum_over :: "'a list \<Rightarrow> ('a \<Rightarrow> int) \<Rightarrow> int" where
  "sum_over xs f = sum_list (map f xs)"

definition LEGACY_MAX_BE_PER_FLIGHT :: int where
  "LEGACY_MAX_BE_PER_FLIGHT = 5"

text \<open>The keys of the variables, from the ordered pairs.\<close>

definition shipment_flights :: "compatibility \<Rightarrow> nat \<Rightarrow> nat list" where
  "shipment_flights ordered s = first_unique (map fst (pairs_of ordered s))"

definition volunteers_by_shipment_flight :: "compatibility \<Rightarrow> nat \<Rightarrow> nat \<Rightarrow> nat list" where
  "volunteers_by_shipment_flight ordered s f = first_unique [v. (g, v) \<leftarrow> pairs_of ordered s, g = f]"

definition volunteer_flights :: "solver_payload \<Rightarrow> compatibility \<Rightarrow> nat \<Rightarrow> nat list" where
  "volunteer_flights payload ordered v =
     first_unique [f. x \<leftarrow> sp_shipments payload, (f, w) \<leftarrow> pairs_of ordered (ps_id x), w = v]"

definition x_keys :: "solver_payload \<Rightarrow> compatibility \<Rightarrow> (nat \<times> nat) list" where
  "x_keys payload ordered = [(ps_id x, f). x \<leftarrow> sp_shipments payload, f \<leftarrow> shipment_flights ordered (ps_id x)]"

definition y_keys :: "solver_payload \<Rightarrow> compatibility \<Rightarrow> (nat \<times> nat) list" where
  "y_keys payload ordered = [(pl_id v, f). v \<leftarrow> sp_volunteers payload, f \<leftarrow> volunteer_flights payload ordered (pl_id v)]"

definition z_keys :: "solver_payload \<Rightarrow> compatibility \<Rightarrow> (nat \<times> nat \<times> nat) list" where
  "z_keys payload ordered = [(ps_id x, v, f). x \<leftarrow> sp_shipments payload, f \<leftarrow> shipment_flights ordered (ps_id x),
     v \<leftarrow> volunteers_by_shipment_flight ordered (ps_id x) f]"

definition x_on_flight :: "solver_payload \<Rightarrow> compatibility \<Rightarrow> nat \<Rightarrow> nat list" where
  "x_on_flight payload ordered f = [s. (s, g) \<leftarrow> x_keys payload ordered, g = f]"

definition y_on_flight :: "solver_payload \<Rightarrow> compatibility \<Rightarrow> nat \<Rightarrow> nat list" where
  "y_on_flight payload ordered f = [v. (v, g) \<leftarrow> y_keys payload ordered, g = f]"

section \<open>Constraints\<close>

definition units_by_id :: "solver_payload \<Rightarrow> nat \<Rightarrow> int" where
  "units_by_id payload s = ps_equivalent_units (the (shipment_by_id payload s))"

definition at_most :: "int \<Rightarrow> int option \<Rightarrow> bool" where
  "at_most n bound = (case bound of None \<Rightarrow> True | Some m \<Rightarrow> n \<le> m)"

definition cp_shipment_once :: "solver_payload \<Rightarrow> compatibility \<Rightarrow> cp_solution \<Rightarrow> bool" where
  "cp_shipment_once payload ordered z =
     list_all (\<lambda>x. sum_over (shipment_flights ordered (ps_id x)) (\<lambda>f. b2i (cs_x z (ps_id x, f))) \<le> 1)
       (sp_shipments payload)"

definition cp_flight :: "solver_payload \<Rightarrow> compatibility \<Rightarrow> cp_solution \<Rightarrow> payload_flight \<Rightarrow> bool" where
  "cp_flight payload ordered z flight =
     (let f = pf_id flight;
          on_flight = x_on_flight payload ordered f;
          shipment_sum = sum_over on_flight (\<lambda>s. b2i (cs_x z (s, f)));
          volunteers = y_on_flight payload ordered f;
          volunteer_sum = sum_over volunteers (\<lambda>v. b2i (cs_y z (v, f)))
      in 0 \<le> cs_nb_be z f \<and> cs_nb_be z f \<le> LEGACY_MAX_BE_PER_FLIGHT \<and> 0 \<le> cs_charge z f \<and> cs_charge z f \<le> 10000
       \<and> (if on_flight \<noteq> []
          then cs_nb_be z f = shipment_sum
             \<and> (if cs_used z f then 1 \<le> shipment_sum else shipment_sum = 0)
             \<and> cs_nb_be z f \<le> LEGACY_MAX_BE_PER_FLIGHT
             \<and> cs_charge z f = sum_over on_flight (\<lambda>s. units_by_id payload s * b2i (cs_x z (s, f)))
             \<and> at_most (cs_charge z f) (pf_capacity_units flight)
             \<and> at_most (sum_over on_flight (\<lambda>s. ps_carton_count (the (shipment_by_id payload s)) * b2i (cs_x z (s, f))))
                 (pf_max_cartons_per_flight flight)
             \<and> list_all (\<lambda>s. b2i (cs_x z (s, f)) \<le> b2i (cs_used z f)) on_flight
          else \<not> cs_used z f \<and> cs_nb_be z f = 0 \<and> cs_charge z f = 0)
       \<and> (if volunteers \<noteq> [] then (if cs_used z f then 1 \<le> volunteer_sum else volunteer_sum = 0)
          else \<not> cs_used z f))"

definition cp_x_z :: "solver_payload \<Rightarrow> compatibility \<Rightarrow> cp_solution \<Rightarrow> bool" where
  "cp_x_z payload ordered z =
     list_all (\<lambda>(s, f). let vs = volunteers_by_shipment_flight ordered s f in
         if vs \<noteq> [] then sum_over vs (\<lambda>v. b2i (cs_z z (s, v, f))) = b2i (cs_x z (s, f)) else \<not> cs_x z (s, f))
       (x_keys payload ordered)"

definition shipments_of_pair :: "solver_payload \<Rightarrow> compatibility \<Rightarrow> nat \<Rightarrow> nat \<Rightarrow> nat list" where
  "shipments_of_pair payload ordered v f = [s. (s, w, g) \<leftarrow> z_keys payload ordered, w = v \<and> g = f]"

definition cp_y_z :: "solver_payload \<Rightarrow> compatibility \<Rightarrow> cp_solution \<Rightarrow> bool" where
  "cp_y_z payload ordered z =
     list_all (\<lambda>(v, f). let ss = shipments_of_pair payload ordered v f in
         if ss \<noteq> []
         then list_all (\<lambda>s. b2i (cs_z z (s, v, f)) \<le> b2i (cs_y z (v, f))) ss
            \<and> b2i (cs_y z (v, f)) \<le> sum_over ss (\<lambda>s. b2i (cs_z z (s, v, f)))
            \<and> sum_over ss (\<lambda>s. units_by_id payload s * b2i (cs_z z (s, v, f)))
                \<le> volunteer_capacity (the (volunteer_by_id payload v)) * b2i (cs_y z (v, f))
         else \<not> cs_y z (v, f))
       (y_keys payload ordered)"

text \<open>One leg of a physical flight per volunteer, and three hours between two departures.\<close>

definition cp_volunteer_physical :: "solver_payload \<Rightarrow> compatibility \<Rightarrow> cp_solution \<Rightarrow> bool" where
  "cp_volunteer_physical payload ordered z =
     list_all (\<lambda>(_, keys). 1 < length keys \<longrightarrow> sum_over keys (\<lambda>key. b2i (cs_y z key)) \<le> 1)
       (group_by (\<lambda>(v, f). (v, physical_key_or_id (the (flight_by_id payload f)))) (y_keys payload ordered))"

fun pairs_apart :: "('a \<Rightarrow> 'a \<Rightarrow> bool) \<Rightarrow> 'a list \<Rightarrow> bool" where
  "pairs_apart P [] = True"
| "pairs_apart P (x # xs) = (list_all (P x) xs \<and> pairs_apart P xs)"

definition cp_departures_apart :: "solver_payload \<Rightarrow> compatibility \<Rightarrow> cp_solution \<Rightarrow> bool" where
  "cp_departures_apart payload ordered z =
     list_all (\<lambda>volunteer. let v = pl_id volunteer; flight = (\<lambda>f. the (flight_by_id payload f)) in
         pairs_apart (\<lambda>f g. close_in_time (flight f) (flight g) \<longrightarrow> b2i (cs_y z (v, f)) + b2i (cs_y z (v, g)) \<le> 1)
           (sort_key (\<lambda>f. flight_datetime_key (flight f)) (volunteer_flights payload ordered v)))
       (sp_volunteers payload)"

definition cp_weekly_frequency :: "solver_payload \<Rightarrow> cp_solution \<Rightarrow> bool" where
  "cp_weekly_frequency payload z =
     list_all (\<lambda>(destination, flights).
         case Option.bind (map_of (sp_rules payload) destination) pr_weekly_frequency of
           None \<Rightarrow> True
         | Some n \<Rightarrow> 0 < n \<longrightarrow> sum_over flights (\<lambda>f. b2i (cs_used z (pf_id f))) \<le> int n)
       (group_by pf_destination_iata (sp_flights payload))"

text \<open>Of the legs of a physical flight that have candidates, only the earliest can be used.\<close>

definition cp_earliest_leg ::
    "solver_payload \<Rightarrow> compatibility \<Rightarrow> cp_solution \<Rightarrow> payload_flight list \<Rightarrow> bool" where
  "cp_earliest_leg payload ordered z flights =
     (let candidates = filter (\<lambda>f. x_on_flight payload ordered (pf_id f) \<noteq> []
                                \<and> y_on_flight payload ordered (pf_id f) \<noteq> []) flights
      in length candidates < 2 \<or>
         (let min_route_pos = Min (set (map (\<lambda>f. route_pos_or_one (pf_route_pos f)) candidates))
          in list_all (\<lambda>f. route_pos_or_one (pf_route_pos f) \<le> min_route_pos \<or>
               (\<not> cs_used z (pf_id f)
                \<and> list_all (\<lambda>s. \<not> cs_x z (s, pf_id f)) (x_on_flight payload ordered (pf_id f))
                \<and> list_all (\<lambda>v. \<not> cs_y z (v, pf_id f)) (y_on_flight payload ordered (pf_id f))
                \<and> list_all (\<lambda>(s, v, g). g = pf_id f \<longrightarrow> \<not> cs_z z (s, v, g)) (z_keys payload ordered))) candidates))"

definition cp_physical_flights :: "solver_payload \<Rightarrow> compatibility \<Rightarrow> cp_solution \<Rightarrow> bool" where
  "cp_physical_flights payload ordered z =
     list_all (\<lambda>(_, flights). (1 < length flights \<longrightarrow> sum_over flights (\<lambda>f. b2i (cs_used z (pf_id f))) \<le> 1)
         \<and> cp_earliest_leg payload ordered z flights)
       (group_by pf_physical_flight_key (filter (\<lambda>f. pf_physical_flight_key f \<noteq> []) (sp_flights payload)))"

definition cp_missions :: "solver_payload \<Rightarrow> compatibility \<Rightarrow> cp_solution \<Rightarrow> bool" where
  "cp_missions payload ordered z =
     list_all (\<lambda>volunteer. let v = pl_id volunteer; entries = volunteer_flights payload ordered v in
         0 \<le> cs_missions z v \<and> cs_missions z v \<le> int (length entries)
         \<and> cs_missions z v = sum_over entries (\<lambda>f. b2i (cs_y z (v, f)))) (sp_volunteers payload)"

definition cp_constraints :: "solver_payload \<Rightarrow> compatibility \<Rightarrow> cp_solution \<Rightarrow> bool" where
  "cp_constraints payload ordered z \<longleftrightarrow>
     cp_shipment_once payload ordered z \<and> list_all (cp_flight payload ordered z) (sp_flights payload)
     \<and> cp_x_z payload ordered z \<and> cp_y_z payload ordered z \<and> cp_volunteer_physical payload ordered z
     \<and> cp_departures_apart payload ordered z \<and> cp_weekly_frequency payload z
     \<and> cp_physical_flights payload ordered z \<and> cp_missions payload ordered z"

text \<open>The constraints of the excess variables, declared before the fourth objective.\<close>

definition cp_excess :: "solver_payload \<Rightarrow> compatibility \<Rightarrow> cp_solution \<Rightarrow> bool" where
  "cp_excess payload ordered z =
     list_all (\<lambda>volunteer. let v = pl_id volunteer in
         0 \<le> cs_excess z v \<and> cs_excess z v \<le> int (length (volunteer_flights payload ordered v))
         \<and> cs_missions z v - 1 \<le> cs_excess z v) (sp_volunteers payload)"

section \<open>Objectives\<close>

definition weighted_expr :: "solver_payload \<Rightarrow> compatibility \<Rightarrow> cp_solution \<Rightarrow> int" where
  "weighted_expr payload ordered z =
     sum_over (x_keys payload ordered) (\<lambda>(s, f). shipment_weight (the (shipment_by_id payload s)) * b2i (cs_x z (s, f)))"

definition used_sum :: "solver_payload \<Rightarrow> cp_solution \<Rightarrow> int" where
  "used_sum payload z = sum_over (sp_flights payload) (\<lambda>f. b2i (cs_used z (pf_id f)))"

definition pair_sum :: "solver_payload \<Rightarrow> compatibility \<Rightarrow> cp_solution \<Rightarrow> int" where
  "pair_sum payload ordered z = sum_over (y_keys payload ordered) (\<lambda>key. b2i (cs_y z key))"

definition excess_sum :: "solver_payload \<Rightarrow> cp_solution \<Rightarrow> int" where
  "excess_sum payload z = sum_over (sp_volunteers payload) (\<lambda>v. cs_excess z (pl_id v))"

definition compatibility_option_expr :: "solver_payload \<Rightarrow> compatibility \<Rightarrow> cp_solution \<Rightarrow> int" where
  "compatibility_option_expr payload ordered z =
     sum_over (x_keys payload ordered)
       (\<lambda>(s, f). int (length (volunteers_by_shipment_flight ordered s f)) * b2i (cs_x z (s, f)))"

definition availability_sum :: "solver_payload \<Rightarrow> cp_solution \<Rightarrow> int" where
  "availability_sum payload z =
     sum_over (sp_volunteers payload) (\<lambda>v. cs_missions z (pl_id v) * max 1 (volunteer_availability_minutes v))"

definition chronological_expr :: "solver_payload \<Rightarrow> compatibility \<Rightarrow> cp_solution \<Rightarrow> int" where
  "chronological_expr payload ordered z =
     sum_over (x_keys payload ordered)
       (\<lambda>(s, f). (int (index_in (map pf_id (sp_flights payload)) f) + 1) * b2i (cs_x z (s, f)))"

type_synonym cp_solver = "(cp_solution \<Rightarrow> bool) \<Rightarrow> (cp_solution \<Rightarrow> int) \<Rightarrow> cp_solution option"

text \<open>One objective: the solution found is kept as a bound for what follows.\<close>

definition cp_stage ::
    "cp_solver \<Rightarrow> (cp_solution \<Rightarrow> bool) \<Rightarrow> (cp_solution \<Rightarrow> int) \<Rightarrow> err + (cp_solution \<Rightarrow> bool)" where
  "cp_stage cp_solve constraints objective =
     res_bind (require (cp_solve constraints objective) (Runtime_Error ''no feasible solution'')) (\<lambda>found.
       Inr (\<lambda>z. constraints z \<and> objective found \<le> objective z))"

definition cp_search :: "cp_solver \<Rightarrow> solver_payload \<Rightarrow> compatibility \<Rightarrow> err + cp_solution" where
  "cp_search cp_solve payload ordered =
     res_bind (cp_stage cp_solve (cp_constraints payload ordered) (weighted_expr payload ordered)) (\<lambda>c1.
     res_bind (cp_stage cp_solve c1 (\<lambda>z. - used_sum payload z)) (\<lambda>c2.
     res_bind (cp_stage cp_solve c2 (\<lambda>z. - pair_sum payload ordered z)) (\<lambda>c3.
     let c3' = (\<lambda>z. c3 z \<and> cp_excess payload ordered z) in
     res_bind (if sp_volunteers payload \<noteq> [] then cp_stage cp_solve c3' (\<lambda>z. - excess_sum payload z) else Inr c3') (\<lambda>c4.
     res_bind (cp_stage cp_solve c4 (compatibility_option_expr payload ordered)) (\<lambda>c5.
     res_bind (if sp_volunteers payload \<noteq> []
               then res_bind (require (cp_solve c5 (\<lambda>z. - availability_sum payload z)) (Runtime_Error ''availability minimization''))
                      (\<lambda>_. Inr ())
               else Inr ()) (\<lambda>_.
     res_bind (cp_stage cp_solve c5 (\<lambda>z. - chronological_expr payload ordered z)) (\<lambda>c6.
       require (cp_solve c6 (\<lambda>z. - used_sum payload z)) (Runtime_Error ''no solution''))))))))"

end
