(* ===== verification/Plan_Run.thy ===== *)
theory Plan_Run
  imports Plan_Cp_Model
begin

text \<open>
  The rest of \<open>wms/planning/solver.py\<close>: \<open>_solve_candidates\<close>, what is read from the values found and
  the result reported, and \<open>solve_run\<close>, which stores the plan as a draft version of the run. The
  status name OR-Tools reports is not part of the result; the payload and the result, which the
  program stores on the run as JSON, are returned beside the database.
\<close>

section \<open>Reading the values found\<close>

definition selected_items :: "solver_payload \<Rightarrow> compatibility \<Rightarrow> cp_solution \<Rightarrow> plan_item list" where
  "selected_items payload ordered z =
     map (\<lambda>(s, v, f). plan_item_of (the (shipment_by_id payload s)) (the (flight_by_id payload f)) v)
       (filter (cs_z z) (z_keys payload ordered))"

definition plan_order_key :: "plan_item \<Rightarrow> date \<times> int \<times> string" where
  "plan_order_key a = (pi_departure_date a, route_pos_or_one (pi_route_pos a), pi_reference a)"

definition final_plan :: "solver_payload \<Rightarrow> compatibility \<Rightarrow> plan_item list \<Rightarrow> plan_item list" where
  "final_plan payload compatibility items =
     sort_key plan_order_key (rebalance_assignments_by_flight payload compatibility
       (canonicalize_legacy_equal_weight_assignments payload compatibility items))"

section \<open>The result\<close>

record solver_result =
  sr_summary :: solver_summary
  sr_assigned_shipments :: "nat list"
  sr_vols_diagnostics :: "flight_diagnostic list"
  sr_nb_vols_total :: nat
  sr_nb_vols_sans_be_compatible :: nat
  sr_nb_vols_sans_benevole_compatible :: nat
  sr_nb_vols_sans_compatibilite_complete :: nat
  sr_nb_vols_non_utilises_avec_compatibilite :: nat

definition count_candidate_assignments :: "compatibility \<Rightarrow> flight_diagnostic list \<Rightarrow> flight_diagnostic list" where
  "count_candidate_assignments ordered diagnostics =
     map (\<lambda>d. d\<lparr>fd_candidate_assignment_count := fd_candidate_assignment_count d
       + sum_list (map (\<lambda>(_, pairs). length (filter (\<lambda>(f, _). f = fd_flight d) pairs)) ordered)\<rparr>) diagnostics"

definition mark_used :: "plan_item list \<Rightarrow> flight_diagnostic list \<Rightarrow> flight_diagnostic list" where
  "mark_used items diagnostics =
     map (\<lambda>d. d\<lparr>fd_used := fd_used d \<or> fd_flight d \<in> pi_flight ` set items\<rparr>) diagnostics"

definition has_shipments :: "flight_diagnostic \<Rightarrow> bool" where
  "has_shipments d \<longleftrightarrow> 0 < fd_shipment_compat_count d"

definition has_volunteers :: "flight_diagnostic \<Rightarrow> bool" where
  "has_volunteers d \<longleftrightarrow> 0 < fd_benevole_compat_count d"

definition result_of ::
    "solver_payload \<Rightarrow> compatibility \<Rightarrow> flight_diagnostic list \<Rightarrow> plan_item list \<Rightarrow> solver_result" where
  "result_of payload compatibility diagnostics items =
     (let assigned = map pi_shipment items;
          used = mark_used items diagnostics
      in \<lparr>sr_summary = summarize_solver_result payload items
            (filter (\<lambda>i. i \<notin> set assigned) (map ps_id (sp_shipments payload))) compatibility ''ortools_cp_sat_v1'',
          sr_assigned_shipments = assigned,
          sr_vols_diagnostics = used,
          sr_nb_vols_total = length (sp_flights payload),
          sr_nb_vols_sans_be_compatible = length (filter (\<lambda>d. \<not> has_shipments d) used),
          sr_nb_vols_sans_benevole_compatible = length (filter (\<lambda>d. \<not> has_volunteers d) used),
          sr_nb_vols_sans_compatibilite_complete =
            length (filter (\<lambda>d. \<not> has_shipments d \<or> \<not> has_volunteers d) used),
          sr_nb_vols_non_utilises_avec_compatibilite =
            length (filter (\<lambda>d. has_shipments d \<and> has_volunteers d \<and> \<not> fd_used d) used)\<rparr>)"

definition solve_candidates ::
    "cp_solver \<Rightarrow> solver_payload \<Rightarrow> compatibility \<Rightarrow> err + plan_item list \<times> solver_result" where
  "solve_candidates cp_solve payload compatibility =
     (let ordered = order_compatibility_pairs payload compatibility;
          diagnostics = count_candidate_assignments ordered (build_solver_diagnostics payload)
      in if sum_list (map (\<lambda>(_, pairs). length pairs) ordered) = 0
         then Inr ([], result_of payload compatibility diagnostics [])
         else res_bind (cp_search cp_solve payload ordered) (\<lambda>z.
           let items = final_plan payload compatibility (selected_items payload ordered z)
           in Inr (items, result_of payload compatibility diagnostics items)))"

section \<open>Solving a run\<close>

definition solver_assignment :: "env \<Rightarrow> nat \<Rightarrow> nat \<Rightarrow> plan_item \<Rightarrow> assignment" where
  "solver_assignment e version sequence item =
     \<lparr>as_version = version, as_shipment = Some (pi_shipment item), as_volunteer = Some (pi_volunteer item),
      as_flight = Some (pi_flight item), as_carton_count = pi_carton_count item, as_weight_kg = None,
      as_status = ''proposed'', as_source = As_Solver, as_notes = [], as_sequence = sequence,
      as_created_at = e_now e, as_updated_at = e_now e\<rparr>"

definition solve_run ::
    "env \<Rightarrow> cp_solver \<Rightarrow> nat \<Rightarrow> plan_db \<Rightarrow> db \<Rightarrow> err + nat \<times> solver_payload \<times> solver_result \<times> plan_db" where
  "solve_run e cp_solve run p s =
     res_bind (require (row_get (pd_runs p) run) Does_Not_Exist) (\<lambda>r.
     res_bind (raise_if (run_status r \<noteq> Run_Ready) (Value_Error ''Planning run must be ready before solving.'')) (\<lambda>_.
       let p1 = p\<lparr>pd_runs := row_upd run (\<lambda>r. r\<lparr>run_status := Run_Solving, run_updated_at := e_now e\<rparr>) (pd_runs p)\<rparr>;
           payload = compile_run_solver_payload run p1 s
       in res_bind (solve_candidates cp_solve payload (compute_compatibility payload)) (\<lambda>(items, result).
         let (version, p2) = create_version e \<lparr>pv_run = run, pv_number = None, pv_status = Pv_Draft,
               pv_based_on = None, pv_change_reason = [], pv_created_by = Some (run_created_by r),
               pv_published_at = None, pv_created_at = e_now e, pv_updated_at = e_now e\<rparr> p1;
             created = map (\<lambda>(sequence, item). solver_assignment e version sequence item)
               (zip [1..<Suc (length items)] items);
             p3 = p2\<lparr>pd_assignments := fold row_ins created (pd_assignments p2)\<rparr>
         in Inr (version, payload, result,
              p3\<lparr>pd_runs := row_upd run (\<lambda>r. r\<lparr>run_status := Run_Solved, run_updated_at := e_now e\<rparr>) (pd_runs p3)\<rparr>))))"

end
