(* ===== verification/Plan_Solver_Facts.thy ===== *)
theory Plan_Solver_Facts
  imports Plan_Run "HOL-Library.Multiset"
begin

text \<open>
  Facts on the parts of the solver that the program computes itself: dictionaries of lists, the
  distribution over the volunteers of a flight, and the choice among equal shipments, which keeps the
  place and the size of every assignment.
\<close>

section \<open>Dictionaries of lists\<close>

lemma first_unique_snoc:
  "first_unique (xs @ [x]) = (if x \<in> set xs then first_unique xs else first_unique xs @ [x])"
  by (simp add: first_unique_def)

lemma set_first_unique [simp]: "set (first_unique xs) = set xs"
  and distinct_first_unique [simp]: "distinct (first_unique xs)"
  by (simp_all add: first_unique_def)

text \<open>The groups, in the order their keys first appear, hold the elements of their key.\<close>

lemma map_of_keyed: "map_of (map (\<lambda>k. (k, f k)) ks) k = (if k \<in> set ks then Some (f k) else None)"
  by (induction ks) auto

lemma group_by_eq:
  "group_by key xs = map (\<lambda>k. (k, filter (\<lambda>x. key x = k) xs)) (first_unique (map key xs))"
proof (induction xs rule: rev_induct)
  case Nil
  show ?case by (simp add: group_by_def first_unique_def)
next
  case (snoc x xs)
  let ?d = "map (\<lambda>k. (k, filter (\<lambda>y. key y = k) xs)) (first_unique (map key xs))"
  have step: "group_by key (xs @ [x]) = dict_put (key x)
      ((case map_of ?d (key x) of None \<Rightarrow> [] | Some ys \<Rightarrow> ys) @ [x]) ?d"
    using snoc by (simp add: group_by_def)
  have keys: "fst ` set ?d = key ` set xs" by (simp add: image_image)
  show ?case
  proof (cases "key x \<in> key ` set xs")
    case True
    then have "map_of ?d (key x) = Some (filter (\<lambda>y. key y = key x) xs)"
      by (subst map_of_keyed) simp
    moreover have "dict_put (key x) (filter (\<lambda>y. key y = key x) xs @ [x]) ?d
        = map (\<lambda>k. (k, filter (\<lambda>y. key y = k) (xs @ [x]))) (first_unique (map key xs))"
      unfolding dict_put_def keys using True by simp
    moreover have "first_unique (map key (xs @ [x])) = first_unique (map key xs)"
      using True by (simp add: first_unique_snoc)
    ultimately show ?thesis
      unfolding step by simp
  next
    case False
    then have "filter (\<lambda>y. key y = key x) xs = []"
      unfolding filter_empty_conv by (metis imageI)
    moreover have "map_of ?d (key x) = None"
      using False by (subst map_of_keyed) simp
    moreover have "map (\<lambda>k. (k, filter (\<lambda>y. key y = k) (xs @ [x]))) (first_unique (map key xs)) = ?d"
      using False by auto
    moreover have "first_unique (map key (xs @ [x])) = first_unique (map key xs) @ [key x]"
      using False by (simp add: first_unique_snoc)
    ultimately show ?thesis
      unfolding step dict_put_def keys using False by simp
  qed
qed

lemma group_by_mem:
  "(k, ys) \<in> set (group_by key xs) \<longleftrightarrow> k \<in> key ` set xs \<and> ys = filter (\<lambda>x. key x = k) xs"
  by (auto simp: group_by_eq)

lemma distinct_group_keys: "distinct (map fst (group_by key xs))"
  by (simp add: group_by_eq comp_def)

lemma mset_filter_classes:
  "distinct ks \<Longrightarrow> key ` set xs \<subseteq> set ks \<Longrightarrow>
   mset (concat (map (\<lambda>k. filter (\<lambda>x. key x = k) xs) ks)) = mset xs"
proof (induction ks arbitrary: xs)
  case Nil
  then show ?case by simp
next
  case (Cons k ks)
  let ?rest = "filter (\<lambda>x. key x \<noteq> k) xs"
  have same: "map (\<lambda>j. filter (\<lambda>x. key x = j) xs) ks = map (\<lambda>j. filter (\<lambda>x. key x = j) ?rest) ks"
    using Cons.prems(1) by (auto intro!: filter_cong)
  have "mset (concat (map (\<lambda>j. filter (\<lambda>x. key x = j) ?rest) ks)) = mset ?rest"
    by (rule Cons.IH) (use Cons.prems in auto)
  then show ?case
    unfolding list.map concat.simps mset_append same
    using multiset_partition [of "mset xs" "\<lambda>x. key x = k"] by simp
qed

lemma mset_group_by: "mset (concat (map snd (group_by key xs))) = mset xs"
  using mset_filter_classes [of "first_unique (map key xs)" key xs]
  by (simp add: group_by_eq comp_def)

lemma sort_desc_simps [simp]:
  "set (sort_desc key xs) = set xs" "length (sort_desc key xs) = length xs"
  "distinct (sort_desc key xs) = distinct xs"
  by (simp_all add: sort_desc_def)

section \<open>The distribution over the volunteers\<close>

lemma first_some_Some:
  "first_some f xs = Some y \<Longrightarrow> \<exists>us i vs. xs = us @ i # vs \<and> f i = Some y \<and> (\<forall>j \<in> set us. f j = None)"
proof (induction xs)
  case Nil
  then show ?case by simp
next
  case (Cons x xs)
  show ?case
  proof (cases "f x")
    case None
    with Cons obtain us i vs where "xs = us @ i # vs" "f i = Some y" "\<forall>j \<in> set us. f j = None" by auto
    with None show ?thesis by (intro exI [of _ "x # us"]) auto
  next
    case (Some z)
    with Cons.prems show ?thesis by (intro exI [of _ "[]"]) auto
  qed
qed

lemma first_some_None: "first_some f xs = None \<longleftrightarrow> (\<forall>x \<in> set xs. f x = None)"
  by (induction xs) (auto split: option.splits)

lemma first_some_least:
  assumes "first_some f [0..<n] = Some y"
  obtains i where "i < n" "f i = Some y" "\<And>j. j < i \<Longrightarrow> f j = None"
proof -
  from first_some_Some [OF assms] obtain us i vs
    where split: "[0..<n] = us @ i # vs" and i: "f i = Some y" "\<forall>j \<in> set us. f j = None" by blast
  have "i < n" using split by (metis in_set_conv_decomp atLeastLessThan_iff set_upt)
  moreover have "f j = None" if "j < i" for j
  proof -
    have "j \<in> set (us @ i # vs)" using that \<open>i < n\<close> unfolding split [symmetric] by simp
    moreover have "sorted (us @ i # vs)" unfolding split [symmetric] by simp
    ultimately show ?thesis using that i(2) by (auto simp: sorted_append)
  qed
  ultimately show thesis using that i(1) by blast
qed

text \<open>The weight given to one volunteer, and the distributions that respect every capacity.\<close>

definition load_at :: "int list \<Rightarrow> nat list \<Rightarrow> nat \<Rightarrow> int" where
  "load_at ws d i = sum_list (map fst (filter (\<lambda>(_, j). j = i) (zip ws d)))"

definition feasible_distribution :: "int list \<Rightarrow> int list \<Rightarrow> nat list \<Rightarrow> bool" where
  "feasible_distribution ws capacities d \<longleftrightarrow>
     length d = length ws \<and> (\<forall>i \<in> set d. i < length capacities \<and> load_at ws d i \<le> capacities ! i)"

lemma load_at_nonneg: "\<forall>w \<in> set ws. 0 \<le> w \<Longrightarrow> 0 \<le> load_at ws d i"
  unfolding load_at_def by (rule sum_list_map_nonneg) (auto dest: set_zip_leftD)

lemma load_at_Cons: "load_at (w # ws) (j # d) i = (if j = i then w else 0) + load_at ws d i"
  by (simp add: load_at_def)

lemma load_at_unused: "i \<notin> set d \<Longrightarrow> load_at ws d i = 0"
proof (induction d arbitrary: ws)
  case Nil
  show ?case by (simp add: load_at_def)
next
  case (Cons j d)
  then show ?case by (cases ws) (auto simp: load_at_Cons, simp add: load_at_def)
qed

lemma feasible_distribution_Cons:
  assumes "\<forall>x \<in> set (w # ws). 0 \<le> x"
  shows "feasible_distribution (w # ws) capacities (i # d) \<longleftrightarrow>
    i < length capacities \<and> w \<le> capacities ! i
    \<and> feasible_distribution ws (capacities[i := capacities ! i - w]) d"
proof -
  have "0 \<le> load_at ws d i" using assms by (intro load_at_nonneg) auto
  then show ?thesis
    using load_at_unused [of i d ws]
    by (cases "i \<in> set d") (auto simp: feasible_distribution_def load_at_Cons nth_list_update)
qed

lemma distribution_sound:
  "\<forall>x \<in> set ws. 0 \<le> x \<Longrightarrow> solve_lexicographic_flight_distribution ws capacities = Some d
   \<Longrightarrow> feasible_distribution ws capacities d"
proof (induction ws arbitrary: capacities d)
  case Nil
  then show ?case by (simp add: feasible_distribution_def)
next
  case (Cons w ws)
  from Cons.prems(2) obtain i d' where i: "i < length capacities" "\<not> capacities ! i < w" "d = i # d'"
    "solve_lexicographic_flight_distribution ws (capacities[i := capacities ! i - w]) = Some d'"
    by (auto elim!: first_some_least split: if_splits)
  then show ?case
    using Cons.IH [of "capacities[i := capacities ! i - w]" d'] Cons.prems(1)
    by (simp add: feasible_distribution_Cons)
qed

lemma distribution_least:
  "\<forall>x \<in> set ws. 0 \<le> x \<Longrightarrow> feasible_distribution ws capacities d'
   \<Longrightarrow> \<exists>d. solve_lexicographic_flight_distribution ws capacities = Some d \<and> d \<le> d'"
proof (induction ws arbitrary: capacities d')
  case Nil
  then show ?case by (simp add: feasible_distribution_def)
next
  case (Cons w ws)
  let ?attempt_at = "\<lambda>i. if capacities ! i < w then None
    else map_option (Cons i) (solve_lexicographic_flight_distribution ws (capacities[i := capacities ! i - w]))"
  from Cons.prems(2) obtain k e where d': "d' = k # e"
    by (cases d') (auto simp: feasible_distribution_def)
  have k: "k < length capacities" "w \<le> capacities ! k"
      "feasible_distribution ws (capacities[k := capacities ! k - w]) e"
    using Cons.prems unfolding d' by (simp_all add: feasible_distribution_Cons)
  then obtain e' where e': "?attempt_at k = Some (k # e')" "e' \<le> e"
    using Cons.IH [of "capacities[k := capacities ! k - w]" e] Cons.prems(1) by auto
  then have "first_some ?attempt_at [0..<length capacities] \<noteq> None"
    unfolding first_some_None using k(1) by (metis atLeastLessThan_iff le0 option.distinct(1) set_upt)
  then obtain d where d: "first_some ?attempt_at [0..<length capacities] = Some d" by blast
  from first_some_least [OF this] obtain i where i: "?attempt_at i = Some d" "\<And>j. j < i \<Longrightarrow> ?attempt_at j = None"
    by blast
  have "i \<le> k" using i(2) [of k] e'(1) by (cases "i \<le> k") auto
  then have "d \<le> d'"
    using i(1) e' unfolding d' by (cases "i = k") (auto split: if_splits)
  with d show ?case by simp
qed

section \<open>The choice among equal shipments\<close>

lemma find_by_key: "distinct (map key xs) \<Longrightarrow> x \<in> set xs \<Longrightarrow> find (\<lambda>y. key y = key x) xs = Some x"
  by (induction xs) (auto simp: image_iff)

lemma complete_selection_ok:
  "distinct selected \<Longrightarrow> length selected < m \<Longrightarrow> m \<le> card (set selected \<union> set ranked) \<Longrightarrow>
   length (complete_selection m ranked selected) = m
   \<and> distinct (complete_selection m ranked selected)
   \<and> set (complete_selection m ranked selected) \<subseteq> set selected \<union> set ranked"
proof (induction m ranked selected rule: complete_selection.induct)
  case (1 m selected)
  then show ?case by (simp add: distinct_card)
next
  case (2 m i ranked selected)
  show ?case
  proof (cases "i \<in> set selected \<or> m \<le> length (selected @ [i])")
    case True
    then show ?thesis using 2 by (auto simp: insert_absorb)
  next
    case False
    then show ?thesis using 2(2) [OF _ _] 2(3-) by auto
  qed
qed

lemma group_heads:
  "distinct (map (\<lambda>(_, ys). hd ys) (group_by key xs)) \<and> set (map (\<lambda>(_, ys). hd ys) (group_by key xs)) \<subseteq> set xs"
proof -
  have head: "hd (filter (\<lambda>x. key x = k) xs) \<in> set xs \<and> key (hd (filter (\<lambda>x. key x = k) xs)) = k"
    if "k \<in> key ` set xs" for k
  proof -
    have "filter (\<lambda>x. key x = k) xs \<noteq> []" using that by (auto simp: filter_empty_conv)
    then have "hd (filter (\<lambda>x. key x = k) xs) \<in> set (filter (\<lambda>x. key x = k) xs)" by (rule hd_in_set)
    then show ?thesis by simp
  qed
  then have "inj_on (\<lambda>k. hd (filter (\<lambda>x. key x = k) xs)) (key ` set xs)"
    by (metis (no_types, lifting) inj_onI)
  then show ?thesis
    using head by (auto simp: group_by_eq comp_def distinct_map)
qed

lemma select_legacy_preferred_ok:
  assumes "distinct ids" and "m \<le> length ids"
  shows "length (select_legacy_preferred_shipment_ids shipment m ids) = m
    \<and> distinct (select_legacy_preferred_shipment_ids shipment m ids)
    \<and> set (select_legacy_preferred_shipment_ids shipment m ids) \<subseteq> set ids"
proof -
  define key where "key = (\<lambda>i. shipment_legacy_tie_break_key (shipment i))"
  define ranked where "ranked = sort_desc key ids"
  define groups where "groups = group_by (\<lambda>i. strip (ps_shipper_name (shipment i))) ranked"
  define heads where "heads = sort_desc key (map (\<lambda>(_, ids). hd ids) groups)"
  have ranked: "distinct ranked" "set ranked = set ids" "length ranked = length ids"
    using assms(1) by (simp_all add: ranked_def)
  have heads: "distinct heads" "set heads \<subseteq> set ids"
    using group_heads [of "\<lambda>i. strip (ps_shipper_name (shipment i))" ranked] ranked(2)
    by (simp_all add: heads_def groups_def)
  have take: "distinct (take n ranked)" "set (take n ranked) \<subseteq> set ids" for n
    using ranked by (auto dest: in_set_takeD)
  have "distinct (take m heads)" "set (take m heads) \<subseteq> set ids"
    using heads by (auto dest: in_set_takeD)
  moreover from this(2) have un: "set (take m heads) \<union> set ranked = set ids"
    using ranked by blast
  moreover have "card (set ids) = length ids" using assms(1) by (rule distinct_card)
  ultimately have complete: "length (take m heads) < m \<Longrightarrow>
      length (complete_selection m ranked (take m heads)) = m
      \<and> distinct (complete_selection m ranked (take m heads))
      \<and> set (complete_selection m ranked (take m heads)) \<subseteq> set ids"
    using complete_selection_ok [of "take m heads" m ranked] assms(2) unfolding un by simp
  have eq: "select_legacy_preferred_shipment_ids shipment m ids =
     (if m = 0 then [] else if m \<ge> length ranked then ranked
      else if length groups \<le> 1 then take m ranked
      else if length (take m heads) \<ge> m then take m heads
      else complete_selection m ranked (take m heads))"
    by (simp add: select_legacy_preferred_shipment_ids_def Let_def key_def ranked_def groups_def heads_def)
  show ?thesis
    unfolding eq
    using complete take [of m] ranked assms(2) heads by (auto dest: in_set_takeD)
qed

text \<open>
  One group: the entries of the group, if they change at all, are given to other shipments of the group,
  each to one.
\<close>

lemma map_filter_lookup:
  "distinct ids \<Longrightarrow> distinct (map fst items) \<Longrightarrow>
   set (List.map_filter (\<lambda>i. map_option (Pair i) (map_of items i)) ids) = {p \<in> set items. fst p \<in> set ids}
   \<and> distinct (map fst (List.map_filter (\<lambda>i. map_option (Pair i) (map_of items i)) ids))"
proof (induction ids)
  case Nil
  then show ?case by (simp add: map_filter_def)
next
  case (Cons i ids)
  let ?found = "List.map_filter (\<lambda>i. map_option (Pair i) (map_of items i)) ids"
  have IH: "set ?found = {p \<in> set items. fst p \<in> set ids}" "distinct (map fst ?found)"
    using Cons by simp_all
  show ?case
  proof (cases "map_of items i")
    case None
    then have "i \<notin> fst ` set items" by (simp add: map_of_eq_None_iff)
    then have "{p \<in> set items. fst p \<in> set (i # ids)} = {p \<in> set items. fst p \<in> set ids}" by auto
    with None IH show ?thesis by (simp add: map_filter_simps)
  next
    case (Some a)
    then have "{p \<in> set items. fst p \<in> set (i # ids)} = insert (i, a) {p \<in> set items. fst p \<in> set ids}"
      using Cons.prems(2) by (auto dest: map_of_SomeD eq_key_imp_eq_value)
    moreover have "i \<notin> fst ` set ?found" using Cons.prems(1) by (auto simp: IH(1))
    ultimately show ?thesis using Some IH by (simp add: map_filter_simps)
  qed
qed

lemma canonicalize_group_cases:
  assumes ids: "distinct ids" and items: "distinct (map fst items)"
    and known: "\<And>i. i \<in> set ids \<Longrightarrow> ps_id (shipment i) = i"
  obtains "canonicalize_group shipment flight ids items = items"
  | g where "canonicalize_group shipment flight ids items =
        map (\<lambda>(i, a). (i, if i \<in> set ids then give_slot (shipment (g i)) a else a)) items"
      and "\<And>i. i \<in> set ids \<Longrightarrow> i \<in> fst ` set items \<Longrightarrow> g i \<in> set ids"
      and "inj_on g (set ids \<inter> fst ` set items)"
proof -
  define selected where "selected = List.map_filter (\<lambda>i. map_option (Pair i) (map_of items i)) ids"
  define chosen where "chosen = select_legacy_preferred_shipment_ids shipment (length selected) ids"
  define preferred where "preferred = sort_key shipment_legacy_assignment_key (map shipment chosen)"
  define slots where "slots = sort_key (\<lambda>(_, item). slot_order_key flight item) selected"
  define given where "given = map (\<lambda>((i, item), x). (i, give_slot x item)) (zip slots preferred)"
  have selected: "set selected = {p \<in> set items. fst p \<in> set ids}" "distinct (map fst selected)"
    using map_filter_lookup [OF ids items] by (simp_all add: selected_def)
  have "length selected \<le> length ids"
    by (simp add: selected_def map_filter_def)
  then have chosen: "length chosen = length selected" "distinct chosen" "set chosen \<subseteq> set ids"
    using select_legacy_preferred_ok [OF ids] by (auto simp: chosen_def)
  have "mset (map ps_id preferred) = mset (map ps_id (map shipment chosen))"
    unfolding preferred_def mset_map by simp
  also have "map ps_id (map shipment chosen) = chosen"
    unfolding map_map comp_def by (rule map_idI) (use known chosen(3) in auto)
  finally have pref_ids: "mset (map ps_id preferred) = mset chosen" .
  then have distinct_pref: "distinct (map ps_id preferred)" and set_pref: "ps_id ` set preferred = set chosen"
    using chosen(2) by (metis mset_eq_imp_distinct_iff, metis list.set_map set_mset_mset)
  have len: "length preferred = length slots"
    using chosen(1) by (simp add: preferred_def slots_def)
  have pref: "x = shipment (ps_id x) \<and> ps_id x \<in> set ids" if "x \<in> set preferred" for x
    using that known chosen(3) by (auto simp: preferred_def subset_iff)
  have slots: "set slots = set selected" "distinct (map fst slots)"
    using selected(2) by (simp_all add: slots_def distinct_map)
  have keys: "map fst given = map fst slots"
    unfolding given_def using len by (auto simp: comp_def case_prod_beta map_fst_zip list_eq_iff_nth_eq)
  define g where "g i = ps_id (the (map_of (zip (map fst slots) preferred) i))" for i
  have at: "\<exists>n < length slots. slots ! n = (i, a) \<and> g i = ps_id (preferred ! n)
      \<and> map_of given i = Some (give_slot (preferred ! n) a)"
    if "(i, a) \<in> set items" "i \<in> set ids" for i a
  proof -
    have "(i, a) \<in> set slots" using that selected(1) slots(1) by auto
    then obtain n where n: "n < length slots" "slots ! n = (i, a)" by (auto simp: in_set_conv_nth)
    have "(i, give_slot (preferred ! n) a) \<in> set given"
      unfolding given_def using n len by (force simp: set_zip)
    then have "map_of given i = Some (give_slot (preferred ! n) a)"
      using slots(2) keys by (simp add: map_of_is_SomeI)
    moreover have "map_of (zip (map fst slots) preferred) (map fst slots ! n) = Some (preferred ! n)"
      by (rule map_of_zip_nth) (use n len slots(2) in simp_all)
    ultimately show ?thesis using n by (intro exI [of _ n]) (simp add: g_def)
  qed
  have given: "map_of given i = Some (give_slot (shipment (g i)) a) \<and> g i \<in> set ids"
    if "(i, a) \<in> set items" "i \<in> set ids" for i a
  proof -
    from at [OF that] obtain n where n: "n < length slots" "g i = ps_id (preferred ! n)"
      "map_of given i = Some (give_slot (preferred ! n) a)" by blast
    with len have "preferred ! n \<in> set preferred" by simp
    from pref [OF this] n show ?thesis by simp
  qed
  have outside: "map_of given i = None" if "i \<notin> set ids" for i
    unfolding map_of_eq_None_iff
    using that keys slots(1) selected(1) by (metis (no_types, lifting) image_iff list.set_map mem_Collect_eq)
  have eq: "canonicalize_group shipment flight ids items =
      (if selected = [] \<or> length selected = length ids then items
       else if \<not> list_ex (\<lambda>i. shipment_has_legacy_tie_break_metadata (shipment i)) ids then items
       else map (\<lambda>(i, a). (i, case map_of given i of None \<Rightarrow> a | Some b \<Rightarrow> b)) items)"
    unfolding canonicalize_group_def Let_def given_def slots_def preferred_def chosen_def selected_def
    by (rule refl)
  consider "canonicalize_group shipment flight ids items = items"
    | "canonicalize_group shipment flight ids items =
         map (\<lambda>(i, a). (i, case map_of given i of None \<Rightarrow> a | Some b \<Rightarrow> b)) items"
    unfolding eq by argo
  then show thesis
  proof cases
    case 1
    then show ?thesis by (rule that(1))
  next
    case 2
    have "canonicalize_group shipment flight ids items =
        map (\<lambda>(i, a). (i, if i \<in> set ids then give_slot (shipment (g i)) a else a)) items"
      unfolding 2
    proof (rule map_cong [OF refl])
      fix p assume mem: "p \<in> set items"
      obtain i a where p: "p = (i, a)" by (cases p)
      show "(case p of (i, a) \<Rightarrow> (i, case map_of given i of None \<Rightarrow> a | Some b \<Rightarrow> b))
          = (case p of (i, a) \<Rightarrow> (i, if i \<in> set ids then give_slot (shipment (g i)) a else a))"
        using given [of i a] outside [of i] mem unfolding p by (cases "i \<in> set ids") simp_all
    qed
    moreover have "g i \<in> set ids" if "i \<in> set ids" "i \<in> fst ` set items" for i
      using given [of i] that by force
    moreover have "inj_on g (set ids \<inter> fst ` set items)"
    proof (rule inj_onI)
      fix i j
      assume mem: "i \<in> set ids \<inter> fst ` set items" "j \<in> set ids \<inter> fst ` set items" and eq: "g i = g j"
      from mem obtain a b where "(i, a) \<in> set items" "(j, b) \<in> set items" by force
      with at [of i a] at [of j b] mem obtain n k where "n < length slots" "slots ! n = (i, a)"
        "g i = ps_id (preferred ! n)" "k < length slots" "slots ! k = (j, b)" "g j = ps_id (preferred ! k)"
        by blast
      moreover from this eq distinct_pref len have "n = k" by (auto simp: distinct_conv_nth)
      ultimately show "i = j" by simp
    qed
    ultimately show ?thesis by (rule that(2))
  qed
qed

section \<open>The pass over the groups of equal shipments\<close>

text \<open>A payload whose primary keys are distinct and whose counts are not negative.\<close>

definition at_least_zero :: "int option \<Rightarrow> bool" where
  "at_least_zero n = (case n of None \<Rightarrow> True | Some m \<Rightarrow> 0 \<le> m)"

definition payload_ok :: "solver_payload \<Rightarrow> bool" where
  "payload_ok payload \<longleftrightarrow>
     distinct (map ps_id (sp_shipments payload)) \<and> distinct (map pf_id (sp_flights payload))
     \<and> distinct (map pl_id (sp_volunteers payload))
     \<and> list_all (\<lambda>x. 0 \<le> ps_equivalent_units x) (sp_shipments payload)
     \<and> list_all (\<lambda>f. at_least_zero (pf_capacity_units f) \<and> at_least_zero (pf_max_cartons_per_flight f))
         (sp_flights payload)"

abbreviation shipment_of :: "solver_payload \<Rightarrow> nat \<Rightarrow> payload_shipment" where
  "shipment_of payload i \<equiv> the (shipment_by_id payload i)"

abbreviation flight_at :: "solver_payload \<Rightarrow> nat \<Rightarrow> payload_flight" where
  "flight_at payload i \<equiv> the (flight_by_id payload i)"

lemma shipment_by_id_mem:
  "payload_ok payload \<Longrightarrow> x \<in> set (sp_shipments payload) \<Longrightarrow> shipment_by_id payload (ps_id x) = Some x"
  by (simp add: payload_ok_def shipment_by_id_def find_by_key)

lemma flight_by_id_mem:
  "payload_ok payload \<Longrightarrow> x \<in> set (sp_flights payload) \<Longrightarrow> flight_by_id payload (pf_id x) = Some x"
  by (simp add: payload_ok_def flight_by_id_def find_by_key)

lemma volunteer_by_id_mem:
  "payload_ok payload \<Longrightarrow> x \<in> set (sp_volunteers payload) \<Longrightarrow> volunteer_by_id payload (pl_id x) = Some x"
  by (simp add: payload_ok_def volunteer_by_id_def find_by_key)

definition carries :: "solver_payload \<Rightarrow> plan_item \<Rightarrow> bool" where
  "carries payload a \<longleftrightarrow> pi_shipment a \<in> ps_id ` set (sp_shipments payload)
     \<and> pi_carton_count a = ps_carton_count (shipment_of payload (pi_shipment a))
     \<and> pi_equivalent_units a = ps_equivalent_units (shipment_of payload (pi_shipment a))"

definition entries_ok :: "solver_payload \<Rightarrow> (nat \<Rightarrow> 'k) \<Rightarrow> (nat \<times> plan_item) list \<Rightarrow> bool" where
  "entries_ok payload cls items \<longleftrightarrow>
     distinct (map fst items) \<and> inj_on (\<lambda>p. pi_shipment (snd p)) (set items)
     \<and> (\<forall>p \<in> set items. fst p \<in> ps_id ` set (sp_shipments payload) \<and> cls (pi_shipment (snd p)) = cls (fst p)
          \<and> carries payload (snd p))"

definition same_place :: "plan_item \<Rightarrow> nat \<times> plan_item \<Rightarrow> bool" where
  "same_place a p \<longleftrightarrow> fst p = pi_shipment a \<and> pi_flight (snd p) = pi_flight a \<and> pi_volunteer (snd p) = pi_volunteer a"

lemma canonicalize_group_keeps:
  assumes ok: "payload_ok payload" and items: "entries_ok payload cls items"
    and ids: "ids = map ps_id (filter (\<lambda>x. cls (ps_id x) = k) (sp_shipments payload))"
    and place: "list_all2 same_place as items"
  shows "entries_ok payload cls (canonicalize_group (shipment_of payload) flight ids items)
    \<and> list_all2 same_place as (canonicalize_group (shipment_of payload) flight ids items)"
proof -
  have d1: "distinct ids"
    using ok unfolding ids payload_ok_def by (simp add: distinct_map_filter)
  have d2: "distinct (map fst items)"
    using items by (simp add: entries_ok_def)
  have known: "\<And>i. i \<in> set ids \<Longrightarrow> ps_id (shipment_of payload i) = i"
    using shipment_by_id_mem [OF ok] by (auto simp: ids)
  show ?thesis
  proof (cases rule: canonicalize_group_cases [where shipment = "shipment_of payload" and flight = flight,
        OF d1 d2 known, case_names _ 1 2])
    case 1
    then show ?thesis using items place by simp
  next
    case (2 g)
    let ?give = "\<lambda>(i, a). (i, if i \<in> set ids then give_slot (shipment_of payload (g i)) a else a)"
    have in_ids: "i \<in> set ids \<longleftrightarrow> i \<in> ps_id ` set (sp_shipments payload) \<and> cls i = k" for i
      by (auto simp: ids)
    have ship: "pi_shipment (snd (?give p)) = (if fst p \<in> set ids then g (fst p) else pi_shipment (snd p))"
      if "p \<in> set items" for p
    proof (cases "fst p \<in> set ids")
      case True
      then have "g (fst p) \<in> set ids" using 2(2) that by auto
      then show ?thesis
        using True shipment_by_id_mem [OF ok] by (auto simp: give_slot_def case_prod_beta in_ids)
    next
      case False
      then show ?thesis by (simp add: case_prod_beta)
    qed
    have cls: "cls (pi_shipment (snd (?give p))) = cls (fst p) \<and> carries payload (snd (?give p))"
      if p: "p \<in> set items" for p
    proof (cases "fst p \<in> set ids")
      case True
      then have g: "g (fst p) \<in> set ids" using 2(2) p by auto
      then obtain x where x: "x \<in> set (sp_shipments payload)" "g (fst p) = ps_id x" by (auto simp: ids)
      have "cls (g (fst p)) = cls (fst p)" using g True by (simp add: in_ids)
      moreover have "carries payload (snd (?give p))"
        using True x shipment_by_id_mem [OF ok x(1)] by (simp add: case_prod_beta carries_def give_slot_def)
      ultimately show ?thesis using ship [OF p] True by simp
    next
      case False
      then show ?thesis using items p by (simp add: entries_ok_def case_prod_beta)
    qed
    have "inj_on (\<lambda>p. pi_shipment (snd (?give p))) (set items)"
    proof (rule inj_onI)
      fix p q
      assume p: "p \<in> set items" and q: "q \<in> set items"
        and eq: "pi_shipment (snd (?give p)) = pi_shipment (snd (?give q))"
      have cl: "cls (fst p) = cls (fst q)" using cls [OF p] cls [OF q] eq by simp
      have known: "fst p \<in> ps_id ` set (sp_shipments payload)" "fst q \<in> ps_id ` set (sp_shipments payload)"
        using items p q by (auto simp: entries_ok_def)
      show "p = q"
      proof (cases "fst p \<in> set ids")
        case True
        then have "fst q \<in> set ids" using cl known by (simp add: in_ids)
        with True eq ship [OF p] ship [OF q] p q have "fst p = fst q"
          using 2(3) by (auto dest!: inj_onD)
        then show ?thesis
          using items p q by (cases p; cases q) (auto simp: entries_ok_def dest: eq_key_imp_eq_value)
      next
        case False
        then have "fst q \<notin> set ids" using cl known by (simp add: in_ids)
        with False eq ship [OF p] ship [OF q] have "pi_shipment (snd p) = pi_shipment (snd q)" by simp
        then show ?thesis using items p q by (auto simp: entries_ok_def dest: inj_onD)
      qed
    qed
    then have "inj_on (\<lambda>p. pi_shipment (snd p)) (?give ` set items)"
      by (auto simp: inj_on_def)
    moreover have "distinct (map fst (map ?give items))"
      using d2 by (simp add: case_prod_beta comp_def)
    moreover have "\<forall>p \<in> set (map ?give items). fst p \<in> ps_id ` set (sp_shipments payload)
        \<and> cls (pi_shipment (snd p)) = cls (fst p) \<and> carries payload (snd p)"
      using cls items unfolding set_map ball_simps(9) by (simp add: entries_ok_def case_prod_beta)
    ultimately have "entries_ok payload cls (map ?give items)"
      unfolding entries_ok_def set_map by blast
    moreover have "list_all2 same_place as (map ?give items)"
      using place by (auto simp: list.rel_map same_place_def case_prod_beta give_slot_def elim!: list.rel_mono_strong)
    ultimately show ?thesis using 2(1) by simp
  qed
qed

lemma fold_dict_put_distinct:
  "distinct (map key xs) \<Longrightarrow> fold (\<lambda>a. dict_put (key a) (f a)) xs [] = map (\<lambda>a. (key a, f a)) xs"
proof (induction xs rule: rev_induct)
  case Nil
  then show ?case by simp
next
  case (snoc x xs)
  then show ?case by (auto simp: dict_put_def image_image)
qed

text \<open>
  The whole pass: it keeps the flight, the volunteer and the size of every assignment, and gives it
  a shipment that is interchangeable with the one it was selected for.
\<close>

definition shipment_class ::
    "solver_payload \<Rightarrow> compatibility \<Rightarrow> nat \<Rightarrow> string \<times> int \<times> int \<times> int \<times> (nat \<times> nat) list" where
  "shipment_class payload ordered i = equal_weight_key ordered (shipment_of payload i)"

definition swapped :: "solver_payload \<Rightarrow> compatibility \<Rightarrow> plan_item \<Rightarrow> plan_item \<Rightarrow> bool" where
  "swapped payload ordered a b \<longleftrightarrow> pi_flight b = pi_flight a \<and> pi_volunteer b = pi_volunteer a
     \<and> pi_equivalent_units b = pi_equivalent_units a \<and> pi_carton_count b = pi_carton_count a
     \<and> pairs_of ordered (pi_shipment b) = pairs_of ordered (pi_shipment a)
     \<and> shipment_weight (shipment_of payload (pi_shipment b)) = shipment_weight (shipment_of payload (pi_shipment a))"

lemma canonicalize_keeps:
  fixes payload :: solver_payload and compatibility :: compatibility
  assumes ok: "payload_ok payload" and dist: "distinct (map pi_shipment as)"
    and carry: "\<forall>a \<in> set as. carries payload a"
  defines "ordered \<equiv> order_compatibility_pairs payload compatibility"
    and "bs \<equiv> canonicalize_legacy_equal_weight_assignments payload compatibility as"
  shows "distinct (map pi_shipment bs)" "\<forall>b \<in> set bs. carries payload b" "list_all2 (swapped payload ordered) as bs"
proof -
  define cls where "cls = shipment_class payload ordered"
  define items0 where "items0 = map (\<lambda>a. (pi_shipment a, a)) as"
  define groups where "groups = group_by (equal_weight_key ordered) (sp_shipments payload)"
  define pass where "pass = (\<lambda>(_ :: string \<times> int \<times> int \<times> int \<times> (nat \<times> nat) list, xs :: payload_shipment list).
     canonicalize_group (shipment_of payload) (flight_at payload) (map ps_id xs))"
  define P where "P items \<longleftrightarrow> entries_ok payload cls items \<and> list_all2 same_place as items" for items
  have "inj_on (\<lambda>p. pi_shipment (snd p)) (set items0)"
    using dist by (auto simp: items0_def inj_on_def distinct_map)
  then have P0: "P items0"
    using carry dist
    by (auto simp: P_def entries_ok_def items0_def comp_def carries_def list.rel_map same_place_def
        intro!: list.rel_refl_strong)
  have step: "P (pass kxs items)" if "kxs \<in> set groups" "P items" for kxs items
  proof -
    obtain k xs where kxs: "kxs = (k, xs)" by (cases kxs)
    have "xs = filter (\<lambda>x. equal_weight_key ordered x = k) (sp_shipments payload)"
      using that(1) by (simp add: kxs groups_def group_by_mem)
    also have "\<dots> = filter (\<lambda>x. cls (ps_id x) = k) (sp_shipments payload)"
      using shipment_by_id_mem [OF ok] by (auto simp: cls_def shipment_class_def intro!: filter_cong)
    finally have "map ps_id xs = map ps_id (filter (\<lambda>x. cls (ps_id x) = k) (sp_shipments payload))"
      by (rule arg_cong)
    from canonicalize_group_keeps [OF ok _ this] that(2) show ?thesis
      unfolding P_def pass_def kxs prod.case by blast
  qed
  have "P (fold pass gs items)" if "set gs \<subseteq> set groups" "P items" for gs items
    using that by (induction gs arbitrary: items) (auto intro: step)
  with P0 have P: "P (fold pass groups items0)" by blast
  define items where "items = fold pass groups items0"
  have bs: "bs = map snd items"
  proof (cases "as = []")
    case True
    then have "items0 = []" by (simp add: items0_def)
    with P True show ?thesis
      by (simp add: bs_def canonicalize_legacy_equal_weight_assignments_def items_def P_def)
  next
    case False
    then show ?thesis
      by (simp add: bs_def canonicalize_legacy_equal_weight_assignments_def Let_def items_def items0_def pass_def
          groups_def ordered_def fold_dict_put_distinct [OF dist])
  qed
  have e: "entries_ok payload cls items" and pl: "list_all2 same_place as items"
    using P by (simp_all add: P_def items_def)
  have "distinct items" using e by (auto simp: entries_ok_def simp: distinct_map)
  then show "distinct (map pi_shipment bs)"
    using e by (simp add: bs distinct_map comp_def entries_ok_def)
  show "\<forall>b \<in> set bs. carries payload b"
    using e by (auto simp: bs entries_ok_def)
  have "swapped payload ordered a (snd p)" if "same_place a p" "a \<in> set as" "p \<in> set items" for a p
  proof -
    have "cls (pi_shipment (snd p)) = cls (pi_shipment a)" "carries payload (snd p)" "carries payload a"
      using that e carry by (auto simp: entries_ok_def same_place_def)
    then show ?thesis
      using that(1) shipment_by_id_mem [OF ok]
      by (auto simp: swapped_def same_place_def cls_def shipment_class_def equal_weight_key_def carries_def shipment_weight_def)
  qed
  with pl show "list_all2 (swapped payload ordered) as bs"
    by (auto simp: bs list.rel_map elim!: list.rel_mono_strong)
qed

end
