(* ===== verification/Plan_Feasibility.thy ===== *)
theory Plan_Feasibility
  imports Plan_Solver_Facts
begin

text \<open>
  The plan \<open>solve_run\<close> stores is within the rules: what the constraints handed to the solver say of
  the assignments read from its answer, and that the passes over them afterwards keep it so.
\<close>

section \<open>Plans that respect the volunteers\<close>

text \<open>The weight a volunteer carries on a flight.\<close>

definition volunteer_load :: "plan_item list \<Rightarrow> nat \<Rightarrow> nat \<Rightarrow> int" where
  "volunteer_load items f v =
     sum_list (map pi_equivalent_units (filter (\<lambda>a. pi_volunteer a = v) (filter (\<lambda>a. pi_flight a = f) items)))"

definition goes_with :: "solver_payload \<Rightarrow> plan_item \<Rightarrow> bool" where
  "goes_with payload a \<longleftrightarrow>
     (pi_flight a, pi_volunteer a) \<in> set (compatible_pairs payload (shipment_of payload (pi_shipment a)))"

definition loads_ok :: "solver_payload \<Rightarrow> plan_item list \<Rightarrow> bool" where
  "loads_ok payload items \<longleftrightarrow>
     (\<forall>a \<in> set items. volunteer_load items (pi_flight a) (pi_volunteer a) \<le> capacity_of payload (pi_volunteer a))"

definition flights_apart :: "solver_payload \<Rightarrow> plan_item list \<Rightarrow> bool" where
  "flights_apart payload items \<longleftrightarrow>
     (\<forall>a \<in> set items. \<forall>b \<in> set items. pi_volunteer a = pi_volunteer b \<longrightarrow> pi_flight a \<noteq> pi_flight b
        \<longrightarrow> \<not> flights_conflict (flight_at payload) (pi_flight a) (pi_flight b))"

definition volunteers_ok :: "solver_payload \<Rightarrow> plan_item list \<Rightarrow> bool" where
  "volunteers_ok payload items \<longleftrightarrow>
     (\<forall>a \<in> set items. carries payload a \<and> goes_with payload a) \<and> loads_ok payload items \<and> flights_apart payload items"

text \<open>What an assignment is without its volunteer.\<close>

definition unmanned :: "plan_item \<Rightarrow> plan_item" where
  "unmanned a = a\<lparr>pi_volunteer := 0\<rparr>"

lemma unmanned_simps [simp]:
  "pi_shipment (unmanned a) = pi_shipment a" "pi_flight (unmanned a) = pi_flight a"
  "pi_equivalent_units (unmanned a) = pi_equivalent_units a" "pi_carton_count (unmanned a) = pi_carton_count a"
  "pi_volunteer (unmanned a) = 0" "unmanned (a\<lparr>pi_volunteer := v\<rparr>) = unmanned a"
  by (simp_all add: unmanned_def)

lemma map_unmanned_flight: "map unmanned xs = map unmanned ys \<Longrightarrow> map pi_flight xs = map pi_flight ys"
proof -
  assume eq: "map unmanned xs = map unmanned ys"
  have "map pi_flight zs = map pi_flight (map unmanned zs)" for zs by (simp add: comp_def)
  with eq show "map pi_flight xs = map pi_flight ys" by metis
qed

lemma sum_list_mset_cong: "mset xs = mset ys \<Longrightarrow> sum_list (map f xs) = (sum_list (map f ys) :: int)"
  by (metis mset_map sum_mset_sum_list)

lemma volunteers_ok_mset:
  assumes "mset xs = mset ys"
  shows "volunteers_ok payload xs \<longleftrightarrow> volunteers_ok payload ys"
proof -
  have "set xs = set ys" using assms by (rule mset_eq_setD)
  moreover have "volunteer_load xs f v = volunteer_load ys f v" for f v
    unfolding volunteer_load_def using assms by (intro sum_list_mset_cong) simp
  ultimately show ?thesis
    by (simp add: volunteers_ok_def loads_ok_def flights_apart_def)
qed

lemma compatible_pairs_mem:
  "(f, v) \<in> set (compatible_pairs payload x) \<longleftrightarrow>
     (\<exists>flight \<in> set (sp_flights payload). \<exists>volunteer \<in> set (sp_volunteers payload).
        pf_id flight = f \<and> pl_id volunteer = v \<and> shipment_is_compatible_with_flight x flight
        \<and> ps_equivalent_units x \<le> volunteer_capacity volunteer
        \<and> volunteer_is_compatible_with_flight volunteer flight)"
  by (force simp: compatible_pairs_def)

lemma carried_units_nonneg:
  assumes "payload_ok payload" and "carries payload a"
  shows "0 \<le> pi_equivalent_units a"
  using assms shipment_by_id_mem [OF assms(1)] by (auto simp: carries_def payload_ok_def list_all_iff)

text \<open>A volunteer of the flight can take any assignment of it that is within their capacity.\<close>

lemma goes_with_volunteer_of_flight:
  assumes ok: "payload_ok payload" and a: "goes_with payload a" "carries payload a"
    and b: "goes_with payload b" "pi_flight b = pi_flight a"
    and cap: "pi_equivalent_units a \<le> capacity_of payload (pi_volunteer b)"
  shows "goes_with payload (a\<lparr>pi_volunteer := pi_volunteer b\<rparr>)"
proof -
  let ?x = "shipment_of payload (pi_shipment a)"
  obtain f where f: "f \<in> set (sp_flights payload)" "pf_id f = pi_flight a" "shipment_is_compatible_with_flight ?x f"
    using a(1) by (auto simp: goes_with_def compatible_pairs_mem)
  obtain g v where g: "g \<in> set (sp_flights payload)" "v \<in> set (sp_volunteers payload)" "pf_id g = pi_flight a"
    "pl_id v = pi_volunteer b" "volunteer_is_compatible_with_flight v g"
    using b by (auto simp: goes_with_def compatible_pairs_mem)
  have "g = f"
    using f(1,2) g(1,3) flight_by_id_mem [OF ok] by (metis option.inject)
  moreover have "ps_equivalent_units ?x \<le> volunteer_capacity v"
    using cap a(2) volunteer_by_id_mem [OF ok g(2)] g(4) by (simp add: capacity_of_def carries_def)
  ultimately show ?thesis
    using f g by (auto simp: goes_with_def compatible_pairs_mem)
qed

section \<open>The flights with several assignments\<close>

lemma volunteer_load_distribution:
  assumes "length d = length items" and "distinct ids" and "\<forall>i \<in> set d. i < length ids" and "j < length ids"
    and "\<forall>a \<in> set items. pi_flight a = f"
  shows "volunteer_load (map (\<lambda>(a, i). a\<lparr>pi_volunteer := ids ! i\<rparr>) (zip items d)) f (ids ! j)
    = load_at (map pi_equivalent_units items) d j"
  using assms
proof (induction d items rule: list_induct2)
  case Nil
  show ?case by (simp add: volunteer_load_def load_at_def)
next
  case (Cons i d a items)
  have "ids ! i = ids ! j \<longleftrightarrow> i = j"
    using Cons.prems by (simp add: nth_eq_iff_index_eq)
  with Cons show ?case
    by (simp add: volunteer_load_def load_at_Cons)
qed

lemma volunteer_load_member:
  assumes "a \<in> set items" and "\<And>b. b \<in> set items \<Longrightarrow> 0 \<le> pi_equivalent_units b"
  shows "pi_equivalent_units a \<le> volunteer_load items (pi_flight a) (pi_volunteer a)"
  unfolding volunteer_load_def by (rule sum_list_map_ge_member) (use assms in auto)

text \<open>What the pass does to one flight: other volunteers of the flight at most, within their capacities.\<close>

definition remanned :: "solver_payload \<Rightarrow> plan_item list \<Rightarrow> plan_item list \<Rightarrow> bool" where
  "remanned payload items items' \<longleftrightarrow>
     mset (map unmanned items') = mset (map unmanned items)
     \<and> (\<forall>a \<in> set items'. goes_with payload a \<and> pi_volunteer a \<in> pi_volunteer ` set items
          \<and> volunteer_load items' (pi_flight a) (pi_volunteer a) \<le> capacity_of payload (pi_volunteer a))"

lemma remanned_perm:
  assumes "volunteers_ok payload items" and "mset items' = mset items"
  shows "remanned payload items items'"
proof -
  have "volunteers_ok payload items'"
    using assms volunteers_ok_mset by blast
  moreover have "set items' = set items" using assms(2) by (rule mset_eq_setD)
  ultimately show ?thesis
    using assms(2) by (auto simp: remanned_def volunteers_ok_def loads_ok_def)
qed

lemma carries_unmanned: "unmanned a = unmanned b \<Longrightarrow> carries payload a = carries payload b"
  unfolding carries_def by (metis unmanned_simps(1,3,4))

lemma rebalance_flight_remanned:
  assumes ok: "payload_ok payload" and items: "volunteers_ok payload items"
    and flight: "\<forall>a \<in> set items. pi_flight a = f"
  shows "remanned payload items (rebalance_flight payload items)"
proof -
  define ordered where "ordered = sort_key (\<lambda>a. (pi_reference a, pi_shipment a)) items"
  define ids where "ids = sort_key (\<lambda>i. volunteer_assignment_order_key i (volunteer_by_id payload i))
    (remdups (map pi_volunteer ordered))"
  have perm: "remanned payload items ordered"
    by (rule remanned_perm [OF items]) (simp add: ordered_def)
  have set_ordered: "set ordered = set items" by (simp add: ordered_def)
  have ids: "distinct ids" "set ids = pi_volunteer ` set items"
    by (simp_all add: ids_def set_ordered)
  show ?thesis
  proof (cases "length ids \<le> 1 \<or> solve_lexicographic_flight_distribution (map pi_equivalent_units ordered)
      (map (capacity_of payload) ids) = None")
    case True
    then have "rebalance_flight payload items = ordered"
      by (auto simp: rebalance_flight_def Let_def ordered_def ids_def)
    with perm show ?thesis by simp
  next
    case False
    then obtain d where d: "solve_lexicographic_flight_distribution (map pi_equivalent_units ordered)
        (map (capacity_of payload) ids) = Some d" and len: "\<not> length ids \<le> 1" by auto
    let ?new = "map (\<lambda>(a, i). a\<lparr>pi_volunteer := ids ! i\<rparr>) (zip ordered d)"
    have new: "rebalance_flight payload items = ?new"
      using d len by (simp add: rebalance_flight_def Let_def ordered_def ids_def)
    have nonneg: "0 \<le> pi_equivalent_units a" if "a \<in> set items" for a
      using items that carried_units_nonneg [OF ok] by (auto simp: volunteers_ok_def)
    have feas: "feasible_distribution (map pi_equivalent_units ordered) (map (capacity_of payload) ids) d"
      by (rule distribution_sound [OF _ d]) (auto simp: set_ordered nonneg)
    then have ld: "length d = length ordered" and di: "\<forall>i \<in> set d. i < length ids"
        and caps: "\<forall>i \<in> set d. load_at (map pi_equivalent_units ordered) d i \<le> capacity_of payload (ids ! i)"
      by (auto simp: feasible_distribution_def)
    have "map unmanned ?new = map unmanned (map fst (zip ordered d))"
      by (simp add: comp_def case_prod_beta)
    also have "\<dots> = map unmanned ordered" using ld by simp
    finally have "map unmanned ?new = map unmanned ordered" .
    then have "mset (map unmanned ?new) = mset (map unmanned items)"
      using perm by (simp only: remanned_def)
    moreover have "goes_with payload b \<and> pi_volunteer b \<in> pi_volunteer ` set items
        \<and> volunteer_load ?new (pi_flight b) (pi_volunteer b) \<le> capacity_of payload (pi_volunteer b)"
      if b: "b \<in> set ?new" for b
    proof -
      obtain a i where ai: "(a, i) \<in> set (zip ordered d)" "b = a\<lparr>pi_volunteer := ids ! i\<rparr>"
        using b by auto
      then have a: "a \<in> set items" and i: "i \<in> set d"
        by (auto simp: set_ordered dest: set_zip_leftD set_zip_rightD)
      have "ids ! i \<in> set ids" using i di by auto
      then obtain c where c: "c \<in> set items" "pi_volunteer c = ids ! i" using ids(2) by auto
      have "volunteer_load ?new f (ids ! i) = load_at (map pi_equivalent_units ordered) d i"
        by (rule volunteer_load_distribution [OF ld ids(1) di]) (use i di flight set_ordered in auto)
      then have load: "volunteer_load ?new (pi_flight b) (pi_volunteer b) \<le> capacity_of payload (pi_volunteer b)"
        using caps i ai(2) a flight by simp
      have "pi_equivalent_units b \<le> volunteer_load ?new (pi_flight b) (pi_volunteer b)"
      proof (rule volunteer_load_member [OF b])
        fix e assume "e \<in> set ?new"
        then show "0 \<le> pi_equivalent_units e"
          by (auto simp: set_ordered nonneg dest: set_zip_leftD)
      qed
      with load have "pi_equivalent_units a \<le> capacity_of payload (pi_volunteer c)"
        using ai(2) c(2) by simp
      then have "goes_with payload (a\<lparr>pi_volunteer := pi_volunteer c\<rparr>)"
        using items a c(1) flight
        by (intro goes_with_volunteer_of_flight [OF ok]) (auto simp: volunteers_ok_def)
      moreover have "ids ! i \<in> pi_volunteer ` set items" using c by force
      ultimately show ?thesis using load ai(2) c(2) by simp
    qed
    ultimately show ?thesis unfolding new remanned_def by blast
  qed
qed

section \<open>The flights with one assignment\<close>

lemma flights_conflict_sym: "flights_conflict flight f g = flights_conflict flight g f"
  by (auto simp: flights_conflict_def close_in_time_def abs_minus_commute)

lemma fold_best_mem:
  "fold (\<lambda>choice best. case best of None \<Rightarrow> Some choice | Some b \<Rightarrow> if b < choice then Some choice else best) xs best
     = Some c \<Longrightarrow> c \<in> set xs \<or> best = Some c"
  by (induction xs arbitrary: best) (fastforce split: option.splits if_splits)+

lemma pairs_of_compatibility:
  assumes "payload_ok payload" and "x \<in> set (sp_shipments payload)"
  shows "set (pairs_of (compute_compatibility payload) (ps_id x)) = set (compatible_pairs payload x)"
proof -
  have "map_of (map (\<lambda>y. (ps_id y, sort_key (pair_rank payload) (compatible_pairs payload y))) ys) (ps_id x)
      = Some (sort_key (pair_rank payload) (compatible_pairs payload x))"
    if "distinct (map ps_id ys)" "x \<in> set ys" for ys
    using that by (intro map_of_is_SomeI) (auto simp: comp_def)
  then show ?thesis
    using assms by (simp add: pairs_of_def compute_compatibility_def payload_ok_def)
qed

lemma select_single_cases:
  assumes "payload_ok payload" and "carries payload (items ! n)"
  defines "a \<equiv> items ! n"
    and "v \<equiv> select_single_shipment_volunteer payload (compute_compatibility payload) items n"
  shows "v = pi_volunteer a
    \<or> goes_with payload (a\<lparr>pi_volunteer := v\<rparr>) \<and> pi_equivalent_units a \<le> capacity_of payload v
      \<and> \<not> assignment_conflicts_for_volunteer (flight_at payload) v (pi_flight a) items n"
proof -
  define compatible where
    "compatible = first_unique [v. (f, v) \<leftarrow> pairs_of (compute_compatibility payload) (pi_shipment a), f = pi_flight a]"
  define offer where "offer i = (case volunteer_by_id payload i of None \<Rightarrow> None
    | Some v \<Rightarrow> if pi_equivalent_units a > volunteer_capacity v then None
        else if assignment_conflicts_for_volunteer (flight_at payload) i (pi_flight a) items n then None
        else map_option (volunteer_choice_key v)
               (volunteer_slot_bounds_for_flight v (flight_at payload (pi_flight a))))" for i
  define best where "best = fold (\<lambda>choice best. case best of None \<Rightarrow> Some choice
     | Some b \<Rightarrow> if b < choice then Some choice else best) (List.map_filter offer compatible) None"
  have v: "v = (case best of None \<Rightarrow> pi_volunteer a | Some (_, _, _, i) \<Rightarrow> i)"
    unfolding v_def select_single_shipment_volunteer_def Let_def best_def offer_def compatible_def a_def
    by (rule refl)
  show ?thesis
  proof (cases best)
    case None
    then show ?thesis using v by simp
  next
    case (Some c)
    then have "c \<in> set (List.map_filter offer compatible)"
      using fold_best_mem unfolding best_def by blast
    then obtain i where i: "i \<in> set compatible" "offer i = Some c"
      by (auto simp: map_filter_def)
    then obtain w b where w: "volunteer_by_id payload i = Some w" "\<not> pi_equivalent_units a > volunteer_capacity w"
      "\<not> assignment_conflicts_for_volunteer (flight_at payload) i (pi_flight a) items n"
      "c = volunteer_choice_key w b"
      by (auto simp: offer_def split: option.splits if_splits)
    have "pl_id w = i" using w(1) by (auto simp: volunteer_by_id_def find_Some_iff)
    then have vi: "v = i" using v Some w(4) by (simp add: volunteer_choice_key_def)
    obtain x where x: "x \<in> set (sp_shipments payload)" "ps_id x = pi_shipment a"
      using assms(2) by (auto simp: carries_def a_def)
    have "(pi_flight a, i) \<in> set (pairs_of (compute_compatibility payload) (pi_shipment a))"
      using i(1) by (auto simp: compatible_def)
    then have "goes_with payload (a\<lparr>pi_volunteer := v\<rparr>)"
      using pairs_of_compatibility [OF assms(1) x(1)] shipment_by_id_mem [OF assms(1) x(1)] x(2) vi
      by (simp add: goes_with_def)
    then show ?thesis using w vi by (simp add: capacity_of_def)
  qed
qed

lemma filter_update_other:
  assumes "\<not> P (xs ! n)" and "\<not> P b"
  shows "filter P (xs[n := b]) = filter P xs"
proof (cases "n < length xs")
  case True
  have "xs[n := b] = take n xs @ b # drop (Suc n) xs" using True by (rule upd_conv_take_nth_drop)
  moreover have "xs = take n xs @ xs ! n # drop (Suc n) xs" using True by (rule id_take_nth_drop)
  ultimately show ?thesis using assms by (metis filter.simps(2) filter_append)
next
  case False
  then show ?thesis by (simp add: list_update_beyond)
qed

lemma filter_one_index:
  assumes "length (filter P xs) = 1" "P (xs ! n)" "n < length xs" "P (xs ! m)" "m < length xs"
  shows "m = n"
proof -
  have "card {i. i < length xs \<and> P (xs ! i)} = 1" using assms(1) by (simp add: length_filter_conv_card)
  then obtain i where i: "{i. i < length xs \<and> P (xs ! i)} = {i}" by (rule card_1_singletonE)
  have "n \<in> {i. i < length xs \<and> P (xs ! i)}" "m \<in> {i. i < length xs \<and> P (xs ! i)}"
    using assms(2-) by simp_all
  then show ?thesis unfolding i by simp
qed

definition alone :: "plan_item list \<Rightarrow> nat \<Rightarrow> bool" where
  "alone items n \<longleftrightarrow> length (filter (\<lambda>a. pi_flight a = pi_flight (items ! n)) items) = 1"

lemma alone_flights: "map pi_flight xs = map pi_flight ys \<Longrightarrow> n < length xs \<Longrightarrow> alone xs n = alone ys n"
proof -
  assume eq: "map pi_flight xs = map pi_flight ys" and n: "n < length xs"
  have len: "length (filter (\<lambda>a. pi_flight a = f) zs) = length (filter (\<lambda>g. g = f) (map pi_flight zs))" for f zs
    by (simp add: filter_map comp_def)
  have "n < length ys" using eq n by (metis length_map)
  then have "pi_flight (xs ! n) = pi_flight (ys ! n)" using eq n by (metis nth_map)
  then show ?thesis by (simp add: alone_def len eq)
qed

lemma reassign_single_keeps:
  assumes ok: "payload_ok payload" and n: "n < length items" and alone: "alone items n"
    and items: "volunteers_ok payload items"
  shows "volunteers_ok payload (reassign_single payload (compute_compatibility payload) n items)
    \<and> map unmanned (reassign_single payload (compute_compatibility payload) n items) = map unmanned items"
proof -
  define a where "a = items ! n"
  define v where "v = select_single_shipment_volunteer payload (compute_compatibility payload) items n"
  let ?b = "a\<lparr>pi_volunteer := v\<rparr>"
  let ?new = "items[n := ?b]"
  have new: "reassign_single payload (compute_compatibility payload) n items = ?new"
    by (simp add: reassign_single_def a_def v_def)
  have a: "a \<in> set items" using n by (simp add: a_def)
  then have ca: "carries payload a" using items by (auto simp: volunteers_ok_def)
  have skel: "map unmanned ?new = map unmanned items"
    using n by (simp add: map_update a_def list_update_same_conv)
  have others: "pi_flight (items ! m) \<noteq> pi_flight a" if "m < length items" "m \<noteq> n" for m
    using filter_one_index [OF alone [unfolded alone_def] _ n, of m] that by (auto simp: a_def)
  from select_single_cases [OF ok ca [unfolded a_def], folded a_def v_def] show ?thesis
  proof
    assume "v = pi_volunteer a"
    then have "?new = items" by (simp add: a_def)
    then show ?thesis using new items by simp
  next
    assume sel: "goes_with payload ?b \<and> pi_equivalent_units a \<le> capacity_of payload v
      \<and> \<not> assignment_conflicts_for_volunteer (flight_at payload) v (pi_flight a) items n"
    have split: "b = ?b \<or> (\<exists>m < length items. m \<noteq> n \<and> b = items ! m)" if "b \<in> set ?new" for b
      using that n by (auto simp: in_set_conv_nth nth_list_update split: if_splits)
    have only: "filter (\<lambda>c. pi_flight c = pi_flight a) ?new = [?b]"
    proof -
      have "map pi_flight ?new = map pi_flight items"
        using skel by (rule map_unmanned_flight)
      then have "alone ?new n" using alone n alone_flights [of ?new items n] by simp
      then obtain c where c: "filter (\<lambda>c. pi_flight c = pi_flight a) ?new = [c]"
        using n by (auto simp: alone_def length_Suc_conv)
      moreover have "?b \<in> set (filter (\<lambda>c. pi_flight c = pi_flight a) ?new)"
        using n by (simp add: set_update_memI)
      ultimately show ?thesis by simp
    qed
    have "loads_ok payload ?new"
      unfolding loads_ok_def
    proof
      fix b assume "b \<in> set ?new"
      from split [OF this] show "volunteer_load ?new (pi_flight b) (pi_volunteer b) \<le> capacity_of payload (pi_volunteer b)"
      proof (elim disjE exE conjE)
        assume "b = ?b"
        then show ?thesis using sel by (simp add: volunteer_load_def only)
      next
        fix m assume m: "m < length items" "m \<noteq> n" "b = items ! m"
        have "filter (\<lambda>c. pi_flight c = pi_flight b) ?new = filter (\<lambda>c. pi_flight c = pi_flight b) items"
          by (rule filter_update_other) (use others [OF m(1,2)] m(3) a_def in auto)
        then have "volunteer_load ?new (pi_flight b) (pi_volunteer b) = volunteer_load items (pi_flight b) (pi_volunteer b)"
          by (simp add: volunteer_load_def)
        then show ?thesis using items m by (simp add: volunteers_ok_def loads_ok_def)
      qed
    qed
    moreover have free: "\<not> flights_conflict (flight_at payload) (pi_flight a) (pi_flight (items ! m))"
      if "m < length items" "m \<noteq> n" "pi_volunteer (items ! m) = v" for m
      using sel that by (force simp: assignment_conflicts_for_volunteer_def list_ex_iff set_zip)
    have "flights_apart payload ?new"
      unfolding flights_apart_def
    proof (intro ballI impI)
      fix b c
      assume "b \<in> set ?new" "c \<in> set ?new" and eq: "pi_volunteer b = pi_volunteer c" "pi_flight b \<noteq> pi_flight c"
      with split have "b = ?b \<or> (\<exists>m < length items. m \<noteq> n \<and> b = items ! m)"
        "c = ?b \<or> (\<exists>m < length items. m \<noteq> n \<and> c = items ! m)" by blast+
      then show "\<not> flights_conflict (flight_at payload) (pi_flight b) (pi_flight c)"
        using eq free items flights_conflict_sym
        by (elim disjE exE conjE) (auto simp: volunteers_ok_def flights_apart_def)
    qed
    moreover have "carries payload b \<and> goes_with payload b" if "b \<in> set ?new" for b
      using split [OF that] sel items ca by (auto simp: volunteers_ok_def carries_def)
    ultimately show ?thesis unfolding new using skel by (simp add: volunteers_ok_def)
  qed
qed

lemma reassign_singles_keep:
  assumes "payload_ok payload" and "volunteers_ok payload items"
    and "\<forall>n \<in> set ns. n < length items \<and> alone items n"
  shows "volunteers_ok payload (fold (reassign_single payload (compute_compatibility payload)) ns items)
    \<and> map unmanned (fold (reassign_single payload (compute_compatibility payload)) ns items) = map unmanned items"
  using assms(2,3)
proof (induction ns arbitrary: items)
  case Nil
  then show ?case by simp
next
  case (Cons n ns)
  let ?next = "reassign_single payload (compute_compatibility payload) n items"
  have step: "volunteers_ok payload ?next" "map unmanned ?next = map unmanned items"
    using reassign_single_keeps [OF assms(1), of n items] Cons.prems by auto
  then have "length ?next = length items" "map pi_flight ?next = map pi_flight items"
    by (metis length_map, metis map_unmanned_flight)
  then have "\<forall>m \<in> set ns. m < length ?next \<and> alone ?next m"
    using Cons.prems(2) alone_flights by (metis list.set_intros(2))
  with Cons.IH [OF step(1)] step(2) show ?case by simp
qed

section \<open>The whole pass over the flights\<close>

lemma mset_partition_map:
  "mset (concat (map r (filter P gs))) + mset (concat (filter (\<lambda>g. \<not> P g) gs))
    = mset (concat (map (\<lambda>g. if P g then r g else g) gs))"
  by (induction gs) (auto simp: union_ac)

lemma mset_unmanned_flights:
  assumes "mset (map unmanned xs) = mset (map unmanned ys)"
  shows "length (filter (\<lambda>a. pi_flight a = f) xs) = length (filter (\<lambda>a. pi_flight a = f) ys)"
proof -
  have eq: "length (filter (\<lambda>a. pi_flight a = f) zs) = size (filter_mset (\<lambda>a. pi_flight a = f) (mset (map unmanned zs)))" for zs
    by (induction zs) auto
  show ?thesis unfolding eq assms by (rule refl)
qed

lemma mset_unmanned_mem:
  assumes "mset (map unmanned xs) = mset (map unmanned ys)" and "a \<in> set xs"
  obtains b where "b \<in> set ys" "unmanned a = unmanned b"
proof -
  have "unmanned ` set xs = unmanned ` set ys"
    using assms(1) by (metis list.set_map mset_eq_setD)
  with assms(2) that show thesis by (metis image_iff)
qed

lemma volunteer_load_one_flight:
  assumes "distinct ks" and "\<And>k a. k \<in> set ks \<Longrightarrow> a \<in> set (h k) \<Longrightarrow> pi_flight a = k" and "f \<in> set ks"
  shows "volunteer_load (concat (map h ks)) f v = volunteer_load (h f) f v"
proof -
  have "filter (\<lambda>a. pi_flight a = f) (concat (map h ks)) = filter (\<lambda>a. pi_flight a = f) (h f)"
    using assms
  proof (induction ks)
    case Nil
    then show ?case by simp
  next
    case (Cons k ks)
    show ?case
    proof (cases "f = k")
      case True
      have "filter (\<lambda>a. pi_flight a = f) (concat (map h ks)) = []"
        unfolding filter_empty_conv
      proof
        fix a assume "a \<in> set (concat (map h ks))"
        then obtain j where "j \<in> set ks" "a \<in> set (h j)" by auto
        then show "pi_flight a \<noteq> f" using Cons.prems(1) Cons.prems(2) [of j a] True by auto
      qed
      with True show ?thesis by simp
    next
      case False
      then have "filter (\<lambda>a. pi_flight a = f) (h k) = []"
        using Cons.prems(2) [of k] by (auto simp: filter_empty_conv)
      with False Cons show ?thesis by simp
    qed
  qed
  then show ?thesis by (simp add: volunteer_load_def)
qed

text \<open>The flights are handled one by one: a plan remanned on every flight is still a valid one.\<close>

lemma volunteers_ok_by_flight:
  assumes ok: "payload_ok payload" and as: "volunteers_ok payload as"
    and ks: "distinct ks" "set ks = pi_flight ` set as"
    and h: "\<And>k. k \<in> set ks \<Longrightarrow> remanned payload (filter (\<lambda>a. pi_flight a = k) as) (h k)"
  shows "volunteers_ok payload (concat (map h ks))"
    and "mset (map unmanned (concat (map h ks))) = mset (map unmanned as)"
proof -
  let ?grp = "\<lambda>k. filter (\<lambda>a. pi_flight a = k) as"
  have skel: "mset (map unmanned (h k)) = mset (map unmanned (?grp k))" if "k \<in> set ks" for k
    using h [OF that] by (simp only: remanned_def)
  have flight: "pi_flight a = k" if k: "k \<in> set ks" and a: "a \<in> set (h k)" for k a
  proof -
    obtain b where b: "b \<in> set (?grp k)" "unmanned a = unmanned b"
      by (rule mset_unmanned_mem [OF skel [OF k] a])
    then have "pi_flight a = pi_flight b" by (metis unmanned_simps(2))
    with b(1) show ?thesis by simp
  qed
  have "mset (concat (map (\<lambda>k. map unmanned (h k)) ks')) = mset (concat (map (\<lambda>k. map unmanned (?grp k)) ks'))"
    if "set ks' \<subseteq> set ks" for ks'
    using that by (induction ks') (auto simp: skel simp del: mset_map)
  then have "mset (map unmanned (concat (map h ks))) = mset (map unmanned (concat (map ?grp ks)))"
    by (simp add: map_concat comp_def del: mset_map)
  also have "\<dots> = mset (map unmanned as)"
    using mset_filter_classes [OF ks(1), of pi_flight as] ks(2) by simp
  finally show skeleton: "mset (map unmanned (concat (map h ks))) = mset (map unmanned as)" .
  have member: "\<exists>k \<in> set ks. a \<in> set (h k) \<and> pi_flight a = k" if mem: "a \<in> set (concat (map h ks))" for a
  proof -
    from mem obtain k where "k \<in> set ks" "a \<in> set (h k)" by auto
    with flight show ?thesis by blast
  qed
  have origin: "\<exists>b \<in> set as. pi_flight b = pi_flight a \<and> pi_volunteer b = pi_volunteer a"
    if mem: "a \<in> set (concat (map h ks))" for a
  proof -
    obtain k where k: "k \<in> set ks" "a \<in> set (h k)" "pi_flight a = k" using member [OF mem] by blast
    with h [OF k(1)] have "pi_volunteer a \<in> pi_volunteer ` set (?grp k)" unfolding remanned_def by blast
    then show ?thesis using k(3) by auto
  qed
  have "carries payload a \<and> goes_with payload a" if mem: "a \<in> set (concat (map h ks))" for a
  proof -
    obtain k where k: "k \<in> set ks" "a \<in> set (h k)" using member [OF mem] by blast
    obtain b where "b \<in> set as" "unmanned a = unmanned b" using mset_unmanned_mem [OF skeleton mem] .
    then have "carries payload a" using as carries_unmanned [of a b] unfolding volunteers_ok_def by blast
    moreover have "goes_with payload a" using h [OF k(1)] k(2) unfolding remanned_def by blast
    ultimately show ?thesis ..
  qed
  moreover have "loads_ok payload (concat (map h ks))"
    unfolding loads_ok_def
  proof
    fix a assume "a \<in> set (concat (map h ks))"
    then obtain k where k: "k \<in> set ks" "a \<in> set (h k)" "pi_flight a = k" using member by blast
    have "volunteer_load (h k) (pi_flight a) (pi_volunteer a) \<le> capacity_of payload (pi_volunteer a)"
      using h [OF k(1)] k(2) unfolding remanned_def by blast
    then show "volunteer_load (concat (map h ks)) (pi_flight a) (pi_volunteer a) \<le> capacity_of payload (pi_volunteer a)"
      using volunteer_load_one_flight [OF ks(1) flight k(1)] k(3) by simp
  qed
  moreover have "flights_apart payload (concat (map h ks))"
    unfolding flights_apart_def
  proof (intro ballI impI)
    fix a b
    assume "a \<in> set (concat (map h ks))" "b \<in> set (concat (map h ks))"
      and eq: "pi_volunteer a = pi_volunteer b" "pi_flight a \<noteq> pi_flight b"
    then obtain c d where "c \<in> set as" "pi_flight c = pi_flight a" "pi_volunteer c = pi_volunteer a"
      "d \<in> set as" "pi_flight d = pi_flight b" "pi_volunteer d = pi_volunteer b"
      using origin by metis
    with eq as show "\<not> flights_conflict (flight_at payload) (pi_flight a) (pi_flight b)"
      unfolding volunteers_ok_def flights_apart_def by metis
  qed
  ultimately show "volunteers_ok payload (concat (map h ks))" by (simp add: volunteers_ok_def)
qed

lemma volunteers_ok_flight:
  assumes "volunteers_ok payload as"
  shows "volunteers_ok payload (filter (\<lambda>a. pi_flight a = k) as)"
proof -
  have "filter (\<lambda>a. pi_flight a = k) (filter (\<lambda>a. pi_flight a = k) as) = filter (\<lambda>a. pi_flight a = k) as"
    by simp
  with assms show ?thesis
    by (auto simp: volunteers_ok_def loads_ok_def flights_apart_def volunteer_load_def)
qed

lemma rebalance_keeps:
  assumes ok: "payload_ok payload" and as: "volunteers_ok payload as"
  shows "volunteers_ok payload (rebalance_assignments_by_flight payload (compute_compatibility payload) as)"
    and "mset (map unmanned (rebalance_assignments_by_flight payload (compute_compatibility payload) as))
      = mset (map unmanned as)"
proof -
  define ks where "ks = first_unique (map pi_flight as)"
  let ?grp = "\<lambda>k. filter (\<lambda>a. pi_flight a = k) as"
  define groups where "groups = map ?grp ks"
  define rebalanced where "rebalanced = concat (map (rebalance_flight payload) (filter (\<lambda>g. length g \<noteq> 1) groups))"
  define singles where "singles = sort_key (\<lambda>a. (flight_datetime_key (flight_at payload (pi_flight a)), pi_reference a))
    (concat (filter (\<lambda>g. length g = 1) groups))"
  let ?start = "rebalanced @ singles"
  let ?h = "\<lambda>k. if length (?grp k) \<noteq> 1 then rebalance_flight payload (?grp k) else ?grp k"
  have ks: "distinct ks" "set ks = pi_flight ` set as" by (simp_all add: ks_def)
  have man: "remanned payload (?grp k) (?h k)" for k
  proof (cases "length (?grp k) \<noteq> 1")
    case True
    then show ?thesis
      using rebalance_flight_remanned [OF ok volunteers_ok_flight [OF as], of k k] by simp
  next
    case False
    then show ?thesis using remanned_perm [OF volunteers_ok_flight [OF as] refl] by simp
  qed
  note by_flight = volunteers_ok_by_flight [OF ok as ks, of ?h, OF man]
  have "mset ?start = mset (concat (map (\<lambda>g. if length g \<noteq> 1 then rebalance_flight payload g else g) groups))"
    using mset_partition_map [of "rebalance_flight payload" "\<lambda>g. length g \<noteq> 1" groups]
    by (simp add: rebalanced_def singles_def)
  also have "concat (map (\<lambda>g. if length g \<noteq> 1 then rebalance_flight payload g else g) groups) = concat (map ?h ks)"
    by (simp add: groups_def comp_def)
  finally have start: "mset ?start = mset (concat (map ?h ks))" .
  have ok0: "volunteers_ok payload ?start"
    using by_flight(1) volunteers_ok_mset [OF start] by blast
  have skel0: "mset (map unmanned ?start) = mset (map unmanned as)"
    using by_flight(2) unfolding mset_map start by assumption
  have single: "\<exists>k. x \<in> set (?grp k) \<and> length (?grp k) = 1" if "x \<in> set singles" for x
    using that unfolding singles_def groups_def by force
  have alone: "alone ?start n" if "n \<in> set [length rebalanced..<length rebalanced + length singles]" for n
  proof -
    have "n - length rebalanced < length singles" using that by auto
    then have "?start ! n \<in> set singles" using that by (simp add: nth_append)
    from single [OF this] obtain k where "?start ! n \<in> set (?grp k)" and one: "length (?grp k) = 1"
      by blast
    then have "pi_flight (?start ! n) = k" by simp
    then show ?thesis
      unfolding alone_def using mset_unmanned_flights [OF skel0, of k] one by (simp only:)
  qed
  let ?final = "fold (reassign_single payload (compute_compatibility payload))
    [length rebalanced..<length rebalanced + length singles] ?start"
  have all: "volunteers_ok payload ?final \<and> map unmanned ?final = map unmanned ?start"
    by (rule reassign_singles_keep [OF ok ok0]) (use alone in auto)
  have result: "rebalance_assignments_by_flight payload (compute_compatibility payload) as = (if as = [] then as else ?final)"
    by (simp add: rebalance_assignments_by_flight_def Let_def group_by_eq comp_def rebalanced_def singles_def groups_def ks_def)
  show "volunteers_ok payload (rebalance_assignments_by_flight payload (compute_compatibility payload) as)"
    unfolding result using all as by (cases "as = []") simp_all
  show "mset (map unmanned (rebalance_assignments_by_flight payload (compute_compatibility payload) as))
      = mset (map unmanned as)"
    unfolding result using all skel0 by (cases "as = []") (simp_all del: mset_map)
qed

section \<open>What the constraints say of the assignments selected\<close>

abbreviation solver_pairs :: "solver_payload \<Rightarrow> compatibility" where
  "solver_pairs payload \<equiv> order_compatibility_pairs payload (compute_compatibility payload)"

lemma pairs_of_ordered:
  assumes "payload_ok payload" and "x \<in> set (sp_shipments payload)"
  shows "set (pairs_of (solver_pairs payload) (ps_id x)) = set (compatible_pairs payload x)"
proof -
  have "map_of (map (\<lambda>x. (ps_id x, g x)) ys) (ps_id x) = Some (g x)"
    if "distinct (map ps_id ys)" "x \<in> set ys" for g :: "payload_shipment \<Rightarrow> (nat \<times> nat) list" and ys
    using that by (intro map_of_is_SomeI) (auto simp: comp_def)
  from this [of "sp_shipments payload"] have "set (pairs_of (solver_pairs payload) (ps_id x))
      = set (pairs_of (compute_compatibility payload) (ps_id x))"
    using assms unfolding pairs_of_def [of "solver_pairs payload"]
    unfolding order_compatibility_pairs_def payload_ok_def by simp
  with pairs_of_compatibility [OF assms] show ?thesis by simp
qed

lemma concat_concat_map: "concat (concat (map f xs)) = concat (map (\<lambda>x. concat (f x)) xs)"
  by (induction xs) auto

lemma z_keys_x_keys:
  "z_keys payload ordered =
     concat (map (\<lambda>(s, f). map (\<lambda>v. (s, v, f)) (volunteers_by_shipment_flight ordered s f)) (x_keys payload ordered))"
  by (simp add: z_keys_def x_keys_def map_concat comp_def concat_concat_map)

lemma z_keys_mem:
  "(s, v, f) \<in> set (z_keys payload ordered) \<longleftrightarrow>
     s \<in> ps_id ` set (sp_shipments payload) \<and> (f, v) \<in> set (pairs_of ordered s)"
  by (force simp: z_keys_def shipment_flights_def volunteers_by_shipment_flight_def)

lemma x_keys_mem:
  "(s, f) \<in> set (x_keys payload ordered) \<longleftrightarrow>
     s \<in> ps_id ` set (sp_shipments payload) \<and> (\<exists>v. (f, v) \<in> set (pairs_of ordered s))"
  by (force simp: x_keys_def shipment_flights_def)

lemma volunteer_flights_mem:
  "f \<in> set (volunteer_flights payload ordered v) \<longleftrightarrow>
     (\<exists>s \<in> ps_id ` set (sp_shipments payload). (f, v) \<in> set (pairs_of ordered s))"
  by (force simp: volunteer_flights_def)

lemma sum_filter: "sum_list (map f (filter P xs)) = sum_list (map (\<lambda>x. if P x then f x else 0 :: int) xs)"
  by (induction xs) auto

lemma sum_by_key:
  "distinct (map key xs) \<Longrightarrow> x \<in> set xs \<Longrightarrow>
   sum_list (map (\<lambda>y. if key y = key x then g y else 0) xs) = (g x :: int)"
proof (induction xs)
  case Nil
  then show ?case by simp
next
  case (Cons y ys)
  have "sum_list (map (\<lambda>z. if key z = key y then g z else 0) ys) = 0"
    using Cons.prems(1) by (intro sum_list_0 | induction ys) auto
  with Cons show ?case by (cases "x = y") auto
qed

lemma cp_x_z_sum:
  assumes "cp_x_z payload ordered z" and "(s, f) \<in> set (x_keys payload ordered)"
  shows "sum_over (volunteers_by_shipment_flight ordered s f) (\<lambda>v. b2i (cs_z z (s, v, f))) = b2i (cs_x z (s, f))"
  using assms by (fastforce simp: cp_x_z_def list_all_iff Let_def sum_over_def b2i_def split: if_splits)

text \<open>A sum over the selected assignments is the sum over the shipment and flight variables.\<close>

lemma selected_sum:
  assumes "cp_x_z payload ordered z"
  shows "sum_list (map (\<lambda>(s, v, f). h s f) (filter (cs_z z) (z_keys payload ordered)))
    = sum_over (x_keys payload ordered) (\<lambda>(s, f). h s f * b2i (cs_x z (s, f)))"
proof -
  have one: "sum_list (map (\<lambda>(s, v, f). h s f) (filter (cs_z z) (map (\<lambda>v. (s, v, f)) vs)))
      = h s f * sum_over vs (\<lambda>v. b2i (cs_z z (s, v, f)))" for s f vs
    by (induction vs) (auto simp: sum_over_def b2i_def algebra_simps)
  have "sum_list (map (\<lambda>(s, v, f). h s f) (filter (cs_z z)
        (concat (map (\<lambda>(s, f). map (\<lambda>v. (s, v, f)) (volunteers_by_shipment_flight ordered s f)) keys))))
      = sum_over keys (\<lambda>(s, f). h s f * b2i (cs_x z (s, f)))"
    if "set keys \<subseteq> set (x_keys payload ordered)" for keys
    using that
  proof (induction keys)
    case Nil
    then show ?case by (simp add: sum_over_def)
  next
    case (Cons key keys)
    obtain s f where key: "key = (s, f)" by (cases key)
    have "sum_over (volunteers_by_shipment_flight ordered s f) (\<lambda>v. b2i (cs_z z (s, v, f))) = b2i (cs_x z (s, f))"
      using cp_x_z_sum [OF assms] Cons.prems by (simp add: key)
    then show ?case
      using Cons one [of s f] by (simp add: key sum_over_def)
  qed
  from this [of "x_keys payload ordered"] show ?thesis by (simp add: z_keys_x_keys)
qed

lemma selected_flight_sum:
  assumes "cp_x_z payload ordered z"
  shows "sum_list (map (\<lambda>(s, v, g). if g = f then u s else 0) (filter (cs_z z) (z_keys payload ordered)))
    = sum_over (x_on_flight payload ordered f) (\<lambda>s. u s * b2i (cs_x z (s, f)))"
proof -
  have "sum_over keys (\<lambda>(s, g). (if g = f then u s else 0) * b2i (cs_x z (s, g)))
      = sum_over [s. (s, g) \<leftarrow> keys, g = f] (\<lambda>s. u s * b2i (cs_x z (s, f)))" for keys
    by (induction keys) (auto simp: sum_over_def)
  with selected_sum [OF assms, of "\<lambda>s g. if g = f then u s else 0"] show ?thesis
    by (simp add: x_on_flight_def)
qed

lemma selected_once:
  assumes ok: "payload_ok payload" and xz: "cp_x_z payload ordered z" and once: "cp_shipment_once payload ordered z"
    and x: "x \<in> set (sp_shipments payload)"
  shows "sum_list (map (\<lambda>(s, v, f). if s = ps_id x then 1 else 0) (filter (cs_z z) (z_keys payload ordered))) \<le> (1 :: int)"
proof -
  let ?flights = "\<lambda>y. sum_over (shipment_flights ordered (ps_id y)) (\<lambda>f. b2i (cs_x z (ps_id y, f)))"
  have one: "sum_list (map (\<lambda>(s, f). (if s = ps_id x then 1 else 0) * b2i (cs_x z (s, f))) (map (Pair s) fs))
      = (if s = ps_id x then sum_over fs (\<lambda>f. b2i (cs_x z (s, f))) else 0)" for s fs
    by (induction fs) (auto simp: sum_over_def)
  have "sum_list (map (\<lambda>(s, f). (if s = ps_id x then 1 else 0) * b2i (cs_x z (s, f)))
        (concat (map (\<lambda>y. map (Pair (ps_id y)) (shipment_flights ordered (ps_id y))) ys)))
      = sum_list (map (\<lambda>y. if ps_id y = ps_id x then ?flights y else 0) ys)" for ys :: "payload_shipment list"
  proof (induction ys)
    case (Cons y ys)
    then show ?case using one [of "ps_id y"] by (simp only: concat.simps list.map map_append sum_list_append sum_list.Cons)
  qed simp
  then have "sum_over (x_keys payload ordered) (\<lambda>(s, f). (if s = ps_id x then 1 else 0) * b2i (cs_x z (s, f)))
      = sum_list (map (\<lambda>y. if ps_id y = ps_id x then ?flights y else 0) (sp_shipments payload))"
    by (simp only: x_keys_def sum_over_def)
  also have "\<dots> = ?flights x"
    by (rule sum_by_key) (use ok x in \<open>simp_all add: payload_ok_def\<close>)
  also have "\<dots> \<le> 1" using once x by (simp add: cp_shipment_once_def list_all_iff)
  finally show ?thesis
    using selected_sum [OF xz, of "\<lambda>s f. if s = ps_id x then 1 else 0"] by simp
qed

section \<open>A plan within the rules\<close>

text \<open>The limits of a flight, and those of the week, on the assignments of a plan.\<close>

definition flight_limits :: "solver_payload \<Rightarrow> plan_item list \<Rightarrow> bool" where
  "flight_limits payload items \<longleftrightarrow>
     (\<forall>flight \<in> set (sp_flights payload).
        let on_flight = filter (\<lambda>a. pi_flight a = pf_id flight) items
        in int (length on_flight) \<le> LEGACY_MAX_BE_PER_FLIGHT
         \<and> at_most (sum_over on_flight pi_equivalent_units) (pf_capacity_units flight)
         \<and> at_most (sum_over on_flight pi_carton_count) (pf_max_cartons_per_flight flight))"

definition flights_used :: "plan_item list \<Rightarrow> payload_flight list \<Rightarrow> nat" where
  "flights_used items flights = length (filter (\<lambda>f. pf_id f \<in> pi_flight ` set items) flights)"

definition week_limits :: "solver_payload \<Rightarrow> plan_item list \<Rightarrow> bool" where
  "week_limits payload items \<longleftrightarrow>
     (\<forall>flight \<in> set (sp_flights payload).
        (case Option.bind (map_of (sp_rules payload) (pf_destination_iata flight)) pr_weekly_frequency of
           None \<Rightarrow> True
         | Some n \<Rightarrow> n = 0 \<or> flights_used items
             (filter (\<lambda>g. pf_destination_iata g = pf_destination_iata flight) (sp_flights payload)) \<le> n)
        \<and> (pf_physical_flight_key flight = [] \<or> flights_used items
             (filter (\<lambda>g. pf_physical_flight_key g = pf_physical_flight_key flight) (sp_flights payload)) \<le> 1))"

definition plan_within_rules :: "solver_payload \<Rightarrow> plan_item list \<Rightarrow> bool" where
  "plan_within_rules payload items \<longleftrightarrow>
     distinct (map pi_shipment items) \<and> volunteers_ok payload items
     \<and> flight_limits payload items \<and> week_limits payload items"

text \<open>The limits do not look at the shipments, the volunteers or the order.\<close>

definition place_size :: "plan_item \<Rightarrow> nat \<times> int \<times> int" where
  "place_size a = (pi_flight a, pi_equivalent_units a, pi_carton_count a)"

lemma limits_cong:
  assumes "mset (map place_size xs) = mset (map place_size ys)"
  shows "flight_limits payload xs = flight_limits payload ys" "week_limits payload xs = week_limits payload ys"
proof -
  have on: "filter (\<lambda>p. fst p = f) (map place_size zs) = map place_size (filter (\<lambda>a. pi_flight a = f) zs)" for f zs
    by (simp add: filter_map comp_def place_size_def)
  have m: "mset (map place_size (filter (\<lambda>a. pi_flight a = f) xs)) = mset (map place_size (filter (\<lambda>a. pi_flight a = f) ys))" for f
    unfolding on [symmetric] mset_filter assms by (rule refl)
  have "length (filter (\<lambda>a. pi_flight a = f) xs) = length (filter (\<lambda>a. pi_flight a = f) ys)" for f
    using arg_cong [OF m [of f], where f = size] by (simp only: size_mset length_map)
  moreover have sums: "sum_list (map (g \<circ> place_size) (filter (\<lambda>a. pi_flight a = f) xs))
      = (sum_list (map (g \<circ> place_size) (filter (\<lambda>a. pi_flight a = f) ys)) :: int)" for f g
    using sum_list_mset_cong [OF m [of f], of g] by simp
  have "sum_over (filter (\<lambda>a. pi_flight a = f) xs) pi_equivalent_units = sum_over (filter (\<lambda>a. pi_flight a = f) ys) pi_equivalent_units"
    "sum_over (filter (\<lambda>a. pi_flight a = f) xs) pi_carton_count = sum_over (filter (\<lambda>a. pi_flight a = f) ys) pi_carton_count" for f
    using sums [of "\<lambda>(_, u, _). u" f] sums [of "\<lambda>(_, _, c). c" f] by (simp_all add: sum_over_def place_size_def comp_def)
  ultimately show "flight_limits payload xs = flight_limits payload ys"
    by (simp add: flight_limits_def Let_def)
  have "fst ` place_size ` set xs = fst ` place_size ` set ys"
    using assms by (metis list.set_map mset_eq_setD)
  then have "pi_flight ` set xs = pi_flight ` set ys"
    by (simp add: image_image place_size_def)
  then show "week_limits payload xs = week_limits payload ys"
    unfolding week_limits_def flights_used_def by (simp only:)
qed

lemma plan_within_rules_mset:
  assumes "mset xs = mset ys"
  shows "plan_within_rules payload xs = plan_within_rules payload ys"
proof -
  have "distinct (map pi_shipment xs) = distinct (map pi_shipment ys)"
    by (rule mset_eq_imp_distinct_iff) (simp add: assms)
  moreover have "mset (map place_size xs) = mset (map place_size ys)"
    by (simp add: assms)
  ultimately show ?thesis
    using limits_cong volunteers_ok_mset [OF assms] unfolding plan_within_rules_def by metis
qed

lemma plan_within_rules_rebalance:
  assumes ok: "payload_ok payload" and as: "plan_within_rules payload as"
  shows "plan_within_rules payload (rebalance_assignments_by_flight payload (compute_compatibility payload) as)"
proof -
  let ?bs = "rebalance_assignments_by_flight payload (compute_compatibility payload) as"
  have v: "volunteers_ok payload as" using as by (simp add: plan_within_rules_def)
  have m: "mset (map (g \<circ> unmanned) ?bs) = mset (map (g \<circ> unmanned) as)" for g :: "plan_item \<Rightarrow> 'b"
    using rebalance_keeps(2) [OF ok v] by (metis map_map mset_map)
  have "place_size = place_size \<circ> unmanned" "pi_shipment = pi_shipment \<circ> unmanned"
    by (auto simp: place_size_def)
  then have "mset (map place_size ?bs) = mset (map place_size as)" "mset (map pi_shipment ?bs) = mset (map pi_shipment as)"
    using m by metis+
  then show ?thesis
    using rebalance_keeps(1) [OF ok v] as limits_cong [of ?bs as] mset_eq_imp_distinct_iff
    unfolding plan_within_rules_def by blast
qed

lemma plan_within_rules_canonicalize:
  assumes ok: "payload_ok payload" and as: "plan_within_rules payload as"
  shows "plan_within_rules payload
    (canonicalize_legacy_equal_weight_assignments payload (compute_compatibility payload) as)"
proof -
  let ?bs = "canonicalize_legacy_equal_weight_assignments payload (compute_compatibility payload) as"
  let ?ordered = "solver_pairs payload"
  have dist: "distinct (map pi_shipment as)" and v: "volunteers_ok payload as" using as by (simp_all add: plan_within_rules_def)
  then have carry: "\<forall>a \<in> set as. carries payload a" by (simp add: volunteers_ok_def)
  note keeps = canonicalize_keeps [OF ok dist carry, of "compute_compatibility payload"]
  have swap: "\<And>P. (\<And>a b. swapped payload ?ordered a b \<Longrightarrow> P a b) \<Longrightarrow> list_all2 P as ?bs"
    using keeps(3) by (auto elim!: list.rel_mono_strong)
  have "map place_size as = map place_size ?bs"
    unfolding list.rel_eq [symmetric] list.rel_map by (rule swap) (simp add: swapped_def place_size_def)
  then have limits: "flight_limits payload ?bs" "week_limits payload ?bs"
    using limits_cong [of as ?bs payload] as by (simp_all add: plan_within_rules_def)
  define place where "place a = (pi_flight a, pi_volunteer a, pi_equivalent_units a)" for a :: plan_item
  have places: "map place as = map place ?bs"
    unfolding list.rel_eq [symmetric] list.rel_map by (rule swap) (simp add: swapped_def place_def)
  have load: "volunteer_load zs f w = sum_list (map (\<lambda>(_, _, u). u)
      (filter (\<lambda>(_, x, _). x = w) (filter (\<lambda>(g, _, _). g = f) (map place zs))))" for zs f w
    by (simp add: volunteer_load_def filter_map comp_def place_def)
  have loads: "volunteer_load ?bs f w = volunteer_load as f w" for f w
    unfolding load places by (rule refl)
  have origin: "\<exists>a \<in> set as. pi_flight a = pi_flight b \<and> pi_volunteer a = pi_volunteer b" if "b \<in> set ?bs" for b
  proof -
    have "place b \<in> set (map place ?bs)" using that by simp
    then show ?thesis unfolding places [symmetric] by (auto simp: place_def)
  qed
  have "goes_with payload b" if "b \<in> set ?bs" for b
  proof -
    obtain a where a: "a \<in> set as" "swapped payload ?ordered a b"
      using keeps(3) \<open>b \<in> set ?bs\<close> by (metis in_set_conv_nth list_all2_conv_all_nth)
    have "carries payload a" "carries payload b" using carry a(1) keeps(2) that by simp_all
    then obtain x y where x: "x \<in> set (sp_shipments payload)" "pi_shipment a = ps_id x"
      and y: "y \<in> set (sp_shipments payload)" "pi_shipment b = ps_id y"
      unfolding carries_def by blast
    have "set (compatible_pairs payload y) = set (compatible_pairs payload x)"
      using a(2) pairs_of_ordered [OF ok x(1)] pairs_of_ordered [OF ok y(1)] x(2) y(2) by (simp add: swapped_def)
    moreover have "goes_with payload a" using v a(1) by (simp add: volunteers_ok_def)
    ultimately show ?thesis
      using a(2) x y shipment_by_id_mem [OF ok] by (simp add: goes_with_def swapped_def)
  qed
  moreover have "loads_ok payload ?bs"
    unfolding loads_ok_def loads using origin v unfolding volunteers_ok_def loads_ok_def by metis
  moreover have "flights_apart payload ?bs"
    using origin v unfolding volunteers_ok_def flights_apart_def by metis
  ultimately have "volunteers_ok payload ?bs" using keeps(2) by (simp add: volunteers_ok_def)
  with limits keeps(1) show ?thesis by (simp add: plan_within_rules_def)
qed

lemma plan_within_rules_final:
  assumes "payload_ok payload" and "plan_within_rules payload items"
  shows "plan_within_rules payload (final_plan payload (compute_compatibility payload) items)"
proof -
  let ?bs = "rebalance_assignments_by_flight payload (compute_compatibility payload)
    (canonicalize_legacy_equal_weight_assignments payload (compute_compatibility payload) items)"
  have "plan_within_rules payload ?bs"
    using assms by (intro plan_within_rules_rebalance plan_within_rules_canonicalize)
  moreover have "mset (sort_key plan_order_key ?bs) = mset ?bs" by simp
  ultimately show ?thesis
    unfolding final_plan_def using plan_within_rules_mset by blast
qed

section \<open>From the constraints to the plan\<close>

text \<open>The keys of the variables that are set, and the assignment each stands for.\<close>

lemma selected_item:
  assumes ok: "payload_ok payload" and key: "(s, v, f) \<in> set (z_keys payload (solver_pairs payload))"
  defines "a \<equiv> plan_item_of (shipment_of payload s) (flight_at payload f) v"
  shows "pi_shipment a = s" "pi_flight a = f" "pi_volunteer a = v"
    "pi_equivalent_units a = units_by_id payload s" "pi_carton_count a = ps_carton_count (shipment_of payload s)"
    "carries payload a" "goes_with payload a" "v \<in> pl_id ` set (sp_volunteers payload)"
proof -
  obtain x where x: "x \<in> set (sp_shipments payload)" "s = ps_id x" and p: "(f, v) \<in> set (pairs_of (solver_pairs payload) s)"
    using key by (auto simp: z_keys_mem)
  have pair: "(f, v) \<in> set (compatible_pairs payload x)"
    using p pairs_of_ordered [OF ok x(1)] x(2) by simp
  then obtain g where g: "g \<in> set (sp_flights payload)" "f = pf_id g" by (auto simp: compatible_pairs_mem)
  show "pi_shipment a = s" "pi_flight a = f" "pi_volunteer a = v"
    "pi_equivalent_units a = units_by_id payload s" "pi_carton_count a = ps_carton_count (shipment_of payload s)"
    using shipment_by_id_mem [OF ok x(1)] flight_by_id_mem [OF ok g(1)] x(2) g(2)
    by (simp_all add: a_def plan_item_of_def units_by_id_def)
  then show "carries payload a" "goes_with payload a"
    using shipment_by_id_mem [OF ok x(1)] x pair by (simp_all add: carries_def goes_with_def units_by_id_def)
  show "v \<in> pl_id ` set (sp_volunteers payload)" using pair by (auto simp: compatible_pairs_mem)
qed

definition selected_keys :: "solver_payload \<Rightarrow> cp_solution \<Rightarrow> (nat \<times> nat \<times> nat) list" where
  "selected_keys payload z = filter (cs_z z) (z_keys payload (solver_pairs payload))"

lemma selected_map:
  assumes "payload_ok payload"
    and "\<And>s v f. (s, v, f) \<in> set (z_keys payload (solver_pairs payload)) \<Longrightarrow>
      g (plan_item_of (shipment_of payload s) (flight_at payload f) v) = h s v f"
  shows "map g (selected_items payload (solver_pairs payload) z) = map (\<lambda>(s, v, f). h s v f) (selected_keys payload z)"
  using assms(2) by (auto simp: selected_items_def selected_keys_def)

lemma selected_mem:
  assumes "payload_ok payload" and "a \<in> set (selected_items payload (solver_pairs payload) z)"
  obtains s v f where "(s, v, f) \<in> set (z_keys payload (solver_pairs payload))" "cs_z z (s, v, f)"
    "pi_shipment a = s" "pi_flight a = f" "pi_volunteer a = v"
    "a = plan_item_of (shipment_of payload s) (flight_at payload f) v"
  using assms(2) selected_item [OF assms(1)] by (auto simp: selected_items_def)

lemma selected_total:
  assumes "payload_ok payload"
    and "\<And>s v f. (s, v, f) \<in> set (z_keys payload (solver_pairs payload)) \<Longrightarrow>
      (if P (plan_item_of (shipment_of payload s) (flight_at payload f) v)
       then u (plan_item_of (shipment_of payload s) (flight_at payload f) v) else 0) = h s v f"
  shows "sum_list (map u (filter P (selected_items payload (solver_pairs payload) z)))
    = (sum_list (map (\<lambda>(s, v, f). h s v f) (selected_keys payload z)) :: int)"
  unfolding sum_filter by (rule arg_cong [where f = sum_list], rule selected_map [OF assms(1)], rule assms(2))

lemma length_as_sum: "int (length (filter P xs)) = sum_list (map (\<lambda>_. 1) (filter P xs))"
  by (induction xs) auto

lemma distinct_if_once: "(\<And>y. y \<in> set xs \<Longrightarrow> length (filter (\<lambda>x. x = y) xs) \<le> 1) \<Longrightarrow> distinct xs"
proof (induction xs)
  case Nil
  then show ?case by simp
next
  case (Cons x xs)
  have "filter (\<lambda>y. y = x) xs = []" using Cons.prems [of x] by simp
  then have "x \<notin> set xs" by (auto simp: filter_empty_conv)
  moreover have "length (filter (\<lambda>z. z = y) xs) \<le> 1" if "y \<in> set xs" for y
    using Cons.prems [of y] that by (auto split: if_splits)
  ultimately show ?case using Cons.IH by simp
qed

lemma selected_distinct:
  assumes ok: "payload_ok payload" and cp: "cp_constraints payload (solver_pairs payload) z"
  shows "distinct (map pi_shipment (selected_items payload (solver_pairs payload) z))"
proof (rule distinct_if_once)
  let ?items = "selected_items payload (solver_pairs payload) z"
  fix y assume "y \<in> set (map pi_shipment ?items)"
  then obtain x where x: "x \<in> set (sp_shipments payload)" "y = ps_id x"
    by (auto elim!: selected_mem [OF ok] simp: z_keys_mem)
  have "int (length (filter (\<lambda>a. pi_shipment a = y) ?items))
      = sum_list (map (\<lambda>(s, v, f). if s = ps_id x then 1 else 0) (selected_keys payload z))"
    unfolding length_as_sum by (rule selected_total [OF ok]) (simp add: selected_item [OF ok] x(2))
  also have "\<dots> \<le> 1"
    unfolding selected_keys_def by (rule selected_once [OF ok]) (use cp x(1) in \<open>simp_all add: cp_constraints_def\<close>)
  finally show "length (filter (\<lambda>i. i = y) (map pi_shipment ?items)) \<le> 1"
    by (simp add: filter_map comp_def)
qed

lemma selected_flight_limits:
  assumes ok: "payload_ok payload" and cp: "cp_constraints payload (solver_pairs payload) z"
  shows "flight_limits payload (selected_items payload (solver_pairs payload) z)"
  unfolding flight_limits_def Let_def
proof
  let ?items = "selected_items payload (solver_pairs payload) z"
  fix flight assume flight: "flight \<in> set (sp_flights payload)"
  let ?f = "pf_id flight"
  let ?on = "x_on_flight payload (solver_pairs payload) ?f"
  have xz: "cp_x_z payload (solver_pairs payload) z" using cp by (simp add: cp_constraints_def)
  have cf: "cp_flight payload (solver_pairs payload) z flight"
    using cp flight by (simp add: cp_constraints_def list_all_iff)
  have sums: "sum_list (map u (filter (\<lambda>a. pi_flight a = ?f) ?items)) = sum_over ?on (\<lambda>s. w s * b2i (cs_x z (s, ?f)))"
    if "\<And>s v f. (s, v, f) \<in> set (z_keys payload (solver_pairs payload)) \<Longrightarrow>
      u (plan_item_of (shipment_of payload s) (flight_at payload f) v) = w s" for u w
    unfolding selected_flight_sum [OF xz, symmetric] selected_keys_def [symmetric]
    by (rule selected_total [OF ok]) (auto simp: selected_item [OF ok] that)
  have "int (length (filter (\<lambda>a. pi_flight a = ?f) ?items)) = sum_over ?on (\<lambda>s. 1 * b2i (cs_x z (s, ?f)))"
    unfolding length_as_sum by (rule sums) (rule refl)
  moreover have "sum_over (filter (\<lambda>a. pi_flight a = ?f) ?items) pi_equivalent_units
      = sum_over ?on (\<lambda>s. units_by_id payload s * b2i (cs_x z (s, ?f)))"
    unfolding sum_over_def [of "filter _ _"] by (rule sums) (rule selected_item(4) [OF ok])
  moreover have "sum_over (filter (\<lambda>a. pi_flight a = ?f) ?items) pi_carton_count
      = sum_over ?on (\<lambda>s. ps_carton_count (shipment_of payload s) * b2i (cs_x z (s, ?f)))"
    unfolding sum_over_def [of "filter _ _"] by (rule sums) (rule selected_item(5) [OF ok])
  moreover have "at_least_zero (pf_capacity_units flight)" "at_least_zero (pf_max_cartons_per_flight flight)"
    using ok flight by (auto simp: payload_ok_def list_all_iff)
  ultimately show "int (length (filter (\<lambda>a. pi_flight a = ?f) ?items)) \<le> LEGACY_MAX_BE_PER_FLIGHT
      \<and> at_most (sum_over (filter (\<lambda>a. pi_flight a = ?f) ?items) pi_equivalent_units) (pf_capacity_units flight)
      \<and> at_most (sum_over (filter (\<lambda>a. pi_flight a = ?f) ?items) pi_carton_count) (pf_max_cartons_per_flight flight)"
    using cf
    by (cases "?on = []")
      (simp_all add: cp_flight_def Let_def sum_over_def LEGACY_MAX_BE_PER_FLIGHT_def at_most_def at_least_zero_def
        split: option.splits)
qed

lemma selected_pair_set:
  assumes cp: "cp_constraints payload (solver_pairs payload) z"
    and key: "(s, v, f) \<in> set (z_keys payload (solver_pairs payload))" "cs_z z (s, v, f)"
    and vol: "v \<in> pl_id ` set (sp_volunteers payload)"
  shows "cs_y z (v, f)" and "(v, f) \<in> set (y_keys payload (solver_pairs payload))"
    and "f \<in> set (volunteer_flights payload (solver_pairs payload) v)"
    and "sum_over (shipments_of_pair payload (solver_pairs payload) v f)
        (\<lambda>s. units_by_id payload s * b2i (cs_z z (s, v, f))) \<le> volunteer_capacity (the (volunteer_by_id payload v))"
proof -
  show vf: "f \<in> set (volunteer_flights payload (solver_pairs payload) v)"
    using key(1) by (auto simp: z_keys_mem volunteer_flights_mem)
  show y: "(v, f) \<in> set (y_keys payload (solver_pairs payload))"
    using vf vol by (auto simp: y_keys_def)
  let ?ss = "shipments_of_pair payload (solver_pairs payload) v f"
  have s: "s \<in> set ?ss" using key(1) by (force simp: shipments_of_pair_def)
  then have "?ss \<noteq> []" by auto
  then have pair: "list_all (\<lambda>s. b2i (cs_z z (s, v, f)) \<le> b2i (cs_y z (v, f))) ?ss"
    "sum_over ?ss (\<lambda>s. units_by_id payload s * b2i (cs_z z (s, v, f)))
       \<le> volunteer_capacity (the (volunteer_by_id payload v)) * b2i (cs_y z (v, f))"
    using cp y by (fastforce simp: cp_constraints_def cp_y_z_def list_all_iff Let_def)+
  then show set: "cs_y z (v, f)" using s key(2) by (auto simp: list_all_iff b2i_def split: if_splits)
  show "sum_over ?ss (\<lambda>s. units_by_id payload s * b2i (cs_z z (s, v, f)))
      \<le> volunteer_capacity (the (volunteer_by_id payload v))"
    using pair(2) set by (simp add: b2i_def)
qed

lemma selected_loads:
  assumes ok: "payload_ok payload" and cp: "cp_constraints payload (solver_pairs payload) z"
  shows "loads_ok payload (selected_items payload (solver_pairs payload) z)"
  unfolding loads_ok_def
proof
  let ?items = "selected_items payload (solver_pairs payload) z"
  fix a assume "a \<in> set ?items"
  then obtain s v f where key: "(s, v, f) \<in> set (z_keys payload (solver_pairs payload))" "cs_z z (s, v, f)"
    and a: "pi_flight a = f" "pi_volunteer a = v" by (rule selected_mem [OF ok])
  have vol: "v \<in> pl_id ` set (sp_volunteers payload)" by (rule selected_item(8) [OF ok key(1)])
  have "volunteer_load ?items f v
      = sum_list (map pi_equivalent_units (filter (\<lambda>a. pi_flight a = f \<and> pi_volunteer a = v) ?items))"
    by (simp add: volunteer_load_def conj_commute)
  also have "\<dots> = sum_list (map (\<lambda>(s, w, g). if g = f \<and> w = v then units_by_id payload s else 0) (selected_keys payload z))"
    by (rule selected_total [OF ok]) (auto simp: selected_item [OF ok])
  also have "\<dots> = sum_over (shipments_of_pair payload (solver_pairs payload) v f)
      (\<lambda>s. units_by_id payload s * b2i (cs_z z (s, v, f)))"
  proof -
    have "sum_list (map (\<lambda>(s, w, g). if g = f \<and> w = v then units_by_id payload s else 0) (filter (cs_z z) keys))
        = sum_over [s. (s, w, g) \<leftarrow> keys, w = v \<and> g = f] (\<lambda>s. units_by_id payload s * b2i (cs_z z (s, v, f)))" for keys
      by (induction keys) (auto simp: sum_over_def b2i_def)
    then show ?thesis by (simp add: selected_keys_def shipments_of_pair_def)
  qed
  also have "\<dots> \<le> volunteer_capacity (the (volunteer_by_id payload v))"
    by (rule selected_pair_set(4) [OF cp key vol])
  also have "\<dots> = capacity_of payload v"
    using vol volunteer_by_id_mem [OF ok] by (auto simp: capacity_of_def)
  finally show "volunteer_load ?items (pi_flight a) (pi_volunteer a) \<le> capacity_of payload (pi_volunteer a)"
    using a by simp
qed

lemma pairs_apart_mem:
  "pairs_apart P xs \<Longrightarrow> a \<in> set xs \<Longrightarrow> b \<in> set xs \<Longrightarrow> a \<noteq> b \<Longrightarrow> P a b \<or> P b a"
  by (induction xs) (auto simp: list_all_iff)

lemma sum_over_b2i: "sum_over xs (\<lambda>x. b2i (P x)) = int (length (filter P xs))"
  by (induction xs) (auto simp: sum_over_def b2i_def)

lemma two_in_filter: "a \<in> set xs \<Longrightarrow> b \<in> set xs \<Longrightarrow> a \<noteq> b \<Longrightarrow> P a \<Longrightarrow> P b \<Longrightarrow> 2 \<le> length (filter P xs)"
proof -
  assume "a \<in> set xs" "b \<in> set xs" "a \<noteq> b" "P a" "P b"
  then have "{a, b} \<subseteq> set (filter P xs)" "card {a, b} = 2" by auto
  then have "2 \<le> card (set (filter P xs))" by (metis card_mono finite_set)
  also have "\<dots> \<le> length (filter P xs)" by (rule card_length)
  finally show ?thesis .
qed

lemma selected_apart:
  assumes ok: "payload_ok payload" and cp: "cp_constraints payload (solver_pairs payload) z"
  shows "flights_apart payload (selected_items payload (solver_pairs payload) z)"
  unfolding flights_apart_def
proof (intro ballI impI)
  let ?items = "selected_items payload (solver_pairs payload) z"
  fix a b
  assume "a \<in> set ?items" "b \<in> set ?items" and eq: "pi_volunteer a = pi_volunteer b" "pi_flight a \<noteq> pi_flight b"
  then obtain s t v f g where a: "(s, v, f) \<in> set (z_keys payload (solver_pairs payload))" "cs_z z (s, v, f)"
    and b: "(t, v, g) \<in> set (z_keys payload (solver_pairs payload))" "cs_z z (t, v, g)"
    and fg: "pi_flight a = f" "pi_flight b = g"
    by (elim selected_mem [OF ok]) simp
  obtain w where w: "w \<in> set (sp_volunteers payload)" "v = pl_id w" using selected_item(8) [OF ok a(1)] by blast
  then have vol: "v \<in> pl_id ` set (sp_volunteers payload)" by simp
  note fa = selected_pair_set [OF cp a vol] and ga = selected_pair_set [OF cp b vol]
  let ?fl = "flight_at payload"
  have "\<not> close_in_time (?fl f) (?fl g)"
  proof -
    have "pairs_apart (\<lambda>f g. close_in_time (?fl f) (?fl g) \<longrightarrow> b2i (cs_y z (v, f)) + b2i (cs_y z (v, g)) \<le> 1)
        (sort_key (\<lambda>f. flight_datetime_key (?fl f)) (volunteer_flights payload (solver_pairs payload) v))"
      using cp w by (simp add: cp_constraints_def cp_departures_apart_def list_all_iff Let_def)
    from pairs_apart_mem [OF this, of f g] show ?thesis
      using fa ga eq(2) fg by (auto simp: b2i_def close_in_time_def abs_minus_commute)
  qed
  moreover have "physical_key_or_id (?fl f) \<noteq> physical_key_or_id (?fl g)"
  proof
    assume same: "physical_key_or_id (?fl f) = physical_key_or_id (?fl g)"
    let ?key = "\<lambda>(v, f). (v, physical_key_or_id (?fl f))"
    let ?keys = "filter (\<lambda>x. ?key x = (v, physical_key_or_id (?fl f))) (y_keys payload (solver_pairs payload))"
    have two: "2 \<le> length (filter (cs_y z) ?keys)"
      using fa(1,2) ga(1,2) eq(2) fg same by (intro two_in_filter [of "(v, f)" _ "(v, g)"]) auto
    have grp: "((v, physical_key_or_id (?fl f)), ?keys) \<in> set (group_by ?key (y_keys payload (solver_pairs payload)))"
      unfolding group_by_mem using fa(2) by (force simp: image_iff)
    have "list_all (\<lambda>(_, keys). 1 < length keys \<longrightarrow> sum_over keys (\<lambda>key. b2i (cs_y z key)) \<le> 1)
        (group_by ?key (y_keys payload (solver_pairs payload)))"
      using cp by (simp add: cp_constraints_def cp_volunteer_physical_def)
    with grp have "1 < length ?keys \<longrightarrow> int (length (filter (cs_y z) ?keys)) \<le> 1"
      unfolding list_all_iff sum_over_b2i by blast
    moreover have "length (filter (cs_y z) ?keys) \<le> length ?keys" by (rule length_filter_le)
    ultimately show False using two by linarith
  qed
  ultimately show "\<not> flights_conflict ?fl (pi_flight a) (pi_flight b)"
    by (simp add: flights_conflict_def fg)
qed

lemma selected_week_limits:
  assumes ok: "payload_ok payload" and cp: "cp_constraints payload (solver_pairs payload) z"
  shows "week_limits payload (selected_items payload (solver_pairs payload) z)"
proof -
  let ?items = "selected_items payload (solver_pairs payload) z"
  have used: "cs_used z f" if "f \<in> pi_flight ` set ?items" for f
  proof -
    from that obtain s v where key: "(s, v, f) \<in> set (z_keys payload (solver_pairs payload))" "cs_z z (s, v, f)"
      by (auto elim!: selected_mem [OF ok])
    have on: "(s, f) \<in> set (x_keys payload (solver_pairs payload))"
      using key(1) by (auto simp: z_keys_mem x_keys_mem)
    have v: "v \<in> set (volunteers_by_shipment_flight (solver_pairs payload) s f)"
      using key(1) by (auto simp: z_keys_mem volunteers_by_shipment_flight_def)
    have "sum_over (volunteers_by_shipment_flight (solver_pairs payload) s f) (\<lambda>v. b2i (cs_z z (s, v, f))) = b2i (cs_x z (s, f))"
      by (rule cp_x_z_sum [OF _ on]) (use cp in \<open>simp add: cp_constraints_def\<close>)
    then have x: "cs_x z (s, f)"
      using v key(2) unfolding sum_over_b2i by (auto simp: b2i_def filter_empty_conv split: if_splits)
    obtain flight where flight: "flight \<in> set (sp_flights payload)" "pf_id flight = f"
      using selected_item(7) [OF ok key(1)] selected_item(2) [OF ok key(1)]
      by (auto simp: goes_with_def compatible_pairs_mem)
    have "s \<in> set (x_on_flight payload (solver_pairs payload) f)" using on by (force simp: x_on_flight_def)
    then show ?thesis
      using cp flight x
      by (fastforce simp: cp_constraints_def list_all_iff cp_flight_def Let_def b2i_def split: if_splits)
  qed
  have count: "int (flights_used ?items flights) \<le> sum_over flights (\<lambda>f. b2i (cs_used z (pf_id f)))" for flights
  proof (induction flights)
    case (Cons f fs)
    then show ?case
      using used [of "pf_id f"] by (cases "pf_id f \<in> pi_flight ` set ?items") (simp_all add: flights_used_def sum_over_def b2i_def)
  qed (simp add: flights_used_def sum_over_def)
  show ?thesis
    unfolding week_limits_def
  proof (intro ballI conjI)
    fix flight assume flight: "flight \<in> set (sp_flights payload)"
    let ?dest = "filter (\<lambda>g. pf_destination_iata g = pf_destination_iata flight) (sp_flights payload)"
    let ?phys = "filter (\<lambda>g. pf_physical_flight_key g = pf_physical_flight_key flight) (sp_flights payload)"
    have "(pf_destination_iata flight, ?dest) \<in> set (group_by pf_destination_iata (sp_flights payload))"
      using flight by (simp add: group_by_mem)
    with cp count [of ?dest] show "case Option.bind (map_of (sp_rules payload) (pf_destination_iata flight)) pr_weekly_frequency of
        None \<Rightarrow> True | Some n \<Rightarrow> n = 0 \<or> flights_used ?items ?dest \<le> n"
      by (auto simp: cp_constraints_def cp_weekly_frequency_def list_all_iff split: option.splits)
    show "pf_physical_flight_key flight = [] \<or> flights_used ?items ?phys \<le> 1"
    proof (cases "pf_physical_flight_key flight = [] \<or> length ?phys \<le> 1")
      case True
      moreover have "flights_used ?items ?phys \<le> length ?phys"
        unfolding flights_used_def by (rule length_filter_le)
      ultimately show ?thesis by auto
    next
      case False
      have "filter (\<lambda>g. pf_physical_flight_key g = pf_physical_flight_key flight)
          (filter (\<lambda>f. pf_physical_flight_key f \<noteq> []) (sp_flights payload)) = ?phys"
        using False by (auto intro!: filter_cong)
      then have "(pf_physical_flight_key flight, ?phys)
          \<in> set (group_by pf_physical_flight_key (filter (\<lambda>f. pf_physical_flight_key f \<noteq> []) (sp_flights payload)))"
        using flight False by (auto simp: group_by_mem)
      then have "sum_over ?phys (\<lambda>f. b2i (cs_used z (pf_id f))) \<le> 1"
        using cp False by (auto simp: cp_constraints_def cp_physical_flights_def list_all_iff)
      with count [of ?phys] show ?thesis by simp
    qed
  qed
qed

lemma selected_feasible:
  assumes ok: "payload_ok payload" and cp: "cp_constraints payload (solver_pairs payload) z"
  shows "plan_within_rules payload (selected_items payload (solver_pairs payload) z)"
proof -
  have "carries payload a \<and> goes_with payload a" if mem: "a \<in> set (selected_items payload (solver_pairs payload) z)" for a
  proof -
    obtain s v f where "(s, v, f) \<in> set (z_keys payload (solver_pairs payload))"
      "a = plan_item_of (shipment_of payload s) (flight_at payload f) v"
      by (rule selected_mem [OF ok mem])
    with selected_item(6,7) [OF ok] show ?thesis by blast
  qed
  then show ?thesis
    using selected_loads [OF assms] selected_apart [OF assms] selected_distinct [OF assms]
      selected_flight_limits [OF assms] selected_week_limits [OF assms]
    by (simp add: plan_within_rules_def volunteers_ok_def)
qed

end
