(* ===== verification/Plan_Optimum.thy ===== *)
theory Plan_Optimum
  imports Plan_Feasibility
begin

text \<open>
  The solver as a parameter: what is assumed of it, that the search over its answers always ends with
  values that satisfy the constraints, and that the payload of a run and its plan are well formed.
\<close>

section \<open>The solver as a parameter\<close>

text \<open>
  What is assumed of CP-SAT, where it is: the values it returns satisfy the constraints; it finds
  values when there are some; the values it returns for an objective are the best (status \<open>OPTIMAL\<close>).
\<close>

definition cp_sound :: "cp_solver \<Rightarrow> bool" where
  "cp_sound cp_solve \<longleftrightarrow> (\<forall>constraints objective z. cp_solve constraints objective = Some z \<longrightarrow> constraints z)"

definition cp_complete :: "cp_solver \<Rightarrow> bool" where
  "cp_complete cp_solve \<longleftrightarrow> (\<forall>constraints objective z. constraints z \<longrightarrow> cp_solve constraints objective \<noteq> None)"

definition cp_optimal_for :: "cp_solver \<Rightarrow> (cp_solution \<Rightarrow> bool) \<Rightarrow> (cp_solution \<Rightarrow> int) \<Rightarrow> bool" where
  "cp_optimal_for cp_solve constraints objective \<longleftrightarrow>
     (\<forall>z z'. cp_solve constraints objective = Some z \<longrightarrow> constraints z' \<longrightarrow> objective z' \<le> objective z)"

lemma cp_stage_Inr:
  assumes "cp_stage cp_solve constraints objective = Inr next_constraints"
  obtains found where "cp_solve constraints objective = Some found"
    "next_constraints = (\<lambda>z. constraints z \<and> objective found \<le> objective z)"
  using assms by (auto simp: cp_stage_def wms_ok)

lemma cp_stage_complete:
  assumes "cp_sound cp_solve" and "cp_complete cp_solve" and "constraints z"
  obtains next_constraints z' where "cp_stage cp_solve constraints objective = Inr next_constraints" "next_constraints z'"
proof -
  obtain found where found: "cp_solve constraints objective = Some found"
    using assms(2,3) unfolding cp_complete_def by blast
  then have "constraints found" using assms(1) unfolding cp_sound_def by blast
  with found show thesis 
    by (intro that [of "\<lambda>z. constraints z \<and> objective found \<le> objective z" found]) (simp_all add: cp_stage_def)
qed

text \<open>What a search ends with: the first constraints, and the bound of the first objective.\<close>

lemma cp_search_Inr:
  assumes sound: "cp_sound cp_solve" and search: "cp_search cp_solve payload ordered = Inr z"
  obtains found where "cp_solve (cp_constraints payload ordered) (weighted_expr payload ordered) = Some found"
    "cp_constraints payload ordered z" "weighted_expr payload ordered found \<le> weighted_expr payload ordered z"
proof -
  from search obtain c1 c2 c3 c4 c5 c6 where
    c1: "cp_stage cp_solve (cp_constraints payload ordered) (weighted_expr payload ordered) = Inr c1"
    and c2: "cp_stage cp_solve c1 (\<lambda>z. - used_sum payload z) = Inr c2"
    and c3: "cp_stage cp_solve c2 (\<lambda>z. - pair_sum payload ordered z) = Inr c3"
    and c4: "(if sp_volunteers payload \<noteq> [] then cp_stage cp_solve (\<lambda>z. c3 z \<and> cp_excess payload ordered z)
        (\<lambda>z. - excess_sum payload z) else Inr (\<lambda>z. c3 z \<and> cp_excess payload ordered z)) = Inr c4"
    and c5: "cp_stage cp_solve c4 (compatibility_option_expr payload ordered) = Inr c5"
    and c6: "cp_stage cp_solve c5 (\<lambda>z. - chronological_expr payload ordered z) = Inr c6"
    and z: "cp_solve c6 (\<lambda>z. - used_sum payload z) = Some z"
    unfolding cp_search_def Let_def by (auto simp: wms_ok)
  have "c6 z" using sound z unfolding cp_sound_def by blast
  then have "c4 z" using c5 c6 by (auto elim!: cp_stage_Inr)
  then have "c3 z" using c4 by (auto elim!: cp_stage_Inr split: if_splits)
  then have "c1 z" using c2 c3 by (auto elim!: cp_stage_Inr)
  with c1 that show thesis by (auto elim!: cp_stage_Inr)
qed

text \<open>The plan that assigns nothing satisfies every constraint.\<close>

definition cp_nothing :: cp_solution where
  "cp_nothing = \<lparr>cs_x = (\<lambda>_. False), cs_y = (\<lambda>_. False), cs_z = (\<lambda>_. False), cs_used = (\<lambda>_. False),
     cs_nb_be = (\<lambda>_. 0), cs_charge = (\<lambda>_. 0), cs_missions = (\<lambda>_. 0), cs_excess = (\<lambda>_. 0)\<rparr>"

lemma sum_over_zero [simp]: "sum_over xs (\<lambda>_. 0) = 0"
  by (simp add: sum_over_def sum_list_triv)

lemma sum_over_nothing:
  "sum_over xs (\<lambda>i. b2i (cs_x cp_nothing (f i))) = 0" "sum_over xs (\<lambda>i. b2i (cs_y cp_nothing (g i))) = 0"
  "sum_over xs (\<lambda>i. b2i (cs_z cp_nothing (h i))) = 0" "sum_over xs (\<lambda>i. b2i (cs_used cp_nothing (k i))) = 0"
  "sum_over xs (\<lambda>i. u i * b2i (cs_x cp_nothing (f i))) = 0" "sum_over xs (\<lambda>i. u i * b2i (cs_z cp_nothing (h i))) = 0"
  by (simp_all add: cp_nothing_def b2i_def)

lemma pairs_apart_all: "(\<And>a b. P a b) \<Longrightarrow> pairs_apart P xs"
  by (induction xs) (simp_all add: list_all_iff)

lemma cp_nothing_ok:
  assumes "payload_ok payload"
  shows "cp_constraints payload ordered cp_nothing"
proof -
  have "cp_flight payload ordered cp_nothing flight" if "flight \<in> set (sp_flights payload)" for flight
  proof -
    have "at_least_zero (pf_capacity_units flight)" "at_least_zero (pf_max_cartons_per_flight flight)"
      using assms that by (auto simp: payload_ok_def list_all_iff)
    then show ?thesis
      unfolding cp_flight_def Let_def sum_over_nothing
      by (auto simp: cp_nothing_def b2i_def LEGACY_MAX_BE_PER_FLIGHT_def at_most_def at_least_zero_def list_all_iff
          split: option.splits)
  qed
  moreover have "cp_shipment_once payload ordered cp_nothing" "cp_x_z payload ordered cp_nothing"
    "cp_weekly_frequency payload cp_nothing" "cp_volunteer_physical payload ordered cp_nothing"
    "cp_missions payload ordered cp_nothing"
    unfolding cp_shipment_once_def cp_x_z_def cp_weekly_frequency_def cp_volunteer_physical_def cp_missions_def
      Let_def sum_over_nothing
    by (auto simp: list_all_iff cp_nothing_def b2i_def split: option.splits)
  moreover have "cp_y_z payload ordered cp_nothing"
    unfolding cp_y_z_def Let_def sum_over_nothing by (auto simp: list_all_iff cp_nothing_def b2i_def)
  moreover have "cp_departures_apart payload ordered cp_nothing"
    by (auto simp: cp_departures_apart_def Let_def list_all_iff cp_nothing_def b2i_def intro!: pairs_apart_all)
  moreover have "cp_physical_flights payload ordered cp_nothing"
    unfolding cp_physical_flights_def cp_earliest_leg_def Let_def sum_over_nothing
    by (auto simp: list_all_iff cp_nothing_def)
  ultimately show ?thesis by (simp add: cp_constraints_def list_all_iff)
qed

text \<open>The excess variables are constrained by the missions alone.\<close>

definition with_excess :: "cp_solution \<Rightarrow> cp_solution" where
  "with_excess z = z\<lparr>cs_excess := (\<lambda>v. max 0 (cs_missions z v - 1))\<rparr>"

lemma with_excess_select [simp]:
  "cs_x (with_excess z) = cs_x z" "cs_y (with_excess z) = cs_y z" "cs_z (with_excess z) = cs_z z"
  "cs_used (with_excess z) = cs_used z" "cs_nb_be (with_excess z) = cs_nb_be z"
  "cs_charge (with_excess z) = cs_charge z" "cs_missions (with_excess z) = cs_missions z"
  by (simp_all add: with_excess_def)

lemma with_excess_simps [simp]:
  "cp_constraints payload ordered (with_excess z) = cp_constraints payload ordered z"
  "weighted_expr payload ordered (with_excess z) = weighted_expr payload ordered z"
  "used_sum payload (with_excess z) = used_sum payload z"
  "pair_sum payload ordered (with_excess z) = pair_sum payload ordered z"
proof -
  have "cp_flight payload ordered (with_excess z) = cp_flight payload ordered z"
    unfolding cp_flight_def with_excess_select by (rule refl)
  then show "cp_constraints payload ordered (with_excess z) = cp_constraints payload ordered z"
    unfolding cp_constraints_def cp_shipment_once_def cp_x_z_def cp_y_z_def
      cp_volunteer_physical_def cp_departures_apart_def cp_weekly_frequency_def cp_physical_flights_def
      cp_earliest_leg_def cp_missions_def with_excess_select by (rule arg_cong)
qed (simp_all add: weighted_expr_def used_sum_def pair_sum_def)

lemma with_excess_ok: "cp_constraints payload ordered z \<Longrightarrow> cp_excess payload ordered (with_excess z)"
  by (auto simp: cp_constraints_def cp_missions_def cp_excess_def with_excess_def Let_def list_all_iff)

lemma cp_search_complete:
  assumes ok: "payload_ok payload" and sound: "cp_sound cp_solve" and complete: "cp_complete cp_solve"
  shows "is_ok (cp_search cp_solve payload ordered)"
proof -
  note stage = cp_stage_complete [OF sound complete]
  obtain c1 z1 where c1: "cp_stage cp_solve (cp_constraints payload ordered) (weighted_expr payload ordered) = Inr c1" "c1 z1"
    using stage cp_nothing_ok [OF ok] by blast
  obtain c2 z2 where c2: "cp_stage cp_solve c1 (\<lambda>z. - used_sum payload z) = Inr c2" "c2 z2"
    using stage c1(2) by blast
  obtain c3 z3 where c3: "cp_stage cp_solve c2 (\<lambda>z. - pair_sum payload ordered z) = Inr c3" "c3 z3"
    using stage c2(2) by blast
  let ?c3 = "\<lambda>z. c3 z \<and> cp_excess payload ordered z"
  have "c3 (with_excess z3)" "cp_constraints payload ordered z3"
    using c1 c2 c3 by (auto elim!: cp_stage_Inr)
  then have e: "?c3 (with_excess z3)" by (simp add: with_excess_ok)
  obtain c4 z4 where c4: "(if sp_volunteers payload \<noteq> [] then cp_stage cp_solve ?c3 (\<lambda>z. - excess_sum payload z)
      else Inr ?c3) = Inr c4" "c4 z4"
  proof (cases "sp_volunteers payload = []")
    case True
    with e show ?thesis by (intro that [of ?c3 "with_excess z3"]) simp_all
  next
    case False
    obtain c4 z4 where "cp_stage cp_solve ?c3 (\<lambda>z. - excess_sum payload z) = Inr c4" "c4 z4"
      by (rule stage [of ?c3, OF e])
    with False show ?thesis by (intro that [of c4 z4]) simp_all
  qed
  obtain c5 z5 where c5: "cp_stage cp_solve c4 (compatibility_option_expr payload ordered) = Inr c5" "c5 z5"
    using stage c4(2) by blast
  obtain a where a: "cp_solve c5 (\<lambda>z. - availability_sum payload z) = Some a"
    using complete c5(2) unfolding cp_complete_def by blast
  obtain c6 z6 where c6: "cp_stage cp_solve c5 (\<lambda>z. - chronological_expr payload ordered z) = Inr c6" "c6 z6"
    using stage c5(2) by blast
  obtain z where "cp_solve c6 (\<lambda>z. - used_sum payload z) = Some z"
    using complete c6(2) unfolding cp_complete_def by blast
  with c1(1) c2(1) c3(1) c4(1) c5(1) c6(1) a show ?thesis
    by (simp add: cp_search_def Let_def is_ok_def)
qed

section \<open>The payload of a run\<close>

text \<open>The tables the payload is read from: distinct keys, and the counts the columns keep above zero.\<close>

definition plan_tables_ok :: "plan_db \<Rightarrow> bool" where
  "plan_tables_ok p \<longleftrightarrow>
     keys_ok (pd_shipments p) \<and> keys_ok (pd_volunteers p) \<and> keys_ok (pd_flights p)
     \<and> (\<forall>(_, x) \<in> set (pd_shipments p). 0 \<le> ss_equivalent_units x)
     \<and> (\<forall>(_, x) \<in> set (pd_flights p). at_least_zero (fs_capacity_units x))
     \<and> (\<forall>(_, x) \<in> set (pd_rules p). at_least_zero (dr_max_cartons_per_flight x))"

lemma dict_put_values: "(k, v) \<in> set (dict_put j w d) \<Longrightarrow> v = w \<or> (k, v) \<in> set d"
  by (auto simp: dict_put_def split: if_splits)

lemma fold_keeps_mem: "(\<And>x a. x \<in> set xs \<Longrightarrow> P a \<Longrightarrow> P (f x a)) \<Longrightarrow> P a \<Longrightarrow> P (fold f xs a)"
  by (induction xs arbitrary: a) auto

lemma rule_map_values:
  assumes "(k, rule) \<in> set (get_destination_rule_map run p)"
  shows "\<exists>i. (i, rule) \<in> set (pd_rules p)"
proof -
  define Q where "Q d \<longleftrightarrow> (\<forall>q \<in> set d. \<exists>i. (i, snd q) \<in> set (pd_rules p))" for d :: "(nat option \<times> destination_rule) list"
  have put: "Q (dict_put c r d)" if "Q d" "(i, r) \<in> set (pd_rules p)" for c r d i
    using that unfolding Q_def by (auto dest!: dict_put_values)
  have "Q (fold (\<lambda>(_, rule). dict_put (dr_destination rule) rule) rows [])"
    if "set rows \<subseteq> set (pd_rules p)" for rows
    by (rule fold_keeps_mem [where P = Q]) (use that put in \<open>auto, simp add: Q_def\<close>)
  moreover have "set (sort_key f (rows_where P (pd_rules p))) \<subseteq> set (pd_rules p)"
    for f :: "nat \<times> destination_rule \<Rightarrow> nat \<times> nat" and P
    by (auto simp: rows_where_mem)
  moreover have "Q []" by (simp add: Q_def)
  ultimately have "Q (get_destination_rule_map run p)"
    unfolding get_destination_rule_map_def by (simp split: option.split)
  with assms show ?thesis unfolding Q_def by fastforce
qed

lemma payload_rules_values:
  assumes "(k, rule) \<in> set (destination_rules_by_iata run p s)"
  shows "\<exists>i r. (i, r) \<in> set (pd_rules p) \<and> rule = payload_rule_of r"
proof -
  let ?Q = "\<lambda>d :: (string \<times> payload_rule) list. \<forall>q \<in> set d. \<exists>i r. (i, r) \<in> set (pd_rules p) \<and> snd q = payload_rule_of r"
  have "?Q (destination_rules_by_iata run p s)"
    unfolding destination_rules_by_iata_def
  proof (rule fold_keeps_mem [where P = ?Q], goal_cases)
    case (1 x d)
    obtain k rule where kr: "x = (k, rule)" by (cases x)
    obtain i where "(i, rule) \<in> set (pd_rules p)" using rule_map_values 1(1) unfolding kr by blast
    with 1(2) have "?Q (dict_put c (payload_rule_of rule) d)" for c
      by (auto dest!: dict_put_values) blast
    with 1(2) show ?case by (simp add: kr split: option.split)
  qed simp
  with assms show ?thesis by fastforce
qed

lemma distinct_sorted_rows: "keys_ok t \<Longrightarrow> distinct (map fst (sort_key f (rows_where P t)))"
  by (simp add: distinct_rows_where distinct_map)
     (metis distinct_map distinct_rows_where)

lemma compiled_payload_ok:
  assumes "plan_tables_ok p"
  shows "payload_ok (compile_run_solver_payload run p s)"
proof -
  have "ps_id (payload_shipment_of row) = fst row" "pl_id (payload_volunteer_of vrow) = fst vrow"
    "pf_id (payload_flight_of rules frow) = fst frow" for row vrow frow rules
    by (cases row; cases vrow; cases frow; simp add: payload_shipment_of_def payload_volunteer_of_def payload_flight_of_def Let_def)+
  then have ids: "map ps_id (map payload_shipment_of rows) = map fst rows"
    "map pl_id (map payload_volunteer_of vrows) = map fst vrows"
    "map pf_id (map (payload_flight_of rules) frows) = map fst frows" for rows vrows frows rules
    by simp_all
  let ?rules = "destination_rules_by_iata run p s"
  have cap: "at_least_zero (pf_max_cartons_per_flight (payload_flight_of ?rules row))" for row
  proof (cases "map_of ?rules (str_upper (fs_destination_iata (snd row)))")
    case None
    then show ?thesis by (cases row) (simp add: payload_flight_of_def Let_def at_least_zero_def)
  next
    case (Some rule)
    from payload_rules_values [OF map_of_SomeD [OF Some]]
    obtain i r where "(i, r) \<in> set (pd_rules p)" "rule = payload_rule_of r" by blast
    then have "at_least_zero (pr_max_cartons_per_flight rule)"
      using assms unfolding plan_tables_ok_def payload_rule_of_def by auto
    with Some show ?thesis by (cases row) (simp add: payload_flight_of_def Let_def)
  qed
  have "at_least_zero (pf_capacity_units (payload_flight_of ?rules row))" if "row \<in> set (ordered_flights run p)" for row
  proof -
    obtain i x where row: "row = (i, x)" by (cases row)
    with that have "(i, x) \<in> set (pd_flights p)" by (simp add: ordered_flights_def rows_where_mem)
    then have "at_least_zero (fs_capacity_units x)" using assms unfolding plan_tables_ok_def by auto
    then show ?thesis by (simp add: row payload_flight_of_def Let_def)
  qed
  moreover have "0 \<le> ps_equivalent_units (payload_shipment_of row)" if "row \<in> set (ordered_shipments run p)" for row
  proof -
    obtain i x where row: "row = (i, x)" by (cases row)
    with that have "(i, x) \<in> set (pd_shipments p)" by (simp add: ordered_shipments_def rows_where_mem)
    then show ?thesis using assms by (auto simp: row payload_shipment_of_def plan_tables_ok_def)
  qed
  ultimately show ?thesis
    using assms cap
    by (simp add: payload_ok_def compile_run_solver_payload_def Let_def ids list_all_iff ordered_shipments_def
        ordered_flights_def ordered_volunteers_def distinct_sorted_rows plan_tables_ok_def del: map_map)
qed

text \<open>Changing the status of the run does not change its payload.\<close>

lemma compile_status_change:
  assumes "\<And>r. run_parameter_set (g r) = run_parameter_set r"
  shows "compile_run_solver_payload run (p\<lparr>pd_runs := row_upd k g (pd_runs p)\<rparr>) s = compile_run_solver_payload run p s"
proof -
  have "get_destination_rule_map run (p\<lparr>pd_runs := row_upd k g (pd_runs p)\<rparr>) = get_destination_rule_map run p"
    by (auto simp: get_destination_rule_map_def row_get_upd assms split: option.split)
  then show ?thesis
    by (simp add: compile_run_solver_payload_def destination_rules_by_iata_def ordered_shipments_def
        ordered_volunteers_def ordered_flights_def)
qed

section \<open>The candidates solved\<close>

lemma solve_candidates_Inr:
  assumes ok: "payload_ok payload" and sound: "cp_sound cp_solve"
    and run: "solve_candidates cp_solve payload (compute_compatibility payload) = Inr (items, result)"
  obtains (nothing) "items = []" "x_keys payload (solver_pairs payload) = []"
  | (found) z where "cp_search cp_solve payload (solver_pairs payload) = Inr z"
      "items = final_plan payload (compute_compatibility payload) (selected_items payload (solver_pairs payload) z)"
proof -
  let ?ordered = "solver_pairs payload"
  show thesis
  proof (cases "sum_list (map (\<lambda>(_, pairs). length pairs) ?ordered) = 0")
    case True
    then have "\<forall>(_, pairs) \<in> set ?ordered. pairs = []" by (force simp: sum_list_eq_0_iff)
    then have none: "pairs_of ?ordered s = []" for s
      by (auto simp: pairs_of_def split: option.split dest!: map_of_SomeD)
    show ?thesis
    proof (rule that(1))
      show "items = []" using run True by (simp add: solve_candidates_def Let_def)
      show "x_keys payload ?ordered = []"
        by (simp add: x_keys_def shipment_flights_def none first_unique_def)
    qed
  next
    case False
    with run have "res_bind (cp_search cp_solve payload ?ordered) (\<lambda>z.
        Inr (final_plan payload (compute_compatibility payload) (selected_items payload ?ordered z),
          result_of payload (compute_compatibility payload) (count_candidate_assignments ?ordered (build_solver_diagnostics payload))
            (final_plan payload (compute_compatibility payload) (selected_items payload ?ordered z)))) = Inr (items, result)"
      unfolding solve_candidates_def Let_def by (simp only: if_False)
    then show ?thesis by (auto simp: wms_ok intro: that(2))
  qed
qed

lemma empty_plan_within_rules:
  assumes "payload_ok payload"
  shows "plan_within_rules payload []"
  using assms
  by (auto simp: plan_within_rules_def volunteers_ok_def loads_ok_def flights_apart_def flight_limits_def week_limits_def
      flights_used_def sum_over_def LEGACY_MAX_BE_PER_FLIGHT_def at_most_def at_least_zero_def payload_ok_def list_all_iff
      split: option.splits)

lemma solved_plan_within_rules:
  assumes ok: "payload_ok payload" and sound: "cp_sound cp_solve"
    and run: "solve_candidates cp_solve payload (compute_compatibility payload) = Inr (items, result)"
  shows "plan_within_rules payload items"
  using ok sound run
proof (cases rule: solve_candidates_Inr)
  case nothing
  then show ?thesis using empty_plan_within_rules [OF ok] by simp
next
  case (found z)
  then have "cp_constraints payload (solver_pairs payload) z" by (auto elim: cp_search_Inr [OF sound])
  with found(2) show ?thesis using plan_within_rules_final [OF ok selected_feasible [OF ok]] by simp
qed

lemma result_of_solved:
  assumes "solve_candidates cp_solve payload compatibility = Inr (items, result)"
  shows "\<exists>diagnostics. result = result_of payload compatibility diagnostics items"
  using assms by (auto simp: solve_candidates_def Let_def wms_ok split: if_splits)

section \<open>The weight of a plan\<close>

definition plan_weight :: "solver_payload \<Rightarrow> plan_item list \<Rightarrow> int" where
  "plan_weight payload items = sum_list (map (\<lambda>a. shipment_weight (shipment_of payload (pi_shipment a))) items)"

lemma plan_weight_selected:
  assumes ok: "payload_ok payload" and cp: "cp_constraints payload (solver_pairs payload) z"
  shows "plan_weight payload (selected_items payload (solver_pairs payload) z) = weighted_expr payload (solver_pairs payload) z"
proof -
  have "plan_weight payload (selected_items payload (solver_pairs payload) z)
      = sum_list (map (\<lambda>(s, v, f). shipment_weight (shipment_of payload s)) (selected_keys payload z))"
    unfolding plan_weight_def by (rule arg_cong [where f = sum_list], rule selected_map [OF ok]) (simp add: selected_item [OF ok])
  also have "\<dots> = weighted_expr payload (solver_pairs payload) z"
    unfolding selected_keys_def weighted_expr_def
    using cp by (subst selected_sum [where h = "\<lambda>s f. shipment_weight (shipment_of payload s)"]) (simp_all add: cp_constraints_def)
  finally show ?thesis .
qed

lemma plan_weight_final:
  assumes ok: "payload_ok payload" and as: "plan_within_rules payload as"
  shows "plan_weight payload (final_plan payload (compute_compatibility payload) as) = plan_weight payload as"
proof -
  let ?bs = "canonicalize_legacy_equal_weight_assignments payload (compute_compatibility payload) as"
  let ?cs = "rebalance_assignments_by_flight payload (compute_compatibility payload) ?bs"
  let ?w = "\<lambda>a. shipment_weight (shipment_of payload (pi_shipment a))"
  have carry: "\<forall>a \<in> set as. carries payload a" and dist: "distinct (map pi_shipment as)"
    using as by (auto simp: plan_within_rules_def volunteers_ok_def)
  have "map ?w as = map ?w ?bs"
    unfolding list.rel_eq [symmetric] list.rel_map
    using canonicalize_keeps(3) [OF ok dist carry, of "compute_compatibility payload"]
    by (rule list.rel_mono_strong) (simp add: swapped_def)
  then have bs: "plan_weight payload ?bs = plan_weight payload as" by (simp add: plan_weight_def)
  have "volunteers_ok payload ?bs"
    using plan_within_rules_canonicalize [OF ok as] by (simp add: plan_within_rules_def)
  from rebalance_keeps(2) [OF ok this] have "mset (map unmanned ?cs) = mset (map unmanned ?bs)" .
  from sum_list_mset_cong [OF this, of ?w] have "plan_weight payload ?cs = plan_weight payload ?bs"
    by (simp add: plan_weight_def comp_def)
  moreover have "plan_weight payload (sort_key plan_order_key ?cs) = plan_weight payload ?cs"
    unfolding plan_weight_def by (rule sum_list_mset_cong) simp
  ultimately show ?thesis using bs by (simp add: final_plan_def)
qed

end
