(* ===== verification/Solver_Properties.thy ===== *)
theory Solver_Properties
  imports Plan_Optimum Version_Properties
begin

text \<open>
  The properties of the solver of the planning: the distribution over volunteers is the least one, a
  solved run stores a plan within the rules, a ready run can always be solved, and the plan ships the
  most priority weight.
\<close>

section \<open>The distribution over the volunteers\<close>

text \<open>
  C26: the shipments of a flight go to the first volunteers that can carry them. For weights that are
  not negative, the distribution found is the lexicographically least one that keeps every volunteer
  within capacity, and there is none exactly when no distribution does.
\<close>

theorem distribution_is_least:
  assumes "\<forall>w \<in> set ws. 0 \<le> w"
  shows "(solve_lexicographic_flight_distribution ws capacities = Some d \<longleftrightarrow>
       feasible_distribution ws capacities d \<and> (\<forall>d'. feasible_distribution ws capacities d' \<longrightarrow> d \<le> d'))
    \<and> (solve_lexicographic_flight_distribution ws capacities = None \<longleftrightarrow> (\<forall>d'. \<not> feasible_distribution ws capacities d'))"
proof -
  have least: "\<exists>e. solve_lexicographic_flight_distribution ws capacities = Some e \<and> e \<le> d'"
    if "feasible_distribution ws capacities d'" for d'
    by (rule distribution_least [OF assms that])
  show ?thesis
  proof (cases "solve_lexicographic_flight_distribution ws capacities")
    case None
    with least have "\<not> feasible_distribution ws capacities d'" for d' by fastforce
    with None show ?thesis by simp
  next
    case (Some e)
    have "feasible_distribution ws capacities e" by (rule distribution_sound [OF assms Some])
    moreover have "e \<le> d'" if "feasible_distribution ws capacities d'" for d' using least [OF that] Some by simp
    ultimately show ?thesis using Some by (auto intro: antisym)
  qed
qed

lemma distribution_is_least_witness:
  "solve_lexicographic_flight_distribution [8, 15, 10] [20, 22] = Some [0, 1, 0]
   \<and> feasible_distribution [8, 15, 10] [20, 22] [0, 1, 0]
   \<and> solve_lexicographic_flight_distribution [8, 15, 20] [20, 22] = None
   \<and> \<not> feasible_distribution [8, 15, 20] [20, 22] [0, 0, 1]"
proof -
  have "solve_lexicographic_flight_distribution [8, 15, 10] [20, 22] = Some [0, 1, 0]"
    "solve_lexicographic_flight_distribution [8, 15, 20] [20, 22] = None" by code_simp+
  then show ?thesis
    using distribution_is_least [of "[8, 15, 10]" "[20, 22]" "[0, 1, 0]"]
      distribution_is_least [of "[8, 15, 20]" "[20, 22]"] by simp
qed

section \<open>A run solved\<close>

lemma solve_run_Inr:
  assumes "solve_run e cp_solve run p s = Inr (version, payload, result, p')"
  obtains r items p2 where "row_get (pd_runs p) run = Some r" "run_status r = Run_Ready"
    "payload = compile_run_solver_payload run p s"
    "solve_candidates cp_solve payload (compute_compatibility payload) = Inr (items, result)"
    "version = next_pk (pd_versions p)"
    "pd_runs p' = row_upd run (\<lambda>r. r\<lparr>run_status := Run_Solved, run_updated_at := e_now e\<rparr>)
       (row_upd run (\<lambda>r. r\<lparr>run_status := Run_Solving, run_updated_at := e_now e\<rparr>) (pd_runs p))"
    "pd_versions p' = row_ins (version_save_fields e \<lparr>pv_run = run, pv_number = None, pv_status = Pv_Draft,
       pv_based_on = None, pv_change_reason = [], pv_created_by = Some (run_created_by r),
       pv_published_at = None, pv_created_at = e_now e, pv_updated_at = e_now e\<rparr> p2) (pd_versions p)"
    "pd_versions p2 = pd_versions p"
    "pd_assignments p' = fold row_ins (map (\<lambda>(n, item). solver_assignment e version n item)
       (zip [1..<Suc (length items)] items)) (pd_assignments p)"
    "pd_shipments p' = pd_shipments p" "pd_volunteers p' = pd_volunteers p" "pd_flights p' = pd_flights p"
proof -
  let ?g = "\<lambda>r. r\<lparr>run_status := Run_Solving, run_updated_at := e_now e\<rparr>"
  let ?p1 = "p\<lparr>pd_runs := row_upd run ?g (pd_runs p)\<rparr>"
  have same: "compile_run_solver_payload run ?p1 s = compile_run_solver_payload run p s"
    by (rule compile_status_change) simp
  from assms obtain r where r: "row_get (pd_runs p) run = Some r" "run_status r = Run_Ready"
    by (auto simp: solve_run_def wms_ok)
  with assms obtain items where items: "solve_candidates cp_solve (compile_run_solver_payload run p s)
      (compute_compatibility (compile_run_solver_payload run p s)) = Inr (items, result)"
    by (auto simp: solve_run_def Let_def wms_ok same create_version_def)
  with assms r show thesis
    by (intro that [of r items ?p1]) (auto simp: solve_run_def Let_def same create_version_def)
qed

lemma solver_assignments_of:
  assumes linked: "assignments_linked p" and version: "version = next_pk (pd_versions p)"
    and rows: "pd_assignments p' = fold row_ins (map (\<lambda>(n, item). solver_assignment e version n item)
       (zip [1..<Suc (length items)] items)) (pd_assignments p)"
  shows "map snd (assignments_of version p') =
    map (\<lambda>(n, item). solver_assignment e version n item) (zip [1..<Suc (length items)] items)"
proof -
  let ?cs = "map (\<lambda>(n, item). solver_assignment e version n item) (zip [1..<Suc (length items)] items)"
  let ?new = "zip [next_pk (pd_assignments p)..<next_pk (pd_assignments p) + length ?cs] ?cs"
  have t: "pd_assignments p' = pd_assignments p @ ?new" unfolding rows by (rule fold_row_ins)
  have "rows_where (\<lambda>_ a. as_version a = version) (pd_assignments p) = []"
    using linked row_get_fresh [of "pd_versions p"] version
    by (fastforce simp: assignments_linked_def rows_where_def filter_empty_conv)
  moreover have "as_version a = version" if "(i, a) \<in> set ?new" for i a
    using set_zip_rightD [OF that] by (auto simp: solver_assignment_def)
  then have "rows_where (\<lambda>_ a. as_version a = version) ?new = ?new"
    unfolding rows_where_def by (fastforce intro!: filter_True)
  ultimately have "assignments_of version p' = sort_key (\<lambda>(i, a). (as_sequence a, i)) ?new"
    by (simp add: assignments_of_def t rows_where_def)
  moreover have "map as_sequence ?cs = [1..<Suc (length items)]"
    by (simp add: comp_def case_prod_beta solver_assignment_def del: upt_Suc)
  then have "sorted (map (\<lambda>(i, a). (as_sequence a, i)) ?new)"
    by (intro sorted_zip_upt) (simp only: sorted_upt)
  ultimately have "assignments_of version p' = ?new" by (simp add: sort_key_id_if_sorted)
  then show ?thesis by simp
qed

text \<open>
  C23: a run that is solved stores a plan within the rules. Whatever values the solver returns, as long
  as they satisfy the constraints it was given, \<open>solve_run\<close> creates one draft version of the run with
  an assignment for each item of a plan: no shipment twice, each assigned to a flight and a volunteer
  that suit it, no flight over its units, its cartons or five shipments, no volunteer over capacity on
  a flight or on two flights that conflict, no destination beyond its weekly flights and no physical
  flight used twice. The shipments reported as assigned and unassigned are those of the plan and the
  others, and the run is marked solved.
\<close>

theorem solve_run_stores_plan_within_rules:
  assumes "plan_tables_ok p" and "assignments_linked p" and "cp_sound cp_solve"
    and "solve_run e cp_solve run p s = Inr (version, payload, result, p')"
  shows "\<exists>items v r.
     plan_within_rules payload items \<and> payload = compile_run_solver_payload run p s
   \<and> map snd (assignments_of version p') =
       map (\<lambda>(n, item). solver_assignment e version n item) (zip [1..<Suc (length items)] items)
   \<and> sr_assigned_shipments result = map pi_shipment items
   \<and> sm_unassigned (sr_summary result) =
       filter (\<lambda>i. i \<notin> pi_shipment ` set items) (map ps_id (sp_shipments payload))
   \<and> row_get (pd_versions p) version = None
   \<and> row_get (pd_versions p') version = Some v \<and> pv_run v = run \<and> pv_status v = Pv_Draft
   \<and> row_get (pd_runs p') run = Some r \<and> run_status r = Run_Solved"
proof -
  obtain r items p2 where r: "row_get (pd_runs p) run = Some r"
    and payload: "payload = compile_run_solver_payload run p s"
    and items: "solve_candidates cp_solve payload (compute_compatibility payload) = Inr (items, result)"
    and version: "version = next_pk (pd_versions p)"
    and runs: "pd_runs p' = row_upd run (\<lambda>r. r\<lparr>run_status := Run_Solved, run_updated_at := e_now e\<rparr>)
       (row_upd run (\<lambda>r. r\<lparr>run_status := Run_Solving, run_updated_at := e_now e\<rparr>) (pd_runs p))"
    and versions: "pd_versions p' = row_ins (version_save_fields e \<lparr>pv_run = run, pv_number = None,
       pv_status = Pv_Draft, pv_based_on = None, pv_change_reason = [], pv_created_by = Some (run_created_by r),
       pv_published_at = None, pv_created_at = e_now e, pv_updated_at = e_now e\<rparr> p2) (pd_versions p)"
    and rows: "pd_assignments p' = fold row_ins (map (\<lambda>(n, item). solver_assignment e version n item)
       (zip [1..<Suc (length items)] items)) (pd_assignments p)"
    using assms(4) by (rule solve_run_Inr)
  have ok: "payload_ok payload" unfolding payload by (rule compiled_payload_ok [OF assms(1)])
  obtain diagnostics where result: "result = result_of payload (compute_compatibility payload) diagnostics items"
    using result_of_solved [OF items] ..
  let ?v = "version_save_fields e \<lparr>pv_run = run, pv_number = None,
       pv_status = Pv_Draft, pv_based_on = None, pv_change_reason = [], pv_created_by = Some (run_created_by r),
       pv_published_at = None, pv_created_at = e_now e, pv_updated_at = e_now e\<rparr> p2"
  let ?r = "r\<lparr>run_status := Run_Solved, run_updated_at := e_now e\<rparr>"
  have "plan_within_rules payload items" by (rule solved_plan_within_rules [OF ok assms(3) items])
  moreover have "map snd (assignments_of version p') =
      map (\<lambda>(n, item). solver_assignment e version n item) (zip [1..<Suc (length items)] items)"
    by (rule solver_assignments_of [OF assms(2) version rows])
  moreover have "sr_assigned_shipments result = map pi_shipment items"
    "sm_unassigned (sr_summary result) = filter (\<lambda>i. i \<notin> pi_shipment ` set items) (map ps_id (sp_shipments payload))"
    by (simp_all add: result result_of_def Let_def summarize_solver_result_def)
  moreover have "row_get (pd_versions p) version = None" by (simp add: version row_get_fresh)
  moreover have "row_get (pd_versions p') version = Some ?v" by (simp add: versions version row_get_ins)
  moreover have "pv_run ?v = run" "pv_status ?v = Pv_Draft" by (simp_all add: version_save_fields_def Let_def)
  moreover have "row_get (pd_runs p') run = Some ?r" "run_status ?r = Run_Solved"
    using r by (simp_all add: runs row_get_upd)
  ultimately show ?thesis using payload by blast
qed

text \<open>
  C24: a ready run can always be solved, and only a ready run. With a solver that finds values when there
  are some, \<open>solve_run\<close> never raises on a ready run: the plan that assigns nothing satisfies every
  constraint, and each bound added between the stages is met by the values of the stage before.
\<close>

theorem solve_run_succeeds_iff_ready:
  assumes "plan_tables_ok p" and "cp_sound cp_solve" and "cp_complete cp_solve"
  shows "is_ok (solve_run e cp_solve run p s) \<longleftrightarrow> map_option run_status (row_get (pd_runs p) run) = Some Run_Ready"
proof
  assume "is_ok (solve_run e cp_solve run p s)"
  then show "map_option run_status (row_get (pd_runs p) run) = Some Run_Ready"
    by (auto simp: is_ok_iff elim!: solve_run_Inr)
next
  assume "map_option run_status (row_get (pd_runs p) run) = Some Run_Ready"
  then obtain r where r: "row_get (pd_runs p) run = Some r" "run_status r = Run_Ready" by auto
  let ?payload = "compile_run_solver_payload run p s"
  have "is_ok (cp_search cp_solve ?payload (solver_pairs ?payload))"
    by (rule cp_search_complete [OF compiled_payload_ok [OF assms(1)] assms(2,3)])
  then have "is_ok (solve_candidates cp_solve ?payload (compute_compatibility ?payload))"
    by (auto simp: solve_candidates_def Let_def is_ok_iff)
  then obtain items result where "solve_candidates cp_solve ?payload (compute_compatibility ?payload) = Inr (items, result)"
    by (auto simp: is_ok_iff)
  moreover have "compile_run_solver_payload run
      (p\<lparr>pd_runs := row_upd run (\<lambda>r. r\<lparr>run_status := Run_Solving, run_updated_at := e_now e\<rparr>) (pd_runs p)\<rparr>) s = ?payload"
    by (rule compile_status_change) simp
  ultimately show "is_ok (solve_run e cp_solve run p s)"
    using r by (simp add: solve_run_def Let_def create_version_def is_ok_def)
qed

text \<open>
  C25: the plan ships the most priority weight. When the solver's answer to the first stage is optimal,
  no values that satisfy the constraints have a weighted sum above the weight of the plan,
  also after equal shipments were exchanged and volunteers redistributed.
\<close>

theorem solved_plan_has_most_weight:
  assumes "payload_ok payload" and "cp_sound cp_solve"
    and "cp_optimal_for cp_solve (cp_constraints payload (solver_pairs payload)) (weighted_expr payload (solver_pairs payload))"
    and "solve_candidates cp_solve payload (compute_compatibility payload) = Inr (items, result)"
    and "cp_constraints payload (solver_pairs payload) z"
  shows "weighted_expr payload (solver_pairs payload) z \<le> plan_weight payload items"
  using assms(1,2,4)
proof (cases rule: solve_candidates_Inr)
  case nothing
  then show ?thesis by (simp add: weighted_expr_def sum_over_def plan_weight_def)
next
  case (found y)
  obtain x where x: "cp_solve (cp_constraints payload (solver_pairs payload)) (weighted_expr payload (solver_pairs payload)) = Some x"
    "cp_constraints payload (solver_pairs payload) y"
    "weighted_expr payload (solver_pairs payload) x \<le> weighted_expr payload (solver_pairs payload) y"
    by (rule cp_search_Inr [OF assms(2) found(1)])
  have "weighted_expr payload (solver_pairs payload) z \<le> weighted_expr payload (solver_pairs payload) x"
    using assms(3,5) x(1) unfolding cp_optimal_for_def by blast
  also note x(3)
  also have "weighted_expr payload (solver_pairs payload) y = plan_weight payload items"
    using plan_weight_selected [OF assms(1) x(2)] plan_weight_final [OF assms(1) selected_feasible [OF assms(1) x(2)]]
      found(2) by simp
  finally show ?thesis .
qed

section \<open>A run of two shipments\<close>

definition ready_shipment :: "string \<Rightarrow> int \<Rightarrow> shipment_snapshot" where
  "ready_shipment reference units = \<lparr>ss_run = 1, ss_shipment = None, ss_reference = reference,
     ss_shipper_name = ''A'', ss_destination_iata = ''A'', ss_priority = 1, ss_carton_count = 2,
     ss_equivalent_units = units, ss_legacy_type_priority = None, ss_legacy_date_depart_mag = None,
     ss_legacy_date_impression = None, ss_legacy_date_conditionnement = None\<rparr>"

definition ready_volunteer :: "string \<Rightarrow> volunteer_snapshot" where
  "ready_volunteer label = \<lparr>vs_run = 1, vs_volunteer = None, vs_label = label, vs_max_colis_vol = None,
     vs_unavailable_dates = [], vs_slots = [], vs_legacy_id = None\<rparr>"

definition ready_plan :: plan_db where
  "ready_plan = \<lparr>
     pd_runs = [(1, \<lparr>run_week_start = Date 26 3 2, run_week_end = Date 26 3 8,
       run_parameter_set = Some 1, run_status = Run_Ready, run_created_by = 1, run_updated_at = 0\<rparr>)],
     pd_rules = [(1, \<lparr>dr_parameter_set = 1, dr_destination = Some 1, dr_label = [], dr_weekly_frequency = Some 1,
       dr_max_cartons_per_flight = Some 5, dr_allowed_weekdays = [''wed''], dr_priority = 0, dr_notes = [],
       dr_is_active = True\<rparr>)],
     pd_shipments = [(1, ready_shipment ''R1'' 8), (2, ready_shipment ''R2'' 10)],
     pd_volunteers = [(1, ready_volunteer ''V''), (2, ready_volunteer ''W'')],
     pd_flights = [(1, \<lparr>fs_run = 1, fs_flight = None, fs_flight_number = ''F1'',
       fs_departure_date = Date 26 3 4, fs_destination_iata = ''A'', fs_capacity_units = Some 20,
       fs_departure_time = Some 600, fs_routing = ''P-A'', fs_origin_iata = ''P'', fs_route_pos = None\<rparr>)],
     pd_versions = [], pd_assignments = []\<rparr>"

definition ready_warehouse :: db where
  "ready_warehouse = sample_db\<lparr>db_destinations := [(1, \<lparr>d_city = ''Abidjan'', d_iata_code = ''A'',
     d_country = ''CI'', d_correspondent_contact = 1, d_is_active = True\<rparr>)]\<rparr>"

text \<open>Both shipments on the flight, with the second volunteer.\<close>

definition both_shipped :: cp_solution where
  "both_shipped = \<lparr>cs_x = (\<lambda>(s, f). s \<in> set [1, 2] \<and> f = 1), cs_y = (\<lambda>(v, f). v = 2 \<and> f = 1),
     cs_z = (\<lambda>(s, v, f). s \<in> set [1, 2] \<and> v = 2 \<and> f = 1), cs_used = (\<lambda>f. f = 1),
     cs_nb_be = (\<lambda>_. 2), cs_charge = (\<lambda>_. 18), cs_missions = (\<lambda>v. if v = 2 then 1 else 0), cs_excess = (\<lambda>_. 0)\<rparr>"

definition cp_pick :: "cp_solution \<Rightarrow> cp_solver" where
  "cp_pick z constraints objective = (if constraints z then Some z else None)"

lemma cp_pick_sound: "cp_sound (cp_pick z)"
  by (simp add: cp_sound_def cp_pick_def)

definition ready_payload :: solver_payload where
  "ready_payload = \<lparr>sp_run = 1,
     sp_shipments =
       [\<lparr>ps_id = 1, ps_reference = ''R1'', ps_shipper_name = ''A'', ps_destination_iata = ''A'', ps_priority = 1,
          ps_priority_rank = 1, ps_carton_count = 2, ps_equivalent_units = 8, ps_date_depart_mag = None,
          ps_date_impression = None, ps_date_conditionnement = None\<rparr>,
        \<lparr>ps_id = 2, ps_reference = ''R2'', ps_shipper_name = ''A'', ps_destination_iata = ''A'', ps_priority = 1,
          ps_priority_rank = 1, ps_carton_count = 2, ps_equivalent_units = 10, ps_date_depart_mag = None,
          ps_date_impression = None, ps_date_conditionnement = None\<rparr>],
     sp_volunteers =
       [\<lparr>pl_id = 1, pl_label = ''V'', pl_max_colis_vol = None, pl_unavailable_dates = [], pl_slots = [], pl_legacy_id = None\<rparr>,
        \<lparr>pl_id = 2, pl_label = ''W'', pl_max_colis_vol = None, pl_unavailable_dates = [], pl_slots = [], pl_legacy_id = None\<rparr>],
     sp_flights =
       [\<lparr>pf_id = 1, pf_flight_number = ''F1'', pf_departure_date = Date 26 3 4, pf_departure_time = Some 600,
          pf_origin_iata = ''P'', pf_destination_iata = ''A'', pf_routing = ''P-A'', pf_route_pos = 1,
          pf_physical_flight_key = ''0026-03-04|10:00|F1'', pf_capacity_units = Some 20,
          pf_max_cartons_per_flight = Some 5, pf_weekly_frequency = Some 1, pf_allowed_weekdays = [''wed'']\<rparr>],
     sp_rules = [(''A'', \<lparr>pr_priority = 0, pr_weekly_frequency = Some 1, pr_max_cartons_per_flight = Some 5,
       pr_allowed_weekdays = [''wed'']\<rparr>)]\<rparr>"

lemma ready_payload_compiled: "compile_run_solver_payload 1 ready_plan ready_warehouse = ready_payload"
  by code_simp

lemma ready_payload_ok: "payload_ok ready_payload"
  by (simp add: payload_ok_def ready_payload_def at_least_zero_def)

lemma both_shipped_ok: "cp_constraints ready_payload (solver_pairs ready_payload) both_shipped"
  by code_simp

lemma ready_candidates:
  "map_sum id (\<lambda>(items, _). map (\<lambda>a. (pi_shipment a, pi_flight a, pi_volunteer a)) items)
     (solve_candidates (cp_pick both_shipped) ready_payload (compute_compatibility ready_payload))
   = Inr [(1, 1, 2), (2, 1, 2)]"
  by code_simp

lemma ready_run_solved:
  obtains version result p' where
    "solve_run sample_env (cp_pick both_shipped) 1 ready_plan ready_warehouse = Inr (version, ready_payload, result, p')"
proof -
  obtain items result where solved:
    "solve_candidates (cp_pick both_shipped) ready_payload (compute_compatibility ready_payload) = Inr (items, result)"
    using ready_candidates
    by (cases "solve_candidates (cp_pick both_shipped) ready_payload (compute_compatibility ready_payload)") auto
  have run: "row_get (pd_runs ready_plan) 1 = Some \<lparr>run_week_start = Date 26 3 2, run_week_end = Date 26 3 8,
       run_parameter_set = Some 1, run_status = Run_Ready, run_created_by = 1, run_updated_at = 0\<rparr>"
    by (simp add: ready_plan_def row_get_def)
  have "compile_run_solver_payload 1 (ready_plan\<lparr>pd_runs := row_upd 1
      (\<lambda>r. r\<lparr>run_status := Run_Solving, run_updated_at := e_now sample_env\<rparr>) (pd_runs ready_plan)\<rparr>) ready_warehouse = ready_payload"
    unfolding ready_payload_compiled [symmetric] by (rule compile_status_change) simp
  with solved run show thesis
    by (intro that) (simp add: solve_run_def Let_def create_version_def)
qed

lemma ready_plan_ok: "plan_tables_ok ready_plan" "assignments_linked ready_plan"
  by (simp_all add: plan_tables_ok_def assignments_linked_def ready_plan_def keys_ok_def ready_shipment_def at_least_zero_def)

lemma solve_run_stores_plan_within_rules_witness:
  "\<exists>version result p' items. solve_run sample_env (cp_pick both_shipped) 1 ready_plan ready_warehouse
       = Inr (version, ready_payload, result, p')
     \<and> plan_within_rules ready_payload items \<and> length (assignments_of version p') = length items
     \<and> sr_assigned_shipments result = map pi_shipment items"
proof -
  obtain version result p' where run:
    "solve_run sample_env (cp_pick both_shipped) 1 ready_plan ready_warehouse = Inr (version, ready_payload, result, p')"
    by (rule ready_run_solved)
  from solve_run_stores_plan_within_rules [OF ready_plan_ok cp_pick_sound run]
  obtain items where items: "plan_within_rules ready_payload items"
    "sr_assigned_shipments result = map pi_shipment items" and rows: "map snd (assignments_of version p') =
      map (\<lambda>(n, item). solver_assignment sample_env version n item) (zip [1..<Suc (length items)] items)"
    by blast
  have "length (assignments_of version p') = length items"
    using arg_cong [OF rows, where f = length] by (simp del: upt_Suc)
  with run items show ?thesis by blast
qed

definition cp_any :: cp_solver where
  "cp_any constraints objective = (if \<exists>z. constraints z then Some (SOME z. constraints z) else None)"

lemma cp_any_ok: "cp_sound cp_any" "cp_complete cp_any"
  by (auto simp: cp_sound_def cp_complete_def cp_any_def intro: someI split: if_splits)

lemma solve_run_succeeds_iff_ready_witness:
  "is_ok (solve_run sample_env cp_any 1 ready_plan ready_warehouse)
   \<and> \<not> is_ok (solve_run sample_env cp_any 2 ready_plan ready_warehouse)"
  using solve_run_succeeds_iff_ready [OF ready_plan_ok(1) cp_any_ok, of sample_env 1 ready_warehouse]
    solve_run_succeeds_iff_ready [OF ready_plan_ok(1) cp_any_ok, of sample_env 2 ready_warehouse]
  by (simp add: ready_plan_def row_get_def)

lemma ready_x_keys: "x_keys ready_payload (solver_pairs ready_payload) = [(1, 1), (2, 1)]"
  by code_simp

lemma ready_weights: "shipment_weight (shipment_of ready_payload 1) = 72 \<and> shipment_weight (shipment_of ready_payload 2) = 90"
  by code_simp

lemma both_shipped_best:
  "cp_optimal_for (cp_pick both_shipped) (cp_constraints ready_payload (solver_pairs ready_payload))
     (weighted_expr ready_payload (solver_pairs ready_payload))"
proof -
  have "weighted_expr ready_payload (solver_pairs ready_payload) z
      = 72 * b2i (cs_x z (1, 1)) + 90 * b2i (cs_x z (2, 1))" for z
    using ready_weights by (simp add: weighted_expr_def ready_x_keys sum_over_def)
  then show ?thesis by (auto simp: cp_optimal_for_def cp_pick_def b2i_def both_shipped_def split: if_splits)
qed

lemma solved_plan_has_most_weight_witness:
  "\<exists>items result. solve_candidates (cp_pick both_shipped) ready_payload (compute_compatibility ready_payload)
       = Inr (items, result) \<and> 162 \<le> plan_weight ready_payload items"
proof -
  obtain items result where solved:
    "solve_candidates (cp_pick both_shipped) ready_payload (compute_compatibility ready_payload) = Inr (items, result)"
    using ready_candidates
    by (cases "solve_candidates (cp_pick both_shipped) ready_payload (compute_compatibility ready_payload)") auto
  have "weighted_expr ready_payload (solver_pairs ready_payload) both_shipped = 162"
    using ready_weights by (simp add: weighted_expr_def ready_x_keys sum_over_def both_shipped_def b2i_def)
  with solved_plan_has_most_weight [OF ready_payload_ok cp_pick_sound both_shipped_best solved both_shipped_ok] solved
  show ?thesis by auto
qed

end
