(* ===== verification/Json.thy ===== *)
theory Json
  imports Text_Codes Data_Model
begin

text \<open>
  The JSON values the source keeps in \<open>JSONField\<close> columns, with the Python readings of them its
  operations rest on: truth (\<open>x or default\<close>), \<open>dict.get\<close>, \<open>int()\<close> and \<open>str()\<close>. An object is
  the list of its members, in insertion order and with distinct keys. Numbers are integers; the
  source writes no fractional number into the columns modelled here.
\<close>

datatype json =
    J_Null
  | J_Bool bool
  | J_Int int
  | J_Str string
  | J_List "json list"
  | J_Obj "(string \<times> json) list"

fun truthy :: "json \<Rightarrow> bool" where
  "truthy J_Null = False"
| "truthy (J_Bool b) = b"
| "truthy (J_Int n) = (n \<noteq> 0)"
| "truthy (J_Str s) = (s \<noteq> [])"
| "truthy (J_List xs) = (xs \<noteq> [])"
| "truthy (J_Obj m) = (m \<noteq> [])"

text \<open>\<open>a or b\<close>.\<close>

definition py_or :: "json \<Rightarrow> json \<Rightarrow> json" where
  "py_or a b = (if truthy a then a else b)"

text \<open>\<open>d.get(key)\<close> of a dictionary, and of a value that may not be one.\<close>

definition obj_get :: "(string \<times> json) list \<Rightarrow> string \<Rightarrow> json" where
  "obj_get m key = (case map_of m key of None \<Rightarrow> J_Null | Some v \<Rightarrow> v)"

definition as_dict :: "json \<Rightarrow> err + (string \<times> json) list" where
  "as_dict v = (case v of J_Obj m \<Rightarrow> Inr m | _ \<Rightarrow> Inl Attribute_Error)"

lemma map_of_dict_put: "map_of (dict_put k v m) j = (if j = k then Some v else map_of m j)"
proof (cases "k \<in> fst ` set m")
  case True
  have "map_of (map (\<lambda>(i, x). (i, if i = k then v else x)) m) j
      = map_option (\<lambda>x. if j = k then v else x) (map_of m j)"
    by (induction m) auto
  moreover have "\<exists>x. map_of m k = Some x"
    using True by (metis map_of_eq_None_iff not_None_eq)
  ultimately show ?thesis
    using True by (cases "j = k"; cases "map_of m j") (auto simp: dict_put_def)
next
  case False
  then have "map_of m k = None" by (simp add: map_of_eq_None_iff)
  with False show ?thesis
    by (cases "map_of m j") (auto simp: dict_put_def map_add_def)
qed

lemma obj_get_dict_put [simp]:
  "obj_get (dict_put k v m) j = (if j = k then v else obj_get m j)"
  by (simp add: obj_get_def map_of_dict_put)

section \<open>int()\<close>

text \<open>
  The digits of an integer literal, single underscores between them allowed; the optional sign
  and the blanks around it are those Python accepts.
\<close>

fun digits_value :: "string \<Rightarrow> int \<Rightarrow> int option" where
  "digits_value [] n = Some n"
| "digits_value (c # s) n =
     (if is_digit c then digits_value s (10 * n + int (digit_value c))
      else if c = CHR ''_'' then
        (case s of [] \<Rightarrow> None
         | d # s' \<Rightarrow> if is_digit d then digits_value s' (10 * n + int (digit_value d)) else None)
      else None)"

definition unsigned_value :: "string \<Rightarrow> int option" where
  "unsigned_value s =
     (case s of [] \<Rightarrow> None | c # s' \<Rightarrow> if is_digit c then digits_value s 0 else None)"

definition int_of_text :: "string \<Rightarrow> int option" where
  "int_of_text text =
     (case strip text of [] \<Rightarrow> None
      | c # s \<Rightarrow> if c = CHR ''-'' then map_option uminus (unsigned_value s)
                else if c = CHR ''+'' then unsigned_value s
                else unsigned_value (c # s))"

text \<open>\<open>int(value)\<close>, none where it raises \<open>TypeError\<close> or \<open>ValueError\<close>.\<close>

definition py_int :: "json \<Rightarrow> int option" where
  "py_int v = (case v of
       J_Bool b \<Rightarrow> Some (if b then 1 else 0)
     | J_Int n \<Rightarrow> Some n
     | J_Str s \<Rightarrow> int_of_text s
     | _ \<Rightarrow> None)"

definition safe_int :: "json \<Rightarrow> int \<Rightarrow> int \<Rightarrow> int" where
  "safe_int v deflt minimum = (case py_int v of None \<Rightarrow> deflt | Some n \<Rightarrow> max minimum n)"

lemma safe_int_ge: "minimum \<le> deflt \<Longrightarrow> minimum \<le> safe_int v deflt minimum"
  by (auto simp: safe_int_def split: option.splits)

lemma safe_int_Int [simp]: "safe_int (J_Int n) deflt minimum = max minimum n"
  by (simp add: safe_int_def py_int_def)

lemma safe_int_Null [simp]: "safe_int J_Null deflt minimum = deflt"
  by (simp add: safe_int_def py_int_def)

section \<open>str()\<close>

text \<open>
  \<open>str(value)\<close>: a string is itself, the rest as \<open>repr\<close> writes it: inside lists and
  dictionaries strings are quoted, with the quote and the escapes Python chooses.
\<close>

definition signed_str :: "int \<Rightarrow> string" where
  "signed_str n = (if n < 0 then CHR ''-'' # int_str (- n) else int_str n)"

definition hex_digit :: "nat \<Rightarrow> char" where
  "hex_digit d = (if d < 10 then digit_char d else char_of (87 + d))"

definition repr_char :: "char \<Rightarrow> char \<Rightarrow> string" where
  "repr_char quote c =
     (let n = (of_char c :: nat) in
      if c = quote \<or> n = 92 then [CHR 0x5C, c]
      else if n = 9 then [CHR 0x5C, CHR ''t'']
      else if n = 10 then [CHR 0x5C, CHR ''n'']
      else if n = 13 then [CHR 0x5C, CHR ''r'']
      else if n < 32 \<or> n = 127 then [CHR 0x5C, CHR ''x'', hex_digit (n div 16), hex_digit (n mod 16)]
      else [c])"

definition repr_str :: "string \<Rightarrow> string" where
  "repr_str s =
     (let quote = (if CHR 0x27 \<in> set s \<and> CHR 0x22 \<notin> set s then CHR 0x22 else CHR 0x27)
      in quote # concat (map (repr_char quote) s) @ [quote])"

definition comma_join :: "string list \<Rightarrow> string" where
  "comma_join xs =
     (case xs of [] \<Rightarrow> [] | y # ys \<Rightarrow> y @ concat (map (\<lambda>z. '', '' @ z) ys))"

fun py_repr :: "json \<Rightarrow> string" where
  "py_repr J_Null = ''None''"
| "py_repr (J_Bool b) = (if b then ''True'' else ''False'')"
| "py_repr (J_Int n) = signed_str n"
| "py_repr (J_Str s) = repr_str s"
| "py_repr (J_List xs) = ''['' @ comma_join (map py_repr xs) @ '']''"
| "py_repr (J_Obj m) =
     ''{'' @ comma_join (map (\<lambda>(k, v). repr_str k @ '': '' @ py_repr v) m) @ ''}''"

definition py_str :: "json \<Rightarrow> string" where
  "py_str v = (case v of J_Str s \<Rightarrow> s | _ \<Rightarrow> py_repr v)"

lemma py_str_J_Str [simp]: "py_str (J_Str s) = s"
  by (simp add: py_str_def)

end
