(* ===== verification/Event_Queue.thy ===== *)
theory Event_Queue
  imports Json Tables
begin

text \<open>
  The integration events, which are the program's outbound queues, and what the two queue runners
  share: the rule that says which event may be claimed, the claim, and the loop over the claimed
  events. A runner works outside a transaction, so when it raises, what it wrote before stays: a
  run returns the exception, if any, beside the state.
\<close>

section \<open>Events\<close>

datatype direction = Dir_Inbound | Dir_Outbound

datatype event_status = Ev_Pending | Ev_Processing | Ev_Processed | Ev_Failed

record event =
  ev_direction :: direction
  ev_source :: string
  ev_target :: string
  ev_event_type :: string
  ev_external_id :: string
  ev_payload :: json
  ev_status :: event_status
  ev_error_message :: string
  ev_created_at :: int
  ev_processed_at :: "int option"

text \<open>\<open>IntegrationEvent.objects.create\<close> with the defaults of the model.\<close>

definition create_event :: "int \<Rightarrow> string \<Rightarrow> string \<Rightarrow> string \<Rightarrow> json \<Rightarrow> event table \<Rightarrow> event table" where
  "create_event now source target event_type payload t =
     row_ins \<lparr>ev_direction = Dir_Outbound, ev_source = source, ev_target = target,
       ev_event_type = event_type, ev_external_id = '''', ev_payload = payload,
       ev_status = Ev_Pending, ev_error_message = '''', ev_created_at = now,
       ev_processed_at = None\<rparr> t"

section \<open>Claiming\<close>

text \<open>\<open>_queue_claim_filter\<close>: a candidate status, or a claim whose runner is given up.\<close>

definition claimable :: "event_status list \<Rightarrow> int \<Rightarrow> event \<Rightarrow> bool" where
  "claimable statuses stale_before ev \<longleftrightarrow>
     ev_status ev \<in> set statuses
     \<or> (ev_status ev = Ev_Processing
        \<and> (case ev_processed_at ev of None \<Rightarrow> False | Some t \<Rightarrow> t \<le> stale_before))"

definition candidate_statuses :: "bool \<Rightarrow> event_status list" where
  "candidate_statuses include_failed = [Ev_Pending] @ (if include_failed then [Ev_Failed] else [])"

text \<open>
  \<open>_claim_queue_event\<close>: one \<open>UPDATE ... WHERE\<close>, so an event another runner has claimed
  meanwhile is not claimed again; the number of rows written is returned.
\<close>

definition claim_queue_event ::
  "int \<Rightarrow> (event \<Rightarrow> bool) \<Rightarrow> event_status list \<Rightarrow> int \<Rightarrow> nat \<Rightarrow> event table \<Rightarrow> nat \<times> event table" where
  "claim_queue_event now in_queue statuses stale_before k t =
     (case row_get t k of
        None \<Rightarrow> (0, t)
      | Some ev \<Rightarrow>
          if in_queue ev \<and> claimable statuses stale_before ev
          then (1, row_upd k (\<lambda>ev. ev\<lparr>ev_status := Ev_Processing, ev_processed_at := Some now,
                                     ev_error_message := ''''\<rparr>) t)
          else (0, t))"

lemma claim_cases:
  assumes "claim_queue_event now in_queue statuses stale_before k t = (n, t')"
  obtains (free) ev where "row_get t k = Some ev" "in_queue ev" "claimable statuses stale_before ev" "n = 1"
      "t' = row_upd k (\<lambda>ev. ev\<lparr>ev_status := Ev_Processing, ev_processed_at := Some now,
                                ev_error_message := ''''\<rparr>) t"
    | (taken) "n = 0" "t' = t"
  using assms by (auto simp: claim_queue_event_def split: option.splits if_splits)

lemma claim_keys_ok [wms_inv]:
  "claim_queue_event now in_queue statuses stale_before k t = (n, t') \<Longrightarrow> keys_ok t \<Longrightarrow> keys_ok t'"
  by (auto elim!: claim_cases simp: wms_inv)

section \<open>The claims of a run\<close>

text \<open>Events are taken in the order of their creation, the primary key deciding between equals.\<close>

definition position :: "nat \<times> event \<Rightarrow> int \<times> nat" where
  "position p = (ev_created_at (snd p), fst p)"

text \<open>What claiming a list of events comes to.\<close>

definition claimed :: "int \<Rightarrow> event \<Rightarrow> event" where
  "claimed now ev = ev\<lparr>ev_status := Ev_Processing, ev_processed_at := Some now, ev_error_message := ''''\<rparr>"

definition claim_rows :: "int \<Rightarrow> nat list \<Rightarrow> event table \<Rightarrow> event table" where
  "claim_rows now ks t = map (\<lambda>(k, ev). (k, if k \<in> set ks then claimed now ev else ev)) t"

definition marked :: "nat \<times> event \<Rightarrow> nat \<times> event" where
  "marked p = (fst p, (snd p)\<lparr>ev_status := Ev_Processing\<rparr>)"

lemma claim_rows_Nil [simp]: "claim_rows now [] t = t"
  by (simp add: claim_rows_def)

lemma row_get_claim_rows:
  "row_get (claim_rows now ks t) k = map_option (\<lambda>ev. if k \<in> set ks then claimed now ev else ev) (row_get t k)"
  by (simp add: claim_rows_def row_get_map)

lemma claim_rows_snoc:
  assumes "k \<notin> set ks"
  shows "row_upd k (claimed now) (claim_rows now ks t) = claim_rows now (ks @ [k]) t"
  using assms by (auto simp: claim_rows_def row_upd_def)

lemma claim_rows_step:
  assumes "row_get t k = Some ev" and "k \<notin> set ks" and "in_queue ev" and "claimable statuses stale ev"
  shows "claim_queue_event now in_queue statuses stale k (claim_rows now ks t) = (1, claim_rows now (ks @ [k]) t)"
proof -
  have "row_get (claim_rows now ks t) k = Some ev"
    using assms(1,2) by (simp add: row_get_claim_rows)
  moreover have "row_upd k (\<lambda>ev. ev\<lparr>ev_status := Ev_Processing, ev_processed_at := Some now, ev_error_message := ''''\<rparr>)
      (claim_rows now ks t) = claim_rows now (ks @ [k]) t"
    using claim_rows_snoc [OF assms(2), of now t] by (simp add: claimed_def [abs_def])
  ultimately show ?thesis using assms(3,4) by (simp add: claim_queue_event_def)
qed

lemma keys_marked [simp]: "map fst (map marked due) = map fst due"
  by (simp add: marked_def comp_def)

lemma marked_rows:
  assumes "\<And>k ev. (k, ev) \<in> set due \<Longrightarrow> row_get t k = Some ev"
  shows "\<forall>p \<in> set (map marked due). row_get (claim_rows now ks t) (fst p) \<noteq> None"
  using assms by (force simp: marked_def row_get_claim_rows)

lemma selected_rows:
  assumes "keys_ok t"
  shows "distinct (map fst (sort_key f (rows_where P t)))"
    and "p \<in> set (sort_key f (rows_where P t)) \<longleftrightarrow> row_get t (fst p) = Some (snd p) \<and> P (fst p) (snd p)"
  using distinct_rows_where [OF assms, of P] row_get_iff [OF assms]
  by (simp_all add: distinct_map, cases p, simp add: rows_where_mem)

section \<open>Runs that raise without a rollback\<close>

definition then_run :: "err option \<times> 's \<Rightarrow> ('s \<Rightarrow> err option \<times> 's) \<Rightarrow> err option \<times> 's" where
  "then_run r f = (case r of (None, s) \<Rightarrow> f s | (Some e, s) \<Rightarrow> (Some e, s))"

lemma then_run_simps [simp]:
  "then_run (None, s) f = f s"
  "then_run (Some e, s) f = (Some e, s)"
  by (simp_all add: then_run_def)

lemma then_run_cong [fundef_cong]:
  "r = r' \<Longrightarrow> (\<And>s. r' = (None, s) \<Longrightarrow> f s = g s) \<Longrightarrow> then_run r f = then_run r' g"
  by (cases r'; cases "fst r'") auto

fun run_each :: "('a \<Rightarrow> 's \<Rightarrow> err option \<times> 's) \<Rightarrow> 'a list \<Rightarrow> 's \<Rightarrow> err option \<times> 's" where
  "run_each f [] s = (None, s)"
| "run_each f (x # xs) s = then_run (f x s) (run_each f xs)"

lemma run_each_Cons:
  assumes "run_each f (x # xs) s = (r, s')"
  obtains (raised) e where "f x s = (Some e, s')" "r = Some e"
    | (round) t where "f x s = (None, t)" "run_each f xs t = (r, s')"
  using assms by (cases "f x s"; cases "fst (f x s)") auto

text \<open>What every round keeps, whether it raises or not, the run keeps.\<close>

lemma run_each_inv:
  assumes "run_each f xs s = (r, s')" and "P s"
    and "\<And>x t e t'. x \<in> set xs \<Longrightarrow> f x t = (e, t') \<Longrightarrow> P t \<Longrightarrow> P t'"
  shows "P s'"
  using assms
proof (induction xs arbitrary: s)
  case Nil
  then show ?case by simp
next
  case (Cons x xs)
  from Cons.prems(1) show ?case
  proof (cases rule: run_each_Cons)
    case (raised e)
    then show ?thesis using Cons.prems(2,3) by (metis list.set_intros(1))
  next
    case (round t)
    then have "P t" using Cons.prems(2,3) by (metis list.set_intros(1))
    with round(2) Cons show ?thesis by (metis list.set_intros(2))
  qed
qed

lemma run_each_completes:
  "(\<And>x s. x \<in> set xs \<Longrightarrow> \<exists>s'. f x s = (None, s')) \<Longrightarrow> \<exists>s'. run_each f xs s = (None, s')"
proof (induction xs arbitrary: s)
  case Nil
  then show ?case by simp
next
  case (Cons x xs)
  from Cons.prems [of x s] obtain t where "f x s = (None, t)" by auto
  moreover have "\<exists>s'. run_each f xs t = (None, s')" using Cons by simp
  ultimately show ?case by auto
qed

section \<open>The interface of a queue's handler\<close>

text \<open>
  A runner hands the events it has claimed to a handler, one after the other. The contract: a
  handler writes no event but the one it is given; when it returns, that event is no longer being
  processed; when it raises, the event is left claimed.
\<close>

locale queue_handler =
  fixes handle :: "nat \<times> event \<Rightarrow> 's \<Rightarrow> err option \<times> 's"
    and events :: "'s \<Rightarrow> event table"
  assumes other_events: "handle (k, ev) s = (r, s') \<Longrightarrow> j \<noteq> k \<Longrightarrow> row_get (events s') j = row_get (events s) j"
    and returned: "handle (k, ev) s = (None, s') \<Longrightarrow> row_get (events s) k = Some row
      \<Longrightarrow> \<exists>row'. row_get (events s') k = Some row' \<and> ev_status row' \<noteq> Ev_Processing"
    and raised: "handle (k, ev) s = (Some e, s') \<Longrightarrow> events s' = events s"
begin

text \<open>Events that were not claimed by the run are not written.\<close>

lemma run_other_events:
  assumes "run_each handle picked s = (r, s')" and "j \<notin> fst ` set picked"
  shows "row_get (events s') j = row_get (events s) j"
  using assms
proof (induction picked arbitrary: s)
  case Nil
  then show ?case by simp
next
  case (Cons p picked)
  obtain k ev where p: "p = (k, ev)" by (cases p)
  with Cons.prems have "j \<noteq> k" by auto
  from Cons.prems(1) show ?case
  proof (cases rule: run_each_Cons)
    case (raised e)
    then show ?thesis using other_events [of k ev] \<open>j \<noteq> k\<close> p by simp
  next
    case (round t)
    then show ?thesis using other_events [of k ev] \<open>j \<noteq> k\<close> p Cons by simp
  qed
qed

text \<open>
  A run settles a prefix of what it claimed, the whole of it unless it raises; the events after
  the one that raised stay as they were claimed.
\<close>

lemma run_settles:
  assumes "run_each handle picked s = (r, s')" and "distinct (map fst picked)"
    and "\<forall>p \<in> set picked. row_get (events s) (fst p) \<noteq> None"
  obtains n where "n \<le> length picked" and "r = None \<longleftrightarrow> n = length picked"
    and "\<And>i. i < n \<Longrightarrow> \<exists>row. row_get (events s') (fst (picked ! i)) = Some row \<and> ev_status row \<noteq> Ev_Processing"
    and "\<And>i. n \<le> i \<Longrightarrow> i < length picked \<Longrightarrow>
      row_get (events s') (fst (picked ! i)) = row_get (events s) (fst (picked ! i))"
  using assms
proof (induction picked arbitrary: s thesis)
  case Nil
  then show ?case by auto
next
  case (Cons p picked)
  obtain k ev where p: "p = (k, ev)" by (cases p)
  from Cons.prems(4) p obtain row where row: "row_get (events s) k = Some row" by fastforce
  from Cons.prems(2) show ?case
  proof (cases rule: run_each_Cons)
    case (raised e)
    then have "events s' = events s" using queue_handler.raised [OF queue_handler_axioms] p by blast
    with raised show ?thesis by (intro Cons.prems(1) [of 0]) auto
  next
    case (round t)
    from returned [of k ev] round(1) p row obtain row' where
      row': "row_get (events t) k = Some row'" "ev_status row' \<noteq> Ev_Processing" by blast
    have notin: "k \<notin> fst ` set picked" using Cons.prems(3) p by auto
    have same: "row_get (events t) j = row_get (events s) j" if "j \<noteq> k" for j
      using other_events that round(1) p by blast
    have "\<forall>q \<in> set picked. row_get (events t) (fst q) \<noteq> None"
      using same notin Cons.prems(4) by (metis image_eqI list.set_intros(2))
    with Cons.IH [OF _ round(2)] Cons.prems(3) obtain n where n:
      "n \<le> length picked" "r = None \<longleftrightarrow> n = length picked"
      "\<And>i. i < n \<Longrightarrow> \<exists>row. row_get (events s') (fst (picked ! i)) = Some row \<and> ev_status row \<noteq> Ev_Processing"
      "\<And>i. n \<le> i \<Longrightarrow> i < length picked \<Longrightarrow>
        row_get (events s') (fst (picked ! i)) = row_get (events t) (fst (picked ! i))"
      by auto
    show ?thesis
    proof (rule Cons.prems(1) [of "Suc n"])
      fix i
      assume "i < Suc n"
      then show "\<exists>row. row_get (events s') (fst ((p # picked) ! i)) = Some row \<and> ev_status row \<noteq> Ev_Processing"
        using n(3) run_other_events [OF round(2) notin] row' p by (cases i) auto
    next
      fix i
      assume "Suc n \<le> i" and "i < length (p # picked)"
      then obtain i' where i': "i = Suc i'" "n \<le> i'" "i' < length picked" by (cases i) auto
      then have "fst (picked ! i') \<noteq> k" using notin by (metis image_eqI nth_mem)
      then show "row_get (events s') (fst ((p # picked) ! i)) = row_get (events s) (fst ((p # picked) ! i))"
        using n(4) same i' by simp
    qed (use n in auto)
  qed
qed

text \<open>A run that returns has settled everything it claimed.\<close>

lemma run_settles_all:
  assumes "run_each handle picked s = (None, s')" and "distinct (map fst picked)"
    and "\<forall>p \<in> set picked. row_get (events s) (fst p) \<noteq> None" and "k \<in> fst ` set picked"
  shows "\<exists>row. row_get (events s') k = Some row \<and> ev_status row \<noteq> Ev_Processing"
proof -
  obtain n where n: "n = length picked"
      "\<And>i. i < n \<Longrightarrow> \<exists>row. row_get (events s') (fst (picked ! i)) = Some row \<and> ev_status row \<noteq> Ev_Processing"
  proof (rule run_settles [OF assms(1-3)])
    fix n
    assume "None = (None :: err option) \<longleftrightarrow> n = length picked"
      and "\<And>i. i < n \<Longrightarrow> \<exists>row. row_get (events s') (fst (picked ! i)) = Some row \<and> ev_status row \<noteq> Ev_Processing"
    then show thesis by (intro that [of n]) auto
  qed
  from assms(4) obtain i where "i < length picked" "k = fst (picked ! i)" by (auto simp: in_set_conv_nth)
  with n show ?thesis by simp
qed

end

end
