(* ===== verification/Email_Queue.thy ===== *)
theory Email_Queue
  imports Event_Queue
begin

text \<open>
  The email queue (\<open>wms/emailing.py\<close>): the configuration, the bookkeeping in the payload, the sending
  by Brevo with Django's mail as the fallback, and the run of the queue, which selects and claims
  events in batches behind a cursor and then sends them one by one.
\<close>

section \<open>What the queue takes from its surroundings\<close>

text \<open>\<open>parse_datetime\<close> of Django reads a text as an aware or a naive date and time, or as none.\<close>

datatype parsed_datetime = Aware_At int | Naive_At int

text \<open>The request Brevo is sent, and what \<open>urlopen\<close> and the reading of the response do with it.\<close>

record brevo_payload =
  bp_sender_email :: string
  bp_sender_name :: string
  bp_to :: "string list"
  bp_subject :: string
  bp_text_content :: string
  bp_html_content :: "string option"
  bp_reply_to :: "string option"
  bp_tags :: "string list option"

datatype http_outcome = Http_Answer | Http_Caught | Http_Other err

record brevo_config =
  bc_api_key :: string
  bc_api_key_env :: string
  bc_sender_email :: string
  bc_sender_email_env :: string
  bc_default_from_email :: string
  bc_sender_name :: string
  bc_sender_name_env :: string
  bc_reply_to :: string
  bc_reply_to_env :: string

text \<open>The four numbers of the queue: of the Django settings, and of the settings row.\<close>

record queue_numbers =
  qn_max_attempts :: json
  qn_retry_base_seconds :: json
  qn_retry_max_seconds :: json
  qn_processing_timeout_seconds :: json

text \<open>
  The transports act on a world of their own, of type \<open>'w\<close>, and each call may depend on all the
  calls before. Instants are microseconds; \<open>me_isoformat\<close> and \<open>me_parse_datetime\<close> are the text
  form of an instant (\<open>datetime.isoformat\<close>, in UTC) and Django's reading of it.
\<close>

record 'w mail_env =
  me_now :: int
  me_isoformat :: "int \<Rightarrow> string"
  me_parse_datetime :: "string \<Rightarrow> err + parsed_datetime option"
  me_make_aware :: "int \<Rightarrow> int"
  me_settings :: queue_numbers
  me_runtime_row :: "queue_numbers option"
  me_delivery_mode :: json
  me_brevo :: brevo_config
  me_urlopen :: "brevo_payload \<Rightarrow> 'w \<Rightarrow> http_outcome \<times> 'w"
  me_send_mail :: "string \<Rightarrow> string \<Rightarrow> string \<Rightarrow> string list \<Rightarrow> string option \<Rightarrow> 'w \<Rightarrow> bool \<times> 'w"

section \<open>Addresses and texts\<close>

definition email_direct_only :: "'w mail_env \<Rightarrow> bool" where
  "email_direct_only me \<longleftrightarrow> str_lower (strip (py_str (py_or (me_delivery_mode me) (J_Str '''')))) = ''direct_only''"

text \<open>
  The members a Python \<open>for\<close> yields: the characters of a string, the items of a list, the keys
  of a dictionary; a number or a truth value raises.
\<close>

definition py_iter :: "json \<Rightarrow> err + json list" where
  "py_iter v = (case v of
       J_Str s \<Rightarrow> Inr (map (\<lambda>c. J_Str [c]) s)
     | J_List xs \<Rightarrow> Inr xs
     | J_Obj m \<Rightarrow> Inr (map (J_Str \<circ> fst) m)
     | _ \<Rightarrow> Inl Type_Error)"

text \<open>\<open>_normalize_recipients\<close>: each address once, the first spelling kept.\<close>

fun add_recipients :: "json list \<Rightarrow> string list \<Rightarrow> string list \<Rightarrow> string list" where
  "add_recipients [] seen normalized = normalized"
| "add_recipients (item # items) seen normalized =
     (case item of
        J_Str s \<Rightarrow>
          (let value = strip s; key = str_lower value in
           if value = [] \<or> key \<in> set seen then add_recipients items seen normalized
           else add_recipients items (key # seen) (normalized @ [value]))
      | _ \<Rightarrow> add_recipients items seen normalized)"

definition normalize_recipients :: "json \<Rightarrow> err + string list" where
  "normalize_recipients recipient =
     (case recipient of
        J_Str s \<Rightarrow> Inr (add_recipients [J_Str s] [] [])
      | J_Null \<Rightarrow> Inr []
      | v \<Rightarrow> res_bind (py_iter v) (\<lambda>items. Inr (add_recipients items [] [])))"

definition coerce_queue_text :: "json \<Rightarrow> string" where
  "coerce_queue_text v = py_str (py_or v (J_Str ''''))"

definition coerce_queue_tags :: "json \<Rightarrow> err + string list" where
  "coerce_queue_tags tags =
     res_bind (py_iter (py_or tags (J_List [])))
       (\<lambda>items. Inr (filter (\<lambda>v. v \<noteq> []) (map (\<lambda>tag. strip (coerce_queue_text tag)) items)))"

section \<open>The numbers of the queue\<close>

record queue_config =
  qc_max_attempts :: int
  qc_retry_base_seconds :: int
  qc_retry_max_seconds :: int
  qc_processing_timeout_seconds :: int

text \<open>\<open>_fallback_runtime_config\<close> and \<open>get_runtime_config\<close>, the fields the queue reads.\<close>

definition fallback_queue_config :: "queue_numbers \<Rightarrow> queue_config" where
  "fallback_queue_config st =
     (let base = safe_int (qn_retry_base_seconds st) 60 1;
          top = safe_int (qn_retry_max_seconds st) 3600 1
      in \<lparr>qc_max_attempts = safe_int (qn_max_attempts st) 5 1,
          qc_retry_base_seconds = base,
          qc_retry_max_seconds = max base top,
          qc_processing_timeout_seconds = safe_int (qn_processing_timeout_seconds st) 900 1\<rparr>)"

definition get_runtime_config :: "queue_numbers \<Rightarrow> queue_numbers option \<Rightarrow> queue_config" where
  "get_runtime_config st row =
     (let fallback = fallback_queue_config st in
      case row of
        None \<Rightarrow> fallback
      | Some runtime \<Rightarrow>
          (let base = safe_int (qn_retry_base_seconds runtime) (qc_retry_base_seconds fallback) 1;
               top = safe_int (qn_retry_max_seconds runtime) (qc_retry_max_seconds fallback) 1
           in \<lparr>qc_max_attempts = safe_int (qn_max_attempts runtime) (qc_max_attempts fallback) 1,
               qc_retry_base_seconds = base,
               qc_retry_max_seconds = max base top,
               qc_processing_timeout_seconds =
                 safe_int (qn_processing_timeout_seconds runtime) (qc_processing_timeout_seconds fallback) 1\<rparr>))"

text \<open>\<open>_email_queue_config\<close>: an argument that is \<open>None\<close> leaves the configured number.\<close>

definition override :: "int \<Rightarrow> json \<Rightarrow> json" where
  "override configured arg = (if arg = J_Null then J_Int configured else arg)"

definition email_queue_config :: "'w mail_env \<Rightarrow> queue_numbers \<Rightarrow> queue_config" where
  "email_queue_config me args =
     (let runtime = get_runtime_config (me_settings me) (me_runtime_row me);
          base = safe_int (override (qc_retry_base_seconds runtime) (qn_retry_base_seconds args)) 60 1;
          top = safe_int (override (qc_retry_max_seconds runtime) (qn_retry_max_seconds args)) 3600 1
      in \<lparr>qc_max_attempts = safe_int (override (qc_max_attempts runtime) (qn_max_attempts args)) 5 1,
          qc_retry_base_seconds = base,
          qc_retry_max_seconds = max top base,
          qc_processing_timeout_seconds =
            safe_int (override (qc_processing_timeout_seconds runtime) (qn_processing_timeout_seconds args)) 900 1\<rparr>)"

definition compute_retry_delay_seconds :: "int \<Rightarrow> queue_config \<Rightarrow> int" where
  "compute_retry_delay_seconds attempts cfg =
     (let power = nat (max 0 (attempts - 1))
      in min (qc_retry_max_seconds cfg) (qc_retry_base_seconds cfg * 2 ^ power))"

section \<open>The bookkeeping inside a payload\<close>

record queue_meta =
  qm_attempts :: int
  qm_next_attempt_at :: "int option"

definition parse_next_attempt :: "'w mail_env \<Rightarrow> json \<Rightarrow> err + int option" where
  "parse_next_attempt me v =
     (if \<not> truthy v then Inr None
      else res_bind (me_parse_datetime me (py_str v)) (\<lambda>parsed. Inr (case parsed of
             None \<Rightarrow> None
           | Some (Aware_At t) \<Rightarrow> Some t
           | Some (Naive_At t) \<Rightarrow> Some (me_make_aware me t))))"

definition read_queue_meta :: "'w mail_env \<Rightarrow> (string \<times> json) list \<Rightarrow> err + queue_meta" where
  "read_queue_meta me payload =
     (case obj_get payload ''_queue'' of
        J_Obj raw \<Rightarrow>
          res_bind (parse_next_attempt me (obj_get raw ''next_attempt_at''))
            (\<lambda>next. Inr \<lparr>qm_attempts = safe_int (obj_get raw ''attempts'') 0 0, qm_next_attempt_at = next\<rparr>)
      | _ \<Rightarrow> Inr \<lparr>qm_attempts = 0, qm_next_attempt_at = None\<rparr>)"

definition set_queue_meta ::
  "'w mail_env \<Rightarrow> int \<Rightarrow> int option \<Rightarrow> (string \<times> json) list \<Rightarrow> (string \<times> json) list" where
  "set_queue_meta me attempts next_attempt_at payload =
     dict_put ''_queue''
       (J_Obj [(''attempts'', J_Int (safe_int (J_Int attempts) 0 0)),
               (''next_attempt_at'', case next_attempt_at of None \<Rightarrow> J_Null | Some t \<Rightarrow> J_Str (me_isoformat me t))])
       payload"

section \<open>Sending\<close>

text \<open>\<open>_brevo_settings\<close>: the key, the sender and its name, and the reply address.\<close>

definition brevo_settings :: "brevo_config \<Rightarrow> string \<times> string \<times> string \<times> string" where
  "brevo_settings bc =
     (first_text [bc_api_key bc, bc_api_key_env bc],
      first_text [bc_sender_email bc, bc_sender_email_env bc, bc_default_from_email bc],
      first_text [bc_sender_name bc, bc_sender_name_env bc],
      first_text [bc_reply_to bc, bc_reply_to_env bc])"

text \<open>
  \<open>_send_with_brevo\<close>. \<open>HTTPError\<close>, \<open>URLError\<close> and \<open>ValueError\<close> are caught; another exception,
  such as the \<open>TimeoutError\<close> of a response that stops coming, is not.
\<close>

definition send_with_brevo ::
  "'w mail_env \<Rightarrow> string \<Rightarrow> string \<Rightarrow> string list \<Rightarrow> string option \<Rightarrow> string list option \<Rightarrow> 'w
     \<Rightarrow> (err + bool) \<times> 'w" where
  "send_with_brevo me subject message recipients html_message tags w =
     (case brevo_settings (me_brevo me) of (api_key, sender_email, sender_name, reply_to) \<Rightarrow>
      if api_key = [] \<or> sender_email = [] then (Inr False, w)
      else
        (case me_urlopen me
                \<lparr>bp_sender_email = sender_email,
                 bp_sender_name = (if sender_name = [] then sender_email else sender_name),
                 bp_to = recipients, bp_subject = subject, bp_text_content = message,
                 bp_html_content = (if html_message = Some [] then None else html_message),
                 bp_reply_to = (if reply_to = [] then None else Some reply_to),
                 bp_tags = (if tags = Some [] then None else tags)\<rparr> w of
           (Http_Answer, w') \<Rightarrow> (Inr True, w')
         | (Http_Caught, w') \<Rightarrow> (Inr False, w')
         | (Http_Other e, w') \<Rightarrow> (Inl e, w')))"

definition send_email_safe ::
  "'w mail_env \<Rightarrow> json \<Rightarrow> json \<Rightarrow> json \<Rightarrow> json \<Rightarrow> json \<Rightarrow> 'w \<Rightarrow> (err + bool) \<times> 'w" where
  "send_email_safe me subject message recipient html_message tags w =
     (case normalize_recipients recipient of
        Inl e \<Rightarrow> (Inl e, w)
      | Inr recipients \<Rightarrow>
          if recipients = [] then (Inr False, w)
          else
            (let subject_text = coerce_queue_text subject;
                 message_text = coerce_queue_text message;
                 html_text = (if html_message = J_Null then None else Some (coerce_queue_text html_message))
             in case coerce_queue_tags tags of
                  Inl e \<Rightarrow> (Inl e, w)
                | Inr normalized_tags \<Rightarrow>
                    (case send_with_brevo me subject_text message_text recipients html_text
                            (if normalized_tags = [] then None else Some normalized_tags) w of
                       (Inl e, w') \<Rightarrow> (Inl e, w')
                     | (Inr True, w') \<Rightarrow> (Inr True, w')
                     | (Inr False, w') \<Rightarrow>
                         (case me_send_mail me subject_text message_text
                                 (bc_default_from_email (me_brevo me)) recipients html_text w' of
                            (delivered, w'') \<Rightarrow> (Inr delivered, w'')))))"

definition or_null :: "json \<Rightarrow> json" where
  "or_null v = py_or v J_Null"

definition send_event_payload :: "'w mail_env \<Rightarrow> (string \<times> json) list \<Rightarrow> 'w \<Rightarrow> (err + bool) \<times> 'w" where
  "send_event_payload me payload w =
     send_email_safe me
       (py_or (obj_get payload ''subject'') (J_Str ''''))
       (py_or (obj_get payload ''message'') (J_Str ''''))
       (py_or (obj_get payload ''recipient'') (J_List []))
       (or_null (obj_get payload ''html_message''))
       (or_null (obj_get payload ''tags'')) w"

section \<open>Putting an email into the queue\<close>

definition email_source :: string where "email_source = ''wms.email''"
definition email_target :: string where "email_target = ''smtp''"
definition email_event_type :: string where "email_event_type = ''send_email''"

text \<open>\<open>_base_email_queue_queryset\<close>.\<close>

definition in_email_queue :: "event \<Rightarrow> bool" where
  "in_email_queue ev \<longleftrightarrow>
     ev_direction ev = Dir_Outbound \<and> ev_source ev = email_source \<and> ev_event_type ev = email_event_type"

definition build_enqueue_payload ::
  "json \<Rightarrow> json \<Rightarrow> string list \<Rightarrow> json \<Rightarrow> json \<Rightarrow> err + (string \<times> json) list" where
  "build_enqueue_payload subject message recipients html_message tags =
     (let payload =
        [(''subject'', J_Str (coerce_queue_text subject)),
         (''message'', J_Str (coerce_queue_text message)),
         (''recipient'', J_List (map J_Str recipients))]
        @ (if truthy html_message then [(''html_message'', J_Str (coerce_queue_text html_message))] else [])
      in if truthy tags
         then res_bind (coerce_queue_tags tags) (\<lambda>ts. Inr (payload @ [(''tags'', J_List (map J_Str ts))]))
         else Inr payload)"

text \<open>What the runner reads and writes: the events, and the world of the transports.\<close>

record 'w mail_state =
  ms_events :: "event table"
  ms_world :: 'w

definition enqueue_email_safe ::
  "'w mail_env \<Rightarrow> json \<Rightarrow> json \<Rightarrow> json \<Rightarrow> json \<Rightarrow> json \<Rightarrow> 'w mail_state
     \<Rightarrow> (err + bool) \<times> 'w mail_state" where
  "enqueue_email_safe me subject message recipient html_message tags s =
     (case normalize_recipients recipient of
        Inl e \<Rightarrow> (Inl e, s)
      | Inr recipients \<Rightarrow>
          if recipients = [] then (Inr False, s)
          else if email_direct_only me then
            (case send_email_safe me subject message (J_List (map J_Str recipients)) html_message tags (ms_world s) of
               (r, w) \<Rightarrow> (r, s\<lparr>ms_world := w\<rparr>))
          else
            (case build_enqueue_payload subject message recipients html_message tags of
               Inl e \<Rightarrow> (Inl e, s)
             | Inr payload \<Rightarrow>
                 (Inr True,
                  s\<lparr>ms_events := create_event (me_now me) email_source email_target email_event_type
                      (J_Obj (set_queue_meta me 0 None payload)) (ms_events s)\<rparr>)))"

definition send_or_enqueue_email_safe ::
  "'w mail_env \<Rightarrow> json \<Rightarrow> json \<Rightarrow> json \<Rightarrow> json \<Rightarrow> json \<Rightarrow> 'w mail_state
     \<Rightarrow> (err + bool) \<times> 'w mail_state" where
  "send_or_enqueue_email_safe me subject message recipient html_message tags s =
     (case send_email_safe me subject message recipient html_message tags (ms_world s) of
        (Inl e, w) \<Rightarrow> (Inl e, s\<lparr>ms_world := w\<rparr>)
      | (Inr True, w) \<Rightarrow> (Inr True, s\<lparr>ms_world := w\<rparr>)
      | (Inr False, w) \<Rightarrow>
          if email_direct_only me then (Inr False, s\<lparr>ms_world := w\<rparr>)
          else enqueue_email_safe me subject message recipient html_message tags (s\<lparr>ms_world := w\<rparr>))"

section \<open>Selecting and claiming\<close>

record process_result =
  pr_selected :: nat
  pr_processed :: nat
  pr_failed :: nat
  pr_retried :: nat
  pr_deferred :: nat

text \<open>\<open>event.payload or {}\<close>, on which the runner calls \<open>get\<close>.\<close>

definition payload_dict :: "event \<Rightarrow> err + (string \<times> json) list" where
  "payload_dict ev = as_dict (py_or (ev_payload ev) (J_Obj []))"

definition should_defer_event :: "'w mail_env \<Rightarrow> event \<Rightarrow> err + bool" where
  "should_defer_event me ev =
     res_bind (payload_dict ev) (\<lambda>payload. res_bind (read_queue_meta me payload) (\<lambda>meta.
       Inr (ev_status ev = Ev_Pending
         \<and> (case qm_next_attempt_at meta of None \<Rightarrow> False | Some t \<Rightarrow> me_now me < t))))"

text \<open>\<open>_selector_queryset\<close>.\<close>

definition selector_queryset :: "event_status list \<Rightarrow> int \<Rightarrow> event table \<Rightarrow> (nat \<times> event) list" where
  "selector_queryset statuses stale_before t =
     sort_key position (rows_where (\<lambda>k ev. in_email_queue ev \<and> claimable statuses stale_before ev) t)"

definition after_cursor :: "(int \<times> nat) option \<Rightarrow> nat \<times> event \<Rightarrow> bool" where
  "after_cursor cursor p = (case cursor of None \<Rightarrow> True | Some (c, i) \<Rightarrow>
     c < ev_created_at (snd p) \<or> (ev_created_at (snd p) = c \<and> i < fst p))"

record email_run =
  er_statuses :: "event_status list"
  er_stale_before :: int
  er_limit :: nat

record selection =
  sl_events :: "event table"
  sl_picked :: "(nat \<times> event) list"
  sl_cursor :: "(int \<times> nat) option"
  sl_result :: process_result

text \<open>What a round over an event does to the run: it moves the cursor, defers, or picks.\<close>

definition passed :: "nat \<times> event \<Rightarrow> selection \<Rightarrow> selection" where
  "passed p s = s\<lparr>sl_cursor := Some (position p)\<rparr>"

definition deferred_one :: "selection \<Rightarrow> selection" where
  "deferred_one s = s\<lparr>sl_result := (sl_result s)\<lparr>pr_deferred := Suc (pr_deferred (sl_result s))\<rparr>\<rparr>"

definition picked_one :: "nat \<times> event \<Rightarrow> event table \<Rightarrow> selection \<Rightarrow> selection" where
  "picked_one p events s = s\<lparr>sl_events := events,
     sl_result := (sl_result s)\<lparr>pr_selected := Suc (pr_selected (sl_result s))\<rparr>,
     sl_picked := sl_picked s @ [(fst p, (snd p)\<lparr>ev_status := Ev_Processing\<rparr>)]\<rparr>"

lemma selection_round_simps [simp]:
  "sl_events (passed p s) = sl_events s" "sl_picked (passed p s) = sl_picked s"
  "sl_result (passed p s) = sl_result s" "sl_cursor (passed p s) = Some (position p)"
  "sl_events (deferred_one s) = sl_events s" "sl_picked (deferred_one s) = sl_picked s"
  "sl_cursor (deferred_one s) = sl_cursor s"
  "sl_events (picked_one p events s) = events" "sl_cursor (picked_one p events s) = sl_cursor s"
  "sl_picked (picked_one p events s) = sl_picked s @ [(fst p, (snd p)\<lparr>ev_status := Ev_Processing\<rparr>)]"
  by (simp_all add: passed_def deferred_one_def picked_one_def)

text \<open>The loop over one batch: it stops at the limit, skips what is deferred or claimed by another.\<close>

fun batch_loop :: "'w mail_env \<Rightarrow> email_run \<Rightarrow> (nat \<times> event) list \<Rightarrow> selection \<Rightarrow> err option \<times> selection" where
  "batch_loop me run [] s = (None, s)"
| "batch_loop me run (p # batch) s =
     (case should_defer_event me (snd p) of
        Inl e \<Rightarrow> (Some e, passed p s)
      | Inr True \<Rightarrow> batch_loop me run batch (deferred_one (passed p s))
      | Inr False \<Rightarrow>
          (case claim_queue_event (me_now me) in_email_queue (er_statuses run) (er_stale_before run)
                  (fst p) (sl_events s) of
             (n, events) \<Rightarrow>
               if n = 0 then batch_loop me run batch (passed p s)
               else if er_limit run \<le> Suc (length (sl_picked s)) then (None, picked_one p events (passed p s))
               else batch_loop me run batch (picked_one p events (passed p s))))"

lemma batch_loop_Cons:
  assumes "batch_loop me run (p # batch) s = (r, s')"
  obtains (broken) e where "should_defer_event me (snd p) = Inl e" "r = Some e" "s' = passed p s"
    | (deferred) "should_defer_event me (snd p) = Inr True"
        "batch_loop me run batch (deferred_one (passed p s)) = (r, s')"
    | (taken) events where "should_defer_event me (snd p) = Inr False"
        "claim_queue_event (me_now me) in_email_queue (er_statuses run) (er_stale_before run) (fst p)
           (sl_events s) = (0, events)"
        "batch_loop me run batch (passed p s) = (r, s')"
    | (full) n events where "should_defer_event me (snd p) = Inr False"
        "claim_queue_event (me_now me) in_email_queue (er_statuses run) (er_stale_before run) (fst p)
           (sl_events s) = (n, events)" "n \<noteq> 0"
        "er_limit run \<le> Suc (length (sl_picked s))" "r = None" "s' = picked_one p events (passed p s)"
    | (picked) n events where "should_defer_event me (snd p) = Inr False"
        "claim_queue_event (me_now me) in_email_queue (er_statuses run) (er_stale_before run) (fst p)
           (sl_events s) = (n, events)" "n \<noteq> 0"
        "\<not> er_limit run \<le> Suc (length (sl_picked s))"
        "batch_loop me run batch (picked_one p events (passed p s)) = (r, s')"
  using assms
  by (auto split: sum.splits bool.splits prod.splits if_splits)

definition next_batch :: "email_run \<Rightarrow> selection \<Rightarrow> (nat \<times> event) list" where
  "next_batch run s =
     take (max 50 (er_limit run * 5))
       (filter (after_cursor (sl_cursor s)) (selector_queryset (er_statuses run) (er_stale_before run) (sl_events s)))"

text \<open>Termination: each round moves the cursor past an event, and no round adds or moves one.\<close>

definition same_positions :: "event table \<Rightarrow> event table \<Rightarrow> bool" where
  "same_positions t u \<longleftrightarrow> map position t = map position u"

lemma same_positions_claim:
  assumes "claim_queue_event now in_queue statuses stale_before k t = (n, t')"
  shows "same_positions t t'"
  using assms
  by (cases rule: claim_cases) (auto simp: same_positions_def position_def row_upd_def)

lemma batch_loop_positions:
  "batch_loop me run batch s = (r, s') \<Longrightarrow> same_positions (sl_events s) (sl_events s')"
proof (induction batch arbitrary: s)
  case Nil
  then show ?case by (simp add: same_positions_def)
next
  case (Cons p batch)
  from Cons.prems show ?case
  proof (cases rule: batch_loop_Cons)
    case broken
    then show ?thesis by (simp add: same_positions_def)
  next
    case deferred
    then show ?thesis using Cons.IH by fastforce
  next
    case taken
    then show ?thesis using Cons.IH by fastforce
  next
    case full
    then show ?thesis using same_positions_claim [OF full(2)] by simp
  next
    case picked
    then show ?thesis
      using same_positions_claim [OF picked(2)] Cons.IH [OF picked(5)] by (simp add: same_positions_def)
  qed
qed

lemma batch_loop_cursor:
  assumes "batch_loop me run batch s = (None, s')" and "batch \<noteq> []"
  shows "\<exists>p \<in> set batch. sl_cursor s' = Some (position p)"
  using assms
proof (induction batch arbitrary: s)
  case Nil
  then show ?case by simp
next
  case (Cons p batch)
  have rest: ?case if "batch_loop me run batch t = (None, s')" and "sl_cursor t = Some (position p)" for t
    using that Cons.IH [OF that(1)] by (cases batch) auto
  from Cons.prems(1) show ?case
  proof (cases rule: batch_loop_Cons)
    case deferred
    show ?thesis by (rule rest [OF deferred(2)]) simp
  next
    case taken
    show ?thesis by (rule rest [OF taken(3)]) simp
  next
    case picked
    show ?thesis by (rule rest [OF picked(5)]) simp
  qed simp_all
qed

lemma after_cursor_position: "after_cursor (Some c) p \<longleftrightarrow> c < position p"
  by (cases c; cases p) (auto simp: after_cursor_def position_def less_prod_def)

lemma after_cursor_None [simp]: "after_cursor None p"
  by (simp add: after_cursor_def)

definition positions_left :: "selection \<Rightarrow> nat" where
  "positions_left s = length (filter (\<lambda>q. case sl_cursor s of None \<Rightarrow> True | Some c \<Rightarrow> c < q) (map position (sl_events s)))"

lemma filter_length_less:
  assumes "\<And>x. x \<in> set xs \<Longrightarrow> Q x \<Longrightarrow> P x" and "y \<in> set xs" "P y" "\<not> Q y"
  shows "length (filter Q xs) < length (filter P xs)"
proof -
  have "filter Q xs = filter Q (filter P xs)"
    using assms(1) by (induction xs) auto
  moreover have "length (filter Q (filter P xs)) < length (filter P xs)"
    by (rule length_filter_less [where x = y]) (use assms(2-) in simp_all)
  ultimately show ?thesis by simp
qed

lemma next_batch_mem:
  assumes "p \<in> set (next_batch run s)"
  shows "p \<in> set (sl_events s)" and "after_cursor (sl_cursor s) p"
proof -
  have "p \<in> set (filter (after_cursor (sl_cursor s)) (selector_queryset (er_statuses run) (er_stale_before run) (sl_events s)))"
    using assms unfolding next_batch_def by (rule in_set_takeD)
  then show "p \<in> set (sl_events s)" and "after_cursor (sl_cursor s) p"
    by (simp_all add: selector_queryset_def rows_where_def)
qed

lemma select_decreases:
  assumes "batch_loop me run (next_batch run s) s = (None, s')" and "next_batch run s \<noteq> []"
  shows "positions_left s' < positions_left s"
proof -
  from batch_loop_cursor [OF assms] obtain p where
    p: "p \<in> set (next_batch run s)" "sl_cursor s' = Some (position p)" by blast
  have same: "map position (sl_events s') = map position (sl_events s)"
    using batch_loop_positions [OF assms(1)] by (simp add: same_positions_def)
  have "position p \<in> set (map position (sl_events s))" using next_batch_mem(1) [OF p(1)] by simp
  moreover have "case sl_cursor s of None \<Rightarrow> True | Some c \<Rightarrow> c < position p"
    using next_batch_mem(2) [OF p(1)] by (auto simp: after_cursor_position split: option.split)
  ultimately show ?thesis
    unfolding positions_left_def same p(2)
    by (intro filter_length_less [where y = "position p"]) (auto split: option.splits)
qed

function select_events :: "'w mail_env \<Rightarrow> email_run \<Rightarrow> selection \<Rightarrow> err option \<times> selection" where
  "select_events me run s =
     (if er_limit run \<le> length (sl_picked s) then (None, s)
      else
        (let batch = next_batch run s in
         if batch = [] then (None, s)
         else then_run (batch_loop me run batch s) (select_events me run)))"
  by pat_completeness auto
termination
  by (relation "measure (\<lambda>(me, run, s). positions_left s)") (auto intro: select_decreases)

declare select_events.simps [simp del]

section \<open>Sending what was claimed\<close>

datatype outcome = Out_Processed | Out_Failed | Out_Retried

text \<open>
  \<open>_apply_send_result\<close>: the event as it will be saved. A failed attempt is counted; the last one
  allowed fails the event, one before puts it back with a delay that doubles.
\<close>

definition apply_send_result ::
  "'w mail_env \<Rightarrow> queue_config \<Rightarrow> event \<Rightarrow> (string \<times> json) list \<Rightarrow> queue_meta \<Rightarrow> 'w
     \<Rightarrow> (err + event \<times> outcome) \<times> 'w" where
  "apply_send_result me cfg ev payload meta w =
     (case send_event_payload me payload w of
        (Inl e, w') \<Rightarrow> (Inl e, w')
      | (Inr True, w') \<Rightarrow>
          (Inr (ev\<lparr>ev_processed_at := Some (me_now me), ev_status := Ev_Processed, ev_error_message := '''',
                   ev_payload := J_Obj (set_queue_meta me (qm_attempts meta) None payload)\<rparr>,
                Out_Processed), w')
      | (Inr False, w') \<Rightarrow>
          (let attempts = qm_attempts meta + 1 in
           if qc_max_attempts cfg \<le> attempts then
             (Inr (ev\<lparr>ev_processed_at := Some (me_now me), ev_status := Ev_Failed,
                      ev_error_message := ''send_email_safe returned False after '' @ signed_str attempts
                        @ '' attempt(s).'',
                      ev_payload := J_Obj (set_queue_meta me attempts None payload)\<rparr>,
                   Out_Failed), w')
           else
             (let retry_delay = compute_retry_delay_seconds attempts cfg;
                  next_attempt_at = me_now me + 1000000 * retry_delay
              in (Inr (ev\<lparr>ev_processed_at := Some (me_now me), ev_status := Ev_Pending,
                          ev_error_message := ''send_email_safe returned False (retry '' @ signed_str attempts
                            @ ''/'' @ signed_str (qc_max_attempts cfg) @ '' in '' @ signed_str retry_delay @ ''s).'',
                          ev_payload := J_Obj (set_queue_meta me attempts (Some next_attempt_at) payload)\<rparr>,
                       Out_Retried), w'))))"

definition count_outcome :: "outcome \<Rightarrow> process_result \<Rightarrow> process_result" where
  "count_outcome out res = (case out of
       Out_Processed \<Rightarrow> res\<lparr>pr_processed := Suc (pr_processed res)\<rparr>
     | Out_Failed \<Rightarrow> res\<lparr>pr_failed := Suc (pr_failed res)\<rparr>
     | Out_Retried \<Rightarrow> res\<lparr>pr_retried := Suc (pr_retried res)\<rparr>)"

record 'w mail_run = "'w mail_state" +
  mr_result :: process_result

text \<open>\<open>event.save(update_fields=[...])\<close> writes the four columns of the row.\<close>

definition save_event :: "nat \<Rightarrow> event \<Rightarrow> event table \<Rightarrow> event table" where
  "save_event k ev t =
     row_upd k (\<lambda>row. row\<lparr>ev_status := ev_status ev, ev_error_message := ev_error_message ev,
                          ev_processed_at := ev_processed_at ev, ev_payload := ev_payload ev\<rparr>) t"

definition process_event ::
  "'w mail_env \<Rightarrow> queue_config \<Rightarrow> nat \<times> event \<Rightarrow> 'w mail_run \<Rightarrow> err option \<times> 'w mail_run" where
  "process_event me cfg p s =
     (case res_bind (payload_dict (snd p)) (\<lambda>payload.
             res_bind (read_queue_meta me payload) (\<lambda>meta. Inr (payload, meta))) of
        Inl e \<Rightarrow> (Some e, s)
      | Inr (payload, meta) \<Rightarrow>
          (case apply_send_result me cfg (snd p) payload meta (ms_world s) of
             (Inl e, w) \<Rightarrow> (Some e, s\<lparr>ms_world := w\<rparr>)
           | (Inr (ev, out), w) \<Rightarrow>
               (None, s\<lparr>ms_world := w, ms_events := save_event (fst p) ev (ms_events s),
                        mr_result := count_outcome out (mr_result s)\<rparr>)))"

definition zero_result :: process_result where
  "zero_result = \<lparr>pr_selected = 0, pr_processed = 0, pr_failed = 0, pr_retried = 0, pr_deferred = 0\<rparr>"

definition email_run_of :: "'w mail_env \<Rightarrow> json \<Rightarrow> bool \<Rightarrow> queue_numbers \<Rightarrow> email_run" where
  "email_run_of me limit include_failed args =
     \<lparr>er_statuses = candidate_statuses include_failed,
      er_stale_before = me_now me - 1000000 * qc_processing_timeout_seconds (email_queue_config me args),
      er_limit = nat (safe_int limit 100 1)\<rparr>"

definition process_email_queue ::
  "'w mail_env \<Rightarrow> json \<Rightarrow> bool \<Rightarrow> queue_numbers \<Rightarrow> 'w mail_state \<Rightarrow> (err + process_result) \<times> 'w mail_state" where
  "process_email_queue me limit include_failed args s =
     (case select_events me (email_run_of me limit include_failed args)
             \<lparr>sl_events = ms_events s, sl_picked = [], sl_cursor = None, sl_result = zero_result\<rparr> of
        (Some e, sel) \<Rightarrow> (Inl e, s\<lparr>ms_events := sl_events sel\<rparr>)
      | (None, sel) \<Rightarrow>
          (case run_each (process_event me (email_queue_config me args)) (sl_picked sel)
                  \<lparr>ms_events = sl_events sel, ms_world = ms_world s, mr_result = sl_result sel\<rparr> of
             (r, run) \<Rightarrow>
               ((case r of Some e \<Rightarrow> Inl e | None \<Rightarrow> Inr (mr_result run)),
                \<lparr>ms_events = ms_events run, ms_world = ms_world run\<rparr>)))"

section \<open>The handler keeps the contract of a queue\<close>

lemma apply_send_result_status:
  assumes "apply_send_result me cfg ev payload meta w = (Inr (ev', out), w')"
  shows "ev_status ev' = (case out of Out_Processed \<Rightarrow> Ev_Processed | Out_Failed \<Rightarrow> Ev_Failed | Out_Retried \<Rightarrow> Ev_Pending)"
  using assms by (auto simp: apply_send_result_def Let_def split: prod.splits sum.splits bool.splits if_splits)

lemma process_event_cases:
  assumes "process_event me cfg (k, ev) s = (r, s')"
  obtains (raised) e w where "r = Some e" "s' = s\<lparr>ms_world := w\<rparr>"
    | (saved) payload meta ev' out w where "payload_dict ev = Inr payload" "read_queue_meta me payload = Inr meta"
        "apply_send_result me cfg ev payload meta (ms_world s) = (Inr (ev', out), w)" "r = None"
        "s' = s\<lparr>ms_world := w, ms_events := save_event k ev' (ms_events s),
                mr_result := count_outcome out (mr_result s)\<rparr>"
proof (cases "res_bind (payload_dict ev) (\<lambda>payload. res_bind (read_queue_meta me payload) (\<lambda>meta. Inr (payload, meta)))")
  case (Inl e)
  have "s = s\<lparr>ms_world := ms_world s\<rparr>" by simp
  with Inl assms show ?thesis by (intro raised [of e "ms_world s"]) (simp_all add: process_event_def)
next
  case (Inr pm)
  obtain payload meta where pm: "pm = (payload, meta)" by (cases pm)
  with Inr have dict: "payload_dict ev = Inr payload" "read_queue_meta me payload = Inr meta"
    by (auto simp: wms_ok)
  obtain x w where x: "apply_send_result me cfg ev payload meta (ms_world s) = (x, w)" by fastforce
  show ?thesis
  proof (cases x)
    case (Inl e)
    with x Inr pm assms show ?thesis by (intro raised [of e w]) (simp_all add: process_event_def)
  next
    case (Inr y)
    obtain ev' out where "y = (ev', out)" by (cases y)
    with x Inr \<open>res_bind _ _ = Inr pm\<close> pm assms show ?thesis
      by (intro saved [OF dict, of ev' out w]) (simp_all add: process_event_def)
  qed
qed

lemma row_get_save_event:
  "row_get (save_event k ev t) j =
     (if j = k then map_option (\<lambda>row. row\<lparr>ev_status := ev_status ev, ev_error_message := ev_error_message ev,
        ev_processed_at := ev_processed_at ev, ev_payload := ev_payload ev\<rparr>) (row_get t j) else row_get t j)"
  by (simp add: save_event_def rows.get_upd)

interpretation mailq: queue_handler "process_event me cfg" ms_events for me :: "'w mail_env" and cfg
proof unfold_locales
  fix k j ev r and s s' :: "'w mail_run"
  assume "process_event me cfg (k, ev) s = (r, s')" and "j \<noteq> k"
  then show "row_get (ms_events s') j = row_get (ms_events s) j"
    by (cases rule: process_event_cases) (simp_all add: row_get_save_event)
next
  fix k ev row and s s' :: "'w mail_run"
  assume p: "process_event me cfg (k, ev) s = (None, s')" and row: "row_get (ms_events s) k = Some row"
  from p show "\<exists>row'. row_get (ms_events s') k = Some row' \<and> ev_status row' \<noteq> Ev_Processing"
  proof (cases rule: process_event_cases)
    case (saved payload meta ev' out w)
    then show ?thesis
      using row apply_send_result_status [OF saved(3)] by (cases out) (simp_all add: row_get_save_event)
  qed simp
next
  fix k ev e and s s' :: "'w mail_run"
  assume "process_event me cfg (k, ev) s = (Some e, s')"
  then show "ms_events s' = ms_events s"
    by (cases rule: process_event_cases) simp_all
qed

section \<open>The delay before the next attempt\<close>

lemma email_queue_config_bounds:
  "1 \<le> qc_max_attempts (email_queue_config me args)"
  "1 \<le> qc_retry_base_seconds (email_queue_config me args)"
  "qc_retry_base_seconds (email_queue_config me args) \<le> qc_retry_max_seconds (email_queue_config me args)"
  "1 \<le> qc_processing_timeout_seconds (email_queue_config me args)"
  by (simp_all add: email_queue_config_def Let_def safe_int_ge)

end
