(* ===== verification/Email_Facts.thy ===== *)
theory Email_Facts
  imports Email_Queue
begin

text \<open>
  What a run of the email queue comes to: the batched selection equals a filter of the ordered
  queue; the queue the program fills stays well formed; a run settles every event that is due.
\<close>

section \<open>What the batched selection comes to\<close>

text \<open>
  The reference: the candidates in the order of their creation, without those put off, cut at the
  limit. The runner reads them in batches behind a cursor, while its own claims take events out of
  the query it reads.
\<close>

definition due_events :: "'w mail_env \<Rightarrow> (nat \<times> event) list \<Rightarrow> (nat \<times> event) list" where
  "due_events me ps = filter (\<lambda>p. should_defer_event me (snd p) = Inr False) ps"

text \<open>The state of the selection once the candidates \<open>A\<close> have been looked at.\<close>

definition looked_at :: "'w mail_env \<Rightarrow> event table \<Rightarrow> (nat \<times> event) list \<Rightarrow> selection \<Rightarrow> bool" where
  "looked_at me t A s \<longleftrightarrow>
     sl_picked s = map marked (due_events me A)
     \<and> sl_events s = claim_rows (me_now me) (map fst (due_events me A)) t
     \<and> sl_cursor s = (if A = [] then None else Some (position (last A)))
     \<and> sl_result s = zero_result\<lparr>pr_selected := length (due_events me A),
          pr_deferred := length (filter (\<lambda>p. should_defer_event me (snd p) = Inr True) A)\<rparr>"

lemma due_events_snoc:
  "due_events me (A @ [p]) = due_events me A @ (if should_defer_event me (snd p) = Inr False then [p] else [])"
  by (simp add: due_events_def)

lemma set_due_events: "set (due_events me A) \<subseteq> set A"
  by (auto simp: due_events_def)

lemma batch_loop_looks_at:
  assumes "looked_at me t A s" and "length (sl_picked s) < er_limit run"
    and "distinct (map fst (A @ batch))"
    and "\<And>p. p \<in> set batch \<Longrightarrow> row_get t (fst p) = Some (snd p) \<and> in_email_queue (snd p)
        \<and> claimable (er_statuses run) (er_stale_before run) (snd p) \<and> is_ok (should_defer_event me (snd p))"
  shows "\<exists>A' B' s'. batch_loop me run batch s = (None, s') \<and> batch = A' @ B' \<and> looked_at me t (A @ A') s'
    \<and> length (sl_picked s') \<le> er_limit run \<and> (B' = [] \<or> length (sl_picked s') = er_limit run)"
  using assms
proof (induction batch arbitrary: A s)
  case Nil
  then show ?case by (intro exI [of _ "[]"] exI [of _ s]) simp
next
  case (Cons p batch)
  from Cons.prems(4) [of p] obtain d where d: "should_defer_event me (snd p) = Inr d"
    by (auto simp: is_ok_iff)
  have next_round: ?case
    if round: "batch_loop me run (p # batch) s = batch_loop me run batch u"
      and u: "looked_at me t (A @ [p]) u" "length (sl_picked u) < er_limit run" for u
  proof -
    have "distinct (map fst ((A @ [p]) @ batch))" using Cons.prems(3) by simp
    from Cons.IH [OF u this] Cons.prems(4) obtain A' B' s' where
      "batch_loop me run batch u = (None, s')" "batch = A' @ B'" "looked_at me t ((A @ [p]) @ A') s'"
      "length (sl_picked s') \<le> er_limit run" "B' = [] \<or> length (sl_picked s') = er_limit run"
      by auto
    with round show ?thesis by (intro exI [of _ "p # A'"] exI [of _ B'] exI [of _ s']) simp
  qed
  show ?case
  proof (cases d)
    case True
    show ?thesis
    proof (rule next_round)
      show "batch_loop me run (p # batch) s = batch_loop me run batch (deferred_one (passed p s))"
        using d True by simp
      show "looked_at me t (A @ [p]) (deferred_one (passed p s))"
        using Cons.prems(1) d True by (simp add: looked_at_def due_events_snoc deferred_one_def passed_def)
      show "length (sl_picked (deferred_one (passed p s))) < er_limit run"
        using Cons.prems(2) by simp
    qed
  next
    case False
    have notin: "fst p \<notin> set (map fst (due_events me A))"
      using Cons.prems(3) set_due_events [of me A] by auto
    have claim: "claim_queue_event (me_now me) in_email_queue (er_statuses run) (er_stale_before run) (fst p) (sl_events s)
        = (1, claim_rows (me_now me) (map fst (due_events me (A @ [p]))) t)"
      using claim_rows_step [OF _ notin] Cons.prems(1) Cons.prems(4) [of p] d False
      by (simp add: looked_at_def due_events_snoc)
    define u where "u = picked_one p (claim_rows (me_now me) (map fst (due_events me (A @ [p]))) t) (passed p s)"
    have u: "looked_at me t (A @ [p]) u"
      using Cons.prems(1) d False
      by (simp add: looked_at_def due_events_snoc u_def marked_def picked_one_def passed_def)
    have len: "length (sl_picked u) = Suc (length (sl_picked s))" by (simp add: u_def)
    show ?thesis
    proof (cases "er_limit run \<le> Suc (length (sl_picked s))")
      case True
      then have "batch_loop me run (p # batch) s = (None, u)" using d \<open>\<not> d\<close> claim by (simp add: u_def)
      with True u len Cons.prems(2) show ?thesis
        by (intro exI [of _ "[p]"] exI [of _ batch] exI [of _ u]) simp
    next
      case more: False
      show ?thesis
      proof (rule next_round [OF _ u])
        show "batch_loop me run (p # batch) s = batch_loop me run batch u"
          using d \<open>\<not> d\<close> claim more by (simp add: u_def)
        show "length (sl_picked u) < er_limit run" using more len by simp
      qed
    qed
  qed
qed

text \<open>Behind the cursor the query reads what it read at the start.\<close>

lemma filter_claim_rows:
  assumes "\<And>k ev. (k, ev) \<in> set t \<Longrightarrow> k \<in> set ks \<Longrightarrow> \<not> after_cursor c (k, ev)"
  shows "filter (after_cursor c) (rows_where Q (claim_rows now ks t)) = filter (after_cursor c) (rows_where Q t)"
  using assms
proof (induction t)
  case Nil
  then show ?case by (simp add: claim_rows_def)
next
  case (Cons p t)
  obtain k ev where p: "p = (k, ev)" by (cases p)
  have "after_cursor c (k, claimed now ev) = after_cursor c (k, ev)"
    by (simp add: after_cursor_def claimed_def split: option.split)
  with Cons p show ?case by (auto simp: claim_rows_def rows_where_def)
qed

lemma sorted_filter_after:
  assumes "sorted (map position (A @ B))" and "distinct (map position (A @ B))" and "A \<noteq> []"
  shows "filter (after_cursor (Some (position (last A)))) (A @ B) = B"
proof -
  have "\<not> position (last A) < position p" if "p \<in> set A" for p
  proof -
    from that obtain i where "i < length A" "p = A ! i" by (auto simp: in_set_conv_nth)
    moreover have "sorted (map position A)" using assms(1) by (simp add: sorted_append)
    ultimately have "position p \<le> position (last A)"
      using assms(3) by (auto simp: last_conv_nth sorted_iff_nth_mono)
    then show ?thesis by simp
  qed
  moreover have "position (last A) < position p" if "p \<in> set B" for p
  proof -
    have "position (last A) \<le> position p" using assms that by (auto simp: sorted_append)
    moreover have "position (last A) \<in> set (map position A)" using assms(3) by simp
    moreover have "position p \<in> set (map position B)" using that by simp
    moreover have "set (map position A) \<inter> set (map position B) = {}"
      using assms(2) unfolding map_append distinct_append by blast
    ultimately have "position (last A) \<le> position p" and "position (last A) \<noteq> position p"
      by (blast, metis IntI empty_iff)
    then show ?thesis by simp
  qed
  ultimately show ?thesis by (simp add: after_cursor_position filter_empty_conv)
qed

lemma selector_facts:
  assumes "keys_ok t"
  shows "sorted (map position (selector_queryset statuses stale t))"
    and "distinct (map fst (selector_queryset statuses stale t))"
    and "distinct (map position (selector_queryset statuses stale t))"
    and "p \<in> set (selector_queryset statuses stale t) \<longleftrightarrow>
      p \<in> set t \<and> in_email_queue (snd p) \<and> claimable statuses stale (snd p)"
proof -
  let ?C = "selector_queryset statuses stale t"
  let ?R = "rows_where (\<lambda>k ev. in_email_queue ev \<and> claimable statuses stale ev) t"
  show "sorted (map position ?C)" by (simp add: selector_queryset_def)
  have "distinct (map fst ?R)" by (rule distinct_rows_where [OF assms])
  then show d: "distinct (map fst ?C)" by (simp add: selector_queryset_def distinct_map)
  have "map fst ?C = map snd (map position ?C)" by (simp add: position_def comp_def)
  with d show "distinct (map position ?C)" by (metis distinct_map)
  show "p \<in> set ?C \<longleftrightarrow> p \<in> set t \<and> in_email_queue (snd p) \<and> claimable statuses stale (snd p)"
    by (cases p) (simp add: selector_queryset_def rows_where_mem)
qed

lemma selector_behind:
  assumes "keys_ok t" and "selector_queryset statuses stale t = A @ B" and "looked_at me t A s"
  shows "filter (after_cursor (sl_cursor s)) (selector_queryset statuses stale (sl_events s)) = B"
proof (cases "A = []")
  case True
  with assms show ?thesis by (simp add: looked_at_def due_events_def)
next
  case False
  let ?c = "Some (position (last A))"
  let ?Q = "\<lambda>k ev. in_email_queue ev \<and> claimable statuses stale ev"
  note facts = selector_facts [OF assms(1), where statuses = statuses and stale = stale, unfolded assms(2)]
  have "\<not> after_cursor ?c (k, ev)" if "(k, ev) \<in> set t" and "k \<in> set (map fst (due_events me A))" for k ev
  proof -
    from that(2) set_due_events [of me A] obtain ev' where ev': "(k, ev') \<in> set A" by auto
    with facts(4) [of "(k, ev')"] have "(k, ev') \<in> set t" by simp
    with that(1) assms(1) have "ev' = ev" by (metis keys_ok_unique)
    moreover have "(k, ev') \<notin> set (filter (after_cursor ?c) (A @ B))"
      using sorted_filter_after [OF facts(1,3) False] facts(2) ev' by force
    ultimately show ?thesis using ev' by simp
  qed
  note behind = this
  have "filter (after_cursor ?c) (rows_where ?Q (sl_events s)) = filter (after_cursor ?c) (rows_where ?Q t)"
  proof -
    have "sl_events s = claim_rows (me_now me) (map fst (due_events me A)) t"
      using assms(3) by (simp add: looked_at_def)
    then show ?thesis
      using filter_claim_rows [where ks = "map fst (due_events me A)", OF behind] by (rule ssubst) 
  qed
  then have "filter (after_cursor ?c) (selector_queryset statuses stale (sl_events s))
      = filter (after_cursor ?c) (selector_queryset statuses stale t)"
    by (simp add: selector_queryset_def filter_sort)
  then show ?thesis
    using sorted_filter_after [OF facts(1,3) False] assms(2,3) False by (simp add: looked_at_def)
qed

lemma select_events_looks_at:
  assumes "keys_ok t" and "selector_queryset (er_statuses run) (er_stale_before run) t = A @ B"
    and "looked_at me t A s" and "length (sl_picked s) \<le> er_limit run"
    and "\<And>p. p \<in> set (A @ B) \<Longrightarrow> is_ok (should_defer_event me (snd p))"
  shows "\<exists>A' B' s'. select_events me run s = (None, s') \<and> B = A' @ B' \<and> looked_at me t (A @ A') s'
    \<and> length (sl_picked s') \<le> er_limit run \<and> (B' = [] \<or> length (sl_picked s') = er_limit run)"
  using assms
proof (induction me run s arbitrary: A B rule: select_events.induct)
  case (1 me run s)
  note facts = selector_facts [OF 1(2), where statuses = "er_statuses run" and stale = "er_stale_before run",
      unfolded 1(3)]
  have batch: "next_batch run s = take (max 50 (er_limit run * 5)) B"
    using selector_behind [OF 1(2,3,4)] by (simp add: next_batch_def)
  show ?case
  proof (cases "er_limit run \<le> length (sl_picked s)")
    case True
    with 1(4,5) show ?thesis
      by (intro exI [of _ "[]"] exI [of _ B] exI [of _ s]) (simp add: select_events.simps)
  next
    case room: False
    show ?thesis
    proof (cases "next_batch run s = []")
      case True
      with batch have "B = []" by simp
      with True room 1(4,5) show ?thesis
        by (intro exI [of _ "[]"] exI [of _ "[]"] exI [of _ s]) (simp add: select_events.simps [of me run s])
    next
      case False
      define m where "m = max 50 (er_limit run * 5)"
      have B: "B = take m B @ drop m B" by simp
      have dist: "distinct (map fst (A @ take m B))"
      proof -
        have "map fst (A @ B) = map fst (A @ take m B) @ map fst (drop m B)"
          by (metis B append.assoc map_append)
        with facts(2) show ?thesis by (metis distinct_append)
      qed
      have rows: "row_get t (fst p) = Some (snd p) \<and> in_email_queue (snd p)
          \<and> claimable (er_statuses run) (er_stale_before run) (snd p) \<and> is_ok (should_defer_event me (snd p))"
        if "p \<in> set (take m B)" for p
      proof -
        have "p \<in> set B" using that by (rule in_set_takeD)
        moreover have "is_ok (should_defer_event me (snd p))" using 1(6) \<open>p \<in> set B\<close> by simp
        moreover have "p \<in> set (A @ B)" using \<open>p \<in> set B\<close> by simp
        ultimately show ?thesis using facts(4) [of p] row_get_iff [OF 1(2), of "fst p" "snd p"] by simp
      qed
      have "length (sl_picked s) < er_limit run" using room by simp
      from batch_loop_looks_at [OF 1(4) this dist rows] obtain A1 B1 s1 where
        s1: "batch_loop me run (take m B) s = (None, s1)" "take m B = A1 @ B1" "looked_at me t (A @ A1) s1"
          "length (sl_picked s1) \<le> er_limit run" "B1 = [] \<or> length (sl_picked s1) = er_limit run"
        by blast
      have step: "select_events me run s = select_events me run s1"
        using room False s1(1) batch by (subst select_events.simps) (simp add: m_def Let_def)
      have split: "A @ B = (A @ A1) @ (B1 @ drop m B)"
        using B s1(2) by (metis append.assoc)
      have "\<exists>A' B' s'. select_events me run s1 = (None, s') \<and> B1 @ drop m B = A' @ B'
          \<and> looked_at me t ((A @ A1) @ A') s' \<and> length (sl_picked s') \<le> er_limit run
          \<and> (B' = [] \<or> length (sl_picked s') = er_limit run)"
      proof (rule "1.IH" [OF room refl False])
        show "batch_loop me run (next_batch run s) s = (None, s1)" using s1(1) batch by (simp add: m_def)
        show "selector_queryset (er_statuses run) (er_stale_before run) t = (A @ A1) @ (B1 @ drop m B)"
          using 1(3) split by simp
        show "is_ok (should_defer_event me (snd p))" if "p \<in> set ((A @ A1) @ (B1 @ drop m B))" for p
          using that 1(6) unfolding split by blast
      qed (use s1 1(2) in auto)
      then obtain A' B' s' where "select_events me run s1 = (None, s')" "B1 @ drop m B = A' @ B'"
          "looked_at me t ((A @ A1) @ A') s'" "length (sl_picked s') \<le> er_limit run"
          "B' = [] \<or> length (sl_picked s') = er_limit run" by blast
      moreover from this(2) B s1(2) have "B = (A1 @ A') @ B'" by (metis append.assoc)
      ultimately show ?thesis
        using step by (intro exI [of _ "A1 @ A'"] exI [of _ B'] exI [of _ s']) simp
    qed
  qed
qed

lemma select_events_due:
  assumes "keys_ok t"
    and "\<And>p. p \<in> set (selector_queryset (er_statuses run) (er_stale_before run) t) \<Longrightarrow> is_ok (should_defer_event me (snd p))"
    and "due = take (er_limit run) (due_events me (selector_queryset (er_statuses run) (er_stale_before run) t))"
  shows "\<exists>s' n. select_events me run \<lparr>sl_events = t, sl_picked = [], sl_cursor = None, sl_result = zero_result\<rparr> = (None, s')
    \<and> sl_picked s' = map marked due \<and> sl_events s' = claim_rows (me_now me) (map fst due) t
    \<and> sl_result s' = zero_result\<lparr>pr_selected := length due, pr_deferred := n\<rparr>"
proof -
  let ?C = "selector_queryset (er_statuses run) (er_stale_before run) t"
  let ?s = "\<lparr>sl_events = t, sl_picked = [], sl_cursor = None, sl_result = zero_result\<rparr>"
  have "looked_at me t [] ?s" by (simp add: looked_at_def due_events_def zero_result_def)
  from select_events_looks_at [OF assms(1) _ this, where run = run and B = ?C] assms(2) obtain A B s' where
    s': "select_events me run ?s = (None, s')" "?C = A @ B" "looked_at me t A s'"
      "length (sl_picked s') \<le> er_limit run" "B = [] \<or> length (sl_picked s') = er_limit run"
    by auto
  have len: "length (sl_picked s') = length (due_events me A)" using s'(3) by (simp add: looked_at_def)
  have "due = due_events me A"
  proof -
    have "due_events me ?C = due_events me A @ due_events me B" using s'(2) by (simp add: due_events_def)
    with s'(4,5) len show ?thesis unfolding assms(3) by (auto simp: due_events_def)
  qed
  with s'(1,3) show ?thesis by (auto simp: looked_at_def)
qed

section \<open>Payloads the program itself has queued\<close>

text \<open>The text form of an instant is read back as that instant.\<close>

definition clock_text_ok :: "'w mail_env \<Rightarrow> bool" where
  "clock_text_ok me \<longleftrightarrow> (\<forall>t. me_isoformat me t \<noteq> [] \<and>
     me_parse_datetime me (me_isoformat me t) = Inr (Some (Aware_At t)))"

text \<open>
  What the bookkeeping of an event says: the number of failed attempts, below the maximum while the
  event waits and not below it once the event has failed (an event that is sent again after it failed
  counts on), and the time of the next one only while it waits.
\<close>

definition meta_json :: "'w mail_env \<Rightarrow> int \<Rightarrow> int option \<Rightarrow> json" where
  "meta_json me a upcoming =
     J_Obj [(''attempts'', J_Int a),
            (''next_attempt_at'', case upcoming of None \<Rightarrow> J_Null | Some t \<Rightarrow> J_Str (me_isoformat me t))]"

definition mail_payload :: "'w mail_env \<Rightarrow> int \<Rightarrow> int option \<Rightarrow> (string \<times> json) list \<Rightarrow> bool" where
  "mail_payload me a upcoming payload \<longleftrightarrow>
     obj_get payload ''_queue'' = meta_json me a upcoming
     \<and> (\<exists>rs. rs \<noteq> [] \<and> obj_get payload ''recipient'' = J_List (map J_Str rs)
            \<and> normalize_recipients (J_List (map J_Str rs)) = Inr rs)
     \<and> (obj_get payload ''tags'' = J_Null \<or> (\<exists>ts. obj_get payload ''tags'' = J_List (map J_Str ts)))"

definition attempts_fit :: "int \<Rightarrow> event_status \<Rightarrow> int \<Rightarrow> bool" where
  "attempts_fit m st a \<longleftrightarrow> 0 \<le> a \<and> (st = Ev_Pending \<longrightarrow> a < m) \<and> (st = Ev_Failed \<longrightarrow> m \<le> a)"

definition mail_event_ok :: "'w mail_env \<Rightarrow> int \<Rightarrow> event \<Rightarrow> bool" where
  "mail_event_ok me m ev \<longleftrightarrow>
     (\<exists>payload a upcoming. ev_payload ev = J_Obj payload \<and> mail_payload me a upcoming payload \<and> attempts_fit m (ev_status ev) a)"

definition email_queue_ok :: "'w mail_env \<Rightarrow> int \<Rightarrow> event table \<Rightarrow> bool" where
  "email_queue_ok me m t \<longleftrightarrow>
     keys_ok t \<and> (\<forall>k ev. row_get t k = Some ev \<longrightarrow> in_email_queue ev \<longrightarrow> mail_event_ok me m ev)"

lemma mail_payload_dict:
  assumes "ev_payload ev = J_Obj payload" and "mail_payload me a upcoming payload"
  shows "payload_dict ev = Inr payload"
proof -
  have "payload \<noteq> []" using assms(2) by (auto simp: mail_payload_def obj_get_def meta_json_def)
  with assms(1) show ?thesis by (simp add: payload_dict_def py_or_def as_dict_def)
qed

lemma mail_payload_meta:
  assumes "clock_text_ok me" and "mail_payload me a upcoming payload" and "0 \<le> a"
  shows "read_queue_meta me payload = Inr \<lparr>qm_attempts = a, qm_next_attempt_at = upcoming\<rparr>"
proof -
  have "me_isoformat me t \<noteq> []" and "me_parse_datetime me (me_isoformat me t) = Inr (Some (Aware_At t))" for t
    using assms(1) by (simp_all add: clock_text_ok_def)
  with assms(2,3) show ?thesis
    by (cases upcoming) (simp_all add: mail_payload_def read_queue_meta_def meta_json_def obj_get_def parse_next_attempt_def)
qed

lemma mail_payload_set_meta:
  assumes "mail_payload me a upcoming payload" and "0 \<le> b"
  shows "mail_payload me b later (set_queue_meta me b later payload)"
  using assms by (simp add: mail_payload_def set_queue_meta_def meta_json_def)

lemma mail_event_meta:
  assumes "clock_text_ok me" and "mail_event_ok me m ev"
  obtains payload a upcoming where "payload_dict ev = Inr payload" "mail_payload me a upcoming payload"
    "read_queue_meta me payload = Inr \<lparr>qm_attempts = a, qm_next_attempt_at = upcoming\<rparr>"
    "attempts_fit m (ev_status ev) a"
proof -
  from assms(2) obtain payload a upcoming where
    ok: "ev_payload ev = J_Obj payload" "mail_payload me a upcoming payload" "attempts_fit m (ev_status ev) a"
    by (auto simp: mail_event_ok_def)
  show thesis
    by (rule that [OF mail_payload_dict [OF ok(1,2)] ok(2) mail_payload_meta [OF assms(1) ok(2)] ok(3)])
       (use ok(3) in \<open>simp add: attempts_fit_def\<close>)
qed

lemma mail_event_readable:
  assumes "clock_text_ok me" and "mail_event_ok me m ev"
  shows "is_ok (should_defer_event me ev)"
  using assms by (elim mail_event_meta) (auto simp: should_defer_event_def is_ok_def)

section \<open>Sending such a payload\<close>

text \<open>Requests that are answered or fail in a way the code catches.\<close>

definition http_contained :: "'w mail_env \<Rightarrow> bool" where
  "http_contained me \<longleftrightarrow> (\<forall>p w e w'. me_urlopen me p w \<noteq> (Http_Other e, w'))"

lemma coerce_tags_list: "coerce_queue_tags (or_null (J_List (map J_Str ts))) \<noteq> Inl e"
  by (auto simp: coerce_queue_tags_def or_null_def py_or_def py_iter_def)

lemma coerce_tags_Null: "coerce_queue_tags (or_null J_Null) \<noteq> Inl e"
  by (simp add: coerce_queue_tags_def or_null_def py_or_def py_iter_def)

lemma send_with_brevo_Inl:
  assumes "send_with_brevo me s b rs h ts w = (Inl e, w')"
  shows "\<exists>p. me_urlopen me p w = (Http_Other e, w')"
  using assms by (auto simp: send_with_brevo_def split: prod.splits if_splits http_outcome.splits)

lemma send_payload_Inl:
  assumes "mail_payload me a upcoming payload" and "send_event_payload me payload w = (Inl e, w')"
  shows "\<exists>p. me_urlopen me p w = (Http_Other e, w')"
proof -
  from assms(1) obtain rs where rs: "rs \<noteq> []" "obj_get payload ''recipient'' = J_List (map J_Str rs)"
      "normalize_recipients (J_List (map J_Str rs)) = Inr rs"
    by (auto simp: mail_payload_def)
  have recipients: "py_or (obj_get payload ''recipient'') (J_List []) = J_List (map J_Str rs)"
    using rs by (simp add: py_or_def)
  obtain ts where tags: "coerce_queue_tags (or_null (obj_get payload ''tags'')) = Inr ts"
    using assms(1) coerce_tags_list coerce_tags_Null
    by (cases "coerce_queue_tags (or_null (obj_get payload ''tags''))") (auto simp: mail_payload_def)
  have "\<exists>s b h u. send_with_brevo me s b rs h u w = (Inl e, w')"
    using assms(2)
    unfolding send_event_payload_def send_email_safe_def recipients rs(3) tags Let_def
    using rs(1) by (auto split: prod.splits sum.splits bool.splits if_splits)
  then show ?thesis by (elim exE) (rule send_with_brevo_Inl)
qed

text \<open>What a handled event looks like: sent, failed for good, or put back with one attempt more.\<close>

lemma apply_send_cases:
  assumes "apply_send_result me cfg ev payload meta w = (Inr (ev', out), w')"
  obtains (sent) "send_event_payload me payload w = (Inr True, w')" "out = Out_Processed"
      "ev_status ev' = Ev_Processed"
      "ev_payload ev' = J_Obj (set_queue_meta me (qm_attempts meta) None payload)"
    | (failed) "send_event_payload me payload w = (Inr False, w')" "out = Out_Failed"
      "qc_max_attempts cfg \<le> qm_attempts meta + 1" "ev_status ev' = Ev_Failed"
      "ev_payload ev' = J_Obj (set_queue_meta me (qm_attempts meta + 1) None payload)"
    | (again) "send_event_payload me payload w = (Inr False, w')" "out = Out_Retried"
      "qm_attempts meta + 1 < qc_max_attempts cfg" "ev_status ev' = Ev_Pending"
      "ev_payload ev' = J_Obj (set_queue_meta me (qm_attempts meta + 1)
         (Some (me_now me + 1000000 * compute_retry_delay_seconds (qm_attempts meta + 1) cfg)) payload)"
  using assms
  by (auto simp: apply_send_result_def Let_def split: prod.splits sum.splits bool.splits if_splits)

lemma apply_send_other_fields:
  assumes "apply_send_result me cfg ev payload meta w = (Inr (ev', out), w')"
  shows "ev_processed_at ev' = Some (me_now me)"
  using assms
  by (auto simp: apply_send_result_def Let_def split: prod.splits sum.splits bool.splits if_splits)

lemma mail_event_okI:
  "ev_payload ev = J_Obj payload \<Longrightarrow> mail_payload me a upcoming payload \<Longrightarrow> attempts_fit m (ev_status ev) a
     \<Longrightarrow> mail_event_ok me m ev"
  by (auto simp: mail_event_ok_def)

lemma apply_send_keeps_ok:
  assumes "apply_send_result me cfg ev payload meta w = (Inr (ev', out), w')"
    and "mail_payload me (qm_attempts meta) upcoming payload" and "0 \<le> qm_attempts meta"
  shows "mail_event_ok me (qc_max_attempts cfg) ev'"
  using assms(1)
proof (cases rule: apply_send_cases)
  case sent
  show ?thesis
    by (rule mail_event_okI [OF sent(4) mail_payload_set_meta [OF assms(2,3)]])
       (use sent assms in \<open>simp add: attempts_fit_def\<close>)
next
  case failed
  show ?thesis
    by (rule mail_event_okI [OF failed(5) mail_payload_set_meta [OF assms(2)]])
       (use failed assms in \<open>simp_all add: attempts_fit_def\<close>)
next
  case again
  show ?thesis
    by (rule mail_event_okI [OF again(5) mail_payload_set_meta [OF assms(2)]])
       (use again assms in \<open>simp_all add: attempts_fit_def\<close>)
qed

section \<open>Normalised recipients\<close>

lemma dropWhile_idem: "dropWhile P (dropWhile P xs) = dropWhile P xs"
  by (induction xs) auto

lemma strip_strip [simp]: "strip (strip s) = strip s"
proof -
  let ?u = "dropWhile is_space (rev (dropWhile is_space s))"
  have "dropWhile is_space (rev ?u) = rev ?u"
  proof (cases "rev ?u")
    case Nil
    show ?thesis unfolding Nil by simp
  next
    case (Cons c r)
    then have "?u \<noteq> []" by auto
    obtain v where v: "rev (dropWhile is_space s) = v @ ?u"
      by (metis takeWhile_dropWhile_id)
    then have "dropWhile is_space s = rev ?u @ rev v" by (metis rev_append rev_rev_ident)
    with Cons have "dropWhile is_space s = c # r @ rev v" by simp
    then have "\<not> is_space c" by (metis dropWhile_eq_Cons_conv)
    with Cons show ?thesis by simp
  qed
  then show ?thesis by (simp add: strip_def dropWhile_idem)
qed

lemma add_recipients_out:
  "\<exists>new. add_recipients items seen normalized = normalized @ new
     \<and> (\<forall>x \<in> set new. strip x = x \<and> x \<noteq> [] \<and> str_lower x \<notin> set seen) \<and> distinct (map str_lower new)"
proof (induction items arbitrary: seen normalized)
  case Nil
  show ?case by simp
next
  case (Cons item items)
  show ?case
  proof (cases "\<exists>s. item = J_Str s \<and> strip s \<noteq> [] \<and> str_lower (strip s) \<notin> set seen")
    case True
    then obtain s where s: "item = J_Str s" "strip s \<noteq> []" "str_lower (strip s) \<notin> set seen" by blast
    from Cons.IH [of "str_lower (strip s) # seen" "normalized @ [strip s]"] obtain new where
      new: "add_recipients items (str_lower (strip s) # seen) (normalized @ [strip s]) = (normalized @ [strip s]) @ new"
        "\<forall>x \<in> set new. strip x = x \<and> x \<noteq> [] \<and> str_lower x \<notin> set (str_lower (strip s) # seen)"
        "distinct (map str_lower new)"
      by blast
    with s show ?thesis
      by (intro exI [of _ "strip s # new"]) (auto simp: Let_def)
  next
    case False
    then have "add_recipients (item # items) seen normalized = add_recipients items seen normalized"
      by (cases item) (auto simp: Let_def)
    with Cons.IH show ?thesis by simp
  qed
qed

lemma add_recipients_normal:
  assumes "\<forall>x \<in> set xs. strip x = x \<and> x \<noteq> [] \<and> str_lower x \<notin> set seen" and "distinct (map str_lower xs)"
  shows "add_recipients (map J_Str xs) seen normalized = normalized @ xs"
  using assms
proof (induction xs arbitrary: seen normalized)
  case Nil
  then show ?case by simp
next
  case (Cons x xs)
  have "str_lower y \<noteq> str_lower x" if "y \<in> set xs" for y
    using Cons.prems(2) that by (metis distinct.simps(2) image_eqI list.set_map list.simps(9))
  then have "add_recipients (map J_Str xs) (str_lower x # seen) (normalized @ [x]) = (normalized @ [x]) @ xs"
    using Cons.prems by (intro Cons.IH) auto
  with Cons.prems show ?case by (simp add: Let_def)
qed

lemma normalize_recipients_again:
  assumes "normalize_recipients recipient = Inr rs"
  shows "normalize_recipients (J_List (map J_Str rs)) = Inr rs"
proof -
  obtain items where "rs = add_recipients items [] []"
    using assms that [of "[]"] that [of "[recipient]"]
    by (cases recipient) (auto simp: normalize_recipients_def wms_ok simp del: add_recipients.simps(2) intro: that)
  then show ?thesis
    using add_recipients_out [of items "[]" "[]"] add_recipients_normal [of rs "[]" "[]"]
    by (auto simp: normalize_recipients_def py_iter_def)
qed

section \<open>The queue the program fills stays well formed\<close>

lemma keys_ok_save_event: "keys_ok t \<Longrightarrow> keys_ok (save_event k ev t)"
  by (simp add: save_event_def keys_ok_upd)

lemma mail_event_ok_cong:
  "ev_payload ev = ev_payload ev' \<Longrightarrow> ev_status ev = ev_status ev' \<Longrightarrow> mail_event_ok me m ev = mail_event_ok me m ev'"
  by (simp add: mail_event_ok_def)

lemma email_queue_ok_save:
  assumes "email_queue_ok me m t" and "mail_event_ok me m ev"
  shows "email_queue_ok me m (save_event k ev t)"
  unfolding email_queue_ok_def
proof (intro conjI allI impI)
  show "keys_ok (save_event k ev t)" using assms(1) by (simp add: email_queue_ok_def keys_ok_save_event)
next
  fix j row
  assume row: "row_get (save_event k ev t) j = Some row" and inq: "in_email_queue row"
  show "mail_event_ok me m row"
  proof (cases "j = k")
    case True
    with row have "ev_payload row = ev_payload ev" and "ev_status row = ev_status ev"
      by (auto simp: row_get_save_event)
    with assms(2) show ?thesis using mail_event_ok_cong by blast
  next
    case False
    with row inq assms(1) show ?thesis by (simp add: row_get_save_event email_queue_ok_def)
  qed
qed

text \<open>A claim does not change the payload.\<close>

lemma mail_event_processing:
  assumes "mail_event_ok me m ev" and "ev_payload ev' = ev_payload ev" and "ev_status ev' = Ev_Processing"
  shows "mail_event_ok me m ev'"
proof -
  from assms(1) obtain payload a upcoming where
    "ev_payload ev = J_Obj payload" "mail_payload me a upcoming payload" "attempts_fit m (ev_status ev) a"
    by (auto simp: mail_event_ok_def)
  with assms(2,3) show ?thesis
    using mail_event_okI [of ev' payload me a upcoming m] by (simp add: attempts_fit_def)
qed

lemma mail_event_marked: "mail_event_ok me m ev \<Longrightarrow> mail_event_ok me m (ev\<lparr>ev_status := Ev_Processing\<rparr>)"
  by (erule mail_event_processing) simp_all

lemma mail_event_claimed: "mail_event_ok me m ev \<Longrightarrow> mail_event_ok me m (claimed now ev)"
  by (erule mail_event_processing) (simp_all add: claimed_def)

lemma process_event_keeps:
  assumes "process_event me cfg (k, ev) s = (r, s')" and "clock_text_ok me"
    and "mail_event_ok me (qc_max_attempts cfg) ev" and "email_queue_ok me (qc_max_attempts cfg) (ms_events s)"
  shows "email_queue_ok me (qc_max_attempts cfg) (ms_events s')"
  using assms(1)
proof (cases rule: process_event_cases)
  case raised
  with assms(4) show ?thesis by simp
next
  case (saved payload meta ev' out w)
  from mail_event_meta [OF assms(2,3)] saved(1,2) obtain a upcoming where
    "mail_payload me a upcoming payload" "meta = \<lparr>qm_attempts = a, qm_next_attempt_at = upcoming\<rparr>"
    "attempts_fit (qc_max_attempts cfg) (ev_status ev) a"
    by (metis sum.inject(2))
  then have "mail_event_ok me (qc_max_attempts cfg) ev'"
    by (intro apply_send_keeps_ok [OF saved(3), of upcoming]) (auto simp: attempts_fit_def)
  with saved(5) assms(4) show ?thesis by (simp add: email_queue_ok_save)
qed

lemma process_event_contained:
  assumes "clock_text_ok me" and "mail_event_ok me m ev" and "http_contained me"
  shows "\<exists>s'. process_event me cfg (k, ev) s = (None, s')"
proof -
  obtain r s' where p: "process_event me cfg (k, ev) s = (r, s')" by fastforce
  from mail_event_meta [OF assms(1,2)] obtain payload a upcoming where
    m: "payload_dict ev = Inr payload" "mail_payload me a upcoming payload"
      "read_queue_meta me payload = Inr \<lparr>qm_attempts = a, qm_next_attempt_at = upcoming\<rparr>" by metis
  have "send_event_payload me payload w \<noteq> (Inl e, w')" for w e w'
    using send_payload_Inl [OF m(2)] assms(3) by (auto simp: http_contained_def)
  then have "apply_send_result me cfg ev payload meta w \<noteq> (Inl e, w')" for meta w e w'
    by (auto simp: apply_send_result_def Let_def split: prod.splits sum.splits bool.splits if_splits)
  with p m show ?thesis
    by (auto simp: process_event_def split: prod.splits sum.splits)
qed

section \<open>A whole run\<close>

text \<open>The events a run works on: the oldest ones that are due, up to the limit.\<close>

definition email_due :: "'w mail_env \<Rightarrow> json \<Rightarrow> bool \<Rightarrow> queue_numbers \<Rightarrow> event table \<Rightarrow> (nat \<times> event) list" where
  "email_due me limit include_failed args t =
     (let run = email_run_of me limit include_failed args
      in take (er_limit run) (due_events me (selector_queryset (er_statuses run) (er_stale_before run) t)))"

lemma email_due_mem:
  assumes "keys_ok t" and "(k, ev) \<in> set (email_due me limit include_failed args t)"
  shows "row_get t k = Some ev" and "in_email_queue ev"
    and "claimable (candidate_statuses include_failed)
      (me_now me - 1000000 * qc_processing_timeout_seconds (email_queue_config me args)) ev"
    and "should_defer_event me ev = Inr False"
proof -
  let ?run = "email_run_of me limit include_failed args"
  from assms(2) have due: "(k, ev) \<in> set (due_events me (selector_queryset (er_statuses ?run) (er_stale_before ?run) t))"
    unfolding email_due_def Let_def by (rule in_set_takeD)
  then have "(k, ev) \<in> set (selector_queryset (er_statuses ?run) (er_stale_before ?run) t)"
    using set_due_events by fastforce
  with selector_facts(4) [OF assms(1), of "(k, ev)"] row_get_iff [OF assms(1)]
  show "row_get t k = Some ev" and "in_email_queue ev"
    and "claimable (candidate_statuses include_failed)
      (me_now me - 1000000 * qc_processing_timeout_seconds (email_queue_config me args)) ev"
    by (simp_all add: email_run_of_def)
  show "should_defer_event me ev = Inr False"
    using due by (simp add: due_events_def)
qed

lemma distinct_email_due:
  assumes "keys_ok t"
  shows "distinct (map fst (email_due me limit include_failed args t))"
proof -
  have "distinct (map fst (due_events me (selector_queryset statuses stale t)))" for statuses stale
    using selector_facts(2) [OF assms] unfolding due_events_def by (rule distinct_map_filter)
  then show ?thesis by (simp add: email_due_def Let_def take_map [symmetric])
qed

lemma email_due_ok:
  assumes "email_queue_ok me m t" and "(k, ev) \<in> set (email_due me limit include_failed args t)"
  shows "mail_event_ok me m ev"
proof -
  have keys: "keys_ok t" using assms(1) by (simp add: email_queue_ok_def)
  show ?thesis using email_due_mem(1,2) [OF keys assms(2)] assms(1) by (simp add: email_queue_ok_def)
qed

lemma email_queue_ok_claim_rows:
  assumes "email_queue_ok me m t" and "\<And>k ev. k \<in> set ks \<Longrightarrow> row_get t k = Some ev \<Longrightarrow> mail_event_ok me m ev"
  shows "email_queue_ok me m (claim_rows now ks t)"
  unfolding email_queue_ok_def
proof (intro conjI allI impI)
  show "keys_ok (claim_rows now ks t)"
    using assms(1) by (simp add: email_queue_ok_def keys_ok_def claim_rows_def comp_def case_prod_beta)
next
  fix k row
  assume row: "row_get (claim_rows now ks t) k = Some row" and inq: "in_email_queue row"
  then obtain ev where ev: "row_get t k = Some ev" "row = (if k \<in> set ks then claimed now ev else ev)"
    by (auto simp: row_get_claim_rows)
  show "mail_event_ok me m row"
  proof (cases "k \<in> set ks")
    case True
    with ev assms(2) show ?thesis by (simp add: mail_event_claimed)
  next
    case False
    with ev inq assms(1) show ?thesis by (simp add: email_queue_ok_def)
  qed
qed

definition email_queue_readable :: "'w mail_env \<Rightarrow> event table \<Rightarrow> bool" where
  "email_queue_readable me t \<longleftrightarrow>
     (\<forall>k ev. row_get t k = Some ev \<longrightarrow> in_email_queue ev \<longrightarrow> is_ok (should_defer_event me ev))"

text \<open>The run of a queue whose payloads can be read: claim what is due, then handle it.\<close>

lemma process_email_queue_run:
  assumes "keys_ok (ms_events s)" and "due = email_due me limit include_failed args (ms_events s)"
    and "email_queue_readable me (ms_events s)"
  obtains n where "process_email_queue me limit include_failed args s =
     (case run_each (process_event me (email_queue_config me args)) (map marked due)
             \<lparr>ms_events = claim_rows (me_now me) (map fst due) (ms_events s), ms_world = ms_world s,
              mr_result = zero_result\<lparr>pr_selected := length due, pr_deferred := n\<rparr>\<rparr> of
        (r, run) \<Rightarrow> ((case r of Some e \<Rightarrow> Inl e | None \<Rightarrow> Inr (mr_result run)),
                     \<lparr>ms_events = ms_events run, ms_world = ms_world run\<rparr>))"
proof -
  let ?run = "email_run_of me limit include_failed args"
  have readable: "is_ok (should_defer_event me (snd p))"
    if "p \<in> set (selector_queryset (er_statuses ?run) (er_stale_before ?run) (ms_events s))" for p
    using that selector_facts(4) [OF assms(1)] row_get_iff [OF assms(1), of "fst p" "snd p"] assms(3)
    by (auto simp: email_queue_readable_def)
  have "due = take (er_limit ?run) (due_events me (selector_queryset (er_statuses ?run) (er_stale_before ?run) (ms_events s)))"
    by (simp add: assms(2) email_due_def Let_def)
  from select_events_due [OF assms(1) readable this] obtain sel n where sel:
    "select_events me ?run \<lparr>sl_events = ms_events s, sl_picked = [], sl_cursor = None, sl_result = zero_result\<rparr> = (None, sel)"
    "sl_picked sel = map marked due" "sl_events sel = claim_rows (me_now me) (map fst due) (ms_events s)"
    "sl_result sel = zero_result\<lparr>pr_selected := length due, pr_deferred := n\<rparr>"
    by blast
  show thesis by (rule that [of n]) (simp add: process_email_queue_def sel)
qed

lemma email_queue_ok_readable:
  assumes "email_queue_ok me m t" and "clock_text_ok me"
  shows "email_queue_readable me t"
  unfolding email_queue_readable_def
proof (intro allI impI)
  fix k ev
  assume "row_get t k = Some ev" and "in_email_queue ev"
  with assms(1) have "mail_event_ok me m ev" by (simp add: email_queue_ok_def)
  then show "is_ok (should_defer_event me ev)" by (rule mail_event_readable [OF assms(2)])
qed

lemma process_email_queue_keeps:
  assumes "clock_text_ok me" and "email_queue_ok me (qc_max_attempts (email_queue_config me args)) (ms_events s)"
  shows "email_queue_ok me (qc_max_attempts (email_queue_config me args))
    (ms_events (snd (process_email_queue me limit include_failed args s)))"
proof -
  let ?cfg = "email_queue_config me args"
  define due where "due = email_due me limit include_failed args (ms_events s)"
  have keys: "keys_ok (ms_events s)" using assms(2) by (simp add: email_queue_ok_def)
  from process_email_queue_run [OF keys due_def email_queue_ok_readable [OF assms(2,1)]] obtain n where
    run: "process_email_queue me limit include_failed args s =
     (case run_each (process_event me ?cfg) (map marked due)
             \<lparr>ms_events = claim_rows (me_now me) (map fst due) (ms_events s), ms_world = ms_world s,
              mr_result = zero_result\<lparr>pr_selected := length due, pr_deferred := n\<rparr>\<rparr> of
        (r, run) \<Rightarrow> ((case r of Some e \<Rightarrow> Inl e | None \<Rightarrow> Inr (mr_result run)),
                     \<lparr>ms_events = ms_events run, ms_world = ms_world run\<rparr>))" by blast
  obtain r fin where r: "run_each (process_event me ?cfg) (map marked due)
             \<lparr>ms_events = claim_rows (me_now me) (map fst due) (ms_events s), ms_world = ms_world s,
              mr_result = zero_result\<lparr>pr_selected := length due, pr_deferred := n\<rparr>\<rparr> = (r, fin)"
    by fastforce
  have "mail_event_ok me (qc_max_attempts ?cfg) ev" if "k \<in> set (map fst due)" and "row_get (ms_events s) k = Some ev" for k ev
    using that email_due_mem(1) [OF keys] email_due_ok [OF assms(2)] by (force simp: due_def)
  then have start: "email_queue_ok me (qc_max_attempts ?cfg) (claim_rows (me_now me) (map fst due) (ms_events s))"
    by (rule email_queue_ok_claim_rows [OF assms(2)])
  have "email_queue_ok me (qc_max_attempts ?cfg) (ms_events fin)"
    using r
  proof (rule run_each_inv [where P = "\<lambda>u. email_queue_ok me (qc_max_attempts ?cfg) (ms_events u)"])
    fix x u e u'
    assume x: "x \<in> set (map marked due)" and p: "process_event me ?cfg x u = (e, u')"
      and ok: "email_queue_ok me (qc_max_attempts ?cfg) (ms_events u)"
    from x obtain k ev where "x = (k, ev\<lparr>ev_status := Ev_Processing\<rparr>)" "(k, ev) \<in> set due"
      by (auto simp: marked_def)
    then show "email_queue_ok me (qc_max_attempts ?cfg) (ms_events u')"
      using process_event_keeps [OF _ assms(1) mail_event_marked ok] email_due_ok [OF assms(2)] p
      by (simp add: due_def)
  qed (simp add: start)
  then show ?thesis by (simp add: run r)
qed

lemma enqueue_email_keeps:
  assumes "email_queue_ok me m (ms_events s)" and "0 < m"
  shows "email_queue_ok me m (ms_events (snd (enqueue_email_safe me sub msg recipient html tags s)))"
proof -
  consider (same) "ms_events (snd (enqueue_email_safe me sub msg recipient html tags s)) = ms_events s"
    | (row) rs payload where "normalize_recipients recipient = Inr rs" "rs \<noteq> []"
        "build_enqueue_payload sub msg rs html tags = Inr payload"
        "ms_events (snd (enqueue_email_safe me sub msg recipient html tags s))
          = create_event (me_now me) email_source email_target email_event_type
              (J_Obj (set_queue_meta me 0 None payload)) (ms_events s)"
  proof (cases "normalize_recipients recipient")
    case (Inl e)
    then show thesis by (intro same) (simp add: enqueue_email_safe_def)
  next
    case (Inr rs)
    show thesis
    proof (cases "rs = [] \<or> email_direct_only me \<or> \<not> is_ok (build_enqueue_payload sub msg rs html tags)")
      case True
      with Inr show thesis
        by (intro same)
           (cases "build_enqueue_payload sub msg rs html tags"; auto simp: enqueue_email_safe_def is_ok_def split: prod.split)
    next
      case False
      then obtain payload where "build_enqueue_payload sub msg rs html tags = Inr payload"
        by (auto simp: is_ok_iff)
      with False Inr show thesis by (intro row [OF Inr]) (auto simp: enqueue_email_safe_def)
    qed
  qed
  then show ?thesis
  proof cases
    case same
    with assms show ?thesis by simp
  next
    case row
    let ?ev = "\<lparr>ev_direction = Dir_Outbound, ev_source = email_source, ev_target = email_target,
       ev_event_type = email_event_type, ev_external_id = '''', ev_payload = J_Obj (set_queue_meta me 0 None payload),
       ev_status = Ev_Pending, ev_error_message = '''', ev_created_at = me_now me, ev_processed_at = None\<rparr>"
    have fields: "obj_get payload ''recipient'' = J_List (map J_Str rs)"
      "obj_get payload ''tags'' = J_Null \<or> (\<exists>ts. obj_get payload ''tags'' = J_List (map J_Str ts))"
      using row(3)
      by (auto simp: build_enqueue_payload_def obj_get_def map_add_def wms_ok Let_def split: if_splits)
    have "mail_payload me 0 None (set_queue_meta me 0 None payload)"
      unfolding mail_payload_def
    proof (intro conjI exI [of _ rs])
    qed (use fields row(2) normalize_recipients_again [OF row(1)] in
        \<open>simp_all add: set_queue_meta_def meta_json_def\<close>)
    then have "mail_event_ok me m ?ev"
      using assms(2) by (intro mail_event_okI [where a = 0 and upcoming = None]) (simp_all add: attempts_fit_def)
    with assms(1) row(4) show ?thesis
      by (auto simp: email_queue_ok_def create_event_def rows.get_ins keys_ok_ins split: if_splits)
  qed
qed

section \<open>The counters of a run\<close>

definition event_status_of :: "event table \<Rightarrow> nat \<Rightarrow> event_status option" where
  "event_status_of t k = map_option ev_status (row_get t k)"

text \<open>Of the events handled, those that end with a status.\<close>

definition ended :: "event_status \<Rightarrow> nat list \<Rightarrow> event table \<Rightarrow> nat" where
  "ended st ks t = length (filter (\<lambda>k. event_status_of t k = Some st) ks)"

lemma ended_simps [simp]:
  "ended st [] t = 0"
  "ended st (k # ks) t = (if event_status_of t k = Some st then Suc (ended st ks t) else ended st ks t)"
  by (simp_all add: ended_def)

definition outcome_status :: "outcome \<Rightarrow> event_status" where
  "outcome_status out = (case out of Out_Processed \<Rightarrow> Ev_Processed | Out_Failed \<Rightarrow> Ev_Failed | Out_Retried \<Rightarrow> Ev_Pending)"

lemma run_counts:
  assumes "run_each (process_event me cfg) picked s = (None, s')" and "distinct (map fst picked)"
    and "\<forall>p \<in> set picked. row_get (ms_events s) (fst p) \<noteq> None"
  shows "pr_processed (mr_result s') = pr_processed (mr_result s) + ended Ev_Processed (map fst picked) (ms_events s')
    \<and> pr_failed (mr_result s') = pr_failed (mr_result s) + ended Ev_Failed (map fst picked) (ms_events s')
    \<and> pr_retried (mr_result s') = pr_retried (mr_result s) + ended Ev_Pending (map fst picked) (ms_events s')
    \<and> pr_selected (mr_result s') = pr_selected (mr_result s)
    \<and> pr_deferred (mr_result s') = pr_deferred (mr_result s)"
  using assms
proof (induction picked arbitrary: s)
  case Nil
  then show ?case by simp
next
  case (Cons p picked)
  obtain k ev where p: "p = (k, ev)" by (cases p)
  from Cons.prems(1) obtain t where t: "process_event me cfg (k, ev) s = (None, t)"
      "run_each (process_event me cfg) picked t = (None, s')"
    by (elim run_each_Cons) (auto simp: p)
  have notin: "k \<notin> fst ` set picked" using Cons.prems(2) p by auto
  from Cons.prems(3) p obtain row where row: "row_get (ms_events s) k = Some row" by auto
  from t(1) obtain payload meta ev' out w where a:
      "apply_send_result me cfg ev payload meta (ms_world s) = (Inr (ev', out), w)"
      "t = s\<lparr>ms_world := w, ms_events := save_event k ev' (ms_events s), mr_result := count_outcome out (mr_result s)\<rparr>"
    by (cases rule: process_event_cases) auto
  have "event_status_of (ms_events t) k = Some (outcome_status out)"
    using apply_send_result_status [OF a(1)] a(2) row
    by (simp add: event_status_of_def row_get_save_event outcome_status_def)
  moreover have "row_get (ms_events s') k = row_get (ms_events t) k"
    using mailq.run_other_events [OF t(2) notin] .
  ultimately have st: "event_status_of (ms_events s') k = Some (outcome_status out)"
    by (simp add: event_status_of_def)
  have "\<forall>q \<in> set picked. row_get (ms_events t) (fst q) \<noteq> None"
    using Cons.prems(3) notin a(2) by (auto simp: row_get_save_event)
  with Cons.IH [OF t(2)] Cons.prems(2) show ?case
    using st a(2) p by (cases out) (simp_all add: count_outcome_def outcome_status_def)
qed

lemma ended_partition:
  assumes "\<And>k. k \<in> set ks \<Longrightarrow> \<exists>row. row_get t k = Some row \<and> ev_status row \<noteq> Ev_Processing"
  shows "ended Ev_Processed ks t + ended Ev_Failed ks t + ended Ev_Pending ks t = length ks"
  using assms
proof (induction ks)
  case Nil
  then show ?case by simp
next
  case (Cons k ks)
  from Cons.prems [of k] obtain row where "row_get t k = Some row" "ev_status row \<noteq> Ev_Processing" by auto
  with Cons show ?case by (cases "ev_status row") (simp_all add: event_status_of_def)
qed

section \<open>The run from its parts\<close>

lemma process_email_queue_parts:
  assumes "clock_text_ok me" and "email_queue_ok me (qc_max_attempts (email_queue_config me args)) (ms_events s)"
    and "due = email_due me limit include_failed args (ms_events s)"
  obtains n r fin where "run_each (process_event me (email_queue_config me args)) (map marked due)
      \<lparr>ms_events = claim_rows (me_now me) (map fst due) (ms_events s), ms_world = ms_world s,
       mr_result = zero_result\<lparr>pr_selected := length due, pr_deferred := n\<rparr>\<rparr> = (r, fin)"
    and "process_email_queue me limit include_failed args s =
      ((case r of Some e \<Rightarrow> Inl e | None \<Rightarrow> Inr (mr_result fin)), \<lparr>ms_events = ms_events fin, ms_world = ms_world fin\<rparr>)"
    and "distinct (map fst due)"
    and "\<And>k ev. (k, ev) \<in> set due \<Longrightarrow> row_get (ms_events s) k = Some ev"
proof -
  let ?cfg = "email_queue_config me args"
  have keys: "keys_ok (ms_events s)" using assms(2) by (simp add: email_queue_ok_def)
  from process_email_queue_run [OF keys assms(3) email_queue_ok_readable [OF assms(2,1)]] obtain n where
    run: "process_email_queue me limit include_failed args s =
     (case run_each (process_event me ?cfg) (map marked due)
             \<lparr>ms_events = claim_rows (me_now me) (map fst due) (ms_events s), ms_world = ms_world s,
              mr_result = zero_result\<lparr>pr_selected := length due, pr_deferred := n\<rparr>\<rparr> of
        (r, run) \<Rightarrow> ((case r of Some e \<Rightarrow> Inl e | None \<Rightarrow> Inr (mr_result run)),
                     \<lparr>ms_events = ms_events run, ms_world = ms_world run\<rparr>))" by blast
  obtain r fin where r: "run_each (process_event me ?cfg) (map marked due)
             \<lparr>ms_events = claim_rows (me_now me) (map fst due) (ms_events s), ms_world = ms_world s,
              mr_result = zero_result\<lparr>pr_selected := length due, pr_deferred := n\<rparr>\<rparr> = (r, fin)"
    by fastforce
  show thesis
    using distinct_email_due [OF keys] email_due_mem(1) [OF keys] run r assms(3)
    by (intro that [OF r]) simp_all
qed

end
