(* ===== verification/Documents.thy ===== *)
theory Documents
  imports Event_Queue
begin

text \<open>
  Uploaded documents (\<open>wms/upload_utils.py\<close>, the upload handlers of the portal and of the scan
  views, \<open>attach_order_documents_to_shipment\<close>) and the antivirus queue
  (\<open>wms/document_scan_queue.py\<close>).
\<close>

section \<open>Documents and what they depend on\<close>

datatype scan_status = Scan_Pending | Scan_Clean | Scan_Infected | Scan_Error

text \<open>The three models with a scanned file: of shipments, of accounts and of orders.\<close>

datatype doc_model = Shipment_Document | Account_Document | Order_Document

record document =
  doc_owner :: "nat option"
  doc_request :: "nat option"
  doc_type :: string
  doc_file :: string
  doc_scan_status :: scan_status
  doc_scan_message :: string
  doc_scan_updated_at :: "int option"
  doc_uploaded_at :: int

text \<open>An uploaded file: its name, its size and its content.\<close>

record upload =
  up_name :: string
  up_size :: int
  up_content :: string

text \<open>How a run of the scanner ends: with an exit code and its two outputs, or with an exception.\<close>

datatype scan_run =
    Scan_Completed int string string
  | Scan_File_Not_Found
  | Scan_Timeout_Expired
  | Scan_Exception string

text \<open>
  The surroundings: the clock, the settings, Django's model registry, the file storage and the
  scanner process. Storage and scanner act on a world of type \<open>'w\<close>, the file system; asking whether
  a path exists may raise (a directory may be unreadable). Characters are those of Latin-1.
\<close>

record 'w doc_env =
  de_now :: int
  de_isoformat :: "int \<Rightarrow> string"
  de_get_model :: "string \<Rightarrow> doc_model option"
  de_label :: "doc_model \<Rightarrow> string"
  de_store :: "doc_model \<Rightarrow> upload \<Rightarrow> 'w \<Rightarrow> string \<times> 'w"
  de_file_path :: "string \<Rightarrow> 'w \<Rightarrow> string option"
  de_delete_file :: "string \<Rightarrow> 'w \<Rightarrow> 'w"
  de_path_exists :: "string \<Rightarrow> 'w \<Rightarrow> err + bool"
  de_scan_backend :: json
  de_clamav_command :: json
  de_scan_timeout :: json
  de_processing_timeout :: json
  de_run_scanner :: "string list \<Rightarrow> int \<Rightarrow> 'w \<Rightarrow> scan_run \<times> 'w"

record 'w doc_state =
  ds_documents :: "doc_model \<Rightarrow> document table"
  ds_events :: "event table"
  ds_world :: 'w

section \<open>Accepting an upload\<close>

text \<open>\<open>Path(name).suffix.lower()\<close>.\<close>

fun path_parts :: "string \<Rightarrow> string list" where
  "path_parts [] = [[]]"
| "path_parts (c # s) =
     (if c = CHR ''/'' then [] # path_parts s
      else (case path_parts s of [] \<Rightarrow> [[c]] | p # ps \<Rightarrow> (c # p) # ps))"

definition path_name :: "string \<Rightarrow> string" where
  "path_name s = (case rev (filter (\<lambda>p. p \<noteq> [] \<and> p \<noteq> ''.'') (path_parts s)) of [] \<Rightarrow> [] | p # _ \<Rightarrow> p)"

definition path_suffix :: "string \<Rightarrow> string" where
  "path_suffix s =
     (let name = path_name s;
          after = takeWhile (\<lambda>c. c \<noteq> CHR ''.'') (rev name)
      in if CHR ''.'' \<in> set name \<and> length after + 1 < length name \<and> after \<noteq> []
         then CHR ''.'' # rev after else [])"

definition magic_signatures :: "(string \<times> string list) list" where
  "magic_signatures =
     (let office = [[CHR 0xD0, CHR 0xCF, CHR 0x11, CHR 0xE0, CHR 0xA1, CHR 0xB1, CHR 0x1A, CHR 0xE1]];
          zip = [[CHR ''P'', CHR ''K'', CHR 0x03, CHR 0x04], [CHR ''P'', CHR ''K'', CHR 0x05, CHR 0x06],
                 [CHR ''P'', CHR ''K'', CHR 0x07, CHR 0x08]]
      in [(''.pdf'', [''%PDF-'']),
          (''.png'', [[CHR 0x89, CHR ''P'', CHR ''N'', CHR ''G'', CHR 0x0D, CHR 0x0A, CHR 0x1A, CHR 0x0A]]),
          (''.jpg'', [[CHR 0xFF, CHR 0xD8, CHR 0xFF]]),
          (''.jpeg'', [[CHR 0xFF, CHR 0xD8, CHR 0xFF]]),
          (''.doc'', office), (''.xls'', office), (''.docx'', zip), (''.xlsx'', zip)])"

definition allowed_upload_extensions :: "string list" where
  "allowed_upload_extensions =
     [''.pdf'', ''.png'', ''.jpg'', ''.jpeg'', ''.xlsx'', ''.xls'', ''.doc'', ''.docx'']"

definition read_file_header :: "upload \<Rightarrow> nat \<Rightarrow> string" where
  "read_file_header f n = take n (up_content f)"

definition has_valid_file_signature :: "upload \<Rightarrow> string \<Rightarrow> bool" where
  "has_valid_file_signature f suffix =
     (case map_of magic_signatures suffix of
        None \<Rightarrow> True
      | Some expected \<Rightarrow>
          (let header = read_file_header f 8
           in header \<noteq> [] \<and> list_ex (\<lambda>signature. startswith header signature) expected))"

text \<open>The message of the refusal, none when the file is accepted.\<close>

definition validate_upload :: "upload \<Rightarrow> string option" where
  "validate_upload f =
     (let suffix = str_lower (path_suffix (up_name f)) in
      if suffix \<notin> set allowed_upload_extensions then Some (''Format non autorise: '' @ up_name f)
      else if 10 * 1024 * 1024 < up_size f then Some (''Fichier trop volumineux: '' @ up_name f)
      else if \<not> has_valid_file_signature f suffix then Some (''Contenu de fichier invalide: '' @ up_name f)
      else None)"

text \<open>\<open>validate_document_upload\<close>: the posted type and file.\<close>

definition validate_document_upload ::
  "string list \<Rightarrow> string \<Rightarrow> upload option \<Rightarrow> string + string \<times> upload" where
  "validate_document_upload valid_types posted_type posted_file =
     (let dt = strip posted_type in
      if dt \<notin> set valid_types then Inl ''Type de document invalide.''
      else
        (case posted_file of
           None \<Rightarrow> Inl ''Fichier requis.''
         | Some f \<Rightarrow> (case validate_upload f of Some e \<Rightarrow> Inl e | None \<Rightarrow> Inr (dt, f))))"

section \<open>Queueing a document for the scanner\<close>

definition scan_source :: string where "scan_source = ''wms.document_scan''"
definition scan_target :: string where "scan_target = ''antivirus''"
definition scan_event_type :: string where "scan_event_type = ''scan_document''"

definition in_scan_queue :: "event \<Rightarrow> bool" where
  "in_scan_queue ev \<longleftrightarrow>
     ev_direction ev = Dir_Outbound \<and> ev_source ev = scan_source \<and> ev_event_type ev = scan_event_type"

definition queue_document_scan :: "'w doc_env \<Rightarrow> doc_model \<Rightarrow> nat \<Rightarrow> 'w doc_state \<Rightarrow> bool \<times> 'w doc_state" where
  "queue_document_scan de m k s =
     (case row_get (ds_documents s m) k of
        None \<Rightarrow> (False, s)
      | Some d \<Rightarrow>
          if doc_file d = [] then (False, s)
          else
            (True, s\<lparr>ds_events := create_event (de_now de) scan_source scan_target scan_event_type
               (J_Obj [(''model'', J_Str (de_label de m)), (''pk'', J_Int (int k)), (''file_name'', J_Str (doc_file d))])
               (ds_events s)\<rparr>))"

text \<open>The creation of a document for an uploaded file, and its entry into the queue.\<close>

definition create_document ::
  "'w doc_env \<Rightarrow> doc_model \<Rightarrow> nat option \<Rightarrow> nat option \<Rightarrow> string \<Rightarrow> upload \<Rightarrow> 'w doc_state \<Rightarrow> 'w doc_state" where
  "create_document de m owner request dt f s =
     (case de_store de m f (ds_world s) of (name, w) \<Rightarrow>
      let k = next_pk (ds_documents s m);
          s1 = s\<lparr>ds_world := w,
                 ds_documents := (ds_documents s)(m := row_ins
                   \<lparr>doc_owner = owner, doc_request = request, doc_type = dt, doc_file = name,
                    doc_scan_status = Scan_Pending, doc_scan_message = ''Scan antivirus en cours.'',
                    doc_scan_updated_at = None, doc_uploaded_at = de_now de\<rparr> (ds_documents s m))\<rparr>
      in snd (queue_document_scan de m k s1))"

section \<open>The upload requests\<close>

text \<open>The message a request answers with.\<close>

datatype doc_reply = Not_Found | Refused string | Not_Approved | None_Selected | Documents_Added
  | Document_Deleted

definition account_document_types :: "string list" where
  "account_document_types = [''statutes'', ''registration_proof'', ''activity_report'', ''other'']"

definition order_document_types :: "string list" where
  "order_document_types = [''donation_attestation'', ''humanitarian_attestation'', ''invoice'', ''other'']"

definition handle_shipment_document_upload ::
  "'w doc_env \<Rightarrow> db \<Rightarrow> nat \<Rightarrow> upload option \<Rightarrow> 'w doc_state \<Rightarrow> doc_reply \<times> 'w doc_state" where
  "handle_shipment_document_upload de d shipment posted s =
     (if row_get (db_shipments d) shipment = None then (Not_Found, s)
      else
        (case posted of
           None \<Rightarrow> (Refused ''Fichier requis.'', s)
         | Some f \<Rightarrow>
             (case validate_upload f of
                Some e \<Rightarrow> (Refused e, s)
              | None \<Rightarrow> (Documents_Added, create_document de Shipment_Document (Some shipment) None ''additional'' f s))))"

text \<open>
  The upload of the API looks at the extension only, and creates the document with the defaults of
  the model: it is clean at once and never enters the queue.
\<close>

definition api_shipment_document_upload ::
  "'w doc_env \<Rightarrow> db \<Rightarrow> nat \<Rightarrow> upload option \<Rightarrow> 'w doc_state \<Rightarrow> doc_reply \<times> 'w doc_state" where
  "api_shipment_document_upload de d shipment posted s =
     (case row_get (db_shipments d) shipment of
        None \<Rightarrow> (Not_Found, s)
      | Some sh \<Rightarrow>
          if s_archived_at sh \<noteq> None then (Not_Found, s)
          else
            (case posted of
               None \<Rightarrow> (Refused ''Fichier requis.'', s)
             | Some f \<Rightarrow>
                 if str_lower (path_suffix (up_name f)) \<notin> set allowed_upload_extensions
                 then (Refused ''Format de fichier non autorise.'', s)
                 else
                   (case de_store de Shipment_Document f (ds_world s) of (name, w) \<Rightarrow>
                      (Documents_Added, s\<lparr>ds_world := w,
                         ds_documents := (ds_documents s)(Shipment_Document := row_ins
                           \<lparr>doc_owner = Some shipment, doc_request = None, doc_type = ''additional'', doc_file = name,
                            doc_scan_status = Scan_Clean, doc_scan_message = '''', doc_scan_updated_at = None,
                            doc_uploaded_at = de_now de\<rparr> (ds_documents s Shipment_Document))\<rparr>))))"

text \<open>The deletion of an additional document, by the page and, where the shipment is not archived, by the API.\<close>

definition delete_shipment_document ::
  "'w doc_env \<Rightarrow> nat \<Rightarrow> nat \<Rightarrow> 'w doc_state \<Rightarrow> doc_reply \<times> 'w doc_state" where
  "delete_shipment_document de shipment k s =
     (case row_get (ds_documents s Shipment_Document) k of
        None \<Rightarrow> (Not_Found, s)
      | Some x \<Rightarrow>
          if doc_owner x \<noteq> Some shipment \<or> doc_type x \<noteq> ''additional'' then (Not_Found, s)
          else (Document_Deleted, s\<lparr>
                 ds_world := (if doc_file x = [] then ds_world s else de_delete_file de (doc_file x) (ds_world s)),
                 ds_documents := (ds_documents s)(Shipment_Document := row_del k (ds_documents s Shipment_Document))\<rparr>))"

definition handle_shipment_document_delete ::
  "'w doc_env \<Rightarrow> db \<Rightarrow> nat \<Rightarrow> nat \<Rightarrow> 'w doc_state \<Rightarrow> doc_reply \<times> 'w doc_state" where
  "handle_shipment_document_delete de d shipment k s =
     (if row_get (db_shipments d) shipment = None then (Not_Found, s)
      else delete_shipment_document de shipment k s)"

definition api_shipment_document_delete ::
  "'w doc_env \<Rightarrow> db \<Rightarrow> nat \<Rightarrow> nat \<Rightarrow> 'w doc_state \<Rightarrow> doc_reply \<times> 'w doc_state" where
  "api_shipment_document_delete de d shipment k s =
     (case row_get (db_shipments d) shipment of
        None \<Rightarrow> (Not_Found, s)
      | Some sh \<Rightarrow> if s_archived_at sh \<noteq> None then (Not_Found, s) else delete_shipment_document de shipment k s)"

definition handle_account_document_upload ::
  "'w doc_env \<Rightarrow> nat \<Rightarrow> string \<Rightarrow> upload option \<Rightarrow> 'w doc_state \<Rightarrow> doc_reply \<times> 'w doc_state" where
  "handle_account_document_upload de association posted_type posted s =
     (case validate_document_upload account_document_types posted_type posted of
        Inl e \<Rightarrow> (Refused e, s)
      | Inr (dt, f) \<Rightarrow> (Documents_Added, create_document de Account_Document (Some association) None dt f s))"

text \<open>
  The forms with one file field per type: each type in turn, a refused file is skipped. The files
  are those posted under \<open>doc_file_<type>\<close>.
\<close>

fun upload_each ::
  "'w doc_env \<Rightarrow> doc_model \<Rightarrow> nat \<Rightarrow> (string \<Rightarrow> upload option) \<Rightarrow> string list \<Rightarrow> doc_reply list \<Rightarrow> nat
     \<Rightarrow> 'w doc_state \<Rightarrow> doc_reply list \<times> nat \<times> 'w doc_state" where
  "upload_each de m owner files [] replies created s = (replies, created, s)"
| "upload_each de m owner files (dt # types) replies created s =
     (case files dt of
        None \<Rightarrow> upload_each de m owner files types replies created s
      | Some f \<Rightarrow>
          (case validate_upload f of
             Some e \<Rightarrow> upload_each de m owner files types (replies @ [Refused e]) created s
           | None \<Rightarrow> upload_each de m owner files types replies (Suc created)
                       (create_document de m (Some owner) None dt f s)))"

definition handle_account_document_uploads ::
  "'w doc_env \<Rightarrow> nat \<Rightarrow> (string \<Rightarrow> upload option) \<Rightarrow> 'w doc_state \<Rightarrow> doc_reply list \<times> 'w doc_state" where
  "handle_account_document_uploads de association files s =
     (case upload_each de Account_Document association files account_document_types [] 0 s of
        (replies, created, s') \<Rightarrow> (replies @ [if created = 0 then None_Selected else Documents_Added], s'))"

definition order_approved :: "db \<Rightarrow> nat \<Rightarrow> bool" where
  "order_approved d order = (case row_get (db_orders d) order of
       None \<Rightarrow> False | Some o' \<Rightarrow> o_review_status o' = Rev_Approved)"

definition handle_order_document_upload ::
  "'w doc_env \<Rightarrow> db \<Rightarrow> nat \<Rightarrow> string \<Rightarrow> upload option \<Rightarrow> 'w doc_state \<Rightarrow> doc_reply \<times> 'w doc_state" where
  "handle_order_document_upload de d order posted_type posted s =
     (if row_get (db_orders d) order = None then (Not_Found, s)
      else if \<not> order_approved d order then (Not_Approved, s)
      else
        (case validate_document_upload order_document_types posted_type posted of
           Inl e \<Rightarrow> (Refused e, s)
         | Inr (dt, f) \<Rightarrow> (Documents_Added, create_document de Order_Document (Some order) None dt f s)))"

definition handle_order_document_uploads ::
  "'w doc_env \<Rightarrow> db \<Rightarrow> nat \<Rightarrow> (string \<Rightarrow> upload option) \<Rightarrow> 'w doc_state \<Rightarrow> doc_reply list \<times> 'w doc_state" where
  "handle_order_document_uploads de d order files s =
     (if row_get (db_orders d) order = None then ([Not_Found], s)
      else if \<not> order_approved d order then ([Not_Approved], s)
      else
        (case upload_each de Order_Document order files order_document_types [] 0 s of
           (replies, created, s') \<Rightarrow> (replies @ [if created = 0 then None_Selected else Documents_Added], s')))"

definition create_account_request_documents ::
  "'w doc_env \<Rightarrow> nat \<Rightarrow> nat option \<Rightarrow> (string \<times> upload) list \<Rightarrow> 'w doc_state \<Rightarrow> 'w doc_state" where
  "create_account_request_documents de request contact uploads s =
     fold (\<lambda>(dt, f). create_document de Account_Document contact (Some request) dt f) uploads s"

section \<open>Documents of an order, attached to its shipment\<close>

definition is_scan_clean :: "document \<Rightarrow> bool" where
  "is_scan_clean d \<longleftrightarrow> doc_scan_status d = Scan_Clean"

definition attach_order_documents_to_shipment ::
  "'w doc_env \<Rightarrow> nat \<Rightarrow> nat \<Rightarrow> 'w doc_state \<Rightarrow> 'w doc_state" where
  "attach_order_documents_to_shipment de order shipment s =
     (let wanted = [''donation_attestation'', ''humanitarian_attestation''];
          existing_files = map (doc_file \<circ> snd)
            (rows_where (\<lambda>k d. doc_owner d = Some shipment \<and> doc_type d = ''additional'') (ds_documents s Shipment_Document));
          docs = sort_key (\<lambda>p. - doc_uploaded_at (snd p))
            (rows_where (\<lambda>k d. doc_owner d = Some order \<and> doc_type d \<in> set wanted) (ds_documents s Order_Document))
      in fold (\<lambda>(k, d) s.
           if doc_file d = [] \<or> \<not> is_scan_clean d \<or> doc_file d \<in> set existing_files then s
           else s\<lparr>ds_documents := (ds_documents s)(Shipment_Document := row_ins
                    \<lparr>doc_owner = Some shipment, doc_request = None, doc_type = ''additional'', doc_file = doc_file d,
                     doc_scan_status = Scan_Clean, doc_scan_message = '''', doc_scan_updated_at = None,
                     doc_uploaded_at = de_now de\<rparr> (ds_documents s Shipment_Document))\<rparr>) docs s)"

section \<open>Running the scanner\<close>

definition scan_backend :: "'w doc_env \<Rightarrow> string" where
  "scan_backend de =
     (let backend = str_lower (strip (py_str (py_or (de_scan_backend de) (J_Str ''clamav''))))
      in if backend \<in> {''clamav'', ''noop''} then backend else ''clamav'')"

definition clamav_command :: "'w doc_env \<Rightarrow> string" where
  "clamav_command de =
     (let raw = strip (py_str (py_or (de_clamav_command de) (J_Str '''')))
      in if raw = [] then ''clamscan'' else raw)"

definition scan_timeout_seconds :: "'w doc_env \<Rightarrow> int" where
  "scan_timeout_seconds de = safe_int (de_scan_timeout de) 30 5"

definition processing_timeout_seconds :: "'w doc_env \<Rightarrow> json \<Rightarrow> int" where
  "processing_timeout_seconds de override_seconds =
     safe_int (if override_seconds = J_Null then de_processing_timeout de else override_seconds) 900 1"

definition either :: "string \<Rightarrow> string \<Rightarrow> string" where
  "either a b = (if a = [] then b else a)"

definition scan_file_with_clamav :: "'w doc_env \<Rightarrow> string \<Rightarrow> 'w \<Rightarrow> (scan_status \<times> string) \<times> 'w" where
  "scan_file_with_clamav de path w =
     (case de_run_scanner de [clamav_command de, ''--no-summary'', path] (scan_timeout_seconds de) w of
        (Scan_File_Not_Found, w') \<Rightarrow> ((Scan_Error, ''Commande ClamAV introuvable.''), w')
      | (Scan_Timeout_Expired, w') \<Rightarrow> ((Scan_Error, ''Scan antivirus expir'' @ [CHR 0xE9] @ ''.''), w')
      | (Scan_Exception e, w') \<Rightarrow> ((Scan_Error, ''Erreur scan antivirus: '' @ e), w')
      | (Scan_Completed code out err, w') \<Rightarrow>
          (let output = strip (either out err) in
           if code = 0 then ((Scan_Clean, output), w')
           else if code = 1 then
             ((Scan_Infected, either output (''Fichier infect'' @ [CHR 0xE9] @ '' d'' @ [CHR 0xE9] @ ''tect'' @ [CHR 0xE9] @ ''.'')), w')
           else ((Scan_Error, either output ''Erreur inconnue du scan antivirus.''), w')))"

definition scan_uploaded_file :: "'w doc_env \<Rightarrow> string \<Rightarrow> 'w \<Rightarrow> (err + scan_status \<times> string) \<times> 'w" where
  "scan_uploaded_file de file w =
     (if file = [] then (Inr (Scan_Error, ''Fichier absent.''), w)
      else
        (case de_file_path de file w of
           None \<Rightarrow> (Inr (Scan_Error, ''Stockage non local: chemin fichier indisponible pour scan.''), w)
         | Some path \<Rightarrow>
             if path = [] then (Inr (Scan_Error, ''Chemin fichier indisponible.''), w)
             else
               (case de_path_exists de path w of
                  Inl e \<Rightarrow> (Inl e, w)
                | Inr False \<Rightarrow> (Inr (Scan_Error, ''Fichier introuvable.''), w)
                | Inr True \<Rightarrow>
                    if scan_backend de = ''noop'' then (Inr (Scan_Clean, ''Scan noop (backend de test).''), w)
                    else (case scan_file_with_clamav de path w of (answer, w') \<Rightarrow> (Inr answer, w')))))"

section \<open>One queued scan\<close>

text \<open>
  \<open>_resolve_document_instance\<close>: the document of a payload, or the message that says why there is
  none. A model name that is no text, an identifier that cannot be hashed and one that is no number
  raise. The registry is asked for the three document models only.
\<close>

definition resolve_pk :: "json \<Rightarrow> err + int" where
  "resolve_pk v = (case v of
       J_Int n \<Rightarrow> Inr n
     | J_Bool b \<Rightarrow> Inr (if b then 1 else 0)
     | J_Str s \<Rightarrow> require (int_of_text s) (Value_Error ''id'')
     | _ \<Rightarrow> Inl Type_Error)"

definition resolve_document_instance ::
  "'w doc_env \<Rightarrow> (doc_model \<Rightarrow> document table) \<Rightarrow> json \<Rightarrow> err + (string + doc_model \<times> nat \<times> document)" where
  "resolve_document_instance de docs v =
     (case v of
        J_Obj payload \<Rightarrow>
          (case py_or (obj_get payload ''model'') (J_Str '''') of
             J_Str model \<Rightarrow>
               (let model_label = strip model; object_id = obj_get payload ''pk'' in
                if model_label = [] then Inr (Inl (''Payload sans mod'' @ [CHR 0xE8] @ ''le de document.''))
                else
                  (case object_id of
                     J_List xs \<Rightarrow> Inl Type_Error
                   | J_Obj m \<Rightarrow> Inl Type_Error
                   | _ \<Rightarrow>
                       if object_id = J_Null \<or> object_id = J_Str '''' then
                         Inr (Inl ''Payload sans identifiant document.'')
                       else
                         (case de_get_model de model_label of
                            None \<Rightarrow> Inr (Inl (''Mod'' @ [CHR 0xE8] @ ''le document inconnu: '' @ model_label @ ''.''))
                          | Some m \<Rightarrow>
                              res_bind (resolve_pk object_id) (\<lambda>pk.
                                case (if pk < 0 then None else row_get (docs m) (nat pk)) of
                                  None \<Rightarrow> Inr (Inl (''Document introuvable: '' @ model_label @ ''#'' @ py_str object_id @ ''.''))
                                | Some d \<Rightarrow> Inr (Inr (m, nat pk, d))))))
           | _ \<Rightarrow> Inl Attribute_Error)
      | _ \<Rightarrow> Inr (Inl ''Payload de scan invalide.''))"

definition update_document_scan_state ::
  "'w doc_env \<Rightarrow> doc_model \<Rightarrow> nat \<Rightarrow> scan_status \<Rightarrow> string \<Rightarrow> ('w, 'z) doc_state_scheme \<Rightarrow> ('w, 'z) doc_state_scheme" where
  "update_document_scan_state de m k status message s =
     s\<lparr>ds_documents := (ds_documents s)(m := row_upd k
        (\<lambda>d. d\<lparr>doc_scan_status := status, doc_scan_message := take 255 message,
               doc_scan_updated_at := Some (de_now de)\<rparr>) (ds_documents s m))\<rparr>"

record scan_result =
  sr_selected :: nat
  sr_processed :: nat
  sr_infected :: nat
  sr_failed :: nat

record 'w scan_runner = "'w doc_state" +
  rn_result :: scan_result

definition scan_status_value :: "scan_status \<Rightarrow> string" where
  "scan_status_value st = (case st of
       Scan_Pending \<Rightarrow> ''pending'' | Scan_Clean \<Rightarrow> ''clean'' | Scan_Infected \<Rightarrow> ''infected'' | Scan_Error \<Rightarrow> ''error'')"

text \<open>\<open>{**payload, "scan_status": ..., ...}\<close>.\<close>

definition scanned_payload :: "'w doc_env \<Rightarrow> scan_status \<Rightarrow> string \<Rightarrow> json \<Rightarrow> json" where
  "scanned_payload de status message v = (case v of
       J_Obj m \<Rightarrow> J_Obj (dict_put ''scanned_at'' (J_Str (de_isoformat de (de_now de)))
                    (dict_put ''scan_message'' (J_Str (take 255 message))
                      (dict_put ''scan_status'' (J_Str (scan_status_value status)) m)))
     | _ \<Rightarrow> v)"

text \<open>What the result of a scan makes of the event, its message and the counters.\<close>

definition status_after_scan :: "scan_status \<Rightarrow> event_status" where
  "status_after_scan st = (case st of Scan_Clean \<Rightarrow> Ev_Processed | Scan_Infected \<Rightarrow> Ev_Processed | _ \<Rightarrow> Ev_Failed)"

definition message_after_scan :: "scan_status \<Rightarrow> string \<Rightarrow> string" where
  "message_after_scan st message = (case st of
       Scan_Clean \<Rightarrow> ''''
     | Scan_Infected \<Rightarrow> ''Fichier infect'' @ [CHR 0xE9] @ '': acc'' @ [CHR 0xE8] @ ''s bloqu'' @ [CHR 0xE9] @ ''.''
     | _ \<Rightarrow> take 255 (either message ''Erreur scan antivirus.''))"

definition count_scan :: "scan_status \<Rightarrow> scan_result \<Rightarrow> scan_result" where
  "count_scan st res = (case st of
       Scan_Clean \<Rightarrow> res\<lparr>sr_processed := Suc (sr_processed res)\<rparr>
     | Scan_Infected \<Rightarrow> res\<lparr>sr_infected := Suc (sr_infected res)\<rparr>
     | _ \<Rightarrow> res\<lparr>sr_failed := Suc (sr_failed res)\<rparr>)"

text \<open>
  One round of the loop over the claimed events. The failure to find the document is saved without
  the payload; the payload is a dictionary where a document was found.
\<close>

definition scan_event :: "'w doc_env \<Rightarrow> nat \<times> event \<Rightarrow> 'w scan_runner \<Rightarrow> err option \<times> 'w scan_runner" where
  "scan_event de p s =
     (let payload = py_or (ev_payload (snd p)) (J_Obj []) in
      case resolve_document_instance de (ds_documents s) payload of
        Inl e \<Rightarrow> (Some e, s)
      | Inr (Inl resolution_error) \<Rightarrow>
          (None, s\<lparr>ds_events := row_upd (fst p) (\<lambda>row. row\<lparr>ev_status := Ev_Failed,
                      ev_error_message := resolution_error, ev_processed_at := Some (de_now de)\<rparr>) (ds_events s),
                   rn_result := (rn_result s)\<lparr>sr_failed := Suc (sr_failed (rn_result s))\<rparr>\<rparr>)
      | Inr (Inr (m, k, d)) \<Rightarrow>
          (case scan_uploaded_file de (doc_file d) (ds_world s) of
             (Inl e, w) \<Rightarrow> (Some e, s\<lparr>ds_world := w\<rparr>)
           | (Inr (status, message), w) \<Rightarrow>
               (let s1 = update_document_scan_state de m k status message (s\<lparr>ds_world := w\<rparr>)
                in (None, s1\<lparr>ds_events := row_upd (fst p) (\<lambda>row. row\<lparr>ev_status := status_after_scan status,
                                 ev_error_message := message_after_scan status message,
                                 ev_processed_at := Some (de_now de),
                                 ev_payload := scanned_payload de status message payload\<rparr>) (ds_events s1),
                             rn_result := count_scan status (rn_result s1)\<rparr>))))"

section \<open>The run\<close>

fun claim_each ::
  "int \<Rightarrow> event_status list \<Rightarrow> int \<Rightarrow> (nat \<times> event) list \<Rightarrow> event table \<times> (nat \<times> event) list
     \<Rightarrow> event table \<times> (nat \<times> event) list" where
  "claim_each now statuses stale_before [] a = a"
| "claim_each now statuses stale_before (p # ps) (t, picked) =
     (case claim_queue_event now in_scan_queue statuses stale_before (fst p) t of
        (n, t') \<Rightarrow> claim_each now statuses stale_before ps
                     (t', if n = 0 then picked else picked @ [(fst p, (snd p)\<lparr>ev_status := Ev_Processing\<rparr>)]))"

definition scan_selector :: "event_status list \<Rightarrow> int \<Rightarrow> nat \<Rightarrow> event table \<Rightarrow> (nat \<times> event) list" where
  "scan_selector statuses stale_before limit t =
     take limit (sort_key position
       (rows_where (\<lambda>k ev. in_scan_queue ev \<and> claimable statuses stale_before ev) t))"

definition process_document_scan_queue ::
  "'w doc_env \<Rightarrow> json \<Rightarrow> bool \<Rightarrow> json \<Rightarrow> 'w doc_state \<Rightarrow> (err + scan_result) \<times> 'w doc_state" where
  "process_document_scan_queue de limit include_failed timeout s =
     (let statuses = candidate_statuses include_failed;
          stale_before = de_now de - 1000000 * processing_timeout_seconds de timeout;
          selector = scan_selector statuses stale_before (nat (safe_int limit 100 1)) (ds_events s)
      in case claim_each (de_now de) statuses stale_before selector (ds_events s, []) of
           (events, picked) \<Rightarrow>
             (case run_each (scan_event de) picked
                     \<lparr>ds_documents = ds_documents s, ds_events = events, ds_world = ds_world s,
                      rn_result = \<lparr>sr_selected = length picked, sr_processed = 0, sr_infected = 0, sr_failed = 0\<rparr>\<rparr> of
                (r, run) \<Rightarrow>
                  ((case r of Some e \<Rightarrow> Inl e | None \<Rightarrow> Inr (rn_result run)),
                   \<lparr>ds_documents = ds_documents run, ds_events = ds_events run, ds_world = ds_world run\<rparr>)))"

end
