(* ===== verification/Document_Facts.thy ===== *)
theory Document_Facts
  imports Documents
begin

text \<open>
  The scan queue keeps the contract of a queue; only a scan makes a document clean; every request on
  documents keeps the queue well formed.
\<close>

section \<open>A round of the scanner\<close>

lemma scan_uploaded_raise:
  assumes "scan_uploaded_file de file w = (Inl e, w')"
  shows "w' = w" and "\<exists>path. de_path_exists de path w = Inl e"
  using assms
  by (auto simp: scan_uploaded_file_def split: if_splits option.splits sum.splits prod.splits bool.splits)

lemma scan_event_cases:
  assumes "scan_event de (k, ev) s = (r, s')"
  obtains (raised) e where "resolve_document_instance de (ds_documents s) (py_or (ev_payload ev) (J_Obj [])) = Inl e"
      "r = Some e" "s' = s"
    | (missing) msg where
      "resolve_document_instance de (ds_documents s) (py_or (ev_payload ev) (J_Obj [])) = Inr (Inl msg)"
      "r = None" "ds_documents s' = ds_documents s" "ds_world s' = ds_world s"
      "ds_events s' = row_upd k (\<lambda>row. row\<lparr>ev_status := Ev_Failed, ev_error_message := msg,
          ev_processed_at := Some (de_now de)\<rparr>) (ds_events s)"
      "rn_result s' = (rn_result s)\<lparr>sr_failed := Suc (sr_failed (rn_result s))\<rparr>"
    | (unreadable) m j d e where
      "resolve_document_instance de (ds_documents s) (py_or (ev_payload ev) (J_Obj [])) = Inr (Inr (m, j, d))"
      "fst (scan_uploaded_file de (doc_file d) (ds_world s)) = Inl e" "r = Some e" "s' = s"
    | (scanned) m j d status message w payload where
      "resolve_document_instance de (ds_documents s) (py_or (ev_payload ev) (J_Obj [])) = Inr (Inr (m, j, d))"
      "scan_uploaded_file de (doc_file d) (ds_world s) = (Inr (status, message), w)" "r = None"
      "ds_documents s' = (ds_documents s)(m := row_upd j (\<lambda>d. d\<lparr>doc_scan_status := status,
          doc_scan_message := take 255 message, doc_scan_updated_at := Some (de_now de)\<rparr>) (ds_documents s m))"
      "ds_events s' = row_upd k (\<lambda>row. row\<lparr>ev_status := status_after_scan status,
          ev_error_message := message_after_scan status message,
          ev_processed_at := Some (de_now de), ev_payload := payload\<rparr>) (ds_events s)"
      "rn_result s' = count_scan status (rn_result s)"
      "payload = scanned_payload de status message (py_or (ev_payload ev) (J_Obj []))"
proof (cases "resolve_document_instance de (ds_documents s) (py_or (ev_payload ev) (J_Obj []))")
  case (Inl e)
  with assms show ?thesis by (intro raised) (auto simp: scan_event_def)
next
  case (Inr x)
  show ?thesis
  proof (cases x)
    case (Inl msg)
    with Inr assms show ?thesis by (intro missing [of msg]) (auto simp: scan_event_def)
  next
    case (Inr y)
    obtain m j d where y: "y = (m, j, d)" by (cases y)
    from \<open>resolve_document_instance _ _ _ = Inr x\<close> Inr y
    have res: "resolve_document_instance de (ds_documents s) (py_or (ev_payload ev) (J_Obj [])) = Inr (Inr (m, j, d))"
      by simp
    obtain z w where z: "scan_uploaded_file de (doc_file d) (ds_world s) = (z, w)" by fastforce
    show ?thesis
    proof (cases z)
      case (Inl e)
      have "w = ds_world s" using scan_uploaded_raise z Inl by metis
      with assms res z Inl show ?thesis by (intro unreadable [OF res, of e]) (auto simp: scan_event_def)
    next
    case (Inr answer)
    obtain status message where scan: "scan_uploaded_file de (doc_file d) (ds_world s) = (Inr (status, message), w)"
      using z Inr by (cases answer) simp
    from assms res scan have "r = None" and
      "s' = s\<lparr>ds_world := w, ds_documents := (ds_documents s)(m := row_upd j (\<lambda>d. d\<lparr>doc_scan_status := status,
          doc_scan_message := take 255 message, doc_scan_updated_at := Some (de_now de)\<rparr>) (ds_documents s m)),
        ds_events := row_upd k (\<lambda>row. row\<lparr>ev_status := status_after_scan status,
          ev_error_message := message_after_scan status message, ev_processed_at := Some (de_now de),
          ev_payload := scanned_payload de status message (py_or (ev_payload ev) (J_Obj []))\<rparr>) (ds_events s),
        rn_result := count_scan status (rn_result s)\<rparr>"
      by (simp_all add: scan_event_def update_document_scan_state_def)
    then show ?thesis
      by (intro scanned [OF res scan, of "scanned_payload de status message (py_or (ev_payload ev) (J_Obj []))"]) simp_all
    qed
  qed
qed

interpretation scanq: queue_handler "scan_event de" ds_events for de :: "'w doc_env"
proof unfold_locales
  fix k j ev r and s s' :: "'w scan_runner"
  assume "scan_event de (k, ev) s = (r, s')" and "j \<noteq> k"
  then show "row_get (ds_events s') j = row_get (ds_events s) j"
    by (cases rule: scan_event_cases) (simp_all add: rows.get_upd)
next
  fix k ev row and s s' :: "'w scan_runner"
  assume "scan_event de (k, ev) s = (None, s')" and "row_get (ds_events s) k = Some row"
  then show "\<exists>row'. row_get (ds_events s') k = Some row' \<and> ev_status row' \<noteq> Ev_Processing"
    by (cases rule: scan_event_cases) (simp_all add: rows.get_upd status_after_scan_def split: scan_status.split)
next
  fix k ev e and s s' :: "'w scan_runner"
  assume "scan_event de (k, ev) s = (Some e, s')"
  then show "ds_events s' = ds_events s"
    by (cases rule: scan_event_cases) simp_all
qed

lemma scan_not_pending: "scan_uploaded_file de file w = (Inr (status, message), w') \<Longrightarrow> status \<noteq> Scan_Pending"
  by (auto simp: scan_uploaded_file_def scan_file_with_clamav_def Let_def split: if_splits option.splits prod.splits scan_run.splits sum.splits bool.splits)

section \<open>A file is clean only by a scan\<close>

text \<open>The scanner answers 0 for the stored file \<open>name\<close> only if the file is good.\<close>

definition scanner_sound :: "'w doc_env \<Rightarrow> (string \<Rightarrow> bool) \<Rightarrow> bool" where
  "scanner_sound de good \<longleftrightarrow> scan_backend de \<noteq> ''noop'' \<and>
     (\<forall>name path t out err w w'. de_file_path de name w = Some path \<longrightarrow>
        de_run_scanner de [clamav_command de, ''--no-summary'', path] t w = (Scan_Completed 0 out err, w') \<longrightarrow>
        good name)"

definition clean_files_good :: "(string \<Rightarrow> bool) \<Rightarrow> ('w, 'z) doc_state_scheme \<Rightarrow> bool" where
  "clean_files_good good s \<longleftrightarrow>
     (\<forall>m. keys_ok (ds_documents s m)
        \<and> (\<forall>k d. row_get (ds_documents s m) k = Some d \<longrightarrow> doc_scan_status d = Scan_Clean \<longrightarrow> good (doc_file d)))"

lemma clean_scan_good:
  assumes "scanner_sound de good" and "scan_uploaded_file de file w = (Inr (Scan_Clean, message), w')"
  shows "good file"
proof -
  have backend: "scan_backend de \<noteq> ''noop''" using assms(1) by (simp add: scanner_sound_def)
  with assms(2) obtain path out err where "de_file_path de file w = Some path"
    "de_run_scanner de [clamav_command de, ''--no-summary'', path] (scan_timeout_seconds de) w
       = (Scan_Completed 0 out err, w')"
    by (auto simp: scan_uploaded_file_def scan_file_with_clamav_def Let_def
        split: if_splits option.splits prod.splits scan_run.splits sum.splits bool.splits)
  with assms(1) show ?thesis unfolding scanner_sound_def by blast
qed

lemma clean_files_docs:
  "ds_documents s = ds_documents t \<Longrightarrow> clean_files_good good s = clean_files_good good t"
  by (simp add: clean_files_good_def)

lemma clean_files_upd:
  assumes "clean_files_good good s" and "ds_documents t = (ds_documents s)(m := row_upd k f (ds_documents s m))"
    and "\<And>d. row_get (ds_documents s m) k = Some d \<Longrightarrow> doc_scan_status (f d) = Scan_Clean \<Longrightarrow> good (doc_file (f d))"
  shows "clean_files_good good t"
  using assms by (auto simp: clean_files_good_def rows.get_upd keys_ok_upd keys_ok_upd split: if_splits)

lemma clean_files_ins:
  assumes "clean_files_good good s" and "ds_documents t = (ds_documents s)(m := row_ins d (ds_documents s m))"
    and "doc_scan_status d = Scan_Clean \<Longrightarrow> good (doc_file d)"
  shows "clean_files_good good t"
  using assms by (auto simp: clean_files_good_def rows.get_ins keys_ok_ins split: if_splits)

lemma resolve_document_row:
  assumes "resolve_document_instance de docs v = Inr (Inr (m, j, d))"
  shows "row_get (docs m) j = Some d"
  using assms
  by (auto simp: resolve_document_instance_def Let_def wms_ok split: json.splits if_splits option.splits)

lemma scan_event_clean:
  assumes "scan_event de p s = (r, s')" and "scanner_sound de good" and "clean_files_good good s"
  shows "clean_files_good good s'"
proof -
  obtain k ev where p: "p = (k, ev)" by (cases p)
  from assms(1) [unfolded p] show ?thesis
  proof (cases rule: scan_event_cases)
    case raised
    with assms(3) show ?thesis by simp
  next
    case unreadable
    with assms(3) show ?thesis by simp
  next
    case missing
    with assms(3) show ?thesis using clean_files_docs by metis
  next
    case (scanned m j d status message w payload)
    show ?thesis
    proof (rule clean_files_upd [OF assms(3) scanned(4)])
      fix d'
      assume "row_get (ds_documents s m) j = Some d'"
        and st: "doc_scan_status (d'\<lparr>doc_scan_status := status, doc_scan_message := take 255 message,
          doc_scan_updated_at := Some (de_now de)\<rparr>) = Scan_Clean"
      with resolve_document_row [OF scanned(1)] have "d' = d" by simp
      with st scanned(2) assms(2) show "good (doc_file (d'\<lparr>doc_scan_status := status,
          doc_scan_message := take 255 message, doc_scan_updated_at := Some (de_now de)\<rparr>))"
        using clean_scan_good by fastforce
    qed
  qed
qed

lemma process_scan_clean:
  assumes "scanner_sound de good" and "clean_files_good good s"
  shows "clean_files_good good (snd (process_document_scan_queue de limit include_failed timeout s))"
proof -
  obtain events picked where c: "claim_each (de_now de) (candidate_statuses include_failed)
      (de_now de - 1000000 * processing_timeout_seconds de timeout)
      (scan_selector (candidate_statuses include_failed) (de_now de - 1000000 * processing_timeout_seconds de timeout)
        (nat (safe_int limit 100 1)) (ds_events s)) (ds_events s, []) = (events, picked)"
    by fastforce
  define s0 where "s0 = \<lparr>ds_documents = ds_documents s, ds_events = events, ds_world = ds_world s,
      rn_result = \<lparr>sr_selected = length picked, sr_processed = 0, sr_infected = 0, sr_failed = 0\<rparr>\<rparr>"
  obtain r run where run: "run_each (scan_event de) picked s0 = (r, run)" by fastforce
  have "clean_files_good good s0" using assms(2) by (simp add: s0_def clean_files_good_def)
  with run have "clean_files_good good run"
    by (rule run_each_inv) (use scan_event_clean assms(1) in blast)
  then show ?thesis
    by (simp add: process_document_scan_queue_def Let_def c run s0_def [symmetric] clean_files_good_def)
qed

lemma create_document_clean:
  assumes "clean_files_good good s"
  shows "clean_files_good good (create_document de m owner request dt f s)"
proof -
  have same: "ds_documents (snd (queue_document_scan de m k t)) = ds_documents t" for k t
    by (auto simp: queue_document_scan_def split: option.split)
  obtain name w where store: "de_store de m f (ds_world s) = (name, w)" by fastforce
  show ?thesis
    by (rule clean_files_ins [OF assms, where d = "\<lparr>doc_owner = owner, doc_request = request, doc_type = dt,
          doc_file = name, doc_scan_status = Scan_Pending, doc_scan_message = ''Scan antivirus en cours.'',
          doc_scan_updated_at = None, doc_uploaded_at = de_now de\<rparr>" and m = m])
       (simp_all add: create_document_def store Let_def same)
qed

lemma upload_each_clean:
  "clean_files_good good s \<Longrightarrow> upload_each de m owner files types replies created s = (replies', created', s')
     \<Longrightarrow> clean_files_good good s'"
  by (induction types arbitrary: replies created s)
     (auto split: option.splits intro: create_document_clean)

lemma attach_documents_clean:
  fixes s :: "'w doc_state" and de :: "'w doc_env"
  assumes "clean_files_good good s"
  shows "clean_files_good good (attach_order_documents_to_shipment de order shipment s)"
proof -
  define docs where "docs = sort_key (\<lambda>p. - doc_uploaded_at (snd p))
      (rows_where (\<lambda>k d. doc_owner d = Some order \<and> doc_type d \<in> set [''donation_attestation'', ''humanitarian_attestation''])
        (ds_documents s Order_Document))"
  define existing where "existing = map (doc_file \<circ> snd)
      (rows_where (\<lambda>k d. doc_owner d = Some shipment \<and> doc_type d = ''additional'') (ds_documents s Shipment_Document))"
  define f :: "nat \<times> document \<Rightarrow> 'w doc_state \<Rightarrow> 'w doc_state" where "f = (\<lambda>(k, d) s.
           if doc_file d = [] \<or> \<not> is_scan_clean d \<or> doc_file d \<in> set existing then s
           else s\<lparr>ds_documents := (ds_documents s)(Shipment_Document := row_ins
                    \<lparr>doc_owner = Some shipment, doc_request = None, doc_type = ''additional'', doc_file = doc_file d,
                     doc_scan_status = Scan_Clean, doc_scan_message = '''', doc_scan_updated_at = None,
                     doc_uploaded_at = de_now de\<rparr> (ds_documents s Shipment_Document))\<rparr>)"
  have good: "good (doc_file d)" if "(k, d) \<in> set docs" and "is_scan_clean d" for k d
  proof -
    from that(1) have "(k, d) \<in> set (ds_documents s Order_Document)" by (simp add: docs_def rows_where_mem)
    with assms have "row_get (ds_documents s Order_Document) k = Some d"
      by (simp add: clean_files_good_def row_get_iff)
    with assms that(2) show ?thesis by (simp add: clean_files_good_def is_scan_clean_def)
  qed
  have step: "clean_files_good good (f p t)" if "p \<in> set docs" and "clean_files_good good t" for p t
  proof (cases "doc_file (snd p) = [] \<or> \<not> is_scan_clean (snd p) \<or> doc_file (snd p) \<in> set existing")
    case True
    then have "f p t = t" by (simp add: f_def case_prod_beta)
    with that(2) show ?thesis by simp
  next
    case False
    let ?d = "\<lparr>doc_owner = Some shipment, doc_request = None, doc_type = ''additional'', doc_file = doc_file (snd p),
        doc_scan_status = Scan_Clean, doc_scan_message = '''', doc_scan_updated_at = None,
        doc_uploaded_at = de_now de\<rparr>"
    show ?thesis
      by (rule clean_files_ins [OF that(2), where m = Shipment_Document and d = ?d])
         (use False good [of "fst p" "snd p"] that(1) in \<open>simp_all add: f_def case_prod_beta\<close>)
  qed
  have "clean_files_good good (fold f ps t)" if "set ps \<subseteq> set docs" and "clean_files_good good t" for ps t
    using that by (induction ps arbitrary: t) (auto intro: step)
  with assms have "clean_files_good good (fold f docs s)" by blast
  then show ?thesis by (simp add: attach_order_documents_to_shipment_def Let_def docs_def existing_def f_def)
qed

section \<open>The queue the uploads fill\<close>

text \<open>A label names its model, as Django's registry has it.\<close>

definition registry_ok :: "'w doc_env \<Rightarrow> bool" where
  "registry_ok de \<longleftrightarrow> (\<forall>m. de_label de m \<noteq> [] \<and> strip (de_label de m) = de_label de m
     \<and> de_get_model de (de_label de m) = Some m)"

definition scan_payload_ok :: "'w doc_env \<Rightarrow> doc_model \<Rightarrow> nat \<Rightarrow> json \<Rightarrow> bool" where
  "scan_payload_ok de m n v \<longleftrightarrow>
     (\<exists>payload. v = J_Obj payload \<and> obj_get payload ''model'' = J_Str (de_label de m) \<and> obj_get payload ''pk'' = J_Int (int n))"

definition scan_queue_ok :: "'w doc_env \<Rightarrow> event table \<Rightarrow> bool" where
  "scan_queue_ok de t \<longleftrightarrow> keys_ok t \<and>
     (\<forall>k ev. row_get t k = Some ev \<longrightarrow> in_scan_queue ev \<longrightarrow> (\<exists>m n. scan_payload_ok de m n (ev_payload ev)))"

lemma scan_payload_truthy:
  assumes "scan_payload_ok de m n v"
  shows "py_or v (J_Obj []) = v"
  using assms by (auto simp: scan_payload_ok_def py_or_def obj_get_def)

lemma resolve_scan_payload:
  assumes "registry_ok de" and "scan_payload_ok de m n v"
  shows "\<exists>msg. resolve_document_instance de docs v =
    Inr (case row_get (docs m) n of None \<Rightarrow> Inl msg | Some d \<Rightarrow> Inr (m, n, d))"
proof -
  from assms(2) obtain payload where payload: "v = J_Obj payload"
      "obj_get payload ''model'' = J_Str (de_label de m)" "obj_get payload ''pk'' = J_Int (int n)"
    by (auto simp: scan_payload_ok_def)
  have label: "de_label de m \<noteq> []" "strip (de_label de m) = de_label de m" "de_get_model de (de_label de m) = Some m"
    using assms(1) by (simp_all add: registry_ok_def)
  show ?thesis
    by (cases "row_get (docs m) n")
       (simp_all add: resolve_document_instance_def payload label py_or_def resolve_pk_def)
qed

lemma scanned_payload_ok:
  "scan_payload_ok de m n v \<Longrightarrow> scan_payload_ok de m n (scanned_payload de status message v)"
  by (auto simp: scan_payload_ok_def scanned_payload_def)

lemma scan_queue_ok_upd:
  assumes "scan_queue_ok de t"
    and "\<And>row. ev_direction (f row) = ev_direction row \<and> ev_source (f row) = ev_source row \<and> ev_event_type (f row) = ev_event_type row"
    and "\<And>row. ev_payload (f row) = ev_payload row \<or> (\<exists>m n. scan_payload_ok de m n (ev_payload (f row)))"
  shows "scan_queue_ok de (row_upd k f t)"
  unfolding scan_queue_ok_def
proof (intro conjI allI impI)
  show "keys_ok (row_upd k f t)" using assms(1) by (simp add: scan_queue_ok_def keys_ok_upd)
next
  fix j row
  assume row: "row_get (row_upd k f t) j = Some row" and inq: "in_scan_queue row"
  then obtain old where old: "row_get t j = Some old" "row = (if j = k then f old else old)"
    by (auto simp: rows.get_upd split: if_splits)
  then have "in_scan_queue old" using inq assms(2) [of old] by (auto simp: in_scan_queue_def split: if_splits)
  with old(1) assms(1) obtain m n where "scan_payload_ok de m n (ev_payload old)"
    unfolding scan_queue_ok_def by blast
  then show "\<exists>m n. scan_payload_ok de m n (ev_payload row)"
    using old(2) assms(3) [of old] by (cases "j = k"; simp; metis)
qed

lemma scan_queue_ok_claim_rows:
  assumes "scan_queue_ok de t"
  shows "scan_queue_ok de (claim_rows now ks t)"
  using assms
  by (auto simp: scan_queue_ok_def keys_ok_def claim_rows_def comp_def case_prod_beta row_get_map
      claimed_def in_scan_queue_def)

lemma claim_each_rows:
  assumes "distinct (ks @ map fst ps)"
    and "\<And>p. p \<in> set ps \<Longrightarrow> row_get t (fst p) = Some (snd p) \<and> in_scan_queue (snd p) \<and> claimable statuses stale (snd p)"
  shows "claim_each now statuses stale ps (claim_rows now ks t, picked)
    = (claim_rows now (ks @ map fst ps) t, picked @ map marked ps)"
  using assms
proof (induction ps arbitrary: ks picked)
  case Nil
  then show ?case by simp
next
  case (Cons p ps)
  have "claim_queue_event now in_scan_queue statuses stale (fst p) (claim_rows now ks t)
      = (1, claim_rows now (ks @ [fst p]) t)"
    using Cons.prems(1) Cons.prems(2) [of p] by (intro claim_rows_step) auto
  moreover have "claim_each now statuses stale ps (claim_rows now (ks @ [fst p]) t, picked @ [marked p])
      = (claim_rows now ((ks @ [fst p]) @ map fst ps) t, (picked @ [marked p]) @ map marked ps)"
    using Cons.prems by (intro Cons.IH) auto
  ultimately show ?case by (simp add: marked_def)
qed

text \<open>The events a run takes.\<close>

definition scan_due :: "'w doc_env \<Rightarrow> json \<Rightarrow> bool \<Rightarrow> json \<Rightarrow> event table \<Rightarrow> (nat \<times> event) list" where
  "scan_due de limit include_failed timeout t =
     scan_selector (candidate_statuses include_failed)
       (de_now de - 1000000 * processing_timeout_seconds de timeout) (nat (safe_int limit 100 1)) t"

lemma scan_due_facts:
  assumes "keys_ok t"
  shows "distinct (map fst (scan_due de limit include_failed timeout t))"
    and "p \<in> set (scan_due de limit include_failed timeout t) \<Longrightarrow>
      row_get t (fst p) = Some (snd p) \<and> in_scan_queue (snd p)
      \<and> claimable (candidate_statuses include_failed) (de_now de - 1000000 * processing_timeout_seconds de timeout) (snd p)"
proof -
  show "distinct (map fst (scan_due de limit include_failed timeout t))"
    unfolding scan_due_def scan_selector_def take_map [symmetric]
    by (intro distinct_take selected_rows(1) [OF assms])
next
  assume "p \<in> set (scan_due de limit include_failed timeout t)"
  then have "p \<in> set (sort_key position (rows_where (\<lambda>k ev. in_scan_queue ev
      \<and> claimable (candidate_statuses include_failed) (de_now de - 1000000 * processing_timeout_seconds de timeout) ev) t))"
    unfolding scan_due_def scan_selector_def by (rule in_set_takeD)
  then show "row_get t (fst p) = Some (snd p) \<and> in_scan_queue (snd p)
      \<and> claimable (candidate_statuses include_failed) (de_now de - 1000000 * processing_timeout_seconds de timeout) (snd p)"
    by (simp only: selected_rows(2) [OF assms])
qed

lemma process_scan_run:
  assumes "keys_ok (ds_events s)" and "due = scan_due de limit include_failed timeout (ds_events s)"
  shows "process_document_scan_queue de limit include_failed timeout s =
    (case run_each (scan_event de) (map marked due)
            \<lparr>ds_documents = ds_documents s, ds_events = claim_rows (de_now de) (map fst due) (ds_events s),
             ds_world = ds_world s,
             rn_result = \<lparr>sr_selected = length due, sr_processed = 0, sr_infected = 0, sr_failed = 0\<rparr>\<rparr> of
       (r, run) \<Rightarrow>
         ((case r of Some e \<Rightarrow> Inl e | None \<Rightarrow> Inr (rn_result run)),
          \<lparr>ds_documents = ds_documents run, ds_events = ds_events run, ds_world = ds_world run\<rparr>))"
proof -
  have "claim_each (de_now de) (candidate_statuses include_failed)
      (de_now de - 1000000 * processing_timeout_seconds de timeout) due (claim_rows (de_now de) [] (ds_events s), [])
      = (claim_rows (de_now de) ([] @ map fst due) (ds_events s), [] @ map marked due)"
  proof (rule claim_each_rows)
    show "distinct ([] @ map fst due)" using scan_due_facts(1) [OF assms(1)] assms(2) by simp
  qed (use scan_due_facts(2) [OF assms(1)] assms(2) in blast)
  then show ?thesis
    by (simp add: process_document_scan_queue_def Let_def assms(2) scan_due_def)
qed

section \<open>One round keeps the queue, and settles its document\<close>

lemma scan_event_keeps_queue:
  assumes "scan_event de (k, ev) s = (r, s')" and "scan_queue_ok de (ds_events s)"
    and "scan_payload_ok de m n (ev_payload ev)"
  shows "scan_queue_ok de (ds_events s')"
  using assms(1)
proof (cases rule: scan_event_cases)
  case raised
  with assms(2) show ?thesis by simp
next
  case unreadable
  with assms(2) show ?thesis by simp
next
  case missing
  with assms(2) show ?thesis by (simp add: scan_queue_ok_upd)
next
  case (scanned m' j d status message w payload)
  have "scan_payload_ok de m n payload"
    unfolding scanned(7) scan_payload_truthy [OF assms(3)] by (rule scanned_payload_ok [OF assms(3)])
  then show ?thesis unfolding scanned(5) by (intro scan_queue_ok_upd [OF assms(2)]) auto
qed

text \<open>A round raises only where the question whether the file exists does.\<close>

lemma scan_event_raises:
  assumes "scan_event de (k, ev) s = (Some e, s')" and "registry_ok de" and "scan_payload_ok de m n (ev_payload ev)"
  shows "\<exists>path w. de_path_exists de path w = Inl e"
proof -
  obtain msg where "resolve_document_instance de (ds_documents s) (ev_payload ev) =
      Inr (case row_get (ds_documents s m) n of None \<Rightarrow> Inl msg | Some d \<Rightarrow> Inr (m, n, d))"
    using resolve_scan_payload [OF assms(2,3)] by blast
  then have "\<nexists>e. resolve_document_instance de (ds_documents s) (py_or (ev_payload ev) (J_Obj [])) = Inl e"
    by (simp add: scan_payload_truthy [OF assms(3)])
  with assms(1) show ?thesis
  proof (cases rule: scan_event_cases)
    case (unreadable m j d e')
    then obtain w where "scan_uploaded_file de (doc_file d) (ds_world s) = (Inl e, w)"
      by (metis option.inject prod.collapse)
    from scan_uploaded_raise(2) [OF this] show ?thesis by blast
  qed simp_all
qed

text \<open>A document that has been scanned never waits for a scan again.\<close>

definition scan_settled :: "('w, 'z) doc_state_scheme \<Rightarrow> doc_model \<Rightarrow> nat \<Rightarrow> bool" where
  "scan_settled s m n \<longleftrightarrow>
     (case row_get (ds_documents s m) n of None \<Rightarrow> True | Some d \<Rightarrow> doc_scan_status d \<noteq> Scan_Pending)"

lemma scan_event_settled:
  assumes "scan_event de p s = (r, s')" and "scan_settled s m n"
  shows "scan_settled s' m n"
proof -
  obtain k ev where p: "p = (k, ev)" by (cases p)
  from assms(1) [unfolded p] show ?thesis
  proof (cases rule: scan_event_cases)
    case (scanned m' j d status message w payload)
    with scan_not_pending [OF scanned(2)] assms(2) show ?thesis
      by (auto simp: scan_settled_def rows.get_upd split: option.splits if_splits)
  qed (use assms(2) in \<open>simp_all add: scan_settled_def\<close>)
qed

lemma scan_event_settles:
  assumes "scan_event de (k, ev) s = (None, s')" and "registry_ok de" and "scan_payload_ok de m n (ev_payload ev)"
  shows "scan_settled s' m n"
proof -
  obtain msg where res: "resolve_document_instance de (ds_documents s) (py_or (ev_payload ev) (J_Obj [])) =
      Inr (case row_get (ds_documents s m) n of None \<Rightarrow> Inl msg | Some d \<Rightarrow> Inr (m, n, d))"
    using resolve_scan_payload [OF assms(2,3)] scan_payload_truthy [OF assms(3)] by metis
  from assms(1) show ?thesis
  proof (cases rule: scan_event_cases)
    case missing
    with res show ?thesis by (cases "row_get (ds_documents s m) n") (simp_all add: scan_settled_def)
  next
    case (scanned m' j d status message w payload)
    with res have "m' = m" and "j = n" by (cases "row_get (ds_documents s m) n"; simp)+
    with scanned(4) scan_not_pending [OF scanned(2)] show ?thesis
      by (auto simp: scan_settled_def rows.get_upd split: option.splits)
  qed simp_all
qed

lemma scan_event_counts:
  assumes "scan_event de p s = (None, s')"
  shows "sr_selected (rn_result s') = sr_selected (rn_result s)
    \<and> sr_processed (rn_result s') + sr_infected (rn_result s') + sr_failed (rn_result s')
      = Suc (sr_processed (rn_result s) + sr_infected (rn_result s) + sr_failed (rn_result s))"
proof -
  obtain k ev where p: "p = (k, ev)" by (cases p)
  from assms [unfolded p] show ?thesis
    by (cases rule: scan_event_cases) (auto simp: count_scan_def split: scan_status.split)
qed

lemma scan_run_settles:
  assumes "run_each (scan_event de) picked s = (None, s')" and "registry_ok de"
    and "\<forall>p \<in> set picked. \<exists>m n. scan_payload_ok de m n (ev_payload (snd p))"
  shows "sr_selected (rn_result s') = sr_selected (rn_result s)
    \<and> sr_processed (rn_result s') + sr_infected (rn_result s') + sr_failed (rn_result s')
      = sr_processed (rn_result s) + sr_infected (rn_result s) + sr_failed (rn_result s) + length picked
    \<and> (\<forall>m n. scan_settled s m n \<longrightarrow> scan_settled s' m n)
    \<and> (\<forall>k ev m n. (k, ev) \<in> set picked \<longrightarrow> scan_payload_ok de m n (ev_payload ev) \<longrightarrow> scan_settled s' m n)"
  using assms
proof (induction picked arbitrary: s)
  case Nil
  then show ?case by simp
next
  case (Cons p picked)
  obtain k ev where p: "p = (k, ev)" by (cases p)
  from Cons.prems(1) obtain t where t: "scan_event de p s = (None, t)" "run_each (scan_event de) picked t = (None, s')"
    by (elim run_each_Cons) auto
  have "\<forall>p \<in> set picked. \<exists>m n. scan_payload_ok de m n (ev_payload (snd p))"
    using Cons.prems(3) by simp
  note IH = Cons.IH [OF t(2) assms(2) this]
  from IH have later: "scan_settled t m n \<Longrightarrow> scan_settled s' m n" for m n by blast
  have "scan_settled s' m n" if "scan_settled s m n" for m n
    using later scan_event_settled [OF t(1) that] .
  moreover have "scan_settled s' m n" if "scan_payload_ok de m n (ev_payload ev)" for m n
    using later scan_event_settles [OF _ assms(2) that] t(1) p by blast
  ultimately show ?case using IH scan_event_counts [OF t(1)] p by auto
qed

section \<open>The requests on documents\<close>

datatype doc_action =
    Up_Shipment db nat "upload option"
  | Up_Api db nat "upload option"
  | Delete_Page db nat nat
  | Delete_Api db nat nat
  | Up_Account nat string "upload option"
  | Up_Account_Files nat "string \<Rightarrow> upload option"
  | Up_Order db nat string "upload option"
  | Up_Order_Files db nat "string \<Rightarrow> upload option"
  | Up_Account_Request nat "nat option" "(string \<times> upload) list"
  | Scan_Run json bool json
  | Attach nat nat

text \<open>A request at an instant; the replies are dropped, and a run that raises keeps its writes.\<close>

definition doc_step :: "'w doc_env \<Rightarrow> int \<times> doc_action \<Rightarrow> 'w doc_state \<Rightarrow> 'w doc_state" where
  "doc_step de0 p s =
     (let de = de0\<lparr>de_now := fst p\<rparr> in case snd p of
        Up_Shipment d shipment f \<Rightarrow> snd (handle_shipment_document_upload de d shipment f s)
      | Up_Api d shipment f \<Rightarrow> snd (api_shipment_document_upload de d shipment f s)
      | Delete_Page d shipment k \<Rightarrow> snd (handle_shipment_document_delete de d shipment k s)
      | Delete_Api d shipment k \<Rightarrow> snd (api_shipment_document_delete de d shipment k s)
      | Up_Account association dt f \<Rightarrow> snd (handle_account_document_upload de association dt f s)
      | Up_Account_Files association files \<Rightarrow> snd (handle_account_document_uploads de association files s)
      | Up_Order d order dt f \<Rightarrow> snd (handle_order_document_upload de d order dt f s)
      | Up_Order_Files d order files \<Rightarrow> snd (handle_order_document_uploads de d order files s)
      | Up_Account_Request request contact uploads \<Rightarrow> create_account_request_documents de request contact uploads s
      | Scan_Run limit include_failed timeout \<Rightarrow> snd (process_document_scan_queue de limit include_failed timeout s)
      | Attach order shipment \<Rightarrow> attach_order_documents_to_shipment de order shipment s)"

text \<open>Every upload request but the one of the API comes to a series of document creations.\<close>

inductive created :: "'w doc_env \<Rightarrow> 'w doc_state \<Rightarrow> 'w doc_state \<Rightarrow> bool" for de where
  created_none: "created de s s"
| created_more: "created de s t \<Longrightarrow> created de s (create_document de m owner request dt f t)"

lemma created_one: "created de s (create_document de m owner request dt f s)"
  by (rule created_more [OF created_none])

lemma created_keeps:
  "created de s t \<Longrightarrow> P s \<Longrightarrow> (\<And>m owner request dt f u. P u \<Longrightarrow> P (create_document de m owner request dt f u)) \<Longrightarrow> P t"
  by (induction rule: created.induct) auto

lemma created_trans: "created de t u \<Longrightarrow> created de s t \<Longrightarrow> created de s u"
  by (induction rule: created.induct) (auto intro: created.intros)

lemma created_upload_each:
  "upload_each de m owner files types replies n s = (replies', n', s') \<Longrightarrow> created de s s'"
proof (induction types arbitrary: replies n s)
  case Nil
  then show ?case by (simp add: created_none)
next
  case (Cons dt types)
  show ?case
  proof (cases "files dt")
    case None
    with Cons show ?thesis by simp
  next
    case (Some f)
    show ?thesis
    proof (cases "validate_upload f")
      case None
      with Some Cons.prems have "upload_each de m owner files types replies (Suc n)
          (create_document de m (Some owner) None dt f s) = (replies', n', s')" by simp
      from created_trans [OF Cons.IH [OF this] created_one] show ?thesis .
    next
      case (Some e)
      with \<open>files dt = _\<close> Cons show ?thesis by simp
    qed
  qed
qed

lemma created_request:
  "created de s (create_account_request_documents de request contact uploads s)"
proof -
  have "created de s (fold (\<lambda>(dt, f). create_document de Account_Document contact (Some request) dt f) uploads t)"
    if "created de s t" for t
    using that by (induction uploads arbitrary: t) (auto intro: created_more)
  then show ?thesis by (simp add: create_account_request_documents_def created_none)
qed

text \<open>
  A property of the state that creations, uploads of the API, deletions, scans and attachments keep is
  kept by every request.
\<close>

lemma doc_step_keeps:
  fixes de0 :: "'w doc_env"
  assumes "P s"
    and "\<And>m owner request dt f s. P s \<Longrightarrow> P (create_document (de0\<lparr>de_now := fst p\<rparr>) m owner request dt f s)"
    and "\<And>limit include_failed timeout s. P s \<Longrightarrow>
      P (snd (process_document_scan_queue (de0\<lparr>de_now := fst p\<rparr>) limit include_failed timeout s))"
    and "\<And>order shipment s. P s \<Longrightarrow> P (attach_order_documents_to_shipment (de0\<lparr>de_now := fst p\<rparr>) order shipment s)"
    and "\<And>d shipment f. snd p = Up_Api d shipment f \<Longrightarrow>
      P (snd (api_shipment_document_upload (de0\<lparr>de_now := fst p\<rparr>) d shipment f s))"
    and "\<And>shipment k s. P s \<Longrightarrow> P (snd (delete_shipment_document (de0\<lparr>de_now := fst p\<rparr>) shipment k s))"
  shows "P (doc_step de0 p s)"
proof -
  let ?de = "de0\<lparr>de_now := fst p\<rparr>"
  have cr: "P t" if "created ?de s t" for t
    using created_keeps [of ?de s t P, OF that assms(1)] assms(2) by blast
  show ?thesis
  proof (cases "snd p")
    case (Up_Shipment d shipment f)
    then show ?thesis using assms(1,2)
      by (auto simp: doc_step_def Let_def handle_shipment_document_upload_def split: option.split)
  next
    case (Up_Api d shipment f)
    with assms(5) [OF this] show ?thesis by (simp add: doc_step_def Let_def)
  next
    case (Delete_Page d shipment k)
    with assms(1,6) show ?thesis by (auto simp: doc_step_def Let_def handle_shipment_document_delete_def)
  next
    case (Delete_Api d shipment k)
    with assms(1,6) show ?thesis
      by (auto simp: doc_step_def Let_def api_shipment_document_delete_def split: option.split)
  next
    case (Up_Account association dt f)
    then show ?thesis using assms(1,2)
      by (auto simp: doc_step_def Let_def handle_account_document_upload_def split: sum.split prod.split)
  next
    case (Up_Account_Files association files)
    then show ?thesis
      by (auto simp: doc_step_def Let_def handle_account_document_uploads_def split: prod.split
          intro: cr created_upload_each)
  next
    case (Up_Order d order dt f)
    then show ?thesis using assms(1,2)
      by (auto simp: doc_step_def Let_def handle_order_document_upload_def split: sum.split prod.split)
  next
    case (Up_Order_Files d order files)
    then show ?thesis
      by (auto simp: doc_step_def Let_def handle_order_document_uploads_def split: prod.split
          intro: assms(1) cr created_upload_each)
  next
    case (Up_Account_Request request contact uploads)
    then show ?thesis by (simp add: doc_step_def Let_def cr [OF created_request])
  qed (use assms in \<open>simp_all add: doc_step_def Let_def\<close>)
qed

section \<open>What the requests keep\<close>

lemma create_document_queue:
  assumes "scan_queue_ok de (ds_events s)"
  shows "scan_queue_ok de (ds_events (create_document de m owner request dt f s))"
proof -
  have "scan_queue_ok de (ds_events (snd (queue_document_scan de m k t)))" if "scan_queue_ok de (ds_events t)" for k and t :: "'a doc_state"
  proof (cases "row_get (ds_documents t m) k")
    case None
    with that show ?thesis by (simp add: queue_document_scan_def)
  next
    case (Some d)
    have "scan_payload_ok de m k (J_Obj [(''model'', J_Str (de_label de m)), (''pk'', J_Int (int k)), (''file_name'', J_Str (doc_file d))])"
      by (simp add: scan_payload_ok_def obj_get_def)
    with Some that show ?thesis
      by (auto simp: queue_document_scan_def scan_queue_ok_def create_event_def rows.get_ins keys_ok_ins split: if_splits)
  qed
  with assms show ?thesis by (simp add: create_document_def Let_def split: prod.split)
qed

lemma attach_events: "ds_events (attach_order_documents_to_shipment de order shipment s) = ds_events s"
  unfolding attach_order_documents_to_shipment_def Let_def
  by (rule fold_keeps [where P = "\<lambda>t. ds_events t = ds_events s"]) auto

lemma scan_due_payloads:
  assumes "scan_queue_ok de (ds_events s)"
  shows "\<forall>p \<in> set (map marked (scan_due de limit include_failed timeout (ds_events s))). \<exists>m n. scan_payload_ok de m n (ev_payload (snd p))"
proof -
  have keys: "keys_ok (ds_events s)" using assms by (simp add: scan_queue_ok_def)
  show ?thesis
    using scan_due_facts(2) [OF keys] assms by (fastforce simp: marked_def scan_queue_ok_def)
qed

lemma process_scan_queue_ok:
  assumes "scan_queue_ok de (ds_events s)"
  shows "scan_queue_ok de (ds_events (snd (process_document_scan_queue de limit include_failed timeout s)))"
proof -
  have keys: "keys_ok (ds_events s)" using assms by (simp add: scan_queue_ok_def)
  define due where "due = scan_due de limit include_failed timeout (ds_events s)"
  define s0 where "s0 = \<lparr>ds_documents = ds_documents s, ds_events = claim_rows (de_now de) (map fst due) (ds_events s),
      ds_world = ds_world s,
      rn_result = \<lparr>sr_selected = length due, sr_processed = 0, sr_infected = 0, sr_failed = 0\<rparr>\<rparr>"
  obtain r run where run: "run_each (scan_event de) (map marked due) s0 = (r, run)" by fastforce
  have "scan_queue_ok de (ds_events s0)" using assms by (simp add: s0_def scan_queue_ok_claim_rows)
  with run have "scan_queue_ok de (ds_events run)"
  proof (rule run_each_inv [where P = "\<lambda>t. scan_queue_ok de (ds_events t)"])
    fix x t e t'
    assume x: "x \<in> set (map marked due)" and step: "scan_event de x t = (e, t')" and ok: "scan_queue_ok de (ds_events t)"
    from scan_due_payloads [OF assms] x [unfolded due_def] obtain m n where "scan_payload_ok de m n (ev_payload (snd x))"
      by blast
    then show "scan_queue_ok de (ds_events t')"
      using scan_event_keeps_queue [of de "fst x" "snd x"] step ok by simp
  qed
  then show ?thesis
    unfolding process_scan_run [OF keys due_def] s0_def [symmetric] run by simp
qed

text \<open>The invariant of the documents and of their queue, under the soundness of the scanner.\<close>

definition doc_state_ok :: "'w doc_env \<Rightarrow> (string \<Rightarrow> bool) \<Rightarrow> 'w doc_state \<Rightarrow> bool" where
  "doc_state_ok de good s \<longleftrightarrow> scan_queue_ok de (ds_events s) \<and> clean_files_good good s"

lemma now_irrelevant [simp]:
  "scanner_sound (de\<lparr>de_now := now\<rparr>) good = scanner_sound de good"
  "scan_queue_ok (de\<lparr>de_now := now\<rparr>) t = scan_queue_ok de t"
  "registry_ok (de\<lparr>de_now := now\<rparr>) = registry_ok de"
  by (simp_all add: scanner_sound_def scan_backend_def clamav_command_def scan_queue_ok_def scan_payload_ok_def registry_ok_def)

text \<open>The files that an upload of the API stores are good.\<close>

definition api_allowed :: "'w doc_env \<Rightarrow> (string \<Rightarrow> bool) \<Rightarrow> int \<times> doc_action \<Rightarrow> bool" where
  "api_allowed de good p \<longleftrightarrow> (case snd p of
       Up_Api d shipment (Some f) \<Rightarrow> \<forall>w. good (fst (de_store de Shipment_Document f w))
     | _ \<Rightarrow> True)"

lemma api_upload_ok:
  assumes "doc_state_ok de good s" and "\<And>f w. posted = Some f \<Longrightarrow> good (fst (de_store de Shipment_Document f w))"
  shows "doc_state_ok de good (snd (api_shipment_document_upload (de\<lparr>de_now := now\<rparr>) d shipment posted s))"
proof (cases "snd (api_shipment_document_upload (de\<lparr>de_now := now\<rparr>) d shipment posted s) = s")
  case True
  with assms(1) show ?thesis by simp
next
  case False
  let ?r = "api_shipment_document_upload (de\<lparr>de_now := now\<rparr>) d shipment posted s"
  obtain f where f: "posted = Some f"
    using False by (cases posted) (simp_all add: api_shipment_document_upload_def split: option.splits if_splits)
  obtain name w where store: "de_store de Shipment_Document f (ds_world s) = (name, w)" by fastforce
  let ?d = "\<lparr>doc_owner = Some shipment, doc_request = None, doc_type = ''additional'', doc_file = name,
         doc_scan_status = Scan_Clean, doc_scan_message = [], doc_scan_updated_at = None, doc_uploaded_at = now\<rparr>"
  have r: "snd ?r = s\<lparr>ds_world := w,
      ds_documents := (ds_documents s)(Shipment_Document := row_ins ?d (ds_documents s Shipment_Document))\<rparr>"
    using False unfolding api_shipment_document_upload_def f
    by (simp add: store split: option.splits if_splits)
  have "good name" using assms(2) [OF f, of "ds_world s"] store by simp
  have "clean_files_good good s" and queue: "scan_queue_ok de (ds_events s)" using assms(1) by (simp_all add: doc_state_ok_def)
  from clean_files_ins [OF this(1), of "snd ?r" Shipment_Document ?d] \<open>good name\<close>
  have "clean_files_good good (snd ?r)" by (simp add: r)
  with queue show ?thesis by (simp add: doc_state_ok_def r)
qed

lemma delete_document_ok:
  assumes "doc_state_ok de good s"
  shows "doc_state_ok de good (snd (delete_shipment_document (de\<lparr>de_now := now\<rparr>) shipment k s))"
  using assms
  by (auto simp: delete_shipment_document_def doc_state_ok_def clean_files_good_def row_get_del keys_ok_del
      split: option.split if_splits)

lemma doc_step_ok:
  assumes "scanner_sound de good" and "api_allowed de good p" and "doc_state_ok de good s"
  shows "doc_state_ok de good (doc_step de p s)"
proof (rule doc_step_keeps [where P = "doc_state_ok de good"])
  fix m owner request dt f and s :: "'a doc_state"
  assume "doc_state_ok de good s"
  then show "doc_state_ok de good (create_document (de\<lparr>de_now := fst p\<rparr>) m owner request dt f s)"
    using create_document_queue [of "de\<lparr>de_now := fst p\<rparr>" s m owner request dt f] create_document_clean
    by (auto simp: doc_state_ok_def)
next
  fix limit include_failed timeout and s :: "'a doc_state"
  assume "doc_state_ok de good s"
  then show "doc_state_ok de good (snd (process_document_scan_queue (de\<lparr>de_now := fst p\<rparr>) limit include_failed timeout s))"
    using process_scan_queue_ok [of "de\<lparr>de_now := fst p\<rparr>" s] process_scan_clean [of "de\<lparr>de_now := fst p\<rparr>" good s] assms(1)
    by (simp add: doc_state_ok_def)
next
  fix order shipment and s :: "'a doc_state"
  assume "doc_state_ok de good s"
  then show "doc_state_ok de good (attach_order_documents_to_shipment (de\<lparr>de_now := fst p\<rparr>) order shipment s)"
    by (simp add: doc_state_ok_def attach_events attach_documents_clean)
next
  fix d shipment f assume "snd p = Up_Api d shipment f"
  with assms(2) show "doc_state_ok de good (snd (api_shipment_document_upload (de\<lparr>de_now := fst p\<rparr>) d shipment f s))"
    by (intro api_upload_ok [OF assms(3)]) (auto simp: api_allowed_def)
next
  fix shipment k and s :: "'a doc_state"
  assume "doc_state_ok de good s"
  then show "doc_state_ok de good (snd (delete_shipment_document (de\<lparr>de_now := fst p\<rparr>) shipment k s))"
    by (rule delete_document_ok)
qed (rule assms(3))

interpretation docs: kept
  "\<lambda>p s. (if api_allowed de good p then Inr (doc_step de p s) else Inl Does_Not_Exist) :: err + 'w doc_state"
  "\<lambda>s. scanner_sound de good \<longrightarrow> doc_state_ok de good s"
  for de :: "'w doc_env" and good
  by unfold_locales (auto intro: doc_step_ok split: if_splits)

end
