(* ===== verification/Queue_Properties.thy ===== *)
theory Queue_Properties
  imports Email_Facts Document_Facts Samples Reservations
begin

text \<open>
  The properties of the two queues: what a run of the email queue selects, settles, keeps and leaves
  behind when it raises, how it backs off, and what uploads and scans make of the documents.
\<close>

section \<open>A sample email queue\<close>

text \<open>
  The transports of the samples keep a log: Brevo answers for every recipient but \<open>down\<close>, hangs on
  \<open>hang\<close>, and the fallback delivers nothing. Instants are written as their number.
\<close>

definition sample_post :: "brevo_payload \<Rightarrow> string list \<Rightarrow> http_outcome \<times> string list" where
  "sample_post p w =
     (if bp_to p = [''hang''] then (Http_Other (Runtime_Error ''TimeoutError''), w)
      else if bp_to p = [''down''] then (Http_Caught, w)
      else (Http_Answer, w @ bp_to p))"

definition sample_numbers :: queue_numbers where
  "sample_numbers = \<lparr>qn_max_attempts = J_Null, qn_retry_base_seconds = J_Null, qn_retry_max_seconds = J_Null,
     qn_processing_timeout_seconds = J_Null\<rparr>"

definition sample_mail :: "string list mail_env" where
  "sample_mail = \<lparr>me_now = 5000000, me_isoformat = signed_str,
     me_parse_datetime = (\<lambda>s. Inr (map_option Aware_At (int_of_text s))), me_make_aware = (\<lambda>t. t),
     me_settings = sample_numbers, me_runtime_row = None, me_delivery_mode = J_Null,
     me_brevo = \<lparr>bc_api_key = ''key'', bc_api_key_env = '''', bc_sender_email = '''', bc_sender_email_env = '''',
       bc_default_from_email = ''wms'', bc_sender_name = '''', bc_sender_name_env = '''', bc_reply_to = '''', bc_reply_to_env = ''''\<rparr>,
     me_urlopen = sample_post, me_send_mail = (\<lambda>s m f rs h w. (False, w))\<rparr>"

definition queue_mail :: "string \<Rightarrow> string list mail_state \<Rightarrow> string list mail_state" where
  "queue_mail recipient s =
     snd (enqueue_email_safe sample_mail (J_Str ''Bonjour'') (J_Str ''Texte'') (J_Str recipient) J_Null J_Null s)"

definition empty_mail :: "string list mail_state" where
  "empty_mail = \<lparr>ms_events = [], ms_world = []\<rparr>"

lemma digits_value_append:
  "list_all is_digit s \<Longrightarrow> digits_value (s @ t) n = digits_value t (fold (\<lambda>c n. 10 * n + int (digit_value c)) s n)"
  by (induction s arbitrary: n) auto

lemma int_str_digits: "0 \<le> n \<Longrightarrow> list_all is_digit (int_str n)"
proof (induction n rule: int_str.induct)
  case (1 n)
  then show ?case by (subst int_str.simps) auto
qed

lemma int_str_value: "0 \<le> n \<Longrightarrow> digits_value (int_str n) 0 = Some n"
proof (induction n rule: int_str.induct)
  case (1 n)
  show ?case
  proof (cases "n < 10")
    case True
    with 1(2) show ?thesis by (subst int_str.simps) simp
  next
    case False
    then have "digits_value (int_str (n div 10)) 0 = Some (n div 10)" using 1 by simp
    moreover have "list_all is_digit (int_str (n div 10))" using 1(2) by (intro int_str_digits) simp
    ultimately have "fold (\<lambda>c n. 10 * n + int (digit_value c)) (int_str (n div 10)) 0 = n div 10"
      using digits_value_append [of "int_str (n div 10)" "[]" 0] by simp
    with False \<open>list_all is_digit (int_str (n div 10))\<close> show ?thesis
      by (subst int_str.simps) (simp add: digits_value_append)
  qed
qed

lemma int_str_Cons: "0 \<le> n \<Longrightarrow> \<exists>c s. int_str n = c # s \<and> is_digit c"
proof -
  assume "0 \<le> n"
  then have "list_all is_digit (int_str n)" by (rule int_str_digits)
  moreover have "int_str n \<noteq> []" by (subst int_str.simps) simp
  ultimately show ?thesis by (cases "int_str n") auto
qed

lemma digit_not_sign: "is_digit c \<Longrightarrow> c \<noteq> CHR ''-'' \<and> c \<noteq> CHR ''+'' \<and> \<not> is_space c"
  by (auto simp: is_digit_def is_space_def)

lemma int_of_signed_str [simp]: "int_of_text (signed_str n) = Some n"
proof -
  have ns: "strip (signed_str n) = signed_str n"
  proof (rule strip_no_space)
    fix c
    assume "c \<in> set (signed_str n)"
    then have "c = CHR ''-'' \<or> is_digit c"
      using int_str_digits [of n] int_str_digits [of "- n"]
      by (auto simp: signed_str_def list_all_iff split: if_splits)
    then show "\<not> is_space c" using digit_not_sign by (auto simp: is_space_def)
  qed
  have "unsigned_value (int_str m) = Some m" if "0 \<le> m" for m
    using int_str_Cons [OF that] int_str_value [OF that] by (auto simp: unsigned_value_def)
  note reads = this
  show ?thesis
  proof (cases "n < 0")
    case True
    then show ?thesis unfolding int_of_text_def ns using reads [of "- n"] by (simp add: signed_str_def)
  next
    case False
    then obtain c s where c: "int_str n = c # s" "is_digit c" using int_str_Cons [of n] by auto
    with False reads [of n] have "unsigned_value (c # s) = Some n" by simp
    with False c digit_not_sign [OF c(2)] show ?thesis
      unfolding int_of_text_def ns by (simp add: signed_str_def)
  qed
qed

lemma sample_clock_text: "clock_text_ok sample_mail"
proof -
  have "signed_str t \<noteq> []" for t
    using int_str_Cons [of t] by (auto simp: signed_str_def)
  then show ?thesis by (simp add: clock_text_ok_def sample_mail_def)
qed

lemma sample_config: "email_queue_config sample_mail sample_numbers =
  \<lparr>qc_max_attempts = 5, qc_retry_base_seconds = 60, qc_retry_max_seconds = 3600, qc_processing_timeout_seconds = 900\<rparr>"
  by code_simp

lemma empty_queue_ok: "email_queue_ok me m (ms_events empty_mail)"
  by (simp add: email_queue_ok_def empty_mail_def keys_ok_def row_get_def)

lemma queue_mail_ok: "email_queue_ok sample_mail 5 (ms_events s) \<Longrightarrow> email_queue_ok sample_mail 5 (ms_events (queue_mail r s))"
  unfolding queue_mail_def by (rule enqueue_email_keeps) simp_all

definition sample_queue :: "string list mail_state" where
  "sample_queue = queue_mail ''a@b'' (queue_mail ''down'' empty_mail)"

lemma sample_queue_ok: "email_queue_ok sample_mail (qc_max_attempts (email_queue_config sample_mail sample_numbers)) (ms_events sample_queue)"
  unfolding sample_config sample_queue_def by (simp add: queue_mail_ok empty_queue_ok)

section \<open>Properties of the email queue\<close>

text \<open>
  C27: the selection of a run, which reads the queue in batches behind a cursor while its own claims
  take events out of the query, comes to what one pass does: it picks the oldest events that are
  due, in order and up to the limit, and exactly those are claimed.
\<close>

theorem email_selection_takes_oldest_due:
  assumes "keys_ok t"
    and "\<forall>p. p \<in> set (selector_queryset (er_statuses run) (er_stale_before run) t) \<longrightarrow> is_ok (should_defer_event me (snd p))"
    and "due = take (er_limit run) (due_events me (selector_queryset (er_statuses run) (er_stale_before run) t))"
  shows "\<exists>sel. select_events me run \<lparr>sl_events = t, sl_picked = [], sl_cursor = None, sl_result = zero_result\<rparr> = (None, sel)
    \<and> sl_picked sel = map marked due \<and> sl_events sel = claim_rows (me_now me) (map fst due) t
    \<and> pr_selected (sl_result sel) = length due"
  using select_events_due [OF assms(1) _ assms(3)] assms(2) by fastforce

lemma sample_queue_events: "ms_events sample_queue =
  [(1, \<lparr>ev_direction = Dir_Outbound, ev_source = ''wms.email'', ev_target = ''smtp'', ev_event_type = ''send_email'',
        ev_external_id = '''', ev_payload = J_Obj [(''subject'', J_Str ''Bonjour''), (''message'', J_Str ''Texte''),
          (''recipient'', J_List [J_Str ''down'']),
          (''_queue'', J_Obj [(''attempts'', J_Int 0), (''next_attempt_at'', J_Null)])],
        ev_status = Ev_Pending, ev_error_message = '''', ev_created_at = 5000000, ev_processed_at = None\<rparr>),
   (2, \<lparr>ev_direction = Dir_Outbound, ev_source = ''wms.email'', ev_target = ''smtp'', ev_event_type = ''send_email'',
        ev_external_id = '''', ev_payload = J_Obj [(''subject'', J_Str ''Bonjour''), (''message'', J_Str ''Texte''),
          (''recipient'', J_List [J_Str ''a@b'']),
          (''_queue'', J_Obj [(''attempts'', J_Int 0), (''next_attempt_at'', J_Null)])],
        ev_status = Ev_Pending, ev_error_message = '''', ev_created_at = 5000000, ev_processed_at = None\<rparr>)]"
  by code_simp

definition sample_run :: "nat \<Rightarrow> email_run" where
  "sample_run n = \<lparr>er_statuses = [Ev_Pending], er_stale_before = 0, er_limit = n\<rparr>"

lemma sample_selector: "map fst (due_events sample_mail (selector_queryset [Ev_Pending] 0 (ms_events sample_queue))) = [1, 2]"
  by code_simp

lemma email_selection_witness:
  "\<exists>sel. select_events sample_mail (sample_run 1)
      \<lparr>sl_events = ms_events sample_queue, sl_picked = [], sl_cursor = None, sl_result = zero_result\<rparr> = (None, sel)
    \<and> map fst (sl_picked sel) = [1] \<and> pr_selected (sl_result sel) = 1"
proof -
  have keys: "keys_ok (ms_events sample_queue)" using sample_queue_ok by (simp add: email_queue_ok_def)
  define due where "due = take (er_limit (sample_run 1)) (due_events sample_mail
      (selector_queryset (er_statuses (sample_run 1)) (er_stale_before (sample_run 1)) (ms_events sample_queue)))"
  have fst: "map fst due = [1]" using sample_selector by (simp add: due_def sample_run_def take_map [symmetric])
  have readable: "\<forall>p. p \<in> set (selector_queryset (er_statuses (sample_run 1)) (er_stale_before (sample_run 1)) (ms_events sample_queue))
      \<longrightarrow> is_ok (should_defer_event sample_mail (snd p))"
    using email_queue_ok_readable [OF sample_queue_ok sample_clock_text] selector_facts(4) [OF keys] row_get_iff [OF keys]
    by (auto simp: email_queue_readable_def)
  from email_selection_takes_oldest_due [OF keys readable due_def] fst show ?thesis
    by (metis keys_marked length_map length_Cons list.size(3) One_nat_def)
qed

text \<open>
  \<open>send_email_safe\<close> lets an exception of the request to Brevo through (a \<open>TimeoutError\<close> is none of
  those it catches), and the run ends with it. The events before have then been settled; the one
  being sent and all after it are left as claimed, and no later run takes them until the processing
  timeout has passed.
\<close>

lemma email_run_crash_leaves_claims:
  assumes "clock_text_ok me"
    and "email_queue_ok me (qc_max_attempts (email_queue_config me args)) (ms_events s)"
    and "due = map fst (email_due me limit include_failed args (ms_events s))"
    and "process_email_queue me limit include_failed args s = (Inl e, s')"
  shows "\<exists>n < length due.
    (\<forall>i < n. event_status_of (ms_events s') (due ! i) \<in> {Some Ev_Processed, Some Ev_Failed, Some Ev_Pending})
    \<and> (\<forall>i < length due. n \<le> i \<longrightarrow> (\<exists>ev. row_get (ms_events s) (due ! i) = Some ev
        \<and> row_get (ms_events s') (due ! i) = Some (claimed (me_now me) ev)
        \<and> (\<forall>stale. claimable (candidate_statuses include_failed) stale (claimed (me_now me) ev) \<longleftrightarrow> me_now me \<le> stale)))"
proof -
  define picked where "picked = email_due me limit include_failed args (ms_events s)"
  from process_email_queue_parts [OF assms(1,2) picked_def] obtain n0 r fin where
    run: "run_each (process_event me (email_queue_config me args)) (map marked picked)
      \<lparr>ms_events = claim_rows (me_now me) (map fst picked) (ms_events s), ms_world = ms_world s,
       mr_result = zero_result\<lparr>pr_selected := length picked, pr_deferred := n0\<rparr>\<rparr> = (r, fin)"
    and proc: "process_email_queue me limit include_failed args s =
      ((case r of Some e \<Rightarrow> Inl e | None \<Rightarrow> Inr (mr_result fin)), \<lparr>ms_events = ms_events fin, ms_world = ms_world fin\<rparr>)"
    and dist: "distinct (map fst picked)" and rows: "\<And>k ev. (k, ev) \<in> set picked \<Longrightarrow> row_get (ms_events s) k = Some ev"
    by blast
  have due: "due = map fst picked" by (simp add: assms(3) picked_def)
  from assms(4) proc have r: "r = Some e" and s': "ms_events s' = ms_events fin" by (auto split: option.splits)
  obtain n where n: "n \<le> length (map marked picked)" "r = None \<longleftrightarrow> n = length (map marked picked)"
    and before: "\<And>i. i < n \<Longrightarrow> \<exists>row. row_get (ms_events fin) (fst (map marked picked ! i)) = Some row \<and> ev_status row \<noteq> Ev_Processing"
    and after: "\<And>i. n \<le> i \<Longrightarrow> i < length (map marked picked) \<Longrightarrow> row_get (ms_events fin) (fst (map marked picked ! i))
        = row_get (claim_rows (me_now me) (map fst picked) (ms_events s)) (fst (map marked picked ! i))"
  proof (rule mailq.run_settles [OF run])
    show "distinct (map fst (map marked picked))" using dist by (simp only: keys_marked)
  qed (use marked_rows [OF rows] in simp_all)
  show ?thesis
  proof (intro exI [of _ n] conjI allI impI)
    show "n < length due" using n r due by simp
  next
    fix i
    assume "i < n"
    with before n(1) due obtain row where "row_get (ms_events s') (due ! i) = Some row" "ev_status row \<noteq> Ev_Processing"
      by (fastforce simp: marked_def s')
    then show "event_status_of (ms_events s') (due ! i) \<in> {Some Ev_Processed, Some Ev_Failed, Some Ev_Pending}"
      by (cases "ev_status row") (simp_all add: event_status_of_def)
  next
    fix i
    assume i: "i < length due" "n \<le> i"
    then have "picked ! i \<in> set picked" using due by simp
    with rows [of "fst (picked ! i)" "snd (picked ! i)"]
    have ev: "row_get (ms_events s) (due ! i) = Some (snd (picked ! i))" using i due by simp
    moreover have "row_get (ms_events s') (due ! i) = Some (claimed (me_now me) (snd (picked ! i)))"
      using after [of i] i due ev by (simp add: s' marked_def row_get_claim_rows)
    moreover have "claimable (candidate_statuses include_failed) stale (claimed (me_now me) ev) \<longleftrightarrow> me_now me \<le> stale" for stale ev
      by (simp add: claimable_def claimed_def candidate_statuses_def)
    ultimately show "\<exists>ev. row_get (ms_events s) (due ! i) = Some ev
        \<and> row_get (ms_events s') (due ! i) = Some (claimed (me_now me) ev)
        \<and> (\<forall>stale. claimable (candidate_statuses include_failed) stale (claimed (me_now me) ev) \<longleftrightarrow> me_now me \<le> stale)" by blast
  qed
qed

lemma email_run_returns:
  assumes "clock_text_ok me"
    and "email_queue_ok me (qc_max_attempts (email_queue_config me args)) (ms_events s)"
    and "due = map fst (email_due me limit include_failed args (ms_events s))"
    and "process_email_queue me limit include_failed args s = (Inr res, s')"
  shows "pr_selected res = length due
    \<and> pr_processed res = ended Ev_Processed due (ms_events s')
    \<and> pr_failed res = ended Ev_Failed due (ms_events s')
    \<and> pr_retried res = ended Ev_Pending due (ms_events s')
    \<and> pr_processed res + pr_failed res + pr_retried res = length due"
proof -
  define picked where "picked = email_due me limit include_failed args (ms_events s)"
  from process_email_queue_parts [OF assms(1,2) picked_def] obtain n r fin where
    run: "run_each (process_event me (email_queue_config me args)) (map marked picked)
      \<lparr>ms_events = claim_rows (me_now me) (map fst picked) (ms_events s), ms_world = ms_world s,
       mr_result = zero_result\<lparr>pr_selected := length picked, pr_deferred := n\<rparr>\<rparr> = (r, fin)"
    and proc: "process_email_queue me limit include_failed args s =
      ((case r of Some e \<Rightarrow> Inl e | None \<Rightarrow> Inr (mr_result fin)), \<lparr>ms_events = ms_events fin, ms_world = ms_world fin\<rparr>)"
    and dist: "distinct (map fst picked)" and rows: "\<And>k ev. (k, ev) \<in> set picked \<Longrightarrow> row_get (ms_events s) k = Some ev"
    by blast
  have due: "due = map fst picked" by (simp add: assms(3) picked_def)
  from assms(4) proc have r: "r = None" and res: "res = mr_result fin" and s': "ms_events s' = ms_events fin"
    by (auto split: option.splits)
  have start: "\<forall>p \<in> set (map marked picked). row_get (ms_events \<lparr>ms_events = claim_rows (me_now me) (map fst picked) (ms_events s),
      ms_world = ms_world s, mr_result = zero_result\<lparr>pr_selected := length picked, pr_deferred := n\<rparr>\<rparr>) (fst p) \<noteq> None"
    using marked_rows [OF rows] by simp
  note counts = run_counts [OF run [unfolded r] _ start, unfolded keys_marked, OF dist]
  have settled: "\<exists>row. row_get (ms_events fin) k = Some row \<and> ev_status row \<noteq> Ev_Processing" if "k \<in> set due" for k
    by (rule mailq.run_settles_all [OF run [unfolded r] _ start])
       (use dist that due in \<open>simp_all add: marked_def image_image comp_def\<close>)
  show ?thesis
    using counts ended_partition [of due, OF settled] due by (simp add: res s' zero_result_def)
qed

lemma email_run_others:
  assumes "clock_text_ok me"
    and "email_queue_ok me (qc_max_attempts (email_queue_config me args)) (ms_events s)"
    and "due = map fst (email_due me limit include_failed args (ms_events s))"
    and "process_email_queue me limit include_failed args s = (r, s')" and "k \<notin> set due"
  shows "row_get (ms_events s') k = row_get (ms_events s) k"
proof -
  define picked where "picked = email_due me limit include_failed args (ms_events s)"
  from process_email_queue_parts [OF assms(1,2) picked_def] obtain n r' fin where
    run: "run_each (process_event me (email_queue_config me args)) (map marked picked)
      \<lparr>ms_events = claim_rows (me_now me) (map fst picked) (ms_events s), ms_world = ms_world s,
       mr_result = zero_result\<lparr>pr_selected := length picked, pr_deferred := n\<rparr>\<rparr> = (r', fin)"
    and "process_email_queue me limit include_failed args s =
      ((case r' of Some e \<Rightarrow> Inl e | None \<Rightarrow> Inr (mr_result fin)), \<lparr>ms_events = ms_events fin, ms_world = ms_world fin\<rparr>)"
    and "distinct (map fst picked)" and "\<And>k ev. (k, ev) \<in> set picked \<Longrightarrow> row_get (ms_events s) k = Some ev"
    by blast
  with assms(4) have "ms_events s' = ms_events fin" by auto
  moreover have "k \<notin> fst ` set picked" using assms(3,5) by (simp add: picked_def)
  ultimately show ?thesis
    using mailq.run_other_events [OF run, of k]
    by (simp add: row_get_claim_rows marked_def image_image option.map_ident)
qed

lemma email_run_contained:
  assumes "clock_text_ok me" and "http_contained me"
    and "email_queue_ok me (qc_max_attempts (email_queue_config me args)) (ms_events s)"
    and "process_email_queue me limit include_failed args s = (r, s')"
  shows "is_ok r"
proof -
  define picked where "picked = email_due me limit include_failed args (ms_events s)"
  from process_email_queue_parts [OF assms(1,3) picked_def] obtain n r' fin where
    run: "run_each (process_event me (email_queue_config me args)) (map marked picked)
      \<lparr>ms_events = claim_rows (me_now me) (map fst picked) (ms_events s), ms_world = ms_world s,
       mr_result = zero_result\<lparr>pr_selected := length picked, pr_deferred := n\<rparr>\<rparr> = (r', fin)"
    and proc: "process_email_queue me limit include_failed args s =
      ((case r' of Some e \<Rightarrow> Inl e | None \<Rightarrow> Inr (mr_result fin)), \<lparr>ms_events = ms_events fin, ms_world = ms_world fin\<rparr>)"
    and "distinct (map fst picked)" and "\<And>k ev. (k, ev) \<in> set picked \<Longrightarrow> row_get (ms_events s) k = Some ev"
    by blast
  have "\<exists>s'. process_event me (email_queue_config me args) x s0 = (None, s')" if x: "x \<in> set (map marked picked)" for x and s0 :: "'a mail_run"
  proof -
    from x obtain k ev where x': "x = (k, ev\<lparr>ev_status := Ev_Processing\<rparr>)" "(k, ev) \<in> set picked" by (auto simp: marked_def)
    have "mail_event_ok me (qc_max_attempts (email_queue_config me args)) (ev\<lparr>ev_status := Ev_Processing\<rparr>)"
      using mail_event_marked [OF email_due_ok [OF assms(3) x'(2) [unfolded picked_def]]] .
    then show ?thesis unfolding x'(1) by (rule process_event_contained [OF assms(1) _ assms(2)])
  qed
  with run have "r' = None" using run_each_completes by (metis prod.inject)
  with assms(4) proc show ?thesis by (auto simp: is_ok_def)
qed

text \<open>
  C28: A run over a queue the program has filled settles what was due, also when failed events are sent
  again. When it returns, every event that was due has been sent, has failed for good or waits for its
  next attempt, and the counters of the result say how many each. When it raises (which it does not
  as long as requests to Brevo are answered or fail in a way the code catches), the events before the
  one that raised are settled in the same way, and that one and all after it are left as claimed, which
  no later run takes before the processing timeout has passed. No other event is written in either case. (Instants are read back from their text form.)
\<close>
theorem email_run_settles_due_events:
  assumes "clock_text_ok me"
    and "email_queue_ok me (qc_max_attempts (email_queue_config me args)) (ms_events s)"
    and "due = map fst (email_due me limit include_failed args (ms_events s))"
    and "process_email_queue me limit include_failed args s = (r, s')"
  shows "(case r of
      Inr res \<Rightarrow> pr_selected res = length due
        \<and> pr_processed res = ended Ev_Processed due (ms_events s')
        \<and> pr_failed res = ended Ev_Failed due (ms_events s')
        \<and> pr_retried res = ended Ev_Pending due (ms_events s')
        \<and> pr_processed res + pr_failed res + pr_retried res = length due
    | Inl e \<Rightarrow> \<not> http_contained me \<and> (\<exists>n < length due.
        (\<forall>i < n. event_status_of (ms_events s') (due ! i) \<in> {Some Ev_Processed, Some Ev_Failed, Some Ev_Pending})
        \<and> (\<forall>i < length due. n \<le> i \<longrightarrow> (\<exists>ev. row_get (ms_events s) (due ! i) = Some ev
            \<and> row_get (ms_events s') (due ! i) = Some (claimed (me_now me) ev)
            \<and> (\<forall>stale. claimable (candidate_statuses include_failed) stale (claimed (me_now me) ev)
                 \<longleftrightarrow> me_now me \<le> stale)))))
    \<and> (\<forall>k. k \<notin> set due \<longrightarrow> row_get (ms_events s') k = row_get (ms_events s) k)"
proof (cases r)
  case (Inl e)
  then have "\<not> http_contained me" using email_run_contained [OF assms(1) _ assms(2,4)] by (auto simp: is_ok_def)
  moreover have run: "process_email_queue me limit include_failed args s = (Inl e, s')" using assms(4) Inl by simp
  ultimately show ?thesis
    using email_run_crash_leaves_claims [OF assms(1-3) run] email_run_others [OF assms(1-4)]
    unfolding Inl sum.case by (intro conjI allI impI)
next
  case (Inr res)
  with email_run_returns [OF assms(1-3), of res s'] email_run_others [OF assms(1-4)] assms(4) show ?thesis by auto
qed

text \<open>Of its surroundings, the well-formedness of the queue depends on the text form of instants alone.\<close>

lemma email_queue_ok_iso:
  assumes "me_isoformat me = me_isoformat me'"
  shows "email_queue_ok me m t = email_queue_ok me' m t"
proof -
  have "meta_json me = meta_json me'" by (intro ext) (simp add: meta_json_def assms split: option.split)
  then show ?thesis by (simp add: email_queue_ok_def mail_event_ok_def mail_payload_def)
qed

definition calm_mail :: "string list mail_env" where
  "calm_mail = sample_mail\<lparr>me_urlopen := (\<lambda>p w. if bp_to p = [''down''] then (Http_Caught, w) else (Http_Answer, w @ bp_to p))\<rparr>"

lemma calm_facts:
  "clock_text_ok calm_mail" "http_contained calm_mail"
  "email_queue_ok calm_mail (qc_max_attempts (email_queue_config calm_mail sample_numbers)) (ms_events sample_queue)"
proof -
  show "clock_text_ok calm_mail" using sample_clock_text by (simp add: calm_mail_def clock_text_ok_def)
  show "http_contained calm_mail" by (simp add: calm_mail_def http_contained_def)
  have "email_queue_ok calm_mail m t = email_queue_ok sample_mail m t" for m t
    by (rule email_queue_ok_iso) (simp add: calm_mail_def)
  moreover have "email_queue_config calm_mail sample_numbers = email_queue_config sample_mail sample_numbers"
    by (simp add: calm_mail_def email_queue_config_def)
  ultimately show "email_queue_ok calm_mail (qc_max_attempts (email_queue_config calm_mail sample_numbers)) (ms_events sample_queue)"
    using sample_queue_ok by simp
qed

lemma calm_due: "map fst (email_due calm_mail (J_Int 10) False sample_numbers (ms_events sample_queue)) = [1, 2]"
  by code_simp

theorem email_run_witness:
  "\<exists>res s'. process_email_queue calm_mail (J_Int 10) False sample_numbers sample_queue = (Inr res, s')
    \<and> pr_selected res = 2 \<and> pr_processed res + pr_failed res + pr_retried res = 2"
proof -
  obtain r s' where run: "process_email_queue calm_mail (J_Int 10) False sample_numbers sample_queue = (r, s')"
    by fastforce
  from email_run_settles_due_events [OF calm_facts(1,3) refl run] calm_facts(2) run show ?thesis
    unfolding calm_due by (auto split: sum.splits)
qed

text \<open>The requests on the queue, each with its instant: an email is queued, or sent and queued when that fails,
  or the queue is run.\<close>

datatype mail_request =
    Mail_Enqueue int json json json json json
  | Mail_Send int json json json json json
  | Mail_Process int json bool queue_numbers

definition mail_step :: "'w mail_env \<Rightarrow> mail_request \<Rightarrow> 'w mail_state \<Rightarrow> 'w mail_state" where
  "mail_step me req s = (case req of
       Mail_Enqueue now sub msg rcpt html tags \<Rightarrow> snd (enqueue_email_safe (me\<lparr>me_now := now\<rparr>) sub msg rcpt html tags s)
     | Mail_Send now sub msg rcpt html tags \<Rightarrow> snd (send_or_enqueue_email_safe (me\<lparr>me_now := now\<rparr>) sub msg rcpt html tags s)
     | Mail_Process now limit include_failed args \<Rightarrow>
         snd (process_email_queue (me\<lparr>me_now := now\<rparr>) limit include_failed args s))"

text \<open>The runs all allow the same number of attempts.\<close>

definition attempts_set :: "'w mail_env \<Rightarrow> int \<Rightarrow> mail_request \<Rightarrow> bool" where
  "attempts_set me m req = (case req of
       Mail_Process now limit include_failed args \<Rightarrow> qc_max_attempts (email_queue_config me args) = m
     | _ \<Rightarrow> True)"

lemma mail_step_keeps:
  assumes "clock_text_ok me" and "0 < m" and "attempts_set me m req" and "email_queue_ok me m (ms_events s)"
  shows "email_queue_ok me m (ms_events (mail_step me req s))"
proof -
  have iso: "email_queue_ok (me\<lparr>me_now := now\<rparr>) m t = email_queue_ok me m t" for now t
    by (rule email_queue_ok_iso) simp
  have conf: "email_queue_config (me\<lparr>me_now := now\<rparr>) args = email_queue_config me args" for now args
    by (simp add: email_queue_config_def)
  have clock: "clock_text_ok (me\<lparr>me_now := now\<rparr>)" for now
    using assms(1) by (simp add: clock_text_ok_def)
  have enq: "email_queue_ok me m (ms_events (snd (enqueue_email_safe (me\<lparr>me_now := now\<rparr>) sub msg rcpt html tags t)))"
    if "email_queue_ok me m (ms_events t)" for now sub msg rcpt html tags t
    using enqueue_email_keeps [of "me\<lparr>me_now := now\<rparr>" m t] that assms(2) by (simp add: iso)
  show ?thesis
  proof (cases req)
    case (Mail_Enqueue now sub msg rcpt html tags)
    with enq assms(4) show ?thesis by (simp add: mail_step_def)
  next
    case (Mail_Send now sub msg rcpt html tags)
    have "email_queue_ok me m (ms_events (snd (send_or_enqueue_email_safe (me\<lparr>me_now := now\<rparr>) sub msg rcpt html tags s)))"
      using enq [of "s\<lparr>ms_world := snd (send_email_safe (me\<lparr>me_now := now\<rparr>) sub msg rcpt html tags (ms_world s))\<rparr>"] assms(4)
      by (auto simp: send_or_enqueue_email_safe_def split: prod.splits sum.splits bool.splits)
    with Mail_Send show ?thesis by (simp add: mail_step_def)
  next
    case (Mail_Process now limit include_failed args)
    with process_email_queue_keeps [OF clock, of now args s limit include_failed] assms(3,4) show ?thesis
      by (simp add: mail_step_def attempts_set_def conf iso)
  qed
qed

interpretation mail: kept
  "\<lambda>req s. (if attempts_set me m req then Inr (mail_step me req s) else Inl Does_Not_Exist) :: err + 'w mail_state"
  "\<lambda>s. clock_text_ok me \<and> 0 < m \<longrightarrow> email_queue_ok me m (ms_events s)"
  for me :: "'w mail_env" and m
  by unfold_locales (auto intro: mail_step_keeps split: if_splits)

text \<open>
  C29: Whatever is queued and however often the queue is run, failed events sent again or not, also by
  runs that raise, the queue stays well formed: an event that waits has fewer failed attempts than
  the maximum, one that has failed has at least the maximum, and its addresses, tags and bookkeeping
  can be read. (All runs allow the same maximum, and instants are read back from their text form.)
\<close>
theorem email_queue_stays_well_formed:
  assumes "clock_text_ok me" and "0 < m" and "list_all (attempts_set me m) requests"
    and "email_queue_ok me m (ms_events s)"
  shows "email_queue_ok me m (ms_events (fold (mail_step me) requests s))"
proof -
  have "fold (mail.attempt me m) requests s = fold (mail_step me) requests s"
    using assms(3) by (induction requests arbitrary: s) (simp_all add: mail.attempt_def)
  with mail.attempts_keep [of me m s requests] assms show ?thesis by simp
qed

text \<open>With one attempt allowed, the email to \<open>down\<close> fails, is sent again and fails once more.\<close>

definition resent_mail :: "string list mail_state" where
  "resent_mail = fold (mail_step sample_mail)
     [Mail_Enqueue 1 J_Null J_Null (J_Str ''down'') J_Null J_Null,
      Mail_Process 2 J_Null False (sample_numbers\<lparr>qn_max_attempts := J_Int 1\<rparr>),
      Mail_Process 3 J_Null True (sample_numbers\<lparr>qn_max_attempts := J_Int 1\<rparr>)] empty_mail"

lemma resent_value: "map (\<lambda>(k, ev). (ev_status ev, ev_error_message ev)) (ms_events resent_mail)
    = [(Ev_Failed, ''send_email_safe returned False after 2 attempt(s).'')]"
  by code_simp

theorem email_queue_well_formed_witness:
  "email_queue_ok sample_mail 1 (ms_events resent_mail)
   \<and> map (\<lambda>(k, ev). ev_status ev) (ms_events resent_mail) = [Ev_Failed]"
proof -
  have "qc_max_attempts (email_queue_config sample_mail (sample_numbers\<lparr>qn_max_attempts := J_Int 1\<rparr>)) = 1"
    by code_simp
  then have "email_queue_ok sample_mail 1 (ms_events resent_mail)"
    unfolding resent_mail_def
    by (intro email_queue_stays_well_formed [OF sample_clock_text _ _ empty_queue_ok]) (simp_all add: attempts_set_def)
  with resent_value show ?thesis by (auto simp: map_eq_Cons_conv)
qed

text \<open>The second of three emails hangs: the first is sent, the third stays claimed.\<close>

definition hanging_queue :: "string list mail_state" where
  "hanging_queue = queue_mail ''c@d'' (queue_mail ''hang'' (queue_mail ''a@b'' empty_mail))"

lemma hanging_queue_ok: "email_queue_ok sample_mail (qc_max_attempts (email_queue_config sample_mail sample_numbers)) (ms_events hanging_queue)"
  unfolding sample_config hanging_queue_def by (simp add: queue_mail_ok empty_queue_ok)

lemma hanging_due: "map fst (email_due sample_mail J_Null False sample_numbers (ms_events hanging_queue)) = [1, 2, 3]"
  by code_simp

lemma hanging_run: "fst (process_email_queue sample_mail J_Null False sample_numbers hanging_queue) = Inl (Runtime_Error ''TimeoutError'')"
  by code_simp

lemma email_crash_witness:
  "\<exists>s'. process_email_queue sample_mail J_Null False sample_numbers hanging_queue = (Inl (Runtime_Error ''TimeoutError''), s')
     \<and> event_status_of (ms_events s') 3 = Some Ev_Processing"
proof -
  obtain s' where run: "process_email_queue sample_mail J_Null False sample_numbers hanging_queue = (Inl (Runtime_Error ''TimeoutError''), s')"
    using hanging_run by (metis prod.collapse)
  from email_run_crash_leaves_claims [OF sample_clock_text hanging_queue_ok hanging_due [symmetric] run] obtain n where
    n: "n < length [1 :: nat, 2, 3]" and
    "\<forall>i < length [1 :: nat, 2, 3]. n \<le> i \<longrightarrow> (\<exists>ev. row_get (ms_events s') ([1, 2, 3] ! i) = Some (claimed (me_now sample_mail) ev))"
    by blast
  from this(2) [rule_format, of 2] n obtain ev where "row_get (ms_events s') 3 = Some (claimed (me_now sample_mail) ev)"
    by auto
  then have "event_status_of (ms_events s') 3 = Some Ev_Processing" by (simp add: event_status_of_def claimed_def)
  with run show ?thesis by blast
qed

text \<open>
  A failed attempt that is not the last puts the event back with one attempt more; the delay
  doubles with every attempt, from the base up to the maximum, and the bookkeeping written into the
  payload is read back so that exactly the runs before the end of the delay put the event off.
\<close>

theorem email_retry_backs_off:
  assumes "clock_text_ok me" and "mail_event_ok me m ev" and "payload_dict ev = Inr payload"
    and "read_queue_meta me payload = Inr meta" and "send_event_payload me payload (ms_world s) = (Inr False, w)"
    and "qm_attempts meta + 1 < qc_max_attempts (email_queue_config me args)"
    and "row_get (ms_events s) k = Some row"
  shows "\<exists>s' row' delay. process_event me (email_queue_config me args) (k, ev) s = (None, s')
    \<and> row_get (ms_events s') k = Some row' \<and> ev_status row' = Ev_Pending
    \<and> delay = min (qc_retry_max_seconds (email_queue_config me args))
        (qc_retry_base_seconds (email_queue_config me args) * 2 ^ nat (qm_attempts meta))
    \<and> qc_retry_base_seconds (email_queue_config me args) \<le> delay
    \<and> (\<forall>now. should_defer_event (me\<lparr>me_now := now\<rparr>) row' = Inr (now < me_now me + 1000000 * delay))"
proof -
  let ?cfg = "email_queue_config me args"
  from mail_event_meta [OF assms(1,2)] assms(3,4) obtain a upcoming where
    mp: "mail_payload me a upcoming payload" and meta: "meta = \<lparr>qm_attempts = a, qm_next_attempt_at = upcoming\<rparr>"
    and fit: "attempts_fit m (ev_status ev) a"
    by (metis sum.inject(2))
  have a: "0 \<le> a" using fit by (simp add: attempts_fit_def)
  define delay where "delay = compute_retry_delay_seconds (a + 1) ?cfg"
  have delay: "delay = min (qc_retry_max_seconds ?cfg) (qc_retry_base_seconds ?cfg * 2 ^ nat a)"
    using a by (simp add: delay_def compute_retry_delay_seconds_def)
  have "qc_retry_base_seconds ?cfg \<le> qc_retry_base_seconds ?cfg * 2 ^ nat a"
    using email_queue_config_bounds(2) [of me args] by simp
  then have base: "qc_retry_base_seconds ?cfg \<le> delay"
    using email_queue_config_bounds(3) [of me args] by (simp add: delay)
  obtain ev' where ev': "apply_send_result me ?cfg ev payload meta (ms_world s) = (Inr (ev', Out_Retried), w)"
    "ev_status ev' = Ev_Pending"
    "ev_payload ev' = J_Obj (set_queue_meta me (a + 1) (Some (me_now me + 1000000 * delay)) payload)"
    using assms(5,6) meta by (simp add: apply_send_result_def Let_def delay_def)
  define s' where "s' = s\<lparr>ms_world := w, ms_events := save_event k ev' (ms_events s), mr_result := count_outcome Out_Retried (mr_result s)\<rparr>"
  have "process_event me ?cfg (k, ev) s = (None, s')"
    using assms(3,4) ev'(1) by (simp add: process_event_def s'_def)
  moreover obtain row' where row': "row_get (ms_events s') k = Some row'" "ev_status row' = Ev_Pending" "ev_payload row' = ev_payload ev'"
    using assms(7) ev'(2) by (simp add: s'_def row_get_save_event)
  moreover have "should_defer_event (me\<lparr>me_now := now\<rparr>) row' = Inr (now < me_now me + 1000000 * delay)" for now
  proof -
    let ?p = "set_queue_meta me (a + 1) (Some (me_now me + 1000000 * delay)) payload"
    have "mail_payload me (a + 1) (Some (me_now me + 1000000 * delay)) ?p" using mail_payload_set_meta [OF mp] a by simp
    then have mp': "mail_payload (me\<lparr>me_now := now\<rparr>) (a + 1) (Some (me_now me + 1000000 * delay)) ?p"
      by (simp add: mail_payload_def meta_json_def)
    have clock: "clock_text_ok (me\<lparr>me_now := now\<rparr>)" using assms(1) by (simp add: clock_text_ok_def)
    have "payload_dict row' = Inr ?p" using row'(3) ev'(3) by (intro mail_payload_dict [OF _ mp']) simp
    with mail_payload_meta [OF clock mp'] row'(2) a show ?thesis by (simp add: should_defer_event_def)
  qed
  ultimately show ?thesis using base delay meta by auto
qed

definition down_event :: event where
  "down_event = the (row_get (ms_events sample_queue) 1)"

definition down_payload :: "(string \<times> json) list" where
  "down_payload = (case ev_payload down_event of J_Obj m \<Rightarrow> m | _ \<Rightarrow> [])"

definition down_run :: "string list mail_run" where
  "down_run = \<lparr>ms_events = ms_events sample_queue, ms_world = [], mr_result = zero_result\<rparr>"

lemma email_retry_witness:
  "\<exists>s' row'. process_event sample_mail (email_queue_config sample_mail sample_numbers) (1, down_event) down_run = (None, s')
     \<and> row_get (ms_events s') 1 = Some row'
     \<and> should_defer_event (sample_mail\<lparr>me_now := 64999999\<rparr>) row' = Inr True
     \<and> should_defer_event (sample_mail\<lparr>me_now := 65000000\<rparr>) row' = Inr False"
proof -
  have row: "row_get (ms_events down_run) 1 = Some down_event" by code_simp
  have "in_email_queue down_event" by code_simp
  with sample_queue_ok row have ok: "mail_event_ok sample_mail 5 down_event"
    by (simp add: email_queue_ok_def sample_config down_run_def)
  have dict: "payload_dict down_event = Inr down_payload" by code_simp
  have meta: "read_queue_meta sample_mail down_payload = Inr \<lparr>qm_attempts = 0, qm_next_attempt_at = None\<rparr>" by code_simp
  have send: "send_event_payload sample_mail down_payload (ms_world down_run) = (Inr False, [])" by code_simp
  have less: "qm_attempts \<lparr>qm_attempts = 0, qm_next_attempt_at = None\<rparr> + 1 < qc_max_attempts (email_queue_config sample_mail sample_numbers)"
    by (simp add: sample_config)
  from email_retry_backs_off [OF sample_clock_text ok dict meta send less row] show ?thesis
    by (auto simp: sample_config) (auto simp: sample_mail_def)
qed

section \<open>Properties of the documents and their queue\<close>

lemma docs_attempts:
  "list_all (api_allowed de good) requests \<Longrightarrow> fold (docs.attempt de good) requests s = fold (doc_step de) requests s"
  by (induction requests arbitrary: s) (simp_all add: docs.attempt_def)

text \<open>The names that the storage may have given to the uploads of the API.\<close>

definition api_files :: "'w doc_env \<Rightarrow> (int \<times> doc_action) list \<Rightarrow> string \<Rightarrow> bool" where
  "api_files de requests name \<longleftrightarrow>
     (\<exists>now d shipment f w. (now, Up_Api d shipment (Some f)) \<in> set requests \<and> name = fst (de_store de Shipment_Document f w))"

text \<open>
  C30: Whatever is uploaded, scanned, attached and deleted, and in whatever order, a document is clean
  only if the scanner has passed its file or the file came in through the upload endpoint of the
  API: the uploads of the pages and of the portal wait for their scan, and a document of an order
  that is attached to the shipment brings its clean file along. An upload of the API is clean at once:
  whatever file with an allowed extension it is given for a shipment that is not archived, it adds a
  clean document and queues no scan.
\<close>
theorem clean_documents_were_scanned:
  assumes "scanner_sound de checked" and "doc_state_ok de checked s"
  shows "(\<forall>m k d. row_get (ds_documents (fold (doc_step de) requests s) m) k = Some d \<longrightarrow> is_scan_clean d
      \<longrightarrow> checked (doc_file d) \<or> api_files de requests (doc_file d))
    \<and> (\<forall>now d shipment sh f. row_get (db_shipments d) shipment = Some sh \<longrightarrow> s_archived_at sh = None
      \<longrightarrow> str_lower (path_suffix (up_name f)) \<in> set allowed_upload_extensions
      \<longrightarrow> ds_events (doc_step de (now, Up_Api d shipment (Some f)) s) = ds_events s
        \<and> (\<exists>k x. row_get (ds_documents (doc_step de (now, Up_Api d shipment (Some f)) s) Shipment_Document) k = Some x
             \<and> doc_owner x = Some shipment \<and> is_scan_clean x
             \<and> doc_file x = fst (de_store de Shipment_Document f (ds_world s))))"
proof (intro conjI)
  let ?good = "\<lambda>name. checked name \<or> api_files de requests name"
  have "scanner_sound de ?good" using assms(1) unfolding scanner_sound_def by blast
  moreover have "doc_state_ok de ?good s" using assms(2) by (auto simp: doc_state_ok_def clean_files_good_def)
  moreover have "list_all (api_allowed de ?good) requests"
    by (force simp: list_all_iff api_allowed_def api_files_def split: doc_action.splits option.splits)
  then have "fold (docs.attempt de ?good) requests s = fold (doc_step de) requests s" by (rule docs_attempts)
  ultimately have "clean_files_good ?good (fold (doc_step de) requests s)"
    using docs.attempts_keep [of de ?good s requests] by (simp add: doc_state_ok_def)
  then show "\<forall>m k d. row_get (ds_documents (fold (doc_step de) requests s) m) k = Some d \<longrightarrow> is_scan_clean d
      \<longrightarrow> checked (doc_file d) \<or> api_files de requests (doc_file d)"
    by (simp add: clean_files_good_def is_scan_clean_def)
next
  show "\<forall>now d shipment sh f. row_get (db_shipments d) shipment = Some sh \<longrightarrow> s_archived_at sh = None
      \<longrightarrow> str_lower (path_suffix (up_name f)) \<in> set allowed_upload_extensions
      \<longrightarrow> ds_events (doc_step de (now, Up_Api d shipment (Some f)) s) = ds_events s
        \<and> (\<exists>k x. row_get (ds_documents (doc_step de (now, Up_Api d shipment (Some f)) s) Shipment_Document) k = Some x
             \<and> doc_owner x = Some shipment \<and> is_scan_clean x
             \<and> doc_file x = fst (de_store de Shipment_Document f (ds_world s)))"
    by (intro allI impI conjI exI [of _ "next_pk (ds_documents s Shipment_Document)"])
      (simp_all add: doc_step_def api_shipment_document_upload_def is_scan_clean_def case_prod_beta rows.get_ins)
qed

text \<open>The sample storage keeps a file under its name; the scanner passes \<open>/m/don.pdf\<close> and finds a virus elsewhere.\<close>

definition sample_docs :: "nat doc_env" where
  "sample_docs = \<lparr>de_now = 0, de_isoformat = (\<lambda>t. ''t''),
     de_get_model = (\<lambda>l. if l = ''wms.Document'' then Some Shipment_Document
        else if l = ''wms.AccountDocument'' then Some Account_Document
        else if l = ''wms.OrderDocument'' then Some Order_Document else None),
     de_label = (\<lambda>m. case m of Shipment_Document \<Rightarrow> ''wms.Document'' | Account_Document \<Rightarrow> ''wms.AccountDocument''
        | Order_Document \<Rightarrow> ''wms.OrderDocument''),
     de_store = (\<lambda>m f w. (up_name f, Suc w)), de_file_path = (\<lambda>name w. Some (''/m/'' @ name)),
     de_delete_file = (\<lambda>name w. w), de_path_exists = (\<lambda>p w. Inr True), de_scan_backend = J_Null, de_clamav_command = J_Null,
     de_scan_timeout = J_Null, de_processing_timeout = J_Null,
     de_run_scanner = (\<lambda>cmd t w. (Scan_Completed (if last cmd = ''/m/don.pdf'' then 0 else 1) '''' '''', w))\<rparr>"

definition empty_docs :: "nat doc_state" where
  "empty_docs = \<lparr>ds_documents = (\<lambda>m. []), ds_events = [], ds_world = 0\<rparr>"

definition sample_upload :: "string \<Rightarrow> upload" where
  "sample_upload name = \<lparr>up_name = name, up_size = 9, up_content = ''%PDF-1.7x''\<rparr>"

definition sample_doc_requests :: "(int \<times> doc_action) list" where
  "sample_doc_requests =
     [(1, Up_Order order_db 1 ''donation_attestation'' (Some (sample_upload ''don.pdf''))),
      (2, Up_Order order_db 1 ''humanitarian_attestation'' (Some (sample_upload ''bad.pdf''))),
      (3, Attach 1 1), (4, Scan_Run J_Null False J_Null), (5, Attach 1 1)]"

lemma sample_docs_sound: "scanner_sound sample_docs (\<lambda>name. name = ''don.pdf'')"
proof -
  have "scan_backend sample_docs = ''clamav''" by code_simp
  then show ?thesis by (simp add: scanner_sound_def sample_docs_def)
qed

lemma empty_docs_ok: "doc_state_ok de good empty_docs"
  by (simp add: doc_state_ok_def scan_queue_ok_def clean_files_good_def empty_docs_def keys_ok_def row_get_def)

lemma sample_docs_result:
  "map (\<lambda>p. (doc_file (snd p), is_scan_clean (snd p))) (ds_documents (fold (doc_step sample_docs) sample_doc_requests empty_docs) Order_Document)
     = [(''don.pdf'', True), (''bad.pdf'', False)]"
  "map (doc_file \<circ> snd) (ds_documents (fold (doc_step sample_docs) sample_doc_requests empty_docs) Shipment_Document)
     = [''don.pdf'']"
  by code_simp+

lemma sample_docs_row:
  "map_option is_scan_clean (row_get (ds_documents (fold (doc_step sample_docs) sample_doc_requests empty_docs) Shipment_Document) 1) = Some True"
  by code_simp

lemma sample_docs_page: "\<not> api_files sample_docs sample_doc_requests name"
  by (auto simp: api_files_def sample_doc_requests_def)

theorem clean_documents_witness:
  "\<exists>d. row_get (ds_documents (fold (doc_step sample_docs) sample_doc_requests empty_docs) Shipment_Document) 1 = Some d
     \<and> is_scan_clean d \<and> doc_file d = ''don.pdf''"
proof -
  obtain d where d: "row_get (ds_documents (fold (doc_step sample_docs) sample_doc_requests empty_docs) Shipment_Document) 1 = Some d"
      "is_scan_clean d"
    using sample_docs_row by auto
  with clean_documents_were_scanned [OF sample_docs_sound empty_docs_ok, of sample_doc_requests] sample_docs_page
  show ?thesis by blast
qed

lemma scan_run_others:
  assumes "run_each (scan_event de) (map marked due) s0 = (r, run)" and "k \<notin> fst ` set due"
    and "ds_events s0 = claim_rows now (map fst due) t"
  shows "row_get (ds_events run) k = row_get t k"
  using scanq.run_other_events [OF assms(1)] assms(2,3)
  by (simp add: row_get_claim_rows marked_def image_image option.map_ident)

lemma scan_run_raises:
  assumes "run_each (scan_event de) ps s = (Some e, run)" and "registry_ok de"
    and "\<forall>p \<in> set ps. \<exists>m n. scan_payload_ok de m n (ev_payload (snd p))"
  shows "\<exists>path w. de_path_exists de path w = Inl e"
  using assms
proof (induction ps arbitrary: s)
  case Nil
  then show ?case by simp
next
  case (Cons p ps)
  obtain m n where ok: "scan_payload_ok de m n (ev_payload (snd p))" using Cons.prems(3) by auto
  obtain r t where step: "scan_event de p s = (r, t)" by fastforce
  show ?case
  proof (cases r)
    case None
    with Cons step show ?thesis by simp
  next
    case (Some e')
    with step Cons.prems(1) have "scan_event de (fst p, snd p) s = (Some e, t)" by simp
    from scan_event_raises [OF this assms(2) ok] show ?thesis .
  qed
qed

text \<open>
  C31: A run of the scan queue over what the uploads have queued returns, unless the question whether
  a file exists raises. When it returns, every event it took ends processed or failed, the counters
  add up to their number, and the document of each (unless it was deleted) no longer waits for its
  scan. When it raises, the events before the one that raised have ended, and that one and all after
  it are left as claimed. No other event is written in either case.
\<close>
theorem scan_run_settles_documents:
  assumes "registry_ok de" and "scan_queue_ok de (ds_events s)"
    and "due = scan_due de limit include_failed timeout (ds_events s)"
    and "process_document_scan_queue de limit include_failed timeout s = (r, s')"
  shows "(case r of
      Inr res \<Rightarrow> sr_selected res = length due \<and> sr_processed res + sr_infected res + sr_failed res = length due
        \<and> (\<forall>k. k \<in> fst ` set due \<longrightarrow> (\<exists>row. row_get (ds_events s') k = Some row \<and> ev_status row \<noteq> Ev_Processing))
        \<and> (\<forall>k ev m n. (k, ev) \<in> set due \<longrightarrow> scan_payload_ok de m n (ev_payload ev) \<longrightarrow> scan_settled s' m n)
    | Inl e \<Rightarrow> (\<exists>path w. de_path_exists de path w = Inl e) \<and> (\<exists>j < length due.
        (\<forall>i < j. \<exists>row. row_get (ds_events s') (fst (due ! i)) = Some row \<and> ev_status row \<noteq> Ev_Processing)
        \<and> (\<forall>i < length due. j \<le> i \<longrightarrow>
             row_get (ds_events s') (fst (due ! i)) = Some (claimed (de_now de) (snd (due ! i))))))
    \<and> (\<forall>k. k \<notin> fst ` set due \<longrightarrow> row_get (ds_events s') k = row_get (ds_events s) k)"
proof -
  have keys: "keys_ok (ds_events s)" using assms(2) by (simp add: scan_queue_ok_def)
  note facts = scan_due_facts [OF keys, where de = de and limit = limit and include_failed = include_failed and timeout = timeout, folded assms(3)]
  define s0 where "s0 = \<lparr>ds_documents = ds_documents s, ds_events = claim_rows (de_now de) (map fst due) (ds_events s),
      ds_world = ds_world s,
      rn_result = \<lparr>sr_selected = length due, sr_processed = 0, sr_infected = 0, sr_failed = 0\<rparr>\<rparr>"
  have payloads: "\<forall>p \<in> set (map marked due). \<exists>m n. scan_payload_ok de m n (ev_payload (snd p))"
    using scan_due_payloads [OF assms(2)] by (simp add: assms(3))
  obtain x run where run: "run_each (scan_event de) (map marked due) s0 = (x, run)" by fastforce
  have r: "r = (case x of Some e \<Rightarrow> Inl e | None \<Rightarrow> Inr (rn_result run))" and docs: "ds_documents s' = ds_documents run"
    and events: "ds_events s' = ds_events run"
    using assms(4) unfolding process_scan_run [OF keys assms(3)] s0_def [symmetric] run by auto
  have start: "\<forall>p \<in> set (map marked due). row_get (ds_events s0) (fst p) \<noteq> None"
    using marked_rows [of due "ds_events s"] facts(2) by (auto simp: s0_def)
  have others: "\<forall>k. k \<notin> fst ` set due \<longrightarrow> row_get (ds_events s') k = row_get (ds_events s) k"
    using scan_run_others [OF run, of _ "de_now de" "ds_events s"] by (simp add: events s0_def)
  show ?thesis
  proof (cases x)
    case None
    note settles = scan_run_settles [OF run [unfolded None] assms(1) payloads]
    have "scan_settled s' m n" if "(k, ev) \<in> set due" "scan_payload_ok de m n (ev_payload ev)" for k ev m n
    proof -
      have "(k, ev\<lparr>ev_status := Ev_Processing\<rparr>) \<in> set (map marked due)"
        and "scan_payload_ok de m n (ev_payload (ev\<lparr>ev_status := Ev_Processing\<rparr>))"
        using that by (force simp: marked_def)+
      with settles have "scan_settled run m n" by blast
      then show ?thesis by (simp add: scan_settled_def docs)
    qed
    moreover have "\<forall>k. k \<in> fst ` set due \<longrightarrow> (\<exists>row. row_get (ds_events s') k = Some row \<and> ev_status row \<noteq> Ev_Processing)"
      using scanq.run_settles_all [OF run [unfolded None] _ start, unfolded keys_marked, OF facts(1)]
      by (simp add: marked_def image_image events)
    ultimately show ?thesis using settles others by (simp add: r None s0_def)
  next
    case (Some e)
    obtain j where j: "j \<le> length (map marked due)" "x = None \<longleftrightarrow> j = length (map marked due)"
      and before: "\<And>i. i < j \<Longrightarrow> \<exists>row. row_get (ds_events run) (fst (map marked due ! i)) = Some row \<and> ev_status row \<noteq> Ev_Processing"
      and after: "\<And>i. j \<le> i \<Longrightarrow> i < length (map marked due) \<Longrightarrow> row_get (ds_events run) (fst (map marked due ! i))
          = row_get (ds_events s0) (fst (map marked due ! i))"
    proof (rule scanq.run_settles [OF run])
      show "distinct (map fst (map marked due))" using facts(1) by (simp only: keys_marked)
    qed (use start in simp_all)
    have "\<exists>row. row_get (ds_events s') (fst (due ! i)) = Some row \<and> ev_status row \<noteq> Ev_Processing" if "i < j" for i
      using before [OF that] that j(1) by (simp add: marked_def events)
    moreover have "row_get (ds_events s') (fst (due ! i)) = Some (claimed (de_now de) (snd (due ! i)))"
      if "i < length due" "j \<le> i" for i
      using after [of i] that facts(2) [of "due ! i"] by (simp add: marked_def events s0_def row_get_claim_rows)
    moreover have "j < length due" using j Some by simp
    ultimately show ?thesis
      using scan_run_raises [OF run [unfolded Some] assms(1) payloads] others by (auto simp: r Some)
  qed
qed

definition waiting_docs :: "nat doc_state" where
  "waiting_docs = fold (doc_step sample_docs) (take 2 sample_doc_requests) empty_docs"

lemma sample_registry: "registry_ok sample_docs"
proof -
  have "de_label sample_docs m \<noteq> [] \<and> strip (de_label sample_docs m) = de_label sample_docs m
      \<and> de_get_model sample_docs (de_label sample_docs m) = Some m" for m
  proof (cases m)
    case Shipment_Document
    then show ?thesis by (simp only:) code_simp
  next
    case Account_Document
    then show ?thesis by (simp only:) code_simp
  next
    case Order_Document
    then show ?thesis by (simp only:) code_simp
  qed
  then show ?thesis by (simp add: registry_ok_def)
qed

lemma waiting_docs_ok: "scan_queue_ok sample_docs (ds_events waiting_docs)"
proof -
  have "doc_state_ok sample_docs (\<lambda>name. name = ''don.pdf'') (fold (doc_step sample_docs) ps s)"
    if "doc_state_ok sample_docs (\<lambda>name. name = ''don.pdf'') s"
      and "list_all (api_allowed sample_docs (\<lambda>name. name = ''don.pdf'')) ps" for ps s
    using that by (induction ps arbitrary: s) (simp_all add: doc_step_ok [OF sample_docs_sound])
  from this [OF empty_docs_ok, of "take 2 sample_doc_requests"] show ?thesis
    by (simp add: waiting_docs_def doc_state_ok_def sample_doc_requests_def api_allowed_def)
qed

theorem scan_run_witness:
  "\<exists>res s'. process_document_scan_queue sample_docs (J_Int 5) False J_Null waiting_docs = (Inr res, s')
     \<and> sr_selected res = 2 \<and> sr_processed res + sr_infected res + sr_failed res = 2"
proof -
  have len: "length (scan_due sample_docs (J_Int 5) False J_Null (ds_events waiting_docs)) = 2" by code_simp
  obtain r s' where run: "process_document_scan_queue sample_docs (J_Int 5) False J_Null waiting_docs = (r, s')"
    by fastforce
  have "de_path_exists sample_docs path w \<noteq> Inl e" for path w e by (simp add: sample_docs_def)
  with scan_run_settles_documents [OF sample_registry waiting_docs_ok refl run] len run show ?thesis
    by (auto split: sum.splits)
qed

end
