(* ===== verification/Billing.thy ===== *)
theory Billing
  imports Complex_Main Json Tables "HOL-Library.List_Lexorder" "HOL-Library.Char_ord"
begin

text \<open>
  Billing of the shipments (\<open>wms/unit_equivalence.py\<close>, \<open>wms/billing_calculations.py\<close>,
  \<open>wms/models_domain/billing.py\<close>, \<open>wms/billing_document_handlers.py\<close>,
  \<open>wms/billing_exchange_rates.py\<close>, and the actions of \<open>wms/views_scan_billing.py\<close> and
  \<open>wms/views_portal_billing.py\<close>): quotes, invoices, payments, credit notes and replacements over
  the record \<open>bill_db\<close> of the billing tables. Amounts are rationals; a column keeps two decimals,
  rounded half to even.
\<close>

section \<open>Unit equivalence\<close>

record unit_rule =
  ur_label :: string
  ur_category :: "nat option"
  ur_applies_to_hors_format :: bool
  ur_units_per_item :: nat
  ur_priority :: nat
  ur_is_active :: bool

record unit_input =
  ui_product :: "nat option"
  ui_quantity :: int
  ui_is_hors_format :: bool

text \<open>
  \<open>_category_lineage\<close>: from the root down to the category. The walk up a chain of parents that
  comes back to itself does not end; with as much fuel as there are categories every other walk
  ends.
\<close>

fun category_walk :: "category table \<Rightarrow> nat \<Rightarrow> nat option \<Rightarrow> err + nat list" where
  "category_walk t fuel None = Inr []"
| "category_walk t 0 (Some k) = Inl Diverges"
| "category_walk t (Suc fuel) (Some k) =
     res_bind (require (row_get t k) Does_Not_Exist)
       (\<lambda>c. res_bind (category_walk t fuel (cat_parent c)) (\<lambda>rest. Inr (k # rest)))"

definition category_lineage :: "category table \<Rightarrow> nat option \<Rightarrow> err + nat list" where
  "category_lineage t k = res_bind (category_walk t (Suc (length t)) k) (\<lambda>ks. Inr (rev ks))"

definition rule_specificity :: "category table \<Rightarrow> unit_rule \<Rightarrow> err + nat \<times> nat \<times> int" where
  "rule_specificity t r =
     res_bind (category_lineage t (ur_category r))
       (\<lambda>lineage. Inr (if ur_applies_to_hors_format r then 1 else 0, length lineage, - int (ur_priority r)))"

text \<open>\<open>max(candidates, key=...)\<close>: the first of the greatest.\<close>

fun greatest_by_key :: "('k::linorder \<times> 'a) list \<Rightarrow> 'k \<times> 'a \<Rightarrow> 'a" where
  "greatest_by_key [] best = snd best"
| "greatest_by_key (x # xs) best = greatest_by_key xs (if fst best < fst x then x else best)"

fun with_keys :: "('a \<Rightarrow> err + 'k) \<Rightarrow> 'a list \<Rightarrow> err + ('k \<times> 'a) list" where
  "with_keys f [] = Inr []"
| "with_keys f (x # xs) = res_bind (f x) (\<lambda>k. res_bind (with_keys f xs) (\<lambda>ys. Inr ((k, x) # ys)))"

definition resolve_unit_equivalence_rule ::
  "db \<Rightarrow> nat option \<Rightarrow> unit_rule list \<Rightarrow> bool \<Rightarrow> err + unit_rule option" where
  "resolve_unit_equivalence_rule d product rules is_hors_format =
     (let category = (case product of None \<Rightarrow> None
        | Some k \<Rightarrow> (case row_get (db_products d) k of None \<Rightarrow> None | Some p \<Rightarrow> p_category p))
      in res_bind (category_lineage (db_categories d) category) (\<lambda>lineage.
         let candidates = filter (\<lambda>r. ur_is_active r
               \<and> \<not> (ur_applies_to_hors_format r \<and> \<not> is_hors_format)
               \<and> (case ur_category r of None \<Rightarrow> True | Some c \<Rightarrow> c \<in> set lineage)) rules
         in case candidates of
              [] \<Rightarrow> Inr None
            | _ \<Rightarrow> res_bind (with_keys (rule_specificity (db_categories d)) candidates)
                     (\<lambda>ks. case ks of [] \<Rightarrow> Inr None | b # rest \<Rightarrow> Inr (Some (greatest_by_key rest b)))))"

definition units_per_item :: "nat \<Rightarrow> unit_rule option \<Rightarrow> int" where
  "units_per_item default_units r = (case r of None \<Rightarrow> int default_units | Some x \<Rightarrow> int (ur_units_per_item x))"

definition resolve_shipment_unit_count ::
  "db \<Rightarrow> unit_input list \<Rightarrow> unit_rule list \<Rightarrow> nat \<Rightarrow> err + int" where
  "resolve_shipment_unit_count d items rules default_units_per_item =
     for_each (\<lambda>item total.
       res_bind (resolve_unit_equivalence_rule d (ui_product item) rules (ui_is_hors_format item))
         (\<lambda>r. Inr (total + ui_quantity item * units_per_item default_units_per_item r))) items 0"

section \<open>The breakdown of a bill\<close>

datatype base_unit_source = Src_Shipped_Units | Src_Allocated_Received_Units | Src_Manual

datatype extra_unit_mode = Extra_None | Extra_Shipped_Minus_Allocated | Extra_Manual

record computation_profile =
  cp_code :: string
  cp_label :: string
  cp_is_active :: bool
  cp_base_unit_source :: base_unit_source
  cp_base_step_size :: nat
  cp_base_step_price :: rat
  cp_extra_unit_mode :: extra_unit_mode
  cp_extra_unit_price :: rat
  cp_allow_manual_override :: bool
  cp_is_default_for_shipment_only :: bool
  cp_is_default_for_receipt_linked :: bool

record billing_breakdown =
  bb_base_units :: int
  bb_base_block_count :: int
  bb_extra_units :: int
  bb_base_amount :: rat
  bb_extra_amount :: rat
  bb_total_amount :: rat
  bb_used_manual_override :: bool

text \<open>Python's floor division of the source is \<open>div\<close>; a step of zero raises.\<close>

definition compute_started_block_count :: "int \<Rightarrow> int \<Rightarrow> err + int" where
  "compute_started_block_count units step_size =
     (if units \<le> 0 then Inr 0
      else if step_size = 0 then Inl (Runtime_Error ''ZeroDivisionError'')
      else Inr ((units - 1) div step_size + 1))"

definition resolve_base_units ::
  "computation_profile \<Rightarrow> int \<Rightarrow> int \<Rightarrow> int option \<Rightarrow> int \<times> bool" where
  "resolve_base_units profile shipped_units allocated_received_units manual_base_units =
     (case (cp_allow_manual_override profile, manual_base_units) of
        (True, Some n) \<Rightarrow> (max 0 n, True)
      | _ \<Rightarrow>
          (case cp_base_unit_source profile of
             Src_Shipped_Units \<Rightarrow> (max 0 shipped_units, False)
           | Src_Allocated_Received_Units \<Rightarrow> (max 0 allocated_received_units, False)
           | Src_Manual \<Rightarrow> (max 0 (case manual_base_units of None \<Rightarrow> 0 | Some n \<Rightarrow> n), manual_base_units \<noteq> None)))"

definition resolve_extra_units ::
  "computation_profile \<Rightarrow> int \<Rightarrow> int \<Rightarrow> int option \<Rightarrow> int \<times> bool" where
  "resolve_extra_units profile shipped_units allocated_received_units manual_extra_units =
     (case (cp_allow_manual_override profile, manual_extra_units) of
        (True, Some n) \<Rightarrow> (max 0 n, True)
      | _ \<Rightarrow>
          (case cp_extra_unit_mode profile of
             Extra_None \<Rightarrow> (0, False)
           | Extra_Shipped_Minus_Allocated \<Rightarrow> (max 0 (shipped_units - allocated_received_units), False)
           | Extra_Manual \<Rightarrow> (max 0 (case manual_extra_units of None \<Rightarrow> 0 | Some n \<Rightarrow> n), manual_extra_units \<noteq> None)))"

definition build_billing_breakdown ::
  "computation_profile \<Rightarrow> int \<Rightarrow> int \<Rightarrow> int option \<Rightarrow> int option \<Rightarrow> err + billing_breakdown" where
  "build_billing_breakdown profile shipped_units allocated_received_units manual_base_units manual_extra_units =
     (case resolve_base_units profile shipped_units allocated_received_units manual_base_units of
        (base_units, used_manual_base) \<Rightarrow>
      case resolve_extra_units profile shipped_units allocated_received_units manual_extra_units of
        (extra_units, used_manual_extra) \<Rightarrow>
      res_bind (compute_started_block_count base_units (int (cp_base_step_size profile))) (\<lambda>block_count.
        let base_amount = of_int block_count * cp_base_step_price profile;
            extra_amount = of_int extra_units * cp_extra_unit_price profile
        in Inr \<lparr>bb_base_units = base_units, bb_base_block_count = block_count, bb_extra_units = extra_units,
                bb_base_amount = base_amount, bb_extra_amount = extra_amount,
                bb_total_amount = base_amount + extra_amount,
                bb_used_manual_override = (used_manual_base \<or> used_manual_extra)\<rparr>))"

lemma started_blocks_cover:
  assumes "compute_started_block_count units step = Inr n" and "0 < units" and "0 < step"
  shows "(n - 1) * step < units" and "units \<le> n * step"
proof -
  have n: "n - 1 = (units - 1) div step" using assms by (simp add: compute_started_block_count_def)
  have split: "units - 1 = (units - 1) div step * step + (units - 1) mod step"
    by (rule div_mult_mod_eq [symmetric])
  have "0 \<le> (units - 1) mod step" and "(units - 1) mod step < step" using assms(3) by simp_all
  with split show "(n - 1) * step < units" unfolding n by linarith
  have "n * step = (n - 1) * step + step" by (simp add: algebra_simps)
  with split \<open>(units - 1) mod step < step\<close> show "units \<le> n * step" unfolding n by linarith
qed

section \<open>Billing documents\<close>

datatype document_kind = Kind_Quote | Kind_Invoice | Kind_Credit_Note

datatype bill_status =
    Bill_Draft | Bill_Issued | Bill_Partially_Paid | Bill_Paid | Bill_Cancelled | Bill_Cancelled_Or_Corrected

datatype correction_state = Corr_None | Corr_In_Review | Corr_Resolved

datatype issue_status = Iss_Open | Iss_In_Review | Iss_Resolved

text \<open>An association with its billing profile, and the effective address of its contact.\<close>

record post_address =
  pa_line1 :: string
  pa_line2 :: string
  pa_postal_code :: string
  pa_city :: string
  pa_region :: string
  pa_country :: string

record association =
  as_contact :: nat
  as_contact_name :: string
  as_default_computation_profile :: "nat option"
  as_default_currency :: string
  as_billing_name_override :: string
  as_billing_address_override :: string
  as_address :: "post_address option"

record allocation =
  al_receipt :: nat
  al_shipment :: nat
  al_units :: int

record bill_line =
  bl_document :: nat
  bl_line_number :: nat
  bl_label :: string
  bl_description :: string
  bl_quantity :: rat
  bl_unit_price :: rat
  bl_total_amount :: rat
  bl_service :: "nat option"
  bl_is_manual :: bool

text \<open>The snapshot of an issued document. Its amounts are the numbers its texts spell.\<close>

record snapshot_line =
  sn_line_number :: nat
  sn_label :: string
  sn_description :: string
  sn_quantity :: rat
  sn_unit_price :: rat
  sn_amount :: rat

record snapshot_shipment =
  sh_reference :: string
  sh_date :: date
  sh_carton_count :: nat

record snapshot =
  sp_kind :: document_kind
  sp_number :: string
  sp_billing_name :: string
  sp_billing_address :: string
  sp_currency :: string
  sp_exchange_rate :: "rat option"
  sp_total_amount :: rat
  sp_lines :: "snapshot_line list"
  sp_shipments :: "snapshot_shipment list"

record bill =
  bi_kind :: document_kind
  bi_status :: bill_status
  bi_correction_state :: correction_state
  bi_association :: nat
  bi_quote_number :: "string option"
  bi_invoice_number :: "string option"
  bi_credit_note_number :: "string option"
  bi_computation_profile :: "nat option"
  bi_currency :: string
  bi_exchange_rate :: "rat option"
  bi_parent_document :: "nat option"
  bi_issued_snapshot :: "snapshot option"
  bi_issued_at :: "int option"
  bi_created_at :: int
  bi_updated_at :: int

record payment =
  pay_document :: nat
  pay_amount :: rat
  pay_currency :: string
  pay_paid_on :: date
  pay_method :: string
  pay_reference :: string
  pay_comment :: string
  pay_created_by :: "nat option"
  pay_created_at :: int

record bill_issue =
  is_document :: nat
  is_status :: issue_status

record bill_db =
  bd_computation_profiles :: "computation_profile table"
  bd_associations :: "association table"
  bd_allocations :: "allocation table"
  bd_documents :: "bill table"
  bd_shipment_links :: "(nat \<times> nat) table"
  bd_receipt_links :: "(nat \<times> nat) table"
  bd_lines :: "bill_line table"
  bd_payments :: "payment table"
  bd_issues :: "bill_issue table"

text \<open>\<open>datetime.date()\<close> of a stored instant is its date in UTC, not the local one.\<close>

record bill_env =
  be_env :: env
  be_utc_date :: "int \<Rightarrow> date"

section \<open>Saving a document\<close>

text \<open>
  A decimal column with two places: the value is rounded half to even, and one with more than ten
  digits raises.
\<close>

definition round_half_even :: "rat \<Rightarrow> int" where
  "round_half_even x =
     (let f = \<lfloor>x\<rfloor>; r = x - of_int f in
      if r < 1 / 2 then f else if 1 / 2 < r then f + 1 else if even f then f else f + 1)"

definition decimal_column :: "rat \<Rightarrow> err + rat" where
  "decimal_column x =
     (let cents = round_half_even (100 * x) in
      if \<bar>cents\<bar> < 10 ^ 10 then Inr (of_int cents / 100) else Inl (Runtime_Error ''InvalidOperation''))"

definition normalize_number :: "string option \<Rightarrow> string option" where
  "normalize_number n = (case n of None \<Rightarrow> None | Some s \<Rightarrow> if strip s = [] then None else Some (strip s))"

definition normalize_optional_numbers :: "bill \<Rightarrow> bill" where
  "normalize_optional_numbers b =
     b\<lparr>bi_quote_number := normalize_number (bi_quote_number b),
       bi_invoice_number := normalize_number (bi_invoice_number b),
       bi_credit_note_number := normalize_number (bi_credit_note_number b)\<rparr>"

text \<open>The greatest number in the order of texts, which is the order of the query.\<close>

definition last_quote_number :: "string \<Rightarrow> nat option \<Rightarrow> bill table \<Rightarrow> string option" where
  "last_quote_number prefix pk t =
     (let numbers = concat (map (\<lambda>(k, b). case bi_quote_number b of None \<Rightarrow> [] | Some n \<Rightarrow> [n])
        (rows_where (\<lambda>k b. bi_kind b = Kind_Quote
           \<and> (case bi_quote_number b of None \<Rightarrow> False | Some n \<Rightarrow> startswith n prefix)
           \<and> pk \<noteq> Some k) t))
      in if numbers = [] then None else Some (foldl max (hd numbers) (tl numbers)))"

definition build_quote_number :: "env \<Rightarrow> nat option \<Rightarrow> bill table \<Rightarrow> err + string" where
  "build_quote_number e pk t =
     (let prefix = ''DEV-'' @ nat_str (d_year (e_today e)) @ ''-'' in
      res_bind (case last_quote_number prefix pk t of
                  None \<Rightarrow> Inr 1
                | Some latest \<Rightarrow>
                    res_bind (require (int_of_text (drop (length prefix) latest)) (Value_Error ''int''))
                      (\<lambda>n. Inr (n + 1)))
        (\<lambda>number. Inr (prefix @ (if 0 \<le> number then zero_pad 4 (nat number)
            else CHR ''-'' # zero_pad 3 (nat (- number))))))"

text \<open>What \<open>full_clean\<close> checks of the fields the handlers set, and \<open>clean\<close>.\<close>

definition taken_number :: "(bill \<Rightarrow> string option) \<Rightarrow> nat option \<Rightarrow> bill \<Rightarrow> bill table \<Rightarrow> bool" where
  "taken_number f pk b t \<longleftrightarrow> f b \<noteq> None \<and> list_ex (\<lambda>(k, other). pk \<noteq> Some k \<and> f other = f b) t"

definition too_long :: "string option \<Rightarrow> bool" where
  "too_long n = (case n of None \<Rightarrow> False | Some s \<Rightarrow> 20 < length s)"

definition rate_fits :: "rat option \<Rightarrow> bool" where
  "rate_fits r = (case r of None \<Rightarrow> True
     | Some x \<Rightarrow> \<bar>x\<bar> < 10 ^ 6 \<and> of_int \<lfloor>1000000 * x\<rfloor> = 1000000 * x)"

definition bill_full_clean :: "nat option \<Rightarrow> bill \<Rightarrow> bill table \<Rightarrow> err + unit" where
  "bill_full_clean pk b t =
     raise_if (bi_currency b = [] \<or> 3 < length (bi_currency b)
         \<or> too_long (bi_quote_number b) \<or> too_long (bi_invoice_number b) \<or> too_long (bi_credit_note_number b)
         \<or> \<not> rate_fits (bi_exchange_rate b)
         \<or> (bi_kind b = Kind_Invoice \<and> (bi_status b = Bill_Issued \<or> bi_issued_at b \<noteq> None) \<and> bi_invoice_number b = None)
         \<or> taken_number bi_quote_number pk b t \<or> taken_number bi_invoice_number pk b t
         \<or> taken_number bi_credit_note_number pk b t)
       (Validation_Error ''BillingDocument'')"

text \<open>\<open>BillingDocument.save\<close> up to the write of the row.\<close>

definition prepare_bill :: "env \<Rightarrow> nat option \<Rightarrow> bill \<Rightarrow> bill table \<Rightarrow> err + bill" where
  "prepare_bill e pk b0 t =
     (let b1 = normalize_optional_numbers b0 in
      res_bind (if bi_kind b1 = Kind_Quote \<and> bi_quote_number b1 = None
                then res_bind (build_quote_number e pk t) (\<lambda>n. Inr (b1\<lparr>bi_quote_number := Some n\<rparr>))
                else Inr b1)
        (\<lambda>b. res_bind (bill_full_clean pk b t) (\<lambda>_. Inr (b\<lparr>bi_updated_at := e_now e\<rparr>))))"

definition create_bill :: "env \<Rightarrow> bill \<Rightarrow> bill_db \<Rightarrow> err + nat \<times> bill_db" where
  "create_bill e b s =
     res_bind (prepare_bill e None b (bd_documents s))
       (\<lambda>b'. Inr (next_pk (bd_documents s), s\<lparr>bd_documents := row_ins b' (bd_documents s)\<rparr>))"

definition save_bill :: "env \<Rightarrow> nat \<Rightarrow> bill \<Rightarrow> bill_db \<Rightarrow> err + bill_db" where
  "save_bill e k b s =
     res_bind (prepare_bill e (Some k) b (bd_documents s))
       (\<lambda>b'. Inr (s\<lparr>bd_documents := row_upd k (\<lambda>_. b') (bd_documents s)\<rparr>))"

definition create_line :: "bill_line \<Rightarrow> bill_db \<Rightarrow> err + bill_db" where
  "create_line l s =
     res_bind (decimal_column (bl_quantity l)) (\<lambda>q.
     res_bind (decimal_column (bl_unit_price l)) (\<lambda>u.
     res_bind (decimal_column (bl_total_amount l)) (\<lambda>a.
     res_bind (raise_if (list_ex (\<lambda>(k, x). bl_document x = bl_document l \<and> bl_line_number x = bl_line_number l) (bd_lines s))
                 Integrity_Error) (\<lambda>_.
       Inr (s\<lparr>bd_lines := row_ins (l\<lparr>bl_quantity := q, bl_unit_price := u, bl_total_amount := a\<rparr>) (bd_lines s)\<rparr>)))))"

definition create_link ::
  "nat \<times> nat \<Rightarrow> (nat \<times> nat) table \<Rightarrow> err + (nat \<times> nat) table" where
  "create_link l t = (if list_ex (\<lambda>(k, x). x = l) t then Inl Integrity_Error else Inr (row_ins l t))"

text \<open>\<open>BillingIssue.save\<close>: the issue is written, then the correction state of its document.\<close>

definition save_issue :: "env \<Rightarrow> nat option \<Rightarrow> bill_issue \<Rightarrow> bill_db \<Rightarrow> bill_db" where
  "save_issue e k i s =
     (let s1 = (case k of
            None \<Rightarrow> s\<lparr>bd_issues := row_ins i (bd_issues s)\<rparr>
          | Some n \<Rightarrow> s\<lparr>bd_issues := row_upd n (\<lambda>_. i) (bd_issues s)\<rparr>);
          desired = (if is_status i = Iss_Open \<or> is_status i = Iss_In_Review then Corr_In_Review else Corr_Resolved)
      in s1\<lparr>bd_documents := row_upd (is_document i)
           (\<lambda>b. b\<lparr>bi_correction_state := desired, bi_updated_at := e_now e\<rparr>) (bd_documents s1)\<rparr>)"

section \<open>What may be billed\<close>

definition resolve_shipment_billing_date :: "bill_env \<Rightarrow> shipment \<Rightarrow> date" where
  "resolve_shipment_billing_date be sh = be_utc_date be (case s_ready_at sh of Some t \<Rightarrow> t | None \<Rightarrow> s_created_at sh)"

definition period_includes :: "(date option \<times> date option) option \<Rightarrow> date \<Rightarrow> bool" where
  "period_includes period billing_date =
     (case period of None \<Rightarrow> True
      | Some (period_start, period_end) \<Rightarrow>
          \<not> (case period_start of None \<Rightarrow> False | Some a \<Rightarrow> billing_date < a)
          \<and> \<not> (case period_end of None \<Rightarrow> False | Some b \<Rightarrow> b < billing_date))"

definition carton_count_for_shipment :: "nat \<Rightarrow> db \<Rightarrow> nat" where
  "carton_count_for_shipment k d = length (rows_where (\<lambda>i c. c_shipment c = Some k) (db_cartons d))"

definition allocations_of_shipment :: "nat \<Rightarrow> bill_db \<Rightarrow> allocation list" where
  "allocations_of_shipment k s =
     map snd (sort_key (\<lambda>p. al_receipt (snd p)) (rows_where (\<lambda>i a. al_shipment a = k) (bd_allocations s)))"

definition allocated_units_for_shipment :: "nat \<Rightarrow> bill_db \<Rightarrow> int" where
  "allocated_units_for_shipment k s = sum_list (map al_units (allocations_of_shipment k s))"

record candidate_row =
  cr_shipment :: nat
  cr_reference :: string
  cr_billing_date :: date
  cr_carton_count :: nat
  cr_allocated_units :: int

text \<open>
  The two conditions of \<open>exclude\<close> span the links of a shipment, which are many: each asks for some
  link of its own, so they need not hold of the same document.
\<close>

definition linked_bills :: "nat \<Rightarrow> bill_db \<Rightarrow> bill list" where
  "linked_bills k s =
     concat (map (\<lambda>(i, l). case row_get (bd_documents s) (fst l) of None \<Rightarrow> [] | Some b \<Rightarrow> [b])
       (rows_where (\<lambda>i l. snd l = k) (bd_shipment_links s)))"

definition excluded_from_invoices :: "nat \<Rightarrow> bill_db \<Rightarrow> bool" where
  "excluded_from_invoices k s \<longleftrightarrow>
     list_ex (\<lambda>b. bi_kind b = Kind_Invoice) (linked_bills k s)
     \<and> list_ex (\<lambda>b. bi_status b = Bill_Issued) (linked_bills k s)"

definition descending_instant :: "int option \<Rightarrow> int \<times> int" where
  "descending_instant t = (case t of Some n \<Rightarrow> (0, - n) | None \<Rightarrow> (1, 0))"

definition build_editor_candidates ::
  "bill_env \<Rightarrow> nat \<Rightarrow> document_kind \<Rightarrow> (date option \<times> date option) option \<Rightarrow> db \<Rightarrow> bill_db
     \<Rightarrow> err + candidate_row list" where
  "build_editor_candidates be profile kind period d s =
     res_bind (require (row_get (bd_associations s) profile) Does_Not_Exist) (\<lambda>a.
       let shipments = rows_where (\<lambda>k sh. s_shipper_contact_ref sh = Some (as_contact a)
               \<and> s_status sh = Ship_Shipped \<and> s_archived_at sh = None
               \<and> \<not> (kind = Kind_Invoice \<and> excluded_from_invoices k s)) (db_shipments d);
           ordered = sort_key (\<lambda>(k, sh). (descending_instant (s_ready_at sh), - s_created_at sh, - int k)) shipments
       in Inr (map (\<lambda>(k, sh). \<lparr>cr_shipment = k, cr_reference = s_reference sh,
              cr_billing_date = resolve_shipment_billing_date be sh,
              cr_carton_count = carton_count_for_shipment k d,
              cr_allocated_units = allocated_units_for_shipment k s\<rparr>)
            (filter (\<lambda>(k, sh). period_includes period (resolve_shipment_billing_date be sh)) ordered)))"

section \<open>Building a draft\<close>

definition resolve_document_computation_profile :: "association \<Rightarrow> bill_db \<Rightarrow> (nat \<times> computation_profile) option" where
  "resolve_document_computation_profile a s =
     (case as_default_computation_profile a of
        Some k \<Rightarrow> map_option (Pair k) (row_get (bd_computation_profiles s) k)
      | None \<Rightarrow>
          (case sort_key (\<lambda>(k, p). (cp_label p, cp_code p))
              (rows_where (\<lambda>k p. cp_is_active p \<and> cp_is_default_for_shipment_only p) (bd_computation_profiles s)) of
             [] \<Rightarrow> None
           | x # _ \<Rightarrow> Some x))"

text \<open>A date in the text of a line, as Python writes it.\<close>

definition bill_date_str :: "date \<Rightarrow> string" where
  "bill_date_str d = zero_pad 4 (d_year d) @ ''-'' @ zero_pad 2 (d_month d) @ ''-'' @ zero_pad 2 (d_day d)"

definition shipment_amount :: "nat \<Rightarrow> computation_profile option \<Rightarrow> db \<Rightarrow> bill_db \<Rightarrow> err + rat" where
  "shipment_amount k profile d s =
     (case profile of
        None \<Rightarrow> Inr 0
      | Some p \<Rightarrow> res_bind (build_billing_breakdown p (int (carton_count_for_shipment k d))
                   (allocated_units_for_shipment k s) None None) (\<lambda>b. Inr (bb_total_amount b)))"

definition create_document_line ::
  "bill_env \<Rightarrow> nat \<Rightarrow> nat \<Rightarrow> nat \<times> shipment \<Rightarrow> computation_profile option \<Rightarrow> db \<Rightarrow> bill_db \<Rightarrow> err + bill_db" where
  "create_document_line be doc number ship profile d s =
     res_bind (shipment_amount (fst ship) profile d s) (\<lambda>total_amount.
       create_line \<lparr>bl_document = doc, bl_line_number = number,
         bl_label = ''Expedition '' @ s_reference (snd ship),
         bl_description = ''Date expedition: '' @ bill_date_str (resolve_shipment_billing_date be (snd ship))
           @ '' | Colis: '' @ nat_str (carton_count_for_shipment (fst ship) d)
           @ '' | Reference: '' @ s_reference (snd ship),
         bl_quantity = 1, bl_unit_price = total_amount, bl_total_amount = total_amount,
         bl_service = None, bl_is_manual = False\<rparr> s)"

text \<open>A line typed in by hand; its amount is the text's decimal, none when it is no number.\<close>

record manual_line =
  ml_label :: string
  ml_description :: string
  ml_amount :: "rat option"

definition add_shipment ::
  "bill_env \<Rightarrow> nat \<Rightarrow> computation_profile option \<Rightarrow> db \<Rightarrow> nat \<times> shipment \<Rightarrow> nat \<times> nat list \<times> bill_db
     \<Rightarrow> err + nat \<times> nat list \<times> bill_db" where
  "add_shipment be doc profile d ship st =
     (case st of (number, receipts, s) \<Rightarrow>
        res_bind (create_link (doc, fst ship) (bd_shipment_links s)) (\<lambda>links.
          let s1 = s\<lparr>bd_shipment_links := links\<rparr> in
          res_bind (create_document_line be doc number ship profile d s1) (\<lambda>s2.
            Inr (Suc number, receipts @ map al_receipt (allocations_of_shipment (fst ship) s1), s2))))"

definition add_receipt :: "nat \<Rightarrow> nat \<Rightarrow> bill_db \<Rightarrow> err + bill_db" where
  "add_receipt doc receipt s =
     res_bind (create_link (doc, receipt) (bd_receipt_links s)) (\<lambda>links. Inr (s\<lparr>bd_receipt_links := links\<rparr>))"

definition add_manual_line :: "nat \<Rightarrow> manual_line \<Rightarrow> nat \<times> bill_db \<Rightarrow> err + nat \<times> bill_db" where
  "add_manual_line doc m st =
     (case st of (number, s) \<Rightarrow>
        if strip (ml_label m) = [] then Inr (number, s)
        else
          res_bind (require (ml_amount m) (Runtime_Error ''InvalidOperation'')) (\<lambda>amount.
          res_bind (create_line \<lparr>bl_document = doc, bl_line_number = number, bl_label = strip (ml_label m),
              bl_description = strip (ml_description m), bl_quantity = 1, bl_unit_price = amount,
              bl_total_amount = amount, bl_service = None, bl_is_manual = True\<rparr> s)
            (\<lambda>s1. Inr (Suc number, s1))))"

definition create_billing_draft ::
  "bill_env \<Rightarrow> nat \<Rightarrow> document_kind \<Rightarrow> nat list \<Rightarrow> manual_line list \<Rightarrow> string \<Rightarrow> rat option \<Rightarrow> db \<Rightarrow> bill_db
     \<Rightarrow> err + nat \<times> bill_db" where
  "create_billing_draft be profile kind shipment_ids manual_lines currency exchange_rate d s =
     res_bind (require (row_get (bd_associations s) profile) Does_Not_Exist) (\<lambda>a.
       let selected = sort_key fst (rows_where (\<lambda>k sh. k \<in> set shipment_ids
              \<and> s_shipper_contact_ref sh = Some (as_contact a)) (db_shipments d))
       in if selected = [] then Inl (Value_Error ''At least one shipment must be selected to build a billing draft.'')
          else
            (let computation = resolve_document_computation_profile a s in
             res_bind (create_bill (be_env be)
                 \<lparr>bi_kind = kind, bi_status = Bill_Draft, bi_correction_state = Corr_None, bi_association = profile,
                  bi_quote_number = None, bi_invoice_number = None, bi_credit_note_number = None,
                  bi_computation_profile = map_option fst computation,
                  bi_currency = str_upper (first_text [currency, as_default_currency a, ''EUR'']),
                  bi_exchange_rate = exchange_rate, bi_parent_document = None, bi_issued_snapshot = None,
                  bi_issued_at = None, bi_created_at = e_now (be_env be), bi_updated_at = e_now (be_env be)\<rparr> s)
               (\<lambda>(doc, s1).
                  res_bind (for_each (add_shipment be doc (map_option snd computation) d) selected (1, [], s1))
                    (\<lambda>(number, receipts, s2).
                      res_bind (for_each (add_receipt doc) (sort (remdups receipts)) s2)
                        (\<lambda>s3. res_bind (for_each (add_manual_line doc) manual_lines (number, s3))
                          (\<lambda>(_, s4). Inr (doc, s4)))))))"

section \<open>Payments\<close>

definition lines_of :: "nat \<Rightarrow> bill_db \<Rightarrow> bill_line list" where
  "lines_of doc s = map snd (sort_key (\<lambda>p. bl_line_number (snd p)) (rows_where (\<lambda>k l. bl_document l = doc) (bd_lines s)))"

definition lines_total_amount :: "nat \<Rightarrow> bill_db \<Rightarrow> rat" where
  "lines_total_amount doc s = sum_list (map bl_total_amount (lines_of doc s))"

definition paid_amount :: "nat \<Rightarrow> bill_db \<Rightarrow> rat" where
  "paid_amount doc s = sum_list (map (\<lambda>(k, p). pay_amount p) (rows_where (\<lambda>k p. pay_document p = doc) (bd_payments s)))"

definition status_for_payments :: "rat \<Rightarrow> rat \<Rightarrow> bill_status" where
  "status_for_payments paid due =
     (if paid \<le> 0 \<or> due \<le> 0 then Bill_Issued
      else if paid < due then Bill_Partially_Paid
      else Bill_Paid)"

definition recompute_invoice_status :: "env \<Rightarrow> nat \<Rightarrow> bill_db \<Rightarrow> err + bill_db" where
  "recompute_invoice_status e doc s =
     res_bind (require (row_get (bd_documents s) doc) Does_Not_Exist) (\<lambda>b.
       if bi_kind b \<noteq> Kind_Invoice then Inr s
       else if bi_status b \<in> {Bill_Draft, Bill_Cancelled, Bill_Cancelled_Or_Corrected} then Inr s
       else
         (let new_status = status_for_payments (paid_amount doc s) (lines_total_amount doc s) in
          if bi_status b \<noteq> new_status then
            Inr (s\<lparr>bd_documents := row_upd doc (\<lambda>b. b\<lparr>bi_status := new_status, bi_updated_at := e_now e\<rparr>) (bd_documents s)\<rparr>)
          else Inr s))"

record payment_request =
  pr_amount :: "rat option"
  pr_method :: string
  pr_paid_on :: "date option"
  pr_reference :: string
  pr_comment :: string
  pr_currency :: string
  pr_user :: "nat option"

definition record_billing_payment :: "env \<Rightarrow> nat \<Rightarrow> payment_request \<Rightarrow> bill_db \<Rightarrow> err + bill_db" where
  "record_billing_payment e doc q s =
     res_bind (require (row_get (bd_documents s) doc) Does_Not_Exist) (\<lambda>b.
     res_bind (raise_if (bi_kind b \<noteq> Kind_Invoice) (Value_Error ''Payments can only be recorded on invoices.'')) (\<lambda>_.
     res_bind (raise_if (bi_status b = Bill_Draft) (Value_Error ''Issued invoices are required before recording payments.'')) (\<lambda>_.
     res_bind (require (pr_amount q) (Runtime_Error ''InvalidOperation'')) (\<lambda>amount.
     res_bind (decimal_column amount) (\<lambda>stored.
       recompute_invoice_status e doc
         (s\<lparr>bd_payments := row_ins \<lparr>pay_document = doc, pay_amount = stored,
              pay_currency = str_upper (first_text [pr_currency q, bi_currency b, ''EUR'']),
              pay_paid_on = (case pr_paid_on q of Some x \<Rightarrow> x | None \<Rightarrow> e_today e),
              pay_method = pr_method q, pay_reference = strip (pr_reference q), pay_comment = strip (pr_comment q),
              pay_created_by = pr_user q, pay_created_at = e_now e\<rparr> (bd_payments s)\<rparr>))))))"

section \<open>Issuing\<close>

definition resolved_document_number :: "nat \<Rightarrow> bill \<Rightarrow> string" where
  "resolved_document_number k b =
     first_text [case bi_invoice_number b of None \<Rightarrow> [] | Some n \<Rightarrow> n,
                 case bi_quote_number b of None \<Rightarrow> [] | Some n \<Rightarrow> n,
                 case bi_credit_note_number b of None \<Rightarrow> [] | Some n \<Rightarrow> n, ''BILL-'' @ nat_str k]"

definition resolved_billing_name :: "association \<Rightarrow> string" where
  "resolved_billing_name a = first_text [strip (as_billing_name_override a), as_contact_name a]"

definition join_with :: "string \<Rightarrow> string list \<Rightarrow> string" where
  "join_with sep xs = (case xs of [] \<Rightarrow> [] | y # ys \<Rightarrow> y @ concat (map (\<lambda>z. sep @ z) ys))"

definition resolved_billing_address :: "association \<Rightarrow> string" where
  "resolved_billing_address a =
     (let override = strip (as_billing_address_override a) in
      if override \<noteq> [] then override
      else
        (case as_address a of
           None \<Rightarrow> []
         | Some ad \<Rightarrow>
             (let city_line = strip (join_with '' '' (filter (\<lambda>x. x \<noteq> []) [pa_postal_code ad, pa_city ad]))
              in join_with [CHR 0x0A] (filter (\<lambda>x. x \<noteq> [])
                   [pa_line1 ad, pa_line2 ad, city_line, pa_region ad, pa_country ad]))))"

definition shipment_rows :: "bill_env \<Rightarrow> nat \<Rightarrow> db \<Rightarrow> bill_db \<Rightarrow> snapshot_shipment list" where
  "shipment_rows be doc d s =
     concat (map (\<lambda>(i, l). case row_get (db_shipments d) (snd l) of None \<Rightarrow> []
         | Some sh \<Rightarrow> [\<lparr>sh_reference = s_reference sh, sh_date = resolve_shipment_billing_date be sh,
              sh_carton_count = carton_count_for_shipment (snd l) d\<rparr>])
       (sort_key (\<lambda>(i, l). snd l) (rows_where (\<lambda>i l. fst l = doc) (bd_shipment_links s))))"

definition snapshot_line_of :: "bill_line \<Rightarrow> snapshot_line" where
  "snapshot_line_of l = \<lparr>sn_line_number = bl_line_number l, sn_label = bl_label l, sn_description = bl_description l,
     sn_quantity = bl_quantity l, sn_unit_price = bl_unit_price l, sn_amount = bl_total_amount l\<rparr>"

definition build_issued_document_snapshot ::
  "bill_env \<Rightarrow> nat \<Rightarrow> bill \<Rightarrow> db \<Rightarrow> bill_db \<Rightarrow> err + snapshot" where
  "build_issued_document_snapshot be doc b d s =
     res_bind (require (row_get (bd_associations s) (bi_association b)) Does_Not_Exist) (\<lambda>a.
       Inr \<lparr>sp_kind = bi_kind b, sp_number = resolved_document_number doc b, sp_billing_name = resolved_billing_name a,
            sp_billing_address = resolved_billing_address a, sp_currency = bi_currency b,
            sp_exchange_rate = bi_exchange_rate b, sp_total_amount = lines_total_amount doc s,
            sp_lines = map snapshot_line_of (lines_of doc s), sp_shipments = shipment_rows be doc d s\<rparr>)"

definition issue_billing_document ::
  "bill_env \<Rightarrow> nat \<Rightarrow> string option \<Rightarrow> db \<Rightarrow> bill_db \<Rightarrow> err + bill_db" where
  "issue_billing_document be doc invoice_number d s =
     res_bind (require (row_get (bd_documents s) doc) Does_Not_Exist) (\<lambda>b.
     res_bind (if bi_kind b = Kind_Invoice then
          (let resolved = strip (case invoice_number of Some n \<Rightarrow> n
               | None \<Rightarrow> (case bi_invoice_number b of Some n \<Rightarrow> n | None \<Rightarrow> []))
           in if resolved = [] then Inl (Value_Error ''Invoice number is required before issue.'')
              else Inr (b\<lparr>bi_invoice_number := Some resolved\<rparr>))
        else Inr b) (\<lambda>b1.
     res_bind (build_issued_document_snapshot be doc b1 d s) (\<lambda>sp.
       save_bill (be_env be) doc
         (b1\<lparr>bi_issued_snapshot := Some sp, bi_status := Bill_Issued,
             bi_issued_at := (case bi_issued_at b1 of None \<Rightarrow> Some (e_now (be_env be)) | Some t \<Rightarrow> Some t)\<rparr>) s)))"

section \<open>Credit notes and replacements\<close>

definition clone_document_links :: "nat \<Rightarrow> nat \<Rightarrow> bill_db \<Rightarrow> err + bill_db" where
  "clone_document_links source target s =
     res_bind (for_each (\<lambda>(i, l) t. create_link (target, snd l) t)
         (rows_where (\<lambda>i l. fst l = source) (bd_shipment_links s)) (bd_shipment_links s)) (\<lambda>ships.
     res_bind (for_each (\<lambda>(i, l) t. create_link (target, snd l) t)
         (rows_where (\<lambda>i l. fst l = source) (bd_receipt_links s)) (bd_receipt_links s)) (\<lambda>receipts.
       Inr (s\<lparr>bd_shipment_links := ships, bd_receipt_links := receipts\<rparr>)))"

definition clone_document_lines :: "nat \<Rightarrow> nat \<Rightarrow> bool \<Rightarrow> bill_db \<Rightarrow> err + bill_db" where
  "clone_document_lines source target negate_amounts s =
     (let multiplier = (if negate_amounts then - 1 else 1) in
      for_each (\<lambda>l. create_line (l\<lparr>bl_document := target, bl_unit_price := bl_unit_price l * multiplier,
          bl_total_amount := bl_total_amount l * multiplier\<rparr>)) (lines_of source s) s)"

definition derived_bill :: "env \<Rightarrow> document_kind \<Rightarrow> bill_status \<Rightarrow> nat \<Rightarrow> bill \<Rightarrow> string option \<Rightarrow> int option \<Rightarrow> bill" where
  "derived_bill e kind status parent b credit_note_number issued_at =
     \<lparr>bi_kind = kind, bi_status = status, bi_correction_state = Corr_None, bi_association = bi_association b,
      bi_quote_number = None, bi_invoice_number = None, bi_credit_note_number = credit_note_number,
      bi_computation_profile = bi_computation_profile b, bi_currency = bi_currency b,
      bi_exchange_rate = bi_exchange_rate b, bi_parent_document = Some parent, bi_issued_snapshot = None,
      bi_issued_at = issued_at, bi_created_at = e_now e, bi_updated_at = e_now e\<rparr>"

definition create_credit_note_for_invoice ::
  "bill_env \<Rightarrow> nat \<Rightarrow> string option \<Rightarrow> db \<Rightarrow> bill_db \<Rightarrow> err + nat \<times> bill_db" where
  "create_credit_note_for_invoice be doc credit_note_number d s =
     res_bind (require (row_get (bd_documents s) doc) Does_Not_Exist) (\<lambda>b.
     res_bind (raise_if (bi_kind b \<noteq> Kind_Invoice) (Value_Error ''Credit notes can only be created from invoices.'')) (\<lambda>_.
     res_bind (create_bill (be_env be) (derived_bill (be_env be) Kind_Credit_Note Bill_Issued doc b
          (normalize_number credit_note_number) (Some (e_now (be_env be)))) s) (\<lambda>(note, s1).
     res_bind (clone_document_links doc note s1) (\<lambda>s2.
     res_bind (clone_document_lines doc note True s2) (\<lambda>s3.
     res_bind (require (row_get (bd_documents s3) note) Does_Not_Exist) (\<lambda>n.
     res_bind (build_issued_document_snapshot be note n d s3) (\<lambda>sp.
     res_bind (save_bill (be_env be) note (n\<lparr>bi_issued_snapshot := Some sp\<rparr>) s3) (\<lambda>s4.
       Inr (note, s4\<lparr>bd_documents := row_upd doc (\<lambda>b. b\<lparr>bi_status := Bill_Cancelled_Or_Corrected,
              bi_updated_at := e_now (be_env be)\<rparr>) (bd_documents s4)\<rparr>)))))))))"

definition create_replacement_invoice_from_invoice :: "env \<Rightarrow> nat \<Rightarrow> bill_db \<Rightarrow> err + nat \<times> bill_db" where
  "create_replacement_invoice_from_invoice e doc s =
     res_bind (require (row_get (bd_documents s) doc) Does_Not_Exist) (\<lambda>b.
     res_bind (raise_if (bi_kind b \<noteq> Kind_Invoice) (Value_Error ''Replacement invoices can only be created from invoices.'')) (\<lambda>_.
     res_bind (create_bill e (derived_bill e Kind_Invoice Bill_Draft doc b None None) s) (\<lambda>(replacement, s1).
     res_bind (clone_document_links doc replacement s1) (\<lambda>s2.
     res_bind (clone_document_lines doc replacement False s2) (\<lambda>s3.
       Inr (replacement, s3))))))"

section \<open>Exchange rates\<close>

text \<open>
  The daily rates of the central bank: a date and the rates by currency, none when they cannot be
  fetched. Rates have six decimals.
\<close>

type_synonym daily_rates = "(date option \<times> (string \<times> rat) list) option"

record exchange_rate_resolution =
  er_document_currency :: string
  er_base_currency :: string
  er_rate :: "rat option"
  er_provider_name :: "string option"
  er_as_of_date :: "date option"
  er_requires_manual_entry :: bool
  er_error_message :: string

definition ecb_auto_currencies :: "string list" where
  "ecb_auto_currencies = [''USD'', ''CHF'', ''CNY'']"

definition manual_only_currencies :: "string list" where
  "manual_only_currencies = [''VND'', ''XOF'', ''XAF'']"

definition supported_billing_currencies :: "string list" where
  "supported_billing_currencies = [''EUR'', ''USD'', ''CHF'', ''CNY'', ''VND'', ''XOF'', ''XAF'']"

definition manual_rate :: "string \<Rightarrow> string \<Rightarrow> date option \<Rightarrow> string \<Rightarrow> exchange_rate_resolution" where
  "manual_rate document_currency base_currency as_of message =
     \<lparr>er_document_currency = document_currency, er_base_currency = base_currency, er_rate = None,
      er_provider_name = None, er_as_of_date = as_of, er_requires_manual_entry = True, er_error_message = message\<rparr>"

definition resolve_exchange_rate :: "daily_rates \<Rightarrow> string \<Rightarrow> string \<Rightarrow> exchange_rate_resolution" where
  "resolve_exchange_rate fetched document_currency base_currency =
     (let doc_currency = str_upper (first_text [document_currency, ''EUR'']);
          base = str_upper (first_text [base_currency, ''EUR''])
      in if doc_currency = base then
           \<lparr>er_document_currency = doc_currency, er_base_currency = base, er_rate = Some 1,
            er_provider_name = None, er_as_of_date = None, er_requires_manual_entry = False, er_error_message = []\<rparr>
         else if doc_currency \<in> set manual_only_currencies then manual_rate doc_currency base None []
         else if base \<noteq> ''EUR'' \<or> doc_currency \<notin> set ecb_auto_currencies then manual_rate doc_currency base None []
         else
           (case fetched of
              None \<Rightarrow> manual_rate doc_currency base None ''Unable to fetch ECB exchange rate.''
            | Some (as_of, rates) \<Rightarrow>
                (case map_of rates doc_currency of
                   None \<Rightarrow> manual_rate doc_currency base as_of ''Unable to fetch ECB exchange rate.''
                 | Some rate \<Rightarrow>
                     \<lparr>er_document_currency = doc_currency, er_base_currency = base, er_rate = Some rate,
                      er_provider_name = Some ''ECB'', er_as_of_date = as_of, er_requires_manual_entry = False,
                      er_error_message = []\<rparr>)))"

section \<open>The editor\<close>

text \<open>What a field for an amount holds.\<close>

datatype amount_field = Blank | Malformed | Amount rat

record draft_request =
  dr_profile :: nat
  dr_kind :: document_kind
  dr_period :: "(date option \<times> date option) option"
  dr_shipment_ids :: "nat list"
  dr_manual_label :: string
  dr_manual_description :: string
  dr_manual_amount :: amount_field
  dr_currency :: string
  dr_exchange_rate :: amount_field

definition selected_document_currency :: "string \<Rightarrow> association \<Rightarrow> string" where
  "selected_document_currency raw a =
     first_text [str_upper (strip raw), str_upper (strip (as_default_currency a)), ''EUR'']"

text \<open>
  \<open>BillingDocumentDraftOptionsForm\<close>, filled in from the association and the resolved rate where the
  request leaves a field blank: none when the form does not validate.
\<close>

definition draft_options :: "draft_request \<Rightarrow> string \<Rightarrow> rat option \<Rightarrow> (string \<times> rat option) option" where
  "draft_options q selected resolved =
     (let currency = (if strip (dr_currency q) = [] then selected else dr_currency q);
          rate = (case dr_exchange_rate q of
              Blank \<Rightarrow> (case resolved of None \<Rightarrow> Blank | Some r \<Rightarrow> Amount r)
            | f \<Rightarrow> f)
      in if currency \<notin> set supported_billing_currencies then None
         else (case rate of
             Blank \<Rightarrow> Some (str_upper currency, None)
           | Malformed \<Rightarrow> None
           | Amount r \<Rightarrow> if rate_fits (Some r) \<and> 1 / 1000000 \<le> r then Some (str_upper currency, Some r) else None))"

definition manual_lines_of :: "draft_request \<Rightarrow> manual_line list" where
  "manual_lines_of q =
     (if strip (dr_manual_label q) = [] then []
      else (case dr_manual_amount q of
              Blank \<Rightarrow> []
            | Malformed \<Rightarrow> [\<lparr>ml_label = strip (dr_manual_label q), ml_description = strip (dr_manual_description q), ml_amount = None\<rparr>]
            | Amount x \<Rightarrow> [\<lparr>ml_label = strip (dr_manual_label q), ml_description = strip (dr_manual_description q), ml_amount = Some x\<rparr>]))"

text \<open>
  The actions of the editor. A request the view refuses with a message leaves the books as they are;
  an error is one that escapes the view, without undoing what was committed before it.
\<close>

definition build_draft_action :: "bill_env \<Rightarrow> daily_rates \<Rightarrow> draft_request \<Rightarrow> db \<Rightarrow> bill_db \<Rightarrow> err + bill_db" where
  "build_draft_action be fetched q d s =
     (case row_get (bd_associations s) (dr_profile q) of
        None \<Rightarrow> Inr s
      | Some a \<Rightarrow>
          res_bind (build_editor_candidates be (dr_profile q) (dr_kind q) (dr_period q) d s) (\<lambda>rows.
            let ids = filter (\<lambda>k. k \<in> cr_shipment ` set rows) (dr_shipment_ids q);
                resolved = er_rate (resolve_exchange_rate fetched (selected_document_currency (dr_currency q) a) ''EUR'')
            in if ids = [] then Inr s
               else
                 (case draft_options q (selected_document_currency (dr_currency q) a) resolved of
                    None \<Rightarrow> Inr s
                  | Some (currency, entered) \<Rightarrow>
                      (case (case entered of None \<Rightarrow> resolved | Some r \<Rightarrow> Some r) of
                         None \<Rightarrow> Inr s
                       | Some rate \<Rightarrow>
                           res_bind (create_billing_draft be (dr_profile q) (dr_kind q) ids (manual_lines_of q)
                               currency (Some rate) d s) (\<lambda>(doc, s1). Inr s1)))))"

definition issue_document_action :: "bill_env \<Rightarrow> nat \<Rightarrow> string option \<Rightarrow> db \<Rightarrow> bill_db \<Rightarrow> err + bill_db" where
  "issue_document_action be doc number d s =
     (case issue_billing_document be doc number d s of
        Inl (Value_Error m) \<Rightarrow> Inr s
      | r \<Rightarrow> r)"

definition add_payment_action :: "env \<Rightarrow> nat \<Rightarrow> amount_field \<Rightarrow> payment_request \<Rightarrow> bill_db \<Rightarrow> err + bill_db" where
  "add_payment_action e doc amount q s =
     res_bind (require (row_get (bd_documents s) doc) Does_Not_Exist) (\<lambda>_.
       case amount of
         Blank \<Rightarrow> Inr s
       | Malformed \<Rightarrow> record_billing_payment e doc (q\<lparr>pr_amount := None\<rparr>) s
       | Amount x \<Rightarrow> record_billing_payment e doc (q\<lparr>pr_amount := Some x\<rparr>) s)"

definition correction_chain_action ::
  "bill_env \<Rightarrow> nat \<Rightarrow> string option \<Rightarrow> bool \<Rightarrow> db \<Rightarrow> bill_db \<Rightarrow> err option \<times> bill_db" where
  "correction_chain_action be doc number create_replacement d s =
     (case create_credit_note_for_invoice be doc number d s of
        Inl x \<Rightarrow> (Some x, s)
      | Inr (note, s1) \<Rightarrow>
          if create_replacement then
            (case create_replacement_invoice_from_invoice (be_env be) doc s1 of
               Inl x \<Rightarrow> (Some x, s1)
             | Inr (replacement, s2) \<Rightarrow> (None, s2))
          else (None, s1))"

section \<open>What the association sees\<close>

definition issued_billing_documents :: "nat \<Rightarrow> bill_db \<Rightarrow> (nat \<times> bill) list" where
  "issued_billing_documents profile s =
     sort_key (\<lambda>(k, b). (descending_instant (bi_issued_at b), - bi_created_at b, - int k))
       (rows_where (\<lambda>k b. bi_association b = profile \<and> bi_status b = Bill_Issued) (bd_documents s))"

definition request_correction_action :: "env \<Rightarrow> nat \<Rightarrow> nat \<Rightarrow> string \<Rightarrow> bill_db \<Rightarrow> err + bill_db" where
  "request_correction_action e profile doc description s =
     res_bind (require (map_of (issued_billing_documents profile s) doc) Does_Not_Exist) (\<lambda>b.
       if strip description = [] then Inr s
       else Inr (save_issue e None \<lparr>is_document = doc, is_status = Iss_Open\<rparr> s))"

record bill_payload =
  py_kind :: document_kind
  py_status :: bill_status
  py_number :: string
  py_billing_name :: string
  py_billing_address :: string
  py_currency :: string
  py_exchange_rate :: "rat option"
  py_total_amount :: rat
  py_lines :: "snapshot_line list"
  py_shipments :: "snapshot_shipment list"

text \<open>
  A value the snapshot has not, or has blank, is read from the document as it is now. The rate is a
  text in the snapshot, so a rate of zero is a value.
\<close>

definition build_billing_document_render_payload ::
  "bill_env \<Rightarrow> nat \<Rightarrow> bill \<Rightarrow> association \<Rightarrow> db \<Rightarrow> bill_db \<Rightarrow> bill_payload" where
  "build_billing_document_render_payload be doc b a d s =
     (let field = (\<lambda>get. case bi_issued_snapshot b of None \<Rightarrow> [] | Some sp \<Rightarrow> get sp);
          snapshot_rows = (\<lambda>get. case bi_issued_snapshot b of None \<Rightarrow> [] | Some sp \<Rightarrow> get sp);
          snapshot_shipments = (case bi_issued_snapshot b of None \<Rightarrow> [] | Some sp \<Rightarrow> sp_shipments sp)
      in \<lparr>py_kind = bi_kind b, py_status = bi_status b,
          py_number = first_text [field sp_number, resolved_document_number doc b],
          py_billing_name = first_text [field sp_billing_name, resolved_billing_name a],
          py_billing_address = first_text [field sp_billing_address, resolved_billing_address a],
          py_currency = first_text [field sp_currency, bi_currency b],
          py_exchange_rate = (case bi_issued_snapshot b of
              None \<Rightarrow> bi_exchange_rate b
            | Some sp \<Rightarrow> (case sp_exchange_rate sp of None \<Rightarrow> bi_exchange_rate b | Some r \<Rightarrow> Some r)),
          py_total_amount = (case bi_issued_snapshot b of None \<Rightarrow> lines_total_amount doc s | Some sp \<Rightarrow> sp_total_amount sp),
          py_lines = (let ls = snapshot_rows sp_lines in if ls = [] then map snapshot_line_of (lines_of doc s) else ls),
          py_shipments = (if snapshot_shipments = [] then shipment_rows be doc d s else snapshot_shipments)\<rparr>)"

section \<open>A step of the billing books\<close>

datatype billing_action =
    Build_Draft daily_rates draft_request
  | Issue_Document nat "string option"
  | Add_Payment nat amount_field payment_request
  | Correction_Chain nat "string option" bool
  | Request_Correction nat nat string

definition settled_books :: "bill_db \<Rightarrow> err + bill_db \<Rightarrow> err option \<times> bill_db" where
  "settled_books s r = (case r of Inl x \<Rightarrow> (Some x, s) | Inr s' \<Rightarrow> (None, s'))"

fun run_billing :: "bill_env \<times> db \<times> billing_action \<Rightarrow> bill_db \<Rightarrow> err option \<times> bill_db" where
  "run_billing (be, d, Build_Draft fetched q) s = settled_books s (build_draft_action be fetched q d s)"
| "run_billing (be, d, Issue_Document doc number) s = settled_books s (issue_document_action be doc number d s)"
| "run_billing (be, d, Add_Payment doc amount q) s = settled_books s (add_payment_action (be_env be) doc amount q s)"
| "run_billing (be, d, Correction_Chain doc number replace) s = correction_chain_action be doc number replace d s"
| "run_billing (be, d, Request_Correction profile doc description) s =
     settled_books s (request_correction_action (be_env be) profile doc description s)"

end
