(* ===== verification/Billing_Facts.thy ===== *)
theory Billing_Facts
  imports Billing "HOL-Library.Multiset"
begin

text \<open>
  Lemmas on billing: stored amounts and totals of a document, what building and copying a document
  adds, what saving a document checks, and that every action of the editor and of the portal keeps the
  books (\<open>bills_ok\<close>), which is the interpretation \<open>books\<close> of the interface \<open>kept\<close>.
\<close>

section \<open>Stored amounts and totals\<close>

definition stored :: "rat \<Rightarrow> rat" where
  "stored x = of_int (round_half_even (100 * x)) / 100"

definition column_amount :: "rat \<Rightarrow> bool" where
  "column_amount x \<longleftrightarrow> stored x = x \<and> \<bar>100 * x\<bar> < 10 ^ 10"

lemma round_half_even_int [simp]: "round_half_even (of_int n) = n"
  by (simp add: round_half_even_def)

lemma decimal_column_Inr: "decimal_column x = Inr y \<longleftrightarrow> y = stored x \<and> \<bar>round_half_even (100 * x)\<bar> < 10 ^ 10"
  by (auto simp: decimal_column_def stored_def Let_def)

lemma stored_stored [simp]: "stored (stored x) = stored x"
  by (simp add: stored_def)

lemma decimal_column_amount: "decimal_column x = Inr y \<Longrightarrow> column_amount y"
proof -
  assume "decimal_column x = Inr y"
  then have y: "y = stored x" and small: "\<bar>round_half_even (100 * x)\<bar> < 10 ^ 10"
    by (simp_all only: decimal_column_Inr)
  have "\<bar>100 * y\<bar> = of_int \<bar>round_half_even (100 * x)\<bar>" by (simp add: y stored_def)
  also have "\<dots> < of_int (10 ^ 10)" using small by (simp only: of_int_less_iff)
  finally show ?thesis by (simp add: column_amount_def y)
qed

text \<open>A stored amount is stored as it is, and so is its opposite.\<close>

lemma stored_uminus:
  assumes "stored x = x"
  shows "stored (- x) = - x"
proof -
  define n where "n = round_half_even (100 * x)"
  have "100 * x = of_int n" using assms by (simp add: stored_def n_def)
  then have "round_half_even (100 * - x) = - n"
    using round_half_even_int [of "- n"] by simp
  with assms show ?thesis by (simp add: stored_def n_def)
qed

lemma sum_sort_key: "sum_list (map f (sort_key g xs)) = (sum_list (map f xs) :: rat)"
proof -
  have "mset (map f (sort_key g xs)) = mset (map f xs)" by simp
  then show ?thesis by (metis sum_mset_sum_list)
qed

definition line_total :: "nat \<Rightarrow> bill_line table \<Rightarrow> rat" where
  "line_total doc t = sum_list (map (\<lambda>(k, l). if bl_document l = doc then bl_total_amount l else 0) t)"

lemma line_total_append [simp]: "line_total doc (t @ u) = line_total doc t + line_total doc u"
  by (simp add: line_total_def)

lemma line_total_row [simp]: "line_total doc [(k, l)] = (if bl_document l = doc then bl_total_amount l else 0)"
  by (simp add: line_total_def)

lemma lines_total_eq: "lines_total_amount doc s = line_total doc (bd_lines s)"
proof -
  have "sum_list (map (bl_total_amount \<circ> snd) (filter (\<lambda>(i, l). bl_document l = doc) t)) = line_total doc t" for t
    by (induction t) (auto simp: line_total_def)
  then show ?thesis
    by (simp add: lines_total_amount_def lines_of_def sum_sort_key rows_where_def)
qed

lemma set_lines_of: "l \<in> set (lines_of doc s) \<longleftrightarrow> (\<exists>k. (k, l) \<in> set (bd_lines s)) \<and> bl_document l = doc"
  by (force simp: lines_of_def rows_where_def)

lemma sum_lines_of:
  "sum_list (map f (lines_of doc s)) = (sum_list (map (\<lambda>(k, l). if bl_document l = doc then f l else 0) (bd_lines s)) :: rat)"
proof -
  have "sum_list (map (f \<circ> snd) (filter (\<lambda>(i, l). bl_document l = doc) t))
      = sum_list (map (\<lambda>(k, l). if bl_document l = doc then f l else 0) t)" for t :: "bill_line table"
    by (induction t) auto
  then show ?thesis by (simp add: lines_of_def sum_sort_key rows_where_def)
qed

definition payment_total :: "nat \<Rightarrow> payment table \<Rightarrow> rat" where
  "payment_total doc t = sum_list (map (\<lambda>(k, p). if pay_document p = doc then pay_amount p else 0) t)"

lemma paid_amount_eq: "paid_amount doc s = payment_total doc (bd_payments s)"
proof -
  have "sum_list (map (\<lambda>(k, p). pay_amount p) (filter (\<lambda>(i, p). pay_document p = doc) t)) = payment_total doc t" for t
    by (induction t) (auto simp: payment_total_def)
  then show ?thesis by (simp add: paid_amount_def rows_where_def)
qed

lemma payment_total_ins [simp]:
  "payment_total doc (row_ins p t) = payment_total doc t + (if pay_document p = doc then pay_amount p else 0)"
  by (simp add: payment_total_def row_ins_def)

section \<open>Adding lines and links to a document\<close>

text \<open>What building or copying a document writes: lines of that document, and links.\<close>

definition line_stored :: "bill_line \<Rightarrow> bool" where
  "line_stored l \<longleftrightarrow> column_amount (bl_quantity l) \<and> column_amount (bl_unit_price l) \<and> column_amount (bl_total_amount l)"

definition extends_doc :: "nat \<Rightarrow> bill_db \<Rightarrow> bill_db \<Rightarrow> bool" where
  "extends_doc doc s s' \<longleftrightarrow>
     bd_documents s' = bd_documents s \<and> bd_payments s' = bd_payments s \<and> bd_associations s' = bd_associations s
     \<and> (\<exists>ls. bd_lines s' = bd_lines s @ ls \<and> (\<forall>(k, l) \<in> set ls. bl_document l = doc \<and> line_stored l))"

lemma extends_doc_refl: "extends_doc doc s s"
  by (simp add: extends_doc_def)

lemma extends_doc_trans:
  assumes "extends_doc doc s t" and "extends_doc doc t u"
  shows "extends_doc doc s u"
proof -
  from assms obtain ls ls' where "bd_lines t = bd_lines s @ ls" "bd_lines u = bd_lines t @ ls'"
    "\<forall>(k, l) \<in> set ls. bl_document l = doc \<and> line_stored l" "\<forall>(k, l) \<in> set ls'. bl_document l = doc \<and> line_stored l"
    by (auto simp: extends_doc_def)
  then have "bd_lines u = bd_lines s @ (ls @ ls') \<and> (\<forall>(k, l) \<in> set (ls @ ls'). bl_document l = doc \<and> line_stored l)"
    by auto
  with assms show ?thesis unfolding extends_doc_def by auto
qed

lemma extends_doc_links:
  "extends_doc doc s (s\<lparr>bd_shipment_links := x\<rparr>)" "extends_doc doc s (s\<lparr>bd_receipt_links := y\<rparr>)"
  "extends_doc doc s (s\<lparr>bd_shipment_links := x, bd_receipt_links := y\<rparr>)"
  by (simp_all add: extends_doc_def)

lemma create_line_Inr:
  assumes "create_line l s = Inr s'"
  shows "extends_doc (bl_document l) s s'"
    and "line_total doc (bd_lines s') = line_total doc (bd_lines s) + (if bl_document l = doc then stored (bl_total_amount l) else 0)"
proof -
  from assms obtain q u a where
    "decimal_column (bl_quantity l) = Inr q" "decimal_column (bl_unit_price l) = Inr u" "decimal_column (bl_total_amount l) = Inr a"
    and s': "s' = s\<lparr>bd_lines := row_ins (l\<lparr>bl_quantity := q, bl_unit_price := u, bl_total_amount := a\<rparr>) (bd_lines s)\<rparr>"
    by (auto simp: create_line_def wms_ok)
  then have "line_stored (l\<lparr>bl_quantity := q, bl_unit_price := u, bl_total_amount := a\<rparr>)"
    unfolding line_stored_def by (auto intro: decimal_column_amount)
  have a: "a = stored (bl_total_amount l)"
    using \<open>decimal_column (bl_total_amount l) = Inr a\<close> by (simp add: decimal_column_Inr)
  from \<open>line_stored _\<close>
  show "extends_doc (bl_document l) s s'"
    by (auto simp: extends_doc_def s' row_ins_def)
  show "line_total doc (bd_lines s') = line_total doc (bd_lines s) + (if bl_document l = doc then stored (bl_total_amount l) else 0)"
    by (simp add: s' row_ins_def a)
qed

text \<open>A loop that adds lines: each round its amount.\<close>

lemma for_each_adds:
  assumes "for_each f xs s = Inr s'"
    and "\<And>x t t'. x \<in> set xs \<Longrightarrow> f x t = Inr t' \<Longrightarrow> g t' = g t + (h x :: rat)"
  shows "g s' = g s + sum_list (map h xs)"
  using assms
proof (induction xs arbitrary: s)
  case Nil
  then show ?case by simp
next
  case (Cons x xs)
  then obtain t where t: "f x s = Inr t" "for_each f xs t = Inr s'" by (auto simp: wms_ok)
  have "g t = g s + h x" using Cons.prems(2) t(1) by simp
  moreover have "g s' = g t + sum_list (map h xs)" using Cons.IH [OF t(2)] Cons.prems(2) by simp
  ultimately show ?case by simp
qed

lemma clone_links_extends: "clone_document_links source target s = Inr s' \<Longrightarrow> extends_doc doc s s' \<and> bd_lines s' = bd_lines s"
  by (auto simp: clone_document_links_def wms_ok extends_doc_links)

lemma clone_lines_extends:
  assumes "clone_document_lines source target negate s = Inr s'"
  shows "extends_doc target s s'"
    and "line_total target (bd_lines s') = line_total target (bd_lines s)
      + sum_list (map (\<lambda>l. stored (bl_total_amount l * (if negate then - 1 else 1))) (lines_of source s))"
proof -
  have loop: "for_each (\<lambda>l. create_line (l\<lparr>bl_document := target, bl_unit_price := bl_unit_price l * (if negate then - 1 else 1),
      bl_total_amount := bl_total_amount l * (if negate then - 1 else 1)\<rparr>)) (lines_of source s) s = Inr s'"
    using assms by (simp add: clone_document_lines_def Let_def)
  show "extends_doc target s s'"
    using loop by (rule for_each_rel) (use extends_doc_refl extends_doc_trans create_line_Inr(1) in \<open>fastforce+\<close>)
  show "line_total target (bd_lines s') = line_total target (bd_lines s)
      + sum_list (map (\<lambda>l. stored (bl_total_amount l * (if negate then - 1 else 1))) (lines_of source s))"
    using loop by (rule for_each_adds [where g = "\<lambda>s. line_total target (bd_lines s)"])
      (simp add: create_line_Inr(2))
qed

text \<open>The rounds of building a draft.\<close>

definition shipment_line_amount :: "computation_profile option \<Rightarrow> db \<Rightarrow> bill_db \<Rightarrow> nat \<Rightarrow> rat" where
  "shipment_line_amount profile d s k = stored (ok_or 0 (shipment_amount k profile d s))"

definition same_allocations :: "bill_db \<Rightarrow> bill_db \<Rightarrow> bool" where
  "same_allocations s t \<longleftrightarrow> bd_allocations t = bd_allocations s"

lemma create_line_allocations: "create_line l s = Inr s' \<Longrightarrow> bd_allocations s' = bd_allocations s"
  by (auto simp: create_line_def wms_ok)

lemma shipment_amount_cong: "bd_allocations t = bd_allocations s \<Longrightarrow> shipment_amount k profile d t = shipment_amount k profile d s"
  by (simp add: shipment_amount_def allocated_units_for_shipment_def allocations_of_shipment_def split: option.split)

lemma add_shipment_Inr:
  assumes "add_shipment be doc profile d ship (number, receipts, s) = Inr (number', receipts', s')"
  shows "extends_doc doc s s'" and "bd_allocations s' = bd_allocations s"
    and "line_total doc (bd_lines s') = line_total doc (bd_lines s) + shipment_line_amount profile d s (fst ship)"
proof -
  from assms obtain links where
    line: "create_document_line be doc number ship profile d (s\<lparr>bd_shipment_links := links\<rparr>) = Inr s'"
    by (auto simp: add_shipment_def wms_ok Let_def)
  then obtain total where total: "shipment_amount (fst ship) profile d (s\<lparr>bd_shipment_links := links\<rparr>) = Inr total"
    by (auto simp: create_document_line_def wms_ok)
  note cl = line [unfolded create_document_line_def total res_bind_simps]
  show "extends_doc doc s s'"
    using extends_doc_trans [OF extends_doc_links(1) create_line_Inr(1) [OF cl, simplified]] .
  show "bd_allocations s' = bd_allocations s" using create_line_allocations [OF cl] by simp
  have "shipment_amount (fst ship) profile d s = Inr total"
    using total shipment_amount_cong [of "s\<lparr>bd_shipment_links := links\<rparr>" s] by simp
  then show "line_total doc (bd_lines s') = line_total doc (bd_lines s) + shipment_line_amount profile d s (fst ship)"
    using create_line_Inr(2) [OF cl, of doc] by (simp add: shipment_line_amount_def)
qed

definition manual_amount :: "manual_line \<Rightarrow> rat" where
  "manual_amount m = (if strip (ml_label m) = [] then 0 else case ml_amount m of None \<Rightarrow> 0 | Some x \<Rightarrow> stored x)"

lemma add_manual_line_Inr:
  assumes "add_manual_line doc m (number, s) = Inr (number', s')"
  shows "extends_doc doc s s'"
    and "line_total doc (bd_lines s') = line_total doc (bd_lines s) + manual_amount m"
proof -
  consider (blank) "strip (ml_label m) = []" "s' = s"
    | (line) l where "create_line l s = Inr s'" "bl_document l = doc" "strip (ml_label m) \<noteq> []"
        "ml_amount m = Some (bl_total_amount l)"
    using assms by (auto simp: add_manual_line_def wms_ok split: if_splits)
  then show "extends_doc doc s s'"
    and "line_total doc (bd_lines s') = line_total doc (bd_lines s) + manual_amount m"
    by (cases; use create_line_Inr in \<open>auto simp: extends_doc_refl manual_amount_def\<close>)+
qed

lemma add_receipt_extends: "add_receipt doc r s = Inr s' \<Longrightarrow> extends_doc doc s s' \<and> bd_lines s' = bd_lines s"
  by (auto simp: add_receipt_def wms_ok extends_doc_links)

section \<open>Documents as they are saved\<close>

definition number_clean :: "string option \<Rightarrow> bool" where
  "number_clean n \<longleftrightarrow> normalize_number n = n \<and> \<not> too_long n"

definition bill_typed :: "bill \<Rightarrow> bool" where
  "bill_typed b \<longleftrightarrow>
     number_clean (bi_quote_number b) \<and> number_clean (bi_invoice_number b) \<and> number_clean (bi_credit_note_number b)
     \<and> bi_currency b \<noteq> [] \<and> length (bi_currency b) \<le> 3 \<and> rate_fits (bi_exchange_rate b)
     \<and> (bi_kind b = Kind_Quote \<longrightarrow> bi_quote_number b \<noteq> None)
     \<and> (bi_kind b = Kind_Invoice \<and> (bi_status b \<in> {Bill_Issued, Bill_Partially_Paid, Bill_Paid} \<or> bi_issued_at b \<noteq> None)
          \<longrightarrow> bi_invoice_number b \<noteq> None)"

definition bill_numbers :: "bill \<Rightarrow> string option list" where
  "bill_numbers b = [bi_quote_number b, bi_invoice_number b, bi_credit_note_number b]"

text \<open>No number of a kind is given twice.\<close>

definition numbers_clash :: "bill \<Rightarrow> bill \<Rightarrow> bool" where
  "numbers_clash b c \<longleftrightarrow> list_ex (\<lambda>(n, m). n \<noteq> None \<and> n = m) (zip (bill_numbers b) (bill_numbers c))"

definition documents_ok :: "bill table \<Rightarrow> bool" where
  "documents_ok t \<longleftrightarrow> keys_ok t \<and> (\<forall>(k, b) \<in> set t. bill_typed b)
     \<and> (\<forall>(k, b) \<in> set t. \<forall>(j, c) \<in> set t. k \<noteq> j \<longrightarrow> \<not> numbers_clash b c)"

lemma number_clean_simps [simp]: "number_clean None"
  by (simp add: number_clean_def normalize_number_def too_long_def)

lemma strip_idem [simp]: "strip (strip s) = strip s"
proof -
  have "dropWhile P (rev (dropWhile P (rev (dropWhile P xs)))) = rev (dropWhile P (rev (dropWhile P xs)))" for P and xs :: string
  proof (cases "dropWhile P xs")
    case (Cons y ys)
    then have "\<not> P y" using hd_dropWhile [of P xs] by auto
    then have "dropWhile P (rev ys @ [y]) = dropWhile P (rev ys) @ [y]"
      by (cases "\<forall>x \<in> set (rev ys). P x") (auto simp: dropWhile_append)
    with Cons \<open>\<not> P y\<close> show ?thesis by simp
  qed (simp only: rev.simps dropWhile.simps)
  moreover have "dropWhile P (dropWhile P xs) = dropWhile P xs" for P and xs :: string
    by (induction xs) auto
  ultimately show ?thesis by (simp add: strip_def)
qed

lemma normalize_idem [simp]: "normalize_number (normalize_number n) = normalize_number n"
  by (auto simp: normalize_number_def split: option.split)

lemma number_chars: "c \<in> set (nat_str n) \<Longrightarrow> \<not> is_space c" "c \<in> set (zero_pad w n) \<Longrightarrow> \<not> is_space c"
proof -
  have space: "is_digit c \<Longrightarrow> \<not> is_space c" by (auto simp: is_digit_def is_space_def)
  show "c \<in> set (nat_str n) \<Longrightarrow> \<not> is_space c"
    using all_digits_nat_str [of n] space by (auto simp: all_digits_def list_all_iff)
  show "c \<in> set (zero_pad w n) \<Longrightarrow> \<not> is_space c"
    using all_digits_zero_pad [of w n] space by (auto simp: all_digits_def list_all_iff)
qed

lemma build_quote_number_clean:
  assumes "build_quote_number e pk t = Inr n"
  shows "normalize_number (Some n) = Some n"
proof -
  have "\<not> is_space c" if "c \<in> set n" for c
    using assms that number_chars by (auto simp: build_quote_number_def Let_def wms_ok is_space_def split: if_splits)
  moreover have "n \<noteq> []" using assms by (auto simp: build_quote_number_def Let_def wms_ok)
  ultimately show ?thesis by (simp add: normalize_number_def strip_no_space)
qed

lemma kind_normalized [simp]: "bi_kind (normalize_optional_numbers b) = bi_kind b"
  by (simp add: normalize_optional_numbers_def)

text \<open>What saving checks: a saved document is typed and takes no number of another.\<close>

lemma prepare_bill_Inr:
  assumes "prepare_bill e pk b t = Inr b'"
  shows "bi_kind b' = bi_kind b" "bi_status b' = bi_status b" "bi_issued_at b' = bi_issued_at b"
    "bi_parent_document b' = bi_parent_document b" "bi_association b' = bi_association b"
    "bi_issued_snapshot b' = bi_issued_snapshot b" "bi_currency b' = bi_currency b"
    "bi_created_at b' = bi_created_at b" "bi_correction_state b' = bi_correction_state b"
    and "bi_invoice_number b' = normalize_number (bi_invoice_number b)"
    and "bi_status b \<notin> {Bill_Partially_Paid, Bill_Paid} \<Longrightarrow> bill_typed b'"
    and "\<And>k c. (k, c) \<in> set t \<Longrightarrow> pk \<noteq> Some k \<Longrightarrow> \<not> numbers_clash b' c \<and> \<not> numbers_clash c b'"
proof -
  from assms obtain b1 where pick: "(if bi_kind b = Kind_Quote \<and> bi_quote_number (normalize_optional_numbers b) = None
        then res_bind (build_quote_number e pk t) (\<lambda>n. Inr ((normalize_optional_numbers b)\<lparr>bi_quote_number := Some n\<rparr>))
        else Inr (normalize_optional_numbers b)) = Inr b1"
    and "bill_full_clean pk b1 t = Inr ()" "b' = b1\<lparr>bi_updated_at := e_now e\<rparr>"
    by (auto simp: prepare_bill_def Let_def wms_ok)
  moreover have "\<exists>q. b1 = (normalize_optional_numbers b)\<lparr>bi_quote_number := q\<rparr> \<and> normalize_number q = q
      \<and> (bi_kind b = Kind_Quote \<longrightarrow> q \<noteq> None)"
  proof (cases "bi_kind b = Kind_Quote \<and> bi_quote_number (normalize_optional_numbers b) = None")
    case True
    with pick obtain n where "build_quote_number e pk t = Inr n"
        "b1 = (normalize_optional_numbers b)\<lparr>bi_quote_number := Some n\<rparr>" by (auto simp: wms_ok)
    then show ?thesis by (intro exI [of _ "Some n"]) (simp add: build_quote_number_clean)
  next
    case False
    with pick show ?thesis
      by (intro exI [of _ "normalize_number (bi_quote_number b)"]) (auto simp: normalize_optional_numbers_def)
  qed
  ultimately obtain q where b': "b' = (normalize_optional_numbers b)\<lparr>bi_quote_number := q, bi_updated_at := e_now e\<rparr>"
    and q: "normalize_number q = q" "bi_kind b = Kind_Quote \<Longrightarrow> q \<noteq> None"
    and clean: "bill_full_clean pk ((normalize_optional_numbers b)\<lparr>bi_quote_number := q\<rparr>) t = Inr ()"
    by auto
  show "bi_kind b' = bi_kind b" "bi_status b' = bi_status b" "bi_issued_at b' = bi_issued_at b"
    "bi_parent_document b' = bi_parent_document b" "bi_association b' = bi_association b"
    "bi_issued_snapshot b' = bi_issued_snapshot b" "bi_currency b' = bi_currency b"
    "bi_created_at b' = bi_created_at b" "bi_correction_state b' = bi_correction_state b"
    "bi_invoice_number b' = normalize_number (bi_invoice_number b)"
    by (simp_all add: b' normalize_optional_numbers_def)
  show "bill_typed b'" if "bi_status b \<notin> {Bill_Partially_Paid, Bill_Paid}"
    using clean q that
    by (auto simp: b' bill_typed_def number_clean_def normalize_optional_numbers_def bill_full_clean_def wms_ok)
  show "\<not> numbers_clash b' c \<and> \<not> numbers_clash c b'" if "(k, c) \<in> set t" "pk \<noteq> Some k" for k c
    using clean that
    by (fastforce simp: b' numbers_clash_def bill_numbers_def normalize_optional_numbers_def bill_full_clean_def
        wms_ok taken_number_def list_ex_iff)
qed

lemma documents_ok_ins:
  assumes "documents_ok t" and "prepare_bill e None b t = Inr b'" and "bi_status b \<notin> {Bill_Partially_Paid, Bill_Paid}"
  shows "documents_ok (row_ins b' t)"
proof -
  have "keys_ok (row_ins b' t)" using assms(1) by (simp add: documents_ok_def keys_ok_ins)
  then show ?thesis
    using assms(1) prepare_bill_Inr(11,12) [OF assms(2)] assms(3)
    unfolding documents_ok_def row_ins_def by fastforce
qed

lemma documents_ok_upd:
  assumes "documents_ok t" and "\<And>c. (k, c) \<in> set t \<Longrightarrow> bill_typed (f c)"
    and "\<And>c j x. (k, c) \<in> set t \<Longrightarrow> (j, x) \<in> set t \<Longrightarrow> j \<noteq> k \<Longrightarrow> \<not> numbers_clash (f c) x \<and> \<not> numbers_clash x (f c)"
  shows "documents_ok (row_upd k f t)"
proof -
  have rows: "(j, x) \<in> set (row_upd k f t) \<longleftrightarrow> (\<exists>c. (j, c) \<in> set t \<and> x = (if j = k then f c else c))" for j x
    unfolding row_upd_def by force
  have "keys_ok (row_upd k f t)" using assms(1) by (simp add: documents_ok_def keys_ok_upd)
  moreover have "bill_typed x" if "(j, x) \<in> set (row_upd k f t)" for j x
    using that assms(1,2) unfolding rows by (auto simp: documents_ok_def)
  moreover have "\<not> numbers_clash x y" if "(j, x) \<in> set (row_upd k f t)" "(i, y) \<in> set (row_upd k f t)" "j \<noteq> i" for j i x y
    using that assms(1,3) unfolding rows documents_ok_def by (cases "j = k"; cases "i = k") fastforce+
  ultimately show ?thesis unfolding documents_ok_def by auto
qed

lemma documents_ok_save:
  assumes "documents_ok t" and "prepare_bill e (Some k) b t = Inr b'" and "bi_status b \<notin> {Bill_Partially_Paid, Bill_Paid}"
  shows "documents_ok (row_upd k (\<lambda>_. b') t)"
  using assms(1) by (rule documents_ok_upd) (use prepare_bill_Inr(11,12) [OF assms(2)] assms(3) in fastforce)+

text \<open>An update of columns the checks do not read.\<close>

lemma documents_ok_status:
  assumes "documents_ok t"
    and "\<And>c. (k, c) \<in> set t \<Longrightarrow> bill_numbers (f c) = bill_numbers c \<and> (bill_typed c \<longrightarrow> bill_typed (f c))"
  shows "documents_ok (row_upd k f t)"
  using assms(1)
proof (rule documents_ok_upd)
  show "bill_typed (f c)" if "(k, c) \<in> set t" for c
    using assms that by (auto simp: documents_ok_def)
  show "\<not> numbers_clash (f c) x \<and> \<not> numbers_clash x (f c)" if "(k, c) \<in> set t" "(j, x) \<in> set t" "j \<noteq> k" for c j x
    using assms(1) assms(2) [OF that(1)] that unfolding documents_ok_def numbers_clash_def by fastforce
qed

section \<open>The rows that hang on a document\<close>

definition bill_rows_ok :: "nat set \<Rightarrow> bill_db \<Rightarrow> bool" where
  "bill_rows_ok D s \<longleftrightarrow>
     (\<forall>(k, l) \<in> set (bd_lines s). line_stored l \<and> bl_document l \<in> D)
     \<and> distinct (map (\<lambda>(k, l). (bl_document l, bl_line_number l)) (bd_lines s))
     \<and> distinct (map snd (bd_shipment_links s)) \<and> distinct (map snd (bd_receipt_links s))
     \<and> (\<forall>(k, l) \<in> set (bd_shipment_links s). fst l \<in> D) \<and> (\<forall>(k, l) \<in> set (bd_receipt_links s). fst l \<in> D)
     \<and> (\<forall>(k, p) \<in> set (bd_payments s). column_amount (pay_amount p) \<and> pay_document p \<in> D)
     \<and> (\<forall>(k, i) \<in> set (bd_issues s). is_document i \<in> D)"

definition bills_ok :: "bill_db \<Rightarrow> bool" where
  "bills_ok s \<longleftrightarrow> documents_ok (bd_documents s) \<and> bill_rows_ok (fst ` set (bd_documents s)) s"

lemma entries_mono: "bill_rows_ok D s \<Longrightarrow> D \<subseteq> D' \<Longrightarrow> bill_rows_ok D' s"
  unfolding bill_rows_ok_def by fast

lemma entries_documents [simp]: "bill_rows_ok D (s\<lparr>bd_documents := t\<rparr>) = bill_rows_ok D s"
  by (simp add: bill_rows_ok_def)

lemma create_line_keeps:
  assumes "create_line l s = Inr s'" and "bl_document l \<in> D" and "bill_rows_ok D s"
  shows "bill_rows_ok D s' \<and> bd_documents s' = bd_documents s"
proof -
  from assms(1) obtain q u a where
    cols: "decimal_column (bl_quantity l) = Inr q" "decimal_column (bl_unit_price l) = Inr u" "decimal_column (bl_total_amount l) = Inr a"
    and new: "\<not> list_ex (\<lambda>(k, x). bl_document x = bl_document l \<and> bl_line_number x = bl_line_number l) (bd_lines s)"
    and s': "s' = s\<lparr>bd_lines := row_ins (l\<lparr>bl_quantity := q, bl_unit_price := u, bl_total_amount := a\<rparr>) (bd_lines s)\<rparr>"
    by (auto simp: create_line_def wms_ok)
  have "line_stored (l\<lparr>bl_quantity := q, bl_unit_price := u, bl_total_amount := a\<rparr>)"
    using cols unfolding line_stored_def by (auto intro: decimal_column_amount)
  then show ?thesis
    using assms(2,3) new unfolding s' bill_rows_ok_def row_ins_def by (auto simp: list_ex_iff)
qed

lemma create_link_keeps:
  assumes "create_link l t = Inr t'" and "fst l \<in> D" and "distinct (map snd t)" and "\<forall>(k, x) \<in> set t. fst x \<in> D"
  shows "distinct (map snd t') \<and> (\<forall>(k, x) \<in> set t'. fst x \<in> D)"
  using assms unfolding create_link_def row_ins_def list_ex_iff by (fastforce split: if_splits)

lemma add_shipment_keeps:
  assumes "add_shipment be doc profile d ship (number, receipts, s) = Inr (number', receipts', s')"
    and "doc \<in> D" and "bill_rows_ok D s"
  shows "bill_rows_ok D s' \<and> bd_documents s' = bd_documents s"
proof -
  from assms(1) obtain links where link: "create_link (doc, fst ship) (bd_shipment_links s) = Inr links"
    and line: "create_document_line be doc number ship profile d (s\<lparr>bd_shipment_links := links\<rparr>) = Inr s'"
    by (auto simp: add_shipment_def wms_ok Let_def)
  have "bill_rows_ok D (s\<lparr>bd_shipment_links := links\<rparr>)"
    using create_link_keeps [OF link, of D] assms(2,3) by (auto simp: bill_rows_ok_def)
  with line assms(2) show ?thesis
    by (auto simp: create_document_line_def wms_ok dest!: create_line_keeps [where D = D])
qed

lemma add_receipt_keeps:
  assumes "add_receipt doc r s = Inr s'" and "doc \<in> D" and "bill_rows_ok D s"
  shows "bill_rows_ok D s' \<and> bd_documents s' = bd_documents s"
proof -
  from assms(1) obtain links where link: "create_link (doc, r) (bd_receipt_links s) = Inr links"
    and s': "s' = s\<lparr>bd_receipt_links := links\<rparr>"
    by (auto simp: add_receipt_def wms_ok)
  show ?thesis
    using create_link_keeps [OF link, of D] assms(2,3) by (auto simp: bill_rows_ok_def s')
qed

lemma add_manual_line_keeps:
  assumes "add_manual_line doc m (number, s) = Inr (number', s')" and "doc \<in> D" and "bill_rows_ok D s"
  shows "bill_rows_ok D s' \<and> bd_documents s' = bd_documents s"
  using assms by (auto simp: add_manual_line_def wms_ok split: if_splits dest!: create_line_keeps [where D = D])

lemma clone_links_keeps:
  assumes "clone_document_links source target s = Inr s'" and "target \<in> D" and "bill_rows_ok D s"
  shows "bill_rows_ok D s' \<and> bd_documents s' = bd_documents s"
proof -
  from assms(1) obtain ships receipts where
    ships: "for_each (\<lambda>(i, l) t. create_link (target, snd l) t) (rows_where (\<lambda>i l. fst l = source) (bd_shipment_links s))
        (bd_shipment_links s) = Inr ships"
    and receipts: "for_each (\<lambda>(i, l) t. create_link (target, snd l) t) (rows_where (\<lambda>i l. fst l = source) (bd_receipt_links s))
        (bd_receipt_links s) = Inr receipts"
    and s': "s' = s\<lparr>bd_shipment_links := ships, bd_receipt_links := receipts\<rparr>"
    by (auto simp: clone_document_links_def wms_ok)
  define P where "P t \<longleftrightarrow> distinct (map snd t) \<and> (\<forall>(k, x) \<in> set t. fst x \<in> D)" for t :: "(nat \<times> nat) table"
  have step: "P u'" if "(\<lambda>(i, l) t. create_link (target, snd l) t) x u = Inr u'" "P u" for x :: "nat \<times> nat \<times> nat" and u u'
    using that create_link_keeps [of "(target, snd (snd x))" u u' D] assms(2) by (auto simp: P_def split: prod.splits)
  have "P ships" by (rule for_each_inv [OF ships]) (use assms(3) step in \<open>auto simp: bill_rows_ok_def P_def\<close>)
  moreover have "P receipts" by (rule for_each_inv [OF receipts]) (use assms(3) step in \<open>auto simp: bill_rows_ok_def P_def\<close>)
  ultimately show ?thesis using assms(3) by (simp add: s' bill_rows_ok_def P_def)
qed

lemma clone_lines_keeps:
  assumes "clone_document_lines source target negate s = Inr s'" and "target \<in> D" and "bill_rows_ok D s"
  shows "bill_rows_ok D s' \<and> bd_documents s' = bd_documents s"
proof -
  have loop: "for_each (\<lambda>l. create_line (l\<lparr>bl_document := target, bl_unit_price := bl_unit_price l * (if negate then - 1 else 1),
      bl_total_amount := bl_total_amount l * (if negate then - 1 else 1)\<rparr>)) (lines_of source s) s = Inr s'"
    using assms(1) by (simp add: clone_document_lines_def Let_def)
  show ?thesis
  proof (rule for_each_inv [OF loop, where P = "\<lambda>t. bill_rows_ok D t \<and> bd_documents t = bd_documents s"])
    show "bill_rows_ok D s \<and> bd_documents s = bd_documents s" using assms(3) by simp
    fix l t t'
    assume line: "create_line (l\<lparr>bl_document := target, bl_unit_price := bl_unit_price l * (if negate then - 1 else 1),
        bl_total_amount := bl_total_amount l * (if negate then - 1 else 1)\<rparr>) t = Inr t'"
      and t: "bill_rows_ok D t \<and> bd_documents t = bd_documents s"
    have "bill_rows_ok D t' \<and> bd_documents t' = bd_documents t"
      by (rule create_line_keeps [OF line]) (use assms(2) t in simp_all)
    with t show "bill_rows_ok D t' \<and> bd_documents t' = bd_documents s" by simp
  qed
qed

section \<open>The handlers keep the books\<close>

lemma bills_ok_extend:
  assumes "bills_ok s" and "bill_rows_ok (fst ` set (bd_documents s)) s'" and "bd_documents s' = bd_documents s"
  shows "bills_ok s'"
  using assms by (simp add: bills_ok_def)

lemma create_bill_Inr:
  assumes "create_bill e b s = Inr (k, s')"
  obtains b' where "prepare_bill e None b (bd_documents s) = Inr b'" and "k = next_pk (bd_documents s)"
    and "s' = s\<lparr>bd_documents := row_ins b' (bd_documents s)\<rparr>"
  using assms by (auto simp: create_bill_def wms_ok)

lemma create_bill_keeps:
  assumes "create_bill e b s = Inr (k, s')" and "bi_status b \<notin> {Bill_Partially_Paid, Bill_Paid}" and "bills_ok s"
  shows "bills_ok s' \<and> k \<in> fst ` set (bd_documents s')"
proof -
  from assms(1) obtain b' where b': "prepare_bill e None b (bd_documents s) = Inr b'" "k = next_pk (bd_documents s)"
    "s' = s\<lparr>bd_documents := row_ins b' (bd_documents s)\<rparr>" by (rule create_bill_Inr)
  have "documents_ok (row_ins b' (bd_documents s))"
    using documents_ok_ins [OF _ b'(1) assms(2)] assms(3) by (simp add: bills_ok_def)
  moreover have "bill_rows_ok (fst ` set (row_ins b' (bd_documents s))) s"
  proof (rule entries_mono)
    show "bill_rows_ok (fst ` set (bd_documents s)) s" using assms(3) by (simp add: bills_ok_def)
    show "fst ` set (bd_documents s) \<subseteq> fst ` set (row_ins b' (bd_documents s))" by (auto simp: row_ins_def)
  qed
  ultimately show ?thesis by (simp add: bills_ok_def b' row_ins_def)
qed

lemma save_bill_keeps:
  assumes "save_bill e k b s = Inr s'" and "bi_status b \<notin> {Bill_Partially_Paid, Bill_Paid}" and "bills_ok s"
  shows "bills_ok s'"
proof -
  from assms(1) obtain b' where b': "prepare_bill e (Some k) b (bd_documents s) = Inr b'"
    and s': "s' = s\<lparr>bd_documents := row_upd k (\<lambda>_. b') (bd_documents s)\<rparr>" by (auto simp: save_bill_def wms_ok)
  have keys: "fst ` set (row_upd k f t) = fst ` set t" for f and t :: "bill table"
    using map_fst_row_upd [of k f t] by (metis set_map)
  show ?thesis using documents_ok_save [OF _ b' assms(2)] assms(3) by (simp add: s' bills_ok_def keys)
qed

lemma entries_of_books: "bills_ok s \<Longrightarrow> bill_rows_ok (fst ` set (bd_documents s)) s"
  by (simp add: bills_ok_def)

text \<open>The three loops of a draft, as one fact about any property of the books they keep.\<close>

lemma create_billing_draft_Inr:
  assumes "create_billing_draft be profile kind ids ms currency rate d s = Inr (doc, s')"
  obtains a b s1 number receipts s2 s3 number' where
    "row_get (bd_associations s) profile = Some a"
    and "create_bill (be_env be) b s = Inr (doc, s1)" and "bi_kind b = kind" and "bi_status b = Bill_Draft"
    and "bi_issued_at b = None" and "bi_association b = profile" and "bi_parent_document b = None"
    and "for_each (add_shipment be doc (map_option snd (resolve_document_computation_profile a s)) d)
          (sort_key fst (rows_where (\<lambda>k sh. k \<in> set ids \<and> s_shipper_contact_ref sh = Some (as_contact a)) (db_shipments d)))
          (1, [], s1) = Inr (number, receipts, s2)"
    and "for_each (add_receipt doc) (sort (remdups receipts)) s2 = Inr s3"
    and "for_each (add_manual_line doc) ms (number, s3) = Inr (number', s')"
  using assms unfolding create_billing_draft_def Let_def wms_ok
  by (fastforce simp: wms_ok split: if_splits)

lemma create_billing_draft_keeps:
  assumes "create_billing_draft be profile kind ids ms currency rate d s = Inr (doc, s')" and "bills_ok s"
  shows "bills_ok s'"
  using assms(1)
proof (rule create_billing_draft_Inr)
  fix a b s1 number receipts s2 s3 number' and ships :: "(nat \<times> shipment) list"
  assume bill: "create_bill (be_env be) b s = Inr (doc, s1)" "bi_status b = Bill_Draft"
    and ships: "for_each (add_shipment be doc (map_option snd (resolve_document_computation_profile a s)) d)
          (sort_key fst (rows_where (\<lambda>k sh. k \<in> set ids \<and> s_shipper_contact_ref sh = Some (as_contact a)) (db_shipments d)))
          (1, [], s1) = Inr (number, receipts, s2)"
    and receipts: "for_each (add_receipt doc) (sort (remdups receipts)) s2 = Inr s3"
    and manual: "for_each (add_manual_line doc) ms (number, s3) = Inr (number', s')"
  define D where "D = fst ` set (bd_documents s1)"
  define P where "P t \<longleftrightarrow> bill_rows_ok D t \<and> bd_documents t = bd_documents s1" for t
  have s1: "bills_ok s1" "doc \<in> D" using create_bill_keeps [OF bill(1)] bill(2) assms(2) by (simp_all add: D_def)
  then have "P s1" by (simp add: P_def D_def bills_ok_def)
  have "(\<lambda>(n, rs, t). P t) (number, receipts, s2)"
    by (rule for_each_inv [OF ships]) (use s1(2) \<open>P s1\<close> add_shipment_keeps in \<open>fastforce simp: P_def\<close>)+
  then have "P s2" by simp
  have "P s3"
    by (rule for_each_inv [OF receipts]) (use s1(2) \<open>P s2\<close> add_receipt_keeps in \<open>fastforce simp: P_def\<close>)+
  have "(\<lambda>(n, t). P t) (number', s')"
    by (rule for_each_inv [OF manual]) (use s1(2) \<open>P s3\<close> add_manual_line_keeps in \<open>fastforce simp: P_def\<close>)+
  then show ?thesis using s1(1) by (simp add: P_def D_def bills_ok_def)
qed

lemma keys_row_upd [simp]: "fst ` set (row_upd k f t) = fst ` set t"
  using map_fst_row_upd [of k f t] by (metis set_map)

lemma bills_ok_status:
  assumes "bills_ok s" and "\<And>c. (k, c) \<in> set (bd_documents s) \<Longrightarrow> bill_numbers (f c) = bill_numbers c \<and> (bill_typed c \<longrightarrow> bill_typed (f c))"
  shows "bills_ok (s\<lparr>bd_documents := row_upd k f (bd_documents s)\<rparr>)"
  using assms documents_ok_status [of "bd_documents s" k f] by (simp add: bills_ok_def)

lemma recompute_invoice_status_keeps:
  assumes "recompute_invoice_status e doc s = Inr s'" and "bills_ok s"
  shows "bills_ok s'"
proof -
  consider "s' = s"
    | b st where "row_get (bd_documents s) doc = Some b" "bi_status b \<notin> {Bill_Draft, Bill_Cancelled, Bill_Cancelled_Or_Corrected}"
      "s' = s\<lparr>bd_documents := row_upd doc (\<lambda>b. b\<lparr>bi_status := st, bi_updated_at := e_now e\<rparr>) (bd_documents s)\<rparr>"
    using assms(1) by (auto simp: recompute_invoice_status_def wms_ok Let_def split: if_splits)
  then show ?thesis
  proof cases
    case 1
    then show ?thesis using assms(2) by simp
  next
    case (2 b st)
    have "bi_status c \<in> {Bill_Issued, Bill_Partially_Paid, Bill_Paid}" if "(doc, c) \<in> set (bd_documents s)" for c
    proof -
      have "keys_ok (bd_documents s)" using assms(2) by (simp add: bills_ok_def documents_ok_def)
      then have "c = b" using 2(1) that row_get_iff [of "bd_documents s" doc c] by simp
      then show ?thesis using 2(2) by (cases "bi_status b") auto
    qed
    then show ?thesis
      unfolding 2(3) using assms(2) by (intro bills_ok_status) (auto simp: bill_numbers_def bill_typed_def)
  qed
qed

lemma record_billing_payment_keeps:
  assumes "record_billing_payment e doc q s = Inr s'" and "bills_ok s"
  shows "bills_ok s'"
proof -
  from assms(1) obtain b amount stored p where b: "row_get (bd_documents s) doc = Some b"
    and stored: "decimal_column amount = Inr stored" "pay_amount p = stored" "pay_document p = doc"
    and rec: "recompute_invoice_status e doc (s\<lparr>bd_payments := row_ins p (bd_payments s)\<rparr>) = Inr s'"
    unfolding record_billing_payment_def wms_ok by fastforce
  have "doc \<in> fst ` set (bd_documents s)" using row_get_mem [OF b] by force
  then have "bills_ok (s\<lparr>bd_payments := row_ins p (bd_payments s)\<rparr>)"
    using assms(2) stored decimal_column_amount by (auto simp: bills_ok_def bill_rows_ok_def row_ins_def)
  then show ?thesis using recompute_invoice_status_keeps [OF rec] by simp
qed

lemma issue_billing_document_keeps:
  assumes "issue_billing_document be doc number d s = Inr s'" and "bills_ok s"
  shows "bills_ok s'"
proof -
  from assms(1) obtain b where "save_bill (be_env be) doc b s = Inr s'" and "bi_status b = Bill_Issued"
    unfolding issue_billing_document_def wms_ok by (fastforce simp: Let_def)
  then show ?thesis using save_bill_keeps assms(2) by simp
qed

lemma create_replacement_keeps:
  assumes "create_replacement_invoice_from_invoice e doc s = Inr (k, s')" and "bills_ok s"
  shows "bills_ok s'"
proof -
  from assms(1) obtain b s1 s2 where b: "create_bill e (derived_bill e Kind_Invoice Bill_Draft doc b None None) s = Inr (k, s1)"
    and links: "clone_document_links doc k s1 = Inr s2" and lines: "clone_document_lines doc k False s2 = Inr s'"
    by (auto simp: create_replacement_invoice_from_invoice_def wms_ok)
  have s1: "bills_ok s1" "k \<in> fst ` set (bd_documents s1)"
    using create_bill_keeps [OF b] assms(2) by (simp_all add: derived_bill_def)
  have s2: "bill_rows_ok (fst ` set (bd_documents s1)) s2 \<and> bd_documents s2 = bd_documents s1"
    by (rule clone_links_keeps [OF links s1(2) entries_of_books [OF s1(1)]])
  then show ?thesis using clone_lines_keeps [OF lines s1(2)] s1(1) by (simp add: bills_ok_def)
qed

lemma create_credit_note_keeps:
  assumes "create_credit_note_for_invoice be doc number d s = Inr (k, s')" and "bills_ok s"
  shows "bills_ok s'"
proof -
  from assms(1) obtain b s1 s2 s3 n sp s4 where
    b: "create_bill (be_env be) (derived_bill (be_env be) Kind_Credit_Note Bill_Issued doc b (normalize_number number)
          (Some (e_now (be_env be)))) s = Inr (k, s1)"
    and links: "clone_document_links doc k s1 = Inr s2" and lines: "clone_document_lines doc k True s2 = Inr s3"
    and n: "row_get (bd_documents s3) k = Some n"
    and save: "save_bill (be_env be) k (n\<lparr>bi_issued_snapshot := Some sp\<rparr>) s3 = Inr s4"
    and s': "s' = s4\<lparr>bd_documents := row_upd doc (\<lambda>b. b\<lparr>bi_status := Bill_Cancelled_Or_Corrected,
              bi_updated_at := e_now (be_env be)\<rparr>) (bd_documents s4)\<rparr>"
    by (auto simp: create_credit_note_for_invoice_def wms_ok)
  have s1: "bills_ok s1" "k \<in> fst ` set (bd_documents s1)"
    using create_bill_keeps [OF b] assms(2) by (simp_all add: derived_bill_def)
  have s2: "bill_rows_ok (fst ` set (bd_documents s1)) s2 \<and> bd_documents s2 = bd_documents s1"
    by (rule clone_links_keeps [OF links s1(2) entries_of_books [OF s1(1)]])
  then have s3: "bd_documents s3 = bd_documents s1" "bills_ok s3"
    using clone_lines_keeps [OF lines s1(2)] s1(1) by (simp_all add: bills_ok_def)
  have "bi_status n = Bill_Issued"
  proof -
    from b obtain b' where "prepare_bill (be_env be) None (derived_bill (be_env be) Kind_Credit_Note Bill_Issued doc b (normalize_number number)
          (Some (e_now (be_env be)))) (bd_documents s) = Inr b'" "k = next_pk (bd_documents s)"
        "s1 = s\<lparr>bd_documents := row_ins b' (bd_documents s)\<rparr>" by (rule create_bill_Inr)
    with n s3(1) show ?thesis using prepare_bill_Inr(2) by (fastforce simp: row_get_ins derived_bill_def)
  qed
  then have "bills_ok s4" using save_bill_keeps [OF save] s3(2) by simp
  then show ?thesis unfolding s' by (intro bills_ok_status) (auto simp: bill_numbers_def bill_typed_def)
qed

lemma save_issue_keeps:
  assumes "bills_ok s" and "is_document i \<in> fst ` set (bd_documents s)"
  shows "bills_ok (save_issue e None i s)"
proof -
  have "bills_ok (s\<lparr>bd_issues := row_ins i (bd_issues s)\<rparr>)"
    using assms by (auto simp: bills_ok_def bill_rows_ok_def row_ins_def)
  then show ?thesis unfolding save_issue_def Let_def
    using bills_ok_status [of "s\<lparr>bd_issues := row_ins i (bd_issues s)\<rparr>"] by (auto simp: bill_numbers_def bill_typed_def)
qed

text \<open>Every action of the editor and of the portal keeps the books.\<close>

lemma build_draft_action_Inr:
  assumes "build_draft_action be fetched q d s = Inr s'" and "s' \<noteq> s"
  obtains doc ids ms cur rate where
    "create_billing_draft be (dr_profile q) (dr_kind q) ids ms cur rate d s = Inr (doc, s')"
proof -
  from assms obtain a where a: "row_get (bd_associations s) (dr_profile q) = Some a"
    by (cases "row_get (bd_associations s) (dr_profile q)") (auto simp: build_draft_action_def)
  then obtain rows where rows: "build_editor_candidates be (dr_profile q) (dr_kind q) (dr_period q) d s = Inr rows"
    using assms(1) by (auto simp: build_draft_action_def wms_ok)
  define resolved where "resolved = er_rate (resolve_exchange_rate fetched (selected_document_currency (dr_currency q) a) ''EUR'')"
  define ids where "ids = filter (\<lambda>k. k \<in> cr_shipment ` set rows) (dr_shipment_ids q)"
  note run = assms(1) [unfolded build_draft_action_def a rows Let_def option.case res_bind_simps, folded resolved_def ids_def]
  then have "ids \<noteq> []" using assms(2) by auto
  with run assms(2) obtain cur entered where "draft_options q (selected_document_currency (dr_currency q) a) resolved = Some (cur, entered)"
    by (cases "draft_options q (selected_document_currency (dr_currency q) a) resolved") auto
  note run = run [unfolded this if_not_P [OF \<open>ids \<noteq> []\<close>] option.case prod.case]
  then obtain rate where "(case entered of None \<Rightarrow> resolved | Some r \<Rightarrow> Some r) = Some rate"
    using assms(2) by (cases "case entered of None \<Rightarrow> resolved | Some r \<Rightarrow> Some r") auto
  with run show thesis using that by (auto simp: wms_ok)
qed

lemma build_draft_action_keeps:
  assumes "build_draft_action be fetched q d s = Inr s'" and "bills_ok s"
  shows "bills_ok s'"
  using assms(2) create_billing_draft_keeps build_draft_action_Inr [OF assms(1)] by metis

lemma issue_document_action_keeps:
  assumes "issue_document_action be doc number d s = Inr s'" and "bills_ok s"
  shows "bills_ok s'"
  using assms issue_billing_document_keeps unfolding issue_document_action_def
  by (auto split: sum.splits err.splits)

lemma add_payment_action_keeps:
  assumes "add_payment_action e doc amount q s = Inr s'" and "bills_ok s"
  shows "bills_ok s'"
  using assms record_billing_payment_keeps unfolding add_payment_action_def
  by (auto simp: wms_ok split: amount_field.splits)

lemma correction_chain_action_keeps:
  "bills_ok s \<Longrightarrow> bills_ok (snd (correction_chain_action be doc number replace d s))"
  using create_credit_note_keeps [of be doc number d s] create_replacement_keeps [of "be_env be" doc]
  unfolding correction_chain_action_def by (auto split: sum.split)

lemma request_correction_action_keeps:
  assumes "request_correction_action e profile doc description s = Inr s'" and s: "bills_ok s"
  shows "bills_ok s'"
proof -
  from assms(1) obtain b where "(doc, b) \<in> set (issued_billing_documents profile s)"
    and s': "s' = s \<or> s' = save_issue e None \<lparr>is_document = doc, is_status = Iss_Open\<rparr> s"
    unfolding request_correction_action_def wms_ok by (auto dest!: map_of_SomeD split: if_splits)
  then have "doc \<in> fst ` set (bd_documents s)" by (force simp: issued_billing_documents_def rows_where_def)
  then have "bills_ok (save_issue e None \<lparr>is_document = doc, is_status = Iss_Open\<rparr> s)"
    using save_issue_keeps [OF s] by simp
  then show ?thesis using s' s by auto
qed

lemma settled_books_keeps: "P s \<Longrightarrow> (\<And>s'. r = Inr s' \<Longrightarrow> P s') \<Longrightarrow> P (snd (settled_books s r))"
  by (cases r) (simp_all add: settled_books_def)

lemma run_billing_keeps:
  assumes "bills_ok s"
  shows "bills_ok (snd (run_billing (be, d, a) s))"
proof (cases a)
  case (Build_Draft fetched q)
  show ?thesis unfolding Build_Draft run_billing.simps
    by (rule settled_books_keeps [of bills_ok, OF assms build_draft_action_keeps [OF _ assms]])
next
  case (Issue_Document doc number)
  show ?thesis unfolding Issue_Document run_billing.simps
    by (rule settled_books_keeps [of bills_ok, OF assms issue_document_action_keeps [OF _ assms]])
next
  case (Add_Payment doc amount q)
  show ?thesis unfolding Add_Payment run_billing.simps
    by (rule settled_books_keeps [of bills_ok, OF assms add_payment_action_keeps [OF _ assms]])
next
  case (Correction_Chain doc number replace)
  show ?thesis unfolding Correction_Chain run_billing.simps
    by (rule correction_chain_action_keeps [OF assms])
next
  case (Request_Correction profile doc description)
  show ?thesis unfolding Request_Correction run_billing.simps
    by (rule settled_books_keeps [of bills_ok, OF assms request_correction_action_keeps [OF _ assms]])
qed

text \<open>A run of requests, each with the time and the shipments it finds.\<close>

interpretation books: kept "\<lambda>a s. Inr (snd (run_billing a s)) :: err + bill_db" bills_ok
  by unfold_locales (metis run_billing_keeps prod_cases3 sum.inject(2))

end
