(* ===== verification/Billing_Documents.thy ===== *)
theory Billing_Documents
  imports Billing_Facts
begin

text \<open>
  Lemmas on the documents of billing: what a draft and a credit note add up to, the status of an invoice
  and its payments under the step relation \<open>billing_step\<close>, what an issued document keeps saying, and the
  numbers of quotes in the order of texts.
\<close>

section \<open>What a draft and a copy add up to\<close>

lemma for_each_adds_keeping:
  assumes "for_each f xs s = Inr s'" and "I s"
    and "\<And>x t t'. x \<in> set xs \<Longrightarrow> f x t = Inr t' \<Longrightarrow> I t \<Longrightarrow> I t' \<and> g t' = g t + (h x :: rat)"
  shows "I s' \<and> g s' = g s + sum_list (map h xs)"
  using assms
proof (induction xs arbitrary: s)
  case Nil
  then show ?case by simp
next
  case (Cons x xs)
  then obtain t where t: "f x s = Inr t" "for_each f xs t = Inr s'" by (auto simp: wms_ok)
  have x: "I t \<and> g t = g s + h x" by (rule Cons.prems(3)) (use Cons.prems(2) t(1) in simp_all)
  have "I s' \<and> g s' = g t + sum_list (map h xs)" 
    by (rule Cons.IH [OF t(2)]) (use x Cons.prems(3) in auto)
  with x show ?case by simp
qed

lemma extends_doc_total: "extends_doc doc s s' \<Longrightarrow> doc' \<noteq> doc \<Longrightarrow> line_total doc' (bd_lines s') = line_total doc' (bd_lines s)"
proof -
  assume "extends_doc doc s s'" and other: "doc' \<noteq> doc"
  then obtain ls where ls: "bd_lines s' = bd_lines s @ ls" "\<forall>(k, l) \<in> set ls. bl_document l = doc"
    by (fastforce simp: extends_doc_def)
  have "line_total doc' ls = 0" if "\<forall>(k, l) \<in> set ls. bl_document l = doc" for ls
    using that other by (induction ls) (auto simp: line_total_def)
  with ls show ?thesis by simp
qed

lemma fresh_total: "bills_ok s \<Longrightarrow> doc \<notin> fst ` set (bd_documents s) \<Longrightarrow> line_total doc (bd_lines s) = 0"
proof -
  assume "bills_ok s" and new: "doc \<notin> fst ` set (bd_documents s)"
  then have "\<forall>(k, l) \<in> set (bd_lines s). bl_document l \<noteq> doc" unfolding bills_ok_def bill_rows_ok_def by fast
  then have "line_total doc t = 0" if "set t \<subseteq> set (bd_lines s)" for t
    using that by (induction t) (auto simp: line_total_def)
  then show ?thesis by blast
qed

lemma draft_shipments_total:
  assumes "for_each (add_shipment be doc profile d) xs (n, rs, s) = Inr (n', rs', s')"
  shows "extends_doc doc s s'"
    and "line_total doc (bd_lines s') = line_total doc (bd_lines s) + sum_list (map (\<lambda>x. shipment_line_amount profile d s (fst x)) xs)"
proof -
  have "(\<lambda>(n, rs, t). extends_doc doc s t \<and> bd_allocations t = bd_allocations s) (n', rs', s')
      \<and> (\<lambda>(n, rs, t). line_total doc (bd_lines t)) (n', rs', s') = (\<lambda>(n, rs, t). line_total doc (bd_lines t)) (n, rs, s)
        + sum_list (map (\<lambda>x. shipment_line_amount profile d s (fst x)) xs)"
  proof (rule for_each_adds_keeping [OF assms])
    fix x t t'
    assume round: "add_shipment be doc profile d x t = Inr t'"
      and kept: "case t of (n, rs, t) \<Rightarrow> extends_doc doc s t \<and> bd_allocations t = bd_allocations s"
    obtain n1 r1 t1 where t: "t = (n1, r1, t1)" by (cases t)
    obtain n2 r2 t2 where t': "t' = (n2, r2, t2)" by (cases t')
    note round = round [unfolded t t']
    have "shipment_line_amount profile d t1 (fst x) = shipment_line_amount profile d s (fst x)"
      using kept shipment_amount_cong [of t1 s] by (simp add: t shipment_line_amount_def)
    then show "(case t' of (n, rs, t) \<Rightarrow> extends_doc doc s t \<and> bd_allocations t = bd_allocations s)
      \<and> (case t' of (n, rs, t) \<Rightarrow> line_total doc (bd_lines t)) = (case t of (n, rs, t) \<Rightarrow> line_total doc (bd_lines t))
        + shipment_line_amount profile d s (fst x)"
      using add_shipment_Inr [OF round] kept extends_doc_trans [of doc s t1 t2] by (simp add: t t')
  qed (simp add: extends_doc_refl)
  then show "extends_doc doc s s'" and "line_total doc (bd_lines s') = line_total doc (bd_lines s)
      + sum_list (map (\<lambda>x. shipment_line_amount profile d s (fst x)) xs)" by simp_all
qed

lemma draft_manual_total:
  assumes "for_each (add_manual_line doc) ms (n, s) = Inr (n', s')"
  shows "extends_doc doc s s'" and "line_total doc (bd_lines s') = line_total doc (bd_lines s) + sum_list (map manual_amount ms)"
proof -
  have "(\<lambda>(n, t). extends_doc doc s t) (n', s')
      \<and> (\<lambda>(n, t). line_total doc (bd_lines t)) (n', s') = (\<lambda>(n, t). line_total doc (bd_lines t)) (n, s) + sum_list (map manual_amount ms)"
  proof (rule for_each_adds_keeping [OF assms])
    fix x t t'
    assume round: "add_manual_line doc x t = Inr t'" and kept: "case t of (n, t) \<Rightarrow> extends_doc doc s t"
    obtain n1 t1 where t: "t = (n1, t1)" by (cases t)
    obtain n2 t2 where t': "t' = (n2, t2)" by (cases t')
    show "(case t' of (n, t) \<Rightarrow> extends_doc doc s t)
      \<and> (case t' of (n, t) \<Rightarrow> line_total doc (bd_lines t)) = (case t of (n, t) \<Rightarrow> line_total doc (bd_lines t)) + manual_amount x"
      using add_manual_line_Inr [OF round [unfolded t t']] kept extends_doc_trans [of doc s t1 t2] by (simp add: t t')
  qed (simp add: extends_doc_refl)
  then show "extends_doc doc s s'" and "line_total doc (bd_lines s') = line_total doc (bd_lines s) + sum_list (map manual_amount ms)"
    by simp_all
qed

lemma draft_receipts_extend:
  assumes "for_each (add_receipt doc) rs s = Inr s'"
  shows "extends_doc doc s s' \<and> bd_lines s' = bd_lines s"
  by (rule for_each_inv [OF assms, where P = "\<lambda>t. extends_doc doc s t \<and> bd_lines t = bd_lines s"])
    (use add_receipt_extends extends_doc_trans extends_doc_refl in \<open>fastforce+\<close>)

definition billed_shipments :: "association \<Rightarrow> nat list \<Rightarrow> db \<Rightarrow> nat list" where
  "billed_shipments a ids d =
     map fst (rows_where (\<lambda>k sh. k \<in> set ids \<and> s_shipper_contact_ref sh = Some (as_contact a)) (db_shipments d))"

lemma create_billing_draft_extends:
  assumes "create_billing_draft be profile kind ids ms cur rate d s = Inr (doc, s')" and "bills_ok s"
  obtains a b s1 where "row_get (bd_associations s) profile = Some a"
    and "doc = next_pk (bd_documents s)" and "s1 = s\<lparr>bd_documents := row_ins b (bd_documents s)\<rparr>"
    and "bi_kind b = kind" and "bi_status b = Bill_Draft" and "bi_association b = profile"
    and "extends_doc doc s1 s'"
    and "line_total doc (bd_lines s') = sum_list (map (shipment_line_amount (map_option snd (resolve_document_computation_profile a s)) d s)
      (billed_shipments a ids d)) + sum_list (map manual_amount ms)"
  using assms(1)
proof (rule create_billing_draft_Inr)
  fix a b s1 number receipts s2 s3 number'
  define profile' where "profile' = map_option snd (resolve_document_computation_profile a s)"
  define xs where "xs = rows_where (\<lambda>k sh. k \<in> set ids \<and> s_shipper_contact_ref sh = Some (as_contact a)) (db_shipments d)"
  assume a: "row_get (bd_associations s) profile = Some a"
    and bill: "create_bill (be_env be) b s = Inr (doc, s1)" "bi_kind b = kind" "bi_status b = Bill_Draft" "bi_association b = profile"
    and "for_each (add_shipment be doc (map_option snd (resolve_document_computation_profile a s)) d)
          (sort_key fst (rows_where (\<lambda>k sh. k \<in> set ids \<and> s_shipper_contact_ref sh = Some (as_contact a)) (db_shipments d)))
          (1, [], s1) = Inr (number, receipts, s2)"
    and receipts: "for_each (add_receipt doc) (sort (remdups receipts)) s2 = Inr s3"
    and manual: "for_each (add_manual_line doc) ms (number, s3) = Inr (number', s')"
  then have ships: "for_each (add_shipment be doc profile' d) (sort_key fst xs) (1, [], s1) = Inr (number, receipts, s2)"
    by (simp add: profile'_def xs_def)
  from bill(1) obtain b' where b': "prepare_bill (be_env be) None b (bd_documents s) = Inr b'" and doc: "doc = next_pk (bd_documents s)"
    and s1: "s1 = s\<lparr>bd_documents := row_ins b' (bd_documents s)\<rparr>" by (rule create_bill_Inr)
  have "line_total doc (bd_lines s1) = 0"
    using fresh_total [OF assms(2) next_pk_fresh] by (simp add: s1 doc)
  moreover have "shipment_line_amount profile' d s1 = shipment_line_amount profile' d s"
    using shipment_amount_cong [of s1 s] by (simp add: s1 shipment_line_amount_def fun_eq_iff)
  moreover have "sum_list (map (\<lambda>x. f (fst x)) (sort_key fst xs)) = sum_list (map f (billed_shipments a ids d))" for f :: "nat \<Rightarrow> rat"
    using sum_sort_key [of "\<lambda>x. f (fst x)" fst xs] by (simp add: billed_shipments_def xs_def comp_def)
  ultimately have total: "line_total doc (bd_lines s') = sum_list (map (shipment_line_amount profile' d s) (billed_shipments a ids d))
      + sum_list (map manual_amount ms)"
    using draft_shipments_total(2) [OF ships] draft_manual_total(2) [OF manual] draft_receipts_extend [OF receipts] by simp
  have "extends_doc doc s1 s'"
    using draft_shipments_total(1) [OF ships] draft_receipts_extend [OF receipts] draft_manual_total(1) [OF manual] extends_doc_trans by blast
  then show thesis
    using that [OF a doc s1] prepare_bill_Inr(1,2,5) [OF b'] bill(2-) total by (simp add: profile'_def)
qed

section \<open>Copies\<close>

lemma clone_links_lines: "clone_document_links source target s = Inr s' \<Longrightarrow>
    bd_lines s' = bd_lines s \<and> bd_documents s' = bd_documents s \<and> bd_payments s' = bd_payments s \<and> bd_associations s' = bd_associations s"
  using clone_links_extends [of source target s s' target] by (auto simp: extends_doc_def)

lemma stored_lines_negated:
  assumes "bill_rows_ok D s"
  shows "sum_list (map (\<lambda>l. stored (bl_total_amount l * - 1)) (lines_of doc s)) = - line_total doc (bd_lines s)"
proof -
  have amount: "stored (bl_total_amount l) = bl_total_amount l" if "l \<in> set (lines_of doc s)" for l
    using that assms by (fastforce simp: set_lines_of bill_rows_ok_def line_stored_def column_amount_def)
  have "map (\<lambda>l. stored (bl_total_amount l * - 1)) (lines_of doc s) = map (\<lambda>l. - bl_total_amount l) (lines_of doc s)"
    by (intro map_cong refl) (use stored_uminus [OF amount] in simp)
  then have "sum_list (map (\<lambda>l. stored (bl_total_amount l * - 1)) (lines_of doc s)) = - sum_list (map bl_total_amount (lines_of doc s))"
    by (simp only: uminus_sum_list_map comp_def)
  then show ?thesis using lines_total_eq [of doc s] by (simp only: lines_total_amount_def)
qed

lemma stored_lines_copied:
  assumes "bill_rows_ok D s"
  shows "sum_list (map (\<lambda>l. stored (bl_total_amount l * 1)) (lines_of doc s)) = line_total doc (bd_lines s)"
proof -
  have "map (\<lambda>l. stored (bl_total_amount l * 1)) (lines_of doc s) = map bl_total_amount (lines_of doc s)"
    using assms by (intro map_cong refl) (fastforce simp: set_lines_of bill_rows_ok_def line_stored_def column_amount_def)
  then show ?thesis using lines_total_eq [of doc s] by (simp only: lines_total_amount_def)
qed

text \<open>What a credit cn is, against the books it was made from.\<close>

lemma create_credit_note_Inr:
  assumes "create_credit_note_for_invoice be doc number d s = Inr (cn, s')" and "bills_ok s"
  obtains b c s1 s3 sp a where "row_get (bd_documents s) doc = Some b" and "bi_kind b = Kind_Invoice"
    and "cn = next_pk (bd_documents s)" and "s1 = s\<lparr>bd_documents := row_ins c (bd_documents s)\<rparr>"
    and "bi_kind c = Kind_Credit_Note" and "bi_status c = Bill_Issued" and "bi_parent_document c = Some doc"
    and "extends_doc cn s1 s3" and "line_total cn (bd_lines s3) = - line_total doc (bd_lines s)"
    and "row_get (bd_associations s3) (bi_association c) = Some a"
    and "sp_total_amount sp = line_total cn (bd_lines s3)"
    and "\<exists>c'. bi_kind c' = Kind_Credit_Note \<and> bi_status c' = Bill_Issued \<and> bi_parent_document c' = Some doc
           \<and> bi_issued_snapshot c' = Some sp
           \<and> s' = s3\<lparr>bd_documents := row_upd doc (\<lambda>b. b\<lparr>bi_status := Bill_Cancelled_Or_Corrected, bi_updated_at := e_now (be_env be)\<rparr>)
               (row_upd cn (\<lambda>_. c') (bd_documents s3))\<rparr>"
proof -
  from assms(1) obtain b s1 s2 s3 n sp s4 where
    b: "row_get (bd_documents s) doc = Some b" "bi_kind b = Kind_Invoice"
    and bill: "create_bill (be_env be) (derived_bill (be_env be) Kind_Credit_Note Bill_Issued doc b (normalize_number number)
          (Some (e_now (be_env be)))) s = Inr (cn, s1)"
    and links: "clone_document_links doc cn s1 = Inr s2" and lines: "clone_document_lines doc cn True s2 = Inr s3"
    and n: "row_get (bd_documents s3) cn = Some n" and sp: "build_issued_document_snapshot be cn n d s3 = Inr sp"
    and save: "save_bill (be_env be) cn (n\<lparr>bi_issued_snapshot := Some sp\<rparr>) s3 = Inr s4"
    and s': "s' = s4\<lparr>bd_documents := row_upd doc (\<lambda>b. b\<lparr>bi_status := Bill_Cancelled_Or_Corrected,
              bi_updated_at := e_now (be_env be)\<rparr>) (bd_documents s4)\<rparr>"
    by (auto simp: create_credit_note_for_invoice_def wms_ok)
  from bill obtain c where c: "prepare_bill (be_env be) None (derived_bill (be_env be) Kind_Credit_Note Bill_Issued doc b
      (normalize_number number) (Some (e_now (be_env be)))) (bd_documents s) = Inr c"
    and cn: "cn = next_pk (bd_documents s)" and s1: "s1 = s\<lparr>bd_documents := row_ins c (bd_documents s)\<rparr>" by (rule create_bill_Inr)
  have kind: "bi_kind c = Kind_Credit_Note" "bi_status c = Bill_Issued" "bi_parent_document c = Some doc"
    using prepare_bill_Inr(1,2,4) [OF c] by (simp_all add: derived_bill_def)
  have s1ok: "bills_ok s1" using create_bill_keeps [OF bill] assms(2) by (simp add: derived_bill_def)
  have ext: "extends_doc cn s1 s3"
    using clone_links_extends [OF links, of cn] clone_lines_extends(1) [OF lines] extends_doc_trans by blast
  have s2: "bill_rows_ok (fst ` set (bd_documents s1)) s2"
    using clone_links_keeps [OF links, of "fst ` set (bd_documents s1)"] s1ok by (auto simp: bills_ok_def s1 cn row_ins_def)
  have "line_total cn (bd_lines s1) = 0" using fresh_total [OF assms(2) next_pk_fresh] by (simp add: s1 cn)
  then have total: "line_total cn (bd_lines s3) = - line_total doc (bd_lines s)"
    using clone_lines_extends(2) [OF lines] stored_lines_negated [OF s2, of doc] clone_links_lines [OF links] by (simp add: s1)
  have "bd_documents s3 = bd_documents s1" using ext by (simp add: extends_doc_def)
  then have "n = c" using n by (simp add: s1 cn row_get_ins)
  then obtain a where a: "row_get (bd_associations s3) (bi_association c) = Some a" and amount: "sp_total_amount sp = line_total cn (bd_lines s3)"
    using sp by (auto simp: build_issued_document_snapshot_def wms_ok lines_total_eq)
  from save obtain c' where c': "prepare_bill (be_env be) (Some cn) (n\<lparr>bi_issued_snapshot := Some sp\<rparr>) (bd_documents s3) = Inr c'"
    and s4: "s4 = s3\<lparr>bd_documents := row_upd cn (\<lambda>_. c') (bd_documents s3)\<rparr>" by (auto simp: save_bill_def wms_ok)
  have "bi_kind c' = Kind_Credit_Note" "bi_status c' = Bill_Issued" "bi_parent_document c' = Some doc" "bi_issued_snapshot c' = Some sp"
    using prepare_bill_Inr(1,2,4,6) [OF c'] kind \<open>n = c\<close> by simp_all
  then show thesis by (intro that [OF b cn s1 kind ext total a amount]) (auto simp: s' s4)
qed

lemma create_replacement_Inr:
  assumes "create_replacement_invoice_from_invoice e doc s = Inr (k, s')" and "bills_ok s"
  obtains b c s1 where "row_get (bd_documents s) doc = Some b" and "k = next_pk (bd_documents s)"
    and "s1 = s\<lparr>bd_documents := row_ins c (bd_documents s)\<rparr>"
    and "bi_kind c = Kind_Invoice" and "bi_status c = Bill_Draft" and "bi_issued_snapshot c = None"
    and "extends_doc k s1 s'" and "line_total k (bd_lines s') = line_total doc (bd_lines s)"
proof -
  from assms(1) obtain b s1 s2 where b: "row_get (bd_documents s) doc = Some b"
    and bill: "create_bill e (derived_bill e Kind_Invoice Bill_Draft doc b None None) s = Inr (k, s1)"
    and links: "clone_document_links doc k s1 = Inr s2" and lines: "clone_document_lines doc k False s2 = Inr s'"
    by (auto simp: create_replacement_invoice_from_invoice_def wms_ok)
  from bill obtain c where c: "prepare_bill e None (derived_bill e Kind_Invoice Bill_Draft doc b None None) (bd_documents s) = Inr c"
    and k: "k = next_pk (bd_documents s)" and s1: "s1 = s\<lparr>bd_documents := row_ins c (bd_documents s)\<rparr>" by (rule create_bill_Inr)
  have s1ok: "bills_ok s1" using create_bill_keeps [OF bill] assms(2) by (simp add: derived_bill_def)
  have ext: "extends_doc k s1 s'"
    using clone_links_extends [OF links, of k] clone_lines_extends(1) [OF lines] extends_doc_trans by blast
  have s2: "bill_rows_ok (fst ` set (bd_documents s1)) s2"
    using clone_links_keeps [OF links, of "fst ` set (bd_documents s1)"] s1ok by (auto simp: bills_ok_def s1 k row_ins_def)
  have "line_total k (bd_lines s1) = 0" using fresh_total [OF assms(2) next_pk_fresh] by (simp add: s1 k)
  then have "line_total k (bd_lines s') = line_total doc (bd_lines s)"
    using clone_lines_extends(2) [OF lines] stored_lines_copied [OF s2, of doc] clone_links_lines [OF links] by (simp add: s1)
  then show thesis using that [OF b k s1] prepare_bill_Inr(1,2,6) [OF c] ext by (simp add: derived_bill_def)
qed

section \<open>The status of an invoice\<close>

definition status_fits :: "nat \<Rightarrow> bill \<Rightarrow> bill_db \<Rightarrow> bool" where
  "status_fits k b s \<longleftrightarrow> (bi_kind b = Kind_Invoice \<longrightarrow>
     (bi_status b \<in> {Bill_Issued, Bill_Partially_Paid, Bill_Paid}
        \<longrightarrow> bi_status b = status_for_payments (paid_amount k s) (lines_total_amount k s))
     \<and> (bi_status b = Bill_Draft \<longrightarrow> (\<forall>(i, p) \<in> set (bd_payments s). pay_document p \<noteq> k)))"

definition statuses_fit :: "bill_db \<Rightarrow> bool" where
  "statuses_fit s \<longleftrightarrow> (\<forall>k b. row_get (bd_documents s) k = Some b \<longrightarrow> status_fits k b s)"

lemma no_payments_total: "\<forall>(i, p) \<in> set t. pay_document p \<noteq> k \<Longrightarrow> payment_total k t = 0"
  by (induction t) (auto simp: payment_total_def)

lemma known_document: "row_get t k = Some b \<Longrightarrow> k \<in> fst ` set t"
  using row_get_mem by force

lemma statuses_fit_new:
  assumes "bills_ok s" and "statuses_fit s" and "k = next_pk (bd_documents s)"
    and "s1 = s\<lparr>bd_documents := row_ins c (bd_documents s)\<rparr>" and "extends_doc k s1 s'"
    and "bi_kind c = Kind_Invoice \<Longrightarrow> bi_status c = Bill_Draft"
  shows "statuses_fit s'"
proof -
  have docs: "bd_documents s' = row_ins c (bd_documents s)" "bd_payments s' = bd_payments s"
    using assms(4,5) by (simp_all add: extends_doc_def)
  have "status_fits j b s'" if j: "row_get (bd_documents s') j = Some b" for j b
  proof (cases "j = k")
    case True
    have "\<forall>(i, p) \<in> set (bd_payments s). pay_document p \<in> fst ` set (bd_documents s)"
      using assms(1) by (auto simp: bills_ok_def bill_rows_ok_def)
    then have "\<forall>(i, p) \<in> set (bd_payments s). pay_document p \<noteq> k"
      using next_pk_fresh [of "bd_documents s"] by (fastforce simp: assms(3))
    then show ?thesis using j True assms(6) by (auto simp: status_fits_def docs row_get_ins assms(3))
  next
    case False
    then have old: "row_get (bd_documents s) j = Some b" using j by (simp add: docs row_get_ins assms(3))
    have "line_total j (bd_lines s') = line_total j (bd_lines s)"
      using extends_doc_total [OF assms(5) False] by (simp add: assms(4))
    moreover have "status_fits j b s" using assms(2) old by (simp add: statuses_fit_def)
    ultimately show ?thesis by (simp add: status_fits_def docs paid_amount_eq lines_total_eq)
  qed
  then show ?thesis by (simp add: statuses_fit_def)
qed

lemma statuses_fit_upd:
  assumes "statuses_fit s" and "\<And>b. row_get (bd_documents s) k = Some b \<Longrightarrow> status_fits k b s \<Longrightarrow> status_fits k (f b) s"
  shows "statuses_fit (s\<lparr>bd_documents := row_upd k f (bd_documents s)\<rparr>)"
  using assms unfolding statuses_fit_def status_fits_def paid_amount_def lines_total_amount_def lines_of_def
  by (auto simp: row_get_upd)

lemma statuses_fit_payment:
  assumes "record_billing_payment e doc q s = Inr s'" and "statuses_fit s"
  shows "statuses_fit s'"
proof -
  from assms(1) obtain b p where b: "row_get (bd_documents s) doc = Some b" "bi_kind b = Kind_Invoice" "bi_status b \<noteq> Bill_Draft"
    and p: "pay_document p = doc"
    and rec: "recompute_invoice_status e doc (s\<lparr>bd_payments := row_ins p (bd_payments s)\<rparr>) = Inr s'"
    unfolding record_billing_payment_def wms_ok by fastforce
  define s1 where "s1 = s\<lparr>bd_payments := row_ins p (bd_payments s)\<rparr>"
  have docs: "bd_documents s1 = bd_documents s" by (simp add: s1_def)
  have others: "status_fits j c s1" if "row_get (bd_documents s) j = Some c" "j \<noteq> doc" for j c
    using assms(2) that p unfolding statuses_fit_def status_fits_def s1_def
    by (auto simp: paid_amount_eq lines_total_eq row_ins_def payment_total_def)
  consider "bi_status b \<in> {Bill_Cancelled, Bill_Cancelled_Or_Corrected}" "s' = s1"
    | "bi_status b = status_for_payments (paid_amount doc s1) (lines_total_amount doc s1)" "s' = s1"
    | "s' = s1\<lparr>bd_documents := row_upd doc (\<lambda>b. b\<lparr>bi_status := status_for_payments (paid_amount doc s1) (lines_total_amount doc s1),
          bi_updated_at := e_now e\<rparr>) (bd_documents s1)\<rparr>"
    using rec b unfolding s1_def [symmetric]
    by (auto simp: recompute_invoice_status_def wms_ok Let_def s1_def split: if_splits)
  then show ?thesis
  proof cases
    case 1
    then have "status_fits doc b s1" by (auto simp: status_fits_def)
    then show ?thesis using others b(1) 1(2) docs by (metis option.inject statuses_fit_def)
  next
    case 2
    then have "status_fits doc b s1" using b(3) by (auto simp: status_fits_def)
    then show ?thesis using others b(1) 2(2) docs by (metis option.inject statuses_fit_def)
  next
    case 3
    have "status_fits j c s'" if "row_get (bd_documents s') j = Some c" for j c
      using that others [of j c] b unfolding 3 status_fits_def s1_def paid_amount_def lines_total_amount_def lines_of_def
      by (cases "j = doc") (auto simp: row_get_upd status_for_payments_def split: if_splits)
    then show ?thesis by (simp add: statuses_fit_def)
  qed
qed


lemma statuses_fit_issue:
  assumes "issue_billing_document be doc number d s = Inr s'" and "statuses_fit s"
    and "\<And>b. row_get (bd_documents s) doc = Some b \<Longrightarrow> bi_status b = Bill_Draft"
  shows "statuses_fit s'"
proof -
  from assms(1) obtain b0 b1 sp where b0: "row_get (bd_documents s) doc = Some b0"
    and b1: "(if bi_kind b0 = Kind_Invoice then
          (let resolved = strip (case number of Some n \<Rightarrow> n
               | None \<Rightarrow> (case bi_invoice_number b0 of Some n \<Rightarrow> n | None \<Rightarrow> []))
           in if resolved = [] then Inl (Value_Error ''Invoice number is required before issue.'')
              else Inr (b0\<lparr>bi_invoice_number := Some resolved\<rparr>))
        else Inr b0) = Inr b1"
    and save: "save_bill (be_env be) doc (b1\<lparr>bi_issued_snapshot := Some sp, bi_status := Bill_Issued,
             bi_issued_at := (case bi_issued_at b1 of None \<Rightarrow> Some (e_now (be_env be)) | Some t \<Rightarrow> Some t)\<rparr>) s = Inr s'"
    by (auto simp: issue_billing_document_def wms_ok)
  have kind: "bi_kind b1 = bi_kind b0" using b1 by (auto simp: Let_def split: if_splits)
  define b where "b = b1\<lparr>bi_issued_snapshot := Some sp, bi_status := Bill_Issued,
             bi_issued_at := (case bi_issued_at b1 of None \<Rightarrow> Some (e_now (be_env be)) | Some t \<Rightarrow> Some t)\<rparr>"
  have status: "bi_status b = Bill_Issued" and kindb: "bi_kind b = bi_kind b0" by (simp_all add: b_def kind)
  note save = save [folded b_def]
  from save obtain b' where b': "prepare_bill (be_env be) (Some doc) b (bd_documents s) = Inr b'"
    and s': "s' = s\<lparr>bd_documents := row_upd doc (\<lambda>_. b') (bd_documents s)\<rparr>" by (auto simp: save_bill_def wms_ok)
  have draft: "bi_status b0 = Bill_Draft" using assms(3) b0 by simp
  show ?thesis unfolding s'
  proof (rule statuses_fit_upd [OF assms(2)])
    fix c
    assume c: "row_get (bd_documents s) doc = Some c" and fits: "status_fits doc c s"
    then have "bi_kind c = Kind_Invoice \<Longrightarrow> paid_amount doc s = 0"
      using no_payments_total draft b0 by (simp add: status_fits_def paid_amount_eq)
    then show "status_fits doc b' s"
      using prepare_bill_Inr(1,2) [OF b'] b0 c status kindb by (auto simp: status_fits_def status_for_payments_def)
  qed
qed

lemma statuses_fit_correction_chain:
  assumes "bills_ok s" and "statuses_fit s"
  shows "statuses_fit (snd (correction_chain_action be doc number replace d s))"
proof (cases "create_credit_note_for_invoice be doc number d s")
  case (Inl x)
  then show ?thesis using assms by (simp add: correction_chain_action_def)
next
  case (Inr r)
  obtain cn s1 where r: "r = (cn, s1)" by (cases r)
  note cred = Inr [unfolded r]
  have fit1: "statuses_fit s1"
  proof (rule create_credit_note_Inr [OF cred assms(1)])
    fix b c t s3 sp a
    assume cn: "cn = next_pk (bd_documents s)" and t: "t = s\<lparr>bd_documents := row_ins c (bd_documents s)\<rparr>"
      and kind: "bi_kind c = Kind_Credit_Note" and ext: "extends_doc cn t s3"
    have s3: "statuses_fit s3" using statuses_fit_new [OF assms cn t ext] kind by simp
    assume "\<exists>c'. bi_kind c' = Kind_Credit_Note \<and> bi_status c' = Bill_Issued \<and> bi_parent_document c' = Some doc
           \<and> bi_issued_snapshot c' = Some sp
           \<and> s1 = s3\<lparr>bd_documents := row_upd doc (\<lambda>b. b\<lparr>bi_status := Bill_Cancelled_Or_Corrected, bi_updated_at := e_now (be_env be)\<rparr>)
               (row_upd cn (\<lambda>_. c') (bd_documents s3))\<rparr>"
    then obtain c' where c': "bi_kind c' = Kind_Credit_Note"
      and s1: "s1 = s3\<lparr>bd_documents := row_upd doc (\<lambda>b. b\<lparr>bi_status := Bill_Cancelled_Or_Corrected, bi_updated_at := e_now (be_env be)\<rparr>)
               (row_upd cn (\<lambda>_. c') (bd_documents s3))\<rparr>" by auto
    define s4 where "s4 = s3\<lparr>bd_documents := row_upd cn (\<lambda>_. c') (bd_documents s3)\<rparr>"
    have "statuses_fit s4" unfolding s4_def using s3 by (rule statuses_fit_upd) (simp add: status_fits_def c')
    moreover have "s1 = s4\<lparr>bd_documents := row_upd doc (\<lambda>b. b\<lparr>bi_status := Bill_Cancelled_Or_Corrected, bi_updated_at := e_now (be_env be)\<rparr>)
        (bd_documents s4)\<rparr>" by (simp add: s1 s4_def)
    ultimately show "statuses_fit s1" by (simp add: statuses_fit_upd status_fits_def)
  qed
  have ok1: "bills_ok s1" using create_credit_note_keeps [OF cred assms(1)] .
  show ?thesis
  proof (cases "create_replacement_invoice_from_invoice (be_env be) doc s1")
    case (Inl x)
    then show ?thesis using fit1 by (simp add: correction_chain_action_def cred)
  next
    case (Inr r')
    obtain k s2 where r': "r' = (k, s2)" by (cases r')
    have "statuses_fit s2"
      by (rule create_replacement_Inr [OF Inr [unfolded r'] ok1]) (use statuses_fit_new [OF ok1 fit1] in simp)
    then show ?thesis using fit1 by (simp add: correction_chain_action_def cred Inr r')
  qed
qed

lemma statuses_fit_draft:
  assumes "create_billing_draft be profile kind ids ms cur rate d s = Inr (doc, s')" and "bills_ok s" and "statuses_fit s"
  shows "statuses_fit s'"
  by (rule create_billing_draft_extends [OF assms(1,2)]) (use statuses_fit_new [OF assms(2,3)] in simp)

section \<open>Steps of the books\<close>

text \<open>A step in which a document is issued only as a draft; the editor does not ask for it.\<close>

definition reissues :: "billing_action \<Rightarrow> bill_db \<Rightarrow> bool" where
  "reissues a s = (case a of
     Issue_Document doc number \<Rightarrow> (case row_get (bd_documents s) doc of None \<Rightarrow> False | Some b \<Rightarrow> bi_status b \<noteq> Bill_Draft)
   | _ \<Rightarrow> False)"

inductive billing_step :: "bill_db \<Rightarrow> bill_db \<Rightarrow> bool" where
  act: "\<not> reissues a s \<Longrightarrow> billing_step s (snd (run_billing (be, d, a) s))"

inductive_cases billing_stepE: "billing_step s s'"

lemma billing_step_keeps:
  assumes "billing_step s s'" and "bills_ok s \<and> statuses_fit s"
  shows "bills_ok s' \<and> statuses_fit s'"
  using assms(1)
proof (rule billing_stepE)
  fix a be d
  assume s': "s' = snd (run_billing (be, d, a) s)" and once: "\<not> reissues a s"
  note ok = conjunct1 [OF assms(2)] and fit = conjunct2 [OF assms(2)]
  have "statuses_fit s'"
  proof (cases a)
    case (Build_Draft fetched q)
    have "statuses_fit t" if "build_draft_action be fetched q d s = Inr t" for t
      using fit statuses_fit_draft [OF _ ok fit] build_draft_action_Inr [OF that] by metis
    then show ?thesis unfolding s' Build_Draft run_billing.simps by (rule settled_books_keeps [of statuses_fit, OF fit])
  next
    case (Issue_Document doc number)
    have "statuses_fit t" if "issue_document_action be doc number d s = Inr t" for t
    proof (cases "t = s")
      case False
      then have "issue_billing_document be doc number d s = Inr t"
        using that by (auto simp: issue_document_action_def split: sum.splits err.splits)
      then show ?thesis by (rule statuses_fit_issue [OF _ fit]) (use once in \<open>auto simp: reissues_def Issue_Document\<close>)
    qed (use fit in simp)
    then show ?thesis unfolding s' Issue_Document run_billing.simps by (rule settled_books_keeps [of statuses_fit, OF fit])
  next
    case (Add_Payment doc amount q)
    have "statuses_fit t" if "add_payment_action (be_env be) doc amount q s = Inr t" for t
      using that fit statuses_fit_payment [OF _ fit] by (auto simp: add_payment_action_def wms_ok split: amount_field.splits)
    then show ?thesis unfolding s' Add_Payment run_billing.simps by (rule settled_books_keeps [of statuses_fit, OF fit])
  next
    case (Correction_Chain doc number replace)
    show ?thesis unfolding s' Correction_Chain run_billing.simps by (rule statuses_fit_correction_chain [OF ok fit])
  next
    case (Request_Correction profile doc description)
    have "statuses_fit t" if "request_correction_action (be_env be) profile doc description s = Inr t" for t
    proof (cases "t = s")
      case False
      then have t: "t = save_issue (be_env be) None \<lparr>is_document = doc, is_status = Iss_Open\<rparr> s"
        using that by (auto simp: request_correction_action_def wms_ok split: if_splits)
      have "statuses_fit (s\<lparr>bd_issues := x\<rparr>)" for x
        using fit unfolding statuses_fit_def status_fits_def paid_amount_def lines_total_amount_def lines_of_def by simp
      then show ?thesis unfolding t save_issue_def Let_def option.case
        by (intro statuses_fit_upd) (auto simp: status_fits_def)
    qed (use fit in simp)
    then show ?thesis unfolding s' Request_Correction run_billing.simps by (rule settled_books_keeps [of statuses_fit, OF fit])
  qed
  then show ?thesis using s' run_billing_keeps [OF ok] by simp
qed

section \<open>What an issued document says\<close>

type_synonym bill_content =
  "document_kind \<times> nat \<times> string option \<times> string option \<times> string option \<times> string \<times> rat option \<times> snapshot option"

definition bill_content :: "bill \<Rightarrow> bill_content" where
  "bill_content b = (bi_kind b, bi_association b, bi_quote_number b, bi_invoice_number b, bi_credit_note_number b,
     bi_currency b, bi_exchange_rate b, bi_issued_snapshot b)"

definition keeps_content :: "nat \<Rightarrow> bill_db \<Rightarrow> bill_db \<Rightarrow> bool" where
  "keeps_content k s s' \<longleftrightarrow> (\<forall>b. row_get (bd_documents s) k = Some b \<longrightarrow>
     (\<exists>b'. row_get (bd_documents s') k = Some b' \<and> bill_content b' = bill_content b))"

lemma keeps_content_refl: "keeps_content k s s"
  by (simp add: keeps_content_def)

lemma keeps_content_trans: "keeps_content k s t \<Longrightarrow> keeps_content k t u \<Longrightarrow> keeps_content k s u"
  unfolding keeps_content_def by metis

lemma keeps_content_same: "bd_documents s' = bd_documents s \<Longrightarrow> keeps_content k s s'"
  by (simp add: keeps_content_def)

lemma keeps_content_ins:
  assumes "bd_documents s' = row_ins c (bd_documents s)"
  shows "keeps_content k s s'"
proof -
  have "k \<noteq> next_pk (bd_documents s)" if "row_get (bd_documents s) k = Some b" for b
    using that row_get_fresh [of "bd_documents s"] by auto
  then show ?thesis by (auto simp: keeps_content_def assms row_get_ins)
qed

lemma keeps_content_upd:
  "(\<And>b. j = k \<Longrightarrow> bill_content (f b) = bill_content b) \<Longrightarrow> bd_documents s' = row_upd j f (bd_documents s) \<Longrightarrow> keeps_content k s s'"
  by (auto simp: keeps_content_def row_get_upd)

text \<open>An action that does not issue a document leaves what the document says.\<close>

lemma recompute_content:
  assumes "recompute_invoice_status e doc s = Inr s'"
  shows "keeps_content k s s'"
proof (cases "s' = s")
  case False
  with assms obtain st where
    s': "s' = s\<lparr>bd_documents := row_upd doc (\<lambda>b. b\<lparr>bi_status := st, bi_updated_at := e_now e\<rparr>) (bd_documents s)\<rparr>"
    by (auto simp: recompute_invoice_status_def wms_ok Let_def split: if_splits)
  show ?thesis unfolding s'
    by (rule keeps_content_upd [of doc k "\<lambda>b. b\<lparr>bi_status := st, bi_updated_at := e_now e\<rparr>"]) (simp_all add: bill_content_def)
qed (simp add: keeps_content_refl)

lemma payment_content:
  assumes "record_billing_payment e doc q s = Inr s'"
  shows "keeps_content k s s'"
proof -
  from assms obtain p where "recompute_invoice_status e doc (s\<lparr>bd_payments := row_ins p (bd_payments s)\<rparr>) = Inr s'"
    unfolding record_billing_payment_def wms_ok by fastforce
  from recompute_content [OF this, of k] show ?thesis by (simp add: keeps_content_def)
qed

lemma correction_chain_content:
  assumes "bills_ok s"
  shows "keeps_content k s (snd (correction_chain_action be doc number replace d s))"
proof (cases "create_credit_note_for_invoice be doc number d s")
  case (Inl x)
  then show ?thesis by (simp add: correction_chain_action_def keeps_content_refl)
next
  case (Inr r)
  obtain cn s1 where r: "r = (cn, s1)" by (cases r)
  note cred = Inr [unfolded r]
  have first: "keeps_content k s s1"
  proof (rule create_credit_note_Inr [OF cred assms])
    fix b c t s3 sp a
    assume cn: "cn = next_pk (bd_documents s)" and t: "t = s\<lparr>bd_documents := row_ins c (bd_documents s)\<rparr>"
      and ext: "extends_doc cn t s3"
    assume "\<exists>c'. bi_kind c' = Kind_Credit_Note \<and> bi_status c' = Bill_Issued \<and> bi_parent_document c' = Some doc
           \<and> bi_issued_snapshot c' = Some sp
           \<and> s1 = s3\<lparr>bd_documents := row_upd doc (\<lambda>b. b\<lparr>bi_status := Bill_Cancelled_Or_Corrected, bi_updated_at := e_now (be_env be)\<rparr>)
               (row_upd cn (\<lambda>_. c') (bd_documents s3))\<rparr>"
    then obtain c' where s1: "s1 = s3\<lparr>bd_documents := row_upd doc (\<lambda>b. b\<lparr>bi_status := Bill_Cancelled_Or_Corrected, bi_updated_at := e_now (be_env be)\<rparr>)
               (row_upd cn (\<lambda>_. c') (bd_documents s3))\<rparr>" by auto
    have docs: "bd_documents s3 = row_ins c (bd_documents s)" using ext by (simp add: extends_doc_def t)
    have "k \<noteq> cn" if "row_get (bd_documents s) k = Some b" for b
      using that row_get_fresh [of "bd_documents s"] cn by auto
    then show "keeps_content k s s1"
      by (auto simp: keeps_content_def s1 docs row_get_upd row_get_ins cn bill_content_def)
  qed
  have ok1: "bills_ok s1" using create_credit_note_keeps [OF cred assms] .
  show ?thesis
  proof (cases "create_replacement_invoice_from_invoice (be_env be) doc s1")
    case (Inl x)
    then show ?thesis using first by (simp add: correction_chain_action_def cred)
  next
    case (Inr r')
    obtain j s2 where r': "r' = (j, s2)" by (cases r')
    have "keeps_content k s1 s2"
      by (rule create_replacement_Inr [OF Inr [unfolded r'] ok1]) (rule keeps_content_ins, auto simp: extends_doc_def)
    then show ?thesis using first keeps_content_trans by (auto simp: correction_chain_action_def cred Inr r')
  qed
qed

lemma run_billing_content:
  assumes ok: "bills_ok s" and other: "\<And>number. a \<noteq> Issue_Document k number"
  shows "keeps_content k s (snd (run_billing (be, d, a) s))"
proof (cases a)
  case (Build_Draft fetched q)
  have "keeps_content k s t" if act: "build_draft_action be fetched q d s = Inr t" for t
  proof (cases "t = s")
    case False
    obtain doc ids ms cur rate where run: "create_billing_draft be (dr_profile q) (dr_kind q) ids ms cur rate d s = Inr (doc, t)"
      by (rule build_draft_action_Inr [OF act False])
    show ?thesis by (rule create_billing_draft_extends [OF run ok]) (rule keeps_content_ins, auto simp: extends_doc_def)
  qed (simp add: keeps_content_refl)
  then show ?thesis unfolding Build_Draft run_billing.simps
    by (rule settled_books_keeps [of "keeps_content k s", OF keeps_content_refl])
next
  case (Issue_Document doc number)
  have "keeps_content k s t" if "issue_document_action be doc number d s = Inr t" for t
  proof (cases "t = s")
    case False
    then have "issue_billing_document be doc number d s = Inr t"
      using that by (auto simp: issue_document_action_def split: sum.splits err.splits)
    then obtain b where "bd_documents t = row_upd doc (\<lambda>_. b) (bd_documents s)"
      by (auto simp: issue_billing_document_def save_bill_def wms_ok)
    then show ?thesis using other Issue_Document by (intro keeps_content_upd [of doc]) auto
  qed (simp add: keeps_content_refl)
  then show ?thesis unfolding Issue_Document run_billing.simps
    by (rule settled_books_keeps [of "keeps_content k s", OF keeps_content_refl])
next
  case (Add_Payment doc amount q)
  have "keeps_content k s t" if "add_payment_action (be_env be) doc amount q s = Inr t" for t
    using that payment_content keeps_content_refl by (auto simp: add_payment_action_def wms_ok split: amount_field.splits)
  then show ?thesis unfolding Add_Payment run_billing.simps
    by (rule settled_books_keeps [of "keeps_content k s", OF keeps_content_refl])
next
  case (Correction_Chain doc number replace)
  show ?thesis unfolding Correction_Chain run_billing.simps by (rule correction_chain_content [OF ok])
next
  case (Request_Correction profile doc description)
  have "keeps_content k s t" if "request_correction_action (be_env be) profile doc description s = Inr t" for t
  proof (cases "t = s")
    case False
    then have "t = save_issue (be_env be) None \<lparr>is_document = doc, is_status = Iss_Open\<rparr> s"
      using that by (auto simp: request_correction_action_def wms_ok split: if_splits)
    then show ?thesis
      by (intro keeps_content_upd [of doc k "\<lambda>b. b\<lparr>bi_correction_state := Corr_In_Review, bi_updated_at := e_now (be_env be)\<rparr>"])
        (simp_all add: save_issue_def bill_content_def)
  qed (simp add: keeps_content_refl)
  then show ?thesis unfolding Request_Correction run_billing.simps
    by (rule settled_books_keeps [of "keeps_content k s", OF keeps_content_refl])
qed

lemma runs_keep_content:
  assumes "bills_ok s" and "list_all (\<lambda>(be, d, a). \<forall>number. a \<noteq> Issue_Document k number) requests"
  shows "keeps_content k s (fold (\<lambda>a s. snd (run_billing a s)) requests s)"
  using assms
proof (induction requests arbitrary: s)
  case Nil
  then show ?case by (simp add: keeps_content_refl)
next
  case (Cons x xs)
  obtain be d a where x: "x = (be, d, a)" by (cases x)
  have "keeps_content k s (snd (run_billing x s))"
    unfolding x by (rule run_billing_content [OF Cons.prems(1)]) (use Cons.prems(2) x in auto)
  moreover have "bills_ok (snd (run_billing x s))" unfolding x by (rule run_billing_keeps [OF Cons.prems(1)])
  then have "keeps_content k (snd (run_billing x s)) (fold (\<lambda>a s. snd (run_billing a s)) xs (snd (run_billing x s)))"
    using Cons.IH Cons.prems(2) by simp
  ultimately show ?case using keeps_content_trans by auto
qed

text \<open>What issuing writes.\<close>

lemma issue_billing_document_Inr:
  assumes "issue_billing_document be doc number d s = Inr s'"
  obtains b a b' n where "row_get (bd_documents s) doc = Some b" and "row_get (bd_associations s) (bi_association b) = Some a"
    and "row_get (bd_documents s') doc = Some b'" and "bi_association b' = bi_association b" and "bi_kind b' = bi_kind b"
    and "bi_status b' = Bill_Issued" and "bi_currency b' = bi_currency b" and "bi_currency b \<noteq> []"
    and "bi_issued_snapshot b' = Some \<lparr>sp_kind = bi_kind b, sp_number = n, sp_billing_name = resolved_billing_name a,
      sp_billing_address = resolved_billing_address a, sp_currency = bi_currency b, sp_exchange_rate = bi_exchange_rate b,
      sp_total_amount = lines_total_amount doc s, sp_lines = map snapshot_line_of (lines_of doc s),
      sp_shipments = shipment_rows be doc d s\<rparr>"
    and "bi_exchange_rate b' = bi_exchange_rate b" and "n \<noteq> []"
proof -
  from assms obtain b b1 sp where b: "row_get (bd_documents s) doc = Some b"
    and b1: "(if bi_kind b = Kind_Invoice then
          (let resolved = strip (case number of Some n \<Rightarrow> n
               | None \<Rightarrow> (case bi_invoice_number b of Some n \<Rightarrow> n | None \<Rightarrow> []))
           in if resolved = [] then Inl (Value_Error ''Invoice number is required before issue.'')
              else Inr (b\<lparr>bi_invoice_number := Some resolved\<rparr>))
        else Inr b) = Inr b1"
    and sp: "build_issued_document_snapshot be doc b1 d s = Inr sp"
    and save: "save_bill (be_env be) doc (b1\<lparr>bi_issued_snapshot := Some sp, bi_status := Bill_Issued,
             bi_issued_at := (case bi_issued_at b1 of None \<Rightarrow> Some (e_now (be_env be)) | Some t \<Rightarrow> Some t)\<rparr>) s = Inr s'"
    by (auto simp: issue_billing_document_def wms_ok)
  have same: "bi_kind b1 = bi_kind b" "bi_association b1 = bi_association b" "bi_currency b1 = bi_currency b"
    "bi_exchange_rate b1 = bi_exchange_rate b" using b1 by (auto simp: Let_def split: if_splits)
  from save obtain b' where b': "prepare_bill (be_env be) (Some doc) (b1\<lparr>bi_issued_snapshot := Some sp, bi_status := Bill_Issued,
             bi_issued_at := (case bi_issued_at b1 of None \<Rightarrow> Some (e_now (be_env be)) | Some t \<Rightarrow> Some t)\<rparr>) (bd_documents s) = Inr b'"
    and s': "s' = s\<lparr>bd_documents := row_upd doc (\<lambda>_. b') (bd_documents s)\<rparr>" by (auto simp: save_bill_def wms_ok)
  from sp obtain a where a: "row_get (bd_associations s) (bi_association b) = Some a"
    and snap: "sp = \<lparr>sp_kind = bi_kind b, sp_number = resolved_document_number doc b1, sp_billing_name = resolved_billing_name a,
      sp_billing_address = resolved_billing_address a, sp_currency = bi_currency b, sp_exchange_rate = bi_exchange_rate b,
      sp_total_amount = lines_total_amount doc s, sp_lines = map snapshot_line_of (lines_of doc s),
      sp_shipments = shipment_rows be doc d s\<rparr>"
    by (auto simp: build_issued_document_snapshot_def wms_ok same)
  have "bill_typed b'" using prepare_bill_Inr(11) [OF b'] by simp
  then have cur: "bi_currency b \<noteq> []" using prepare_bill_Inr(7) [OF b'] by (simp add: bill_typed_def same)
  have "bi_exchange_rate b' = bi_exchange_rate b"
    using b' by (auto simp: prepare_bill_def Let_def wms_ok normalize_optional_numbers_def same split: if_splits)
  moreover have "resolved_document_number doc b1 \<noteq> []"
    by (auto simp: resolved_document_number_def first_text_def split: option.split)
  ultimately show thesis
    using that [OF b a _ _ _ _ _ cur] prepare_bill_Inr(1,2,5,6,7) [OF b'] b by (simp add: s' row_get_upd same snap)
qed

section \<open>Quote numbers\<close>

lemma int_of_digits:
  assumes "all_digits s" and "s \<noteq> []"
  shows "int_of_text s = Some (int (parse_nat s))"
proof -
  have digits: "list_all is_digit s \<Longrightarrow> digits_value s (int n) = Some (int (fold (\<lambda>c n. 10 * n + digit_value c) s n))" for s n
  proof (induction s arbitrary: n)
    case (Cons c s)
    then show ?case using Cons.IH [of "10 * n + digit_value c"] by simp
  qed simp
  have "c \<in> set s \<Longrightarrow> \<not> is_space c" for c
    using assms(1) by (auto simp: all_digits_def list_all_iff is_digit_def is_space_def)
  then have "strip s = s" by (rule strip_no_space)
  moreover obtain c t where s: "s = c # t" and c: "is_digit c" using assms by (cases s) (auto simp: all_digits_def)
  ultimately show ?thesis
    using digits [of s 0] assms(1) by (auto simp: int_of_text_def unsigned_value_def all_digits_def parse_nat_def is_digit_def)
qed

text \<open>Texts of digits of one length are ordered as their numbers.\<close>

lemma parse_nat_Cons: "parse_nat (c # s) = digit_value c * 10 ^ length s + parse_nat s"
proof -
  have "fold (\<lambda>c n. 10 * n + digit_value c) s n = n * 10 ^ length s + fold (\<lambda>c n. 10 * n + digit_value c) s 0" for n
  proof (induction s arbitrary: n)
    case (Cons c s)
    show ?case using Cons.IH [of "10 * n + digit_value c"] Cons.IH [of "digit_value c"] by (simp add: algebra_simps)
  qed simp
  from this [of "digit_value c"] show ?thesis by (simp add: parse_nat_def)
qed

lemma parse_nat_less: "all_digits s \<Longrightarrow> parse_nat s < 10 ^ length s"
proof (induction s)
  case (Cons c s)
  have "digit_value c * 10 ^ length s \<le> 9 * 10 ^ length s"
    using Cons.prems by (intro mult_right_mono) (auto simp: all_digits_def is_digit_def digit_value_def)
  moreover have "parse_nat s < 10 ^ length s" using Cons by (simp add: all_digits_def)
  ultimately have "parse_nat (c # s) < 10 * 10 ^ length s" unfolding parse_nat_Cons by linarith
  then show ?case by simp
qed (simp add: parse_nat_def)

lemma digit_value_less: "is_digit c \<Longrightarrow> is_digit e \<Longrightarrow> digit_value c < digit_value e \<longleftrightarrow> c < e"
  by (auto simp: digit_value_def is_digit_def less_char_def)

lemma digits_order: "all_digits s \<Longrightarrow> all_digits t \<Longrightarrow> length s = length t \<Longrightarrow> parse_nat s < parse_nat t \<Longrightarrow> s < t"
proof (induction s arbitrary: t)
  case (Cons c s)
  then obtain e u where t: "t = e # u" by (cases t) auto
  have len: "length s = length u" and digits: "is_digit c" "is_digit e" "all_digits s" "all_digits u"
    using Cons.prems t by (auto simp: all_digits_def)
  have less: "digit_value c * 10 ^ length u + parse_nat s < digit_value e * 10 ^ length u + parse_nat u"
    using Cons.prems(4) by (simp add: t parse_nat_Cons len)
  show ?case
  proof (cases "digit_value e < digit_value c")
    case True
    then have "Suc (digit_value e) * 10 ^ length u \<le> digit_value c * 10 ^ length u" by (intro mult_right_mono) auto
    then show ?thesis using less parse_nat_less [OF digits(4)] by simp
  next
    case False
    show ?thesis
    proof (cases "digit_value c < digit_value e")
      case True
      then show ?thesis using digits by (simp add: t digit_value_less)
    next
      case False
      then have same: "digit_value c = digit_value e" using \<open>\<not> digit_value e < digit_value c\<close> by simp
      then have "c = e" using digits digit_value_less [of c e] digit_value_less [of e c] by (metis less_irrefl linorder_neqE)
      moreover have "s < u" using Cons.IH [OF digits(3,4) len] less same by simp
      ultimately show ?thesis by (simp add: t)
    qed
  qed
qed (simp add: parse_nat_def)

lemma zero_pad_order: "m < n \<Longrightarrow> n < 10000 \<Longrightarrow> zero_pad 4 m < zero_pad 4 n"
  by (rule digits_order) (simp_all add: length_zero_pad)

lemma prefix_order: "(p @ s < p @ t) = (s < (t :: string))"
  by (induction p) auto

lemma foldl_max: "foldl max (x :: 'a :: linorder) xs = Max (set (x # xs))"
proof (induction xs arbitrary: x)
  case (Cons y ys)
  have "foldl max (max x y) ys = Max (insert (max x y) (set ys))" using Cons.IH by simp
  also have "\<dots> = max (max x y) (Max (insert y (set ys)))"
    by (cases "ys = []") (auto simp: Max_insert max.assoc max.left_commute)
  also have "\<dots> = Max (set (x # y # ys))" by (simp add: max.assoc Max_insert)
  finally show ?case by simp
qed simp

definition year_prefix_of :: "env \<Rightarrow> string" where
  "year_prefix_of e = ''DEV-'' @ nat_str (d_year (e_today e)) @ ''-''"

definition year_quote_numbers :: "env \<Rightarrow> bill table \<Rightarrow> string set" where
  "year_quote_numbers e t = {n. \<exists>k b. (k, b) \<in> set t \<and> bi_kind b = Kind_Quote \<and> bi_quote_number b = Some n
     \<and> startswith n (year_prefix_of e)}"

lemma last_quote_number_max:
  "last_quote_number (year_prefix_of e) None t =
     (if year_quote_numbers e t = {} then None else Some (Max (year_quote_numbers e t)))"
proof -
  define ns where "ns = concat (map (\<lambda>(k, b). case bi_quote_number b of None \<Rightarrow> [] | Some n \<Rightarrow> [n])
        (rows_where (\<lambda>k b. bi_kind b = Kind_Quote
           \<and> (case bi_quote_number b of None \<Rightarrow> False | Some n \<Rightarrow> startswith n (year_prefix_of e)) \<and> None \<noteq> Some k) t))"
  have set: "set ns = year_quote_numbers e t"
    by (force simp: ns_def year_quote_numbers_def rows_where_def split: option.splits)
  show ?thesis
  proof (cases ns)
    case Nil
    then show ?thesis using set unfolding last_quote_number_def Let_def ns_def [symmetric] by simp
  next
    case (Cons x xs)
    then show ?thesis using set foldl_max [of x xs] unfolding last_quote_number_def Let_def ns_def [symmetric] by auto
  qed
qed

lemma next_quote_number:
  assumes "year_quote_numbers e t \<noteq> {} \<Longrightarrow> Max (year_quote_numbers e t) = year_prefix_of e @ zero_pad 4 m"
    and "year_quote_numbers e t = {} \<Longrightarrow> m = 0"
  shows "build_quote_number e None t = Inr (year_prefix_of e @ zero_pad 4 (Suc m))"
proof -
  have prefix: "''DEV-'' @ nat_str (d_year (e_today e)) @ ''-'' = year_prefix_of e" by (simp add: year_prefix_of_def)
  show ?thesis
  proof (cases "year_quote_numbers e t = {}")
    case True
    then show ?thesis using assms(2)
      unfolding build_quote_number_def Let_def prefix last_quote_number_max by simp
  next
    case False
    have "int_of_text (zero_pad 4 m) = Some (int m)" by (simp add: int_of_digits)
    moreover have "nat (1 + int m) = Suc m" by simp
    ultimately show ?thesis using assms(1) [OF False] False
      unfolding build_quote_number_def Let_def prefix last_quote_number_max by (simp add: require_def add.commute)
  qed
qed

lemma Max_year_numbers:
  assumes "year_quote_numbers e t = (\<lambda>i. year_prefix_of e @ zero_pad 4 i) ` I" and "m \<in> I" and "m < 10000"
    and "\<forall>i \<in> I. i \<le> m \<or> i = 10000 \<and> m = 9999"
  shows "Max (year_quote_numbers e t) = year_prefix_of e @ zero_pad 4 m"
proof -
  have "finite I"
  proof (rule finite_subset)
    show "I \<subseteq> {..10000}" using assms(3,4) by auto
  qed simp
  moreover have "zero_pad 4 i \<le> zero_pad 4 m" if "i \<in> I" for i
  proof -
    have "i \<le> m \<or> i = 10000 \<and> m = 9999" using assms(4) that by blast
    then consider "i < m" | "i = m" | "i = 10000" "m = 9999" by linarith
    then show ?thesis
    proof cases
      case 1
      then show ?thesis using zero_pad_order assms(3) by (simp add: less_imp_le)
    next
      case 3
      have "zero_pad 4 10000 \<le> zero_pad 4 9999" by code_simp
      then show ?thesis by (simp add: 3)
    qed simp
  qed
  moreover have "(year_prefix_of e @ s \<le> year_prefix_of e @ u) = (s \<le> u)" for s u
    using prefix_order [of "year_prefix_of e" u s] by (simp add: not_less [symmetric])
  ultimately show ?thesis unfolding assms(1) using assms(2) by (intro Max_eqI) auto
qed

end
