(* ===== verification/Billing_Properties.thy ===== *)
theory Billing_Properties
  imports Billing_Documents Samples
begin

text \<open>
  The properties of billing, on sample books with one association.
\<close>

section \<open>Sample books\<close>

text \<open>
  Two shipments of one association have left, the second with ten received units of three receipts;
  the profile of the association asks 12.50 for each started block of four cartons and 0.50 for each
  carton that was not received.
\<close>

definition sample_association :: association where
  "sample_association = \<lparr>as_contact = 10, as_contact_name = ''Aide'', as_default_computation_profile = Some 1,
     as_default_currency = ''eur'', as_billing_name_override = [], as_billing_address_override = ''1 rue A'',
     as_address = None\<rparr>"

definition sample_profile :: computation_profile where
  "sample_profile = \<lparr>cp_code = ''STD'', cp_label = ''Standard'', cp_is_active = True,
     cp_base_unit_source = Src_Shipped_Units, cp_base_step_size = 4, cp_base_step_price = 25 / 2,
     cp_extra_unit_mode = Extra_Shipped_Minus_Allocated, cp_extra_unit_price = 1 / 2, cp_allow_manual_override = True,
     cp_is_default_for_shipment_only = True, cp_is_default_for_receipt_linked = False\<rparr>"

definition billing_db :: db where
  "billing_db = sample_db\<lparr>db_shipments :=
       [(1, (sample_shipment ''260001'' Ship_Shipped)\<lparr>s_shipper_contact_ref := Some 10, s_ready_at := Some 5\<rparr>),
        (2, (sample_shipment ''260002'' Ship_Shipped)\<lparr>s_shipper_contact_ref := Some 10, s_ready_at := Some 6\<rparr>)],
     db_cartons := map (\<lambda>k. (k, sample_carton (nat_str k) Ct_Shipped (Some (if k \<le> 5 then 1 else 2)))) [1..<9]\<rparr>"

definition sample_books :: bill_db where
  "sample_books = \<lparr>bd_computation_profiles = [(1, sample_profile)], bd_associations = [(1, sample_association)],
     bd_allocations = [(1, \<lparr>al_receipt = 4, al_shipment = 2, al_units = 1\<rparr>)], bd_documents = [], bd_shipment_links = [],
     bd_receipt_links = [], bd_lines = [], bd_payments = [], bd_issues = []\<rparr>"

definition sample_billing :: bill_env where
  "sample_billing = \<lparr>be_env = sample_env, be_utc_date = (\<lambda>_. Date 2026 3 1)\<rparr>"

definition sample_manual :: manual_line where
  "sample_manual = \<lparr>ml_label = ''Palette'', ml_description = [], ml_amount = Some (10005 / 1000)\<rparr>"

lemma sample_books_ok: "bills_ok sample_books" "statuses_fit sample_books"
  by (simp_all add: bills_ok_def documents_ok_def bill_rows_ok_def sample_books_def keys_ok_def statuses_fit_def row_get_def)

section \<open>Properties\<close>

text \<open>
  C32: A draft bills what it says. When \<open>create_billing_draft\<close> succeeds it has added one draft of the
  asked kind for the association; its lines come to the amounts of the selected shipments of the
  association, each computed by its profile and rounded to the cent, plus the rounded amounts of the
  manual lines that have a label. The totals, the payments and the other documents of the books are as
  before.
\<close>

theorem billing_draft_totals:
  assumes "bills_ok s" and "create_billing_draft be profile kind ids manual currency rate d s = Inr (doc, s')"
  shows "\<exists>a b. row_get (bd_associations s) profile = Some a
    \<and> bd_documents s' = row_ins b (bd_documents s) \<and> doc = next_pk (bd_documents s)
    \<and> bi_kind b = kind \<and> bi_status b = Bill_Draft \<and> bi_association b = profile
    \<and> lines_total_amount doc s'
        = sum_list (map (shipment_line_amount (map_option snd (resolve_document_computation_profile a s)) d s) (billed_shipments a ids d))
          + sum_list (map manual_amount manual)
    \<and> (\<forall>k. k \<noteq> doc \<longrightarrow> lines_total_amount k s' = lines_total_amount k s) \<and> bd_payments s' = bd_payments s"
  using create_billing_draft_extends [OF assms(2,1)]
proof cases
  case (1 a b s1)
  have "bd_documents s' = row_ins b (bd_documents s)" "bd_payments s' = bd_payments s"
    using 1(3,7) by (simp_all add: extends_doc_def)
  moreover have "lines_total_amount k s' = lines_total_amount k s" if "k \<noteq> doc" for k
    using extends_doc_total [OF 1(7) that] by (simp add: lines_total_eq 1(3))
  ultimately show ?thesis
    using 1 by (intro exI [of _ a] exI [of _ b]) (simp add: lines_total_eq)
qed

lemma billing_draft_totals_witness:
  "\<exists>s'. create_billing_draft sample_billing 1 Kind_Invoice [2] [sample_manual] [] (Some 1) billing_db sample_books = Inr (1, s')
     \<and> lines_total_amount 1 s' = 47 / 2"
proof -
  have "is_ok (create_billing_draft sample_billing 1 Kind_Invoice [2] [sample_manual] [] (Some 1) billing_db sample_books)"
    by code_simp
  then obtain doc s' where run: "create_billing_draft sample_billing 1 Kind_Invoice [2] [sample_manual] [] (Some 1) billing_db sample_books = Inr (doc, s')"
    by (auto simp: is_ok_def split: sum.splits)
  have "doc = 1" and "lines_total_amount doc s' = sum_list (map (shipment_line_amount (map_option snd
      (resolve_document_computation_profile sample_association sample_books)) billing_db sample_books) (billed_shipments sample_association [2] billing_db))
      + sum_list (map manual_amount [sample_manual])"
    using billing_draft_totals [OF sample_books_ok(1) run] by (auto simp: sample_books_def row_get_def next_pk_def)
  moreover have "sum_list (map (shipment_line_amount (map_option snd
      (resolve_document_computation_profile sample_association sample_books)) billing_db sample_books) (billed_shipments sample_association [2] billing_db))
      + sum_list (map manual_amount [sample_manual]) = 47 / 2" by code_simp
  ultimately show ?thesis using run by auto
qed

text \<open>
  C33: The books stay well typed. Whatever the editor and the portal are asked to do, one request after
  the other and also when requests fail half way, the books stay in order (\<open>bills_ok\<close>): every amount
  stored has two decimals and at most ten digits; a number that a document has is stripped, not blank,
  at most twenty characters long and given to no other document; every quote has its number and every
  issued invoice too (a credit note may be issued without one); the lines of a document are numbered
  apart; and every line, link, payment and issue belongs to a document of the books.
\<close>

theorem billing_books_stay_typed: "bills_ok s \<Longrightarrow> bills_ok (fold (\<lambda>a t. snd (run_billing a t)) requests s)"
proof -
  have "books.attempt = (\<lambda>a t. snd (run_billing a t))" by (simp add: books.attempt_def fun_eq_iff)
  then show "bills_ok s \<Longrightarrow> bills_ok (fold (\<lambda>a t. snd (run_billing a t)) requests s)"
    using books.attempts_keep [of s requests] by simp
qed

definition sample_draft_request :: draft_request where
  "sample_draft_request = \<lparr>dr_profile = 1, dr_kind = Kind_Quote, dr_period = None, dr_shipment_ids = [2, 9],
     dr_manual_label = [], dr_manual_description = [], dr_manual_amount = Blank, dr_currency = [], dr_exchange_rate = Blank\<rparr>"

lemma billing_books_stay_typed_witness:
  "bills_ok (fold (\<lambda>a t. snd (run_billing a t))
     [(sample_billing, billing_db, Build_Draft None sample_draft_request), (sample_billing, billing_db, Issue_Document 1 None)] sample_books)"
  by (rule billing_books_stay_typed [OF sample_books_ok(1)])

text \<open>
  C34: The status of an invoice tells what was paid. In every state the books reach when a document is
  issued only as a draft, an invoice that is paid has payments of at least its total, a partly paid one
  payments below its total, an issued one none (or no total), and a draft has no payment at all;
  corrected invoices are free. Failed requests, corrections and payments on other documents do not
  disturb it.
\<close>

theorem invoice_status_follows_payments:
  assumes "billing_step\<^sup>*\<^sup>* s s'" and "bills_ok s" and "statuses_fit s"
    and "row_get (bd_documents s') k = Some b" and "bi_kind b = Kind_Invoice"
  shows "(bi_status b = Bill_Paid \<longrightarrow> 0 < lines_total_amount k s' \<and> lines_total_amount k s' \<le> paid_amount k s')
    \<and> (bi_status b = Bill_Partially_Paid \<longrightarrow> 0 < paid_amount k s' \<and> paid_amount k s' < lines_total_amount k s')
    \<and> (bi_status b = Bill_Issued \<longrightarrow> paid_amount k s' \<le> 0 \<or> lines_total_amount k s' \<le> 0)
    \<and> (bi_status b = Bill_Draft \<longrightarrow> paid_amount k s' = 0)"
proof -
  have "bills_ok s' \<and> statuses_fit s'"
    using assms(1) by (induction rule: rtranclp_induct) (use assms(2,3) billing_step_keeps in auto)
  then have "status_fits k b s'" using assms(4) by (simp add: statuses_fit_def)
  then show ?thesis
    using assms(5) no_payments_total [of "bd_payments s'" k]
    by (auto simp: status_fits_def status_for_payments_def paid_amount_eq split: if_splits)
qed

definition sample_invoice :: bill where
  "sample_invoice = \<lparr>bi_kind = Kind_Invoice, bi_status = Bill_Issued, bi_correction_state = Corr_None, bi_association = 1,
     bi_quote_number = None, bi_invoice_number = Some ''F-1'', bi_credit_note_number = None, bi_computation_profile = Some 1,
     bi_currency = ''EUR'', bi_exchange_rate = Some 1, bi_parent_document = None, bi_issued_snapshot = None,
     bi_issued_at = Some 9, bi_created_at = 8, bi_updated_at = 9\<rparr>"

definition sample_line :: bill_line where
  "sample_line = \<lparr>bl_document = 1, bl_line_number = 1, bl_label = ''Expedition 260002'', bl_description = [], bl_quantity = 1,
     bl_unit_price = 27 / 2, bl_total_amount = 27 / 2, bl_service = None, bl_is_manual = False\<rparr>"

definition invoiced_books :: bill_db where
  "invoiced_books = sample_books\<lparr>bd_documents := [(1, sample_invoice)], bd_shipment_links := [(1, (1, 2))], bd_lines := [(1, sample_line)]\<rparr>"

definition sample_payment :: "rat \<Rightarrow> payment_request" where
  "sample_payment x = \<lparr>pr_amount = Some x, pr_method = ''bank_transfer'', pr_paid_on = None, pr_reference = [], pr_comment = [],
     pr_currency = [], pr_user = None\<rparr>"

lemma invoiced_books_ok: "bills_ok invoiced_books" "statuses_fit invoiced_books"
proof -
  have "stored 1 = 1" "stored (27 / 2) = 27 / 2" by code_simp+
  then have "line_stored sample_line" by (simp add: line_stored_def column_amount_def sample_line_def)
  moreover have "bill_typed sample_invoice" by code_simp
  ultimately show "bills_ok invoiced_books"
    by (simp add: bills_ok_def documents_ok_def bill_rows_ok_def invoiced_books_def sample_books_def keys_ok_def sample_line_def)
  show "statuses_fit invoiced_books"
    by (simp add: statuses_fit_def status_fits_def invoiced_books_def sample_books_def row_get_def paid_amount_def
        rows_where_def status_for_payments_def sample_invoice_def)
qed

lemma invoice_status_witness:
  "\<exists>s' b. record_billing_payment sample_env 1 (sample_payment 20) invoiced_books = Inr s' \<and> row_get (bd_documents s') 1 = Some b
     \<and> bi_status b = Bill_Paid \<and> lines_total_amount 1 s' \<le> paid_amount 1 s'"
proof -
  define s' where "s' = snd (run_billing (sample_billing, billing_db, Add_Payment 1 (Amount 20) (sample_payment 0)) invoiced_books)"
  have "billing_step invoiced_books s'"
    unfolding s'_def by (rule billing_step.act) (simp add: reissues_def)
  moreover have run: "(case record_billing_payment sample_env 1 (sample_payment 20) invoiced_books of Inl _ \<Rightarrow> False
      | Inr t \<Rightarrow> map_option (\<lambda>b. (bi_status b, bi_kind b)) (row_get (bd_documents t) 1) = Some (Bill_Paid, Kind_Invoice))" by code_simp
  moreover have "run_billing (sample_billing, billing_db, Add_Payment 1 (Amount 20) (sample_payment 0)) invoiced_books
      = settled_books invoiced_books (record_billing_payment sample_env 1 (sample_payment 20) invoiced_books)"
    by (simp add: add_payment_action_def sample_billing_def sample_payment_def invoiced_books_def row_get_def)
  ultimately obtain b where s': "record_billing_payment sample_env 1 (sample_payment 20) invoiced_books = Inr s'"
    and b: "row_get (bd_documents s') 1 = Some b" "bi_status b = Bill_Paid" "bi_kind b = Kind_Invoice"
    by (auto simp: s'_def settled_books_def split: sum.splits)
  have "lines_total_amount 1 s' \<le> paid_amount 1 s'"
    using invoice_status_follows_payments [OF r_into_rtranclp [of billing_step, OF \<open>billing_step invoiced_books s'\<close>] invoiced_books_ok b(1,3)] b(2) by simp
  then show ?thesis using s' b by blast
qed

text \<open>
  C35: A credit note undoes its invoice. It is a new issued document of the books whose parent is the
  invoice, its total is exactly the opposite of the invoice's, to the cent, in the books as in its
  snapshot; the invoice is then corrected and keeps its lines, and no other document changes its total.
\<close>

theorem credit_note_mirrors_invoice:
  assumes "bills_ok s" and "create_credit_note_for_invoice be doc number d s = Inr (cn, s')"
  shows "\<exists>b b' c sp. row_get (bd_documents s) doc = Some b \<and> bi_kind b = Kind_Invoice
    \<and> row_get (bd_documents s) cn = None
    \<and> row_get (bd_documents s') cn = Some c \<and> bi_kind c = Kind_Credit_Note \<and> bi_status c = Bill_Issued
    \<and> bi_parent_document c = Some doc \<and> bi_issued_snapshot c = Some sp
    \<and> lines_total_amount cn s' + lines_total_amount doc s' = 0 \<and> sp_total_amount sp = lines_total_amount cn s'
    \<and> row_get (bd_documents s') doc = Some b' \<and> bi_status b' = Bill_Cancelled_Or_Corrected \<and> bill_content b' = bill_content b
    \<and> (\<forall>k. k \<noteq> cn \<longrightarrow> lines_total_amount k s' = lines_total_amount k s)"
  using create_credit_note_Inr [OF assms(2,1)]
proof cases
  case (1 b c s1 s3 sp a)
  from 1(12) obtain c' where c': "bi_kind c' = Kind_Credit_Note" "bi_status c' = Bill_Issued" "bi_parent_document c' = Some doc"
    "bi_issued_snapshot c' = Some sp"
    and s': "s' = s3\<lparr>bd_documents := row_upd doc (\<lambda>b. b\<lparr>bi_status := Bill_Cancelled_Or_Corrected, bi_updated_at := e_now (be_env be)\<rparr>)
               (row_upd cn (\<lambda>_. c') (bd_documents s3))\<rparr>" by auto
  have docs: "bd_documents s3 = row_ins c (bd_documents s)" using 1(4,8) by (simp add: extends_doc_def)
  have "doc \<noteq> cn" using 1(1,3) row_get_fresh [of "bd_documents s"] by auto
  have totals: "lines_total_amount k s' = lines_total_amount k s" if "k \<noteq> cn" for k
    using extends_doc_total [OF 1(8) that] by (simp add: lines_total_eq s' 1(4))
  show ?thesis
    using c' 1(1,2,3,9,11) totals \<open>doc \<noteq> cn\<close> row_get_fresh [of "bd_documents s"]
    by (auto simp: s' docs row_get_upd row_get_ins lines_total_eq bill_content_def)
qed

lemma credit_note_witness:
  "\<exists>s'. create_credit_note_for_invoice sample_billing 1 (Some '' A-1 '') billing_db invoiced_books = Inr (2, s')
     \<and> lines_total_amount 2 s' + lines_total_amount 1 s' = 0 \<and> lines_total_amount 1 s' = 27 / 2"
proof -
  have "(case create_credit_note_for_invoice sample_billing 1 (Some '' A-1 '') billing_db invoiced_books of Inl _ \<Rightarrow> False
      | Inr (k, t) \<Rightarrow> k = 2 \<and> lines_total_amount 1 t = 27 / 2)" by code_simp
  then obtain s' where run: "create_credit_note_for_invoice sample_billing 1 (Some '' A-1 '') billing_db invoiced_books = Inr (2, s')"
    and "lines_total_amount 1 s' = 27 / 2" by (auto split: sum.splits)
  then show ?thesis using credit_note_mirrors_invoice [OF invoiced_books_ok(1) run] by auto
qed

text \<open>
  C36: An issued document keeps saying what it said, where it said something. After any requests that
  do not issue it again and whatever becomes of the shipments, the association and the books, it renders
  the number, currency, rate and total it had when it was issued, its total being that of its lines at
  the time; and also the billing name, the billing address, the lines and the shipments of that time,
  each of them if it was not empty then: an empty one is filled from the association, the lines or the
  shipments as they are when the document is rendered.
\<close>

theorem issued_document_keeps_its_content:
  assumes "bills_ok s" and "issue_billing_document be doc number d s = Inr s1" and "bills_ok s1"
    and "row_get (bd_documents s) doc = Some b" and "row_get (bd_associations s) (bi_association b) = Some a"
    and "list_all (\<lambda>(be, d, act). \<forall>number. act \<noteq> Issue_Document doc number) requests"
    and "s' = fold (\<lambda>act t. snd (run_billing act t)) requests s1"
  shows "\<exists>n. \<exists>b'. row_get (bd_documents s') doc = Some b' \<and>
    (\<forall>be' a' d' s2. build_billing_document_render_payload be' doc b' a' d' s2 =
      \<lparr>py_kind = bi_kind b, py_status = bi_status b', py_number = n,
       py_billing_name = (if resolved_billing_name a = [] then resolved_billing_name a' else resolved_billing_name a),
       py_billing_address = (if resolved_billing_address a = [] then resolved_billing_address a' else resolved_billing_address a),
       py_currency = bi_currency b, py_exchange_rate = bi_exchange_rate b, py_total_amount = lines_total_amount doc s,
       py_lines = map snapshot_line_of (if lines_of doc s = [] then lines_of doc s2 else lines_of doc s),
       py_shipments = (if shipment_rows be doc d s = [] then shipment_rows be' doc d' s2 else shipment_rows be doc d s)\<rparr>)"
  using issue_billing_document_Inr [OF assms(2)]
proof cases
  case (1 b0 a0 b1 n)
  have same: "b0 = b" "a0 = a" using 1(1,2) assms(4,5) by simp_all
  have "keeps_content doc s1 s'" unfolding assms(7) by (rule runs_keep_content [OF assms(3,6)])
  then obtain b' where b': "row_get (bd_documents s') doc = Some b'" "bill_content b' = bill_content b1"
    using 1(3) by (auto simp: keeps_content_def)
  have "bi_issued_snapshot b' = bi_issued_snapshot b1" "bi_kind b' = bi_kind b1"
    "bi_exchange_rate b' = bi_exchange_rate b1" using b'(2) by (simp_all add: bill_content_def)
  then show ?thesis
    using b'(1) 1
    by (intro exI [of _ n] exI [of _ b'] conjI allI)
      (auto simp: build_billing_document_render_payload_def same first_text_def split: option.split)
qed

lemma issued_document_witness:
  "\<exists>s1 s' b'. issue_billing_document sample_billing 1 (Some ''F-1'') billing_db invoiced_books = Inr s1
     \<and> s' = fold (\<lambda>act t. snd (run_billing act t)) [(sample_billing, billing_db, Add_Payment 1 (Amount 20) (sample_payment 0))] s1
     \<and> row_get (bd_documents s') 1 = Some b'
     \<and> py_total_amount (build_billing_document_render_payload sample_billing 1 b' sample_association billing_db sample_books) = 27 / 2"
proof -
  have facts: "case issue_billing_document sample_billing 1 (Some ''F-1'') billing_db invoiced_books of Inl _ \<Rightarrow> False | Inr t \<Rightarrow> True"
    "lines_total_amount 1 invoiced_books = 27 / 2" by code_simp+
  then obtain s1 where s1: "issue_billing_document sample_billing 1 (Some ''F-1'') billing_db invoiced_books = Inr s1"
    by (auto split: sum.splits)
  have rows: "row_get (bd_documents invoiced_books) 1 = Some sample_invoice"
    "row_get (bd_associations invoiced_books) (bi_association sample_invoice) = Some sample_association"
    by (simp_all add: invoiced_books_def sample_books_def sample_invoice_def row_get_def)
  define requests where "requests = [(sample_billing, billing_db, Add_Payment 1 (Amount 20) (sample_payment 0))]"
  have "list_all (\<lambda>(be, d, act). \<forall>number. act \<noteq> Issue_Document 1 number) requests" by (simp add: requests_def)
  from issued_document_keeps_its_content [OF invoiced_books_ok(1) s1 issue_billing_document_keeps [OF s1 invoiced_books_ok(1)]
        rows this refl]
  obtain b' where "row_get (bd_documents (fold (\<lambda>act t. snd (run_billing act t)) requests s1)) 1 = Some b'"
    and "py_total_amount (build_billing_document_render_payload sample_billing 1 b' sample_association billing_db sample_books)
      = lines_total_amount 1 invoiced_books" by fastforce
  then show ?thesis using s1 facts(2) unfolding requests_def by metis
qed

text \<open>
  C37: Quote numbers count up, and run out. While the quotes of the year have numbers up to 9999, the
  next one gets the number after the greatest. Once number 10000 is given, no quote can be created any
  more that year: the greatest number is searched in the order of texts, where 9999 comes after 10000,
  so that 10000 is computed again and refused as taken.
\<close>

theorem quote_numbers_run_out:
  assumes "year_quote_numbers e (bd_documents s) = (\<lambda>i. year_prefix_of e @ zero_pad 4 i) ` I"
    and "m \<in> I" and "\<forall>i \<in> I. i \<le> m \<or> i = 10000 \<and> m = 9999" and "m < 10000"
  shows "build_quote_number e None (bd_documents s) = Inr (year_prefix_of e @ zero_pad 4 (Suc m))
    \<and> (10000 \<in> I \<and> bi_kind b = Kind_Quote \<and> bi_quote_number b = None
        \<longrightarrow> create_bill e b s = Inl (Validation_Error ''BillingDocument''))"
proof (intro conjI impI)
  have greatest: "Max (year_quote_numbers e (bd_documents s)) = year_prefix_of e @ zero_pad 4 m"
    by (rule Max_year_numbers [OF assms(1,2,4,3)])
  show number: "build_quote_number e None (bd_documents s) = Inr (year_prefix_of e @ zero_pad 4 (Suc m))"
    by (rule next_quote_number [OF greatest]) (use assms(1,2) in auto)
  assume full: "10000 \<in> I \<and> bi_kind b = Kind_Quote \<and> bi_quote_number b = None"
  then have "10000 \<in> I" and b: "bi_kind b = Kind_Quote" "bi_quote_number b = None" by simp_all
  then have m: "m = 9999" using assms(3,4) by fastforce
  have "year_prefix_of e @ zero_pad 4 10000 \<in> year_quote_numbers e (bd_documents s)"
    using \<open>10000 \<in> I\<close> assms(1) by blast
  then obtain k c where c: "(k, c) \<in> set (bd_documents s)" "bi_quote_number c = Some (year_prefix_of e @ zero_pad 4 10000)"
    by (auto simp: year_quote_numbers_def)
  then have "taken_number bi_quote_number None ((normalize_optional_numbers b)\<lparr>bi_quote_number := Some (year_prefix_of e @ zero_pad 4 10000)\<rparr>)
      (bd_documents s)"
    by (force simp: taken_number_def list_ex_iff)
  then show "create_bill e b s = Inl (Validation_Error ''BillingDocument'')"
    using number b by (simp add: create_bill_def prepare_bill_def Let_def m normalize_optional_numbers_def normalize_number_def
        bill_full_clean_def raise_if_def)
qed

definition sample_quote :: "nat \<Rightarrow> bill" where
  "sample_quote i = sample_invoice\<lparr>bi_kind := Kind_Quote, bi_invoice_number := None,
     bi_quote_number := Some (year_prefix_of sample_env @ zero_pad 4 i)\<rparr>"

lemma quote_numbers_witness:
  "create_bill sample_env ((sample_quote 0)\<lparr>bi_quote_number := None\<rparr>)
     (sample_books\<lparr>bd_documents := [(1, sample_quote 10000), (2, sample_quote 9999)]\<rparr>) = Inl (Validation_Error ''BillingDocument'')"
proof -
  have "startswith (year_prefix_of sample_env @ zero_pad 4 i) (year_prefix_of sample_env)" for i by (simp add: startswith_def)
  moreover have "bi_kind (sample_quote i) = Kind_Quote"
    "bi_quote_number (sample_quote i) = Some (year_prefix_of sample_env @ zero_pad 4 i)" for i
    by (simp_all add: sample_quote_def)
  ultimately have "year_quote_numbers sample_env (bd_documents (sample_books\<lparr>bd_documents := [(1, sample_quote 10000), (2, sample_quote 9999)]\<rparr>))
      = (\<lambda>i. year_prefix_of sample_env @ zero_pad 4 i) ` {10000, 9999}"
    by (simp add: year_quote_numbers_def conj_disj_distribR ex_disj_distrib) auto
  from quote_numbers_run_out [OF this, of 9999 "(sample_quote 0)\<lparr>bi_quote_number := None\<rparr>"]
  show ?thesis by (simp add: sample_quote_def)
qed

text \<open>
  C38: A shipment is offered for billing again once it was paid for. While the only document of a
  shipment is an issued invoice, the editor does not offer the shipment for another invoice. As soon as
  a payment on that invoice is recorded it does: only invoices with the status issued are left out, and
  a payment makes the invoice partly paid or paid.
\<close>

theorem paid_shipment_offered_again:
  assumes "row_get (bd_documents s) doc = Some b" and "bi_kind b = Kind_Invoice" and "bi_status b = Bill_Issued"
    and "map snd (rows_where (\<lambda>i l. snd l = k) (bd_shipment_links s)) = [(doc, k)]"
    and "row_get (bd_associations s) profile = Some a"
    and "row_get (db_shipments d) k = Some sh" and "s_shipper_contact_ref sh = Some (as_contact a)"
    and "s_status sh = Ship_Shipped" and "s_archived_at sh = None"
    and "record_billing_payment e doc q s = Inr s'" and "0 < paid_amount doc s'" and "0 < lines_total_amount doc s'"
  shows "\<exists>rows rows'. build_editor_candidates be profile Kind_Invoice None d s = Inr rows \<and> k \<notin> cr_shipment ` set rows
    \<and> build_editor_candidates be profile Kind_Invoice None d s' = Inr rows' \<and> k \<in> cr_shipment ` set rows'"
proof -
  have links: "linked_bills k t = (case row_get (bd_documents t) doc of None \<Rightarrow> [] | Some x \<Rightarrow> [x])"
    if "bd_shipment_links t = bd_shipment_links s" for t
  proof -
    obtain i where "rows_where (\<lambda>i l. snd l = k) (bd_shipment_links s) = [(i, (doc, k))]" using assms(4) by auto
    then show ?thesis by (simp add: linked_bills_def that)
  qed
  have candidates: "\<exists>rows. build_editor_candidates be profile Kind_Invoice None d t = Inr rows \<and> (k \<in> cr_shipment ` set rows \<longleftrightarrow>
      (\<exists>x. (k, x) \<in> set (db_shipments d) \<and> s_shipper_contact_ref x = Some (as_contact a) \<and> s_status x = Ship_Shipped
         \<and> s_archived_at x = None \<and> \<not> excluded_from_invoices k t))" if "row_get (bd_associations t) profile = Some a" for t
    using that by (force simp: build_editor_candidates_def require_def Let_def rows_where_def period_includes_def)
  have before: "excluded_from_invoices k s"
    using links [of s] assms(1-3) by (simp add: excluded_from_invoices_def)
  from assms(1,2,3,10) obtain p where
    rec: "recompute_invoice_status e doc (s\<lparr>bd_payments := row_ins p (bd_payments s)\<rparr>) = Inr s'"
    unfolding record_billing_payment_def wms_ok by fastforce
  then have keep: "bd_shipment_links s' = bd_shipment_links s" "bd_associations s' = bd_associations s"
    "paid_amount doc s' = paid_amount doc (s\<lparr>bd_payments := row_ins p (bd_payments s)\<rparr>)" "lines_total_amount doc s' = lines_total_amount doc s"
    by (auto simp: recompute_invoice_status_def wms_ok Let_def paid_amount_def lines_total_amount_def lines_of_def split: if_splits)
  have "status_for_payments (paid_amount doc (s\<lparr>bd_payments := row_ins p (bd_payments s)\<rparr>)) (lines_total_amount doc s) \<noteq> Bill_Issued"
    using assms(11,12) keep(3,4) by (simp add: status_for_payments_def)
  then have "\<exists>b'. row_get (bd_documents s') doc = Some b' \<and> bi_status b' \<noteq> Bill_Issued"
    using rec assms(1-3) by (auto simp: recompute_invoice_status_def wms_ok Let_def row_get_upd lines_total_amount_def lines_of_def split: if_splits)
  then have after: "\<not> excluded_from_invoices k s'"
    using links [OF keep(1)] by (auto simp: excluded_from_invoices_def)
  have "(k, sh) \<in> set (db_shipments d)" using assms(6) by (rule row_get_mem)
  then show ?thesis
    using candidates [OF assms(5)] candidates [of s'] before after assms(5,7-9) keep(2) by metis
qed

lemma paid_shipment_witness:
  "\<exists>s' rows rows'. record_billing_payment sample_env 1 (sample_payment 5) invoiced_books = Inr s'
     \<and> build_editor_candidates sample_billing 1 Kind_Invoice None billing_db invoiced_books = Inr rows \<and> 2 \<notin> cr_shipment ` set rows
     \<and> build_editor_candidates sample_billing 1 Kind_Invoice None billing_db s' = Inr rows' \<and> 2 \<in> cr_shipment ` set rows'"
proof -
  have "case record_billing_payment sample_env 1 (sample_payment 5) invoiced_books of Inl _ \<Rightarrow> False
      | Inr t \<Rightarrow> 0 < paid_amount 1 t \<and> 0 < lines_total_amount 1 t" by code_simp
  then obtain s' where s': "record_billing_payment sample_env 1 (sample_payment 5) invoiced_books = Inr s'"
    and amounts: "0 < paid_amount 1 s'" "0 < lines_total_amount 1 s'" by (auto split: sum.splits)
  define sh where "sh = (sample_shipment ''260002'' Ship_Shipped)\<lparr>s_shipper_contact_ref := Some 10, s_ready_at := Some 6\<rparr>"
  have rows: "row_get (bd_documents invoiced_books) 1 = Some sample_invoice"
    "row_get (bd_associations invoiced_books) 1 = Some sample_association" "row_get (db_shipments billing_db) 2 = Some sh"
    "map snd (rows_where (\<lambda>i l. snd l = 2) (bd_shipment_links invoiced_books)) = [(1, 2)]"
    by (simp_all add: invoiced_books_def sample_books_def row_get_def billing_db_def sh_def rows_where_def)
  have "bi_kind sample_invoice = Kind_Invoice" "bi_status sample_invoice = Bill_Issued"
    "s_shipper_contact_ref sh = Some (as_contact sample_association)" "s_status sh = Ship_Shipped" "s_archived_at sh = None"
    by (simp_all add: sample_invoice_def sh_def sample_association_def sample_shipment_def)
  from paid_shipment_offered_again [OF rows(1) this(1,2) rows(4,2,3) this(3-5) s' amounts]
  show ?thesis using s' by metis
qed

definition rule_applies :: "nat list \<Rightarrow> bool \<Rightarrow> unit_rule \<Rightarrow> bool" where
  "rule_applies lineage is_hors_format r \<longleftrightarrow> ur_is_active r \<and> (ur_applies_to_hors_format r \<longrightarrow> is_hors_format)
     \<and> (case ur_category r of None \<Rightarrow> True | Some c \<Rightarrow> c \<in> set lineage)"

lemma greatest_by_key_is_max:
  "\<exists>x \<in> set (best # xs). greatest_by_key xs best = snd x \<and> (\<forall>y \<in> set (best # xs). fst y \<le> fst x)"
proof (induction xs arbitrary: best)
  case (Cons y ys)
  define b where "b = (if fst best < fst y then y else best)"
  obtain x where x: "x \<in> set (b # ys)" "greatest_by_key ys b = snd x" "\<forall>z \<in> set (b # ys). fst z \<le> fst x"
    using Cons.IH [of b] by blast
  have "x \<in> set (best # y # ys)" using x(1) by (auto simp: b_def split: if_splits)
  moreover have "fst best \<le> fst b" "fst y \<le> fst b" by (auto simp: b_def)
  then have "\<forall>z \<in> set (best # y # ys). fst z \<le> fst x" using x(3) by (auto intro: order_trans)
  moreover have "greatest_by_key (y # ys) best = snd x" using x(2) by (simp add: b_def)
  ultimately show ?case by blast
qed simp

lemma with_keys_Inr: "with_keys f xs = Inr ys \<Longrightarrow> map snd ys = xs \<and> (\<forall>(k, x) \<in> set ys. f x = Inr k)"
  by (induction xs arbitrary: ys) (auto simp: wms_ok)

text \<open>
  The rule that counts the units of an item is the most specific one that applies. When the rules
  resolve, no rule is returned exactly when none applies: active, for the format of the item, and for
  no category or one the product's category descends from. Otherwise the rule returned is one that
  applies, and its specificity (made for items out of format, then the depth of its category, then
  the lower priority number) is the greatest of those that apply.
\<close>

theorem unit_rule_is_most_specific:
  assumes "resolve_unit_equivalence_rule d product rules h = Inr result"
    and "category_lineage (db_categories d) (case product of None \<Rightarrow> None
        | Some k \<Rightarrow> (case row_get (db_products d) k of None \<Rightarrow> None | Some p \<Rightarrow> p_category p)) = Inr lineage"
  shows "(result = None \<longleftrightarrow> (\<forall>r \<in> set rules. \<not> rule_applies lineage h r))
    \<and> (\<forall>r. result = Some r \<longrightarrow> r \<in> set rules \<and> rule_applies lineage h r
        \<and> (\<forall>r' \<in> set rules. rule_applies lineage h r' \<longrightarrow>
             (\<exists>k k'. rule_specificity (db_categories d) r = Inr k \<and> rule_specificity (db_categories d) r' = Inr k' \<and> k' \<le> k)))"
proof -
  have candidates: "filter (\<lambda>r. ur_is_active r \<and> \<not> (ur_applies_to_hors_format r \<and> \<not> h)
      \<and> (case ur_category r of None \<Rightarrow> True | Some c \<Rightarrow> c \<in> set lineage)) rules = filter (rule_applies lineage h) rules"
    by (rule filter_cong) (auto simp: rule_applies_def)
  note run = assms(1) [unfolded resolve_unit_equivalence_rule_def Let_def assms(2) res_bind_simps candidates]
  show ?thesis
  proof (cases "filter (rule_applies lineage h) rules")
    case Nil
    then show ?thesis using run by (auto simp: filter_empty_conv)
  next
    case (Cons c cs)
    with run obtain ks where ks: "with_keys (rule_specificity (db_categories d)) (filter (rule_applies lineage h) rules) = Inr ks"
      and result: "(case ks of [] \<Rightarrow> Inr None | b # rest \<Rightarrow> Inr (Some (greatest_by_key rest b))) = (Inr result :: err + unit_rule option)"
      by (auto simp: wms_ok)
    note keyed = with_keys_Inr [OF ks]
    then obtain b rest where b: "ks = b # rest" using Cons by (cases ks) auto
    obtain x where top: "x \<in> set (b # rest)" "greatest_by_key rest b = snd x" "\<forall>y \<in> set (b # rest). fst y \<le> fst x"
      using greatest_by_key_is_max [of b rest] by blast
    moreover have "result = Some (greatest_by_key rest b)" using result b by simp
    ultimately have x: "x \<in> set ks" "result = Some (snd x)" "\<forall>y \<in> set ks. fst y \<le> fst x" by (simp_all add: b)
    have mem: "r \<in> set (filter (rule_applies lineage h) rules) \<longleftrightarrow> r \<in> snd ` set ks" for r
      using keyed by (metis set_map)
    have "snd x \<in> set (filter (rule_applies lineage h) rules)" using mem x(1) by blast
    moreover have "\<exists>k k'. rule_specificity (db_categories d) (snd x) = Inr k \<and> rule_specificity (db_categories d) r' = Inr k' \<and> k' \<le> k"
      if "r' \<in> set rules" "rule_applies lineage h r'" for r'
    proof -
      have "r' \<in> snd ` set ks" using that mem [of r'] by simp
      then obtain y where "y \<in> set ks" "r' = snd y" by blast
      then show ?thesis using keyed x(1,3) by (intro exI [of _ "fst x"] exI [of _ "fst y"]) auto
    qed
    ultimately show ?thesis using x(2) by auto
  qed
qed

definition sample_rule :: "nat option \<Rightarrow> bool \<Rightarrow> nat \<Rightarrow> nat \<Rightarrow> unit_rule" where
  "sample_rule category hors_format units priority = \<lparr>ur_label = ''R'', ur_category = category,
     ur_applies_to_hors_format = hors_format, ur_units_per_item = units, ur_priority = priority, ur_is_active = True\<rparr>"

lemma unit_rule_witness:
  "resolve_unit_equivalence_rule sample_db (Some 1) [sample_rule None False 1 1, sample_rule (Some 1) False 2 5, sample_rule None True 9 0] False
     = Inr (Some (sample_rule (Some 1) False 2 5))
   \<and> rule_applies [1] False (sample_rule (Some 1) False 2 5)"
proof -
  have run: "resolve_unit_equivalence_rule sample_db (Some 1) [sample_rule None False 1 1, sample_rule (Some 1) False 2 5, sample_rule None True 9 0] False
     = Inr (Some (sample_rule (Some 1) False 2 5))" by code_simp
  have "category_lineage (db_categories sample_db) (case Some 1 of None \<Rightarrow> None
        | Some k \<Rightarrow> (case row_get (db_products sample_db) k of None \<Rightarrow> None | Some p \<Rightarrow> p_category p)) = Inr [1]" by code_simp
  from unit_rule_is_most_specific [OF run this] run show ?thesis by auto
qed

end
