(* ===== verification/Parties.thy ===== *)
theory Parties
  imports References "HOL-Library.List_Lexorder" "HOL-Library.Char_ord" "HOL-Library.Product_Lexorder"
begin

text \<open>
  The registry of who may ship what to whom: shippers, recipient organizations of a stopover, the
  persons of a recipient, links between the two and the persons authorized on a link
  (\<open>wms/models_domain/shipment_parties.py\<close>), who is eligible (\<open>wms/shipment_party_registry.py\<close>) and how
  the parties of an operation are offered and resolved (\<open>wms/shipment_party_rules.py\<close>).
\<close>

section \<open>The registry of shippers and recipients\<close>

datatype validation_status = Val_Pending | Val_Validated | Val_Rejected

record shipper =
  sp_organization :: nat
  sp_default_contact :: "nat option"
  sp_validation_status :: validation_status
  sp_can_send_to_all :: bool
  sp_is_active :: bool

record recipient_org =
  ro_organization :: nat
  ro_destination :: nat
  ro_validation_status :: validation_status
  ro_is_correspondent :: bool
  ro_is_active :: bool

record recipient_contact =
  rc_recipient_organization :: nat
  rc_contact :: nat
  rc_is_active :: bool

record party_link =
  pl_shipper :: nat
  pl_recipient_organization :: nat
  pl_is_active :: bool

record authorized_contact =
  ac_link :: nat
  ac_recipient_contact :: nat
  ac_is_default :: bool
  ac_is_active :: bool

record association_profile =
  ap_contact :: nat

record portal_contact =
  po_profile :: nat
  po_position :: nat
  po_title :: string
  po_last_name :: string
  po_first_name :: string
  po_phone :: string
  po_email :: string
  po_is_active :: bool

record party_db =
  pt_profiles :: "association_profile table"
  pt_portal_contacts :: "portal_contact table"
  pt_shippers :: "shipper table"
  pt_recipient_orgs :: "recipient_org table"
  pt_recipient_contacts :: "recipient_contact table"
  pt_links :: "party_link table"
  pt_authorized :: "authorized_contact table"

section \<open>What the saves check\<close>

text \<open>
  \<open>save\<close> runs \<open>full_clean\<close>: \<open>clean\<close> and the constraints. The rows a foreign key names are read
  from the contacts and destinations; a missing one is a validation error as well.
\<close>

definition contact_is :: "contact_type \<Rightarrow> nat \<Rightarrow> db \<Rightarrow> bool" where
  "contact_is t k d = (case row_get (db_contacts d) k of None \<Rightarrow> False | Some c \<Rightarrow> con_type c = t \<and> con_is_active c)"

definition contact_active :: "nat \<Rightarrow> db \<Rightarrow> bool" where
  "contact_active k d = (case row_get (db_contacts d) k of None \<Rightarrow> False | Some c \<Rightarrow> con_is_active c)"

definition organization_of :: "nat \<Rightarrow> db \<Rightarrow> nat option" where
  "organization_of k d = (case row_get (db_contacts d) k of None \<Rightarrow> None | Some c \<Rightarrow> con_organization c)"

definition destination_active :: "nat \<Rightarrow> db \<Rightarrow> bool" where
  "destination_active k d = (case row_get (db_destinations d) k of None \<Rightarrow> False | Some x \<Rightarrow> d_is_active x)"

definition clean_shipper :: "shipper \<Rightarrow> db \<Rightarrow> bool" where
  "clean_shipper r d \<longleftrightarrow> contact_is Con_Organization (sp_organization r) d
     \<and> (case sp_default_contact r of
          None \<Rightarrow> \<not> sp_is_active r
        | Some c \<Rightarrow> contact_is Con_Person c d \<and> organization_of c d = Some (sp_organization r))"

definition clean_recipient_org :: "recipient_org \<Rightarrow> db \<Rightarrow> bool" where
  "clean_recipient_org r d \<longleftrightarrow> contact_is Con_Organization (ro_organization r) d \<and> destination_active (ro_destination r) d"

definition clean_recipient_contact :: "recipient_contact \<Rightarrow> db \<Rightarrow> party_db \<Rightarrow> bool" where
  "clean_recipient_contact r d s \<longleftrightarrow> contact_is Con_Person (rc_contact r) d
     \<and> (case row_get (pt_recipient_orgs s) (rc_recipient_organization r) of
          None \<Rightarrow> False
        | Some o' \<Rightarrow> organization_of (rc_contact r) d = Some (ro_organization o') \<and> ro_is_active o')"

definition clean_link :: "party_link \<Rightarrow> party_db \<Rightarrow> bool" where
  "clean_link r s \<longleftrightarrow>
     (case row_get (pt_shippers s) (pl_shipper r) of None \<Rightarrow> False | Some x \<Rightarrow> sp_is_active x)
     \<and> (case row_get (pt_recipient_orgs s) (pl_recipient_organization r) of None \<Rightarrow> False | Some x \<Rightarrow> ro_is_active x)"

definition clean_authorized :: "authorized_contact \<Rightarrow> party_db \<Rightarrow> bool" where
  "clean_authorized r s \<longleftrightarrow>
     (case (row_get (pt_links s) (ac_link r), row_get (pt_recipient_contacts s) (ac_recipient_contact r)) of
        (Some l, Some c) \<Rightarrow> pl_is_active l \<and> rc_is_active c \<and> rc_recipient_organization c = pl_recipient_organization l
      | _ \<Rightarrow> False)"

text \<open>Saving: a new row when there is no key yet. \<open>clash\<close> is a unique constraint.\<close>

definition clashes :: "('r \<Rightarrow> 'r \<Rightarrow> bool) \<Rightarrow> nat option \<Rightarrow> 'r \<Rightarrow> 'r table \<Rightarrow> bool" where
  "clashes clash pk r t = list_ex (\<lambda>(k, x). pk \<noteq> Some k \<and> clash r x) t"

definition save_row :: "nat option \<Rightarrow> 'r \<Rightarrow> 'r table \<Rightarrow> 'r table" where
  "save_row pk r t = (case pk of None \<Rightarrow> row_ins r t | Some k \<Rightarrow> row_upd k (\<lambda>_. r) t)"

definition save_shipper :: "nat option \<Rightarrow> shipper \<Rightarrow> db \<Rightarrow> party_db \<Rightarrow> err + party_db" where
  "save_shipper pk r d s =
     res_bind (raise_if (\<not> clean_shipper r d
          \<or> clashes (\<lambda>r x. sp_organization x = sp_organization r) pk r (pt_shippers s)) (Validation_Error ''ShipmentShipper''))
       (\<lambda>_. Inr (s\<lparr>pt_shippers := save_row pk r (pt_shippers s)\<rparr>))"

definition save_recipient_org :: "nat option \<Rightarrow> recipient_org \<Rightarrow> db \<Rightarrow> party_db \<Rightarrow> err + party_db" where
  "save_recipient_org pk r d s =
     res_bind (raise_if (\<not> clean_recipient_org r d
          \<or> clashes (\<lambda>r x. ro_organization x = ro_organization r) pk r (pt_recipient_orgs s)
          \<or> clashes (\<lambda>r x. ro_destination x = ro_destination r \<and> ro_is_correspondent r \<and> ro_is_active r
                \<and> ro_is_correspondent x \<and> ro_is_active x) pk r (pt_recipient_orgs s))
        (Validation_Error ''ShipmentRecipientOrganization''))
       (\<lambda>_. Inr (s\<lparr>pt_recipient_orgs := save_row pk r (pt_recipient_orgs s)\<rparr>))"

definition save_recipient_contact :: "nat option \<Rightarrow> recipient_contact \<Rightarrow> db \<Rightarrow> party_db \<Rightarrow> err + party_db" where
  "save_recipient_contact pk r d s =
     res_bind (raise_if (\<not> clean_recipient_contact r d s
          \<or> clashes (\<lambda>r x. rc_recipient_organization x = rc_recipient_organization r \<and> rc_contact x = rc_contact r)
                pk r (pt_recipient_contacts s)) (Validation_Error ''ShipmentRecipientContact''))
       (\<lambda>_. Inr (s\<lparr>pt_recipient_contacts := save_row pk r (pt_recipient_contacts s)\<rparr>))"

definition save_link :: "nat option \<Rightarrow> party_link \<Rightarrow> party_db \<Rightarrow> err + party_db" where
  "save_link pk r s =
     res_bind (raise_if (\<not> clean_link r s
          \<or> clashes (\<lambda>r x. pl_shipper x = pl_shipper r \<and> pl_recipient_organization x = pl_recipient_organization r)
                pk r (pt_links s)) (Validation_Error ''ShipmentShipperRecipientLink''))
       (\<lambda>_. Inr (s\<lparr>pt_links := save_row pk r (pt_links s)\<rparr>))"

definition save_authorized :: "nat option \<Rightarrow> authorized_contact \<Rightarrow> party_db \<Rightarrow> err + party_db" where
  "save_authorized pk r s =
     res_bind (raise_if (\<not> clean_authorized r s
          \<or> clashes (\<lambda>r x. ac_link x = ac_link r \<and> ac_recipient_contact x = ac_recipient_contact r) pk r (pt_authorized s)
          \<or> clashes (\<lambda>r x. ac_link x = ac_link r \<and> ac_is_default r \<and> ac_is_active r \<and> ac_is_default x \<and> ac_is_active x)
                pk r (pt_authorized s)) (Validation_Error ''ShipmentAuthorizedRecipientContact''))
       (\<lambda>_. Inr (s\<lparr>pt_authorized := save_row pk r (pt_authorized s)\<rparr>))"

section \<open>Who is eligible\<close>

definition normalize_party_contact_to_org :: "nat option \<Rightarrow> db \<Rightarrow> nat option" where
  "normalize_party_contact_to_org contact d =
     (case contact of None \<Rightarrow> None
      | Some k \<Rightarrow> (case row_get (db_contacts d) k of
            None \<Rightarrow> Some k
          | Some c \<Rightarrow> (case (con_type c, con_organization c) of
              (Con_Person, Some o') \<Rightarrow> Some o'
            | _ \<Rightarrow> Some k)))"

definition validated_active_shipper :: "db \<Rightarrow> shipper \<Rightarrow> bool" where
  "validated_active_shipper d x \<longleftrightarrow> sp_is_active x \<and> sp_validation_status x = Val_Validated \<and> contact_active (sp_organization x) d"

definition validated_active_recipient_organization :: "db \<Rightarrow> recipient_org \<Rightarrow> bool" where
  "validated_active_recipient_organization d x \<longleftrightarrow> ro_is_active x \<and> ro_validation_status x = Val_Validated
     \<and> contact_active (ro_organization x) d \<and> destination_active (ro_destination x) d"

text \<open>\<open>ordering\<close> of the shippers: by the name of the organization.\<close>

definition shippers_where :: "(nat \<Rightarrow> shipper \<Rightarrow> bool) \<Rightarrow> db \<Rightarrow> party_db \<Rightarrow> (nat \<times> shipper) list" where
  "shippers_where P d s = sort_key (\<lambda>(k, x). (contact_name (Some (sp_organization x)) d, k)) (rows_where P (pt_shippers s))"

definition eligible_shippers_for_stopover :: "nat option \<Rightarrow> db \<Rightarrow> party_db \<Rightarrow> (nat \<times> shipper) list" where
  "eligible_shippers_for_stopover dest d s =
     (case dest of None \<Rightarrow> [] | Some k \<Rightarrow>
        if \<not> destination_active k d then []
        else shippers_where (\<lambda>i x. validated_active_shipper d x
            \<and> (sp_can_send_to_all x
               \<or> list_ex (\<lambda>(j, l). pl_shipper l = i \<and> pl_is_active l
                    \<and> (case row_get (pt_recipient_orgs s) (pl_recipient_organization l) of
                         None \<Rightarrow> False
                       | Some o' \<Rightarrow> ro_destination o' = k \<and> validated_active_recipient_organization d o')) (pt_links s))) d s)"

definition eligible_recipient_organizations_for_shipper ::
  "nat \<Rightarrow> nat option \<Rightarrow> db \<Rightarrow> party_db \<Rightarrow> (nat \<times> recipient_org) list" where
  "eligible_recipient_organizations_for_shipper shipper dest d s =
     (case (row_get (pt_shippers s) shipper, dest) of
        (Some x, Some k) \<Rightarrow>
          if \<not> destination_active k d \<or> \<not> validated_active_shipper d x then []
          else rows_where (\<lambda>i o'. ro_destination o' = k \<and> validated_active_recipient_organization d o'
                 \<and> (sp_can_send_to_all x
                    \<or> list_ex (\<lambda>(j, l). pl_recipient_organization l = i \<and> pl_shipper l = shipper \<and> pl_is_active l) (pt_links s)))
               (pt_recipient_orgs s)
      | _ \<Rightarrow> [])"

definition eligible_recipient_contacts_for_link :: "nat \<Rightarrow> db \<Rightarrow> party_db \<Rightarrow> (nat \<times> recipient_contact) list" where
  "eligible_recipient_contacts_for_link link d s =
     (case row_get (pt_links s) link of None \<Rightarrow> [] | Some l \<Rightarrow>
        if \<not> pl_is_active l then []
        else sort_key (\<lambda>(k, c). (case row_get (db_contacts d) (rc_contact c) of None \<Rightarrow> [] | Some x \<Rightarrow> con_last_name x, k))
          (rows_where (\<lambda>k c. list_ex (\<lambda>(j, a). ac_link a = link \<and> ac_recipient_contact a = k \<and> ac_is_active a) (pt_authorized s)
              \<and> rc_is_active c \<and> contact_active (rc_contact c) d
              \<and> rc_recipient_organization c = pl_recipient_organization l
              \<and> (case row_get (pt_recipient_orgs s) (rc_recipient_organization c) of
                   None \<Rightarrow> False | Some o' \<Rightarrow> validated_active_recipient_organization d o')) (pt_recipient_contacts s)))"

definition stopover_correspondent_recipient_organization :: "nat option \<Rightarrow> db \<Rightarrow> party_db \<Rightarrow> (nat \<times> recipient_org) option" where
  "stopover_correspondent_recipient_organization dest d s =
     (case dest of None \<Rightarrow> None | Some k \<Rightarrow>
        if \<not> destination_active k d then None
        else (case sort_key fst (rows_where (\<lambda>i o'. ro_destination o' = k \<and> ro_is_correspondent o' \<and> ro_is_active o'
                \<and> ro_validation_status o' = Val_Validated \<and> contact_active (ro_organization o') d) (pt_recipient_orgs s)) of
                [] \<Rightarrow> None | x # _ \<Rightarrow> Some x))"

definition default_recipient_contact_for_link :: "nat \<Rightarrow> db \<Rightarrow> party_db \<Rightarrow> nat option" where
  "default_recipient_contact_for_link link d s =
     (case row_get (pt_links s) link of None \<Rightarrow> None | Some l \<Rightarrow>
        if \<not> pl_is_active l then None
        else (case rows_where (\<lambda>k a. ac_link a = link \<and> ac_is_default a \<and> ac_is_active a
                \<and> (case row_get (pt_recipient_contacts s) (ac_recipient_contact a) of
                     None \<Rightarrow> False
                   | Some c \<Rightarrow> rc_is_active c \<and> contact_active (rc_contact c) d
                       \<and> (case row_get (pt_recipient_orgs s) (rc_recipient_organization c) of
                            None \<Rightarrow> False | Some o' \<Rightarrow> validated_active_recipient_organization d o'))) (pt_authorized s) of
                [] \<Rightarrow> None | (_, a) # _ \<Rightarrow> Some (ac_recipient_contact a)))"

text \<open>The contacts to choose from: the active ones, by name.\<close>

definition active_contacts_for_ids :: "nat list \<Rightarrow> db \<Rightarrow> nat list" where
  "active_contacts_for_ids ids d =
     map fst (sort_key (\<lambda>(k, c). (con_name c, k)) (rows_where (\<lambda>k c. k \<in> set ids \<and> con_is_active c) (db_contacts d)))"

definition party_ids_of_shippers :: "(nat \<times> shipper) list \<Rightarrow> nat list" where
  "party_ids_of_shippers xs =
     map (sp_organization \<circ> snd) xs @ concat (map (\<lambda>(k, x). case sp_default_contact x of None \<Rightarrow> [] | Some c \<Rightarrow> [c]) xs)"

definition active_shipper_contacts :: "db \<Rightarrow> party_db \<Rightarrow> nat list" where
  "active_shipper_contacts d s =
     active_contacts_for_ids (party_ids_of_shippers (shippers_where (\<lambda>k. validated_active_shipper d) d s)) d"

definition eligible_shipper_contacts_for_destination :: "nat option \<Rightarrow> db \<Rightarrow> party_db \<Rightarrow> nat list" where
  "eligible_shipper_contacts_for_destination dest d s =
     (case dest of None \<Rightarrow> [] | Some k \<Rightarrow>
        if \<not> destination_active k d then []
        else active_contacts_for_ids (party_ids_of_shippers (eligible_shippers_for_stopover dest d s)) d)"

text \<open>The recipients, of every stopover or of one.\<close>

definition recipient_orgs_at :: "nat option \<Rightarrow> db \<Rightarrow> party_db \<Rightarrow> (nat \<times> recipient_org) list" where
  "recipient_orgs_at dest d s =
     rows_where (\<lambda>_ o'. validated_active_recipient_organization d o' \<and> (dest = None \<or> dest = Some (ro_destination o'))) (pt_recipient_orgs s)"

definition recipient_contacts_at :: "nat option \<Rightarrow> db \<Rightarrow> party_db \<Rightarrow> (nat \<times> recipient_contact) list" where
  "recipient_contacts_at dest d s =
     rows_where (\<lambda>_ c. rc_is_active c \<and> contact_active (rc_contact c) d
         \<and> (case row_get (pt_recipient_orgs s) (rc_recipient_organization c) of
              None \<Rightarrow> False
            | Some o' \<Rightarrow> validated_active_recipient_organization d o' \<and> (dest = None \<or> dest = Some (ro_destination o'))))
       (pt_recipient_contacts s)"

definition party_ids_of_recipients :: "nat option \<Rightarrow> db \<Rightarrow> party_db \<Rightarrow> nat list" where
  "party_ids_of_recipients dest d s =
     map (ro_organization \<circ> snd) (recipient_orgs_at dest d s) @ map (rc_contact \<circ> snd) (recipient_contacts_at dest d s)"

definition active_recipient_contacts :: "db \<Rightarrow> party_db \<Rightarrow> nat list" where
  "active_recipient_contacts d s = active_contacts_for_ids (party_ids_of_recipients None d s) d"

definition recipient_contacts_for_destination :: "nat option \<Rightarrow> db \<Rightarrow> party_db \<Rightarrow> nat list" where
  "recipient_contacts_for_destination dest d s =
     (case dest of None \<Rightarrow> [] | Some k \<Rightarrow>
        if destination_active k d then active_contacts_for_ids (party_ids_of_recipients dest d s) d else [])"

definition eligible_correspondent_contacts_for_destination :: "nat option \<Rightarrow> db \<Rightarrow> party_db \<Rightarrow> nat list" where
  "eligible_correspondent_contacts_for_destination dest d s =
     (case dest of None \<Rightarrow> [] | Some k \<Rightarrow>
        (case (row_get (db_destinations d) k, stopover_correspondent_recipient_organization dest d s) of
           (Some x, Some (j, o')) \<Rightarrow>
             (let c = d_correspondent_contact x in
              active_contacts_for_ids
                (ro_organization o'
                 # map (rc_contact \<circ> snd) (filter (\<lambda>(_, r). rc_recipient_organization r = j) (recipient_contacts_at dest d s))
                 @ (if contact_active c d \<and> normalize_party_contact_to_org (Some c) d = Some (ro_organization o')
                    then [c] else [])) d)
         | _ \<Rightarrow> []))"

definition shipment_shipper_record :: "nat option \<Rightarrow> db \<Rightarrow> party_db \<Rightarrow> (nat \<times> shipper) option" where
  "shipment_shipper_record contact d s =
     (case normalize_party_contact_to_org contact d of
        None \<Rightarrow> None
      | Some k \<Rightarrow>
          (case shippers_where (\<lambda>i x. validated_active_shipper d x \<and> sp_default_contact x = Some k) d s of
             x # _ \<Rightarrow> Some x
           | [] \<Rightarrow>
               (case shippers_where (\<lambda>i x. validated_active_shipper d x \<and> sp_organization x = k) d s of
                  x # _ \<Rightarrow> Some x
                | [] \<Rightarrow> None)))"

definition shipment_recipient_organization_record ::
  "nat option \<Rightarrow> nat option \<Rightarrow> db \<Rightarrow> party_db \<Rightarrow> (nat \<times> recipient_org) option" where
  "shipment_recipient_organization_record contact dest d s =
     (case (normalize_party_contact_to_org contact d, dest) of
        (Some k, Some j) \<Rightarrow>
          (case sort_key fst (rows_where (\<lambda>i o'. ro_organization o' = k \<and> ro_destination o' = j \<and> ro_is_active o'
                \<and> contact_active (ro_organization o') d) (pt_recipient_orgs s)) of
             [] \<Rightarrow> None | x # _ \<Rightarrow> Some x)
      | _ \<Rightarrow> None)"

text \<open>The person an authorization offers, when its link leads from the shipper to one of the organizations.\<close>

definition authorized_person :: "nat \<Rightarrow> nat \<Rightarrow> nat list \<Rightarrow> db \<Rightarrow> party_db \<Rightarrow> authorized_contact \<Rightarrow> nat option" where
  "authorized_person shipper dest orgs d s a =
     (case (row_get (pt_links s) (ac_link a), row_get (pt_recipient_contacts s) (ac_recipient_contact a)) of
        (Some l, Some c) \<Rightarrow>
          (case row_get (pt_recipient_orgs s) (rc_recipient_organization c) of
             None \<Rightarrow> None
           | Some o' \<Rightarrow>
               if pl_shipper l = shipper \<and> pl_recipient_organization l \<in> set orgs \<and> pl_is_active l
                  \<and> rc_is_active c \<and> contact_active (rc_contact c) d
                  \<and> ro_is_active o' \<and> ro_validation_status o' = Val_Validated \<and> ro_destination o' = dest
                  \<and> ac_is_active a
               then Some (rc_contact c) else None)
      | _ \<Rightarrow> None)"

definition eligible_recipient_contacts_for_shipper_destination ::
  "nat option \<Rightarrow> nat option \<Rightarrow> db \<Rightarrow> party_db \<Rightarrow> nat list" where
  "eligible_recipient_contacts_for_shipper_destination shipper_contact dest d s =
     (case dest of None \<Rightarrow> [] | Some k \<Rightarrow>
        if \<not> destination_active k d then []
        else (case shipment_shipper_record shipper_contact d s of None \<Rightarrow> [] | Some (i, x) \<Rightarrow>
          (let orgs = eligible_recipient_organizations_for_shipper i dest d s in
           if orgs = [] then []
           else active_contacts_for_ids
             (map (ro_organization \<circ> snd) orgs
              @ concat (map (\<lambda>(_, a). case authorized_person i k (map fst orgs) d s a of None \<Rightarrow> [] | Some c \<Rightarrow> [c])
                  (pt_authorized s))) d)))"

section \<open>Resolving the parties of an operation\<close>

datatype party_error =
    Destination_Required | Shipper_Required | Shipper_Review_Pending | Shipper_Out_Of_Scope
  | Recipient_Required | Recipient_Review_Pending | Recipient_Binding_Missing

definition party_message :: "party_error \<Rightarrow> string" where
  "party_message x = (case x of
       Destination_Required \<Rightarrow> ''Escale requise.''
     | Shipper_Required \<Rightarrow> ''Expediteur requis.''
     | Shipper_Review_Pending \<Rightarrow> ''Expediteur en cours de revue ASF.''
     | Shipper_Out_Of_Scope \<Rightarrow> ''Expediteur non autorise pour cette escale.''
     | Recipient_Required \<Rightarrow> ''Destinataire requis.''
     | Recipient_Review_Pending \<Rightarrow> ''Destinataire en cours de revue ASF.''
     | Recipient_Binding_Missing \<Rightarrow> ''Destinataire non autorise pour cet expediteur et cette escale.'')"

definition resolve_shipper_for_operation ::
  "nat option \<Rightarrow> nat option \<Rightarrow> db \<Rightarrow> party_db \<Rightarrow> party_error + nat \<times> shipper" where
  "resolve_shipper_for_operation shipper_org dest d s =
     (if dest = None then Inl Destination_Required
      else if normalize_party_contact_to_org shipper_org d = None then Inl Shipper_Required
      else
        (case shipment_shipper_record (normalize_party_contact_to_org shipper_org d) d s of
           None \<Rightarrow> Inl Shipper_Review_Pending
         | Some x \<Rightarrow>
             if fst x \<in> fst ` set (eligible_shippers_for_stopover dest d s) then Inr x else Inl Shipper_Out_Of_Scope))"

datatype binding = Bound_Link nat party_link | Bound_Recipient nat recipient_org

definition resolve_recipient_binding_for_operation ::
  "nat option \<Rightarrow> nat option \<Rightarrow> nat option \<Rightarrow> db \<Rightarrow> party_db \<Rightarrow> party_error + binding" where
  "resolve_recipient_binding_for_operation shipper_org recipient_org dest d s =
     (if dest = None then Inl Destination_Required
      else if normalize_party_contact_to_org recipient_org d = None then Inl Recipient_Required
      else
        (case resolve_shipper_for_operation shipper_org dest d s of
           Inl x \<Rightarrow> Inl x
         | Inr (i, x) \<Rightarrow>
             (case shipment_recipient_organization_record (normalize_party_contact_to_org recipient_org d) dest d s of
                None \<Rightarrow> Inl Recipient_Binding_Missing
              | Some (j, o') \<Rightarrow>
                  if ro_validation_status o' \<noteq> Val_Validated then Inl Recipient_Review_Pending
                  else if j \<notin> fst ` set (eligible_recipient_organizations_for_shipper i dest d s)
                    then Inl Recipient_Binding_Missing
                  else
                    (case sort_key fst (rows_where (\<lambda>k l. pl_shipper l = i \<and> pl_recipient_organization l = j \<and> pl_is_active l)
                        (pt_links s)) of
                       (k, l) # _ \<Rightarrow> Inr (Bound_Link k l)
                     | [] \<Rightarrow> Inr (Bound_Recipient j o')))))"

end
