(* ===== verification/Party_Setup.thy ===== *)
theory Party_Setup
  imports Parties "HOL-Library.Sublist"
begin

text \<open>
  How the registry changes: setting up shippers, links and authorizations (\<open>wms/shipment_party_setup.py\<close>),
  the links of the default shipper (\<open>wms/default_shipper_bindings.py\<close>), the promotion of correspondents to
  recipients (\<open>contacts/correspondent_recipient_promotion.py\<close>) and the party part of the contact form
  (\<open>wms/admin_contacts_contact_service.py\<close>). The addresses of the contacts are not in the model.
\<close>

section \<open>Runs that are not one transaction\<close>

text \<open>
  The functions below save one row after another outside a transaction: what was saved before an
  exception stays. A run returns its result or exception, and the contacts and parties it left.
\<close>

type_synonym parties = "db \<times> party_db"

type_synonym 'a steps = "parties \<Rightarrow> (err + 'a) \<times> parties"

definition done_with :: "'a \<Rightarrow> 'a steps" where
  "done_with x w = (Inr x, w)"

definition followed_by :: "'a steps \<Rightarrow> ('a \<Rightarrow> 'b steps) \<Rightarrow> 'b steps" where
  "followed_by m f w = (case m w of (Inl x, w') \<Rightarrow> (Inl x, w') | (Inr a, w') \<Rightarrow> f a w')"

fun each_step :: "('x \<Rightarrow> 'a \<Rightarrow> 'a steps) \<Rightarrow> 'x list \<Rightarrow> 'a \<Rightarrow> 'a steps" where
  "each_step f [] a = done_with a"
| "each_step f (x # xs) a = followed_by (f x a) (each_step f xs)"

definition reading :: "(parties \<Rightarrow> 'a) \<Rightarrow> ('a \<Rightarrow> 'b steps) \<Rightarrow> 'b steps" where
  "reading q f w = f (q w) w"

text \<open>One save: the key of the row it wrote, or the exception and nothing written.\<close>

definition saving :: "(party_db \<Rightarrow> 'r table) \<Rightarrow> (db \<Rightarrow> party_db \<Rightarrow> err + party_db) \<Rightarrow> nat option \<Rightarrow> nat steps" where
  "saving rows save pk w =
     (case save (fst w) (snd w) of
        Inl x \<Rightarrow> (Inl x, w)
      | Inr s \<Rightarrow> (Inr (case pk of None \<Rightarrow> next_pk (rows (snd w)) | Some k \<Rightarrow> k), (fst w, s)))"

definition put_shipper :: "nat option \<Rightarrow> shipper \<Rightarrow> nat steps" where
  "put_shipper pk r = saving pt_shippers (save_shipper pk r) pk"

definition put_recipient_org :: "nat option \<Rightarrow> recipient_org \<Rightarrow> nat steps" where
  "put_recipient_org pk r = saving pt_recipient_orgs (save_recipient_org pk r) pk"

definition put_recipient_contact :: "nat option \<Rightarrow> recipient_contact \<Rightarrow> nat steps" where
  "put_recipient_contact pk r = saving pt_recipient_contacts (save_recipient_contact pk r) pk"

definition put_link :: "nat option \<Rightarrow> party_link \<Rightarrow> nat steps" where
  "put_link pk r = saving pt_links (\<lambda>d. save_link pk r) pk"

definition put_authorized :: "nat option \<Rightarrow> authorized_contact \<Rightarrow> nat steps" where
  "put_authorized pk r = saving pt_authorized (\<lambda>d. save_authorized pk r) pk"

section \<open>Setting parties up\<close>

definition priority_shipper_name :: string where
  "priority_shipper_name = ''Aviation Sans Frontieres''"

definition is_priority_shipper :: "nat \<Rightarrow> db \<Rightarrow> bool" where
  "is_priority_shipper org d \<longleftrightarrow>
     str_lower (strip (contact_name (Some org) d)) = str_lower (strip priority_shipper_name)"

definition portal_contact_for_organization :: "nat \<Rightarrow> party_db \<Rightarrow> portal_contact option" where
  "portal_contact_for_organization org s =
     (case sort_key fst (rows_where (\<lambda>_ p. ap_contact p = org) (pt_profiles s)) of
        [] \<Rightarrow> None
      | (k, _) # _ \<Rightarrow>
          (case sort_key (\<lambda>(i, c). (po_position c, i))
              (rows_where (\<lambda>_ c. po_profile c = k \<and> po_is_active c) (pt_portal_contacts s)) of
             [] \<Rightarrow> None
           | (_, c) # _ \<Rightarrow> Some c))"

definition portal_field :: "(portal_contact \<Rightarrow> string) \<Rightarrow> portal_contact option \<Rightarrow> string" where
  "portal_field f portal = (case portal of None \<Rightarrow> '''' | Some c \<Rightarrow> strip (f c))"

definition new_person :: "nat \<Rightarrow> string \<Rightarrow> string \<Rightarrow> string \<Rightarrow> string \<Rightarrow> string \<Rightarrow> string \<Rightarrow> contact" where
  "new_person org title first_name last_name name email phone = \<lparr>con_type = Con_Person, con_name = name, con_title = title,
     con_first_name = first_name, con_last_name = last_name, con_organization = Some org, con_role = [],
     con_email = email, con_email2 = [], con_phone = phone, con_phone2 = [], con_siret = [], con_vat_number = [],
     con_legal_registration_number = [], con_asf_id = None, con_use_organization_address = True, con_notes = [],
     con_is_active = True\<rparr>"

definition add_contact :: "contact \<Rightarrow> nat steps" where
  "add_contact c w = (Inr (next_pk (db_contacts (fst w))),
     ((fst w)\<lparr>db_contacts := row_ins c (db_contacts (fst w))\<rparr>, snd w))"

definition change_contact :: "nat \<Rightarrow> (contact \<Rightarrow> contact) \<Rightarrow> unit steps" where
  "change_contact k f w = (Inr (), ((fst w)\<lparr>db_contacts := row_upd k f (db_contacts (fst w))\<rparr>, snd w))"

definition or_else :: "string \<Rightarrow> string \<Rightarrow> string" where
  "or_else x y = (if x = [] then y else x)"

definition ensure_shipment_shipper_default_contact :: "nat \<Rightarrow> nat steps" where
  "ensure_shipment_shipper_default_contact org w =
     (case sort_key fst (rows_where (\<lambda>_ c. con_organization c = Some org \<and> con_type c = Con_Person \<and> con_is_active c)
          (db_contacts (fst w))) of
        (k, _) # _ \<Rightarrow> done_with k w
      | [] \<Rightarrow>
          (case row_get (db_contacts (fst w)) org of
             None \<Rightarrow> (Inl Does_Not_Exist, w)
           | Some o' \<Rightarrow>
               (let portal = portal_contact_for_organization org (snd w);
                    first_name = or_else (portal_field po_first_name portal) ''Referent'';
                    last_name = or_else (portal_field po_last_name portal) ''Portail'';
                    email = or_else (portal_field po_email portal) (strip (con_email o'));
                    phone = or_else (portal_field po_phone portal) (strip (con_phone o'))
                in add_contact (new_person org (portal_field po_title portal) (take 120 first_name) (take 120 last_name)
                     (take 200 (strip (first_name @ '' '' @ last_name))) (take 254 email) (take 40 phone)) w)))"

definition ensure_shipment_shipper :: "nat \<Rightarrow> validation_status \<Rightarrow> nat steps" where
  "ensure_shipment_shipper org status =
     followed_by (ensure_shipment_shipper_default_contact org) (\<lambda>contact.
     reading (\<lambda>w. (rows_where (\<lambda>_ x. sp_organization x = org) (pt_shippers (snd w)), is_priority_shipper org (fst w)))
       (\<lambda>(found, priority).
         case found of
           [] \<Rightarrow> put_shipper None \<lparr>sp_organization = org, sp_default_contact = Some contact,
                   sp_validation_status = status, sp_can_send_to_all = priority, sp_is_active = True\<rparr>
         | (k, x) # _ \<Rightarrow>
             (let y = x\<lparr>sp_default_contact := Some contact, sp_validation_status := status,
                    sp_can_send_to_all := priority, sp_is_active := True\<rparr>
              in if y = x then done_with k else put_shipper (Some k) y)))"

definition ensure_shipment_recipient_link :: "nat \<Rightarrow> nat \<Rightarrow> nat steps" where
  "ensure_shipment_recipient_link shipper org =
     reading (\<lambda>w. rows_where (\<lambda>_ l. pl_shipper l = shipper \<and> pl_recipient_organization l = org) (pt_links (snd w)))
       (\<lambda>found. case found of
           [] \<Rightarrow> put_link None \<lparr>pl_shipper = shipper, pl_recipient_organization = org, pl_is_active = True\<rparr>
         | (k, l) # _ \<Rightarrow> if pl_is_active l then done_with k else put_link (Some k) (l\<lparr>pl_is_active := True\<rparr>))"

text \<open>
  An authorized contact of a link: the default among the active ones is the one asked for, or the
  first when the link has none; the link itself is active while some authorization is.
\<close>

definition other_default :: "nat \<Rightarrow> nat \<Rightarrow> party_db \<Rightarrow> bool" where
  "other_default link k s = list_ex (\<lambda>(i, a). i \<noteq> k \<and> ac_link a = link \<and> ac_is_active a \<and> ac_is_default a) (pt_authorized s)"

definition drop_other_defaults :: "nat \<Rightarrow> nat \<Rightarrow> unit steps" where
  "drop_other_defaults link k w = (Inr (), (fst w, (snd w)\<lparr>pt_authorized :=
     map (\<lambda>(i, a). (i, if i \<noteq> k \<and> ac_link a = link \<and> ac_is_default a then a\<lparr>ac_is_default := False\<rparr> else a))
       (pt_authorized (snd w))\<rparr>))"

definition link_has_active :: "nat \<Rightarrow> party_db \<Rightarrow> bool" where
  "link_has_active link s = list_ex (\<lambda>(i, a). ac_link a = link \<and> ac_is_active a) (pt_authorized s)"

definition get_or_create_authorized :: "nat \<Rightarrow> nat \<Rightarrow> bool \<Rightarrow> nat steps" where
  "get_or_create_authorized link contact active =
     reading (\<lambda>w. rows_where (\<lambda>_ a. ac_link a = link \<and> ac_recipient_contact a = contact) (pt_authorized (snd w)))
       (\<lambda>found. case found of
           [] \<Rightarrow> put_authorized None \<lparr>ac_link = link, ac_recipient_contact = contact, ac_is_default = False, ac_is_active = active\<rparr>
         | (k, _) # _ \<Rightarrow> done_with k)"

definition follow_authorizations :: "nat \<Rightarrow> unit steps" where
  "follow_authorizations link =
     reading (\<lambda>w. (row_get (pt_links (snd w)) link, link_has_active link (snd w))) (\<lambda>(l, active).
       case l of
         None \<Rightarrow> done_with ()
       | Some l \<Rightarrow> if active = pl_is_active l then done_with ()
                   else followed_by (put_link (Some link) (l\<lparr>pl_is_active := active\<rparr>)) (\<lambda>_. done_with ()))"

definition ensure_authorized_recipient_contact :: "nat \<Rightarrow> nat \<Rightarrow> bool \<Rightarrow> bool \<Rightarrow> nat steps" where
  "ensure_authorized_recipient_contact link contact active set_as_default =
     followed_by (get_or_create_authorized link contact active) (\<lambda>k.
     reading (\<lambda>w. (row_get (pt_authorized (snd w)) k, other_default link k (snd w))) (\<lambda>(found, other).
       case found of
         None \<Rightarrow> done_with k
       | Some a \<Rightarrow>
           (let should = active \<and> (set_as_default \<or> ac_is_default a \<or> \<not> other);
                b = a\<lparr>ac_is_active := active, ac_is_default := should\<rparr>
            in followed_by (if should then drop_other_defaults link k else done_with ()) (\<lambda>_.
               followed_by (if b = a then done_with k else put_authorized (Some k) b) (\<lambda>_.
               followed_by (follow_authorizations link) (\<lambda>_. done_with k))))))"

section \<open>The links of the default shipper\<close>

definition str_iequal :: "string \<Rightarrow> string \<Rightarrow> bool" where
  "str_iequal x y \<longleftrightarrow> str_lower x = str_lower y"

definition default_recipient_shipper_name :: string where
  "default_recipient_shipper_name = str_upper priority_shipper_name"

definition resolve_default_shipper :: "nat option steps" where
  "resolve_default_shipper w =
     (case sort_key fst (rows_where (\<lambda>_ x. contact_active (sp_organization x) (fst w)
          \<and> str_iequal (contact_name (Some (sp_organization x)) (fst w)) default_recipient_shipper_name) (pt_shippers (snd w))) of
        (_, x) # _ \<Rightarrow> followed_by (ensure_shipment_shipper (sp_organization x) Val_Validated) (\<lambda>k. done_with (Some k)) w
      | [] \<Rightarrow>
          (case sort_key (\<lambda>(k, c). (con_name c, k)) (rows_where (\<lambda>_ c. con_type c = Con_Organization \<and> con_is_active c
               \<and> str_iequal (con_name c) default_recipient_shipper_name) (db_contacts (fst w))) of
             [] \<Rightarrow> done_with None w
           | (o', _) # _ \<Rightarrow> followed_by (ensure_shipment_shipper o' Val_Validated) (\<lambda>k. done_with (Some k)) w))"

definition active_recipient_organizations :: "nat list option \<Rightarrow> parties \<Rightarrow> nat list" where
  "active_recipient_organizations destinations w =
     map fst (sort_key (\<lambda>(k, o'). (ro_destination o', contact_name (Some (ro_organization o')) (fst w), k))
       (rows_where (\<lambda>_ o'. validated_active_recipient_organization (fst w) o'
           \<and> (case destinations of None \<Rightarrow> True | Some ks \<Rightarrow> ro_destination o' \<in> set ks)) (pt_recipient_orgs (snd w))))"

definition default_recipient_contact :: "nat \<Rightarrow> parties \<Rightarrow> nat option" where
  "default_recipient_contact org w =
     (case sort_key fst (rows_where (\<lambda>_ c. rc_recipient_organization c = org \<and> rc_is_active c
          \<and> contact_active (rc_contact c) (fst w)) (pt_recipient_contacts (snd w))) of
        [] \<Rightarrow> None | (k, _) # _ \<Rightarrow> Some k)"

definition ensure_default_shipper_link :: "nat \<Rightarrow> nat \<Rightarrow> nat \<Rightarrow> nat steps" where
  "ensure_default_shipper_link shipper org created =
     reading (\<lambda>w. list_ex (\<lambda>(_, l). pl_shipper l = shipper \<and> pl_recipient_organization l = org) (pt_links (snd w))) (\<lambda>exists.
     followed_by (ensure_shipment_recipient_link shipper org) (\<lambda>link.
     reading (\<lambda>w. (default_recipient_contact org w, pt_authorized (snd w))) (\<lambda>(contact, authorized).
       let created' = (if exists then created else Suc created)
       in case contact of
            None \<Rightarrow> done_with created'
          | Some c \<Rightarrow>
              (let has_default = list_ex (\<lambda>(_, a). ac_link a = link \<and> ac_is_active a \<and> ac_is_default a) authorized;
                   is_default = list_ex (\<lambda>(_, a). ac_link a = link \<and> ac_recipient_contact a = c \<and> ac_is_default a) authorized
               in followed_by (ensure_authorized_recipient_contact link c True (\<not> has_default \<or> is_default))
                    (\<lambda>_. done_with created')))))"

definition ensure_default_shipper_links :: "nat \<Rightarrow> nat list \<Rightarrow> nat steps" where
  "ensure_default_shipper_links shipper orgs = each_step (ensure_default_shipper_link shipper) orgs 0"

definition links_of_default_shipper :: "(parties \<Rightarrow> nat list) \<Rightarrow> nat steps" where
  "links_of_default_shipper orgs =
     followed_by resolve_default_shipper (\<lambda>shipper.
       case shipper of None \<Rightarrow> done_with 0 | Some k \<Rightarrow> reading orgs (ensure_default_shipper_links k))"

definition ensure_default_shipper_links_for_destination_id :: "nat \<Rightarrow> nat steps" where
  "ensure_default_shipper_links_for_destination_id dest w =
     (if destination_active dest (fst w)
      then links_of_default_shipper (active_recipient_organizations (Some [dest])) w else done_with 0 w)"

definition ensure_default_shipper_links_for_recipient_organization_id :: "nat \<Rightarrow> nat steps" where
  "ensure_default_shipper_links_for_recipient_organization_id org w =
     (if org \<in> set (active_recipient_organizations None w)
      then links_of_default_shipper (\<lambda>_. [org]) w else done_with 0 w)"

section \<open>Correspondents as recipients\<close>

definition support_organization_name :: string where
  "support_organization_name = ''ASF - CORRESPONDANT''"

definition support_organization_notes_marker :: string where
  "support_organization_notes_marker = ''[system] correspondent recipient support organization''"

record promotion =
  pr_support_created :: bool
  pr_attached :: bool
  pr_created :: bool
  pr_reactivated :: bool

definition no_promotion :: promotion where
  "no_promotion = \<lparr>pr_support_created = False, pr_attached = False, pr_created = False, pr_reactivated = False\<rparr>"

definition promotion_changed :: "promotion \<Rightarrow> bool" where
  "promotion_changed r \<longleftrightarrow> pr_support_created r \<or> pr_attached r \<or> pr_created r \<or> pr_reactivated r"

definition existing_support_organization :: "db \<Rightarrow> (nat \<times> contact) option" where
  "existing_support_organization d =
     (case sort_key (\<lambda>(k, c). (if con_is_active c then 0 else 1::nat, k))
         (rows_where (\<lambda>_ c. str_iequal (con_name c) support_organization_name \<and> con_type c = Con_Organization) (db_contacts d)) of
        [] \<Rightarrow> None | x # _ \<Rightarrow> Some x)"

definition marked_notes :: "string \<Rightarrow> string" where
  "marked_notes notes =
     (if sublist support_organization_notes_marker (strip notes) then notes
      else if strip notes = [] then support_organization_notes_marker
      else strip (strip notes @ [CHR 10] @ support_organization_notes_marker))"

definition support_contact :: contact where
  "support_contact = \<lparr>con_type = Con_Organization, con_name = support_organization_name, con_title = [],
     con_first_name = [], con_last_name = [], con_organization = None, con_role = [], con_email = [], con_email2 = [],
     con_phone = [], con_phone2 = [], con_siret = [], con_vat_number = [], con_legal_registration_number = [],
     con_asf_id = None, con_use_organization_address = False, con_notes = support_organization_notes_marker,
     con_is_active = True\<rparr>"

definition get_or_create_support_organization :: "(nat \<times> bool) steps" where
  "get_or_create_support_organization =
     reading (\<lambda>w. existing_support_organization (fst w)) (\<lambda>found.
       case found of
         None \<Rightarrow> followed_by (add_contact support_contact) (\<lambda>k. done_with (k, True))
       | Some (k, _) \<Rightarrow> followed_by (change_contact k
             (\<lambda>c. c\<lparr>con_is_active := True, con_notes := marked_notes (con_notes c)\<rparr>)) (\<lambda>_. done_with (k, False)))"

datatype target_key = Target_Org nat | Target_Support string

definition correspondent_recipient_target_key :: "nat option \<Rightarrow> db \<Rightarrow> (target_key \<times> string) option" where
  "correspondent_recipient_target_key contact d =
     (case contact of None \<Rightarrow> None | Some k \<Rightarrow>
       (case row_get (db_contacts d) k of None \<Rightarrow> None | Some c \<Rightarrow>
         if \<not> con_is_active c then None
         else if con_type c = Con_Organization then Some (Target_Org k, con_name c)
         else
           (case (case con_organization c of None \<Rightarrow> None | Some o' \<Rightarrow> row_get (db_contacts d) o') of
              Some x \<Rightarrow> if con_type x = Con_Organization then Some (Target_Org (the (con_organization c)), con_name x)
                else (case existing_support_organization d of
                   Some (j, y) \<Rightarrow> Some (Target_Org j, con_name y)
                 | None \<Rightarrow> Some (Target_Support support_organization_name, support_organization_name))
            | None \<Rightarrow> (case existing_support_organization d of
                   Some (j, y) \<Rightarrow> Some (Target_Org j, con_name y)
                 | None \<Rightarrow> Some (Target_Support support_organization_name, support_organization_name)))))"

text \<open>The organization behind a correspondent, and whether it was created and the person attached to it.\<close>

definition own_organization :: "contact \<Rightarrow> db \<Rightarrow> (nat \<times> contact) option" where
  "own_organization c d =
     (case con_organization c of None \<Rightarrow> None | Some o' \<Rightarrow>
       (case row_get (db_contacts d) o' of
          None \<Rightarrow> None
        | Some x \<Rightarrow> if con_type x = Con_Organization then Some (o', x) else None))"

definition resolve_recipient_organization :: "nat \<Rightarrow> contact \<Rightarrow> (nat \<times> bool \<times> bool) steps" where
  "resolve_recipient_organization k c =
     (if con_type c = Con_Organization then done_with (k, False, False)
      else reading (\<lambda>w. own_organization c (fst w)) (\<lambda>own.
        case own of
          Some (o', x) \<Rightarrow>
            (if con_is_active x then done_with (o', False, False)
             else followed_by (change_contact o' (\<lambda>x. x\<lparr>con_is_active := True\<rparr>)) (\<lambda>_. done_with (o', False, False)))
        | None \<Rightarrow>
            followed_by get_or_create_support_organization (\<lambda>(o', created).
              if con_organization c \<noteq> Some o'
              then followed_by (change_contact k (\<lambda>c. c\<lparr>con_organization := Some o'\<rparr>)) (\<lambda>_. done_with (o', created, True))
              else done_with (o', created, False))))"

definition resolve_correspondent_recipient_organization :: "nat \<Rightarrow> (nat \<times> bool \<times> bool) option steps" where
  "resolve_correspondent_recipient_organization k =
     reading (\<lambda>w. row_get (db_contacts (fst w)) k) (\<lambda>found.
       case found of
         None \<Rightarrow> done_with None
       | Some c \<Rightarrow> if con_is_active c then followed_by (resolve_recipient_organization k c) (\<lambda>r. done_with (Some r))
                   else done_with None)"

definition get_shipment_correspondent_recipient_for_destination :: "nat \<Rightarrow> party_db \<Rightarrow> (nat \<times> recipient_org) option" where
  "get_shipment_correspondent_recipient_for_destination dest s =
     (case sort_key (\<lambda>(k, o'). (if ro_is_active o' then 0 else 1::nat, k))
         (rows_where (\<lambda>_ o'. ro_destination o' = dest \<and> ro_is_correspondent o') (pt_recipient_orgs s)) of
        [] \<Rightarrow> None | x # _ \<Rightarrow> Some x)"

definition destinations_of_correspondent :: "nat \<Rightarrow> db \<Rightarrow> nat list" where
  "destinations_of_correspondent k d =
     sort (map fst (rows_where (\<lambda>_ x. d_correspondent_contact x = k \<and> d_is_active x) (db_destinations d)))"

text \<open>
  The \<open>post_save\<close> signal of a recipient organization links it to the default shipper, once the
  transaction commits: at once when the save is its own transaction, later when it is part of a larger one,
  never when the synchronisation is suppressed.
\<close>

datatype hooks = Hooks_Off | Hooks_Deferred | Hooks_Immediate

definition store_recipient_org :: "hooks \<Rightarrow> nat option \<Rightarrow> recipient_org \<Rightarrow> nat steps" where
  "store_recipient_org hooks pk r =
     followed_by (put_recipient_org pk r) (\<lambda>k.
       if hooks = Hooks_Immediate \<and> ro_is_active r
       then followed_by (ensure_default_shipper_links_for_recipient_organization_id k) (\<lambda>_. done_with k)
       else done_with k)"

text \<open>One stopover of the correspondent: the recipient row of the organization is created, confirmed or moved.\<close>

definition promote_at :: "hooks \<Rightarrow> nat \<Rightarrow> nat \<Rightarrow> promotion \<Rightarrow> promotion steps" where
  "promote_at hooks org dest r =
     reading (\<lambda>w. rows_where (\<lambda>_ x. ro_organization x = org) (pt_recipient_orgs (snd w))) (\<lambda>found.
       case found of
         [] \<Rightarrow> followed_by (store_recipient_org hooks None \<lparr>ro_organization = org, ro_destination = dest,
                   ro_validation_status = Val_Validated, ro_is_correspondent = True, ro_is_active = True\<rparr>)
                 (\<lambda>_. done_with (r\<lparr>pr_created := True\<rparr>))
       | (k, x) # _ \<Rightarrow>
           if ro_destination x = dest \<or> \<not> ro_is_active x
           then (let y = x\<lparr>ro_destination := dest, ro_validation_status := Val_Validated,
                      ro_is_correspondent := True, ro_is_active := True\<rparr>;
                     r' = (if ro_is_active x then r else r\<lparr>pr_reactivated := True\<rparr>)
                 in if y = x then done_with r' else followed_by (store_recipient_org hooks (Some k) y) (\<lambda>_. done_with r'))
           else done_with r)"

definition promote_correspondent_to_recipient_ready :: "hooks \<Rightarrow> nat \<Rightarrow> promotion steps" where
  "promote_correspondent_to_recipient_ready hooks contact =
     reading (\<lambda>w. \<not> contact_active contact (fst w) \<or> destinations_of_correspondent contact (fst w) = []) (\<lambda>skip.
       if skip then done_with no_promotion
       else followed_by (resolve_correspondent_recipient_organization contact) (\<lambda>found.
         case found of
           None \<Rightarrow> done_with no_promotion
         | Some (org, created, attached) \<Rightarrow>
             reading (\<lambda>w. destinations_of_correspondent contact (fst w)) (\<lambda>dests.
               each_step (promote_at hooks org) dests
                 (no_promotion\<lparr>pr_support_created := created, pr_attached := attached\<rparr>))))"

definition ensure_destination_correspondent_recipient_ready :: "hooks \<Rightarrow> nat \<Rightarrow> promotion steps" where
  "ensure_destination_correspondent_recipient_ready hooks dest =
     reading (\<lambda>w. (row_get (db_destinations (fst w)) dest,
         get_shipment_correspondent_recipient_for_destination dest (snd w))) (\<lambda>(found, existing).
       case found of
         None \<Rightarrow> done_with no_promotion
       | Some x \<Rightarrow>
           if \<not> d_is_active x \<or> existing \<noteq> None then done_with no_promotion
           else followed_by (promote_correspondent_to_recipient_ready hooks (d_correspondent_contact x)) (\<lambda>r.
             reading (\<lambda>w. contact_active (d_correspondent_contact x) (fst w)) (\<lambda>active.
               if active \<and> hooks \<noteq> Hooks_Off
               then followed_by (ensure_default_shipper_links_for_destination_id dest) (\<lambda>_. done_with r)
               else done_with r)))"

record backfill_summary =
  bs_processed :: nat
  bs_changed :: nat
  bs_support_created :: nat
  bs_attached :: nat
  bs_recipients_created :: nat
  bs_reactivated :: nat

definition count_promotion :: "promotion \<Rightarrow> backfill_summary \<Rightarrow> backfill_summary" where
  "count_promotion r t =
     \<lparr>bs_processed = Suc (bs_processed t),
      bs_changed = bs_changed t + of_bool (promotion_changed r),
      bs_support_created = bs_support_created t + of_bool (pr_support_created r),
      bs_attached = bs_attached t + of_bool (pr_attached r),
      bs_recipients_created = bs_recipients_created t + of_bool (pr_created r),
      bs_reactivated = bs_reactivated t + of_bool (pr_reactivated r)\<rparr>"

definition correspondents_to_backfill :: "parties \<Rightarrow> nat list" where
  "correspondents_to_backfill w =
     sort (map fst (rows_where (\<lambda>k _. list_ex (\<lambda>(_, x). d_is_active x \<and> d_correspondent_contact x = k)
        (db_destinations (fst w))) (db_contacts (fst w))))"

definition backfill_correspondent_recipients_impl :: "hooks \<Rightarrow> backfill_summary steps" where
  "backfill_correspondent_recipients_impl hooks =
     reading correspondents_to_backfill (\<lambda>ks.
       each_step (\<lambda>k t. followed_by (promote_correspondent_to_recipient_ready hooks k) (\<lambda>r. done_with (count_promotion r t)))
         ks \<lparr>bs_processed = 0, bs_changed = 0, bs_support_created = 0, bs_attached = 0,
              bs_recipients_created = 0, bs_reactivated = 0\<rparr>)"

text \<open>A dry run is one transaction that is rolled back, and its hooks with it.\<close>

definition backfill_correspondent_recipients :: "hooks \<Rightarrow> bool \<Rightarrow> backfill_summary steps" where
  "backfill_correspondent_recipients hooks dry_run w =
     (if dry_run then (fst (backfill_correspondent_recipients_impl Hooks_Deferred w), w)
      else backfill_correspondent_recipients_impl hooks w)"

section \<open>The contact form\<close>

text \<open>
  \<open>update_or_create\<close> saves in either case, so the checks run on every submission. The form runs in
  one transaction: an exception leaves nothing behind, and its hooks wait for the commit.
\<close>

definition atomically :: "'a steps \<Rightarrow> 'a steps" where
  "atomically m w = (case m w of (Inl x, _) \<Rightarrow> (Inl x, w) | r \<Rightarrow> r)"

definition ensure_shipper_runtime :: "nat \<Rightarrow> nat \<Rightarrow> bool \<Rightarrow> bool \<Rightarrow> nat steps" where
  "ensure_shipper_runtime org referent can_send_to_all active =
     reading (\<lambda>w. rows_where (\<lambda>_ x. sp_organization x = org) (pt_shippers (snd w))) (\<lambda>found.
       case found of
         [] \<Rightarrow> put_shipper None \<lparr>sp_organization = org, sp_default_contact = Some referent,
                 sp_validation_status = Val_Validated, sp_can_send_to_all = can_send_to_all, sp_is_active = active\<rparr>
       | (k, x) # _ \<Rightarrow> put_shipper (Some k) (x\<lparr>sp_default_contact := Some referent, sp_validation_status := Val_Validated,
                 sp_can_send_to_all := can_send_to_all, sp_is_active := active\<rparr>))"

definition update_recipient_org :: "nat \<Rightarrow> nat \<Rightarrow> bool \<Rightarrow> bool \<Rightarrow> nat steps" where
  "update_recipient_org org dest is_correspondent active =
     reading (\<lambda>w. rows_where (\<lambda>_ x. ro_organization x = org) (pt_recipient_orgs (snd w))) (\<lambda>found.
       case found of
         [] \<Rightarrow> put_recipient_org None \<lparr>ro_organization = org, ro_destination = dest,
                 ro_validation_status = Val_Validated, ro_is_correspondent = is_correspondent, ro_is_active = active\<rparr>
       | (k, x) # _ \<Rightarrow> put_recipient_org (Some k) (x\<lparr>ro_destination := dest, ro_validation_status := Val_Validated,
                 ro_is_correspondent := is_correspondent, ro_is_active := active\<rparr>))"

definition update_recipient_contact :: "nat \<Rightarrow> nat \<Rightarrow> bool \<Rightarrow> nat steps" where
  "update_recipient_contact org contact active =
     reading (\<lambda>w. rows_where (\<lambda>_ x. rc_recipient_organization x = org \<and> rc_contact x = contact) (pt_recipient_contacts (snd w)))
       (\<lambda>found. case found of
         [] \<Rightarrow> put_recipient_contact None \<lparr>rc_recipient_organization = org, rc_contact = contact, rc_is_active = active\<rparr>
       | (k, x) # _ \<Rightarrow> put_recipient_contact (Some k) (x\<lparr>rc_is_active := active\<rparr>))"

definition hand_over_stopover :: "nat \<Rightarrow> nat \<Rightarrow> nat \<Rightarrow> unit steps" where
  "hand_over_stopover org dest referent w =
     (Inr (), ((fst w)\<lparr>db_destinations := row_upd dest (\<lambda>x. x\<lparr>d_correspondent_contact := referent\<rparr>) (db_destinations (fst w))\<rparr>,
       (snd w)\<lparr>pt_recipient_orgs := map (\<lambda>(k, x). (k, if k \<noteq> org \<and> ro_destination x = dest \<and> ro_is_correspondent x
            then x\<lparr>ro_is_correspondent := False\<rparr> else x)) (pt_recipient_orgs (snd w))\<rparr>))"

definition authorize_for_shipper :: "nat \<Rightarrow> nat \<Rightarrow> bool \<Rightarrow> nat \<Rightarrow> unit \<Rightarrow> unit steps" where
  "authorize_for_shipper org contact active shipper_org _ =
     followed_by (ensure_shipment_shipper shipper_org Val_Validated) (\<lambda>shipper.
     followed_by (ensure_shipment_recipient_link shipper org) (\<lambda>link.
     followed_by (ensure_authorized_recipient_contact link contact active True) (\<lambda>_. done_with ())))"

definition ensure_recipient_runtime :: "nat \<Rightarrow> nat \<Rightarrow> nat option \<Rightarrow> bool \<Rightarrow> nat list \<Rightarrow> bool \<Rightarrow> nat steps" where
  "ensure_recipient_runtime org referent dest active allowed is_correspondent =
     reading (\<lambda>w. case dest of None \<Rightarrow> None | Some k \<Rightarrow> if destination_active k (fst w) then Some k else None) (\<lambda>found.
       case found of
         None \<Rightarrow> (\<lambda>w. (Inl (Validation_Error ''La destination destinataire est obligatoire.''), w))
       | Some k \<Rightarrow>
           followed_by (update_recipient_org org k is_correspondent active) (\<lambda>recipient.
           followed_by (update_recipient_contact recipient referent active) (\<lambda>contact.
             if is_correspondent
             then followed_by (hand_over_stopover recipient k referent) (\<lambda>_. done_with recipient)
             else reading (\<lambda>w. active_contacts_for_ids allowed (fst w)) (\<lambda>shippers.
               followed_by (each_step (authorize_for_shipper recipient contact active) shippers ()) (\<lambda>_. done_with recipient)))))"

section \<open>The operations on the registry\<close>

datatype party_request =
    Set_Up_Shipper nat validation_status
  | Link_Recipient nat nat
  | Authorize_Contact nat nat bool bool
  | Default_Links_Of_Destination nat
  | Default_Links_Of_Recipient nat
  | Promote hooks nat
  | Ready_Destination hooks nat
  | Backfill hooks bool
  | Shipper_Form nat nat bool bool
  | Recipient_Form nat nat "nat option" bool "nat list" bool

definition no_result :: "'a steps \<Rightarrow> unit steps" where
  "no_result m = followed_by m (\<lambda>_. done_with ())"

fun run_party :: "party_request \<Rightarrow> unit steps" where
  "run_party (Set_Up_Shipper org status) = no_result (ensure_shipment_shipper org status)"
| "run_party (Link_Recipient shipper org) = no_result (ensure_shipment_recipient_link shipper org)"
| "run_party (Authorize_Contact link contact active set_as_default) =
     no_result (ensure_authorized_recipient_contact link contact active set_as_default)"
| "run_party (Default_Links_Of_Destination dest) = no_result (ensure_default_shipper_links_for_destination_id dest)"
| "run_party (Default_Links_Of_Recipient org) = no_result (ensure_default_shipper_links_for_recipient_organization_id org)"
| "run_party (Promote hooks contact) = no_result (promote_correspondent_to_recipient_ready hooks contact)"
| "run_party (Ready_Destination hooks dest) = no_result (ensure_destination_correspondent_recipient_ready hooks dest)"
| "run_party (Backfill hooks dry_run) = no_result (backfill_correspondent_recipients hooks dry_run)"
| "run_party (Shipper_Form org referent can_send_to_all active) =
     no_result (atomically (ensure_shipper_runtime org referent can_send_to_all active))"
| "run_party (Recipient_Form org referent dest active allowed is_correspondent) =
     no_result (atomically (ensure_recipient_runtime org referent dest active allowed is_correspondent))"

end
