(* ===== verification/Party_Facts.thy ===== *)
theory Party_Facts
  imports Party_Setup Samples
begin

text \<open>
  What the registry keeps: the invariant \<open>parties_ok\<close> of the five tables, the steps that keep it (collected
  in \<open>party_keeps\<close>), and what the offers, the contact form and the promotion come to under it.
\<close>

section \<open>The registry is consistent\<close>

definition typed :: "contact_type \<Rightarrow> nat \<Rightarrow> db \<Rightarrow> bool" where
  "typed t k d = (case row_get (db_contacts d) k of None \<Rightarrow> False | Some c \<Rightarrow> con_type c = t)"

definition all_rows :: "('r \<Rightarrow> bool) \<Rightarrow> 'r table \<Rightarrow> bool" where
  "all_rows P t \<longleftrightarrow> (\<forall>k x. row_get t k = Some x \<longrightarrow> P x)"

definition one_each :: "('r \<Rightarrow> 'a) \<Rightarrow> 'r table \<Rightarrow> bool" where
  "one_each f t \<longleftrightarrow> (\<forall>i j x y. row_get t i = Some x \<longrightarrow> row_get t j = Some y \<longrightarrow> f x = f y \<longrightarrow> i = j)"

definition shipper_fits :: "db \<Rightarrow> shipper \<Rightarrow> bool" where
  "shipper_fits d x \<longleftrightarrow> typed Con_Organization (sp_organization x) d
     \<and> (case sp_default_contact x of None \<Rightarrow> True
        | Some c \<Rightarrow> typed Con_Person c d \<and> organization_of c d = Some (sp_organization x))"

definition contact_fits :: "db \<Rightarrow> recipient_org table \<Rightarrow> recipient_contact \<Rightarrow> bool" where
  "contact_fits d orgs c \<longleftrightarrow> typed Con_Person (rc_contact c) d
     \<and> (case row_get orgs (rc_recipient_organization c) of None \<Rightarrow> False
        | Some o' \<Rightarrow> organization_of (rc_contact c) d = Some (ro_organization o'))"

definition authorized_fits :: "party_link table \<Rightarrow> recipient_contact table \<Rightarrow> authorized_contact \<Rightarrow> bool" where
  "authorized_fits links contacts a \<longleftrightarrow>
     (case (row_get links (ac_link a), row_get contacts (ac_recipient_contact a)) of
        (Some l, Some c) \<Rightarrow> rc_recipient_organization c = pl_recipient_organization l
      | _ \<Rightarrow> False)"

definition party_keys_ok :: "parties \<Rightarrow> bool" where
  "party_keys_ok w \<longleftrightarrow> keys_ok (db_contacts (fst w)) \<and> keys_ok (db_destinations (fst w)) \<and> keys_ok (pt_shippers (snd w))
     \<and> keys_ok (pt_recipient_orgs (snd w)) \<and> keys_ok (pt_recipient_contacts (snd w))
     \<and> keys_ok (pt_links (snd w)) \<and> keys_ok (pt_authorized (snd w))"

definition parties_ok :: "parties \<Rightarrow> bool" where
  "parties_ok w \<longleftrightarrow> party_keys_ok w
     \<and> all_rows (shipper_fits (fst w)) (pt_shippers (snd w)) \<and> one_each sp_organization (pt_shippers (snd w))
     \<and> all_rows (\<lambda>o'. typed Con_Organization (ro_organization o') (fst w)) (pt_recipient_orgs (snd w))
     \<and> one_each ro_organization (pt_recipient_orgs (snd w))
     \<and> all_rows (contact_fits (fst w) (pt_recipient_orgs (snd w))) (pt_recipient_contacts (snd w))
     \<and> all_rows (authorized_fits (pt_links (snd w)) (pt_recipient_contacts (snd w))) (pt_authorized (snd w))"

subsection \<open>Rows saved\<close>

lemma row_get_save:
  "row_get (save_row pk r t) j =
     (case pk of None \<Rightarrow> if j = next_pk t then Some r else row_get t j
      | Some k \<Rightarrow> if j = k then map_option (\<lambda>_. r) (row_get t j) else row_get t j)"
  by (auto simp: save_row_def row_get_upd row_get_ins split: option.split)

lemma keys_ok_save [wms_inv]: "keys_ok t \<Longrightarrow> keys_ok (save_row pk r t)"
  by (auto simp: save_row_def intro: keys_ok_upd keys_ok_ins split: option.split)

lemma all_rows_save: "all_rows P t \<Longrightarrow> P r \<Longrightarrow> all_rows P (save_row pk r t)"
  by (auto simp: all_rows_def row_get_save split: option.splits if_splits)

lemma all_rows_mono: "all_rows P t \<Longrightarrow> (\<And>k x. row_get t k = Some x \<Longrightarrow> P x \<Longrightarrow> Q x) \<Longrightarrow> all_rows Q t"
  by (auto simp: all_rows_def)

lemma one_each_save:
  assumes "one_each f t" and "\<not> clashes (\<lambda>r x. f x = f r) pk r t"
  shows "one_each f (save_row pk r t)"
proof -
  have "f x \<noteq> f r" if "row_get t j = Some x" and "pk \<noteq> Some j" for j x
    using assms(2) row_get_mem [OF that(1)] that(2) by (auto simp: clashes_def list_ex_iff)
  then show ?thesis using assms(1) unfolding one_each_def row_get_save
    by (auto split: option.splits if_splits; metis)
qed

text \<open>A table that keeps its rows, and in them a column.\<close>

definition grows :: "('r \<Rightarrow> 'a) \<Rightarrow> 'r table \<Rightarrow> 'r table \<Rightarrow> bool" where
  "grows f t t' \<longleftrightarrow> (\<forall>j x. row_get t j = Some x \<longrightarrow> (\<exists>y. row_get t' j = Some y \<and> f y = f x))"

lemma grows_save: "(\<And>k x. pk = Some k \<Longrightarrow> row_get t k = Some x \<Longrightarrow> f r = f x) \<Longrightarrow> grows f t (save_row pk r t)"
  using row_get_fresh [of t] by (auto simp: grows_def row_get_save split: option.splits)

lemma grows_refl: "grows f t t"
  by (simp add: grows_def)

lemma grows_map: "(\<And>i x. f (g i x) = f x) \<Longrightarrow> grows f t (map (\<lambda>(i, x). (i, g i x)) t)"
  by (simp add: grows_def row_get_map)

lemma contact_fits_grows: "contact_fits d t c \<Longrightarrow> grows ro_organization t t' \<Longrightarrow> contact_fits d t' c"
  by (fastforce simp: contact_fits_def grows_def split: option.splits)

lemma authorized_fits_grows:
  assumes "authorized_fits l c a" and "grows pl_recipient_organization l l'" and "grows rc_recipient_organization c c'"
  shows "authorized_fits l' c' a"
proof -
  from assms(1) obtain x y where "row_get l (ac_link a) = Some x" "row_get c (ac_recipient_contact a) = Some y"
    "rc_recipient_organization y = pl_recipient_organization x" by (auto simp: authorized_fits_def split: option.splits)
  moreover from calculation assms(2,3) obtain x' y' where "row_get l' (ac_link a) = Some x'" "pl_recipient_organization x' = pl_recipient_organization x"
    "row_get c' (ac_recipient_contact a) = Some y'" "rc_recipient_organization y' = rc_recipient_organization y"
    unfolding grows_def by meson
  ultimately show ?thesis by (simp add: authorized_fits_def)
qed

lemma contact_is_typed: "contact_is t k d \<Longrightarrow> typed t k d"
  by (auto simp: contact_is_def typed_def split: option.splits)

subsection \<open>Contacts that change\<close>

text \<open>What a change of the contacts must keep: the types, and the organization of every person that has one.\<close>

definition steady :: "db \<Rightarrow> db \<Rightarrow> bool" where
  "steady d d' \<longleftrightarrow> (\<forall>t k. typed t k d \<longrightarrow> typed t k d')
     \<and> (\<forall>k o'. organization_of k d = Some o' \<longrightarrow> typed Con_Organization o' d \<longrightarrow> organization_of k d' = Some o')"

lemma parties_ok_steady:
  assumes "parties_ok (d, s)" and "steady d d'" and "keys_ok (db_contacts d')" and "keys_ok (db_destinations d')"
  shows "parties_ok (d', s)"
proof -
  have "shipper_fits d' x" if "shipper_fits d x" for x
    using that assms(2) by (auto simp: shipper_fits_def steady_def split: option.splits)
  moreover have "contact_fits d' (pt_recipient_orgs s) c" if "contact_fits d (pt_recipient_orgs s) c" for c
  proof -
    from that obtain o' where o': "row_get (pt_recipient_orgs s) (rc_recipient_organization c) = Some o'"
      "organization_of (rc_contact c) d = Some (ro_organization o')" "typed Con_Person (rc_contact c) d"
      by (auto simp: contact_fits_def split: option.splits)
    then have "typed Con_Organization (ro_organization o') d"
      using assms(1) by (auto simp: parties_ok_def all_rows_def)
    with o' assms(2) show ?thesis by (auto simp: contact_fits_def steady_def)
  qed
  ultimately show ?thesis
    using assms by (auto simp: parties_ok_def party_keys_ok_def steady_def elim: all_rows_mono)
qed

lemma steady_add: "steady d (d\<lparr>db_contacts := row_ins c (db_contacts d)\<rparr>)"
  using row_get_fresh [of "db_contacts d"]
  by (auto simp: steady_def typed_def organization_of_def row_get_ins split: option.splits if_splits)

lemma steady_change:
  assumes "\<And>c. con_type (f c) = con_type c"
    and "\<And>c. row_get (db_contacts d) k = Some c \<Longrightarrow> con_organization (f c) = con_organization c \<or> own_organization c d = None"
  shows "steady d (d\<lparr>db_contacts := row_upd k f (db_contacts d)\<rparr>)"
proof -
  have "con_organization (f c) = Some o'"
    if "row_get (db_contacts d) k = Some c" "con_organization c = Some o'" "typed Con_Organization o' d" for c o'
    using assms(2) [OF that(1)] that by (auto simp: own_organization_def typed_def split: option.splits)
  then show ?thesis using assms(1)
    by (auto simp: steady_def typed_def organization_of_def row_get_upd split: option.splits)
qed

lemma steady_destinations: "steady d (d\<lparr>db_destinations := x\<rparr>)"
  by (simp add: steady_def typed_def organization_of_def)

subsection \<open>Steps that keep the registry consistent\<close>

definition keeps :: "'a steps \<Rightarrow> bool" where
  "keeps m \<longleftrightarrow> (\<forall>w. parties_ok w \<longrightarrow> parties_ok (snd (m w)))"

lemma keepsI: "(\<And>w. parties_ok w \<Longrightarrow> parties_ok (snd (m w))) \<Longrightarrow> keeps m"
  unfolding keeps_def by blast

lemma keepsD: "keeps m \<Longrightarrow> parties_ok w \<Longrightarrow> parties_ok (snd (m w))"
  unfolding keeps_def by blast

named_theorems party_keeps

lemma keeps_done [party_keeps]: "keeps (done_with x)"
  by (simp add: keeps_def done_with_def)

lemma keeps_followed [party_keeps]: "keeps m \<Longrightarrow> (\<And>x. keeps (f x)) \<Longrightarrow> keeps (followed_by m f)"
  by (fastforce simp: keeps_def followed_by_def split: prod.split sum.split)

lemma keeps_each [party_keeps]: "(\<And>x a. keeps (f x a)) \<Longrightarrow> keeps (each_step f xs a)"
  by (induction xs arbitrary: a) (auto intro: party_keeps)

lemma keeps_reading: "(\<And>w. parties_ok w \<Longrightarrow> parties_ok (snd (f (q w) w))) \<Longrightarrow> keeps (reading q f)"
  by (simp add: keeps_def reading_def)

lemma keeps_reading_any [party_keeps]: "(\<And>x. keeps (f x)) \<Longrightarrow> keeps (reading q f)"
  by (simp add: keeps_def reading_def)

lemma keeps_atomically [party_keeps]: "keeps m \<Longrightarrow> keeps (atomically m)"
  by (fastforce simp: keeps_def atomically_def split: prod.split sum.split)

lemma keeps_no_result [party_keeps]: "keeps m \<Longrightarrow> keeps (no_result m)"
  by (simp add: no_result_def party_keeps)

lemma keeps_if [party_keeps]: "(b \<Longrightarrow> keeps m) \<Longrightarrow> (\<not> b \<Longrightarrow> keeps n) \<Longrightarrow> keeps (if b then m else n)"
  by simp

subsection \<open>The saves\<close>

lemma keeps_put_shipper [party_keeps]: "keeps (put_shipper pk r)"
proof (rule keepsI)
  fix w assume ok: "parties_ok w"
  show "parties_ok (snd (put_shipper pk r w))"
  proof (cases "save_shipper pk r (fst w) (snd w)")
    case (Inr s)
    then have c: "clean_shipper r (fst w)" and u: "\<not> clashes (\<lambda>r x. sp_organization x = sp_organization r) pk r (pt_shippers (snd w))"
      and s: "s = (snd w)\<lparr>pt_shippers := save_row pk r (pt_shippers (snd w))\<rparr>"
      by (auto simp: save_shipper_def wms_ok)
    have "shipper_fits (fst w) r"
      using c contact_is_typed by (auto simp: clean_shipper_def shipper_fits_def split: option.splits)
    then show ?thesis
      using ok Inr s one_each_save [OF _ u] by (auto simp: put_shipper_def saving_def parties_ok_def party_keys_ok_def all_rows_save keys_ok_save)
  qed (use ok in \<open>simp add: put_shipper_def saving_def\<close>)
qed

lemma keeps_put_authorized [party_keeps]: "keeps (put_authorized pk r)"
proof (rule keepsI)
  fix w assume ok: "parties_ok w"
  show "parties_ok (snd (put_authorized pk r w))"
  proof (cases "save_authorized pk r (snd w)")
    case (Inr s)
    then have c: "clean_authorized r (snd w)"
      and s: "s = (snd w)\<lparr>pt_authorized := save_row pk r (pt_authorized (snd w))\<rparr>"
      by (auto simp: save_authorized_def wms_ok)
    have "authorized_fits (pt_links (snd w)) (pt_recipient_contacts (snd w)) r"
      using c by (auto simp: clean_authorized_def authorized_fits_def split: option.splits)
    then show ?thesis
      using ok Inr s by (auto simp: put_authorized_def saving_def parties_ok_def party_keys_ok_def all_rows_save keys_ok_save)
  qed (use ok in \<open>simp add: put_authorized_def saving_def\<close>)
qed

text \<open>The rows other rows hang on keep their organization.\<close>

lemma put_recipient_org_ok:
  assumes ok: "parties_ok w"
    and same: "\<And>k x. pk = Some k \<Longrightarrow> row_get (pt_recipient_orgs (snd w)) k = Some x \<Longrightarrow> ro_organization r = ro_organization x"
  shows "parties_ok (snd (put_recipient_org pk r w))"
proof (cases "save_recipient_org pk r (fst w) (snd w)")
  case (Inr s)
  let ?t = "pt_recipient_orgs (snd w)"
  from Inr have c: "clean_recipient_org r (fst w)" and u: "\<not> clashes (\<lambda>r x. ro_organization x = ro_organization r) pk r ?t"
    and s: "s = (snd w)\<lparr>pt_recipient_orgs := save_row pk r ?t\<rparr>"
    by (auto simp: save_recipient_org_def wms_ok)
  have t: "typed Con_Organization (ro_organization r) (fst w)"
    using c contact_is_typed by (auto simp: clean_recipient_org_def)
  have g: "grows ro_organization ?t (save_row pk r ?t)" using same by (rule grows_save)
  show ?thesis
    using ok Inr s one_each_save [OF _ u] t contact_fits_grows [OF _ g]
    by (auto simp: put_recipient_org_def saving_def parties_ok_def party_keys_ok_def all_rows_save keys_ok_save elim: all_rows_mono)
qed (use ok in \<open>simp add: put_recipient_org_def saving_def\<close>)

lemma put_recipient_contact_ok:
  assumes ok: "parties_ok w"
    and same: "\<And>k x. pk = Some k \<Longrightarrow> row_get (pt_recipient_contacts (snd w)) k = Some x
      \<Longrightarrow> rc_recipient_organization r = rc_recipient_organization x"
  shows "parties_ok (snd (put_recipient_contact pk r w))"
proof (cases "save_recipient_contact pk r (fst w) (snd w)")
  case (Inr s)
  let ?t = "pt_recipient_contacts (snd w)"
  from Inr have c: "clean_recipient_contact r (fst w) (snd w)" and s: "s = (snd w)\<lparr>pt_recipient_contacts := save_row pk r ?t\<rparr>"
    by (auto simp: save_recipient_contact_def wms_ok)
  have f: "contact_fits (fst w) (pt_recipient_orgs (snd w)) r"
    using c contact_is_typed by (auto simp: clean_recipient_contact_def contact_fits_def split: option.splits)
  have g: "grows rc_recipient_organization ?t (save_row pk r ?t)" using same by (rule grows_save)
  show ?thesis
    using ok Inr s f authorized_fits_grows [OF _ grows_refl g]
    by (auto simp: put_recipient_contact_def saving_def parties_ok_def party_keys_ok_def all_rows_save keys_ok_save elim: all_rows_mono)
qed (use ok in \<open>simp add: put_recipient_contact_def saving_def\<close>)

lemma put_link_ok:
  assumes ok: "parties_ok w"
    and same: "\<And>k x. pk = Some k \<Longrightarrow> row_get (pt_links (snd w)) k = Some x \<Longrightarrow> pl_recipient_organization r = pl_recipient_organization x"
  shows "parties_ok (snd (put_link pk r w))"
proof (cases "save_link pk r (snd w)")
  case (Inr s)
  let ?t = "pt_links (snd w)"
  from Inr have s: "s = (snd w)\<lparr>pt_links := save_row pk r ?t\<rparr>" by (auto simp: save_link_def wms_ok)
  have g: "grows pl_recipient_organization ?t (save_row pk r ?t)" using same by (rule grows_save)
  show ?thesis
    using ok Inr s authorized_fits_grows [OF _ g grows_refl]
    by (auto simp: put_link_def saving_def parties_ok_def party_keys_ok_def all_rows_save keys_ok_save elim: all_rows_mono)
qed (use ok in \<open>simp add: put_link_def saving_def\<close>)

subsection \<open>The operations\<close>

lemma first_row: "rows_where P t = (k, x) # xs \<Longrightarrow> keys_ok t \<Longrightarrow> row_get t k = Some x \<and> P k x"
  using rows_where_mem [of k x P t] by (auto simp: row_get_iff)

lemma keeps_add_contact [party_keeps]: "keeps (add_contact c)"
proof (rule keepsI)
  fix w assume ok: "parties_ok w"
  then show "parties_ok (snd (add_contact c w))"
    using parties_ok_steady [OF _ steady_add, of "fst w" "snd w" c]
    by (auto simp: add_contact_def parties_ok_def party_keys_ok_def keys_ok_ins)
qed

lemma change_contact_ok:
  assumes "parties_ok w" and "\<And>c. con_type (f c) = con_type c"
    and "\<And>c. row_get (db_contacts (fst w)) k = Some c \<Longrightarrow> con_organization (f c) = con_organization c \<or> own_organization c (fst w) = None"
  shows "parties_ok (snd (change_contact k f w))"
proof -
  have "keys_ok (db_contacts (fst w))" and "keys_ok (db_destinations (fst w))"
    using assms(1) by (auto simp: parties_ok_def party_keys_ok_def)
  then show ?thesis
    using parties_ok_steady [OF _ steady_change [of f "fst w" k, OF assms(2,3)], of "snd w"] assms(1)
    by (simp add: change_contact_def keys_ok_upd)
qed

lemma keeps_default_contact [party_keeps]: "keeps (ensure_shipment_shipper_default_contact org)"
  unfolding ensure_shipment_shipper_default_contact_def
  by (rule keepsI) (auto simp: Let_def split: list.split option.split intro: keepsD [OF keeps_done] keepsD [OF keeps_add_contact])

lemma keeps_ensure_shipper [party_keeps]: "keeps (ensure_shipment_shipper org status)"
  unfolding ensure_shipment_shipper_def
  by (intro party_keeps) (auto simp: Let_def split: list.split prod.split intro: party_keeps)

lemma keeps_ensure_link [party_keeps]: "keeps (ensure_shipment_recipient_link shipper org)"
  unfolding ensure_shipment_recipient_link_def
proof (rule keeps_reading)
  fix w assume ok: "parties_ok w"
  then have "keys_ok (pt_links (snd w))" by (simp add: parties_ok_def party_keys_ok_def)
  then show "parties_ok (snd ((case rows_where (\<lambda>_ l. pl_shipper l = shipper \<and> pl_recipient_organization l = org) (pt_links (snd w)) of
      [] \<Rightarrow> put_link None \<lparr>pl_shipper = shipper, pl_recipient_organization = org, pl_is_active = True\<rparr>
    | (k, l) # _ \<Rightarrow> if pl_is_active l then done_with k else put_link (Some k) (l\<lparr>pl_is_active := True\<rparr>)) w))"
    using ok first_row [of _ "pt_links (snd w)"]
    by (auto split: list.split intro!: put_link_ok keepsD [OF keeps_done])
qed

lemma authorized_fits_default [simp]: "authorized_fits l c (a\<lparr>ac_is_default := b\<rparr>) = authorized_fits l c a"
  by (simp add: authorized_fits_def split: option.split)

lemma keeps_drop_defaults [party_keeps]: "keeps (drop_other_defaults link k)"
proof (rule keepsI)
  fix w assume ok: "parties_ok w"
  let ?g = "\<lambda>i a. if i \<noteq> k \<and> ac_link a = link \<and> ac_is_default a then a\<lparr>ac_is_default := False\<rparr> else a"
  have "keys_ok (map (\<lambda>(i, a). (i, ?g i a)) (pt_authorized (snd w)))"
    using ok by (simp add: parties_ok_def party_keys_ok_def keys_ok_def comp_def case_prod_beta)
  moreover have "all_rows (authorized_fits l c) (map (\<lambda>(i, a). (i, ?g i a)) t)" if "all_rows (authorized_fits l c) t" for l c t
    using that unfolding all_rows_def row_get_map by auto
  ultimately show "parties_ok (snd (drop_other_defaults link k w))"
    using ok by (simp add: drop_other_defaults_def parties_ok_def party_keys_ok_def)
qed

lemma keeps_follow [party_keeps]: "keeps (follow_authorizations link)"
  unfolding follow_authorizations_def
proof (rule keeps_reading)
  fix w assume ok: "parties_ok w"
  show "parties_ok (snd ((case (row_get (pt_links (snd w)) link, link_has_active link (snd w)) of (l, active) \<Rightarrow>
      case l of None \<Rightarrow> done_with () | Some l \<Rightarrow> if active = pl_is_active l then done_with ()
        else followed_by (put_link (Some link) (l\<lparr>pl_is_active := active\<rparr>)) (\<lambda>_. done_with ())) w))"
  proof (cases "row_get (pt_links (snd w)) link")
    case (Some l)
    have "parties_ok (snd (put_link (Some link) (l\<lparr>pl_is_active := a\<rparr>) w))" for a
      using ok Some by (auto intro: put_link_ok)
    then have "parties_ok (snd (followed_by (put_link (Some link) (l\<lparr>pl_is_active := a\<rparr>)) (\<lambda>_. done_with ()) w))" for a
      unfolding followed_by_def done_with_def by (auto split: prod.split sum.split simp del: split_paired_All) (metis snd_conv)+
    then show ?thesis using Some ok by (simp add: done_with_def)
  qed (use ok in \<open>simp add: done_with_def\<close>)
qed

lemma keeps_authorize [party_keeps]: "keeps (ensure_authorized_recipient_contact link contact active set_as_default)"
proof -
  have "keeps (get_or_create_authorized link contact active)"
    unfolding get_or_create_authorized_def by (intro party_keeps) (auto split: list.split intro: party_keeps)
  then show ?thesis unfolding ensure_authorized_recipient_contact_def Let_def
    by (intro party_keeps) (auto simp: split_beta split: option.split intro!: party_keeps)
qed

text \<open>A step from a consistent state, followed by steps that keep it.\<close>

lemma followed_ok: "parties_ok (snd (m w)) \<Longrightarrow> (\<And>x. keeps (f x)) \<Longrightarrow> parties_ok (snd (followed_by m f w))"
  unfolding followed_by_def by (cases "m w") (auto split: sum.split intro: keepsD)

lemma keeps_default_shipper [party_keeps]: "keeps resolve_default_shipper"
proof (rule keepsI)
  fix w assume ok: "parties_ok w"
  have "parties_ok (snd (followed_by (ensure_shipment_shipper k Val_Validated) (\<lambda>k. done_with (Some k)) w))" for k
    using ok by (intro followed_ok keepsD [OF keeps_ensure_shipper] party_keeps)
  then show "parties_ok (snd (resolve_default_shipper w))"
    using ok by (auto simp: resolve_default_shipper_def done_with_def split: list.split)
qed

lemma keeps_default_link [party_keeps]: "keeps (ensure_default_shipper_link shipper org created)"
  unfolding ensure_default_shipper_link_def Let_def
  by (intro party_keeps) (auto simp: split_beta split: option.split intro!: party_keeps)

lemma keeps_links_of_default [party_keeps]: "keeps (links_of_default_shipper orgs)"
  unfolding links_of_default_shipper_def ensure_default_shipper_links_def
  by (intro party_keeps) (auto split: option.split intro!: party_keeps)

lemma keeps_default_links [party_keeps]:
  "keeps (ensure_default_shipper_links_for_destination_id dest)"
  "keeps (ensure_default_shipper_links_for_recipient_organization_id org)"
  by (auto intro!: keepsI simp: ensure_default_shipper_links_for_destination_id_def done_with_def
      ensure_default_shipper_links_for_recipient_organization_id_def intro: keepsD [OF keeps_links_of_default])

lemma store_recipient_org_ok:
  assumes "parties_ok (snd (put_recipient_org pk r w))"
  shows "parties_ok (snd (store_recipient_org hooks pk r w))"
  unfolding store_recipient_org_def using assms by (rule followed_ok) (auto intro!: party_keeps)

lemma keeps_change_active: "keeps (change_contact k (\<lambda>c. c\<lparr>con_is_active := True, con_notes := f c\<rparr>))"
  by (rule keepsI, rule change_contact_ok) auto

lemma keeps_support_organization [party_keeps]: "keeps get_or_create_support_organization"
  unfolding get_or_create_support_organization_def
  by (intro party_keeps) (auto split: option.split prod.split intro!: party_keeps keeps_change_active)

text \<open>Finding the support organization leaves a person without an organization as it was.\<close>

lemma own_organization_support:
  assumes "get_or_create_support_organization w = (Inr (o', created), w')" and "own_organization c (fst w) = None"
    and "con_organization c \<noteq> Some o'"
  shows "own_organization c (fst w') = None"
proof (cases "existing_support_organization (fst w)")
  case None
  then have w': "fst w' = (fst w)\<lparr>db_contacts := row_ins support_contact (db_contacts (fst w))\<rparr>" and o': "o' = next_pk (db_contacts (fst w))"
    using assms(1) by (auto simp: get_or_create_support_organization_def reading_def followed_by_def add_contact_def done_with_def)
  show ?thesis using assms(2,3) unfolding w' o' own_organization_def
    by (auto simp: row_get_ins split: option.splits)
next
  case (Some x)
  then obtain j y where "existing_support_organization (fst w) = Some (j, y)" by (cases x) auto
  then have w': "fst w' = (fst w)\<lparr>db_contacts := row_upd j (\<lambda>c. c\<lparr>con_is_active := True, con_notes := marked_notes (con_notes c)\<rparr>)
      (db_contacts (fst w))\<rparr>"
    using assms(1) by (auto simp: get_or_create_support_organization_def reading_def followed_by_def change_contact_def done_with_def)
  show ?thesis using assms(2) unfolding w' own_organization_def
    by (auto simp: row_get_upd split: option.splits if_splits)
qed

lemma support_keeps_row:
  assumes "get_or_create_support_organization w = (r, w')" and "row_get (db_contacts (fst w)) k = Some c"
    and "row_get (db_contacts (fst w')) k = Some c'"
  shows "con_organization c' = con_organization c"
  using assms
  by (auto simp: get_or_create_support_organization_def reading_def followed_by_def add_contact_def change_contact_def done_with_def
      row_get_ins row_get_upd row_get_fresh split: option.splits if_splits)

lemma own_organization_cong: "con_organization c = con_organization c' \<Longrightarrow> own_organization c d = own_organization c' d"
  by (simp add: own_organization_def)

lemma resolve_recipient_organization_ok:
  assumes ok: "parties_ok w" and row: "row_get (db_contacts (fst w)) k = Some c"
  shows "parties_ok (snd (resolve_recipient_organization k c w))"
proof -
  have active: "keeps (change_contact o' (\<lambda>x. x\<lparr>con_is_active := True\<rparr>))" for o'
    by (rule keepsI, rule change_contact_ok) auto
  have attach: "parties_ok (snd (change_contact k (\<lambda>c. c\<lparr>con_organization := Some o'\<rparr>) w'))"
    if "get_or_create_support_organization w = (Inr (o', created), w')" "own_organization c (fst w) = None"
      "con_organization c \<noteq> Some o'" for o' created w'
  proof (rule change_contact_ok)
    show "parties_ok w'" using keepsD [OF keeps_support_organization ok] that(1) by simp
    fix c' assume c': "row_get (db_contacts (fst w')) k = Some c'"
    have "own_organization c' (fst w') = own_organization c (fst w')"
      by (rule own_organization_cong) (rule support_keeps_row [OF that(1) row c'])
    then show "con_organization (c'\<lparr>con_organization := Some o'\<rparr>) = con_organization c' \<or> own_organization c' (fst w') = None"
      using own_organization_support [OF that] by simp
  qed simp
  show ?thesis
  proof (cases "con_type c = Con_Organization")
    case False
    show ?thesis
    proof (cases "own_organization c (fst w)")
      case None
      obtain r w' where g: "get_or_create_support_organization w = (r, w')" by (meson surj_pair)
      show ?thesis
      proof (cases r)
        case (Inl x)
        then show ?thesis using g keepsD [OF keeps_support_organization ok] False None
          by (simp add: resolve_recipient_organization_def reading_def followed_by_def)
      next
        case (Inr p)
        then obtain o' created where p: "r = Inr (o', created)" by (cases p) auto
        let ?f = "\<lambda>(o', created). if con_organization c \<noteq> Some o'
            then followed_by (change_contact k (\<lambda>c. c\<lparr>con_organization := Some o'\<rparr>)) (\<lambda>_. done_with (o', created, True))
            else done_with (o', created, False)"
        have "resolve_recipient_organization k c w = ?f (o', created) w'"
          using g p False None by (simp add: resolve_recipient_organization_def reading_def followed_by_def)
        moreover have "parties_ok (snd (?f (o', created) w'))"
        proof (cases "con_organization c = Some o'")
          case True
          then show ?thesis using keepsD [OF keeps_support_organization ok] g by (simp add: done_with_def)
        next
          case False
          then have "parties_ok (snd (followed_by (change_contact k (\<lambda>c. c\<lparr>con_organization := Some o'\<rparr>)) (\<lambda>_. done_with (o', created, True)) w'))"
            using g p None by (intro followed_ok attach [of o' created w'] keeps_done) auto
          then show ?thesis using False by simp
        qed
        ultimately show ?thesis by simp
      qed
    next
      case (Some p)
      then obtain o' x where own: "own_organization c (fst w) = Some (o', x)" by (cases p) auto
      have "parties_ok (snd (followed_by (change_contact o' (\<lambda>x. x\<lparr>con_is_active := True\<rparr>)) (\<lambda>_. done_with (o', False, False)) w))"
        using active ok by (intro followed_ok keepsD [OF active] party_keeps)
      then show ?thesis using own False ok by (simp add: resolve_recipient_organization_def reading_def done_with_def)
    qed
  qed (use ok in \<open>simp add: resolve_recipient_organization_def done_with_def\<close>)
qed

lemma keeps_resolve_correspondent [party_keeps]: "keeps (resolve_correspondent_recipient_organization k)"
  unfolding resolve_correspondent_recipient_organization_def
proof (rule keeps_reading)
  fix w assume ok: "parties_ok w"
  have "parties_ok (snd (followed_by (resolve_recipient_organization k c) (\<lambda>r. done_with (Some r)) w))"
    if "row_get (db_contacts (fst w)) k = Some c" for c
    using resolve_recipient_organization_ok [OF ok that] by (rule followed_ok) (rule keeps_done)
  then show "parties_ok (snd ((case row_get (db_contacts (fst w)) k of None \<Rightarrow> done_with None
      | Some c \<Rightarrow> if con_is_active c then followed_by (resolve_recipient_organization k c) (\<lambda>r. done_with (Some r)) else done_with None) w))"
    using ok by (auto simp: done_with_def split: option.split)
qed

lemma keeps_promote_at [party_keeps]: "keeps (promote_at hooks org dest r)"
  unfolding promote_at_def
proof (rule keeps_reading)
  fix w assume ok: "parties_ok w"
  then have keys: "keys_ok (pt_recipient_orgs (snd w))" by (simp add: parties_ok_def party_keys_ok_def)
  have new: "parties_ok (snd (followed_by (store_recipient_org hooks None y) (\<lambda>_. done_with r') w))" for y r'
    by (intro followed_ok store_recipient_org_ok put_recipient_org_ok ok party_keeps) simp
  have old: "parties_ok (snd (followed_by (store_recipient_org hooks (Some k) y) (\<lambda>_. done_with r') w))"
    if "rows_where (\<lambda>_ x. ro_organization x = org) (pt_recipient_orgs (snd w)) = (k, x) # xs" "ro_organization y = ro_organization x" for k x xs y r'
    using first_row [OF that(1) keys] that(2) by (intro followed_ok store_recipient_org_ok put_recipient_org_ok ok party_keeps) auto
  show "parties_ok (snd ((case rows_where (\<lambda>_ x. ro_organization x = org) (pt_recipient_orgs (snd w)) of
      [] \<Rightarrow> followed_by (store_recipient_org hooks None \<lparr>ro_organization = org, ro_destination = dest,
                   ro_validation_status = Val_Validated, ro_is_correspondent = True, ro_is_active = True\<rparr>)
                 (\<lambda>_. done_with (r\<lparr>pr_created := True\<rparr>))
    | (k, x) # _ \<Rightarrow>
           if ro_destination x = dest \<or> \<not> ro_is_active x
           then (let y = x\<lparr>ro_destination := dest, ro_validation_status := Val_Validated,
                      ro_is_correspondent := True, ro_is_active := True\<rparr>;
                     r' = (if ro_is_active x then r else r\<lparr>pr_reactivated := True\<rparr>)
                 in if y = x then done_with r' else followed_by (store_recipient_org hooks (Some k) y) (\<lambda>_. done_with r'))
           else done_with r) w))"
    using ok by (auto simp: Let_def done_with_def split: list.split intro!: new) (auto intro!: old)
qed

lemma keeps_promote [party_keeps]: "keeps (promote_correspondent_to_recipient_ready hooks contact)"
  unfolding promote_correspondent_to_recipient_ready_def
  by (intro party_keeps) (auto split: option.split intro!: party_keeps)

lemma keeps_ready [party_keeps]: "keeps (ensure_destination_correspondent_recipient_ready hooks dest)"
  unfolding ensure_destination_correspondent_recipient_ready_def
  by (intro party_keeps) (auto simp: split_beta split: option.split intro!: party_keeps)

lemma keeps_backfill_impl: "keeps (backfill_correspondent_recipients_impl hooks)"
  unfolding backfill_correspondent_recipients_impl_def by (intro party_keeps)

lemma keeps_backfill [party_keeps]: "keeps (backfill_correspondent_recipients hooks dry_run)"
  by (rule keepsI) (auto simp: backfill_correspondent_recipients_def intro: keepsD [OF keeps_backfill_impl])

lemma keeps_shipper_form [party_keeps]: "keeps (ensure_shipper_runtime org referent can_send active)"
  unfolding ensure_shipper_runtime_def by (intro party_keeps) (auto split: list.split intro!: party_keeps)

lemma keeps_update_org [party_keeps]: "keeps (update_recipient_org org dest is_correspondent active)"
  unfolding update_recipient_org_def
proof (rule keeps_reading)
  fix w assume ok: "parties_ok w"
  then have "keys_ok (pt_recipient_orgs (snd w))" by (simp add: parties_ok_def party_keys_ok_def)
  then show "parties_ok (snd ((case rows_where (\<lambda>_ x. ro_organization x = org) (pt_recipient_orgs (snd w)) of
         [] \<Rightarrow> put_recipient_org None \<lparr>ro_organization = org, ro_destination = dest,
                 ro_validation_status = Val_Validated, ro_is_correspondent = is_correspondent, ro_is_active = active\<rparr>
       | (k, x) # _ \<Rightarrow> put_recipient_org (Some k) (x\<lparr>ro_destination := dest, ro_validation_status := Val_Validated,
                 ro_is_correspondent := is_correspondent, ro_is_active := active\<rparr>)) w))"
    using ok first_row [of _ "pt_recipient_orgs (snd w)"]
    by (auto split: list.split intro!: put_recipient_org_ok)
qed

lemma keeps_update_contact [party_keeps]: "keeps (update_recipient_contact org contact active)"
  unfolding update_recipient_contact_def
proof (rule keeps_reading)
  fix w assume ok: "parties_ok w"
  then have "keys_ok (pt_recipient_contacts (snd w))" by (simp add: parties_ok_def party_keys_ok_def)
  then show "parties_ok (snd ((case rows_where (\<lambda>_ x. rc_recipient_organization x = org \<and> rc_contact x = contact) (pt_recipient_contacts (snd w)) of
         [] \<Rightarrow> put_recipient_contact None \<lparr>rc_recipient_organization = org, rc_contact = contact, rc_is_active = active\<rparr>
       | (k, x) # _ \<Rightarrow> put_recipient_contact (Some k) (x\<lparr>rc_is_active := active\<rparr>)) w))"
    using ok first_row [of _ "pt_recipient_contacts (snd w)"]
    by (auto split: list.split intro!: put_recipient_contact_ok)
qed

lemma all_rows_map: "all_rows P t \<Longrightarrow> (\<And>i x. P x \<Longrightarrow> P (g i x)) \<Longrightarrow> all_rows P (map (\<lambda>(i, x). (i, g i x)) t)"
  unfolding all_rows_def row_get_map by blast

lemma one_each_map: "one_each f t \<Longrightarrow> (\<And>i x. f (g i x) = f x) \<Longrightarrow> one_each f (map (\<lambda>(i, x). (i, g i x)) t)"
  unfolding one_each_def row_get_map map_option_eq_Some by metis

lemma keeps_hand_over [party_keeps]: "keeps (hand_over_stopover org dest referent)"
proof (rule keepsI)
  fix w assume ok: "parties_ok w"
  let ?d = "(fst w)\<lparr>db_destinations := row_upd dest (\<lambda>x. x\<lparr>d_correspondent_contact := referent\<rparr>) (db_destinations (fst w))\<rparr>"
  let ?g = "\<lambda>k x. if k \<noteq> org \<and> ro_destination x = dest \<and> ro_is_correspondent x then x\<lparr>ro_is_correspondent := False\<rparr> else x"
  let ?t = "pt_recipient_orgs (snd w)"
  let ?t' = "map (\<lambda>(k, x). (k, ?g k x)) ?t"
  have d: "parties_ok (?d, snd w)"
    using ok parties_ok_steady [OF _ steady_destinations, of "fst w" "snd w"]
    by (auto simp: parties_ok_def party_keys_ok_def keys_ok_upd)
  have "keys_ok ?t'" using ok by (simp add: parties_ok_def party_keys_ok_def keys_ok_def comp_def case_prod_beta)
  moreover have "all_rows (\<lambda>o'. typed Con_Organization (ro_organization o') ?d) ?t'"
    by (rule all_rows_map) (use d in \<open>auto simp: parties_ok_def\<close>)
  moreover have "one_each ro_organization ?t'"
    by (rule one_each_map) (use d in \<open>auto simp: parties_ok_def\<close>)
  moreover have "all_rows (contact_fits ?d ?t') (pt_recipient_contacts (snd w))"
  proof -
    have "grows ro_organization ?t ?t'" by (rule grows_map) simp
    then show ?thesis using d contact_fits_grows by (fastforce simp: parties_ok_def elim: all_rows_mono)
  qed
  ultimately show "parties_ok (snd (hand_over_stopover org dest referent w))"
    using d by (simp add: hand_over_stopover_def parties_ok_def party_keys_ok_def)
qed

lemma keeps_recipient_form [party_keeps]:
  "keeps (ensure_recipient_runtime org referent dest active allowed is_correspondent)"
proof -
  have "keeps (\<lambda>w. (Inl x :: err + nat, w))" for x by (rule keepsI) simp
  moreover have "keeps (authorize_for_shipper a b c d e)" for a b c d e
    unfolding authorize_for_shipper_def by (intro party_keeps)
  ultimately show ?thesis unfolding ensure_recipient_runtime_def
    by (intro party_keeps) (auto split: option.split intro!: party_keeps)
qed

lemma keeps_run_party: "keeps (run_party r)"
  by (cases r) (auto intro!: party_keeps)

text \<open>An exception in the middle of a run leaves what was saved before it, and that is consistent too.\<close>

interpretation registry: kept "\<lambda>r w. Inr (snd (run_party r w)) :: err + parties" parties_ok
  by unfold_locales (auto intro: keepsD [OF keeps_run_party])

section \<open>Who is offered is accepted\<close>

lemma active_contacts_mem:
  "keys_ok (db_contacts d) \<Longrightarrow> c \<in> set (active_contacts_for_ids ids d) \<longleftrightarrow> c \<in> set ids \<and> contact_active c d"
proof -
  assume keys: "keys_ok (db_contacts d)"
  have "c \<in> set (active_contacts_for_ids ids d) \<longleftrightarrow> (\<exists>x. (c, x) \<in> set (db_contacts d) \<and> c \<in> set ids \<and> con_is_active x)"
    by (force simp: active_contacts_for_ids_def rows_where_def)
  also have "\<dots> \<longleftrightarrow> c \<in> set ids \<and> contact_active c d"
    using keys by (auto simp: contact_active_def row_get_iff [symmetric] split: option.splits)
  finally show ?thesis .
qed

lemma shippers_where_mem:
  "keys_ok (pt_shippers s) \<Longrightarrow> (k, x) \<in> set (shippers_where P d s) \<longleftrightarrow> row_get (pt_shippers s) k = Some x \<and> P k x"
  by (simp add: shippers_where_def rows_where_mem row_get_iff)

lemma shippers_where_first:
  "shippers_where P d s = (k, x) # ys \<Longrightarrow> keys_ok (pt_shippers s) \<Longrightarrow> row_get (pt_shippers s) k = Some x \<and> P k x"
  using shippers_where_mem [of s k x P d] by simp

lemma normalize_org: "typed Con_Organization k d \<Longrightarrow> normalize_party_contact_to_org (Some k) d = Some k"
  by (auto simp: typed_def normalize_party_contact_to_org_def split: option.splits)

lemma normalize_person: "typed Con_Person c d \<Longrightarrow> organization_of c d = Some o' \<Longrightarrow> normalize_party_contact_to_org (Some c) d = Some o'"
  by (auto simp: typed_def organization_of_def normalize_party_contact_to_org_def split: option.splits)

lemma normalize_None_iff: "normalize_party_contact_to_org c d = None \<longleftrightarrow> c = None"
  by (auto simp: normalize_party_contact_to_org_def split: option.split contact_type.split)

lemma typed_one: "typed t k d \<Longrightarrow> typed u k d \<Longrightarrow> t = u"
  by (auto simp: typed_def split: option.splits)

text \<open>The shipper of an organization, and of the person it names.\<close>

lemma parties_okD:
  assumes "parties_ok (d, s)"
  shows "keys_ok (db_contacts d)" "keys_ok (pt_shippers s)" "keys_ok (pt_recipient_orgs s)" "keys_ok (pt_recipient_contacts s)"
    "keys_ok (pt_links s)" "keys_ok (pt_authorized s)"
    and "row_get (pt_shippers s) i = Some x \<Longrightarrow> shipper_fits d x"
    and "row_get (pt_shippers s) i = Some x \<Longrightarrow> row_get (pt_shippers s) j = Some y \<Longrightarrow> sp_organization x = sp_organization y \<Longrightarrow> i = j"
    and "row_get (pt_recipient_orgs s) i = Some r \<Longrightarrow> typed Con_Organization (ro_organization r) d"
    and "row_get (pt_recipient_orgs s) i = Some r \<Longrightarrow> row_get (pt_recipient_orgs s) j = Some q \<Longrightarrow> ro_organization r = ro_organization q \<Longrightarrow> i = j"
    and "row_get (pt_recipient_contacts s) i = Some c \<Longrightarrow> contact_fits d (pt_recipient_orgs s) c"
    and "row_get (pt_authorized s) i = Some a \<Longrightarrow> authorized_fits (pt_links s) (pt_recipient_contacts s) a"
  using assms unfolding parties_ok_def party_keys_ok_def all_rows_def one_each_def by auto

lemma shipper_record_org:
  assumes ok: "parties_ok (d, s)" and x: "row_get (pt_shippers s) i = Some x" and v: "validated_active_shipper d x"
    and n: "normalize_party_contact_to_org c d = Some (sp_organization x)"
  shows "shipment_shipper_record c d s = Some (i, x)"
proof -
  note keys = parties_okD(2) [OF ok]
  have org: "typed Con_Organization (sp_organization x) d" using parties_okD(7) [OF ok x] by (simp add: shipper_fits_def)
  have none: "shippers_where (\<lambda>i y. validated_active_shipper d y \<and> sp_default_contact y = Some (sp_organization x)) d s = []"
  proof (rule ccontr)
    assume "\<not> ?thesis"
    then obtain j y where "(j, y) \<in> set (shippers_where (\<lambda>i y. validated_active_shipper d y \<and> sp_default_contact y = Some (sp_organization x)) d s)"
      by (metis last_in_set surj_pair)
    then have y: "row_get (pt_shippers s) j = Some y" "sp_default_contact y = Some (sp_organization x)"
      using shippers_where_mem [OF keys] by auto
    then have "typed Con_Person (sp_organization x) d" using parties_okD(7) [OF ok y(1)] by (simp add: shipper_fits_def)
    with org typed_one show False by blast
  qed
  let ?o = "shippers_where (\<lambda>i y. validated_active_shipper d y \<and> sp_organization y = sp_organization x) d s"
  have "(i, x) \<in> set ?o" using x v shippers_where_mem [OF keys] by auto
  then obtain j y ys where o': "?o = (j, y) # ys" by (cases ?o) auto
  then have y: "row_get (pt_shippers s) j = Some y" "sp_organization y = sp_organization x"
    using shippers_where_first [OF o' keys] by auto
  then have "j = i" using parties_okD(8) [OF ok y(1) x] by simp
  then show ?thesis using none o' n x y by (simp add: shipment_shipper_record_def)
qed

lemma shipper_record_Some:
  assumes ok: "parties_ok (d, s)" and r: "shipment_shipper_record c d s = Some (i, x)"
  shows "row_get (pt_shippers s) i = Some x \<and> validated_active_shipper d x
    \<and> shipment_shipper_record (normalize_party_contact_to_org c d) d s = Some (i, x)"
proof -
  note keys = parties_okD(2) [OF ok]
  obtain k where k: "normalize_party_contact_to_org c d = Some k" using r by (auto simp: shipment_shipper_record_def split: option.splits)
  have x: "row_get (pt_shippers s) i = Some x \<and> validated_active_shipper d x \<and> (sp_default_contact x = Some k \<or> sp_organization x = k)"
    using r k by (auto simp: shipment_shipper_record_def split: list.splits dest!: shippers_where_first [OF _ keys])
  then have "normalize_party_contact_to_org (Some k) d = Some (sp_organization x)"
    using parties_okD(7) [OF ok, of i x] normalize_org normalize_person by (auto simp: shipper_fits_def)
  then show ?thesis using shipper_record_org [OF ok, of i x] x k by simp
qed

lemma offered_shipper:
  assumes ok: "parties_ok (d, s)" and c: "c \<in> set (eligible_shipper_contacts_for_destination dest d s)"
  shows "\<exists>i x. resolve_shipper_for_operation (Some c) dest d s = Inr (i, x) \<and> normalize_party_contact_to_org (Some c) d = Some (sp_organization x)"
proof -
  note keys = parties_okD(2) [OF ok]
  obtain k where k: "dest = Some k" using c by (auto simp: eligible_shipper_contacts_for_destination_def split: option.splits)
  have "c \<in> set (party_ids_of_shippers (eligible_shippers_for_stopover dest d s))"
    using c k active_contacts_mem [OF parties_okD(1) [OF ok]]
    by (auto simp: eligible_shipper_contacts_for_destination_def split: if_splits)
  then obtain i x where e: "(i, x) \<in> set (eligible_shippers_for_stopover dest d s)"
    and cx: "c = sp_organization x \<or> sp_default_contact x = Some c"
    by (auto simp: party_ids_of_shippers_def split: option.splits)
  then have x: "row_get (pt_shippers s) i = Some x" "validated_active_shipper d x"
    using k shippers_where_mem [OF keys] by (auto simp: eligible_shippers_for_stopover_def split: if_splits)
  have f: "shipper_fits d x" using parties_okD(7) [OF ok x(1)] .
  have n: "normalize_party_contact_to_org (Some c) d = Some (sp_organization x)"
    using cx f normalize_org normalize_person by (auto simp: shipper_fits_def)
  have "shipment_shipper_record (normalize_party_contact_to_org (Some c) d) d s = Some (i, x)"
    unfolding n by (rule shipper_record_org [OF ok x]) (use f normalize_org in \<open>auto simp: shipper_fits_def\<close>)
  moreover have "i \<in> fst ` set (eligible_shippers_for_stopover dest d s)" using e by force
  ultimately show ?thesis using k n by (simp add: resolve_shipper_for_operation_def)
qed

lemma resolved_shipper_offered:
  assumes ok: "parties_ok (d, s)" and r: "resolve_shipper_for_operation c dest d s = Inr (i, x)"
  shows "row_get (pt_shippers s) i = Some x" and "validated_active_shipper d x"
    and "sp_organization x \<in> set (eligible_shipper_contacts_for_destination dest d s)"
proof -
  from r have rec: "shipment_shipper_record (normalize_party_contact_to_org c d) d s = Some (i, x)"
    and e: "i \<in> fst ` set (eligible_shippers_for_stopover dest d s)"
    by (auto simp: resolve_shipper_for_operation_def split: if_splits option.splits)
  show x: "row_get (pt_shippers s) i = Some x" and v: "validated_active_shipper d x" using shipper_record_Some [OF ok rec] by auto
  obtain k where k: "dest = Some k" "destination_active k d"
    using e by (auto simp: eligible_shippers_for_stopover_def split: option.splits if_splits)
  obtain y where "(i, y) \<in> set (eligible_shippers_for_stopover dest d s)" using e by auto
  moreover from this have "row_get (pt_shippers s) i = Some y"
    using k shippers_where_mem [OF parties_okD(2) [OF ok]] by (auto simp: eligible_shippers_for_stopover_def)
  ultimately have "(i, x) \<in> set (eligible_shippers_for_stopover dest d s)" using x by simp
  then have "sp_organization x \<in> set (party_ids_of_shippers (eligible_shippers_for_stopover dest d s))"
    by (force simp: party_ids_of_shippers_def)
  moreover have "contact_active (sp_organization x) d" using v by (simp add: validated_active_shipper_def)
  ultimately show "sp_organization x \<in> set (eligible_shipper_contacts_for_destination dest d s)"
    using k active_contacts_mem [OF parties_okD(1) [OF ok]] by (simp add: eligible_shipper_contacts_for_destination_def)
qed

lemma first_Some: "(case xs of [] \<Rightarrow> None | x # _ \<Rightarrow> Some x) = Some y \<Longrightarrow> y \<in> set xs"
  by (cases xs) auto

lemma eligible_org_iff:
  assumes ok: "parties_ok (d, s)" and x: "row_get (pt_shippers s) i = Some x"
  shows "(j, o') \<in> set (eligible_recipient_organizations_for_shipper i dest d s) \<longleftrightarrow>
     (\<exists>k. dest = Some k \<and> destination_active k d \<and> validated_active_shipper d x \<and> row_get (pt_recipient_orgs s) j = Some o'
       \<and> ro_destination o' = k \<and> validated_active_recipient_organization d o'
       \<and> (sp_can_send_to_all x \<or> (\<exists>m l. (m, l) \<in> set (pt_links s) \<and> pl_recipient_organization l = j \<and> pl_shipper l = i \<and> pl_is_active l)))"
  using x by (auto simp: eligible_recipient_organizations_for_shipper_def rows_where_mem list_ex_iff row_get_iff [OF parties_okD(3) [OF ok]]
      split: option.split)

lemma recipient_record_org:
  assumes ok: "parties_ok (d, s)" and r: "row_get (pt_recipient_orgs s) j = Some o'"
    and a: "ro_is_active o'" "contact_active (ro_organization o') d"
    and n: "normalize_party_contact_to_org c d = Some (ro_organization o')"
  shows "shipment_recipient_organization_record c (Some (ro_destination o')) d s = Some (j, o')"
proof -
  note keys = parties_okD(3) [OF ok]
  let ?l = "sort_key fst (rows_where (\<lambda>i q. ro_organization q = ro_organization o' \<and> ro_destination q = ro_destination o' \<and> ro_is_active q
                \<and> contact_active (ro_organization q) d) (pt_recipient_orgs s))"
  have "(j, o') \<in> set ?l" using r a by (simp add: rows_where_mem row_get_iff [OF keys, symmetric])
  then obtain i q qs where l: "?l = (i, q) # qs" by (cases ?l) auto
  then have "(i, q) \<in> set ?l" by simp
  then have q: "row_get (pt_recipient_orgs s) i = Some q" "ro_organization q = ro_organization o'"
    by (auto simp: rows_where_mem row_get_iff [OF keys])
  then have "i = j" using parties_okD(10) [OF ok q(1) r] by simp
  then show ?thesis using l n q r by (simp add: shipment_recipient_organization_record_def)
qed

lemma authorized_personE:
  assumes "authorized_person i k orgs d s a = Some c"
  obtains l r o' where "row_get (pt_links s) (ac_link a) = Some l" and "row_get (pt_recipient_contacts s) (ac_recipient_contact a) = Some r"
    and "row_get (pt_recipient_orgs s) (rc_recipient_organization r) = Some o'"
    and "pl_recipient_organization l \<in> set orgs" and "c = rc_contact r"
  using assms unfolding authorized_person_def by (auto split: option.splits if_splits)

text \<open>The recipients offered to a shipper stand for an organization it may send to.\<close>

lemma offered_recipient_org:
  assumes ok: "parties_ok (d, s)" and rec: "shipment_shipper_record sc d s = Some (i, x)"
    and c: "c \<in> set (eligible_recipient_contacts_for_shipper_destination sc dest d s)"
  shows "\<exists>j o'. (j, o') \<in> set (eligible_recipient_organizations_for_shipper i dest d s)
     \<and> normalize_party_contact_to_org (Some c) d = Some (ro_organization o')"
proof -
  note x = conjunct1 [OF shipper_record_Some [OF ok rec]]
  note iff = eligible_org_iff [OF ok x]
  let ?orgs = "eligible_recipient_organizations_for_shipper i dest d s"
  obtain k where k: "dest = Some k" using c by (auto simp: eligible_recipient_contacts_for_shipper_destination_def split: option.splits)
  have "c \<in> set (map (ro_organization \<circ> snd) ?orgs
      @ concat (map (\<lambda>(_, a). case authorized_person i k (map fst ?orgs) d s a of None \<Rightarrow> [] | Some c \<Rightarrow> [c]) (pt_authorized s)))"
    using c rec k by (simp add: eligible_recipient_contacts_for_shipper_destination_def Let_def
        active_contacts_mem [OF parties_okD(1) [OF ok]] split: if_splits)
  then consider (org) "c \<in> ro_organization ` snd ` set ?orgs"
    | (person) n a where "(n, a) \<in> set (pt_authorized s)" "authorized_person i k (map fst ?orgs) d s a = Some c"
    by (auto split: option.splits)
  then show ?thesis
  proof cases
    case org
    then obtain j o' where "(j, o') \<in> set ?orgs" and c': "c = ro_organization o'" by auto
    moreover from this have "typed Con_Organization c d" using iff parties_okD(9) [OF ok] by blast
    ultimately show ?thesis using normalize_org by blast
  next
    case person
    obtain l r o' where "row_get (pt_links s) (ac_link a) = Some l"
      "row_get (pt_recipient_contacts s) (ac_recipient_contact a) = Some r"
      "row_get (pt_recipient_orgs s) (rc_recipient_organization r) = Some o'"
      "pl_recipient_organization l \<in> fst ` set ?orgs" "c = rc_contact r"
      by (rule authorized_personE [OF person(2)]) (rule that, simp_all)
    note contact = person(1) this
    have "row_get (pt_authorized s) n = Some a" using person(1) by (simp add: row_get_iff [OF parties_okD(6) [OF ok]])
    then have "authorized_fits (pt_links s) (pt_recipient_contacts s) a" by (rule parties_okD(12) [OF ok])
    then have "rc_recipient_organization r = pl_recipient_organization l"
      using contact by (simp add: authorized_fits_def)
    then obtain q where q: "(rc_recipient_organization r, q) \<in> set ?orgs" using contact(5) by auto
    then have "q = o'" using iff contact(4) by simp
    have "contact_fits d (pt_recipient_orgs s) r" using parties_okD(11) [OF ok contact(3)] .
    then have "typed Con_Person c d" and "organization_of c d = Some (ro_organization o')"
      using contact(4,6) by (auto simp: contact_fits_def)
    then show ?thesis using q \<open>q = o'\<close> normalize_person by blast
  qed
qed

lemma shipper_with_org_eligible:
  assumes ok: "parties_ok (d, s)" and x: "row_get (pt_shippers s) i = Some x"
    and e: "(j, o') \<in> set (eligible_recipient_organizations_for_shipper i dest d s)"
  shows "(i, x) \<in> set (eligible_shippers_for_stopover dest d s)"
proof -
  from e obtain k where k: "dest = Some k" "destination_active k d" "validated_active_shipper d x"
    "row_get (pt_recipient_orgs s) j = Some o'" "ro_destination o' = k" "validated_active_recipient_organization d o'"
    and can: "sp_can_send_to_all x \<or> (\<exists>m l. (m, l) \<in> set (pt_links s) \<and> pl_recipient_organization l = j \<and> pl_shipper l = i \<and> pl_is_active l)"
    by (rule exE [OF iffD1 [OF eligible_org_iff [OF ok x]]]) (elim conjE, rule that)
  have "sp_can_send_to_all x \<or> list_ex (\<lambda>(j, l). pl_shipper l = i \<and> pl_is_active l
       \<and> (case row_get (pt_recipient_orgs s) (pl_recipient_organization l) of
            None \<Rightarrow> False | Some o' \<Rightarrow> ro_destination o' = k \<and> validated_active_recipient_organization d o')) (pt_links s)"
    using can
  proof
    assume "\<exists>m l. (m, l) \<in> set (pt_links s) \<and> pl_recipient_organization l = j \<and> pl_shipper l = i \<and> pl_is_active l"
    then obtain m l where "(m, l) \<in> set (pt_links s)" "pl_recipient_organization l = j" "pl_shipper l = i" "pl_is_active l" by blast
    then show ?thesis using k(4-6) unfolding list_ex_iff by (intro disjI2 bexI [of _ "(m, l)"]) simp_all
  qed simp
  then show ?thesis using k(1-3) x shippers_where_mem [OF parties_okD(2) [OF ok]] by (simp add: eligible_shippers_for_stopover_def)
qed

lemma offered_recipient:
  assumes ok: "parties_ok (d, s)" and c: "c \<in> set (eligible_recipient_contacts_for_shipper_destination sc dest d s)"
  shows "is_ok (resolve_recipient_binding_for_operation sc (Some c) dest d s)"
proof -
  obtain i x where rec: "shipment_shipper_record sc d s = Some (i, x)"
    using c by (auto simp: eligible_recipient_contacts_for_shipper_destination_def split: option.splits if_splits)
  note x = shipper_record_Some [OF ok rec]
  obtain j o' where e: "(j, o') \<in> set (eligible_recipient_organizations_for_shipper i dest d s)"
    and n: "normalize_party_contact_to_org (Some c) d = Some (ro_organization o')"
    using offered_recipient_org [OF ok rec c] by blast
  from e obtain k where k: "dest = Some k" "row_get (pt_recipient_orgs s) j = Some o'" "ro_destination o' = k"
    "validated_active_recipient_organization d o'"
    using eligible_org_iff [OF ok conjunct1 [OF x]] by blast
  have "normalize_party_contact_to_org sc d \<noteq> None"
    using rec by (cases "normalize_party_contact_to_org sc d") (simp_all add: shipment_shipper_record_def)
  moreover have "i \<in> fst ` set (eligible_shippers_for_stopover dest d s)"
    using shipper_with_org_eligible [OF ok conjunct1 [OF x] e] by force
  ultimately have "resolve_shipper_for_operation sc dest d s = Inr (i, x)"
    using k(1) x by (auto simp: resolve_shipper_for_operation_def)
  moreover have "typed Con_Organization (ro_organization o') d" using parties_okD(9) [OF ok k(2)] .
  then have "shipment_recipient_organization_record (normalize_party_contact_to_org (Some c) d) dest d s = Some (j, o')"
    unfolding n k(1) k(3) [symmetric]
    by (intro recipient_record_org [OF ok k(2)] normalize_org) (use k(4) in \<open>auto simp: validated_active_recipient_organization_def\<close>)
  moreover have "j \<in> fst ` set (eligible_recipient_organizations_for_shipper i dest d s)" using e by force
  ultimately show ?thesis
    using k n by (auto simp: resolve_recipient_binding_for_operation_def is_ok_def validated_active_recipient_organization_def split: list.split)
qed

lemma resolved_organization_offered:
  assumes ok: "parties_ok (d, s)" and a: "typed Con_Organization a d"
    and s: "resolve_shipper_for_operation (Some a) dest d s = Inr (i, x)"
  shows "a \<in> set (eligible_shipper_contacts_for_destination dest d s)"
proof -
  note n = normalize_org [OF a]
  note off = resolved_shipper_offered [OF ok s]
  have sr: "shipment_shipper_record (Some a) d s = Some (i, x)"
    using s n by (auto simp: resolve_shipper_for_operation_def split: if_splits option.splits)
  have "sp_default_contact x = Some a \<or> sp_organization x = a"
    using sr n by (auto simp: shipment_shipper_record_def split: list.splits dest!: shippers_where_first [OF _ parties_okD(2) [OF ok]])
  moreover have "sp_default_contact x \<noteq> Some a"
    using parties_okD(7) [OF ok off(1)] a typed_one [of Con_Person a d Con_Organization] by (auto simp: shipper_fits_def)
  ultimately show ?thesis using off(3) by simp
qed

lemma resolves_iff_offered:
  assumes "parties_ok (d, s)" and "typed Con_Organization a d"
  shows "is_ok (resolve_shipper_for_operation (Some a) dest d s)
    = (a \<in> set (eligible_shipper_contacts_for_destination dest d s))"
  using offered_shipper [OF assms(1)] resolved_organization_offered [OF assms] by (fastforce simp: is_ok_iff)

lemma resolved_recipient_offered:
  assumes ok: "parties_ok (d, s)" and a: "typed Con_Organization a d" and b: "typed Con_Organization b d"
    and r: "is_ok (resolve_recipient_binding_for_operation (Some a) (Some b) dest d s)"
  shows "a \<in> set (eligible_shipper_contacts_for_destination dest d s)
    \<and> b \<in> set (eligible_recipient_contacts_for_shipper_destination (Some a) dest d s)"
proof -
  note n = normalize_org [OF a] normalize_org [OF b]
  from r obtain i x j o' where s: "resolve_shipper_for_operation (Some a) dest d s = Inr (i, x)"
    and rec: "shipment_recipient_organization_record (Some b) dest d s = Some (j, o')"
    and e: "j \<in> fst ` set (eligible_recipient_organizations_for_shipper i dest d s)"
    by (auto simp: resolve_recipient_binding_for_operation_def is_ok_def n split: if_splits sum.splits option.splits)
  note off = resolved_shipper_offered [OF ok s]
  have sr: "shipment_shipper_record (Some a) d s = Some (i, x)"
    using s n by (auto simp: resolve_shipper_for_operation_def split: if_splits option.splits)
  obtain k where k: "dest = Some k" using e by (auto simp: eligible_recipient_organizations_for_shipper_def split: option.splits)
  have "(j, o') \<in> set (sort_key fst (rows_where (\<lambda>i o'. ro_organization o' = b \<and> ro_destination o' = k \<and> ro_is_active o'
                \<and> contact_active (ro_organization o') d) (pt_recipient_orgs s)))"
    using rec n k by (intro first_Some) (simp add: shipment_recipient_organization_record_def)
  then have o': "row_get (pt_recipient_orgs s) j = Some o'" "ro_organization o' = b" "contact_active b d"
    by (auto simp: rows_where_mem row_get_iff [OF parties_okD(3) [OF ok]])
  obtain q where q: "(j, q) \<in> set (eligible_recipient_organizations_for_shipper i dest d s)" using e by auto
  then have "q = o'" using eligible_org_iff [OF ok off(1)] o' by auto
  have "destination_active k d" using q eligible_org_iff [OF ok off(1)] k by auto
  then have "b \<in> set (eligible_recipient_contacts_for_shipper_destination (Some a) dest d s)"
    using q \<open>q = o'\<close> o' k sr by (force simp: eligible_recipient_contacts_for_shipper_destination_def Let_def active_contacts_mem [OF parties_okD(1) [OF ok]])
  then show ?thesis using resolved_organization_offered [OF ok a s] by simp
qed

section \<open>What the contact form refuses\<close>

lemma rows_where_Cons_mem: "rows_where P t = (k, x) # xs \<Longrightarrow> (k, x) \<in> set t \<and> P k x"
  using rows_where_mem [of k x P t] by simp

lemma put_recipient_org_Inr:
  assumes "put_recipient_org pk r w = (Inr k, w')" and "\<And>i. pk = Some i \<Longrightarrow> row_get (pt_recipient_orgs (snd w)) i \<noteq> None"
  shows "row_get (pt_recipient_orgs (snd w')) k = Some r \<and> fst w' = fst w
    \<and> \<not> clashes (\<lambda>r x. ro_destination x = ro_destination r \<and> ro_is_correspondent r \<and> ro_is_active r
                \<and> ro_is_correspondent x \<and> ro_is_active x) pk r (pt_recipient_orgs (snd w))"
  using assms by (auto simp: put_recipient_org_def saving_def save_recipient_org_def wms_ok row_get_save split: sum.splits option.splits)

lemma put_recipient_contact_Inr:
  assumes "put_recipient_contact pk r w = (Inr k, w')"
  shows "clean_recipient_contact r (fst w) (snd w)"
  using assms by (auto simp: put_recipient_contact_def saving_def save_recipient_contact_def wms_ok split: sum.splits)

lemma followed_by_Inr: "followed_by m f w = (Inr y, w') \<longleftrightarrow> (\<exists>x v. m w = (Inr x, v) \<and> f x v = (Inr y, w'))"
  unfolding followed_by_def by (cases "m w"; cases "fst (m w)") auto

definition other_correspondent :: "nat \<Rightarrow> nat \<Rightarrow> party_db \<Rightarrow> bool" where
  "other_correspondent org dest s = list_ex (\<lambda>(_, x). ro_destination x = dest \<and> ro_is_correspondent x \<and> ro_is_active x
     \<and> ro_organization x \<noteq> org) (pt_recipient_orgs s)"

lemma update_recipient_org_Inr:
  assumes ok: "parties_ok w" and r: "update_recipient_org org dest corr active w = (Inr k, w')"
  shows "\<exists>x. row_get (pt_recipient_orgs (snd w')) k = Some x \<and> ro_is_active x = active
     \<and> (corr \<longrightarrow> active \<longrightarrow> \<not> other_correspondent org dest (snd w))"
proof -
  let ?t = "pt_recipient_orgs (snd w)"
  have keys: "keys_ok ?t" using ok by (simp add: parties_ok_def party_keys_ok_def)
  show ?thesis
  proof (cases "rows_where (\<lambda>_ x. ro_organization x = org) ?t")
    case Nil
    then have put: "put_recipient_org None \<lparr>ro_organization = org, ro_destination = dest, ro_validation_status = Val_Validated,
        ro_is_correspondent = corr, ro_is_active = active\<rparr> w = (Inr k, w')"
      using r by (simp add: update_recipient_org_def reading_def)
    show ?thesis using put_recipient_org_Inr [OF put]
      by (auto simp: clashes_def other_correspondent_def list_ex_iff)
  next
    case (Cons a xs)
    then obtain i x where a: "rows_where (\<lambda>_ x. ro_organization x = org) ?t = (i, x) # xs" by (cases a) auto
    note row = first_row [OF a keys]
    have put: "put_recipient_org (Some i) (x\<lparr>ro_destination := dest, ro_validation_status := Val_Validated,
        ro_is_correspondent := corr, ro_is_active := active\<rparr>) w = (Inr k, w')"
      using r a by (simp add: update_recipient_org_def reading_def)
    have "y = x" if "(i, y) \<in> set ?t" for y using that row keys row_get_iff by (metis option.inject)
    then show ?thesis using put_recipient_org_Inr [OF put] row
      by (auto simp: clashes_def other_correspondent_def list_ex_iff)
  qed
qed

lemma update_recipient_contact_Inr:
  assumes ok: "parties_ok w" and r: "update_recipient_contact org contact active w = (Inr k, w')"
    and x: "row_get (pt_recipient_orgs (snd w)) org = Some x"
  shows "ro_is_active x"
proof (cases "rows_where (\<lambda>_ x. rc_recipient_organization x = org \<and> rc_contact x = contact) (pt_recipient_contacts (snd w))")
  case Nil
  then have put: "put_recipient_contact None \<lparr>rc_recipient_organization = org, rc_contact = contact, rc_is_active = active\<rparr> w = (Inr k, w')"
    using r by (simp add: update_recipient_contact_def reading_def)
  show ?thesis using put_recipient_contact_Inr [OF put] x by (auto simp: clean_recipient_contact_def split: option.splits)
next
  case (Cons a xs)
  then obtain i c where a: "rows_where (\<lambda>_ x. rc_recipient_organization x = org \<and> rc_contact x = contact) (pt_recipient_contacts (snd w)) = (i, c) # xs"
    by (cases a) auto
  note row = rows_where_Cons_mem [OF a]
  have put: "put_recipient_contact (Some i) (c\<lparr>rc_is_active := active\<rparr>) w = (Inr k, w')"
    using r a by (simp add: update_recipient_contact_def reading_def)
  show ?thesis using put_recipient_contact_Inr [OF put] x row by (auto simp: clean_recipient_contact_def split: option.splits)
qed

lemma ensure_recipient_runtime_Inr:
  assumes ok: "parties_ok w" and r: "ensure_recipient_runtime org referent (Some dest) active allowed corr w = (Inr k, w')"
  shows "active \<and> (corr \<longrightarrow> \<not> other_correspondent org dest (snd w))"
proof -
  from r have "destination_active dest (fst w)"
    by (auto simp: ensure_recipient_runtime_def reading_def split: if_splits)
  then obtain i v j u where a: "update_recipient_org org dest corr active w = (Inr i, v)"
    and b: "update_recipient_contact i referent active v = (Inr j, u)"
    using r by (auto simp: ensure_recipient_runtime_def reading_def followed_by_Inr split: if_splits)
  obtain x where "row_get (pt_recipient_orgs (snd v)) i = Some x" "ro_is_active x = active"
    "corr \<longrightarrow> active \<longrightarrow> \<not> other_correspondent org dest (snd w)"
    using update_recipient_org_Inr [OF ok a] by blast
  moreover have "parties_ok v" using keepsD [OF keeps_update_org ok, of org dest corr active] a by simp
  ultimately show ?thesis using update_recipient_contact_Inr [OF _ b] by blast
qed

section \<open>Correspondents without an organization\<close>

lemma support_again:
  assumes "existing_support_organization (fst w) = Some (o', y)"
  shows "\<exists>w'. get_or_create_support_organization w = (Inr (o', False), w') \<and> snd w' = snd w
    \<and> db_destinations (fst w') = db_destinations (fst w)"
  using assms by (auto simp: get_or_create_support_organization_def reading_def followed_by_def change_contact_def done_with_def)

lemma promote_at_elsewhere:
  assumes "parties_ok (d, s)" and "row_get (pt_recipient_orgs s) k = Some x" and "ro_organization x = org"
    and "ro_is_active x" and "ro_destination x \<noteq> dest"
  shows "promote_at hooks org dest r (d', s) = (Inr r, (d', s))"
proof -
  note keys = parties_okD(3) [OF assms(1)]
  have "(k, x) \<in> set (rows_where (\<lambda>_ x. ro_organization x = org) (pt_recipient_orgs s))"
    using assms(2,3) by (simp add: rows_where_mem row_get_iff [OF keys, symmetric])
  then obtain j y ys where l: "rows_where (\<lambda>_ x. ro_organization x = org) (pt_recipient_orgs s) = (j, y) # ys"
    by (cases "rows_where (\<lambda>_ x. ro_organization x = org) (pt_recipient_orgs s)") auto
  note row = first_row [OF l keys]
  then have "j = k" using parties_okD(10) [OF assms(1) conjunct1 [OF row] assms(2)] assms(3) by simp
  then show ?thesis using l row assms by (simp add: promote_at_def reading_def done_with_def)
qed

lemma promote_all_elsewhere:
  assumes "parties_ok (d, s)" and "row_get (pt_recipient_orgs s) k = Some x" and "ro_organization x = org"
    and "ro_is_active x" and "ro_destination x \<notin> set dests"
  shows "each_step (promote_at hooks org) dests r (d', s) = (Inr r, (d', s))"
  using assms(5)
proof (induction dests arbitrary: r)
  case (Cons dest dests)
  then show ?case using promote_at_elsewhere [OF assms(1-4)] by (simp add: followed_by_def)
qed (simp add: done_with_def)

lemma promote_to_shared_support:
  assumes ok: "parties_ok (d, s)" and c: "row_get (db_contacts d) contact = Some c" and "con_is_active c" and "con_type c = Con_Person"
    and own: "own_organization c d = None" and sup: "existing_support_organization d = Some (org, y)"
    and row: "row_get (pt_recipient_orgs s) k = Some x" "ro_organization x = org" "ro_is_active x"
    and away: "ro_destination x \<notin> set (destinations_of_correspondent contact d)"
  shows "\<exists>r d'. promote_correspondent_to_recipient_ready hooks contact (d, s) = (Inr r, (d', s)) \<and> \<not> pr_created r \<and> \<not> pr_reactivated r"
proof (cases "destinations_of_correspondent contact d = []")
  case True
  then show ?thesis by (simp add: promote_correspondent_to_recipient_ready_def reading_def done_with_def no_promotion_def)
next
  case False
  obtain w' where w': "get_or_create_support_organization (d, s) = (Inr (org, False), w')" "snd w' = s"
    "db_destinations (fst w') = db_destinations d"
    using support_again [of "(d, s)"] sup by auto
  have "\<exists>b d'. resolve_correspondent_recipient_organization contact (d, s) = (Inr (Some (org, False, b)), (d', s))
      \<and> db_destinations d' = db_destinations d"
    using w' assms(2-5) by (cases w')
      (auto simp: resolve_correspondent_recipient_organization_def resolve_recipient_organization_def reading_def
        followed_by_def change_contact_def done_with_def)
  then obtain b d' where res: "resolve_correspondent_recipient_organization contact (d, s) = (Inr (Some (org, False, b)), (d', s))"
    and dest: "db_destinations d' = db_destinations d" by blast
  have dests: "destinations_of_correspondent contact d' = destinations_of_correspondent contact d"
    using dest by (simp add: destinations_of_correspondent_def)
  have "promote_correspondent_to_recipient_ready hooks contact (d, s)
      = each_step (promote_at hooks org) (destinations_of_correspondent contact d)
          (no_promotion\<lparr>pr_support_created := False, pr_attached := b\<rparr>) (d', s)"
    using False c assms(3) res dests by (simp add: promote_correspondent_to_recipient_ready_def reading_def followed_by_def contact_active_def)
  also have "\<dots> = (Inr (no_promotion\<lparr>pr_support_created := False, pr_attached := b\<rparr>), (d', s))"
    by (rule promote_all_elsewhere [OF ok row away])
  finally show ?thesis by (simp add: no_promotion_def)
qed

end
