(* ===== verification/Party_Properties.thy ===== *)
theory Party_Properties
  imports Party_Facts
begin

text \<open>
  The properties of the registry of parties, on a small registry.
\<close>

section \<open>A small registry\<close>

definition party_contact :: "contact_type \<Rightarrow> string \<Rightarrow> nat option \<Rightarrow> contact" where
  "party_contact t name org = \<lparr>con_type = t, con_name = name, con_title = [], con_first_name = [], con_last_name = name,
     con_organization = org, con_role = [], con_email = [], con_email2 = [], con_phone = [], con_phone2 = [], con_siret = [],
     con_vat_number = [], con_legal_registration_number = [], con_asf_id = None, con_use_organization_address = False,
     con_notes = [], con_is_active = True\<rparr>"

definition stopover :: "string \<Rightarrow> nat \<Rightarrow> destination" where
  "stopover city correspondent = \<lparr>d_city = city, d_iata_code = city, d_country = [], d_correspondent_contact = correspondent, d_is_active = True\<rparr>"

definition registry_db :: db where
  "registry_db = sample_db\<lparr>
     db_contacts := [(1, party_contact Con_Organization ''A'' None), (2, party_contact Con_Person ''a'' (Some 1)),
       (3, party_contact Con_Organization ''B'' None), (4, party_contact Con_Person ''b'' (Some 3)),
       (5, party_contact Con_Organization ''ASF - CORRESPONDANT'' None), (6, party_contact Con_Person ''c'' (Some 5)),
       (7, party_contact Con_Person ''d'' None)],
     db_destinations := [(1, stopover ''ABJ'' 6), (2, stopover ''DKR'' 7)]\<rparr>"

definition registry_parties :: party_db where
  "registry_parties = \<lparr>pt_profiles = [], pt_portal_contacts = [],
     pt_shippers = [(1, \<lparr>sp_organization = 1, sp_default_contact = Some 2, sp_validation_status = Val_Validated,
       sp_can_send_to_all = False, sp_is_active = True\<rparr>)],
     pt_recipient_orgs = [(1, \<lparr>ro_organization = 3, ro_destination = 1, ro_validation_status = Val_Validated,
         ro_is_correspondent = False, ro_is_active = True\<rparr>),
       (2, \<lparr>ro_organization = 5, ro_destination = 1, ro_validation_status = Val_Validated,
         ro_is_correspondent = True, ro_is_active = True\<rparr>)],
     pt_recipient_contacts = [(1, \<lparr>rc_recipient_organization = 1, rc_contact = 4, rc_is_active = True\<rparr>)],
     pt_links = [(1, \<lparr>pl_shipper = 1, pl_recipient_organization = 1, pl_is_active = True\<rparr>)],
     pt_authorized = [(1, \<lparr>ac_link = 1, ac_recipient_contact = 1, ac_is_default = True, ac_is_active = True\<rparr>)]\<rparr>"

lemma all_rows_list: "list_all (\<lambda>(_, x). P x) t \<Longrightarrow> all_rows P t"
  using row_get_mem by (fastforce simp: all_rows_def list_all_iff)

lemma one_each_list:
  assumes "distinct (map (\<lambda>(_, x). f x) t)"
  shows "one_each f t"
  unfolding one_each_def
proof (intro allI impI)
  fix i j x y
  assume "row_get t i = Some x" and "row_get t j = Some y" and "f x = f y"
  then have "(i, x) \<in> set t" "(j, y) \<in> set t" "(\<lambda>(_, x). f x) (i, x) = (\<lambda>(_, x). f x) (j, y)" by (auto dest: row_get_mem)
  with assms have "(i, x) = (j, y)" unfolding distinct_map by (meson inj_onD)
  then show "i = j" by simp
qed

lemma registry_sample_ok: "parties_ok (registry_db, registry_parties)"
proof -
  have "party_keys_ok (registry_db, registry_parties)" by code_simp
  moreover have "list_all (\<lambda>(_, x). shipper_fits registry_db x) (pt_shippers registry_parties)" by code_simp
  moreover have "distinct (map (\<lambda>(_, x). sp_organization x) (pt_shippers registry_parties))" by code_simp
  moreover have "list_all (\<lambda>(_, x). typed Con_Organization (ro_organization x) registry_db) (pt_recipient_orgs registry_parties)" by code_simp
  moreover have "distinct (map (\<lambda>(_, x). ro_organization x) (pt_recipient_orgs registry_parties))" by code_simp
  moreover have "list_all (\<lambda>(_, x). contact_fits registry_db (pt_recipient_orgs registry_parties) x) (pt_recipient_contacts registry_parties)" by code_simp
  moreover have "list_all (\<lambda>(_, x). authorized_fits (pt_links registry_parties) (pt_recipient_contacts registry_parties) x) (pt_authorized registry_parties)" by code_simp
  ultimately show ?thesis unfolding parties_ok_def fst_conv snd_conv by (intro conjI all_rows_list one_each_list)
qed

section \<open>The properties\<close>




text \<open>
  C19: Who is offered is accepted: in a consistent registry every shipper offered for a stopover, an
  organization or a person, resolves, and every recipient offered to a shipper for a stopover, an
  organization or a person, resolves to a binding with it. For organizations the converse holds as
  well: an organization resolves as a shipper exactly when it is offered, and two organizations resolve
  to a binding exactly when the one is offered as a shipper and the other as its recipient. (A person
  also resolves through its organization without being offered itself.)
\<close>
theorem offered_parties_are_accepted:
  assumes "parties_ok (d, s)"
  shows "(\<forall>c \<in> set (eligible_shipper_contacts_for_destination dest d s). is_ok (resolve_shipper_for_operation (Some c) dest d s))
    \<and> (\<forall>c \<in> set (eligible_recipient_contacts_for_shipper_destination sc dest d s).
         is_ok (resolve_recipient_binding_for_operation sc (Some c) dest d s))
    \<and> (typed Con_Organization a d \<longrightarrow> is_ok (resolve_shipper_for_operation (Some a) dest d s)
         = (a \<in> set (eligible_shipper_contacts_for_destination dest d s)))
    \<and> (typed Con_Organization a d \<and> typed Con_Organization b d \<longrightarrow>
         is_ok (resolve_recipient_binding_for_operation (Some a) (Some b) dest d s)
         = (a \<in> set (eligible_shipper_contacts_for_destination dest d s)
            \<and> b \<in> set (eligible_recipient_contacts_for_shipper_destination (Some a) dest d s)))"
proof (intro conjI ballI impI)
  fix c assume "c \<in> set (eligible_shipper_contacts_for_destination dest d s)"
  then show "is_ok (resolve_shipper_for_operation (Some c) dest d s)" using offered_shipper [OF assms] by (fastforce simp: is_ok_iff)
next
  fix c assume "c \<in> set (eligible_recipient_contacts_for_shipper_destination sc dest d s)"
  then show "is_ok (resolve_recipient_binding_for_operation sc (Some c) dest d s)" by (rule offered_recipient [OF assms])
next
  assume "typed Con_Organization a d"
  then show "is_ok (resolve_shipper_for_operation (Some a) dest d s)
         = (a \<in> set (eligible_shipper_contacts_for_destination dest d s))"
    by (rule resolves_iff_offered [OF assms])
next
  assume "typed Con_Organization a d \<and> typed Con_Organization b d"
  then show "is_ok (resolve_recipient_binding_for_operation (Some a) (Some b) dest d s)
         = (a \<in> set (eligible_shipper_contacts_for_destination dest d s)
            \<and> b \<in> set (eligible_recipient_contacts_for_shipper_destination (Some a) dest d s))"
    using offered_recipient [OF assms] resolved_recipient_offered [OF assms] by blast
qed

theorem offered_parties_are_accepted_witness:
  "eligible_shipper_contacts_for_destination (Some 1) registry_db registry_parties = [1, 2]
   \<and> eligible_recipient_contacts_for_shipper_destination (Some 2) (Some 1) registry_db registry_parties = [3, 4]
   \<and> is_ok (resolve_recipient_binding_for_operation (Some 2) (Some 4) (Some 1) registry_db registry_parties)"
proof -
  have "eligible_shipper_contacts_for_destination (Some 1) registry_db registry_parties = [1, 2]"
    and "eligible_recipient_contacts_for_shipper_destination (Some 2) (Some 1) registry_db registry_parties = [3, 4]"
    by code_simp+
  with offered_parties_are_accepted [OF registry_sample_ok, where sc = "Some 2" and dest = "Some 1"] show ?thesis by simp
qed

text \<open>
  C39: The contact form can neither retire a recipient nor hand a stopover to another correspondent: an
  inactive submission raises, because the recipient's contact is checked against the recipient just made
  inactive, and so does a correspondent for a stopover that has an active one, because the single
  correspondent is checked before the former one is set aside. Nothing is changed.
\<close>
theorem recipient_form_refuses:
  assumes "parties_ok w" and "\<not> active \<or> (is_correspondent \<and> other_correspondent org dest (snd w))"
  shows "\<exists>x. run_party (Recipient_Form org referent (Some dest) active allowed is_correspondent) w = (Inl x, w)"
proof -
  let ?m = "ensure_recipient_runtime org referent (Some dest) active allowed is_correspondent"
  obtain r w' where m: "?m w = (r, w')" by (meson surj_pair)
  show ?thesis
  proof (cases r)
    case (Inl x)
    then show ?thesis using m by (simp add: no_result_def followed_by_def atomically_def)
  next
    case (Inr k)
    then show ?thesis using ensure_recipient_runtime_Inr [OF assms(1)] m assms(2) by blast
  qed
qed

theorem recipient_form_refuses_witness:
  "\<exists>x. run_party (Recipient_Form 3 4 (Some 1) True [] True) (registry_db, registry_parties) = (Inl x, (registry_db, registry_parties))"
proof -
  have "other_correspondent 3 1 registry_parties" by code_simp
  then show ?thesis by (intro recipient_form_refuses [OF registry_sample_ok]) simp
qed

text \<open>
  C40: Correspondents without an organization share one support organization, and it serves one stopover
  only: once it is the recipient of a stopover, promoting such a correspondent of other stopovers succeeds
  and creates nothing, so these stopovers stay without a correspondent recipient.
\<close>
theorem shared_support_serves_one_stopover:
  assumes "parties_ok (d, s)" and "row_get (db_contacts d) contact = Some c" and "con_is_active c" and "con_type c = Con_Person"
    and "own_organization c d = None" and "existing_support_organization d = Some (org, y)"
    and "row_get (pt_recipient_orgs s) k = Some x" and "ro_organization x = org" and "ro_is_active x"
    and "ro_destination x \<notin> set (destinations_of_correspondent contact d)"
    and "get_shipment_correspondent_recipient_for_destination dest s = None"
  shows "\<exists>r d' s'. promote_correspondent_to_recipient_ready hooks contact (d, s) = (Inr r, (d', s')) \<and> \<not> pr_created r
    \<and> get_shipment_correspondent_recipient_for_destination dest s' = None
    \<and> stopover_correspondent_recipient_organization (Some dest) d' s' = None"
proof -
  obtain r d' where p: "promote_correspondent_to_recipient_ready hooks contact (d, s) = (Inr r, (d', s))" "\<not> pr_created r"
    using promote_to_shared_support [OF assms(1-10)] by blast
  have "rows_where (\<lambda>_ o'. ro_destination o' = dest \<and> ro_is_correspondent o') (pt_recipient_orgs s) = []"
    using assms(11) by (cases "rows_where (\<lambda>_ o'. ro_destination o' = dest \<and> ro_is_correspondent o') (pt_recipient_orgs s)")
      (auto simp: get_shipment_correspondent_recipient_for_destination_def split: list.splits dest!: arg_cong [where f = length])
  then have "rows_where (\<lambda>i o'. ro_destination o' = dest \<and> ro_is_correspondent o' \<and> ro_is_active o'
                \<and> ro_validation_status o' = Val_Validated \<and> contact_active (ro_organization o') d') (pt_recipient_orgs s) = []"
    by (auto simp: rows_where_def filter_empty_conv)
  then show ?thesis using p assms(11) by (simp add: stopover_correspondent_recipient_organization_def)
qed

theorem shared_support_serves_one_stopover_witness:
  "\<exists>r d' s'. promote_correspondent_to_recipient_ready Hooks_Immediate 7 (registry_db, registry_parties) = (Inr r, (d', s'))
     \<and> \<not> pr_created r \<and> get_shipment_correspondent_recipient_for_destination 2 s' = None
     \<and> stopover_correspondent_recipient_organization (Some 2) d' s' = None"
proof -
  let ?o = "\<lparr>ro_organization = 5, ro_destination = 1, ro_validation_status = Val_Validated, ro_is_correspondent = True, ro_is_active = True\<rparr>"
  have c: "row_get (db_contacts registry_db) 7 = Some (party_contact Con_Person ''d'' None)" by code_simp
  have own: "own_organization (party_contact Con_Person ''d'' None) registry_db = None" by code_simp
  have sup: "existing_support_organization registry_db = Some (5, party_contact Con_Organization ''ASF - CORRESPONDANT'' None)" by code_simp
  have row: "row_get (pt_recipient_orgs registry_parties) 2 = Some ?o" by code_simp
  have "destinations_of_correspondent 7 registry_db = [2]" by code_simp
  then have away: "ro_destination ?o \<notin> set (destinations_of_correspondent 7 registry_db)" by simp
  have none: "get_shipment_correspondent_recipient_for_destination 2 registry_parties = None" by code_simp
  show ?thesis
    by (rule shared_support_serves_one_stopover [OF registry_sample_ok c _ _ own sup row _ _ away none]) (simp_all add: party_contact_def)
qed

end
