(* ===== verification/Bins.thy ===== *)
theory Bins
  imports Carton_Handlers Packing
begin

text \<open>
  The packing of lines into cartons (\<open>wms/scan_pack_helpers.py\<close>): the weight and volume of a product,
  float arithmetic with a rounding parameter, and the first-fit loop over the open cartons.
\<close>

section \<open>Weights and volumes\<close>

definition get_product_weight_g :: "db \<Rightarrow> nat \<Rightarrow> int option" where
  "get_product_weight_g s p =
     (case get_unit_component_quantities (db_kit_items s) (Some p) of
        Inl _ \<Rightarrow> None
      | Inr [] \<Rightarrow> None
      | Inr q \<Rightarrow>
          (if \<forall>(c, n) \<in> set q. (case row_get (db_products s) c of None \<Rightarrow> False
                | Some x \<Rightarrow> (case p_weight_g x of None \<Rightarrow> False | Some w \<Rightarrow> 0 < w))
           then let total = sum_list (map (\<lambda>(c, n). the (p_weight_g (the (row_get (db_products s) c))) * n) q)
                in if 0 < total then Some total else None
           else None))"

definition truthy_size :: "rat option \<Rightarrow> bool" where
  "truthy_size x = (case x of None \<Rightarrow> False | Some r \<Rightarrow> r \<noteq> 0)"

definition get_base_product_volume_cm3 :: "product \<Rightarrow> rat option" where
  "get_base_product_volume_cm3 x =
     (if (case p_volume_cm3 x of None \<Rightarrow> False | Some v \<Rightarrow> v \<noteq> 0) then map_option of_int (p_volume_cm3 x)
      else if truthy_size (p_length_cm x) \<and> truthy_size (p_width_cm x) \<and> truthy_size (p_height_cm x)
        then Some (the (p_length_cm x) * the (p_width_cm x) * the (p_height_cm x))
      else None)"

definition get_product_volume_cm3 :: "db \<Rightarrow> nat \<Rightarrow> rat option" where
  "get_product_volume_cm3 s p =
     (case get_unit_component_quantities (db_kit_items s) (Some p) of
        Inl _ \<Rightarrow> None
      | Inr [] \<Rightarrow> None
      | Inr q \<Rightarrow>
          (if \<forall>(c, n) \<in> set q. (case row_get (db_products s) c of None \<Rightarrow> False
                | Some x \<Rightarrow> (case get_base_product_volume_cm3 x of None \<Rightarrow> False | Some v \<Rightarrow> 0 < v))
           then let total = sum_list (map (\<lambda>(c, n). the (get_base_product_volume_cm3 (the (row_get (db_products s) c))) * of_int n) q)
                in if 0 < total then Some total else None
           else None))"

section \<open>Arithmetic on floats\<close>

text \<open>
  A float is the rational it stands for; \<open>fl\<close> rounds a rational to the nearest float. \<open>a // b\<close> for
  non-negative \<open>a\<close> and positive \<open>b\<close> is computed as CPython does, from the exact remainder.
\<close>

definition float_floor_div :: "(rat \<Rightarrow> rat) \<Rightarrow> rat \<Rightarrow> rat \<Rightarrow> int" where
  "float_floor_div fl a b =
     (let rest = a - b * of_int \<lfloor>a / b\<rfloor>;
          quotient = fl (fl (a - rest) / b)
      in if 1 / 2 < quotient - of_int \<lfloor>quotient\<rfloor> then \<lfloor>quotient\<rfloor> + 1 else \<lfloor>quotient\<rfloor>)"

section \<open>The packing of a list of lines into cartons\<close>

record pack_line =
  pk_product :: nat
  pk_quantity :: int
  pk_expires_on :: "date option"

record pack_item =
  bx_product :: nat
  bx_quantity :: int
  bx_weight :: rat
  bx_volume :: rat
  bx_expires_on :: "date option"

record bin_entry =
  be_quantity :: int
  be_expires_on :: "date option"

record bin =
  bn_remaining_volume :: rat
  bn_remaining_weight :: rat
  bn_items :: "(nat \<times> bin_entry) list"

datatype bin_error =
    Format_Requis | Poids_Volume_Manquants string | Poids_Superieur string | Volume_Superieur string

datatype bin_warning = Valeurs_Defaut string | Poids_Manquant string | Volume_Manquant string

definition bin_message :: "bin_error \<Rightarrow> string" where
  "bin_message x = (case x of
       Format_Requis \<Rightarrow> ''Format de carton requis.''
     | Poids_Volume_Manquants n \<Rightarrow> n @ '': poids et volume manquants pour la pr'' @ [CHR 0xE9] @ ''paration.''
     | Poids_Superieur n \<Rightarrow> n @ '': poids unitaire superieur au poids max du carton.''
     | Volume_Superieur n \<Rightarrow> n @ '': volume unitaire superieur au volume max du carton.'')"

text \<open>The item of a line with the errors and warnings it adds; none when it has no size at all.\<close>

definition size_item ::
  "(rat \<Rightarrow> rat) \<Rightarrow> rat \<Rightarrow> rat \<Rightarrow> (int \<times> int) option \<Rightarrow> db \<Rightarrow> pack_line
     \<Rightarrow> pack_item option \<times> bin_error list \<times> bin_warning list" where
  "size_item fl carton_volume carton_weight defaults s line =
     (let name = product_name s (pk_product line);
          weight_g = get_product_weight_g s (pk_product line);
          volume = map_option fl (get_product_volume_cm3 s (pk_product line));
          missing = (weight_g = None \<and> volume = None)
      in if missing \<and> defaults = None then (None, [Poids_Volume_Manquants name], [])
         else
           (let weight' = (if missing then Some (fst (the defaults)) else weight_g);
                volume' = (if missing then Some (fl (of_int (snd (the defaults)))) else volume)
            in (Some \<lparr>bx_product = pk_product line, bx_quantity = pk_quantity line,
                    bx_weight = (case weight' of None \<Rightarrow> 0 | Some w \<Rightarrow> fl (of_int w)),
                    bx_volume = (case volume' of None \<Rightarrow> 0 | Some v \<Rightarrow> v),
                    bx_expires_on = pk_expires_on line\<rparr>,
                (if (case weight' of None \<Rightarrow> False | Some w \<Rightarrow> carton_weight < of_int w) then [Poids_Superieur name] else [])
                @ (if (case volume' of None \<Rightarrow> False | Some v \<Rightarrow> carton_volume < v) then [Volume_Superieur name] else []),
                (if missing then [Valeurs_Defaut name] else [])
                @ (if weight' = None then [Poids_Manquant name] else [])
                @ (if volume' = None then [Volume_Manquant name] else []))))"

definition item_ratio :: "(rat \<Rightarrow> rat) \<Rightarrow> rat \<Rightarrow> rat \<Rightarrow> pack_item \<Rightarrow> rat" where
  "item_ratio fl carton_volume carton_weight i =
     (let ratios = (if 0 < bx_volume i \<and> 0 < carton_volume then [fl (bx_volume i / carton_volume)] else [])
            @ (if 0 < bx_weight i \<and> 0 < carton_weight then [fl (bx_weight i / carton_weight)] else [])
      in case ratios of [] \<Rightarrow> 0 | r # rs \<Rightarrow> foldl max r rs)"

definition max_fit :: "(rat \<Rightarrow> rat) \<Rightarrow> pack_item \<Rightarrow> int \<Rightarrow> rat \<Rightarrow> rat \<Rightarrow> int" where
  "max_fit fl i quantity volume weight =
     (let by_volume = (if 0 < bx_volume i then min quantity (float_floor_div fl volume (bx_volume i)) else quantity)
      in if 0 < bx_weight i then min by_volume (float_floor_div fl weight (bx_weight i)) else by_volume)"

definition earlier_expiry :: "date option \<Rightarrow> date option \<Rightarrow> date option" where
  "earlier_expiry old new = (case new of None \<Rightarrow> old
     | Some d \<Rightarrow> (case old of None \<Rightarrow> Some d | Some o' \<Rightarrow> Some (min o' d)))"

fun add_entry :: "pack_item \<Rightarrow> int \<Rightarrow> (nat \<times> bin_entry) list \<Rightarrow> (nat \<times> bin_entry) list" where
  "add_entry i n [] = [(bx_product i, \<lparr>be_quantity = n, be_expires_on = bx_expires_on i\<rparr>)]"
| "add_entry i n ((p, x) # xs) =
     (if p = bx_product i
      then (p, x\<lparr>be_quantity := be_quantity x + n, be_expires_on := earlier_expiry (be_expires_on x) (bx_expires_on i)\<rparr>) # xs
      else (p, x) # add_entry i n xs)"

definition fill_bin :: "(rat \<Rightarrow> rat) \<Rightarrow> pack_item \<Rightarrow> int \<Rightarrow> bin \<Rightarrow> bin" where
  "fill_bin fl i n b =
     b\<lparr>bn_remaining_volume := fl (bn_remaining_volume b - fl (bx_volume i * fl (of_int n))),
       bn_remaining_weight := fl (bn_remaining_weight b - fl (bx_weight i * fl (of_int n))),
       bn_items := add_entry i n (bn_items b)\<rparr>"

text \<open>The first carton with room for a unit, filled; none when there is none.\<close>

fun try_bins :: "(rat \<Rightarrow> rat) \<Rightarrow> pack_item \<Rightarrow> int \<Rightarrow> bin list \<Rightarrow> (int \<times> bin list) option" where
  "try_bins fl i quantity [] = None"
| "try_bins fl i quantity (b # bs) =
     (let n = max_fit fl i quantity (bn_remaining_volume b) (bn_remaining_weight b) in
      if bx_volume i \<le> bn_remaining_volume b \<and> bx_weight i \<le> bn_remaining_weight b \<and> 0 < n
      then Some (n, fill_bin fl i n b # bs)
      else map_option (\<lambda>(m, bs'). (m, b # bs')) (try_bins fl i quantity bs))"

definition new_bin :: "(rat \<Rightarrow> rat) \<Rightarrow> rat \<Rightarrow> rat \<Rightarrow> pack_item \<Rightarrow> int \<Rightarrow> int \<times> bin" where
  "new_bin fl carton_volume carton_weight i quantity =
     (let fit = max_fit fl i quantity carton_volume carton_weight;
          n = (if fit \<le> 0 then 1 else fit)
      in (n, \<lparr>bn_remaining_volume = fl (carton_volume - fl (bx_volume i * fl (of_int n))),
             bn_remaining_weight = fl (carton_weight - fl (bx_weight i * fl (of_int n))),
             bn_items = [(bx_product i, \<lparr>be_quantity = n, be_expires_on = bx_expires_on i\<rparr>)]\<rparr>))"

lemma try_bins_pos: "try_bins fl i quantity bs = Some (n, bs') \<Longrightarrow> 0 < n"
  by (induction bs arbitrary: n bs') (auto simp: Let_def split: if_splits)

lemma new_bin_pos: "0 < fst (new_bin fl v w i quantity)"
  by (simp add: new_bin_def Let_def)

text \<open>Every round of the loop places at least one unit, so it ends.\<close>

function place_item :: "(rat \<Rightarrow> rat) \<Rightarrow> rat \<Rightarrow> rat \<Rightarrow> pack_item \<Rightarrow> int \<Rightarrow> bin list \<Rightarrow> bin list" where
  "place_item fl carton_volume carton_weight i remaining bins =
     (if remaining \<le> 0 then bins
      else case try_bins fl i remaining bins of
        Some (n, bins') \<Rightarrow> place_item fl carton_volume carton_weight i (remaining - n) bins'
      | None \<Rightarrow>
          (let (n, b) = new_bin fl carton_volume carton_weight i remaining
           in place_item fl carton_volume carton_weight i (remaining - n) (bins @ [b])))"
  by pat_completeness auto
termination
proof (relation "measure (\<lambda>(fl, v, w, i, remaining, bins). nat remaining)", goal_cases)
  case (2 fl v w i remaining bins x n)
  then show ?case using new_bin_pos [of fl v w i remaining] by (auto dest: arg_cong [where f = fst])
next
  case (3 fl v w i remaining bins x n bins')
  then show ?case using try_bins_pos [of fl i remaining bins n] by auto
qed simp

declare place_item.simps [simp del]

definition build_packing_bins ::
  "(rat \<Rightarrow> rat) \<Rightarrow> pack_line list \<Rightarrow> carton_size option \<Rightarrow> (int \<times> int) option \<Rightarrow> db
     \<Rightarrow> bin list option \<times> bin_error list \<times> bin_warning list" where
  "build_packing_bins fl lines carton_size defaults s =
     (case carton_size of
        None \<Rightarrow> (None, [Format_Requis], [])
      | Some z \<Rightarrow>
          (let carton_volume = fl (get_carton_volume_cm3 z); carton_weight = fl (of_int (cz_max_weight_g z));
               sized = map (size_item fl carton_volume carton_weight defaults s) lines;
               errors = concat (map (\<lambda>(_, es, _). es) sized);
               warnings = concat (map (\<lambda>(_, _, ws). ws) sized);
               items = concat (map (\<lambda>(i, _, _). case i of None \<Rightarrow> [] | Some x \<Rightarrow> [x]) sized)
           in if errors \<noteq> [] then (None, errors, warnings)
              else (Some (fold (\<lambda>i. place_item fl carton_volume carton_weight i (bx_quantity i))
                        (sort_key (\<lambda>i. - item_ratio fl carton_volume carton_weight i) items) []), [], warnings)))"

end
