(* ===== verification/Bin_Facts.thy ===== *)
theory Bin_Facts
  imports Bins "HOL-Library.Multiset"
begin

text \<open>
  What the packing keeps: no unit is lost or doubled, and the room left in a carton bounds its load. The
  locale \<open>carton_room\<close> states the second for one measure; weight and volume interpret it.
\<close>

section \<open>What the cartons hold\<close>

definition entry_quantity :: "nat \<Rightarrow> (nat \<times> bin_entry) list \<Rightarrow> int" where
  "entry_quantity p xs = sum_list (map (\<lambda>(q, x). if q = p then be_quantity x else 0) xs)"

definition bins_quantity :: "nat \<Rightarrow> bin list \<Rightarrow> int" where
  "bins_quantity p bs = sum_list (map (\<lambda>b. entry_quantity p (bn_items b)) bs)"

definition bin_load :: "(nat \<Rightarrow> int) \<Rightarrow> bin \<Rightarrow> int" where
  "bin_load extent b = sum_list (map (\<lambda>(p, x). extent p * be_quantity x) (bn_items b))"

definition entries_good :: "bin \<Rightarrow> bool" where
  "entries_good b \<longleftrightarrow> bn_items b \<noteq> [] \<and> distinct (map fst (bn_items b)) \<and> (\<forall>(p, x) \<in> set (bn_items b). 0 < be_quantity x)"

lemma entry_quantity_add [simp]:
  "entry_quantity p (add_entry i n xs) = entry_quantity p xs + (if p = bx_product i then n else 0)"
  by (induction i n xs rule: add_entry.induct) (auto simp: entry_quantity_def)

lemma load_add:
  "sum_list (map (\<lambda>(p, x). extent p * be_quantity x) (add_entry i n xs))
     = sum_list (map (\<lambda>(p, x). extent p * be_quantity x) xs) + extent (bx_product i) * n"
  by (induction i n xs rule: add_entry.induct) (auto simp: algebra_simps)

lemma keys_add_entry: "fst ` set (add_entry i n xs) = insert (bx_product i) (fst ` set xs)"
  by (induction i n xs rule: add_entry.induct) auto

lemma add_entry_good:
  "0 < n \<Longrightarrow> distinct (map fst xs) \<and> (\<forall>(p, x) \<in> set xs. 0 < be_quantity x)
     \<Longrightarrow> distinct (map fst (add_entry i n xs)) \<and> (\<forall>(p, x) \<in> set (add_entry i n xs). 0 < be_quantity x)"
  by (induction i n xs rule: add_entry.induct) (auto simp: keys_add_entry)

lemma fill_bin_good: "0 < n \<Longrightarrow> entries_good b \<Longrightarrow> entries_good (fill_bin fl i n b)"
  using add_entry_good [of n "bn_items b" i] keys_add_entry [of i n "bn_items b"]
  by (auto simp: entries_good_def fill_bin_def)

lemma max_fit_le: "max_fit fl i q v w \<le> q"
  by (auto simp: max_fit_def Let_def min_def)

text \<open>A round of the loop places some units of the item, and not more than are left.\<close>

lemma try_bins_Some:
  assumes "try_bins fl i q bs = Some (n, bs')"
  shows "0 < n" and "n \<le> q" and "bins_quantity p bs' = bins_quantity p bs + (if p = bx_product i then n else 0)"
    and "list_all entries_good bs \<Longrightarrow> list_all entries_good bs'"
    and "list_all P bs \<Longrightarrow> (\<And>b. P b \<Longrightarrow> bx_volume i \<le> bn_remaining_volume b \<Longrightarrow> bx_weight i \<le> bn_remaining_weight b \<Longrightarrow> 0 < n
      \<Longrightarrow> n = max_fit fl i q (bn_remaining_volume b) (bn_remaining_weight b) \<Longrightarrow> P (fill_bin fl i n b)) \<Longrightarrow> list_all P bs'"
  using assms
proof (induction bs arbitrary: bs')
  case (Cons b bs)
  {
    case 1
    then show ?case using try_bins_pos by blast
  next
    case 2
    then show ?case using Cons.IH(2) max_fit_le by (auto simp: Let_def split: if_splits)
  next
    case 3
    then show ?case using Cons.IH(3) by (fastforce simp: Let_def bins_quantity_def fill_bin_def split: if_splits)
  next
    case 4
    then show ?case using Cons.IH(4) fill_bin_good by (auto simp: Let_def split: if_splits)
  next
    case 5
    then show ?case using Cons.IH(5) by (auto simp: Let_def split: if_splits)
  }
qed auto

lemma new_bin_facts:
  assumes "new_bin fl v w i q = (n, b)" and "0 < q"
  shows "0 < n" and "n \<le> q" and "entry_quantity p (bn_items b) = (if p = bx_product i then n else 0)" and "entries_good b"
    and "n = max_fit fl i q v w \<or> n = 1"
    and "b = fill_bin fl i n \<lparr>bn_remaining_volume = v, bn_remaining_weight = w, bn_items = []\<rparr>"
  using assms max_fit_le [of fl i q v w]
  by (auto simp: new_bin_def Let_def entry_quantity_def entries_good_def fill_bin_def split: if_splits)

lemma place_item_induct:
  assumes "P bins"
    and "\<And>q n bs bs'. P bs \<Longrightarrow> 0 < q \<Longrightarrow> try_bins fl i q bs = Some (n, bs') \<Longrightarrow> P bs'"
    and "\<And>q n bs b. P bs \<Longrightarrow> 0 < q \<Longrightarrow> new_bin fl v w i q = (n, b) \<Longrightarrow> P (bs @ [b])"
  shows "P (place_item fl v w i q bins)"
  using assms(1)
proof (induction "nat q" arbitrary: q bins rule: less_induct)
  case less
  show ?case
  proof (cases "q \<le> 0")
    case True
    then show ?thesis using less.prems by (simp add: place_item.simps)
  next
    case False
    show ?thesis
    proof (cases "try_bins fl i q bins")
      case None
      obtain n b where b: "new_bin fl v w i q = (n, b)" by (cases "new_bin fl v w i q")
      have "0 < n" using new_bin_facts(1) [OF b] False by simp
      then have "P (place_item fl v w i (q - n) (bins @ [b]))"
        using less.hyps [of "q - n" "bins @ [b]"] assms(3) [OF less.prems _ b] False by simp
      then show ?thesis using False None b by (subst place_item.simps) simp
    next
      case (Some r)
      obtain n bs' where r: "r = (n, bs')" by (cases r)
      note tr = Some [unfolded r]
      have "P (place_item fl v w i (q - n) bs')"
        using less.hyps [of "q - n" bs'] assms(2) [OF less.prems _ tr] try_bins_Some(1) [OF tr] False by simp
      then show ?thesis using False tr by (subst place_item.simps) simp
    qed
  qed
qed

lemma place_item_quantity:
  "bins_quantity p (place_item fl v w i q bins) = bins_quantity p bins + (if p = bx_product i then max 0 q else 0)"
proof (induction "nat q" arbitrary: q bins rule: less_induct)
  case less
  show ?case
  proof (cases "q \<le> 0")
    case True
    then show ?thesis by (simp add: place_item.simps)
  next
    case False
    show ?thesis
    proof (cases "try_bins fl i q bins")
      case None
      obtain n b where b: "new_bin fl v w i q = (n, b)" by (cases "new_bin fl v w i q")
      have n: "0 < n" "n \<le> q" using new_bin_facts(1,2) [OF b] False by simp_all
      have "bins_quantity p (place_item fl v w i (q - n) (bins @ [b]))
          = bins_quantity p (bins @ [b]) + (if p = bx_product i then max 0 (q - n) else 0)"
        using less.hyps n by simp
      then show ?thesis
        using False None b n new_bin_facts(3) [OF b, of p] by (subst place_item.simps) (simp add: bins_quantity_def)
    next
      case (Some r)
      obtain n bs' where r: "r = (n, bs')" by (cases r)
      note tr = Some [unfolded r]
      have n: "0 < n" "n \<le> q" using try_bins_Some(1,2) [OF tr] by simp_all
      have "bins_quantity p (place_item fl v w i (q - n) bs')
          = bins_quantity p bs' + (if p = bx_product i then max 0 (q - n) else 0)"
        using less.hyps n by simp
      then show ?thesis using False tr n try_bins_Some(3) [OF tr, of p] by (subst place_item.simps) simp
    qed
  qed
qed

section \<open>No carton is overfilled\<close>

text \<open>
  Floats hold the integers up to \<open>2 ^ 53\<close>. Whole sizes stay whole, and what a carton has left is then
  exact; one argument serves the weight and the volume.
\<close>

definition whole_exact :: "(rat \<Rightarrow> rat) \<Rightarrow> bool" where
  "whole_exact fl \<longleftrightarrow> (\<forall>n. \<bar>n\<bar> \<le> 2 ^ 53 \<longrightarrow> fl (of_int n) = of_int n)"

lemma whole_exactD: "whole_exact fl \<Longrightarrow> \<bar>n\<bar> \<le> 2 ^ 53 \<Longrightarrow> fl (of_int n) = of_int n"
  by (simp add: whole_exact_def)

lemma whole_quotient:
  assumes "(0::int) \<le> a" and "0 < b"
  shows "0 \<le> a div b" and "b * (a div b) \<le> a" and "a div b \<le> a"
proof -
  show nonneg: "0 \<le> a div b" using assms by (simp add: pos_imp_zdiv_nonneg_iff)
  have "a = a div b * b + a mod b" by (rule div_mult_mod_eq [symmetric])
  moreover have "0 \<le> a mod b" using assms(2) by simp
  ultimately show part: "b * (a div b) \<le> a" by (metis add.commute le_add_same_cancel2 mult.commute)
  have "1 * (a div b) \<le> b * (a div b)" using assms(2) nonneg by (intro mult_right_mono) auto
  with part show "a div b \<le> a" by simp
qed

lemma float_floor_div_whole:
  assumes "whole_exact fl" and "0 \<le> a" and "a \<le> 2 ^ 53" and "0 < b"
  shows "float_floor_div fl (of_int a) (of_int b) = a div b"
proof -
  have floor: "\<lfloor>(of_int a :: rat) / of_int b\<rfloor> = a div b" by (simp add: floor_divide_of_int_eq)
  have d: "0 \<le> a div b" "a div b \<le> a" "b * (a div b) \<le> a"
    using whole_quotient [OF assms(2,4)] by simp_all
  have "(of_int a :: rat) - (of_int a - of_int b * of_int (a div b)) = of_int (b * (a div b))" by simp
  moreover have "\<bar>b * (a div b)\<bar> \<le> 2 ^ 53" using d assms(3,4) by (simp add: abs_mult)
  ultimately have one: "fl ((of_int a :: rat) - (of_int a - of_int b * of_int (a div b))) = of_int (b * (a div b))"
    by (simp only: whole_exactD [OF assms(1)])
  have "(of_int (b * (a div b)) :: rat) / of_int b = of_int (a div b)" using assms(4) by simp
  moreover have "fl (of_int (a div b)) = of_int (a div b)" using whole_exactD [OF assms(1)] d assms(3) by simp
  ultimately show ?thesis unfolding float_floor_div_def Let_def floor one by simp
qed

locale carton_room =
  fixes room :: "bin \<Rightarrow> rat" and extent :: "pack_item \<Rightarrow> rat"
  assumes room_fill: "room (fill_bin fl i n b) = fl (room b - fl (extent i * fl (of_int n)))"
    and fit_room: "0 < extent i \<Longrightarrow> max_fit fl i q (bn_remaining_volume b) (bn_remaining_weight b) \<le> float_floor_div fl (room b) (extent i)"
begin

definition loaded_within :: "(nat \<Rightarrow> int) \<Rightarrow> int \<Rightarrow> bin \<Rightarrow> bool" where
  "loaded_within sz cap b \<longleftrightarrow> (\<exists>a. room b = of_int a \<and> 0 \<le> a \<and> a \<le> cap \<and> bin_load sz b + a = cap)"

lemma within_load: "loaded_within sz cap b \<Longrightarrow> bin_load sz b \<le> cap"
  by (auto simp: loaded_within_def)

lemma fill_within:
  assumes "whole_exact fl" and "cap \<le> 2 ^ 53" and "loaded_within sz cap b" and "0 < n"
    and "extent i = of_int (sz (bx_product i))" and "0 \<le> sz (bx_product i)"
    and "extent i \<le> room b"
    and "n = max_fit fl i q (bn_remaining_volume b) (bn_remaining_weight b) \<or> n = 1"
  shows "loaded_within sz cap (fill_bin fl i n b)"
proof -
  let ?w = "sz (bx_product i)"
  from assms(3) obtain a where a: "room b = of_int a" "0 \<le> a" "a \<le> cap" "bin_load sz b + a = cap" by (auto simp: loaded_within_def)
  have fits: "?w * n \<le> a" and small: "?w \<noteq> 0 \<Longrightarrow> n \<le> a"
  proof -
    have w: "?w \<le> a" using assms(5,7) a(1) by simp
    show "?w * n \<le> a"
    proof (cases "?w = 0 \<or> n = 1")
      case True
      then show ?thesis using w a(2) by auto
    next
      case False
      then have "0 < ?w" using assms(6) by simp
      have "n \<le> float_floor_div fl (room b) (extent i)" using assms(8) fit_room [of i fl q b] \<open>0 < ?w\<close> assms(5) False by simp
      also have "\<dots> = a div ?w" using float_floor_div_whole [OF assms(1) a(2) _ \<open>0 < ?w\<close>] a(1,3) assms(2,5) by simp
      finally have "?w * n \<le> ?w * (a div ?w)" using \<open>0 < ?w\<close> by simp
      also have "\<dots> \<le> a" using whole_quotient(2) [OF a(2) \<open>0 < ?w\<close>] .
      finally show ?thesis .
    qed
    then show "n \<le> a" if "?w \<noteq> 0"
    proof -
      have "1 * n \<le> ?w * n" using that assms(4,6) by (intro mult_right_mono) auto
      with \<open>?w * n \<le> a\<close> show ?thesis by simp
    qed
  qed
  have "fl (extent i * fl (of_int n)) = of_int (?w * n)"
  proof (cases "?w = 0")
    case True
    then show ?thesis using whole_exactD [OF assms(1), of 0] assms(5) by simp
  next
    case False
    have "\<bar>n\<bar> \<le> 2 ^ 53" using small [OF False] a(3) assms(2,4) by simp
    then have "extent i * fl (of_int n) = of_int (?w * n)" using whole_exactD [OF assms(1)] assms(5) by simp
    moreover have "\<bar>?w * n\<bar> \<le> 2 ^ 53" using fits a(3) assms(2,4,6) by simp
    ultimately show ?thesis by (simp only: whole_exactD [OF assms(1)])
  qed
  moreover have "fl (of_int (a - ?w * n)) = of_int (a - ?w * n)"
  proof (rule whole_exactD [OF assms(1)])
    have "0 \<le> ?w * n" using assms(4,6) by simp
    then show "\<bar>a - ?w * n\<bar> \<le> 2 ^ 53" using fits a(3) assms(2) by simp
  qed
  ultimately have "room (fill_bin fl i n b) = of_int (a - ?w * n)" using room_fill [of fl i n b] a(1) by simp
  moreover have "bin_load sz (fill_bin fl i n b) = bin_load sz b + ?w * n" by (simp add: bin_load_def fill_bin_def load_add)
  moreover have "a - ?w * n \<le> cap" using a(3) assms(4,6) by (simp add: add_increasing2 diff_le_eq)
  ultimately show ?thesis using fits a(4) unfolding loaded_within_def by (intro exI [of _ "a - ?w * n"]) simp
qed

lemma place_within:
  assumes "whole_exact fl" and "0 \<le> cap" and "cap \<le> 2 ^ 53"
    and "extent i = of_int (sz (bx_product i))" and "0 \<le> sz (bx_product i)" and "sz (bx_product i) \<le> cap"
    and "room \<lparr>bn_remaining_volume = v, bn_remaining_weight = w, bn_items = []\<rparr> = of_int cap"
    and "\<And>b. bx_volume i \<le> bn_remaining_volume b \<Longrightarrow> bx_weight i \<le> bn_remaining_weight b \<Longrightarrow> extent i \<le> room b"
    and "list_all (loaded_within sz cap) bins"
  shows "list_all (loaded_within sz cap) (place_item fl v w i q bins)"
proof (rule place_item_induct [where P = "list_all (loaded_within sz cap)", OF assms(9)])
  fix q n bs bs'
  assume bs: "list_all (loaded_within sz cap) bs" and tr: "try_bins fl i q bs = Some (n, bs')"
  show "list_all (loaded_within sz cap) bs'"
    using bs by (rule try_bins_Some(5) [OF tr]) (use fill_within [where fl = fl and cap = cap and sz = sz and i = i and n = n, OF assms(1,3) _ _ assms(4,5)] assms(8) in blast)
next
  fix q n bs b
  assume bs: "list_all (loaded_within sz cap) bs" and q: "0 < q" and b: "new_bin fl v w i q = (n, b)"
  let ?e = "\<lparr>bn_remaining_volume = v, bn_remaining_weight = w, bn_items = []\<rparr>"
  have "loaded_within sz cap ?e" using assms(2,7) by (simp add: loaded_within_def bin_load_def)
  then have "loaded_within sz cap (fill_bin fl i n ?e)"
    by (rule fill_within [where fl = fl and cap = cap and sz = sz and i = i and n = n and q = q, OF assms(1,3) _ new_bin_facts(1) [OF b q] assms(4,5)])
      (use assms(4,6,7) new_bin_facts(5) [OF b q] in simp_all)
  then show "list_all (loaded_within sz cap) (bs @ [b])" using bs new_bin_facts(6) [OF b q] by simp
qed

end

interpretation by_weight: carton_room bn_remaining_weight bx_weight
  by unfold_locales (auto simp: fill_bin_def max_fit_def Let_def min_def)

interpretation by_volume: carton_room bn_remaining_volume bx_volume
  by unfold_locales (auto simp: fill_bin_def max_fit_def Let_def min_def)

section \<open>The packing as a whole\<close>

definition unit_weight :: "(int \<times> int) option \<Rightarrow> db \<Rightarrow> nat \<Rightarrow> int" where
  "unit_weight defaults s p = (case get_product_weight_g s p of
      Some w \<Rightarrow> w
    | None \<Rightarrow> if get_product_volume_cm3 s p = None then (case defaults of None \<Rightarrow> 0 | Some d \<Rightarrow> fst d) else 0)"

definition unit_volume :: "(int \<times> int) option \<Rightarrow> db \<Rightarrow> nat \<Rightarrow> int" where
  "unit_volume defaults s p = (case get_product_volume_cm3 s p of
      Some v \<Rightarrow> \<lfloor>v\<rfloor>
    | None \<Rightarrow> if get_product_weight_g s p = None then (case defaults of None \<Rightarrow> 0 | Some d \<Rightarrow> snd d) else 0)"

definition whole_volume :: "db \<Rightarrow> nat \<Rightarrow> bool" where
  "whole_volume s p \<longleftrightarrow> (case get_product_volume_cm3 s p of None \<Rightarrow> True | Some v \<Rightarrow> v = of_int \<lfloor>v\<rfloor> \<and> v \<le> 2 ^ 53)"

definition asked :: "nat \<Rightarrow> pack_line list \<Rightarrow> int" where
  "asked p lines = sum_list (map (\<lambda>l. if pk_product l = p then max 0 (pk_quantity l) else 0) lines)"

lemma get_product_weight_pos: "get_product_weight_g s p = Some w \<Longrightarrow> 0 < w"
  by (auto simp: get_product_weight_g_def Let_def split: sum.splits list.splits if_splits)

lemma get_product_volume_pos: "get_product_volume_cm3 s p = Some v \<Longrightarrow> 0 < v"
  by (auto simp: get_product_volume_cm3_def Let_def split: sum.splits list.splits if_splits)

lemma size_item_product: "size_item fl v w defaults s l = (Some i, es, ws) \<Longrightarrow>
    bx_product i = pk_product l \<and> bx_quantity i = pk_quantity l"
  by (auto simp: size_item_def Let_def split: if_splits)

lemma size_item_None: "size_item fl v w defaults s l = (None, es, ws) \<Longrightarrow> es \<noteq> []"
  by (auto simp: size_item_def Let_def split: if_splits)

lemma size_item_weight:
  assumes "size_item fl v (of_int cap) defaults s l = (Some i, [], ws)" and "whole_exact fl" and "cap \<le> 2 ^ 53"
    and "\<And>d. defaults = Some d \<Longrightarrow> 0 \<le> fst d"
  shows "bx_weight i = of_int (unit_weight defaults s (pk_product l))" and "0 \<le> unit_weight defaults s (pk_product l)"
    and "0 \<le> cap \<Longrightarrow> unit_weight defaults s (pk_product l) \<le> cap"
proof -
  let ?u = "unit_weight defaults s (pk_product l)"
  show nonneg: "0 \<le> ?u"
    using assms(4) get_product_weight_pos [of s "pk_product l"]
    by (auto simp: unit_weight_def less_imp_le split: option.splits)
  have "(bx_weight i = fl (of_int ?u) \<and> ?u \<le> cap) \<or> (bx_weight i = 0 \<and> ?u = 0)"
    using assms(1) by (auto simp: size_item_def Let_def unit_weight_def split: if_splits option.splits)
  then show "bx_weight i = of_int ?u" and "0 \<le> cap \<Longrightarrow> ?u \<le> cap"
    using nonneg assms(3) whole_exactD [OF assms(2), of ?u] by auto
qed

lemma size_item_volume:
  assumes "size_item fl (of_int cap) w defaults s l = (Some i, [], ws)" and "whole_exact fl" and "cap \<le> 2 ^ 53"
    and "\<And>d. defaults = Some d \<Longrightarrow> 0 \<le> snd d \<and> snd d \<le> 2 ^ 53" and "whole_volume s (pk_product l)"
  shows "bx_volume i = of_int (unit_volume defaults s (pk_product l))" and "0 \<le> unit_volume defaults s (pk_product l)"
    and "0 \<le> cap \<Longrightarrow> unit_volume defaults s (pk_product l) \<le> cap"
proof -
  let ?u = "unit_volume defaults s (pk_product l)"
  have small: "0 \<le> ?u \<and> ?u \<le> 2 ^ 53"
  proof (cases "get_product_volume_cm3 s (pk_product l)")
    case None
    then show ?thesis using assms(4) by (auto simp: unit_volume_def split: option.split)
  next
    case (Some x)
    then have "0 < x" "x \<le> 2 ^ 53" using get_product_volume_pos assms(5) by (auto simp: whole_volume_def)
    then show ?thesis using Some by (simp add: unit_volume_def floor_le_iff)
  qed
  then show "0 \<le> ?u" by simp
  have exact: "fl (of_int ?u) = of_int ?u" using small whole_exactD [OF assms(2), of ?u] by simp
  have "(bx_volume i = fl (of_int ?u) \<and> fl (of_int ?u) \<le> of_int cap) \<or> (bx_volume i = 0 \<and> ?u = 0)"
    using assms(1,5) by (auto simp: size_item_def Let_def unit_volume_def whole_volume_def split: if_splits option.splits)
  then show "bx_volume i = of_int ?u" and "0 \<le> cap \<Longrightarrow> ?u \<le> cap" using exact by auto
qed

text \<open>The items of lines without errors.\<close>

lemma sized_items:
  assumes "concat (map (\<lambda>(_, es, _). es) (map f lines)) = ([] :: bin_error list)"
    and "\<And>l es ws. f l = (None, es, ws) \<Longrightarrow> es \<noteq> []"
  shows "\<forall>i \<in> set (concat (map (\<lambda>(i, _, _). case i of None \<Rightarrow> [] | Some x \<Rightarrow> [x]) (map f lines))).
      \<exists>l \<in> set lines. \<exists>ws. f l = (Some i, [], ws)"
    and "(\<And>l i es ws. f l = (Some i, es, ws) \<Longrightarrow> g i = h l) \<Longrightarrow>
      map g (concat (map (\<lambda>(i, _, _). case i of None \<Rightarrow> [] | Some x \<Rightarrow> [x]) (map f lines))) = map h lines"
  using assms(1)
proof (induction lines)
  case (Cons l lines)
  obtain i es ws where l: "f l = (i, es, ws)" by (cases "f l")
  {
    case 1
    then have "es = []" using l by simp
    then obtain x where "i = Some x" using assms(2) l by (cases i) auto
    then show ?case using Cons.IH(1) 1 l \<open>es = []\<close> by auto
  next
    case 2
    then have "es = []" using l by simp
    then obtain x where "i = Some x" using assms(2) l by (cases i) auto
    then show ?case using Cons.IH(2) 2 l by auto
  }
qed simp_all

lemma fold_places:
  assumes "P bs" and "\<And>i bs. i \<in> set items \<Longrightarrow> P bs \<Longrightarrow> P (place_item fl v w i (bx_quantity i) bs)"
  shows "P (fold (\<lambda>i. place_item fl v w i (bx_quantity i)) items bs)"
  using assms by (induction items arbitrary: bs) auto

lemma fold_places_quantity:
  "bins_quantity p (fold (\<lambda>i. place_item fl v w i (bx_quantity i)) items bs)
     = bins_quantity p bs + sum_list (map (\<lambda>i. if bx_product i = p then max 0 (bx_quantity i) else 0) items)"
  by (induction items arbitrary: bs) (auto simp: place_item_quantity)

lemma place_item_good: "list_all entries_good bs \<Longrightarrow> list_all entries_good (place_item fl v w i q bs)"
proof (rule place_item_induct [where P = "list_all entries_good"])
  fix q n bs bs'
  assume "list_all entries_good bs" and tr: "try_bins fl i q bs = Some (n, bs')"
  then show "list_all entries_good bs'" using try_bins_Some(4) [OF tr] by simp
next
  fix q n bs b
  assume "list_all entries_good bs" and "(0::int) < q" and b: "new_bin fl v w i q = (n, b)"
  then show "list_all entries_good (bs @ [b])" using new_bin_facts(4) [OF b] by simp
qed

text \<open>What a packing that succeeds comes to.\<close>

lemma build_packing_bins_Some:
  assumes "build_packing_bins fl lines (Some z) defaults s = (Some bins, es, ws)"
  obtains items where
    "bins = fold (\<lambda>i. place_item fl (fl (get_carton_volume_cm3 z)) (fl (of_int (cz_max_weight_g z))) i (bx_quantity i)) items []"
    and "\<forall>i \<in> set items. \<exists>l \<in> set lines. \<exists>ws. size_item fl (fl (get_carton_volume_cm3 z)) (fl (of_int (cz_max_weight_g z))) defaults s l = (Some i, [], ws)"
    and "\<And>p. sum_list (map (\<lambda>i. if bx_product i = p then max 0 (bx_quantity i) else 0) items) = asked p lines"
    and "es = []"
proof -
  let ?f = "size_item fl (fl (get_carton_volume_cm3 z)) (fl (of_int (cz_max_weight_g z))) defaults s"
  define xs where "xs = concat (map (\<lambda>(i, _, _). case i of None \<Rightarrow> [] | Some x \<Rightarrow> [x]) (map ?f lines))"
  define r where "r = item_ratio fl (fl (get_carton_volume_cm3 z)) (fl (of_int (cz_max_weight_g z)))"
  from assms have none: "concat (map (\<lambda>(_, es, _). es) (map ?f lines)) = []" and es: "es = []"
    and bins: "bins = fold (\<lambda>i. place_item fl (fl (get_carton_volume_cm3 z)) (fl (of_int (cz_max_weight_g z))) i (bx_quantity i))
        (sort_key (\<lambda>i. - r i) xs) []"
    unfolding build_packing_bins_def Let_def option.case xs_def r_def by (simp_all split: if_splits)
  have "map (\<lambda>i. if bx_product i = p then max 0 (bx_quantity i) else 0) xs
      = map (\<lambda>l. if pk_product l = p then max 0 (pk_quantity l) else 0) lines" for p
    unfolding xs_def
    by (rule sized_items(2) [where f = ?f and lines = lines, OF none])
      (erule size_item_None, drule size_item_product, simp)
  moreover have "sum_list (map g (sort_key (\<lambda>i. - r i) xs)) = (sum_list (map g xs) :: int)" for g
  proof -
    have "mset (map g (sort_key (\<lambda>i. - r i) xs)) = mset (map g xs)" by simp
    then show ?thesis by (metis sum_mset_sum_list)
  qed
  ultimately have sum: "sum_list (map (\<lambda>i. if bx_product i = p then max 0 (bx_quantity i) else 0) (sort_key (\<lambda>i. - r i) xs)) = asked p lines" for p
    by (simp only: asked_def)
  have "\<forall>i \<in> set (sort_key (\<lambda>i. - r i) xs). \<exists>l \<in> set lines. \<exists>ws. ?f l = (Some i, [], ws)"
    using sized_items(1) [where f = ?f and lines = lines, OF none size_item_None] unfolding xs_def [symmetric] by simp
  then show thesis by (rule that [OF bins _ sum es])
qed

end
