(* ===== verification/Bin_Properties.thy ===== *)
theory Bin_Properties
  imports Bin_Facts Samples
begin

text \<open>
  The property of the packing, on a small warehouse.
\<close>

section \<open>The packing of lines into cartons\<close>

definition defaults_sane :: "(int \<times> int) option \<Rightarrow> bool" where
  "defaults_sane defaults \<longleftrightarrow> (case defaults of None \<Rightarrow> True | Some d \<Rightarrow> 0 \<le> fst d \<and> 0 \<le> snd d \<and> snd d \<le> 2 ^ 53)"

definition loads_at_most :: "(nat \<Rightarrow> int) \<Rightarrow> int \<Rightarrow> bin list \<Rightarrow> bool" where
  "loads_at_most extent cap bins = list_all (\<lambda>b. bin_load extent b \<le> cap) bins"

lemma packing_weights:
  assumes "build_packing_bins fl lines (Some z) defaults s = (Some bins, es, ws)" and "whole_exact fl"
    and "0 \<le> cz_max_weight_g z" and "cz_max_weight_g z \<le> 2 ^ 53" and "defaults_sane defaults"
  shows "loads_at_most (unit_weight defaults s) (cz_max_weight_g z) bins"
proof -
  let ?v = "fl (get_carton_volume_cm3 z)" and ?c = "cz_max_weight_g z"
  have c: "fl (of_int ?c) = of_int ?c" using assms(2-4) by (simp add: whole_exactD)
  obtain items where bins: "bins = fold (\<lambda>i. place_item fl ?v (of_int ?c) i (bx_quantity i)) items []"
    and items: "\<forall>i \<in> set items. \<exists>l \<in> set lines. \<exists>ws. size_item fl ?v (of_int ?c) defaults s l = (Some i, [], ws)"
    using build_packing_bins_Some [OF assms(1)] unfolding c by metis
  have "list_all (by_weight.loaded_within (unit_weight defaults s) ?c) bins"
    unfolding bins
  proof (rule fold_places)
    fix i bs assume i: "i \<in> set items" and bs: "list_all (by_weight.loaded_within (unit_weight defaults s) ?c) bs"
    then obtain l ws where l: "size_item fl ?v (of_int ?c) defaults s l = (Some i, [], ws)" using items by blast
    have d: "\<And>d. defaults = Some d \<Longrightarrow> 0 \<le> fst d" using assms(5) by (simp add: defaults_sane_def)
    note w = size_item_weight [OF l assms(2,4) d]
    have p: "bx_product i = pk_product l" using size_item_product [OF l] by simp
    show "list_all (by_weight.loaded_within (unit_weight defaults s) ?c) (place_item fl ?v (of_int ?c) i (bx_quantity i) bs)"
      by (rule by_weight.place_within [OF assms(2-4) _ _ _ _ _ bs]) (use w assms(3) p in simp_all)
  qed simp
  then show ?thesis unfolding loads_at_most_def by (rule list.pred_mono_strong) (rule by_weight.within_load)
qed

lemma packing_volumes:
  assumes "build_packing_bins fl lines (Some z) defaults s = (Some bins, es, ws)" and "whole_exact fl"
    and "get_carton_volume_cm3 z = of_int cap" and "0 \<le> cap" and "cap \<le> 2 ^ 53" and "defaults_sane defaults"
    and "list_all (\<lambda>l. whole_volume s (pk_product l)) lines"
  shows "loads_at_most (unit_volume defaults s) cap bins"
proof -
  let ?w = "fl (of_int (cz_max_weight_g z))"
  have c: "fl (get_carton_volume_cm3 z) = of_int cap" using assms(2-5) by (simp add: whole_exactD)
  obtain items where bins: "bins = fold (\<lambda>i. place_item fl (of_int cap) ?w i (bx_quantity i)) items []"
    and items: "\<forall>i \<in> set items. \<exists>l \<in> set lines. \<exists>ws. size_item fl (of_int cap) ?w defaults s l = (Some i, [], ws)"
    using build_packing_bins_Some [OF assms(1)] unfolding c by metis
  have "list_all (by_volume.loaded_within (unit_volume defaults s) cap) bins"
    unfolding bins
  proof (rule fold_places)
    fix i bs assume i: "i \<in> set items" and bs: "list_all (by_volume.loaded_within (unit_volume defaults s) cap) bs"
    then obtain l ws where l: "size_item fl (of_int cap) ?w defaults s l = (Some i, [], ws)" and "l \<in> set lines" using items by blast
    then have whole: "whole_volume s (pk_product l)" using assms(7) by (simp add: list_all_iff)
    have d: "\<And>d. defaults = Some d \<Longrightarrow> 0 \<le> snd d \<and> snd d \<le> 2 ^ 53" using assms(6) by (simp add: defaults_sane_def)
    note w = size_item_volume [OF l assms(2,5) d whole]
    have p: "bx_product i = pk_product l" using size_item_product [OF l] by simp
    show "list_all (by_volume.loaded_within (unit_volume defaults s) cap) (place_item fl (of_int cap) ?w i (bx_quantity i) bs)"
      by (rule by_volume.place_within [OF assms(2,4,5) _ _ _ _ _ bs]) (use w assms(4) p in simp_all)
  qed simp
  then show ?thesis unfolding loads_at_most_def by (rule list.pred_mono_strong) (rule by_volume.within_load)
qed

lemma packing_quantities:
  assumes "build_packing_bins fl lines (Some z) defaults s = (Some bins, es, ws)"
  shows "bins_quantity p bins = asked p lines \<and> list_all entries_good bins"
proof -
  let ?f = "\<lambda>i. place_item fl (fl (get_carton_volume_cm3 z)) (fl (of_int (cz_max_weight_g z))) i (bx_quantity i)"
  obtain items where bins: "bins = fold ?f items []"
    and sum: "\<And>p. sum_list (map (\<lambda>i. if bx_product i = p then max 0 (bx_quantity i) else 0) items) = asked p lines"
    by (rule build_packing_bins_Some [OF assms], blast)
  have "list_all entries_good bins"
    unfolding bins by (rule fold_places) (simp, rule place_item_good)
  moreover have "bins_quantity p bins = asked p lines"
    unfolding bins fold_places_quantity sum by (simp add: bins_quantity_def)
  ultimately show ?thesis by simp
qed

text \<open>
  C9: When lines are packed into cartons of a size, every unit asked for is in exactly one carton and
  no carton is empty or lists a product twice. In double precision (exact on whole numbers up to
  2 to the 53), with defaults that are not negative, no carton is heavier than the maximum weight of
  the size, when that is not negative and at most 2 to the 53; and no carton is fuller than the
  volume of the size, when that is a whole number up to 2 to the 53 and so are the known volumes of the
  products of the lines.
\<close>
theorem packing_bins_sound:
  assumes "build_packing_bins fl lines (Some z) defaults s = (Some bins, es, ws)" and "whole_exact fl"
    and "defaults_sane defaults"
  shows "bins_quantity p bins = asked p lines \<and> list_all entries_good bins
    \<and> (0 \<le> cz_max_weight_g z \<and> cz_max_weight_g z \<le> 2 ^ 53
         \<longrightarrow> loads_at_most (unit_weight defaults s) (cz_max_weight_g z) bins)
    \<and> (get_carton_volume_cm3 z = of_int cap \<and> 0 \<le> cap \<and> cap \<le> 2 ^ 53
         \<and> list_all (\<lambda>l. whole_volume s (pk_product l)) lines
         \<longrightarrow> loads_at_most (unit_volume defaults s) cap bins)"
  using packing_quantities [OF assms(1)] packing_weights [OF assms(1,2) _ _ assms(3)]
    packing_volumes [OF assms(1,2) _ _ _ assms(3)] by blast

definition packing_size :: carton_size where
  "packing_size = \<lparr>cz_length_cm = 10, cz_width_cm = 10, cz_height_cm = 10, cz_max_weight_g = 250\<rparr>"

definition packing_lines :: "pack_line list" where
  "packing_lines = [\<lparr>pk_product = 1, pk_quantity = 3, pk_expires_on = None\<rparr>,
     \<lparr>pk_product = 2, pk_quantity = 2, pk_expires_on = Some (Date 2027 1 1)\<rparr>]"

text \<open>Of the first product one unit fits by volume; of the second two fit by weight.\<close>

definition packing_db :: db where
  "packing_db = sample_db\<lparr>db_products := [(1, (sample_product ''P1'')\<lparr>p_volume_cm3 := Some 600\<rparr>),
     (2, (sample_product ''P2'')\<lparr>p_volume_cm3 := Some 300\<rparr>)]\<rparr>"

definition packed_bins :: "bin list" where
  "packed_bins = the (fst (build_packing_bins (\<lambda>x. x) packing_lines (Some packing_size) None packing_db))"

lemma packing_example: "build_packing_bins (\<lambda>x. x) packing_lines (Some packing_size) None packing_db = (Some packed_bins, [], [])"
  by code_simp

theorem packing_bins_sound_witness:
  "bins_quantity 1 packed_bins = 3 \<and> loads_at_most (unit_weight None packing_db) 250 packed_bins
   \<and> loads_at_most (unit_volume None packing_db) 1000 packed_bins
   \<and> map (bin_load (unit_volume None packing_db)) packed_bins = [900, 900, 600]"
proof -
  have "whole_exact (\<lambda>x. x)" by (simp add: whole_exact_def)
  moreover have "asked 1 packing_lines = 3" by code_simp
  moreover have "get_product_volume_cm3 packing_db 1 = Some 600" and "get_product_volume_cm3 packing_db 2 = Some 300"
    by code_simp+
  then have "list_all (\<lambda>l. whole_volume packing_db (pk_product l)) packing_lines"
    by (simp add: packing_lines_def whole_volume_def Ints_def)
  moreover have "map (bin_load (unit_volume None packing_db)) packed_bins = [900, 900, 600]" by code_simp
  ultimately show ?thesis
    using packing_bins_sound [OF packing_example, of 1 1000]
    by (simp add: packing_size_def defaults_sane_def get_carton_volume_cm3_def)
qed

end
