(* ===== verification/Order_Preparation.thy ===== *)
theory Order_Preparation
  imports Reservations Bins Parties
begin

text \<open>
  From an order to its shipment and cartons (\<open>wms/domain/orders.py\<close>): the parties of the shipment as the
  snapshot keeps them (\<open>wms/shipment_party_snapshot.py\<close>), the shipment created or completed from the order,
  ready cartons assigned to it, and the rest packed from the reservations. The snapshots and the token of a
  new shipment stand beside the tables; the parties are read.
\<close>

section \<open>The parties of a shipment, written down\<close>

text \<open>
  The column \<open>party_snapshot\<close>: the three parties as they were named when the shipment was created. It is
  kept beside the rows of the shipments; a shipment without an entry has none.
\<close>

datatype contact_reference =
    No_Contact string
  | Contact_Reference nat string string string string "string list" string string

record snapshot_entry =
  se_label :: string
  se_contact_label :: string
  se_organization_label :: string
  se_contact :: contact_reference
  se_organization :: contact_reference

record party_snapshot =
  sn_shipper :: snapshot_entry
  sn_recipient :: snapshot_entry
  sn_correspondent :: snapshot_entry

definition contact_row :: "nat option \<Rightarrow> db \<Rightarrow> (nat \<times> contact) option" where
  "contact_row c d = (case c of None \<Rightarrow> None | Some k \<Rightarrow> map_option (Pair k) (row_get (db_contacts d) k))"

fun distinct_emails :: "string list \<Rightarrow> string list \<Rightarrow> string list" where
  "distinct_emails seen [] = []"
| "distinct_emails seen (v # vs) =
     (let x = strip v; key = str_lower x in
      if x \<noteq> [] \<and> key \<notin> set seen then x # distinct_emails (key # seen) vs else distinct_emails seen vs)"

definition contact_emails :: "contact \<Rightarrow> string list" where
  "contact_emails c = distinct_emails [] [con_email c, con_email2 c]"

definition build_party_contact_reference :: "nat option \<Rightarrow> string \<Rightarrow> db \<Rightarrow> contact_reference" where
  "build_party_contact_reference c fallback d =
     (case contact_row c d of
        None \<Rightarrow> No_Contact (strip fallback)
      | Some (k, x) \<Rightarrow> Contact_Reference k (con_name x) (con_title x) (con_first_name x) (con_last_name x)
          (contact_emails x) (con_phone x) (con_phone2 x))"

definition join_spaces :: "string list \<Rightarrow> string" where
  "join_spaces xs = (case filter (\<lambda>x. x \<noteq> []) xs of [] \<Rightarrow> [] | y # ys \<Rightarrow> fold (\<lambda>x a. a @ '' '' @ x) ys y)"

definition build_person_label :: "contact \<Rightarrow> string" where
  "build_person_label c =
     (let title = strip (con_title c); first_name = strip (con_first_name c); last_name = strip (con_last_name c) in
      if title \<noteq> [] \<or> first_name \<noteq> [] \<or> last_name \<noteq> []
      then join_spaces [title, first_name, str_upper last_name]
      else strip (con_name c))"

definition build_shipment_party_contact_label :: "nat option \<Rightarrow> string \<Rightarrow> db \<Rightarrow> string" where
  "build_shipment_party_contact_label c fallback d =
     (case contact_row c d of
        None \<Rightarrow> strip fallback
      | Some (k, x) \<Rightarrow> if con_type x = Con_Person then build_person_label x
                       else if strip (con_name x) \<noteq> [] then strip (con_name x) else strip fallback)"

definition organization_label :: "nat option \<Rightarrow> db \<Rightarrow> string" where
  "organization_label c d = strip (contact_name (normalize_party_contact_to_org c d) d)"

definition build_shipment_party_label :: "nat option \<Rightarrow> string \<Rightarrow> db \<Rightarrow> string" where
  "build_shipment_party_label c fallback d =
     (let label = build_shipment_party_contact_label c fallback d; org = organization_label c d in
      if org \<noteq> [] \<and> label \<noteq> [] \<and> str_lower org \<noteq> str_lower label then label @ '', '' @ org
      else if label \<noteq> [] then label else if org \<noteq> [] then org else strip fallback)"

definition build_shipment_party_snapshot_entry :: "nat option \<Rightarrow> string \<Rightarrow> db \<Rightarrow> snapshot_entry" where
  "build_shipment_party_snapshot_entry c fallback d =
     (let label = build_shipment_party_contact_label c fallback d; org = organization_label c d in
      \<lparr>se_label = build_shipment_party_label c fallback d, se_contact_label = label, se_organization_label = org,
       se_contact = build_party_contact_reference c label d,
       se_organization = build_party_contact_reference (normalize_party_contact_to_org c d) org d\<rparr>)"

definition build_shipment_party_snapshot ::
  "nat option \<times> string \<Rightarrow> nat option \<times> string \<Rightarrow> nat option \<times> string \<Rightarrow> db \<Rightarrow> party_snapshot" where
  "build_shipment_party_snapshot shipper recipient correspondent d =
     \<lparr>sn_shipper = build_shipment_party_snapshot_entry (fst shipper) (snd shipper) d,
      sn_recipient = build_shipment_party_snapshot_entry (fst recipient) (snd recipient) d,
      sn_correspondent = build_shipment_party_snapshot_entry (fst correspondent) (snd correspondent) d\<rparr>"

section \<open>The shipment of an order\<close>

record prep_db =
  pd_db :: db
  pd_snapshots :: "(nat \<times> party_snapshot) list"

definition active_contact :: "nat option \<Rightarrow> db \<Rightarrow> nat option" where
  "active_contact c d = (case c of None \<Rightarrow> None | Some k \<Rightarrow> if contact_active k d then Some k else None)"

definition resolve_shipper_contact_for_order :: "order \<Rightarrow> db \<Rightarrow> nat option" where
  "resolve_shipper_contact_for_order o' d =
     (case active_contact (o_shipper_contact o') d of
        Some k \<Rightarrow> Some k | None \<Rightarrow> active_contact (o_association_contact o') d)"

definition resolve_recipient_contact_for_order :: "order \<Rightarrow> db \<Rightarrow> nat option" where
  "resolve_recipient_contact_for_order o' d = active_contact (o_recipient_contact o') d"

definition requires_recipient_binding_for_order :: "order \<Rightarrow> nat option \<Rightarrow> db \<Rightarrow> bool" where
  "requires_recipient_binding_for_order o' recipient d \<longleftrightarrow>
     recipient \<noteq> None \<and> recipient \<noteq> active_contact (o_association_contact o') d"

definition resolve_destination_for_order :: "order \<Rightarrow> db \<Rightarrow> nat option" where
  "resolve_destination_for_order o' d =
     (let city = strip (o_destination_city o'); country = strip (o_destination_country o') in
      if city = [] then None
      else (case sort_key fst (rows_where (\<lambda>_ x. d_is_active x \<and> str_lower (d_city x) = str_lower city
              \<and> (country = [] \<or> str_lower (d_country x) = str_lower country)) (db_destinations d)) of
              [] \<Rightarrow> None | (k, _) # _ \<Rightarrow> Some k))"

definition resolve_correspondent_contact_for_order :: "order \<Rightarrow> nat \<Rightarrow> db \<Rightarrow> nat option" where
  "resolve_correspondent_contact_for_order o' dest d =
     (case active_contact (o_correspondent_contact o') d of
        Some k \<Rightarrow> Some k
      | None \<Rightarrow> (case row_get (db_destinations d) dest of
            None \<Rightarrow> None | Some x \<Rightarrow> active_contact (Some (d_correspondent_contact x)) d))"

definition build_destination_label :: "nat \<Rightarrow> db \<Rightarrow> string" where
  "build_destination_label dest d =
     (case row_get (db_destinations d) dest of
        None \<Rightarrow> []
      | Some x \<Rightarrow> d_city x @ (if d_iata_code x = [] then [] else '' ('' @ d_iata_code x @ '')'')
          @ (if d_country x = [] then [] else '' - '' @ d_country x))"

definition first_filled :: "string \<Rightarrow> string \<Rightarrow> string" where
  "first_filled x y = (if x = [] then y else x)"

record shipment_defaults =
  sd_shipper_name :: string
  sd_shipper :: nat
  sd_recipient_name :: string
  sd_recipient :: nat
  sd_correspondent_name :: string
  sd_correspondent :: "nat option"
  sd_destination :: nat
  sd_destination_address :: string
  sd_destination_country :: string
  sd_requested_delivery_date :: "date option"
  sd_created_by :: "nat option"
  sd_snapshot :: party_snapshot

definition party_failure :: "party_error + 'a \<Rightarrow> err + 'a" where
  "party_failure r = (case r of Inl x \<Rightarrow> Inl (Stock_Error (Partie_Invalide (party_message x))) | Inr y \<Rightarrow> Inr y)"

definition build_shipment_defaults_from_order :: "order \<Rightarrow> db \<Rightarrow> party_db \<Rightarrow> err + shipment_defaults" where
  "build_shipment_defaults_from_order o' d s =
     (let shipper = resolve_shipper_contact_for_order o' d;
          recipient = resolve_recipient_contact_for_order o' d;
          destination = resolve_destination_for_order o' d;
          shipper_org = normalize_party_contact_to_org shipper d;
          recipient_org = normalize_party_contact_to_org recipient d
      in
      res_bind (require shipper (Stock_Error (Partie_Invalide ''Expediteur requis.''))) (\<lambda>sc.
      res_bind (require recipient (Stock_Error (Partie_Invalide ''Destinataire requis.''))) (\<lambda>rc.
      res_bind (require destination (Stock_Error (Partie_Invalide ''Escale requise.''))) (\<lambda>dest.
      res_bind (party_failure (resolve_shipper_for_operation shipper_org destination d s)) (\<lambda>_.
      res_bind (if requires_recipient_binding_for_order o' recipient d
                then res_bind (party_failure (resolve_recipient_binding_for_operation shipper_org recipient_org destination d s)) (\<lambda>_. Inr ())
                else Inr ()) (\<lambda>_.
        let correspondent = resolve_correspondent_contact_for_order o' dest d;
            shipper_name = strip (contact_name shipper d);
            recipient_name = strip (contact_name recipient d);
            correspondent_name = strip (case correspondent of None \<Rightarrow> o_correspondent_name o' | Some k \<Rightarrow> contact_name (Some k) d);
            country = (case row_get (db_destinations d) dest of None \<Rightarrow> [] | Some x \<Rightarrow> strip (d_country x))
        in Inr \<lparr>sd_shipper_name = shipper_name, sd_shipper = sc, sd_recipient_name = recipient_name, sd_recipient = rc,
             sd_correspondent_name = correspondent_name, sd_correspondent = correspondent, sd_destination = dest,
             sd_destination_address = build_destination_label dest d,
             sd_destination_country = first_filled country (first_filled (strip (o_destination_country o')) ''France''),
             sd_requested_delivery_date = o_requested_delivery_date o', sd_created_by = o_created_by o',
             sd_snapshot = build_shipment_party_snapshot (shipper, shipper_name) (recipient, recipient_name)
               (correspondent, correspondent_name) d\<rparr>))))))"

text \<open>An existing shipment only gets what it does not have yet.\<close>

definition fill_name :: "string \<Rightarrow> string \<Rightarrow> string" where
  "fill_name current new = (if new \<noteq> [] \<and> strip current = [] then new else current)"

definition fill_option :: "'a option \<Rightarrow> 'a option \<Rightarrow> 'a option" where
  "fill_option current new = (if current = None then new else current)"

definition fill_blanks :: "shipment_defaults \<Rightarrow> shipment \<Rightarrow> shipment" where
  "fill_blanks v r = r\<lparr>
     s_shipper_name := fill_name (s_shipper_name r) (sd_shipper_name v),
     s_shipper_contact_ref := fill_option (s_shipper_contact_ref r) (Some (sd_shipper v)),
     s_shipper_contact := first_filled (s_shipper_contact r) (sd_shipper_name v),
     s_recipient_name := fill_name (s_recipient_name r) (sd_recipient_name v),
     s_recipient_contact_ref := fill_option (s_recipient_contact_ref r) (Some (sd_recipient v)),
     s_recipient_contact := first_filled (s_recipient_contact r) (sd_recipient_name v),
     s_correspondent_name := fill_name (s_correspondent_name r) (sd_correspondent_name v),
     s_correspondent_contact_ref := fill_option (s_correspondent_contact_ref r) (sd_correspondent v),
     s_destination := fill_option (s_destination r) (Some (sd_destination v)),
     s_destination_address := first_filled (s_destination_address r) (sd_destination_address v),
     s_destination_country := first_filled (s_destination_country r) (sd_destination_country v),
     s_requested_delivery_date := fill_option (s_requested_delivery_date r) (sd_requested_delivery_date v),
     s_created_by := fill_option (s_created_by r) (sd_created_by v)\<rparr>"

definition sync_existing_shipment_from_order :: "env \<Rightarrow> nat \<Rightarrow> shipment_defaults \<Rightarrow> prep_db \<Rightarrow> err + prep_db" where
  "sync_existing_shipment_from_order e k v s =
     res_bind (require (row_get (db_shipments (pd_db s)) k) Does_Not_Exist) (\<lambda>r.
       let missing = (k \<notin> fst ` set (pd_snapshots s)) in
       if fill_blanks v r = r \<and> \<not> missing then Inr s
       else res_bind (shipment_save e k (fill_blanks v) (pd_db s)) (\<lambda>d.
         Inr (s\<lparr>pd_db := d, pd_snapshots := (if missing then pd_snapshots s @ [(k, sd_snapshot v)] else pd_snapshots s)\<rparr>)))"

definition shipment_of_defaults :: "env \<Rightarrow> nat \<Rightarrow> shipment_defaults \<Rightarrow> shipment" where
  "shipment_of_defaults e token v = \<lparr>s_reference = [], s_tracking_token = token, s_status = Ship_Draft,
     s_shipper_name = sd_shipper_name v, s_shipper_contact_ref = Some (sd_shipper v), s_shipper_contact = sd_shipper_name v,
     s_recipient_name = sd_recipient_name v, s_recipient_contact_ref = Some (sd_recipient v),
     s_recipient_contact = sd_recipient_name v, s_correspondent_name = sd_correspondent_name v,
     s_correspondent_contact_ref = sd_correspondent v, s_destination = Some (sd_destination v),
     s_destination_address = sd_destination_address v, s_destination_country = sd_destination_country v,
     s_requested_delivery_date = sd_requested_delivery_date v, s_is_disputed = False, s_disputed_at = None,
     s_created_at = e_now e, s_ready_at = None, s_archived_at = None, s_closed_at = None, s_closed_by = None,
     s_created_by = sd_created_by v, s_notes = []\<rparr>"

definition create_shipment_for_order :: "env \<Rightarrow> nat \<Rightarrow> party_db \<Rightarrow> nat \<Rightarrow> prep_db \<Rightarrow> err + nat \<times> prep_db" where
  "create_shipment_for_order e token parties order s =
     res_bind (require (row_get (db_orders (pd_db s)) order) Does_Not_Exist) (\<lambda>o'.
     res_bind (build_shipment_defaults_from_order o' (pd_db s) parties) (\<lambda>v.
       case o_shipment o' of
         Some k \<Rightarrow> res_bind (sync_existing_shipment_from_order e k v s) (\<lambda>s'. Inr (k, s'))
       | None \<Rightarrow>
           res_bind (shipment_create e (shipment_of_defaults e token v) (pd_db s)) (\<lambda>(k, d).
             Inr (k, s\<lparr>pd_db := write_order order (\<lambda>x. x\<lparr>o_shipment := Some k\<rparr>) d,
                       pd_snapshots := pd_snapshots s @ [(k, sd_snapshot v)]\<rparr>))))"

section \<open>Ready cartons\<close>

definition line_of_product :: "nat \<Rightarrow> (nat \<times> order_line) list \<Rightarrow> (nat \<times> order_line) option" where
  "line_of_product p ls = List.find (\<lambda>(_, l). ol_product l = p) (rev ls)"

definition carton_content :: "nat \<Rightarrow> db \<Rightarrow> (nat \<times> int) list" where
  "carton_content k s = map (\<lambda>(_, i). (case row_get (db_lots s) (it_lot i) of None \<Rightarrow> 0 | Some l \<Rightarrow> l_product l, it_quantity i))
     (carton_items_of k s)"

definition count_prepared :: "nat \<Rightarrow> int \<Rightarrow> db \<Rightarrow> db" where
  "count_prepared i quantity s = write_line i (\<lambda>l. l\<lparr>ol_prepared_quantity := ol_prepared_quantity l + quantity\<rparr>) s"

definition assign_carton :: "env \<Rightarrow> nat \<Rightarrow> order \<Rightarrow> (nat \<times> order_line) list \<Rightarrow> nat \<times> carton
     \<Rightarrow> (nat \<rightharpoonup> int) \<times> nat \<times> db \<Rightarrow> err + (nat \<rightharpoonup> int) \<times> nat \<times> db" where
  "assign_carton e shipment o' ls row acc =
     (let (c, _) = row; (remaining, assigned, s) = acc; content = carton_content c s; products = remdups (map fst content) in
      case products of
        [p] \<Rightarrow>
          (case (remaining p, line_of_product p ls) of
             (Some r, Some (i, _)) \<Rightarrow>
               (let quantity = sum_list (map snd content) in
                if quantity \<le> 0 \<or> r < quantity then Inr acc
                else let s1 = snd (set_carton_status e c Ct_Assigned (o_created_by o') ''order_assign_ready_carton''
                           (\<lambda>x. x\<lparr>c_shipment := Some shipment\<rparr>) s);
                         s2 = count_prepared i quantity s1;
                         reserved = (case row_get (db_order_lines s2) i of None \<Rightarrow> 0 | Some l \<Rightarrow> ol_reserved_quantity l)
                     in res_bind (if reserved \<noteq> 0 then release_reserved_stock i quantity s2 else Inr s2) (\<lambda>s3.
                          Inr (remaining(p \<mapsto> r - quantity), Suc assigned, s3)))
           | _ \<Rightarrow> Inr acc)
      | _ \<Rightarrow> Inr acc)"

definition ready_cartons :: "db \<Rightarrow> (nat \<times> carton) list" where
  "ready_cartons s = sort_key (\<lambda>(_, c). c_code c) (rows_where (\<lambda>_ c. c_status c = Ct_Packed \<and> c_shipment c = None) (db_cartons s))"

definition check_preparable :: "nat \<Rightarrow> db \<Rightarrow> err + unit" where
  "check_preparable shipment s =
     res_bind (require (row_get (db_shipments s) shipment) Does_Not_Exist) (\<lambda>r.
     res_bind (raise_if (s_is_disputed r) (Stock_Error Expedition_En_Litige)) (\<lambda>_.
       raise_if (locked_shipment_status (s_status r)) (Stock_Error Expedition_Verrouillee)))"

definition assign_to_shipment :: "env \<Rightarrow> nat \<Rightarrow> nat \<Rightarrow> db \<Rightarrow> err + nat \<times> db" where
  "assign_to_shipment e order shipment s =
     res_bind (check_preparable shipment s) (\<lambda>_.
     res_bind (require (row_get (db_orders s) order) Does_Not_Exist) (\<lambda>o'.
     let ls = lines_of_order order s;
         remaining = (\<lambda>p. map_option (\<lambda>(_, l). remaining_quantity l) (line_of_product p ls))
     in res_bind (for_each (assign_carton e shipment o' ls) (ready_cartons s) (remaining, 0, s)) (\<lambda>(_, assigned, s1).
        res_bind (sync_shipment_ready_state e shipment s1) (\<lambda>s2. Inr (assigned, s2)))))"

definition assign_ready_cartons_to_order :: "env \<Rightarrow> nat \<Rightarrow> party_db \<Rightarrow> nat \<Rightarrow> prep_db \<Rightarrow> err + nat \<times> prep_db" where
  "assign_ready_cartons_to_order e token parties order s =
     res_bind (require (row_get (db_orders (pd_db s)) order) Does_Not_Exist) (\<lambda>o'.
     res_bind (case o_shipment o' of
           Some k \<Rightarrow> Inr (k, s)
         | None \<Rightarrow> create_shipment_for_order e token parties order s) (\<lambda>(shipment, s1).
     res_bind (assign_to_shipment e order shipment (pd_db s1)) (\<lambda>(assigned, d).
       Inr (assigned, s1\<lparr>pd_db := d\<rparr>))))"

section \<open>Preparing an order\<close>

definition pack_entry :: "env \<Rightarrow> nat option \<Rightarrow> (nat \<times> order_line) list \<Rightarrow> nat \<Rightarrow> size \<Rightarrow> nat \<times> bin_entry
     \<Rightarrow> carton_object option \<times> db \<Rightarrow> err + carton_object option \<times> db" where
  "pack_entry e user ls shipment sz entry acc =
     (let (p, x) = entry; (carton, s) = acc in
      res_bind (require (line_of_product p ls) (Stock_Error Produit_Manquant)) (\<lambda>(i, _).
      res_bind (pack_carton_from_reserved e user i (be_quantity x) carton (Some shipment) None (Some sz) None s)
        (\<lambda>(c, s'). Inr (Some c, s'))))"

definition pack_bin :: "env \<Rightarrow> nat option \<Rightarrow> (nat \<times> order_line) list \<Rightarrow> nat \<Rightarrow> size \<Rightarrow> bin \<Rightarrow> db \<Rightarrow> err + db" where
  "pack_bin e user ls shipment sz b s =
     res_bind (for_each (pack_entry e user ls shipment sz) (bn_items b) (None, s)) (\<lambda>(_, s'). Inr s')"

definition size_of_format :: "carton_format \<Rightarrow> carton_size" where
  "size_of_format f = \<lparr>cz_length_cm = cf_length_cm f, cz_width_cm = cf_width_cm f, cz_height_cm = cf_height_cm f,
     cz_max_weight_g = cf_max_weight_g f\<rparr>"

definition asked_lines :: "(nat \<times> order_line) list \<Rightarrow> pack_line list" where
  "asked_lines ls = map (\<lambda>(_, l). \<lparr>pk_product = ol_product l, pk_quantity = remaining_quantity l, pk_expires_on = None\<rparr>) ls"

definition pack_into :: "env \<Rightarrow> nat option \<Rightarrow> (nat \<times> order_line) list \<Rightarrow> nat \<Rightarrow> carton_format
     \<Rightarrow> bin list option \<times> bin_error list \<times> bin_warning list \<Rightarrow> db \<Rightarrow> err + db" where
  "pack_into e user ls shipment f packing s =
     (case packing of
        (_, x # _, _) \<Rightarrow> Inl (Stock_Error (Erreur_Colisage (bin_message x)))
      | (None, [], _) \<Rightarrow> Inl Type_Error
      | (Some bs, [], _) \<Rightarrow> for_each (pack_bin e user ls shipment
          \<lparr>sz_length = Some (cf_length_cm f), sz_width = Some (cf_width_cm f), sz_height = Some (cf_height_cm f)\<rparr>) bs s)"

definition pack_remaining :: "(rat \<Rightarrow> rat) \<Rightarrow> env \<Rightarrow> nat option \<Rightarrow> (nat \<times> order_line) list \<Rightarrow> nat \<Rightarrow> db \<Rightarrow> err + db" where
  "pack_remaining fl e user ls shipment s =
     (if ls = [] then Inr s
      else res_bind (require (first_format s) (Stock_Error Format_Manquant)) (\<lambda>f.
        pack_into e user ls shipment f (build_packing_bins fl (asked_lines ls) (Some (size_of_format f)) None s) s))"

definition prepare_order ::
  "(rat \<Rightarrow> rat) \<Rightarrow> env \<Rightarrow> nat \<Rightarrow> party_db \<Rightarrow> nat option \<Rightarrow> nat \<Rightarrow> prep_db \<Rightarrow> err + nat \<times> prep_db" where
  "prepare_order fl e token parties user order s =
     res_bind (require (row_get (db_orders (pd_db s)) order) Does_Not_Exist) (\<lambda>o'.
     res_bind (raise_if (o_status o' \<notin> {Ord_Reserved, Ord_Preparing}) (Stock_Error Commande_Non_Reservee)) (\<lambda>_.
     res_bind (create_shipment_for_order e token parties order s) (\<lambda>(shipment, s1).
     res_bind (check_preparable shipment (pd_db s1)) (\<lambda>_.
     res_bind (assign_ready_cartons_to_order e token parties order s1) (\<lambda>(assigned, s2).
     let remaining_lines = filter (\<lambda>(_, l). 0 < remaining_quantity l) (lines_of_order order (pd_db s2)) in
     res_bind (pack_remaining fl e user remaining_lines shipment (pd_db s2)) (\<lambda>d.
     let status = (if list_all (\<lambda>(_, l). remaining_quantity l = 0) (lines_of_order order d) then Ord_Ready else Ord_Preparing);
         d1 = write_order order (\<lambda>x. x\<lparr>o_status := status\<rparr>) d
     in res_bind (sync_shipment_ready_state e shipment d1) (\<lambda>d2. Inr (assigned, s2\<lparr>pd_db := d2\<rparr>))))))))"

end
