(* ===== verification/Order_Facts.thy ===== *)
theory Order_Facts
  imports Order_Preparation Bin_Facts
begin

text \<open>
  What preparing an order does to its lines: assigning and packing count them up and change nothing else.
\<close>

section \<open>What preparing does to the lines of an order\<close>

text \<open>The columns of the lines that preparing never writes, and the one it counts up.\<close>

definition line_keys :: "db \<Rightarrow> (nat \<times> nat \<times> nat \<times> int) list" where
  "line_keys s = map (\<lambda>(i, l). (i, ol_order l, ol_product l, ol_quantity l)) (db_order_lines s)"

definition prepared :: "db \<Rightarrow> nat \<Rightarrow> int" where
  "prepared s i = (case row_get (db_order_lines s) i of None \<Rightarrow> 0 | Some l \<Rightarrow> ol_prepared_quantity l)"

definition lines_ok :: "nat \<Rightarrow> db \<Rightarrow> bool" where
  "lines_ok order s \<longleftrightarrow> keys_ok (db_order_lines s)
     \<and> distinct (map (\<lambda>(_, l). ol_product l) (rows_where (\<lambda>_ l. ol_order l = order) (db_order_lines s)))"

lemma line_keys_cong: "db_order_lines t = db_order_lines s \<Longrightarrow> line_keys t = line_keys s"
  by (simp add: line_keys_def)

lemma prepared_cong: "db_order_lines t = db_order_lines s \<Longrightarrow> prepared t = prepared s"
  by (simp add: prepared_def fun_eq_iff)

lemma line_keys_upd:
  assumes "\<And>l. ol_order (f l) = ol_order l \<and> ol_product (f l) = ol_product l \<and> ol_quantity (f l) = ol_quantity l"
    and "db_order_lines t = row_upd i f (db_order_lines s)"
  shows "line_keys t = line_keys s"
  using assms by (auto simp: line_keys_def row_upd_def)

lemma line_keys_fst: "map fst (db_order_lines s) = map fst (line_keys s)"
  by (simp add: line_keys_def comp_def case_prod_beta)

lemma line_keys_products:
  "map (\<lambda>(_, l). ol_product l) (rows_where (\<lambda>_ l. ol_order l = k) (db_order_lines s))
     = map (\<lambda>(_, _, p, _). p) (filter (\<lambda>(_, o', _, _). o' = k) (line_keys s))"
proof -
  have "map (\<lambda>(_, l). ol_product l) (filter (\<lambda>(_, l). ol_order l = k) t)
      = map (\<lambda>(_, _, p, _). p) (filter (\<lambda>(_, o', _, _). o' = k) (map (\<lambda>(i, l). (i, ol_order l, ol_product l, ol_quantity l)) t))"
    for t :: "order_line table"
    by (induction t) auto
  then show ?thesis by (simp add: line_keys_def rows_where_def)
qed

lemma lines_ok_cong: "line_keys t = line_keys s \<Longrightarrow> lines_ok k t = lines_ok k s"
  by (simp add: lines_ok_def keys_ok_def line_keys_fst line_keys_products)

lemma line_keys_row:
  assumes "line_keys t = line_keys s" and "row_get (db_order_lines t) i = Some l"
  shows "\<exists>l'. row_get (db_order_lines s) i = Some l' \<and> ol_order l' = ol_order l \<and> ol_product l' = ol_product l \<and> ol_quantity l' = ol_quantity l"
proof -
  have "map_option (\<lambda>l. (ol_order l, ol_product l, ol_quantity l)) (map_of r i)
      = map_of (map (\<lambda>(i, l). (i, ol_order l, ol_product l, ol_quantity l)) r) i" for r :: "order_line table"
    by (induction r) auto
  then have eq: "map_option (\<lambda>l. (ol_order l, ol_product l, ol_quantity l)) (row_get (db_order_lines u) i) = map_of (line_keys u) i" for u
    by (simp add: line_keys_def row_get_def)
  have "map_option (\<lambda>l. (ol_order l, ol_product l, ol_quantity l)) (row_get (db_order_lines s) i) = Some (ol_order l, ol_product l, ol_quantity l)"
    using eq [of t] eq [of s] assms by simp
  then show ?thesis by auto
qed

subsection \<open>Packing\<close>

lemma consume_lines: "db_order_lines (snd (snd (fold (consume_one e u p mt sh ct) rows acc))) = db_order_lines (snd (snd acc))"
  by (induction rows arbitrary: acc) (auto simp: consume_one_def Let_def split: prod.splits)

lemma add_to_carton_lines: "db_order_lines (fold (add_to_carton d k) parts s) = db_order_lines s"
  by (induction parts arbitrary: s) (auto simp: add_to_carton_def Let_def split: prod.split option.split)

lemma pack_carton_lines:
  assumes "pack_carton_from_reserved e u i q carton shipment loc sz d s = Inr (obj, s')"
  shows "db_order_lines s' = row_upd i (\<lambda>l. l\<lparr>ol_reserved_quantity := max 0 (ol_reserved_quantity l - q),
      ol_prepared_quantity := ol_prepared_quantity l + q\<rparr>) (db_order_lines s)"
    and "\<exists>l. row_get (db_order_lines s) i = Some l"
proof -
  let ?mt = "if shipment \<noteq> None then Mv_Out else Mv_Precondition"
  from assms obtain k m s1 parts s2
    where p1: "prepare_carton e u carton shipment None loc [] sz s = Inr ((k, m), s1)"
      and p2: "consume_reserved_stock e u i q ?mt shipment (Some k) s1 = Inr (parts, s2)"
      and p3: "finish_packing e u (k, m) shipment False ''order_pack_assign''
           ''order_pack_start_picking'' (fold (add_to_carton d k) parts s2) = Inr (obj, s')"
    by (auto simp: pack_carton_from_reserved_def wms_ok)
  have s1: "db_order_lines s1 = db_order_lines s" using prepare_carton_stock [OF p1] by (simp add: same_stock_def)
  from p3 obtain c where "row_get (db_cartons (fold (add_to_carton d k) parts s2)) k = Some c"
    by (auto simp: finish_packing_def wms_ok)
  then have s': "db_order_lines s' = db_order_lines s2"
    using finish_packing_spec(2) [OF p3] by (simp add: same_stock_def add_to_carton_lines)
  from p2 obtain l where l: "row_get (db_order_lines s1) i = Some l" by (auto simp: consume_reserved_stock_def wms_ok)
  obtain r ps t where f: "fold (consume_one e u (ol_product l) ?mt shipment (Some k)) (line_reservations i s1) (q, [], s1) = (r, ps, t)"
    by (metis prod_cases3)
  then have t: "db_order_lines t = db_order_lines s1"
    using consume_lines [of e u "ol_product l" ?mt shipment "Some k" "line_reservations i s1" "(q, [], s1)"] by simp
  from p2 have "s2 = write_line i (\<lambda>l. l\<lparr>ol_reserved_quantity := max 0 (ol_reserved_quantity l - q),
      ol_prepared_quantity := ol_prepared_quantity l + q\<rparr>) t"
    using l f by (auto simp: consume_reserved_stock_def wms_ok split: if_splits)
  with s' t s1 show "db_order_lines s' = row_upd i (\<lambda>l. l\<lparr>ol_reserved_quantity := max 0 (ol_reserved_quantity l - q),
      ol_prepared_quantity := ol_prepared_quantity l + q\<rparr>) (db_order_lines s)" by simp
  show "\<exists>l. row_get (db_order_lines s) i = Some l" using l s1 by simp
qed

lemma pack_entry_lines:
  assumes "pack_entry e user ls shipment sz (p, x) (carton, s) = Inr (c, s')"
  shows "line_keys s' = line_keys s"
    and "prepared s' i = prepared s i + (if map_option fst (line_of_product p ls) = Some i then be_quantity x else 0)"
proof -
  from assms obtain j l obj where j: "line_of_product p ls = Some (j, l)"
    and run: "pack_carton_from_reserved e user j (be_quantity x) carton (Some shipment) None (Some sz) None s = Inr (obj, s')"
    by (auto simp: pack_entry_def wms_ok)
  note lines = pack_carton_lines [OF run]
  show "line_keys s' = line_keys s" by (rule line_keys_upd [OF _ lines(1)]) simp
  show "prepared s' i = prepared s i + (if map_option fst (line_of_product p ls) = Some i then be_quantity x else 0)"
    using j lines(2) by (auto simp: prepared_def lines(1) row_get_upd split: option.split)
qed

definition entries_for :: "(nat \<times> order_line) list \<Rightarrow> nat \<Rightarrow> (nat \<times> bin_entry) list \<Rightarrow> int" where
  "entries_for ls i xs = sum_list (map (\<lambda>(p, x). if map_option fst (line_of_product p ls) = Some i then be_quantity x else 0) xs)"

lemma pack_entries_lines:
  assumes "for_each (pack_entry e user ls shipment sz) xs (carton, s) = Inr (c, s')"
  shows "line_keys s' = line_keys s \<and> prepared s' i = prepared s i + entries_for ls i xs"
  using assms
proof (induction xs arbitrary: carton s)
  case Nil
  then show ?case by (simp add: entries_for_def)
next
  case (Cons a xs)
  obtain p x where a: "a = (p, x)" by (cases a)
  from Cons.prems obtain c1 s1 where one: "pack_entry e user ls shipment sz (p, x) (carton, s) = Inr (c1, s1)"
    and more: "for_each (pack_entry e user ls shipment sz) xs (c1, s1) = Inr (c, s')"
    by (auto simp: a wms_ok)
  show ?case using pack_entry_lines [OF one] Cons.IH [OF more] by (simp add: a entries_for_def)
qed

lemma pack_bins_lines:
  assumes "for_each (pack_bin e user ls shipment sz) bs s = Inr s'"
  shows "line_keys s' = line_keys s \<and> prepared s' i = prepared s i + sum_list (map (\<lambda>b. entries_for ls i (bn_items b)) bs)"
  using assms
proof (induction bs arbitrary: s)
  case (Cons b bs)
  from Cons.prems obtain s1 where "pack_bin e user ls shipment sz b s = Inr s1"
    and more: "for_each (pack_bin e user ls shipment sz) bs s1 = Inr s'"
    by (auto simp: wms_ok)
  then obtain c where one: "for_each (pack_entry e user ls shipment sz) (bn_items b) (None, s) = Inr (c, s1)"
    by (auto simp: pack_bin_def wms_ok)
  show ?case using pack_entries_lines [OF one, of i] Cons.IH [OF more] by simp
qed simp

subsection \<open>What is asked for\<close>

lemma line_of_product_mem: "line_of_product p ls = Some (i, l) \<Longrightarrow> (i, l) \<in> set ls \<and> ol_product l = p"
proof -
  assume "line_of_product p ls = Some (i, l)"
  moreover have "List.find P xs = Some y \<Longrightarrow> y \<in> set xs \<and> P y" for P and xs :: "(nat \<times> order_line) list" and y
    by (induction xs) (auto split: if_splits)
  ultimately show ?thesis unfolding line_of_product_def by fastforce
qed

lemma line_of_product_iff:
  assumes "distinct (map (\<lambda>(_, l). ol_product l) ls)" and "distinct (map fst ls)" and "(i, l) \<in> set ls"
  shows "map_option fst (line_of_product p ls) = Some i \<longleftrightarrow> p = ol_product l"
proof
  assume "map_option fst (line_of_product p ls) = Some i"
  then obtain l' where "line_of_product p ls = Some (i, l')" by auto
  then show "p = ol_product l" using line_of_product_mem assms(2,3) eq_key_imp_eq_value by metis
next
  assume p: "p = ol_product l"
  have "line_of_product p ls \<noteq> None" using assms(3) p by (auto simp: line_of_product_def find_None_iff)
  then obtain j l' where j: "line_of_product p ls = Some (j, l')" by auto
  then have "(j, l') \<in> set ls" "(\<lambda>(_, l). ol_product l) (j, l') = (\<lambda>(_, l). ol_product l) (i, l)"
    using line_of_product_mem p by auto
  then have "(j, l') = (i, l)" using assms(1,3) unfolding distinct_map by (meson inj_onD)
  then show "map_option fst (line_of_product p ls) = Some i" using j by simp
qed

lemma entries_for_line:
  assumes "distinct (map (\<lambda>(_, l). ol_product l) ls)" and "distinct (map fst ls)" and "(i, l) \<in> set ls"
  shows "sum_list (map (\<lambda>b. entries_for ls i (bn_items b)) bs) = bins_quantity (ol_product l) bs"
proof -
  have "entries_for ls i xs = entry_quantity (ol_product l) xs" for xs
    by (simp only: entries_for_def entry_quantity_def line_of_product_iff [OF assms])
  then show ?thesis by (simp add: bins_quantity_def)
qed

lemma entries_for_other: "i \<notin> fst ` set ls \<Longrightarrow> sum_list (map (\<lambda>b. entries_for ls i (bn_items b)) bs) = 0"
proof -
  assume i: "i \<notin> fst ` set ls"
  have none: "map_option fst (line_of_product p ls) \<noteq> Some i" for p
    using i line_of_product_mem by (cases "line_of_product p ls") force+
  then have "entries_for ls i xs = 0" for xs
    unfolding entries_for_def by (induction xs) auto
  then show ?thesis by simp
qed

lemma asked_line:
  assumes "distinct (map (\<lambda>(_, l). ol_product l) ls)" and "(i, l) \<in> set ls"
  shows "asked (ol_product l) (asked_lines ls) = remaining_quantity l"
  using assms
proof (induction ls)
  case (Cons a ls)
  have none: "asked p (asked_lines ls) = 0" if "p \<notin> (\<lambda>(_, l). ol_product l) ` set ls" for p
    using that unfolding asked_def asked_lines_def by (induction ls) (auto split: prod.splits)
  obtain j m where a: "a = (j, m)" by (cases a)
  have step: "asked p (asked_lines ((j, m) # ls)) = (if ol_product m = p then remaining_quantity m else 0) + asked p (asked_lines ls)" for p
    by (auto simp: asked_def asked_lines_def remaining_quantity_def)
  show ?case
  proof (cases "(i, l) = (j, m)")
    case True
    then show ?thesis using Cons.prems(1) none [of "ol_product m"] by (auto simp: step a)
  next
    case False
    then have "(i, l) \<in> set ls" using Cons.prems(2) a by auto
    moreover from this have "ol_product l \<noteq> ol_product m" using Cons.prems(1) a by force
    ultimately show ?thesis using Cons by (auto simp: step a)
  qed
qed simp

subsection \<open>The steps before the packing keep the lines\<close>

lemma shipment_save_lines: "shipment_save e k f s = Inr s' \<Longrightarrow> db_order_lines s' = db_order_lines s"
  by (elim shipment_save_Inr) simp

lemma shipment_create_lines: "shipment_create e r s = Inr (k, s') \<Longrightarrow> db_order_lines s' = db_order_lines s"
proof -
  assume run: "shipment_create e r s = Inr (k, s')"
  obtain q where "snd (shipment_save_reference e r s) = s\<lparr>db_shipment_sequences := q\<rparr>"
    using shipment_save_reference_frame [of e r s] by blast
  with run show ?thesis by (auto simp: shipment_create_def wms_ok split: prod.splits)
qed

lemma create_shipment_lines:
  assumes "create_shipment_for_order e token parties order s = Inr (k, s')"
  shows "db_order_lines (pd_db s') = db_order_lines (pd_db s)"
  using assms
  by (auto simp: create_shipment_for_order_def sync_existing_shipment_from_order_def write_order_def wms_ok Let_def
      split: option.splits if_splits dest!: shipment_save_lines shipment_create_lines)

lemma create_shipment_linked:
  assumes "create_shipment_for_order e token parties order s = Inr (k, s')"
  shows "\<exists>o'. row_get (db_orders (pd_db s')) order = Some o' \<and> o_shipment o' = Some k"
proof -
  have saved: "db_orders d' = db_orders d" if "shipment_save e j f d = Inr d'" for j f d d'
    using that by (elim shipment_save_Inr) simp
  have created: "db_orders d' = db_orders d" if "shipment_create e r d = Inr (j, d')" for r j d d'
  proof -
    obtain q where "snd (shipment_save_reference e r d) = d\<lparr>db_shipment_sequences := q\<rparr>"
      using shipment_save_reference_frame [of e r d] by blast
    with that show ?thesis by (auto simp: shipment_create_def wms_ok split: prod.splits)
  qed
  from assms obtain o' v where o': "row_get (db_orders (pd_db s)) order = Some o'" and
    cases: "(case o_shipment o' of
         Some k \<Rightarrow> res_bind (sync_existing_shipment_from_order e k v s) (\<lambda>s'. Inr (k, s'))
       | None \<Rightarrow>
           res_bind (shipment_create e (shipment_of_defaults e token v) (pd_db s)) (\<lambda>(k, d).
             Inr (k, s\<lparr>pd_db := write_order order (\<lambda>x. x\<lparr>o_shipment := Some k\<rparr>) d,
                       pd_snapshots := pd_snapshots s @ [(k, sd_snapshot v)]\<rparr>))) = Inr (k, s')"
    by (auto simp: create_shipment_for_order_def wms_ok)
  show ?thesis
  proof (cases "o_shipment o'")
    case None
    then show ?thesis using cases o' by (auto simp: wms_ok write_order_def row_get_upd dest!: created)
  next
    case (Some j)
    then have "sync_existing_shipment_from_order e j v s = Inr s'" and "k = j" using cases by (auto simp: wms_ok)
    then have "db_orders (pd_db s') = db_orders (pd_db s)"
      by (auto simp: sync_existing_shipment_from_order_def wms_ok Let_def split: if_splits dest!: saved)
    then show ?thesis using o' Some \<open>k = j\<close> by simp
  qed
qed

lemma release_keys:
  assumes run: "release_reserved_stock i q s = Inr s'"
  shows "line_keys s' = line_keys s" and "db_orders s' = db_orders s"
proof -
  have fold: "db_order_lines (snd (fold release_one rows acc)) = db_order_lines (snd acc)
      \<and> db_orders (snd (fold release_one rows acc)) = db_orders (snd acc)" for rows acc
    by (induction rows arbitrary: acc) (auto simp: release_one_def settle_def write_lot_def Let_def split: prod.splits)
  obtain r t where f: "fold release_one (line_reservations i s) (q, s) = (r, t)" by fastforce
  then have t: "db_order_lines t = db_order_lines s" "db_orders t = db_orders s"
    using fold [of "line_reservations i s" "(q, s)"] by simp_all
  have s': "s' = s \<or> s' = write_line i (\<lambda>l. l\<lparr>ol_reserved_quantity := max 0 (ol_reserved_quantity l - (q - r))\<rparr>) t"
    using run f by (auto simp: release_reserved_stock_def Let_def split: if_splits)
  show "db_orders s' = db_orders s" using s' t by (auto simp: write_line_def)
  show "line_keys s' = line_keys s" using s'
  proof
    assume "s' = write_line i (\<lambda>l. l\<lparr>ol_reserved_quantity := max 0 (ol_reserved_quantity l - (q - r))\<rparr>) t"
    then show ?thesis by (intro line_keys_upd [where i = i and f = "\<lambda>l. l\<lparr>ol_reserved_quantity := max 0 (ol_reserved_quantity l - (q - r))\<rparr>"]) (auto simp: t)
  qed simp
qed

lemma assign_carton_keys:
  assumes "assign_carton e shipment o' ls row (rem, n, s) = Inr (rem', n', s')"
  shows "line_keys s' = line_keys s" and "db_orders s' = db_orders s"
proof -
  obtain c x where row: "row = (c, x)" by (cases row)
  let ?s1 = "snd (set_carton_status e c Ct_Assigned (o_created_by o') ''order_assign_ready_carton'' (\<lambda>x. x\<lparr>c_shipment := Some shipment\<rparr>) s)"
  let ?w = "\<lambda>i q. count_prepared i q ?s1"
  have "s' = s \<or> (\<exists>i q. s' = count_prepared i q ?s1) \<or> (\<exists>i q. release_reserved_stock i q (count_prepared i q ?s1) = Inr s')"
    using assms unfolding assign_carton_def row Let_def by (auto simp: wms_ok split: list.splits option.splits if_splits) blast+
  moreover have "line_keys (?w i q) = line_keys s \<and> db_orders (?w i q) = db_orders s" for i q
  proof -
    have "line_keys ?s1 = line_keys s" "db_orders ?s1 = db_orders s"
      using set_carton_status_frame [of e c Ct_Assigned "o_created_by o'" "''order_assign_ready_carton''" "\<lambda>x. x\<lparr>c_shipment := Some shipment\<rparr>" s]
      by (auto simp: line_keys_def)
    moreover have "line_keys (?w i q) = line_keys ?s1"
      by (rule line_keys_upd [where i = i and f = "\<lambda>l. l\<lparr>ol_prepared_quantity := ol_prepared_quantity l + q\<rparr>"]) (auto simp: count_prepared_def)
    ultimately show ?thesis by (simp add: count_prepared_def write_line_def)
  qed
  ultimately have "line_keys s' = line_keys s \<and> db_orders s' = db_orders s"
    using release_keys by metis
  then show "line_keys s' = line_keys s" and "db_orders s' = db_orders s" by simp_all
qed

lemma assign_cartons_keys:
  assumes "for_each (assign_carton e shipment o' ls) rows acc = Inr acc'"
  shows "line_keys (snd (snd acc')) = line_keys (snd (snd acc)) \<and> db_orders (snd (snd acc')) = db_orders (snd (snd acc))"
  by (rule for_each_rel [OF assms, where R = "\<lambda>a b. line_keys (snd (snd b)) = line_keys (snd (snd a)) \<and> db_orders (snd (snd b)) = db_orders (snd (snd a))"])
    (auto dest: assign_carton_keys)

lemma sync_keys: "sync_shipment_ready_state e k s = Inr s' \<Longrightarrow> db_order_lines s' = db_order_lines s \<and> db_orders s' = db_orders s"
  using sync_frame by force

lemma assign_ready_keys:
  assumes "assign_ready_cartons_to_order e token parties order s = Inr (n, s')"
    and "row_get (db_orders (pd_db s)) order = Some o'" and "o_shipment o' = Some k"
  shows "line_keys (pd_db s') = line_keys (pd_db s)" and "db_orders (pd_db s') = db_orders (pd_db s)"
proof -
  from assms obtain d where d: "assign_to_shipment e order k (pd_db s) = Inr (n, d)" and s': "pd_db s' = d"
    by (auto simp: assign_ready_cartons_to_order_def wms_ok)
  from d obtain acc d1 where loop: "for_each (assign_carton e k o' (lines_of_order order (pd_db s))) (ready_cartons (pd_db s))
        (\<lambda>p. map_option (\<lambda>(_, l). remaining_quantity l) (line_of_product p (lines_of_order order (pd_db s))), 0, pd_db s) = Inr (acc, n, d1)"
    and sync: "sync_shipment_ready_state e k d1 = Inr d"
    using assms(2) by (auto simp: assign_to_shipment_def wms_ok Let_def)
  show "line_keys (pd_db s') = line_keys (pd_db s)" and "db_orders (pd_db s') = db_orders (pd_db s)"
    using assign_cartons_keys [OF loop] sync_keys [OF sync] s' by (auto simp: line_keys_def)
qed

subsection \<open>The packing prepares the rest\<close>

lemma pack_remaining_lines:
  assumes run: "pack_remaining fl e user ls shipment s = Inr s'"
    and d: "distinct (map (\<lambda>(_, l). ol_product l) ls)" "distinct (map fst ls)"
  shows "line_keys s' = line_keys s" and "(i, l) \<in> set ls \<Longrightarrow> prepared s' i = prepared s i + remaining_quantity l"
    and "i \<notin> fst ` set ls \<Longrightarrow> prepared s' i = prepared s i"
proof -
  have "line_keys s' = line_keys s \<and> ((i, l) \<in> set ls \<longrightarrow> prepared s' i = prepared s i + remaining_quantity l)
    \<and> (i \<notin> fst ` set ls \<longrightarrow> prepared s' i = prepared s i)"
  proof (cases "ls = []")
    case True
    then show ?thesis using run by (simp add: pack_remaining_def)
  next
    case False
    obtain f where run': "pack_into e user ls shipment f (build_packing_bins fl (asked_lines ls) (Some (size_of_format f)) None s) s = Inr s'"
      using run False by (auto simp: pack_remaining_def wms_ok)
    obtain bins es ws where b': "build_packing_bins fl (asked_lines ls) (Some (size_of_format f)) None s = (bins, es, ws)"
      by (metis prod_cases3)
    from run' obtain bs sz where "bins = Some bs" and loop: "for_each (pack_bin e user ls shipment sz) bs s = Inr s'"
      unfolding b' by (cases bins; cases es) (auto simp: pack_into_def)
    note b = b' [unfolded \<open>bins = Some bs\<close>]
    have q: "bins_quantity p bs = asked p (asked_lines ls)" for p
    proof -
      obtain v w items where bins: "bs = fold (\<lambda>i. place_item fl v w i (bx_quantity i)) items []"
        and sum: "\<And>p. sum_list (map (\<lambda>i. if bx_product i = p then max 0 (bx_quantity i) else 0) items) = asked p (asked_lines ls)"
        by (rule build_packing_bins_Some [OF b], blast)
      show ?thesis unfolding bins fold_places_quantity sum by (simp add: bins_quantity_def)
    qed
    show ?thesis using pack_bins_lines [OF loop, of i] entries_for_line [OF d] entries_for_other [of i ls bs] asked_line [OF d(1)] q
      by auto
  qed
  then show "line_keys s' = line_keys s" and "(i, l) \<in> set ls \<Longrightarrow> prepared s' i = prepared s i + remaining_quantity l"
    and "i \<notin> fst ` set ls \<Longrightarrow> prepared s' i = prepared s i" by blast+
qed

text \<open>The orders are not touched by the packing.\<close>

lemma finish_packing_orders:
  assumes "finish_packing e user (k, m) shipment skip r1 r2 s = Inr (obj, s')"
  shows "db_orders s' = db_orders s"
proof -
  from assms obtain c where c: "row_get (db_cartons s) k = Some c" by (auto simp: finish_packing_def wms_ok)
  define s1 where "s1 = (if shipment \<noteq> None
        then snd (set_carton_status e k Ct_Assigned user r1 id s)
        else if c_status c = Ct_Draft \<and> \<not> skip then snd (set_carton_status e k Ct_Picking user r2 id s)
        else s)"
  from assms c obtain s2
    where s2: "(case shipment of None \<Rightarrow> Inr s1 | Some sh \<Rightarrow> sync_shipment_ready_state e sh s1) = Inr s2"
      and s3: "ensure_carton_code e k m None s2 = Inr s'"
    unfolding finish_packing_def s1_def Let_def by (auto simp: wms_ok)
  have "db_orders (snd (set_carton_status e k st user r id s)) = db_orders s" for st r
    using set_carton_status_frame [of e k st user r id s] by auto
  then have "db_orders s1 = db_orders s" by (simp add: s1_def)
  moreover have "db_orders s2 = db_orders s1" using s2 sync_frame by (cases shipment) force+
  moreover have "db_orders s' = db_orders s2" using ensure_carton_code_recoded [OF s3] by (auto simp: recoded_def)
  ultimately show ?thesis by simp
qed

lemma pack_carton_orders:
  assumes "pack_carton_from_reserved e u i q carton shipment loc sz d s = Inr (obj, s')"
  shows "db_orders s' = db_orders s"
proof -
  let ?mt = "if shipment \<noteq> None then Mv_Out else Mv_Precondition"
  from assms obtain k m s1 parts s2
    where p1: "prepare_carton e u carton shipment None loc [] sz s = Inr ((k, m), s1)"
      and p2: "consume_reserved_stock e u i q ?mt shipment (Some k) s1 = Inr (parts, s2)"
      and p3: "finish_packing e u (k, m) shipment False ''order_pack_assign''
           ''order_pack_start_picking'' (fold (add_to_carton d k) parts s2) = Inr (obj, s')"
    by (auto simp: pack_carton_from_reserved_def wms_ok)
  have s1: "db_orders s1 = db_orders s" using prepare_carton_frame [OF p1] by auto
  from p2 obtain l where l: "row_get (db_order_lines s1) i = Some l" by (auto simp: consume_reserved_stock_def wms_ok)
  have loop: "db_orders (snd (snd (fold (consume_one e u p mt sh ct) rows acc))) = db_orders (snd (snd acc))" for p mt sh ct rows acc
    by (induction rows arbitrary: acc) (auto simp: consume_one_def settle_def write_lot_def create_movement_def Let_def split: prod.splits)
  obtain r ps t where f: "fold (consume_one e u (ol_product l) ?mt shipment (Some k)) (line_reservations i s1) (q, [], s1) = (r, ps, t)"
    by (metis prod_cases3)
  then have "db_orders t = db_orders s1"
    using loop [of "ol_product l" ?mt shipment "Some k" "line_reservations i s1" "(q, [], s1)"] by simp
  moreover from p2 have "s2 = write_line i (\<lambda>l. l\<lparr>ol_reserved_quantity := max 0 (ol_reserved_quantity l - q),
      ol_prepared_quantity := ol_prepared_quantity l + q\<rparr>) t"
    using l f by (auto simp: consume_reserved_stock_def wms_ok split: if_splits)
  ultimately have "db_orders s2 = db_orders s1" by (simp add: write_line_def)
  moreover have "db_orders (fold (add_to_carton d k) parts s) = db_orders s" for s
    by (induction parts arbitrary: s) (auto simp: add_to_carton_def Let_def split: prod.split option.split)
  ultimately show ?thesis using s1 finish_packing_orders [OF p3] by simp
qed

lemma pack_remaining_orders:
  assumes "pack_remaining fl e user ls shipment s = Inr s'"
  shows "db_orders s' = db_orders s"
proof -
  have entry: "db_orders t' = db_orders t" if "pack_entry e user ls shipment sz x (c, t) = Inr (c', t')" for sz x c t c' t'
    using that by (auto simp: pack_entry_def wms_ok split: prod.splits dest!: pack_carton_orders)
  have bin: "db_orders t' = db_orders t" if run: "pack_bin e user ls shipment sz b t = Inr t'" for sz b t t'
  proof -
    obtain c where "for_each (pack_entry e user ls shipment sz) (bn_items b) (None, t) = Inr (c, t')"
      using run by (auto simp: pack_bin_def wms_ok)
    from for_each_rel [OF this, where R = "\<lambda>a b. db_orders (snd b) = db_orders (snd a)"] entry show ?thesis by auto
  qed
  have bins: "db_orders t' = db_orders t" if "for_each (pack_bin e user ls shipment sz) bs t = Inr t'" for sz bs t t'
    using for_each_rel [OF that, where R = "\<lambda>a b. db_orders b = db_orders a"] bin by auto
  show ?thesis
  proof (cases "ls = []")
    case False
    then obtain f where run: "pack_into e user ls shipment f (build_packing_bins fl (asked_lines ls) (Some (size_of_format f)) None s) s = Inr s'"
      using assms by (auto simp: pack_remaining_def wms_ok)
    obtain b es ws where "build_packing_bins fl (asked_lines ls) (Some (size_of_format f)) None s = (b, es, ws)" by (metis prod_cases3)
    then show ?thesis using run bins by (cases b; cases es) (auto simp: pack_into_def)
  qed (use assms in \<open>simp add: pack_remaining_def\<close>)
qed

subsection \<open>An order prepared\<close>

lemma prepare_order_spec:
  assumes run: "prepare_order fl e token parties user order s = Inr (n, s')" and ok: "lines_ok order (pd_db s)"
  shows "line_keys (pd_db s') = line_keys (pd_db s)"
    and "(i, l) \<in> set (lines_of_order order (pd_db s')) \<Longrightarrow> remaining_quantity l = 0"
    and "map_option o_status (row_get (db_orders (pd_db s')) order) = Some Ord_Ready"
proof -
  from run obtain k s1 s2 d d2 where create: "create_shipment_for_order e token parties order s = Inr (k, s1)"
    and assign: "assign_ready_cartons_to_order e token parties order s1 = Inr (n, s2)"
    and pack: "pack_remaining fl e user (filter (\<lambda>(_, l). 0 < remaining_quantity l) (lines_of_order order (pd_db s2))) k (pd_db s2) = Inr d"
    and sync: "sync_shipment_ready_state e k (write_order order (\<lambda>x. x\<lparr>o_status :=
        (if list_all (\<lambda>(_, l). remaining_quantity l = 0) (lines_of_order order d) then Ord_Ready else Ord_Preparing)\<rparr>) d) = Inr d2"
    and s': "s' = s2\<lparr>pd_db := d2\<rparr>"
    by (auto simp: prepare_order_def wms_ok Let_def)
  obtain o1 where o1: "row_get (db_orders (pd_db s1)) order = Some o1" "o_shipment o1 = Some k"
    using create_shipment_linked [OF create] by blast
  have k1: "line_keys (pd_db s1) = line_keys (pd_db s)" using create_shipment_lines [OF create] by (simp add: line_keys_def)
  note k2 = assign_ready_keys [OF assign o1]
  have ok2: "lines_ok order (pd_db s2)" using ok k1 k2 lines_ok_cong by metis
  let ?all = "lines_of_order order (pd_db s2)" and ?ls = "filter (\<lambda>(_, l). 0 < remaining_quantity l) (lines_of_order order (pd_db s2))"
  have keys2: "keys_ok (db_order_lines (pd_db s2))" using ok2 by (simp add: lines_ok_def)
  have "mset (map (\<lambda>(_, l). ol_product l) ?all) = mset (map (\<lambda>(_, l). ol_product l) (rows_where (\<lambda>_ l. ol_order l = order) (db_order_lines (pd_db s2))))"
    by (simp add: lines_of_order_def)
  then have "distinct (map (\<lambda>(_, l). ol_product l) ?all)" using ok2 by (metis lines_ok_def mset_eq_imp_distinct_iff)
  then have d1: "distinct (map (\<lambda>(_, l). ol_product l) ?ls)" by (rule distinct_map_filter)
  have d2: "distinct (map fst ?ls)" using distinct_lines_of_order [OF keys2] by (rule distinct_map_filter)
  note packed = pack_remaining_lines [OF pack d1 d2]
  have keysd: "keys_ok (db_order_lines d)" using ok2 lines_ok_cong [OF packed(1)] unfolding lines_ok_def by blast
  have none: "remaining_quantity l = 0" if "(i, l) \<in> set (lines_of_order order d)" for i l
  proof -
    have l: "row_get (db_order_lines d) i = Some l" "ol_order l = order" using that lines_of_order_mem [OF keysd] by auto
    obtain m where m: "row_get (db_order_lines (pd_db s2)) i = Some m" "ol_order m = order" "ol_quantity m = ol_quantity l"
      using line_keys_row [OF packed(1) l(1)] l(2) by auto
    have mem: "(i, m) \<in> set ?all" using m lines_of_order_mem [OF keys2] by simp
    have p: "prepared d i = ol_prepared_quantity l" "prepared (pd_db s2) i = ol_prepared_quantity m"
      using l(1) m(1) by (simp_all add: prepared_def)
    show ?thesis
    proof (cases "0 < remaining_quantity m")
      case True
      then have "ol_prepared_quantity l = ol_prepared_quantity m + remaining_quantity m" using packed(2) [of i m] mem p by simp
      then show ?thesis using True m(3) by (simp add: remaining_quantity_def)
    next
      case False
      have "i \<notin> fst ` set ?ls"
      proof
        assume "i \<in> fst ` set ?ls"
        then obtain m' where "(i, m') \<in> set ?all" "0 < remaining_quantity m'" by auto
        moreover from this have "m' = m" using m(1) lines_of_order_mem [OF keys2] by simp
        ultimately show False using False by simp
      qed
      then have "ol_prepared_quantity l = ol_prepared_quantity m" using packed(3) [of i] p by simp
      then show ?thesis using False m(3) by (simp add: remaining_quantity_def)
    qed
  qed
  note after = sync_keys [OF sync]
  have lines: "db_order_lines (pd_db s') = db_order_lines d" using after s' by (simp add: write_order_def)
  have prods: "db_products (pd_db s') = db_products d"
    using sync_frame [OF sync] s' by (auto simp: write_order_def)
  have "lines_of_order order (pd_db s') = lines_of_order order d"
    by (simp add: lines_of_order_def lines product_name_def [abs_def] prods)
  then show "(i, l) \<in> set (lines_of_order order (pd_db s')) \<Longrightarrow> remaining_quantity l = 0" using none by simp
  show "line_keys (pd_db s') = line_keys (pd_db s)" using packed(1) k1 k2 lines by (simp add: line_keys_def)
  have "list_all (\<lambda>(_, l). remaining_quantity l = 0) (lines_of_order order d)" using none by (auto simp: list_all_iff)
  moreover have "row_get (db_orders d) order \<noteq> None" using pack_remaining_orders [OF pack] k2(2) o1 by simp
  ultimately show "map_option o_status (row_get (db_orders (pd_db s')) order) = Some Ord_Ready"
    using after s' by (auto simp: write_order_def row_get_upd)
qed

end
