(* ===== verification/Order_Properties.thy ===== *)
theory Order_Properties
  imports Order_Facts Party_Properties
begin

text \<open>
  The property of preparing an order, on a small reserved order.
\<close>

section \<open>An order from reservation to readiness\<close>

text \<open>
  C3: Preparing an order is all or nothing: when it succeeds, whatever ready cartons it found, every line
  of the order is prepared in full, no line of the database has another order, product or quantity, and
  the order has the status ready; the status preparing, which the code keeps for a partly prepared order,
  is never written.
\<close>
theorem prepared_order_is_ready:
  assumes "prepare_order fl e token parties user order s = Inr (n, s')" and "lines_ok order (pd_db s)"
  shows "list_all (\<lambda>(_, l). remaining_quantity l = 0) (lines_of_order order (pd_db s'))
    \<and> line_keys (pd_db s') = line_keys (pd_db s)
    \<and> map_option o_status (row_get (db_orders (pd_db s')) order) = Some Ord_Ready"
  using prepare_order_spec [OF assms] by (auto simp: list_all_iff)

definition prep_sample :: prep_db where
  "prep_sample = \<lparr>pd_db = ok_or order_db (reserve_stock_for_order sample_env 1
     (order_db\<lparr>db_contacts := db_contacts registry_db, db_destinations := db_destinations registry_db,
       db_orders := [(1, sample_order\<lparr>o_shipper_contact := Some 2, o_recipient_contact := Some 4, o_destination_city := ''abj''\<rparr>)]\<rparr>)),
     pd_snapshots = []\<rparr>"

definition prep_result :: prep_db where
  "prep_result = snd (ok_or (0, prep_sample) (prepare_order (\<lambda>x. x) sample_env 77 registry_parties (Some 5) 1 prep_sample))"

lemma prep_sample_runs: "is_ok (prepare_order (\<lambda>x. x) sample_env 77 registry_parties (Some 5) 1 prep_sample)"
  by code_simp

lemma prep_sample_lines: "lines_ok 1 (pd_db prep_sample)"
  by code_simp

theorem prepared_order_is_ready_witness:
  "map_option o_status (row_get (db_orders (pd_db prep_result)) 1) = Some Ord_Ready
   \<and> list_all (\<lambda>(_, l). remaining_quantity l = 0) (lines_of_order 1 (pd_db prep_result))"
proof -
  obtain n where "prepare_order (\<lambda>x. x) sample_env 77 registry_parties (Some 5) 1 prep_sample = Inr (n, prep_result)"
    using is_ok_ok_or [OF prep_sample_runs, of "(0, prep_sample)"] by (metis prep_result_def prod.collapse)
  from prepared_order_is_ready [OF this prep_sample_lines] show ?thesis by blast
qed

end
