(* ===== verification/Pack_Requests.thy ===== *)
theory Pack_Requests
  imports Bins Json
begin

text \<open>
  The packing page and the edit of a carton (\<open>wms/pack_handlers.py\<close>, with \<open>wms/scan_parse.py\<close>,
  \<open>resolve_product\<close> and \<open>resolve_shipment\<close>): the posted lines are read, packed into bins and the bins into cartons. The
  messages that are only shown (warnings, counts) and the values the page shows again have no place in a response.
\<close>

section \<open>A posted packing\<close>

text \<open>
  The posted fields: lines of four texts (a missing line is blank), the choice of a format with the custom
  size as \<open>parse_decimal\<close> and \<open>parse_int\<close> read it, the keys of the two selections of the form.
\<close>

record posted_line =
  po_product_code :: string
  po_quantity :: string
  po_expires_on :: string
  po_pack_family :: string

record pack_post =
  pp_action :: string
  pp_format :: format_choice
  pp_length :: "rat option"
  pp_width :: "rat option"
  pp_height :: "rat option"
  pp_max_weight :: "int option"
  pp_line_count :: string
  pp_lines :: "posted_line list"
  pp_confirm_defaults :: bool
  pp_shipment_reference :: string
  pp_preassigned :: string
  pp_location :: string

record pack_form =
  pf_shipment_reference :: string
  pf_preassigned :: "nat option"
  pf_location :: "nat option"

datatype line_error = Produit_Requis | Quantite_Requise | Quantite_Refusee | Produit_Introuvable | Date_Refusee | Famille_Requise

datatype pack_error =
    Choix_Refuse string | Expedition_Introuvable | Taille size_error | Aucun_Produit
  | Sans_Dimensions "string list" | Choisir_Famille | Emplacement_Introuvable string
  | Emplacement_Ambigu string | Retirer_Reference | Colisage bin_error | Un_Seul_Colis | Refus_Stock stock_msg

record packed_carton =
  pc_carton :: nat
  pc_zone_label :: string
  pc_family :: string

datatype pack_response =
    Pack_Page "pack_error list" "(nat \<times> line_error list) list"
  | Packed "packed_carton list"
  | Carton_Updated nat
  | Not_Editable

section \<open>Reading the form\<close>

definition blank_line :: posted_line where
  "blank_line = \<lparr>po_product_code = [], po_quantity = [], po_expires_on = [], po_pack_family = []\<rparr>"

definition posted_row :: "pack_post \<Rightarrow> nat \<Rightarrow> posted_line" where
  "posted_row p i = (if 0 < i \<and> i \<le> length (pp_lines p) then pp_lines p ! (i - 1) else blank_line)"

definition parse_int :: "string \<Rightarrow> int option" where
  "parse_int text = (if strip text = [] then None else int_of_text (strip text))"

definition line_count :: "pack_post \<Rightarrow> nat" where
  "line_count p = nat (max 1 (case parse_int (pp_line_count p) of None \<Rightarrow> 1 | Some n \<Rightarrow> if n = 0 then 1 else n))"

text \<open>A selection: blank, the key of an offered row, or refused.\<close>

definition choose_row :: "(nat \<Rightarrow> bool) \<Rightarrow> string \<Rightarrow> nat option option" where
  "choose_row offered text =
     (if text = [] then Some None
      else case int_of_text text of
        None \<Rightarrow> None
      | Some k \<Rightarrow> if 0 \<le> k \<and> offered (nat k) then Some (Some (nat k)) else None)"

definition clean_pack_form :: "pack_post \<Rightarrow> db \<Rightarrow> pack_error list + pack_form" where
  "clean_pack_form p s =
     (let preassigned = choose_row (\<lambda>k. case row_get (db_destinations s) k of None \<Rightarrow> False | Some x \<Rightarrow> d_is_active x) (pp_preassigned p);
          location = choose_row (\<lambda>k. row_get (db_locations s) k \<noteq> None) (pp_location p)
      in case (preassigned, location) of
           (Some x, Some y) \<Rightarrow> Inr \<lparr>pf_shipment_reference = strip (pp_shipment_reference p), pf_preassigned = x, pf_location = y\<rparr>
         | _ \<Rightarrow> Inl ((if preassigned = None then [Choix_Refuse ''preassigned_destination''] else [])
                     @ (if location = None then [Choix_Refuse ''current_location''] else [])))"

definition resolve_shipment :: "string \<Rightarrow> db \<Rightarrow> nat option" where
  "resolve_shipment reference s =
     (if strip reference = [] then None
      else (case sort_key (\<lambda>(_, x). - s_created_at x)
              (rows_where (\<lambda>_ x. str_lower (s_reference x) = str_lower (strip reference) \<and> s_archived_at x = None) (db_shipments s)) of
              [] \<Rightarrow> None | (k, _) # _ \<Rightarrow> Some k))"

text \<open>
  The product of a code: the best match on barcode, EAN, SKU and name, or else the only one whose name begins with it.
  A kit is a product with a composition.
\<close>

definition is_kit :: "nat \<Rightarrow> db \<Rightarrow> bool" where
  "is_kit k s = list_ex (\<lambda>(_, i). ki_kit i = k) (db_kit_items s)"

definition match_rank :: "string \<Rightarrow> product \<Rightarrow> nat" where
  "match_rank code x =
     (let same = (\<lambda>v. str_lower v = str_lower code) in
      if same (p_barcode x) then 1 else if same (p_ean x) then 2 else if same (p_sku x) then 3
      else if same (p_name x) then 4 else 5)"

definition resolve_product :: "string \<Rightarrow> bool \<Rightarrow> db \<Rightarrow> nat option" where
  "resolve_product code include_kits s =
     (let code = strip code;
          products = rows_where (\<lambda>k x. p_is_active x \<and> (include_kits \<or> \<not> is_kit k s)) (db_products s)
      in if code = [] then None
         else case sort_key (\<lambda>(_, x). (match_rank code x, p_name x)) (filter (\<lambda>(_, x). match_rank code x < 5) products) of
             (k, _) # _ \<Rightarrow> Some k
           | [] \<Rightarrow> (case take 2 (sort_key (\<lambda>(_, x). p_name x)
                  (filter (\<lambda>(_, x). startswith (str_lower (p_name x)) (str_lower code)) products)) of
                [(k, _)] \<Rightarrow> Some k
              | _ \<Rightarrow> None))"

record line_item =
  li_product :: nat
  li_quantity :: int
  li_expires_on :: "date option"
  li_index :: nat
  li_pack_family :: string

text \<open>
  One line: skipped when neither product nor quantity is given, else an item or its errors.
  \<open>parse_date\<close> is Django's: none for a text it does not read, an exception for an impossible date.
\<close>

definition line_problems :: "string \<Rightarrow> string \<Rightarrow> nat option \<Rightarrow> int option \<Rightarrow> bool \<Rightarrow> line_error list" where
  "line_problems code quantity_raw product quantity date_refused =
     (if code = [] then [Produit_Requis] else [])
     @ (if quantity_raw = [] then [Quantite_Requise]
        else if (case quantity of None \<Rightarrow> True | Some n \<Rightarrow> n \<le> 0) then [Quantite_Refusee] else [])
     @ (if code \<noteq> [] \<and> product = None then [Produit_Introuvable] else [])
     @ (if date_refused then [Date_Refusee] else [])"

definition read_line ::
  "(string \<Rightarrow> err + date option) \<Rightarrow> pack_post \<Rightarrow> db \<Rightarrow> nat \<Rightarrow> (nat \<times> line_error list) list \<times> line_item list
     \<Rightarrow> err + (nat \<times> line_error list) list \<times> line_item list" where
  "read_line parse_date p s i acc =
     (let (line_errors, items) = acc;
          row = posted_row p i;
          code = strip (po_product_code row); quantity_raw = strip (po_quantity row); expires_raw = strip (po_expires_on row);
          quantity = (if quantity_raw = [] then None else parse_int quantity_raw);
          product = (if code = [] then None else resolve_product code True s)
      in if code = [] \<and> quantity_raw = [] then Inr acc
         else res_bind (if expires_raw = [] then Inr None else parse_date expires_raw) (\<lambda>expires.
           let problems = line_problems code quantity_raw product quantity (expires_raw \<noteq> [] \<and> expires = None)
           in if problems \<noteq> [] then Inr (line_errors @ [(i, problems)], items)
              else Inr (line_errors, items @ [\<lparr>li_product = the product, li_quantity = the quantity,
                li_expires_on = expires, li_index = i, li_pack_family = po_pack_family row\<rparr>])))"

section \<open>Families and places\<close>

definition allowed_families :: "string list" where
  "allowed_families = [''MM'', ''CN'']"

definition location_label :: "string \<Rightarrow> string" where
  "location_label family = (if family = ''MM'' then ''Colis Prets MM'' else ''Colis Prets CN'')"

definition normalize_pack_family :: "string \<Rightarrow> string" where
  "normalize_pack_family text = (let x = str_upper (strip text) in if x \<in> set allowed_families then x else [])"

definition product_root_name :: "nat \<Rightarrow> db \<Rightarrow> err + string" where
  "product_root_name k s =
     (case row_get (db_products s) k of
        None \<Rightarrow> Inr []
      | Some x \<Rightarrow> res_bind (root_category_name x s) (\<lambda>name. Inr (str_upper (strip name))))"

definition resolve_preparateur_pack_family :: "db \<Rightarrow> nat \<Rightarrow> string \<Rightarrow> err + string" where
  "resolve_preparateur_pack_family s product override =
     (if normalize_pack_family override \<noteq> [] then Inr (normalize_pack_family override)
      else res_bind (product_root_name product s) (\<lambda>root. Inr (if root \<in> set allowed_families then root else [])))"

definition resolve_preparateur_location :: "db \<Rightarrow> string \<Rightarrow> pack_error + nat" where
  "resolve_preparateur_location s label =
     (let same = (\<lambda>v. str_lower v = str_lower label)
      in case rows_where (\<lambda>_ l. same (loc_notes l) \<or> same (loc_zone l) \<or> same (loc_aisle l) \<or> same (loc_shelf l)) (db_locations s) of
           [] \<Rightarrow> Inl (Emplacement_Introuvable label)
         | [(k, _)] \<Rightarrow> Inr k
         | _ \<Rightarrow> Inl (Emplacement_Ambigu label))"

definition resolve_preparateur_locations :: "db \<Rightarrow> pack_error + (string \<Rightarrow> nat)" where
  "resolve_preparateur_locations s =
     res_bind (resolve_preparateur_location s (location_label ''MM'')) (\<lambda>mm.
     res_bind (resolve_preparateur_location s (location_label ''CN'')) (\<lambda>cn.
       Inr (\<lambda>family. if family = ''MM'' then mm else cn)))"

text \<open>The families of the items, each once, in order.\<close>

definition item_family :: "db \<Rightarrow> line_item \<Rightarrow> (line_item \<times> string) list \<Rightarrow> err + (line_item \<times> string) list" where
  "item_family s i acc = res_bind (resolve_preparateur_pack_family s (li_product i) (li_pack_family i)) (\<lambda>f. Inr (acc @ [(i, f)]))"

definition with_families :: "db \<Rightarrow> line_item list \<Rightarrow> err + (line_item \<times> string) list" where
  "with_families s items = for_each (item_family s) items []"

text \<open>
  The place of the cartons made available: of their one family, if it is one; otherwise none. A missing or ambiguous place
  is the exception \<open>ValueError\<close>, which the handler shows on the page.
\<close>

definition resolve_ready_location_for_available_pack :: "db \<Rightarrow> (line_item \<times> string) list \<Rightarrow> pack_error + nat option" where
  "resolve_ready_location_for_available_pack s items =
     (case filter (\<lambda>f. f \<noteq> []) (remdups (map snd items)) of
        [f] \<Rightarrow> res_bind (resolve_preparateur_locations s) (\<lambda>place. Inr (Some (place f)))
      | _ \<Rightarrow> Inr None)"

section \<open>Packing what was planned\<close>

text \<open>The entries of a bin go into one carton, begun by the first.\<close>

record pack_target =
  tg_shipment :: "nat option"
  tg_preassigned :: "nat option"
  tg_location :: "nat option"
  tg_size :: size
  tg_skip_picking :: bool

definition bin_items :: "line_item list \<Rightarrow> pack_line list" where
  "bin_items items = map (\<lambda>i. \<lparr>pk_product = li_product i, pk_quantity = li_quantity i, pk_expires_on = li_expires_on i\<rparr>) items"

definition size_of_carton :: "carton_size \<Rightarrow> size" where
  "size_of_carton z = \<lparr>sz_length = Some (cz_length_cm z), sz_width = Some (cz_width_cm z), sz_height = Some (cz_height_cm z)\<rparr>"

definition pack_defaults :: "bool \<Rightarrow> (int \<times> int) option" where
  "pack_defaults confirmed = (if confirmed then Some (5, 1) else None)"

definition pack_bin_entry :: "env \<Rightarrow> nat option \<Rightarrow> pack_target \<Rightarrow> nat \<times> bin_entry
     \<Rightarrow> carton_object option \<times> db \<Rightarrow> err + carton_object option \<times> db" where
  "pack_bin_entry e user t entry acc =
     (let (p, x) = entry; (carton, s) = acc in
      res_bind (pack_carton e user p (be_quantity x) carton [] (tg_shipment t) (tg_preassigned t) (be_expires_on x)
          (tg_location t) (Some (tg_size t)) (tg_skip_picking t) s) (\<lambda>(c, s'). Inr (Some c, s')))"

definition pack_into_carton :: "env \<Rightarrow> nat option \<Rightarrow> pack_target \<Rightarrow> bin \<Rightarrow> carton_object option \<Rightarrow> db
     \<Rightarrow> err + carton_object option \<times> db" where
  "pack_into_carton e user t b carton s = for_each (pack_bin_entry e user t) (bn_items b) (carton, s)"

text \<open>
  The cartons of a plan, each with its label and family. \<open>finish\<close> is what is done to a carton once it is full.
\<close>

definition pack_planned ::
  "env \<Rightarrow> nat option \<Rightarrow> (carton_object \<Rightarrow> string \<Rightarrow> db \<Rightarrow> err + db) \<Rightarrow> (string \<times> string \<times> pack_target) \<times> bin
     \<Rightarrow> packed_carton list \<times> db \<Rightarrow> err + packed_carton list \<times> db" where
  "pack_planned e user finish plan acc =
     (let ((family, zone, t), b) = plan; (done, s) = acc in
      res_bind (pack_into_carton e user t b None s) (\<lambda>(carton, s1).
        case carton of
          None \<Rightarrow> Inr (done, s1)
        | Some obj \<Rightarrow> res_bind (finish obj family s1) (\<lambda>s2.
            Inr (done @ [\<lparr>pc_carton = fst obj, pc_zone_label = zone, pc_family = family\<rparr>], s2))))"

definition pack_plan ::
  "env \<Rightarrow> nat option \<Rightarrow> (carton_object \<Rightarrow> string \<Rightarrow> db \<Rightarrow> err + db) \<Rightarrow> ((string \<times> string \<times> pack_target) \<times> bin) list
     \<Rightarrow> db \<Rightarrow> err + packed_carton list \<times> db" where
  "pack_plan e user finish plans s = for_each (pack_planned e user finish) plans ([], s)"

text \<open>A \<open>StockError\<close> inside the transaction is shown on the page and leaves no trace; others pass through.\<close>

definition shown :: "(nat \<times> line_error list) list \<Rightarrow> db \<Rightarrow> err + pack_response \<times> db \<Rightarrow> err + pack_response \<times> db" where
  "shown line_errors s r = (case r of Inl (Stock_Error m) \<Rightarrow> Inr (Pack_Page [Refus_Stock m] line_errors, s) | _ \<Rightarrow> r)"

definition mark_ready :: "env \<Rightarrow> nat option \<Rightarrow> bool \<Rightarrow> carton_object \<Rightarrow> string \<Rightarrow> db \<Rightarrow> err + db" where
  "mark_ready e user available obj family s =
     Inr (if available then snd (set_carton_status e (fst obj) Ct_Packed user ''scan_pack_mark_ready'' id s) else s)"

definition finalize_preparateur_carton :: "env \<Rightarrow> nat option \<Rightarrow> carton_object \<Rightarrow> string \<Rightarrow> db \<Rightarrow> err + db" where
  "finalize_preparateur_carton e user obj family s =
     (let s1 = snd (set_carton_status e (fst obj) Ct_Packed user ''scan_pack_preparateur_ready'' id s) in
      res_bind (ensure_carton_code e (fst obj) (snd obj) (Some family) s1) (\<lambda>s2.
      res_bind (require (row_get (db_cartons s2) (fst obj)) Does_Not_Exist) (\<lambda>c.
        case c_shipment c of None \<Rightarrow> Inr s2 | Some sh \<Rightarrow> sync_shipment_ready_state e sh s2)))"

section \<open>The handlers\<close>

text \<open>The packing of a preparer: by family, each in its place.\<close>

record pack_order =
  pa_items :: "line_item list"
  pa_line_errors :: "(nat \<times> line_error list) list"
  pa_shipment :: "nat option"
  pa_preassigned :: "nat option"
  pa_location :: "nat option"
  pa_size :: carton_size
  pa_confirmed :: bool

definition family_plan ::
  "(rat \<Rightarrow> rat) \<Rightarrow> pack_order \<Rightarrow> (string \<Rightarrow> nat) \<Rightarrow> (line_item \<times> string) list \<Rightarrow> db \<Rightarrow> string
     \<Rightarrow> ((string \<times> string \<times> pack_target) \<times> bin) list \<times> bin_error list" where
  "family_plan fl a place items s family =
     (let mine = map fst (filter (\<lambda>(_, f). f = family) items);
          t = \<lparr>tg_shipment = pa_shipment a, tg_preassigned = pa_preassigned a, tg_location = Some (place family),
               tg_size = size_of_carton (pa_size a), tg_skip_picking = False\<rparr>
      in if mine = [] then ([], [])
         else (case build_packing_bins fl (bin_items mine) (Some (pa_size a)) (pack_defaults (pa_confirmed a)) s of
                 (bins, errors, _) \<Rightarrow>
                   (map (Pair (family, location_label family, t)) (case bins of None \<Rightarrow> [] | Some bs \<Rightarrow> bs), errors)))"

definition handle_preparateur_pack ::
  "(rat \<Rightarrow> rat) \<Rightarrow> env \<Rightarrow> nat option \<Rightarrow> pack_order \<Rightarrow> db \<Rightarrow> err + pack_response \<times> db" where
  "handle_preparateur_pack fl e user a s =
     res_bind (with_families s (pa_items a)) (\<lambda>items.
       let missing = filter (\<lambda>(_, f). f = []) items in
       if missing \<noteq> [] then Inr (Pack_Page [Choisir_Famille] (map (\<lambda>(i, _). (li_index i, [Famille_Requise])) missing), s)
       else case resolve_preparateur_locations s of
         Inl x \<Rightarrow> Inr (Pack_Page [x] [], s)
       | Inr place \<Rightarrow>
           (let plans = map (family_plan fl a place items s) allowed_families;
                errors = concat (map snd plans)
            in if errors \<noteq> [] then Inr (Pack_Page (map Colisage errors) [], s)
               else shown [] s (res_bind (pack_plan e user (finalize_preparateur_carton e user) (concat (map fst plans)) s)
                      (\<lambda>(made, s'). Inr (Packed made, s')))))"

text \<open>The carton being edited is emptied and packed again, in one carton, under the shipment it has.\<close>

definition repack_carton :: "env \<Rightarrow> nat option \<Rightarrow> nat \<Rightarrow> pack_target \<Rightarrow> bin \<Rightarrow> db \<Rightarrow> err + carton_object option \<times> db" where
  "repack_carton e user k t b s =
     res_bind (if carton_items_of k s \<noteq> [] then unpack_carton e user k s else Inr s) (\<lambda>s1.
       pack_into_carton e user t b (Some (k, False)) s1)"

definition edit_target :: "bool \<Rightarrow> carton \<Rightarrow> pack_order \<Rightarrow> pack_target" where
  "edit_target preparer c a =
     (let shipment = (if c_shipment c \<noteq> None then c_shipment c else pa_shipment a)
      in \<lparr>tg_shipment = shipment, tg_preassigned = (if shipment \<noteq> None then None else pa_preassigned a),
          tg_location = (if pa_location a = None \<and> preparer then c_current_location c else pa_location a),
          tg_size = size_of_carton (pa_size a), tg_skip_picking = False\<rparr>)"

definition handle_carton_edit_pack ::
  "(rat \<Rightarrow> rat) \<Rightarrow> env \<Rightarrow> nat option \<Rightarrow> bool \<Rightarrow> nat \<Rightarrow> carton \<Rightarrow> pack_order \<Rightarrow> db \<Rightarrow> err + pack_response \<times> db" where
  "handle_carton_edit_pack fl e user preparer k c a s =
     (case build_packing_bins fl (bin_items (pa_items a)) (Some (pa_size a)) (pack_defaults (pa_confirmed a)) s of
        (_, x # errors, _) \<Rightarrow> Inr (Pack_Page (map Colisage (x # errors)) (pa_line_errors a), s)
      | (None, [], _) \<Rightarrow> Inl Type_Error
      | (Some bins, [], _) \<Rightarrow>
          (case bins of
             [b] \<Rightarrow> shown (pa_line_errors a) s
               (res_bind (repack_carton e user k (edit_target preparer c a) b s) (\<lambda>(_, s'). Inr (Carton_Updated k, s')))
           | _ \<Rightarrow> Inr (Pack_Page [Un_Seul_Colis] (pa_line_errors a), s)))"

text \<open>
  The plain packing: in the place chosen on the form, or made available in the place of the family, without the status picking.
\<close>

definition ready_place :: "bool \<Rightarrow> pack_order \<Rightarrow> db \<Rightarrow> err + pack_error + nat option" where
  "ready_place available a s =
     (if available then res_bind (with_families s (pa_items a)) (\<lambda>items. Inr (resolve_ready_location_for_available_pack s items))
      else Inr (Inr (pa_location a)))"

definition pack_bins :: "env \<Rightarrow> nat option \<Rightarrow> bool \<Rightarrow> pack_order \<Rightarrow> bin list \<Rightarrow> nat option \<Rightarrow> db \<Rightarrow> err + packed_carton list \<times> db" where
  "pack_bins e user available a bins location s =
     (let t = \<lparr>tg_shipment = pa_shipment a, tg_preassigned = pa_preassigned a, tg_location = location,
              tg_size = size_of_carton (pa_size a), tg_skip_picking = available\<rparr>
      in pack_plan e user (mark_ready e user available) (map (Pair ([], [], t)) bins) s)"

definition handle_plain_pack ::
  "(rat \<Rightarrow> rat) \<Rightarrow> env \<Rightarrow> nat option \<Rightarrow> bool \<Rightarrow> pack_order \<Rightarrow> db \<Rightarrow> err + pack_response \<times> db" where
  "handle_plain_pack fl e user available a s =
     (if available \<and> pa_shipment a \<noteq> None then Inr (Pack_Page [Retirer_Reference] (pa_line_errors a), s)
      else case build_packing_bins fl (bin_items (pa_items a)) (Some (pa_size a)) (pack_defaults (pa_confirmed a)) s of
        (_, x # errors, _) \<Rightarrow> Inr (Pack_Page (map Colisage (x # errors)) (pa_line_errors a), s)
      | (None, [], _) \<Rightarrow> Inl Type_Error
      | (Some bins, [], _) \<Rightarrow>
          res_bind (ready_place available a s) (\<lambda>place.
          case place of
            Inl x \<Rightarrow> Inr (Pack_Page [x] (pa_line_errors a), s)
          | Inr location \<Rightarrow> shown (pa_line_errors a) s
              (res_bind (pack_bins e user available a bins location s) (\<lambda>(made, s'). Inr (Packed made, s')))))"

text \<open>The names of products without any size, in order, each once.\<close>

definition without_size :: "line_item list \<Rightarrow> db \<Rightarrow> string list" where
  "without_size items s =
     sort (remdups (map (\<lambda>i. product_name s (li_product i))
       (filter (\<lambda>i. get_product_weight_g s (li_product i) = None \<and> get_product_volume_cm3 s (li_product i) = None) items)))"

definition run_pack_order ::
  "(rat \<Rightarrow> rat) \<Rightarrow> env \<Rightarrow> nat option \<Rightarrow> bool \<Rightarrow> bool \<Rightarrow> (nat \<times> carton) option \<Rightarrow> pack_order \<Rightarrow> db \<Rightarrow> err + pack_response \<times> db" where
  "run_pack_order fl e user preparer available editing a s =
     (if pa_items a = [] then Inr (Pack_Page [Aucun_Produit] [], s)
      else if without_size (pa_items a) s \<noteq> [] \<and> \<not> pa_confirmed a
        then Inr (Pack_Page [Sans_Dimensions (without_size (pa_items a) s)] [], s)
      else case editing of
          Some (k, c) \<Rightarrow> handle_carton_edit_pack fl e user preparer k c a s
        | None \<Rightarrow> if preparer then handle_preparateur_pack fl e user a s
                  else handle_plain_pack fl e user available a s)"

definition handle_pack_post ::
  "(rat \<Rightarrow> rat) \<Rightarrow> (string \<Rightarrow> err + date option) \<Rightarrow> env \<Rightarrow> nat option \<Rightarrow> bool \<Rightarrow> pack_post \<Rightarrow> (nat \<times> carton_format) option
     \<Rightarrow> (nat \<times> carton) option \<Rightarrow> db \<Rightarrow> err + pack_response \<times> db" where
  "handle_pack_post fl parse_date e user preparer p default_format editing s =
     (let (chosen, size_errors) = resolve_carton_size (pp_format p) default_format (pp_length p) (pp_width p)
            (pp_height p) (pp_max_weight p) s;
          available = (strip (pp_action p) = ''prepare_available'');
          kept = (case editing of None \<Rightarrow> None | Some (_, c) \<Rightarrow> c_shipment c)
      in
      case clean_pack_form p s of
        Inl errors \<Rightarrow> Inr (Pack_Page errors [], s)
      | Inr form \<Rightarrow>
          (let shipment = (if kept \<noteq> None then kept else resolve_shipment (pf_shipment_reference form) s);
               unknown = (kept = None \<and> pf_shipment_reference form \<noteq> [] \<and> shipment = None);
               errors = (if unknown then [Expedition_Introuvable] else []) @ map Taille size_errors
           in
           res_bind (for_each (read_line parse_date p s) [1..<Suc (line_count p)] ([], [])) (\<lambda>(line_errors, items).
             case chosen of
               None \<Rightarrow> Inr (Pack_Page errors line_errors, s)
             | Some z \<Rightarrow>
                 if errors \<noteq> [] \<or> line_errors \<noteq> [] then Inr (Pack_Page errors line_errors, s)
                 else run_pack_order fl e user preparer available editing
                   \<lparr>pa_items = items, pa_line_errors = line_errors, pa_shipment = shipment,
                    pa_preassigned = (if shipment \<noteq> None then None else pf_preassigned form),
                    pa_location = pf_location form, pa_size = z, pa_confirmed = pp_confirm_defaults p\<rparr> s)))"

section \<open>The pages\<close>

definition edit_blocked :: "shipment_status \<Rightarrow> bool" where
  "edit_blocked st \<longleftrightarrow> st \<in> {Ship_Shipped, Ship_Received_Correspondent, Ship_Delivered}"

definition carton_is_editable :: "carton \<Rightarrow> db \<Rightarrow> bool" where
  "carton_is_editable c s \<longleftrightarrow> c_status c \<noteq> Ct_Shipped
     \<and> (case c_shipment c of None \<Rightarrow> True
        | Some sh \<Rightarrow> (case row_get (db_shipments s) sh of None \<Rightarrow> True
            | Some x \<Rightarrow> \<not> s_is_disputed x \<and> \<not> edit_blocked (s_status x)))"

datatype pack_page = Scan_Pack | Scan_Carton_Edit nat

definition run_pack_page ::
  "(rat \<Rightarrow> rat) \<Rightarrow> (string \<Rightarrow> err + date option) \<Rightarrow> env \<Rightarrow> nat option \<Rightarrow> bool \<Rightarrow> pack_page \<Rightarrow> pack_post \<Rightarrow> db
     \<Rightarrow> err + pack_response \<times> db" where
  "run_pack_page fl parse_date e user preparer page p s =
     (let (_, default_format) = build_carton_formats s in
      case page of
        Scan_Pack \<Rightarrow> handle_pack_post fl parse_date e user preparer p default_format None s
      | Scan_Carton_Edit k \<Rightarrow>
          res_bind (require (row_get (db_cartons s) k) Does_Not_Exist) (\<lambda>c.
            if carton_is_editable c s then handle_pack_post fl parse_date e user preparer p default_format (Some (k, c)) s
            else Inr (Not_Editable, s)))"

end
