(* ===== verification/Pack_Facts.thy ===== *)
theory Pack_Facts
  imports Pack_Requests Bin_Facts
begin

text \<open>
  What packings into cartons do to the stock: the units a list of lines needs, kits expanded; a packing
  puts them in its carton and leaves every other carton as it was (\<open>same_outside\<close>), and so do the entries of a bin,
  the bins of a plan and the emptying and refilling of an edited carton. The items read from a form have positive quantities.
\<close>

section \<open>Units needed\<close>

text \<open>The units of a base product in one unit of a product, and in a list of lines.\<close>

definition kit_need :: "db \<Rightarrow> nat \<Rightarrow> nat \<Rightarrow> int" where
  "kit_need s p c = (case get_unit_component_quantities (kit_rows s) (Some p) of Inl _ \<Rightarrow> 0 | Inr q \<Rightarrow> parts_sum (\<lambda>x. x = c) q)"

definition lines_need :: "db \<Rightarrow> line_item list \<Rightarrow> nat \<Rightarrow> int" where
  "lines_need s items c = sum_list (map (\<lambda>i. li_quantity i * kit_need s (li_product i) c) items)"

definition entries_need :: "db \<Rightarrow> (nat \<times> bin_entry) list \<Rightarrow> nat \<Rightarrow> int" where
  "entries_need s xs c = sum_list (map (\<lambda>(p, x). be_quantity x * kit_need s p c) xs)"

lemma parts_sum_scaled: "parts_sum Q (map (\<lambda>(c, n). (c, n * k)) q) = k * parts_sum Q q"
  by (induction q) (auto simp: algebra_simps)

lemma requirements_need: "requirements_of p q s reqs \<Longrightarrow> parts_sum (\<lambda>x. x = c) reqs = q * kit_need s p c"
proof -
  assume r: "requirements_of p q s reqs"
  then obtain units where u: "get_unit_component_quantities (kit_rows s) (Some p) = Inr units"
    by (auto simp: requirements_of_def get_component_quantities_def wms_ok split: if_splits)
  then have "reqs = (if q \<le> 0 then [] else if q = 1 then units else map (\<lambda>(c, n). (c, n * q)) units)" and "reqs \<noteq> []"
    using r by (auto simp: requirements_of_def get_component_quantities_def split: if_splits)
  then show ?thesis using u by (auto simp: kit_need_def parts_sum_scaled split: if_splits)
qed

lemma kit_need_cong: "db_products t = db_products s \<Longrightarrow> db_kit_items t = db_kit_items s \<Longrightarrow> kit_need t = kit_need s"
  by (simp add: kit_need_def kit_rows_def product_name_def fun_eq_iff)

text \<open>What a plan asks for, by any measure, is what the lines ask for.\<close>

lemma entry_quantity_sum:
  assumes "finite P" and "fst ` set xs \<subseteq> P"
  shows "(\<Sum>p \<in> P. f p * entry_quantity p xs) = sum_list (map (\<lambda>(p, x). be_quantity x * f p) xs)"
  using assms(2)
proof (induction xs)
  case Nil
  then show ?case by (simp add: entry_quantity_def)
next
  case (Cons y xs)
  obtain q x where y: "y = (q, x)" by (cases y)
  have "f p * entry_quantity p (y # xs) = (if p = q then f p * be_quantity x else 0) + f p * entry_quantity p xs" for p
    by (simp add: y entry_quantity_def algebra_simps)
  then have "(\<Sum>p \<in> P. f p * entry_quantity p (y # xs))
      = (\<Sum>p \<in> P. if p = q then f p * be_quantity x else 0) + (\<Sum>p \<in> P. f p * entry_quantity p xs)"
    by (simp add: sum.distrib)
  moreover have "(\<Sum>p \<in> P. if p = q then f p * be_quantity x else 0) = be_quantity x * f q"
    using assms(1) Cons.prems y by (simp add: sum.delta)
  ultimately show ?case using Cons y by simp
qed

lemma bins_quantity_concat: "bins_quantity p bs = entry_quantity p (concat (map bn_items bs))"
  by (induction bs) (simp_all add: bins_quantity_def entry_quantity_def)

lemma asked_entries:
  "asked p (bin_items items) = entry_quantity p (map (\<lambda>i. (li_product i, \<lparr>be_quantity = max 0 (li_quantity i), be_expires_on = None\<rparr>)) items)"
  by (induction items) (auto simp: asked_def bin_items_def entry_quantity_def)

lemma same_quantities:
  assumes "\<And>p. bins_quantity p bs = asked p (bin_items items)" and "list_all (\<lambda>i. 0 < li_quantity i) items"
  shows "entries_need s (concat (map bn_items bs)) c = lines_need s items c"
proof -
  let ?ys = "map (\<lambda>i. (li_product i, \<lparr>be_quantity = max 0 (li_quantity i), be_expires_on = None\<rparr>)) items"
  let ?xs = "concat (map bn_items bs)" and ?f = "\<lambda>p. kit_need s p c"
  let ?P = "fst ` set ?xs \<union> fst ` set ?ys"
  have "entries_need s ?xs c = (\<Sum>p \<in> ?P. ?f p * entry_quantity p ?xs)"
    unfolding entries_need_def by (rule entry_quantity_sum [symmetric]) auto
  also have "\<dots> = (\<Sum>p \<in> ?P. ?f p * entry_quantity p ?ys)"
    using assms(1) by (simp only: bins_quantity_concat asked_entries)
  also have "\<dots> = sum_list (map (\<lambda>(p, x). be_quantity x * ?f p) ?ys)"
    by (rule entry_quantity_sum) auto
  also have "\<dots> = lines_need s items c"
    using assms(2) by (induction items) (auto simp: lines_need_def)
  finally show ?thesis .
qed

section \<open>Packing into a carton\<close>

definition items_in_cartons :: "db \<Rightarrow> bool" where
  "items_in_cartons s \<longleftrightarrow> keys_ok (db_cartons s)
     \<and> list_all (\<lambda>(_, i). row_get (db_cartons s) (it_carton i) \<noteq> None) (db_carton_items s)"

text \<open>What a run of packings into the cartons \<open>K\<close> keeps of the rest: the catalogue and every other carton.\<close>

definition same_outside :: "nat set \<Rightarrow> db \<Rightarrow> db \<Rightarrow> bool" where
  "same_outside K s t \<longleftrightarrow> db_products t = db_products s \<and> db_kit_items t = db_kit_items s
     \<and> (\<forall>j. on_hand j t + in_cartons j t = on_hand j s + in_cartons j s)
     \<and> (\<forall>i c. i \<notin> K \<longrightarrow> units_of i c t = units_of i c s)
     \<and> (\<forall>i. i \<notin> K \<longrightarrow> row_get (db_cartons t) i = row_get (db_cartons s) i)"

lemma same_outside_refl: "same_outside K s s"
  by (simp add: same_outside_def)

lemma same_outside_trans: "same_outside K s t \<Longrightarrow> same_outside L t u \<Longrightarrow> same_outside (K \<union> L) s u"
  by (simp add: same_outside_def)

lemma same_outside_need: "same_outside K s t \<Longrightarrow> kit_need t = kit_need s"
  unfolding same_outside_def by (elim conjE) (rule kit_need_cong)

lemma same_outside_stock:
  assumes "same_stock s t" and "\<And>i. i \<notin> K \<Longrightarrow> row_get (db_cartons t) i = row_get (db_cartons s) i"
  shows "same_outside K s t"
proof -
  have "\<forall>j. on_hand j t + in_cartons j t = on_hand j s + in_cartons j s" and "\<forall>i c. units_of i c t = units_of i c s"
    using units_of_cong [OF assms(1)] by metis+
  then show ?thesis using assms unfolding same_outside_def same_stock_def by blast
qed

lemma pack_component_other:
  assumes "pack_component e user mt shipment k d (c, q) s = Inr s'" and "stock_ok s" and "outgoing mt" and "i \<noteq> k"
  shows "units_of i x s' = units_of i x s"
proof -
  note ok = stock_okD [OF assms(2)]
  obtain parts s1 where run: "consume_stock e user c q mt shipment (Some k) [] [] s = Inr (parts, s1)"
    and s': "s' = fold (add_to_carton d k) parts s1"
    using assms(1) by (rule pack_component_Inr)
  obtain u v where s1: "s1 = s\<lparr>db_lots := u, db_movements := v\<rparr>"
    using consume_stock_frame [OF run ok(3)] by blast
  have items: "keys_ok (db_carton_items s1)" using ok(4) by (simp add: s1)
  let ?P = "\<lambda>carton l. carton = i \<and> lot_product s l = Some x"
  have "packed_units ?P s' = packed_units ?P s1"
    using add_all_to_carton(2) [OF items, of ?P d k parts] assms(4) by (simp add: s' parts_sum_none)
  then show ?thesis
    using pack_component_spec(3) [OF assms(1-3)] by (simp add: units_of_def s1 packed_units_def)
qed

lemma pack_components_other:
  assumes "for_each (pack_component e user mt shipment k d) reqs s = Inr s'" and "stock_ok s" and "outgoing mt" and "i \<noteq> k"
  shows "units_of i x s' = units_of i x s"
  using assms(1,2)
proof (induction reqs arbitrary: s)
  case (Cons r reqs)
  obtain c q where r: "r = (c, q)" by (cases r)
  from Cons.prems(1) obtain t where t: "pack_component e user mt shipment k d (c, q) s = Inr t"
    and rest: "for_each (pack_component e user mt shipment k d) reqs t = Inr s'" by (auto simp: wms_ok r)
  show ?case
    using Cons.IH [OF rest pack_component_spec(1) [OF t Cons.prems(2) assms(3)]]
      pack_component_other [OF t Cons.prems(2) assms(3,4)] by simp
qed simp

lemma prepare_carton_fresh:
  assumes "prepare_carton e user None shipment pre loc [] sz s = Inr ((k, m), s')"
  shows "row_get (db_cartons s) k = None"
proof -
  obtain code s1 where n: "next_free_code s = Inr (code, s1)"
    using assms by (auto simp: prepare_carton_def wms_ok Let_def)
  then have "db_cartons s1 = db_cartons s" using next_free_code_Inr(1) by fastforce
  then show ?thesis using assms n by (auto simp: prepare_carton_def create_carton_def wms_ok Let_def row_get_fresh)
qed

lemma pack_carton_outside:
  assumes run: "pack_carton e user p q carton [] shipment pre d location sz skip s = Inr (obj, s')" and ok: "stock_ok s"
  shows "same_outside {fst obj} s s'" and "stock_ok s'"
    and "units_of (fst obj) c s' = units_of (fst obj) c s + q * kit_need s p c"
    and "row_get (db_cartons s') (fst obj) \<noteq> None"
    and "case carton of None \<Rightarrow> row_get (db_cartons s) (fst obj) = None | Some o' \<Rightarrow> fst obj = fst o'"
proof -
  note spec = pack_carton_spec [OF run ok]
  show "stock_ok s'" by (rule spec(1))
  show "row_get (db_cartons s') (fst obj) \<noteq> None" using spec(4) by auto
  show "units_of (fst obj) c s' = units_of (fst obj) c s + q * kit_need s p c"
    using spec(3) requirements_need by fastforce
  from run obtain k m s1 reqs s2
    where p1: "prepare_carton e user carton shipment pre location [] sz s = Inr ((k, m), s1)"
      and p2: "requirements_of p q s1 reqs"
      and p3: "for_each (pack_component e user (if shipment \<noteq> None then Mv_Out else Mv_Precondition)
           shipment k d) reqs s1 = Inr s2"
      and p4: "finish_packing e user (k, m) shipment skip ''stock_pack_assign''
           ''stock_pack_start_picking'' s2 = Inr (obj, s')"
    by (rule pack_carton_Inr)
  note same1 = prepare_carton_stock [OF p1]
  have ok1: "stock_ok s1" using ok same1 by (simp add: stock_ok_cong)
  have out: "outgoing (if shipment \<noteq> None then Mv_Out else Mv_Precondition)" by (simp add: outgoing_def)
  note mid = pack_components_spec [OF p3 ok1 out]
  obtain c1 where c1: "row_get (db_cartons s1) k = Some c1"
    using prepare_carton_row(1) [OF p1] by blast
  then have c2: "row_get (db_cartons s2) k = Some c1" using mid by auto
  note fin = finish_packing_spec [OF p4 c2]
  have obj: "fst obj = k" using fin(1) by simp
  show "case carton of None \<Rightarrow> row_get (db_cartons s) (fst obj) = None | Some o' \<Rightarrow> fst obj = fst o'"
  proof (cases carton)
    case None
    then show ?thesis using prepare_carton_fresh p1 obj by simp
  next
    case (Some o')
    then show ?thesis using prepare_carton_cases [OF p1] obj by auto
  qed
  have "db_products s' = db_products s \<and> db_kit_items s' = db_kit_items s"
    using same1 fin(2) mid by (auto simp: same_stock_def)
  moreover have "units_of i c s' = units_of i c s" if "i \<noteq> k" for i c
    using units_of_cong [OF same1] units_of_cong [OF fin(2)] pack_components_other [OF p3 ok1 out that] by simp
  ultimately show "same_outside {fst obj} s s'"
    using spec(2,5) obj by (simp add: same_outside_def)
qed

section \<open>Packing a plan\<close>

lemma pack_bin_entry_step:
  "pack_bin_entry e user t (p, x) (carton, s) =
     res_bind (pack_carton e user p (be_quantity x) carton [] (tg_shipment t) (tg_preassigned t) (be_expires_on x)
       (tg_location t) (Some (tg_size t)) (tg_skip_picking t) s) (\<lambda>(c, s'). Inr (Some c, s'))"
  by (simp add: pack_bin_entry_def)

lemma pack_planned_step:
  "pack_planned e user finish ((family, zone, t), b) (done, s) =
     res_bind (pack_into_carton e user t b None s) (\<lambda>(carton, s1).
        case carton of
          None \<Rightarrow> Inr (done, s1)
        | Some obj \<Rightarrow> res_bind (finish obj family s1) (\<lambda>s2.
            Inr (done @ [\<lparr>pc_carton = fst obj, pc_zone_label = zone, pc_family = family\<rparr>], s2)))"
  by (simp add: pack_planned_def)

lemma pack_entries:
  assumes "for_each (pack_bin_entry e user t) xs (Some obj, s) = Inr (carton, s')" and "stock_ok s"
    and "row_get (db_cartons s) (fst obj) \<noteq> None"
  shows "\<exists>obj'. carton = Some obj' \<and> fst obj' = fst obj" and "same_outside {fst obj} s s'" and "stock_ok s'"
    and "row_get (db_cartons s') (fst obj) \<noteq> None"
    and "units_of (fst obj) c s' = units_of (fst obj) c s + entries_need s xs c"
proof -
  have "(\<exists>obj'. carton = Some obj' \<and> fst obj' = fst obj) \<and> same_outside {fst obj} s s' \<and> stock_ok s'
      \<and> row_get (db_cartons s') (fst obj) \<noteq> None
      \<and> units_of (fst obj) c s' = units_of (fst obj) c s + entries_need s xs c"
    using assms
  proof (induction xs arbitrary: obj s)
    case Nil
    then show ?case by (cases obj) (auto simp: same_outside_refl entries_need_def)
  next
    case (Cons x xs)
    obtain p y where x: "x = (p, y)" by (cases x)
    from Cons.prems(1) obtain o1 s1 where
      one: "pack_carton e user p (be_quantity y) (Some obj) [] (tg_shipment t) (tg_preassigned t) (be_expires_on y)
          (tg_location t) (Some (tg_size t)) (tg_skip_picking t) s = Inr (o1, s1)"
      and rest: "for_each (pack_bin_entry e user t) xs (Some o1, s1) = Inr (carton, s')"
      by (auto simp: x pack_bin_entry_step wms_ok)
    note f = pack_carton_outside [OF one Cons.prems(2)]
    have k: "fst o1 = fst obj" using f(5) by simp
    note more = Cons.IH [OF rest f(2,4)]
    have "same_outside {fst obj} s s'"
      using same_outside_trans [OF f(1), of "{fst o1}" s'] more k by simp
    moreover have "entries_need s1 xs c = entries_need s xs c"
      by (simp add: entries_need_def same_outside_need [OF f(1)])
    ultimately show ?case using more k f(3) [of c] by (simp add: x entries_need_def)
  qed
  then show "\<exists>obj'. carton = Some obj' \<and> fst obj' = fst obj" and "same_outside {fst obj} s s'" and "stock_ok s'"
    and "row_get (db_cartons s') (fst obj) \<noteq> None"
    and "units_of (fst obj) c s' = units_of (fst obj) c s + entries_need s xs c" by simp_all
qed

lemma pack_new_carton:
  assumes "pack_into_carton e user t b None s = Inr (carton, s')" and "stock_ok s" and "bn_items b \<noteq> []"
  obtains obj where "carton = Some obj" and "row_get (db_cartons s) (fst obj) = None" and "same_outside {fst obj} s s'"
    and "stock_ok s'" and "row_get (db_cartons s') (fst obj) \<noteq> None"
    and "\<And>c. units_of (fst obj) c s' = units_of (fst obj) c s + entries_need s (bn_items b) c"
proof -
  obtain p y xs where items: "bn_items b = (p, y) # xs" using assms(3) by (cases "bn_items b") auto
  from assms(1) obtain o1 s1 where
    one: "pack_carton e user p (be_quantity y) None [] (tg_shipment t) (tg_preassigned t) (be_expires_on y)
        (tg_location t) (Some (tg_size t)) (tg_skip_picking t) s = Inr (o1, s1)"
    and rest: "for_each (pack_bin_entry e user t) xs (Some o1, s1) = Inr (carton, s')"
    by (auto simp: pack_into_carton_def items pack_bin_entry_step wms_ok)
  note f = pack_carton_outside [OF one assms(2)]
  note more = pack_entries [OF rest f(2,4)]
  obtain obj where obj: "carton = Some obj" "fst obj = fst o1" using more(1) by blast
  have need: "entries_need s1 xs c = entries_need s xs c" for c
    by (simp add: entries_need_def same_outside_need [OF f(1)])
  show thesis
  proof (rule that [OF obj(1)])
    show "row_get (db_cartons s) (fst obj) = None" using f(5) obj by simp
    show "same_outside {fst obj} s s'" using same_outside_trans [OF f(1) more(2)] obj by simp
    show "stock_ok s'" by (rule more(3))
    show "row_get (db_cartons s') (fst obj) \<noteq> None" using more(4) obj by simp
    show "units_of (fst obj) c s' = units_of (fst obj) c s + entries_need s (bn_items b) c" for c
      using f(3) [of c] more(5) [of c] obj need [of c] by (simp add: items entries_need_def)
  qed
qed

text \<open>What is done to a full carton touches neither the stock nor another carton.\<close>

definition harmless :: "(carton_object \<Rightarrow> string \<Rightarrow> db \<Rightarrow> err + db) \<Rightarrow> bool" where
  "harmless finish \<longleftrightarrow> (\<forall>obj f s s'. finish obj f s = Inr s' \<longrightarrow> same_stock s s'
     \<and> (\<forall>i. i \<noteq> fst obj \<longrightarrow> row_get (db_cartons s') i = row_get (db_cartons s) i)
     \<and> (row_get (db_cartons s) (fst obj) \<noteq> None \<longrightarrow> row_get (db_cartons s') (fst obj) \<noteq> None))"

definition gained :: "nat list \<Rightarrow> nat \<Rightarrow> db \<Rightarrow> db \<Rightarrow> int" where
  "gained ks c s t = sum_list (map (\<lambda>k. units_of k c t - units_of k c s) ks)"

definition plan_entries :: "('p \<times> bin) list \<Rightarrow> (nat \<times> bin_entry) list" where
  "plan_entries plans = concat (map (\<lambda>(_, b). bn_items b) plans)"

lemma entries_need_append: "entries_need s (xs @ ys) c = entries_need s xs c + entries_need s ys c"
  by (simp add: entries_need_def)

text \<open>A run of packings: its new cartons, and what they gained.\<close>

definition packs_new :: "nat list \<Rightarrow> (nat \<times> bin_entry) list \<Rightarrow> db \<Rightarrow> db \<Rightarrow> bool" where
  "packs_new ks xs s t \<longleftrightarrow> distinct ks \<and> (\<forall>k \<in> set ks. row_get (db_cartons s) k = None \<and> row_get (db_cartons t) k \<noteq> None)
     \<and> same_outside (set ks) s t \<and> stock_ok t \<and> (\<forall>c. gained ks c s t = entries_need s xs c)"

lemma packs_new_Nil: "stock_ok s \<Longrightarrow> packs_new [] [] s s"
  by (simp add: packs_new_def same_outside_refl gained_def entries_need_def)

lemma packs_new_Cons:
  assumes k: "row_get (db_cartons s) k = None" "row_get (db_cartons s1) k \<noteq> None" "same_outside {k} s s1"
    and u: "\<And>c. units_of k c s1 = units_of k c s + entries_need s xs c"
    and r: "packs_new ks ys s1 t"
  shows "packs_new (k # ks) (xs @ ys) s t"
proof -
  have out: "same_outside (set ks) s1 t" and fresh: "\<forall>j \<in> set ks. row_get (db_cartons s1) j = None"
    using r by (simp_all add: packs_new_def)
  have new: "k \<notin> set ks" using k(2) fresh by auto
  have old: "j \<noteq> k" if "j \<in> set ks" for j using that new by auto
  have keep: "units_of k c t = units_of k c s1" "row_get (db_cartons t) k = row_get (db_cartons s1) k" for c
    using out new by (auto simp: same_outside_def)
  have same: "units_of j c s1 = units_of j c s" "row_get (db_cartons s1) j = row_get (db_cartons s) j" if "j \<in> set ks" for j c
    using k(3) old [OF that] by (auto simp: same_outside_def)
  have "gained ks c s1 t = gained ks c s t" for c
    using same(1) by (simp add: gained_def cong: map_cong)
  moreover have "entries_need s1 ys c = entries_need s ys c" for c
    by (simp add: entries_need_def same_outside_need [OF k(3)])
  ultimately have "gained (k # ks) c s t = entries_need s (xs @ ys) c" for c
    using r u [of c] keep(1) [of c] by (simp add: packs_new_def gained_def entries_need_append)
  moreover have "same_outside (set (k # ks)) s t" using same_outside_trans [OF k(3) out] by simp
  ultimately show ?thesis
    using r new k(1,2) keep(2) same(2) by (simp add: packs_new_def)
qed

lemma pack_planned_Inr:
  assumes "pack_planned e user finish (plan, b) (done, s) = Inr (done', s')" and "stock_ok s" and "bn_items b \<noteq> []"
    and "harmless finish"
  obtains m where "done' = done @ [m]" and "row_get (db_cartons s) (pc_carton m) = None" and "row_get (db_cartons s') (pc_carton m) \<noteq> None"
    and "same_outside {pc_carton m} s s'" and "stock_ok s'"
    and "\<And>c. units_of (pc_carton m) c s' = units_of (pc_carton m) c s + entries_need s (bn_items b) c"
proof -
  obtain family zone t where plan: "plan = (family, zone, t)" by (cases plan)
  from assms(1) obtain carton s1 where p: "pack_into_carton e user t b None s = Inr (carton, s1)"
    by (auto simp: plan pack_planned_step wms_ok)
  obtain obj where obj: "carton = Some obj" and new: "row_get (db_cartons s) (fst obj) = None" and out: "same_outside {fst obj} s s1"
    and ok: "stock_ok s1" and there: "row_get (db_cartons s1) (fst obj) \<noteq> None"
    and units: "\<And>c. units_of (fst obj) c s1 = units_of (fst obj) c s + entries_need s (bn_items b) c"
    by (rule pack_new_carton [OF p assms(2,3)]) (rule that; assumption)
  from assms(1) p obj have fin: "finish obj family s1 = Inr s'"
    and dn: "done' = done @ [\<lparr>pc_carton = fst obj, pc_zone_label = zone, pc_family = family\<rparr>]"
    by (auto simp: plan pack_planned_step wms_ok)
  have same: "same_stock s1 s'" and other: "\<And>i. i \<noteq> fst obj \<Longrightarrow> row_get (db_cartons s') i = row_get (db_cartons s1) i"
    and kept: "row_get (db_cartons s') (fst obj) \<noteq> None"
    using assms(4) fin there unfolding harmless_def by blast+
  have "same_outside {fst obj} s1 s'" using same other by (intro same_outside_stock) auto
  then have "same_outside {fst obj} s s'" using same_outside_trans [OF out, of "{fst obj}"] by simp
  moreover have "units_of (fst obj) c s' = units_of (fst obj) c s1" for c using units_of_cong [OF same] by metis
  ultimately show thesis
    using that [OF dn] new kept ok stock_ok_cong [OF same] units by simp
qed

lemma pack_plans:
  assumes "for_each (pack_planned e user finish) plans (done, s) = Inr (made, s')" and "stock_ok s" and "harmless finish"
    and "list_all (\<lambda>(_, b). bn_items b \<noteq> []) plans"
  shows "\<exists>new. made = done @ new \<and> packs_new (map pc_carton new) (plan_entries plans) s s'"
  using assms(1,2,4)
proof (induction plans arbitrary: "done" s)
  case Nil
  then show ?case using packs_new_Nil by (intro exI [of _ "[]"]) (simp add: plan_entries_def)
next
  case (Cons x plans)
  obtain plan b where x: "x = (plan, b)" by (cases x)
  from Cons.prems(1) obtain d1 s1 where one: "pack_planned e user finish (plan, b) (done, s) = Inr (d1, s1)"
    and rest: "for_each (pack_planned e user finish) plans (d1, s1) = Inr (made, s')" by (auto simp: x wms_ok)
  have ne: "bn_items b \<noteq> []" using Cons.prems(3) x by simp
  obtain m where m: "d1 = done @ [m]" "row_get (db_cartons s) (pc_carton m) = None" "row_get (db_cartons s1) (pc_carton m) \<noteq> None"
    "same_outside {pc_carton m} s s1" "stock_ok s1"
    and u: "\<And>c. units_of (pc_carton m) c s1 = units_of (pc_carton m) c s + entries_need s (bn_items b) c"
    by (rule pack_planned_Inr [OF one Cons.prems(2) ne assms(3)]) (rule that; assumption)
  obtain new where new: "made = d1 @ new" "packs_new (map pc_carton new) (plan_entries plans) s1 s'"
    using Cons.IH [OF rest m(5)] Cons.prems(3) by auto
  have "packs_new (pc_carton m # map pc_carton new) (bn_items b @ plan_entries plans) s s'"
    by (rule packs_new_Cons [OF m(2-4) u new(2)])
  then show ?case using new(1) m(1) by (intro exI [of _ "m # new"]) (simp add: x plan_entries_def)
qed

lemma set_carton_status_others:
  "i \<noteq> k \<Longrightarrow> row_get (db_cartons (snd (set_carton_status e k new user reason id s))) i = row_get (db_cartons s) i"
  "row_get (db_cartons s) k \<noteq> None \<Longrightarrow> row_get (db_cartons (snd (set_carton_status e k new user reason id s))) k \<noteq> None"
  by (auto simp: set_carton_status_def record_carton_status_event_def row_get_upd split: option.split)

lemma harmless_mark_ready: "harmless (mark_ready e user available)"
  unfolding harmless_def mark_ready_def using set_carton_status_stock set_carton_status_others
  by (auto split: if_splits)

lemma harmless_finalize: "harmless (finalize_preparateur_carton e user)"
  unfolding harmless_def
proof (intro allI impI)
  fix obj :: carton_object and f s s' assume run: "finalize_preparateur_carton e user obj f s = Inr s'"
  let ?k = "fst obj"
  define s1 where "s1 = snd (set_carton_status e ?k Ct_Packed user ''scan_pack_preparateur_ready'' id s)"
  from run have "\<exists>s2 (c :: carton). ensure_carton_code e ?k (snd obj) (Some f) s1 = Inr s2
      \<and> (case c_shipment c of None \<Rightarrow> Inr s2 | Some sh \<Rightarrow> sync_shipment_ready_state e sh s2) = Inr s'"
    by (auto simp: finalize_preparateur_carton_def Let_def s1_def wms_ok)
  then obtain s2 and c :: carton where code: "ensure_carton_code e ?k (snd obj) (Some f) s1 = Inr s2"
    and fin: "(case c_shipment c of None \<Rightarrow> Inr s2 | Some sh \<Rightarrow> sync_shipment_ready_state e sh s2) = Inr s'"
    by blast
  note rec = ensure_carton_code_recoded [OF code]
  have same1: "same_stock s s1" unfolding s1_def by (rule set_carton_status_stock)
  have same3: "same_stock s2 s'" using fin by (auto intro: sync_stock split: option.splits)
  have cartons: "db_cartons s' = db_cartons s2" using fin by (auto dest: sync_cartons split: option.splits)
  have "same_stock s s'" using same_stock_trans [OF same_stock_trans [OF same1 recoded_stock [OF rec]] same3] .
  moreover have "row_get (db_cartons s') i = row_get (db_cartons s) i" if "i \<noteq> ?k" for i
    using recoded_other [OF rec that] set_carton_status_others(1) [OF that] cartons by (simp add: s1_def)
  moreover have "row_get (db_cartons s') ?k \<noteq> None" if there: "row_get (db_cartons s) ?k \<noteq> None"
  proof -
    obtain r where "row_get (db_cartons s1) ?k = Some r"
      using set_carton_status_others(2) [OF there] unfolding s1_def by blast
    from recoded_row [OF rec this] show ?thesis using cartons by auto
  qed
  ultimately show "same_stock s s' \<and> (\<forall>i. i \<noteq> ?k \<longrightarrow> row_get (db_cartons s') i = row_get (db_cartons s) i)
      \<and> (row_get (db_cartons s) ?k \<noteq> None \<longrightarrow> row_get (db_cartons s') ?k \<noteq> None)" by blast
qed

section \<open>Emptying and packing again\<close>

lemma units_deleted:
  "row_sum (\<lambda>r. if it_carton r = i \<and> Q (it_lot r) then it_quantity r else 0) (rows_where (\<lambda>_ r. it_carton r \<noteq> k) t)
     = (if i = k then 0 else row_sum (\<lambda>r. if it_carton r = i \<and> Q (it_lot r) then it_quantity r else 0) t)"
  by (induction t) (auto simp: rows_where_def)

lemma set_carton_status_rows:
  assumes "snd (set_carton_status e k new user reason f s) = t"
  shows "i \<noteq> k \<Longrightarrow> row_get (db_cartons t) i = row_get (db_cartons s) i"
    and "row_get (db_cartons s) k \<noteq> None \<Longrightarrow> row_get (db_cartons t) k \<noteq> None"
  using assms by (auto simp: set_carton_status_def record_carton_status_event_def row_get_upd split: option.splits if_splits)

lemma unpack_carton_outside:
  assumes run: "unpack_carton e user k s = Inr s'" and ok: "stock_ok s"
  shows "same_outside {k} s s'" and "units_of k c s' = 0" and "row_get (db_cartons s') k \<noteq> None"
proof -
  from run obtain c0 s1 where c0: "row_get (db_cartons s) k = Some c0"
    and loop: "for_each (return_item e user k (c_shipment c0)) (carton_items_of k s) s = Inr s1"
    and fin: "(case c_shipment c0 of
            None \<Rightarrow> Inr (snd (set_carton_status e k Ct_Draft user ''stock_unpack''
                   (\<lambda>c. c\<lparr>c_shipment := None\<rparr>)
                   (s1\<lparr>db_carton_items := rows_where (\<lambda>_ i. it_carton i \<noteq> k) (db_carton_items s1)\<rparr>)))
          | Some sh \<Rightarrow> sync_shipment_ready_state e sh
              (snd (set_carton_status e k Ct_Draft user ''stock_unpack''
                   (\<lambda>c. c\<lparr>c_shipment := None\<rparr>)
                   (s1\<lparr>db_carton_items := rows_where (\<lambda>_ i. it_carton i \<noteq> k) (db_carton_items s1)\<rparr>)))) = Inr s'"
    by (rule unpack_carton_Inr)
  define s2 where "s2 = s1\<lparr>db_carton_items := rows_where (\<lambda>_ i. it_carton i \<noteq> k) (db_carton_items s1)\<rparr>"
  define s3 where "s3 = snd (set_carton_status e k Ct_Draft user ''stock_unpack''
                   (\<lambda>c. c\<lparr>c_shipment := None\<rparr>) s2)"
  note fin' = fin [folded s2_def, folded s3_def]
  have pos: "\<forall>(i, it) \<in> set (carton_items_of k s). 0 \<le> it_quantity it"
    using stock_okD(2) [OF ok] by (auto simp: carton_items_of_def rows_where_def items_ok_def)
  have ret: "lot_product s1 = lot_product s \<and> (\<exists>u v. s1 = s\<lparr>db_lots := u, db_movements := v\<rparr>)"
    using return_items_spec [OF loop stock_okD(1) [OF ok] pos] by blast
  have "same_stock s2 s3" unfolding s3_def by (rule set_carton_status_stock)
  moreover have "same_stock s3 s'" using fin' by (auto intro: sync_stock split: option.splits)
  ultimately have same: "same_stock s2 s'" by (rule same_stock_trans)
  have cartons: "db_cartons s' = db_cartons s3" using fin' by (auto intro: sync_cartons split: option.splits)
  have lp: "lot_product s' = lot_product s"
    using ret same by (simp add: same_stock_def s2_def lot_product_def fun_eq_iff)
  have items: "db_carton_items s' = rows_where (\<lambda>_ i. it_carton i \<noteq> k) (db_carton_items s)"
    using same ret by (auto simp: same_stock_def s2_def)
  have units: "units_of i c s' = (if i = k then 0 else units_of i c s)" for i c
    unfolding units_of_def packed_units_def lp items by (rule units_deleted)
  note rows3 = set_carton_status_rows [OF s3_def [symmetric]]
  have cart2: "db_cartons s2 = db_cartons s" using ret by (auto simp: s2_def)
  have "db_products s' = db_products s \<and> db_kit_items s' = db_kit_items s"
    using ret same by (auto simp: same_stock_def s2_def)
  then show "same_outside {k} s s'"
    using units unpack_carton_spec(3) [OF run ok] rows3(1) by (simp add: same_outside_def cartons cart2)
  show "units_of k c s' = 0" by (simp add: units)
  show "row_get (db_cartons s') k \<noteq> None" using rows3(2) c0 by (simp add: cartons cart2)
qed

lemma units_of_empty: "carton_items_of k s = [] \<Longrightarrow> units_of k c s = 0"
proof -
  have "rows_where (\<lambda>_ i. it_carton i = k) t = [] \<Longrightarrow>
      row_sum (\<lambda>r. if it_carton r = k \<and> Q (it_lot r) then it_quantity r else 0) t = 0" for t :: "carton_item table" and Q
    by (induction t) (auto simp: rows_where_def split: if_splits)
  then show "carton_items_of k s = [] \<Longrightarrow> ?thesis" by (simp add: carton_items_of_def units_of_def packed_units_def)
qed

lemma repack_carton_spec:
  assumes "repack_carton e user k t b s = Inr (carton, s')" and "stock_ok s" and "row_get (db_cartons s) k \<noteq> None"
  shows "same_outside {k} s s'" and "stock_ok s'" and "units_of k c s' = entries_need s (bn_items b) c"
proof -
  from assms(1) obtain s1 where one: "(if carton_items_of k s \<noteq> [] then unpack_carton e user k s else Inr s) = Inr s1"
    and two: "for_each (pack_bin_entry e user t) (bn_items b) (Some (k, False), s1) = Inr (carton, s')"
    unfolding repack_carton_def pack_into_carton_def by (auto simp: wms_ok)
  have 1: "same_outside {k} s s1 \<and> stock_ok s1 \<and> units_of k c s1 = 0 \<and> row_get (db_cartons s1) k \<noteq> None"
  proof (cases "carton_items_of k s = []")
    case True
    then show ?thesis using one assms(2,3) units_of_empty [OF True] by (simp add: same_outside_refl)
  next
    case False
    then have u: "unpack_carton e user k s = Inr s1" using one by simp
    show ?thesis using unpack_carton_outside [OF u assms(2)] unpack_carton_spec(1) [OF u assms(2)] by simp
  qed
  then have ok1: "stock_ok s1" and row1: "row_get (db_cartons s1) (fst (k, False)) \<noteq> None" by simp_all
  note more = pack_entries [OF two ok1 row1]
  show "same_outside {k} s s'" using same_outside_trans [of "{k}" s s1 "{k}" s'] 1 more(2) by simp
  show "stock_ok s'" by (rule more(3))
  have "entries_need s1 (bn_items b) c = entries_need s (bn_items b) c"
    using 1 by (simp add: entries_need_def same_outside_need [of "{k}" s s1])
  then show "units_of k c s' = entries_need s (bn_items b) c" using more(5) [of c] 1 by simp
qed

section \<open>The lines read\<close>

definition posted_lines :: "(string \<Rightarrow> err + date option) \<Rightarrow> pack_post \<Rightarrow> db \<Rightarrow> err + (nat \<times> line_error list) list \<times> line_item list" where
  "posted_lines parse_date p s = for_each (read_line parse_date p s) [1..<Suc (line_count p)] ([], [])"

lemma read_line_positive:
  assumes "read_line parse_date p s i (errors, items) = Inr (errors', items')" and "list_all (\<lambda>i. 0 < li_quantity i) items"
  shows "list_all (\<lambda>i. 0 < li_quantity i) items'"
  using assms by (auto simp: read_line_def line_problems_def Let_def wms_ok split: if_splits option.splits)

lemma read_lines_positive:
  assumes "for_each (read_line parse_date p s) is (errors, items) = Inr (errors', items')" and "list_all (\<lambda>i. 0 < li_quantity i) items"
  shows "list_all (\<lambda>i. 0 < li_quantity i) items'"
  using assms
proof (induction "is" arbitrary: errors items)
  case (Cons i "is")
  from Cons.prems(1) obtain e1 i1 where one: "read_line parse_date p s i (errors, items) = Inr (e1, i1)"
    and rest: "for_each (read_line parse_date p s) is (e1, i1) = Inr (errors', items')" by (auto simp: wms_ok)
  show ?case by (rule Cons.IH [OF rest read_line_positive [OF one Cons.prems(2)]])
qed simp

lemma posted_lines_positive: "posted_lines parse_date p s = Inr (errors, items) \<Longrightarrow> list_all (\<lambda>i. 0 < li_quantity i) items"
  unfolding posted_lines_def by (rule read_lines_positive) (assumption, simp)

end
