(* ===== verification/Pack_Properties.thy ===== *)
theory Pack_Properties
  imports Pack_Facts Bin_Properties Warehouse
begin

text \<open>
  What a request on the packing pages does, on every branch of its handlers: it packs the lines it read, or it changes nothing.
\<close>

section \<open>The outcome of a request\<close>

definition packed_outcome :: "line_item list \<Rightarrow> pack_response \<Rightarrow> db \<Rightarrow> db \<Rightarrow> bool" where
  "packed_outcome items r s t = (case r of
       Packed made \<Rightarrow> distinct (map pc_carton made)
         \<and> list_all (\<lambda>m. row_get (db_cartons s) (pc_carton m) = None \<and> row_get (db_cartons t) (pc_carton m) \<noteq> None) made
         \<and> same_outside (pc_carton ` set made) s t \<and> stock_ok t
         \<and> (\<forall>c. gained (map pc_carton made) c s t = lines_need s items c)
     | Carton_Updated k \<Rightarrow> same_outside {k} s t \<and> stock_ok t \<and> (\<forall>c. units_of k c t = lines_need s items c)
     | _ \<Rightarrow> t = s)"

lemma packed_outcome_page [simp]: "packed_outcome items (Pack_Page x y) s s"
  by (simp add: packed_outcome_def)

lemma packed_outcomeI:
  assumes "packs_new (map pc_carton made) xs s t" and "\<And>c. entries_need s xs c = lines_need s items c"
  shows "packed_outcome items (Packed made) s t"
  using assms by (simp add: packed_outcome_def packs_new_def list_all_iff)

lemma shown_Inr:
  assumes "shown errors s R = Inr (r, s')"
  shows "R = Inr (r, s') \<or> (s' = s \<and> (\<exists>m. r = Pack_Page [Refus_Stock m] errors))"
  using assms by (auto simp: shown_def split: sum.splits err.splits)

lemma bins_good:
  assumes "build_packing_bins fl (bin_items items) (Some z) defaults s = (Some bins, es, ws)" and "list_all (\<lambda>i. 0 < li_quantity i) items"
  shows "list_all entries_good bins" and "entries_need s (concat (map bn_items bins)) c = lines_need s items c"
  using packing_quantities [OF assms(1)] same_quantities [OF _ assms(2)] by auto

lemma bins_no_errors:
  assumes "build_packing_bins fl ls (Some z) defaults s = (bins, [], ws)"
  shows "bins \<noteq> None"
  using assms by (auto simp: build_packing_bins_def Let_def split: if_splits)

lemma plan_entries_map: "plan_entries (map (Pair t) bs) = concat (map bn_items bs)"
  by (simp add: plan_entries_def comp_def)

lemma plan_good: "list_all entries_good bs \<Longrightarrow> list_all (\<lambda>(_, b). bn_items b \<noteq> []) (map (Pair t) bs)"
  by (induction bs) (auto simp: entries_good_def)

lemma plain_outcome:
  assumes "handle_plain_pack fl e user available a s = Inr (r, s')" and "stock_ok s"
    and pos: "list_all (\<lambda>i. 0 < li_quantity i) (pa_items a)"
  shows "packed_outcome (pa_items a) r s s' \<and> (\<forall>k. r \<noteq> Carton_Updated k)"
proof (cases "available \<and> pa_shipment a \<noteq> None")
  case True
  then show ?thesis using assms(1) by (auto simp: handle_plain_pack_def)
next
  case False
  obtain bins errors ws where b: "build_packing_bins fl (bin_items (pa_items a)) (Some (pa_size a)) (pack_defaults (pa_confirmed a)) s
      = (bins, errors, ws)" by (metis prod_cases3)
  show ?thesis
  proof (cases errors)
    case (Cons x xs)
    then show ?thesis using assms(1) False b by (cases bins) (auto simp: handle_plain_pack_def)
  next
    case Nil
    then obtain bs where bs: "bins = Some bs" using bins_no_errors b by blast
    note good = bins_good [OF b [unfolded bs] pos]
    from assms(1) have "res_bind (ready_place available a s) (\<lambda>place. case place of
        Inl x \<Rightarrow> Inr (Pack_Page [x] (pa_line_errors a), s)
      | Inr location \<Rightarrow> shown (pa_line_errors a) s
          (res_bind (pack_bins e user available a bs location s) (\<lambda>(made, s'). Inr (Packed made, s')))) = Inr (r, s')"
      unfolding handle_plain_pack_def if_not_P [OF False] b Nil bs by (simp only: prod.case option.case list.case)
    then obtain place where run: "(case place of
        Inl x \<Rightarrow> Inr (Pack_Page [x] (pa_line_errors a), s)
      | Inr location \<Rightarrow> shown (pa_line_errors a) s
          (res_bind (pack_bins e user available a bs location s) (\<lambda>(made, s'). Inr (Packed made, s')))) = Inr (r, s')"
      by (auto simp: res_bind_Inr)
    show ?thesis
    proof (cases place)
      case (Inl x)
      then show ?thesis using run by auto
    next
      case (Inr location)
      from run Inr have sh: "shown (pa_line_errors a) s
          (res_bind (pack_bins e user available a bs location s) (\<lambda>(made, s'). Inr (Packed made, s'))) = Inr (r, s')" by simp
      consider "s' = s" "\<exists>m. r = Pack_Page [Refus_Stock m] (pa_line_errors a)"
        | made where "pack_bins e user available a bs location s = Inr (made, s')" "r = Packed made"
        using shown_Inr [OF sh] by (auto simp: wms_ok)
      then show ?thesis
      proof cases
        case 1
        then show ?thesis by auto
      next
        case 2
        have new: "packs_new (map pc_carton made) (concat (map bn_items bs)) s s'"
          using pack_plans [OF 2(1) [unfolded pack_bins_def Let_def pack_plan_def] assms(2) harmless_mark_ready plan_good [OF good(1)]]
          by (simp add: plan_entries_map)
        show ?thesis using packed_outcomeI [OF new good(2)] 2(2) by simp
      qed
    qed
  qed
qed

lemma edit_outcome:
  assumes "handle_carton_edit_pack fl e user preparer k c a s = Inr (r, s')" and "stock_ok s"
    and pos: "list_all (\<lambda>i. 0 < li_quantity i) (pa_items a)" and "row_get (db_cartons s) k \<noteq> None"
  shows "packed_outcome (pa_items a) r s s' \<and> (\<forall>made. r \<noteq> Packed made) \<and> (\<forall>j. r = Carton_Updated j \<longrightarrow> j = k)"
proof -
  obtain bins errors ws where b: "build_packing_bins fl (bin_items (pa_items a)) (Some (pa_size a)) (pack_defaults (pa_confirmed a)) s
      = (bins, errors, ws)" by (metis prod_cases3)
  show ?thesis
  proof (cases errors)
    case (Cons x xs)
    then show ?thesis using assms(1) b by (cases bins) (auto simp: handle_carton_edit_pack_def)
  next
    case Nil
    then obtain bs where bs: "bins = Some bs" using bins_no_errors b by blast
    show ?thesis
    proof (cases "\<exists>x. bs = [x]")
      case False
      then have "(r, s') = (Pack_Page [Un_Seul_Colis] (pa_line_errors a), s)"
        using assms(1) b Nil bs by (auto simp: handle_carton_edit_pack_def split: list.splits)
      then show ?thesis by simp
    next
      case True
      then obtain x where x: "bs = [x]" by blast
      have need: "entries_need s (bn_items x) i = lines_need s (pa_items a) i" for i
        using bins_good(2) [OF b [unfolded bs] pos, of i] x by simp
      from assms(1) b Nil bs x have sh: "shown (pa_line_errors a) s
          (res_bind (repack_carton e user k (edit_target preparer c a) x s) (\<lambda>(_, s'). Inr (Carton_Updated k, s'))) = Inr (r, s')"
        by (auto simp: handle_carton_edit_pack_def)
      consider "s' = s" "\<exists>m. r = Pack_Page [Refus_Stock m] (pa_line_errors a)"
        | carton where "repack_carton e user k (edit_target preparer c a) x s = Inr (carton, s')" "r = Carton_Updated k"
        using shown_Inr [OF sh] by (auto simp: wms_ok)
      then show ?thesis
      proof cases
        case 1
        then show ?thesis by auto
      next
        case 2
        note rep = repack_carton_spec [OF 2(1) assms(2,4)]
        show ?thesis using rep need by (simp add: packed_outcome_def 2(2))
      qed
    qed
  qed
qed

lemma resolve_family_allowed:
  "resolve_preparateur_pack_family s p text = Inr f \<Longrightarrow> f \<in> {[], ''MM'', ''CN''}"
  by (auto simp: resolve_preparateur_pack_family_def normalize_pack_family_def allowed_families_def wms_ok Let_def split: if_splits)

lemma item_families:
  assumes "for_each (item_family s) items acc = Inr fams" and "list_all (\<lambda>(_, f). f \<in> {[], ''MM'', ''CN''}) acc"
  shows "map fst fams = map fst acc @ items \<and> list_all (\<lambda>(_, f). f \<in> {[], ''MM'', ''CN''}) fams"
  using assms
proof (induction items arbitrary: acc)
  case (Cons i items)
  from Cons.prems(1) obtain f where f: "resolve_preparateur_pack_family s (li_product i) (li_pack_family i) = Inr f"
    and rest: "for_each (item_family s) items (acc @ [(i, f)]) = Inr fams"
    by (auto simp: wms_ok item_family_def [of s i acc])
  show ?case using Cons.IH [OF rest] Cons.prems(2) resolve_family_allowed [OF f] by simp
qed simp

definition of_family :: "string \<Rightarrow> (line_item \<times> string) list \<Rightarrow> line_item list" where
  "of_family f fams = map fst (filter (\<lambda>(_, g). g = f) fams)"

lemma lines_need_split:
  assumes "list_all (\<lambda>(_, f). f \<in> {''MM'', ''CN''}) fams"
  shows "lines_need s (of_family ''MM'' fams) c + lines_need s (of_family ''CN'' fams) c = lines_need s (map fst fams) c"
  using assms by (induction fams) (auto simp: lines_need_def of_family_def)

lemma family_plan_good:
  assumes "family_plan fl a place fams s f = (plans, [])" and "list_all (\<lambda>i. 0 < li_quantity i) (map fst fams)"
  shows "list_all (\<lambda>(_, b). bn_items b \<noteq> []) plans" and "entries_need s (plan_entries plans) c = lines_need s (of_family f fams) c"
proof -
  have "list_all (\<lambda>(_, b). bn_items b \<noteq> []) plans \<and> entries_need s (plan_entries plans) c = lines_need s (of_family f fams) c"
  proof (cases "of_family f fams = []")
    case True
    then show ?thesis using assms(1)
      by (auto simp: family_plan_def of_family_def lines_need_def entries_need_def plan_entries_def)
  next
    case False
    obtain bins errors ws where b: "build_packing_bins fl (bin_items (of_family f fams)) (Some (pa_size a)) (pack_defaults (pa_confirmed a)) s
        = (bins, errors, ws)" by (metis prod_cases3)
    obtain t where plans: "plans = map (Pair t) (case bins of None \<Rightarrow> [] | Some bs \<Rightarrow> bs)" and none: "errors = []"
      using assms(1) False b by (auto simp: family_plan_def of_family_def Let_def)
    then obtain bs where bs: "bins = Some bs" using bins_no_errors b by blast
    have pos: "list_all (\<lambda>i. 0 < li_quantity i) (of_family f fams)"
      using assms(2) by (auto simp: of_family_def list_all_iff)
    show ?thesis
      using bins_good [OF b [unfolded bs] pos] plan_good by (simp add: plans bs plan_entries_map)
  qed
  then show "list_all (\<lambda>(_, b). bn_items b \<noteq> []) plans" and "entries_need s (plan_entries plans) c = lines_need s (of_family f fams) c"
    by simp_all
qed

lemma families_given:
  assumes "list_all (\<lambda>(_, f). f \<in> {[], ''MM'', ''CN''}) fams" and "filter (\<lambda>(_, f). f = []) fams = []"
  shows "list_all (\<lambda>(_, f). f \<in> {''MM'', ''CN''}) fams"
  using assms by (induction fams) (auto split: if_splits)

lemma plan_entries_append: "plan_entries (xs @ ys) = plan_entries xs @ plan_entries ys"
  by (simp add: plan_entries_def)

lemma preparer_outcome:
  assumes "handle_preparateur_pack fl e user a s = Inr (r, s')" and "stock_ok s"
    and pos: "list_all (\<lambda>i. 0 < li_quantity i) (pa_items a)"
  shows "packed_outcome (pa_items a) r s s' \<and> (\<forall>k. r \<noteq> Carton_Updated k)"
proof -
  note run = assms(1) [unfolded handle_preparateur_pack_def]
  from run obtain fams where fams: "with_families s (pa_items a) = Inr fams"
    unfolding res_bind_Inr by blast
  note run = run [unfolded fams res_bind_simps Let_def]
  have items: "map fst fams = pa_items a" and ok: "list_all (\<lambda>(_, f). f \<in> {[], ''MM'', ''CN''}) fams"
    using item_families [OF fams [unfolded with_families_def]] by simp_all
  show ?thesis
  proof (cases "filter (\<lambda>(_, f). f = []) fams = []")
    case False
    then show ?thesis using run [unfolded if_P [OF False]] by auto
  next
    case no_missing: True
    from no_missing have "\<not> (filter (\<lambda>(_, f). f = []) fams \<noteq> [])" by simp
    note run = run [unfolded if_not_P [OF this]]
    note two = families_given [OF ok no_missing]
    show ?thesis
    proof (cases "resolve_preparateur_locations s")
      case (Inl x)
      then show ?thesis using run by auto
    next
      case (Inr place)
      obtain mm e1 where mm: "family_plan fl a place fams s ''MM'' = (mm, e1)" by (meson surj_pair)
      obtain cn e2 where cn: "family_plan fl a place fams s ''CN'' = (cn, e2)" by (meson surj_pair)
      show ?thesis
      proof (cases "e1 @ e2 = []")
        case False
        then show ?thesis using run by (auto simp: Inr mm cn allowed_families_def)
      next
        case True
        then have none: "e1 = []" "e2 = []" by simp_all
        have sh: "shown [] s (res_bind (pack_plan e user (finalize_preparateur_carton e user) (mm @ cn) s)
            (\<lambda>(made, s'). Inr (Packed made, s'))) = Inr (r, s')"
          using run by (simp add: Inr mm cn none allowed_families_def)
        consider "s' = s" "\<exists>m. r = Pack_Page [Refus_Stock m] []"
          | made where "pack_plan e user (finalize_preparateur_carton e user) (mm @ cn) s = Inr (made, s')" "r = Packed made"
          using shown_Inr [OF sh] by (auto simp: wms_ok)
        then show ?thesis
        proof cases
          case 1
          then show ?thesis by auto
        next
          case 2
          have pos': "list_all (\<lambda>i. 0 < li_quantity i) (map fst fams)" using pos items by simp
          note good1 = family_plan_good [OF mm [unfolded none(1)] pos']
          note good2 = family_plan_good [OF cn [unfolded none(2)] pos']
          have "list_all (\<lambda>(_, b). bn_items b \<noteq> []) (mm @ cn)" using good1(1) good2(1) by simp
          then have new: "packs_new (map pc_carton made) (plan_entries (mm @ cn)) s s'"
            using pack_plans [OF 2(1) [unfolded pack_plan_def] assms(2) harmless_finalize] by simp
          have "entries_need s (plan_entries (mm @ cn)) c = lines_need s (pa_items a) c" for c
            using good1(2) [of c] good2(2) [of c] lines_need_split [OF two, of s c] items
            by (simp add: plan_entries_append entries_need_append)
          then show ?thesis using packed_outcomeI [OF new] 2(2) by simp
        qed
      qed
    qed
  qed
qed

text \<open>A request on either page.\<close>

definition answers :: "(nat \<times> carton) option \<Rightarrow> pack_response \<Rightarrow> bool" where
  "answers editing r = (case r of Packed made \<Rightarrow> editing = None | Carton_Updated k \<Rightarrow> map_option fst editing = Some k | _ \<Rightarrow> True)"

lemma order_outcome:
  assumes "run_pack_order fl e user preparer available editing a s = Inr (r, s')" and "stock_ok s"
    and "list_all (\<lambda>i. 0 < li_quantity i) (pa_items a)"
    and "\<And>k c. editing = Some (k, c) \<Longrightarrow> row_get (db_cartons s) k \<noteq> None"
  shows "packed_outcome (pa_items a) r s s' \<and> answers editing r"
proof -
  consider x y where "r = Pack_Page x y" "s' = s"
    | k c where "editing = Some (k, c)" "handle_carton_edit_pack fl e user preparer k c a s = Inr (r, s')"
    | "editing = None" "handle_preparateur_pack fl e user a s = Inr (r, s')"
    | "editing = None" "handle_plain_pack fl e user available a s = Inr (r, s')"
    using assms(1) unfolding run_pack_order_def by (auto split: if_splits option.splits)
  then show ?thesis
  proof cases
    case 1
    then show ?thesis by (simp add: answers_def)
  next
    case 2
    show ?thesis using edit_outcome [OF 2(2) assms(2,3) assms(4) [OF 2(1)]] 2(1)
      by (auto simp: answers_def split: pack_response.split)
  next
    case 3
    show ?thesis using preparer_outcome [OF 3(2) assms(2,3)] 3(1) by (auto simp: answers_def split: pack_response.split)
  next
    case 4
    show ?thesis using plain_outcome [OF 4(2) assms(2,3)] 4(1) by (auto simp: answers_def split: pack_response.split)
  qed
qed

lemma page_or_order:
  assumes "(if C \<or> L \<noteq> [] then Inr (Pack_Page E L, s) else X) = Inr (r, s')"
  shows "(r = Pack_Page E L \<and> s' = s) \<or> (X = Inr (r, s') \<and> L = [])"
  using assms by (cases "C \<or> L \<noteq> []") auto

lemma handle_pack_outcome:
  assumes "handle_pack_post fl parse_date e user preparer p default_format editing s = Inr (r, s')" and "stock_ok s"
    and "\<And>k c. editing = Some (k, c) \<Longrightarrow> row_get (db_cartons s) k \<noteq> None"
  shows "(\<exists>x y. r = Pack_Page x y \<and> s' = s)
    \<or> (\<exists>items. posted_lines parse_date p s = Inr ([], items) \<and> packed_outcome items r s s' \<and> answers editing r)"
proof -
  obtain chosen size_errors where chosen: "resolve_carton_size (pp_format p) default_format (pp_length p) (pp_width p)
      (pp_height p) (pp_max_weight p) s = (chosen, size_errors)" by (meson surj_pair)
  show ?thesis
  proof (cases "clean_pack_form p s")
    case (Inl x)
    then show ?thesis using assms(1) chosen by (auto simp: handle_pack_post_def Let_def)
  next
    case (Inr form)
    note run = assms(1) [unfolded handle_pack_post_def Let_def chosen Inr sum.case prod.case, folded posted_lines_def]
    from run obtain line_errors items where lines: "posted_lines parse_date p s = Inr (line_errors, items)"
      unfolding res_bind_Inr by (metis surj_pair)
    note pos = posted_lines_positive [OF lines]
    note run' = run [unfolded lines res_bind_simps prod.case]
    have "(\<exists>x y. r = Pack_Page x y \<and> s' = s)
        \<or> (\<exists>a available. run_pack_order fl e user preparer available editing a s = Inr (r, s') \<and> line_errors = [] \<and> pa_items a = items)"
    proof (cases chosen)
      case None
      then show ?thesis using run' by (intro disjI1) (auto simp del: append_is_Nil_conv)
    next
      case (Some z)
      note dec = page_or_order [OF run' [unfolded Some option.case]]
      show ?thesis using dec by (elim disjE) (blast, elim conjE, intro disjI2 exI conjI, assumption, assumption, rule pack_order.select_convs(1))
    qed
    then consider x y where "r = Pack_Page x y" "s' = s"
      | a available where "line_errors = []" "pa_items a = items"
          "run_pack_order fl e user preparer available editing a s = Inr (r, s')" by blast
    then show ?thesis
    proof cases
      case 1
      then show ?thesis by blast
    next
      case 2
      have "packed_outcome items r s s' \<and> answers editing r"
        using order_outcome [OF 2(3) assms(2) _ assms(3)] pos 2(2) by simp
      then show ?thesis using lines 2(1) by blast
    qed
  qed
qed

lemma row_sum_none: "list_all (\<lambda>(_, r). f r = 0) t \<Longrightarrow> row_sum f t = 0"
  by (induction t) auto

lemma new_carton_empty:
  assumes "items_in_cartons s" and "row_get (db_cartons s) k = None"
  shows "units_of k c s = 0"
proof -
  have "list_all (\<lambda>(_, i). it_carton i \<noteq> k) (db_carton_items s)"
    using assms unfolding items_in_cartons_def by (auto simp: list_all_iff)
  then have "list_all (\<lambda>(_, i). (if it_carton i = k \<and> lot_product s (it_lot i) = Some c then it_quantity i else 0) = 0)
      (db_carton_items s)" by (auto simp: list_all_iff)
  then show ?thesis unfolding units_of_def packed_units_def by (rule row_sum_none)
qed

lemma new_cartons_gain:
  assumes "items_in_cartons s" and "list_all (\<lambda>k. row_get (db_cartons s) k = None) ks"
  shows "gained ks c s t = sum_list (map (\<lambda>k. units_of k c t) ks)"
  using assms(2) by (induction ks) (simp_all add: gained_def new_carton_empty [OF assms(1)])

text \<open>What a page may answer, and what its answer says of the database.\<close>

definition asked_lines_packed :: "line_item list \<Rightarrow> nat list \<Rightarrow> db \<Rightarrow> db \<Rightarrow> bool" where
  "asked_lines_packed items ks s t \<longleftrightarrow>
     (\<forall>c. sum_list (map (\<lambda>k. units_of k c t) ks) = lines_need s items c) \<and> same_outside (set ks) s t \<and> stock_ok t"

definition answer_holds :: "(string \<Rightarrow> err + date option) \<Rightarrow> pack_page \<Rightarrow> pack_post \<Rightarrow> pack_response \<Rightarrow> db \<Rightarrow> db \<Rightarrow> bool" where
  "answer_holds parse_date page p r s t = (case r of
       Packed made \<Rightarrow> page = Scan_Pack \<and> distinct (map pc_carton made)
         \<and> list_all (\<lambda>m. row_get (db_cartons s) (pc_carton m) = None \<and> row_get (db_cartons t) (pc_carton m) \<noteq> None) made
         \<and> (\<exists>items. posted_lines parse_date p s = Inr ([], items) \<and> asked_lines_packed items (map pc_carton made) s t)
     | Carton_Updated k \<Rightarrow> page = Scan_Carton_Edit k
         \<and> (\<exists>items. posted_lines parse_date p s = Inr ([], items) \<and> asked_lines_packed items [k] s t)
     | _ \<Rightarrow> t = s)"

lemma outcome_answer:
  assumes "packed_outcome items r s t" and "posted_lines parse_date p s = Inr ([], items)" and "items_in_cartons s"
    and "answers (case page of Scan_Pack \<Rightarrow> None | Scan_Carton_Edit k \<Rightarrow> Some (k, c)) r"
  shows "answer_holds parse_date page p r s t"
proof (cases r)
  case (Packed made)
  have new: "list_all (\<lambda>k. row_get (db_cartons s) k = None) (map pc_carton made)"
    using assms(1) by (auto simp: Packed packed_outcome_def list_all_iff)
  have "asked_lines_packed items (map pc_carton made) s t"
    using assms(1) new_cartons_gain [OF assms(3) new] by (simp add: Packed packed_outcome_def asked_lines_packed_def)
  then show ?thesis using assms(1,2,4)
    by (simp add: Packed packed_outcome_def answer_holds_def answers_def split: pack_page.splits)
next
  case (Carton_Updated k)
  then show ?thesis using assms(1,2,4)
    by (simp add: packed_outcome_def answer_holds_def answers_def asked_lines_packed_def split: pack_page.splits)
qed (use assms(1) in \<open>simp_all add: packed_outcome_def answer_holds_def\<close>)

lemma page_answer:
  assumes "handle_pack_post fl parse_date e user preparer p default_format editing s = Inr (r, s')" and "stock_ok s"
    and "items_in_cartons s" and "editing = (case page of Scan_Pack \<Rightarrow> None | Scan_Carton_Edit k \<Rightarrow> Some (k, c))"
    and "\<And>k. page = Scan_Carton_Edit k \<Longrightarrow> row_get (db_cartons s) k = Some c"
  shows "answer_holds parse_date page p r s s'"
proof -
  have known: "row_get (db_cartons s) k \<noteq> None" if "editing = Some (k, d)" for k d
    using assms(4,5) that by (auto split: pack_page.splits)
  have "(\<exists>x y. r = Pack_Page x y \<and> s' = s)
    \<or> (\<exists>items. posted_lines parse_date p s = Inr ([], items) \<and> packed_outcome items r s s' \<and> answers editing r)"
    by (rule handle_pack_outcome [OF assms(1,2)]) (rule known)
  then show ?thesis
  proof (elim disjE exE conjE)
    fix x y assume "r = Pack_Page x y" and "s' = s"
    then show ?thesis by (simp add: answer_holds_def)
  next
    fix items assume "posted_lines parse_date p s = Inr ([], items)" and "packed_outcome items r s s'" and "answers editing r"
    then show ?thesis using outcome_answer [OF _ _ assms(3)] assms(4) by blast
  qed
qed

section \<open>Properties\<close>

text \<open>
  C8: A request of the packing page or of a carton's page that succeeds has packed exactly the lines it
  read without an error: the new cartons (or the one edited, emptied first) hold each base product as often
  as the lines need it, kits expanded, whatever bins were formed; no other carton changed, no
  unit of a lot was made or lost, and an answer that shows the page again changed nothing.
\<close>
theorem packing_request_packs_the_lines:
  assumes "run_pack_page fl parse_date e user preparer page p s = Inr (r, s')" and "stock_ok s" and "items_in_cartons s"
  shows "answer_holds parse_date page p r s s'"
proof -
  obtain u default_format where f: "build_carton_formats s = (u, default_format)" by (meson surj_pair)
  show ?thesis
  proof (cases page)
    case Scan_Pack
    then have "handle_pack_post fl parse_date e user preparer p default_format None s = Inr (r, s')"
      using assms(1) by (simp add: run_pack_page_def f)
    then show ?thesis by (rule page_answer [OF _ assms(2,3)]) (simp_all add: Scan_Pack)
  next
    case (Scan_Carton_Edit k)
    note run = assms(1) [unfolded run_pack_page_def f Scan_Carton_Edit Let_def prod.case pack_page.case]
    from run obtain c where c: "row_get (db_cartons s) k = Some c"
      by (cases "row_get (db_cartons s) k") simp_all
    note run = run [unfolded c require_simps res_bind_simps]
    from run consider "r = Not_Editable" "s' = s"
      | "handle_pack_post fl parse_date e user preparer p default_format (Some (k, c)) s = Inr (r, s')"
      by (cases "carton_is_editable c s") auto
    then show ?thesis
    proof cases
      case 1
      then show ?thesis by (simp add: answer_holds_def)
    next
      case 2
      then show ?thesis by (rule page_answer [OF _ assms(2,3)]) (simp_all add: Scan_Carton_Edit c)
    qed
  qed
qed

definition sample_pack :: pack_post where
  "sample_pack = \<lparr>pp_action = [], pp_format = Format_Id (Some 1), pp_length = None, pp_width = None, pp_height = None,
     pp_max_weight = None, pp_line_count = ''3'',
     pp_lines = [\<lparr>po_product_code = ''kit'', po_quantity = ''2'', po_expires_on = [], po_pack_family = []\<rparr>, blank_line,
                 \<lparr>po_product_code = ''P1'', po_quantity = '' 3 '', po_expires_on = [], po_pack_family = []\<rparr>],
     pp_confirm_defaults = True, pp_shipment_reference = '' 260001'', pp_preassigned = [], pp_location = ''1''\<rparr>"

definition pack_sample :: "err + pack_response \<times> db" where
  "pack_sample = run_pack_page (\<lambda>x. x) (\<lambda>_. Inr None) sample_env (Some 1) False Scan_Pack sample_pack sample_db"

definition packed_sample :: db where
  "packed_sample = (case pack_sample of Inl _ \<Rightarrow> sample_db | Inr (_, t) \<Rightarrow> t)"

lemma map_sum_Inr:
  assumes "map_sum f g r = Inr y"
  obtains x where "r = Inr x" and "g x = y"
  using assms by (cases r) auto

lemma pack_sample_answer:
  "map_sum id fst pack_sample = Inr (Packed [\<lparr>pc_carton = 1, pc_zone_label = [], pc_family = []\<rparr>])"
  by code_simp

lemma pack_sample_run:
  "run_pack_page (\<lambda>x. x) (\<lambda>_. Inr None) sample_env (Some 1) False Scan_Pack sample_pack sample_db
     = Inr (Packed [\<lparr>pc_carton = 1, pc_zone_label = [], pc_family = []\<rparr>], packed_sample)"
proof -
  from pack_sample_answer obtain x where x: "pack_sample = Inr x"
    and r: "fst x = Packed [\<lparr>pc_carton = 1, pc_zone_label = [], pc_family = []\<rparr>]" by (rule map_sum_Inr)
  have "packed_sample = snd x" unfolding packed_sample_def x by (simp add: case_prod_beta)
  then have "x = (Packed [\<lparr>pc_carton = 1, pc_zone_label = [], pc_family = []\<rparr>], packed_sample)"
    using r by (simp add: prod_eq_iff)
  then show ?thesis unfolding pack_sample_def [symmetric] x by (rule arg_cong)
qed

lemma pack_sample_needs:
  "map_sum id (\<lambda>(errors, items). (errors, map (lines_need sample_db items) [1, 2])) (posted_lines (\<lambda>_. Inr None) sample_pack sample_db)
     = Inr ([], [7, 2])"
  by code_simp

theorem packing_request_packs_the_lines_witness:
  "units_of 1 1 packed_sample = 7 \<and> units_of 1 2 packed_sample = 2"
proof -
  have "items_in_cartons sample_db" by (simp add: items_in_cartons_def sample_db_def keys_ok_def)
  from packing_request_packs_the_lines [OF pack_sample_run stock_ok_sample this] obtain items
    where "posted_lines (\<lambda>_. Inr None) sample_pack sample_db = Inr ([], items)"
      and "\<And>c. units_of 1 c packed_sample = lines_need sample_db items c"
    by (auto simp: answer_holds_def asked_lines_packed_def)
  then show ?thesis using pack_sample_needs by simp
qed

end
