(* ===== verification/Spec2Isabelle.thy ===== *)
theory Spec2Isabelle
  imports Warehouse Reservation_Properties Code_Properties Tracking_Properties Version_Properties Edit_Properties Solver_Properties Queue_Properties Billing_Properties
    Party_Properties Bin_Properties Order_Properties Pack_Properties
begin

text \<open>
  The logistics core of ASF WMS, the warehouse management system of Aviation Sans Frontieres
  (\<open>src/wms\<close>, \<open>src/contacts\<close>, \<open>src/api/v1\<close>; Django, Python): goods are received into lots, reserved for orders,
  packed into cartons, gathered into shipments, planned on flights, tracked to delivery and billed.

  \<^bold>\<open>How the code is read.\<close> A Django model is a record, its table an association list from primary
  keys to rows in order of insertion (\<open>Tables\<close>), and the tables of the warehouse together the record
  \<open>db\<close> (\<open>Data_Model\<close>). An operation is a function \<open>env \<Rightarrow> arguments \<Rightarrow> db \<Rightarrow> err + result \<times> db\<close>: \<open>Inl\<close> is an
  exception, and since the code runs the operation in \<open>transaction.atomic\<close>, it leaves no state. Where it
  does not, the function returns the state beside the exception: the queue runners and upload views
  (\<open>Event_Queue\<close>, \<open>Documents\<close>), the requests of the billing editor, and the steps of \<open>Party_Setup\<close>. \<open>env\<close> holds
  what an operation reads from outside, the clock, the time zone's date and the settings; one operation
  reads one clock. Instances of one row that the ORM loads twice are kept apart where a write through
  one of them is lost (\<open>Reservations\<close>). Integers of Python are \<open>int\<close>; decimals are rationals with the
  rounding of the column written out (\<open>decimal_column\<close>: half even to two places); floats are the rationals
  they stand for with the rounding \<open>fl\<close> as a parameter. Strings are lists of bytes: case and blanks
  follow ASCII, as the references, codes and times of the program do. Tables of one part stand in a
  record of their own beside \<open>db\<close>: \<open>plan_db\<close>, \<open>bill_db\<close>, \<open>party_db\<close>, \<open>prep_db\<close>, \<open>mail_state\<close>, \<open>doc_state\<close>.

  \<^bold>\<open>The parts, in the order of the code's calls.\<close>
  \<^item> \<open>Prelude\<close>, \<open>Tables\<close>, \<open>Text_Codes\<close>, \<open>Json\<close>: results and loops that may raise, dates, tables, texts, JSON
    columns. The collections \<open>wms_ok\<close> (a successful run taken apart) and \<open>wms_inv\<close> (preservation) carry most
    proofs; the locale \<open>kept\<close> is an operation that keeps an invariant, with its runs.
  \<^item> \<open>Data_Model\<close>: \<open>wms/models_domain/catalog.py\<close>, \<open>inventory.py\<close>, \<open>shipment.py\<close>, \<open>portal.py\<close>, \<open>contacts/models.py\<close>.
  \<^item> \<open>Kits\<close>: \<open>wms/kit_components.py\<close>, expansion of kits with its memo and cycle errors, and the guard of
    the kit table; the expansion equals a count of paths and the guard keeps it total.
  \<^item> \<open>References\<close>, \<open>Carton_Codes\<close>: \<open>wms/reference_sequences.py\<close>, \<open>Shipment.save\<close> and the carton codes of
    \<open>wms/domain/stock.py\<close>, three interpretations of the locale \<open>counter\<close>.
  \<^item> \<open>Carton_Status\<close>: \<open>wms/carton_status_events.py\<close> and \<open>wms/shipment_status.py\<close>.
  \<^item> \<open>Stock\<close>, \<open>Packing\<close>, \<open>Ledger\<close>, \<open>Warehouse\<close>: \<open>wms/domain/stock.py\<close>. \<open>Ledger\<close> states what the operations owe the
    books (locale \<open>keeps_books\<close>: between its reservations and its journal a lot never goes wrong), \<open>Warehouse\<close>
    puts the operations into one command type, interprets the locale on it and refines consumption to an
    allocation of the lots first expired first.
  \<^item> \<open>Reservations\<close>: reservations of orders in \<open>wms/domain/orders.py\<close>.
  \<^item> \<open>Parties\<close>, \<open>Party_Setup\<close>, \<open>Party_Facts\<close>: shippers, recipients and their links (\<open>wms/models_domain/shipment_parties.py\<close>,
    \<open>wms/shipment_party_registry.py\<close>, \<open>shipment_party_rules.py\<close>, \<open>shipment_party_setup.py\<close>,
    \<open>default_shipper_bindings.py\<close>, \<open>contacts/correspondent_recipient_promotion.py\<close>, the runtime part of
    \<open>admin_contacts_contact_service.py\<close>). \<open>parties_ok\<close> is the invariant, \<open>registry\<close> its interpretation of \<open>kept\<close>.
  \<^item> \<open>Bins\<close>, \<open>Bin_Facts\<close>: \<open>build_packing_bins\<close> (\<open>wms/scan_pack_helpers.py\<close>); weight and volume interpret the
    locale \<open>carton_room\<close>.
  \<^item> \<open>Pack_Requests\<close>, \<open>Pack_Facts\<close>: the requests of the packing page and of a carton's page (\<open>wms/pack_handlers.py\<close>, with
    \<open>resolve_product\<close>, \<open>resolve_shipment\<close> and \<open>ScanPackForm\<close>); calls \<open>Bins\<close>, \<open>Packing\<close>, \<open>Carton_Codes\<close> and \<open>Carton_Status\<close>.
  \<^item> \<open>Order_Preparation\<close>, \<open>Order_Facts\<close>: the rest of \<open>wms/domain/orders.py\<close> and the snapshot of the parties; calls
    \<open>Reservations\<close>, \<open>Bins\<close>, \<open>Parties\<close>, \<open>Packing\<close> and \<open>Carton_Status\<close>.
  \<^item> \<open>Tracking\<close>, \<open>Carton_Handlers\<close>, \<open>Shipping\<close>: tracking, disputes and closing (\<open>wms/shipment_tracking_handlers.py\<close> and
    the API), the actions of the list of cartons; \<open>life_step\<close> is every step of a shipment's life and its
    invariants go by rule induction.
  \<^item> \<open>Planning_Data\<close>, \<open>Plan_Versions\<close>, \<open>Plan_Rules\<close>, \<open>Plan_Options\<close>: \<open>wms/models_domain/planning.py\<close> and
    \<open>wms/planning/versioning.py\<close>, \<open>shipment_updates.py\<close>, \<open>rules.py\<close>, \<open>operator_options.py\<close>, \<open>operator_mutations.py\<close>.
  \<^item> \<open>Plan_Solver\<close>, \<open>Plan_Cp_Model\<close>, \<open>Plan_Run\<close> with \<open>Plan_Solver_Facts\<close>, \<open>Plan_Feasibility\<close>, \<open>Plan_Optimum\<close>:
    \<open>wms/planning/solver.py\<close>, the constraints and objectives it hands to CP-SAT and what it makes of the answer.
  \<^item> \<open>Event_Queue\<close>, \<open>Email_Queue\<close>, \<open>Email_Facts\<close>, \<open>Documents\<close>, \<open>Document_Facts\<close>: the two queues of integration events
    (\<open>wms/emailing.py\<close>, \<open>wms/document_scan_queue.py\<close>, uploads); both interpret the locale \<open>queue_handler\<close>.
  \<^item> \<open>Billing\<close>, \<open>Billing_Facts\<close>, \<open>Billing_Documents\<close>: \<open>wms/billing_calculations.py\<close>, \<open>wms/unit_equivalence.py\<close>,
    \<open>wms/models_domain/billing.py\<close>, \<open>wms/billing_document_handlers.py\<close> and the requests of \<open>views_scan_billing.py\<close> and
    \<open>views_portal_billing.py\<close>; \<open>bills_ok\<close> is the typing of the books, \<open>billing_step\<close> the steps between them.
  \<^item> The theories \<open>..._Properties\<close> hold the properties, each with an instance on the tables of \<open>Samples\<close> or of
    its own.

  \<^bold>\<open>What the theorems show.\<close> Books: stock, reservations and journal agree after any operations, also
  failed ones. Exactness: an operation moves the quantity asked for or raises; preparing an order ends with
  every line prepared and packed within the limits of the cartons, a packing request packs the lines it read
  or changes nothing. Identity: codes are never reused.
  Life cycles: a carton is shipped exactly when its shipment is under way; each tracking request is one
  stage; a ready shipment can be delivered; a run has one published version. Rules: edits and solver runs
  store plans within capacity, availability and compatibility, and the solver's plan ships the most
  priority weight. Queues: the oldest due events are taken and settled; of the uploads only those of the API are
  clean without a scan. Money: totals to the cent, credit notes opposite to their invoice, statuses that follow payments,
  issued documents that keep what they were issued with. Registry: who is offered is accepted. Some theorems state what the
  code does against its intention: two reservations of one lot lose an update, quote numbers run out, a
  paid shipment is offered again, a stopover cannot be handed over, the shared support organization
  serves one stopover.

  \<^bold>\<open>Recursion and bounds.\<close> Loops over rows are structural. The expansion of kits is a function on the
  kits not yet on the stack, the selection of due e-mails one on the events after the cursor, and the packing
  loop one on the units left (each round places at least one); all have termination proofs. The walks up the parents of a category carry
  fuel, one step per category: every walk without repetition ends within it, and one that runs out is
  \<open>Diverges\<close>, the code's endless loop on a cyclic table. Whole numbers up to \<open>2 ^ 53\<close> are
  assumed exact in floats, which holds of IEEE doubles.

  \<^bold>\<open>Parameters.\<close> CP-SAT (\<open>cp_solver\<close>: from constraints and an objective to values or none; \<open>cp_sound\<close>, \<open>cp_complete\<close> and
  \<open>cp_optimal_for\<close> say what is assumed where), the mail transports and Django's \<open>parse_datetime\<close> (\<open>mail_env\<close>) and \<open>parse_date\<close>, storage, the
  scanner process and the model registry (\<open>doc_env\<close>), the remote exchange rates, the random token of
  a new shipment, float rounding. Each theorem that relies on one names the hypothesis, and its
  instance gives a concrete function.

  \<^bold>\<open>Not modelled.\<close> The other forms, pages, templates, redirects and permissions; the JSON serializers; the
  administration site; printing and export files; the spreadsheet parsers of the imports; accounts and
  sessions; contact merges and the portal's recipient synchronisation (field copies over the registry that is
  modelled); planning communications, dashboards and the flight service; volunteer pages; commands,
  settings and the desktop helper. They read and render, or depend on services and libraries outside the
  repository. Of the modelled parts: log lines, addresses and capabilities of contacts, QR codes, the
  batch that unpacks several cartons, and concurrent transactions, whose \<open>IntegrityError\<close> branches are not
  reached by operations in sequence.
\<close>

end
